(* ===== verification/Prelude.thy ===== *)
theory Prelude
  imports Main
begin

text \<open>
  Shared vocabulary of the development: result values for operations that may throw, database
  tables as lists of rows, the two uniqueness disciplines the services rely on (an insert that a
  unique key refuses, a compare-and-swap that a status guards), and the two interfaces
  (\<open>idempotent_log\<close>, \<open>ranked_machine\<close>) that several components implement.

  A table is the list of its rows in insertion order. Row identifiers are natural numbers, because
  every identifier of the code is a \<open>uuidv7()\<close>: unique and increasing with creation time, which is
  all that \<open>ORDER BY id\<close> uses of it. A statement such as
  \<open>UPDATE t SET f WHERE P\<close> is \<open>tupd P f\<close>, and its \<open>affected\<close> count is \<open>taffected P\<close>.
\<close>

named_theorems table_simps \<open>rewriting of table reads after table writes\<close>
named_theorems row_frame \<open>fields and keys that a row update leaves alone\<close>

section \<open>Results of operations that may throw\<close>

type_synonym ('e, 'a) result = "'e + 'a"

definition bind_res :: "'e + 'a \<Rightarrow> ('a \<Rightarrow> 'e + 'b) \<Rightarrow> 'e + 'b" where
  "bind_res r f = (case r of Inl e \<Rightarrow> Inl e | Inr x \<Rightarrow> f x)"

definition require :: "bool \<Rightarrow> 'e \<Rightarrow> 'e + unit" where
  "require b e = (if b then Inr () else Inl e)"

lemma bind_res_simps [simp]:
  "bind_res (Inl e) f = Inl e"
  "bind_res (Inr x) f = f x"
  by (simp_all add: bind_res_def)

lemma bind_res_Inr: "bind_res r f = Inr y \<longleftrightarrow> (\<exists>x. r = Inr x \<and> f x = Inr y)"
  by (cases r) auto

lemma bind_res_Inl: "bind_res r f = Inl e \<longleftrightarrow> r = Inl e \<or> (\<exists>x. r = Inr x \<and> f x = Inl e)"
  by (cases r) auto

lemma require_Inr [simp]: "require b e = Inr u \<longleftrightarrow> b"
  by (simp add: require_def)

lemma require_Inl [simp]: "require b e = Inl e' \<longleftrightarrow> \<not> b \<and> e' = e"
  by (auto simp: require_def)

definition ok :: "'e + 'a \<Rightarrow> bool" where
  "ok r = (case r of Inl _ \<Rightarrow> False | Inr _ \<Rightarrow> True)"

lemma ok_simps [simp]: "ok (Inl e) = False" "ok (Inr x) = True"
  by (simp_all add: ok_def)

lemma ok_iff: "ok r \<longleftrightarrow> (\<exists>x. r = Inr x)"
  by (cases r) auto

section \<open>Tables\<close>

definition tget :: "('r \<Rightarrow> nat) \<Rightarrow> nat \<Rightarrow> 'r list \<Rightarrow> 'r option" where
  "tget k i t = find (\<lambda>r. k r = i) t"

definition tupd :: "('r \<Rightarrow> bool) \<Rightarrow> ('r \<Rightarrow> 'r) \<Rightarrow> 'r list \<Rightarrow> 'r list" where
  "tupd P f t = map (\<lambda>r. if P r then f r else r) t"

definition taffected :: "('r \<Rightarrow> bool) \<Rightarrow> 'r list \<Rightarrow> nat" where
  "taffected P t = length (filter P t)"

definition keyed :: "('r \<Rightarrow> nat) \<Rightarrow> 'r list \<Rightarrow> bool" where
  "keyed k t \<longleftrightarrow> distinct (map k t)"

lemma tget_SomeD: "tget k i t = Some r \<Longrightarrow> r \<in> set t \<and> k r = i"
  unfolding tget_def by (metis (mono_tags, lifting) find_Some_iff nth_mem)

lemma tget_None_iff: "tget k i t = None \<longleftrightarrow> i \<notin> k ` set t"
  unfolding tget_def by (auto simp: find_None_iff)

lemma tget_Nil [simp]: "tget k i [] = None"
  by (simp add: tget_def)

lemma tget_append [table_simps]:
  "tget k i (t @ u) = (case tget k i t of None \<Rightarrow> tget k i u | Some r \<Rightarrow> Some r)"
  unfolding tget_def by (induction t) auto

lemma tget_single [simp]: "tget k i [r] = (if k r = i then Some r else None)"
  by (simp add: tget_def)

lemma tget_tupd [table_simps]:
  assumes "\<And>r. k (f r) = k r"
  shows "tget k i (tupd P f t) = map_option (\<lambda>r. if P r then f r else r) (tget k i t)"
  unfolding tget_def tupd_def by (induction t) (auto simp: assms)

lemma tget_keyed: "keyed k t \<Longrightarrow> r \<in> set t \<Longrightarrow> tget k (k r) t = Some r"
  unfolding tget_def keyed_def by (induction t) (auto simp: image_iff)

lemma keyed_tget_iff: "keyed k t \<Longrightarrow> tget k i t = Some r \<longleftrightarrow> r \<in> set t \<and> k r = i"
  using tget_SomeD tget_keyed by fastforce

lemma keyed_inj: "keyed k t \<Longrightarrow> r \<in> set t \<Longrightarrow> s \<in> set t \<Longrightarrow> k r = k s \<Longrightarrow> r = s"
  by (metis option.inject tget_keyed)

lemma keyed_Nil [simp]: "keyed k []"
  by (simp add: keyed_def)

lemma keyed_append [table_simps]: "keyed k (t @ [r]) \<longleftrightarrow> keyed k t \<and> k r \<notin> k ` set t"
  by (auto simp: keyed_def)

lemma keyed_tupd [table_simps]:
  assumes "\<And>r. k (f r) = k r"
  shows "keyed k (tupd P f t) \<longleftrightarrow> keyed k t"
proof -
  have "map k (tupd P f t) = map k t"
    by (simp add: tupd_def assms)
  then show ?thesis by (simp add: keyed_def)
qed

lemma set_tupd: "set (tupd P f t) = (\<lambda>r. if P r then f r else r) ` set t"
  by (auto simp: tupd_def)

lemma keys_tupd [table_simps]:
  assumes "\<And>r. k (f r) = k r"
  shows "k ` set (tupd P f t) = k ` set t"
proof -
  have "map k (tupd P f t) = map k t"
    by (simp add: tupd_def assms)
  then have "set (map k (tupd P f t)) = set (map k t)" by (rule arg_cong)
  then show ?thesis unfolding set_map .
qed

lemma tupd_none: "\<forall>r \<in> set t. \<not> P r \<Longrightarrow> tupd P f t = t"
  unfolding tupd_def by (induction t) auto

lemma tupd_Nil [simp]: "tupd P f [] = []"
  by (simp add: tupd_def)

lemma tupd_Cons: "tupd P f (r # t) = (if P r then f r else r) # tupd P f t"
  by (simp add: tupd_def)

lemma taffected_0_iff: "taffected P t = 0 \<longleftrightarrow> (\<forall>r \<in> set t. \<not> P r)"
  by (auto simp: taffected_def filter_empty_conv)

lemma taffected_tupd_disjoint:
  "(\<And>r. r \<in> set t \<Longrightarrow> P r \<Longrightarrow> \<not> Q (f r)) \<Longrightarrow> (\<And>r. r \<in> set t \<Longrightarrow> Q r \<Longrightarrow> P r) \<Longrightarrow>
   taffected Q (tupd P f t) = 0"
  by (auto simp: taffected_0_iff set_tupd)

text \<open>An update that names a row by its identifier touches that row only.\<close>

lemma taffected_id:
  assumes "keyed k t"
  shows "taffected (\<lambda>r. k r = i \<and> Q r) t =
    (case tget k i t of None \<Rightarrow> 0 | Some r \<Rightarrow> if Q r then 1 else 0)"
  using assms
proof (induction t)
  case Nil
  then show ?case by (simp add: taffected_def)
next
  case (Cons a t)
  then have IH: "taffected (\<lambda>r. k r = i \<and> Q r) t =
      (case tget k i t of None \<Rightarrow> 0 | Some r \<Rightarrow> if Q r then 1 else 0)"
    and nin: "k a \<notin> k ` set t"
    by (auto simp: keyed_def)
  show ?case
  proof (cases "k a = i")
    case True
    with nin have "tget k i t = None" by (simp add: tget_None_iff)
    with IH True show ?thesis
      by (auto simp: taffected_def tget_def)
  next
    case False
    with IH show ?thesis by (simp add: taffected_def tget_def)
  qed
qed

section \<open>Inserts that a unique key refuses\<close>

text \<open>\<open>INSERT ... ON CONFLICT (key) DO NOTHING\<close>: the rows afterwards and whether a row was written.\<close>

definition insert_once :: "('r \<Rightarrow> 'k) \<Rightarrow> 'r \<Rightarrow> 'r list \<Rightarrow> 'r list \<times> bool" where
  "insert_once key r t = (if key r \<in> key ` set t then (t, False) else (t @ [r], True))"

lemma insert_once_replay [simp]:
  "key r \<in> key ` set t \<Longrightarrow> insert_once key r t = (t, False)"
  by (simp add: insert_once_def)

lemma insert_once_fresh [simp]:
  "key r \<notin> key ` set t \<Longrightarrow> insert_once key r t = (t @ [r], True)"
  by (simp add: insert_once_def)

text \<open>
  The contract every ledger of the platform promises its at-least-once callers: an event is
  recorded or refused as a whole, a recorded key stays recorded, and a recorded key is never
  recorded again. \<open>run\<close> is any sequence of deliveries.
\<close>

locale idempotent_log =
  fixes record_ev :: "'i \<Rightarrow> 's \<Rightarrow> 's \<times> bool"
    and ev_key :: "'i \<Rightarrow> 'k"
    and keys :: "'s \<Rightarrow> 'k set"
  assumes refused_same: "\<not> snd (record_ev i s) \<Longrightarrow> fst (record_ev i s) = s"
    and recorded_keys: "snd (record_ev i s) \<Longrightarrow> keys (fst (record_ev i s)) = insert (ev_key i) (keys s)"
    and known_refused: "ev_key i \<in> keys s \<Longrightarrow> \<not> snd (record_ev i s)"
begin

lemma keys_mono: "keys s \<subseteq> keys (fst (record_ev i s))"
  by (cases "snd (record_ev i s)") (auto simp: refused_same recorded_keys)

lemma recorded_known: "snd (record_ev i s) \<Longrightarrow> ev_key i \<in> keys (fst (record_ev i s))"
  by (simp add: recorded_keys)

lemma known_no_effect: "ev_key i \<in> keys s \<Longrightarrow> record_ev i s = (s, False)"
  using known_refused refused_same by (metis prod.collapse)

lemma fold_keys_mono: "keys s \<subseteq> keys (fold (\<lambda>i s. fst (record_ev i s)) is s)"
proof (induction "is" arbitrary: s)
  case Nil
  show ?case by simp
next
  case (Cons i "is")
  have "keys s \<subseteq> keys (fst (record_ev i s))" by (rule keys_mono)
  also have "\<dots> \<subseteq> keys (fold (\<lambda>i s. fst (record_ev i s)) is (fst (record_ev i s)))"
    by (rule Cons.IH)
  finally show ?case by simp
qed

text \<open>A redelivery, after any other deliveries, changes nothing.\<close>

lemma redelivery_no_effect:
  assumes "snd (record_ev i s)"
  shows "record_ev i (fold (\<lambda>i s. fst (record_ev i s)) is (fst (record_ev i s))) =
    (fold (\<lambda>i s. fst (record_ev i s)) is (fst (record_ev i s)), False)"
  by (rule known_no_effect) (use recorded_known [OF assms] fold_keys_mono in blast)

end

section \<open>Status machines that only move forward\<close>

text \<open>
  The contract of a status column whose every write is a legal move: each move raises a rank, so a
  row never returns to a status it left. The booking, order, intent and refund statuses are each an
  instance, with the rank their transition table induces.
\<close>

locale ranked_machine =
  fixes move :: "'s \<Rightarrow> 's \<Rightarrow> bool"
    and rank :: "'s \<Rightarrow> nat"
  assumes move_rank: "move s t \<Longrightarrow> rank s < rank t"
begin

lemma move_irrefl: "\<not> move s s"
  using move_rank by blast

lemma moves_rank: "move\<^sup>*\<^sup>* s t \<Longrightarrow> rank s \<le> rank t"
  by (induction rule: rtranclp_induct) (auto dest: move_rank)

lemma moves_plus_rank: "move\<^sup>+\<^sup>+ s t \<Longrightarrow> rank s < rank t"
  by (induction rule: tranclp_induct) (auto dest: move_rank)

lemma never_back: "move\<^sup>+\<^sup>+ s t \<Longrightarrow> \<not> move\<^sup>*\<^sup>* t s"
  using moves_plus_rank moves_rank by fastforce

lemma chain_bound: "(move ^^ n) s t \<Longrightarrow> rank s + n \<le> rank t"
proof (induction n arbitrary: t)
  case 0
  then show ?case by simp
next
  case (Suc n)
  then obtain u where u: "(move ^^ n) s u" "move u t" by auto
  from Suc.IH [OF u(1)] move_rank [OF u(2)] show ?case by simp
qed

end

section \<open>Sums\<close>

lemma sum_list_map_append [simp]: "sum_list (map f (xs @ ys)) = sum_list (map f xs) + sum_list (map f (ys :: 'a list))"
  for f :: "'a \<Rightarrow> 'b :: comm_monoid_add"
  by simp

lemma sum_list_map_nonneg: "(\<And>x. x \<in> set xs \<Longrightarrow> 0 \<le> f x) \<Longrightarrow> 0 \<le> sum_list (map f xs)"
  for f :: "'a \<Rightarrow> int"
  by (induction xs) auto

lemma sum_list_filter_upd:
  fixes g :: "'a \<Rightarrow> int"
  assumes "\<And>r. r \<in> set t \<Longrightarrow> g (if P r then f r else r) = g r + (if P r then d else 0)"
  shows "sum_list (map g (tupd P f t)) = sum_list (map g t) + d * int (taffected P t)"
  using assms
proof (induction t)
  case Nil
  then show ?case by (simp add: taffected_def)
next
  case (Cons a t)
  have "sum_list (map g (tupd P f t)) = sum_list (map g t) + d * int (taffected P t)"
    by (rule Cons.IH) (use Cons.prems in auto)
  then show ?case
    using Cons.prems [of a] by (auto simp: tupd_Cons taffected_def algebra_simps)
qed

end
