(* ===== verification/Booking_Model.thy ===== *)
theory Booking_Model
  imports Prelude
begin

text \<open>
  The booking domain (\<open>services/booking/src/booking/booking.service.ts\<close> with its entities, errors,
  configuration and ports): the slots, the bookings and their history, the idempotency keys, the
  resource assignments and the no-show declarations as one database state, and one function per
  operation of the service. An operation is a transaction: \<open>Inl\<close> is a thrown error and a rollback,
  \<open>Inr\<close> carries the result and the state after commit.

  The unique and exclusion constraints the service relies on are part of the writes that can violate
  them: \<open>uq_bookings_active_slot\<close>, \<open>uq_booking_idempotency_keys\<close>, \<open>ex_booking_resource_no_overlap\<close>.
  Under READ COMMITTED another transaction may commit between a read and the guarded write that follows
  it; the operations that do so take the rows their read saw (\<open>rd\<close>) apart from the state they write.
  The ports of the composition root (\<open>ports.ts\<close>) are parameters, bundled in \<open>booking_ports\<close>; a hook
  that is called is recorded in \<open>db_hooks\<close>. Times are whole milliseconds; the application clock and the
  database clock are two fields of \<open>clock\<close>.
\<close>

section \<open>Data\<close>

datatype slot_status = SlotOpen | SlotHeld | SlotBooked
datatype booking_status = Pending | Confirmed | Completed | Cancelled | Expired | NoShown
datatype booking_actor_type = ActCustomer | ActProfessional | ActSystem | ActAdmin

record booking_actor =
  ac_type :: booking_actor_type
  ac_id :: "nat option"

record slot =
  sl_id :: nat
  sl_professional :: nat
  sl_service :: "nat option"
  sl_location :: "nat option"
  sl_start :: int
  sl_end :: int
  sl_status :: slot_status
  sl_heldUntil :: "int option"
  sl_heldBy :: "nat option"

record booking =
  bk_id :: nat
  bk_customer :: nat
  bk_professional :: nat
  bk_service :: "nat option"
  bk_slot :: nat
  bk_start :: int
  bk_end :: int
  bk_status :: booking_status
  bk_holdExpiresAt :: "int option"
  bk_rescheduleCount :: nat
  bk_cancellationReason :: "string option"
  bk_cancelledByType :: "booking_actor_type option"
  bk_cancelledById :: "nat option"
  bk_confirmedAt :: "int option"
  bk_completedAt :: "int option"
  bk_cancelledAt :: "int option"

datatype history_event = HistCreated | HistRescheduled | HistStatus booking_status

datatype history_metadata = NoMeta | MetaCreated nat int | MetaRescheduled nat nat int int

record booking_history =
  hi_booking :: nat
  hi_event :: history_event
  hi_from :: "booking_status option"
  hi_to :: "booking_status option"
  hi_actorType :: booking_actor_type
  hi_actorId :: "nat option"
  hi_reason :: "string option"
  hi_metadata :: history_metadata
  hi_createdAt :: int

record idempotency_key =
  ik_owner :: nat
  ik_key :: string
  ik_result :: nat

datatype assignment_status = AssignmentActive | AssignmentReleased

record resource_assignment =
  ra_booking :: nat
  ra_resource :: nat
  ra_start :: int
  ra_end :: int
  ra_status :: assignment_status

datatype evaluation_state = WindowOpen | Disputed | Evaluated

record no_show_declaration =
  nd_booking :: nat
  nd_declaredBy :: nat
  nd_declaredAt :: int
  nd_graceMinutes :: "int option"
  nd_statement :: string
  nd_objectionWindowEndsAt :: "int option"
  nd_evaluationState :: evaluation_state

datatype booking_event =
    BookingCreated nat nat nat "nat option" nat int
  | BookingConfirmed nat nat nat int
  | BookingCancelled nat nat nat nat booking_status int booking_actor_type "nat option" "string option"
  | BookingCompleted nat nat nat "nat option" int
  | BookingNoShowDeclared nat nat nat int int
  | BookingRescheduled nat nat nat nat nat int int nat
  | BookingExpired nat nat nat nat int

datatype hook_call = OnBookingCancellation nat booking_actor_type bool | RecordConsequence nat

record booking_db =
  db_slots :: "slot list"
  db_bookings :: "booking list"
  db_history :: "booking_history list"
  db_keys :: "idempotency_key list"
  db_assignments :: "resource_assignment list"
  db_declarations :: "no_show_declaration list"
  db_outbox :: "booking_event list"
  db_hooks :: "hook_call list"
  db_next :: nat

datatype reschedule_refusal = RefStatus | RefMaxReached | RefTooClose | RefSameSlot | RefInvalidSlot | RefConsequenceUnavailable

datatype booking_error =
    SlotUnavailable
  | TooManyActiveHolds nat
  | InvalidBookingTransition booking_status booking_status
  | RescheduleNotAllowed reschedule_refusal
  | RescheduleConsequenceRequired int int int
  | NoShowStatementRequired
  | UniqueViolation
  | CheckViolation
  | EntityNotFound

record booking_config =
  bc_holdMinutes :: int
  bc_maxConcurrentHolds :: nat
  bc_maxReschedules :: nat
  bc_rescheduleMinHours :: int

record clock =
  ck_js :: int
  ck_db :: int

datatype reschedule_governance = UngovernedReschedule | GovernedReschedule int nat
datatype no_show_governance = UngovernedNoShow | GovernedNoShow int int

record reschedule_facts =
  rf_booking :: nat
  rf_eventInstant :: int
  rf_cutoffInstant :: int
  rf_timely :: bool
  rf_wasConfirmed :: bool

record booking_ports =
  pt_eligibleResources :: "nat option \<Rightarrow> nat option \<Rightarrow> nat list option"
  pt_eligibleAfterLock :: "nat \<Rightarrow> nat option \<Rightarrow> nat option \<Rightarrow> nat list option"
  pt_governReschedule :: "nat \<Rightarrow> reschedule_governance"
  pt_consequenceRetained :: "reschedule_governance \<Rightarrow> reschedule_facts \<Rightarrow> int"
  pt_governNoShow :: "nat \<Rightarrow> no_show_governance"

type_synonym 'a booking_result = "booking_error + 'a \<times> booking_db"

fun LEGAL_TRANSITIONS :: "booking_status \<Rightarrow> booking_status list" where
  "LEGAL_TRANSITIONS Pending = [Confirmed, Cancelled, Expired]"
| "LEGAL_TRANSITIONS Confirmed = [Completed, Cancelled, NoShown]"
| "LEGAL_TRANSITIONS Completed = []"
| "LEGAL_TRANSITIONS Cancelled = []"
| "LEGAL_TRANSITIONS Expired = []"
| "LEGAL_TRANSITIONS NoShown = []"

definition SLOT_HOLDING_STATUSES :: "booking_status list" where
  "SLOT_HOLDING_STATUSES = [Pending, Confirmed]"

definition BOOKING_STATUSES :: "booking_status list" where
  "BOOKING_STATUSES = [Pending, Confirmed, Completed, Cancelled, Expired, NoShown]"

definition CONCLUDED_BOOKING_STATUSES :: "booking_status list" where
  "CONCLUDED_BOOKING_STATUSES = [Completed, Cancelled, Expired, NoShown]"

definition OPEN_BOOKING_STATUSES :: "booking_status list" where
  "OPEN_BOOKING_STATUSES = filter (\<lambda>s. s \<notin> set CONCLUDED_BOOKING_STATUSES) BOOKING_STATUSES"

abbreviation holding :: "booking \<Rightarrow> bool" where
  "holding b \<equiv> bk_status b \<in> set SLOT_HOLDING_STATUSES"

definition SYSTEM_ACTOR :: booking_actor where
  "SYSTEM_ACTOR = \<lparr>ac_type = ActSystem, ac_id = None\<rparr>"

section \<open>Shared steps\<close>

definition recordHistory :: "clock \<Rightarrow> nat \<Rightarrow> history_event \<Rightarrow> booking_status option \<Rightarrow> booking_status option \<Rightarrow>
    booking_actor \<Rightarrow> string option \<Rightarrow> history_metadata \<Rightarrow> booking_db \<Rightarrow> booking_db" where
  "recordHistory c bid ev frm to actor reason meta s =
    s\<lparr>db_history := db_history s @
      [\<lparr>hi_booking = bid, hi_event = ev, hi_from = frm, hi_to = to, hi_actorType = ac_type actor,
        hi_actorId = ac_id actor, hi_reason = reason, hi_metadata = meta, hi_createdAt = ck_db c\<rparr>]\<rparr>"

definition emitEvent :: "booking_event \<Rightarrow> booking_db \<Rightarrow> booking_db" where
  "emitEvent ev s = s\<lparr>db_outbox := db_outbox s @ [ev]\<rparr>"

text \<open>
  \<open>transition\<close>: the status read (\<open>rd\<close>), the legality check, the compare-and-swap on the current rows,
  the history row. \<open>throwing\<close> is \<open>onIllegal = 'throw'\<close>.
\<close>

definition transition :: "booking list \<Rightarrow> clock \<Rightarrow> nat \<Rightarrow> booking_status \<Rightarrow> booking_status list \<Rightarrow> booking_actor \<Rightarrow>
    string option \<Rightarrow> (booking \<Rightarrow> booking) \<Rightarrow> bool \<Rightarrow> booking_db \<Rightarrow> bool booking_result" where
  "transition rd c bid to allowedFrom actor reason extra throwing s =
    (case tget bk_id bid rd of
       None \<Rightarrow> Inr (False, s)
     | Some current \<Rightarrow>
        (if bk_status current \<notin> set allowedFrom
         then (if throwing \<and> to \<notin> set (LEGAL_TRANSITIONS (bk_status current))
               then Inl (InvalidBookingTransition (bk_status current) to) else Inr (False, s))
         else if taffected (\<lambda>b. bk_id b = bid \<and> bk_status b \<in> set allowedFrom) (db_bookings s) \<noteq> 1
         then Inr (False, s)
         else Inr (True, recordHistory c bid (HistStatus to) (Some (bk_status current)) (Some to) actor reason NoMeta
                (s\<lparr>db_bookings := tupd (\<lambda>b. bk_id b = bid \<and> bk_status b \<in> set allowedFrom)
                     (\<lambda>b. extra (b\<lparr>bk_status := to\<rparr>)) (db_bookings s)\<rparr>))))"

definition claimable :: "int \<Rightarrow> slot \<Rightarrow> bool" where
  "claimable now sl \<longleftrightarrow> now < sl_start sl \<and>
     (sl_status sl = SlotOpen \<or> sl_status sl = SlotHeld \<and> (\<exists>t. sl_heldUntil sl = Some t \<and> t < now))"

lemma claimable_code [code]:
  "claimable now sl = (now < sl_start sl \<and>
     (sl_status sl = SlotOpen \<or> sl_status sl = SlotHeld \<and> (case sl_heldUntil sl of None \<Rightarrow> False | Some t \<Rightarrow> t < now)))"
  by (auto simp: claimable_def split: option.splits)

definition claimSlot :: "nat \<Rightarrow> nat \<Rightarrow> nat \<Rightarrow> int \<Rightarrow> int \<Rightarrow> booking_db \<Rightarrow> slot booking_result" where
  "claimSlot slotId professionalId bookingId holdExpiresAt now s =
    (let P = (\<lambda>sl. sl_id sl = slotId \<and> sl_professional sl = professionalId \<and> claimable now sl);
         s' = s\<lparr>db_slots := tupd P (\<lambda>sl. sl\<lparr>sl_status := SlotHeld, sl_heldUntil := Some holdExpiresAt,
                  sl_heldBy := Some bookingId\<rparr>) (db_slots s)\<rparr>
     in if taffected P (db_slots s) \<noteq> 1 then Inl SlotUnavailable
        else case tget sl_id slotId (db_slots s') of None \<Rightarrow> Inl EntityNotFound | Some sl \<Rightarrow> Inr (sl, s'))"

definition setSlotBooked :: "nat \<Rightarrow> nat \<Rightarrow> booking_db \<Rightarrow> booking_db" where
  "setSlotBooked slotId bookingId s =
    s\<lparr>db_slots := tupd (\<lambda>sl. sl_id sl = slotId)
       (\<lambda>sl. sl\<lparr>sl_status := SlotBooked, sl_heldUntil := None, sl_heldBy := Some bookingId\<rparr>) (db_slots s)\<rparr>"

definition releaseSlot :: "nat \<Rightarrow> nat \<Rightarrow> booking_db \<Rightarrow> booking_db" where
  "releaseSlot slotId bookingId s =
    s\<lparr>db_slots := tupd (\<lambda>sl. sl_id sl = slotId \<and> (sl_heldBy sl = Some bookingId \<or> sl_heldBy sl = None))
       (\<lambda>sl. sl\<lparr>sl_status := SlotOpen, sl_heldUntil := None, sl_heldBy := None\<rparr>) (db_slots s)\<rparr>"

definition releaseResourceAssignment :: "nat \<Rightarrow> booking_db \<Rightarrow> booking_db" where
  "releaseResourceAssignment bookingId s =
    s\<lparr>db_assignments := tupd (\<lambda>a. ra_booking a = bookingId \<and> ra_status a = AssignmentActive)
       (\<lambda>a. a\<lparr>ra_status := AssignmentReleased\<rparr>) (db_assignments s)\<rparr>"

text \<open>\<open>ex_booking_resource_no_overlap\<close>: another booking's active assignment of the resource overlaps \<open>[a, b)\<close>.\<close>

definition resource_collision :: "nat \<Rightarrow> nat \<Rightarrow> int \<Rightarrow> int \<Rightarrow> resource_assignment list \<Rightarrow> bool" where
  "resource_collision bookingId resourceId a b t \<longleftrightarrow>
    list_ex (\<lambda>r. ra_booking r \<noteq> bookingId \<and> ra_status r = AssignmentActive \<and> ra_resource r = resourceId \<and>
      a < ra_end r \<and> ra_start r < b) t"

definition write_assignment :: "nat \<Rightarrow> nat \<Rightarrow> int \<Rightarrow> int \<Rightarrow> booking_db \<Rightarrow> booking_db" where
  "write_assignment bookingId resourceId a b s =
    (if tget ra_booking bookingId (db_assignments s) \<noteq> None
     then s\<lparr>db_assignments := tupd (\<lambda>r. ra_booking r = bookingId)
            (\<lambda>r. r\<lparr>ra_resource := resourceId, ra_start := a, ra_end := b, ra_status := AssignmentActive\<rparr>) (db_assignments s)\<rparr>
     else s\<lparr>db_assignments := db_assignments s @
            [\<lparr>ra_booking = bookingId, ra_resource = resourceId, ra_start = a, ra_end = b, ra_status = AssignmentActive\<rparr>]\<rparr>)"

fun try_resources :: "booking_ports \<Rightarrow> nat \<Rightarrow> nat option \<Rightarrow> nat option \<Rightarrow> int \<Rightarrow> int \<Rightarrow> booking_db \<Rightarrow> nat list \<Rightarrow>
    booking_error + booking_db" where
  "try_resources ports bookingId svc loc a b s [] = Inl SlotUnavailable"
| "try_resources ports bookingId svc loc a b s (r # rs) =
    (case pt_eligibleAfterLock ports r svc loc of
       None \<Rightarrow> try_resources ports bookingId svc loc a b s rs
     | Some xs \<Rightarrow>
        (if r \<notin> set xs \<or> resource_collision bookingId r a b (db_assignments s)
         then try_resources ports bookingId svc loc a b s rs
         else Inr (write_assignment bookingId r a b s)))"

definition syncResourceAssignment :: "booking_ports \<Rightarrow> nat \<Rightarrow> nat option \<Rightarrow> nat option \<Rightarrow> int \<Rightarrow> int \<Rightarrow> booking_db \<Rightarrow>
    booking_error + booking_db" where
  "syncResourceAssignment ports bookingId svc loc a b s =
    (case pt_eligibleResources ports svc loc of
       None \<Rightarrow> Inr (releaseResourceAssignment bookingId s)
     | Some candidates \<Rightarrow>
        (if candidates = [] then Inl SlotUnavailable
         else try_resources ports bookingId svc loc a b s (sort candidates)))"

section \<open>Creating a booking\<close>

record create_input =
  in_customer :: nat
  in_professional :: nat
  in_slot :: nat
  in_service :: "nat option"
  in_idempotencyKey :: "string option"

definition findByIdempotencyKey :: "nat \<Rightarrow> string \<Rightarrow> booking_db \<Rightarrow> booking option" where
  "findByIdempotencyKey customerId key s =
    (case find (\<lambda>k. ik_owner k = customerId \<and> ik_key k = key) (db_keys s) of
       None \<Rightarrow> None | Some k \<Rightarrow> tget bk_id (ik_result k) (db_bookings s))"

definition activeHolds :: "nat \<Rightarrow> booking_db \<Rightarrow> nat" where
  "activeHolds customerId s = taffected (\<lambda>b. bk_customer b = customerId \<and> bk_status b = Pending) (db_bookings s)"

definition new_booking :: "nat \<Rightarrow> create_input \<Rightarrow> slot \<Rightarrow> int \<Rightarrow> booking" where
  "new_booking bid inp sl holdExpiresAt =
    \<lparr>bk_id = bid, bk_customer = in_customer inp, bk_professional = in_professional inp,
     bk_service = (case in_service inp of Some v \<Rightarrow> Some v | None \<Rightarrow> sl_service sl),
     bk_slot = sl_id sl, bk_start = sl_start sl, bk_end = sl_end sl, bk_status = Pending,
     bk_holdExpiresAt = Some holdExpiresAt, bk_rescheduleCount = 0, bk_cancellationReason = None,
     bk_cancelledByType = None, bk_cancelledById = None, bk_confirmedAt = None, bk_completedAt = None,
     bk_cancelledAt = None\<rparr>"

text \<open>\<open>manager.insert(BookingEntity, ...)\<close> under \<open>uq_bookings_active_slot\<close>.\<close>

definition insert_booking :: "booking \<Rightarrow> booking_db \<Rightarrow> booking_error + booking_db" where
  "insert_booking b s =
    (if list_ex (\<lambda>x. holding x \<and> bk_slot x = bk_slot b) (db_bookings s) then Inl UniqueViolation
     else Inr (s\<lparr>db_bookings := db_bookings s @ [b]\<rparr>))"

definition insert_idempotency_key :: "nat \<Rightarrow> string option \<Rightarrow> nat \<Rightarrow> booking_db \<Rightarrow> booking_error + booking_db" where
  "insert_idempotency_key owner key result s =
    (case key of None \<Rightarrow> Inr s
     | Some k \<Rightarrow>
        (if list_ex (\<lambda>x. ik_owner x = owner \<and> ik_key x = k) (db_keys s) then Inl UniqueViolation
         else Inr (s\<lparr>db_keys := db_keys s @ [\<lparr>ik_owner = owner, ik_key = k, ik_result = result\<rparr>]\<rparr>)))"

definition service_mismatch :: "nat option \<Rightarrow> nat option \<Rightarrow> bool" where
  "service_mismatch a b = (case (a, b) of (Some x, Some y) \<Rightarrow> x \<noteq> y | _ \<Rightarrow> False)"

definition createWithin :: "booking_ports \<Rightarrow> booking_config \<Rightarrow> clock \<Rightarrow> create_input \<Rightarrow> string option \<Rightarrow> booking_db \<Rightarrow>
    booking booking_result" where
  "createWithin ports cfg c inp key s =
    (if bc_maxConcurrentHolds cfg \<le> activeHolds (in_customer inp) s
     then Inl (TooManyActiveHolds (bc_maxConcurrentHolds cfg))
     else
       let bid = db_next s; now = ck_js c; holdExpiresAt = now + bc_holdMinutes cfg * 60000;
           s0 = s\<lparr>db_next := Suc bid\<rparr>
       in bind_res (claimSlot (in_slot inp) (in_professional inp) bid holdExpiresAt now s0) (\<lambda>(sl, s1).
          if service_mismatch (sl_service sl) (in_service inp) then Inl SlotUnavailable
          else let b = new_booking bid inp sl holdExpiresAt in
          bind_res (insert_booking b s1) (\<lambda>s2.
          bind_res (syncResourceAssignment ports bid (bk_service b) (sl_location sl) (sl_start sl) (sl_end sl) s2) (\<lambda>s3.
          bind_res (insert_idempotency_key (in_customer inp) key bid s3) (\<lambda>s4.
          let s5 = recordHistory c bid HistCreated None (Some Pending)
                     \<lparr>ac_type = ActCustomer, ac_id = Some (in_customer inp)\<rparr> None (MetaCreated (sl_id sl) holdExpiresAt) s4;
              s6 = emitEvent (BookingCreated bid (in_professional inp) (in_customer inp) (bk_service b) (sl_id sl) (sl_start sl)) s5
          in Inr (b, s6))))))"

definition is_js_space :: "char \<Rightarrow> bool" where
  "is_js_space ch \<longleftrightarrow> (of_char ch :: nat) \<in> {9, 10, 11, 12, 13, 32, 160}"

definition js_trim :: "string \<Rightarrow> string" where
  "js_trim t = rev (dropWhile is_js_space (rev (dropWhile is_js_space t)))"

definition normalise_key :: "string option \<Rightarrow> string option" where
  "normalise_key k = (case k of None \<Rightarrow> None | Some t \<Rightarrow> if js_trim t = [] then None else Some (js_trim t))"

text \<open>
  \<open>create\<close>: the replay check before, the transaction, and the replay check after a failure. \<open>s\<close> is the
  database the transaction saw and \<open>after\<close> the database once it has rolled back, where a concurrent
  request with the same key may have committed.
\<close>

definition create :: "booking_ports \<Rightarrow> booking_config \<Rightarrow> clock \<Rightarrow> create_input \<Rightarrow> booking_db \<Rightarrow> booking_db \<Rightarrow>
    booking booking_result" where
  "create ports cfg c inp s after =
    (let key = normalise_key (in_idempotencyKey inp);
         replay = (\<lambda>db. case key of None \<Rightarrow> None | Some k \<Rightarrow> findByIdempotencyKey (in_customer inp) k db)
     in case replay s of
          Some b \<Rightarrow> Inr (b, s)
        | None \<Rightarrow>
           (case createWithin ports cfg c inp key s of
              Inr r \<Rightarrow> Inr r
            | Inl e \<Rightarrow>
               (case replay after of
                  Some b \<Rightarrow> Inr (b, after)
                | None \<Rightarrow> if e = UniqueViolation then Inl SlotUnavailable else Inl e)))"

section \<open>Confirming, cancelling, completing\<close>

definition confirm :: "booking list \<Rightarrow> clock \<Rightarrow> nat \<Rightarrow> booking_actor \<Rightarrow> booking_db \<Rightarrow> bool booking_result" where
  "confirm rd c bid actor s =
    bind_res (transition rd c bid Confirmed [Pending] actor None
      (\<lambda>b. b\<lparr>bk_confirmedAt := Some (ck_js c), bk_holdExpiresAt := None\<rparr>) False s) (\<lambda>(moved, s1).
    if \<not> moved then Inr (False, s1)
    else case tget bk_id bid (db_bookings s1) of
      None \<Rightarrow> Inl EntityNotFound
    | Some b \<Rightarrow> Inr (True, emitEvent (BookingConfirmed bid (bk_professional b) (bk_customer b) (ck_js c))
                           (setSlotBooked (bk_slot b) bid s1)))"

definition cancel :: "booking list \<Rightarrow> clock \<Rightarrow> nat \<Rightarrow> booking_actor \<Rightarrow> string option \<Rightarrow> booking_db \<Rightarrow> bool booking_result" where
  "cancel rd c bid actor reason s =
    (case tget bk_id bid rd of
       None \<Rightarrow> Inr (False, s)
     | Some before \<Rightarrow>
        bind_res (transition rd c bid Cancelled [Pending, Confirmed] actor reason
          (\<lambda>b. b\<lparr>bk_cancellationReason := reason, bk_cancelledByType := Some (ac_type actor),
                 bk_cancelledById := ac_id actor, bk_cancelledAt := Some (ck_js c), bk_holdExpiresAt := None\<rparr>)
          False s) (\<lambda>(moved, s1).
        if \<not> moved then Inr (False, s1)
        else
          let s2 = s1\<lparr>db_hooks := db_hooks s1 @ [OnBookingCancellation bid (ac_type actor) (bk_status before = Confirmed)]\<rparr>;
              s3 = releaseSlot (bk_slot before) bid s2;
              s4 = releaseResourceAssignment bid s3
          in Inr (True, emitEvent (BookingCancelled bid (bk_professional before) (bk_customer before) (bk_slot before)
                          (bk_status before) (ck_js c) (ac_type actor) (ac_id actor) reason) s4)))"

definition complete :: "booking list \<Rightarrow> clock \<Rightarrow> nat \<Rightarrow> booking_actor \<Rightarrow> booking_db \<Rightarrow> bool booking_result" where
  "complete rd c bid actor s =
    bind_res (transition rd c bid Completed [Confirmed] actor None (\<lambda>b. b\<lparr>bk_completedAt := Some (ck_js c)\<rparr>) True s)
      (\<lambda>(moved, s1).
    if \<not> moved then Inr (False, s1)
    else case tget bk_id bid (db_bookings s1) of
      None \<Rightarrow> Inl EntityNotFound
    | Some b \<Rightarrow> Inr (True, emitEvent (BookingCompleted bid (bk_professional b) (bk_customer b) (bk_service b) (ck_js c)) s1))"

section \<open>No-show\<close>

text \<open>The table's own CHECKs: a statement of 1 to 2000 characters, a grace of 0 to 1440 minutes, a window
  that ends after the declaration, at most one declaration per booking.\<close>

definition insert_declaration :: "no_show_declaration \<Rightarrow> booking_db \<Rightarrow> booking_error + booking_db" where
  "insert_declaration d s =
    (if list_ex (\<lambda>x. nd_booking x = nd_booking d) (db_declarations s) then Inl UniqueViolation
     else if nd_statement d = [] \<or> 2000 < length (nd_statement d)
             \<or> (case nd_graceMinutes d of None \<Rightarrow> False | Some g \<Rightarrow> g < 0 \<or> 1440 < g)
             \<or> (case nd_objectionWindowEndsAt d of None \<Rightarrow> False | Some w \<Rightarrow> w \<le> nd_declaredAt d)
     then Inl CheckViolation
     else Inr (s\<lparr>db_declarations := db_declarations s @ [d]\<rparr>))"

definition grace_passed :: "clock \<Rightarrow> int \<Rightarrow> booking \<Rightarrow> bool" where
  "grace_passed c graceMinutes b \<longleftrightarrow> bk_start b + graceMinutes * 60000 \<le> ck_db c"

definition markNoShow :: "booking_ports \<Rightarrow> booking list \<Rightarrow> clock \<Rightarrow> nat \<Rightarrow> booking_actor \<Rightarrow> string option \<Rightarrow> booking_db \<Rightarrow>
    bool booking_result" where
  "markNoShow ports rd c bid actor statement s =
    (case pt_governNoShow ports bid of
       UngovernedNoShow \<Rightarrow>
         (case tget bk_id bid rd of
            None \<Rightarrow> Inr (False, s)
          | Some b \<Rightarrow>
             (if ck_js c < bk_end b then Inl (InvalidBookingTransition (bk_status b) NoShown)
              else transition rd c bid NoShown [Confirmed] actor None id True s))
     | GovernedNoShow graceMinutes disputeWindowHours \<Rightarrow>
         (case ac_id actor of
            None \<Rightarrow> Inl (InvalidBookingTransition Confirmed NoShown)
          | Some actorId \<Rightarrow>
             (case tget bk_id bid (db_bookings s) of
                None \<Rightarrow> Inr (False, s)
              | Some row \<Rightarrow>
                 (if bk_status row \<noteq> Confirmed \<or> \<not> grace_passed c graceMinutes row
                  then Inl (InvalidBookingTransition (bk_status row) NoShown)
                  else
                    let trimmed = js_trim (case statement of None \<Rightarrow> [] | Some t \<Rightarrow> t)
                    in if trimmed = [] then Inl NoShowStatementRequired
                       else bind_res (transition (db_bookings s) c bid NoShown [Confirmed] actor None id True s) (\<lambda>(moved, s1).
                       if \<not> moved then Inr (False, s1)
                       else
                         let ends = ck_db c + disputeWindowHours * 3600000 in
                         bind_res (insert_declaration \<lparr>nd_booking = bid, nd_declaredBy = actorId, nd_declaredAt = ck_db c,
                             nd_graceMinutes = Some graceMinutes, nd_statement = trimmed,
                             nd_objectionWindowEndsAt = Some ends, nd_evaluationState = WindowOpen\<rparr> s1) (\<lambda>s2.
                         Inr (True, emitEvent (BookingNoShowDeclared bid (bk_professional row) (bk_customer row) (ck_db c) ends) s2)))))))"

record no_show_state =
  ns_governed :: bool
  ns_graceMinutes :: "int option"
  ns_statementRequired :: bool
  ns_declarationPermitted :: bool
  ns_declaration :: "no_show_declaration option"

definition noShowStateFor :: "booking_ports \<Rightarrow> clock \<Rightarrow> nat \<Rightarrow> booking_db \<Rightarrow> no_show_state option" where
  "noShowStateFor ports c bid s =
    (case tget bk_id bid (db_bookings s) of
       None \<Rightarrow> None
     | Some b \<Rightarrow>
        (let declaration = find (\<lambda>d. nd_booking d = bid) (db_declarations s); isOpen = (bk_status b = Confirmed)
         in case pt_governNoShow ports bid of
              UngovernedNoShow \<Rightarrow>
                Some \<lparr>ns_governed = False, ns_graceMinutes = None, ns_statementRequired = False,
                      ns_declarationPermitted = (isOpen \<and> bk_end b \<le> ck_js c), ns_declaration = declaration\<rparr>
            | GovernedNoShow graceMinutes _ \<Rightarrow>
                Some \<lparr>ns_governed = True, ns_graceMinutes = Some graceMinutes, ns_statementRequired = True,
                      ns_declarationPermitted = (isOpen \<and> grace_passed c graceMinutes b), ns_declaration = declaration\<rparr>))"

section \<open>Rescheduling\<close>

record reschedule_options =
  ro_acceptConsequence :: bool
  ro_remedyBypass :: bool

text \<open>\<open>count(*)\<close> of the customer's own earlier reschedules, from the history.\<close>

definition priorReschedules :: "nat \<Rightarrow> booking_db \<Rightarrow> nat" where
  "priorReschedules bid s =
    taffected (\<lambda>h. hi_booking h = bid \<and> hi_event h = HistRescheduled \<and> hi_actorType h = ActCustomer) (db_history s)"

definition governedRescheduleConsequence :: "booking_ports \<Rightarrow> clock \<Rightarrow> booking \<Rightarrow> int \<Rightarrow> nat \<Rightarrow> reschedule_options \<Rightarrow>
    booking_db \<Rightarrow> booking_error + reschedule_facts option" where
  "governedRescheduleConsequence ports c b cutoffHours freeCount opts s =
    (let cutoff = bk_start b - cutoffHours * 3600000;
         facts = \<lparr>rf_booking = bk_id b, rf_eventInstant = ck_db c, rf_cutoffInstant = cutoff,
                  rf_timely = (ck_db c \<le> cutoff), rf_wasConfirmed = (bk_status b = Confirmed)\<rparr>;
         prior = priorReschedules (bk_id b) s
     in if prior < freeCount \<and> rf_timely facts then Inr None
        else let retained = pt_consequenceRetained ports (GovernedReschedule cutoffHours freeCount) facts
             in if retained > 0 then Inl (RescheduleNotAllowed RefConsequenceUnavailable)
                else if \<not> ro_acceptConsequence opts
                then Inl (RescheduleConsequenceRequired retained cutoff (max 0 (int freeCount - int prior)))
                else Inr (Some facts))"

text \<open>The guards of \<open>reschedule\<close> before anything is written, in the source's order.\<close>

definition reschedule_guards :: "booking_config \<Rightarrow> clock \<Rightarrow> reschedule_options \<Rightarrow> bool \<Rightarrow> booking \<Rightarrow> nat \<Rightarrow> booking_db \<Rightarrow>
    booking_error + unit" where
  "reschedule_guards cfg c opts governed b newSlotId s =
    (let eligible = (if ro_remedyBypass opts then SLOT_HOLDING_STATUSES @ [Cancelled] else SLOT_HOLDING_STATUSES) in
     if bk_status b \<notin> set eligible then Inl (RescheduleNotAllowed RefStatus)
     else if \<not> governed \<and> \<not> ro_remedyBypass opts \<and> bc_maxReschedules cfg \<le> bk_rescheduleCount b
     then Inl (RescheduleNotAllowed RefMaxReached)
     else if \<not> governed \<and> \<not> ro_remedyBypass opts \<and> bk_start b - ck_js c < bc_rescheduleMinHours cfg * 3600000
     then Inl (RescheduleNotAllowed RefTooClose)
     else if newSlotId = bk_slot b then Inl (RescheduleNotAllowed RefSameSlot)
     else case tget sl_id newSlotId (db_slots s) of
            None \<Rightarrow> Inl (RescheduleNotAllowed RefInvalidSlot)
          | Some sl \<Rightarrow> if sl_professional sl \<noteq> bk_professional b \<or> service_mismatch (bk_service b) (sl_service sl)
                       then Inl (RescheduleNotAllowed RefInvalidSlot) else Inr ())"

text \<open>The guarded write of the booking row: its compare-and-swap, under \<open>uq_bookings_active_slot\<close>.\<close>

definition move_booking :: "booking \<Rightarrow> booking_status \<Rightarrow> int option \<Rightarrow> slot \<Rightarrow> booking_db \<Rightarrow> booking_error + booking_db" where
  "move_booking b targetStatus holdExpiresAt sl s =
    (let P = (\<lambda>x. bk_id x = bk_id b \<and> bk_status x = bk_status b \<and> bk_rescheduleCount x = bk_rescheduleCount b)
     in if taffected P (db_bookings s) \<noteq> 1 then Inl (RescheduleNotAllowed RefStatus)
        else if targetStatus \<in> set SLOT_HOLDING_STATUSES \<and>
                list_ex (\<lambda>x. bk_id x \<noteq> bk_id b \<and> holding x \<and> bk_slot x = sl_id sl) (db_bookings s)
        then Inl UniqueViolation
        else Inr (s\<lparr>db_bookings := tupd P (\<lambda>x. x\<lparr>bk_slot := sl_id sl, bk_start := sl_start sl, bk_end := sl_end sl,
                      bk_rescheduleCount := bk_rescheduleCount b + 1, bk_holdExpiresAt := holdExpiresAt,
                      bk_status := targetStatus\<rparr>) (db_bookings s)\<rparr>))"

definition reschedule :: "booking_ports \<Rightarrow> booking_config \<Rightarrow> booking list \<Rightarrow> clock \<Rightarrow> nat \<Rightarrow> nat \<Rightarrow> booking_actor \<Rightarrow>
    string option \<Rightarrow> reschedule_options \<Rightarrow> booking_db \<Rightarrow> booking booking_result" where
  "reschedule ports cfg rd c bid newSlotId actor reason opts s =
    (let governance = (if ro_remedyBypass opts \<or> ac_type actor \<noteq> ActCustomer then UngovernedReschedule
                       else pt_governReschedule ports bid);
         governed = (governance \<noteq> UngovernedReschedule)
     in case tget bk_id bid (if governed then db_bookings s else rd) of
          None \<Rightarrow> Inl EntityNotFound
        | Some b \<Rightarrow>
           bind_res (reschedule_guards cfg c opts governed b newSlotId s) (\<lambda>_.
           bind_res (case governance of UngovernedReschedule \<Rightarrow> Inr None
                     | GovernedReschedule h n \<Rightarrow> governedRescheduleConsequence ports c b h n opts s) (\<lambda>consequence.
           let targetStatus = (if ro_remedyBypass opts \<and> bk_status b = Cancelled then Confirmed else bk_status b);
               now = ck_js c;
               lease = now + bc_holdMinutes cfg * 60000;
               holdExpiresAt = (if targetStatus = Pending then Some lease else None)
           in bind_res (claimSlot newSlotId (bk_professional b) bid lease now s) (\<lambda>(sl, s1).
              bind_res (syncResourceAssignment ports bid (bk_service b) (sl_location sl) (sl_start sl) (sl_end sl) s1) (\<lambda>s2.
              bind_res (move_booking b targetStatus holdExpiresAt sl s2) (\<lambda>s3.
              let s4 = (if targetStatus = Confirmed then setSlotBooked (sl_id sl) bid s3 else s3);
                  s5 = releaseSlot (bk_slot b) bid s4;
                  s6 = recordHistory c bid HistRescheduled (Some (bk_status b)) (Some targetStatus) actor reason
                         (MetaRescheduled (bk_slot b) (sl_id sl) (bk_start b) (sl_start sl)) s5;
                  s7 = (if governed \<and> consequence \<noteq> None
                        then s6\<lparr>db_hooks := db_hooks s6 @ [RecordConsequence bid]\<rparr> else s6);
                  s8 = emitEvent (BookingRescheduled bid (bk_professional b) (bk_customer b) (bk_slot b) (sl_id sl)
                         (bk_start b) (sl_start sl) (bk_rescheduleCount b + 1)) s7
              in case tget bk_id bid (db_bookings s8) of None \<Rightarrow> Inl EntityNotFound | Some b' \<Rightarrow> Inr (b', s8)))))))"

section \<open>Cancellation facts, the expiry sweep, reads\<close>

record cancellation_facts =
  cf_cancelledBy :: booking_actor_type
  cf_wasConfirmed :: bool
  cf_eventInstant :: int
  cf_cutoffInstant :: "int option"
  cf_timely :: "bool option"

definition cancellationFacts :: "nat \<Rightarrow> int option \<Rightarrow> booking_db \<Rightarrow> cancellation_facts option" where
  "cancellationFacts bid cutoffHours s =
    (case find (\<lambda>b. bk_id b = bid \<and> bk_status b = Cancelled) (db_bookings s) of
       None \<Rightarrow> None
     | Some b \<Rightarrow>
        (case find (\<lambda>h. hi_booking h = bid \<and> hi_event h = HistStatus Cancelled) (db_history s) of
           None \<Rightarrow> None
         | Some h \<Rightarrow>
            (case bk_cancelledByType b of
               None \<Rightarrow> None
             | Some t \<Rightarrow>
                Some \<lparr>cf_cancelledBy = t, cf_wasConfirmed = (hi_from h = Some Confirmed), cf_eventInstant = hi_createdAt h,
                      cf_cutoffInstant = map_option (\<lambda>n. bk_start b - n * 3600000) cutoffHours,
                      cf_timely = map_option (\<lambda>n. hi_createdAt h \<le> bk_start b - n * 3600000) cutoffHours\<rparr>)))"

text \<open>The sweep's own query, oldest expiry first; and one row of it, in its own transaction.\<close>

definition hold_lapsed :: "int \<Rightarrow> booking \<Rightarrow> bool" where
  "hold_lapsed now b = (bk_status b = Pending \<and> (case bk_holdExpiresAt b of None \<Rightarrow> False | Some t \<Rightarrow> t < now))"

definition staleHolds :: "int \<Rightarrow> nat \<Rightarrow> booking_db \<Rightarrow> booking list" where
  "staleHolds now limit s =
    take limit (sort_key (\<lambda>b. case bk_holdExpiresAt b of None \<Rightarrow> 0 | Some t \<Rightarrow> t) (filter (hold_lapsed now) (db_bookings s)))"

definition expireHold :: "booking list \<Rightarrow> clock \<Rightarrow> booking \<Rightarrow> booking_db \<Rightarrow> bool booking_result" where
  "expireHold rd c row s =
    bind_res (transition rd c (bk_id row) Expired [Pending] SYSTEM_ACTOR (Some ''hold_expired'')
      (\<lambda>b. b\<lparr>bk_holdExpiresAt := None\<rparr>) False s) (\<lambda>(moved, s1).
    if \<not> moved then Inr (False, s1)
    else Inr (True, emitEvent (BookingExpired (bk_id row) (bk_professional row) (bk_customer row) (bk_slot row) (ck_js c))
                      (releaseSlot (bk_slot row) (bk_id row) s1)))"

fun expire_rows :: "clock \<Rightarrow> booking list \<Rightarrow> booking_db \<Rightarrow> nat booking_result" where
  "expire_rows c [] s = Inr (0, s)"
| "expire_rows c (row # rows) s =
    bind_res (expireHold (db_bookings s) c row s) (\<lambda>(done, s1).
    bind_res (expire_rows c rows s1) (\<lambda>(n, s2). Inr (n + (if done then 1 else 0), s2)))"

definition expireStaleHolds :: "clock \<Rightarrow> nat \<Rightarrow> booking_db \<Rightarrow> nat booking_result" where
  "expireStaleHolds c limit s = expire_rows c (staleHolds (ck_js c) limit s) s"

definition findById :: "nat \<Rightarrow> booking_db \<Rightarrow> booking option" where
  "findById bid s = tget bk_id bid (db_bookings s)"

definition page_of :: "nat \<Rightarrow> nat \<Rightarrow> 'a list \<Rightarrow> 'a list" where
  "page_of page limit xs = take limit (drop ((page - 1) * limit) xs)"

definition listForCustomer :: "nat \<Rightarrow> nat \<Rightarrow> nat \<Rightarrow> booking_db \<Rightarrow> booking list \<times> nat" where
  "listForCustomer customerId page limit s =
    (let rows = filter (\<lambda>b. bk_customer b = customerId) (db_bookings s)
     in (page_of page limit (sort_key (\<lambda>b. - bk_start b) rows), length rows))"

definition listBookingsForProfessional :: "nat \<Rightarrow> nat \<Rightarrow> nat \<Rightarrow> booking_status list \<Rightarrow> booking_db \<Rightarrow> booking list \<times> nat" where
  "listBookingsForProfessional professionalId page limit statuses s =
    (let rows = filter (\<lambda>b. bk_professional b = professionalId \<and> (statuses = [] \<or> bk_status b \<in> set statuses)) (db_bookings s)
     in (page_of page limit (sort_key (\<lambda>b. - bk_start b) rows), length rows))"

definition countUpcomingForProfessional :: "nat \<Rightarrow> int \<Rightarrow> booking_db \<Rightarrow> nat" where
  "countUpcomingForProfessional professionalId now s =
    taffected (\<lambda>b. bk_professional b = professionalId \<and> bk_status b \<in> set OPEN_BOOKING_STATUSES \<and> now < bk_end b) (db_bookings s)"

definition historyFor :: "nat \<Rightarrow> booking_db \<Rightarrow> booking_history list" where
  "historyFor bid s = filter (\<lambda>h. hi_booking h = bid) (db_history s)"

definition hasLiveBooking :: "nat \<Rightarrow> booking_db \<Rightarrow> bool" where
  "hasLiveBooking customerId s \<longleftrightarrow> 0 < taffected (\<lambda>b. bk_customer b = customerId \<and> holding b) (db_bookings s)"

section \<open>Who may act on a booking, and the public count\<close>

text \<open>\<open>BookingPartyResolver\<close>: \<open>owner\<close> is \<open>ownerUserIdFor\<close> of the professional directory.\<close>

definition roleFor :: "(nat \<Rightarrow> nat option) \<Rightarrow> nat \<Rightarrow> nat \<Rightarrow> booking_db \<Rightarrow> booking_actor_type option" where
  "roleFor owner bid user s =
    (case tget bk_id bid (db_bookings s) of
       None \<Rightarrow> None
     | Some b \<Rightarrow> if bk_customer b = user then Some ActCustomer
                 else if owner (bk_professional b) = Some user then Some ActProfessional else None)"

definition resolve_party :: "(nat \<Rightarrow> nat option) \<Rightarrow> nat \<Rightarrow> nat \<Rightarrow> booking_db \<Rightarrow> nat option" where
  "resolve_party owner user bid s = (if roleFor owner bid user s \<noteq> None then Some user else None)"

definition resolve_professional :: "(nat \<Rightarrow> nat option) \<Rightarrow> nat \<Rightarrow> nat \<Rightarrow> booking_db \<Rightarrow> nat option" where
  "resolve_professional owner user bid s = (if roleFor owner bid user s = Some ActProfessional then Some user else None)"

definition resolve_customer :: "(nat \<Rightarrow> nat option) \<Rightarrow> nat \<Rightarrow> nat \<Rightarrow> booking_db \<Rightarrow> nat option" where
  "resolve_customer owner user bid s = (if roleFor owner bid user s = Some ActCustomer then Some user else None)"

definition countPublicCompletedBookings :: "nat \<Rightarrow> int \<Rightarrow> booking_db \<Rightarrow> nat" where
  "countPublicCompletedBookings professionalId now s =
    taffected (\<lambda>b. bk_professional b = professionalId \<and> bk_status b = Completed \<and> bk_end b \<le> now) (db_bookings s)"

end
