(* ===== verification/Availability.thy ===== *)
theory Availability
  imports Booking_Model
begin

text \<open>
  The professional's calendar (\<open>services/booking/src/availability/availability.service.ts\<close> and
  \<open>platform-time.ts\<close>): creating, bulk-generating, listing and deleting slots of the table the booking
  operations claim from. An ISO date is the number of the day it denotes (days since 1970-01-01) and an
  ISO time its minute of the day, so that the order of the strings is the order of the numbers. What
  \<open>Intl\<close> knows about the platform's time zone is a parameter: the offset of the zone, in minutes, at an
  instant.
\<close>

datatype slot_error =
    InvalidSlotRange string
  | SlotInPast
  | SlotOverlaps
  | SlotNotReleasable
  | SlotForeignKey

record availability_config =
  av_minSlotMinutes :: int
  av_maxSlotMinutes :: int
  av_maxBulkDays :: int
  av_maxWindowDays :: int

section \<open>Platform time\<close>

definition DAY_MS :: int where "DAY_MS = 86400000"

definition zoneOffset_wall :: "(int \<Rightarrow> int) \<Rightarrow> int \<Rightarrow> int" where
  "zoneOffset_wall off instant = instant + off instant * 60000"

text \<open>\<open>wallClockToInstant\<close>: the naive instant corrected by the offset there, then by the offset at the result.\<close>

definition wallClockToInstant :: "(int \<Rightarrow> int) \<Rightarrow> int \<Rightarrow> int \<Rightarrow> int" where
  "wallClockToInstant off day minute =
    (let naive = day * DAY_MS + minute * 60000;
         candidate = naive - off naive * 60000
     in naive - off candidate * 60000)"

text \<open>1970-01-01 was a Thursday: day number 4 of a week that starts on Sunday.\<close>

definition zonedWeekday :: "(int \<Rightarrow> int) \<Rightarrow> int \<Rightarrow> int" where
  "zonedWeekday off instant = (zoneOffset_wall off instant div DAY_MS + 4) mod 7"

section \<open>Ranges\<close>

definition assertValidRange :: "availability_config \<Rightarrow> int option \<Rightarrow> int option \<Rightarrow> slot_error + int \<times> int" where
  "assertValidRange cfg startAt endAt =
    (case startAt of None \<Rightarrow> Inl (InvalidSlotRange ''startAt'')
     | Some a \<Rightarrow>
        (case endAt of None \<Rightarrow> Inl (InvalidSlotRange ''endAt'')
         | Some b \<Rightarrow>
            (if b \<le> a then Inl (InvalidSlotRange ''startAt must precede endAt'')
             else if b - a < av_minSlotMinutes cfg * 60000 \<or> av_maxSlotMinutes cfg * 60000 < b - a
             then Inl (InvalidSlotRange ''slot duration'')
             else Inr (a, b))))"

definition slot_overlaps :: "nat \<Rightarrow> int \<Rightarrow> int \<Rightarrow> slot \<Rightarrow> bool" where
  "slot_overlaps professionalId a b sl \<longleftrightarrow> sl_professional sl = professionalId \<and> sl_start sl < b \<and> a < sl_end sl"

definition overlaps :: "nat \<Rightarrow> int \<Rightarrow> int \<Rightarrow> slot list \<Rightarrow> bool" where
  "overlaps professionalId a b t = list_ex (slot_overlaps professionalId a b) t"

definition clampWindow :: "availability_config \<Rightarrow> int \<Rightarrow> int \<Rightarrow> slot_error + int \<times> int" where
  "clampWindow cfg from to =
    (let maxTo = from + av_maxWindowDays cfg * DAY_MS; to' = (if maxTo < to then maxTo else to)
     in if to' < from then Inl (InvalidSlotRange ''window'') else Inr (from, to'))"

section \<open>Writing slots\<close>

definition open_slot :: "nat \<Rightarrow> nat \<Rightarrow> nat option \<Rightarrow> nat option \<Rightarrow> int \<Rightarrow> int \<Rightarrow> slot" where
  "open_slot i professionalId svc loc a b =
    \<lparr>sl_id = i, sl_professional = professionalId, sl_service = svc, sl_location = loc, sl_start = a, sl_end = b,
     sl_status = SlotOpen, sl_heldUntil = None, sl_heldBy = None\<rparr>"

text \<open>
  \<open>createSlot\<close>. \<open>seen\<close> are the slots its overlap query saw; the insert itself is checked against the
  current ones by the exclusion constraint, whose violation is reported as the same error.
\<close>

definition createSlot :: "availability_config \<Rightarrow> (nat \<Rightarrow> nat option) \<Rightarrow> slot list \<Rightarrow> int \<Rightarrow> nat \<Rightarrow> int option \<Rightarrow> int option \<Rightarrow>
    nat option \<Rightarrow> booking_db \<Rightarrow> slot_error + slot \<times> booking_db" where
  "createSlot cfg deliveryLocationFor seen now professionalId startAt endAt svc s =
    bind_res (assertValidRange cfg startAt endAt) (\<lambda>(a, b).
    if a < now then Inl SlotInPast
    else if overlaps professionalId a b seen then Inl SlotOverlaps
    else let sl = open_slot (db_next s) professionalId svc (deliveryLocationFor professionalId) a b
         in if overlaps professionalId a b (db_slots s) then Inl SlotOverlaps
            else Inr (sl, s\<lparr>db_slots := db_slots s @ [sl], db_next := Suc (db_next s)\<rparr>))"

record bulk_input =
  bi_weekdays :: "int list"
  bi_timeStart :: "int option"
  bi_timeEnd :: "int option"
  bi_slotMinutes :: int
  bi_dateFrom :: "int option"
  bi_dateTo :: "int option"
  bi_service :: "nat option"

text \<open>The inner loop: consecutive slots of \<open>step\<close> milliseconds from \<open>a\<close> while they end by \<open>e\<close>, without those
  that start before \<open>now\<close>.\<close>

function slots_of_day :: "int \<Rightarrow> int \<Rightarrow> int \<Rightarrow> int \<Rightarrow> (int \<times> int) list" where
  "slots_of_day now step a e =
    (if 0 < step \<and> a + step \<le> e
     then (if a < now then [] else [(a, a + step)]) @ slots_of_day now step (a + step) e
     else [])"
  by pat_completeness auto
termination by (relation "measure (\<lambda>(now, step, a, e). nat (e - a))") auto

declare slots_of_day.simps [simp del]

definition generateCandidates :: "(int \<Rightarrow> int) \<Rightarrow> int \<Rightarrow> int \<Rightarrow> int list \<Rightarrow> int \<Rightarrow> int \<Rightarrow> int \<Rightarrow> int \<Rightarrow> (int \<times> int) list" where
  "generateCandidates off dateFrom spanDays weekdays timeStart timeEnd slotMinutes now =
    concat (map (\<lambda>dayOffset.
      let windowStart = wallClockToInstant off (dateFrom + dayOffset) timeStart;
          windowEnd = wallClockToInstant off (dateFrom + dayOffset) timeEnd
      in if zonedWeekday off windowStart \<notin> set weekdays then []
         else slots_of_day now (slotMinutes * 60000) windowStart windowEnd) [0..spanDays])"

text \<open>\<open>INSERT ... ON CONFLICT DO NOTHING\<close>: a candidate that overlaps a row already there is skipped.\<close>

fun insert_or_ignore :: "nat \<Rightarrow> nat option \<Rightarrow> nat option \<Rightarrow> (int \<times> int) list \<Rightarrow> booking_db \<Rightarrow> booking_db \<times> nat" where
  "insert_or_ignore professionalId svc loc [] s = (s, 0)"
| "insert_or_ignore professionalId svc loc ((a, b) # cs) s =
    (if overlaps professionalId a b (db_slots s) then insert_or_ignore professionalId svc loc cs s
     else let (s', n) = insert_or_ignore professionalId svc loc cs
            (s\<lparr>db_slots := db_slots s @ [open_slot (db_next s) professionalId svc loc a b], db_next := Suc (db_next s)\<rparr>)
          in (s', Suc n))"

definition bulkGenerate :: "availability_config \<Rightarrow> (nat \<Rightarrow> nat option) \<Rightarrow> (int \<Rightarrow> int) \<Rightarrow> int \<Rightarrow> nat \<Rightarrow> bulk_input \<Rightarrow> booking_db \<Rightarrow>
    slot_error + (nat \<times> nat) \<times> booking_db" where
  "bulkGenerate cfg deliveryLocationFor off now professionalId inp s =
    (case (bi_dateFrom inp, bi_dateTo inp) of
       (Some dateFrom, Some dateTo) \<Rightarrow>
         (if dateTo < dateFrom then Inl (InvalidSlotRange ''dateFrom/dateTo'')
          else case (bi_timeStart inp, bi_timeEnd inp) of
            (Some timeStart, Some timeEnd) \<Rightarrow>
              (if timeEnd \<le> timeStart then Inl (InvalidSlotRange ''timeStart/timeEnd'')
               else if bi_slotMinutes inp < av_minSlotMinutes cfg \<or> av_maxSlotMinutes cfg < bi_slotMinutes inp
               then Inl (InvalidSlotRange ''slotMinutes'')
               else if av_maxBulkDays cfg < dateTo - dateFrom then Inl (InvalidSlotRange ''range'')
               else let weekdays = filter (\<lambda>d. 0 \<le> d \<and> d \<le> 6) (bi_weekdays inp) in
                 if weekdays = [] then Inl (InvalidSlotRange ''weekdays'')
                 else let candidates = generateCandidates off dateFrom (dateTo - dateFrom) weekdays timeStart timeEnd
                                         (bi_slotMinutes inp) now;
                          (s', created) = insert_or_ignore professionalId (bi_service inp)
                                            (deliveryLocationFor professionalId) candidates s
                      in Inr ((created, length candidates - created), s'))
          | _ \<Rightarrow> Inl (InvalidSlotRange ''timeStart/timeEnd''))
     | _ \<Rightarrow> Inl (InvalidSlotRange ''dateFrom/dateTo''))"

text \<open>
  \<open>deleteSlot\<close>: only an open slot of the professional. A booking of any status still references its slot
  (\<open>bookings.slot_id REFERENCES availability_slots\<close>), and the service does not catch that violation.
\<close>

definition deleteSlot :: "nat \<Rightarrow> nat \<Rightarrow> booking_db \<Rightarrow> slot_error + booking_db" where
  "deleteSlot professionalId slotId s =
    (let P = (\<lambda>sl. sl_id sl = slotId \<and> sl_professional sl = professionalId \<and> sl_status sl = SlotOpen) in
     if taffected P (db_slots s) = 0 then Inl SlotNotReleasable
     else if list_ex (\<lambda>b. bk_slot b = slotId) (db_bookings s) then Inl SlotForeignKey
     else Inr (s\<lparr>db_slots := filter (\<lambda>sl. \<not> P sl) (db_slots s)\<rparr>))"

section \<open>Reading slots\<close>

definition listSlotsForProfessional :: "availability_config \<Rightarrow> nat \<Rightarrow> int \<Rightarrow> int \<Rightarrow> booking_db \<Rightarrow> slot_error + slot list" where
  "listSlotsForProfessional cfg professionalId from to s =
    bind_res (clampWindow cfg from to) (\<lambda>(f, t).
    Inr (sort_key sl_start (filter (\<lambda>sl. sl_professional sl = professionalId \<and> f \<le> sl_start sl \<and> sl_start sl \<le> t) (db_slots s))))"

definition listClaimableSlots :: "availability_config \<Rightarrow> int \<Rightarrow> nat \<Rightarrow> int \<Rightarrow> int \<Rightarrow> nat option \<Rightarrow> booking_db \<Rightarrow> slot_error + slot list" where
  "listClaimableSlots cfg now professionalId from to serviceId s =
    bind_res (clampWindow cfg from to) (\<lambda>(f, t).
    Inr (take 500 (sort_key sl_start (filter (\<lambda>sl. sl_professional sl = professionalId \<and> f \<le> sl_start sl \<and>
       sl_start sl \<le> t \<and> claimable now sl \<and> \<not> service_mismatch (sl_service sl) serviceId) (db_slots s)))))"

end
