(* ===== verification/Booking_Invariant.thy ===== *)
theory Booking_Invariant
  imports Availability
begin

text \<open>
  What the slot table and the booking table promise each other, and that every operation of
  \<open>Booking_Model\<close> and \<open>Availability\<close> keeps it. The tables are read as lookup functions (\<open>slot_at\<close>,
  \<open>booking_at\<close>); an operation is a few point updates of them, and one coupling lemma covers each shape
  of update. The promise has two halves: every live booking owns its slot, which holds however old the rows
  are that an operation read before its write; and every slot that is not open belongs to a booking, which a
  cancellation or an expiry with an old read breaks. The flag \<open>exact\<close> of the invariant says whether the second
  half is included.
\<close>

lemma tget_point_update:
  assumes "tget k i t = Some r" "P r" "\<And>r'. P r' \<Longrightarrow> k r' = i" "\<And>r'. k (f r') = k r'"
  shows "(\<lambda>j. tget k j (tupd P f t)) = (\<lambda>j. tget k j t)(i \<mapsto> f r)"
proof
  fix j
  have u: "tget k j (tupd P f t) = map_option (\<lambda>r. if P r then f r else r) (tget k j t)"
    by (rule tget_tupd) (rule assms(4))
  show "tget k j (tupd P f t) = ((\<lambda>j. tget k j t)(i \<mapsto> f r)) j"
  proof (cases "j = i")
    case True
    with u assms(1,2) show ?thesis by simp
  next
    case False
    then have "\<not> P r'" if "tget k j t = Some r'" for r'
      using assms(3) [of r'] tget_SomeD [OF that] by blast
    with u False show ?thesis by (cases "tget k j t") auto
  qed
qed

lemma tget_new_row:
  assumes "k r \<notin> k ` set t"
  shows "(\<lambda>j. tget k j (t @ [r])) = (\<lambda>j. tget k j t)(k r \<mapsto> r)"
  using assms by (auto simp: tget_append tget_None_iff [symmetric] fun_eq_iff split: option.splits)

section \<open>The coupling of slots and bookings\<close>

definition slot_at :: "booking_db \<Rightarrow> nat \<Rightarrow> slot option" where
  "slot_at s = (\<lambda>j. tget sl_id j (db_slots s))"

definition booking_at :: "booking_db \<Rightarrow> nat \<Rightarrow> booking option" where
  "booking_at s = (\<lambda>i. tget bk_id i (db_bookings s))"

definition slot_matches :: "slot \<Rightarrow> booking \<Rightarrow> bool" where
  "slot_matches sl b \<longleftrightarrow> sl_start sl = bk_start b \<and> sl_end sl = bk_end b \<and> sl_professional sl = bk_professional b"

text \<open>A live booking has its slot, held by it, booked once it is confirmed.\<close>

definition booking_ok :: "nat \<Rightarrow> booking \<Rightarrow> slot \<Rightarrow> bool" where
  "booking_ok i b sl \<longleftrightarrow> (holding b \<longrightarrow> sl_heldBy sl = Some i \<and> slot_matches sl b \<and>
     sl_status sl = (if bk_status b = Confirmed then SlotBooked else SlotHeld))"

text \<open>A slot that is not open is held by a booking on it: a pending one, or one that was confirmed.\<close>

definition slot_ok :: "(nat \<Rightarrow> booking option) \<Rightarrow> nat \<Rightarrow> slot \<Rightarrow> bool" where
  "slot_ok B j sl \<longleftrightarrow>
     (case sl_heldBy sl of
        None \<Rightarrow> sl_status sl = SlotOpen
      | Some i \<Rightarrow> sl_status sl \<noteq> SlotOpen \<and>
          (\<exists>b. B i = Some b \<and> bk_slot b = j \<and>
             bk_status b \<in> (if sl_status sl = SlotHeld then {Pending} else {Confirmed, Completed, NoShown})))"

definition coupled :: "bool \<Rightarrow> (nat \<Rightarrow> slot option) \<Rightarrow> (nat \<Rightarrow> booking option) \<Rightarrow> bool" where
  "coupled exact S B \<longleftrightarrow>
     (\<forall>i b. B i = Some b \<longrightarrow> (\<exists>sl. S (bk_slot b) = Some sl \<and> booking_ok i b sl)) \<and>
     (exact \<longrightarrow> (\<forall>j sl. S j = Some sl \<longrightarrow> slot_ok B j sl))"

lemmas coupling_defs = coupled_def booking_ok_def slot_ok_def SLOT_HOLDING_STATUSES_def

lemma coupledD:
  "coupled z S B \<Longrightarrow> B i = Some b \<Longrightarrow> \<exists>sl. S (bk_slot b) = Some sl \<and> booking_ok i b sl"
  "coupled z S B \<Longrightarrow> z \<Longrightarrow> S j = Some sl \<Longrightarrow> slot_ok B j sl"
  by (auto simp: coupled_def)

text \<open>The other bookings are not affected by an update of a slot that no other live booking is on.\<close>

lemma booking_ok_frame:
  assumes "coupled z S B" "B k = Some x" "holding x \<Longrightarrow> bk_slot x \<noteq> j"
  shows "\<exists>sl. (S(j \<mapsto> sl')) (bk_slot x) = Some sl \<and> booking_ok k x sl"
proof -
  obtain y where y: "S (bk_slot x) = Some y" "booking_ok k x y" using coupledD(1) [OF assms(1,2)] by blast
  show ?thesis
  proof (cases "holding x")
    case True
    with y assms(3) show ?thesis by auto
  next
    case False
    then show ?thesis using y by (auto simp: booking_ok_def)
  qed
qed

lemma coupled_other_slot:
  assumes "coupled z S B" "B i = Some b" "holding b" "B k = Some x" "k \<noteq> i" "holding x"
  shows "bk_slot x \<noteq> bk_slot b"
  using coupledD(1) [OF assms(1,2)] coupledD(1) [OF assms(1,4)] assms(3,5,6) by (auto simp: booking_ok_def)

text \<open>A slot keeps its promise when the booking that holds it, if any, is not the one that changes.\<close>

lemma slot_ok_frame:
  assumes "coupled z S B" z "S j = Some y" "sl_heldBy y \<noteq> Some i"
  shows "slot_ok (B(i \<mapsto> b')) j y"
  using coupledD(2) [OF assms(1-3)] assms(4) by (auto simp: slot_ok_def split: option.splits)

lemma coupled_held_slot:
  assumes "coupled z S B" z "S j = Some y" "sl_heldBy y = Some i" "B i = Some b"
  shows "j = bk_slot b"
  using coupledD(2) [OF assms(1-3)] assms(4,5) by (auto simp: slot_ok_def)

lemma coupledI:
  assumes "\<And>k b. B k = Some b \<Longrightarrow> \<exists>sl. S (bk_slot b) = Some sl \<and> booking_ok k b sl"
    "\<And>j sl. z \<Longrightarrow> S j = Some sl \<Longrightarrow> slot_ok B j sl"
  shows "coupled z S B"
  using assms by (simp add: coupled_def)

text \<open>The general shape: booking \<open>i\<close> on slot \<open>j\<close> changes together with that slot.\<close>

lemma coupled_pair_update:
  assumes "coupled z S B" "B i = Some b" "holding b" "bk_slot b' = bk_slot b"
    "booking_ok i b' sl'" "z \<Longrightarrow> slot_ok (B(i \<mapsto> b')) (bk_slot b) sl'"
  shows "coupled z (S(bk_slot b \<mapsto> sl')) (B(i \<mapsto> b'))"
proof (rule coupledI)
  fix k x assume k: "(B(i \<mapsto> b')) k = Some x"
  show "\<exists>sl. (S(bk_slot b \<mapsto> sl')) (bk_slot x) = Some sl \<and> booking_ok k x sl"
  proof (cases "k = i")
    case True
    with k assms(4,5) show ?thesis by auto
  next
    case False
    with k coupled_other_slot [OF assms(1-3)] show ?thesis by (intro booking_ok_frame [OF assms(1)]) auto
  qed
next
  fix j y assume z: z and j: "(S(bk_slot b \<mapsto> sl')) j = Some y"
  show "slot_ok (B(i \<mapsto> b')) j y"
  proof (cases "j = bk_slot b")
    case True
    with j assms(6) [OF z] show ?thesis by auto
  next
    case False
    with j have "S j = Some y" by simp
    moreover have "sl_heldBy y \<noteq> Some i"
      using coupled_held_slot [OF assms(1) z calculation _ assms(2)] False by blast
    ultimately show ?thesis by (intro slot_ok_frame [OF assms(1) z])
  qed
qed

lemma coupled_release:
  assumes "coupled z S B" "B i = Some b" "holding b" "\<not> holding b'" "bk_slot b' = bk_slot b"
    "sl_status sl' = SlotOpen" "sl_heldBy sl' = None"
  shows "coupled z (S(bk_slot b \<mapsto> sl')) (B(i \<mapsto> b'))"
  using assms by (intro coupled_pair_update) (auto simp: booking_ok_def slot_ok_def)

lemma coupled_confirm:
  assumes "coupled z S B" "B i = Some b" "holding b" "bk_status b' = Confirmed" "bk_slot b' = bk_slot b"
    "slot_matches sl' b'" "sl_status sl' = SlotBooked" "sl_heldBy sl' = Some i"
  shows "coupled z (S(bk_slot b \<mapsto> sl')) (B(i \<mapsto> b'))"
  using assms by (intro coupled_pair_update) (auto simp: booking_ok_def slot_ok_def)

lemma coupled_finish:
  assumes "coupled z S B" "B i = Some b" "bk_status b = Confirmed" "bk_status b' \<in> {Completed, NoShown}" "bk_slot b' = bk_slot b"
  shows "coupled z S (B(i \<mapsto> b'))"
proof (rule coupledI)
  fix k x assume k: "(B(i \<mapsto> b')) k = Some x"
  show "\<exists>sl. S (bk_slot x) = Some sl \<and> booking_ok k x sl"
  proof (cases "k = i")
    case True
    then have x: "x = b'" using k by simp
    have "\<not> holding b'" using assms(4) by (auto simp: SLOT_HOLDING_STATUSES_def)
    with x assms(5) coupledD(1) [OF assms(1,2)] show ?thesis by (auto simp: booking_ok_def)
  next
    case False
    with k coupledD(1) [OF assms(1)] show ?thesis by simp
  qed
next
  fix j y assume z: z and j: "S j = Some y"
  show "slot_ok (B(i \<mapsto> b')) j y"
  proof (cases "sl_heldBy y = Some i")
    case True
    with coupledD(2) [OF assms(1) z j] assms(2-5) show ?thesis by (auto simp: slot_ok_def split: if_splits)
  qed (rule slot_ok_frame [OF assms(1) z j])
qed

lemma coupled_claim:
  assumes "coupled z S B" "B n = None" "S j = Some sl"
    "\<And>i x. B i = Some x \<Longrightarrow> holding x \<Longrightarrow> bk_slot x \<noteq> j"
    "sl_status sl' = SlotHeld" "sl_heldBy sl' = Some n" "slot_matches sl' b" "bk_slot b = j" "bk_status b = Pending"
  shows "coupled z (S(j \<mapsto> sl')) (B(n \<mapsto> b))"
proof (rule coupledI)
  fix k x assume k: "(B(n \<mapsto> b)) k = Some x"
  show "\<exists>sl. (S(j \<mapsto> sl')) (bk_slot x) = Some sl \<and> booking_ok k x sl"
  proof (cases "k = n")
    case True
    with k assms(5-9) show ?thesis by (auto simp: booking_ok_def)
  next
    case False
    with k assms(4) show ?thesis by (intro booking_ok_frame [OF assms(1)]) auto
  qed
next
  fix m y assume z: z and m: "(S(j \<mapsto> sl')) m = Some y"
  show "slot_ok (B(n \<mapsto> b)) m y"
  proof (cases "m = j")
    case True
    with m assms(5-9) show ?thesis by (auto simp: slot_ok_def)
  next
    case False
    with m have "S m = Some y" by simp
    moreover have "sl_heldBy y \<noteq> Some n"
      using coupledD(2) [OF assms(1) z calculation] assms(2) by (auto simp: slot_ok_def)
    ultimately show ?thesis by (intro slot_ok_frame [OF assms(1) z])
  qed
qed

text \<open>A reschedule: the new slot is taken, the old one is released if the booking (or nobody) held it.\<close>

lemma coupled_move:
  assumes "coupled z S B" "B i = Some b" "j \<noteq> bk_slot b" "S j = Some sl" "S (bk_slot b) = Some old"
    "\<And>k x. B k = Some x \<Longrightarrow> k \<noteq> i \<Longrightarrow> holding x \<Longrightarrow> bk_slot x \<noteq> j"
    "holding b'" "bk_slot b' = j" "slot_matches sl' b'"
    "sl_heldBy sl' = Some i" "sl_status sl' = (if bk_status b' = Confirmed then SlotBooked else SlotHeld)"
    "sl_status op = SlotOpen" "sl_heldBy op = None"
    "old' = (if sl_heldBy old = Some i \<or> sl_heldBy old = None then op else old)"
  shows "coupled z (S(j \<mapsto> sl', bk_slot b \<mapsto> old')) (B(i \<mapsto> b'))"
proof (rule coupledI)
  fix k x assume k: "(B(i \<mapsto> b')) k = Some x"
  show "\<exists>sl. (S(j \<mapsto> sl', bk_slot b \<mapsto> old')) (bk_slot x) = Some sl \<and> booking_ok k x sl"
  proof (cases "k = i")
    case True
    with k assms(3,7-11) show ?thesis by (auto simp: booking_ok_def SLOT_HOLDING_STATUSES_def)
  next
    case False
    with k have kx: "B k = Some x" by simp
    obtain y where y: "S (bk_slot x) = Some y" "booking_ok k x y" using coupledD(1) [OF assms(1) kx] by blast
    show ?thesis
    proof (cases "holding x")
      case True
      with assms(6) [OF kx False] have xj: "bk_slot x \<noteq> j" by blast
      have "sl_heldBy y = Some k" using y True by (simp add: booking_ok_def)
      then have "bk_slot x = bk_slot b \<Longrightarrow> old' = y" using y(1) assms(5,14) False by auto
      with y xj show ?thesis by (cases "bk_slot x = bk_slot b") auto
    next
      case False
      with y show ?thesis by (auto simp: booking_ok_def)
    qed
  qed
next
  fix m y assume z: z and m: "(S(j \<mapsto> sl', bk_slot b \<mapsto> old')) m = Some y"
  consider (old) "m = bk_slot b" | (new) "m = j" "m \<noteq> bk_slot b" | (other) "m \<noteq> j" "m \<noteq> bk_slot b" by blast
  then show "slot_ok (B(i \<mapsto> b')) m y"
  proof cases
    case old
    show ?thesis
    proof (cases "sl_heldBy old = Some i \<or> sl_heldBy old = None")
      case True
      with old m assms(12-14) show ?thesis by (auto simp: slot_ok_def)
    next
      case False
      with old m assms(5,14) slot_ok_frame [OF assms(1) z assms(5)] show ?thesis by auto
    qed
  next
    case new
    have "bk_status b' \<in> {Pending, Confirmed}" using assms(7) by (auto simp: SLOT_HOLDING_STATUSES_def)
    with new m assms(8,10,11) show ?thesis by (auto simp: slot_ok_def)
  next
    case other
    with m have y: "S m = Some y" by simp
    moreover have "sl_heldBy y \<noteq> Some i" using coupled_held_slot [OF assms(1) z y _ assms(2)] other by blast
    ultimately show ?thesis by (intro slot_ok_frame [OF assms(1) z])
  qed
qed

lemma coupled_new_slot:
  assumes "coupled z S B" "S j = None" "sl_status sl = SlotOpen" "sl_heldBy sl = None"
  shows "coupled z (S(j \<mapsto> sl)) B"
proof (rule coupledI)
  fix k x assume "B k = Some x"
  then obtain y where y: "S (bk_slot x) = Some y" "booking_ok k x y" using coupledD(1) [OF assms(1)] by blast
  then have "bk_slot x \<noteq> j" using assms(2) by auto
  with y show "\<exists>sl'. (S(j \<mapsto> sl)) (bk_slot x) = Some sl' \<and> booking_ok k x sl'" by auto
next
  fix m y assume z: z and "(S(j \<mapsto> sl)) m = Some y"
  then show "slot_ok B m y" using assms(3,4) coupledD(2) [OF assms(1) z, of m y]
    by (cases "m = j") (auto simp: slot_ok_def)
qed

lemma coupled_drop_slot:
  assumes "coupled z S B" "\<And>i b. B i = Some b \<Longrightarrow> bk_slot b \<noteq> j"
  shows "coupled z (S(j := None)) B"
proof (rule coupledI)
  fix k x assume "B k = Some x"
  with coupledD(1) [OF assms(1) this] assms(2) [OF this]
  show "\<exists>sl. (S(j := None)) (bk_slot x) = Some sl \<and> booking_ok k x sl" by simp
next
  fix m y assume z: z and "(S(j := None)) m = Some y"
  then show "slot_ok B m y" using coupledD(2) [OF assms(1) z, of m y] by (cases "m = j") auto
qed

text \<open>A booking that stops being live keeps the bookings' half whatever slots it frees, as long as each of them was
  held by it or by nobody.\<close>

lemma coupled_foreign_release:
  assumes "coupled z S B" "B i = Some b" "\<not> holding b'" "bk_slot b' = bk_slot b"
    "\<And>k y. S k = Some y \<Longrightarrow> \<exists>y'. S' k = Some y' \<and> (y' = y \<or> sl_heldBy y = Some i \<or> sl_heldBy y = None)"
  shows "coupled False S' (B(i \<mapsto> b'))"
proof (rule coupledI)
  fix k x assume k: "(B(i \<mapsto> b')) k = Some x"
  obtain x0 where x0: "B k = Some x0" "bk_slot x = bk_slot x0" "k \<noteq> i \<Longrightarrow> x = x0"
    using k assms(2,4) by (cases "k = i") auto
  obtain y where y: "S (bk_slot x) = Some y" "booking_ok k x0 y" using coupledD(1) [OF assms(1) x0(1)] x0(2) by auto
  obtain y' where y': "S' (bk_slot x) = Some y'" "y' = y \<or> sl_heldBy y = Some i \<or> sl_heldBy y = None" using assms(5) [OF y(1)] by blast
  have "booking_ok k x y'"
  proof (cases "k = i \<or> \<not> holding x")
    case True
    with k assms(3) show ?thesis by (auto simp: booking_ok_def)
  next
    case False
    with y(2) y'(2) x0(3) show ?thesis by (auto simp: booking_ok_def)
  qed
  with y' show "\<exists>sl. S' (bk_slot x) = Some sl \<and> booking_ok k x sl" by blast
qed simp

section \<open>The invariant of the database\<close>

definition slot_shape :: "slot \<Rightarrow> nat \<times> nat \<times> int \<times> int" where
  "slot_shape sl = (sl_id sl, sl_professional sl, sl_start sl, sl_end sl)"

text \<open>Slots are proper ranges and no two of one professional overlap (\<open>ck_availability_slots_range\<close>,
  \<open>ex_availability_slots_no_overlap\<close>).\<close>

definition shape_clash :: "nat \<times> nat \<times> int \<times> int \<Rightarrow> nat \<times> nat \<times> int \<times> int \<Rightarrow> bool" where
  "shape_clash x y \<longleftrightarrow> (case x of (i, p, a, b) \<Rightarrow> case y of (j, q, c, d) \<Rightarrow> i \<noteq> j \<and> p = q \<and> a < d \<and> c < b)"

definition shapes_ok :: "(nat \<times> nat \<times> int \<times> int) list \<Rightarrow> bool" where
  "shapes_ok t \<longleftrightarrow> (\<forall>x \<in> set t. case x of (i, p, a, b) \<Rightarrow> a < b) \<and> (\<forall>x \<in> set t. \<forall>y \<in> set t. \<not> shape_clash x y)"

definition tables_ok :: "slot list \<Rightarrow> booking list \<Rightarrow> nat \<Rightarrow> bool" where
  "tables_ok S B n \<longleftrightarrow> keyed sl_id S \<and> keyed bk_id B \<and> (\<forall>i \<in> sl_id ` set S. i < n) \<and> (\<forall>i \<in> bk_id ` set B. i < n) \<and>
     shapes_ok (map slot_shape S)"

definition booking_inv_on :: "bool \<Rightarrow> booking_db \<Rightarrow> bool" where
  "booking_inv_on exact s \<longleftrightarrow> tables_ok (db_slots s) (db_bookings s) (db_next s) \<and> coupled exact (slot_at s) (booking_at s)"

abbreviation booking_inv :: "booking_db \<Rightarrow> bool" where
  "booking_inv \<equiv> booking_inv_on False"

lemma tables_ok_slots:
  assumes "\<And>sl. slot_shape (f sl) = slot_shape sl"
  shows "tables_ok (tupd P f S) B n \<longleftrightarrow> tables_ok S B n"
proof -
  have "map slot_shape (tupd P f S) = map slot_shape S" by (simp add: tupd_def assms)
  moreover have "\<And>sl. sl_id (f sl) = sl_id sl" using assms by (auto simp: slot_shape_def)
  ultimately show ?thesis by (simp add: tables_ok_def table_simps)
qed

lemma tables_ok_bookings:
  assumes "\<And>b. bk_id (f b) = bk_id b"
  shows "tables_ok S (tupd P f B) n \<longleftrightarrow> tables_ok S B n"
  using assms by (simp add: tables_ok_def table_simps)

lemma tables_okD:
  "tables_ok S B n \<Longrightarrow> keyed sl_id S" "tables_ok S B n \<Longrightarrow> keyed bk_id B"
  "tables_ok S B n \<Longrightarrow> n \<notin> sl_id ` set S" "tables_ok S B n \<Longrightarrow> n \<notin> bk_id ` set B"
  by (auto simp: tables_ok_def)

lemma invD:
  "booking_inv_on z s \<Longrightarrow> tables_ok (db_slots s) (db_bookings s) (db_next s)"
  "booking_inv_on z s \<Longrightarrow> coupled z (slot_at s) (booking_at s)"
  by (simp_all add: booking_inv_on_def)

lemma booking_at_id: "booking_at s i = Some b \<Longrightarrow> bk_id b = i"
  by (auto simp: booking_at_def dest: tget_SomeD)

lemma slot_at_id: "slot_at s j = Some sl \<Longrightarrow> sl_id sl = j"
  by (auto simp: slot_at_def dest: tget_SomeD)

lemma booking_at_in: "booking_at s i = Some b \<Longrightarrow> b \<in> set (db_bookings s)"
  by (auto simp: booking_at_def dest: tget_SomeD)

lemma booking_in_at: "booking_inv_on z s \<Longrightarrow> b \<in> set (db_bookings s) \<Longrightarrow> booking_at s (bk_id b) = Some b"
  by (simp add: booking_at_def booking_inv_on_def tables_ok_def tget_keyed)

lemma slot_in_at: "booking_inv_on z s \<Longrightarrow> sl \<in> set (db_slots s) \<Longrightarrow> slot_at s (sl_id sl) = Some sl"
  by (simp add: slot_at_def booking_inv_on_def tables_ok_def tget_keyed)

text \<open>Only the two tables and the identifier counter matter to the invariant.\<close>

lemma inv_cong:
  "db_slots s' = db_slots s \<Longrightarrow> db_bookings s' = db_bookings s \<Longrightarrow> db_next s' = db_next s \<Longrightarrow>
   booking_inv_on z s' \<longleftrightarrow> booking_inv_on z s"
  by (simp add: booking_inv_on_def slot_at_def booking_at_def)

lemma inv_frame [simp]:
  "booking_inv_on z (s\<lparr>db_outbox := x\<rparr>) = booking_inv_on z s" "booking_inv_on z (s\<lparr>db_history := h\<rparr>) = booking_inv_on z s"
  "booking_inv_on z (s\<lparr>db_hooks := y\<rparr>) = booking_inv_on z s" "booking_inv_on z (s\<lparr>db_declarations := d\<rparr>) = booking_inv_on z s"
  "booking_inv_on z (s\<lparr>db_assignments := as\<rparr>) = booking_inv_on z s" "booking_inv_on z (s\<lparr>db_keys := k\<rparr>) = booking_inv_on z s"
  "booking_inv_on z (emitEvent ev s) = booking_inv_on z s"
  by (rule inv_cong; simp add: emitEvent_def)+

lemma recordHistory_frame [simp]:
  "db_slots (recordHistory c i ev f t a r m s) = db_slots s" "db_bookings (recordHistory c i ev f t a r m s) = db_bookings s"
  "db_next (recordHistory c i ev f t a r m s) = db_next s" "db_assignments (recordHistory c i ev f t a r m s) = db_assignments s"
  "db_keys (recordHistory c i ev f t a r m s) = db_keys s"
  by (simp_all add: recordHistory_def)

lemma emitEvent_frame [simp]:
  "db_slots (emitEvent ev s) = db_slots s" "db_bookings (emitEvent ev s) = db_bookings s"
  "db_next (emitEvent ev s) = db_next s" "db_assignments (emitEvent ev s) = db_assignments s"
  "db_keys (emitEvent ev s) = db_keys s"
  by (simp_all add: emitEvent_def)

lemma releaseResource_frame [simp]:
  "db_slots (releaseResourceAssignment i s) = db_slots s" "db_bookings (releaseResourceAssignment i s) = db_bookings s"
  "db_next (releaseResourceAssignment i s) = db_next s" "db_keys (releaseResourceAssignment i s) = db_keys s"
  by (simp_all add: releaseResourceAssignment_def)

lemma write_assignment_frame [simp]:
  "db_slots (write_assignment i r a b s) = db_slots s" "db_bookings (write_assignment i r a b s) = db_bookings s"
  "db_next (write_assignment i r a b s) = db_next s" "db_keys (write_assignment i r a b s) = db_keys s"
  by (simp_all add: write_assignment_def)

lemma releaseSlot_frame [simp]:
  "db_bookings (releaseSlot j i s) = db_bookings s" "db_next (releaseSlot j i s) = db_next s"
  "db_assignments (releaseSlot j i s) = db_assignments s"
  by (simp_all add: releaseSlot_def)

lemma setSlotBooked_frame [simp]:
  "db_bookings (setSlotBooked j i s) = db_bookings s" "db_next (setSlotBooked j i s) = db_next s"
  "db_assignments (setSlotBooked j i s) = db_assignments s"
  by (simp_all add: setSlotBooked_def)

lemma try_resources_frame:
  "try_resources ports i svc loc a b s rs = Inr s' \<Longrightarrow>
   db_slots s' = db_slots s \<and> db_bookings s' = db_bookings s \<and> db_next s' = db_next s \<and> db_keys s' = db_keys s"
  by (induction rs) (auto split: option.splits if_splits)

lemma sync_frame:
  "syncResourceAssignment ports i svc loc a b s = Inr s' \<Longrightarrow>
   db_slots s' = db_slots s \<and> db_bookings s' = db_bookings s \<and> db_next s' = db_next s \<and> db_keys s' = db_keys s"
  by (auto simp: syncResourceAssignment_def dest: try_resources_frame split: option.splits if_splits)

section \<open>Reads that are older than the write\<close>

text \<open>An operation reads a row without a lock and writes later. What an earlier read says of a row is still true of
  the row now in this sense: its parties and its service do not change, its count of reschedules only grows, and a
  row that was not rescheduled since is still on its slot.\<close>

definition row_le :: "booking \<Rightarrow> booking \<Rightarrow> bool" where
  "row_le r b \<longleftrightarrow> bk_customer b = bk_customer r \<and> bk_professional b = bk_professional r \<and> bk_service b = bk_service r \<and>
     bk_rescheduleCount r \<le> bk_rescheduleCount b \<and>
     (bk_rescheduleCount r = bk_rescheduleCount b \<longrightarrow> bk_slot b = bk_slot r \<and> bk_start b = bk_start r \<and> bk_end b = bk_end r)"

definition seen_before :: "booking list \<Rightarrow> booking_db \<Rightarrow> bool" where
  "seen_before rd s \<longleftrightarrow> (\<forall>i r. tget bk_id i rd = Some r \<longrightarrow> (\<exists>b. booking_at s i = Some b \<and> row_le r b))"

text \<open>The slot that was read is the slot the booking is on: no reschedule committed in between.\<close>

definition same_slot :: "booking list \<Rightarrow> booking_db \<Rightarrow> bool" where
  "same_slot rd s \<longleftrightarrow> (\<forall>i r b. tget bk_id i rd = Some r \<and> booking_at s i = Some b \<longrightarrow> bk_slot r = bk_slot b)"

lemma row_le_refl [simp]: "row_le b b"
  by (simp add: row_le_def)

lemma row_le_trans: "row_le a b \<Longrightarrow> row_le b c \<Longrightarrow> row_le a c"
  by (auto simp: row_le_def)

lemma seen_now [simp]: "seen_before (db_bookings s) s" "same_slot (db_bookings s) s"
  by (auto simp: seen_before_def same_slot_def booking_at_def)

section \<open>What the shared steps do to the lookups\<close>

lemma transition_False: "transition rd c i to allowed a r extra th s = Inr (False, s') \<Longrightarrow> s' = s"
  by (auto simp: transition_def split: option.splits if_splits)

text \<open>The compare-and-swap: whatever the earlier read saw, a move is made only from an allowed status of the
  row as it is now.\<close>

lemma transition_True:
  assumes "transition rd c i to allowed a r extra th s = Inr (m, s')" m "keyed bk_id (db_bookings s)"
    "\<And>b. bk_id (extra b) = bk_id b"
  shows "\<exists>b. booking_at s i = Some b \<and> bk_status b \<in> set allowed \<and>
    booking_at s' = (booking_at s)(i \<mapsto> extra (b\<lparr>bk_status := to\<rparr>)) \<and>
    db_slots s' = db_slots s \<and> db_next s' = db_next s \<and> db_assignments s' = db_assignments s \<and>
    (\<forall>S n. tables_ok S (db_bookings s') n \<longleftrightarrow> tables_ok S (db_bookings s) n)"
proof -
  let ?P = "\<lambda>b. bk_id b = i \<and> bk_status b \<in> set allowed"
  obtain current where "tget bk_id i rd = Some current"
    using assms(1,2) by (cases "tget bk_id i rd") (auto simp: transition_def)
  with assms(1,2) have aff: "taffected ?P (db_bookings s) = 1"
    and s': "s' = recordHistory c i (HistStatus to) (Some (bk_status current)) (Some to) a r NoMeta
      (s\<lparr>db_bookings := tupd ?P (\<lambda>b. extra (b\<lparr>bk_status := to\<rparr>)) (db_bookings s)\<rparr>)"
    by (auto simp: transition_def split: if_splits)
  from aff obtain b where b: "booking_at s i = Some b" "bk_status b \<in> set allowed"
    unfolding taffected_id [OF assms(3)] booking_at_def by (auto split: option.splits if_splits)
  have "booking_at s' = (booking_at s)(i \<mapsto> extra (b\<lparr>bk_status := to\<rparr>))"
    unfolding booking_at_def s' using b booking_at_id [OF b(1)]
    by (simp, intro tget_point_update) (auto simp: booking_at_def assms(4))
  moreover have "tables_ok S (db_bookings s') n \<longleftrightarrow> tables_ok S (db_bookings s) n" for S n
    unfolding s' using tables_ok_bookings [of "\<lambda>b. extra (b\<lparr>bk_status := to\<rparr>)"] assms(4) by simp
  ultimately show ?thesis using b s' by (intro exI [of _ b]) simp
qed

lemma slot_at_setSlotBooked:
  assumes "slot_at s j = Some sl"
  shows "slot_at (setSlotBooked j i s) = (slot_at s)(j \<mapsto> sl\<lparr>sl_status := SlotBooked, sl_heldUntil := None, sl_heldBy := Some i\<rparr>)"
  unfolding slot_at_def setSlotBooked_def using assms
  by (simp, intro tget_point_update) (auto simp: slot_at_def dest: tget_SomeD)

definition freed :: "slot \<Rightarrow> slot" where
  "freed sl = sl\<lparr>sl_status := SlotOpen, sl_heldUntil := None, sl_heldBy := None\<rparr>"

lemma slot_at_releaseSlot:
  assumes "slot_at s j = Some sl"
  shows "slot_at (releaseSlot j i s) =
    (slot_at s)(j \<mapsto> (if sl_heldBy sl = Some i \<or> sl_heldBy sl = None then freed sl else sl))"
proof -
  have k: "slot_at (releaseSlot j i s) k = map_option (\<lambda>x. if sl_id x = j \<and> (sl_heldBy x = Some i \<or> sl_heldBy x = None)
      then freed x else x) (slot_at s k)" for k
    unfolding slot_at_def releaseSlot_def freed_def by (simp add: tget_tupd)
  show ?thesis
  proof
    fix k
    show "slot_at (releaseSlot j i s) k =
        ((slot_at s)(j \<mapsto> (if sl_heldBy sl = Some i \<or> sl_heldBy sl = None then freed sl else sl))) k"
    proof (cases "k = j")
      case True
      with k assms slot_at_id [OF assms] show ?thesis by simp
    next
      case False
      then have "\<not> (sl_id x = j)" if "slot_at s k = Some x" for x using slot_at_id [OF that] by simp
      with k [of k] False show ?thesis by (cases "slot_at s k") auto
    qed
  qed
qed

lemma tables_ok_releaseSlot [simp]: "tables_ok (db_slots (releaseSlot j i s)) B n \<longleftrightarrow> tables_ok (db_slots s) B n"
  unfolding releaseSlot_def by (simp add: tables_ok_slots slot_shape_def)

lemma tables_ok_setSlotBooked [simp]: "tables_ok (db_slots (setSlotBooked j i s)) B n \<longleftrightarrow> tables_ok (db_slots s) B n"
  unfolding setSlotBooked_def by (simp add: tables_ok_slots slot_shape_def)

lemma claimSlot_Inr:
  assumes "claimSlot j p i h now s = Inr (sl', s')" "keyed sl_id (db_slots s)"
  shows "\<exists>sl. slot_at s j = Some sl \<and> claimable now sl \<and> sl_professional sl = p \<and>
    sl' = sl\<lparr>sl_status := SlotHeld, sl_heldUntil := Some h, sl_heldBy := Some i\<rparr> \<and>
    slot_at s' = (slot_at s)(j \<mapsto> sl') \<and> db_bookings s' = db_bookings s \<and> db_next s' = db_next s \<and>
    db_assignments s' = db_assignments s \<and> db_keys s' = db_keys s \<and>
    (\<forall>B n. tables_ok (db_slots s') B n \<longleftrightarrow> tables_ok (db_slots s) B n)"
proof -
  let ?P = "\<lambda>sl. sl_id sl = j \<and> sl_professional sl = p \<and> claimable now sl"
  let ?f = "\<lambda>sl. sl\<lparr>sl_status := SlotHeld, sl_heldUntil := Some h, sl_heldBy := Some i\<rparr>"
  let ?s = "s\<lparr>db_slots := tupd ?P ?f (db_slots s)\<rparr>"
  from assms(1) have aff: "taffected ?P (db_slots s) = 1" and s': "s' = ?s" and sl': "tget sl_id j (db_slots ?s) = Some sl'"
    by (auto simp: claimSlot_def Let_def split: if_splits option.splits)
  from aff obtain sl where sl: "slot_at s j = Some sl" "sl_professional sl = p" "claimable now sl"
    unfolding taffected_id [OF assms(2)] slot_at_def by (auto split: option.splits if_splits)
  have u: "slot_at s' = (slot_at s)(j \<mapsto> ?f sl)"
    unfolding slot_at_def s' using sl slot_at_id [OF sl(1)]
    by (simp, intro tget_point_update) (auto simp: slot_at_def)
  have "slot_at s' j = Some sl'" unfolding slot_at_def s' by (rule sl')
  with u have e: "sl' = ?f sl" by simp
  have "tables_ok (db_slots s') B n \<longleftrightarrow> tables_ok (db_slots s) B n" for B n
    unfolding s' by (simp add: tables_ok_slots slot_shape_def)
  with sl e u s' show ?thesis by (intro exI [of _ sl]) simp
qed

section \<open>Every operation keeps the invariant\<close>

lemma inv_keyed: "booking_inv_on z s \<Longrightarrow> keyed bk_id (db_bookings s)" "booking_inv_on z s \<Longrightarrow> keyed sl_id (db_slots s)"
  by (auto simp: booking_inv_on_def tables_ok_def)

lemma slot_of_booking:
  assumes "booking_inv_on z s" "booking_at s i = Some b"
  obtains sl where "slot_at s (bk_slot b) = Some sl" "booking_ok i b sl"
  using coupledD(1) [OF invD(2) [OF assms(1)] assms(2)] by blast

text \<open>Leaving the live statuses and giving a slot back, which is the booking's own when the row that was read is
  not older than its last reschedule: what \<open>cancel\<close> and the sweep share.\<close>

lemma inv_release:
  assumes "booking_inv_on z s" "booking_at s i = Some b" "holding b"
    "booking_at s1 = (booking_at s)(i \<mapsto> b')" "\<not> holding b'" "bk_slot b' = bk_slot b"
    "slot_at s1 = slot_at s" "tables_ok (db_slots s1) (db_bookings s1) (db_next s1)" "z \<Longrightarrow> j = bk_slot b"
    "db_slots s2 = db_slots (releaseSlot j i s1)" "db_bookings s2 = db_bookings s1" "db_next s2 = db_next s1"
  shows "booking_inv_on z s2"
proof -
  have B: "booking_at s2 = (booking_at s)(i \<mapsto> b')" using assms(4,11) by (simp add: booking_at_def)
  have S: "slot_at s2 = slot_at (releaseSlot j i s1)" using assms(10) by (simp add: slot_at_def)
  have "coupled z (slot_at s2) (booking_at s2)"
  proof (cases "j = bk_slot b")
    case True
    obtain sl where sl: "slot_at s (bk_slot b) = Some sl" "booking_ok i b sl" using slot_of_booking [OF assms(1,2)] .
    then have "sl_heldBy sl = Some i" using assms(3) by (simp add: booking_ok_def)
    then have "slot_at s2 = (slot_at s)(bk_slot b \<mapsto> freed sl)"
      using slot_at_releaseSlot [of s1 "bk_slot b" sl i] sl assms(7) True S by simp
    then show ?thesis
      using coupled_release [OF invD(2) [OF assms(1)] assms(2,3,5,6), of "freed sl"] B by (simp add: freed_def)
  next
    case False
    then have "\<not> z" using assms(9) by blast
    moreover have "coupled False (slot_at s2) ((booking_at s)(i \<mapsto> b'))"
    proof (rule coupled_foreign_release [OF invD(2) [OF assms(1)] assms(2,5,6)])
      fix k y assume "slot_at s k = Some y"
      then have "tget sl_id k (db_slots s1) = Some y" using assms(7) by (metis slot_at_def)
      then show "\<exists>y'. slot_at s2 k = Some y' \<and> (y' = y \<or> sl_heldBy y = Some i \<or> sl_heldBy y = None)"
        unfolding S unfolding slot_at_def releaseSlot_def by (simp add: tget_tupd)
    qed
    ultimately show ?thesis using B by simp
  qed
  then show ?thesis using assms(8,10-12) by (simp add: booking_inv_on_def)
qed

lemma confirm_inv:
  assumes "booking_inv_on z s" "confirm rd c i a s = Inr (r, s')"
  shows "booking_inv_on z s'"
proof -
  obtain m s1 where t: "transition rd c i Confirmed [Pending] a None
      (\<lambda>b. b\<lparr>bk_confirmedAt := Some (ck_js c), bk_holdExpiresAt := None\<rparr>) False s = Inr (m, s1)"
    using assms(2) by (auto simp: confirm_def bind_res_Inr)
  show ?thesis
  proof (cases m)
    case False
    with t assms show ?thesis by (auto simp: confirm_def dest: transition_False)
  next
    case True
    then obtain b where b: "booking_at s i = Some b" "bk_status b = Pending"
      and b1: "booking_at s1 = (booking_at s)(i \<mapsto> b\<lparr>bk_status := Confirmed, bk_confirmedAt := Some (ck_js c), bk_holdExpiresAt := None\<rparr>)"
      and f: "db_slots s1 = db_slots s" "db_next s1 = db_next s"
        "\<And>S n. tables_ok S (db_bookings s1) n \<longleftrightarrow> tables_ok S (db_bookings s) n"
      using transition_True [OF t True inv_keyed(1) [OF assms(1)]] by auto
    let ?b = "b\<lparr>bk_status := Confirmed, bk_confirmedAt := Some (ck_js c), bk_holdExpiresAt := None\<rparr>"
    have "tget bk_id i (db_bookings s1) = Some ?b" using b1 by (simp add: booking_at_def fun_eq_iff)
    with t True assms(2) obtain ev where s': "s' = emitEvent ev (setSlotBooked (bk_slot b) i s1)"
      by (auto simp: confirm_def)
    obtain sl where sl: "slot_at s (bk_slot b) = Some sl" "booking_ok i b sl" using slot_of_booking [OF assms(1) b(1)] .
    let ?sl = "sl\<lparr>sl_status := SlotBooked, sl_heldUntil := None, sl_heldBy := Some i\<rparr>"
    have s1: "slot_at s1 = slot_at s" using f(1) by (simp add: slot_at_def)
    have "slot_at (setSlotBooked (bk_slot b) i s1) = (slot_at s)(bk_slot b \<mapsto> ?sl)"
      using slot_at_setSlotBooked [of s1 "bk_slot b" sl i] sl(1) s1 by simp
    then have "slot_at s' = (slot_at s)(bk_slot b \<mapsto> ?sl)" by (simp add: s' slot_at_def)
    moreover have "booking_at s' = (booking_at s)(i \<mapsto> ?b)" using b1 by (simp add: s' booking_at_def)
    moreover have "coupled z ((slot_at s)(bk_slot b \<mapsto> ?sl)) ((booking_at s)(i \<mapsto> ?b))"
      by (rule coupled_confirm [OF invD(2) [OF assms(1)] b(1)])
         (use b(2) sl(2) in \<open>auto simp: SLOT_HOLDING_STATUSES_def booking_ok_def slot_matches_def\<close>)
    ultimately show ?thesis using invD(1) [OF assms(1)] f by (simp add: booking_inv_on_def s')
  qed
qed

lemma cancel_inv:
  assumes "booking_inv_on z s" "cancel rd c i a reason s = Inr (r, s')" "z \<longrightarrow> same_slot rd s"
  shows "booking_inv_on z s'"
proof (cases "tget bk_id i rd")
  case None
  with assms show ?thesis by (simp add: cancel_def)
next
  case g: (Some before)
  let ?extra = "\<lambda>b. b\<lparr>bk_cancellationReason := reason, bk_cancelledByType := Some (ac_type a),
      bk_cancelledById := ac_id a, bk_cancelledAt := Some (ck_js c), bk_holdExpiresAt := None\<rparr>"
  obtain m s1 where t: "transition rd c i Cancelled [Pending, Confirmed] a reason ?extra False s = Inr (m, s1)"
    using assms(2) g by (auto simp: cancel_def bind_res_Inr)
  show ?thesis
  proof (cases m)
    case False
    with t g assms show ?thesis by (auto simp: cancel_def dest: transition_False)
  next
    case True
    then obtain b where b: "booking_at s i = Some b" "bk_status b \<in> {Pending, Confirmed}"
      and b1: "booking_at s1 = (booking_at s)(i \<mapsto> ?extra (b\<lparr>bk_status := Cancelled\<rparr>))"
      and f: "db_slots s1 = db_slots s" "db_next s1 = db_next s"
        "\<And>S n. tables_ok S (db_bookings s1) n \<longleftrightarrow> tables_ok S (db_bookings s) n"
      using transition_True [OF t True inv_keyed(1) [OF assms(1)]] by auto
    have j: "bk_slot before = bk_slot b" if z using assms(3) that g b(1) by (auto simp: same_slot_def)
    have s': "db_slots s' = db_slots (releaseSlot (bk_slot before) i s1)" "db_bookings s' = db_bookings s1" "db_next s' = db_next s1"
      using assms(2) g t True by (auto simp: cancel_def Let_def releaseSlot_def)
    show ?thesis
      by (rule inv_release [OF assms(1) b(1) _ b1 _ _ _ _ j s'])
         (use b(2) f invD(1) [OF assms(1)] in \<open>auto simp: SLOT_HOLDING_STATUSES_def slot_at_def\<close>)
  qed
qed

lemma expireHold_inv:
  assumes "booking_inv_on z s" "expireHold rd c row s = Inr (r, s')" "z \<longrightarrow> same_slot [row] s"
  shows "booking_inv_on z s'"
proof -
  obtain m s1 where t: "transition rd c (bk_id row) Expired [Pending] SYSTEM_ACTOR (Some ''hold_expired'')
      (\<lambda>b. b\<lparr>bk_holdExpiresAt := None\<rparr>) False s = Inr (m, s1)"
    using assms(2) by (auto simp: expireHold_def bind_res_Inr)
  show ?thesis
  proof (cases m)
    case False
    with t assms show ?thesis by (auto simp: expireHold_def dest: transition_False)
  next
    case True
    then obtain b where b: "booking_at s (bk_id row) = Some b" "bk_status b = Pending"
      and b1: "booking_at s1 = (booking_at s)(bk_id row \<mapsto> b\<lparr>bk_status := Expired, bk_holdExpiresAt := None\<rparr>)"
      and f: "db_slots s1 = db_slots s" "db_next s1 = db_next s"
        "\<And>S n. tables_ok S (db_bookings s1) n \<longleftrightarrow> tables_ok S (db_bookings s) n"
      using transition_True [OF t True inv_keyed(1) [OF assms(1)]] by auto
    have j: "bk_slot row = bk_slot b" if z using assms(3) that b(1) by (simp add: same_slot_def tget_def) metis
    have s': "db_slots s' = db_slots (releaseSlot (bk_slot row) (bk_id row) s1)" "db_bookings s' = db_bookings s1" "db_next s' = db_next s1"
      using assms(2) t True by (auto simp: expireHold_def)
    show ?thesis
      by (rule inv_release [OF assms(1) b(1) _ b1 _ _ _ _ j s'])
         (use b(2) f invD(1) [OF assms(1)] in \<open>auto simp: SLOT_HOLDING_STATUSES_def slot_at_def\<close>)
  qed
qed

lemma finish_inv:
  assumes "booking_inv_on z s" "transition rd c i to [Confirmed] a reason extra th s = Inr (m, s1)" "to \<in> {Completed, NoShown}"
    "\<And>b. bk_id (extra b) = bk_id b \<and> bk_slot (extra b) = bk_slot b \<and> bk_status (extra b) = bk_status b"
  shows "booking_inv_on z s1"
proof (cases m)
  case False
  with assms show ?thesis by (auto dest: transition_False)
next
  case True
  obtain b where b: "booking_at s i = Some b" "bk_status b = Confirmed"
    and b1: "booking_at s1 = (booking_at s)(i \<mapsto> extra (b\<lparr>bk_status := to\<rparr>))"
    and f: "db_slots s1 = db_slots s" "db_next s1 = db_next s"
      "\<And>S n. tables_ok S (db_bookings s1) n \<longleftrightarrow> tables_ok S (db_bookings s) n"
    using transition_True [OF assms(2) True inv_keyed(1) [OF assms(1)]] assms(4) by auto
  have "coupled z (slot_at s) ((booking_at s)(i \<mapsto> extra (b\<lparr>bk_status := to\<rparr>)))"
    by (rule coupled_finish [OF invD(2) [OF assms(1)] b]) (use assms(3,4) in auto)
  with b1 f invD(1) [OF assms(1)] show ?thesis by (simp add: booking_inv_on_def slot_at_def)
qed

lemma complete_inv:
  assumes "booking_inv_on z s" "complete rd c i a s = Inr (r, s')"
  shows "booking_inv_on z s'"
proof -
  obtain m s1 where t: "transition rd c i Completed [Confirmed] a None (\<lambda>b. b\<lparr>bk_completedAt := Some (ck_js c)\<rparr>) True s = Inr (m, s1)"
    using assms(2) by (auto simp: complete_def bind_res_Inr)
  have "booking_inv_on z s1" by (rule finish_inv [OF assms(1) t]) auto
  with t assms(2) show ?thesis
    by (auto simp: complete_def split: option.splits if_splits)
qed

lemma markNoShow_inv:
  assumes "booking_inv_on z s" "markNoShow ports rd c i a st s = Inr (r, s')"
  shows "booking_inv_on z s'"
proof (cases "pt_governNoShow ports i")
  case UngovernedNoShow
  then show ?thesis
    using assms finish_inv [OF assms(1), of rd c i NoShown a None id True r s']
    by (auto simp: markNoShow_def split: option.splits if_splits)
next
  case (GovernedNoShow g w)
  then have "s' = s \<or> (\<exists>m s1. transition (db_bookings s) c i NoShown [Confirmed] a None id True s = Inr (m, s1) \<and>
      (s' = s1 \<or> (\<exists>d ev. s' = emitEvent ev (s1\<lparr>db_declarations := d\<rparr>))))"
    using assms(2)
    by (auto simp: markNoShow_def Let_def bind_res_Inr insert_declaration_def split: option.splits if_splits)
  then show ?thesis
    using assms(1) finish_inv [OF assms(1), of "db_bookings s" c i NoShown a None id True] by auto
qed

lemma not_holding_on:
  "\<not> list_ex (\<lambda>x. bk_id x \<noteq> i \<and> holding x \<and> bk_slot x = j) (db_bookings s) \<Longrightarrow>
   booking_at s k = Some x \<Longrightarrow> k \<noteq> i \<Longrightarrow> holding x \<Longrightarrow> bk_slot x \<noteq> j"
  using booking_at_in [of s k x] booking_at_id [of s k x] by (auto simp: list_ex_iff)

lemma createWithin_Inr:
  assumes "createWithin ports cfg c inp key s = Inr (b, s')"
  obtains sl s1 s2 s3 s4 where
    "claimSlot (in_slot inp) (in_professional inp) (db_next s) (ck_js c + bc_holdMinutes cfg * 60000) (ck_js c)
       (s\<lparr>db_next := Suc (db_next s)\<rparr>) = Inr (sl, s1)"
    "b = new_booking (db_next s) inp sl (ck_js c + bc_holdMinutes cfg * 60000)"
    "insert_booking b s1 = Inr s2"
    "syncResourceAssignment ports (db_next s) (bk_service b) (sl_location sl) (sl_start sl) (sl_end sl) s2 = Inr s3"
    "insert_idempotency_key (in_customer inp) key (db_next s) s3 = Inr s4"
    "db_slots s' = db_slots s4" "db_bookings s' = db_bookings s4" "db_next s' = db_next s4" "db_keys s' = db_keys s4"
    "db_assignments s' = db_assignments s4"
  using assms by (auto simp: createWithin_def Let_def bind_res_Inr split: if_splits)

lemma insert_key_frame:
  "insert_idempotency_key ow k r s = Inr s' \<Longrightarrow>
   db_slots s' = db_slots s \<and> db_bookings s' = db_bookings s \<and> db_next s' = db_next s \<and> db_assignments s' = db_assignments s"
  by (auto simp: insert_idempotency_key_def split: option.splits if_splits)

lemma createWithin_inv:
  assumes "booking_inv_on z s" "createWithin ports cfg c inp key s = Inr (b, s')"
  shows "booking_inv_on z s'"
proof -
  let ?n = "db_next s" and ?h = "ck_js c + bc_holdMinutes cfg * 60000"
  obtain sl s1 s2 s3 s4 where cl: "claimSlot (in_slot inp) (in_professional inp) ?n ?h (ck_js c) (s\<lparr>db_next := Suc ?n\<rparr>) = Inr (sl, s1)"
    and b: "b = new_booking ?n inp sl ?h" and ins: "insert_booking b s1 = Inr s2"
    and sy: "syncResourceAssignment ports ?n (bk_service b) (sl_location sl) (sl_start sl) (sl_end sl) s2 = Inr s3"
    and key: "insert_idempotency_key (in_customer inp) key ?n s3 = Inr s4"
    and s': "db_slots s' = db_slots s4" "db_bookings s' = db_bookings s4" "db_next s' = db_next s4"
    using createWithin_Inr [OF assms(2)] by metis
  let ?j = "in_slot inp"
  have t: "tables_ok (db_slots s) (db_bookings s) ?n" using invD(1) [OF assms(1)] .
  have "keyed sl_id (db_slots (s\<lparr>db_next := Suc ?n\<rparr>))" using inv_keyed [OF assms(1)] by simp
  from claimSlot_Inr [OF cl this] obtain sl0 where sl0: "slot_at s ?j = Some sl0" "sl_professional sl0 = in_professional inp"
    and sl: "sl = sl0\<lparr>sl_status := SlotHeld, sl_heldUntil := Some ?h, sl_heldBy := Some ?n\<rparr>"
    and s1: "slot_at s1 = (slot_at s)(?j \<mapsto> sl)" "db_bookings s1 = db_bookings s" "db_next s1 = Suc ?n"
      "\<forall>B n. tables_ok (db_slots s1) B n \<longleftrightarrow> tables_ok (db_slots s) B n"
    by (auto simp: slot_at_def)
  have bf: "bk_id b = ?n" "bk_slot b = ?j" "bk_status b = Pending" "slot_matches sl b"
    using b sl sl0 slot_at_id [OF sl0(1)] by (auto simp: new_booking_def slot_matches_def)
  have s2: "s2 = s1\<lparr>db_bookings := db_bookings s @ [b]\<rparr>" and free: "\<not> list_ex (\<lambda>x. holding x \<and> bk_slot x = ?j) (db_bookings s)"
    using ins s1 bf by (auto simp: insert_booking_def split: if_splits)
  have fin: "db_slots s' = db_slots s1" "db_bookings s' = db_bookings s @ [b]" "db_next s' = Suc ?n"
    using s' insert_key_frame [OF key] sync_frame [OF sy] s2 s1 by auto
  have nb: "booking_at s' = (booking_at s)(?n \<mapsto> b)"
    unfolding booking_at_def fin using tget_new_row [of bk_id b "db_bookings s"] tables_okD(4) [OF t] bf by simp
  have "slot_at s' = (slot_at s)(?j \<mapsto> sl)" using fin s1 by (simp add: slot_at_def)
  moreover have "coupled z ((slot_at s)(?j \<mapsto> sl)) ((booking_at s)(?n \<mapsto> b))"
  proof (rule coupled_claim [OF invD(2) [OF assms(1)] _ sl0(1)])
    show "booking_at s ?n = None" using tables_okD(4) [OF t] by (simp add: booking_at_def tget_None_iff)
    show "bk_slot x \<noteq> ?j" if "booking_at s i = Some x" "holding x" for i x
      using free that booking_at_in [OF that(1)] by (auto simp: list_ex_iff)
  qed (use bf sl in auto)
  moreover have "tables_ok (db_slots s') (db_bookings s') (db_next s')"
  proof -
    have "tables_ok (db_slots s1) (db_bookings s) ?n" using s1(4) t by blast
    then show ?thesis using bf(1) by (auto simp: fin tables_ok_def keyed_append)
  qed
  ultimately show ?thesis using nb by (simp add: booking_inv_on_def)
qed

lemma create_inv:
  assumes "booking_inv_on z s" "create ports cfg c inp s s = Inr (b, s')"
  shows "booking_inv_on z s'"
  using assms createWithin_inv by (auto simp: create_def Let_def split: option.splits sum.splits if_splits)

lemma move_booking_Inr:
  assumes "move_booking b st h sl s = Inr s'" "keyed bk_id (db_bookings s)"
  shows "\<exists>x. booking_at s (bk_id b) = Some x \<and> bk_status x = bk_status b \<and> bk_rescheduleCount x = bk_rescheduleCount b \<and>
    booking_at s' = (booking_at s)(bk_id b \<mapsto> x\<lparr>bk_slot := sl_id sl, bk_start := sl_start sl, bk_end := sl_end sl,
      bk_rescheduleCount := bk_rescheduleCount b + 1, bk_holdExpiresAt := h, bk_status := st\<rparr>) \<and>
    (st \<in> set SLOT_HOLDING_STATUSES \<longrightarrow>
      \<not> list_ex (\<lambda>y. bk_id y \<noteq> bk_id b \<and> holding y \<and> bk_slot y = sl_id sl) (db_bookings s)) \<and>
    db_slots s' = db_slots s \<and> db_next s' = db_next s \<and> db_assignments s' = db_assignments s \<and>
    (\<forall>S n. tables_ok S (db_bookings s') n \<longleftrightarrow> tables_ok S (db_bookings s) n)"
proof -
  let ?P = "\<lambda>x. bk_id x = bk_id b \<and> bk_status x = bk_status b \<and> bk_rescheduleCount x = bk_rescheduleCount b"
  let ?f = "\<lambda>x. x\<lparr>bk_slot := sl_id sl, bk_start := sl_start sl, bk_end := sl_end sl,
      bk_rescheduleCount := bk_rescheduleCount b + 1, bk_holdExpiresAt := h, bk_status := st\<rparr>"
  from assms(1) have aff: "taffected ?P (db_bookings s) = 1" and s': "s' = s\<lparr>db_bookings := tupd ?P ?f (db_bookings s)\<rparr>"
    and u: "st \<in> set SLOT_HOLDING_STATUSES \<longrightarrow>
      \<not> list_ex (\<lambda>y. bk_id y \<noteq> bk_id b \<and> holding y \<and> bk_slot y = sl_id sl) (db_bookings s)"
    by (auto simp: move_booking_def Let_def split: if_splits)
  from aff obtain x where x: "booking_at s (bk_id b) = Some x" "bk_status x = bk_status b" "bk_rescheduleCount x = bk_rescheduleCount b"
    unfolding taffected_id [OF assms(2)] booking_at_def by (auto split: option.splits if_splits)
  have "booking_at s' = (booking_at s)(bk_id b \<mapsto> ?f x)"
    unfolding booking_at_def s' using x booking_at_id [OF x(1)]
    by (simp, intro tget_point_update) (auto simp: booking_at_def)
  moreover have "tables_ok S (db_bookings s') n \<longleftrightarrow> tables_ok S (db_bookings s) n" for S n
    unfolding s' using tables_ok_bookings [of ?f] by simp
  ultimately show ?thesis using x u s' by (intro exI [of _ x]) simp
qed

definition reschedule_target :: "reschedule_options \<Rightarrow> booking \<Rightarrow> booking_status" where
  "reschedule_target opts b = (if ro_remedyBypass opts \<and> bk_status b = Cancelled then Confirmed else bk_status b)"

text \<open>The shape of a successful reschedule: the guards held, then claim, resource, move, book, release.\<close>

lemma reschedule_Inr:
  assumes "reschedule ports cfg rd c i j a r opts s = Inr (b', s')"
  shows "\<exists>b sl s1 s2 s3 s4 governed. tget bk_id i (if governed then db_bookings s else rd) = Some b \<and>
    reschedule_guards cfg c opts governed b j s = Inr () \<and>
    claimSlot j (bk_professional b) i (ck_js c + bc_holdMinutes cfg * 60000) (ck_js c) s = Inr (sl, s1) \<and>
    syncResourceAssignment ports i (bk_service b) (sl_location sl) (sl_start sl) (sl_end sl) s1 = Inr s2 \<and>
    move_booking b (reschedule_target opts b)
      (if reschedule_target opts b = Pending then Some (ck_js c + bc_holdMinutes cfg * 60000) else None) sl s2 = Inr s3 \<and>
    s4 = releaseSlot (bk_slot b) i (if reschedule_target opts b = Confirmed then setSlotBooked (sl_id sl) i s3 else s3) \<and>
    db_slots s' = db_slots s4 \<and> db_bookings s' = db_bookings s4 \<and> db_next s' = db_next s4 \<and> db_assignments s' = db_assignments s4 \<and>
    (governed \<longrightarrow> ac_type a = ActCustomer \<and> \<not> ro_remedyBypass opts)"
proof -
  let ?gov = "if ro_remedyBypass opts \<or> ac_type a \<noteq> ActCustomer then UngovernedReschedule else pt_governReschedule ports i"
  define gv where "gv \<longleftrightarrow> ?gov \<noteq> UngovernedReschedule"
  have g: "gv \<longrightarrow> ac_type a = ActCustomer \<and> \<not> ro_remedyBypass opts" by (auto simp: gv_def)
  obtain b where b: "tget bk_id i (if gv then db_bookings s else rd) = Some b"
    using assms by (cases "tget bk_id i (if gv then db_bookings s else rd)") (simp_all add: reschedule_def Let_def gv_def)
  have "\<exists>sl s1 s2 s3. reschedule_guards cfg c opts gv b j s = Inr () \<and>
    claimSlot j (bk_professional b) i (ck_js c + bc_holdMinutes cfg * 60000) (ck_js c) s = Inr (sl, s1) \<and>
    syncResourceAssignment ports i (bk_service b) (sl_location sl) (sl_start sl) (sl_end sl) s1 = Inr s2 \<and>
    move_booking b (reschedule_target opts b)
      (if reschedule_target opts b = Pending then Some (ck_js c + bc_holdMinutes cfg * 60000) else None) sl s2 = Inr s3 \<and>
    (let s4 = releaseSlot (bk_slot b) i (if reschedule_target opts b = Confirmed then setSlotBooked (sl_id sl) i s3 else s3) in
     db_slots s' = db_slots s4 \<and> db_bookings s' = db_bookings s4 \<and> db_next s' = db_next s4 \<and> db_assignments s' = db_assignments s4)"
    using assms unfolding reschedule_def Let_def gv_def [symmetric] b option.case reschedule_target_def [symmetric]
    by (auto simp: bind_res_Inr split: option.splits if_splits)
  with b g show ?thesis unfolding Let_def by (intro exI [of _ b] exI [of _ gv]) blast
qed

lemma reschedule_guards_Inr:
  "reschedule_guards cfg c opts g b j s = Inr u \<Longrightarrow>
   j \<noteq> bk_slot b \<and> (holding b \<or> ro_remedyBypass opts \<and> bk_status b = Cancelled) \<and>
   (\<exists>sl. slot_at s j = Some sl \<and> sl_professional sl = bk_professional b)"
  by (auto simp: reschedule_guards_def Let_def slot_at_def split: if_splits option.splits)

definition taken :: "nat \<Rightarrow> booking_status \<Rightarrow> int \<Rightarrow> slot \<Rightarrow> slot" where
  "taken i st h sl = sl\<lparr>sl_status := (if st = Confirmed then SlotBooked else SlotHeld),
     sl_heldUntil := (if st = Confirmed then None else Some h), sl_heldBy := Some i\<rparr>"

definition moved_to :: "slot \<Rightarrow> booking_status \<Rightarrow> int \<Rightarrow> booking \<Rightarrow> booking" where
  "moved_to sl st h b = b\<lparr>bk_slot := sl_id sl, bk_start := sl_start sl, bk_end := sl_end sl,
     bk_rescheduleCount := bk_rescheduleCount b + 1, bk_holdExpiresAt := (if st = Pending then Some h else None), bk_status := st\<rparr>"

text \<open>The whole effect of a successful reschedule on the two tables.\<close>

lemma reschedule_effect:
  assumes "booking_inv_on z s" "reschedule ports cfg rd c i j a r opts s = Inr (b', s')" "seen_before rd s"
  defines "h \<equiv> ck_js c + bc_holdMinutes cfg * 60000"
  shows "\<exists>b sl old gv. booking_at s i = Some b \<and> reschedule_guards cfg c opts gv b j s = Inr () \<and>
    (gv \<longrightarrow> ac_type a = ActCustomer \<and> \<not> ro_remedyBypass opts) \<and>
    slot_at s j = Some sl \<and> sl_professional sl = bk_professional b \<and> claimable (ck_js c) sl \<and>
    slot_at s (bk_slot b) = Some old \<and>
    \<not> list_ex (\<lambda>y. bk_id y \<noteq> i \<and> holding y \<and> bk_slot y = j) (db_bookings s) \<and>
    booking_at s' = (booking_at s)(i \<mapsto> moved_to sl (reschedule_target opts b) h b) \<and>
    slot_at s' = (slot_at s)(j \<mapsto> taken i (reschedule_target opts b) h sl,
      bk_slot b \<mapsto> (if sl_heldBy old = Some i \<or> sl_heldBy old = None then freed old else old)) \<and>
    tables_ok (db_slots s') (db_bookings s') (db_next s')"
proof -
  let ?st = "\<lambda>b. reschedule_target opts b"
  obtain r0 sl s1 s2 s3 s4 gv where r0: "tget bk_id i (if gv then db_bookings s else rd) = Some r0"
    and g0: "reschedule_guards cfg c opts gv r0 j s = Inr ()"
    and cl0: "claimSlot j (bk_professional r0) i h (ck_js c) s = Inr (sl, s1)"
    and sy: "syncResourceAssignment ports i (bk_service r0) (sl_location sl) (sl_start sl) (sl_end sl) s1 = Inr s2"
    and mv: "move_booking r0 (?st r0) (if ?st r0 = Pending then Some h else None) sl s2 = Inr s3"
    and s4': "s4 = releaseSlot (bk_slot r0) i (if ?st r0 = Confirmed then setSlotBooked (sl_id sl) i s3 else s3)"
    and s': "db_slots s' = db_slots s4" "db_bookings s' = db_bookings s4" "db_next s' = db_next s4"
    and gv: "gv \<longrightarrow> ac_type a = ActCustomer \<and> \<not> ro_remedyBypass opts"
    using reschedule_Inr [OF assms(2)] unfolding h_def by metis
  have rid: "bk_id r0 = i" using tget_SomeD [OF r0] by simp
  have at1: "booking_at s2 = booking_at s" "keyed bk_id (db_bookings s2)"
    using sync_frame [OF sy] claimSlot_Inr [OF cl0 inv_keyed(2) [OF assms(1)]] inv_keyed(1) [OF assms(1)] by (auto simp: booking_at_def)
  obtain b where b: "booking_at s i = Some b" "bk_status b = bk_status r0" "bk_rescheduleCount b = bk_rescheduleCount r0"
    using move_booking_Inr [OF mv at1(2)] unfolding at1(1) rid by blast
  have "row_le r0 b"
  proof (cases gv)
    case True
    with r0 b(1) show ?thesis by (simp add: booking_at_def)
  next
    case False
    with r0 have "tget bk_id i rd = Some r0" by simp
    with assms(3) b(1) show ?thesis unfolding seen_before_def by fastforce
  qed
  then have same: "bk_slot r0 = bk_slot b" "bk_start r0 = bk_start b" "bk_professional r0 = bk_professional b" "bk_service r0 = bk_service b"
    using b(3) by (simp_all add: row_le_def)
  have st: "?st r0 = ?st b" using b(2) by (simp add: reschedule_target_def)
  have g: "reschedule_guards cfg c opts gv b j s = Inr ()" using g0 unfolding reschedule_guards_def Let_def same b(2,3) .
  note cl = cl0 [unfolded same] and s4 = s4' [unfolded st same]
  note b = b(1) and bs = b(2,3)
  have gu: "j \<noteq> bk_slot b" "holding b \<or> ro_remedyBypass opts \<and> bk_status b = Cancelled"
    using reschedule_guards_Inr [OF g] by auto
  obtain sl0 where sl0: "slot_at s j = Some sl0" "claimable (ck_js c) sl0" "sl_professional sl0 = bk_professional b"
    and sl: "sl = sl0\<lparr>sl_status := SlotHeld, sl_heldUntil := Some h, sl_heldBy := Some i\<rparr>"
    and s1: "slot_at s1 = (slot_at s)(j \<mapsto> sl)" "db_bookings s1 = db_bookings s" "db_next s1 = db_next s"
      "\<forall>B n. tables_ok (db_slots s1) B n \<longleftrightarrow> tables_ok (db_slots s) B n"
    using claimSlot_Inr [OF cl inv_keyed(2) [OF assms(1)]] by metis
  have slid: "sl_id sl = j" using slot_at_id [OF sl0(1)] sl by simp
  have s2: "db_slots s2 = db_slots s1" "db_bookings s2 = db_bookings s" "db_next s2 = db_next s"
    using sync_frame [OF sy] s1 by auto
  have hold: "?st b \<in> set SLOT_HOLDING_STATUSES"
    using gu(2) by (auto simp: reschedule_target_def SLOT_HOLDING_STATUSES_def)
  have m: "booking_at s3 = (booking_at s)(i \<mapsto> moved_to sl0 (?st b) h b)"
    "\<not> list_ex (\<lambda>y. bk_id y \<noteq> i \<and> holding y \<and> bk_slot y = j) (db_bookings s)"
    "db_slots s3 = db_slots s1" "db_next s3 = db_next s"
    "\<forall>S n. tables_ok S (db_bookings s3) n \<longleftrightarrow> tables_ok S (db_bookings s) n"
    using move_booking_Inr [OF mv at1(2)] b hold bs slot_at_id [OF sl0(1)] unfolding at1(1) rid slid s2 moved_to_def st
    by (auto simp: sl)
  obtain old where old: "slot_at s (bk_slot b) = Some old" using slot_of_booking [OF assms(1) b] by metis
  let ?s3 = "if ?st b = Confirmed then setSlotBooked (sl_id sl) i s3 else s3"
  have at3: "slot_at s3 = (slot_at s)(j \<mapsto> sl)" using m(3) s1(1) by (simp add: slot_at_def)
  have at3': "slot_at ?s3 = (slot_at s)(j \<mapsto> taken i (?st b) h sl0)"
    using slot_at_setSlotBooked [of s3 j sl i] at3 slot_at_id [OF sl0(1)] by (simp add: slid taken_def sl)
  have "slot_at ?s3 (bk_slot b) = Some old" using at3' old gu(1) by simp
  from slot_at_releaseSlot [OF this, of i] have at4: "slot_at s4 = (slot_at s)(j \<mapsto> taken i (?st b) h sl0,
      bk_slot b \<mapsto> (if sl_heldBy old = Some i \<or> sl_heldBy old = None then freed old else old))"
    unfolding s4 at3' .
  have e: "slot_at s' = slot_at s4" "booking_at s' = booking_at s3"
    using s' by (auto simp: slot_at_def booking_at_def s4)
  have "tables_ok (db_slots s1) (db_bookings s) (db_next s)" using s1(4) invD(1) [OF assms(1)] by blast
  then have t: "tables_ok (db_slots s') (db_bookings s') (db_next s')" using s' m by (simp add: s4)
  show ?thesis
    using b g gv sl0 old m(1,2) at4 e t by (intro exI [of _ b] exI [of _ sl0] exI [of _ old] exI [of _ gv]) simp
qed

lemma reschedule_inv:
  assumes "booking_inv_on z s" "reschedule ports cfg rd c i j a r opts s = Inr (b', s')" "seen_before rd s"
  shows "booking_inv_on z s'"
proof -
  let ?h = "ck_js c + bc_holdMinutes cfg * 60000"
  obtain b sl old gv where b: "booking_at s i = Some b" and g: "reschedule_guards cfg c opts gv b j s = Inr ()"
    and sl: "slot_at s j = Some sl" "sl_professional sl = bk_professional b" and old: "slot_at s (bk_slot b) = Some old"
    and free: "\<not> list_ex (\<lambda>y. bk_id y \<noteq> i \<and> holding y \<and> bk_slot y = j) (db_bookings s)"
    and B: "booking_at s' = (booking_at s)(i \<mapsto> moved_to sl (reschedule_target opts b) ?h b)"
    and S: "slot_at s' = (slot_at s)(j \<mapsto> taken i (reschedule_target opts b) ?h sl,
      bk_slot b \<mapsto> (if sl_heldBy old = Some i \<or> sl_heldBy old = None then freed old else old))"
    and t: "tables_ok (db_slots s') (db_bookings s') (db_next s')"
    using reschedule_effect [OF assms] by (elim exE conjE) (rule that; assumption)
  have gu: "j \<noteq> bk_slot b" "holding b \<or> ro_remedyBypass opts \<and> bk_status b = Cancelled"
    using reschedule_guards_Inr [OF g] by auto
  have "coupled z (slot_at s') (booking_at s')"
    unfolding B S
  proof (rule coupled_move [OF invD(2) [OF assms(1)] b gu(1) sl(1) old _ _ _ _ _ _ _ _ refl])
    show "bk_slot x \<noteq> j" if "booking_at s k = Some x" "k \<noteq> i" "holding x" for k x
      using not_holding_on [OF free] that by blast
    show "sl_status (freed old) = SlotOpen" "sl_heldBy (freed old) = None" by (simp_all add: freed_def)
  qed (use gu(2) sl slot_at_id [OF sl(1)] in \<open>auto simp: moved_to_def taken_def reschedule_target_def slot_matches_def SLOT_HOLDING_STATUSES_def\<close>)
  with t show ?thesis by (simp add: booking_inv_on_def)
qed

section \<open>Slots come and go\<close>

lemma insert_slot_inv:
  assumes "booking_inv_on z s" "a < b" "\<not> overlaps p a b (db_slots s)"
  shows "booking_inv_on z (s\<lparr>db_slots := db_slots s @ [open_slot (db_next s) p svc loc a b], db_next := Suc (db_next s)\<rparr>)"
    (is "booking_inv_on z ?s'")
proof -
  let ?sl = "open_slot (db_next s) p svc loc a b"
  have t: "tables_ok (db_slots s) (db_bookings s) (db_next s)" using invD(1) [OF assms(1)] .
  have "slot_at ?s' = (slot_at s)(db_next s \<mapsto> ?sl)"
    unfolding slot_at_def using tget_new_row [of sl_id ?sl "db_slots s"] tables_okD(3) [OF t] by (simp add: open_slot_def)
  moreover have "coupled z ((slot_at s)(db_next s \<mapsto> ?sl)) (booking_at s)"
    by (rule coupled_new_slot [OF invD(2) [OF assms(1)]])
       (use tables_okD(3) [OF t] in \<open>auto simp: slot_at_def tget_None_iff open_slot_def\<close>)
  moreover have "booking_at ?s' = booking_at s" by (simp add: booking_at_def)
  moreover have "shapes_ok (map slot_shape (db_slots s @ [?sl]))"
  proof -
    have "\<not> (sl_start x < b \<and> a < sl_end x)" if "x \<in> set (db_slots s)" "sl_professional x = p" for x
      using assms(3) that by (auto simp: overlaps_def slot_overlaps_def list_ex_iff)
    then show ?thesis
      using t assms(2) by (auto simp: tables_ok_def shapes_ok_def shape_clash_def slot_shape_def open_slot_def)
  qed
  then have "tables_ok (db_slots ?s') (db_bookings ?s') (db_next ?s')"
    using t by (auto simp: tables_ok_def keyed_append open_slot_def)
  ultimately show ?thesis by (simp add: booking_inv_on_def)
qed

lemma createSlot_inv:
  assumes "booking_inv_on z s" "createSlot cfg dl seen now p sa ea svc s = Inr (sl, s')"
  shows "booking_inv_on z s'"
  using assms insert_slot_inv
  by (auto simp: createSlot_def bind_res_Inr assertValidRange_def Let_def split: option.splits if_splits)

lemma insert_or_ignore_inv:
  assumes "booking_inv_on z s" "\<forall>(a, b) \<in> set cs. a < b"
  shows "booking_inv_on z (fst (insert_or_ignore p svc loc cs s))"
  using assms
proof (induction p svc loc cs s rule: insert_or_ignore.induct)
  case (2 p svc loc a b cs s)
  show ?case
  proof (cases "overlaps p a b (db_slots s)")
    case True
    with 2 show ?thesis by simp
  next
    case False
    with 2 insert_slot_inv [of _ s a b p svc loc] show ?thesis by (simp add: case_prod_beta)
  qed
qed simp

lemma slots_of_day_range: "(x, y) \<in> set (slots_of_day now step a e) \<Longrightarrow> y = x + step \<and> 0 < step \<and> now \<le> x \<and> a \<le> x \<and> y \<le> e"
  by (induction now step a e rule: slots_of_day.induct) (subst (asm) slots_of_day.simps, force split: if_splits)

lemma generateCandidates_range:
  "(x, y) \<in> set (generateCandidates off d n ws ts te m now) \<Longrightarrow> y = x + m * 60000 \<and> x < y \<and> now \<le> x"
  by (auto simp: generateCandidates_def Let_def dest: slots_of_day_range split: if_splits)

lemma bulkGenerate_inv:
  assumes "booking_inv_on z s" "bulkGenerate cfg dl off now p inp s = Inr (r, s')"
  shows "booking_inv_on z s'"
proof -
  obtain d n ws ts te m where "s' = fst (insert_or_ignore p (bi_service inp) (dl p) (generateCandidates off d n ws ts te m now) s)"
    using assms(2) by (auto simp: bulkGenerate_def Let_def case_prod_beta split: option.splits if_splits)
  moreover have "\<forall>(a, b) \<in> set (generateCandidates off d n ws ts te m now). a < b"
    using generateCandidates_range by blast
  ultimately show ?thesis using insert_or_ignore_inv assms(1) by blast
qed

lemma tget_filter_other:
  "keyed k t \<Longrightarrow> (\<And>r. r \<in> set t \<Longrightarrow> k r = i \<Longrightarrow> \<not> Q r) \<Longrightarrow> (\<And>r. \<not> Q r \<Longrightarrow> k r = i) \<Longrightarrow>
   (\<lambda>j. tget k j (filter Q t)) = (\<lambda>j. tget k j t)(i := None)"
proof
  fix j
  assume a: "keyed k t" "\<And>r. r \<in> set t \<Longrightarrow> k r = i \<Longrightarrow> \<not> Q r" "\<And>r. \<not> Q r \<Longrightarrow> k r = i"
  have f: "keyed k (filter Q t)" using a(1) by (simp add: keyed_def distinct_map_filter)
  show "tget k j (filter Q t) = ((\<lambda>j. tget k j t)(i := None)) j"
  proof (cases "j = i")
    case True
    then show ?thesis using a(2) by (auto simp: tget_None_iff)
  next
    case False
    have "tget k j (filter Q t) = Some r \<longleftrightarrow> tget k j t = Some r" for r
      using keyed_tget_iff [OF f] keyed_tget_iff [OF a(1)] a(3) [of r] False by auto
    then show ?thesis using False by (metis fun_upd_other not_None_eq)
  qed
qed

lemma shapes_ok_subset: "shapes_ok t \<Longrightarrow> set u \<subseteq> set t \<Longrightarrow> shapes_ok u"
  unfolding shapes_ok_def by blast

lemma tables_ok_filter:
  assumes "tables_ok S B n"
  shows "tables_ok (filter Q S) B n"
proof -
  have "shapes_ok (map slot_shape (filter Q S))"
    by (rule shapes_ok_subset [of "map slot_shape S"]) (use assms in \<open>auto simp: tables_ok_def\<close>)
  moreover have "keyed sl_id (filter Q S)" using assms by (simp add: tables_ok_def keyed_def distinct_map_filter)
  ultimately show ?thesis using assms by (simp add: tables_ok_def)
qed

lemma deleteSlot_inv:
  assumes "booking_inv_on z s" "deleteSlot p j s = Inr s'"
  shows "booking_inv_on z s'"
proof -
  let ?P = "\<lambda>sl. sl_id sl = j \<and> sl_professional sl = p \<and> sl_status sl = SlotOpen"
  have s': "s' = s\<lparr>db_slots := filter (\<lambda>sl. \<not> ?P sl) (db_slots s)\<rparr>" and n: "taffected ?P (db_slots s) \<noteq> 0"
    and fk: "\<not> list_ex (\<lambda>b. bk_slot b = j) (db_bookings s)"
    using assms(2) by (auto simp: deleteSlot_def Let_def split: if_splits)
  have k: "keyed sl_id (db_slots s)" using inv_keyed [OF assms(1)] by simp
  have "taffected (\<lambda>sl. sl_id sl = j \<and> (sl_professional sl = p \<and> sl_status sl = SlotOpen)) (db_slots s) \<noteq> 0"
    using n by simp
  then obtain sl where sl: "tget sl_id j (db_slots s) = Some sl" "sl_professional sl = p" "sl_status sl = SlotOpen"
    unfolding taffected_id [OF k] by (auto split: option.splits if_splits)
  have uniq: "x = sl" if "x \<in> set (db_slots s)" "sl_id x = j" for x
    using tget_keyed [OF k that(1)] that(2) sl(1) by simp
  have "(\<lambda>i. tget sl_id i (filter (\<lambda>sl. \<not> ?P sl) (db_slots s))) = (\<lambda>i. tget sl_id i (db_slots s))(j := None)"
  proof (rule tget_filter_other [OF k])
    fix r assume "r \<in> set (db_slots s)" "sl_id r = j"
    with uniq [OF this] sl show "\<not> \<not> ?P r" by simp
  next
    fix r assume "\<not> \<not> ?P r"
    then show "sl_id r = j" by simp
  qed
  then have "slot_at s' = (slot_at s)(j := None)" by (simp add: slot_at_def s')
  moreover have "coupled z ((slot_at s)(j := None)) (booking_at s)"
    by (rule coupled_drop_slot [OF invD(2) [OF assms(1)]])
       (use fk booking_at_in in \<open>auto simp: list_ex_iff\<close>)
  moreover have "tables_ok (db_slots s') (db_bookings s') (db_next s')"
    using tables_ok_filter [OF invD(1) [OF assms(1)]] by (simp add: s')
  ultimately show ?thesis by (simp add: booking_inv_on_def s' booking_at_def)
qed

section \<open>Runs\<close>

text \<open>
  One committed transaction. What an operation reads before its write is a list of rows \<open>rd\<close> that any earlier
  state may have held (\<open>seen_before\<close>): a confirmation, cancellation, completion, no-show or reschedule reads
  its row without a lock, and the sweep reads the lapsed rows long before it expires each of them in a transaction
  of its own, while any other operation runs in between. With \<open>exact\<close>, cancellations and expiries are
  restricted to reads that no reschedule of the booking has overtaken. A failed operation leaves the database as
  it was.
\<close>

inductive booking_step :: "bool \<Rightarrow> booking_ports \<Rightarrow> booking_config \<Rightarrow> booking_db \<Rightarrow> booking_db \<Rightarrow> bool"
  for exact :: bool and ports :: booking_ports and cfg :: booking_config where
  step_create: "create ports cfg c inp s s = Inr (b, s') \<Longrightarrow> booking_step exact ports cfg s s'"
| step_confirm: "seen_before rd s \<Longrightarrow> confirm rd c i a s = Inr (r, s') \<Longrightarrow> booking_step exact ports cfg s s'"
| step_cancel: "seen_before rd s \<Longrightarrow> exact \<longrightarrow> same_slot rd s \<Longrightarrow> cancel rd c i a reason s = Inr (r, s') \<Longrightarrow>
    booking_step exact ports cfg s s'"
| step_complete: "seen_before rd s \<Longrightarrow> complete rd c i a s = Inr (r, s') \<Longrightarrow> booking_step exact ports cfg s s'"
| step_no_show: "seen_before rd s \<Longrightarrow> markNoShow ports rd c i a st s = Inr (r, s') \<Longrightarrow> booking_step exact ports cfg s s'"
| step_reschedule: "seen_before rd s \<Longrightarrow> reschedule ports cfg rd c i j a reason opts s = Inr (b, s') \<Longrightarrow> booking_step exact ports cfg s s'"
| step_expire: "seen_before [row] s \<Longrightarrow> exact \<longrightarrow> same_slot [row] s \<Longrightarrow> seen_before rd s \<Longrightarrow> expireHold rd c row s = Inr (r, s') \<Longrightarrow>
    booking_step exact ports cfg s s'"
| step_createSlot: "createSlot acfg dl seen now p sa ea svc s = Inr (sl, s') \<Longrightarrow> booking_step exact ports cfg s s'"
| step_bulk: "bulkGenerate acfg dl off now p binp s = Inr (n, s') \<Longrightarrow> booking_step exact ports cfg s s'"
| step_deleteSlot: "deleteSlot p j s = Inr s' \<Longrightarrow> booking_step exact ports cfg s s'"

definition empty_db :: booking_db where
  "empty_db = \<lparr>db_slots = [], db_bookings = [], db_history = [], db_keys = [], db_assignments = [],
     db_declarations = [], db_outbox = [], db_hooks = [], db_next = 0\<rparr>"

definition booking_reachable :: "bool \<Rightarrow> booking_ports \<Rightarrow> booking_config \<Rightarrow> booking_db \<Rightarrow> bool" where
  "booking_reachable exact ports cfg s = (booking_step exact ports cfg)\<^sup>*\<^sup>* empty_db s"

lemma empty_inv: "booking_inv_on z empty_db"
  by (simp add: booking_inv_on_def empty_db_def tables_ok_def keyed_def shapes_ok_def coupled_def slot_at_def booking_at_def)

lemma step_inv: "booking_step z ports cfg s s' \<Longrightarrow> booking_inv_on z s \<Longrightarrow> booking_inv_on z s'"
  by (induction rule: booking_step.induct)
     (blast intro: create_inv confirm_inv cancel_inv complete_inv markNoShow_inv reschedule_inv expireHold_inv
       createSlot_inv bulkGenerate_inv deleteSlot_inv)+

lemma reachable_inv: "booking_reachable z ports cfg s \<Longrightarrow> booking_inv_on z s"
  unfolding booking_reachable_def
  by (induction rule: rtranclp_induct) (auto intro: empty_inv step_inv)

lemma inv_weaken: "booking_inv_on z s \<Longrightarrow> booking_inv s"
  by (simp add: booking_inv_on_def coupled_def)

end
