(* ===== verification/Booking_Demo.thy ===== *)
theory Booking_Demo
  imports Booking_Invariant
begin

text \<open>
  A small concrete run of the booking domain, on which the properties are exercised: one professional (5)
  opens two slots, customer 7 books the first and customer 8 the second. No resource requirement, no
  outcome terms. Times are milliseconds; the first slot starts at hour 100.
\<close>

definition demo_ports :: booking_ports where
  "demo_ports = \<lparr>pt_eligibleResources = \<lambda>_ _. None, pt_eligibleAfterLock = \<lambda>_ _ _. None,
     pt_governReschedule = \<lambda>_. UngovernedReschedule, pt_consequenceRetained = \<lambda>_ _. 0, pt_governNoShow = \<lambda>_. UngovernedNoShow\<rparr>"

definition demo_cfg :: booking_config where
  "demo_cfg = \<lparr>bc_holdMinutes = 15, bc_maxConcurrentHolds = 5, bc_maxReschedules = 2, bc_rescheduleMinHours = 6\<rparr>"

definition demo_acfg :: availability_config where
  "demo_acfg = \<lparr>av_minSlotMinutes = 10, av_maxSlotMinutes = 480, av_maxBulkDays = 60, av_maxWindowDays = 62\<rparr>"

definition at_time :: "int \<Rightarrow> clock" where "at_time t = \<lparr>ck_js = t, ck_db = t\<rparr>"

definition demo_slot :: "nat \<Rightarrow> slot" where
  "demo_slot k = open_slot k 5 None None (360000000 + int k * 3600000) (363600000 + int k * 3600000)"

definition demo_open :: booking_db where
  "demo_open = empty_db\<lparr>db_slots := [demo_slot 0, demo_slot 1], db_next := 2\<rparr>"

definition demo_input :: "nat \<Rightarrow> nat \<Rightarrow> create_input" where
  "demo_input customer k = \<lparr>in_customer = customer, in_professional = 5, in_slot = k, in_service = None, in_idempotencyKey = None\<rparr>"

definition demo_booking :: "nat \<Rightarrow> nat \<Rightarrow> nat \<Rightarrow> booking" where
  "demo_booking bid customer k = new_booking bid (demo_input customer k) (demo_slot k) 900000"

definition held_slot :: "nat \<Rightarrow> nat \<Rightarrow> slot" where
  "held_slot k bid = (demo_slot k)\<lparr>sl_status := SlotHeld, sl_heldUntil := Some 900000, sl_heldBy := Some bid\<rparr>"

definition created_history :: "nat \<Rightarrow> nat \<Rightarrow> nat \<Rightarrow> booking_history" where
  "created_history bid customer k = \<lparr>hi_booking = bid, hi_event = HistCreated, hi_from = None, hi_to = Some Pending,
     hi_actorType = ActCustomer, hi_actorId = Some customer, hi_reason = None, hi_metadata = MetaCreated k 900000, hi_createdAt = 0\<rparr>"

definition created_event :: "nat \<Rightarrow> nat \<Rightarrow> nat \<Rightarrow> booking_event" where
  "created_event bid customer k = BookingCreated bid 5 customer None k (360000000 + int k * 3600000)"

definition demo_one :: booking_db where
  "demo_one = demo_open\<lparr>db_slots := [held_slot 0 2, demo_slot 1], db_bookings := [demo_booking 2 7 0],
     db_history := [created_history 2 7 0], db_outbox := [created_event 2 7 0], db_next := 3\<rparr>"

definition demo_two :: booking_db where
  "demo_two = demo_one\<lparr>db_slots := [held_slot 0 2, held_slot 1 3], db_bookings := [demo_booking 2 7 0, demo_booking 3 8 1],
     db_history := [created_history 2 7 0, created_history 3 8 1],
     db_outbox := [created_event 2 7 0, created_event 3 8 1], db_next := 4\<rparr>"

lemmas demo_records = demo_ports_def demo_cfg_def demo_acfg_def at_time_def demo_slot_def demo_open_def demo_input_def
  demo_booking_def held_slot_def created_history_def created_event_def demo_one_def demo_two_def empty_db_def
  open_slot_def new_booking_def

lemmas booking_eval = create_def createWithin_def normalise_key_def claimSlot_def claimable_code activeHolds_def taffected_def
  tupd_def tget_def insert_booking_def syncResourceAssignment_def releaseResourceAssignment_def insert_idempotency_key_def
  recordHistory_def emitEvent_def service_mismatch_def SLOT_HOLDING_STATUSES_def Let_def

lemma demo_slot0: "createSlot demo_acfg (\<lambda>_. None) [] 0 5 (Some 360000000) (Some 363600000) None empty_db =
    Inr (demo_slot 0, empty_db\<lparr>db_slots := [demo_slot 0], db_next := 1\<rparr>)"
  by (simp add: createSlot_def assertValidRange_def overlaps_def demo_records Let_def)

lemma demo_slot1: "createSlot demo_acfg (\<lambda>_. None) [] 0 5 (Some 363600000) (Some 367200000) None
      (empty_db\<lparr>db_slots := [demo_slot 0], db_next := 1\<rparr>) = Inr (demo_slot 1, demo_open)"
  by (simp add: createSlot_def assertValidRange_def overlaps_def slot_overlaps_def demo_records Let_def)

lemma demo_create0: "create demo_ports demo_cfg (at_time 0) (demo_input 7 0) demo_open demo_open = Inr (demo_booking 2 7 0, demo_one)"
  by (simp add: booking_eval demo_records)

lemma demo_create1: "create demo_ports demo_cfg (at_time 0) (demo_input 8 1) demo_one demo_one = Inr (demo_booking 3 8 1, demo_two)"
  by (simp add: booking_eval demo_records)

lemma demo_open_reachable: "booking_reachable z demo_ports demo_cfg demo_open"
proof -
  have "booking_step z demo_ports demo_cfg empty_db (empty_db\<lparr>db_slots := [demo_slot 0], db_next := 1\<rparr>)"
    by (rule step_createSlot [OF demo_slot0])
  moreover have "booking_step z demo_ports demo_cfg (empty_db\<lparr>db_slots := [demo_slot 0], db_next := 1\<rparr>) demo_open"
    by (rule step_createSlot [OF demo_slot1])
  ultimately show ?thesis unfolding booking_reachable_def by simp
qed

lemma demo_one_reachable: "booking_reachable z demo_ports demo_cfg demo_one"
  using demo_open_reachable step_create [OF demo_create0] unfolding booking_reachable_def by (rule rtranclp.rtrancl_into_rtrancl)

lemma demo_two_reachable: "booking_reachable z demo_ports demo_cfg demo_two"
  using demo_one_reachable step_create [OF demo_create1] unfolding booking_reachable_def by (rule rtranclp.rtrancl_into_rtrancl)

end
