(* ===== verification/Booking_Steps.thy ===== *)
theory Booking_Steps
  imports Booking_Invariant
begin

text \<open>
  How booking rows move: the status machine and its rank, and for every operation the only row it touches, what it
  may change of it and the statuses it takes it through. So the bookings that any earlier state of a run held are
  reads the step relation allows (\<open>run_seen_before\<close>).
\<close>

section \<open>The status machine\<close>

definition legal_move :: "booking_status \<Rightarrow> booking_status \<Rightarrow> bool" where
  "legal_move s t \<longleftrightarrow> t \<in> set (LEGAL_TRANSITIONS s)"

fun status_rank :: "booking_status \<Rightarrow> nat" where
  "status_rank Pending = 0"
| "status_rank Confirmed = 1"
| "status_rank _ = 2"

interpretation booking_machine: ranked_machine legal_move status_rank
proof unfold_locales
  fix s t
  assume "legal_move s t"
  then show "status_rank s < status_rank t" by (cases s) (auto simp: legal_move_def)
qed

text \<open>What one transaction may do to a status: keep it, move it forward, or revive a cancelled booking
  through the remedy reschedule.\<close>

definition status_step :: "booking_status \<Rightarrow> booking_status \<Rightarrow> bool" where
  "status_step s t \<longleftrightarrow> t = s \<or> legal_move s t \<or> s = Cancelled \<and> t = Confirmed"

text \<open>At most one row changes; it is a new pending booking, or a row that stays the same booking and whose status
  moves along \<open>R\<close>.\<close>

definition bookings_moved :: "(booking_status \<Rightarrow> booking_status \<Rightarrow> bool) \<Rightarrow> booking_db \<Rightarrow> booking_db \<Rightarrow> bool" where
  "bookings_moved R s s' \<longleftrightarrow> booking_at s' = booking_at s \<or>
     (\<exists>i b'. booking_at s' = (booking_at s)(i \<mapsto> b') \<and>
        (case booking_at s i of None \<Rightarrow> bk_status b' = Pending | Some b \<Rightarrow> row_le b b' \<and> R (bk_status b) (bk_status b')))"

abbreviation bookings_step :: "booking_db \<Rightarrow> booking_db \<Rightarrow> bool" where
  "bookings_step \<equiv> bookings_moved status_step"

lemma moved_refl: "booking_at s' = booking_at s \<Longrightarrow> bookings_moved R s s'"
  by (simp add: bookings_moved_def)

lemma moved_mono: "bookings_moved R s s' \<Longrightarrow> (\<And>a b. R a b \<Longrightarrow> R' a b) \<Longrightarrow> bookings_moved R' s s'"
  unfolding bookings_moved_def by (elim disjE exE conjE, simp, intro disjI2 exI conjI, assumption) (simp split: option.splits)

lemma bookings_stepD:
  assumes "bookings_step s s'" "booking_at s i = Some b"
  shows "\<exists>b'. booking_at s' i = Some b' \<and> status_step (bk_status b) (bk_status b')"
  using assms by (auto simp: bookings_moved_def status_step_def split: option.splits)

definition taken_to :: "booking_status list \<Rightarrow> booking_status \<Rightarrow> booking_status \<Rightarrow> booking_status \<Rightarrow> bool" where
  "taken_to allowed to a b \<longleftrightarrow> b = a \<or> a \<in> set allowed \<and> b = to"

lemma transition_moves:
  assumes "transition rd c i to allowed a r extra th s = Inr (m, s1)" "db_bookings s' = db_bookings s1"
    "booking_inv_on z s" "\<And>b. bk_id (extra b) = bk_id b \<and> bk_status (extra b) = bk_status b \<and> row_le b (extra b)"
  shows "bookings_moved (taken_to allowed to) s s'"
proof -
  have e: "booking_at s' = booking_at s1" using assms(2) by (simp add: booking_at_def)
  show ?thesis
  proof (cases m)
    case False
    with assms(1) e show ?thesis by (auto dest: transition_False intro: moved_refl)
  next
    case True
    from transition_True [OF assms(1) True inv_keyed(1) [OF assms(3)]] assms(4)
    obtain b where "booking_at s i = Some b" "bk_status b \<in> set allowed"
      "booking_at s1 = (booking_at s)(i \<mapsto> extra (b\<lparr>bk_status := to\<rparr>))" by auto
    moreover from this assms(4) [of "b\<lparr>bk_status := to\<rparr>"] have "row_le b (extra (b\<lparr>bk_status := to\<rparr>))" by (simp add: row_le_def)
    ultimately show ?thesis using e assms(4)
      unfolding bookings_moved_def by (intro disjI2 exI [of _ i]) (auto simp: taken_to_def)
  qed
qed

lemma create_moves:
  assumes "booking_inv_on z s" "create ports cfg c inp s s = Inr (b, s')"
  shows "bookings_moved (=) s s'"
proof -
  consider "s' = s" | key where "createWithin ports cfg c inp key s = Inr (b, s')"
    using assms(2) by (auto simp: create_def Let_def split: option.splits sum.splits if_splits)
  then show ?thesis
  proof cases
    case (2 key)
    then obtain sl s1 s2 s3 s4 h where "insert_booking b s1 = Inr s2" "bk_id b = db_next s" "bk_status b = Pending"
      "db_bookings s1 = db_bookings s" "db_bookings s' = db_bookings s2"
    proof (rule createWithin_Inr)
      fix sl s1 s2 s3 s4
      assume cl: "claimSlot (in_slot inp) (in_professional inp) (db_next s) (ck_js c + bc_holdMinutes cfg * 60000)
          (ck_js c) (s\<lparr>db_next := Suc (db_next s)\<rparr>) = Inr (sl, s1)"
        and b: "b = new_booking (db_next s) inp sl (ck_js c + bc_holdMinutes cfg * 60000)"
        and ins: "insert_booking b s1 = Inr s2"
        and sy: "syncResourceAssignment ports (db_next s) (bk_service b) (sl_location sl) (sl_start sl) (sl_end sl) s2 = Inr s3"
        and k: "insert_idempotency_key (in_customer inp) key (db_next s) s3 = Inr s4"
        and f: "db_bookings s' = db_bookings s4"
      have "keyed sl_id (db_slots (s\<lparr>db_next := Suc (db_next s)\<rparr>))" using inv_keyed [OF assms(1)] by simp
      from claimSlot_Inr [OF cl this] have "db_bookings s1 = db_bookings s" by auto
      moreover have "db_bookings s' = db_bookings s2" using f insert_key_frame [OF k] sync_frame [OF sy] by simp
      ultimately show thesis using that ins b by (simp add: new_booking_def)
    qed
    moreover have "db_bookings s2 = db_bookings s1 @ [b]" using calculation(1) by (auto simp: insert_booking_def split: if_splits)
    moreover have n: "db_next s \<notin> bk_id ` set (db_bookings s)" using tables_okD(4) [OF invD(1) [OF assms(1)]] .
    ultimately have "booking_at s' = (booking_at s)(db_next s \<mapsto> b)"
      unfolding booking_at_def using tget_new_row [of bk_id b "db_bookings s"] by simp
    moreover have "booking_at s (db_next s) = None" using n by (simp add: booking_at_def tget_None_iff)
    ultimately show ?thesis using \<open>bk_status b = Pending\<close>
      unfolding bookings_moved_def by (intro disjI2 exI [of _ "db_next s"] exI [of _ b]) simp
  qed (simp add: moved_refl)
qed

lemma reschedule_moves:
  assumes "booking_inv_on z s" "reschedule ports cfg rd c i j a r opts s = Inr (b', s')" "seen_before rd s"
  shows "bookings_moved (\<lambda>x y. y = (if ro_remedyBypass opts \<and> x = Cancelled then Confirmed else x)) s s'"
proof -
  obtain b sl h where b: "booking_at s i = Some b"
    and B: "booking_at s' = (booking_at s)(i \<mapsto> moved_to sl (reschedule_target opts b) h b)"
    using reschedule_effect [OF assms] by (elim exE conjE) (rule that; assumption)
  then show ?thesis
    unfolding bookings_moved_def
    by (intro disjI2 exI [of _ i] exI [of _ "moved_to sl (reschedule_target opts b) h b"])
       (simp add: moved_to_def reschedule_target_def row_le_def)
qed

lemma insert_or_ignore_bookings [simp]: "db_bookings (fst (insert_or_ignore p svc loc cs s)) = db_bookings s"
  by (induction p svc loc cs s rule: insert_or_ignore.induct) (auto simp: case_prod_beta)

lemma markNoShow_transition:
  "markNoShow ports rd c i a st s = Inr (r, s') \<Longrightarrow> s' = s \<or>
     (\<exists>rd m s1. transition rd c i NoShown [Confirmed] a None id True s = Inr (m, s1) \<and> db_bookings s' = db_bookings s1)"
  by (auto simp: markNoShow_def Let_def bind_res_Inr insert_declaration_def
      split: no_show_governance.splits option.splits if_splits) blast+

lemma confirm_moves:
  assumes "confirm rd c i a s = Inr (r, s')" "booking_inv_on z s"
  shows "bookings_moved (taken_to [Pending] Confirmed) s s'"
proof -
  from assms(1) obtain m s1 where "transition rd c i Confirmed [Pending] a None
      (\<lambda>b. b\<lparr>bk_confirmedAt := Some (ck_js c), bk_holdExpiresAt := None\<rparr>) False s = Inr (m, s1)" "db_bookings s' = db_bookings s1"
    by (auto simp: confirm_def bind_res_Inr split: if_splits option.splits)
  then show ?thesis by (rule transition_moves) (use assms(2) in \<open>auto simp: row_le_def\<close>)
qed

lemma cancel_moves:
  assumes "cancel rd c i a reason s = Inr (r, s')" "booking_inv_on z s"
  shows "bookings_moved (taken_to [Pending, Confirmed] Cancelled) s s'"
proof (cases "tget bk_id i rd")
  case None
  with assms show ?thesis by (auto simp: cancel_def intro: moved_refl)
next
  case (Some b)
  with assms(1) obtain m s1 where "transition rd c i Cancelled [Pending, Confirmed] a reason
      (\<lambda>b. b\<lparr>bk_cancellationReason := reason, bk_cancelledByType := Some (ac_type a),
        bk_cancelledById := ac_id a, bk_cancelledAt := Some (ck_js c), bk_holdExpiresAt := None\<rparr>) False s = Inr (m, s1)"
    "db_bookings s' = db_bookings s1"
    by (auto simp: cancel_def bind_res_Inr Let_def split: if_splits)
  then show ?thesis by (rule transition_moves) (use assms(2) in \<open>auto simp: row_le_def\<close>)
qed

lemma complete_moves:
  assumes "complete rd c i a s = Inr (r, s')" "booking_inv_on z s"
  shows "bookings_moved (taken_to [Confirmed] Completed) s s'"
proof -
  from assms(1) obtain m s1 where "transition rd c i Completed [Confirmed] a None (\<lambda>b. b\<lparr>bk_completedAt := Some (ck_js c)\<rparr>) True s = Inr (m, s1)"
    "db_bookings s' = db_bookings s1"
    by (auto simp: complete_def bind_res_Inr split: if_splits option.splits)
  then show ?thesis by (rule transition_moves) (use assms(2) in \<open>auto simp: row_le_def\<close>)
qed

lemma no_show_moves:
  assumes "markNoShow ports rd c i a st s = Inr (r, s')" "booking_inv_on z s"
  shows "bookings_moved (taken_to [Confirmed] NoShown) s s'"
  using markNoShow_transition [OF assms(1)]
proof
  assume "\<exists>rd m s1. transition rd c i NoShown [Confirmed] a None id True s = Inr (m, s1) \<and> db_bookings s' = db_bookings s1"
  then obtain rd m s1 where t: "transition rd c i NoShown [Confirmed] a None id True s = Inr (m, s1)" "db_bookings s' = db_bookings s1" by blast
  show ?thesis by (rule transition_moves [OF t]) (use assms(2) in \<open>auto simp: row_le_def\<close>)
qed (simp add: moved_refl)

lemma expire_moves:
  assumes "expireHold rd c row s = Inr (r, s')" "booking_inv_on z s"
  shows "bookings_moved (taken_to [Pending] Expired) s s'"
proof -
  from assms(1) obtain m s1 where "transition rd c (bk_id row) Expired [Pending] SYSTEM_ACTOR (Some ''hold_expired'')
      (\<lambda>b. b\<lparr>bk_holdExpiresAt := None\<rparr>) False s = Inr (m, s1)" "db_bookings s' = db_bookings s1"
    by (auto simp: expireHold_def bind_res_Inr split: if_splits)
  then show ?thesis by (rule transition_moves) (use assms(2) in \<open>auto simp: row_le_def\<close>)
qed

lemma slots_move_no_booking:
  "createSlot acfg dl seen now p sa ea svc s = Inr (sl, s1) \<Longrightarrow> booking_at s1 = booking_at s"
  "bulkGenerate acfg dl off now p binp s = Inr (n, s2) \<Longrightarrow> booking_at s2 = booking_at s"
  "deleteSlot p j s = Inr s3 \<Longrightarrow> booking_at s3 = booking_at s"
proof -
  show "booking_at s1 = booking_at s" if "createSlot acfg dl seen now p sa ea svc s = Inr (sl, s1)"
    using that by (auto simp: createSlot_def bind_res_Inr Let_def booking_at_def split: if_splits)
  show "booking_at s2 = booking_at s" if "bulkGenerate acfg dl off now p binp s = Inr (n, s2)"
  proof -
    have "\<exists>ps svc loc cs. s2 = fst (insert_or_ignore ps svc loc cs s)"
      using that by (auto simp: bulkGenerate_def Let_def case_prod_beta split: option.splits if_splits)
    then show ?thesis by (auto simp: booking_at_def)
  qed
  show "booking_at s3 = booking_at s" if "deleteSlot p j s = Inr s3"
    using that by (auto simp: deleteSlot_def Let_def booking_at_def split: if_splits)
qed

lemmas booking_moves = create_moves confirm_moves cancel_moves complete_moves no_show_moves reschedule_moves expire_moves

lemma taken_to_step: "taken_to allowed to a b \<Longrightarrow> \<forall>x \<in> set allowed. legal_move x to \<Longrightarrow> status_step a b"
  by (auto simp: taken_to_def status_step_def)

lemma step_bookings_step:
  assumes "booking_step z ports cfg s s'" "booking_inv_on z s"
  shows "bookings_step s s'"
  using assms(1)
proof (cases rule: booking_step.cases)
  case (step_create c inp b)
  show ?thesis by (rule moved_mono [OF create_moves [OF assms(2) step_create]]) (simp add: status_step_def)
next
  case (step_confirm rd c i a r)
  show ?thesis by (rule moved_mono [OF confirm_moves [OF step_confirm(2) assms(2)]], erule taken_to_step) (simp add: legal_move_def)
next
  case (step_cancel rd c i a reason r)
  show ?thesis by (rule moved_mono [OF cancel_moves [OF step_cancel(3) assms(2)]], erule taken_to_step) (simp add: legal_move_def)
next
  case (step_complete rd c i a r)
  show ?thesis by (rule moved_mono [OF complete_moves [OF step_complete(2) assms(2)]], erule taken_to_step) (simp add: legal_move_def)
next
  case (step_no_show rd c i a st r)
  show ?thesis by (rule moved_mono [OF no_show_moves [OF step_no_show(2) assms(2)]], erule taken_to_step) (simp add: legal_move_def)
next
  case (step_reschedule rd c i j a reason opts b)
  show ?thesis by (rule moved_mono [OF reschedule_moves [OF assms(2) step_reschedule(2,1)]]) (simp add: status_step_def split: if_splits)
next
  case (step_expire row rd c r)
  show ?thesis by (rule moved_mono [OF expire_moves [OF step_expire(4) assms(2)]], erule taken_to_step) (simp add: legal_move_def)
qed (simp_all add: moved_refl slots_move_no_booking)

lemma run_inv: "(booking_step z ports cfg)\<^sup>*\<^sup>* s s' \<Longrightarrow> booking_inv_on z s \<Longrightarrow> booking_inv_on z s'"
  by (induction rule: rtranclp_induct) (auto intro: step_inv)

text \<open>What was seen in one state is still seen, in the sense of \<open>row_le\<close>, in every later one.\<close>

lemma moved_rows:
  assumes "bookings_moved R s s'" "booking_at s i = Some b"
  shows "\<exists>b'. booking_at s' i = Some b' \<and> row_le b b'"
  using assms by (auto simp: bookings_moved_def split: option.splits)

lemma moved_seen_before:
  assumes "bookings_moved R s s'" "seen_before rd s"
  shows "seen_before rd s'"
  unfolding seen_before_def
proof (intro allI impI)
  fix i r assume "tget bk_id i rd = Some r"
  with assms(2) obtain b where "booking_at s i = Some b" "row_le r b" unfolding seen_before_def by blast
  moreover obtain b' where "booking_at s' i = Some b'" "row_le b b'" using moved_rows [OF assms(1) calculation(1)] by blast
  ultimately show "\<exists>b. booking_at s' i = Some b \<and> row_le r b" using row_le_trans by blast
qed

lemma run_seen_before:
  assumes "(booking_step z ports cfg)\<^sup>*\<^sup>* s s'" "booking_inv_on z s"
  shows "seen_before (db_bookings s) s'"
  using assms(1)
proof (induction rule: rtranclp_induct)
  case (step y t)
  then show ?case using moved_seen_before [OF step_bookings_step [OF step(2) run_inv [OF step(1) assms(2)]]] by blast
qed simp

lemma finished_kept:
  assumes "(booking_step z ports cfg)\<^sup>*\<^sup>* s s'" "booking_inv_on z s" "booking_at s i = Some b" "bk_status b \<in> {Completed, Expired, NoShown}"
  shows "\<exists>b'. booking_at s' i = Some b' \<and> bk_status b' = bk_status b"
  using assms(1)
proof (induction rule: rtranclp_induct)
  case base
  then show ?case using assms(3) by simp
next
  case (step y t)
  then obtain b1 where b1: "booking_at y i = Some b1" "bk_status b1 = bk_status b" by blast
  from bookings_stepD [OF step_bookings_step [OF step(2) run_inv [OF step(1) assms(2)]] b1(1)] b1 assms(4)
  show ?case by (auto simp: status_step_def legal_move_def)
qed

end
