(* ===== verification/Booking_Properties.thy ===== *)
theory Booking_Properties
  imports Booking_Demo Booking_Steps
begin

text \<open>
  What the booking domain promises: no double booking in any reachable database, forward-only statuses,
  what a claim, a cancellation and a reschedule leave behind, replays, the resource exclusion, and the
  places where the code departs from its own documentation.
\<close>

section \<open>Facts about single operations\<close>

lemma create_no_key: "in_idempotencyKey inp = None \<Longrightarrow> ok (create ports cfg c inp s a) \<Longrightarrow> ok (createWithin ports cfg c inp None s)"
  by (auto simp: create_def Let_def normalise_key_def split: sum.splits if_splits)

lemma held_slot_blocks:
  assumes "booking_inv_on True s" "slot_at s (in_slot inp) = Some sl" "sl_status sl = SlotHeld"
  shows "\<not> ok (createWithin ports cfg c inp key s)"
proof
  assume "ok (createWithin ports cfg c inp key s)"
  then obtain b s' where "createWithin ports cfg c inp key s = Inr (b, s')" by (auto simp: ok_iff)
  then obtain sl' s1 s2 h where cl: "claimSlot (in_slot inp) (in_professional inp) (db_next s) h (ck_js c)
      (s\<lparr>db_next := Suc (db_next s)\<rparr>) = Inr (sl', s1)"
    and b: "b = new_booking (db_next s) inp sl' h" and ins: "insert_booking b s1 = Inr s2"
    by (rule createWithin_Inr) blast
  have "keyed sl_id (db_slots (s\<lparr>db_next := Suc (db_next s)\<rparr>))" using inv_keyed [OF assms(1)] by simp
  from claimSlot_Inr [OF cl this] assms(2)
  have f: "db_bookings s1 = db_bookings s" "sl_id sl' = in_slot inp"
    by (auto simp: slot_at_def dest: tget_SomeD)
  from coupledD(2) [OF invD(2) [OF assms(1)] TrueI assms(2)] assms(3)
  obtain i x where x: "booking_at s i = Some x" "bk_slot x = in_slot inp" "bk_status x = Pending"
    by (auto simp: slot_ok_def split: option.splits)
  from booking_at_in [OF x(1)] x(2,3) f b have "list_ex (\<lambda>y. holding y \<and> bk_slot y = bk_slot b) (db_bookings s1)"
    by (auto simp: list_ex_iff new_booking_def SLOT_HOLDING_STATUSES_def intro!: bexI [of _ x])
  with ins show False by (simp add: insert_booking_def)
qed

lemma transition_ok:
  assumes "keyed bk_id (db_bookings s)" "tget bk_id i rd = Some r" "bk_status r \<in> set allowed"
    "booking_at s i = Some b" "bk_status b \<in> set allowed"
  shows "\<exists>s1. transition rd c i to allowed a reason extra th s = Inr (True, s1) \<and>
    db_hooks s1 = db_hooks s \<and> db_assignments s1 = db_assignments s \<and> db_slots s1 = db_slots s \<and>
    db_history s1 = db_history s @ [\<lparr>hi_booking = i, hi_event = HistStatus to, hi_from = Some (bk_status r), hi_to = Some to,
      hi_actorType = ac_type a, hi_actorId = ac_id a, hi_reason = reason, hi_metadata = NoMeta, hi_createdAt = ck_db c\<rparr>]"
proof -
  have "taffected (\<lambda>b. bk_id b = i \<and> bk_status b \<in> set allowed) (db_bookings s) = 1"
    unfolding taffected_id [OF assms(1)] using assms(4,5) by (simp add: booking_at_def)
  with assms(2,3) show ?thesis by (simp add: transition_def recordHistory_def)
qed

definition cancelled_by :: "clock \<Rightarrow> booking_actor \<Rightarrow> string option \<Rightarrow> booking \<Rightarrow> booking" where
  "cancelled_by c a reason b = b\<lparr>bk_status := Cancelled, bk_cancellationReason := reason, bk_cancelledByType := Some (ac_type a),
     bk_cancelledById := ac_id a, bk_cancelledAt := Some (ck_js c), bk_holdExpiresAt := None\<rparr>"

text \<open>A cancellation, whatever its own read saw: \<open>r\<close> is the row it read, \<open>b\<close> the row it changed.\<close>

lemma cancel_ok:
  assumes "booking_inv_on z s" "tget bk_id i rd = Some r" "holding r" "booking_at s i = Some b" "holding b"
  shows "\<exists>s1 ev. cancel rd c i a reason s = Inr (True, emitEvent ev (releaseResourceAssignment i (releaseSlot (bk_slot r) i s1))) \<and>
    db_slots s1 = db_slots s \<and> db_assignments s1 = db_assignments s \<and>
    booking_at s1 = (booking_at s)(i \<mapsto> cancelled_by c a reason b) \<and>
    db_hooks s1 = db_hooks s @ [OnBookingCancellation i (ac_type a) (bk_status r = Confirmed)]"
proof -
  let ?extra = "\<lambda>b. b\<lparr>bk_cancellationReason := reason, bk_cancelledByType := Some (ac_type a),
      bk_cancelledById := ac_id a, bk_cancelledAt := Some (ck_js c), bk_holdExpiresAt := None\<rparr>"
  have k: "keyed bk_id (db_bookings s)" using inv_keyed [OF assms(1)] by simp
  have sets: "bk_status r \<in> set [Pending, Confirmed]" "bk_status b \<in> set [Pending, Confirmed]"
    using assms(3,5) by (simp_all add: SLOT_HOLDING_STATUSES_def)
  obtain s1 where t: "transition rd c i Cancelled [Pending, Confirmed] a reason ?extra False s = Inr (True, s1)"
    "db_hooks s1 = db_hooks s" "db_assignments s1 = db_assignments s" "db_slots s1 = db_slots s"
    using transition_ok [OF k assms(2) sets(1) assms(4) sets(2), of c Cancelled a reason ?extra False] by blast
  from transition_True [OF t(1) TrueI k] assms(4) have b1: "booking_at s1 = (booking_at s)(i \<mapsto> cancelled_by c a reason b)"
    by (auto simp: cancelled_by_def)
  let ?s2 = "s1\<lparr>db_hooks := db_hooks s1 @ [OnBookingCancellation i (ac_type a) (bk_status r = Confirmed)]\<rparr>"
  show ?thesis
    using t b1 assms(2) by (intro exI [of _ ?s2]) (auto simp: cancel_def Let_def booking_at_def)
qed

lemma cancel_True:
  assumes "booking_inv_on z s" "cancel (db_bookings s) c i a reason s = Inr (True, s')"
  obtains b where "booking_at s i = Some b" "holding b"
proof -
  obtain b where b: "booking_at s i = Some b"
    using assms(2) by (cases "booking_at s i") (auto simp: cancel_def booking_at_def)
  moreover have "holding b"
    using assms(2) b by (auto simp: cancel_def transition_def booking_at_def SLOT_HOLDING_STATUSES_def bind_res_Inr
        split: if_splits)
  ultimately show thesis using that by blast
qed

section \<open>Properties\<close>

text \<open>C11: No double booking, however the operations interleave and however old the rows are that they read before
  they write. In every reachable database each live booking has its slot: the slot exists with the booking's
  professional and times and is held (booked, once confirmed) by that booking; two different live bookings are on
  different slots, and two of one professional never overlap in time. When moreover no cancellation or expiry acted
  on a row that a reschedule had overtaken (\<open>exact\<close>), every slot is open and free or belongs to exactly one
  booking on it, which is pending if the slot is held and confirmed, completed or a no-show if it is booked.\<close>

theorem no_double_booking:
  assumes "booking_reachable exact ports cfg s"
  shows "(\<forall>b \<in> set (db_bookings s). bk_status b \<in> set SLOT_HOLDING_STATUSES \<longrightarrow>
      (\<exists>sl. slot_at s (bk_slot b) = Some sl \<and> sl_heldBy sl = Some (bk_id b) \<and> slot_matches sl b \<and>
         sl_status sl = (if bk_status b = Confirmed then SlotBooked else SlotHeld)) \<and>
      (\<forall>x \<in> set (db_bookings s). bk_status x \<in> set SLOT_HOLDING_STATUSES \<and> x \<noteq> b \<longrightarrow>
         bk_slot b \<noteq> bk_slot x \<and> (bk_professional b = bk_professional x \<longrightarrow> bk_end b \<le> bk_start x \<or> bk_end x \<le> bk_start b))) \<and>
    (exact \<longrightarrow> (\<forall>j sl. slot_at s j = Some sl \<longrightarrow> sl_status sl = SlotOpen \<and> sl_heldBy sl = None \<or>
      sl_status sl \<noteq> SlotOpen \<and> (\<exists>!b. b \<in> set (db_bookings s) \<and> sl_heldBy sl = Some (bk_id b) \<and> bk_slot b = j \<and>
        bk_status b \<in> (if sl_status sl = SlotHeld then {Pending} else {Confirmed, Completed, NoShown}))))"
proof -
  note inv = reachable_inv [OF assms(1)]
  have at: "booking_at s (bk_id b) = Some b" if "b \<in> set (db_bookings s)" for b using booking_in_at [OF inv that] .
  have own: "\<exists>sl. slot_at s (bk_slot b) = Some sl \<and> sl_heldBy sl = Some (bk_id b) \<and> slot_matches sl b \<and>
      sl_status sl = (if bk_status b = Confirmed then SlotBooked else SlotHeld)"
    if "b \<in> set (db_bookings s)" "holding b" for b
    using coupledD(1) [OF invD(2) [OF inv] at [OF that(1)]] that(2) by (auto simp: booking_ok_def)
  have apart: "bk_slot b \<noteq> bk_slot x \<and> (bk_professional b = bk_professional x \<longrightarrow> bk_end b \<le> bk_start x \<or> bk_end x \<le> bk_start b)"
    if "b \<in> set (db_bookings s)" "x \<in> set (db_bookings s)" "holding b" "holding x" "x \<noteq> b" for b x
  proof -
    note b = own [OF that(1,3)] and x = own [OF that(2,4)]
    have "bk_id b \<noteq> bk_id x" using at [OF that(1)] at [OF that(2)] that(5) by auto
    obtain sb sx where sl: "slot_at s (bk_slot b) = Some sb" "sl_heldBy sb = Some (bk_id b)" "slot_matches sb b"
      "slot_at s (bk_slot x) = Some sx" "sl_heldBy sx = Some (bk_id x)" "slot_matches sx x"
      using b x by blast
    with sl \<open>bk_id b \<noteq> bk_id x\<close> have ne: "bk_slot b \<noteq> bk_slot x" by auto
    have "sb \<in> set (db_slots s)" "sx \<in> set (db_slots s)" "sl_id sb = bk_slot b" "sl_id sx = bk_slot x"
      using sl(1,4) by (auto simp: slot_at_def dest: tget_SomeD)
    moreover have "shapes_ok (map slot_shape (db_slots s))" using invD(1) [OF inv] by (simp add: tables_ok_def)
    ultimately have "\<not> shape_clash (slot_shape sb) (slot_shape sx)" by (auto simp: shapes_ok_def)
    with ne sl(3,6) \<open>sl_id sb = bk_slot b\<close> \<open>sl_id sx = bk_slot x\<close> show ?thesis
      by (auto simp: shape_clash_def slot_shape_def slot_matches_def)
  qed
  have owner: "sl_status sl = SlotOpen \<and> sl_heldBy sl = None \<or>
      sl_status sl \<noteq> SlotOpen \<and> (\<exists>!b. b \<in> set (db_bookings s) \<and> sl_heldBy sl = Some (bk_id b) \<and> bk_slot b = j \<and>
        bk_status b \<in> (if sl_status sl = SlotHeld then {Pending} else {Confirmed, Completed, NoShown}))"
    if "exact" and "slot_at s j = Some sl" for j sl
  proof (cases "sl_heldBy sl")
    case None
    with coupledD(2) [OF invD(2) [OF inv] that] show ?thesis by (simp add: slot_ok_def)
  next
    case (Some i)
    with coupledD(2) [OF invD(2) [OF inv] that] obtain b where b: "booking_at s i = Some b" "bk_slot b = j" "sl_status sl \<noteq> SlotOpen"
      "bk_status b \<in> (if sl_status sl = SlotHeld then {Pending} else {Confirmed, Completed, NoShown})"
      unfolding slot_ok_def by auto
    have "\<exists>!b. b \<in> set (db_bookings s) \<and> sl_heldBy sl = Some (bk_id b) \<and> bk_slot b = j \<and>
        bk_status b \<in> (if sl_status sl = SlotHeld then {Pending} else {Confirmed, Completed, NoShown})"
    proof (rule ex1I [of _ b])
      show "b \<in> set (db_bookings s) \<and> sl_heldBy sl = Some (bk_id b) \<and> bk_slot b = j \<and>
          bk_status b \<in> (if sl_status sl = SlotHeld then {Pending} else {Confirmed, Completed, NoShown})"
        using b booking_at_in [OF b(1)] booking_at_id [OF b(1)] Some by simp
    next
      fix x assume "x \<in> set (db_bookings s) \<and> sl_heldBy sl = Some (bk_id x) \<and> bk_slot x = j \<and>
          bk_status x \<in> (if sl_status sl = SlotHeld then {Pending} else {Confirmed, Completed, NoShown})"
      then have "x \<in> set (db_bookings s)" "bk_id x = i" using Some by auto
      from at [OF this(1)] this(2) b(1) show "x = b" by simp
    qed
    with b(3) show ?thesis by blast
  qed
  show ?thesis
  proof (intro conjI [of "\<forall>b \<in> _. _ b"] ballI impI allI)
    fix b assume b: "b \<in> set (db_bookings s)" "holding b"
    show "(\<exists>sl. slot_at s (bk_slot b) = Some sl \<and> sl_heldBy sl = Some (bk_id b) \<and> slot_matches sl b \<and>
         sl_status sl = (if bk_status b = Confirmed then SlotBooked else SlotHeld)) \<and>
      (\<forall>x \<in> set (db_bookings s). holding x \<and> x \<noteq> b \<longrightarrow>
         bk_slot b \<noteq> bk_slot x \<and> (bk_professional b = bk_professional x \<longrightarrow> bk_end b \<le> bk_start x \<or> bk_end x \<le> bk_start b))"
      using own [OF b] apart [OF b(1) _ b(2)] by blast
  qed (rule owner)
qed

theorem no_double_booking_witness:
  "bk_slot (demo_booking 2 7 0) \<noteq> bk_slot (demo_booking 3 8 1) \<and>
   (bk_end (demo_booking 2 7 0) \<le> bk_start (demo_booking 3 8 1) \<or> bk_end (demo_booking 3 8 1) \<le> bk_start (demo_booking 2 7 0)) \<and>
   (\<exists>sl. slot_at demo_two 0 = Some sl \<and> sl_heldBy sl = Some 2)"
proof -
  have m: "demo_booking 2 7 0 \<in> set (db_bookings demo_two)" "demo_booking 3 8 1 \<in> set (db_bookings demo_two)" "demo_booking 3 8 1 \<noteq> demo_booking 2 7 0"
    "bk_slot (demo_booking 2 7 0) = 0" "bk_id (demo_booking 2 7 0) = 2" "bk_professional (demo_booking 2 7 0) = bk_professional (demo_booking 3 8 1)"
    "holding (demo_booking 2 7 0)" "holding (demo_booking 3 8 1)"
    by (simp_all add: demo_two_def demo_records SLOT_HOLDING_STATUSES_def)
  from no_double_booking [OF demo_two_reachable [of True]] m show ?thesis by metis
qed

text \<open>Statuses only move forward: over any run, a booking that was completed, expired or marked a no-show
  keeps that status for ever, and a booking that has left \<open>pending\<close> is never pending again.\<close>

theorem finished_bookings_stay:
  assumes "booking_reachable z ports cfg s" "(booking_step z ports cfg)\<^sup>*\<^sup>* s s'" "b \<in> set (db_bookings s)"
  shows "\<exists>b' \<in> set (db_bookings s'). bk_id b' = bk_id b \<and>
    (bk_status b \<in> {Completed, Expired, NoShown} \<longrightarrow> bk_status b' = bk_status b) \<and>
    (bk_status b \<noteq> Pending \<longrightarrow> bk_status b' \<noteq> Pending)"
proof -
  note inv = reachable_inv [OF assms(1)]
  have b: "booking_at s (bk_id b) = Some b" using booking_in_at [OF inv assms(3)] .
  have "\<exists>b'. booking_at s' (bk_id b) = Some b' \<and>
    (bk_status b \<in> {Completed, Expired, NoShown} \<longrightarrow> bk_status b' = bk_status b) \<and>
    (bk_status b \<noteq> Pending \<longrightarrow> bk_status b' \<noteq> Pending)"
    using assms(2)
  proof (induction rule: rtranclp_induct)
    case base
    then show ?case using b by simp
  next
    case (step y z)
    then obtain b1 where b1: "booking_at y (bk_id b) = Some b1"
      "bk_status b \<in> {Completed, Expired, NoShown} \<longrightarrow> bk_status b1 = bk_status b" "bk_status b \<noteq> Pending \<longrightarrow> bk_status b1 \<noteq> Pending"
      by blast
    obtain b2 where "booking_at z (bk_id b) = Some b2" "status_step (bk_status b1) (bk_status b2)"
      using bookings_stepD [OF step_bookings_step [OF step(2) run_inv [OF step(1) inv]] b1(1)] by blast
    with b1 booking_machine.move_rank [of "bk_status b1" "bk_status b2"] show ?case
      by (auto simp: status_step_def legal_move_def)
  qed
  then show ?thesis using booking_at_in booking_at_id by blast
qed

definition swept :: booking_db where
  "swept = (case expireHold (db_bookings demo_one) (at_time 1000000) (demo_booking 2 7 0) demo_one of
     Inr (_, s) \<Rightarrow> s | Inl _ \<Rightarrow> demo_one)"

lemma swept_eval: "expireHold (db_bookings demo_one) (at_time 1000000) (demo_booking 2 7 0) demo_one = Inr (True, swept)"
  by (simp add: swept_def expireHold_def transition_def releaseSlot_def booking_eval demo_records SYSTEM_ACTOR_def)

lemma swept_step: "booking_step z demo_ports demo_cfg demo_one swept"
proof -
  have r: "db_bookings demo_one = [demo_booking 2 7 0]" by (simp add: demo_one_def)
  have "seen_before [demo_booking 2 7 0] demo_one" "same_slot [demo_booking 2 7 0] demo_one"
    using seen_now [of demo_one] unfolding r by blast+
  then show ?thesis using step_expire [OF _ _ seen_now(1) swept_eval] by blast
qed

theorem finished_bookings_stay_witness:
  "\<exists>b' \<in> set (db_bookings swept). bk_id b' = 2 \<and> bk_status b' = Expired"
proof -
  have e: "booking_at swept 2 = Some ((demo_booking 2 7 0)\<lparr>bk_status := Expired, bk_holdExpiresAt := None\<rparr>)"
    by (simp add: swept_def expireHold_def transition_def releaseSlot_def booking_eval demo_records SYSTEM_ACTOR_def booking_at_def)
  have r: "booking_reachable False demo_ports demo_cfg swept"
    using demo_one_reachable swept_step unfolding booking_reachable_def by (rule rtranclp.rtrancl_into_rtrancl)
  from finished_bookings_stay [OF r rtranclp.rtrancl_refl booking_at_in [OF e]] show ?thesis
    by (auto simp: demo_booking_def new_booking_def)
qed

text \<open>A claim succeeds whenever it should: with room under the customer's hold limit, an open slot of that
  professional in the future and a matching service (and no resource to assign), \<open>create\<close> returns a pending
  booking for exactly that slot and time, and the slot is held by it until the hold expires.\<close>

theorem create_claims_open_slot:
  assumes "booking_reachable z ports cfg s" "slot_at s (in_slot inp) = Some sl" "sl_status sl = SlotOpen"
    "sl_professional sl = in_professional inp" "ck_js c < sl_start sl" "\<not> service_mismatch (sl_service sl) (in_service inp)"
    "activeHolds (in_customer inp) s < bc_maxConcurrentHolds cfg" "in_idempotencyKey inp = None"
    "\<And>svc loc. pt_eligibleResources ports svc loc = None"
  shows "\<exists>b s'. create ports cfg c inp s s = Inr (b, s') \<and> bk_status b = Pending \<and> bk_customer b = in_customer inp \<and>
    bk_start b = sl_start sl \<and> bk_end b = sl_end sl \<and> booking_at s' (bk_id b) = Some b \<and>
    slot_at s' (in_slot inp) = Some (sl\<lparr>sl_status := SlotHeld,
      sl_heldUntil := Some (ck_js c + bc_holdMinutes cfg * 60000), sl_heldBy := Some (bk_id b)\<rparr>)"
proof -
  note inv = reachable_inv [OF assms(1)]
  let ?n = "db_next s" and ?h = "ck_js c + bc_holdMinutes cfg * 60000" and ?j = "in_slot inp"
  let ?P = "\<lambda>x. sl_id x = ?j \<and> sl_professional x = in_professional inp \<and> claimable (ck_js c) x"
  let ?sl = "sl\<lparr>sl_status := SlotHeld, sl_heldUntil := Some ?h, sl_heldBy := Some ?n\<rparr>"
  have id: "sl_id sl = ?j" using slot_at_id [OF assms(2)] .
  have ks: "keyed sl_id (db_slots s)" using inv_keyed [OF inv] by simp
  let ?f = "\<lambda>x. x\<lparr>sl_status := SlotHeld, sl_heldUntil := Some ?h, sl_heldBy := Some ?n\<rparr>"
  have aff: "taffected ?P (db_slots s) = 1"
    unfolding taffected_id [OF ks] using assms(2-5) by (simp add: slot_at_def claimable_def)
  have u: "(\<lambda>k. tget sl_id k (tupd ?P ?f (db_slots s)))
      = (\<lambda>k. tget sl_id k (db_slots s))(?j \<mapsto> ?sl)"
    using assms(2-5) id by (intro tget_point_update) (auto simp: slot_at_def claimable_def)
  have at_j: "tget sl_id ?j (tupd ?P ?f (db_slots s)) = Some ?sl" using fun_cong [OF u, of ?j] by simp
  define s1 where s1: "s1 = s\<lparr>db_next := Suc ?n, db_slots := tupd ?P ?f (db_slots s)\<rparr>"
  have cl: "claimSlot ?j (in_professional inp) ?n ?h (ck_js c) (s\<lparr>db_next := Suc ?n\<rparr>) = Inr (?sl, s1)"
    using aff at_j by (simp add: claimSlot_def Let_def s1)
  let ?b = "new_booking ?n inp ?sl ?h"
  have free: "\<not> list_ex (\<lambda>x. holding x \<and> bk_slot x = bk_slot ?b) (db_bookings s)"
  proof
    assume "list_ex (\<lambda>x. holding x \<and> bk_slot x = bk_slot ?b) (db_bookings s)"
    then obtain x where x: "x \<in> set (db_bookings s)" "holding x" "bk_slot x = ?j" using id by (auto simp: list_ex_iff new_booking_def)
    obtain sl2 where "slot_at s (bk_slot x) = Some sl2" "booking_ok (bk_id x) x sl2"
      using slot_of_booking [OF inv booking_in_at [OF inv x(1)]] .
    with x assms(2,3) show False by (auto simp: booking_ok_def split: if_splits)
  qed
  have "?n \<notin> bk_id ` set (db_bookings s)" using tables_okD(4) [OF invD(1) [OF inv]] .
  then have at: "tget bk_id ?n (db_bookings s @ [?b]) = Some ?b"
    using tget_new_row [of bk_id ?b "db_bookings s"] by (simp add: new_booking_def fun_eq_iff)
  have "\<exists>s'. create ports cfg c inp s s = Inr (?b, s') \<and> db_slots s' = db_slots s1 \<and> db_bookings s' = db_bookings s @ [?b]"
    using cl free assms(6,7,8,9)
    by (simp add: create_def normalise_key_def createWithin_def Let_def insert_booking_def s1 syncResourceAssignment_def
        releaseResourceAssignment_def insert_idempotency_key_def recordHistory_def emitEvent_def not_le [symmetric])
  then obtain s' where s': "create ports cfg c inp s s = Inr (?b, s')" "db_slots s' = db_slots s1" "db_bookings s' = db_bookings s @ [?b]" by blast
  have "slot_at s' ?j = Some ?sl" using at_j by (simp add: slot_at_def s'(2) s1)
  moreover have "booking_at s' ?n = Some ?b" using at by (simp add: booking_at_def s'(3))
  ultimately show ?thesis using s'(1) by (intro exI [of _ ?b] exI [of _ s']) (simp add: new_booking_def)
qed

theorem create_claims_open_slot_witness:
  "\<exists>b s'. create demo_ports demo_cfg (at_time 0) (demo_input 8 1) demo_one demo_one = Inr (b, s') \<and> bk_start b = 363600000"
proof -
  have "slot_at demo_one 1 = Some (demo_slot 1)" by (simp add: slot_at_def tget_def demo_records)
  with create_claims_open_slot [OF demo_one_reachable, of "demo_input 8 1" "demo_slot 1" "at_time 0"] show ?thesis
    by (auto simp: demo_records service_mismatch_def activeHolds_def taffected_def)
qed

text \<open>A slot under a hold, lapsed or not, is never claimed: in every database reached without an overtaken
  cancellation or expiry \<open>create\<close> on a held slot fails, because the pending booking that held it still owns the slot in \<open>uq_bookings_active_slot\<close> until
  the sweep expires it. The claim predicate and the public availability accept a lapsed hold all the same.\<close>

theorem held_slot_never_claimed:
  assumes "booking_reachable True ports cfg s" "slot_at s (in_slot inp) = Some sl" "sl_status sl = SlotHeld"
    "in_idempotencyKey inp = None"
  shows "\<not> ok (create ports cfg c inp s s)"
  using held_slot_blocks [OF reachable_inv [OF assms(1)] assms(2,3)] create_no_key [OF assms(4)] by blast

theorem held_slot_never_claimed_witness:
  "claimable 1000000 (held_slot 0 2) \<and>
   listClaimableSlots demo_acfg 1000000 5 0 400000000 None demo_one = Inr [held_slot 0 2, demo_slot 1] \<and>
   \<not> ok (create demo_ports demo_cfg (at_time 1000000) (demo_input 9 0) demo_one demo_one)"
proof -
  have "slot_at demo_one 0 = Some (held_slot 0 2)" by (simp add: slot_at_def tget_def demo_records)
  then have "\<not> ok (create demo_ports demo_cfg (at_time 1000000) (demo_input 9 0) demo_one demo_one)"
    by (intro held_slot_never_claimed [OF demo_one_reachable]) (auto simp: demo_records)
  then show ?thesis
    by (simp add: listClaimableSlots_def clampWindow_def DAY_MS_def claimable_code service_mismatch_def demo_records Let_def)
qed

text \<open>A cancellation gives everything back: cancelling a live booking always succeeds, sets the booking to
  cancelled, reopens its slot, releases its resource and tells the entitlement hook once, with the status the
  booking really had.\<close>

theorem cancel_gives_everything_back:
  assumes "booking_reachable z ports cfg s" "b \<in> set (db_bookings s)" "bk_status b \<in> set SLOT_HOLDING_STATUSES"
  shows "\<exists>s'. cancel (db_bookings s) c (bk_id b) a reason s = Inr (True, s') \<and>
    booking_at s' (bk_id b) = Some (cancelled_by c a reason b) \<and>
    (\<exists>sl. slot_at s' (bk_slot b) = Some sl \<and> sl_status sl = SlotOpen \<and> sl_heldBy sl = None) \<and>
    list_all (\<lambda>r. ra_booking r = bk_id b \<longrightarrow> ra_status r = AssignmentReleased) (db_assignments s') \<and>
    db_hooks s' = db_hooks s @ [OnBookingCancellation (bk_id b) (ac_type a) (bk_status b = Confirmed)]"
proof -
  note inv = reachable_inv [OF assms(1)]
  have at: "booking_at s (bk_id b) = Some b" using booking_in_at [OF inv assms(2)] .
  then have rd: "tget bk_id (bk_id b) (db_bookings s) = Some b" by (simp add: booking_at_def)
  from cancel_ok [OF inv rd assms(3) at assms(3), of c a reason] obtain s1 ev where
    c: "cancel (db_bookings s) c (bk_id b) a reason s =
      Inr (True, emitEvent ev (releaseResourceAssignment (bk_id b) (releaseSlot (bk_slot b) (bk_id b) s1)))"
    and s1: "db_slots s1 = db_slots s" "booking_at s1 = (booking_at s)(bk_id b \<mapsto> cancelled_by c a reason b)"
      "db_hooks s1 = db_hooks s @ [OnBookingCancellation (bk_id b) (ac_type a) (bk_status b = Confirmed)]" by blast
  let ?s' = "emitEvent ev (releaseResourceAssignment (bk_id b) (releaseSlot (bk_slot b) (bk_id b) s1))"
  obtain sl where sl: "slot_at s (bk_slot b) = Some sl" "booking_ok (bk_id b) b sl" using slot_of_booking [OF inv at] .
  have "sl_heldBy sl = Some (bk_id b)" using sl(2) assms(3) by (simp add: booking_ok_def)
  moreover have "slot_at s1 (bk_slot b) = Some sl" using sl(1) s1(1) by (simp add: slot_at_def)
  ultimately have "slot_at ?s' (bk_slot b) = Some (freed sl)"
    using slot_at_releaseSlot [of s1 "bk_slot b" sl "bk_id b"] by (simp add: slot_at_def)
  moreover have "booking_at ?s' (bk_id b) = Some (cancelled_by c a reason b)"
    using s1(2) by (simp add: booking_at_def fun_eq_iff)
  moreover have "list_all (\<lambda>r. ra_booking r = bk_id b \<longrightarrow> ra_status r = AssignmentReleased) (db_assignments ?s')"
    by (auto simp: releaseResourceAssignment_def set_tupd list_all_iff) (metis assignment_status.exhaust)
  moreover have "db_hooks ?s' = db_hooks s1" by (simp add: emitEvent_def releaseResourceAssignment_def releaseSlot_def)
  ultimately show ?thesis using c s1(3) by (intro exI [of _ ?s']) (simp add: freed_def)
qed

theorem cancel_gives_everything_back_witness:
  "\<exists>s'. cancel (db_bookings demo_two) (at_time 5) 2 \<lparr>ac_type = ActCustomer, ac_id = Some 7\<rparr> None demo_two = Inr (True, s') \<and>
     db_hooks s' = [OnBookingCancellation 2 ActCustomer False]"
proof -
  have "demo_booking 2 7 0 \<in> set (db_bookings demo_two)" by (simp add: demo_two_def)
  from cancel_gives_everything_back [OF demo_two_reachable this, of "at_time 5" "\<lparr>ac_type = ActCustomer, ac_id = Some 7\<rparr>" None]
  show ?thesis by (auto simp: demo_records SLOT_HOLDING_STATUSES_def)
qed

text \<open>A cancellation whose read a reschedule has overtaken leaks a slot. The row was read on its old slot; when the
  cancellation commits the booking is on another one. The booking is cancelled, but it is the old slot that is
  released: the booking's own slot stays exactly as it was, held or booked by the cancelled booking.\<close>

theorem stale_cancel_leaks_slot:
  assumes "booking_reachable z ports cfg s" "booking_at s i = Some b" "bk_status b \<in> set SLOT_HOLDING_STATUSES"
    "tget bk_id i rd = Some r" "bk_status r \<in> set SLOT_HOLDING_STATUSES" "bk_slot r \<noteq> bk_slot b"
  shows "\<exists>s' sl. cancel rd c i a reason s = Inr (True, s') \<and> map_option bk_status (booking_at s' i) = Some Cancelled \<and>
    slot_at s (bk_slot b) = Some sl \<and> slot_at s' (bk_slot b) = Some sl \<and> sl_heldBy sl = Some i \<and>
    sl_status sl = (if bk_status b = Confirmed then SlotBooked else SlotHeld)"
proof -
  note inv = reachable_inv [OF assms(1)]
  from cancel_ok [OF inv assms(4,5,2,3), of c a reason] obtain s1 ev where
    c: "cancel rd c i a reason s = Inr (True, emitEvent ev (releaseResourceAssignment i (releaseSlot (bk_slot r) i s1)))"
    and s1: "db_slots s1 = db_slots s" "booking_at s1 = (booking_at s)(i \<mapsto> cancelled_by c a reason b)" by blast
  let ?s' = "emitEvent ev (releaseResourceAssignment i (releaseSlot (bk_slot r) i s1))"
  obtain sl where sl: "slot_at s (bk_slot b) = Some sl" "booking_ok i b sl" using slot_of_booking [OF inv assms(2)] .
  have "slot_at ?s' (bk_slot b) = slot_at s (bk_slot b)"
    using assms(6) slot_at_id [OF sl(1)] sl(1) by (auto simp: slot_at_def releaseSlot_def tget_tupd s1(1))
  moreover have "map_option bk_status (booking_at ?s' i) = Some Cancelled"
    using s1(2) by (simp add: booking_at_def fun_eq_iff cancelled_by_def)
  ultimately show ?thesis using c sl assms(3) by (intro exI [of _ ?s'] exI [of _ sl]) (simp add: booking_ok_def)
qed

text \<open>A cancellation whose read a confirmation has overtaken tells the entitlement hook that the booking was never
  confirmed, so the seller's credit that the confirmation spent is not given back.\<close>

theorem stale_cancel_unconfirmed:
  assumes "booking_reachable z ports cfg s" "booking_at s i = Some b" "bk_status b = Confirmed"
    "tget bk_id i rd = Some r" "bk_status r = Pending"
  shows "\<exists>s'. cancel rd c i a reason s = Inr (True, s') \<and> db_hooks s' = db_hooks s @ [OnBookingCancellation i (ac_type a) False]"
proof -
  have h: "holding r" "holding b" using assms(3,5) by (simp_all add: SLOT_HOLDING_STATUSES_def)
  from cancel_ok [OF reachable_inv [OF assms(1)] assms(4) h(1) assms(2) h(2), of c a reason] show ?thesis
    using assms(5) by (auto simp: emitEvent_def releaseResourceAssignment_def releaseSlot_def)
qed

theorem stale_cancel_unconfirmed_witness:
  "\<exists>s s'. booking_reachable False demo_ports demo_cfg s \<and> map_option bk_status (booking_at s 2) = Some Confirmed \<and>
     cancel (db_bookings demo_one) (at_time 1) 2 \<lparr>ac_type = ActProfessional, ac_id = Some 5\<rparr> None s = Inr (True, s') \<and>
     db_hooks s' = [OnBookingCancellation 2 ActProfessional False]"
proof -
  define s where "s = (case confirm (db_bookings demo_one) (at_time 1) 2 SYSTEM_ACTOR demo_one of Inr (_, s) \<Rightarrow> s | Inl _ \<Rightarrow> demo_one)"
  have v: "map_option bk_status (booking_at s 2) = Some Confirmed" "db_hooks s = []" unfolding s_def by code_simp+
  have "case confirm (db_bookings demo_one) (at_time 1) 2 SYSTEM_ACTOR demo_one of Inr (m, s) \<Rightarrow> m | Inl _ \<Rightarrow> False" by code_simp
  then have c: "confirm (db_bookings demo_one) (at_time 1) 2 SYSTEM_ACTOR demo_one = Inr (True, s)"
    by (auto simp: s_def split: sum.splits)
  have "booking_step False demo_ports demo_cfg demo_one s" by (rule step_confirm [OF seen_now(1) c])
  with demo_one_reachable have r: "booking_reachable False demo_ports demo_cfg s"
    unfolding booking_reachable_def by (rule rtranclp.rtrancl_into_rtrancl)
  obtain b where b: "booking_at s 2 = Some b" "bk_status b = Confirmed" using v(1) by auto
  have rd: "tget bk_id 2 (db_bookings demo_one) = Some (demo_booking 2 7 0)" by (simp add: demo_one_def demo_booking_def new_booking_def tget_def)
  from stale_cancel_unconfirmed [OF r b rd, of "at_time 1" "\<lparr>ac_type = ActProfessional, ac_id = Some 5\<rparr>" None] r v show ?thesis
    by (auto simp: demo_booking_def new_booking_def)
qed

definition demo_moved :: booking_db where
  "demo_moved = (case reschedule demo_ports demo_cfg (db_bookings demo_one) (at_time 0) 2 1 SYSTEM_ACTOR None
      \<lparr>ro_acceptConsequence = False, ro_remedyBypass = False\<rparr> demo_one of Inr (_, s) \<Rightarrow> s | Inl _ \<Rightarrow> demo_one)"

definition demo_leaked :: booking_db where
  "demo_leaked = (case cancel (db_bookings demo_one) (at_time 1) 2 \<lparr>ac_type = ActCustomer, ac_id = Some 7\<rparr> None demo_moved of
     Inr (_, s) \<Rightarrow> s | Inl _ \<Rightarrow> demo_moved)"

theorem stale_cancel_leaks_slot_witness:
  "booking_reachable False demo_ports demo_cfg demo_leaked \<and> map_option bk_status (booking_at demo_leaked 2) = Some Cancelled \<and>
   map_option sl_status (slot_at demo_leaked 1) = Some SlotHeld \<and> map_option sl_heldBy (slot_at demo_leaked 1) = Some (Some 2)"
proof -
  have "case reschedule demo_ports demo_cfg (db_bookings demo_one) (at_time 0) 2 1 SYSTEM_ACTOR None
      \<lparr>ro_acceptConsequence = False, ro_remedyBypass = False\<rparr> demo_one of Inr (_, s) \<Rightarrow> True | Inl _ \<Rightarrow> False" by code_simp
  then obtain x where m: "reschedule demo_ports demo_cfg (db_bookings demo_one) (at_time 0) 2 1 SYSTEM_ACTOR None
      \<lparr>ro_acceptConsequence = False, ro_remedyBypass = False\<rparr> demo_one = Inr (x, demo_moved)"
    by (auto simp: demo_moved_def split: sum.splits)
  have st: "booking_step False demo_ports demo_cfg demo_one demo_moved" by (rule step_reschedule [OF seen_now(1) m])
  have r: "booking_reachable False demo_ports demo_cfg demo_moved"
    using demo_one_reachable st unfolding booking_reachable_def by (rule rtranclp.rtrancl_into_rtrancl)
  have "map_option bk_status (booking_at demo_moved 2) = Some Pending" "map_option bk_slot (booking_at demo_moved 2) = Some 1" by code_simp+
  then obtain b where b: "booking_at demo_moved 2 = Some b" "bk_status b = Pending" "bk_slot b = 1" by auto
  have rd: "tget bk_id 2 (db_bookings demo_one) = Some (demo_booking 2 7 0)" by (simp add: demo_one_def demo_booking_def new_booking_def tget_def)
  obtain s' sl where c: "cancel (db_bookings demo_one) (at_time 1) 2 \<lparr>ac_type = ActCustomer, ac_id = Some 7\<rparr> None demo_moved = Inr (True, s')"
    "map_option bk_status (booking_at s' 2) = Some Cancelled" "slot_at s' 1 = Some sl" "sl_heldBy sl = Some 2" "sl_status sl = SlotHeld"
    using stale_cancel_leaks_slot [OF r b(1) _ rd, of "at_time 1" "\<lparr>ac_type = ActCustomer, ac_id = Some 7\<rparr>" None] b
    by (auto simp: SLOT_HOLDING_STATUSES_def demo_booking_def new_booking_def demo_slot_def open_slot_def)
  then have l: "demo_leaked = s'" by (simp add: demo_leaked_def)
  have "booking_step False demo_ports demo_cfg demo_moved demo_leaked"
    unfolding l by (rule step_cancel [OF moved_seen_before [OF step_bookings_step [OF st reachable_inv [OF demo_one_reachable]]] _ c(1)]) simp_all
  with r have "booking_reachable False demo_ports demo_cfg demo_leaked" unfolding booking_reachable_def by (rule rtranclp.rtrancl_into_rtrancl)
  with c show ?thesis by (simp add: l)
qed

text \<open>The expiry sweep does not release the resource: when it expires a booking, every active resource
  assignment of that booking stays active, and from then on collides with every other booking of the resource
  in that time. A cancellation of the same booking would have released it.\<close>

theorem sweep_keeps_resource:
  assumes "expireHold rd c row s = Inr (True, s')" "keyed bk_id (db_bookings s)"
    "asg \<in> set (db_assignments s)" "ra_booking asg = bk_id row" "ra_status asg = AssignmentActive" "ra_start asg < ra_end asg"
  shows "\<exists>b. booking_at s' (bk_id row) = Some b \<and> bk_status b = Expired \<and> asg \<in> set (db_assignments s') \<and>
    (\<forall>i. i \<noteq> bk_id row \<longrightarrow> resource_collision i (ra_resource asg) (ra_start asg) (ra_end asg) (db_assignments s'))"
proof -
  from assms(1) obtain s1 where t: "transition rd c (bk_id row) Expired [Pending] SYSTEM_ACTOR (Some ''hold_expired'')
      (\<lambda>b. b\<lparr>bk_holdExpiresAt := None\<rparr>) False s = Inr (True, s1)"
    and s': "db_bookings s' = db_bookings s1" "db_assignments s' = db_assignments s1"
    by (auto simp: expireHold_def bind_res_Inr split: if_splits)
  from transition_True [OF t TrueI assms(2)] obtain b where "booking_at s1 (bk_id row) = Some b" "bk_status b = Expired"
    "db_assignments s1 = db_assignments s" by auto
  moreover have "resource_collision i (ra_resource asg) (ra_start asg) (ra_end asg) (db_assignments s)" if "i \<noteq> bk_id row" for i
    using assms(3-6) that by (auto simp: resource_collision_def list_ex_iff intro!: bexI [of _ asg])
  ultimately show ?thesis using s' assms(3) by (auto simp: booking_at_def)
qed

definition demo_assigned :: booking_db where
  "demo_assigned = demo_one\<lparr>db_assignments := [\<lparr>ra_booking = 2, ra_resource = 40, ra_start = 360000000, ra_end = 363600000,
     ra_status = AssignmentActive\<rparr>]\<rparr>"

theorem sweep_keeps_resource_witness:
  "\<exists>s'. expireHold (db_bookings demo_assigned) (at_time 1000000) (demo_booking 2 7 0) demo_assigned = Inr (True, s') \<and>
    resource_collision 3 40 360000000 363600000 (db_assignments s')"
proof -
  obtain s' where e: "expireHold (db_bookings demo_assigned) (at_time 1000000) (demo_booking 2 7 0) demo_assigned = Inr (True, s')"
    by (simp add: demo_assigned_def expireHold_def transition_def booking_eval demo_records)
  let ?a = "\<lparr>ra_booking = 2, ra_resource = 40, ra_start = 360000000, ra_end = 363600000, ra_status = AssignmentActive\<rparr>"
  have "keyed bk_id (db_bookings demo_assigned)" by (simp add: demo_assigned_def demo_one_def keyed_def)
  from sweep_keeps_resource [OF e this, of ?a] e show ?thesis
    by (auto simp: demo_assigned_def demo_booking_def new_booking_def)
qed

end
