(* ===== verification/Js_Number.thy ===== *)
theory Js_Number
  imports Prelude "HOL-Library.Log_Nat"
begin

text \<open>
  JavaScript numbers. A \<open>number\<close> is an IEEE-754 double: not-a-number, an infinity or a rational.
  \<open>fl\<close> rounds a rational to the nearest double (53 significant bits, ties to even), which is what
  every \<open>+\<close>, \<open>*\<close> and \<open>/\<close> does to its exact result. The two ends of the exponent range (overflow
  beyond \<open>2^1024\<close>, subnormals below \<open>2^-1022\<close>) are outside the model: the amounts here stay
  between \<open>10^-4\<close> and \<open>10^17\<close>. Negative zero is identified with zero, as \<open>===\<close> does.
\<close>

datatype jsnum = JNaN | JPosInf | JNegInf | Fin rat

definition isFinite :: "jsnum \<Rightarrow> bool" where
  "isFinite x = (case x of Fin _ \<Rightarrow> True | _ \<Rightarrow> False)"

definition isInteger :: "jsnum \<Rightarrow> bool" where
  "isInteger x = (case x of Fin q \<Rightarrow> q = of_int \<lfloor>q\<rfloor> | _ \<Rightarrow> False)"

definition isWholeInRange :: "jsnum \<Rightarrow> int \<Rightarrow> int \<Rightarrow> bool" where
  "isWholeInRange x lo hi = (isInteger x \<and> (case x of Fin q \<Rightarrow> of_int lo \<le> q \<and> q \<le> of_int hi | _ \<Rightarrow> False))"

section \<open>Rounding to 53 bits\<close>

text \<open>\<open>ilog2 x\<close> is the exponent of the leading binary digit of a positive rational.\<close>

definition ilog2 :: "rat \<Rightarrow> int" where
  "ilog2 x = (let (a, b) = quotient_of x;
                  k = int (floorlog 2 (nat a)) - int (floorlog 2 (nat b))
              in if x < 2 powi k then k - 1 else k)"

definition round_even :: "rat \<Rightarrow> int" where
  "round_even y = (let f = \<lfloor>y\<rfloor>; d = y - of_int f
                   in if d < 1/2 then f else if 1/2 < d then f + 1 else if even f then f else f + 1)"

definition fl :: "rat \<Rightarrow> rat" where
  "fl q = (if q = 0 then 0
           else let e = ilog2 \<bar>q\<bar> - 52
                in sgn q * (of_int (round_even (\<bar>q\<bar> / 2 powi e)) * 2 powi e))"

lemma powi2_add: "(2::rat) powi a * 2 powi b = 2 powi (a + b)"
  by (simp add: power_int_add)

lemma floorlog_rat_bounds:
  assumes "0 < a"
  shows "(2::rat) ^ (floorlog 2 (nat a) - 1) \<le> of_int a" "of_int a < (2::rat) ^ floorlog 2 (nat a)"
proof -
  have p: "0 < nat a" using assms by simp
  have b: "2 ^ (floorlog 2 (nat a) - 1) \<le> nat a" "nat a < 2 ^ floorlog 2 (nat a)"
    using floorlog_bounds [of "nat a" 2] p by auto
  have "int (2 ^ (floorlog 2 (nat a) - 1)) \<le> a" "a < int (2 ^ floorlog 2 (nat a))"
    using b assms by linarith+
  then have "(of_int (int (2 ^ (floorlog 2 (nat a) - 1))) :: rat) \<le> of_int a"
    and "of_int a < (of_int (int (2 ^ floorlog 2 (nat a))) :: rat)"
    unfolding of_int_le_iff of_int_less_iff by auto
  then show "(2::rat) ^ (floorlog 2 (nat a) - 1) \<le> of_int a" "of_int a < (2::rat) ^ floorlog 2 (nat a)"
    by simp_all
qed

lemma ilog2_bounds:
  assumes "0 < x"
  shows "2 powi ilog2 x \<le> x" "x < 2 powi (ilog2 x + 1)"
proof -
  obtain a b where q: "quotient_of x = (a, b)" by (cases "quotient_of x")
  have b: "0 < b" using quotient_of_denom_pos [OF q] .
  have x: "x = of_int a / of_int b" using quotient_of_div [OF q] .
  have a: "0 < a" using assms b x by (simp add: zero_less_divide_iff)
  define la lb where "la = floorlog 2 (nat a)" and "lb = floorlog 2 (nat b)"
  have la: "0 < la" "0 < lb" using a b by (auto simp: la_def lb_def floorlog_def)
  define k where "k = int la - int lb"
  have A: "(2::rat) powi (int la - 1) \<le> of_int a" "of_int a < (2::rat) powi int la"
    using floorlog_rat_bounds [OF a] la by (simp_all add: la_def power_int_def nat_diff_distrib)
  have B: "(2::rat) powi (int lb - 1) \<le> of_int b" "of_int b < (2::rat) powi int lb"
    using floorlog_rat_bounds [OF b] la by (simp_all add: lb_def power_int_def nat_diff_distrib)
  have "2 powi (k - 1) * of_int b < 2 powi (k - 1) * (2::rat) powi int lb"
    using B by simp
  also have "\<dots> = 2 powi (int la - 1)"
    unfolding powi2_add by (simp add: k_def)
  also have "\<dots> \<le> of_int a" by (rule A)
  finally have lo: "2 powi (k - 1) < x" using b by (simp add: x field_simps)
  have "(of_int a :: rat) < 2 powi int la" by (rule A)
  also have "\<dots> = 2 powi (k + 1) * 2 powi (int lb - 1)"
    unfolding powi2_add by (simp add: k_def)
  also have "\<dots> \<le> 2 powi (k + 1) * of_int b" using B by simp
  finally have hi: "x < 2 powi (k + 1)" using b by (simp add: x field_simps)
  have "ilog2 x = (if x < 2 powi k then k - 1 else k)"
    by (simp add: ilog2_def q Let_def k_def la_def lb_def)
  then show "2 powi ilog2 x \<le> x" "x < 2 powi (ilog2 x + 1)"
    using lo hi by (auto split: if_splits)
qed

lemma round_even_error: "\<bar>of_int (round_even y) - y\<bar> \<le> 1/2"
proof -
  define f where "f = (of_int \<lfloor>y\<rfloor> :: rat)"
  have b: "f \<le> y" "y < f + 1" unfolding f_def by linarith+
  have "of_int (round_even y) = f \<and> y - f \<le> 1/2 \<or> of_int (round_even y) = f + 1 \<and> 1/2 \<le> y - f"
    by (auto simp: round_even_def Let_def f_def)
  then show ?thesis using b by auto
qed

lemma round_even_int [simp]: "round_even (of_int n) = n"
  by (simp add: round_even_def Let_def)

lemma fl_0 [simp]: "fl 0 = 0"
  by (simp add: fl_def)

lemma fl_minus [simp]: "fl (- q) = - fl q"
  by (simp add: fl_def Let_def)

text \<open>Every operation is within half a unit in the last place: relative error at most \<open>2^-53\<close>.\<close>

lemma fl_error_pos:
  assumes "0 < q"
  shows "\<bar>fl q - q\<bar> \<le> q / 2 ^ 53"
proof -
  define e where "e = ilog2 q - 52"
  define y where "y = q / 2 powi e"
  have p: "(0::rat) < 2 powi e" by simp
  have q: "q = y * 2 powi e" by (simp add: y_def)
  have "fl q = of_int (round_even y) * 2 powi e"
    using assms by (simp add: fl_def Let_def e_def y_def)
  then have "fl q - q = (of_int (round_even y) - y) * 2 powi e"
    by (subst (2) q) (simp add: algebra_simps)
  then have "\<bar>fl q - q\<bar> = \<bar>of_int (round_even y) - y\<bar> * 2 powi e"
    using p by (simp add: abs_mult)
  also have "\<dots> \<le> (1/2) * 2 powi e"
    using round_even_error [of y] p by (intro mult_right_mono) auto
  also have "\<dots> \<le> q / 2 ^ 53"
  proof -
    have "(2::rat) powi ilog2 q = 2 powi e * 2 powi 52"
      unfolding powi2_add by (simp add: e_def)
    moreover have "2 powi ilog2 q \<le> q" using assms by (rule ilog2_bounds)
    ultimately show ?thesis by simp
  qed
  finally show ?thesis .
qed

lemma fl_error: "\<bar>fl q - q\<bar> \<le> \<bar>q\<bar> / 2 ^ 53"
proof (cases q "0::rat" rule: linorder_cases)
  case less
  then have "\<bar>fl (- q) - - q\<bar> \<le> - q / 2 ^ 53" by (intro fl_error_pos) simp
  then show ?thesis using less by simp
next
  case greater
  then show ?thesis using fl_error_pos by simp
qed simp

text \<open>Integers up to \<open>2^53\<close> are doubles.\<close>

lemma fl_int_pos:
  assumes "0 < n" "n \<le> 2 ^ 53"
  shows "fl (of_int n) = of_int n"
proof -
  let ?x = "of_int n :: rat"
  define e where "e = ilog2 ?x - 52"
  have x: "0 < ?x" using assms by simp
  have lo: "2 powi (e + 52) \<le> ?x" and hi: "?x < 2 powi (e + 53)"
    using ilog2_bounds [OF x] by (simp_all add: e_def algebra_simps)
  have le: "?x \<le> 2 ^ 53"
    using assms(2) by (metis of_int_le_iff of_int_numeral of_int_power)
  have "\<exists>m::int. ?x / 2 powi e = of_int m"
  proof (cases "e \<le> 0")
    case True
    then have "?x / 2 powi e = of_int (n * 2 ^ nat (- e))"
      by (simp add: power_int_def field_simps)
    then show ?thesis ..
  next
    case False
    then have "(2::rat) powi 53 \<le> 2 powi (e + 52)"
      by (intro power_int_increasing) auto
    with lo le have eq: "?x = 2 ^ 53" by simp
    have "\<not> 2 \<le> e"
    proof
      assume "2 \<le> e"
      then have "(2::rat) powi 54 \<le> 2 powi (e + 52)"
        by (intro power_int_increasing) auto
      with lo eq show False by simp
    qed
    with False have "e = 1" by simp
    with eq have "?x / 2 powi e = of_int (2 ^ 52)" by simp
    then show ?thesis ..
  qed
  then obtain m where m: "?x / 2 powi e = of_int m" ..
  then have "of_int m * 2 powi e = ?x" by (simp add: field_simps)
  then show ?thesis using x m assms by (simp add: fl_def Let_def flip: e_def)
qed

lemma fl_int:
  assumes "\<bar>n\<bar> \<le> 2 ^ 53"
  shows "fl (of_int n) = of_int n"
proof (cases n "0::int" rule: linorder_cases)
  case less
  then have "fl (of_int (- n)) = of_int (- n)" using assms by (intro fl_int_pos) auto
  then show ?thesis by simp
next
  case greater
  then show ?thesis using assms by (intro fl_int_pos) auto
qed simp

text \<open>Halving is exact: it only moves the exponent.\<close>

lemma powi2_less_imp:
  assumes "(2::rat) powi a < 2 powi b"
  shows "a < b"
proof (rule ccontr)
  assume "\<not> a < b"
  then have "(2::rat) powi b \<le> 2 powi a" by (intro power_int_increasing) auto
  with assms show False by simp
qed

lemma ilog2_unique:
  assumes "2 powi k \<le> x" "x < 2 powi (k + 1)"
  shows "ilog2 x = k"
proof -
  have "0 < x" using assms(1) by (rule less_le_trans [rotated]) simp
  note b = ilog2_bounds [OF this]
  have "(2::rat) powi k < 2 powi (ilog2 x + 1)" "(2::rat) powi ilog2 x < 2 powi (k + 1)"
    using assms b by linarith+
  then have "k < ilog2 x + 1" "ilog2 x < k + 1" by (auto dest: powi2_less_imp)
  then show ?thesis by simp
qed

lemma fl_eval:
  assumes "2 powi k \<le> x" "x < 2 powi (k + 1)"
  shows "fl x = of_int (round_even (x / 2 powi (k - 52))) * 2 powi (k - 52)"
proof -
  have "0 < x" using assms(1) by (rule less_le_trans [rotated]) simp
  then show ?thesis by (simp add: fl_def Let_def ilog2_unique [OF assms])
qed

lemma ilog2_half:
  assumes "0 < x"
  shows "ilog2 (x / 2) = ilog2 x - 1"
proof (rule ilog2_unique)
  have "(2::rat) powi (ilog2 x - 1) * 2 powi 1 = 2 powi ilog2 x" unfolding powi2_add by simp
  with ilog2_bounds [OF assms] show "2 powi (ilog2 x - 1) \<le> x / 2" by simp
  have "(2::rat) powi (ilog2 x - 1 + 1) * 2 powi 1 = 2 powi (ilog2 x + 1)" unfolding powi2_add by simp
  with ilog2_bounds [OF assms] show "x / 2 < 2 powi (ilog2 x - 1 + 1)" by simp
qed

lemma fl_half: "fl (q / 2) = fl q / 2"
proof (cases "q = 0")
  case True
  then show ?thesis by simp
next
  case False
  define e where "e = ilog2 \<bar>q\<bar> - 52"
  have "ilog2 (\<bar>q\<bar> / 2) = ilog2 \<bar>q\<bar> - 1" using False by (intro ilog2_half) simp
  then have i: "ilog2 (\<bar>q\<bar> / 2) - 52 = e - 1" by (simp add: e_def)
  have p: "(2::rat) powi e = 2 powi (e - 1) * 2" using powi2_add [of "e - 1" 1] by simp
  then have y: "\<bar>q\<bar> / 2 / 2 powi (e - 1) = \<bar>q\<bar> / 2 powi e" by simp
  have "fl (q / 2) = sgn q * (of_int (round_even (\<bar>q\<bar> / 2 / 2 powi (e - 1))) * 2 powi (e - 1))"
    using False unfolding fl_def Let_def abs_divide by (simp add: i sgn_divide del: divide_divide_eq_left)
  moreover have "fl q = sgn q * (of_int (round_even (\<bar>q\<bar> / 2 powi e)) * 2 powi e)"
    using False by (simp add: fl_def Let_def e_def)
  ultimately show ?thesis unfolding y by (simp add: p)
qed

end
