(* ===== verification/Money.thy ===== *)
theory Money
  imports Js_Number
begin

text \<open>
  \<open>libs/money/src/money.ts\<close> and \<open>money.transformer.ts\<close>: the integer-Toman amount, its guards, the
  basis-point percentage and the exact-sum split. The guards take any JavaScript number; past them a
  value is an \<open>int\<close>. The product and the quotient inside \<open>percentOf\<close> are rounded to doubles
  (\<open>fl\<close>), because \<open>base * rate\<close> reaches \<open>10^17\<close> and doubles are exact only to \<open>2^53\<close>.
\<close>

section \<open>Guards\<close>

definition MAX_AMOUNT_TOMAN :: int where "MAX_AMOUNT_TOMAN = 10000000000000"
definition MIN_AMOUNT_TOMAN :: int where "MIN_AMOUNT_TOMAN = - MAX_AMOUNT_TOMAN"
definition BASIS_POINTS_DENOMINATOR :: int where "BASIS_POINTS_DENOMINATOR = 10000"

datatype money_error =
    NotFinite string
  | NotAnInteger string
  | OutOfRange string
  | IsNegative string
  | RateNotInteger string
  | RateOutOfRange string

definition assertAmount :: "jsnum \<Rightarrow> string \<Rightarrow> money_error + int" where
  "assertAmount value label =
    (if \<not> isFinite value then Inl (NotFinite label)
     else if \<not> isInteger value then Inl (NotAnInteger label)
     else case value of Fin q \<Rightarrow>
            (if q > of_int MAX_AMOUNT_TOMAN \<or> q < of_int MIN_AMOUNT_TOMAN then Inl (OutOfRange label)
             else Inr \<lfloor>q\<rfloor>)
          | _ \<Rightarrow> Inl (NotFinite label))"

definition assertNonNegativeAmount :: "jsnum \<Rightarrow> string \<Rightarrow> money_error + int" where
  "assertNonNegativeAmount value label =
    bind_res (assertAmount value label) (\<lambda>v. if v < 0 then Inl (IsNegative label) else Inr v)"

definition assertRateBasisPoints :: "jsnum \<Rightarrow> string \<Rightarrow> money_error + int" where
  "assertRateBasisPoints rate label =
    (if \<not> isInteger rate then Inl (RateNotInteger label)
     else case rate of Fin q \<Rightarrow>
            (if q < 0 \<or> q > of_int BASIS_POINTS_DENOMINATOR then Inl (RateOutOfRange label)
             else Inr \<lfloor>q\<rfloor>)
          | _ \<Rightarrow> Inl (RateNotInteger label))"

definition valid_amount :: "int \<Rightarrow> bool" where
  "valid_amount n \<longleftrightarrow> MIN_AMOUNT_TOMAN \<le> n \<and> n \<le> MAX_AMOUNT_TOMAN"

definition valid_rate :: "int \<Rightarrow> bool" where
  "valid_rate r \<longleftrightarrow> 0 \<le> r \<and> r \<le> BASIS_POINTS_DENOMINATOR"

lemmas money_bounds = MAX_AMOUNT_TOMAN_def MIN_AMOUNT_TOMAN_def BASIS_POINTS_DENOMINATOR_def

lemma valid_amount_abs: "valid_amount n \<longleftrightarrow> \<bar>n\<bar> \<le> MAX_AMOUNT_TOMAN"
  by (auto simp: valid_amount_def money_bounds)

lemma assertAmount_Fin_int: "assertAmount (Fin (of_int n)) l = (if valid_amount n then Inr n else Inl (OutOfRange l))"
  by (auto simp: assertAmount_def isFinite_def isInteger_def valid_amount_def)

lemma assertAmount_Inr: "assertAmount v l = Inr n \<longleftrightarrow> v = Fin (of_int n) \<and> valid_amount n"
proof
  assume a: "assertAmount v l = Inr n"
  then obtain q where v: "v = Fin q" and q: "q = of_int \<lfloor>q\<rfloor>"
    by (auto simp: assertAmount_def isInteger_def split: jsnum.splits if_splits)
  with a have n: "n = \<lfloor>q\<rfloor>" and b: "\<not> q > of_int MAX_AMOUNT_TOMAN" "\<not> q < of_int MIN_AMOUNT_TOMAN"
    by (auto simp: assertAmount_def split: if_splits)
  from b have "valid_amount n"
    unfolding valid_amount_def n by (subst (asm) q, subst (asm) (2) q) simp
  with v q n show "v = Fin (of_int n) \<and> valid_amount n" by simp
qed (auto simp: assertAmount_Fin_int)

lemma assertRate_Inr: "assertRateBasisPoints v l = Inr r \<longleftrightarrow> v = Fin (of_int r) \<and> valid_rate r"
proof
  assume a: "assertRateBasisPoints v l = Inr r"
  then obtain q where v: "v = Fin q" and q: "q = of_int \<lfloor>q\<rfloor>"
    by (auto simp: assertRateBasisPoints_def isInteger_def split: jsnum.splits if_splits)
  with a have n: "r = \<lfloor>q\<rfloor>" and b: "\<not> q < 0" "\<not> q > of_int BASIS_POINTS_DENOMINATOR"
    by (auto simp: assertRateBasisPoints_def split: if_splits)
  from b have "valid_rate r"
    unfolding valid_rate_def n by (subst (asm) q, subst (asm) (2) q) simp
  with v q n show "v = Fin (of_int r) \<and> valid_rate r" by simp
qed (auto simp: assertRateBasisPoints_def isInteger_def valid_rate_def)

section \<open>Rounding, percentage, split, sum, discount\<close>

definition math_round :: "rat \<Rightarrow> int" where
  "math_round v = \<lfloor>v + 1/2\<rfloor>"

definition roundHalf :: "rat \<Rightarrow> int" where
  "roundHalf v = (if v < 0 then - math_round (- v) else math_round v)"

definition percentOf :: "jsnum \<Rightarrow> jsnum \<Rightarrow> money_error + int" where
  "percentOf base rate =
    bind_res (assertAmount base ''base'') (\<lambda>b.
    bind_res (assertRateBasisPoints rate ''rate'') (\<lambda>r.
    assertAmount (Fin (of_int (roundHalf
      (fl (fl (of_int b * of_int r) / of_int BASIS_POINTS_DENOMINATOR))))) ''percentOf result''))"

record exact_split =
  es_part :: int
  es_remainder :: int

definition splitExact :: "jsnum \<Rightarrow> jsnum \<Rightarrow> money_error + exact_split" where
  "splitExact tot rate =
    bind_res (assertAmount tot ''total'') (\<lambda>t.
    bind_res (assertRateBasisPoints rate ''rate'') (\<lambda>_.
    bind_res (percentOf tot rate) (\<lambda>p.
    bind_res (assertAmount (Fin (fl (of_int t - of_int p))) ''remainder'') (\<lambda>rem.
    Inr \<lparr>es_part = p, es_remainder = rem\<rparr>))))"

fun add_loop :: "rat \<Rightarrow> jsnum list \<Rightarrow> money_error + rat" where
  "add_loop acc [] = Inr acc"
| "add_loop acc (v # vs) =
    bind_res (assertAmount v ''amount'') (\<lambda>a. add_loop (fl (acc + of_int a)) vs)"

definition addAmounts :: "jsnum list \<Rightarrow> money_error + int" where
  "addAmounts values = bind_res (add_loop 0 values) (\<lambda>acc. assertAmount (Fin acc) ''sum'')"

definition sumAmounts :: "jsnum list \<Rightarrow> money_error + int" where
  "sumAmounts values = addAmounts values"

definition clampDiscount :: "jsnum \<Rightarrow> jsnum \<Rightarrow> money_error + int" where
  "clampDiscount requested remaining =
    bind_res (assertAmount requested ''requested discount'') (\<lambda>q.
    bind_res (assertAmount remaining ''remaining'') (\<lambda>m.
    if q \<le> 0 then Inr 0 else if m \<le> 0 then Inr 0 else Inr (min q m)))"

lemma roundHalf_minus: "roundHalf (- v) = - roundHalf v"
proof -
  have "\<lfloor>1 / 2 :: rat\<rfloor> = 0" by (simp add: floor_eq_iff)
  then show ?thesis
    by (cases v "0::rat" rule: linorder_cases) (simp_all add: roundHalf_def math_round_def)
qed

lemma roundHalf_error: "\<bar>of_int (roundHalf v) - v\<bar> \<le> 1/2"
proof -
  have m: "\<bar>of_int (math_round u) - u\<bar> \<le> 1/2" for u
  proof -
    have "of_int (math_round u) \<le> u + 1/2" "u + 1/2 < of_int (math_round u) + 1"
      unfolding math_round_def by linarith+
    then show ?thesis unfolding abs_le_iff by simp
  qed
  have "\<bar>of_int (- math_round (- v)) - v\<bar> = \<bar>of_int (math_round (- v)) - (- v)\<bar>" by simp
  with m [of "- v"] m [of v] show ?thesis by (simp add: roundHalf_def)
qed

text \<open>The double computed for \<open>base * rate / 10000\<close> and its distance from the exact quotient.\<close>

definition js_percent :: "int \<Rightarrow> int \<Rightarrow> rat" where
  "js_percent b r = fl (fl (of_int b * of_int r) / 10000)"

lemma percentOf_valid:
  assumes "valid_amount b" "valid_rate r"
  shows "percentOf (Fin (of_int b)) (Fin (of_int r)) =
    assertAmount (Fin (of_int (roundHalf (js_percent b r)))) ''percentOf result''"
proof -
  have "assertAmount (Fin (of_int b)) ''base'' = Inr b"
    and "assertRateBasisPoints (Fin (of_int r)) ''rate'' = Inr r"
    using assms by (simp_all add: assertAmount_Inr assertRate_Inr)
  then show ?thesis by (simp add: percentOf_def js_percent_def BASIS_POINTS_DENOMINATOR_def)
qed

lemma js_percent_error:
  "\<bar>js_percent b r - of_int (b * r) / 10000\<bar> \<le> \<bar>of_int (b * r) / 10000\<bar> * (1 / 2 ^ 52 + 1 / 2 ^ 106)"
proof -
  define p where "p = (of_int (b * r) :: rat)"
  have e1: "\<bar>fl p - p\<bar> \<le> \<bar>p\<bar> / 2 ^ 53" by (rule fl_error)
  have e2: "\<bar>fl (fl p / 10000) - fl p / 10000\<bar> \<le> \<bar>fl p / 10000\<bar> / 2 ^ 53" by (rule fl_error)
  have n: "\<bar>fl p\<bar> \<le> \<bar>p\<bar> + \<bar>p\<bar> / 2 ^ 53" using e1 by linarith
  have "\<bar>fl (fl p / 10000) - p / 10000\<bar> \<le> \<bar>fl (fl p / 10000) - fl p / 10000\<bar> + \<bar>fl p / 10000 - p / 10000\<bar>"
    by linarith
  also have "\<bar>fl p / 10000 - p / 10000\<bar> = \<bar>fl p - p\<bar> / 10000"
    by (simp flip: diff_divide_distrib)
  also have "\<bar>fl (fl p / 10000) - fl p / 10000\<bar> + \<bar>fl p - p\<bar> / 10000
      \<le> \<bar>fl p\<bar> / 10000 / 2 ^ 53 + \<bar>p\<bar> / 2 ^ 53 / 10000"
    using e1 e2 by (intro add_mono divide_right_mono) auto
  also have "\<dots> \<le> (\<bar>p\<bar> + \<bar>p\<bar> / 2 ^ 53) / 10000 / 2 ^ 53 + \<bar>p\<bar> / 2 ^ 53 / 10000"
    using n by (simp add: divide_right_mono)
  also have "\<dots> = \<bar>p / 10000\<bar> * (1 / 2 ^ 52 + 1 / 2 ^ 106)"
    by (simp add: field_simps)
  finally show ?thesis by (simp add: js_percent_def p_def)
qed

lemma js_percent_error_small:
  assumes "valid_amount b" "valid_rate r"
  shows "\<bar>js_percent b r - of_int (b * r) / 10000\<bar> < 1/100"
proof -
  have "\<bar>b * r\<bar> \<le> MAX_AMOUNT_TOMAN * 10000"
    unfolding abs_mult using assms
    by (intro mult_mono) (auto simp: valid_amount_abs valid_rate_def money_bounds)
  then have "of_int \<bar>b * r\<bar> \<le> (of_int (MAX_AMOUNT_TOMAN * 10000) :: rat)"
    by (simp only: of_int_le_iff)
  then have "\<bar>of_int (b * r) / 10000\<bar> \<le> (10000000000000 :: rat)"
    by (simp add: money_bounds)
  then have "\<bar>of_int (b * r) / 10000\<bar> * (1 / 2 ^ 52 + 1 / 2 ^ 106) \<le> (10000000000000 :: rat) * (1 / 2 ^ 52 + 1 / 2 ^ 106)"
    by (intro mult_right_mono) auto
  also have "\<dots> < 1/100" by simp
  finally show ?thesis using js_percent_error [of b r] by linarith
qed

lemma js_percent_minus: "js_percent (- b) r = - js_percent b r"
  using fl_minus by (simp add: js_percent_def)

text \<open>The rounded percentage never leaves the interval between zero and the base.\<close>

lemma percent_within_base:
  assumes "valid_amount b" "valid_rate r" "0 \<le> b"
  shows "0 \<le> roundHalf (js_percent b r)" "roundHalf (js_percent b r) \<le> b"
proof -
  let ?v = "js_percent b r" and ?e = "of_int (b * r) / 10000 :: rat"
  have r: "0 \<le> r" "r \<le> 10000" using assms(2) by (auto simp: valid_rate_def money_bounds)
  have err: "\<bar>?v - ?e\<bar> < 1/100" by (rule js_percent_error_small [OF assms(1,2)])
  have e0: "0 \<le> ?e" using assms(3) r by simp
  have "b * r \<le> b * 10000" using assms(3) r by (intro mult_left_mono)
  then have "of_int (b * r) \<le> (of_int (b * 10000) :: rat)" by (simp only: of_int_le_iff)
  then have eb: "?e \<le> of_int b" by simp
  have rh: "\<bar>of_int (roundHalf ?v) - ?v\<bar> \<le> 1/2" by (rule roundHalf_error)
  define v e where "v = ?v" and "e = ?e"
  have "- 1 < (of_int (roundHalf ?v) :: rat)" "of_int (roundHalf ?v) < (of_int b + 1 :: rat)"
    using err e0 eb rh unfolding v_def [symmetric] e_def [symmetric] abs_le_iff abs_less_iff
    by linarith+
  then show "0 \<le> roundHalf ?v" "roundHalf ?v \<le> b" by linarith+
qed

lemma percent_abs_le:
  assumes "valid_amount b" "valid_rate r"
  shows "\<bar>roundHalf (js_percent b r)\<bar> \<le> \<bar>b\<bar>"
proof (cases "0 \<le> b")
  case True
  then show ?thesis using percent_within_base [OF assms] by simp
next
  case False
  have v: "valid_amount (- b)" using assms(1) by (simp add: valid_amount_abs)
  from False have "0 \<le> - b" by simp
  from percent_within_base [OF v assms(2) this] show ?thesis
    by (simp add: js_percent_minus roundHalf_minus)
qed

lemma percentOf_total:
  assumes "valid_amount b" "valid_rate r"
  shows "percentOf (Fin (of_int b)) (Fin (of_int r)) = Inr (roundHalf (js_percent b r))"
proof -
  have "valid_amount (roundHalf (js_percent b r))"
    using percent_abs_le [OF assms] assms(1) by (simp add: valid_amount_abs)
  then show ?thesis by (simp add: percentOf_valid [OF assms] assertAmount_Inr)
qed

lemma splitExact_valid:
  assumes "valid_amount t" "valid_rate r"
  shows "splitExact (Fin (of_int t)) (Fin (of_int r)) =
    Inr \<lparr>es_part = roundHalf (js_percent t r), es_remainder = t - roundHalf (js_percent t r)\<rparr>"
proof -
  let ?p = "roundHalf (js_percent t r)"
  have rem: "\<bar>t - ?p\<bar> \<le> \<bar>t\<bar>"
  proof (cases "0 \<le> t")
    case True
    then show ?thesis using percent_within_base [OF assms] by simp
  next
    case False
    have v: "valid_amount (- t)" using assms(1) by (simp add: valid_amount_abs)
    from False have "0 \<le> - t" by simp
    from percent_within_base [OF v assms(2) this] False show ?thesis
      by (simp add: js_percent_minus roundHalf_minus)
  qed
  then have va: "valid_amount (t - ?p)" using assms(1) by (simp add: valid_amount_abs)
  then have "fl (of_int (t - ?p)) = of_int (t - ?p)"
    by (intro fl_int) (simp add: valid_amount_abs money_bounds)
  then have "assertAmount (Fin (fl (of_int t - of_int ?p))) ''remainder'' = Inr (t - ?p)"
    using va by (simp add: assertAmount_Inr)
  moreover have "assertAmount (Fin (of_int t)) ''total'' = Inr t"
    "assertRateBasisPoints (Fin (of_int r)) ''rate'' = Inr r"
    using assms by (simp_all add: assertAmount_Inr assertRate_Inr)
  ultimately show ?thesis
    by (simp add: splitExact_def percentOf_total [OF assms])
qed

section \<open>The BIGINT column transformer\<close>

text \<open>
  \<open>node-postgres\<close> hands an \<open>int8\<close> column over as decimal text. \<open>show_int\<close> is \<open>String(n)\<close> on an
  integer below \<open>10^21\<close>; \<open>Number_text\<close> is \<open>Number(s)\<close> on such text. On text that is not an
  optional minus sign and digits (which the column type cannot produce) it is not-a-number.
\<close>

definition digit_char :: "nat \<Rightarrow> char" where
  "digit_char d = char_of (48 + d)"

definition digit_val :: "char \<Rightarrow> nat option" where
  "digit_val c = (let n = of_char c :: nat in if 48 \<le> n \<and> n \<le> 57 then Some (n - 48) else None)"

fun show_nat :: "nat \<Rightarrow> string" where
  "show_nat n = (if n < 10 then [digit_char n] else show_nat (n div 10) @ [digit_char (n mod 10)])"

declare show_nat.simps [simp del]

definition show_int :: "int \<Rightarrow> string" where
  "show_int i = (if i < 0 then CHR ''-'' # show_nat (nat (- i)) else show_nat (nat i))"

fun parse_digits :: "nat \<Rightarrow> string \<Rightarrow> nat option" where
  "parse_digits acc [] = Some acc"
| "parse_digits acc (c # cs) =
    (case digit_val c of None \<Rightarrow> None | Some d \<Rightarrow> parse_digits (acc * 10 + d) cs)"

definition Number_text :: "string \<Rightarrow> jsnum" where
  "Number_text s =
    (case s of
       [] \<Rightarrow> Fin 0
     | c # cs \<Rightarrow>
        (if c = CHR ''-'' \<and> cs \<noteq> []
         then (case parse_digits 0 cs of None \<Rightarrow> JNaN | Some n \<Rightarrow> Fin (fl (- of_nat n)))
         else (case parse_digits 0 s of None \<Rightarrow> JNaN | Some n \<Rightarrow> Fin (fl (of_nat n)))))"

datatype db_value = DbText string | DbNum jsnum

definition moneyTransformer_to :: "jsnum option \<Rightarrow> money_error + string option" where
  "moneyTransformer_to value =
    (case value of None \<Rightarrow> Inr None
     | Some v \<Rightarrow> bind_res (assertAmount v ''money column value'') (\<lambda>n. Inr (Some (show_int n))))"

definition moneyTransformer_from :: "db_value option \<Rightarrow> money_error + int option" where
  "moneyTransformer_from value =
    (case value of None \<Rightarrow> Inr None
     | Some v \<Rightarrow>
        (let parsed = (case v of DbNum n \<Rightarrow> n | DbText s \<Rightarrow> Number_text s)
         in bind_res (assertAmount parsed ''money column value read from database'') (\<lambda>n. Inr (Some n))))"

definition requiredMoneyTransformer_to :: "jsnum \<Rightarrow> money_error + string" where
  "requiredMoneyTransformer_to value =
    bind_res (assertAmount value ''money column value'') (\<lambda>n. Inr (show_int n))"

definition requiredMoneyTransformer_from :: "db_value \<Rightarrow> money_error + int" where
  "requiredMoneyTransformer_from value =
    assertAmount (case value of DbNum n \<Rightarrow> n | DbText s \<Rightarrow> Number_text s)
      ''money column value read from database''"

lemma digit_val_char [simp]: "d < 10 \<Longrightarrow> digit_val (digit_char d) = Some d"
  by (simp add: digit_val_def digit_char_def)

lemma digit_char_not_minus: "d < 10 \<Longrightarrow> digit_char d \<noteq> CHR ''-''"
proof
  assume "d < 10" "digit_char d = CHR ''-''"
  then have "digit_val (CHR ''-'') = Some d" by (metis digit_val_char)
  then show False by (simp add: digit_val_def)
qed

lemma parse_digits_append:
  "parse_digits acc (xs @ ys) = (case parse_digits acc xs of None \<Rightarrow> None | Some n \<Rightarrow> parse_digits n ys)"
  by (induction xs arbitrary: acc) (auto split: option.splits)

lemma parse_show_nat: "parse_digits 0 (show_nat n) = Some n"
proof (induction n rule: show_nat.induct)
  case (1 n)
  show ?case
  proof (cases "n < 10")
    case True
    then show ?thesis by (simp add: show_nat.simps [of n])
  next
    case False
    with "1.IH" have "parse_digits 0 (show_nat (n div 10)) = Some (n div 10)" by simp
    with False show ?thesis by (simp add: show_nat.simps [of n] parse_digits_append)
  qed
qed

lemma show_nat_head: "\<exists>d cs. show_nat n = digit_char d # cs \<and> d < 10"
proof (induction n rule: show_nat.induct)
  case (1 n)
  show ?case
  proof (cases "n < 10")
    case True
    then show ?thesis by (auto simp: show_nat.simps [of n])
  next
    case False
    with "1.IH" obtain d cs where "show_nat (n div 10) = digit_char d # cs" "d < 10" by auto
    with False show ?thesis by (auto simp: show_nat.simps [of n])
  qed
qed

lemma Number_show_int:
  assumes "\<bar>i\<bar> \<le> 2 ^ 53"
  shows "Number_text (show_int i) = Fin (of_int i)"
proof (cases "i < 0")
  case True
  obtain d cs where h: "show_nat (nat (- i)) = digit_char d # cs" using show_nat_head by blast
  have "fl (- of_nat (nat (- i))) = of_int i"
    using True fl_int [OF assms] by simp
  with True h parse_show_nat [of "nat (- i)"] show ?thesis
    by (simp add: show_int_def Number_text_def)
next
  case False
  obtain d cs where h: "show_nat (nat i) = digit_char d # cs" "d < 10" using show_nat_head by blast
  have "fl (of_nat (nat i)) = of_int i"
    using False fl_int [OF assms] by simp
  with False h parse_show_nat [of "nat i"] digit_char_not_minus [OF h(2)] show ?thesis
    by (simp add: show_int_def Number_text_def)
qed

section \<open>Sums of amounts\<close>

lemma add_loop_exact:
  assumes "list_all valid_amount ns" "\<bar>a\<bar> + int (length ns) * MAX_AMOUNT_TOMAN \<le> 2 ^ 53"
  shows "add_loop (of_int a) (map (\<lambda>n. Fin (of_int n)) ns) = Inr (of_int (a + sum_list ns))"
  using assms
proof (induction ns arbitrary: a)
  case Nil
  then show ?case by simp
next
  case (Cons n ns)
  have v: "valid_amount n" "\<bar>n\<bar> \<le> MAX_AMOUNT_TOMAN"
    using Cons.prems by (simp_all add: valid_amount_abs)
  have b: "\<bar>a + n\<bar> + int (length ns) * MAX_AMOUNT_TOMAN \<le> 2 ^ 53"
    using Cons.prems(2) v(2) by (simp add: algebra_simps)
  have "0 \<le> int (length ns) * MAX_AMOUNT_TOMAN" by (simp add: MAX_AMOUNT_TOMAN_def)
  with b have "\<bar>a + n\<bar> \<le> 2 ^ 53" by linarith
  then have "fl (of_int a + of_int n) = of_int (a + n)" using fl_int [of "a + n"] by simp
  moreover have "add_loop (of_int (a + n)) (map (\<lambda>n. Fin (of_int n)) ns) = Inr (of_int (a + n + sum_list ns))"
    using Cons.prems(1) b by (intro Cons.IH) auto
  ultimately show ?case using v(1) by (simp add: assertAmount_Fin_int add.assoc)
qed

section \<open>Where the double arithmetic is exact\<close>

text \<open>The percentage in exact arithmetic, rounded half away from zero.\<close>

definition exact_percent :: "int \<Rightarrow> int \<Rightarrow> int" where
  "exact_percent b r = sgn (b * r) * ((2 * \<bar>b * r\<bar> + 10000) div 20000)"

lemma round_double_quotient:
  assumes "0 < p" "p < 2 ^ 53"
  shows "\<lfloor>fl (of_int p / 10000) + 1/2\<rfloor> = (2 * p + 10000) div 20000"
proof -
  define k where "k = (2 * p + 10000) div 20000"
  define e where "e = (of_int p / 10000 :: rat)"
  have kb: "20000 * k \<le> 2 * p + 10000" "2 * p + 10000 < 20000 * k + 20000"
    unfolding k_def
    using div_mult_mod_eq [of "2 * p + 10000" 20000] pos_mod_bound [of 20000 "2 * p + 10000"]
      pos_mod_sign [of 20000 "2 * p + 10000"] by linarith+
  have "e < 2 ^ 53 / 10000"
  proof -
    have "(of_int p :: rat) < of_int (2 ^ 53)" using assms(2) by (simp only: of_int_less_iff)
    then show ?thesis by (simp add: e_def)
  qed
  moreover have e0: "0 < e" using assms(1) by (simp add: e_def)
  moreover have "\<bar>fl e - e\<bar> \<le> \<bar>e\<bar> / 2 ^ 53" by (rule fl_error)
  ultimately have err: "fl e - e < 1/10000" "e - fl e < 1/10000"
    unfolding abs_le_iff by simp_all
  have "p \<le> 10000 * k + 4999" using kb by linarith
  then have "(of_int p :: rat) \<le> of_int (10000 * k + 4999)" by (simp only: of_int_le_iff)
  then have hi: "fl e + 1/2 < of_int k + 1" using err by (simp add: e_def)
  have lo: "of_int k \<le> fl e + 1/2"
  proof (cases "p = 10000 * k - 5000")
    case True
    then have ee: "e = of_int (2 * k - 1) / 2" by (simp add: e_def field_simps)
    have "\<bar>2 * k - 1\<bar> \<le> 2 ^ 53" using True assms by linarith
    then have "fl e = e" unfolding ee by (simp only: fl_half fl_int)
    then show ?thesis unfolding ee by simp
  next
    case False
    then have "10000 * k - 4999 \<le> p" using kb by linarith
    then have "of_int (10000 * k - 4999) \<le> (of_int p :: rat)" by (simp only: of_int_le_iff)
    then show ?thesis using err by (simp add: e_def)
  qed
  show ?thesis unfolding e_def [symmetric] k_def [symmetric]
    by (rule floor_unique) (use lo hi in auto)
qed

lemma roundHalf_js_percent_pos:
  assumes "0 < b * r" "b * r < 2 ^ 53"
  shows "roundHalf (js_percent b r) = (2 * (b * r) + 10000) div 20000"
proof -
  have p: "fl (of_int b * of_int r) = of_int (b * r)" using fl_int [of "b * r"] assms by simp
  have "0 \<le> js_percent b r"
  proof -
    have "\<bar>js_percent b r - of_int (b * r) / 10000\<bar> \<le> \<bar>of_int (b * r) / 10000\<bar> / 2 ^ 53"
      unfolding js_percent_def p by (rule fl_error)
    moreover have "(0::rat) < of_int (b * r)" using assms by (simp only: of_int_0_less_iff)
    ultimately show ?thesis unfolding abs_le_iff by simp
  qed
  then show ?thesis
    using round_double_quotient [OF assms] by (simp add: roundHalf_def math_round_def js_percent_def p)
qed

lemma roundHalf_js_percent_exact:
  assumes "\<bar>b * r\<bar> < 2 ^ 53"
  shows "roundHalf (js_percent b r) = exact_percent b r"
proof (cases "b * r" "0::int" rule: linorder_cases)
  case less
  then have "roundHalf (js_percent (- b) r) = (2 * (- b * r) + 10000) div 20000"
    using assms by (intro roundHalf_js_percent_pos) auto
  with less show ?thesis by (simp add: js_percent_minus roundHalf_minus exact_percent_def)
next
  case equal
  then have "of_int b * of_int r = (0 :: rat)" by (simp flip: of_int_mult)
  then have "js_percent b r = 0" by (simp only: js_percent_def fl_0) simp
  moreover have "\<lfloor>1 / 2 :: rat\<rfloor> = 0" by (simp add: floor_eq_iff)
  ultimately show ?thesis unfolding exact_percent_def equal by (simp add: roundHalf_def math_round_def)
next
  case greater
  then show ?thesis using assms roundHalf_js_percent_pos by (simp add: exact_percent_def)
qed

section \<open>Properties\<close>

text \<open>Splitting any representable total at any valid rate never throws and never loses a Toman:
  the two parts add up to the total exactly, negatives included, and neither exceeds it.\<close>

theorem splitExact_exact_sum:
  assumes "valid_amount t" "valid_rate r"
  shows "\<exists>s. splitExact (Fin (of_int t)) (Fin (of_int r)) = Inr s \<and>
    es_part s + es_remainder s = t \<and> \<bar>es_part s\<bar> \<le> \<bar>t\<bar> \<and> valid_amount (es_remainder s)"
proof -
  have "assertAmount (Fin (of_int t)) ''total'' = Inr t" using assms by (simp add: assertAmount_Inr)
  note s = splitExact_valid [OF assms]
  have "\<bar>t - roundHalf (js_percent t r)\<bar> \<le> \<bar>t\<bar>"
    using percent_abs_le [OF assms] percent_within_base [OF assms]
      percent_within_base [of "- t" r] assms
    by (cases "0 \<le> t") (auto simp: js_percent_minus roundHalf_minus valid_amount_abs)
  then have "valid_amount (t - roundHalf (js_percent t r))"
    using assms(1) by (simp add: valid_amount_abs)
  with s percent_abs_le [OF assms] show ?thesis by simp
qed

theorem splitExact_exact_sum_witness:
  "\<exists>s. splitExact (Fin (of_int (- 250001))) (Fin (of_int 1500)) = Inr s \<and>
    es_part s + es_remainder s = - 250001 \<and> \<bar>es_part s\<bar> \<le> \<bar>- 250001\<bar> \<and> valid_amount (es_remainder s)"
  by (rule splitExact_exact_sum) (simp_all add: valid_amount_def valid_rate_def money_bounds)

text \<open>A reversal is the exact negative of what it reverses: negating the base negates the
  percentage, for every valid base and rate.\<close>

theorem percentOf_antisymmetric:
  assumes "valid_amount b" "valid_rate r"
  shows "percentOf (Fin (of_int (- b))) (Fin (of_int r)) =
    map_sum id uminus (percentOf (Fin (of_int b)) (Fin (of_int r)))"
proof -
  have "valid_amount (- b)" using assms(1) by (simp add: valid_amount_abs)
  from percentOf_total [OF this assms(2)] percentOf_total [OF assms] show ?thesis
    by (simp add: js_percent_minus roundHalf_minus)
qed

theorem percentOf_antisymmetric_witness:
  "percentOf (Fin (of_int (- 5))) (Fin (of_int 1000)) =
    map_sum id uminus (percentOf (Fin (of_int 5)) (Fin (of_int 1000)))"
  by (rule percentOf_antisymmetric) (simp_all add: valid_amount_def valid_rate_def money_bounds)

text \<open>While \<open>|base * rate|\<close> stays below \<open>2^53\<close> the double arithmetic of \<open>percentOf\<close> is
  invisible: the result is the exact percentage rounded half away from zero. At any rate this
  covers every base up to 900 billion Toman.\<close>

theorem percentOf_exact:
  assumes "valid_amount b" "valid_rate r" "\<bar>b * r\<bar> < 2 ^ 53"
  shows "percentOf (Fin (of_int b)) (Fin (of_int r)) = Inr (exact_percent b r)"
  using percentOf_total [OF assms(1,2)] roundHalf_js_percent_exact [OF assms(3)] by simp

theorem percentOf_exact_witness:
  "percentOf (Fin (of_int 900000000000)) (Fin (of_int 10000)) = Inr 900000000000"
  using percentOf_exact [of 900000000000 10000]
  by (simp add: valid_amount_def valid_rate_def money_bounds exact_percent_def)

text \<open>Above that bound the result can differ from the exact percentage: the code charges
  2,196,030,243,755 where 96.01 percent of 2,287,293,244,198 rounds to 2,196,030,243,754.\<close>

theorem percentOf_inexact_beyond_doubles:
  "percentOf (Fin 2287293244198) (Fin 9601) = Inr 2196030243755 \<and>
   exact_percent 2287293244198 9601 = 2196030243754"
proof -
  have f1: "fl 21960302437544998 = 21960302437545000"
  proof -
    have "\<lfloor>10980151218772499 / 2 :: rat\<rfloor> = 5490075609386249" by (simp add: floor_eq_iff)
    then show ?thesis by (subst fl_eval [where k = 54]) (simp_all add: round_even_def Let_def)
  qed
  have f2: "fl (21960302437545000 / 10000) = 2196030243754 + 1 / 2"
    by (subst fl_eval [where k = 40]) (simp_all add: round_even_def Let_def power_int_minus)
  have v: "valid_amount 2287293244198" "valid_rate 9601"
    by (simp_all add: valid_amount_def valid_rate_def money_bounds)
  have q: "js_percent 2287293244198 9601 = 2196030243754 + 1 / 2"
    using f1 f2 by (simp add: js_percent_def)
  have "roundHalf (js_percent 2287293244198 9601) = 2196030243755"
    unfolding roundHalf_def math_round_def q by simp
  with percentOf_total [OF v] show ?thesis by (simp add: exact_percent_def)
qed

text \<open>C37: Reading a BIGINT column back gives the amount that was written, for every amount and for
  NULL; nothing else can be written.\<close>

theorem moneyTransformer_roundtrip:
  "moneyTransformer_to v = Inr t \<Longrightarrow>
    (case (v, t) of
       (None, None) \<Rightarrow> moneyTransformer_from None = Inr None
     | (Some (Fin q), Some s) \<Rightarrow> moneyTransformer_from (Some (DbText s)) = Inr (Some \<lfloor>q\<rfloor>) \<and> q = of_int \<lfloor>q\<rfloor>
     | _ \<Rightarrow> False)"
proof (cases v)
  case None
  then show "moneyTransformer_to v = Inr t \<Longrightarrow> ?thesis"
    by (simp add: moneyTransformer_to_def moneyTransformer_from_def)
next
  case (Some x)
  assume a: "moneyTransformer_to v = Inr t"
  with Some obtain n where n: "assertAmount x ''money column value'' = Inr n" "t = Some (show_int n)"
    by (auto simp: moneyTransformer_to_def bind_res_Inr)
  then have x: "x = Fin (of_int n)" and vn: "valid_amount n" by (simp_all add: assertAmount_Inr)
  from vn have "\<bar>n\<bar> \<le> 2 ^ 53" by (simp add: valid_amount_abs money_bounds)
  from Number_show_int [OF this] x vn n(2) Some show ?thesis
    by (simp add: moneyTransformer_from_def assertAmount_Fin_int)
qed

theorem moneyTransformer_roundtrip_witness:
  "moneyTransformer_to (Some (Fin 250000)) = Inr (Some ''250000'') \<and>
   moneyTransformer_from (Some (DbText ''250000'')) = Inr (Some 250000)"
proof -
  have d: "show_int 250000 = ''250000''"
    by (simp add: show_int_def show_nat.simps digit_char_def char_of_def bit_0)
  have t: "moneyTransformer_to (Some (Fin 250000)) = Inr (Some ''250000'')"
    using assertAmount_Fin_int [of 250000] d
    by (simp add: moneyTransformer_to_def valid_amount_def money_bounds)
  from moneyTransformer_roundtrip [OF t] t show ?thesis by simp
qed

end
