(* ===== verification/Js_Value.thy ===== *)
theory Js_Value
  imports Money
begin

text \<open>
  Values of type \<open>unknown\<close>, as the contract validators receive them from a request body or a database
  row: what \<open>typeof\<close>, \<open>Object.keys\<close>, a property read and \<open>Number.isInteger\<close> see of them.
\<close>

datatype jsval =
    JUndefined
  | JNull
  | JBoolean bool
  | JNumber jsnum
  | JString string
  | JArray "jsval list"
  | JObject "(string \<times> jsval) list"

text \<open>\<open>value && typeof value === 'object'\<close>: an array or an object, never \<open>null\<close>.\<close>

definition is_object :: "jsval \<Rightarrow> bool" where
  "is_object v = (case v of JArray _ \<Rightarrow> True | JObject _ \<Rightarrow> True | _ \<Rightarrow> False)"

definition obj_keys :: "jsval \<Rightarrow> string list" where
  "obj_keys v = (case v of JArray xs \<Rightarrow> map show_nat [0..<length xs] | JObject ps \<Rightarrow> map fst ps | _ \<Rightarrow> [])"

definition jprop :: "jsval \<Rightarrow> string \<Rightarrow> jsval" where
  "jprop v k = (case v of JObject ps \<Rightarrow> (case map_of ps k of None \<Rightarrow> JUndefined | Some x \<Rightarrow> x) | _ \<Rightarrow> JUndefined)"

text \<open>\<open>isWholeInRange(value, min, max)\<close>, the guard every contract of the package repeats.\<close>

definition whole_in_range :: "jsval \<Rightarrow> int \<Rightarrow> int \<Rightarrow> bool" where
  "whole_in_range v lo hi = (case v of JNumber n \<Rightarrow> isWholeInRange n lo hi | _ \<Rightarrow> False)"

definition js_opt :: "('a \<Rightarrow> jsval) \<Rightarrow> 'a option \<Rightarrow> jsval" where
  "js_opt f x = (case x of None \<Rightarrow> JNull | Some y \<Rightarrow> f y)"

definition fin_int :: "int \<Rightarrow> jsnum" where
  "fin_int n = Fin (of_int n)"

lemma isWholeInRange_iff: "isWholeInRange x lo hi \<longleftrightarrow> (\<exists>n. x = fin_int n \<and> lo \<le> n \<and> n \<le> hi)"
proof
  assume a: "isWholeInRange x lo hi"
  then obtain q where q: "x = Fin q" "q = of_int \<lfloor>q\<rfloor>" "of_int lo \<le> q" "q \<le> of_int hi"
    by (auto simp: isWholeInRange_def isInteger_def split: jsnum.splits)
  define n where "n = \<lfloor>q\<rfloor>"
  have e: "q = of_int n" using q(2) by (simp add: n_def)
  then have "lo \<le> n \<and> n \<le> hi" using q(3,4) by simp
  with q(1) e show "\<exists>n. x = fin_int n \<and> lo \<le> n \<and> n \<le> hi" by (auto simp: fin_int_def)
qed (auto simp: isWholeInRange_def isInteger_def fin_int_def)

lemma isWholeInRange_fin_int [simp]: "isWholeInRange (fin_int n) lo hi \<longleftrightarrow> lo \<le> n \<and> n \<le> hi"
  by (auto simp: isWholeInRange_iff fin_int_def)

lemma fin_int_inject [simp]: "fin_int a = fin_int b \<longleftrightarrow> a = b"
  by (simp add: fin_int_def)

lemma jprop_simps [simp]:
  "jprop (JObject []) k = JUndefined"
  "jprop (JObject ((k', x) # ps)) k = (if k' = k then x else jprop (JObject ps) k)"
  by (simp_all add: jprop_def)

lemma obj_keys_simps [simp]:
  "obj_keys (JObject ps) = map fst ps"
  by (simp add: obj_keys_def)

lemma is_object_simps [simp]:
  "is_object (JObject ps)" "is_object (JArray xs)" "\<not> is_object JNull" "\<not> is_object JUndefined"
  "\<not> is_object (JNumber n)" "\<not> is_object (JString s)" "\<not> is_object (JBoolean b)"
  by (simp_all add: is_object_def)

lemma whole_in_range_simps [simp]:
  "whole_in_range (JNumber n) lo hi = isWholeInRange n lo hi"
  "\<not> whole_in_range JNull lo hi" "\<not> whole_in_range JUndefined lo hi"
  by (simp_all add: whole_in_range_def)

end
