(* ===== verification/Outcome_Policy.thy ===== *)
theory Outcome_Policy
  imports Js_Value
begin

text \<open>
  The booking-outcome contracts (\<open>packages/commercial-policy-contract/src/booking-outcome-policy-contract.ts\<close>
  and \<open>booking-outcome-contract.ts\<close>): retention rules, the published family of allowed members, what
  a seller selects inside it, the terms and snapshot an order records and the acceptance a customer
  echoes. The validators take any JavaScript value and return every error, in the source's order;
  an error is a constructor that carries the label the message names.
\<close>

section \<open>Retention rules\<close>

text \<open>
  The union \<open>BookingOutcomeRetentionRule\<close>, with the values the type system cannot exclude at run
  time: a numeric field that is any number, and a \<open>kind\<close> outside the vocabulary.
\<close>

datatype retention_rule =
    NoRetention
  | FullCollected
  | PercentageOfCollected jsnum
  | FixedToman jsnum
  | UnknownRule string

definition MAX_OUTCOME_HOURS :: int where "MAX_OUTCOME_HOURS = 8760"
definition MAX_OUTCOME_GRACE_MINUTES :: int where "MAX_OUTCOME_GRACE_MINUTES = 1440"
definition MAX_OUTCOME_RETENTION_DAYS :: int where "MAX_OUTCOME_RETENTION_DAYS = 3650"
definition MAX_OUTCOME_RESCHEDULE_FREE_COUNT :: int where "MAX_OUTCOME_RESCHEDULE_FREE_COUNT = 100"
definition MAX_OUTCOME_AMOUNT_TOMAN :: int where "MAX_OUTCOME_AMOUNT_TOMAN = 10000000000000"
definition MAX_OUTCOME_SET_MEMBERS :: nat where "MAX_OUTCOME_SET_MEMBERS = 64"
definition MAX_OUTCOME_RETENTION_OPTIONS :: nat where "MAX_OUTCOME_RETENTION_OPTIONS = 32"

lemmas outcome_bounds =
  MAX_OUTCOME_HOURS_def MAX_OUTCOME_GRACE_MINUTES_def MAX_OUTCOME_RETENTION_DAYS_def
  MAX_OUTCOME_RESCHEDULE_FREE_COUNT_def MAX_OUTCOME_AMOUNT_TOMAN_def
  MAX_OUTCOME_SET_MEMBERS_def MAX_OUTCOME_RETENTION_OPTIONS_def

datatype contract_error =
    MustBeObject string
  | MustBeRule string
  | BadKind string
  | NumericFieldOn string
  | BasisPointsRange string
  | OnlyBasisPoints string
  | AmountRange string
  | OnlyAmountToman string
  | UnknownField string string
  | FieldRange string
  | NotAscending string
  | NonEmptyArray string
  | TooManyMembers string
  | ElementRange string nat
  | DuplicateOption string
  | BadContractVersion
  | HarmShorterThanDispute
  | CapMissing
  | CapOfKindNone
  | BadInstant string
  | CapNeedsEvidence
  | BadEvidenceId
  | EvidenceNeedsCap
  | BadKey string
  | BadVersion string

definition retention_kinds :: "string list" where
  "retention_kinds = [''none'', ''percentage_of_collected'', ''fixed_toman'', ''full_collected'']"

definition validateBookingOutcomeRetentionRule :: "jsval \<Rightarrow> string \<Rightarrow> contract_error list" where
  "validateBookingOutcomeRetentionRule rule label =
    (if \<not> is_object rule then [MustBeRule label]
     else
       let kind = jprop rule ''kind'';
           ks = filter (\<lambda>k. k \<noteq> ''kind'') (obj_keys rule)
       in if kind \<notin> JString ` set retention_kinds then [BadKind label]
          else if kind = JString ''none'' \<or> kind = JString ''full_collected''
          then (if ks \<noteq> [] then [NumericFieldOn label] else [])
          else if kind = JString ''percentage_of_collected''
          then (if \<not> whole_in_range (jprop rule ''basisPoints'') 1 9999 then [BasisPointsRange label] else [])
             @ (if list_ex (\<lambda>k. k \<noteq> ''basisPoints'') ks then [OnlyBasisPoints label] else [])
          else (if \<not> whole_in_range (jprop rule ''amountToman'') 1 MAX_OUTCOME_AMOUNT_TOMAN then [AmountRange label] else [])
             @ (if list_ex (\<lambda>k. k \<noteq> ''amountToman'') ks then [OnlyAmountToman label] else []))"

text \<open>
  \<open>retentionRuleIdentity\<close> renders a rule as a string that is compared for equality only; here it is
  the value that string renders (two numbers print the same text exactly when they are equal).
\<close>

datatype rule_identity = IdPercentage jsnum | IdFixed jsnum | IdKind string

fun retentionRuleIdentity :: "retention_rule \<Rightarrow> rule_identity" where
  "retentionRuleIdentity (PercentageOfCollected bp) = IdPercentage bp"
| "retentionRuleIdentity (FixedToman a) = IdFixed a"
| "retentionRuleIdentity NoRetention = IdKind ''none''"
| "retentionRuleIdentity FullCollected = IdKind ''full_collected''"
| "retentionRuleIdentity (UnknownRule k) = IdKind k"

text \<open>How a typed rule looks as a value, and the rules the contract admits.\<close>

fun rule_js :: "retention_rule \<Rightarrow> jsval" where
  "rule_js NoRetention = JObject [(''kind'', JString ''none'')]"
| "rule_js FullCollected = JObject [(''kind'', JString ''full_collected'')]"
| "rule_js (PercentageOfCollected bp) =
     JObject [(''kind'', JString ''percentage_of_collected''), (''basisPoints'', JNumber bp)]"
| "rule_js (FixedToman a) = JObject [(''kind'', JString ''fixed_toman''), (''amountToman'', JNumber a)]"
| "rule_js (UnknownRule k) = JObject [(''kind'', JString k)]"

fun wf_rule :: "retention_rule \<Rightarrow> bool" where
  "wf_rule NoRetention = True"
| "wf_rule FullCollected = True"
| "wf_rule (PercentageOfCollected bp) = isWholeInRange bp 1 9999"
| "wf_rule (FixedToman a) = isWholeInRange a 1 MAX_OUTCOME_AMOUNT_TOMAN"
| "wf_rule (UnknownRule k) = False"

text \<open>A kind outside the vocabulary is named by no well-typed rule.\<close>

definition proper_rule :: "retention_rule \<Rightarrow> bool" where
  "proper_rule r = (case r of UnknownRule k \<Rightarrow> k \<notin> set retention_kinds | _ \<Rightarrow> True)"

lemma validate_rule_js:
  "proper_rule r \<Longrightarrow> validateBookingOutcomeRetentionRule (rule_js r) label = [] \<longleftrightarrow> wf_rule r"
  by (cases r) (auto simp: validateBookingOutcomeRetentionRule_def retention_kinds_def proper_rule_def Let_def)

lemma identity_inject: "proper_rule r \<Longrightarrow> proper_rule s \<Longrightarrow> retentionRuleIdentity r = retentionRuleIdentity s \<longleftrightarrow> r = s"
  by (cases r; cases s) (auto simp: proper_rule_def retention_kinds_def)

lemma wf_proper: "wf_rule r \<Longrightarrow> proper_rule r"
  by (cases r) (auto simp: proper_rule_def)

section \<open>Rule columns\<close>

record rule_columns =
  rc_kind :: string
  rc_basisPoints :: "db_value option"
  rc_amountToman :: "db_value option"

definition rule_kind :: "retention_rule \<Rightarrow> string" where
  "rule_kind r = (case r of NoRetention \<Rightarrow> ''none'' | FullCollected \<Rightarrow> ''full_collected''
     | PercentageOfCollected _ \<Rightarrow> ''percentage_of_collected'' | FixedToman _ \<Rightarrow> ''fixed_toman'' | UnknownRule k \<Rightarrow> k)"

definition bookingOutcomeRetentionColumns :: "retention_rule \<Rightarrow> rule_columns" where
  "bookingOutcomeRetentionColumns r =
    \<lparr>rc_kind = rule_kind r,
     rc_basisPoints = (case r of PercentageOfCollected bp \<Rightarrow> Some (DbNum bp) | _ \<Rightarrow> None),
     rc_amountToman = (case r of FixedToman a \<Rightarrow> Some (DbNum a) | _ \<Rightarrow> None)\<rparr>"

text \<open>\<open>Number(value)\<close> on a column: \<open>Number(null)\<close> is zero, which no rule admits.\<close>

definition Number_column :: "db_value option \<Rightarrow> jsnum" where
  "Number_column v = (case v of None \<Rightarrow> Fin 0 | Some (DbNum n) \<Rightarrow> n | Some (DbText s) \<Rightarrow> Number_text s)"

definition bookingOutcomeRetentionRuleFromColumns :: "rule_columns \<Rightarrow> retention_rule" where
  "bookingOutcomeRetentionRuleFromColumns c =
    (if rc_kind c = ''percentage_of_collected'' then PercentageOfCollected (Number_column (rc_basisPoints c))
     else if rc_kind c = ''fixed_toman'' then FixedToman (Number_column (rc_amountToman c))
     else if rc_kind c = ''none'' then NoRetention
     else if rc_kind c = ''full_collected'' then FullCollected
     else UnknownRule (rc_kind c))"

text \<open>The column written as SQL text (a BIGINT comes back as text).\<close>

definition as_text :: "rule_columns \<Rightarrow> rule_columns" where
  "as_text c = c\<lparr>rc_amountToman := (case rc_amountToman c of
     Some (DbNum (Fin q)) \<Rightarrow> Some (DbText (show_int \<lfloor>q\<rfloor>)) | x \<Rightarrow> x)\<rparr>"

lemma columns_roundtrip:
  "proper_rule r \<Longrightarrow> bookingOutcomeRetentionRuleFromColumns (bookingOutcomeRetentionColumns r) = r"
  by (cases r) (auto simp: bookingOutcomeRetentionColumns_def bookingOutcomeRetentionRuleFromColumns_def
      rule_kind_def Number_column_def proper_rule_def retention_kinds_def)

lemma columns_roundtrip_text:
  assumes "wf_rule r"
  shows "bookingOutcomeRetentionRuleFromColumns (as_text (bookingOutcomeRetentionColumns r)) = r"
proof (cases r)
  case (FixedToman a)
  with assms obtain n where a: "a = fin_int n" "1 \<le> n" "n \<le> MAX_OUTCOME_AMOUNT_TOMAN"
    by (auto simp: isWholeInRange_iff)
  then have "Number_text (show_int n) = Fin (of_int n)"
    by (intro Number_show_int) (simp add: outcome_bounds)
  then show ?thesis
    using FixedToman a by (simp add: bookingOutcomeRetentionColumns_def as_text_def rule_kind_def
        bookingOutcomeRetentionRuleFromColumns_def Number_column_def fin_int_def)
qed (use assms in \<open>auto simp: bookingOutcomeRetentionColumns_def bookingOutcomeRetentionRuleFromColumns_def
      rule_kind_def Number_column_def as_text_def\<close>)

section \<open>The published family\<close>

text \<open>
  \<open>validateAscendingSet\<close>: the loop walks the array once; an element that is no whole number in range
  is reported and skipped, so the order is checked between neighbours only. The neighbour before may
  be of any type (it has been reported then), and \<open>>\<close> coerces it: \<open>jnum_gt\<close>.
\<close>

fun js_gt :: "jsnum \<Rightarrow> jsnum \<Rightarrow> bool" where
  "js_gt (Fin p) (Fin q) = (p > q)"
| "js_gt JNaN b = False"
| "js_gt a JNaN = False"
| "js_gt JPosInf b = (b \<noteq> JPosInf)"
| "js_gt a JNegInf = (a \<noteq> JNegInf)"
| "js_gt a b = False"

text \<open>\<open>ToNumber\<close>; an array is its joined text, and text is a decimal integer or not a number.\<close>

definition to_number :: "jsval \<Rightarrow> jsnum" where
  "to_number v =
    (case v of JNumber n \<Rightarrow> n | JNull \<Rightarrow> Fin 0 | JBoolean b \<Rightarrow> Fin (if b then 1 else 0) | JString s \<Rightarrow> Number_text s
     | JArray xs \<Rightarrow> (case xs of [] \<Rightarrow> Fin 0 | [JNumber n] \<Rightarrow> n | [JString s] \<Rightarrow> Number_text s
         | [JNull] \<Rightarrow> Fin 0 | [JUndefined] \<Rightarrow> Fin 0 | _ \<Rightarrow> JNaN)
     | _ \<Rightarrow> JNaN)"

definition jnum_gt :: "jsval \<Rightarrow> jsval \<Rightarrow> bool" where
  "jnum_gt a b = js_gt (to_number a) (to_number b)"

lemma to_number_JNumber [simp]: "to_number (JNumber n) = n"
  by (simp add: to_number_def)

fun ascending_loop :: "string \<Rightarrow> int \<Rightarrow> int \<Rightarrow> nat \<Rightarrow> jsval option \<Rightarrow> jsval list \<Rightarrow> contract_error list" where
  "ascending_loop label lo hi i prev [] = []"
| "ascending_loop label lo hi i prev (v # vs) =
    (if \<not> whole_in_range v lo hi then [ElementRange label i]
     else case prev of None \<Rightarrow> [] | Some u \<Rightarrow> if \<not> jnum_gt v u then [NotAscending label] else [])
    @ ascending_loop label lo hi (Suc i) (Some v) vs"

definition validateAscendingSet :: "string \<Rightarrow> jsval \<Rightarrow> int \<Rightarrow> int \<Rightarrow> contract_error list" where
  "validateAscendingSet label values lo hi =
    (case values of
       JArray vs \<Rightarrow>
         (if vs = [] then [NonEmptyArray label]
          else (if length vs > MAX_OUTCOME_SET_MEMBERS then [TooManyMembers label] else [])
             @ ascending_loop label lo hi 0 None vs)
     | _ \<Rightarrow> [NonEmptyArray label])"

text \<open>The rule a valid value stands for; the validator is asked first.\<close>

definition rule_of_js :: "jsval \<Rightarrow> retention_rule" where
  "rule_of_js v =
    (case jprop v ''kind'' of
       JString k \<Rightarrow>
         (if k = ''none'' then NoRetention
          else if k = ''full_collected'' then FullCollected
          else if k = ''percentage_of_collected''
          then (case jprop v ''basisPoints'' of JNumber n \<Rightarrow> PercentageOfCollected n | _ \<Rightarrow> UnknownRule k)
          else if k = ''fixed_toman''
          then (case jprop v ''amountToman'' of JNumber n \<Rightarrow> FixedToman n | _ \<Rightarrow> UnknownRule k)
          else UnknownRule k)
     | _ \<Rightarrow> UnknownRule [])"

fun options_loop :: "string \<Rightarrow> nat \<Rightarrow> rule_identity list \<Rightarrow> jsval list \<Rightarrow> contract_error list" where
  "options_loop label i seen [] = []"
| "options_loop label i seen (v # vs) =
    (let problems = validateBookingOutcomeRetentionRule v (label @ ''['' @ show_nat i @ '']'')
     in problems
      @ (if problems = []
         then (let identity = retentionRuleIdentity (rule_of_js v)
               in (if identity \<in> set seen then [DuplicateOption label] else [])
                @ options_loop label (Suc i) (identity # seen) vs)
         else options_loop label (Suc i) seen vs))"

definition validateRetentionOptions :: "string \<Rightarrow> jsval \<Rightarrow> contract_error list" where
  "validateRetentionOptions label options =
    (case options of
       JArray vs \<Rightarrow>
         (if vs = [] then [NonEmptyArray label]
          else (if length vs > MAX_OUTCOME_RETENTION_OPTIONS then [TooManyMembers label] else [])
             @ options_loop label 0 [] vs)
     | _ \<Rightarrow> [NonEmptyArray label])"

text \<open>The administrator-fixed windows, checked identically for a version and for an order's terms.\<close>

definition window_errors :: "jsval \<Rightarrow> bool \<Rightarrow> contract_error list" where
  "window_errors t harmNeedsWholeDispute =
    (if \<not> whole_in_range (jprop t ''rescheduleFreeCountBeforeCutoff'') 0 MAX_OUTCOME_RESCHEDULE_FREE_COUNT
     then [FieldRange ''rescheduleFreeCountBeforeCutoff''] else [])
  @ (if \<not> whole_in_range (jprop t ''disputeWindowHours'') 1 MAX_OUTCOME_HOURS
     then [FieldRange ''disputeWindowHours''] else [])
  @ (if jprop t ''bodilyHarmWindowHours'' \<noteq> JNull
     then (if \<not> whole_in_range (jprop t ''bodilyHarmWindowHours'') 1 MAX_OUTCOME_HOURS
           then [FieldRange ''bodilyHarmWindowHours'']
           else if (if harmNeedsWholeDispute then whole_in_range (jprop t ''disputeWindowHours'') 1 MAX_OUTCOME_HOURS
                    else (case jprop t ''disputeWindowHours'' of JNumber n \<Rightarrow> isInteger n | _ \<Rightarrow> False))
                 \<and> jnum_gt (jprop t ''disputeWindowHours'') (jprop t ''bodilyHarmWindowHours'')
           then [HarmShorterThanDispute] else [])
     else [])
  @ (if \<not> whole_in_range (jprop t ''appealWindowHours'') 1 MAX_OUTCOME_HOURS
     then [FieldRange ''appealWindowHours''] else [])
  @ (if jprop t ''caseFileRetentionDays'' \<noteq> JNull
        \<and> \<not> whole_in_range (jprop t ''caseFileRetentionDays'') 1 MAX_OUTCOME_RETENTION_DAYS
     then [FieldRange ''caseFileRetentionDays''] else [])"

definition contract_version_errors :: "jsval \<Rightarrow> contract_error list" where
  "contract_version_errors t = (if jprop t ''contractVersion'' \<noteq> JNumber (fin_int 1) then [BadContractVersion] else [])"

definition version_cap_errors :: "jsval \<Rightarrow> contract_error list" where
  "version_cap_errors c =
    (if c = JNull then []
     else if c = JUndefined then [CapMissing]
     else validateBookingOutcomeRetentionRule c ''legalCap''
        @ (if jprop c ''kind'' = JString ''none'' then [CapOfKindNone] else []))"

definition validateBookingOutcomePolicyVersionTermsV1 :: "jsval \<Rightarrow> contract_error list" where
  "validateBookingOutcomePolicyVersionTermsV1 t =
    (if \<not> is_object t then [MustBeObject ''terms'']
     else contract_version_errors t
        @ validateAscendingSet ''cutoffHoursAllowed'' (jprop t ''cutoffHoursAllowed'') 0 MAX_OUTCOME_HOURS
        @ validateRetentionOptions ''lateRetentionOptions'' (jprop t ''lateRetentionOptions'')
        @ validateAscendingSet ''noShowGraceMinutesAllowed'' (jprop t ''noShowGraceMinutesAllowed'') 0 MAX_OUTCOME_GRACE_MINUTES
        @ validateRetentionOptions ''noShowRetentionOptions'' (jprop t ''noShowRetentionOptions'')
        @ window_errors t False
        @ version_cap_errors (jprop t ''legalCap''))"

record policy_version_terms =
  pv_cutoffHoursAllowed :: "jsnum list"
  pv_lateRetentionOptions :: "retention_rule list"
  pv_noShowGraceMinutesAllowed :: "jsnum list"
  pv_noShowRetentionOptions :: "retention_rule list"
  pv_rescheduleFreeCount :: jsnum
  pv_disputeWindowHours :: jsnum
  pv_bodilyHarmWindowHours :: "jsnum option"
  pv_appealWindowHours :: jsnum
  pv_caseFileRetentionDays :: "jsnum option"
  pv_legalCap :: "retention_rule option"

definition policy_version_js :: "policy_version_terms \<Rightarrow> jsval" where
  "policy_version_js t = JObject
    [(''contractVersion'', JNumber (fin_int 1)),
     (''cutoffHoursAllowed'', JArray (map JNumber (pv_cutoffHoursAllowed t))),
     (''lateRetentionOptions'', JArray (map rule_js (pv_lateRetentionOptions t))),
     (''noShowGraceMinutesAllowed'', JArray (map JNumber (pv_noShowGraceMinutesAllowed t))),
     (''noShowRetentionOptions'', JArray (map rule_js (pv_noShowRetentionOptions t))),
     (''rescheduleFreeCountBeforeCutoff'', JNumber (pv_rescheduleFreeCount t)),
     (''disputeWindowHours'', JNumber (pv_disputeWindowHours t)),
     (''bodilyHarmWindowHours'', js_opt JNumber (pv_bodilyHarmWindowHours t)),
     (''appealWindowHours'', JNumber (pv_appealWindowHours t)),
     (''caseFileRetentionDays'', js_opt JNumber (pv_caseFileRetentionDays t)),
     (''legalCap'', js_opt rule_js (pv_legalCap t))]"

text \<open>What a published version means: every member valid, the sets ascending, one option per meaning.\<close>

definition wf_set :: "int \<Rightarrow> jsnum list \<Rightarrow> bool" where
  "wf_set hi xs \<longleftrightarrow> (\<exists>ns. xs = map fin_int ns \<and> ns \<noteq> [] \<and> length ns \<le> MAX_OUTCOME_SET_MEMBERS \<and>
     sorted_wrt (<) ns \<and> (\<forall>n \<in> set ns. 0 \<le> n \<and> n \<le> hi))"

definition wf_options :: "retention_rule list \<Rightarrow> bool" where
  "wf_options rs \<longleftrightarrow> rs \<noteq> [] \<and> length rs \<le> MAX_OUTCOME_RETENTION_OPTIONS \<and> distinct rs \<and> (\<forall>r \<in> set rs. wf_rule r)"

definition wf_windows :: "jsnum \<Rightarrow> jsnum \<Rightarrow> jsnum option \<Rightarrow> jsnum \<Rightarrow> jsnum option \<Rightarrow> bool" where
  "wf_windows free dispute harm appeal days \<longleftrightarrow>
     isWholeInRange free 0 MAX_OUTCOME_RESCHEDULE_FREE_COUNT \<and>
     isWholeInRange dispute 1 MAX_OUTCOME_HOURS \<and>
     (\<forall>h. harm = Some h \<longrightarrow> isWholeInRange h 1 MAX_OUTCOME_HOURS \<and>
        (\<exists>m n. h = fin_int m \<and> dispute = fin_int n \<and> n \<le> m)) \<and>
     isWholeInRange appeal 1 MAX_OUTCOME_HOURS \<and>
     (\<forall>d. days = Some d \<longrightarrow> isWholeInRange d 1 MAX_OUTCOME_RETENTION_DAYS)"

definition wf_cap :: "retention_rule option \<Rightarrow> bool" where
  "wf_cap c \<longleftrightarrow> (\<forall>r. c = Some r \<longrightarrow> wf_rule r \<and> r \<noteq> NoRetention)"

definition wf_policy_version :: "policy_version_terms \<Rightarrow> bool" where
  "wf_policy_version t \<longleftrightarrow>
     wf_set MAX_OUTCOME_HOURS (pv_cutoffHoursAllowed t) \<and>
     wf_options (pv_lateRetentionOptions t) \<and>
     wf_set MAX_OUTCOME_GRACE_MINUTES (pv_noShowGraceMinutesAllowed t) \<and>
     wf_options (pv_noShowRetentionOptions t) \<and>
     wf_windows (pv_rescheduleFreeCount t) (pv_disputeWindowHours t) (pv_bodilyHarmWindowHours t)
       (pv_appealWindowHours t) (pv_caseFileRetentionDays t) \<and>
     wf_cap (pv_legalCap t)"

lemma ascending_loop_Nil_iff:
  "ascending_loop l lo hi i prev (map JNumber xs) = [] \<longleftrightarrow>
    (\<exists>ns. xs = map fin_int ns \<and> (\<forall>n \<in> set ns. lo \<le> n \<and> n \<le> hi) \<and> sorted_wrt (<) ns \<and>
      (\<forall>u. prev = Some u \<longrightarrow> ns \<noteq> [] \<longrightarrow> jnum_gt (JNumber (fin_int (hd ns))) u))"
proof (induction xs arbitrary: i prev)
  case Nil
  then show ?case by simp
next
  case (Cons x xs)
  show ?case
  proof (cases "isWholeInRange x lo hi")
    case False
    then show ?thesis by (auto simp: isWholeInRange_iff)
  next
    case True
    then obtain n where n: "x = fin_int n" "lo \<le> n" "n \<le> hi" by (auto simp: isWholeInRange_iff)
    have gt: "jnum_gt (JNumber (fin_int m)) (JNumber (fin_int n)) \<longleftrightarrow> n < m" for m
      by (simp add: jnum_gt_def fin_int_def)
    have srt: "sorted_wrt (<) ns \<and> (ns \<noteq> [] \<longrightarrow> n < hd ns) \<longleftrightarrow> sorted_wrt (<) (n # ns)" for ns :: "int list"
      by (cases ns) fastforce+
    have "ascending_loop l lo hi i prev (map JNumber (x # xs)) = [] \<longleftrightarrow>
        (\<forall>u. prev = Some u \<longrightarrow> jnum_gt (JNumber x) u) \<and>
        ascending_loop l lo hi (Suc i) (Some (JNumber x)) (map JNumber xs) = []"
      using True by (cases prev) auto
    also have "\<dots> \<longleftrightarrow> (\<forall>u. prev = Some u \<longrightarrow> jnum_gt (JNumber (fin_int n)) u) \<and>
        (\<exists>ns. xs = map fin_int ns \<and> (\<forall>n \<in> set ns. lo \<le> n \<and> n \<le> hi) \<and> sorted_wrt (<) (n # ns))"
      unfolding Cons.IH n(1) using srt by (auto simp: gt)
    also have "\<dots> \<longleftrightarrow> (\<exists>ns. x # xs = map fin_int ns \<and> (\<forall>n \<in> set ns. lo \<le> n \<and> n \<le> hi) \<and> sorted_wrt (<) ns \<and>
        (\<forall>u. prev = Some u \<longrightarrow> ns \<noteq> [] \<longrightarrow> jnum_gt (JNumber (fin_int (hd ns))) u))"
      (is "?L \<longleftrightarrow> ?R")
    proof
      assume ?L
      then obtain ns where "xs = map fin_int ns" "\<forall>n \<in> set ns. lo \<le> n \<and> n \<le> hi" "sorted_wrt (<) (n # ns)"
        "\<forall>u. prev = Some u \<longrightarrow> jnum_gt (JNumber (fin_int n)) u" by blast
      with n show ?R by (intro exI [of _ "n # ns"]) auto
    next
      assume ?R
      then obtain ms where "x # xs = map fin_int ms \<and> (\<forall>n \<in> set ms. lo \<le> n \<and> n \<le> hi) \<and> sorted_wrt (<) ms \<and>
        (\<forall>u. prev = Some u \<longrightarrow> ms \<noteq> [] \<longrightarrow> jnum_gt (JNumber (fin_int (hd ms))) u)" ..
      with n show ?L by (cases ms) auto
    qed
    finally show ?thesis .
  qed
qed

lemma validateAscendingSet_iff:
  "validateAscendingSet l (JArray (map JNumber xs)) 0 hi = [] \<longleftrightarrow> wf_set hi xs"
  by (auto simp: validateAscendingSet_def wf_set_def ascending_loop_Nil_iff)

lemma rule_of_js_rule: "wf_rule r \<Longrightarrow> rule_of_js (rule_js r) = r"
  by (cases r) (auto simp: rule_of_js_def)

lemma options_loop_Nil_iff:
  assumes "\<forall>r \<in> set rs. proper_rule r"
  shows "options_loop l i seen (map rule_js rs) = [] \<longleftrightarrow>
    (\<forall>r \<in> set rs. wf_rule r \<and> retentionRuleIdentity r \<notin> set seen) \<and> distinct rs"
  using assms
proof (induction rs arbitrary: i seen)
  case Nil
  then show ?case by simp
next
  case (Cons r rs)
  have p: "proper_rule r" "\<forall>r \<in> set rs. proper_rule r" using Cons.prems by auto
  have inj: "s \<in> set rs \<Longrightarrow> retentionRuleIdentity s = retentionRuleIdentity r \<longleftrightarrow> s = r" for s
    using p by (intro identity_inject) auto
  show ?case
    using validate_rule_js [OF p(1)] Cons.IH [OF p(2)] inj
    by (auto simp: Let_def rule_of_js_rule)
qed

lemma validateRetentionOptions_iff:
  assumes "\<forall>r \<in> set rs. proper_rule r"
  shows "validateRetentionOptions l (JArray (map rule_js rs)) = [] \<longleftrightarrow> wf_options rs"
  using options_loop_Nil_iff [OF assms] by (auto simp: validateRetentionOptions_def wf_options_def)

lemma window_errors_iff:
  "window_errors (JObject ps) b = [] \<longleftrightarrow> wf_windows free dispute harm appeal days"
  if "jprop (JObject ps) ''rescheduleFreeCountBeforeCutoff'' = JNumber free"
    "jprop (JObject ps) ''disputeWindowHours'' = JNumber dispute"
    "jprop (JObject ps) ''bodilyHarmWindowHours'' = js_opt JNumber harm"
    "jprop (JObject ps) ''appealWindowHours'' = JNumber appeal"
    "jprop (JObject ps) ''caseFileRetentionDays'' = js_opt JNumber days"
proof -
  have c: "(if b then whole_in_range (JNumber dispute) 1 MAX_OUTCOME_HOURS else isInteger dispute) = True"
    if "isWholeInRange dispute 1 MAX_OUTCOME_HOURS"
    using that by (simp add: isWholeInRange_def)
  have g: "jnum_gt (JNumber (fin_int n)) (JNumber (fin_int m)) \<longleftrightarrow> m < n" for m n
    by (simp add: jnum_gt_def fin_int_def)
  show ?thesis
  proof (cases harm)
    case None
    with that show ?thesis
      by (cases days) (auto simp: window_errors_def wf_windows_def js_opt_def)
  next
    case (Some h)
    show ?thesis
    proof (cases "isWholeInRange h 1 MAX_OUTCOME_HOURS \<and> isWholeInRange dispute 1 MAX_OUTCOME_HOURS")
      case True
      then obtain m n where "h = fin_int m" "dispute = fin_int n" by (auto simp: isWholeInRange_iff)
      with that Some True c show ?thesis
        by (cases days) (auto simp: window_errors_def wf_windows_def js_opt_def g)
    next
      case False
      with that Some show ?thesis
        by (cases days) (auto simp: window_errors_def wf_windows_def js_opt_def)
    qed
  qed
qed

section \<open>Selection, terms, snapshot, acceptance\<close>

record outcome_selection =
  os_cutoffHours :: jsnum
  os_lateCancellationRetention :: retention_rule
  os_noShowGraceMinutes :: jsnum
  os_noShowRetention :: retention_rule

record allowed_members =
  am_cutoffHours :: "jsnum list"
  am_lateCancellationRetention :: "retention_rule list"
  am_noShowGraceMinutes :: "jsnum list"
  am_noShowRetention :: "retention_rule list"

record outcome_terms = outcome_selection +
  ot_rescheduleFreeCount :: jsnum
  ot_disputeWindowHours :: jsnum
  ot_bodilyHarmWindowHours :: "jsnum option"
  ot_appealWindowHours :: jsnum
  ot_caseFileRetentionDays :: "jsnum option"
  ot_legalCap :: "retention_rule option"

record outcome_acceptance =
  oa_policyKey :: string
  oa_policyVersion :: jsnum
  oa_copyKey :: string
  oa_copyVersion :: jsnum

record outcome_snapshot = outcome_acceptance +
  on_resolvedAt :: string
  on_legalEvidenceId :: "string option"
  on_terms :: outcome_terms

definition exactKeys :: "jsval \<Rightarrow> string list \<Rightarrow> string \<Rightarrow> contract_error list" where
  "exactKeys v allowed label = map (UnknownField label) (filter (\<lambda>k. k \<notin> set allowed) (obj_keys v))"

definition SELECTION_KEYS :: "string list" where
  "SELECTION_KEYS = [''cutoffHours'', ''lateCancellationRetention'', ''noShowGraceMinutes'', ''noShowRetention'']"

definition validateBookingOutcomeSelectionV1 :: "jsval \<Rightarrow> contract_error list" where
  "validateBookingOutcomeSelectionV1 v =
    (if \<not> is_object v then [MustBeObject ''selection'']
     else exactKeys v SELECTION_KEYS ''selection''
        @ (if \<not> whole_in_range (jprop v ''cutoffHours'') 0 MAX_OUTCOME_HOURS then [FieldRange ''cutoffHours''] else [])
        @ (if \<not> whole_in_range (jprop v ''noShowGraceMinutes'') 0 MAX_OUTCOME_GRACE_MINUTES
           then [FieldRange ''noShowGraceMinutes''] else [])
        @ validateBookingOutcomeRetentionRule (jprop v ''lateCancellationRetention'') ''lateCancellationRetention''
        @ validateBookingOutcomeRetentionRule (jprop v ''noShowRetention'') ''noShowRetention'')"

definition selectionOutsideAllowed :: "outcome_selection \<Rightarrow> allowed_members \<Rightarrow> string list" where
  "selectionOutsideAllowed s a =
    (if os_cutoffHours s \<notin> set (am_cutoffHours a) then [''cutoffHours''] else [])
  @ (if os_noShowGraceMinutes s \<notin> set (am_noShowGraceMinutes a) then [''noShowGraceMinutes''] else [])
  @ (if list_ex (\<lambda>r. retentionRuleIdentity r = retentionRuleIdentity (os_lateCancellationRetention s))
        (am_lateCancellationRetention a) then [] else [''lateCancellationRetention''])
  @ (if list_ex (\<lambda>r. retentionRuleIdentity r = retentionRuleIdentity (os_noShowRetention s))
        (am_noShowRetention a) then [] else [''noShowRetention''])"

text \<open>\<open>===\<close> on numbers: not-a-number equals nothing.\<close>

definition js_same :: "jsnum \<Rightarrow> jsnum \<Rightarrow> bool" where
  "js_same a b \<longleftrightarrow> a = b \<and> a \<noteq> JNaN"

definition sameOutcomeSelection :: "outcome_selection \<Rightarrow> outcome_selection \<Rightarrow> bool" where
  "sameOutcomeSelection a b \<longleftrightarrow>
    js_same (os_cutoffHours a) (os_cutoffHours b) \<and>
    js_same (os_noShowGraceMinutes a) (os_noShowGraceMinutes b) \<and>
    retentionRuleIdentity (os_lateCancellationRetention a) = retentionRuleIdentity (os_lateCancellationRetention b) \<and>
    retentionRuleIdentity (os_noShowRetention a) = retentionRuleIdentity (os_noShowRetention b)"

definition TERMS_KEYS :: "string list" where
  "TERMS_KEYS = SELECTION_KEYS @ [''contractVersion'', ''rescheduleFreeCountBeforeCutoff'', ''disputeWindowHours'',
     ''bodilyHarmWindowHours'', ''appealWindowHours'', ''caseFileRetentionDays'', ''legalCap'']"

definition terms_cap_errors :: "jsval \<Rightarrow> contract_error list" where
  "terms_cap_errors c =
    (if c = JNull then []
     else let problems = validateBookingOutcomeRetentionRule c ''legalCap''
          in problems
           @ (if problems = [] \<and> jprop c ''kind'' = JString ''none'' then [CapOfKindNone] else []))"

definition validateBookingOutcomeTermsV1 :: "jsval \<Rightarrow> contract_error list" where
  "validateBookingOutcomeTermsV1 v =
    (if \<not> is_object v then [MustBeObject ''terms'']
     else exactKeys v TERMS_KEYS ''terms''
        @ validateBookingOutcomeSelectionV1 (JObject (map (\<lambda>k. (k, jprop v k)) SELECTION_KEYS))
        @ contract_version_errors v
        @ window_errors v True
        @ terms_cap_errors (jprop v ''legalCap''))"

text \<open>The three regular expressions, as one character class per position.\<close>

definition is_digit :: "char \<Rightarrow> bool" where "is_digit c \<longleftrightarrow> digit_val c \<noteq> None"
definition is_alpha :: "char \<Rightarrow> bool" where
  "is_alpha c \<longleftrightarrow> (let n = of_char c :: nat in 65 \<le> n \<and> n \<le> 90 \<or> 97 \<le> n \<and> n \<le> 122)"
definition is_hex :: "char \<Rightarrow> bool" where
  "is_hex c \<longleftrightarrow> is_digit c \<or> (let n = of_char c :: nat in 65 \<le> n \<and> n \<le> 70 \<or> 97 \<le> n \<and> n \<le> 102)"

definition BOOKING_OUTCOME_KEY_PATTERN :: "string \<Rightarrow> bool" where
  "BOOKING_OUTCOME_KEY_PATTERN s =
    (case s of [] \<Rightarrow> False
     | c # cs \<Rightarrow> is_alpha c \<and> length cs \<le> 63 \<and>
         list_all (\<lambda>d. is_alpha d \<or> is_digit d \<or> d = CHR ''_'' \<or> d = CHR ''-'') cs)"

definition UUID_PATTERN :: "string \<Rightarrow> bool" where
  "UUID_PATTERN s =
    list_all2 (\<lambda>p c. p c)
      (replicate 8 is_hex @ [(=) (CHR ''-'')] @ replicate 4 is_hex @ [(=) (CHR ''-'')] @ replicate 4 is_hex
       @ [(=) (CHR ''-'')] @ replicate 4 is_hex @ [(=) (CHR ''-'')] @ replicate 12 is_hex) s"

definition ISO_INSTANT_PATTERN :: "string \<Rightarrow> bool" where
  "ISO_INSTANT_PATTERN s =
    (list_all2 (\<lambda>p c. p c)
      (replicate 4 is_digit @ [(=) (CHR ''-'')] @ replicate 2 is_digit @ [(=) (CHR ''-'')] @ replicate 2 is_digit
       @ [(=) (CHR ''T'')] @ replicate 2 is_digit @ [(=) (CHR '':'')] @ replicate 2 is_digit
       @ [(=) (CHR '':'')] @ replicate 2 is_digit) (take 19 s)
     \<and> (let r = drop 19 s in
         r = ''Z'' \<or> (case r of
           c # cs \<Rightarrow> c = CHR ''.'' \<and> 2 \<le> length cs \<and> length cs \<le> 7 \<and> last cs = CHR ''Z'' \<and> list_all is_digit (butlast cs)
         | [] \<Rightarrow> False)))"

definition validateIdentity :: "jsval \<Rightarrow> contract_error list" where
  "validateIdentity v =
    (if \<not> (case jprop v ''policyKey'' of JString s \<Rightarrow> BOOKING_OUTCOME_KEY_PATTERN s | _ \<Rightarrow> False) then [BadKey ''policyKey''] else [])
  @ (if \<not> whole_in_range (jprop v ''policyVersion'') 1 2147483647 then [BadVersion ''policyVersion''] else [])
  @ (if \<not> (case jprop v ''copyKey'' of JString s \<Rightarrow> BOOKING_OUTCOME_KEY_PATTERN s | _ \<Rightarrow> False) then [BadKey ''copyKey''] else [])
  @ (if \<not> whole_in_range (jprop v ''copyVersion'') 1 2147483647 then [BadVersion ''copyVersion''] else [])"

definition SNAPSHOT_KEYS :: "string list" where
  "SNAPSHOT_KEYS = [''policyKey'', ''policyVersion'', ''copyKey'', ''copyVersion'', ''resolvedAt'', ''legalEvidenceId'', ''terms'']"

definition validateBookingOutcomeSnapshotV1 :: "jsval \<Rightarrow> contract_error list" where
  "validateBookingOutcomeSnapshotV1 v =
    (if \<not> is_object v then [MustBeObject ''snapshot'']
     else exactKeys v SNAPSHOT_KEYS ''snapshot''
        @ validateIdentity v
        @ (if \<not> (case jprop v ''resolvedAt'' of JString s \<Rightarrow> ISO_INSTANT_PATTERN s | _ \<Rightarrow> False) then [BadInstant ''resolvedAt''] else [])
        @ validateBookingOutcomeTermsV1 (jprop v ''terms'')
        @ (let cap = jprop (jprop v ''terms'') ''legalCap''; hasCap = (cap \<noteq> JNull \<and> cap \<noteq> JUndefined)
           in if jprop v ''legalEvidenceId'' = JNull then (if hasCap then [CapNeedsEvidence] else [])
              else if \<not> (case jprop v ''legalEvidenceId'' of JString s \<Rightarrow> UUID_PATTERN s | _ \<Rightarrow> False) then [BadEvidenceId]
              else if \<not> hasCap then [EvidenceNeedsCap] else []))"

definition ACCEPTANCE_KEYS :: "string list" where
  "ACCEPTANCE_KEYS = [''policyKey'', ''policyVersion'', ''copyKey'', ''copyVersion'']"

definition validateBookingOutcomeAcceptanceV1 :: "jsval \<Rightarrow> contract_error list" where
  "validateBookingOutcomeAcceptanceV1 v =
    (if \<not> is_object v then [MustBeObject ''acceptedPolicy'']
     else exactKeys v ACCEPTANCE_KEYS ''acceptedPolicy'' @ validateIdentity v)"

definition acceptanceFor :: "outcome_snapshot \<Rightarrow> outcome_acceptance" where
  "acceptanceFor s = \<lparr>oa_policyKey = oa_policyKey s, oa_policyVersion = oa_policyVersion s,
     oa_copyKey = oa_copyKey s, oa_copyVersion = oa_copyVersion s\<rparr>"

definition acceptanceMatches :: "outcome_acceptance \<Rightarrow> outcome_snapshot \<Rightarrow> bool" where
  "acceptanceMatches a s \<longleftrightarrow>
     oa_policyKey a = oa_policyKey s \<and> js_same (oa_policyVersion a) (oa_policyVersion s) \<and>
     oa_copyKey a = oa_copyKey s \<and> js_same (oa_copyVersion a) (oa_copyVersion s)"

section \<open>Encoders and what the validators accept\<close>

definition selection_js :: "outcome_selection \<Rightarrow> jsval" where
  "selection_js s = JObject
    [(''cutoffHours'', JNumber (os_cutoffHours s)),
     (''lateCancellationRetention'', rule_js (os_lateCancellationRetention s)),
     (''noShowGraceMinutes'', JNumber (os_noShowGraceMinutes s)),
     (''noShowRetention'', rule_js (os_noShowRetention s))]"

definition terms_js :: "outcome_terms \<Rightarrow> jsval" where
  "terms_js t = JObject
    [(''cutoffHours'', JNumber (os_cutoffHours t)),
     (''lateCancellationRetention'', rule_js (os_lateCancellationRetention t)),
     (''noShowGraceMinutes'', JNumber (os_noShowGraceMinutes t)),
     (''noShowRetention'', rule_js (os_noShowRetention t)),
     (''contractVersion'', JNumber (fin_int 1)),
     (''rescheduleFreeCountBeforeCutoff'', JNumber (ot_rescheduleFreeCount t)),
     (''disputeWindowHours'', JNumber (ot_disputeWindowHours t)),
     (''bodilyHarmWindowHours'', js_opt JNumber (ot_bodilyHarmWindowHours t)),
     (''appealWindowHours'', JNumber (ot_appealWindowHours t)),
     (''caseFileRetentionDays'', js_opt JNumber (ot_caseFileRetentionDays t)),
     (''legalCap'', js_opt rule_js (ot_legalCap t))]"

definition snapshot_js :: "outcome_snapshot \<Rightarrow> jsval" where
  "snapshot_js s = JObject
    [(''policyKey'', JString (oa_policyKey s)), (''policyVersion'', JNumber (oa_policyVersion s)),
     (''copyKey'', JString (oa_copyKey s)), (''copyVersion'', JNumber (oa_copyVersion s)),
     (''resolvedAt'', JString (on_resolvedAt s)),
     (''legalEvidenceId'', js_opt JString (on_legalEvidenceId s)),
     (''terms'', terms_js (on_terms s))]"

definition wf_selection :: "outcome_selection \<Rightarrow> bool" where
  "wf_selection s \<longleftrightarrow> isWholeInRange (os_cutoffHours s) 0 MAX_OUTCOME_HOURS \<and>
     isWholeInRange (os_noShowGraceMinutes s) 0 MAX_OUTCOME_GRACE_MINUTES \<and>
     wf_rule (os_lateCancellationRetention s) \<and> wf_rule (os_noShowRetention s)"

definition proper_selection :: "('a) outcome_selection_scheme \<Rightarrow> bool" where
  "proper_selection s \<longleftrightarrow> proper_rule (os_lateCancellationRetention s) \<and> proper_rule (os_noShowRetention s)"

definition wf_terms :: "outcome_terms \<Rightarrow> bool" where
  "wf_terms t \<longleftrightarrow> wf_selection (outcome_selection.truncate t) \<and>
     wf_windows (ot_rescheduleFreeCount t) (ot_disputeWindowHours t) (ot_bodilyHarmWindowHours t)
       (ot_appealWindowHours t) (ot_caseFileRetentionDays t) \<and>
     wf_cap (ot_legalCap t)"

definition proper_terms :: "outcome_terms \<Rightarrow> bool" where
  "proper_terms t \<longleftrightarrow> proper_selection t \<and> (\<forall>r. ot_legalCap t = Some r \<longrightarrow> proper_rule r)"

definition members_of :: "policy_version_terms \<Rightarrow> allowed_members" where
  "members_of t = \<lparr>am_cutoffHours = pv_cutoffHoursAllowed t,
     am_lateCancellationRetention = pv_lateRetentionOptions t,
     am_noShowGraceMinutes = pv_noShowGraceMinutesAllowed t,
     am_noShowRetention = pv_noShowRetentionOptions t\<rparr>"

lemma rule_js_not_null [simp]: "rule_js r \<noteq> JNull" "rule_js r \<noteq> JUndefined"
  by (cases r; simp)+

lemma kind_rule_js: "proper_rule r \<Longrightarrow> jprop (rule_js r) ''kind'' = JString ''none'' \<longleftrightarrow> r = NoRetention"
  by (cases r) (auto simp: proper_rule_def retention_kinds_def)

lemma policy_version_iff:
  assumes "\<forall>r \<in> set (pv_lateRetentionOptions t). proper_rule r" "\<forall>r \<in> set (pv_noShowRetentionOptions t). proper_rule r"
    "\<forall>r. pv_legalCap t = Some r \<longrightarrow> proper_rule r"
  shows "validateBookingOutcomePolicyVersionTermsV1 (policy_version_js t) = [] \<longleftrightarrow> wf_policy_version t"
proof -
  have w: "window_errors (policy_version_js t) False = [] \<longleftrightarrow>
      wf_windows (pv_rescheduleFreeCount t) (pv_disputeWindowHours t) (pv_bodilyHarmWindowHours t)
        (pv_appealWindowHours t) (pv_caseFileRetentionDays t)"
    unfolding policy_version_js_def by (rule window_errors_iff) simp_all
  have c: "version_cap_errors (js_opt rule_js (pv_legalCap t)) = [] \<longleftrightarrow> wf_cap (pv_legalCap t)"
    using assms(3) by (cases "pv_legalCap t")
      (auto simp: version_cap_errors_def js_opt_def wf_cap_def validate_rule_js kind_rule_js)
  have j: "jprop (policy_version_js t) ''cutoffHoursAllowed'' = JArray (map JNumber (pv_cutoffHoursAllowed t))"
    "jprop (policy_version_js t) ''lateRetentionOptions'' = JArray (map rule_js (pv_lateRetentionOptions t))"
    "jprop (policy_version_js t) ''noShowGraceMinutesAllowed'' = JArray (map JNumber (pv_noShowGraceMinutesAllowed t))"
    "jprop (policy_version_js t) ''noShowRetentionOptions'' = JArray (map rule_js (pv_noShowRetentionOptions t))"
    "jprop (policy_version_js t) ''legalCap'' = js_opt rule_js (pv_legalCap t)"
    "jprop (policy_version_js t) ''contractVersion'' = JNumber (fin_int 1)" "is_object (policy_version_js t)"
    by (simp_all add: policy_version_js_def is_object_def)
  show ?thesis
    unfolding validateBookingOutcomePolicyVersionTermsV1_def wf_policy_version_def contract_version_errors_def
    by (simp add: j w c validateAscendingSet_iff
        validateRetentionOptions_iff [OF assms(1)] validateRetentionOptions_iff [OF assms(2)])
qed

lemma selection_iff:
  assumes "proper_selection s"
  shows "validateBookingOutcomeSelectionV1 (selection_js s) = [] \<longleftrightarrow> wf_selection s"
  using assms by (auto simp: validateBookingOutcomeSelectionV1_def selection_js_def is_object_def exactKeys_def
      obj_keys_def SELECTION_KEYS_def wf_selection_def proper_selection_def validate_rule_js)

lemma terms_selection:
  "JObject (map (\<lambda>k. (k, jprop (terms_js t) k)) SELECTION_KEYS) = selection_js (outcome_selection.truncate t)"
  by (simp add: SELECTION_KEYS_def terms_js_def selection_js_def outcome_selection.truncate_def)

lemma terms_iff:
  assumes "proper_terms t"
  shows "validateBookingOutcomeTermsV1 (terms_js t) = [] \<longleftrightarrow> wf_terms t"
proof -
  have w: "window_errors (terms_js t) True = [] \<longleftrightarrow>
      wf_windows (ot_rescheduleFreeCount t) (ot_disputeWindowHours t) (ot_bodilyHarmWindowHours t)
        (ot_appealWindowHours t) (ot_caseFileRetentionDays t)"
    unfolding terms_js_def by (rule window_errors_iff) simp_all
  have c: "terms_cap_errors (js_opt rule_js (ot_legalCap t)) = [] \<longleftrightarrow> wf_cap (ot_legalCap t)"
    using assms by (cases "ot_legalCap t")
      (auto simp: terms_cap_errors_def js_opt_def wf_cap_def validate_rule_js kind_rule_js proper_terms_def Let_def)
  have p: "proper_selection (outcome_selection.truncate t)"
    using assms by (simp add: proper_terms_def proper_selection_def outcome_selection.truncate_def)
  have j: "jprop (terms_js t) ''legalCap'' = js_opt rule_js (ot_legalCap t)" "is_object (terms_js t)"
    "contract_version_errors (terms_js t) = []" "exactKeys (terms_js t) TERMS_KEYS ''terms'' = []"
    by (simp_all add: terms_js_def is_object_def contract_version_errors_def exactKeys_def obj_keys_def
        TERMS_KEYS_def SELECTION_KEYS_def)
  show ?thesis
    unfolding validateBookingOutcomeTermsV1_def terms_selection
    by (simp add: j w c selection_iff [OF p] wf_terms_def)
qed

text \<open>What a snapshot must be: well-formed identifiers, an instant, well-formed terms, and evidence
  exactly when there is a cap.\<close>

definition wf_identity :: "('a) outcome_acceptance_scheme \<Rightarrow> bool" where
  "wf_identity a \<longleftrightarrow> BOOKING_OUTCOME_KEY_PATTERN (oa_policyKey a) \<and> isWholeInRange (oa_policyVersion a) 1 2147483647 \<and>
     BOOKING_OUTCOME_KEY_PATTERN (oa_copyKey a) \<and> isWholeInRange (oa_copyVersion a) 1 2147483647"

definition wf_snapshot :: "outcome_snapshot \<Rightarrow> bool" where
  "wf_snapshot s \<longleftrightarrow> wf_identity s \<and> ISO_INSTANT_PATTERN (on_resolvedAt s) \<and> wf_terms (on_terms s) \<and>
     (case on_legalEvidenceId s of None \<Rightarrow> ot_legalCap (on_terms s) = None
      | Some e \<Rightarrow> UUID_PATTERN e \<and> ot_legalCap (on_terms s) \<noteq> None)"

lemma snapshot_iff:
  assumes "proper_terms (on_terms s)"
  shows "validateBookingOutcomeSnapshotV1 (snapshot_js s) = [] \<longleftrightarrow> wf_snapshot s"
proof -
  have j: "jprop (snapshot_js s) ''terms'' = terms_js (on_terms s)" "is_object (snapshot_js s)"
    "jprop (snapshot_js s) ''legalEvidenceId'' = js_opt JString (on_legalEvidenceId s)"
    "jprop (snapshot_js s) ''resolvedAt'' = JString (on_resolvedAt s)"
    "exactKeys (snapshot_js s) SNAPSHOT_KEYS ''snapshot'' = []"
    "jprop (terms_js (on_terms s)) ''legalCap'' = js_opt rule_js (ot_legalCap (on_terms s))"
    by (simp_all add: snapshot_js_def is_object_def exactKeys_def obj_keys_def SNAPSHOT_KEYS_def terms_js_def)
  have i: "validateIdentity (snapshot_js s) = [] \<longleftrightarrow> wf_identity s"
    by (simp add: validateIdentity_def snapshot_js_def wf_identity_def)
  show ?thesis
    unfolding validateBookingOutcomeSnapshotV1_def
    by (cases "ot_legalCap (on_terms s)"; cases "on_legalEvidenceId s")
       (simp_all add: j i terms_iff [OF assms] wf_snapshot_def js_opt_def Let_def)
qed

lemma find_identity:
  assumes "\<forall>r \<in> set rs. wf_rule r" "proper_rule s"
  shows "list_ex (\<lambda>r. retentionRuleIdentity r = retentionRuleIdentity s) rs \<longleftrightarrow> s \<in> set rs"
proof -
  have "retentionRuleIdentity r = retentionRuleIdentity s \<longleftrightarrow> r = s" if "r \<in> set rs" for r
    using assms that wf_proper by (intro identity_inject) auto
  then show ?thesis by (auto simp: list_ex_iff)
qed

section \<open>Properties\<close>

text \<open>The policy-version validator accepts exactly the publishable families: non-empty, strictly
  ascending whole-number sets in range, duplicate-free valid options, consistent windows, and a cap
  that is absent or a valid rule other than \<open>none\<close>. Nothing else passes and nothing publishable is
  refused.\<close>

theorem policy_version_accepted_iff:
  assumes "list_all proper_rule (pv_lateRetentionOptions t)" "list_all proper_rule (pv_noShowRetentionOptions t)"
    "case pv_legalCap t of None \<Rightarrow> True | Some r \<Rightarrow> proper_rule r"
  shows "validateBookingOutcomePolicyVersionTermsV1 (policy_version_js t) = [] \<longleftrightarrow> wf_policy_version t"
  using assms by (intro policy_version_iff) (auto simp: list_all_iff)

theorem policy_version_accepted_iff_witness:
  "validateBookingOutcomePolicyVersionTermsV1 (policy_version_js
     \<lparr>pv_cutoffHoursAllowed = [fin_int 12, fin_int 24], pv_lateRetentionOptions = [NoRetention, PercentageOfCollected (fin_int 5000)],
      pv_noShowGraceMinutesAllowed = [fin_int 15], pv_noShowRetentionOptions = [FullCollected],
      pv_rescheduleFreeCount = fin_int 1, pv_disputeWindowHours = fin_int 48, pv_bodilyHarmWindowHours = None,
      pv_appealWindowHours = fin_int 24, pv_caseFileRetentionDays = None, pv_legalCap = Some NoRetention\<rparr>) \<noteq> []"
proof -
  let ?t = "\<lparr>pv_cutoffHoursAllowed = [fin_int 12, fin_int 24], pv_lateRetentionOptions = [NoRetention, PercentageOfCollected (fin_int 5000)],
      pv_noShowGraceMinutesAllowed = [fin_int 15], pv_noShowRetentionOptions = [FullCollected],
      pv_rescheduleFreeCount = fin_int 1, pv_disputeWindowHours = fin_int 48, pv_bodilyHarmWindowHours = None,
      pv_appealWindowHours = fin_int 24, pv_caseFileRetentionDays = None, pv_legalCap = Some NoRetention\<rparr>"
  have "\<not> wf_policy_version ?t" by (simp add: wf_policy_version_def wf_cap_def)
  with policy_version_accepted_iff [of ?t] show ?thesis by (simp add: proper_rule_def)
qed

text \<open>The terms of an order: the seller's selection with the family's fixed windows and cap.\<close>

definition order_terms :: "policy_version_terms \<Rightarrow> outcome_selection \<Rightarrow> outcome_terms" where
  "order_terms t s = outcome_selection.extend s
     \<lparr>ot_rescheduleFreeCount = pv_rescheduleFreeCount t, ot_disputeWindowHours = pv_disputeWindowHours t,
      ot_bodilyHarmWindowHours = pv_bodilyHarmWindowHours t, ot_appealWindowHours = pv_appealWindowHours t,
      ot_caseFileRetentionDays = pv_caseFileRetentionDays t, ot_legalCap = pv_legalCap t\<rparr>"

text \<open>A seller's selection inside a published family is a valid selection, and the terms an order
  records from the two, with the family's windows and cap, pass the order's own validator: what one
  contract lets through the next accepts.\<close>

theorem selection_inside_family_valid:
  assumes "validateBookingOutcomePolicyVersionTermsV1 (policy_version_js t) = []"
    "list_all proper_rule (pv_lateRetentionOptions t)" "list_all proper_rule (pv_noShowRetentionOptions t)"
    "case pv_legalCap t of None \<Rightarrow> True | Some r \<Rightarrow> proper_rule r"
    "proper_selection s" "selectionOutsideAllowed s (members_of t) = []"
  shows "validateBookingOutcomeSelectionV1 (selection_js s) = [] \<and>
    validateBookingOutcomeTermsV1 (terms_js (order_terms t s)) = []"
proof -
  have wf: "wf_policy_version t"
    using assms(1-4) policy_version_iff [of t] by (auto simp: list_all_iff split: option.splits)
  have o: "\<forall>r \<in> set (pv_lateRetentionOptions t). wf_rule r" "\<forall>r \<in> set (pv_noShowRetentionOptions t). wf_rule r"
    using wf by (auto simp: wf_policy_version_def wf_options_def)
  have m: "os_cutoffHours s \<in> set (pv_cutoffHoursAllowed t)" "os_noShowGraceMinutes s \<in> set (pv_noShowGraceMinutesAllowed t)"
    "os_lateCancellationRetention s \<in> set (pv_lateRetentionOptions t)" "os_noShowRetention s \<in> set (pv_noShowRetentionOptions t)"
    using assms(5,6) find_identity [OF o(1)] find_identity [OF o(2)]
    by (auto simp: selectionOutsideAllowed_def members_of_def proper_selection_def split: if_splits)
  have s: "wf_selection s"
    using m o wf by (auto simp: wf_selection_def wf_policy_version_def wf_set_def)
  have e: "outcome_selection.truncate (order_terms t s) = s"
    "wf_terms (order_terms t s) \<longleftrightarrow> wf_selection s \<and> wf_windows (pv_rescheduleFreeCount t) (pv_disputeWindowHours t)
       (pv_bodilyHarmWindowHours t) (pv_appealWindowHours t) (pv_caseFileRetentionDays t) \<and> wf_cap (pv_legalCap t)"
    by (cases s; simp add: order_terms_def wf_terms_def outcome_selection.truncate_def outcome_selection.extend_def)+
  have p: "proper_terms (order_terms t s)"
    using assms(4,5) by (auto simp: proper_terms_def order_terms_def proper_selection_def outcome_selection.extend_def
        split: option.splits)
  show ?thesis
    using s e wf selection_iff [OF assms(5)] terms_iff [OF p] by (simp add: wf_policy_version_def)
qed

theorem selection_inside_family_valid_witness:
  "let t = \<lparr>pv_cutoffHoursAllowed = [fin_int 12, fin_int 24], pv_lateRetentionOptions = [NoRetention, PercentageOfCollected (fin_int 5000)],
      pv_noShowGraceMinutesAllowed = [fin_int 15], pv_noShowRetentionOptions = [FullCollected],
      pv_rescheduleFreeCount = fin_int 1, pv_disputeWindowHours = fin_int 48, pv_bodilyHarmWindowHours = None,
      pv_appealWindowHours = fin_int 24, pv_caseFileRetentionDays = None, pv_legalCap = None\<rparr>;
     s = \<lparr>os_cutoffHours = fin_int 24, os_lateCancellationRetention = PercentageOfCollected (fin_int 5000),
      os_noShowGraceMinutes = fin_int 15, os_noShowRetention = FullCollected\<rparr>
   in validateBookingOutcomeSelectionV1 (selection_js s) = [] \<and>
      validateBookingOutcomeTermsV1 (terms_js (order_terms t s)) = []"
  unfolding Let_def
proof (rule selection_inside_family_valid, goal_cases)
  case 1
  have "wf_set 8760 [fin_int 12, fin_int 24]" "wf_set 1440 [fin_int 15]"
    unfolding wf_set_def by (rule exI [of _ "[12, 24]"], simp add: outcome_bounds, rule exI [of _ "[15]"], simp add: outcome_bounds)
  then show ?case
    by (subst policy_version_iff)
       (auto simp: proper_rule_def wf_policy_version_def wf_options_def wf_windows_def wf_cap_def outcome_bounds)
qed (simp_all add: proper_rule_def proper_selection_def selectionOutsideAllowed_def members_of_def)

text \<open>A valid snapshot carries a Legal evidence reference exactly when it carries a cap, and the only
  acceptance a customer can send that matches it is its own four identifiers.\<close>

theorem snapshot_acceptance:
  assumes "proper_terms (on_terms s)" "validateBookingOutcomeSnapshotV1 (snapshot_js s) = []"
  shows "(on_legalEvidenceId s = None \<longleftrightarrow> ot_legalCap (on_terms s) = None) \<and>
    (acceptanceMatches a s \<longleftrightarrow> a = acceptanceFor s)"
proof -
  have wf: "wf_snapshot s" using assms snapshot_iff by blast
  then have "oa_policyVersion s \<noteq> JNaN" "oa_copyVersion s \<noteq> JNaN"
    by (auto simp: wf_snapshot_def wf_identity_def isWholeInRange_iff fin_int_def)
  then have "acceptanceMatches a s \<longleftrightarrow> a = acceptanceFor s"
    by (cases a) (auto simp: acceptanceMatches_def acceptanceFor_def js_same_def)
  with wf show ?thesis by (auto simp: wf_snapshot_def split: option.splits)
qed

theorem snapshot_acceptance_witness:
  "let s = \<lparr>oa_policyKey = ''standard'', oa_policyVersion = fin_int 2, oa_copyKey = ''fa'', oa_copyVersion = fin_int 1,
      on_resolvedAt = ''2026-09-15T10:00:00Z'', on_legalEvidenceId = None,
      on_terms = \<lparr>os_cutoffHours = fin_int 24, os_lateCancellationRetention = FullCollected,
        os_noShowGraceMinutes = fin_int 15, os_noShowRetention = FullCollected,
        ot_rescheduleFreeCount = fin_int 1, ot_disputeWindowHours = fin_int 48, ot_bodilyHarmWindowHours = None,
        ot_appealWindowHours = fin_int 24, ot_caseFileRetentionDays = None, ot_legalCap = None\<rparr>\<rparr>
   in \<not> acceptanceMatches (acceptanceFor s \<lparr>oa_copyVersion := fin_int 2\<rparr>) s"
proof -
  let ?s = "\<lparr>oa_policyKey = ''standard'', oa_policyVersion = fin_int 2, oa_copyKey = ''fa'', oa_copyVersion = fin_int 1,
      on_resolvedAt = ''2026-09-15T10:00:00Z'', on_legalEvidenceId = None,
      on_terms = \<lparr>os_cutoffHours = fin_int 24, os_lateCancellationRetention = FullCollected,
        os_noShowGraceMinutes = fin_int 15, os_noShowRetention = FullCollected,
        ot_rescheduleFreeCount = fin_int 1, ot_disputeWindowHours = fin_int 48, ot_bodilyHarmWindowHours = None,
        ot_appealWindowHours = fin_int 24, ot_caseFileRetentionDays = None, ot_legalCap = None\<rparr>\<rparr>"
  have p: "proper_terms (on_terms ?s)" by (simp add: proper_terms_def proper_selection_def proper_rule_def)
  have "wf_snapshot ?s"
    by (simp add: wf_snapshot_def wf_identity_def wf_terms_def wf_selection_def wf_windows_def wf_cap_def outcome_bounds
        outcome_selection.truncate_def BOOKING_OUTCOME_KEY_PATTERN_def is_alpha_def is_digit_def digit_val_def
        ISO_INSTANT_PATTERN_def numeral_eq_Suc Let_def)
  with snapshot_iff [OF p] have "validateBookingOutcomeSnapshotV1 (snapshot_js ?s) = []" by simp
  from snapshot_acceptance [OF p this] show ?thesis unfolding Let_def by (simp add: acceptanceFor_def)
qed

end
