(* ===== verification/Pricing.thy ===== *)
theory Pricing
  imports Money Outcome_Policy "HOL-Library.Multiset"
begin

text \<open>
  The pricing engine (\<open>services/commerce/src/pricing/pricing.service.ts\<close>, \<open>pricing.types.ts\<close>) and the one
  rule registered with it (\<open>apps/api/src/pricing/membership-discount.rule.ts\<close>). A rule is any function of
  the context and the running state: the engine trusts none of what it returns, so the amounts of its
  adjustments are arbitrary JavaScript numbers. What the collation of the host makes of two rule keys
  (\<open>localeCompare\<close>) is a parameter.
\<close>

section \<open>Numbers that a rule may return\<close>

fun js_add :: "jsnum \<Rightarrow> jsnum \<Rightarrow> jsnum" where
  "js_add (Fin p) (Fin q) = Fin (fl (p + q))"
| "js_add JNaN b = JNaN"
| "js_add a JNaN = JNaN"
| "js_add JPosInf b = (if b = JNegInf then JNaN else JPosInf)"
| "js_add JNegInf b = (if b = JPosInf then JNaN else JNegInf)"
| "js_add (Fin p) b = b"

fun js_neg :: "jsnum \<Rightarrow> jsnum" where
  "js_neg (Fin q) = Fin (- q)"
| "js_neg JNaN = JNaN"
| "js_neg JPosInf = JNegInf"
| "js_neg JNegInf = JPosInf"

section \<open>Types\<close>

datatype party_type = ProfessionalParty | BusinessParty

record pricing_line =
  pl_reference :: nat
  pl_name :: string
  pl_quantity :: jsnum
  pl_unitPrice :: jsnum

record pricing_context =
  px_customer :: nat
  px_sellerType :: party_type
  px_sellerId :: nat
  px_lines :: "pricing_line list"
  px_at :: int
  px_booking :: "nat option"

record pricing_state =
  ps_subtotal :: int
  ps_remaining :: jsnum
  ps_appliedRuleKeys :: "string list"

datatype adjustment_kind = AdjDiscount | AdjFee

record pricing_adjustment =
  pa_ruleKey :: string
  pa_kind :: adjustment_kind
  pa_code :: "string option"
  pa_label :: string
  pa_amount :: jsnum

datatype pricing_error =
    NoLines
  | InvalidQuantity nat
  | BadMoney money_error
  | ForeignRuleKey string string
  | PositiveDiscount string
  | NegativeFee string
  | RuleThrew string

record pricing_rule =
  pr_key :: string
  pr_priority :: int
  pr_evaluate :: "pricing_context \<Rightarrow> pricing_state \<Rightarrow> pricing_error + pricing_adjustment list"

record pricing_result =
  pq_subtotal :: int
  pq_adjustments :: "pricing_adjustment list"
  pq_discountTotal :: int
  pq_feeTotal :: int
  pq_total :: int

definition money :: "money_error + 'a \<Rightarrow> pricing_error + 'a" where
  "money r = (case r of Inl e \<Rightarrow> Inl (BadMoney e) | Inr x \<Rightarrow> Inr x)"

lemma money_simps [simp]: "money (Inl e) = Inl (BadMoney e)" "money (Inr x) = Inr x"
  by (simp_all add: money_def)

lemma money_Inr [simp]: "money r = Inr x \<longleftrightarrow> r = Inr x"
  by (cases r) auto

section \<open>The order of the rules\<close>

definition rule_before :: "(string \<Rightarrow> string \<Rightarrow> int) \<Rightarrow> pricing_rule \<Rightarrow> pricing_rule \<Rightarrow> bool" where
  "rule_before localeCompare a b \<longleftrightarrow>
    pr_priority a < pr_priority b \<or> pr_priority a = pr_priority b \<and> localeCompare (pr_key a) (pr_key b) \<le> 0"

fun insert_rule :: "(string \<Rightarrow> string \<Rightarrow> int) \<Rightarrow> pricing_rule \<Rightarrow> pricing_rule list \<Rightarrow> pricing_rule list" where
  "insert_rule lc a [] = [a]"
| "insert_rule lc a (b # bs) = (if rule_before lc a b then a # b # bs else b # insert_rule lc a bs)"

definition sort_rules :: "(string \<Rightarrow> string \<Rightarrow> int) \<Rightarrow> pricing_rule list \<Rightarrow> pricing_rule list" where
  "sort_rules lc rs = foldr (insert_rule lc) rs []"

definition ruleKeys :: "(string \<Rightarrow> string \<Rightarrow> int) \<Rightarrow> pricing_rule list \<Rightarrow> string list" where
  "ruleKeys lc rs = map pr_key (sort_rules lc rs)"

section \<open>The quote\<close>

definition line_total :: "pricing_line \<Rightarrow> pricing_error + jsnum" where
  "line_total l =
    (if \<not> isInteger (pl_quantity l) \<or> js_gt (Fin 1) (pl_quantity l) then Inl (InvalidQuantity (pl_reference l))
     else bind_res (money (assertNonNegativeAmount (pl_unitPrice l) ''unit price'')) (\<lambda>p.
       Inr (case pl_quantity l of Fin q \<Rightarrow> Fin (fl (of_int p * q)) | _ \<Rightarrow> JNaN)))"

fun line_totals :: "pricing_line list \<Rightarrow> pricing_error + jsnum list" where
  "line_totals [] = Inr []"
| "line_totals (l # ls) = bind_res (line_total l) (\<lambda>t. bind_res (line_totals ls) (\<lambda>ts. Inr (t # ts)))"

definition computeSubtotal :: "pricing_context \<Rightarrow> pricing_error + int" where
  "computeSubtotal ctx =
    (if px_lines ctx = [] then Inl NoLines
     else bind_res (line_totals (px_lines ctx)) (\<lambda>ts.
          bind_res (money (sumAmounts ts)) (\<lambda>s. money (assertNonNegativeAmount (Fin (of_int s)) ''order subtotal''))))"

definition normalize :: "pricing_rule \<Rightarrow> pricing_adjustment \<Rightarrow> jsnum \<Rightarrow> pricing_error + pricing_adjustment option" where
  "normalize rule adj remaining =
    (if pa_ruleKey adj \<noteq> pr_key rule then Inl (ForeignRuleKey (pr_key rule) (pa_ruleKey adj))
     else if pa_kind adj = AdjDiscount then
       (if js_gt (pa_amount adj) (Fin 0) then Inl (PositiveDiscount (pr_key rule))
        else bind_res (money (clampDiscount (js_neg (pa_amount adj)) remaining)) (\<lambda>clamped.
          if clamped \<le> 0 then Inr None else Inr (Some (adj\<lparr>pa_amount := Fin (of_int (- clamped))\<rparr>))))
     else if js_gt (Fin 0) (pa_amount adj) then Inl (NegativeFee (pr_key rule))
     else if pa_amount adj = Fin 0 then Inr None
     else Inr (Some adj))"

text \<open>The inner loop over one rule's adjustments and the outer loop over the rules, with the list applied so
  far and what remains.\<close>

fun apply_produced :: "pricing_rule \<Rightarrow> pricing_adjustment list \<Rightarrow> pricing_adjustment list \<Rightarrow> jsnum \<Rightarrow>
    pricing_error + pricing_adjustment list \<times> jsnum" where
  "apply_produced rule [] applied remaining = Inr (applied, remaining)"
| "apply_produced rule (adj # adjs) applied remaining =
    bind_res (normalize rule adj remaining) (\<lambda>n. case n of
      None \<Rightarrow> apply_produced rule adjs applied remaining
    | Some a \<Rightarrow> apply_produced rule adjs (applied @ [a]) (js_add remaining (pa_amount a)))"

fun apply_rules :: "pricing_context \<Rightarrow> int \<Rightarrow> pricing_rule list \<Rightarrow> pricing_adjustment list \<Rightarrow> jsnum \<Rightarrow>
    pricing_error + pricing_adjustment list \<times> jsnum" where
  "apply_rules ctx subtotal [] applied remaining = Inr (applied, remaining)"
| "apply_rules ctx subtotal (rule # rules) applied remaining =
    bind_res (pr_evaluate rule ctx \<lparr>ps_subtotal = subtotal, ps_remaining = remaining,
        ps_appliedRuleKeys = map pa_ruleKey applied\<rparr>) (\<lambda>produced.
    bind_res (apply_produced rule produced applied remaining) (\<lambda>(applied', remaining').
    apply_rules ctx subtotal rules applied' remaining'))"

definition quote :: "pricing_rule list \<Rightarrow> pricing_context \<Rightarrow> pricing_error + pricing_result" where
  "quote rules ctx =
    bind_res (computeSubtotal ctx) (\<lambda>subtotal.
    bind_res (apply_rules ctx subtotal rules [] (Fin (of_int subtotal))) (\<lambda>(applied, _).
    bind_res (money (sumAmounts (filter (\<lambda>x. js_gt (Fin 0) x) (map pa_amount applied)))) (\<lambda>d.
    bind_res (money (sumAmounts (filter (\<lambda>x. js_gt x (Fin 0)) (map pa_amount applied)))) (\<lambda>fee.
    bind_res (money (assertNonNegativeAmount (Fin (fl (fl (of_int subtotal - of_int \<bar>d\<bar>) + of_int fee))) ''order total'')) (\<lambda>t.
    Inr \<lparr>pq_subtotal = subtotal, pq_adjustments = applied, pq_discountTotal = \<bar>d\<bar>, pq_feeTotal = fee, pq_total = t\<rparr>)))))"

section \<open>The membership discount\<close>

definition MEMBERSHIP_RULE_KEY :: string where "MEMBERSHIP_RULE_KEY = ''loyalty.membership_discount''"

text \<open>\<open>Math.floor((subtotal * percentBp) / 10000)\<close> in doubles; \<open>discountPercentBp\<close> is the loyalty service's answer.\<close>

definition membership_amount :: "int \<Rightarrow> int \<Rightarrow> int" where
  "membership_amount subtotal percentBp = \<lfloor>fl (fl (of_int subtotal * of_int percentBp) / 10000)\<rfloor>"

definition membership_evaluate :: "(nat \<Rightarrow> pricing_error + int) \<Rightarrow> pricing_context \<Rightarrow> pricing_state \<Rightarrow>
    pricing_error + pricing_adjustment list" where
  "membership_evaluate discountPercentBp ctx st =
    bind_res (discountPercentBp (px_customer ctx)) (\<lambda>percentBp.
    if percentBp \<le> 0 then Inr []
    else let amount = membership_amount (ps_subtotal st) percentBp in
      if amount \<le> 0 then Inr []
      else Inr [\<lparr>pa_ruleKey = MEMBERSHIP_RULE_KEY, pa_kind = AdjDiscount, pa_code = None, pa_label = ''membership discount'',
                 pa_amount = Fin (of_int (- amount))\<rparr>])"

definition MembershipDiscountRule :: "(nat \<Rightarrow> pricing_error + int) \<Rightarrow> pricing_rule" where
  "MembershipDiscountRule discountPercentBp =
    \<lparr>pr_key = MEMBERSHIP_RULE_KEY, pr_priority = 10, pr_evaluate = membership_evaluate discountPercentBp\<rparr>"

section \<open>Sums of doubles that stay exact\<close>

lemma fl_int_is_int_pos:
  assumes "0 < n"
  shows "\<exists>m::int. fl (of_int n) = of_int m"
proof (cases "n \<le> 2 ^ 53")
  case True
  then show ?thesis using fl_int_pos [OF assms] by blast
next
  case False
  let ?x = "of_int n :: rat"
  define e where "e = ilog2 ?x - 52"
  have x: "0 < ?x" using assms by simp
  have "?x < 2 powi (e + 53)" using ilog2_bounds [OF x] by (simp add: e_def algebra_simps)
  moreover have "(2::rat) ^ 53 < ?x" using False by (metis not_le of_int_less_iff of_int_numeral of_int_power)
  ultimately have "(2::rat) powi 53 < 2 powi (e + 53)" by simp
  then have "0 \<le> e" using powi2_less_imp [of 53 "e + 53"] by simp
  then obtain k where k: "e = int k" using nonneg_int_cases by blast
  have "fl ?x = of_int (round_even (?x / 2 powi e) * 2 ^ k)"
    using x by (simp add: fl_def Let_def k flip: e_def)
  then show ?thesis ..
qed

lemma fl_int_is_int: "\<exists>m::int. fl (of_int n) = of_int m"
proof (cases n "0::int" rule: linorder_cases)
  case less
  then obtain m :: int where "fl (of_int (- n)) = of_int m" using fl_int_is_int_pos [of "- n"] by auto
  then have "fl (of_int n) = of_int (- m)" by simp
  then show ?thesis ..
next
  case greater
  then show ?thesis by (rule fl_int_is_int_pos)
qed (auto intro: exI [of _ 0])

lemma add_loop_amounts:
  "add_loop a xs = Inr acc \<Longrightarrow> \<exists>ns. xs = map (\<lambda>n. Fin (of_int n)) ns \<and> list_all valid_amount ns"
proof (induction xs arbitrary: a)
  case Nil
  then show ?case by simp
next
  case (Cons x xs)
  then obtain n where n: "assertAmount x ''amount'' = Inr n" "add_loop (fl (a + of_int n)) xs = Inr acc"
    by (auto simp: bind_res_Inr)
  from Cons.IH [OF n(2)] obtain ns where "xs = map (\<lambda>n. Fin (of_int n)) ns" "list_all valid_amount ns" by blast
  with n(1) show ?case by (intro exI [of _ "n # ns"]) (simp add: assertAmount_Inr)
qed

lemma add_loop_stays_big:
  assumes "add_loop (of_int a) (map (\<lambda>n. Fin (of_int n)) ns) = Inr acc" "MAX_AMOUNT_TOMAN < a" "list_all (\<lambda>n. 0 \<le> n) ns"
  shows "of_int MAX_AMOUNT_TOMAN < acc"
  using assms
proof (induction ns arbitrary: a)
  case Nil
  then show ?case by auto
next
  case (Cons n ns)
  obtain m where m: "fl (of_int (a + n)) = (of_int m :: rat)" using fl_int_is_int by blast
  have big: "MAX_AMOUNT_TOMAN < a + n" using Cons.prems by simp
  have "MAX_AMOUNT_TOMAN < m"
  proof (cases "a + n \<le> 2 ^ 53")
    case True
    have "fl (of_int (a + n)) = (of_int (a + n) :: rat)"
      by (rule fl_int) (use True big in \<open>simp add: money_bounds\<close>)
    then have "m = a + n" using m by (simp only: of_int_eq_iff)
    then show ?thesis using big by simp
  next
    case False
    define v where "v = (of_int (a + n) :: rat)"
    have lo: "(2::rat) ^ 53 < v"
      unfolding v_def using False by (metis not_le of_int_less_iff of_int_numeral of_int_power)
    have "\<bar>of_int m - v\<bar> \<le> \<bar>v\<bar> / 2 ^ 53" using fl_error [of v] m unfolding v_def by simp
    moreover have "\<bar>v\<bar> / 2 ^ 53 \<le> v / 2" using lo by (simp add: field_simps)
    ultimately have "v / 2 \<le> of_int m" by linarith
    then have "(of_int MAX_AMOUNT_TOMAN :: rat) < of_int m" using lo by (simp add: money_bounds)
    then show ?thesis by simp
  qed
  moreover have "add_loop (of_int m) (map (\<lambda>n. Fin (of_int n)) ns) = Inr acc"
    using Cons.prems(1) m by (auto simp: bind_res_Inr assertAmount_Inr)
  ultimately show ?case using Cons.IH Cons.prems(3) by simp
qed

lemma add_loop_nonneg_exact:
  assumes "add_loop (of_int a) (map (\<lambda>n. Fin (of_int n)) ns) = Inr acc" "acc \<le> of_int MAX_AMOUNT_TOMAN"
    "0 \<le> a" "a \<le> MAX_AMOUNT_TOMAN" "list_all (\<lambda>n. 0 \<le> n) ns"
  shows "acc = of_int (a + sum_list ns)"
  using assms
proof (induction ns arbitrary: a)
  case Nil
  then show ?case by simp
next
  case (Cons n ns)
  have n: "valid_amount n" "0 \<le> n" using Cons.prems(1,5) by (auto simp: bind_res_Inr assertAmount_Inr)
  have "fl (of_int (a + n)) = (of_int (a + n) :: rat)"
    by (rule fl_int) (use Cons.prems n in \<open>auto simp: valid_amount_def money_bounds\<close>)
  then have step: "add_loop (of_int (a + n)) (map (\<lambda>n. Fin (of_int n)) ns) = Inr acc"
    using Cons.prems(1) by (auto simp: bind_res_Inr assertAmount_Inr)
  have "a + n \<le> MAX_AMOUNT_TOMAN"
  proof (rule ccontr)
    assume "\<not> a + n \<le> MAX_AMOUNT_TOMAN"
    then have "of_int MAX_AMOUNT_TOMAN < acc" by (intro add_loop_stays_big [OF step]) (use Cons.prems in auto)
    with Cons.prems(2) show False by simp
  qed
  then show ?case using Cons.IH [OF step Cons.prems(2)] Cons.prems n by (simp add: add.assoc)
qed

lemma sumAmounts_Inr:
  "sumAmounts xs = Inr s \<longleftrightarrow> (\<exists>acc. add_loop 0 xs = Inr acc \<and> acc = of_int s \<and> valid_amount s)"
  by (auto simp: sumAmounts_def addAmounts_def bind_res_Inr assertAmount_Inr)

text \<open>A sum of non-negative amounts that the engine accepts is the exact sum.\<close>

lemma sumAmounts_nonneg:
  assumes "sumAmounts xs = Inr s" "\<forall>x \<in> set xs. \<not> js_gt (Fin 0) x"
  shows "\<exists>ns. xs = map (\<lambda>n. Fin (of_int n)) ns \<and> list_all valid_amount ns \<and> list_all (\<lambda>n. 0 \<le> n) ns \<and>
    s = sum_list ns \<and> valid_amount s"
proof -
  from assms(1) obtain acc where acc: "add_loop 0 xs = Inr acc" "acc = of_int s" "valid_amount s"
    by (auto simp: sumAmounts_Inr)
  from add_loop_amounts [OF acc(1)] obtain ns where ns: "xs = map (\<lambda>n. Fin (of_int n)) ns" "list_all valid_amount ns" by blast
  have nn: "list_all (\<lambda>n. 0 \<le> n) ns" using assms(2) ns(1) by (auto simp: list_all_iff not_less)
  have "(of_int s :: rat) = of_int (0 + sum_list ns)"
    using acc ns(1) nn by (intro add_loop_nonneg_exact) (auto simp: valid_amount_def money_bounds)
  then have "s = sum_list ns" by (simp only: of_int_eq_iff add_0)
  with ns nn acc(3) show ?thesis by blast
qed

lemma add_loop_prefix_exact:
  assumes "list_all valid_amount ns" "\<And>k. \<bar>a + sum_list (take k ns)\<bar> \<le> 2 ^ 53"
  shows "add_loop (of_int a) (map (\<lambda>n. Fin (of_int n)) ns) = Inr (of_int (a + sum_list ns))"
  using assms
proof (induction ns arbitrary: a)
  case Nil
  then show ?case by simp
next
  case (Cons n ns)
  have "fl (of_int (a + n)) = (of_int (a + n) :: rat)" by (rule fl_int) (use Cons.prems(2) [of 1] in simp)
  moreover have "add_loop (of_int (a + n)) (map (\<lambda>n. Fin (of_int n)) ns) = Inr (of_int (a + n + sum_list ns))"
  proof (rule Cons.IH)
    show "\<bar>a + n + sum_list (take k ns)\<bar> \<le> 2 ^ 53" for k
      using Cons.prems(2) [of "Suc k"] by (simp add: add.assoc)
  qed (use Cons.prems(1) in simp)
  ultimately show ?case using Cons.prems(1) by (simp add: assertAmount_Fin_int add.assoc)
qed

section \<open>What the loops keep\<close>

definition amount_int :: "pricing_adjustment \<Rightarrow> int" where
  "amount_int a = (case pa_amount a of Fin q \<Rightarrow> \<lfloor>q\<rfloor> | _ \<Rightarrow> 0)"

lemma amount_int_values: "pa_amount a = Fin (of_int n) \<Longrightarrow> amount_int a = n" "pa_amount a = JNaN \<Longrightarrow> amount_int a = 0"
  by (simp_all add: amount_int_def)

text \<open>An adjustment that \<open>normalize\<close> lets through, when its amount is a whole number of Toman at all.\<close>

definition discount_ok :: "pricing_adjustment \<Rightarrow> bool" where
  "discount_ok a \<longleftrightarrow> pa_kind a = AdjDiscount \<and> (\<exists>n. pa_amount a = Fin (of_int n) \<and> n < 0 \<and> valid_amount n)"

definition fee_ok :: "pricing_adjustment \<Rightarrow> bool" where
  "fee_ok a \<longleftrightarrow> pa_kind a = AdjFee \<and> (pa_amount a = JNaN \<or> (\<exists>n. pa_amount a = Fin (of_int n) \<and> 0 < n))"

definition fees :: "pricing_adjustment list \<Rightarrow> int" where
  "fees as = sum_list (filter (\<lambda>n. 0 < n) (map amount_int as))"

text \<open>The engine's own check of the fees, made once at the end: positive amounts are whole and bounded.\<close>

definition fees_checked :: "pricing_adjustment list \<Rightarrow> bool" where
  "fees_checked as \<longleftrightarrow> (\<forall>a \<in> set as. js_gt (pa_amount a) (Fin 0) \<longrightarrow> (\<exists>n. pa_amount a = Fin (of_int n) \<and> 0 < n)) \<and>
     fees as \<le> MAX_AMOUNT_TOMAN"

definition running :: "int \<Rightarrow> pricing_adjustment list \<Rightarrow> jsnum \<Rightarrow> bool" where
  "running subtotal as remaining \<longleftrightarrow>
    (if JNaN \<in> pa_amount ` set as then remaining = JNaN
     else remaining = Fin (of_int (subtotal + sum_list (map amount_int as)))) \<and>
    (\<forall>a \<in> set as. discount_ok a \<or> fee_ok a) \<and>
    (\<forall>k. 0 \<le> subtotal + sum_list (take k (map amount_int as)))"

lemma fees_append: "fees (as @ bs) = fees as + fees bs"
  by (simp add: fees_def)

lemma fees_nonneg: "0 \<le> fees as"
  unfolding fees_def by (rule sum_list_nonneg) auto

lemma fees_checked_prefix: "fees_checked (as @ bs) \<Longrightarrow> fees_checked as"
  using fees_nonneg [of bs] by (auto simp: fees_checked_def fees_append)

lemma sum_le_fees: "sum_list (map amount_int as) \<le> fees as"
  unfolding fees_def by (induction as) auto

lemma js_add_NaN [simp]: "js_add JNaN x = JNaN" "js_add (Fin q) JNaN = JNaN"
  by (cases x) auto

lemma normalize_shape:
  assumes "normalize rule adj remaining = Inr (Some a)"
  shows "(\<exists>c m. pa_kind a = AdjDiscount \<and> pa_amount a = Fin (of_int (- c)) \<and> 0 < c \<and> c \<le> m \<and>
            remaining = Fin (of_int m) \<and> valid_amount m)
       \<or> pa_kind a = AdjFee \<and> \<not> js_gt (Fin 0) (pa_amount a) \<and> pa_amount a \<noteq> Fin 0"
proof (cases "pa_kind adj")
  case AdjDiscount
  with assms obtain c where "clampDiscount (js_neg (pa_amount adj)) remaining = Inr c" "0 < c"
    "a = adj\<lparr>pa_amount := Fin (of_int (- c))\<rparr>"
    by (auto simp: normalize_def bind_res_Inr split: if_splits)
  moreover from this(1,2) obtain m where "remaining = Fin (of_int m)" "valid_amount m" "c \<le> m"
    by (auto simp: clampDiscount_def bind_res_Inr assertAmount_Inr split: if_splits)
  ultimately show ?thesis using AdjDiscount by auto
next
  case AdjFee
  with assms show ?thesis by (auto simp: normalize_def split: if_splits)
qed

lemma running_step:
  assumes "running subtotal applied remaining" "normalize rule adj remaining = Inr (Some a)"
    "fees_checked (applied @ [a])" "0 \<le> subtotal" "subtotal \<le> MAX_AMOUNT_TOMAN"
  shows "running subtotal (applied @ [a]) (js_add remaining (pa_amount a))"
proof -
  define m where "m = subtotal + sum_list (map amount_int applied)"
  have m0: "0 \<le> m" using assms(1) unfolding running_def m_def
    by (metis length_map order_refl take_all)
  have fl2: "fl (of_int x + of_int y) = of_int (x + y)" if "\<bar>x + y\<bar> \<le> 2 * MAX_AMOUNT_TOMAN" for x y
    using fl_int [of "x + y"] that by (simp add: money_bounds)
  have fee: "fees (applied @ [a]) \<le> MAX_AMOUNT_TOMAN" using assms(3) by (simp add: fees_checked_def)
  have floors: "0 \<le> subtotal + sum_list (take k (map amount_int (applied @ [a])))" if "0 \<le> m + amount_int a" for k
  proof (cases "k \<le> length applied")
    case True
    then show ?thesis using assms(1) by (simp add: running_def)
  next
    case False
    then have "take k (map amount_int (applied @ [a])) = map amount_int (applied @ [a])" by simp
    then show ?thesis using that by (simp add: m_def)
  qed
  from normalize_shape [OF assms(2)] show ?thesis
  proof (elim disjE exE conjE)
    fix c n
    assume c: "pa_kind a = AdjDiscount" "pa_amount a = Fin (of_int (- c))" "0 < c" "c \<le> n"
      and n: "remaining = Fin (of_int n)" "valid_amount n"
    then have nn: "JNaN \<notin> pa_amount ` set applied" and nm: "n = m"
      using assms(1) by (auto simp: running_def m_def split: if_splits)
    have ai: "amount_int a = - c" using c(2) by (simp add: amount_int_def)
    have "js_add remaining (pa_amount a) = Fin (of_int (m - c))"
      using fl2 [of m "- c"] c n nm by (simp add: valid_amount_def money_bounds)
    moreover have "discount_ok a"
      unfolding discount_ok_def by (rule conjI, fact c, intro exI [of _ "- c"]) (use c n in \<open>auto simp: valid_amount_def money_bounds\<close>)
    moreover have "0 \<le> m + amount_int a" using c(4) nm ai by simp
    ultimately show ?thesis using assms(1) nn c(2) floors ai by (auto simp: running_def m_def)
  next
    assume f: "pa_kind a = AdjFee" "\<not> js_gt (Fin 0) (pa_amount a)" "pa_amount a \<noteq> Fin 0"
    show ?thesis
    proof (cases "pa_amount a = JNaN")
      case True
      then have "amount_int a = 0" "fee_ok a" using f(1) by (simp_all add: amount_int_def fee_ok_def)
      moreover have "js_add remaining JNaN = JNaN" using assms(1) by (auto simp: running_def split: if_splits)
      ultimately show ?thesis using assms(1) floors m0 True by (auto simp: running_def)
    next
      case False
      with f have "js_gt (pa_amount a) (Fin 0)" by (cases "pa_amount a") auto
      then obtain n where n: "pa_amount a = Fin (of_int n)" "0 < n" using assms(3) by (auto simp: fees_checked_def)
      then have ai: "amount_int a = n" "fee_ok a" using f(1) by (simp_all add: amount_int_def fee_ok_def)
      have "m + n \<le> 2 * MAX_AMOUNT_TOMAN"
        using sum_le_fees [of "applied @ [a]"] fee assms(5) ai(1) by (simp add: m_def)
      then have "fl (of_int m + of_int n) = of_int (m + n)" by (intro fl2) (use m0 n in simp)
      then have "js_add remaining (pa_amount a) = (if JNaN \<in> pa_amount ` set applied then JNaN else Fin (of_int (m + n)))"
        using assms(1) n(1) by (auto simp: running_def m_def)
      then show ?thesis using assms(1) floors m0 n ai by (auto simp: running_def m_def)
    qed
  qed
qed

lemma apply_produced_prefix: "apply_produced rule adjs applied remaining = Inr (applied', remaining') \<Longrightarrow> \<exists>bs. applied' = applied @ bs"
proof (induction adjs arbitrary: applied remaining)
  case Nil
  then show ?case by simp
next
  case (Cons a adjs)
  then obtain n where n: "normalize rule a remaining = Inr n"
    "(case n of None \<Rightarrow> apply_produced rule adjs applied remaining
      | Some a \<Rightarrow> apply_produced rule adjs (applied @ [a]) (js_add remaining (pa_amount a))) = Inr (applied', remaining')"
    by (auto simp: bind_res_Inr)
  then show ?case using Cons.IH by (cases n) fastforce+
qed

lemma apply_rules_prefix: "apply_rules ctx sub rules applied remaining = Inr (applied', remaining') \<Longrightarrow> \<exists>bs. applied' = applied @ bs"
proof (induction rules arbitrary: applied remaining)
  case Nil
  then show ?case by simp
next
  case (Cons r rules)
  then obtain p a1 r1 where "apply_produced r p applied remaining = Inr (a1, r1)"
    "apply_rules ctx sub rules a1 r1 = Inr (applied', remaining')"
    by (auto simp: bind_res_Inr)
  with Cons.IH apply_produced_prefix show ?case by (metis append_assoc)
qed

lemma apply_produced_running:
  assumes "apply_produced rule adjs applied remaining = Inr (applied', remaining')" "running sub applied remaining"
    "fees_checked applied'" "0 \<le> sub" "sub \<le> MAX_AMOUNT_TOMAN"
  shows "running sub applied' remaining'"
  using assms(1,2)
proof (induction adjs arbitrary: applied remaining)
  case Nil
  then show ?case by simp
next
  case (Cons a adjs)
  then obtain n where n: "normalize rule a remaining = Inr n"
    "(case n of None \<Rightarrow> apply_produced rule adjs applied remaining
      | Some a \<Rightarrow> apply_produced rule adjs (applied @ [a]) (js_add remaining (pa_amount a))) = Inr (applied', remaining')"
    by (auto simp: bind_res_Inr)
  show ?case
  proof (cases n)
    case None
    then show ?thesis using Cons.IH Cons.prems n by simp
  next
    case (Some b)
    with n(2) have ap: "apply_produced rule adjs (applied @ [b]) (js_add remaining (pa_amount b)) = Inr (applied', remaining')"
      by simp
    from apply_produced_prefix [OF ap] have "fees_checked (applied @ [b])" using assms(3) fees_checked_prefix by blast
    with running_step [OF Cons.prems(2), of rule a b] n(1) Some assms(4,5)
    have "running sub (applied @ [b]) (js_add remaining (pa_amount b))" by simp
    then show ?thesis by (rule Cons.IH [OF ap])
  qed
qed

lemma apply_rules_running:
  assumes "apply_rules ctx sub rules applied remaining = Inr (applied', remaining')" "running sub applied remaining"
    "fees_checked applied'" "0 \<le> sub" "sub \<le> MAX_AMOUNT_TOMAN"
  shows "running sub applied' remaining'"
  using assms(1,2)
proof (induction rules arbitrary: applied remaining)
  case Nil
  then show ?case by simp
next
  case (Cons r rules)
  then obtain p a1 r1 where a1: "apply_produced r p applied remaining = Inr (a1, r1)"
    "apply_rules ctx sub rules a1 r1 = Inr (applied', remaining')"
    by (auto simp: bind_res_Inr)
  have "fees_checked a1" using apply_rules_prefix [OF a1(2)] assms(3) fees_checked_prefix by blast
  with apply_produced_running [OF a1(1) Cons.prems(2) _ assms(4,5)] show ?case by (intro Cons.IH [OF a1(2)])
qed

lemma line_totals_nonneg: "line_totals ls = Inr ts \<Longrightarrow> \<forall>t \<in> set ts. \<not> js_gt (Fin 0) t"
proof (induction ls arbitrary: ts)
  case Nil
  then show ?case by simp
next
  case (Cons l ls)
  then obtain t ts' where t: "line_total l = Inr t" "line_totals ls = Inr ts'" "ts = t # ts'" by (auto simp: bind_res_Inr)
  from t(1) obtain p where p: "assertNonNegativeAmount (pl_unitPrice l) ''unit price'' = Inr p"
    and tt: "t = (case pl_quantity l of Fin q \<Rightarrow> Fin (fl (of_int p * q)) | _ \<Rightarrow> JNaN)"
    and q: "isInteger (pl_quantity l)" "\<not> js_gt (Fin 1) (pl_quantity l)"
    by (auto simp: line_total_def bind_res_Inr split: if_splits)
  have "0 \<le> p" using p by (auto simp: assertNonNegativeAmount_def bind_res_Inr split: if_splits)
  have "\<not> js_gt (Fin 0) t"
  proof (cases "pl_quantity l")
    case (Fin r)
    define v where "v = of_int p * r"
    have "0 \<le> v" using \<open>0 \<le> p\<close> q(2) Fin by (auto simp: v_def)
    moreover have "\<bar>fl v - v\<bar> \<le> \<bar>v\<bar> / 2 ^ 53" by (rule fl_error)
    moreover have "\<bar>v\<bar> / 2 ^ 53 \<le> v" using \<open>0 \<le> v\<close> by (simp add: field_simps)
    ultimately have "0 \<le> fl v" by linarith
    then show ?thesis using tt Fin by (simp add: v_def)
  qed (use tt in auto)
  with Cons.IH [OF t(2)] t(3) show ?case by simp
qed

lemma computeSubtotal_valid:
  assumes "computeSubtotal ctx = Inr sub"
  shows "valid_amount sub \<and> 0 \<le> sub"
  using assms by (auto simp: computeSubtotal_def bind_res_Inr assertNonNegativeAmount_def assertAmount_Inr split: if_splits)

text \<open>The two sums over the adjustments, from the checked fees and from the running remainder.\<close>

lemma positive_amounts:
  assumes "map (\<lambda>n. Fin (of_int n)) ns = filter (\<lambda>x. js_gt x (Fin 0)) (map pa_amount as)"
  shows "sum_list ns = fees as \<and> (\<forall>a \<in> set as. js_gt (pa_amount a) (Fin 0) \<longrightarrow> (\<exists>n. pa_amount a = Fin (of_int n) \<and> 0 < n))"
  using assms
proof (induction as arbitrary: ns)
  case Nil
  then show ?case by (simp add: fees_def)
next
  case (Cons a as)
  show ?case
  proof (cases "js_gt (pa_amount a) (Fin 0)")
    case True
    with Cons.prems obtain n ns' where n: "ns = n # ns'" "pa_amount a = Fin (of_int n)"
      "map (\<lambda>n. Fin (of_int n)) ns' = filter (\<lambda>x. js_gt x (Fin 0)) (map pa_amount as)"
      by (cases ns) auto
    moreover have "0 < n" using True n(2) by simp
    ultimately show ?thesis using Cons.IH [OF n(3)] by (auto simp: fees_def amount_int_def)
  next
    case False
    have "\<not> 0 < amount_int a"
    proof (cases "pa_amount a")
      case (Fin q)
      then show ?thesis using False by (auto simp: amount_int_def not_less)
    qed (simp_all add: amount_int_def)
    then show ?thesis using Cons False by (auto simp: fees_def)
  qed
qed

lemma negative_amounts:
  assumes "\<forall>a \<in> set as. discount_ok a \<or> fee_ok a"
  shows "filter (\<lambda>x. js_gt (Fin 0) x) (map pa_amount as) = map (\<lambda>n. Fin (of_int n)) (filter (\<lambda>n. n < 0) (map amount_int as)) \<and>
    list_all valid_amount (filter (\<lambda>n. n < 0) (map amount_int as)) \<and>
    sum_list (filter (\<lambda>n. n < 0) (map amount_int as)) = sum_list (map amount_int as) - fees as"
  using assms
proof (induction as)
  case Nil
  then show ?case by (simp add: fees_def)
next
  case (Cons a as)
  then have IH: "filter (\<lambda>x. js_gt (Fin 0) x) (map pa_amount as) = map (\<lambda>n. Fin (of_int n)) (filter (\<lambda>n. n < 0) (map amount_int as))"
    "list_all valid_amount (filter (\<lambda>n. n < 0) (map amount_int as))"
    "sum_list (filter (\<lambda>n. n < 0) (map amount_int as)) = sum_list (map amount_int as) - fees as" by auto
  from Cons.prems consider n where "pa_amount a = Fin (of_int n)" "n < 0" "valid_amount n"
    | "pa_amount a = JNaN" | n where "pa_amount a = Fin (of_int n)" "0 < n"
    by (auto simp: discount_ok_def fee_ok_def)
  then show ?case using IH by cases (auto simp: amount_int_values fees_def)
qed

lemma sum_take_neg_bound:
  fixes ns :: "int list"
  assumes "\<forall>n \<in> set ns. n < 0"
  shows "sum_list ns \<le> sum_list (take k ns) \<and> sum_list (take k ns) \<le> 0"
proof -
  have "sum_list (take k ns) \<le> 0" "sum_list (drop k ns) \<le> 0"
    using assms by (auto intro!: sum_list_nonpos dest: in_set_takeD in_set_dropD less_imp_le)
  moreover have "sum_list ns = sum_list (take k ns) + sum_list (drop k ns)"
    by (metis append_take_drop_id sum_list_append)
  ultimately show ?thesis by linarith
qed

lemma quote_facts:
  assumes "quote rules ctx = Inr r"
  shows "0 \<le> pq_subtotal r \<and> valid_amount (pq_subtotal r) \<and>
    (\<forall>a \<in> set (pq_adjustments r). discount_ok a \<or> fee_ok a) \<and>
    (\<forall>k. 0 \<le> pq_subtotal r + sum_list (take k (map amount_int (pq_adjustments r)))) \<and>
    pq_discountTotal r = - sum_list (filter (\<lambda>n. n < 0) (map amount_int (pq_adjustments r))) \<and>
    pq_feeTotal r = fees (pq_adjustments r) \<and> pq_feeTotal r \<le> MAX_AMOUNT_TOMAN \<and>
    pq_total r = pq_subtotal r - pq_discountTotal r + pq_feeTotal r \<and>
    valid_amount (pq_total r) \<and> 0 \<le> pq_total r"
proof -
  from assms obtain sub as rem d fee t where
    sub: "computeSubtotal ctx = Inr sub" and as: "apply_rules ctx sub rules [] (Fin (of_int sub)) = Inr (as, rem)"
    and d: "sumAmounts (filter (\<lambda>x. js_gt (Fin 0) x) (map pa_amount as)) = Inr d"
    and fee: "sumAmounts (filter (\<lambda>x. js_gt x (Fin 0)) (map pa_amount as)) = Inr fee"
    and t: "assertNonNegativeAmount (Fin (fl (fl (of_int sub - of_int \<bar>d\<bar>) + of_int fee))) ''order total'' = Inr t"
    and r: "r = \<lparr>pq_subtotal = sub, pq_adjustments = as, pq_discountTotal = \<bar>d\<bar>, pq_feeTotal = fee, pq_total = t\<rparr>"
    by (auto simp: quote_def bind_res_Inr)
  have sv: "valid_amount sub" "0 \<le> sub" using computeSubtotal_valid [OF sub] by auto
  have "\<forall>x \<in> set (filter (\<lambda>x. js_gt x (Fin 0)) (map pa_amount as)). \<not> js_gt (Fin 0) x"
  proof
    fix x assume "x \<in> set (filter (\<lambda>x. js_gt x (Fin 0)) (map pa_amount as))"
    then have "js_gt x (Fin 0)" by simp
    then show "\<not> js_gt (Fin 0) x" by (cases x) auto
  qed
  from sumAmounts_nonneg [OF fee this] obtain ns where
    "filter (\<lambda>x. js_gt x (Fin 0)) (map pa_amount as) = map (\<lambda>n. Fin (of_int n)) ns" "fee = sum_list ns" "valid_amount fee"
    by blast
  with positive_amounts [of ns as] have fe: "fee = fees as" "fees_checked as" "fee \<le> MAX_AMOUNT_TOMAN"
    by (auto simp: fees_checked_def valid_amount_def)
  have "running sub [] (Fin (of_int sub))" using sv by (simp add: running_def)
  from apply_rules_running [OF as this fe(2)] sv have run: "running sub as rem" by (simp add: valid_amount_def)
  then have ok: "\<forall>a \<in> set as. discount_ok a \<or> fee_ok a"
    and floors: "\<forall>k. 0 \<le> sub + sum_list (take k (map amount_int as))" by (auto simp: running_def)
  define neg where "neg = filter (\<lambda>n. n < 0) (map amount_int as)"
  have neg: "filter (\<lambda>x. js_gt (Fin 0) x) (map pa_amount as) = map (\<lambda>n. Fin (of_int n)) neg" "list_all valid_amount neg"
    "sum_list neg = sum_list (map amount_int as) - fee"
    using negative_amounts [OF ok] fe(1) by (auto simp: neg_def)
  have tot: "0 \<le> sub + sum_list (map amount_int as)" using spec [OF floors, of "length as"] by simp
  have lo: "- 2 * MAX_AMOUNT_TOMAN \<le> sum_list neg" using tot neg(3) sv fe(3) by (simp add: valid_amount_def)
  have nb: "sum_list neg \<le> sum_list (take k neg) \<and> sum_list (take k neg) \<le> 0" for k
    by (rule sum_take_neg_bound) (auto simp: neg_def)
  have "\<bar>0 + sum_list (take k neg)\<bar> \<le> 2 ^ 53" for k using lo nb [of k] by (simp add: money_bounds)
  from add_loop_prefix_exact [OF neg(2) this]
  have al: "add_loop 0 (filter (\<lambda>x. js_gt (Fin 0) x) (map pa_amount as)) = Inr (of_int (sum_list neg))" using neg(1) by simp
  from d obtain acc where "add_loop 0 (filter (\<lambda>x. js_gt (Fin 0) x) (map pa_amount as)) = Inr acc" "acc = of_int d" "valid_amount d"
    by (auto simp: sumAmounts_Inr)
  with al have "(of_int d :: rat) = of_int (sum_list neg)" by simp
  then have de: "d = sum_list neg" "\<bar>d\<bar> = - sum_list neg" using nb [of "length neg"] by auto
  have "fl (of_int (sub - \<bar>d\<bar>)) = (of_int (sub - \<bar>d\<bar>) :: rat)"
    by (rule fl_int) (use de lo nb [of "length neg"] sv in \<open>simp add: valid_amount_def money_bounds\<close>)
  moreover have "fl (of_int (sub - \<bar>d\<bar> + fee)) = (of_int (sub - \<bar>d\<bar> + fee) :: rat)"
    by (rule fl_int) (use de neg(3) tot lo nb [of "length neg"] sv fe(3) in \<open>simp add: valid_amount_def money_bounds\<close>)
  ultimately have "assertNonNegativeAmount (Fin (of_int (sub - \<bar>d\<bar> + fee))) ''order total'' = Inr t" using t by simp
  then have "t = sub - \<bar>d\<bar> + fee" "valid_amount t" "0 \<le> t"
    by (auto simp: assertNonNegativeAmount_def bind_res_Inr assertAmount_Inr split: if_splits)
  then show ?thesis using r sv ok floors fe de by (simp add: neg_def)
qed

section \<open>The properties\<close>

lemma sorted_wrt_unique:
  assumes "sorted_wrt R xs" "sorted_wrt R ys" "mset xs = mset ys"
    "\<And>x y. x \<in> set xs \<Longrightarrow> y \<in> set xs \<Longrightarrow> R x y \<Longrightarrow> R y x \<Longrightarrow> x = y"
  shows "xs = ys"
  using assms
proof (induction xs arbitrary: ys)
  case Nil
  then show ?case by simp
next
  case (Cons x xs)
  then obtain y ys' where ys: "ys = y # ys'" by (cases ys) auto
  have sets: "set (x # xs) = set (y # ys')" using Cons.prems(3) ys by (metis set_mset_mset)
  have "x = y"
  proof (rule ccontr)
    assume "x \<noteq> y"
    then have "x \<in> set ys'" "y \<in> set xs" using sets by auto
    then have "R y x" "R x y" using Cons.prems(1,2) ys by auto
    with Cons.prems(4) [of x y] \<open>y \<in> set xs\<close> \<open>x \<noteq> y\<close> show False by simp
  qed
  moreover have "xs = ys'"
    using Cons.prems ys \<open>x = y\<close> by (intro Cons.IH) auto
  ultimately show ?case using ys by simp
qed

lemma mset_insert_rule [simp]: "mset (insert_rule lc a bs) = add_mset a (mset bs)"
  by (induction bs) auto

lemma mset_sort_rules [simp]: "mset (sort_rules lc rs) = mset rs"
  unfolding sort_rules_def by (induction rs) auto

lemma set_sort_rules [simp]: "set (sort_rules lc rs) = set rs"
  by (metis mset_sort_rules set_mset_mset)

definition preorder_on_set :: "('a \<Rightarrow> 'a \<Rightarrow> bool) \<Rightarrow> 'a set \<Rightarrow> bool" where
  "preorder_on_set R A \<longleftrightarrow> (\<forall>a \<in> A. \<forall>b \<in> A. R a b \<or> R b a) \<and> (\<forall>a \<in> A. \<forall>b \<in> A. \<forall>c \<in> A. R a b \<longrightarrow> R b c \<longrightarrow> R a c)"

lemma preorder_subset: "preorder_on_set R A \<Longrightarrow> B \<subseteq> A \<Longrightarrow> preorder_on_set R B"
  unfolding preorder_on_set_def by blast

lemma preorder_total: "preorder_on_set R A \<Longrightarrow> a \<in> A \<Longrightarrow> b \<in> A \<Longrightarrow> R a b \<or> R b a"
  unfolding preorder_on_set_def by blast

lemma preorder_trans: "preorder_on_set R A \<Longrightarrow> a \<in> A \<Longrightarrow> b \<in> A \<Longrightarrow> c \<in> A \<Longrightarrow> R a b \<Longrightarrow> R b c \<Longrightarrow> R a c"
  unfolding preorder_on_set_def by blast

lemma sorted_insert_rule:
  "sorted_wrt (rule_before lc) bs \<Longrightarrow> preorder_on_set (rule_before lc) (insert x (set bs)) \<Longrightarrow>
    sorted_wrt (rule_before lc) (insert_rule lc x bs)"
proof (induction bs)
  case Nil
  then show ?case by simp
next
  case (Cons b bs)
  have s: "set (insert_rule lc x bs) = insert x (set bs)" by (metis mset_insert_rule set_mset_add_mset_insert set_mset_mset)
  have "preorder_on_set (rule_before lc) (insert x (set bs))" by (rule preorder_subset [OF Cons.prems(2)]) auto
  then have IH: "sorted_wrt (rule_before lc) (insert_rule lc x bs)" using Cons.prems(1) by (intro Cons.IH) simp_all
  show ?case
  proof (cases "rule_before lc x b")
    case True
    have "rule_before lc x c" if "c \<in> set bs" for c
    proof -
      have "rule_before lc b c" using Cons.prems(1) that by simp
      with True show ?thesis by (rule preorder_trans [OF Cons.prems(2), of x b c, rotated 3]) (use that in simp_all)
    qed
    then show ?thesis using True Cons.prems(1) by simp
  next
    case False
    then have "rule_before lc b x" using preorder_total [OF Cons.prems(2), of x b] by simp
    then show ?thesis using False Cons.prems(1) IH s by auto
  qed
qed

lemma sorted_sort_rules:
  "preorder_on_set (rule_before lc) (set rs) \<Longrightarrow> sorted_wrt (rule_before lc) (sort_rules lc rs)"
proof (induction rs)
  case Nil
  then show ?case by (simp add: sort_rules_def)
next
  case (Cons r rs)
  have "sorted_wrt (rule_before lc) (sort_rules lc rs)" by (rule Cons.IH [OF preorder_subset [OF Cons.prems]]) auto
  then have "sorted_wrt (rule_before lc) (insert_rule lc r (sort_rules lc rs))"
    by (rule sorted_insert_rule) (use Cons.prems in simp)
  then show ?case by (simp add: sort_rules_def)
qed

text \<open>A collation is a total order on the keys in use.\<close>

definition collation :: "(string \<Rightarrow> string \<Rightarrow> int) \<Rightarrow> string set \<Rightarrow> bool" where
  "collation lc K \<longleftrightarrow> (\<forall>a \<in> K. \<forall>b \<in> K. lc a b \<le> 0 \<or> lc b a \<le> 0) \<and>
    (\<forall>a \<in> K. \<forall>b \<in> K. \<forall>c \<in> K. lc a b \<le> 0 \<longrightarrow> lc b c \<le> 0 \<longrightarrow> lc a c \<le> 0) \<and>
    (\<forall>a \<in> K. \<forall>b \<in> K. lc a b \<le> 0 \<longrightarrow> lc b a \<le> 0 \<longrightarrow> a = b)"

lemma collation_total: "collation lc K \<Longrightarrow> a \<in> K \<Longrightarrow> b \<in> K \<Longrightarrow> lc a b \<le> 0 \<or> lc b a \<le> 0"
  unfolding collation_def by blast

lemma collation_trans: "collation lc K \<Longrightarrow> a \<in> K \<Longrightarrow> b \<in> K \<Longrightarrow> c \<in> K \<Longrightarrow> lc a b \<le> 0 \<Longrightarrow> lc b c \<le> 0 \<Longrightarrow> lc a c \<le> 0"
  unfolding collation_def by blast

lemma collation_antisym: "collation lc K \<Longrightarrow> a \<in> K \<Longrightarrow> b \<in> K \<Longrightarrow> lc a b \<le> 0 \<Longrightarrow> lc b a \<le> 0 \<Longrightarrow> a = b"
  unfolding collation_def by blast

lemma rule_before_preorder:
  assumes "collation lc (pr_key ` set rs)"
  shows "preorder_on_set (rule_before lc) (set rs)"
  unfolding preorder_on_set_def
proof (intro conjI ballI impI)
  fix a b assume "a \<in> set rs" "b \<in> set rs"
  then have "lc (pr_key a) (pr_key b) \<le> 0 \<or> lc (pr_key b) (pr_key a) \<le> 0" by (intro collation_total [OF assms]) auto
  then show "rule_before lc a b \<or> rule_before lc b a" unfolding rule_before_def by linarith
next
  fix a b c assume ab: "a \<in> set rs" "b \<in> set rs" "c \<in> set rs" "rule_before lc a b" "rule_before lc b c"
  have "lc (pr_key a) (pr_key c) \<le> 0" if "lc (pr_key a) (pr_key b) \<le> 0" "lc (pr_key b) (pr_key c) \<le> 0"
    by (rule collation_trans [OF assms _ _ _ that]) (use ab in auto)
  with ab(4,5) show "rule_before lc a c" unfolding rule_before_def by (elim disjE conjE) simp_all
qed

text \<open>C38: Whatever the rules return, a quote is consistent: the total is the subtotal minus the discounts plus
  the fees, exactly (although the sums run in doubles), it is never negative, the price never falls below zero
  at any point of the sequence of adjustments, every discount is a negative whole amount, and every fee is a
  positive whole amount (or not a number, which the fee branch does not reject).\<close>

theorem quote_consistent:
  assumes "quote (sort_rules lc rules) ctx = Inr r"
  shows "pq_total r = pq_subtotal r - pq_discountTotal r + pq_feeTotal r \<and> 0 \<le> pq_total r \<and> valid_amount (pq_total r) \<and>
    (\<forall>k. 0 \<le> pq_subtotal r + sum_list (take k (map amount_int (pq_adjustments r)))) \<and>
    pq_discountTotal r = - sum_list (filter (\<lambda>n. n < 0) (map amount_int (pq_adjustments r))) \<and>
    pq_feeTotal r = sum_list (filter (\<lambda>n. 0 < n) (map amount_int (pq_adjustments r))) \<and>
    (\<forall>a \<in> set (pq_adjustments r).
       pa_kind a = AdjDiscount \<and> (\<exists>n < 0. pa_amount a = Fin (of_int n)) \<or>
       pa_kind a = AdjFee \<and> (pa_amount a = JNaN \<or> (\<exists>n > 0. pa_amount a = Fin (of_int n))))"
  using quote_facts [OF assms] unfolding discount_ok_def fee_ok_def fees_def by auto

definition demo_line :: "int \<Rightarrow> pricing_line" where
  "demo_line p = \<lparr>pl_reference = 1, pl_name = ''haircut'', pl_quantity = Fin 1, pl_unitPrice = Fin (of_int p)\<rparr>"

definition demo_context :: "int \<Rightarrow> pricing_context" where
  "demo_context p = \<lparr>px_customer = 7, px_sellerType = ProfessionalParty, px_sellerId = 5, px_lines = [demo_line p], px_at = 0,
     px_booking = None\<rparr>"

lemma demo_subtotal:
  assumes "0 \<le> p" "p \<le> MAX_AMOUNT_TOMAN"
  shows "computeSubtotal (demo_context p) = Inr p"
proof -
  have v: "valid_amount p" using assms by (simp add: valid_amount_def money_bounds)
  have "fl (of_int p) = of_int p" by (rule fl_int) (use assms in \<open>simp add: money_bounds\<close>)
  then show ?thesis using assms v
    by (simp add: computeSubtotal_def line_total_def demo_context_def demo_line_def isInteger_def assertNonNegativeAmount_def
        assertAmount_Fin_int sumAmounts_def addAmounts_def)
qed

text \<open>\<open>Math.floor(x / 10000)\<close> in doubles is the exact integer quotient below \<open>2^53\<close>.\<close>

lemma floor_fl_quotient:
  assumes "0 \<le> x" "x < 2 ^ 53"
  shows "\<lfloor>fl (of_int x / 10000)\<rfloor> = x div 10000"
proof -
  define k where "k = x div 10000"
  define m where "m = x mod 10000"
  define v where "v = (of_int x / 10000 :: rat)"
  have x: "x = 10000 * k + m" "0 \<le> m" "m \<le> 9999" by (auto simp: k_def m_def)
  have v: "v = of_int k + of_int m / 10000" unfolding v_def x(1) by (simp add: field_simps)
  show ?thesis
  proof (cases "m = 0")
    case True
    have "fl (of_int k) = of_int k" by (rule fl_int) (use assms x in linarith)
    then show ?thesis using v True by (simp add: v_def k_def)
  next
    case False
    then have m1: "1 \<le> m" using x by simp
    have xr: "0 \<le> (of_int x :: rat)" "(of_int x :: rat) < 2 ^ 53"
      using assms by (simp, metis of_int_less_iff of_int_numeral of_int_power)
    then have "\<bar>v\<bar> / 2 ^ 53 < 1 / 10000" by (simp add: v_def field_simps)
    with fl_error [of v] have err: "\<bar>fl v - v\<bar> < 1 / 10000" by linarith
    have "1 / 10000 \<le> (of_int m / 10000 :: rat)" "(of_int m / 10000 :: rat) \<le> 9999 / 10000"
      using m1 x(3) by simp_all
    with err v have "of_int k \<le> fl v" "fl v < of_int k + 1" unfolding abs_less_iff by linarith+
    then have "\<lfloor>fl v\<rfloor> = k" by (intro floor_unique)
    then show ?thesis by (simp add: v_def k_def)
  qed
qed

lemma membership_amount_div:
  assumes "0 \<le> sub * bp" "sub * bp < 2 ^ 53"
  shows "membership_amount sub bp = sub * bp div 10000"
proof -
  have "fl (of_int (sub * bp)) = of_int (sub * bp)" by (rule fl_int) (use assms in simp)
  then show ?thesis using floor_fl_quotient [OF assms] by (simp add: membership_amount_def)
qed

lemma membership_quote:
  assumes "computeSubtotal ctx = Inr sub" "d (px_customer ctx) = Inr bp" "membership_amount sub bp = amt" "0 < bp"
    "0 \<le> amt" "amt \<le> sub"
  shows "\<exists>r. quote [MembershipDiscountRule d] ctx = Inr r \<and> pq_subtotal r = sub \<and> pq_discountTotal r = amt \<and> pq_total r = sub - amt"
proof -
  have sv: "valid_amount sub" "0 \<le> sub" using computeSubtotal_valid [OF assms(1)] by auto
  have flb: "fl (of_int n) = of_int n" if "\<bar>n\<bar> \<le> 2 * MAX_AMOUNT_TOMAN" for n
    using that by (intro fl_int) (simp add: money_bounds)
  show ?thesis
  proof (cases "amt = 0")
    case True
    then show ?thesis
      using assms sv flb [of sub]
      by (simp add: quote_def MembershipDiscountRule_def membership_evaluate_def sumAmounts_def addAmounts_def
          assertAmount_Fin_int [of 0, simplified] valid_amount_def money_bounds assertNonNegativeAmount_def assertAmount_Fin_int)
  next
    case False
    then have a0: "0 < amt" using assms(5) by simp
    have am: "valid_amount amt" "valid_amount (- amt)" "valid_amount (sub - amt)"
      using assms(5,6) sv by (simp_all add: valid_amount_def money_bounds)
    have ap: "apply_rules ctx sub [MembershipDiscountRule d] [] (Fin (of_int sub)) =
      Inr ([\<lparr>pa_ruleKey = MEMBERSHIP_RULE_KEY, pa_kind = AdjDiscount, pa_code = None, pa_label = ''membership discount'',
                 pa_amount = Fin (of_int (- amt))\<rparr>], Fin (fl (of_int (sub - amt))))"
      using assms a0 sv am
      by (simp add: MembershipDiscountRule_def membership_evaluate_def normalize_def clampDiscount_def assertAmount_Fin_int
          Let_def min_def)
    have f: "fl (of_int (- amt)) = of_int (- amt)" "fl (of_int (sub - amt)) = of_int (sub - amt)"
      by (rule flb, use assms(5,6) sv in \<open>simp add: valid_amount_def money_bounds\<close>)+
    have s1: "sumAmounts [Fin (of_int (- amt))] = Inr (- amt)" "sumAmounts [] = Inr 0"
      using f(1) am assertAmount_Fin_int [of "- amt"] assertAmount_Fin_int [of 0] by (simp_all add: sumAmounts_def addAmounts_def valid_amount_def money_bounds)
    have t: "assertNonNegativeAmount (Fin (fl (fl (of_int sub - of_int \<bar>- amt\<bar>) + of_int 0))) ''order total'' = Inr (sub - amt)"
      using f(2) am(3) assms(6) a0 assertAmount_Fin_int [of "sub - amt"] by (simp add: assertNonNegativeAmount_def)
    show ?thesis
      unfolding quote_def assms(1) bind_res_simps ap using s1 t a0 by simp
  qed
qed

theorem quote_consistent_witness:
  "\<exists>r. quote (sort_rules (\<lambda>_ _. 0) [MembershipDiscountRule (\<lambda>_. Inr 1000)]) (demo_context 9999) = Inr r \<and>
     pq_total r = 9999 - pq_discountTotal r + pq_feeTotal r"
proof -
  have "membership_amount 9999 1000 = 999" using membership_amount_div [of 9999 1000] by simp
  with membership_quote [OF demo_subtotal [of 9999], of "\<lambda>_. Inr 1000" 1000 999] obtain r where
    "quote [MembershipDiscountRule (\<lambda>_. Inr 1000)] (demo_context 9999) = Inr r" "pq_subtotal r = 9999"
    by (auto simp: money_bounds)
  moreover have "sort_rules (\<lambda>_ _. 0) [MembershipDiscountRule (\<lambda>_. Inr 1000)] = [MembershipDiscountRule (\<lambda>_. Inr 1000)]"
    by (simp add: sort_rules_def)
  ultimately show ?thesis
    using quote_consistent [of "\<lambda>_ _. 0" "[MembershipDiscountRule (\<lambda>_. Inr 1000)]" "demo_context 9999" r] by auto
qed

text \<open>The order in which rules are registered never matters: two registrations of the same rules, with
  distinct keys and a collation that is a total order on them, give the same quote for every context.\<close>

theorem registration_order_irrelevant:
  assumes "mset rules = mset rules'" "distinct (map pr_key rules)" "collation lc (pr_key ` set rules)"
  shows "quote (sort_rules lc rules) ctx = quote (sort_rules lc rules') ctx"
proof -
  have sets: "set rules = set rules'" using assms(1) by (metis set_mset_mset)
  have "sort_rules lc rules = sort_rules lc rules'"
  proof (rule sorted_wrt_unique)
    show "sorted_wrt (rule_before lc) (sort_rules lc rules)"
      by (rule sorted_sort_rules [OF rule_before_preorder [OF assms(3)]])
    show "sorted_wrt (rule_before lc) (sort_rules lc rules')"
      by (rule sorted_sort_rules [OF rule_before_preorder]) (use assms(3) sets in simp)
    show "mset (sort_rules lc rules) = mset (sort_rules lc rules')" using assms(1) by simp
    fix a b assume ab: "a \<in> set (sort_rules lc rules)" "b \<in> set (sort_rules lc rules)" "rule_before lc a b" "rule_before lc b a"
    then have "lc (pr_key a) (pr_key b) \<le> 0" "lc (pr_key b) (pr_key a) \<le> 0" by (auto simp: rule_before_def)
    then have "pr_key a = pr_key b" by (rule collation_antisym [OF assms(3), rotated 2]) (use ab(1,2) in auto)
    then show "a = b" using assms(2) ab(1,2) by (simp add: distinct_map inj_on_def)
  qed
  then show ?thesis by simp
qed

definition demo_fee_rule :: pricing_rule where
  "demo_fee_rule = \<lparr>pr_key = ''fee'', pr_priority = 10, pr_evaluate = \<lambda>_ _. Inr
     [\<lparr>pa_ruleKey = ''fee'', pa_kind = AdjFee, pa_code = None, pa_label = ''fee'', pa_amount = JNaN\<rparr>]\<rparr>"

definition demo_lc :: "string \<Rightarrow> string \<Rightarrow> int" where
  "demo_lc a b = (if a = b then 0 else if a = ''fee'' then - 1 else 1)"

theorem registration_order_irrelevant_witness:
  "quote (sort_rules demo_lc [MembershipDiscountRule (\<lambda>_. Inr 1000), demo_fee_rule]) (demo_context 9999) =
   quote (sort_rules demo_lc [demo_fee_rule, MembershipDiscountRule (\<lambda>_. Inr 1000)]) (demo_context 9999)"
  by (rule registration_order_irrelevant)
    (simp_all add: demo_fee_rule_def demo_lc_def MembershipDiscountRule_def MEMBERSHIP_RULE_KEY_def collation_def)

lemma div_gap:
  fixes d x :: int
  assumes "\<not> d dvd x" "0 < d"
  shows "d * (x div d) < x"
proof -
  have "x mod d \<noteq> 0" "0 \<le> x mod d" using assms by (auto simp: dvd_eq_mod_eq_0)
  then show ?thesis using mult_div_mod_eq [of d x] by linarith
qed

text \<open>The membership discount is rounded down, against the customer: a priced context with the membership
  rule always gets a quote, its discount is the whole part of the promised percentage, and it is strictly less
  than the promise whenever the percentage is not a whole number of Toman.\<close>

theorem membership_discount_rounds_down:
  assumes "computeSubtotal ctx = Inr sub" "d (px_customer ctx) = Inr bp" "0 < bp" "bp \<le> 10000" "sub * bp < 2 ^ 53"
  shows "\<exists>r. quote [MembershipDiscountRule d] ctx = Inr r \<and> pq_discountTotal r = sub * bp div 10000 \<and>
    pq_total r = sub - sub * bp div 10000 \<and>
    (\<not> 10000 dvd sub * bp \<longrightarrow> 10000 * pq_discountTotal r < sub * bp)"
proof -
  have s0: "0 \<le> sub" using computeSubtotal_valid [OF assms(1)] by simp
  then have p: "0 \<le> sub * bp" using assms(3) by simp
  have "sub * bp \<le> sub * 10000" using s0 assms(4) by (rule mult_left_mono [rotated])
  then have le: "0 \<le> sub * bp div 10000" "sub * bp div 10000 \<le> sub" using p by linarith+
  have gap: "10000 * (sub * bp div 10000) < sub * bp" if "\<not> 10000 dvd sub * bp"
    by (rule div_gap) (use that in simp_all)
  from membership_quote [where d = d, OF assms(1,2) membership_amount_div [OF p assms(5)] assms(3) le] obtain r where
    "quote [MembershipDiscountRule d] ctx = Inr r" "pq_discountTotal r = sub * bp div 10000" "pq_total r = sub - sub * bp div 10000"
    by (elim exE conjE)
  with gap show ?thesis by (intro exI [of _ r]) simp
qed

theorem membership_discount_rounds_down_witness:
  "\<exists>r. quote [MembershipDiscountRule (\<lambda>_. Inr 1000)] (demo_context 9999) = Inr r \<and> pq_discountTotal r = 999 \<and>
     10000 * 999 < 9999 * (1000::int)"
  using membership_discount_rounds_down [OF demo_subtotal [of 9999], of "\<lambda>_. Inr 1000" 1000] by (auto simp: money_bounds)

text \<open>A fee that is not a number passes every guard of the engine: it is itemised among the adjustments of
  the quote, and the total leaves it out.\<close>

theorem nan_fee_accepted:
  "\<exists>r. quote [demo_fee_rule] (demo_context 50000) = Inr r \<and> map pa_amount (pq_adjustments r) = [JNaN] \<and>
     pq_feeTotal r = 0 \<and> pq_total r = 50000"
proof -
  have "fl 50000 = 50000" using fl_int [of 50000] by simp
  moreover have "assertAmount (Fin 0) l = Inr 0" "assertAmount (Fin 50000) l = Inr 50000" for l
    using assertAmount_Fin_int [of 0] assertAmount_Fin_int [of 50000] by (simp_all add: valid_amount_def money_bounds)
  moreover have "computeSubtotal (demo_context 50000) = Inr 50000" by (rule demo_subtotal) (simp_all add: money_bounds)
  ultimately show ?thesis
    by (simp add: quote_def demo_fee_rule_def normalize_def sumAmounts_def addAmounts_def assertNonNegativeAmount_def)
qed

end
