(* ===== verification/Collection_Policy.thy ===== *)
theory Collection_Policy
  imports Outcome_Policy
begin

text \<open>
  The collection policy contract (\<open>packages/commercial-policy-contract/src/booking-collection-policy-contract.ts\<close>):
  which part of a booking's price is collected online and which at the venue. The terms are typed, so
  a field is the declared type with any value of it; errors are listed in the source's order.
\<close>

datatype collection_mode = FullPaymentOnline | DepositOnlineBalanceAtVenue | PayAtVenue | UnknownMode string

datatype percentage_base = ServiceSubtotal | ServiceTotal | UnknownBase string

record percentage_deposit =
  pd_basisPoints :: jsnum
  pd_percentageBase :: percentage_base
  pd_minimum :: jsnum
  pd_maximum :: "jsnum option"

datatype deposit_rule = NoDeposit | FixedDeposit jsnum | PercentageDeposit percentage_deposit | UnknownDeposit string

record collection_terms =
  ct_contractVersion :: jsnum
  ct_mode :: collection_mode
  ct_deposit :: "deposit_rule option"

record collection_amounts =
  ca_serviceTotal :: int
  ca_collectible :: int
  ca_venueBalance :: int

datatype collection_error =
    CeContractVersion | CeMode | CeDepositKind | CeDepositRequired | CeDepositNotAllowed
  | CeFixedAmount | CeBasisPoints | CePercentageBase | CeMinimum | CeMaximum | CeMaximumBelowMinimum
  | CePolicyKey | CePolicyVersion | CeResolvedAt

datatype amounts_error = SubtotalOutOfBounds | TotalOutOfBounds | InvalidTermsGiven "collection_error list"

definition MAX_COLLECTION_AMOUNT_TOMAN :: int where "MAX_COLLECTION_AMOUNT_TOMAN = 10000000000000"

definition safe_integer_max :: int where "safe_integer_max = 2 ^ 53 - 1"

definition isSafeNonNegativeInteger :: "jsnum \<Rightarrow> bool" where
  "isSafeNonNegativeInteger v = isWholeInRange v 0 safe_integer_max"

definition num_le :: "jsnum \<Rightarrow> int \<Rightarrow> bool" where
  "num_le v n = (case v of Fin q \<Rightarrow> q \<le> of_int n | JNegInf \<Rightarrow> True | _ \<Rightarrow> False)"

definition isBoundedAmount :: "jsnum \<Rightarrow> bool" where
  "isBoundedAmount v \<longleftrightarrow> isSafeNonNegativeInteger v \<and> num_le v MAX_COLLECTION_AMOUNT_TOMAN"

definition deposit_errors :: "deposit_rule \<Rightarrow> collection_error list" where
  "deposit_errors d =
    (case d of
       NoDeposit \<Rightarrow> []
     | FixedDeposit a \<Rightarrow> if \<not> isBoundedAmount a \<or> a = Fin 0 then [CeFixedAmount] else []
     | PercentageDeposit p \<Rightarrow>
         (if \<not> isWholeInRange (pd_basisPoints p) 1 10000 then [CeBasisPoints] else [])
       @ (case pd_percentageBase p of UnknownBase _ \<Rightarrow> [CePercentageBase] | _ \<Rightarrow> [])
       @ (if \<not> isBoundedAmount (pd_minimum p) then [CeMinimum] else [])
       @ (case pd_maximum p of None \<Rightarrow> [] | Some m \<Rightarrow> if \<not> isBoundedAmount m then [CeMaximum] else [])
       @ (case pd_maximum p of None \<Rightarrow> []
          | Some m \<Rightarrow> if isSafeNonNegativeInteger (pd_minimum p) \<and> isSafeNonNegativeInteger m \<and> js_gt (pd_minimum p) m
                     then [CeMaximumBelowMinimum] else [])
     | UnknownDeposit _ \<Rightarrow> [])"

definition validateBookingCollectionTermsV1 :: "collection_terms \<Rightarrow> collection_error list" where
  "validateBookingCollectionTermsV1 t =
    (if ct_contractVersion t \<noteq> Fin 1 then [CeContractVersion] else [])
  @ (case ct_mode t of UnknownMode _ \<Rightarrow> [CeMode] | _ \<Rightarrow> [])
  @ (case ct_deposit t of
       None \<Rightarrow> [CeDepositKind]
     | Some (UnknownDeposit _) \<Rightarrow> [CeDepositKind]
     | Some d \<Rightarrow>
         (if ct_mode t = DepositOnlineBalanceAtVenue \<and> d = NoDeposit then [CeDepositRequired] else [])
       @ (if ct_mode t \<noteq> DepositOnlineBalanceAtVenue \<and> d \<noteq> NoDeposit then [CeDepositNotAllowed] else [])
       @ deposit_errors d)"

record collection_snapshot =
  cs_policyKey :: string
  cs_policyVersion :: jsnum
  cs_resolvedAt :: jsnum
  cs_terms :: collection_terms

text \<open>\<open>cs_resolvedAt\<close> is \<open>Date.parse\<close> of the recorded instant: a number, or not a number.\<close>

definition validateBookingCollectionPolicySnapshotV1 :: "collection_snapshot \<Rightarrow> collection_error list" where
  "validateBookingCollectionPolicySnapshotV1 s =
    validateBookingCollectionTermsV1 (cs_terms s)
  @ (if \<not> BOOKING_OUTCOME_KEY_PATTERN (cs_policyKey s) then [CePolicyKey] else [])
  @ (if \<not> isWholeInRange (cs_policyVersion s) 1 safe_integer_max then [CePolicyVersion] else [])
  @ (if \<not> isFinite (cs_resolvedAt s) then [CeResolvedAt] else [])"

definition whole :: "jsnum \<Rightarrow> int" where
  "whole v = (case v of Fin q \<Rightarrow> \<lfloor>q\<rfloor> | _ \<Rightarrow> 0)"

definition deposit_amount :: "deposit_rule \<Rightarrow> int \<Rightarrow> int \<Rightarrow> int" where
  "deposit_amount d subtotal serviceTotal =
    (case d of
       FixedDeposit a \<Rightarrow> whole a
     | PercentageDeposit p \<Rightarrow>
         (let base = (if pd_percentageBase p = ServiceSubtotal then subtotal else serviceTotal);
              proportional = (base * whole (pd_basisPoints p)) div 10000;
              atLeastMinimum = max proportional (whole (pd_minimum p))
          in case pd_maximum p of None \<Rightarrow> atLeastMinimum | Some m \<Rightarrow> min atLeastMinimum (whole m))
     | _ \<Rightarrow> 0)"

definition bookingCollectionAmountsV1 :: "jsnum \<Rightarrow> jsnum \<Rightarrow> collection_terms \<Rightarrow> amounts_error + collection_amounts" where
  "bookingCollectionAmountsV1 subtotal serviceTotal terms =
    (if \<not> isBoundedAmount subtotal then Inl SubtotalOutOfBounds
     else if \<not> isBoundedAmount serviceTotal then Inl TotalOutOfBounds
     else let problems = validateBookingCollectionTermsV1 terms in
       if problems \<noteq> [] then Inl (InvalidTermsGiven problems)
       else let s = whole subtotal; t = whole serviceTotal;
                collectible =
                  (case ct_mode terms of
                     FullPaymentOnline \<Rightarrow> t
                   | DepositOnlineBalanceAtVenue \<Rightarrow>
                       min (case ct_deposit terms of None \<Rightarrow> 0 | Some d \<Rightarrow> deposit_amount d s t) t
                   | _ \<Rightarrow> 0)
            in Inr \<lparr>ca_serviceTotal = t, ca_collectible = collectible, ca_venueBalance = t - collectible\<rparr>)"

section \<open>Lemmas\<close>

lemma isBoundedAmount_iff: "isBoundedAmount v \<longleftrightarrow> (\<exists>n. v = fin_int n \<and> 0 \<le> n \<and> n \<le> MAX_COLLECTION_AMOUNT_TOMAN)"
proof -
  have "MAX_COLLECTION_AMOUNT_TOMAN \<le> safe_integer_max"
    by (simp add: MAX_COLLECTION_AMOUNT_TOMAN_def safe_integer_max_def)
  then show ?thesis
    by (auto simp: isBoundedAmount_def isSafeNonNegativeInteger_def isWholeInRange_iff num_le_def fin_int_def)
qed

lemma whole_fin_int [simp]: "whole (fin_int n) = n"
  by (simp add: whole_def fin_int_def)

lemma deposit_amount_nonneg:
  assumes "deposit_errors d = []" "0 \<le> s" "0 \<le> t"
  shows "0 \<le> deposit_amount d s t"
proof (cases d)
  case (PercentageDeposit p)
  from assms(1) PercentageDeposit obtain b m where b: "pd_basisPoints p = fin_int b" "1 \<le> b" "b \<le> 10000"
    and m: "pd_minimum p = fin_int m" "0 \<le> m"
    and x: "\<And>x. pd_maximum p = Some x \<Longrightarrow> isBoundedAmount x"
    by (auto simp: deposit_errors_def isWholeInRange_iff isBoundedAmount_iff split: if_splits option.splits)
  have "0 \<le> s * b div 10000" "0 \<le> t * b div 10000" using assms b by (auto simp: pos_imp_zdiv_nonneg_iff)
  with b m PercentageDeposit show ?thesis
    by (cases "pd_maximum p") (auto simp: deposit_amount_def Let_def dest!: x simp: isBoundedAmount_iff)
qed (use assms in \<open>auto simp: deposit_errors_def deposit_amount_def isBoundedAmount_iff split: if_splits\<close>)

lemma amounts_Inr:
  assumes "bookingCollectionAmountsV1 (fin_int s) (fin_int t) terms = Inr a"
  shows "0 \<le> s" "0 \<le> t" "validateBookingCollectionTermsV1 terms = []" "ca_serviceTotal a = t"
    "0 \<le> ca_collectible a" "ca_collectible a \<le> t" "ca_venueBalance a = t - ca_collectible a"
proof -
  from assms have b: "isBoundedAmount (fin_int s)" "isBoundedAmount (fin_int t)"
    and v: "validateBookingCollectionTermsV1 terms = []"
    by (auto simp: bookingCollectionAmountsV1_def Let_def split: if_splits)
  then show st: "0 \<le> s" "0 \<le> t" by (auto simp: isBoundedAmount_iff)
  show "validateBookingCollectionTermsV1 terms = []" by (rule v)
  have d: "0 \<le> deposit_amount d s t" if "ct_deposit terms = Some d" for d
  proof (rule deposit_amount_nonneg [OF _ st])
    show "deposit_errors d = []"
      using v that by (cases d) (auto simp: validateBookingCollectionTermsV1_def deposit_errors_def)
  qed
  show "ca_serviceTotal a = t" "0 \<le> ca_collectible a" "ca_collectible a \<le> t"
    "ca_venueBalance a = t - ca_collectible a"
    using assms b v st d
    by (auto simp: bookingCollectionAmountsV1_def Let_def split: collection_mode.splits option.splits)
qed

section \<open>Properties\<close>

text \<open>Whenever the collection arithmetic answers, the split is exact and disclosed: the collectible
  amount and the venue balance are non-negative and add up to the service total, so no rule, minimum or
  fixed deposit ever collects more than the price.\<close>

theorem collection_split_exact:
  assumes "bookingCollectionAmountsV1 (fin_int s) (fin_int t) terms = Inr a"
  shows "ca_serviceTotal a = t \<and> 0 \<le> ca_collectible a \<and> 0 \<le> ca_venueBalance a \<and>
    ca_collectible a + ca_venueBalance a = t"
  using amounts_Inr [OF assms] by simp

theorem collection_split_exact_witness:
  "bookingCollectionAmountsV1 (fin_int 200000) (fin_int 180000)
     \<lparr>ct_contractVersion = Fin 1, ct_mode = DepositOnlineBalanceAtVenue, ct_deposit = Some (FixedDeposit (fin_int 500000))\<rparr> =
   Inr \<lparr>ca_serviceTotal = 180000, ca_collectible = 180000, ca_venueBalance = 0\<rparr> \<and> 180000 + 0 = (180000 :: int)"
proof -
  have c: "bookingCollectionAmountsV1 (fin_int 200000) (fin_int 180000)
     \<lparr>ct_contractVersion = Fin 1, ct_mode = DepositOnlineBalanceAtVenue, ct_deposit = Some (FixedDeposit (fin_int 500000))\<rparr> =
   Inr \<lparr>ca_serviceTotal = 180000, ca_collectible = 180000, ca_venueBalance = 0\<rparr>"
    by (simp add: bookingCollectionAmountsV1_def validateBookingCollectionTermsV1_def deposit_errors_def
        isBoundedAmount_iff deposit_amount_def MAX_COLLECTION_AMOUNT_TOMAN_def Let_def) (simp add: fin_int_def)
  from collection_split_exact [OF c] c show ?thesis by simp
qed

text \<open>A percentage deposit obeys its published bounds against the service total: it is at least the
  minimum and at most the maximum, except that the total always wins, and between the bounds it is the
  floor of the published proportion of the published base, so rounding never collects more than it.\<close>

theorem percentage_deposit_bounds:
  assumes "bookingCollectionAmountsV1 (fin_int s) (fin_int t)
      \<lparr>ct_contractVersion = v, ct_mode = DepositOnlineBalanceAtVenue, ct_deposit = Some (PercentageDeposit p)\<rparr> = Inr a"
    "pd_basisPoints p = fin_int b" "pd_minimum p = fin_int lo"
  defines "base \<equiv> (if pd_percentageBase p = ServiceSubtotal then s else t)"
  shows "min lo t \<le> ca_collectible a \<and>
    (case pd_maximum p of None \<Rightarrow> True | Some hi \<Rightarrow> ca_collectible a \<le> whole hi) \<and>
    (lo < ca_collectible a \<longrightarrow> 10000 * ca_collectible a \<le> base * b)"
proof -
  have e: "ca_collectible a = min (deposit_amount (PercentageDeposit p) s t) t"
    and v: "deposit_errors (PercentageDeposit p) = []"
    using assms(1) by (auto simp: bookingCollectionAmountsV1_def validateBookingCollectionTermsV1_def Let_def split: if_splits)
  have f: "10000 * (base * b div 10000) \<le> base * b"
    using div_mult_mod_eq [of "base * b" 10000] pos_mod_sign [of 10000 "base * b"] by linarith
  have hi: "lo \<le> h" if "pd_maximum p = Some (fin_int h)" "0 \<le> h" for h
  proof -
    have "isBoundedAmount (fin_int h)" "isBoundedAmount (fin_int lo)" "\<not> js_gt (fin_int lo) (fin_int h)"
      using v that assms(3)
      by (auto simp: deposit_errors_def isBoundedAmount_def split: if_splits)
    then show ?thesis by (simp add: fin_int_def)
  qed
  show ?thesis
  proof (cases "pd_maximum p")
    case None
    with assms(2,3) e f show ?thesis by (auto simp: deposit_amount_def Let_def base_def [symmetric] min_def max_def split: if_splits)
  next
    case (Some m)
    with v obtain h where h: "m = fin_int h" "0 \<le> h"
      by (auto simp: deposit_errors_def isBoundedAmount_iff split: if_splits)
    with Some hi have "lo \<le> h" by simp
    with Some h assms(2,3) e f show ?thesis
      by (auto simp: deposit_amount_def Let_def base_def [symmetric] min_def max_def split: if_splits)
  qed
qed

theorem percentage_deposit_bounds_witness:
  "bookingCollectionAmountsV1 (fin_int 200000) (fin_int 180000)
     \<lparr>ct_contractVersion = Fin 1, ct_mode = DepositOnlineBalanceAtVenue, ct_deposit = Some (PercentageDeposit
        \<lparr>pd_basisPoints = fin_int 3333, pd_percentageBase = ServiceSubtotal, pd_minimum = fin_int 10000, pd_maximum = None\<rparr>)\<rparr> =
   Inr \<lparr>ca_serviceTotal = 180000, ca_collectible = 66660, ca_venueBalance = 113340\<rparr> \<and> 10000 * 66660 \<le> 200000 * (3333 :: int)"
proof -
  let ?p = "\<lparr>pd_basisPoints = fin_int 3333, pd_percentageBase = ServiceSubtotal, pd_minimum = fin_int 10000, pd_maximum = None\<rparr>"
  have c: "bookingCollectionAmountsV1 (fin_int 200000) (fin_int 180000)
     \<lparr>ct_contractVersion = Fin 1, ct_mode = DepositOnlineBalanceAtVenue, ct_deposit = Some (PercentageDeposit ?p)\<rparr> =
   Inr \<lparr>ca_serviceTotal = 180000, ca_collectible = 66660, ca_venueBalance = 113340\<rparr>"
    by (simp add: bookingCollectionAmountsV1_def validateBookingCollectionTermsV1_def deposit_errors_def
        isBoundedAmount_iff deposit_amount_def MAX_COLLECTION_AMOUNT_TOMAN_def Let_def)
  from percentage_deposit_bounds [OF c, of 3333 10000] c show ?thesis by simp
qed

end
