(* ===== verification/Commission.thy ===== *)
theory Commission
  imports Js_Value
begin

text \<open>
  The commission engine (\<open>packages/commercial-policy-contract/src/commission-policy-contract.ts\<close>):
  what each component's rule asks for, how the ceiling is allocated across the components in their
  fixed order, what becomes a receivable, and the cumulative reversal of the legacy ledger. The
  arithmetic is \<open>BigInt\<close>, so \<open>int\<close>; the guards take any JavaScript number.
\<close>

datatype commission_component = BookingCommission | Acquisition | ProcessingRecovery
datatype commission_rule_kind = RuleZero | RulePercentage | RuleFixed | RuleHybrid | RuleUnknown string
datatype commission_base = PlatformCollectedAmount | BaseServiceTotal
datatype commission_term_state = TermAbsent | TermZero | TermRule
datatype commission_outcome_basis = Completion | SellerRetained

definition MAX_COMMISSION_AMOUNT_TOMAN :: int where "MAX_COMMISSION_AMOUNT_TOMAN = 10000000000000"
definition MAX_COMMISSION_BASIS_POINTS :: int where "MAX_COMMISSION_BASIS_POINTS = 10000"
definition COMMISSION_ARITHMETIC_VERSION :: int where "COMMISSION_ARITHMETIC_VERSION = 1"

definition COMMISSION_COMPONENTS :: "commission_component list" where
  "COMMISSION_COMPONENTS = [BookingCommission, Acquisition, ProcessingRecovery]"

lemmas commission_bounds = MAX_COMMISSION_AMOUNT_TOMAN_def MAX_COMMISSION_BASIS_POINTS_def

record commission_term =
  cm_component :: commission_component
  cm_state :: commission_term_state
  cm_policyKey :: "string option"
  cm_policyVersion :: "jsnum option"
  cm_ruleKind :: "commission_rule_kind option"
  cm_basisPoints :: "jsnum option"
  cm_fixed :: "jsnum option"
  cm_base :: "commission_base option"
  cm_arithmeticVersion :: "jsnum option"

record commission_input =
  ci_basis :: commission_outcome_basis
  ci_terms :: "commission_term list"
  ci_collectedTotal :: jsnum
  ci_serviceTotal :: jsnum
  ci_held :: jsnum
  ci_retained :: jsnum

record component_result =
  cr_component :: commission_component
  cr_state :: commission_term_state
  cr_computed :: int
  cr_deductible :: int

record commission_evaluation =
  ce_basis :: commission_outcome_basis
  ce_components :: "component_result list"
  ce_computedTotal :: int
  ce_deductibleTotal :: int
  ce_excess :: int
  ce_createsReceivable :: bool

datatype commission_error =
    NotIntegerToman string
  | NegativeToman string
  | AboveCeiling string
  | BasisPointsAboveCeiling
  | PercentageWithoutBasisPoints
  | FixedWithoutAmount
  | HybridIncomplete
  | UnknownRuleKind
  | RefundedAboveNet

definition requireInteger :: "string \<Rightarrow> jsnum \<Rightarrow> commission_error + int" where
  "requireInteger label v =
    (if \<not> isInteger v then Inl (NotIntegerToman label)
     else case v of Fin q \<Rightarrow>
            (if q < 0 then Inl (NegativeToman label)
             else if q > of_int MAX_COMMISSION_AMOUNT_TOMAN then Inl (AboveCeiling label)
             else Inr \<lfloor>q\<rfloor>)
          | _ \<Rightarrow> Inl (NotIntegerToman label))"

definition optional_integer :: "string \<Rightarrow> jsnum option \<Rightarrow> commission_error + int option" where
  "optional_integer label v =
    (case v of None \<Rightarrow> Inr None | Some n \<Rightarrow> bind_res (requireInteger label n) (\<lambda>i. Inr (Some i)))"

definition computeComponent :: "commission_term \<Rightarrow> int \<Rightarrow> commission_error + int" where
  "computeComponent term baseValue =
    (case (cm_state term, cm_ruleKind term) of
       (TermAbsent, _) \<Rightarrow> Inr 0
     | (TermZero, _) \<Rightarrow> Inr 0
     | (_, None) \<Rightarrow> Inr 0
     | (_, Some kind) \<Rightarrow>
        (if kind = RuleZero then Inr 0
         else bind_res (optional_integer ''basisPoints'' (cm_basisPoints term)) (\<lambda>bp.
              bind_res (optional_integer ''fixedToman'' (cm_fixed term)) (\<lambda>fixed.
              if (case bp of Some b \<Rightarrow> b > MAX_COMMISSION_BASIS_POINTS | None \<Rightarrow> False) then Inl BasisPointsAboveCeiling
              else (case kind of
                  RulePercentage \<Rightarrow> (case bp of None \<Rightarrow> Inl PercentageWithoutBasisPoints
                     | Some b \<Rightarrow> Inr ((baseValue * b) div MAX_COMMISSION_BASIS_POINTS))
                | RuleFixed \<Rightarrow> (case fixed of None \<Rightarrow> Inl FixedWithoutAmount | Some f \<Rightarrow> Inr f)
                | RuleHybrid \<Rightarrow> (case (bp, fixed) of
                     (Some b, Some f) \<Rightarrow> Inr (f + (baseValue * b) div MAX_COMMISSION_BASIS_POINTS)
                   | _ \<Rightarrow> Inl HybridIncomplete)
                | _ \<Rightarrow> Inl UnknownRuleKind)))))"

definition absent_term :: "commission_component \<Rightarrow> commission_term" where
  "absent_term c = \<lparr>cm_component = c, cm_state = TermAbsent, cm_policyKey = None, cm_policyVersion = None,
     cm_ruleKind = None, cm_basisPoints = None, cm_fixed = None, cm_base = None, cm_arithmeticVersion = None\<rparr>"

text \<open>A later term of a component replaces an earlier one, as \<open>Map.set\<close> does.\<close>

definition term_for :: "commission_term list \<Rightarrow> commission_component \<Rightarrow> commission_term" where
  "term_for terms c = (case find (\<lambda>t. cm_component t = c) (rev terms) of None \<Rightarrow> absent_term c | Some t \<Rightarrow> t)"

fun compute_components ::
  "commission_term list \<Rightarrow> (commission_term \<Rightarrow> int) \<Rightarrow> commission_component list \<Rightarrow>
     commission_error + (commission_component \<times> commission_term_state \<times> int) list" where
  "compute_components terms base [] = Inr []"
| "compute_components terms base (c # cs) =
    bind_res (computeComponent (term_for terms c) (base (term_for terms c))) (\<lambda>amount.
    bind_res (compute_components terms base cs) (\<lambda>rest.
    Inr ((c, cm_state (term_for terms c), amount) # rest)))"

fun allocate :: "int \<Rightarrow> (commission_component \<times> commission_term_state \<times> int) list \<Rightarrow> component_result list" where
  "allocate remaining [] = []"
| "allocate remaining ((c, st, amount) # rest) =
    (let deductible = (if amount < remaining then amount else remaining)
     in \<lparr>cr_component = c, cr_state = st, cr_computed = amount, cr_deductible = deductible\<rparr>
        # allocate (remaining - deductible) rest)"

definition base_value :: "commission_outcome_basis \<Rightarrow> int \<Rightarrow> int \<Rightarrow> int \<Rightarrow> commission_term \<Rightarrow> int" where
  "base_value basis collected serviceTotal retained term =
    (if basis = SellerRetained then retained
     else if cm_base term = Some BaseServiceTotal then serviceTotal else collected)"

text \<open>The tail of \<open>evaluateCommission\<close>: the allocation, the capped total and the excess.\<close>

definition settle_components ::
  "commission_outcome_basis \<Rightarrow> int \<Rightarrow> (commission_component \<times> commission_term_state \<times> int) list \<Rightarrow> commission_evaluation" where
  "settle_components basis cap computed =
    (let tot = sum_list (map (\<lambda>(_, _, a). a) computed);
         deductibleTotal = (if cap < tot then cap else tot);
         excess = (if basis = SellerRetained then 0 else tot - deductibleTotal)
     in \<lparr>ce_basis = basis, ce_components = allocate cap computed, ce_computedTotal = tot,
         ce_deductibleTotal = deductibleTotal, ce_excess = excess, ce_createsReceivable = (excess > 0)\<rparr>)"

definition evaluateCommission :: "commission_input \<Rightarrow> commission_error + commission_evaluation" where
  "evaluateCommission inp =
    bind_res (requireInteger ''collectedTotalToman'' (ci_collectedTotal inp)) (\<lambda>collected.
    bind_res (requireInteger ''serviceTotalToman'' (ci_serviceTotal inp)) (\<lambda>serviceTotal.
    bind_res (requireInteger ''heldToman'' (ci_held inp)) (\<lambda>held.
    bind_res (requireInteger ''retainedToman'' (ci_retained inp)) (\<lambda>retained.
    bind_res (compute_components (ci_terms inp) (base_value (ci_basis inp) collected serviceTotal retained)
                COMMISSION_COMPONENTS) (\<lambda>computed.
    Inr (settle_components (ci_basis inp) (if ci_basis inp = SellerRetained then retained else held) computed))))))"

definition legacyCommissionReversalToman :: "jsnum \<Rightarrow> jsnum \<Rightarrow> jsnum \<Rightarrow> jsnum \<Rightarrow> commission_error + int" where
  "legacyCommissionReversalToman originalNet refundedToDate originalRate alreadyReversed =
    bind_res (requireInteger ''originalNetToman'' originalNet) (\<lambda>net.
    bind_res (requireInteger ''refundedToDateToman'' refundedToDate) (\<lambda>refunded.
    bind_res (requireInteger ''alreadyReversedToman'' alreadyReversed) (\<lambda>reversed.
    bind_res (requireInteger ''originalRateBp'' originalRate) (\<lambda>rate.
    if rate > MAX_COMMISSION_BASIS_POINTS then Inl BasisPointsAboveCeiling
    else if refunded > net then Inl RefundedAboveNet
    else let remainingNet = net - refunded;
             commissionOnRemaining = (remainingNet * rate) div MAX_COMMISSION_BASIS_POINTS;
             commissionOriginal = (net * rate) div MAX_COMMISSION_BASIS_POINTS;
             owedReversal = commissionOriginal - commissionOnRemaining;
             now = owedReversal - reversed
         in Inr (if now > 0 then now else 0)))))"

section \<open>Lemmas\<close>

definition commission_amount :: "int \<Rightarrow> bool" where
  "commission_amount n \<longleftrightarrow> 0 \<le> n \<and> n \<le> MAX_COMMISSION_AMOUNT_TOMAN"

lemma requireInteger_fin_int:
  "requireInteger l (fin_int n) =
    (if n < 0 then Inl (NegativeToman l) else if n > MAX_COMMISSION_AMOUNT_TOMAN then Inl (AboveCeiling l) else Inr n)"
  by (simp add: requireInteger_def isInteger_def fin_int_def)

lemma requireInteger_Inr: "requireInteger l v = Inr n \<longleftrightarrow> v = fin_int n \<and> commission_amount n"
proof (cases "isInteger v")
  case True
  then obtain q where q: "v = Fin q" "q = of_int \<lfloor>q\<rfloor>"
    by (auto simp: isInteger_def split: jsnum.splits)
  then have "v = fin_int \<lfloor>q\<rfloor>" by (simp add: fin_int_def)
  then show ?thesis by (auto simp: requireInteger_fin_int commission_amount_def)
next
  case False
  then show ?thesis by (auto simp: requireInteger_def isInteger_def fin_int_def)
qed

lemma base_value_retained: "base_value SellerRetained c s r = (\<lambda>_. r)"
  by (rule ext) (simp add: base_value_def)

lemma optional_integer_Inr_Some:
  "optional_integer l v = Inr (Some n) \<longleftrightarrow> v = Some (fin_int n) \<and> commission_amount n"
  by (auto simp: optional_integer_def bind_res_Inr requireInteger_Inr split: option.splits)

lemma computeComponent_nonneg:
  assumes "computeComponent t b = Inr a" "0 \<le> b"
  shows "0 \<le> a"
proof -
  have d: "0 \<le> b * n div MAX_COMMISSION_BASIS_POINTS" if "commission_amount n" for n
    using assms(2) that by (simp add: commission_bounds commission_amount_def pos_imp_zdiv_nonneg_iff)
  show ?thesis
    using assms(1)
    by (auto simp: computeComponent_def bind_res_Inr optional_integer_Inr_Some commission_amount_def
        intro!: add_nonneg_nonneg d
        split: commission_term_state.splits option.splits if_splits commission_rule_kind.splits)
qed

lemma compute_components_nonneg:
  assumes "compute_components ts base cs = Inr r" "\<And>t. 0 \<le> base t"
  shows "\<forall>x \<in> set r. 0 \<le> snd (snd x)"
  using assms(1)
proof (induction cs arbitrary: r)
  case (Cons c cs)
  then obtain a rest where "computeComponent (term_for ts c) (base (term_for ts c)) = Inr a"
    "compute_components ts base cs = Inr rest" "r = (c, cm_state (term_for ts c), a) # rest"
    by (auto simp: bind_res_Inr)
  with Cons.IH computeComponent_nonneg assms(2) show ?case by fastforce
qed simp

lemma allocate_computed_nonneg:
  "\<forall>x \<in> set xs. 0 \<le> snd (snd x) \<Longrightarrow> r \<in> set (allocate ceil xs) \<Longrightarrow> 0 \<le> cr_computed r"
  by (induction xs arbitrary: ceil) (auto simp: Let_def)

text \<open>What an allocation does to every prefix: the money deducted so far is what was asked so far, up
  to the ceiling.\<close>

lemma allocate_prefix:
  assumes "\<forall>x \<in> set xs. 0 \<le> snd (snd x)" "0 \<le> ceil"
  shows "sum_list (map cr_deductible (take k (allocate ceil xs))) =
    min (sum_list (map cr_computed (take k (allocate ceil xs)))) ceil"
  using assms
proof (induction xs arbitrary: ceil k)
  case Nil
  then show ?case by simp
next
  case (Cons x xs)
  obtain c st a where x: "x = (c, st, a)" by (cases x)
  have a: "0 \<le> a" "\<forall>x \<in> set xs. 0 \<le> snd (snd x)" using Cons.prems x by auto
  show ?case
  proof (cases k)
    case 0
    then show ?thesis using Cons.prems by simp
  next
    case (Suc j)
    have pos: "0 \<le> sum_list (map cr_computed (take j (allocate 0 xs)))" for j
      using allocate_computed_nonneg [OF a(2)] by (intro sum_list_map_nonneg) (meson in_set_takeD)
    show ?thesis
    proof (cases "a < ceil")
      case True
      with Cons.IH [OF a(2), of "ceil - a" j] Suc x show ?thesis by (simp add: Let_def min_def split: if_splits)
    next
      case False
      with Cons.IH [OF a(2), of 0 j] pos [of j] Suc x Cons.prems(2) show ?thesis by (simp add: Let_def)
    qed
  qed
qed

lemma allocate_map: "map (\<lambda>r. (cr_component r, cr_state r, cr_computed r)) (allocate ceil xs) = xs"
  by (induction xs arbitrary: ceil) (auto simp: Let_def)

lemma allocate_computed: "sum_list (map cr_computed (allocate ceil xs)) = sum_list (map (\<lambda>(_, _, a). a) xs)"
  by (induction xs arbitrary: ceil) (auto simp: Let_def)

lemma allocate_bounds:
  assumes "\<forall>x \<in> set xs. 0 \<le> snd (snd x)" "0 \<le> ceil" "r \<in> set (allocate ceil xs)"
  shows "0 \<le> cr_deductible r \<and> cr_deductible r \<le> cr_computed r"
  using assms
proof (induction xs arbitrary: ceil)
  case (Cons x xs)
  obtain c st a where x: "x = (c, st, a)" by (cases x)
  let ?d = "if a < ceil then a else ceil"
  have "r = \<lparr>cr_component = c, cr_state = st, cr_computed = a, cr_deductible = ?d\<rparr> \<or> r \<in> set (allocate (ceil - ?d) xs)"
    using Cons.prems(3) x by (simp add: Let_def)
  then show ?case
  proof
    assume "r \<in> set (allocate (ceil - ?d) xs)"
    with Cons.prems show ?thesis by (intro Cons.IH [of "ceil - ?d"]) auto
  qed (use Cons.prems x in auto)
qed simp

lemma length_components: "compute_components ts base cs = Inr xs \<Longrightarrow> map fst xs = cs"
  by (induction cs arbitrary: xs) (auto simp: bind_res_Inr)

text \<open>An evaluation is a successful computation of the components, then an allocation.\<close>

definition ceiling_of :: "commission_input \<Rightarrow> jsnum" where
  "ceiling_of inp = (if ci_basis inp = SellerRetained then ci_retained inp else ci_held inp)"

lemma evaluateCommission_Inr:
  assumes "evaluateCommission inp = Inr e"
  obtains ceil computed where "ceiling_of inp = fin_int ceil" "0 \<le> ceil"
    "map fst computed = COMMISSION_COMPONENTS" "\<forall>x \<in> set computed. 0 \<le> snd (snd x)"
    "e = settle_components (ci_basis inp) ceil computed"
proof -
  from assms obtain c s h r computed where
    v: "requireInteger ''collectedTotalToman'' (ci_collectedTotal inp) = Inr c"
      "requireInteger ''serviceTotalToman'' (ci_serviceTotal inp) = Inr s"
      "requireInteger ''heldToman'' (ci_held inp) = Inr h"
      "requireInteger ''retainedToman'' (ci_retained inp) = Inr r"
    and comp: "compute_components (ci_terms inp) (base_value (ci_basis inp) c s r) COMMISSION_COMPONENTS = Inr computed"
    and e: "e = settle_components (ci_basis inp) (if ci_basis inp = SellerRetained then r else h) computed"
    unfolding evaluateCommission_def bind_res_Inr by auto
  have n: "commission_amount c" "commission_amount s" "commission_amount h" "commission_amount r"
    and cl: "ceiling_of inp = fin_int (if ci_basis inp = SellerRetained then r else h)"
    using v by (auto simp: requireInteger_Inr ceiling_of_def)
  have "0 \<le> base_value (ci_basis inp) c s r t" for t
    using n by (simp add: base_value_def commission_amount_def)
  with comp have "\<forall>x \<in> set computed. 0 \<le> snd (snd x)" by (rule compute_components_nonneg)
  moreover have "0 \<le> (if ci_basis inp = SellerRetained then r else h)" using n by (simp add: commission_amount_def)
  ultimately show thesis using that [OF cl] length_components [OF comp] e by blast
qed

section \<open>Properties\<close>

text \<open>C23: The ceiling is consumed in component order: after any number of components the amount
  deducted is exactly what their rules asked for, capped at the ceiling; no component is charged more
  than its rule; the components are the three of the fixed order, each once.\<close>

theorem commission_allocated_in_order:
  assumes "evaluateCommission inp = Inr e"
  shows "\<exists>ceil. ceiling_of inp = fin_int ceil \<and>
    map cr_component (ce_components e) = COMMISSION_COMPONENTS \<and>
    list_all (\<lambda>k. sum_list (map cr_deductible (take k (ce_components e))) =
       min (sum_list (map cr_computed (take k (ce_components e)))) ceil) [0, 1, 2, 3] \<and>
    list_all (\<lambda>r. 0 \<le> cr_deductible r \<and> cr_deductible r \<le> cr_computed r) (ce_components e)"
proof -
  obtain ceil computed where c: "ceiling_of inp = fin_int ceil" "0 \<le> ceil"
    "map fst computed = COMMISSION_COMPONENTS" "\<forall>x \<in> set computed. 0 \<le> snd (snd x)"
    "e = settle_components (ci_basis inp) ceil computed"
    using evaluateCommission_Inr [OF assms] .
  have comps: "ce_components e = allocate ceil computed" by (simp add: c(5) settle_components_def Let_def)
  have "map cr_component (allocate ceil computed) = map fst computed"
    using arg_cong [OF allocate_map [of ceil computed], of "map fst"] by (simp add: comp_def)
  with c(1,3) allocate_prefix [OF c(4,2)] allocate_bounds [OF c(4,2)] show ?thesis
    unfolding comps list_all_iff by (intro exI [of _ ceil] conjI ballI) simp_all
qed

definition percent_term :: "commission_component \<Rightarrow> int \<Rightarrow> commission_base \<Rightarrow> commission_term" where
  "percent_term c bp b = (absent_term c)\<lparr>cm_state := TermRule, cm_ruleKind := Some RulePercentage,
     cm_basisPoints := Some (fin_int bp), cm_base := Some b\<rparr>"

definition sample_commission :: "commission_outcome_basis \<Rightarrow> commission_input" where
  "sample_commission b = \<lparr>ci_basis = b,
     ci_terms = [percent_term BookingCommission 1000 BaseServiceTotal, percent_term Acquisition 2000 PlatformCollectedAmount],
     ci_collectedTotal = fin_int 30000, ci_serviceTotal = fin_int 100000, ci_held = fin_int 12000, ci_retained = fin_int 0\<rparr>"

definition sample_result :: commission_evaluation where
  "sample_result = \<lparr>ce_basis = Completion,
      ce_components =
        [\<lparr>cr_component = BookingCommission, cr_state = TermRule, cr_computed = 10000, cr_deductible = 10000\<rparr>,
         \<lparr>cr_component = Acquisition, cr_state = TermRule, cr_computed = 6000, cr_deductible = 2000\<rparr>,
         \<lparr>cr_component = ProcessingRecovery, cr_state = TermAbsent, cr_computed = 0, cr_deductible = 0\<rparr>],
      ce_computedTotal = 16000, ce_deductibleTotal = 12000, ce_excess = 4000, ce_createsReceivable = True\<rparr>"

lemma sample_commission_eval: "evaluateCommission (sample_commission Completion) = Inr sample_result"
  by (simp add: evaluateCommission_def sample_commission_def requireInteger_fin_int COMMISSION_COMPONENTS_def sample_result_def
      term_for_def percent_term_def absent_term_def computeComponent_def optional_integer_def commission_bounds Let_def
      base_value_def settle_components_def)

theorem commission_allocated_in_order_witness:
  "map cr_deductible (ce_components sample_result) = [10000, 2000, 0] \<and>
   sum_list (map cr_deductible (take 2 (ce_components sample_result))) = min (10000 + 6000) 12000"
  using commission_allocated_in_order [OF sample_commission_eval]
  by (auto simp: sample_commission_def sample_result_def ceiling_of_def numeral_eq_Suc)

text \<open>On completion nothing is lost: what is deducted plus the receivable is what the rules asked
  for, and a receivable exists exactly when the rules ask for more than is held. On a seller-retained
  outcome no receivable is ever created and at most the retained amount is charged.\<close>

theorem commission_receivable:
  assumes "evaluateCommission inp = Inr e"
  shows "ce_deductibleTotal e = sum_list (map cr_deductible (ce_components e)) \<and>
    ce_computedTotal e = sum_list (map cr_computed (ce_components e)) \<and>
    (case ci_basis inp of
       Completion \<Rightarrow> ce_deductibleTotal e + ce_excess e = ce_computedTotal e \<and>
         (ce_createsReceivable e \<longleftrightarrow> (\<exists>held. ci_held inp = fin_int held \<and> held < ce_computedTotal e))
     | SellerRetained \<Rightarrow> ce_excess e = 0 \<and> \<not> ce_createsReceivable e \<and>
         (\<exists>r. ci_retained inp = fin_int r \<and> ce_deductibleTotal e \<le> r))"
proof -
  obtain ceil computed where c: "ceiling_of inp = fin_int ceil" "0 \<le> ceil"
    "map fst computed = COMMISSION_COMPONENTS" "\<forall>x \<in> set computed. 0 \<le> snd (snd x)"
    "e = settle_components (ci_basis inp) ceil computed"
    using evaluateCommission_Inr [OF assms] .
  note comps = c(5) [unfolded settle_components_def Let_def]
  have p: "sum_list (map cr_deductible (allocate ceil computed)) = min (sum_list (map (\<lambda>(_, _, a). a) computed)) ceil"
    using allocate_prefix [OF c(4,2), of "length (allocate ceil computed)"] by (simp add: allocate_computed)
  show ?thesis
    using c(1) p by (auto simp: comps allocate_computed ceiling_of_def min_def split: commission_outcome_basis.splits)
qed

theorem commission_receivable_witness:
  "ce_deductibleTotal sample_result + ce_excess sample_result = ce_computedTotal sample_result \<and>
   ce_createsReceivable sample_result"
  using commission_receivable [OF sample_commission_eval] by (simp add: sample_commission_def) (simp add: sample_result_def)

text \<open>A seller-retained outcome reads nothing but the retained amount: any two inputs with the same
  terms and the same retained amount, whatever was collected, priced or held, charge the same.\<close>

theorem retained_ignores_completion_facts:
  assumes "evaluateCommission inp = Inr e" "ci_basis inp = SellerRetained"
    "commission_amount c" "commission_amount t" "commission_amount h"
  shows "evaluateCommission (inp\<lparr>ci_collectedTotal := fin_int c, ci_serviceTotal := fin_int t, ci_held := fin_int h\<rparr>) = Inr e"
proof -
  have "requireInteger l (fin_int c) = Inr c" "requireInteger l (fin_int t) = Inr t" "requireInteger l (fin_int h) = Inr h" for l
    using assms(3-5) by (simp_all add: requireInteger_Inr)
  then show ?thesis
    using assms(1,2) by (auto simp: evaluateCommission_def bind_res_Inr base_value_retained)
qed

theorem retained_ignores_completion_facts_witness:
  "\<exists>e. evaluateCommission ((sample_commission SellerRetained)
      \<lparr>ci_collectedTotal := fin_int 1, ci_serviceTotal := fin_int 2, ci_held := fin_int 3\<rparr>) = Inr e \<and>
    ce_deductibleTotal e = 0"
proof -
  have "\<exists>e. evaluateCommission (sample_commission SellerRetained) = Inr e \<and> ce_deductibleTotal e = 0"
    by (simp add: evaluateCommission_def sample_commission_def requireInteger_fin_int COMMISSION_COMPONENTS_def
      term_for_def percent_term_def absent_term_def computeComponent_def optional_integer_def commission_bounds Let_def
      base_value_def settle_components_def)
  then obtain e where e: "evaluateCommission (sample_commission SellerRetained) = Inr e" "ce_deductibleTotal e = 0" by blast
  from retained_ignores_completion_facts [OF e(1), of 1 2 3] e(2) show ?thesis
    by (simp add: commission_amount_def commission_bounds sample_commission_def)
qed

text \<open>\<open>reversals\<close>: a sequence of refunds, each reversing what the formula asks for and recording it.\<close>

fun reversals :: "int \<Rightarrow> int \<Rightarrow> int \<Rightarrow> int list \<Rightarrow> commission_error + int" where
  "reversals net rate reversed [] = Inr reversed"
| "reversals net rate reversed (r # rs) =
    bind_res (legacyCommissionReversalToman (fin_int net) (fin_int r) (fin_int rate) (fin_int reversed))
      (\<lambda>now. reversals net rate (reversed + now) rs)"

definition commission_on :: "int \<Rightarrow> int \<Rightarrow> int" where
  "commission_on net rate = (net * rate) div MAX_COMMISSION_BASIS_POINTS"

lemma commission_on_mono: "0 \<le> rate \<Longrightarrow> a \<le> b \<Longrightarrow> commission_on a rate \<le> commission_on b rate"
  unfolding commission_on_def commission_bounds by (intro zdiv_mono1 mult_right_mono) auto

lemma reversals_from:
  assumes "commission_amount net" "0 \<le> rate" "rate \<le> 10000" "0 \<le> r0"
    "\<forall>r \<in> set rs. r0 \<le> r \<and> r \<le> net" "sorted rs" "r0 \<le> net"
  shows "reversals net rate (commission_on net rate - commission_on (net - r0) rate) rs =
    Inr (commission_on net rate - commission_on (net - last (r0 # rs)) rate)"
  using assms(4-)
proof (induction rs arbitrary: r0)
  case (Cons r rs)
  let ?done = "commission_on net rate - commission_on (net - r0) rate"
  have r: "r0 \<le> r" "r \<le> net" "0 \<le> r" using Cons.prems by auto
  have m: "commission_on (net - r) rate \<le> commission_on (net - r0) rate"
    "commission_on (net - r0) rate \<le> commission_on net rate"
    using r assms(2) Cons.prems(1) by (auto intro!: commission_on_mono)
  have pos: "0 \<le> commission_on (net - r0) rate"
    using commission_on_mono [of rate 0 "net - r0"] assms(2) r by (simp add: commission_on_def)
  have "net * rate \<le> net * 10000" using assms by (intro mult_left_mono) (auto simp: commission_amount_def)
  then have "commission_on net rate \<le> net * 10000 div 10000" unfolding commission_on_def commission_bounds by (rule zdiv_mono1) simp
  then have c: "commission_amount ?done" "commission_amount r" "commission_amount rate"
    using assms(1-3) m pos r by (auto simp: commission_amount_def commission_bounds)
  have now: "legacyCommissionReversalToman (fin_int net) (fin_int r) (fin_int rate) (fin_int ?done) =
      Inr (commission_on (net - r0) rate - commission_on (net - r) rate)"
    using c assms(1,3) r m
    by (simp add: legacyCommissionReversalToman_def requireInteger_Inr [THEN iffD2] Let_def commission_bounds)
       (simp add: commission_on_def commission_bounds)
  show ?case
    using Cons.IH [of r] Cons.prems r now by (simp add: algebra_simps)
qed simp

text \<open>The legacy reversal leaves no residue: when every refund reverses what the formula asks for and
  the reversals are recorded, then after any sequence of growing refund totals the sum reversed is the
  commission of the original amount less the commission of what remains, so a full refund reverses the
  whole commission whatever the intermediate roundings were.\<close>

theorem legacy_reversal_no_residue:
  assumes "0 \<le> net" "net \<le> MAX_COMMISSION_AMOUNT_TOMAN" "0 \<le> rate" "rate \<le> MAX_COMMISSION_BASIS_POINTS"
    "sorted (rs @ [r])" "list_all (\<lambda>r. 0 \<le> r \<and> r \<le> net) (rs @ [r])"
  shows "reversals net rate 0 (rs @ [r]) = Inr (commission_on net rate - commission_on (net - r) rate) \<and>
    (r = net \<longrightarrow> reversals net rate 0 (rs @ [r]) = Inr (commission_on net rate))"
  using reversals_from [of net rate 0 "rs @ [r]"] assms
  by (auto simp: commission_amount_def commission_bounds list_all_iff) (simp add: commission_on_def)

theorem legacy_reversal_no_residue_witness:
  "reversals 99999 1500 0 ([33333, 66666] @ [99999]) = Inr (commission_on 99999 1500) \<and> commission_on 99999 1500 = 14999"
  using legacy_reversal_no_residue [of 99999 1500 "[33333, 66666]" 99999]
  by (simp add: commission_bounds commission_on_def)

end
