(* ===== verification/Outcome_Evaluator.thy ===== *)
theory Outcome_Evaluator
  imports Outcome_Policy
begin

text \<open>
  The booking outcome evaluator (\<open>services/commercial-policy/src/outcome-evaluation/evaluate-booking-outcome.ts\<close>)
  over the decision vocabulary (\<open>packages/commercial-policy-contract/src/booking-outcome-decision-contract.ts\<close>):
  how much of the collected money is retained and how much goes back. Amounts are \<open>bigint\<close>, so \<open>int\<close>.
  \<open>decide\<close> at the end is the ratified order of the rules as a table; the evaluator is proved equal to it.
\<close>

datatype outcome_cause = Customer | Seller | Platform | Provider | ForceMajeure | NoShow

datatype legal_cap_state = CapApplied | CapAbsent | CapRetired

datatype outcome_basis =
    LegacyUnenrolled | InvalidTerms | NonCustomerCause | NotConfirmed | Timely
  | BasisCapAbsent | BasisCapRetired | BasisCapApplied

datatype decision_kind = KindCancellation | KindNoShow | KindRescheduleConsequence | KindDisputeOutcome

definition bookingOutcomeCauseForActor :: "string \<Rightarrow> string + outcome_cause" where
  "bookingOutcomeCauseForActor actor =
    (if actor = ''customer'' then Inr Customer
     else if actor = ''professional'' then Inr Seller
     else if actor = ''admin'' \<or> actor = ''system'' then Inr Platform
     else Inl actor)"

definition bookingCancellationRefundKey :: "string \<Rightarrow> string" where
  "bookingCancellationRefundKey b = ''booking-cancelled:'' @ b"

definition bookingNoShowRefundKey :: "string \<Rightarrow> string" where
  "bookingNoShowRefundKey b = ''booking-no-show:'' @ b"

record evaluation_terms =
  et_lateCancellationRetention :: retention_rule
  et_noShowRetention :: retention_rule
  et_legalCap :: "retention_rule option"

record evaluation_input =
  ei_cause :: outcome_cause
  ei_bookingWasConfirmed :: bool
  ei_timely :: "bool option"
  ei_collectedRemaining :: int
  ei_terms :: "evaluation_terms option"
  ei_legalCapState :: legal_cap_state

record evaluation =
  ev_basis :: outcome_basis
  ev_policyAmount :: int
  ev_legalCap :: "int option"
  ev_legalCapState :: legal_cap_state
  ev_retained :: int
  ev_refund :: int

definition MAX_SAFE_INTEGER :: int where "MAX_SAFE_INTEGER = 2 ^ 53 - 1"

text \<open>\<open>BigInt(n)\<close> of a number the guard before it has found to be an integer.\<close>

definition big_int :: "jsnum \<Rightarrow> int" where
  "big_int n = (case n of Fin q \<Rightarrow> \<lfloor>q\<rfloor> | _ \<Rightarrow> 0)"

definition retentionAmount :: "retention_rule \<Rightarrow> int \<Rightarrow> int option" where
  "retentionAmount rule collected =
    (case rule of
       NoRetention \<Rightarrow> Some 0
     | FullCollected \<Rightarrow> Some collected
     | PercentageOfCollected bp \<Rightarrow>
         (if \<not> isWholeInRange bp 1 9999 then None else Some ((collected * big_int bp) div 10000))
     | FixedToman a \<Rightarrow>
         (if \<not> isWholeInRange a (- MAX_SAFE_INTEGER) MAX_SAFE_INTEGER \<or> big_int a \<le> 0 \<or> big_int a > MAX_OUTCOME_AMOUNT_TOMAN
          then None else Some (big_int a))
     | UnknownRule _ \<Rightarrow> None)"

definition zero_evaluation :: "int \<Rightarrow> outcome_basis \<Rightarrow> int \<Rightarrow> int option \<Rightarrow> legal_cap_state \<Rightarrow> evaluation" where
  "zero_evaluation collected basis policyAmount capAmount capState =
    \<lparr>ev_basis = basis, ev_policyAmount = policyAmount, ev_legalCap = capAmount, ev_legalCapState = capState,
     ev_retained = 0, ev_refund = collected\<rparr>"

definition min3 :: "int \<Rightarrow> int \<Rightarrow> int \<Rightarrow> int" where
  "min3 a b c = (let m = (if a < b then a else b) in if c < m then c else m)"

text \<open>The cap that counts: an applied cap with no valid rule is no cap.\<close>

definition effective_cap :: "legal_cap_state \<Rightarrow> retention_rule option \<Rightarrow> int \<Rightarrow> legal_cap_state \<times> int option" where
  "effective_cap state cap collected =
    (if state = CapApplied
     then (case cap of None \<Rightarrow> (CapAbsent, None)
           | Some r \<Rightarrow> (case retentionAmount r collected of None \<Rightarrow> (CapAbsent, None) | Some c \<Rightarrow> (CapApplied, Some c)))
     else (state, None))"

definition evaluateBookingOutcome :: "evaluation_input \<Rightarrow> string + evaluation" where
  "evaluateBookingOutcome inp =
    (let collected = ei_collectedRemaining inp; zero = zero_evaluation collected in
     if collected < 0 then Inl ''collectedRemainingToman must not be negative''
     else case ei_terms inp of
       None \<Rightarrow> Inr (zero LegacyUnenrolled 0 None CapAbsent)
     | Some terms \<Rightarrow>
        (let isNoShow = (ei_cause inp = NoShow);
             rule = (if isNoShow then et_noShowRetention terms else et_lateCancellationRetention terms)
         in case retentionAmount rule collected of
              None \<Rightarrow> Inr (zero InvalidTerms 0 None CapAbsent)
            | Some policyAmount \<Rightarrow>
               (if \<not> isNoShow \<and> ei_timely inp = None then Inr (zero InvalidTerms 0 None CapAbsent)
                else let (capState, capAmount) = effective_cap (ei_legalCapState inp) (et_legalCap terms) collected in
                if \<not> isNoShow \<and> ei_cause inp \<noteq> Customer then Inr (zero NonCustomerCause policyAmount capAmount capState)
                else if \<not> ei_bookingWasConfirmed inp then Inr (zero NotConfirmed policyAmount capAmount capState)
                else if \<not> isNoShow \<and> ei_timely inp = Some True then Inr (zero Timely policyAmount capAmount capState)
                else if capState = CapRetired then Inr (zero BasisCapRetired policyAmount None CapRetired)
                else case capAmount of
                    None \<Rightarrow> Inr (zero BasisCapAbsent policyAmount None CapAbsent)
                  | Some cap \<Rightarrow>
                     (if capState = CapAbsent then Inr (zero BasisCapAbsent policyAmount None CapAbsent)
                      else let retained = min3 policyAmount cap collected in
                        Inr \<lparr>ev_basis = BasisCapApplied, ev_policyAmount = policyAmount, ev_legalCap = Some cap,
                             ev_legalCapState = CapApplied, ev_retained = retained, ev_refund = collected - retained\<rparr>))))"

section \<open>Lemmas\<close>

lemma big_int_fin_int [simp]: "big_int (fin_int n) = n"
  by (simp add: big_int_def fin_int_def)

lemma retentionAmount_defined: "retentionAmount r c \<noteq> None \<longleftrightarrow> wf_rule r"
proof (cases r)
  case (FixedToman a)
  then show ?thesis
    by (cases "\<exists>n. a = fin_int n")
       (auto simp: retentionAmount_def MAX_SAFE_INTEGER_def outcome_bounds,
        auto simp: isWholeInRange_iff)
qed (auto simp: retentionAmount_def)

lemma retentionAmount_bounds:
  assumes "retentionAmount r c = Some a" "0 \<le> c"
  shows "0 \<le> a" and "(\<forall>n. r \<noteq> FixedToman n) \<Longrightarrow> a \<le> c"
proof -
  have "0 \<le> a \<and> ((\<forall>n. r \<noteq> FixedToman n) \<longrightarrow> a \<le> c)"
  proof (cases r)
    case (PercentageOfCollected bp)
    with assms(1) obtain n where n: "bp = fin_int n" "1 \<le> n" "n \<le> 9999" "a = c * n div 10000"
      by (auto simp: retentionAmount_def isWholeInRange_iff split: if_splits)
    have "c * n \<le> c * 10000" using assms(2) n by (intro mult_left_mono) auto
    then have "c * n div 10000 \<le> c * 10000 div 10000" by (rule zdiv_mono1) simp
    with n assms(2) show ?thesis by (simp add: pos_imp_zdiv_nonneg_iff)
  qed (use assms in \<open>auto simp: retentionAmount_def split: if_splits\<close>)
  then show "0 \<le> a" and "(\<forall>n. r \<noteq> FixedToman n) \<Longrightarrow> a \<le> c" by auto
qed

lemma min3_bounds: "min3 a b c \<le> a" "min3 a b c \<le> b" "min3 a b c \<le> c"
  "0 \<le> a \<Longrightarrow> 0 \<le> b \<Longrightarrow> 0 \<le> c \<Longrightarrow> 0 \<le> min3 a b c"
  by (auto simp: min3_def Let_def)

lemma effective_cap_state:
  "effective_cap st cap c = (s, a) \<Longrightarrow> a \<noteq> None \<longleftrightarrow> s = CapApplied"
  unfolding effective_cap_def by (cases cap; cases "retentionAmount (the cap) c"; cases st) fastforce+

lemma effective_cap_nonneg:
  "effective_cap st cap c = (s, Some a) \<Longrightarrow> 0 \<le> c \<Longrightarrow> 0 \<le> a"
  by (auto simp: effective_cap_def dest: retentionAmount_bounds split: if_splits option.splits)

lemma zero_evaluation_fields [simp]:
  "ev_retained (zero_evaluation c b p a s) = 0" "ev_refund (zero_evaluation c b p a s) = c"
  "ev_basis (zero_evaluation c b p a s) = b" "ev_policyAmount (zero_evaluation c b p a s) = p"
  "ev_legalCap (zero_evaluation c b p a s) = a" "ev_legalCapState (zero_evaluation c b p a s) = s"
  by (simp_all add: zero_evaluation_def)

section \<open>The ratified order as a table\<close>

text \<open>Each row is a guard and the basis it decides; the first row whose guard holds decides.\<close>

definition policy_rule :: "evaluation_input \<Rightarrow> evaluation_terms \<Rightarrow> retention_rule" where
  "policy_rule inp t = (if ei_cause inp = NoShow then et_noShowRetention t else et_lateCancellationRetention t)"

definition decision_table :: "evaluation_input \<Rightarrow> evaluation_terms \<Rightarrow> (bool \<times> outcome_basis) list" where
  "decision_table inp t =
    (let noShow = (ei_cause inp = NoShow) in
    [(\<not> wf_rule (policy_rule inp t) \<or> \<not> noShow \<and> ei_timely inp = None, InvalidTerms),
     (\<not> noShow \<and> ei_cause inp \<noteq> Customer, NonCustomerCause),
     (\<not> ei_bookingWasConfirmed inp, NotConfirmed),
     (\<not> noShow \<and> ei_timely inp = Some True, Timely),
     (ei_legalCapState inp = CapRetired, BasisCapRetired),
     (ei_legalCapState inp = CapAbsent \<or> (case et_legalCap t of None \<Rightarrow> True | Some r \<Rightarrow> \<not> wf_rule r), BasisCapAbsent),
     (True, BasisCapApplied)])"

definition decide :: "evaluation_input \<Rightarrow> outcome_basis" where
  "decide inp = (case ei_terms inp of None \<Rightarrow> LegacyUnenrolled
     | Some t \<Rightarrow> (case find fst (decision_table inp t) of Some (_, b) \<Rightarrow> b | None \<Rightarrow> BasisCapApplied))"

lemma evaluate_nonneg:
  assumes "0 \<le> ei_collectedRemaining inp"
  shows "\<exists>e. evaluateBookingOutcome inp = Inr e \<and> ev_basis e = decide inp \<and>
    (ev_legalCap e \<noteq> None \<longleftrightarrow> ev_legalCapState e = CapApplied) \<and>
    0 \<le> ev_retained e \<and> ev_retained e + ev_refund e = ei_collectedRemaining inp \<and>
    ev_retained e \<le> ei_collectedRemaining inp \<and> ev_retained e \<le> ev_policyAmount e \<and>
    (\<forall>c. ev_legalCap e = Some c \<longrightarrow> ev_retained e \<le> c) \<and>
    (ev_basis e \<noteq> BasisCapApplied \<longrightarrow> ev_retained e = 0)"
proof (cases "ei_terms inp")
  case None
  with assms show ?thesis by (simp add: evaluateBookingOutcome_def Let_def decide_def)
next
  case (Some t)
  let ?c = "ei_collectedRemaining inp"
  have "\<not> ?c < 0" using assms by simp
  obtain s a where sa: "effective_cap (ei_legalCapState inp) (et_legalCap t) ?c = (s, a)"
    by (cases "effective_cap (ei_legalCapState inp) (et_legalCap t) ?c")
  have st: "a \<noteq> None \<longleftrightarrow> s = CapApplied" using effective_cap_state [OF sa] .
  have ret: "s = CapRetired \<longleftrightarrow> ei_legalCapState inp = CapRetired"
    using sa by (auto simp: effective_cap_def split: if_splits option.splits)
  have abs: "a = None \<longleftrightarrow> ei_legalCapState inp = CapRetired \<or> ei_legalCapState inp = CapAbsent \<or>
      (case et_legalCap t of None \<Rightarrow> True | Some r \<Rightarrow> \<not> wf_rule r)"
    using sa retentionAmount_defined [of "the (et_legalCap t)" ?c]
    by (cases "ei_legalCapState inp"; cases "et_legalCap t"; cases "retentionAmount (the (et_legalCap t)) ?c")
       (auto simp: effective_cap_def)
  have pr: "(if ei_cause inp = NoShow then et_noShowRetention t else et_lateCancellationRetention t) = policy_rule inp t"
    by (simp add: policy_rule_def)
  show ?thesis
  proof (cases "retentionAmount (policy_rule inp t) ?c")
    case None
    then have "\<not> wf_rule (policy_rule inp t)" using retentionAmount_defined by blast
    with None Some \<open>\<not> ?c < 0\<close> assms show ?thesis
      by (simp add: evaluateBookingOutcome_def Let_def decide_def decision_table_def pr)
  next
    case (Some p)
    then have w: "wf_rule (policy_rule inp t)" using retentionAmount_defined by blast
    have p0: "0 \<le> p" using retentionAmount_bounds(1) [OF Some assms] .
    show ?thesis
    proof (cases a)
      case None
      with Some w p0 sa st ret abs assms \<open>ei_terms inp = Some t\<close> \<open>\<not> ?c < 0\<close> show ?thesis
        by (auto simp: evaluateBookingOutcome_def Let_def decide_def decision_table_def pr)
    next
      case (Some cap)
      note a = this
      have cap0: "0 \<le> cap" using effective_cap_nonneg sa a assms by blast
      have sA: "s = CapApplied" using st a by simp
      have m: "0 \<le> min3 p cap ?c" "min3 p cap ?c \<le> p" "min3 p cap ?c \<le> cap" "min3 p cap ?c \<le> ?c"
        using min3_bounds [of p cap ?c] p0 cap0 assms by auto
      show ?thesis
        using \<open>retentionAmount (policy_rule inp t) ?c = Some p\<close> w p0 cap0 m sa sA a ret abs assms
          \<open>ei_terms inp = Some t\<close> \<open>\<not> ?c < 0\<close>
        by (auto simp: evaluateBookingOutcome_def Let_def decide_def decision_table_def pr split: option.splits)
    qed
  qed
qed

section \<open>Properties\<close>

text \<open>C22: The evaluator never throws on a non-negative collected amount, its basis is the first matching
  row of the ratified decision table, retained and refunded amounts are non-negative and add up to what
  was collected, the retained amount exceeds neither the policy amount nor the Legal cap, and a cap
  amount is present exactly when the cap state is applied.\<close>

theorem evaluator_follows_table:
  assumes "0 \<le> ei_collectedRemaining inp"
  shows "\<exists>e. evaluateBookingOutcome inp = Inr e \<and> ev_basis e = decide inp \<and>
    0 \<le> ev_retained e \<and> 0 \<le> ev_refund e \<and> ev_retained e + ev_refund e = ei_collectedRemaining inp \<and>
    ev_retained e \<le> ev_policyAmount e \<and>
    (case ev_legalCap e of None \<Rightarrow> ev_legalCapState e \<noteq> CapApplied
     | Some c \<Rightarrow> ev_legalCapState e = CapApplied \<and> ev_retained e \<le> c)"
proof -
  from evaluate_nonneg [OF assms] obtain e where
    "evaluateBookingOutcome inp = Inr e" "ev_basis e = decide inp"
    "ev_legalCap e \<noteq> None \<longleftrightarrow> ev_legalCapState e = CapApplied"
    "0 \<le> ev_retained e" "ev_retained e + ev_refund e = ei_collectedRemaining inp"
    "ev_retained e \<le> ei_collectedRemaining inp" "ev_retained e \<le> ev_policyAmount e"
    "\<forall>c. ev_legalCap e = Some c \<longrightarrow> ev_retained e \<le> c" by blast
  then show ?thesis by (intro exI [of _ e]) (auto split: option.splits)
qed

definition late_input :: evaluation_input where
  "late_input = \<lparr>ei_cause = Customer, ei_bookingWasConfirmed = True, ei_timely = Some False, ei_collectedRemaining = 90001,
     ei_terms = Some \<lparr>et_lateCancellationRetention = PercentageOfCollected (fin_int 5000), et_noShowRetention = FullCollected,
       et_legalCap = Some (FixedToman (fin_int 30000))\<rparr>, ei_legalCapState = CapApplied\<rparr>"

theorem evaluator_follows_table_witness:
  "\<exists>e. evaluateBookingOutcome late_input = Inr e \<and> ev_basis e = BasisCapApplied \<and> ev_retained e + ev_refund e = 90001"
proof -
  have "decide late_input = BasisCapApplied"
    by (simp add: decide_def decision_table_def late_input_def policy_rule_def outcome_bounds Let_def)
  moreover have "0 \<le> ei_collectedRemaining late_input" "ei_collectedRemaining late_input = 90001"
    by (simp_all add: late_input_def)
  ultimately show ?thesis using evaluator_follows_table [of late_input] by auto
qed

text \<open>Money is retained only against a customer's late cancellation or a no-show of a confirmed
  booking whose terms carry a valid cap with live Legal evidence. No other cause, no timely event, no
  missing cap and no malformed rule ever retains anything.\<close>

theorem retention_needs_fault_and_cap:
  assumes "evaluateBookingOutcome inp = Inr e" "ev_retained e \<noteq> 0"
  shows "ei_bookingWasConfirmed inp \<and> ei_legalCapState inp = CapApplied \<and>
    (ei_cause inp = NoShow \<or> ei_cause inp = Customer \<and> ei_timely inp = Some False) \<and>
    (\<exists>t r. ei_terms inp = Some t \<and> et_legalCap t = Some r \<and> wf_rule r \<and> wf_rule (policy_rule inp t))"
proof -
  have c: "0 \<le> ei_collectedRemaining inp"
    using assms(1) by (auto simp: evaluateBookingOutcome_def Let_def split: if_splits)
  from evaluate_nonneg [OF c] assms have d: "decide inp = BasisCapApplied" by auto
  then obtain t where t: "ei_terms inp = Some t" by (auto simp: decide_def split: option.splits)
  with d show ?thesis
    by (cases "ei_timely inp"; cases "ei_legalCapState inp")
       (auto simp: decide_def decision_table_def Let_def split: if_splits option.splits)
qed

theorem retention_needs_fault_and_cap_witness:
  "\<exists>e. evaluateBookingOutcome late_input = Inr e \<and> ev_retained e = 30000 \<and>
    ei_cause late_input = Customer \<and> ei_timely late_input = Some False"
proof -
  have e: "evaluateBookingOutcome late_input = Inr \<lparr>ev_basis = BasisCapApplied, ev_policyAmount = 45000,
      ev_legalCap = Some 30000, ev_legalCapState = CapApplied, ev_retained = 30000, ev_refund = 60001\<rparr>"
    by (simp add: evaluateBookingOutcome_def late_input_def Let_def retentionAmount_def effective_cap_def
        MAX_SAFE_INTEGER_def outcome_bounds min3_def)
  from retention_needs_fault_and_cap [OF e] have "ei_cause late_input = NoShow \<or> ei_cause late_input = Customer \<and> ei_timely late_input = Some False"
    by simp
  then show ?thesis using e by (auto simp: late_input_def)
qed

end
