(* ===== verification/Order_Model.thy ===== *)
theory Order_Model
  imports Pricing Collection_Policy Commission Outcome_Evaluator
begin

text \<open>
  Orders (\<open>services/commerce/src/order/order.service.ts\<close> with its entities and ports): the quote of a
  booking, the order written from it with its items, adjustments, payment schedule, outcome terms and
  commission terms, the verified capture, the confirmation without online collection, cancellation and
  refund. One record holds the tables of the \<open>commerce\<close> schema; amounts read back from BIGINT columns are
  \<open>int\<close>, amounts handed in by a caller are JavaScript numbers until a guard has accepted them.

  The resolvers and the catalogue of the composition root are parameters, bundled in \<open>order_ports\<close>; what
  they answer is validated where the code validates it. Metrics and audit lines are left out.
\<close>

section \<open>Data\<close>

datatype order_status = OrdPending | OrdPaid | OrdPartiallyRefunded | OrdRefunded | OrdCancelled
  | OrdCollectionNotRequired | OrdCollectionCompleted

datatype order_source = SourceBooking | SourceDirect

type_synonym seller_party = "party_type \<times> nat"

record order =
  od_id :: nat
  od_sourceType :: order_source
  od_source :: nat
  od_customer :: nat
  od_seller :: seller_party
  od_status :: order_status
  od_subtotal :: int
  od_discountTotal :: int
  od_feeTotal :: int
  od_total :: int
  od_refunded :: int
  od_collected :: int
  od_paidAt :: "int option"
  od_cancelledAt :: "int option"

record order_item =
  oi_order :: nat
  oi_reference :: nat
  oi_name :: string
  oi_quantity :: int
  oi_unitPrice :: int
  oi_lineTotal :: int

record order_adjustment =
  ad_order :: nat
  ad_ruleKey :: string
  ad_kind :: adjustment_kind
  ad_code :: "string option"
  ad_label :: string
  ad_amount :: int
  ad_sortOrder :: nat

record payment_schedule =
  sc_order :: nat
  sc_mode :: collection_mode
  sc_serviceTotal :: int
  sc_collectible :: int
  sc_venueBalance :: int
  sc_policyKey :: "string option"
  sc_policyVersion :: "jsnum option"
  sc_acceptedAt :: "int option"
  sc_contractVersion :: int

record outcome_terms_row =
  tr_order :: nat
  tr_seller :: seller_party
  tr_identity :: outcome_acceptance
  tr_cutoffHours :: jsnum
  tr_lateRetention :: rule_columns
  tr_graceMinutes :: jsnum
  tr_noShowRetention :: rule_columns
  tr_rescheduleFreeCount :: jsnum
  tr_disputeWindowHours :: jsnum
  tr_bodilyHarmWindowHours :: "jsnum option"
  tr_appealWindowHours :: jsnum
  tr_caseFileRetentionDays :: "jsnum option"
  tr_legalCap :: "rule_columns option"
  tr_legalEvidence :: "string option"

datatype execution_status = ExecPending | Executed | ManualRequired | ExecFailed

datatype decision_basis = EvalBasis outcome_basis | PreExistingRefund

record outcome_decision =
  de_id :: nat
  de_booking :: nat
  de_order :: nat
  de_kind :: decision_kind
  de_cause :: outcome_cause
  de_eventInstant :: int
  de_wasConfirmed :: bool
  de_policyKey :: "string option"
  de_policyVersion :: "jsnum option"
  de_cutoffInstant :: "int option"
  de_timely :: "bool option"
  de_collectedRemaining :: int
  de_policyAmount :: int
  de_legalCap :: "int option"
  de_legalCapState :: legal_cap_state
  de_retained :: int
  de_refund :: int
  de_basis :: decision_basis
  de_execution :: execution_status
  de_requestKey :: "string option"
  de_supersededBy :: "nat option"
  de_decidedAt :: int

datatype remedy_choice = ChoseReschedule | ChoseRefund
datatype remedy_resolver = ResolvedByDefault | ResolvedByCustomer

record remedy_row =
  rm_order :: nat
  rm_booking :: nat
  rm_chosen :: "remedy_choice option"
  rm_resolvedBy :: remedy_resolver

datatype order_event =
    OrderCreated nat nat nat int
  | OrderPaid nat int
  | OrderCollectionCaptured nat int int int
  | OrderCancelled nat string
  | OrderRefunded nat nat int int

record order_db =
  om_orders :: "order list"
  om_items :: "order_item list"
  om_adjustments :: "order_adjustment list"
  om_schedules :: "payment_schedule list"
  om_terms :: "outcome_terms_row list"
  om_commission :: "(nat \<times> commission_term) list"
  om_decisions :: "outcome_decision list"
  om_remedies :: "remedy_row list"
  om_outbox :: "order_event list"
  om_next :: nat

datatype order_error =
    UnsellableService
  | OrderNotFound
  | RefundExceedsOrder
  | MissingSchedule nat
  | OrderUniqueViolation
  | OrderCheckViolation
  | OrderMoney money_error
  | OrderPricing pricing_error
  | OrderCollection amounts_error
  | CommissionTermsUnavailable

type_synonym 'a order_result = "order_error + 'a \<times> order_db"

record offering =
  of_id :: nat
  of_professional :: nat
  of_name :: string
  of_price :: jsnum
  of_sellerType :: party_type
  of_sellerId :: nat

datatype resolved_collection = LegacyCollection | EnrolledCollection collection_snapshot
datatype resolved_outcome = OutcomeLegacy | OutcomeResolved outcome_snapshot | OutcomeUnavailable string

record order_ports =
  op_offering :: "nat \<Rightarrow> offering option"
  op_collection :: "seller_party \<Rightarrow> resolved_collection option"
  op_outcome :: "seller_party \<Rightarrow> resolved_outcome option"
  op_commission :: "commission_term list option"
  op_rules :: "pricing_rule list"

definition CANCELLABLE_STATUSES :: "order_status list" where
  "CANCELLABLE_STATUSES = [OrdPending, OrdCollectionNotRequired]"

definition REFUNDABLE_STATUSES :: "order_status list" where
  "REFUNDABLE_STATUSES = [OrdPaid, OrdPartiallyRefunded, OrdCollectionCompleted]"

section \<open>The quote of a booking\<close>

record booking_order_input =
  bo_booking :: nat
  bo_customer :: nat
  bo_professional :: nat
  bo_service :: "nat option"
  bo_accepted :: "outcome_acceptance option"

record booking_quote =
  bq_offering :: offering
  bq_seller :: seller_party
  bq_collection :: resolved_collection
  bq_outcome :: resolved_outcome
  bq_priced :: pricing_result

definition money_step :: "money_error + 'a \<Rightarrow> order_error + 'a" where
  "money_step r = (case r of Inl e \<Rightarrow> Inl (OrderMoney e) | Inr x \<Rightarrow> Inr x)"

definition price_step :: "pricing_error + 'a \<Rightarrow> order_error + 'a" where
  "price_step r = (case r of Inl e \<Rightarrow> Inl (OrderPricing e) | Inr x \<Rightarrow> Inr x)"

definition amounts_step :: "amounts_error + 'a \<Rightarrow> order_error + 'a" where
  "amounts_step r = (case r of Inl e \<Rightarrow> Inl (OrderCollection e) | Inr x \<Rightarrow> Inr x)"

lemma lifted_steps [simp]:
  "money_step (Inl e1) = Inl (OrderMoney e1)" "money_step (Inr x) = Inr x"
  "price_step (Inl e2) = Inl (OrderPricing e2)" "price_step (Inr x) = Inr x"
  "amounts_step (Inl e3) = Inl (OrderCollection e3)" "amounts_step (Inr x) = Inr x"
  by (simp_all add: money_step_def price_step_def amounts_step_def)

lemma lifted_Inr [simp]:
  "money_step r1 = Inr x \<longleftrightarrow> r1 = Inr x" "price_step r2 = Inr x \<longleftrightarrow> r2 = Inr x" "amounts_step r3 = Inr x \<longleftrightarrow> r3 = Inr x"
  by (auto simp: money_step_def price_step_def amounts_step_def split: sum.splits)

text \<open>\<open>resolveCollection\<close>: a resolver that throws and a snapshot that is not valid both refuse the sale.\<close>

definition resolveCollection :: "order_ports \<Rightarrow> seller_party \<Rightarrow> order_error + resolved_collection" where
  "resolveCollection ports seller =
    (case op_collection ports seller of
       None \<Rightarrow> Inl UnsellableService
     | Some LegacyCollection \<Rightarrow> Inr LegacyCollection
     | Some (EnrolledCollection snap) \<Rightarrow>
         (if validateBookingCollectionPolicySnapshotV1 snap \<noteq> [] then Inl UnsellableService
          else Inr (EnrolledCollection snap)))"

text \<open>\<open>resolveOutcome\<close>: an invalid snapshot is turned into an unavailable policy, an unknown cause into
  \<open>unknown_error\<close>; \<open>known\<close> is \<open>OUTCOME_REFUSAL_CAUSES\<close>.\<close>

definition resolveOutcome :: "(string \<Rightarrow> bool) \<Rightarrow> order_ports \<Rightarrow> seller_party \<Rightarrow> order_error + resolved_outcome" where
  "resolveOutcome known ports seller =
    (case op_outcome ports seller of
       None \<Rightarrow> Inl UnsellableService
     | Some r \<Rightarrow>
         (let r1 = (case r of OutcomeResolved snap \<Rightarrow>
                      if validateBookingOutcomeSnapshotV1 (snapshot_js snap) \<noteq> [] then OutcomeUnavailable ''invalid_snapshot'' else r
                    | _ \<Rightarrow> r)
          in Inr (case r1 of OutcomeUnavailable cause \<Rightarrow>
                    if known cause then r1 else OutcomeUnavailable ''unknown_error'' | _ \<Rightarrow> r1)))"

definition quoteBooking :: "(string \<Rightarrow> bool) \<Rightarrow> order_ports \<Rightarrow> int \<Rightarrow> nat \<Rightarrow> nat \<Rightarrow> nat option \<Rightarrow> nat option \<Rightarrow>
    order_error + booking_quote" where
  "quoteBooking known ports clk customer professional service booking =
    (case service of
       None \<Rightarrow> Inl UnsellableService
     | Some sv \<Rightarrow>
        (case op_offering ports sv of
           None \<Rightarrow> Inl UnsellableService
         | Some off \<Rightarrow>
            (if of_professional off \<noteq> professional then Inl UnsellableService
             else let seller = (of_sellerType off, of_sellerId off) in
               bind_res (resolveCollection ports seller) (\<lambda>collection.
               bind_res (resolveOutcome known ports seller) (\<lambda>outcome.
               bind_res (price_step (quote (op_rules ports)
                   \<lparr>px_customer = customer, px_sellerType = of_sellerType off, px_sellerId = of_sellerId off,
                    px_lines = [\<lparr>pl_reference = of_id off, pl_name = of_name off, pl_quantity = Fin 1, pl_unitPrice = of_price off\<rparr>],
                    px_at = clk, px_booking = booking\<rparr>)) (\<lambda>priced.
               Inr \<lparr>bq_offering = off, bq_seller = seller, bq_collection = collection, bq_outcome = outcome,
                    bq_priced = priced\<rparr>))))))"

definition modeForAmounts :: "int \<Rightarrow> int \<Rightarrow> collection_mode" where
  "modeForAmounts platformCollectible serviceTotal =
    (if platformCollectible = 0 then PayAtVenue
     else if platformCollectible = serviceTotal then FullPaymentOnline else DepositOnlineBalanceAtVenue)"

definition collectionAmountsFor :: "pricing_result \<Rightarrow> resolved_collection \<Rightarrow> order_error + collection_amounts" where
  "collectionAmountsFor priced collection =
    (case collection of
       LegacyCollection \<Rightarrow> Inr \<lparr>ca_serviceTotal = pq_total priced, ca_collectible = pq_total priced, ca_venueBalance = 0\<rparr>
     | EnrolledCollection snap \<Rightarrow>
         amounts_step (bookingCollectionAmountsV1 (fin_int (pq_subtotal priced)) (fin_int (pq_total priced)) (cs_terms snap)))"

definition scheduleValuesFor :: "nat \<Rightarrow> pricing_result \<Rightarrow> resolved_collection \<Rightarrow> order_error + payment_schedule" where
  "scheduleValuesFor orderId priced collection =
    (case collection of
       LegacyCollection \<Rightarrow>
         Inr \<lparr>sc_order = orderId, sc_mode = FullPaymentOnline, sc_serviceTotal = pq_total priced,
              sc_collectible = pq_total priced, sc_venueBalance = 0, sc_policyKey = None, sc_policyVersion = None,
              sc_acceptedAt = None, sc_contractVersion = 1\<rparr>
     | EnrolledCollection snap \<Rightarrow>
         bind_res (amounts_step (bookingCollectionAmountsV1 (fin_int (pq_subtotal priced)) (fin_int (pq_total priced)) (cs_terms snap)))
           (\<lambda>a. Inr \<lparr>sc_order = orderId, sc_mode = modeForAmounts (ca_collectible a) (ca_serviceTotal a),
              sc_serviceTotal = ca_serviceTotal a, sc_collectible = ca_collectible a, sc_venueBalance = ca_venueBalance a,
              sc_policyKey = Some (cs_policyKey snap), sc_policyVersion = Some (cs_policyVersion snap),
              sc_acceptedAt = None, sc_contractVersion = 1\<rparr>))"

definition outcomeForCollection :: "resolved_outcome \<Rightarrow> int \<Rightarrow> order_error + outcome_snapshot option" where
  "outcomeForCollection outcome platformCollectible =
    (case outcome of
       OutcomeResolved snap \<Rightarrow> Inr (Some snap)
     | OutcomeUnavailable _ \<Rightarrow> if 0 < platformCollectible then Inl UnsellableService else Inr None
     | OutcomeLegacy \<Rightarrow> Inr None)"

definition acceptance_js :: "outcome_acceptance \<Rightarrow> jsval" where
  "acceptance_js a = JObject
    [(''policyKey'', JString (oa_policyKey a)), (''policyVersion'', JNumber (oa_policyVersion a)),
     (''copyKey'', JString (oa_copyKey a)), (''copyVersion'', JNumber (oa_copyVersion a))]"

definition requireAcceptance :: "outcome_snapshot option \<Rightarrow> outcome_acceptance option \<Rightarrow> order_error + unit" where
  "requireAcceptance snapshot acceptance =
    (case (snapshot, acceptance) of
       (None, None) \<Rightarrow> Inr ()
     | (None, Some _) \<Rightarrow> Inl UnsellableService
     | (Some _, None) \<Rightarrow> Inl UnsellableService
     | (Some snap, Some a) \<Rightarrow>
         (if validateBookingOutcomeAcceptanceV1 (acceptance_js a) \<noteq> [] \<or> \<not> acceptanceMatches a snap
          then Inl UnsellableService else Inr ()))"

record disclosure_preview =
  dp_seller :: seller_party
  dp_amounts :: collection_amounts
  dp_outcome :: "outcome_snapshot option"

definition previewForBooking :: "(string \<Rightarrow> bool) \<Rightarrow> order_ports \<Rightarrow> int \<Rightarrow> nat \<Rightarrow> nat \<Rightarrow> nat option \<Rightarrow>
    order_error + disclosure_preview" where
  "previewForBooking known ports clk customer professional service =
    bind_res (quoteBooking known ports clk customer professional service None) (\<lambda>q.
    bind_res (collectionAmountsFor (bq_priced q) (bq_collection q)) (\<lambda>amounts.
    bind_res (outcomeForCollection (bq_outcome q) (ca_collectible amounts)) (\<lambda>outcome.
    Inr \<lparr>dp_seller = bq_seller q, dp_amounts = amounts, dp_outcome = outcome\<rparr>)))"

section \<open>Writing an order\<close>

text \<open>
  The CHECKs of \<open>commerce.orders\<close>, \<open>order_items\<close>, \<open>order_adjustments\<close> and \<open>order_payment_schedules\<close>. Those
  that a value of the model's types satisfies anyway (the closed vocabularies) and the positive version of a
  policy, which the validator of its snapshot has checked before the row is written, are left out.
\<close>

definition order_row_ok :: "order \<Rightarrow> bool" where
  "order_row_ok r \<longleftrightarrow> 0 \<le> od_subtotal r \<and> 0 \<le> od_discountTotal r \<and> 0 \<le> od_feeTotal r \<and> 0 \<le> od_total r \<and>
    0 \<le> od_refunded r \<and> od_total r = od_subtotal r - od_discountTotal r + od_feeTotal r \<and>
    0 \<le> od_collected r \<and> od_collected r \<le> od_total r \<and> od_refunded r \<le> od_collected r \<and>
    (od_status r = OrdCollectionCompleted \<longrightarrow> 0 < od_collected r)"

definition item_row_ok :: "order_item \<Rightarrow> bool" where
  "item_row_ok r \<longleftrightarrow> 0 < oi_quantity r \<and> 0 \<le> oi_unitPrice r \<and> 0 \<le> oi_lineTotal r \<and>
    oi_lineTotal r = oi_unitPrice r * oi_quantity r"

definition adjustment_row_ok :: "order_adjustment \<Rightarrow> bool" where
  "adjustment_row_ok r \<longleftrightarrow> (if ad_kind r = AdjDiscount then ad_amount r < 0 else 0 < ad_amount r)"

definition schedule_row_ok :: "payment_schedule \<Rightarrow> bool" where
  "schedule_row_ok r \<longleftrightarrow> 0 \<le> sc_serviceTotal r \<and> 0 \<le> sc_collectible r \<and> 0 \<le> sc_venueBalance r \<and>
    sc_collectible r + sc_venueBalance r = sc_serviceTotal r \<and>
    (sc_mode r = FullPaymentOnline \<and> sc_collectible r = sc_serviceTotal r \<and> sc_venueBalance r = 0 \<or>
     sc_mode r = PayAtVenue \<and> sc_collectible r = 0 \<and> sc_venueBalance r = sc_serviceTotal r \<or>
     sc_mode r = DepositOnlineBalanceAtVenue \<and> 0 < sc_collectible r \<and> sc_collectible r < sc_serviceTotal r) \<and>
    (sc_policyKey r = None \<longleftrightarrow> sc_policyVersion r = None)"

definition insert_order :: "order \<Rightarrow> order_db \<Rightarrow> order_error + order_db" where
  "insert_order r s =
    (if list_ex (\<lambda>x. od_sourceType x = od_sourceType r \<and> od_source x = od_source r) (om_orders s) then Inl OrderUniqueViolation
     else if \<not> order_row_ok r then Inl OrderCheckViolation
     else Inr (s\<lparr>om_orders := om_orders s @ [r]\<rparr>))"

text \<open>The amount of an adjustment goes through \<open>requiredMoneyTransformer.to\<close>, which throws on anything that is
  not a whole amount.\<close>

fun adjustment_rows :: "nat \<Rightarrow> nat \<Rightarrow> pricing_adjustment list \<Rightarrow> order_error + order_adjustment list" where
  "adjustment_rows orderId i [] = Inr []"
| "adjustment_rows orderId i (a # as) =
    bind_res (money_step (assertAmount (pa_amount a) ''money column'')) (\<lambda>n.
    bind_res (adjustment_rows orderId (Suc i) as) (\<lambda>rows.
    Inr (\<lparr>ad_order = orderId, ad_ruleKey = pa_ruleKey a, ad_kind = pa_kind a, ad_code = pa_code a, ad_label = pa_label a,
          ad_amount = n, ad_sortOrder = i\<rparr> # rows)))"

definition insert_item :: "order_item \<Rightarrow> order_db \<Rightarrow> order_error + order_db" where
  "insert_item item s =
    (if \<not> item_row_ok item then Inl OrderCheckViolation else Inr (s\<lparr>om_items := om_items s @ [item]\<rparr>))"

definition insert_adjustments :: "order_adjustment list \<Rightarrow> order_db \<Rightarrow> order_error + order_db" where
  "insert_adjustments adjs s =
    (if \<not> list_all adjustment_row_ok adjs then Inl OrderCheckViolation
     else Inr (s\<lparr>om_adjustments := om_adjustments s @ adjs\<rparr>))"

definition insert_schedule :: "payment_schedule \<Rightarrow> order_db \<Rightarrow> order_error + order_db" where
  "insert_schedule sc s =
    (if sc_order sc \<in> sc_order ` set (om_schedules s) then Inl OrderUniqueViolation
     else if \<not> schedule_row_ok sc then Inl OrderCheckViolation
     else Inr (s\<lparr>om_schedules := om_schedules s @ [sc]\<rparr>))"

definition terms_row :: "nat \<Rightarrow> seller_party \<Rightarrow> outcome_snapshot \<Rightarrow> outcome_terms_row" where
  "terms_row orderId seller snap =
    (let t = on_terms snap in
     \<lparr>tr_order = orderId, tr_seller = seller, tr_identity = acceptanceFor snap,
      tr_cutoffHours = os_cutoffHours t, tr_lateRetention = bookingOutcomeRetentionColumns (os_lateCancellationRetention t),
      tr_graceMinutes = os_noShowGraceMinutes t, tr_noShowRetention = bookingOutcomeRetentionColumns (os_noShowRetention t),
      tr_rescheduleFreeCount = ot_rescheduleFreeCount t, tr_disputeWindowHours = ot_disputeWindowHours t,
      tr_bodilyHarmWindowHours = ot_bodilyHarmWindowHours t, tr_appealWindowHours = ot_appealWindowHours t,
      tr_caseFileRetentionDays = ot_caseFileRetentionDays t,
      tr_legalCap = map_option bookingOutcomeRetentionColumns (ot_legalCap t),
      tr_legalEvidence = on_legalEvidenceId snap\<rparr>)"

definition insertOutcomeTerms :: "nat \<Rightarrow> seller_party \<Rightarrow> outcome_snapshot \<Rightarrow> order_db \<Rightarrow> order_error + order_db" where
  "insertOutcomeTerms orderId seller snap s =
    (if orderId \<in> tr_order ` set (om_terms s) then Inl OrderUniqueViolation
     else Inr (s\<lparr>om_terms := om_terms s @ [terms_row orderId seller snap]\<rparr>))"

text \<open>The terms, when a policy was accepted, and the schedule stamped with the acceptance.\<close>

definition write_schedule :: "int \<Rightarrow> nat \<Rightarrow> seller_party \<Rightarrow> outcome_snapshot option \<Rightarrow> payment_schedule \<Rightarrow> order_db \<Rightarrow>
    order_error + order_db" where
  "write_schedule now orderId seller accepted schedule s =
    (case accepted of
       None \<Rightarrow> insert_schedule schedule s
     | Some snap \<Rightarrow> bind_res (insertOutcomeTerms orderId seller snap s) (insert_schedule (schedule\<lparr>sc_acceptedAt := Some now\<rparr>)))"

definition insertCommissionTerms :: "order_ports \<Rightarrow> nat \<Rightarrow> order_db \<Rightarrow> order_error + order_db" where
  "insertCommissionTerms ports orderId s =
    (case op_commission ports of
       None \<Rightarrow> Inl CommissionTermsUnavailable
     | Some terms \<Rightarrow> Inr (s\<lparr>om_commission := om_commission s @ map (\<lambda>t. (orderId, t)) terms\<rparr>))"

definition emitOrderEvent :: "order_event \<Rightarrow> order_db \<Rightarrow> order_db" where
  "emitOrderEvent ev s = s\<lparr>om_outbox := om_outbox s @ [ev]\<rparr>"

record order_detail =
  dt_order :: order
  dt_items :: "order_item list"
  dt_adjustments :: "order_adjustment list"
  dt_schedule :: payment_schedule

definition order_at :: "order_db \<Rightarrow> nat \<Rightarrow> order option" where
  "order_at s i = tget od_id i (om_orders s)"

definition schedule_at :: "order_db \<Rightarrow> nat \<Rightarrow> payment_schedule option" where
  "schedule_at s i = tget sc_order i (om_schedules s)"

definition loadDetail :: "nat \<Rightarrow> order_db \<Rightarrow> order_error + order_detail" where
  "loadDetail orderId s =
    (case order_at s orderId of
       None \<Rightarrow> Inl OrderNotFound
     | Some od \<Rightarrow>
        (case schedule_at s orderId of
           None \<Rightarrow> Inl (MissingSchedule orderId)
         | Some sc \<Rightarrow> Inr \<lparr>dt_order = od, dt_items = filter (\<lambda>x. oi_order x = orderId) (om_items s),
             dt_adjustments = sort_key ad_sortOrder (filter (\<lambda>x. ad_order x = orderId) (om_adjustments s)), dt_schedule = sc\<rparr>))"

definition findBySource :: "order_source \<Rightarrow> nat \<Rightarrow> order_db \<Rightarrow> order_error + order_detail option" where
  "findBySource sourceType sourceId s =
    (case find (\<lambda>x. od_sourceType x = sourceType \<and> od_source x = sourceId) (om_orders s) of
       None \<Rightarrow> Inr None
     | Some od \<Rightarrow> bind_res (loadDetail (od_id od) s) (\<lambda>d. Inr (Some d)))"

text \<open>\<open>createForBookingWithin\<close>; \<open>clk\<close> is the application clock of the pricing context, \<open>now\<close> the database's.\<close>

definition createForBookingWithin :: "(string \<Rightarrow> bool) \<Rightarrow> order_ports \<Rightarrow> int \<Rightarrow> int \<Rightarrow> booking_order_input \<Rightarrow> order_db \<Rightarrow>
    order_detail order_result" where
  "createForBookingWithin known ports clk now inp s =
    bind_res (quoteBooking known ports clk (bo_customer inp) (bo_professional inp) (bo_service inp) (Some (bo_booking inp))) (\<lambda>q.
    let orderId = om_next s; priced = bq_priced q; off = bq_offering q; s0 = s\<lparr>om_next := Suc orderId\<rparr> in
    bind_res (scheduleValuesFor orderId priced (bq_collection q)) (\<lambda>schedule.
    bind_res (outcomeForCollection (bq_outcome q) (sc_collectible schedule)) (\<lambda>accepted.
    bind_res (requireAcceptance accepted (bo_accepted inp)) (\<lambda>_.
    bind_res (insert_order \<lparr>od_id = orderId, od_sourceType = SourceBooking, od_source = bo_booking inp,
        od_customer = bo_customer inp, od_seller = bq_seller q, od_status = OrdPending, od_subtotal = pq_subtotal priced,
        od_discountTotal = pq_discountTotal priced, od_feeTotal = pq_feeTotal priced, od_total = pq_total priced,
        od_refunded = 0, od_collected = 0, od_paidAt = None, od_cancelledAt = None\<rparr> s0) (\<lambda>s1.
    bind_res (money_step (assertAmount (of_price off) ''money column'')) (\<lambda>price.
    bind_res (insert_item \<lparr>oi_order = orderId, oi_reference = of_id off, oi_name = of_name off, oi_quantity = 1,
        oi_unitPrice = price, oi_lineTotal = price\<rparr> s1) (\<lambda>s2.
    bind_res (adjustment_rows orderId 0 (pq_adjustments priced)) (\<lambda>adjs.
    bind_res (insert_adjustments adjs s2) (\<lambda>s3.
    bind_res (write_schedule now orderId (bq_seller q) accepted schedule s3) (\<lambda>s4.
    bind_res (insertCommissionTerms ports orderId s4) (\<lambda>s5.
    let s6 = emitOrderEvent (OrderCreated orderId (bo_booking inp) (bo_customer inp) (pq_total priced)) s5 in
    bind_res (loadDetail orderId s6) (\<lambda>d. Inr (d, s6)))))))))))))"

text \<open>
  \<open>createForBooking\<close>: an order of the booking is returned as it is; a lost race is settled by the order the
  winner wrote. \<open>after\<close> is the database once the failed transaction has rolled back.
\<close>

definition createForBooking :: "(string \<Rightarrow> bool) \<Rightarrow> order_ports \<Rightarrow> int \<Rightarrow> int \<Rightarrow> booking_order_input \<Rightarrow> order_db \<Rightarrow> order_db \<Rightarrow>
    order_detail order_result" where
  "createForBooking known ports clk now inp s after =
    bind_res (findBySource SourceBooking (bo_booking inp) s) (\<lambda>existing. case existing of
      Some d \<Rightarrow> Inr (d, s)
    | None \<Rightarrow>
       (case createForBookingWithin known ports clk now inp s of
          Inr r \<Rightarrow> Inr r
        | Inl e \<Rightarrow>
           (if e = OrderUniqueViolation
            then bind_res (findBySource SourceBooking (bo_booking inp) after) (\<lambda>settled. case settled of
                   Some d \<Rightarrow> Inr (d, after) | None \<Rightarrow> Inl e)
            else Inl e)))"

section \<open>Capture, confirmation without collection, cancellation, refund\<close>

datatype capture_refusal = CapMissing | CapNonPositive | CapNotCollectible | CapExceedsTotal

datatype capture_outcome =
    Captured order_status int
  | AlreadyCaptured order_status int
  | CaptureRefused capture_refusal

definition explainCaptureRefusal :: "nat \<Rightarrow> int \<Rightarrow> order_db \<Rightarrow> order_error + capture_outcome" where
  "explainCaptureRefusal orderId amount s =
    (case order_at s orderId of
       None \<Rightarrow> Inr (CaptureRefused CapMissing)
     | Some od \<Rightarrow>
        (if od_status od \<noteq> OrdPending \<or> 0 < od_collected od then Inr (AlreadyCaptured (od_status od) (od_collected od))
         else case schedule_at s orderId of
                None \<Rightarrow> Inl (MissingSchedule orderId)
              | Some sc \<Rightarrow>
                 (if amount \<le> 0 then Inr (CaptureRefused CapNonPositive)
                  else if amount \<noteq> sc_collectible sc then Inr (CaptureRefused CapNotCollectible)
                  else Inr (CaptureRefused CapExceedsTotal))))"

text \<open>The predicate of the one UPDATE that captures: the schedule is joined on the order.\<close>

definition capturable :: "order_db \<Rightarrow> nat \<Rightarrow> int \<Rightarrow> order \<Rightarrow> bool" where
  "capturable s orderId amount od \<longleftrightarrow> od_id od = orderId \<and> od_status od = OrdPending \<and> od_collected od = 0 \<and> 0 < amount \<and>
    (case schedule_at s orderId of None \<Rightarrow> False | Some sc \<Rightarrow> amount = sc_collectible sc) \<and> amount \<le> od_total od"

definition capture_row :: "int \<Rightarrow> int \<Rightarrow> order \<Rightarrow> order" where
  "capture_row now amount od = od\<lparr>od_collected := amount,
     od_status := (if amount = od_total od then OrdPaid else OrdCollectionCompleted), od_paidAt := Some now\<rparr>"

definition recordVerifiedCapture :: "int \<Rightarrow> nat \<Rightarrow> jsnum \<Rightarrow> order_db \<Rightarrow> capture_outcome order_result" where
  "recordVerifiedCapture now orderId verifiedAmount s =
    bind_res (money_step (assertNonNegativeAmount verifiedAmount ''verified capture amount'')) (\<lambda>amount.
    if taffected (capturable s orderId amount) (om_orders s) \<noteq> 1
    then bind_res (explainCaptureRefusal orderId amount s) (\<lambda>r. Inr (r, s))
    else
      let s1 = s\<lparr>om_orders := tupd (capturable s orderId amount) (capture_row now amount) (om_orders s)\<rparr> in
      case (order_at s1 orderId, schedule_at s1 orderId) of
        (Some od, Some sc) \<Rightarrow>
          (if od_status od = OrdPaid
           then Inr (Captured OrdPaid (od_collected od), emitOrderEvent (OrderPaid orderId (od_total od)) s1)
           else Inr (Captured OrdCollectionCompleted (od_collected od),
                     emitOrderEvent (OrderCollectionCaptured orderId (sc_serviceTotal sc) (od_collected od) (sc_venueBalance sc)) s1))
      | _ \<Rightarrow> Inl OrderNotFound)"

datatype zero_refusal = ZeroPositiveCollectible | ZeroNotTransitionable | ZeroMissing
datatype zero_collectible_transition = ZeroTransitioned | ZeroAlready | ZeroIneligible zero_refusal

definition zero_collectible :: "order_db \<Rightarrow> nat \<Rightarrow> order \<Rightarrow> bool" where
  "zero_collectible s orderId od \<longleftrightarrow> od_id od = orderId \<and> od_status od = OrdPending \<and>
    (case schedule_at s orderId of None \<Rightarrow> False | Some sc \<Rightarrow> sc_collectible sc = 0)"

definition confirmNoOnlineCollection :: "nat \<Rightarrow> order_db \<Rightarrow> zero_collectible_transition order_result" where
  "confirmNoOnlineCollection orderId s =
    (if taffected (zero_collectible s orderId) (om_orders s) = 1
     then Inr (ZeroTransitioned, s\<lparr>om_orders := tupd (zero_collectible s orderId)
            (\<lambda>od. od\<lparr>od_status := OrdCollectionNotRequired\<rparr>) (om_orders s)\<rparr>)
     else case order_at s orderId of
        None \<Rightarrow> Inr (ZeroIneligible ZeroMissing, s)
      | Some od \<Rightarrow>
         (if od_status od = OrdCollectionNotRequired then Inr (ZeroAlready, s)
          else case schedule_at s orderId of
                 None \<Rightarrow> Inl (MissingSchedule orderId)
               | Some sc \<Rightarrow> if 0 < sc_collectible sc then Inr (ZeroIneligible ZeroPositiveCollectible, s)
                            else Inr (ZeroIneligible ZeroNotTransitionable, s)))"

definition cancel_order :: "int \<Rightarrow> nat \<Rightarrow> string \<Rightarrow> order_db \<Rightarrow> bool \<times> order_db" where
  "cancel_order now orderId reason s =
    (let P = (\<lambda>od. od_id od = orderId \<and> od_status od \<in> set CANCELLABLE_STATUSES) in
     if taffected P (om_orders s) \<noteq> 1 then (False, s)
     else (True, emitOrderEvent (OrderCancelled orderId reason)
            (s\<lparr>om_orders := tupd P (\<lambda>od. od\<lparr>od_status := OrdCancelled, od_cancelledAt := Some now\<rparr>) (om_orders s)\<rparr>)))"

definition refund_row :: "int \<Rightarrow> order \<Rightarrow> order" where
  "refund_row amount od = od\<lparr>od_refunded := od_refunded od + amount,
     od_status := (if od_collected od \<le> od_refunded od + amount then OrdRefunded else OrdPartiallyRefunded)\<rparr>"

definition recordRefundWithin :: "nat \<Rightarrow> int \<Rightarrow> nat \<Rightarrow> order_db \<Rightarrow> bool order_result" where
  "recordRefundWithin orderId amount refundId s =
    (let P = (\<lambda>od. od_id od = orderId \<and> od_status od \<in> set REFUNDABLE_STATUSES \<and> od_refunded od + amount \<le> od_collected od) in
     if taffected P (om_orders s) \<noteq> 1
     then (case order_at s orderId of
             None \<Rightarrow> Inl OrderNotFound
           | Some od \<Rightarrow> if od_collected od < od_refunded od + amount then Inl RefundExceedsOrder else Inr (False, s))
     else let s1 = s\<lparr>om_orders := tupd P (refund_row amount) (om_orders s)\<rparr> in
          case order_at s1 orderId of
            None \<Rightarrow> Inl OrderNotFound
          | Some od \<Rightarrow> Inr (True, emitOrderEvent (OrderRefunded orderId refundId amount (od_refunded od)) s1))"

definition recordRefund :: "nat \<Rightarrow> jsnum \<Rightarrow> nat \<Rightarrow> order_db \<Rightarrow> bool order_result" where
  "recordRefund orderId amount refundId s =
    bind_res (money_step (assertNonNegativeAmount amount ''refund amount'')) (\<lambda>n.
    if n = 0 then Inr (False, s) else recordRefundWithin orderId n refundId s)"

definition remainingRefundable :: "order \<Rightarrow> int" where
  "remainingRefundable od = max 0 (od_collected od - od_refunded od)"

section \<open>Reading\<close>

definition order_findById :: "nat \<Rightarrow> order_db \<Rightarrow> order option" where
  "order_findById orderId s = order_at s orderId"

definition detailFor :: "nat \<Rightarrow> order_db \<Rightarrow> order_error + order_detail option" where
  "detailFor orderId s =
    (case order_at s orderId of None \<Rightarrow> Inr None | Some _ \<Rightarrow> bind_res (loadDetail orderId s) (\<lambda>d. Inr (Some d)))"

definition listOrdersForCustomer :: "nat \<Rightarrow> nat \<Rightarrow> nat \<Rightarrow> order_db \<Rightarrow> order list \<times> nat" where
  "listOrdersForCustomer customerId page limit s =
    (let rows = filter (\<lambda>od. od_customer od = customerId) (om_orders s)
     in (take limit (drop ((page - 1) * limit) (rev (sort_key od_id rows))), length rows))"

text \<open>\<open>OrderOwnerResolver\<close>: the owner of an order is its customer.\<close>

definition order_owner :: "nat \<Rightarrow> order_db \<Rightarrow> nat option" where
  "order_owner orderId s = map_option od_customer (order_at s orderId)"

end
