(* ===== verification/Order_Invariant.thy ===== *)
theory Order_Invariant
  imports Order_Model
begin

text \<open>
  The invariant of the order tables: every order has exactly one schedule that splits its total, its
  refunded, collected and total amounts are ordered, its status says exactly which of them are positive,
  and the events in the outbox tell the same story: one capture event when money was collected, refund
  events that sum to what was refunded. Every operation of the service preserves it.
\<close>

lemma taffected_one:
  assumes "keyed k t" "taffected (\<lambda>r. k r = i \<and> Q r) t = 1"
  shows "\<exists>r. tget k i t = Some r \<and> Q r"
  using assms by (auto simp: taffected_id split: option.splits if_splits)

lemma taffected_one_iff:
  assumes "keyed k t"
  shows "taffected (\<lambda>r. k r = i \<and> Q r) t = 1 \<longleftrightarrow> (\<exists>r. tget k i t = Some r \<and> Q r)"
  using assms by (auto simp: taffected_id split: option.splits)

lemma set_tupd_id:
  assumes "keyed k t" "tget k i t = Some r" "Q r"
  shows "set (tupd (\<lambda>x. k x = i \<and> Q x) f t) = insert (f r) {x \<in> set t. k x \<noteq> i}"
proof -
  have r: "r \<in> set t" "k r = i" using tget_SomeD [OF assms(2)] by auto
  have eq: "k x = i \<and> Q x \<longleftrightarrow> x = r" "k x \<noteq> i \<longleftrightarrow> x \<noteq> r" if "x \<in> set t" for x
    using keyed_inj [OF assms(1) that r(1)] r assms(3) by auto
  have "set (tupd (\<lambda>x. k x = i \<and> Q x) f t) = (\<lambda>x. if x = r then f x else x) ` set t"
    unfolding set_tupd using eq(1) by (intro image_cong) simp_all
  also have "\<dots> = insert (f r) (set t - {r})" using r(1) by auto
  also have "set t - {r} = {x \<in> set t. k x \<noteq> i}" using eq(2) by blast
  finally show ?thesis .
qed

section \<open>Events\<close>

fun event_order :: "order_event \<Rightarrow> nat" where
  "event_order (OrderCreated i _ _ _) = i"
| "event_order (OrderPaid i _) = i"
| "event_order (OrderCollectionCaptured i _ _ _) = i"
| "event_order (OrderCancelled i _) = i"
| "event_order (OrderRefunded i _ _ _) = i"

fun is_capture :: "order_event \<Rightarrow> bool" where
  "is_capture (OrderPaid _ _) = True"
| "is_capture (OrderCollectionCaptured _ _ _ _) = True"
| "is_capture _ = False"

fun refund_amount :: "order_event \<Rightarrow> int" where
  "refund_amount (OrderRefunded _ _ a _) = a"
| "refund_amount _ = 0"

definition captures :: "nat \<Rightarrow> order_event list \<Rightarrow> nat" where
  "captures i evs = length (filter (\<lambda>e. event_order e = i \<and> is_capture e) evs)"

definition refunded_by :: "nat \<Rightarrow> order_event list \<Rightarrow> int" where
  "refunded_by i evs = sum_list (map refund_amount (filter (\<lambda>e. event_order e = i) evs))"

lemma captures_append [simp]: "captures i (a @ b) = captures i a + captures i b"
  by (simp add: captures_def)

lemma refunded_by_append [simp]: "refunded_by i (a @ b) = refunded_by i a + refunded_by i b"
  by (simp add: refunded_by_def)

lemma captures_single [simp]: "captures i [e] = (if event_order e = i \<and> is_capture e then 1 else 0)"
  by (simp add: captures_def)

lemma refunded_by_single [simp]: "refunded_by i [e] = (if event_order e = i then refund_amount e else 0)"
  by (simp add: refunded_by_def)

lemma no_events: "\<forall>e \<in> set evs. event_order e \<noteq> i \<Longrightarrow> captures i evs = 0 \<and> refunded_by i evs = 0"
  by (auto simp: captures_def refunded_by_def filter_empty_conv)

section \<open>The invariant\<close>

definition money_ok :: "payment_schedule \<Rightarrow> order \<Rightarrow> bool" where
  "money_ok sc od \<longleftrightarrow> order_row_ok od \<and> schedule_row_ok sc \<and> sc_serviceTotal sc = od_total od \<and>
    (case od_status od of
       OrdPending \<Rightarrow> od_collected od = 0
     | OrdCancelled \<Rightarrow> od_collected od = 0
     | OrdCollectionNotRequired \<Rightarrow> od_collected od = 0 \<and> sc_collectible sc = 0
     | OrdPaid \<Rightarrow> 0 < od_collected od \<and> od_collected od = sc_collectible sc \<and> od_collected od = od_total od \<and> od_refunded od = 0
     | OrdCollectionCompleted \<Rightarrow> 0 < od_collected od \<and> od_collected od = sc_collectible sc \<and> od_collected od < od_total od \<and>
         od_refunded od = 0
     | OrdPartiallyRefunded \<Rightarrow> od_collected od = sc_collectible sc \<and> 0 < od_refunded od \<and> od_refunded od < od_collected od
     | OrdRefunded \<Rightarrow> 0 < od_collected od \<and> od_collected od = sc_collectible sc \<and> od_refunded od = od_collected od)"

definition told_by :: "order_event list \<Rightarrow> order \<Rightarrow> bool" where
  "told_by evs od \<longleftrightarrow> captures (od_id od) evs = (if 0 < od_collected od then 1 else 0) \<and>
    refunded_by (od_id od) evs = od_refunded od"

definition order_inv :: "order_db \<Rightarrow> bool" where
  "order_inv s \<longleftrightarrow> keyed od_id (om_orders s) \<and> keyed sc_order (om_schedules s) \<and>
    distinct (map (\<lambda>od. (od_sourceType od, od_source od)) (om_orders s)) \<and>
    (\<forall>od \<in> set (om_orders s). od_id od < om_next s \<and> told_by (om_outbox s) od \<and>
       (\<exists>sc. schedule_at s (od_id od) = Some sc \<and> money_ok sc od)) \<and>
    (\<forall>sc \<in> set (om_schedules s). sc_order sc < om_next s) \<and> (\<forall>t \<in> set (om_terms s). tr_order t < om_next s) \<and>
    (\<forall>e \<in> set (om_outbox s). event_order e < om_next s)"

lemma order_invD:
  assumes "order_inv s" "order_at s i = Some od"
  shows "od_id od = i" "i < om_next s" "od \<in> set (om_orders s)" "told_by (om_outbox s) od"
    "\<exists>sc. schedule_at s i = Some sc \<and> money_ok sc od"
  using assms tget_SomeD [of od_id i "om_orders s" od] by (auto simp: order_inv_def order_at_def)

lemma inv_order_keyed: "order_inv s \<Longrightarrow> keyed od_id (om_orders s)"
  by (simp add: order_inv_def)

lemma order_in_at: "order_inv s \<Longrightarrow> od \<in> set (om_orders s) \<Longrightarrow> order_at s (od_id od) = Some od"
  unfolding order_at_def by (rule tget_keyed [OF inv_order_keyed])

text \<open>One row changes, and the events about it with it.\<close>

lemma order_update_inv:
  assumes "order_inv s" "order_at s i = Some od" "Q od"
    "\<And>x. od_id (f x) = od_id x \<and> od_sourceType (f x) = od_sourceType x \<and> od_source (f x) = od_source x"
    "\<forall>e \<in> set evs. event_order e = i"
    "\<And>sc. schedule_at s i = Some sc \<Longrightarrow> money_ok sc od \<Longrightarrow> money_ok sc (f od)"
    "told_by (om_outbox s @ evs) (f od)"
  shows "order_inv (s\<lparr>om_orders := tupd (\<lambda>x. od_id x = i \<and> Q x) f (om_orders s), om_outbox := om_outbox s @ evs\<rparr>)"
proof -
  let ?t = "om_orders s"
  have k: "keyed od_id ?t" by (rule inv_order_keyed [OF assms(1)])
  have od: "tget od_id i ?t = Some od" using assms(2) by (simp add: order_at_def)
  note set' = set_tupd_id [OF k od, of Q f, OF assms(3)]
  have ids: "od_id od = i" "i < om_next s" using order_invD [OF assms(1,2)] by auto
  have src: "map (\<lambda>x. (od_sourceType x, od_source x)) (tupd P f ?t) = map (\<lambda>x. (od_sourceType x, od_source x)) ?t" for P
    using assms(4) by (simp add: tupd_def)
  have "keyed od_id (tupd (\<lambda>x. od_id x = i \<and> Q x) f ?t)" using k assms(4) by (simp add: keyed_tupd)
  moreover have "\<forall>x \<in> set (tupd (\<lambda>x. od_id x = i \<and> Q x) f ?t). od_id x < om_next s \<and> told_by (om_outbox s @ evs) x \<and>
       (\<exists>sc. schedule_at s (od_id x) = Some sc \<and> money_ok sc x)"
    unfolding set'
  proof (rule ballI, elim insertE)
    fix x assume "x = f od"
    with assms(4) [of od] ids order_invD(5) [OF assms(1,2)] assms(6,7)
    show "od_id x < om_next s \<and> told_by (om_outbox s @ evs) x \<and> (\<exists>sc. schedule_at s (od_id x) = Some sc \<and> money_ok sc x)"
      by auto
  next
    fix x assume x: "x \<in> {x \<in> set ?t. od_id x \<noteq> i}"
    then have "\<forall>e \<in> set evs. event_order e \<noteq> od_id x" using assms(5) by auto
    from no_events [OF this] have "captures (od_id x) evs = 0" "refunded_by (od_id x) evs = 0" by auto
    with x assms(1) show "od_id x < om_next s \<and> told_by (om_outbox s @ evs) x \<and> (\<exists>sc. schedule_at s (od_id x) = Some sc \<and> money_ok sc x)"
      by (auto simp: order_inv_def told_by_def)
  qed
  moreover have "\<forall>e \<in> set (om_outbox s @ evs). event_order e < om_next s"
    using assms(1,5) ids by (auto simp: order_inv_def)
  ultimately show ?thesis using assms(1) src by (simp add: order_inv_def schedule_at_def)
qed

section \<open>Every operation preserves it\<close>

lemma order_at_tupd:
  assumes "\<And>x. od_id (f x) = od_id x" "order_at s i = Some od" "P od" "om_orders s' = tupd P f (om_orders s)"
  shows "order_at s' i = Some (f od)"
  using assms by (simp add: order_at_def tget_tupd)

lemma capture_effect:
  assumes "recordVerifiedCapture now i v s = Inr (r, s')" "keyed od_id (om_orders s)"
  shows "(\<exists>od sc ev amount. v = Fin (of_int amount) \<and> order_at s i = Some od \<and> schedule_at s i = Some sc \<and> capturable s i amount od \<and>
      ev = (if amount = od_total od then OrderPaid i (od_total od)
            else OrderCollectionCaptured i (sc_serviceTotal sc) amount (sc_venueBalance sc)) \<and>
      r = Captured (if amount = od_total od then OrdPaid else OrdCollectionCompleted) amount \<and>
      s' = s\<lparr>om_orders := tupd (capturable s i amount) (capture_row now amount) (om_orders s), om_outbox := om_outbox s @ [ev]\<rparr>)
    \<or> s' = s \<and> (\<forall>st c. r \<noteq> Captured st c)"
proof -
  from assms(1) obtain amount where v: "v = Fin (of_int amount)"
    and a: "assertNonNegativeAmount v ''verified capture amount'' = Inr amount"
    by (auto simp: recordVerifiedCapture_def bind_res_Inr assertNonNegativeAmount_def assertAmount_Inr split: if_splits)
  show ?thesis
  proof (cases "taffected (capturable s i amount) (om_orders s) = 1")
    case False
    then have "explainCaptureRefusal i amount s = Inr r" "s' = s"
      using assms(1) a by (auto simp: recordVerifiedCapture_def bind_res_Inr)
    then show ?thesis by (auto simp: explainCaptureRefusal_def split: option.splits if_splits)
  next
    case True
    let ?Q = "\<lambda>od. od_status od = OrdPending \<and> od_collected od = 0 \<and> 0 < amount \<and>
       (case schedule_at s i of None \<Rightarrow> False | Some sc \<Rightarrow> amount = sc_collectible sc) \<and> amount \<le> od_total od"
    have P: "capturable s i amount = (\<lambda>od. od_id od = i \<and> ?Q od)" by (auto simp: capturable_def fun_eq_iff)
    from taffected_one [OF assms(2) True [unfolded P]] obtain od where od: "order_at s i = Some od" "?Q od"
      by (auto simp: order_at_def)
    then obtain sc where sc: "schedule_at s i = Some sc" by (auto split: option.splits)
    have c: "capturable s i amount od" using od tget_SomeD [of od_id i "om_orders s" od] by (simp add: P order_at_def)
    let ?s1 = "s\<lparr>om_orders := tupd (capturable s i amount) (capture_row now amount) (om_orders s)\<rparr>"
    have "order_at ?s1 i = Some (capture_row now amount od)"
      by (rule order_at_tupd [where P = "capturable s i amount" and s = s and f = "capture_row now amount"]) (use od(1) c in \<open>simp_all add: capture_row_def\<close>)
    moreover have "schedule_at ?s1 i = Some sc" using sc by (simp add: schedule_at_def)
    ultimately show ?thesis
      using assms(1) a True v od(1) sc c
      by (intro disjI1 exI [of _ od] exI [of _ sc]) (auto simp: recordVerifiedCapture_def capture_row_def emitOrderEvent_def split: if_splits)
  qed
qed

lemma capture_inv:
  assumes "recordVerifiedCapture now i v s = Inr (r, s')" "order_inv s"
  shows "order_inv s'"
  using capture_effect [OF assms(1) inv_order_keyed [OF assms(2)]]
proof (elim disjE exE conjE)
  fix od sc ev amount
  assume od: "order_at s i = Some od" "schedule_at s i = Some sc" "capturable s i amount od"
    and ev: "ev = (if amount = od_total od then OrderPaid i (od_total od)
            else OrderCollectionCaptured i (sc_serviceTotal sc) amount (sc_venueBalance sc))"
    and s': "s' = s\<lparr>om_orders := tupd (capturable s i amount) (capture_row now amount) (om_orders s), om_outbox := om_outbox s @ [ev]\<rparr>"
  let ?Q = "\<lambda>od. od_status od = OrdPending \<and> od_collected od = 0 \<and> 0 < amount \<and>
       (case schedule_at s i of None \<Rightarrow> False | Some sc \<Rightarrow> amount = sc_collectible sc) \<and> amount \<le> od_total od"
  have P: "capturable s i amount = (\<lambda>od. od_id od = i \<and> ?Q od)" by (auto simp: capturable_def fun_eq_iff)
  have q: "od_id od = i" "?Q od" using od(3) by (auto simp: P)
  have ev': "event_order ev = i" "is_capture ev" "refund_amount ev = 0" by (auto simp: ev)
  show "order_inv s'"
    unfolding s' P
  proof (rule order_update_inv [OF assms(2) od(1)])
    show "money_ok x (capture_row now amount od)" if "schedule_at s i = Some x" "money_ok x od" for x
      using that q od(2) by (auto simp: money_ok_def capture_row_def order_row_ok_def schedule_row_ok_def)
    show "told_by (om_outbox s @ [ev]) (capture_row now amount od)"
      using order_invD(4) [OF assms(2) od(1)] q ev' by (auto simp: told_by_def capture_row_def)
  qed (use q ev' in \<open>auto simp: capture_row_def\<close>)
qed (use assms(2) in simp)

lemma zero_effect:
  assumes "confirmNoOnlineCollection i s = Inr (r, s')" "keyed od_id (om_orders s)"
  shows "(\<exists>od. order_at s i = Some od \<and> zero_collectible s i od \<and> r = ZeroTransitioned \<and>
      s' = s\<lparr>om_orders := tupd (zero_collectible s i) (\<lambda>od. od\<lparr>od_status := OrdCollectionNotRequired\<rparr>) (om_orders s)\<rparr>)
    \<or> s' = s \<and> r \<noteq> ZeroTransitioned"
proof (cases "taffected (zero_collectible s i) (om_orders s) = 1")
  case True
  let ?Q = "\<lambda>od. od_status od = OrdPending \<and> (case schedule_at s i of None \<Rightarrow> False | Some sc \<Rightarrow> sc_collectible sc = 0)"
  have P: "zero_collectible s i = (\<lambda>od. od_id od = i \<and> ?Q od)" by (auto simp: zero_collectible_def fun_eq_iff)
  from taffected_one [OF assms(2) True [unfolded P]] obtain od where od: "order_at s i = Some od" "?Q od"
    by (auto simp: order_at_def)
  then have "zero_collectible s i od" using tget_SomeD [of od_id i "om_orders s" od] by (simp add: P order_at_def)
  with od assms(1) True show ?thesis by (auto simp: confirmNoOnlineCollection_def)
next
  case False
  with assms(1) show ?thesis by (auto simp: confirmNoOnlineCollection_def split: option.splits if_splits)
qed

lemma zero_inv:
  assumes "confirmNoOnlineCollection i s = Inr (r, s')" "order_inv s"
  shows "order_inv s'"
  using zero_effect [OF assms(1) inv_order_keyed [OF assms(2)]]
proof (elim disjE exE conjE)
  fix od
  assume od: "order_at s i = Some od" "zero_collectible s i od"
    and s': "s' = s\<lparr>om_orders := tupd (zero_collectible s i) (\<lambda>od. od\<lparr>od_status := OrdCollectionNotRequired\<rparr>) (om_orders s)\<rparr>"
  let ?Q = "\<lambda>od. od_status od = OrdPending \<and> (case schedule_at s i of None \<Rightarrow> False | Some sc \<Rightarrow> sc_collectible sc = 0)"
  have P: "zero_collectible s i = (\<lambda>od. od_id od = i \<and> ?Q od)" by (auto simp: zero_collectible_def fun_eq_iff)
  have q: "?Q od" using od(2) by (auto simp: P)
  have "order_inv (s\<lparr>om_orders := tupd (\<lambda>x. od_id x = i \<and> ?Q x) (\<lambda>od. od\<lparr>od_status := OrdCollectionNotRequired\<rparr>) (om_orders s),
      om_outbox := om_outbox s @ []\<rparr>)"
  proof (rule order_update_inv [OF assms(2) od(1)])
    show "money_ok x (od\<lparr>od_status := OrdCollectionNotRequired\<rparr>)" if "schedule_at s i = Some x" "money_ok x od" for x
      using that q by (auto simp: money_ok_def order_row_ok_def)
    show "told_by (om_outbox s @ []) (od\<lparr>od_status := OrdCollectionNotRequired\<rparr>)"
      using order_invD(4) [OF assms(2) od(1)] by (simp add: told_by_def)
  qed (use q in auto)
  then show "order_inv s'" unfolding s' P by simp
qed (use assms(2) in simp)

lemma cancel_order_effect:
  assumes "cancel_order now i reason s = (b, s')" "keyed od_id (om_orders s)"
  shows "b \<and> (\<exists>od. order_at s i = Some od \<and> od_status od \<in> set CANCELLABLE_STATUSES \<and>
      s' = s\<lparr>om_orders := tupd (\<lambda>od. od_id od = i \<and> od_status od \<in> set CANCELLABLE_STATUSES)
              (\<lambda>od. od\<lparr>od_status := OrdCancelled, od_cancelledAt := Some now\<rparr>) (om_orders s),
            om_outbox := om_outbox s @ [OrderCancelled i reason]\<rparr>)
    \<or> \<not> b \<and> s' = s"
proof (cases "taffected (\<lambda>od. od_id od = i \<and> od_status od \<in> set CANCELLABLE_STATUSES) (om_orders s) = 1")
  case True
  from taffected_one [OF assms(2) this] obtain od where "order_at s i = Some od" "od_status od \<in> set CANCELLABLE_STATUSES"
    by (auto simp: order_at_def)
  with assms(1) True show ?thesis by (auto simp: cancel_order_def emitOrderEvent_def)
next
  case False
  with assms(1) show ?thesis by (auto simp: cancel_order_def)
qed

lemma cancel_order_inv:
  assumes "cancel_order now i reason s = (b, s')" "order_inv s"
  shows "order_inv s'"
  using cancel_order_effect [OF assms(1) inv_order_keyed [OF assms(2)]]
proof (elim disjE exE conjE)
  fix od
  assume od: "order_at s i = Some od" "od_status od \<in> set CANCELLABLE_STATUSES"
    and s': "s' = s\<lparr>om_orders := tupd (\<lambda>od. od_id od = i \<and> od_status od \<in> set CANCELLABLE_STATUSES)
              (\<lambda>od. od\<lparr>od_status := OrdCancelled, od_cancelledAt := Some now\<rparr>) (om_orders s),
            om_outbox := om_outbox s @ [OrderCancelled i reason]\<rparr>"
  show "order_inv s'"
    unfolding s'
  proof (rule order_update_inv [OF assms(2) od(1)])
    show "money_ok x (od\<lparr>od_status := OrdCancelled, od_cancelledAt := Some now\<rparr>)" if "money_ok x od" for x
      using that od(2) by (auto simp: money_ok_def order_row_ok_def CANCELLABLE_STATUSES_def)
    show "told_by (om_outbox s @ [OrderCancelled i reason]) (od\<lparr>od_status := OrdCancelled, od_cancelledAt := Some now\<rparr>)"
      using order_invD(4) [OF assms(2) od(1)] by (simp add: told_by_def)
  qed (use od in auto)
qed (use assms(2) in simp)

abbreviation refundable_row :: "nat \<Rightarrow> int \<Rightarrow> order \<Rightarrow> bool" where
  "refundable_row i amount od \<equiv> od_id od = i \<and> od_status od \<in> set REFUNDABLE_STATUSES \<and> od_refunded od + amount \<le> od_collected od"

lemma recordRefund_amount:
  assumes "recordRefund i v rid s = Inr (b, s')"
  shows "\<exists>n. v = Fin (of_int n) \<and> 0 \<le> n \<and>
     (if n = 0 then (b, s') = (False, s) else recordRefundWithin i n rid s = Inr (b, s'))"
proof -
  from assms obtain n where n: "assertNonNegativeAmount v ''refund amount'' = Inr n"
    and r: "(if n = 0 then Inr (False, s) else recordRefundWithin i n rid s) = Inr (b, s')"
    unfolding recordRefund_def bind_res_Inr lifted_Inr by blast
  from n have "v = Fin (of_int n) \<and> 0 \<le> n"
    by (auto simp: assertNonNegativeAmount_def bind_res_Inr assertAmount_Inr split: if_splits)
  with r show ?thesis by (intro exI [of _ n]) (simp split: if_splits)
qed

lemma refund_effect:
  assumes "recordRefundWithin i n rid s = Inr (b, s')" "keyed od_id (om_orders s)"
  shows "b \<and> (\<exists>od. order_at s i = Some od \<and> refundable_row i n od \<and>
      s' = s\<lparr>om_orders := tupd (refundable_row i n) (refund_row n) (om_orders s),
            om_outbox := om_outbox s @ [OrderRefunded i rid n (od_refunded od + n)]\<rparr>)
    \<or> \<not> b \<and> s' = s"
proof (cases "taffected (refundable_row i n) (om_orders s) = 1")
  case True
  from taffected_one [OF assms(2) this] obtain od where
    od: "order_at s i = Some od" "od_status od \<in> set REFUNDABLE_STATUSES \<and> od_refunded od + n \<le> od_collected od"
    by (auto simp: order_at_def)
  then have r: "refundable_row i n od" using tget_SomeD [of od_id i "om_orders s" od] by (simp add: order_at_def)
  let ?s1 = "s\<lparr>om_orders := tupd (refundable_row i n) (refund_row n) (om_orders s)\<rparr>"
  have "order_at ?s1 i = Some (refund_row n od)"
    by (rule order_at_tupd [where P = "refundable_row i n" and s = s and f = "refund_row n"])
       (use od(1) r in \<open>simp_all add: refund_row_def\<close>)
  then have "(b, s') = (True, emitOrderEvent (OrderRefunded i rid n (od_refunded od + n)) ?s1)"
    using assms(1) True by (simp add: recordRefundWithin_def Let_def refund_row_def)
  with od(1) r show ?thesis by (simp add: emitOrderEvent_def)
next
  case False
  with assms(1) show ?thesis by (auto simp: recordRefundWithin_def Let_def split: option.splits if_splits)
qed

lemma refund_inv:
  assumes "recordRefund i v rid s = Inr (b, s')" "order_inv s"
  shows "order_inv s'"
proof -
  obtain n where n: "0 \<le> n" "if n = 0 then (b, s') = (False, s) else recordRefundWithin i n rid s = Inr (b, s')"
    using recordRefund_amount [OF assms(1)] by blast
  show ?thesis
  proof (cases "n = 0")
    case True
    with n(2) assms(2) show ?thesis by simp
  next
    case False
    with n(2) have "recordRefundWithin i n rid s = Inr (b, s')" by simp
    from refund_effect [OF this inv_order_keyed [OF assms(2)]] show ?thesis
    proof (elim disjE exE conjE)
      fix od
      assume od: "order_at s i = Some od" "od_id od = i" "od_status od \<in> set REFUNDABLE_STATUSES" "od_refunded od + n \<le> od_collected od"
        and s': "s' = s\<lparr>om_orders := tupd (refundable_row i n) (refund_row n) (om_orders s),
            om_outbox := om_outbox s @ [OrderRefunded i rid n (od_refunded od + n)]\<rparr>"
      show "order_inv s'"
        unfolding s'
      proof (rule order_update_inv [OF assms(2) od(1)])
        show "money_ok x (refund_row n od)" if "money_ok x od" for x
          using that od n(1) False by (auto simp: money_ok_def order_row_ok_def REFUNDABLE_STATUSES_def refund_row_def)
        show "told_by (om_outbox s @ [OrderRefunded i rid n (od_refunded od + n)]) (refund_row n od)"
          using order_invD(4) [OF assms(2) od(1)] od(2) by (simp add: told_by_def refund_row_def)
      qed (use od in \<open>auto simp: refund_row_def\<close>)
    qed (use assms(2) in simp)
  qed
qed

section \<open>Creating an order\<close>

definition new_order :: "nat \<Rightarrow> booking_order_input \<Rightarrow> booking_quote \<Rightarrow> order" where
  "new_order i inp q = \<lparr>od_id = i, od_sourceType = SourceBooking, od_source = bo_booking inp,
        od_customer = bo_customer inp, od_seller = bq_seller q, od_status = OrdPending, od_subtotal = pq_subtotal (bq_priced q),
        od_discountTotal = pq_discountTotal (bq_priced q), od_feeTotal = pq_feeTotal (bq_priced q),
        od_total = pq_total (bq_priced q), od_refunded = 0, od_collected = 0, od_paidAt = None, od_cancelledAt = None\<rparr>"

lemma insert_schedule_Inr:
  "insert_schedule sc s = Inr s' \<longleftrightarrow> sc_order sc \<notin> sc_order ` set (om_schedules s) \<and> schedule_row_ok sc \<and>
     s' = s\<lparr>om_schedules := om_schedules s @ [sc]\<rparr>"
  by (auto simp: insert_schedule_def)

lemma write_schedule_Inr:
  assumes "write_schedule now i seller accepted sc s = Inr s'"
  shows "\<exists>sc' rows. (sc' = sc \<or> sc' = sc\<lparr>sc_acceptedAt := Some now\<rparr>) \<and> sc_order sc \<notin> sc_order ` set (om_schedules s) \<and>
    schedule_row_ok sc' \<and> (\<forall>t \<in> set rows. tr_order t = i) \<and>
    s' = s\<lparr>om_schedules := om_schedules s @ [sc'], om_terms := om_terms s @ rows\<rparr>"
proof (cases accepted)
  case None
  with assms show ?thesis
    by (intro exI [of _ sc] exI [of _ "[]"]) (auto simp: write_schedule_def insert_schedule_Inr)
next
  case (Some snap)
  have "tr_order (terms_row i seller snap) = i" by (simp add: terms_row_def Let_def)
  with assms Some show ?thesis
    by (intro exI [of _ "sc\<lparr>sc_acceptedAt := Some now\<rparr>"] exI [of _ "[terms_row i seller snap]"])
       (auto simp: write_schedule_def insert_schedule_Inr bind_res_Inr insertOutcomeTerms_def split: if_splits)
qed

lemma createWithin_order_Inr:
  assumes "createForBookingWithin known ports clk now inp s = Inr (d, s')"
  shows "\<exists>q sc sc' rows items adjs cms.
    quoteBooking known ports clk (bo_customer inp) (bo_professional inp) (bo_service inp) (Some (bo_booking inp)) = Inr q \<and>
    scheduleValuesFor (om_next s) (bq_priced q) (bq_collection q) = Inr sc \<and>
    (sc' = sc \<or> sc' = sc\<lparr>sc_acceptedAt := Some now\<rparr>) \<and> schedule_row_ok sc' \<and>
    sc_order sc \<notin> sc_order ` set (om_schedules s) \<and> (\<forall>t \<in> set rows. tr_order t = om_next s) \<and>
    order_row_ok (new_order (om_next s) inp q) \<and>
    (\<forall>x \<in> set (om_orders s). \<not> (od_sourceType x = SourceBooking \<and> od_source x = bo_booking inp)) \<and>
    s' = s\<lparr>om_orders := om_orders s @ [new_order (om_next s) inp q], om_items := items, om_adjustments := adjs,
          om_schedules := om_schedules s @ [sc'], om_terms := om_terms s @ rows, om_commission := cms,
          om_outbox := om_outbox s @ [OrderCreated (om_next s) (bo_booking inp) (bo_customer inp) (pq_total (bq_priced q))],
          om_next := Suc (om_next s)\<rparr>"
proof -
  from assms obtain q sc accepted s1 price s2 as s3 s4 s5 where
    q: "quoteBooking known ports clk (bo_customer inp) (bo_professional inp) (bo_service inp) (Some (bo_booking inp)) = Inr q"
      "scheduleValuesFor (om_next s) (bq_priced q) (bq_collection q) = Inr sc"
    and s1: "insert_order (new_order (om_next s) inp q) (s\<lparr>om_next := Suc (om_next s)\<rparr>) = Inr s1"
    and s2: "insert_item \<lparr>oi_order = om_next s, oi_reference = of_id (bq_offering q), oi_name = of_name (bq_offering q),
        oi_quantity = 1, oi_unitPrice = price, oi_lineTotal = price\<rparr> s1 = Inr s2"
    and s3: "insert_adjustments as s2 = Inr s3"
    and s4: "write_schedule now (om_next s) (bq_seller q) accepted sc s3 = Inr s4"
    and s5: "insertCommissionTerms ports (om_next s) s4 = Inr s5"
    and s': "s' = emitOrderEvent (OrderCreated (om_next s) (bo_booking inp) (bo_customer inp) (pq_total (bq_priced q))) s5"
    unfolding createForBookingWithin_def Let_def bind_res_Inr new_order_def by blast
  have a1: "s1 = s\<lparr>om_next := Suc (om_next s), om_orders := om_orders s @ [new_order (om_next s) inp q]\<rparr>"
    "order_row_ok (new_order (om_next s) inp q)"
    "\<forall>x \<in> set (om_orders s). \<not> (od_sourceType x = SourceBooking \<and> od_source x = bo_booking inp)"
    using s1 by (auto simp: insert_order_def list_ex_iff new_order_def split: if_splits)
  obtain items adjs where a3: "s3 = s1\<lparr>om_items := items, om_adjustments := adjs\<rparr>"
    using s2 s3 by (auto simp: insert_item_def insert_adjustments_def split: if_splits)
  from write_schedule_Inr [OF s4] obtain sc' rows where w: "sc' = sc \<or> sc' = sc\<lparr>sc_acceptedAt := Some now\<rparr>"
    "sc_order sc \<notin> sc_order ` set (om_schedules s)" "schedule_row_ok sc'" "\<forall>t \<in> set rows. tr_order t = om_next s"
    "s4 = s3\<lparr>om_schedules := om_schedules s @ [sc'], om_terms := om_terms s @ rows\<rparr>"
    unfolding a3 a1(1) by auto
  obtain cms where "s5 = s4\<lparr>om_commission := cms\<rparr>" using s5 by (auto simp: insertCommissionTerms_def split: option.splits)
  then have "s' = s\<lparr>om_orders := om_orders s @ [new_order (om_next s) inp q], om_items := items, om_adjustments := adjs,
          om_schedules := om_schedules s @ [sc'], om_terms := om_terms s @ rows, om_commission := cms,
          om_outbox := om_outbox s @ [OrderCreated (om_next s) (bo_booking inp) (bo_customer inp) (pq_total (bq_priced q))],
          om_next := Suc (om_next s)\<rparr>"
    using s' w(5) a3 a1(1) by (simp add: emitOrderEvent_def)
  with q a1 w show ?thesis by blast
qed

lemma scheduleValues_shape:
  assumes "scheduleValuesFor i p c = Inr sc"
  shows "sc_order sc = i \<and> sc_serviceTotal sc = pq_total p"
proof (cases c)
  case (EnrolledCollection snap)
  with assms obtain a where "bookingCollectionAmountsV1 (fin_int (pq_subtotal p)) (fin_int (pq_total p)) (cs_terms snap) = Inr a"
    "sc_order sc = i" "sc_serviceTotal sc = ca_serviceTotal a"
    by (auto simp: scheduleValuesFor_def bind_res_Inr)
  with amounts_Inr(4) show ?thesis by simp
qed (use assms in \<open>auto simp: scheduleValuesFor_def\<close>)

lemma createWithin_order_inv:
  assumes "createForBookingWithin known ports clk now inp s = Inr (d, s')" "order_inv s"
  shows "order_inv s'"
proof -
  obtain q sc sc' rows items adjs cms where
    q: "scheduleValuesFor (om_next s) (bq_priced q) (bq_collection q) = Inr sc"
      "sc' = sc \<or> sc' = sc\<lparr>sc_acceptedAt := Some now\<rparr>" "schedule_row_ok sc'"
      "\<forall>t \<in> set rows. tr_order t = om_next s" "order_row_ok (new_order (om_next s) inp q)"
      "\<forall>x \<in> set (om_orders s). \<not> (od_sourceType x = SourceBooking \<and> od_source x = bo_booking inp)"
    and s': "s' = s\<lparr>om_orders := om_orders s @ [new_order (om_next s) inp q], om_items := items, om_adjustments := adjs,
          om_schedules := om_schedules s @ [sc'], om_terms := om_terms s @ rows, om_commission := cms,
          om_outbox := om_outbox s @ [OrderCreated (om_next s) (bo_booking inp) (bo_customer inp) (pq_total (bq_priced q))],
          om_next := Suc (om_next s)\<rparr>"
    using createWithin_order_Inr [OF assms(1)] by (elim exE conjE) (rule that; assumption)
  let ?n = "om_next s" and ?od = "new_order (om_next s) inp q"
  have sc': "sc_order sc' = ?n" "sc_serviceTotal sc' = pq_total (bq_priced q)" "sc_collectible sc' = sc_collectible sc"
    using scheduleValues_shape [OF q(1)] q(2) by auto
  have fresh: "?n \<notin> od_id ` set (om_orders s)" "?n \<notin> sc_order ` set (om_schedules s)"
    using assms(2) by (auto simp: order_inv_def)
  have new: "schedule_at s ?n = None" using fresh(2) by (simp add: schedule_at_def tget_None_iff)
  have sched: "schedule_at s' j = (if j = ?n then Some sc' else schedule_at s j)" for j
    using new sc'(1) by (simp add: s' schedule_at_def tget_append split: option.splits)
  have noev: "captures ?n (om_outbox s) = 0 \<and> refunded_by ?n (om_outbox s) = 0"
    by (rule no_events) (use assms(2) in \<open>auto simp: order_inv_def\<close>)
  have "told_by (om_outbox s') ?od" using noev by (simp add: s' told_by_def new_order_def)
  moreover have "money_ok sc' ?od" using q(3,5) sc' by (simp add: money_ok_def new_order_def)
  moreover have "told_by (om_outbox s') x" if "x \<in> set (om_orders s)" for x
    using that assms(2) by (auto simp: s' told_by_def order_inv_def)
  moreover have "keyed od_id (om_orders s')" using assms(2) fresh(1) by (auto simp: s' keyed_append order_inv_def new_order_def)
  moreover have "keyed sc_order (om_schedules s')" using assms(2) fresh(2) sc'(1) by (auto simp: s' keyed_append order_inv_def)
  moreover have "distinct (map (\<lambda>od. (od_sourceType od, od_source od)) (om_orders s'))"
    using assms(2) q(6) by (auto simp: s' order_inv_def new_order_def)
  moreover have "\<forall>od \<in> set (om_orders s). od_id od < ?n \<and> (\<exists>sc. schedule_at s (od_id od) = Some sc \<and> money_ok sc od)"
    using assms(2) by (auto simp: order_inv_def)
  ultimately show ?thesis
    using assms(2) sc'(1) q(4) sched by (auto simp: order_inv_def s' new_order_def less_Suc_eq)
qed

lemma createForBooking_inv:
  assumes "createForBooking known ports clk now inp s s = Inr (d, s')" "order_inv s"
  shows "order_inv s'"
  using assms createWithin_order_inv
  by (auto simp: createForBooking_def bind_res_Inr split: option.splits sum.splits if_splits)

section \<open>Reachable order tables\<close>

text \<open>Any operation at any time; the catalogue, the discounts and the policies (\<open>ports\<close>) an order is created under
  may be different at every creation.\<close>

inductive order_step :: "(string \<Rightarrow> bool) \<Rightarrow> order_db \<Rightarrow> order_db \<Rightarrow> bool" for known where
  step_create_order: "createForBooking known ports clk now inp s s = Inr (d, s') \<Longrightarrow> order_step known s s'"
| step_capture: "recordVerifiedCapture now i v s = Inr (r, s') \<Longrightarrow> order_step known s s'"
| step_zero: "confirmNoOnlineCollection i s = Inr (z, s') \<Longrightarrow> order_step known s s'"
| step_cancel_order: "cancel_order now i reason s = (b, s') \<Longrightarrow> order_step known s s'"
| step_refund: "recordRefund i v rid s = Inr (b, s') \<Longrightarrow> order_step known s s'"

definition empty_orders :: order_db where
  "empty_orders = \<lparr>om_orders = [], om_items = [], om_adjustments = [], om_schedules = [], om_terms = [], om_commission = [],
     om_decisions = [], om_remedies = [], om_outbox = [], om_next = 0\<rparr>"

definition order_reachable :: "(string \<Rightarrow> bool) \<Rightarrow> order_db \<Rightarrow> bool" where
  "order_reachable known s \<longleftrightarrow> (order_step known)\<^sup>*\<^sup>* empty_orders s"

lemma order_step_inv: "order_step known s s' \<Longrightarrow> order_inv s \<Longrightarrow> order_inv s'"
  by (induction rule: order_step.induct)
     (auto intro: createForBooking_inv capture_inv zero_inv cancel_order_inv refund_inv)

lemma empty_orders_inv: "order_inv empty_orders"
  by (simp add: order_inv_def empty_orders_def)

lemma order_reachable_inv: "order_reachable known s \<Longrightarrow> order_inv s"
  unfolding order_reachable_def
  by (induction rule: rtranclp_induct) (auto intro: order_step_inv empty_orders_inv)

end
