(* ===== verification/Row_History.thy ===== *)
theory Row_History
  imports Prelude
begin

text \<open>
  Tables whose rows only grow: every row of an earlier state is still there in a later one, moved along a
  preorder of rows. This is what makes a decision taken on stale reads sound: what \<open>le\<close> preserves is still
  true when the transaction runs.
\<close>

definition rows_le :: "('r \<Rightarrow> 'r \<Rightarrow> bool) \<Rightarrow> 'r list \<Rightarrow> 'r list \<Rightarrow> bool" where
  "rows_le le t u \<longleftrightarrow> (\<forall>x \<in> set t. \<exists>y \<in> set u. le x y)"

locale row_order =
  fixes le :: "'r \<Rightarrow> 'r \<Rightarrow> bool"
  assumes le_refl: "le x x"
    and le_trans: "le x y \<Longrightarrow> le y z \<Longrightarrow> le x z"
begin

lemma rows_refl: "rows_le le t t"
  unfolding rows_le_def using le_refl by blast

lemma rows_trans: "rows_le le t u \<Longrightarrow> rows_le le u v \<Longrightarrow> rows_le le t v"
  unfolding rows_le_def using le_trans by blast

lemma rows_append: "rows_le le t (t @ u)"
  unfolding rows_le_def using le_refl by auto

lemma rows_tupd: "(\<And>x. x \<in> set t \<Longrightarrow> P x \<Longrightarrow> le x (f x)) \<Longrightarrow> rows_le le t (tupd P f t)"
proof (unfold rows_le_def, intro ballI)
  fix x
  assume p: "\<And>x. x \<in> set t \<Longrightarrow> P x \<Longrightarrow> le x (f x)" and x: "x \<in> set t"
  have "(if P x then f x else x) \<in> set (tupd P f t)" using x by (auto simp: tupd_def)
  moreover have "le x (if P x then f x else x)" using p x le_refl by simp
  ultimately show "\<exists>y \<in> set (tupd P f t). le x y" by blast
qed

end

text \<open>A row of an earlier state, found again by its key.\<close>

lemma rows_le_get:
  assumes "rows_le le t u" "x \<in> set t" "keyed k u" "\<And>x y. le x y \<Longrightarrow> k y = k x"
  shows "\<exists>y. tget k (k x) u = Some y \<and> le x y"
  using assms by (auto simp: rows_le_def) (metis tget_keyed)

lemma map_tupd_same: "(\<And>x. g (f x) = g x) \<Longrightarrow> map g (tupd P f t) = map g t"
  by (simp add: tupd_def)

section \<open>Sums over selected rows\<close>

lemma sum_filter_if:
  fixes g :: "'r \<Rightarrow> int"
  shows "sum_list (map g (filter Q t)) = sum_list (map (\<lambda>x. if Q x then g x else 0) t)"
  by (induction t) auto

lemma sum_tupd_le:
  fixes g :: "'r \<Rightarrow> int"
  assumes "\<And>x. x \<in> set t \<Longrightarrow> P x \<Longrightarrow> g (f x) \<le> g x"
  shows "sum_list (map g (tupd P f t)) \<le> sum_list (map g t)"
  using assms
proof (induction t)
  case (Cons a t)
  then have "sum_list (map g (tupd P f t)) \<le> sum_list (map g t)" by simp
  with Cons.prems [of a] show ?case by (auto simp: tupd_Cons)
qed simp

lemma sum_tupd_eq:
  fixes g :: "'r \<Rightarrow> int"
  assumes "\<And>x. x \<in> set t \<Longrightarrow> P x \<Longrightarrow> g (f x) = g x"
  shows "sum_list (map g (tupd P f t)) = sum_list (map g t)"
  using assms
proof (induction t)
  case (Cons a t)
  then have "sum_list (map g (tupd P f t)) = sum_list (map g t)" by simp
  with Cons.prems [of a] show ?case by (auto simp: tupd_Cons)
qed simp

section \<open>Unique keys on part of a table\<close>

text \<open>A partial unique index: \<open>distinct (map k (filter Q t))\<close>.\<close>

lemma partial_unique:
  assumes "distinct (map k (filter Q t))" "x \<in> set t" "y \<in> set t" "Q x" "Q y" "k x = k y"
  shows "x = y"
proof -
  have "x \<in> set (filter Q t)" "y \<in> set (filter Q t)" using assms by auto
  then show ?thesis using assms(1,6) by (auto simp: distinct_map inj_on_def)
qed

lemma partial_unique_tupd:
  assumes "distinct (map k (filter Q t))" "\<And>x. x \<in> set t \<Longrightarrow> P x \<Longrightarrow> k (f x) = k x \<and> (Q (f x) \<longrightarrow> Q x)"
  shows "distinct (map k (filter Q (tupd P f t)))"
  using assms
proof (induction t)
  case (Cons a t)
  have IH: "distinct (map k (filter Q (tupd P f t)))" using Cons by (auto split: if_splits)
  have sub: "k ` set (filter Q (tupd P f t)) \<subseteq> k ` set (filter Q t)"
    using Cons.prems(2) by (force simp: set_tupd)
  show ?case using Cons.prems IH sub by (auto simp: tupd_Cons split: if_splits)
qed simp

end
