(* ===== verification/Order_Steps.thy ===== *)
theory Order_Steps
  imports Order_Invariant Row_History
begin

text \<open>
  How order rows move: the table of legal status moves and its rank, and the preorder every operation of the
  order service moves every row along. The identity, the party, the source and the total of an order never
  change, its collected amount is written once, and its status never returns to pending.
\<close>

section \<open>The status machine\<close>

definition order_move :: "order_status \<Rightarrow> order_status \<Rightarrow> bool" where
  "order_move a b \<longleftrightarrow> (a, b) \<in> {(OrdPending, OrdPaid), (OrdPending, OrdCollectionCompleted), (OrdPending, OrdCollectionNotRequired),
     (OrdPending, OrdCancelled), (OrdCollectionNotRequired, OrdCancelled), (OrdPaid, OrdPartiallyRefunded), (OrdPaid, OrdRefunded),
     (OrdCollectionCompleted, OrdPartiallyRefunded), (OrdCollectionCompleted, OrdRefunded), (OrdPartiallyRefunded, OrdRefunded)}"

fun order_rank :: "order_status \<Rightarrow> nat" where
  "order_rank OrdPending = 0"
| "order_rank OrdCollectionNotRequired = 1"
| "order_rank OrdPaid = 1"
| "order_rank OrdCollectionCompleted = 1"
| "order_rank OrdPartiallyRefunded = 2"
| "order_rank OrdRefunded = 3"
| "order_rank OrdCancelled = 3"

interpretation order_machine: ranked_machine order_move order_rank
  by unfold_locales (auto simp: order_move_def)

section \<open>Rows only move forward\<close>

definition order_le :: "order \<Rightarrow> order \<Rightarrow> bool" where
  "order_le x y \<longleftrightarrow> od_id y = od_id x \<and> od_sourceType y = od_sourceType x \<and> od_source y = od_source x \<and>
     od_customer y = od_customer x \<and> od_seller y = od_seller x \<and> od_total y = od_total x \<and>
     order_move\<^sup>*\<^sup>* (od_status x) (od_status y) \<and> od_refunded x \<le> od_refunded y \<and> od_collected x \<le> od_collected y \<and>
     (od_status x \<noteq> OrdPending \<longrightarrow> od_collected y = od_collected x)"

lemma moved_not_pending: "order_move\<^sup>*\<^sup>* a b \<Longrightarrow> a \<noteq> OrdPending \<Longrightarrow> b \<noteq> OrdPending"
  using order_machine.moves_rank [of a b] by (cases a) auto

interpretation order_rows: row_order order_le
proof unfold_locales
  fix x y z
  assume "order_le x y" "order_le y z"
  then show "order_le x z"
    unfolding order_le_def using moved_not_pending [of "od_status x" "od_status y"] rtranclp_trans [of order_move] by (auto 4 3)
qed (simp add: order_le_def)

definition orders_le :: "order_db \<Rightarrow> order_db \<Rightarrow> bool" where
  "orders_le s s' \<longleftrightarrow> rows_le order_le (om_orders s) (om_orders s') \<and>
     (\<forall>i sc. schedule_at s i = Some sc \<longrightarrow> schedule_at s' i = Some sc)"

lemma orders_le_refl: "orders_le s s"
  by (simp add: orders_le_def order_rows.rows_refl)

lemma orders_le_trans: "orders_le s t \<Longrightarrow> orders_le t u \<Longrightarrow> orders_le s u"
  unfolding orders_le_def using order_rows.rows_trans by blast

lemma orders_le_update:
  assumes "om_orders s' = tupd P f (om_orders s)" "om_schedules s' = om_schedules s" "\<And>x. P x \<Longrightarrow> order_le x (f x)"
  shows "orders_le s s'"
  using assms by (auto simp: orders_le_def schedule_at_def intro: order_rows.rows_tupd)

lemma one_move: "order_move a b \<Longrightarrow> order_move\<^sup>*\<^sup>* a b"
  by (rule r_into_rtranclp)

lemma capture_le: "recordVerifiedCapture now i v s = Inr (r, s') \<Longrightarrow> order_inv s \<Longrightarrow> orders_le s s'"
proof (drule capture_effect [OF _ inv_order_keyed], assumption, elim disjE exE conjE)
  fix od sc ev amount
  assume "s' = s\<lparr>om_orders := tupd (capturable s i amount) (capture_row now amount) (om_orders s), om_outbox := om_outbox s @ [ev]\<rparr>"
  then show "orders_le s s'"
    by (intro orders_le_update [where P = "capturable s i amount" and f = "capture_row now amount"])
       (auto simp: order_le_def capturable_def capture_row_def order_move_def intro!: one_move)
qed (simp add: orders_le_refl)

lemma zero_le: "confirmNoOnlineCollection i s = Inr (z, s') \<Longrightarrow> order_inv s \<Longrightarrow> orders_le s s'"
proof (drule zero_effect [OF _ inv_order_keyed], assumption, elim disjE exE conjE)
  assume "s' = s\<lparr>om_orders := tupd (zero_collectible s i) (\<lambda>od. od\<lparr>od_status := OrdCollectionNotRequired\<rparr>) (om_orders s)\<rparr>"
  then show "orders_le s s'"
    by (intro orders_le_update [where P = "zero_collectible s i" and f = "\<lambda>od. od\<lparr>od_status := OrdCollectionNotRequired\<rparr>"])
       (auto simp: order_le_def zero_collectible_def order_move_def intro!: one_move)
qed (simp add: orders_le_refl)

lemma cancel_order_le: "cancel_order now i reason s = (b, s') \<Longrightarrow> orders_le s s'"
  by (auto simp: cancel_order_def Let_def emitOrderEvent_def orders_le_refl order_le_def CANCELLABLE_STATUSES_def order_move_def
      intro!: orders_le_update one_move split: if_splits)

lemma refund_order_le:
  assumes "recordRefund i v rid s = Inr (b, s')" "order_inv s"
  shows "orders_le s s'"
proof -
  from recordRefund_amount [OF assms(1)] obtain n where n: "0 \<le> n"
    "if n = 0 then (b, s') = (False, s) else recordRefundWithin i n rid s = Inr (b, s')" by blast
  show ?thesis
  proof (cases "n = 0")
    case False
    with n(2) have "recordRefundWithin i n rid s = Inr (b, s')" by simp
    from refund_effect [OF this inv_order_keyed [OF assms(2)]] show ?thesis
    proof (elim disjE exE conjE)
      fix od
      assume "s' = s\<lparr>om_orders := tupd (refundable_row i n) (refund_row n) (om_orders s),
            om_outbox := om_outbox s @ [OrderRefunded i rid n (od_refunded od + n)]\<rparr>"
      moreover have "order_move\<^sup>*\<^sup>* st OrdRefunded \<and> order_move\<^sup>*\<^sup>* st OrdPartiallyRefunded" if "st \<in> set REFUNDABLE_STATUSES" for st
        using that by (auto simp: REFUNDABLE_STATUSES_def order_move_def intro: one_move)
      ultimately show ?thesis using n(1)
        by (intro orders_le_update [where P = "refundable_row i n" and f = "refund_row n"]) (auto simp: order_le_def refund_row_def)
    qed (simp add: orders_le_refl)
  qed (use n in \<open>simp add: orders_le_refl\<close>)
qed

lemma create_order_le:
  assumes "createForBooking known ports clk now inp s s = Inr (d, s')" "order_inv s"
  shows "orders_le s s'"
proof -
  consider "s' = s" | "createForBookingWithin known ports clk now inp s = Inr (d, s')"
    using assms(1) by (auto simp: createForBooking_def bind_res_Inr split: option.splits sum.splits if_splits)
  then show ?thesis
  proof cases
    case 2
    from createWithin_order_Inr [OF 2] obtain x sc where e: "om_orders s' = om_orders s @ [x]" "om_schedules s' = om_schedules s @ [sc]"
      by fastforce
    then show ?thesis
      by (simp add: orders_le_def order_rows.rows_append schedule_at_def tget_append)
  qed (simp add: orders_le_refl)
qed

lemma order_step_le: "order_step known s s' \<Longrightarrow> order_inv s \<Longrightarrow> orders_le s s'"
  by (induction rule: order_step.induct) (auto intro: create_order_le capture_le zero_le cancel_order_le refund_order_le)

lemma order_run_inv: "(order_step known)\<^sup>*\<^sup>* s s' \<Longrightarrow> order_inv s \<Longrightarrow> order_inv s'"
  by (induction rule: rtranclp_induct) (auto intro: order_step_inv)

lemma order_run_le: "(order_step known)\<^sup>*\<^sup>* s s' \<Longrightarrow> order_inv s \<Longrightarrow> orders_le s s'"
  by (induction rule: rtranclp_induct) (auto intro: orders_le_refl orders_le_trans order_step_le order_run_inv)

lemma order_le_get:
  assumes "orders_le s s'" "order_inv s'" "order_at s i = Some od"
  shows "\<exists>od'. order_at s' i = Some od' \<and> order_le od od'"
proof -
  have "od \<in> set (om_orders s)" "od_id od = i" using tget_SomeD [of od_id i "om_orders s" od] assms(3) by (simp_all add: order_at_def)
  with rows_le_get [of order_le "om_orders s" "om_orders s'" od od_id] assms(1,2) show ?thesis
    by (auto simp: orders_le_def order_at_def order_le_def inv_order_keyed)
qed

lemma order_run_status:
  assumes "(order_step known)\<^sup>*\<^sup>* s s'" "order_inv s" "order_at s i = Some od"
  shows "\<exists>od'. order_at s' i = Some od' \<and> order_move\<^sup>*\<^sup>* (od_status od) (od_status od') \<and> od_total od' = od_total od \<and>
    od_refunded od \<le> od_refunded od' \<and> od_collected od \<le> od_collected od'"
  using order_le_get [OF order_run_le [OF assms(1,2)] order_run_inv [OF assms(1,2)] assms(3)] by (auto simp: order_le_def)

end
