(* ===== verification/Order_Properties.thy ===== *)
theory Order_Properties
  imports Order_Steps
begin

text \<open>
  What the orders promise: the money of an order and its status always agree, a verified capture is taken
  exactly once and only for the agreed amount, refunds stop exactly at what was collected, an order with
  money on it never becomes cancelled, and a customer who accepts what the preview disclosed gets exactly
  that order.
\<close>

section \<open>What was previewed can be bought\<close>

lemma quote_runs:
  assumes "quote rules ctx = Inr r"
  shows "\<exists>rem. apply_rules ctx (pq_subtotal r) rules [] (Fin (of_int (pq_subtotal r))) = Inr (pq_adjustments r, rem) \<and>
    computeSubtotal ctx = Inr (pq_subtotal r)"
  using assms by (auto simp: quote_def bind_res_Inr simp del: apply_rules.simps)

lemma membership_adjustments:
  assumes "quote [MembershipDiscountRule d] ctx = Inr r"
  shows "\<forall>a \<in> set (pq_adjustments r). discount_ok a"
proof -
  obtain sub as rem where as: "apply_rules ctx sub [MembershipDiscountRule d] [] (Fin (of_int sub)) = Inr (as, rem)"
    "pq_adjustments r = as"
    using quote_runs [OF assms] by blast
  then obtain produced where p: "membership_evaluate d ctx \<lparr>ps_subtotal = sub, ps_remaining = Fin (of_int sub), ps_appliedRuleKeys = []\<rparr> =
      Inr produced" "apply_produced (MembershipDiscountRule d) produced [] (Fin (of_int sub)) = Inr (as, rem)"
    by (auto simp: bind_res_Inr MembershipDiscountRule_def)
  have "\<forall>a \<in> set produced. pa_kind a = AdjDiscount" "length produced \<le> 1"
    using p(1) by (auto simp: membership_evaluate_def bind_res_Inr Let_def split: if_splits)
  then have "\<forall>a \<in> set as. pa_kind a = AdjDiscount"
    using p(2) normalize_shape
    by (cases produced) (auto simp: bind_res_Inr normalize_def split: option.splits if_splits)
  then show ?thesis using quote_facts [OF assms] as(2) by (auto simp: fee_ok_def)
qed

lemma adjustment_rows_ok:
  "\<forall>a \<in> set as. discount_ok a \<Longrightarrow> \<exists>rows. adjustment_rows i k as = Inr rows \<and> list_all adjustment_row_ok rows"
proof (induction as arbitrary: k)
  case Nil
  then show ?case by simp
next
  case (Cons a as)
  then obtain n where "pa_kind a = AdjDiscount" "pa_amount a = Fin (of_int n)" "n < 0" "valid_amount n"
    by (auto simp: discount_ok_def)
  moreover obtain rows where "adjustment_rows i (Suc k) as = Inr rows" "list_all adjustment_row_ok rows"
    using Cons by fastforce
  ultimately show ?case by (simp add: assertAmount_Fin_int) (simp add: adjustment_row_ok_def)
qed

lemma line_totals_mem: "line_totals ls = Inr ts \<Longrightarrow> l \<in> set ls \<Longrightarrow> \<exists>t. line_total l = Inr t"
  by (induction ls arbitrary: ts) (auto simp: bind_res_Inr)

lemma quote_price_valid:
  assumes "quote rules ctx = Inr r" "l \<in> set (px_lines ctx)"
  shows "\<exists>n. pl_unitPrice l = Fin (of_int n) \<and> valid_amount n \<and> 0 \<le> n"
proof -
  obtain ts where "line_totals (px_lines ctx) = Inr ts"
    using quote_runs [OF assms(1)] by (auto simp: computeSubtotal_def bind_res_Inr split: if_splits)
  from line_totals_mem [OF this assms(2)] show ?thesis
    by (auto simp: line_total_def bind_res_Inr assertNonNegativeAmount_def assertAmount_Inr split: if_splits)
qed

lemma apply_membership_ctx:
  "px_customer ctx = px_customer ctx' \<Longrightarrow>
   apply_rules ctx sub [MembershipDiscountRule d] ap r = apply_rules ctx' sub [MembershipDiscountRule d] ap r"
  by (simp add: MembershipDiscountRule_def membership_evaluate_def bind_res_def split: sum.split prod.split)

lemma quote_membership_ctx:
  "quote [MembershipDiscountRule d] \<lparr>px_customer = c, px_sellerType = t, px_sellerId = i, px_lines = ls, px_at = a, px_booking = b\<rparr> =
   quote [MembershipDiscountRule d] \<lparr>px_customer = c, px_sellerType = t, px_sellerId = i, px_lines = ls, px_at = a', px_booking = b'\<rparr>"
proof -
  let ?c = "\<lparr>px_customer = c, px_sellerType = t, px_sellerId = i, px_lines = ls, px_at = a, px_booking = b\<rparr>"
    and ?c' = "\<lparr>px_customer = c, px_sellerType = t, px_sellerId = i, px_lines = ls, px_at = a', px_booking = b'\<rparr>"
  have "computeSubtotal ?c = computeSubtotal ?c'" by (simp add: computeSubtotal_def)
  moreover have "apply_rules ?c sub [MembershipDiscountRule d] ap r = apply_rules ?c' sub [MembershipDiscountRule d] ap r" for sub ap r
    by (rule apply_membership_ctx) simp
  ultimately show ?thesis unfolding quote_def by presburger
qed

lemma schedule_of_amounts:
  assumes "collectionAmountsFor p c = Inr a" "0 \<le> pq_total p"
  shows "\<exists>sc. scheduleValuesFor i p c = Inr sc \<and> sc_order sc = i \<and> sc_serviceTotal sc = ca_serviceTotal a \<and>
    sc_collectible sc = ca_collectible a \<and> sc_venueBalance sc = ca_venueBalance a \<and> schedule_row_ok sc \<and>
    ca_serviceTotal a = pq_total p"
proof (cases c)
  case LegacyCollection
  with assms show ?thesis by (auto simp: collectionAmountsFor_def scheduleValuesFor_def schedule_row_ok_def)
next
  case (EnrolledCollection snap)
  with assms(1) have a: "bookingCollectionAmountsV1 (fin_int (pq_subtotal p)) (fin_int (pq_total p)) (cs_terms snap) = Inr a"
    by (simp add: collectionAmountsFor_def)
  from amounts_Inr [OF a] EnrolledCollection a show ?thesis
    by (auto simp: scheduleValuesFor_def schedule_row_ok_def modeForAmounts_def)
qed

lemma resolved_snapshot_valid:
  assumes "resolveOutcome known ports seller = Inr (OutcomeResolved snap)"
  shows "validateBookingOutcomeSnapshotV1 (snapshot_js snap) = []"
proof -
  from assms obtain r where r: "op_outcome ports seller = Some r" by (auto simp: resolveOutcome_def split: option.splits)
  with assms show ?thesis by (cases r) (auto simp: resolveOutcome_def Let_def split: if_splits)
qed

lemma snapshot_identity:
  assumes "validateBookingOutcomeSnapshotV1 (snapshot_js snap) = []"
  shows "wf_identity snap" "validateBookingOutcomeAcceptanceV1 (acceptance_js (acceptanceFor snap)) = []"
    "acceptanceMatches a snap \<longleftrightarrow> a = acceptanceFor snap"
proof -
  have "is_object (snapshot_js snap)" by (simp add: is_object_def snapshot_js_def)
  with assms have "validateIdentity (snapshot_js snap) = []" by (auto simp: validateBookingOutcomeSnapshotV1_def)
  then show w: "wf_identity snap" by (simp add: validateIdentity_def snapshot_js_def wf_identity_def split: if_splits)
  then show "validateBookingOutcomeAcceptanceV1 (acceptance_js (acceptanceFor snap)) = []"
    by (simp add: validateBookingOutcomeAcceptanceV1_def validateIdentity_def acceptance_js_def acceptanceFor_def wf_identity_def
        is_object_def exactKeys_def obj_keys_def ACCEPTANCE_KEYS_def)
  have "oa_policyVersion snap \<noteq> JNaN" "oa_copyVersion snap \<noteq> JNaN"
    using w by (auto simp: wf_identity_def isWholeInRange_iff fin_int_def)
  then show "acceptanceMatches a snap \<longleftrightarrow> a = acceptanceFor snap"
    by (cases a) (auto simp: acceptanceMatches_def acceptanceFor_def js_same_def)
qed

lemma acceptance_exact:
  assumes "resolveOutcome known ports seller = Inr oc" "outcomeForCollection oc c = Inr out"
  shows "requireAcceptance out a = Inr () \<longleftrightarrow> a = map_option acceptanceFor out"
proof (cases out)
  case None
  then show ?thesis by (cases a) (auto simp: requireAcceptance_def)
next
  case (Some snap)
  with assms have "oc = OutcomeResolved snap" by (auto simp: outcomeForCollection_def split: resolved_outcome.splits if_splits)
  with assms(1) have v: "validateBookingOutcomeSnapshotV1 (snapshot_js snap) = []" by (auto intro: resolved_snapshot_valid)
  show ?thesis using Some snapshot_identity [OF v] by (cases a) (auto simp: requireAcceptance_def)
qed

definition input_for :: "nat \<Rightarrow> nat \<Rightarrow> nat \<Rightarrow> nat option \<Rightarrow> outcome_acceptance option \<Rightarrow> booking_order_input" where
  "input_for bid customer professional service a =
    \<lparr>bo_booking = bid, bo_customer = customer, bo_professional = professional, bo_service = service, bo_accepted = a\<rparr>"

text \<open>The two cases of a creation after a preview: the exact acceptance, and any other.\<close>

lemma preview_then_create:
  assumes "order_inv s" "op_rules ports = [MembershipDiscountRule d]" "op_commission ports = Some terms"
    "previewForBooking known ports clk0 cust prof svc = Inr pv"
    "\<forall>x \<in> set (om_orders s). \<not> (od_sourceType x = SourceBooking \<and> od_source x = bid)"
  shows "\<exists>dt s'. createForBooking known ports clk now (input_for bid cust prof svc (map_option acceptanceFor (dp_outcome pv))) s after = Inr (dt, s') \<and>
      order_at s' (om_next s) = Some (dt_order dt) \<and> schedule_at s' (om_next s) = Some (dt_schedule dt) \<and>
      od_status (dt_order dt) = OrdPending \<and> od_seller (dt_order dt) = dp_seller pv \<and>
      od_total (dt_order dt) = ca_serviceTotal (dp_amounts pv) \<and> sc_collectible (dt_schedule dt) = ca_collectible (dp_amounts pv) \<and>
      sc_venueBalance (dt_schedule dt) = ca_venueBalance (dp_amounts pv)"
    and "a \<noteq> map_option acceptanceFor (dp_outcome pv) \<Longrightarrow>
      createForBooking known ports clk now (input_for bid cust prof svc a) s after = Inl UnsellableService"
proof -
  from assms(4) obtain q amounts out where q0: "quoteBooking known ports clk0 cust prof svc None = Inr q"
    and am: "collectionAmountsFor (bq_priced q) (bq_collection q) = Inr amounts"
    and out: "outcomeForCollection (bq_outcome q) (ca_collectible amounts) = Inr out"
    and pv: "pv = \<lparr>dp_seller = bq_seller q, dp_amounts = amounts, dp_outcome = out\<rparr>"
    unfolding previewForBooking_def bind_res_Inr by auto
  have eq: "quote [MembershipDiscountRule d] \<lparr>px_customer = c, px_sellerType = t, px_sellerId = i, px_lines = ls, px_at = clk, px_booking = Some bid\<rparr> =
     quote [MembershipDiscountRule d] \<lparr>px_customer = c, px_sellerType = t, px_sellerId = i, px_lines = ls, px_at = clk0, px_booking = None\<rparr>" for c t i ls
    by (rule quote_membership_ctx)
  from q0 obtain sv off coll oc priced where o: "svc = Some sv" "op_offering ports sv = Some off" "of_professional off = prof"
    "resolveCollection ports (of_sellerType off, of_sellerId off) = Inr coll"
    "resolveOutcome known ports (of_sellerType off, of_sellerId off) = Inr oc"
    and pr0: "quote [MembershipDiscountRule d] \<lparr>px_customer = cust, px_sellerType = of_sellerType off, px_sellerId = of_sellerId off,
      px_lines = [\<lparr>pl_reference = of_id off, pl_name = of_name off, pl_quantity = Fin 1, pl_unitPrice = of_price off\<rparr>],
      px_at = clk0, px_booking = None\<rparr> = Inr priced"
    and qd: "q = \<lparr>bq_offering = off, bq_seller = (of_sellerType off, of_sellerId off), bq_collection = coll, bq_outcome = oc, bq_priced = priced\<rparr>"
    unfolding quoteBooking_def Let_def by (auto simp: bind_res_Inr assms(2) split: option.splits if_splits)
  note pr = pr0 [folded eq]
  have q: "quoteBooking known ports clk cust prof svc (Some bid) = Inr q"
    using o pr qd by (simp add: quoteBooking_def assms(2))
  have off: "bq_offering q = off" "resolveOutcome known ports (of_sellerType off, of_sellerId off) = Inr (bq_outcome q)"
    "bq_priced q = priced" using qd o by simp_all
  note facts = quote_facts [OF pr, folded off(3)]
  obtain price where price: "of_price off = Fin (of_int price)" "valid_amount price" "0 \<le> price"
    using quote_price_valid [OF pr] by auto
  let ?n = "om_next s"
  obtain sc where sc: "scheduleValuesFor ?n (bq_priced q) (bq_collection q) = Inr sc" "sc_order sc = ?n"
    "sc_serviceTotal sc = ca_serviceTotal amounts" "sc_collectible sc = ca_collectible amounts"
    "sc_venueBalance sc = ca_venueBalance amounts" "schedule_row_ok sc" "ca_serviceTotal amounts = pq_total (bq_priced q)"
    using schedule_of_amounts [OF am, of ?n] facts by auto
  have acc: "requireAcceptance out b = Inr () \<longleftrightarrow> b = map_option acceptanceFor out" for b
    by (rule acceptance_exact [OF off(2) out])
  have noorder: "find (\<lambda>x. od_sourceType x = SourceBooking \<and> od_source x = bid) (om_orders s) = None"
    using assms(5) by (auto simp: find_None_iff)
  let ?inp = "\<lambda>b. input_for bid cust prof svc b"
  have entry: "createForBooking known ports clk now (?inp b) s after =
      (case createForBookingWithin known ports clk now (?inp b) s of Inr r \<Rightarrow> Inr r
       | Inl e \<Rightarrow> if e = OrderUniqueViolation then bind_res (findBySource SourceBooking bid after)
            (\<lambda>settled. case settled of Some d \<Rightarrow> Inr (d, after) | None \<Rightarrow> Inl e) else Inl e)" for b
    using noorder by (simp add: createForBooking_def findBySource_def input_for_def split: sum.splits)
  show "createForBooking known ports clk now (?inp a) s after = Inl UnsellableService"
    if "a \<noteq> map_option acceptanceFor (dp_outcome pv)"
  proof -
    have "requireAcceptance out a \<noteq> Inr ()" using that acc pv by simp
    then have "requireAcceptance out a = Inl UnsellableService"
      by (auto simp: requireAcceptance_def split: option.splits if_splits)
    then have "createForBookingWithin known ports clk now (?inp a) s = Inl UnsellableService"
      using q sc out by (simp add: createForBookingWithin_def input_for_def Let_def)
    then show ?thesis by (simp add: entry)
  qed
  let ?b = "map_option acceptanceFor out" and ?od = "new_order ?n (?inp (map_option acceptanceFor out)) q"
  have rowok: "order_row_ok ?od"
    using facts by (auto simp: order_row_ok_def new_order_def fees_nonneg intro!: sum_list_nonpos)
  let ?s1 = "s\<lparr>om_next := Suc ?n, om_orders := om_orders s @ [?od]\<rparr>"
  have s1: "insert_order ?od (s\<lparr>om_next := Suc ?n\<rparr>) = Inr ?s1"
    using assms(5) rowok by (auto simp: insert_order_def list_ex_iff new_order_def input_for_def)
  let ?item = "\<lparr>oi_order = ?n, oi_reference = of_id off, oi_name = of_name off, oi_quantity = 1, oi_unitPrice = price, oi_lineTotal = price\<rparr>"
  let ?s2 = "?s1\<lparr>om_items := om_items s @ [?item]\<rparr>"
  have s2: "insert_item ?item ?s1 = Inr ?s2" using price by (simp add: insert_item_def item_row_ok_def)
  obtain rows where rows: "adjustment_rows ?n 0 (pq_adjustments (bq_priced q)) = Inr rows" "list_all adjustment_row_ok rows"
    using adjustment_rows_ok [OF membership_adjustments [OF pr]] off(3) by blast
  let ?s3 = "?s2\<lparr>om_adjustments := om_adjustments s @ rows\<rparr>"
  have s3: "insert_adjustments rows ?s2 = Inr ?s3" using rows(2) by (simp add: insert_adjustments_def)
  have fresh: "?n \<notin> sc_order ` set (om_schedules s)" "?n \<notin> tr_order ` set (om_terms s)" "?n \<notin> od_id ` set (om_orders s)"
    using assms(1) by (auto simp: order_inv_def)
  have "\<exists>sc' ts. write_schedule now ?n (bq_seller q) out sc ?s3 = Inr (?s3\<lparr>om_schedules := om_schedules s @ [sc'], om_terms := ts\<rparr>) \<and>
    sc_order sc' = ?n \<and> sc_collectible sc' = sc_collectible sc \<and> sc_venueBalance sc' = sc_venueBalance sc"
  proof (cases out)
    case None
    then show ?thesis using fresh sc
      by (intro exI [of _ sc] exI [of _ "om_terms s"]) (simp add: write_schedule_def insert_schedule_def)
  next
    case (Some snap)
    have "schedule_row_ok (sc\<lparr>sc_acceptedAt := Some now\<rparr>)" using sc(6) by (simp add: schedule_row_ok_def)
    then show ?thesis using fresh sc Some
      by (intro exI [of _ "sc\<lparr>sc_acceptedAt := Some now\<rparr>"] exI [of _ "om_terms s @ [terms_row ?n (bq_seller q) snap]"])
         (simp add: write_schedule_def insert_schedule_def insertOutcomeTerms_def)
  qed
  then obtain sc' ts where w: "write_schedule now ?n (bq_seller q) out sc ?s3 = Inr (?s3\<lparr>om_schedules := om_schedules s @ [sc'], om_terms := ts\<rparr>)"
    "sc_order sc' = ?n" "sc_collectible sc' = sc_collectible sc" "sc_venueBalance sc' = sc_venueBalance sc"
    by (elim exE conjE)
  let ?s4 = "?s3\<lparr>om_schedules := om_schedules s @ [sc'], om_terms := ts\<rparr>"
  let ?s5 = "?s4\<lparr>om_commission := om_commission s @ map (\<lambda>t. (?n, t)) terms\<rparr>"
  have s5: "insertCommissionTerms ports ?n ?s4 = Inr ?s5" using assms(3) by (simp add: insertCommissionTerms_def)
  let ?s6 = "emitOrderEvent (OrderCreated ?n bid cust (pq_total (bq_priced q))) ?s5"
  have at: "order_at ?s6 ?n = Some ?od" "schedule_at ?s6 ?n = Some sc'"
    using fresh(1,3) [folded tget_None_iff] w(2)
    by (simp_all add: order_at_def schedule_at_def emitOrderEvent_def tget_append new_order_def)
  then obtain dt where dt: "loadDetail ?n ?s6 = Inr dt" "dt_order dt = ?od" "dt_schedule dt = sc'" by (simp add: loadDetail_def)
  have nod: "\<lparr>od_id = ?n, od_sourceType = SourceBooking, od_source = bid, od_customer = cust, od_seller = bq_seller q, od_status = OrdPending,
        od_subtotal = pq_subtotal (bq_priced q), od_discountTotal = pq_discountTotal (bq_priced q), od_feeTotal = pq_feeTotal (bq_priced q),
        od_total = pq_total (bq_priced q), od_refunded = 0, od_collected = 0, od_paidAt = None, od_cancelledAt = None\<rparr> = ?od"
    by (simp add: new_order_def input_for_def)
  have inp: "bo_booking (?inp b) = bid" "bo_customer (?inp b) = cust" "bo_professional (?inp b) = prof" "bo_service (?inp b) = svc"
    "bo_accepted (?inp b) = b" for b by (simp_all add: input_for_def)
  have "requireAcceptance out ?b = Inr ()" using acc by simp
  moreover have "assertAmount (of_price off) ''money column'' = Inr price" using price by (simp add: assertAmount_Fin_int)
  moreover have "outcomeForCollection (bq_outcome q) (sc_collectible sc) = Inr out" using out sc(4) by simp
  ultimately have "createForBookingWithin known ports clk now (?inp ?b) s = Inr (dt, ?s6)"
    unfolding createForBookingWithin_def inp Let_def
    using q sc(1) s1 s2 rows(1) s3 w(1) s5 dt(1) by (simp add: nod off(1))
  then have "createForBooking known ports clk now (?inp ?b) s after = Inr (dt, ?s6)" by (simp add: entry)
  with at dt(2,3) sc w(3,4) pv show "\<exists>dt s'. createForBooking known ports clk now (?inp (map_option acceptanceFor (dp_outcome pv))) s after = Inr (dt, s') \<and>
      order_at s' ?n = Some (dt_order dt) \<and> schedule_at s' ?n = Some (dt_schedule dt) \<and>
      od_status (dt_order dt) = OrdPending \<and> od_seller (dt_order dt) = dp_seller pv \<and>
      od_total (dt_order dt) = ca_serviceTotal (dp_amounts pv) \<and> sc_collectible (dt_schedule dt) = ca_collectible (dp_amounts pv) \<and>
      sc_venueBalance (dt_schedule dt) = ca_venueBalance (dp_amounts pv)"
    by (intro exI [of _ dt] exI [of _ ?s6]) (simp add: new_order_def)
qed

section \<open>A demonstration order\<close>

definition demo_offering :: offering where
  "demo_offering = \<lparr>of_id = 1, of_professional = 5, of_name = ''haircut'', of_price = Fin 200000, of_sellerType = ProfessionalParty,
     of_sellerId = 5\<rparr>"

definition demo_deposit :: collection_snapshot where
  "demo_deposit = \<lparr>cs_policyKey = ''deposit'', cs_policyVersion = Fin 1, cs_resolvedAt = Fin 0,
     cs_terms = \<lparr>ct_contractVersion = Fin 1, ct_mode = DepositOnlineBalanceAtVenue, ct_deposit = Some (FixedDeposit (Fin 50000))\<rparr>\<rparr>"

definition demo_order_ports :: order_ports where
  "demo_order_ports = \<lparr>op_offering = \<lambda>_. Some demo_offering, op_collection = \<lambda>_. Some (EnrolledCollection demo_deposit),
     op_outcome = \<lambda>_. Some OutcomeLegacy, op_commission = Some [], op_rules = [MembershipDiscountRule (\<lambda>_. Inr 1000)]\<rparr>"

definition demo_order_input :: booking_order_input where
  "demo_order_input = \<lparr>bo_booking = 2, bo_customer = 7, bo_professional = 5, bo_service = Some 1, bo_accepted = None\<rparr>"

lemma demo_deposit_valid: "validateBookingCollectionPolicySnapshotV1 demo_deposit = []"
  "bookingCollectionAmountsV1 (fin_int 200000) (fin_int 180000) (cs_terms demo_deposit) =
     Inr \<lparr>ca_serviceTotal = 180000, ca_collectible = 50000, ca_venueBalance = 130000\<rparr>"
proof -
  have b: "isBoundedAmount (Fin 50000)" "isBoundedAmount (fin_int 200000)" "isBoundedAmount (fin_int 180000)"
    by (auto simp: isBoundedAmount_iff MAX_COLLECTION_AMOUNT_TOMAN_def fin_int_def)
  have w: "isWholeInRange (Fin 1) 1 safe_integer_max" by (simp add: isWholeInRange_def isInteger_def safe_integer_max_def)
  then show "validateBookingCollectionPolicySnapshotV1 demo_deposit = []"
    using b by (simp add: validateBookingCollectionPolicySnapshotV1_def demo_deposit_def validateBookingCollectionTermsV1_def
        deposit_errors_def BOOKING_OUTCOME_KEY_PATTERN_def is_alpha_def is_digit_def digit_val_def isFinite_def)
  show "bookingCollectionAmountsV1 (fin_int 200000) (fin_int 180000) (cs_terms demo_deposit) =
     Inr \<lparr>ca_serviceTotal = 180000, ca_collectible = 50000, ca_venueBalance = 130000\<rparr>"
    using b by (simp add: bookingCollectionAmountsV1_def demo_deposit_def validateBookingCollectionTermsV1_def deposit_errors_def
        deposit_amount_def Let_def) (simp add: whole_def fin_int_def)
qed

text \<open>The demonstration catalogue with the haircut at another price, everything else as it was.\<close>

definition repriced :: "int \<Rightarrow> order_ports" where
  "repriced p = demo_order_ports\<lparr>op_offering := \<lambda>_. Some (demo_offering\<lparr>of_price := Fin (of_int p)\<rparr>)\<rparr>"

lemma repriced_preview:
  assumes p: "0 \<le> p" "p \<le> MAX_AMOUNT_TOMAN" "membership_amount p 1000 = m" "0 \<le> m" "m \<le> p"
    and a: "bookingCollectionAmountsV1 (fin_int p) (fin_int (p - m)) (cs_terms demo_deposit) = Inr a"
  shows "previewForBooking known (repriced p) clk 7 5 (Some 1) = Inr \<lparr>dp_seller = (ProfessionalParty, 5), dp_amounts = a, dp_outcome = None\<rparr>"
proof -
  let ?ctx = "\<lparr>px_customer = 7, px_sellerType = ProfessionalParty, px_sellerId = 5,
     px_lines = [\<lparr>pl_reference = 1, pl_name = ''haircut'', pl_quantity = Fin 1, pl_unitPrice = Fin (of_int p)\<rparr>], px_at = clk, px_booking = None\<rparr>"
  have "computeSubtotal ?ctx = computeSubtotal (demo_context p)"
    by (simp add: computeSubtotal_def demo_context_def demo_line_def line_total_def)
  then have "computeSubtotal ?ctx = Inr p" using demo_subtotal [OF p(1,2)] by simp
  then obtain r where r: "quote [MembershipDiscountRule (\<lambda>_. Inr 1000)] ?ctx = Inr r" "pq_subtotal r = p" "pq_total r = p - m"
    using membership_quote [where d = "\<lambda>_. Inr 1000" and ctx = ?ctx, of p 1000 m] p by auto
  show ?thesis using r a demo_deposit_valid(1)
    by (simp add: previewForBooking_def quoteBooking_def repriced_def demo_order_ports_def demo_offering_def resolveCollection_def resolveOutcome_def
        collectionAmountsFor_def outcomeForCollection_def)
qed

lemma demo_preview:
  "\<exists>pv. previewForBooking known demo_order_ports clk 7 5 (Some 1) = Inr pv \<and> dp_seller pv = (ProfessionalParty, 5) \<and>
     dp_amounts pv = \<lparr>ca_serviceTotal = 180000, ca_collectible = 50000, ca_venueBalance = 130000\<rparr> \<and> dp_outcome pv = None"
proof -
  have "repriced 200000 = demo_order_ports" by (simp add: repriced_def demo_order_ports_def demo_offering_def)
  moreover have "membership_amount 200000 1000 = 20000" using membership_amount_div [of 200000 1000] by simp
  moreover have "(200000::int) \<le> MAX_AMOUNT_TOMAN" by (simp add: money_bounds)
  ultimately show ?thesis using repriced_preview [of 200000 20000] demo_deposit_valid(2) by simp
qed

lemma demo_order_exists:
  "\<exists>s od sc. order_reachable known s \<and> order_at s 0 = Some od \<and> schedule_at s 0 = Some sc \<and>
     od_status od = OrdPending \<and> od_total od = 180000 \<and> sc_collectible sc = 50000"
proof -
  obtain pv where pv: "previewForBooking known demo_order_ports 0 7 5 (Some 1) = Inr pv"
     "dp_amounts pv = \<lparr>ca_serviceTotal = 180000, ca_collectible = 50000, ca_venueBalance = 130000\<rparr>" "dp_outcome pv = None"
    using demo_preview by blast
  have "op_rules demo_order_ports = [MembershipDiscountRule (\<lambda>_. Inr 1000)]" "op_commission demo_order_ports = Some []"
    by (simp_all add: demo_order_ports_def)
  from preview_then_create(1) [OF empty_orders_inv this pv(1), of 2 0 0 empty_orders] obtain dt s' where
    c: "createForBooking known demo_order_ports 0 0 (input_for 2 7 5 (Some 1) (map_option acceptanceFor (dp_outcome pv))) empty_orders empty_orders = Inr (dt, s')"
    and f: "order_at s' (om_next empty_orders) = Some (dt_order dt)" "schedule_at s' (om_next empty_orders) = Some (dt_schedule dt)"
      "od_status (dt_order dt) = OrdPending" "od_total (dt_order dt) = ca_serviceTotal (dp_amounts pv)"
      "sc_collectible (dt_schedule dt) = ca_collectible (dp_amounts pv)"
    by (auto simp: empty_orders_def)
  have "order_reachable known s'"
    unfolding order_reachable_def using step_create_order [OF c] by (rule r_into_rtranclp)
  moreover have "om_next empty_orders = 0" by (simp add: empty_orders_def)
  ultimately show ?thesis using f pv(2) by auto
qed

section \<open>Properties\<close>

text \<open>C12: The money of an order and its status always agree: in every reachable database each order has a
  schedule that splits its total, refunded is at most collected, collected at most total, money is collected
  exactly in the paid, collected and refunded states and is then the agreed collectible amount, and the
  outbox holds exactly one capture event for it and refund events that sum to what was refunded.\<close>

theorem order_money_agrees:
  assumes "order_reachable known s" "od \<in> set (om_orders s)"
  shows "0 \<le> od_refunded od \<and> od_refunded od \<le> od_collected od \<and> od_collected od \<le> od_total od \<and>
    od_total od = od_subtotal od - od_discountTotal od + od_feeTotal od \<and>
    (\<exists>sc. schedule_at s (od_id od) = Some sc \<and> sc_collectible sc + sc_venueBalance sc = od_total od \<and>
       (0 < od_collected od \<longrightarrow> od_collected od = sc_collectible sc)) \<and>
    (0 < od_collected od \<longleftrightarrow> od_status od \<in> {OrdPaid, OrdCollectionCompleted, OrdPartiallyRefunded, OrdRefunded}) \<and>
    captures (od_id od) (om_outbox s) = (if 0 < od_collected od then 1 else 0) \<and>
    refunded_by (od_id od) (om_outbox s) = od_refunded od"
proof -
  have inv: "order_inv s" by (rule order_reachable_inv [OF assms(1)])
  obtain sc where sc: "schedule_at s (od_id od) = Some sc" "money_ok sc od"
    using order_invD(5) [OF inv order_in_at [OF inv assms(2)]] by blast
  have "told_by (om_outbox s) od" by (rule order_invD(4) [OF inv order_in_at [OF inv assms(2)]])
  with sc show ?thesis
    by (cases "od_status od") (auto simp: money_ok_def told_by_def order_row_ok_def schedule_row_ok_def)
qed

theorem order_money_agrees_witness:
  "\<exists>s od. order_reachable (\<lambda>_. True) s \<and> order_at s 0 = Some od \<and> captures 0 (om_outbox s) = 0 \<and> od_collected od = 0"
proof -
  obtain s od where s: "order_reachable (\<lambda>_. True) s" "order_at s 0 = Some od" "od_status od = OrdPending"
    using demo_order_exists by blast
  have m: "od \<in> set (om_orders s)" "od_id od = 0" using tget_SomeD [OF s(2) [unfolded order_at_def]] by auto
  from order_money_agrees [OF s(1) m(1)] s(3) m(2) have "od_collected od = 0" "captures 0 (om_outbox s) = 0" by auto
  with s show ?thesis by blast
qed

text \<open>C13: A verified capture is taken exactly once and only for the agreed amount. For a pending order: the
  collectible amount, when positive, is captured and makes the order paid or collected; every other amount is
  refused and changes nothing; and after a capture every further report, of any amount, changes nothing.\<close>

theorem capture_exactly_once:
  assumes "order_reachable known s" "order_at s i = Some od" "od_status od = OrdPending" "schedule_at s i = Some sc"
    "valid_amount a" "0 \<le> a"
  shows "if 0 < a \<and> a = sc_collectible sc
    then \<exists>s' st. recordVerifiedCapture now i (Fin (of_int a)) s = Inr (Captured st a, s') \<and>
           (st = OrdPaid \<longleftrightarrow> a = od_total od) \<and> (st = OrdCollectionCompleted \<longleftrightarrow> a < od_total od) \<and>
           (\<exists>od'. order_at s' i = Some od' \<and> od_status od' = st \<and> od_collected od' = a) \<and>
           (\<forall>b now'. valid_amount b \<longrightarrow> 0 \<le> b \<longrightarrow>
              recordVerifiedCapture now' i (Fin (of_int b)) s' = Inr (AlreadyCaptured st a, s'))
    else \<exists>r. recordVerifiedCapture now i (Fin (of_int a)) s = Inr (CaptureRefused r, s)"
proof -
  have inv: "order_inv s" by (rule order_reachable_inv [OF assms(1)])
  have k: "keyed od_id (om_orders s)" by (rule inv_order_keyed [OF inv])
  have id: "od_id od = i" by (rule order_invD(1) [OF inv assms(2)])
  have m: "money_ok sc od" using order_invD(5) [OF inv assms(2)] assms(4) by simp
  then have z: "od_collected od = 0" "sc_collectible sc \<le> od_total od"
    using assms(3) by (auto simp: money_ok_def schedule_row_ok_def)
  have am: "assertNonNegativeAmount (Fin (of_int x)) ''verified capture amount'' = Inr x" if "valid_amount x" "0 \<le> x" for x
    using that by (simp add: assertNonNegativeAmount_def assertAmount_Fin_int)
  let ?Q = "\<lambda>amount od. od_status od = OrdPending \<and> od_collected od = 0 \<and> 0 < amount \<and>
       (case schedule_at s i of None \<Rightarrow> False | Some sc \<Rightarrow> amount = sc_collectible sc) \<and> amount \<le> od_total od"
  have P: "capturable s i amount = (\<lambda>od. od_id od = i \<and> ?Q amount od)" for amount by (auto simp: capturable_def fun_eq_iff)
  have one: "taffected (capturable s i a) (om_orders s) = 1 \<longleftrightarrow> ?Q a od"
    unfolding P taffected_one_iff [OF k] using assms(2) by (simp add: order_at_def)
  show ?thesis
  proof (cases "0 < a \<and> a = sc_collectible sc")
    case True
    then have q: "?Q a od" using assms(3,4) z by simp
    then have cap: "capturable s i a od" using id by (simp add: P)
    define st where "st = (if a = od_total od then OrdPaid else OrdCollectionCompleted)"
    let ?s1 = "s\<lparr>om_orders := tupd (capturable s i a) (capture_row now a) (om_orders s)\<rparr>"
    have at1: "order_at ?s1 i = Some (capture_row now a od)"
      by (rule order_at_tupd [where P = "capturable s i a" and s = s and f = "capture_row now a"])
         (use assms(2) cap in \<open>simp_all add: capture_row_def\<close>)
    have "\<exists>ev. recordVerifiedCapture now i (Fin (of_int a)) s = Inr (Captured st a, emitOrderEvent ev ?s1)"
      using am [OF assms(5,6)] one q at1 assms(4)
      by (auto simp: recordVerifiedCapture_def st_def capture_row_def schedule_at_def)
    then obtain ev where r: "recordVerifiedCapture now i (Fin (of_int a)) s = Inr (Captured st a, emitOrderEvent ev ?s1)" by blast
    let ?s' = "emitOrderEvent ev ?s1"
    have at': "order_at ?s' i = Some (capture_row now a od)" using at1 by (simp add: order_at_def emitOrderEvent_def)
    have row: "od_status (capture_row now a od) = st" "od_collected (capture_row now a od) = a"
      by (simp_all add: capture_row_def st_def)
    have k': "keyed od_id (om_orders ?s')" using k by (simp add: emitOrderEvent_def keyed_tupd capture_row_def)
    have again: "recordVerifiedCapture now' i (Fin (of_int b)) ?s' = Inr (AlreadyCaptured st a, ?s')" if "valid_amount b" "0 \<le> b" for b now'
    proof -
      have "taffected (\<lambda>od. od_id od = i \<and> (od_status od = OrdPending \<and> od_collected od = 0 \<and> 0 < b \<and>
        (case schedule_at ?s' i of None \<Rightarrow> False | Some sc \<Rightarrow> b = sc_collectible sc) \<and> b \<le> od_total od)) (om_orders ?s') \<noteq> 1"
        unfolding taffected_one_iff [OF k'] using at' row by (auto simp: order_at_def st_def)
      moreover have "capturable ?s' i b = (\<lambda>od. od_id od = i \<and> (od_status od = OrdPending \<and> od_collected od = 0 \<and> 0 < b \<and>
        (case schedule_at ?s' i of None \<Rightarrow> False | Some sc \<Rightarrow> b = sc_collectible sc) \<and> b \<le> od_total od))"
        by (auto simp: capturable_def fun_eq_iff)
      ultimately have "taffected (capturable ?s' i b) (om_orders ?s') \<noteq> 1" by simp
      then show ?thesis using am [OF that] at' row by (simp add: recordVerifiedCapture_def explainCaptureRefusal_def st_def)
    qed
    have "(st = OrdPaid \<longleftrightarrow> a = od_total od) \<and> (st = OrdCollectionCompleted \<longleftrightarrow> a < od_total od)"
      using True z(2) by (auto simp: st_def)
    then have "\<exists>s' st. recordVerifiedCapture now i (Fin (of_int a)) s = Inr (Captured st a, s') \<and>
           (st = OrdPaid \<longleftrightarrow> a = od_total od) \<and> (st = OrdCollectionCompleted \<longleftrightarrow> a < od_total od) \<and>
           (\<exists>od'. order_at s' i = Some od' \<and> od_status od' = st \<and> od_collected od' = a) \<and>
           (\<forall>b now'. valid_amount b \<longrightarrow> 0 \<le> b \<longrightarrow>
              recordVerifiedCapture now' i (Fin (of_int b)) s' = Inr (AlreadyCaptured st a, s'))"
      using r at' row again by (intro exI [of _ ?s'] exI [of _ st]) auto
    then show ?thesis using True by simp
  next
    case False
    then have "\<not> ?Q a od" using assms(4) by auto
    then have "taffected (capturable s i a) (om_orders s) \<noteq> 1" using one by simp
    then have "\<exists>r. recordVerifiedCapture now i (Fin (of_int a)) s = Inr (CaptureRefused r, s)"
      using am [OF assms(5,6)] assms(2-4) z by (simp add: recordVerifiedCapture_def explainCaptureRefusal_def)
    then show ?thesis by (simp only: False if_False)
  qed
qed

theorem capture_exactly_once_witness:
  "\<exists>s s'. order_reachable (\<lambda>_. True) s \<and>
     recordVerifiedCapture 1 0 (Fin 50000) s = Inr (Captured OrdCollectionCompleted 50000, s') \<and>
     recordVerifiedCapture 2 0 (Fin 50000) s' = Inr (AlreadyCaptured OrdCollectionCompleted 50000, s')"
proof -
  obtain s od sc where s: "order_reachable (\<lambda>_. True) s" "order_at s 0 = Some od" "schedule_at s 0 = Some sc"
    "od_status od = OrdPending" "od_total od = 180000" "sc_collectible sc = 50000"
    using demo_order_exists by blast
  have v: "valid_amount 50000" by (simp add: valid_amount_def money_bounds)
  from capture_exactly_once [OF s(1,2,4,3) v, of 1] s(5,6) obtain s' st where
    s': "recordVerifiedCapture 1 0 (Fin 50000) s = Inr (Captured st 50000, s')" "st = OrdCollectionCompleted \<longleftrightarrow> 50000 < od_total od"
      "\<forall>b now'. valid_amount b \<longrightarrow> 0 \<le> b \<longrightarrow> recordVerifiedCapture now' 0 (Fin (of_int b)) s' = Inr (AlreadyCaptured st 50000, s')"
    by auto
  with s(5) have "recordVerifiedCapture 2 0 (Fin (of_int 50000)) s' = Inr (AlreadyCaptured OrdCollectionCompleted 50000, s')"
    using v by auto
  with s(1,5) s' show ?thesis by auto
qed

text \<open>Refunds stop exactly at what was collected: on an order with money left, a positive refund is applied
  exactly when it is at most the remaining amount, which then shrinks by it, and the order is refunded exactly
  when nothing remains; a larger refund is an error and changes nothing.\<close>

theorem refund_within_collected:
  assumes "order_reachable known s" "order_at s i = Some od" "od_status od \<in> set REFUNDABLE_STATUSES"
    "valid_amount a" "0 < a"
  shows "if a \<le> remainingRefundable od
    then \<exists>s' od'. recordRefund i (Fin (of_int a)) rid s = Inr (True, s') \<and> order_at s' i = Some od' \<and>
           remainingRefundable od' = remainingRefundable od - a \<and>
           (od_status od' = OrdRefunded \<longleftrightarrow> a = remainingRefundable od)
    else recordRefund i (Fin (of_int a)) rid s = Inl RefundExceedsOrder"
proof -
  have inv: "order_inv s" by (rule order_reachable_inv [OF assms(1)])
  have k: "keyed od_id (om_orders s)" by (rule inv_order_keyed [OF inv])
  have id: "od_id od = i" by (rule order_invD(1) [OF inv assms(2)])
  obtain sc where "money_ok sc od" using order_invD(5) [OF inv assms(2)] by blast
  then have rem: "remainingRefundable od = od_collected od - od_refunded od"
    by (auto simp: money_ok_def order_row_ok_def remainingRefundable_def)
  have am: "recordRefund i (Fin (of_int a)) rid s = recordRefundWithin i a rid s"
    using assms(4,5) by (simp add: recordRefund_def assertNonNegativeAmount_def assertAmount_Fin_int)
  have one: "taffected (refundable_row i a) (om_orders s) = 1 \<longleftrightarrow> od_refunded od + a \<le> od_collected od"
    unfolding taffected_one_iff [OF k] using assms(2,3) by (simp add: order_at_def)
  show ?thesis
  proof (cases "a \<le> remainingRefundable od")
    case True
    let ?s1 = "s\<lparr>om_orders := tupd (refundable_row i a) (refund_row a) (om_orders s)\<rparr>"
    have at1: "order_at ?s1 i = Some (refund_row a od)"
      by (rule order_at_tupd [where P = "refundable_row i a" and s = s and f = "refund_row a"])
         (use assms(2,3) id True rem in \<open>simp_all add: refund_row_def\<close>)
    have "recordRefundWithin i a rid s = Inr (True, emitOrderEvent (OrderRefunded i rid a (od_refunded od + a)) ?s1)"
      using one True rem at1 by (simp add: recordRefundWithin_def Let_def refund_row_def)
    moreover have "order_at (emitOrderEvent (OrderRefunded i rid a (od_refunded od + a)) ?s1) i = Some (refund_row a od)"
      using at1 by (simp add: order_at_def emitOrderEvent_def)
    moreover have "remainingRefundable (refund_row a od) = remainingRefundable od - a"
      "od_status (refund_row a od) = OrdRefunded \<longleftrightarrow> a = remainingRefundable od"
      using True rem by (auto simp: refund_row_def remainingRefundable_def)
    ultimately show ?thesis using True am by auto
  next
    case False
    then have "recordRefundWithin i a rid s = Inl RefundExceedsOrder"
      using one rem assms(2) by (simp add: recordRefundWithin_def Let_def)
    then show ?thesis using False am by simp
  qed
qed

theorem refund_within_collected_witness:
  "\<exists>s s'. order_reachable (\<lambda>_. True) s \<and> recordRefund 0 (Fin 20000) 9 s = Inr (True, s') \<and>
     recordRefund 0 (Fin 60000) 9 s = Inl RefundExceedsOrder"
proof -
  obtain s0 od sc where s0: "order_reachable (\<lambda>_. True) s0" "order_at s0 0 = Some od" "schedule_at s0 0 = Some sc"
    "od_status od = OrdPending" "od_total od = 180000" "sc_collectible sc = 50000"
    using demo_order_exists by blast
  have inv: "order_inv s0" by (rule order_reachable_inv [OF s0(1)])
  have v: "valid_amount 50000" "valid_amount 20000" "valid_amount 60000" by (simp_all add: valid_amount_def money_bounds)
  have k: "keyed od_id (om_orders s0)" by (rule inv_order_keyed [OF inv])
  have "money_ok sc od" "od_id od = 0" using order_invD(1,5) [OF inv s0(2)] s0(3) by auto
  then have z: "od_collected od = 0" "od_refunded od = 0" using s0(4) by (auto simp: money_ok_def order_row_ok_def)
  have cap: "capturable s0 0 50000 od" using s0 z \<open>od_id od = 0\<close> by (simp add: capturable_def)
  have "taffected (\<lambda>od. od_id od = 0 \<and> (od_status od = OrdPending \<and> od_collected od = 0 \<and> 0 < (50000::int) \<and>
       (case schedule_at s0 0 of None \<Rightarrow> False | Some sc \<Rightarrow> 50000 = sc_collectible sc) \<and> 50000 \<le> od_total od)) (om_orders s0) = 1"
    unfolding taffected_one_iff [OF k] using s0 z by (simp add: order_at_def)
  moreover have "capturable s0 0 50000 = (\<lambda>od. od_id od = 0 \<and> (od_status od = OrdPending \<and> od_collected od = 0 \<and> 0 < (50000::int) \<and>
       (case schedule_at s0 0 of None \<Rightarrow> False | Some sc \<Rightarrow> 50000 = sc_collectible sc) \<and> 50000 \<le> od_total od))"
    by (auto simp: capturable_def fun_eq_iff)
  ultimately have one: "taffected (capturable s0 0 50000) (om_orders s0) = 1" by simp
  let ?s1 = "s0\<lparr>om_orders := tupd (capturable s0 0 50000) (capture_row 1 50000) (om_orders s0)\<rparr>"
  have at1: "order_at ?s1 0 = Some (capture_row 1 50000 od)"
    by (rule order_at_tupd [where P = "capturable s0 0 50000" and s = s0 and f = "capture_row 1 50000"])
       (use s0(2) cap in \<open>simp_all add: capture_row_def\<close>)
  have am: "assertNonNegativeAmount (Fin 50000) ''verified capture amount'' = Inr 50000"
    using v(1) assertAmount_Fin_int [of 50000] by (simp add: assertNonNegativeAmount_def)
  have "\<exists>r ev. recordVerifiedCapture 1 0 (Fin 50000) s0 = Inr (r, emitOrderEvent ev ?s1)"
    using am one at1 s0(3,5) by (simp add: recordVerifiedCapture_def capture_row_def schedule_at_def Let_def) blast
  then obtain ev r where c: "recordVerifiedCapture 1 0 (Fin 50000) s0 = Inr (r, emitOrderEvent ev ?s1)" by blast
  let ?s = "emitOrderEvent ev ?s1"
  have reach: "order_reachable (\<lambda>_. True) ?s"
    using s0(1) step_capture [OF c] unfolding order_reachable_def by (rule rtranclp.rtrancl_into_rtrancl)
  have at: "order_at ?s 0 = Some (capture_row 1 50000 od)" using at1 by (simp add: order_at_def emitOrderEvent_def)
  have st: "od_status (capture_row 1 50000 od) \<in> set REFUNDABLE_STATUSES" "remainingRefundable (capture_row 1 50000 od) = 50000"
    using s0(5) z by (simp_all add: capture_row_def REFUNDABLE_STATUSES_def remainingRefundable_def)
  from refund_within_collected [OF reach at st(1) v(2), of 9] refund_within_collected [OF reach at st(1) v(3), of 9] st(2) reach
  show ?thesis by auto
qed

text \<open>An order with money on it never becomes cancelled, and a refunded or cancelled order never changes its
  status again: along every run, collected money and refunded money never shrink, and the status only moves
  forward in the table of legal moves.\<close>

theorem collected_never_cancelled:
  assumes "order_reachable known s" "(order_step known)\<^sup>*\<^sup>* s s'" "order_at s i = Some od"
  shows "\<exists>od'. order_at s' i = Some od' \<and> od_total od' = od_total od \<and> od_collected od \<le> od_collected od' \<and>
    od_refunded od \<le> od_refunded od' \<and> (0 < od_collected od \<longrightarrow> od_status od' \<noteq> OrdCancelled) \<and>
    (od_status od \<in> {OrdRefunded, OrdCancelled} \<longrightarrow> od_status od' = od_status od) \<and>
    (od_status od \<noteq> OrdPending \<longrightarrow> od_status od' \<noteq> OrdPending)"
proof -
  have inv: "order_inv s" by (rule order_reachable_inv [OF assms(1)])
  obtain od' where od': "order_at s' i = Some od'" "order_move\<^sup>*\<^sup>* (od_status od) (od_status od')" "od_total od' = od_total od"
    "od_refunded od \<le> od_refunded od'" "od_collected od \<le> od_collected od'"
    using order_run_status [OF assms(2) inv assms(3)] by blast
  have inv': "order_inv s'" by (rule order_run_inv [OF assms(2) inv])
  obtain sc where "money_ok sc od'" using order_invD(5) [OF inv' od'(1)] by blast
  then have a: "0 < od_collected od \<Longrightarrow> od_status od' \<noteq> OrdCancelled" using od'(5) by (auto simp: money_ok_def)
  have b: "od_status od' = od_status od" if "od_status od \<in> {OrdRefunded, OrdCancelled}"
    using od'(2) that by (induction rule: rtranclp_induct) (auto simp: order_move_def)
  have c: "od_status od' \<noteq> OrdPending" if "od_status od \<noteq> OrdPending"
    using order_machine.moves_rank [OF od'(2)] that by (cases "od_status od") auto
  show ?thesis using od' a b c by blast
qed

theorem collected_never_cancelled_witness:
  "\<exists>s s' od'. cancel_order 5 0 ''changed my mind'' s = (True, s') \<and> order_at s' 0 = Some od' \<and> od_status od' \<noteq> OrdPending \<and>
     (\<forall>s''. (order_step (\<lambda>_. True))\<^sup>*\<^sup>* s' s'' \<longrightarrow> (\<exists>od''. order_at s'' 0 = Some od'' \<and> od_status od'' = OrdCancelled))"
proof -
  obtain s od where s: "order_reachable (\<lambda>_. True) s" "order_at s 0 = Some od" "od_status od = OrdPending"
    using demo_order_exists by blast
  have k: "keyed od_id (om_orders s)" by (rule inv_order_keyed [OF order_reachable_inv [OF s(1)]])
  let ?P = "\<lambda>od. od_id od = 0 \<and> od_status od \<in> set CANCELLABLE_STATUSES" and
    ?f = "\<lambda>od. od\<lparr>od_status := OrdCancelled, od_cancelledAt := Some (5::int)\<rparr>"
  have one: "taffected ?P (om_orders s) = 1"
    unfolding taffected_one_iff [OF k] using s by (simp add: order_at_def CANCELLABLE_STATUSES_def)
  let ?s' = "emitOrderEvent (OrderCancelled 0 ''changed my mind'') (s\<lparr>om_orders := tupd ?P ?f (om_orders s)\<rparr>)"
  have c: "cancel_order 5 0 ''changed my mind'' s = (True, ?s')" using one by (simp add: cancel_order_def Let_def)
  have id: "od_id od = 0" by (rule order_invD(1) [OF order_reachable_inv [OF s(1)] s(2)])
  have "order_at (s\<lparr>om_orders := tupd ?P ?f (om_orders s)\<rparr>) 0 = Some (?f od)"
    by (rule order_at_tupd [where P = ?P and s = s and f = ?f]) (use s id in \<open>simp_all add: CANCELLABLE_STATUSES_def\<close>)
  then have at: "order_at ?s' 0 = Some (?f od)" by (simp add: order_at_def emitOrderEvent_def)
  have reach: "order_reachable (\<lambda>_. True) ?s'"
    using s(1) step_cancel_order [OF c] unfolding order_reachable_def by (rule rtranclp.rtrancl_into_rtrancl)
  have "\<exists>od''. order_at s'' 0 = Some od'' \<and> od_status od'' = OrdCancelled"
    if "(order_step (\<lambda>_. True))\<^sup>*\<^sup>* ?s' s''" for s''
    using collected_never_cancelled [OF reach that at] by auto
  with c at show ?thesis by (intro exI [of _ s] exI [of _ ?s'] exI [of _ "?f od"]) auto
qed

text \<open>A preview depends on the clock only through the discount, and the membership discount does not look at it.\<close>

lemma preview_any_clock:
  assumes "op_rules ports = [MembershipDiscountRule d]"
  shows "previewForBooking known ports clk cust prof svc = previewForBooking known ports clk' cust prof svc"
proof -
  have at: "quote [MembershipDiscountRule d] \<lparr>px_customer = c, px_sellerType = t, px_sellerId = i, px_lines = ls, px_at = k, px_booking = None\<rparr> =
     quote [MembershipDiscountRule d] \<lparr>px_customer = c, px_sellerType = t, px_sellerId = i, px_lines = ls, px_at = 0, px_booking = None\<rparr>" for c t i ls k
    by (rule quote_membership_ctx)
  have "quoteBooking known ports clk cust prof svc None = quoteBooking known ports clk' cust prof svc None"
    unfolding quoteBooking_def assms at [of _ _ _ _ clk] at [of _ _ _ _ clk'] by (rule refl)
  then show ?thesis by (simp add: previewForBooking_def)
qed

text \<open>C14: What a customer accepts is the outcome policy, in the version in force when the order is created. Let a preview
  be disclosed while the catalogue, the policies and the discounts (the ports) are \<open>ports0\<close>, and let the booking, which
  has no order yet, be ordered later, when they are \<open>ports\<close> and the service can still be sold, with the registered
  pricing rule and commission terms that resolve. Handing back the acceptance of the disclosed policy (or none when none was disclosed) succeeds exactly
  when that acceptance is the one of the policy now in force (or none when none is); otherwise, and for any other
  acceptance, the creation is refused as unsellable. The order is for the seller, total, collectible amount and venue
  balance a preview under the ports of the creation shows; if the ports have not changed these are the disclosed ones.\<close>

theorem preview_is_binding:
  assumes "order_reachable known s" "op_rules ports = [MembershipDiscountRule d]" "op_commission ports = Some terms"
    "previewForBooking known ports0 clk0 cust prof svc = Inr pv0"
    "previewForBooking known ports clk1 cust prof svc = Inr pv"
    "\<forall>x \<in> set (om_orders s). \<not> (od_sourceType x = SourceBooking \<and> od_source x = bid)"
  shows "(if map_option acceptanceFor (dp_outcome pv0) = map_option acceptanceFor (dp_outcome pv)
      then \<exists>dt s'. createForBooking known ports clk now
             (input_for bid cust prof svc (map_option acceptanceFor (dp_outcome pv0))) s after = Inr (dt, s') \<and>
           od_status (dt_order dt) = OrdPending \<and> od_seller (dt_order dt) = dp_seller pv \<and>
           od_total (dt_order dt) = ca_serviceTotal (dp_amounts pv) \<and> sc_collectible (dt_schedule dt) = ca_collectible (dp_amounts pv) \<and>
           sc_venueBalance (dt_schedule dt) = ca_venueBalance (dp_amounts pv)
      else createForBooking known ports clk now
             (input_for bid cust prof svc (map_option acceptanceFor (dp_outcome pv0))) s after = Inl UnsellableService) \<and>
    (\<forall>a. a \<noteq> map_option acceptanceFor (dp_outcome pv) \<longrightarrow>
       createForBooking known ports clk now (input_for bid cust prof svc a) s after = Inl UnsellableService) \<and>
    (ports0 = ports \<longrightarrow> pv = pv0)"
proof -
  note inv = order_reachable_inv [OF assms(1)]
  let ?acc = "map_option acceptanceFor (dp_outcome pv)"
  have other: "createForBooking known ports clk now (input_for bid cust prof svc a) s after = Inl UnsellableService"
    if "a \<noteq> ?acc" for a
    by (rule preview_then_create(2) [OF inv assms(2,3,5,6) that])
  have same: "pv = pv0" if "ports0 = ports"
    using assms(4,5) preview_any_clock [OF assms(2), of known clk0 cust prof svc clk1] that by simp
  show ?thesis
  proof (cases "map_option acceptanceFor (dp_outcome pv0) = ?acc")
    case True
    with preview_then_create(1) [OF inv assms(2,3,5,6), of clk now after] other same show ?thesis by auto
  next
    case False
    with other same show ?thesis by simp
  qed
qed

text \<open>The haircut was previewed at 200000, less a tenth, and is dearer by the time the booking is ordered: nothing about
  the outcome policy has changed, so the creation passes, for the new price.\<close>

theorem preview_is_binding_witness:
  "\<exists>pv0 dt s'. previewForBooking (\<lambda>_. True) demo_order_ports 0 7 5 (Some 1) = Inr pv0 \<and> ca_serviceTotal (dp_amounts pv0) = 180000 \<and>
     dp_outcome pv0 = None \<and>
     createForBooking (\<lambda>_. True) (repriced 250000) 9 9 demo_order_input empty_orders empty_orders = Inr (dt, s') \<and>
     od_total (dt_order dt) = 225000 \<and> sc_collectible (dt_schedule dt) = 50000 \<and> sc_venueBalance (dt_schedule dt) = 175000"
proof -
  obtain pv0 where pv0: "previewForBooking (\<lambda>_. True) demo_order_ports 0 7 5 (Some 1) = Inr pv0"
     "dp_amounts pv0 = \<lparr>ca_serviceTotal = 180000, ca_collectible = 50000, ca_venueBalance = 130000\<rparr>" "dp_outcome pv0 = None"
    using demo_preview by blast
  have m: "membership_amount 250000 1000 = 25000" using membership_amount_div [of 250000 1000] by simp
  have a: "bookingCollectionAmountsV1 (fin_int 250000) (fin_int (250000 - 25000)) (cs_terms demo_deposit) =
     Inr \<lparr>ca_serviceTotal = 225000, ca_collectible = 50000, ca_venueBalance = 175000\<rparr>"
  proof -
    have b: "isBoundedAmount (Fin 50000)" "isBoundedAmount (fin_int 250000)" "isBoundedAmount (fin_int 225000)"
      by (auto simp: isBoundedAmount_iff MAX_COLLECTION_AMOUNT_TOMAN_def fin_int_def)
    then show ?thesis by (simp add: bookingCollectionAmountsV1_def demo_deposit_def validateBookingCollectionTermsV1_def deposit_errors_def
        deposit_amount_def Let_def) (simp add: whole_def fin_int_def)
  qed
  have big: "(250000::int) \<le> MAX_AMOUNT_TOMAN" by (simp add: money_bounds)
  have pv: "previewForBooking (\<lambda>_. True) (repriced 250000) 0 7 5 (Some 1) = Inr \<lparr>dp_seller = (ProfessionalParty, 5),
      dp_amounts = \<lparr>ca_serviceTotal = 225000, ca_collectible = 50000, ca_venueBalance = 175000\<rparr>, dp_outcome = None\<rparr>"
    by (rule repriced_preview [OF _ big m _ _ a]) simp_all
  have r: "order_reachable (\<lambda>_. True) empty_orders" by (simp add: order_reachable_def)
  have p: "op_rules (repriced 250000) = [MembershipDiscountRule (\<lambda>_. Inr 1000)]" "op_commission (repriced 250000) = Some []"
    by (simp_all add: repriced_def demo_order_ports_def)
  have "input_for 2 7 5 (Some 1) None = demo_order_input" by (simp add: input_for_def demo_order_input_def)
  with preview_is_binding [OF r p pv0(1) pv, of 2 9 9 empty_orders] pv0 show ?thesis by (auto simp: empty_orders_def)
qed

end
