(* ===== verification/Payment_Provider.thy ===== *)
theory Payment_Provider
  imports Js_Value
begin

text \<open>
  What the payment service knows of a gateway: the public vocabulary of failures
  (\<open>packages/payment-contract\<close>, \<open>services/payment/src/payment-failure.ts\<close>), the provider interface and its
  registry, and the sandbox gateway with its own table of transactions
  (\<open>services/payment/src/providers\<close>). A real gateway is code outside the repository: it is a value of the
  record \<open>payment_provider\<close>, whose functions answer or throw (\<open>None\<close>).
\<close>

section \<open>Failures in public words\<close>

datatype failure_reason = CancelledByUser | Declined | ReasonExpired | NotCompleted | UnknownReference
  | AmountMismatch | Unresolved | GatewayError

definition PAYMENT_FAILURE_REASONS :: "failure_reason list" where
  "PAYMENT_FAILURE_REASONS = [CancelledByUser, Declined, ReasonExpired, NotCompleted, UnknownReference,
     AmountMismatch, Unresolved, GatewayError]"

definition isRetryableFailureReason :: "failure_reason option \<Rightarrow> bool" where
  "isRetryableFailureReason reason = (case reason of None \<Rightarrow> False
     | Some r \<Rightarrow> r = CancelledByUser \<or> r = Declined \<or> r = NotCompleted \<or> r = GatewayError)"

definition REASON_ALIASES :: "(string \<times> failure_reason) list" where
  "REASON_ALIASES =
    [(''cancelled_by_user'', CancelledByUser), (''canceled_by_user'', CancelledByUser), (''cancelled'', CancelledByUser),
     (''canceled'', CancelledByUser), (''user_cancelled'', CancelledByUser),
     (''declined'', Declined), (''rejected'', Declined), (''insufficient_funds'', Declined), (''card_declined'', Declined),
     (''intent_expired'', ReasonExpired), (''expired'', ReasonExpired), (''timeout_expired'', ReasonExpired),
     (''not_completed'', NotCompleted), (''incomplete'', NotCompleted), (''pending'', NotCompleted),
     (''unknown_reference'', UnknownReference), (''not_found'', UnknownReference), (''invalid_reference'', UnknownReference),
     (''amount_mismatch'', AmountMismatch), (''currency_mismatch'', AmountMismatch),
     (''verification_timeout'', Unresolved), (''verification_unavailable'', Unresolved),
     (''verification_transport_error'', Unresolved), (''unresolved'', Unresolved),
     (''gateway_error'', GatewayError)]"

text \<open>\<open>String.prototype.trim\<close> and \<open>toLowerCase\<close> on code units below 256; a letter beyond ASCII matches no alias.\<close>

definition js_space :: "char \<Rightarrow> bool" where
  "js_space c \<longleftrightarrow> of_char c \<in> {9 :: nat, 10, 11, 12, 13, 32, 160}"

definition js_trim :: "string \<Rightarrow> string" where
  "js_trim s = rev (dropWhile js_space (rev (dropWhile js_space s)))"

definition ascii_lower :: "char \<Rightarrow> char" where
  "ascii_lower c = (if 65 \<le> (of_char c :: nat) \<and> of_char c \<le> (90 :: nat) then char_of ((of_char c :: nat) + 32) else c)"

definition toPublicFailureReason :: "string option \<Rightarrow> failure_reason option" where
  "toPublicFailureReason code =
    (case code of None \<Rightarrow> None
     | Some c \<Rightarrow> (let normalized = map ascii_lower (js_trim c) in
         if normalized = '''' then None
         else Some (case map_of REASON_ALIASES normalized of Some r \<Rightarrow> r | None \<Rightarrow> GatewayError)))"

definition isRetryableProviderFailureCode :: "string option \<Rightarrow> bool" where
  "isRetryableProviderFailureCode code = isRetryableFailureReason (toPublicFailureReason code)"

section \<open>The provider interface\<close>

record initiate_request =
  iq_intent :: nat
  iq_order :: nat
  iq_amount :: int
  iq_callbackUrl :: string
  iq_description :: string

record initiate_answer =
  ia_reference :: string
  ia_redirectUrl :: string

record verify_request =
  vq_reference :: string
  vq_expectedAmount :: int
  vq_params :: "(string \<times> string) list"

datatype verify_outcome = ProviderSucceeded | ProviderFailed | ProviderUnknown

record verify_result =
  vr_outcome :: verify_outcome
  vr_paidAmount :: "jsnum option"
  vr_paidCurrency :: "string option"
  vr_transactionId :: "string option"
  vr_failureCode :: "string option"
  vr_raw :: "(string \<times> jsval) list option"

text \<open>What the deadline of \<open>withVerifyDeadline\<close> sees of the call: an answer, no answer in time, an exception.\<close>

datatype verify_answer = Answered verify_result | TimedOut | VerifyThrew

record refund_call =
  rc_reference :: string
  rc_transactionId :: "string option"
  rc_amount :: int
  rc_reason :: string
  rc_idempotencyKey :: string

record refund_answer =
  ra_succeeded :: bool
  ra_reference :: "string option"
  ra_failureCode :: "string option"

text \<open>\<open>pv_gate\<close> is the answer of \<open>isEnabled()\<close> when the provider has one.\<close>

record payment_provider =
  pv_key :: string
  pv_gate :: "bool option"
  pv_autoRefund :: bool
  pv_initiate :: "initiate_request \<Rightarrow> initiate_answer option"
  pv_verify :: "verify_request \<Rightarrow> verify_answer"
  pv_refund :: "refund_call \<Rightarrow> refund_answer option"

definition unresolvedVerification :: "string \<Rightarrow> verify_result" where
  "unresolvedVerification code = \<lparr>vr_outcome = ProviderUnknown, vr_paidAmount = None, vr_paidCurrency = None,
     vr_transactionId = None, vr_failureCode = Some code, vr_raw = None\<rparr>"

section \<open>The registry\<close>

datatype registry_error = ProviderUnavailable string | DuplicateProvider string

definition provider_enabled :: "payment_provider \<Rightarrow> bool" where
  "provider_enabled p = (case pv_gate p of None \<Rightarrow> True | Some b \<Rightarrow> b)"

fun registry_add :: "payment_provider list \<Rightarrow> payment_provider list \<Rightarrow> registry_error + payment_provider list" where
  "registry_add byKey [] = Inr byKey"
| "registry_add byKey (p # ps) =
    (if pv_key p \<in> pv_key ` set byKey then Inl (DuplicateProvider (pv_key p)) else registry_add (byKey @ [p]) ps)"

definition registry_new :: "payment_provider list \<Rightarrow> registry_error + payment_provider list" where
  "registry_new ps = registry_add [] ps"

definition registry_get :: "payment_provider list \<Rightarrow> string \<Rightarrow> registry_error + payment_provider" where
  "registry_get byKey k =
    (case find (\<lambda>p. pv_key p = k) byKey of
       None \<Rightarrow> Inl (ProviderUnavailable k)
     | Some p \<Rightarrow> if provider_enabled p then Inr p else Inl (ProviderUnavailable k))"

definition enabledKeys :: "payment_provider list \<Rightarrow> string list" where
  "enabledKeys byKey = map pv_key (filter provider_enabled byKey)"

text \<open>\<open>configured\<close> is \<open>PAYMENT_DEFAULT_PROVIDER\<close>; an empty string counts as unset.\<close>

definition defaultProviderKey :: "string option \<Rightarrow> payment_provider list \<Rightarrow> registry_error + string" where
  "defaultProviderKey configured byKey =
    (case configured of
       Some (c # cs) \<Rightarrow> Inr (c # cs)
     | _ \<Rightarrow> (case enabledKeys byKey of [k] \<Rightarrow> Inr k
            | _ \<Rightarrow> Inl (ProviderUnavailable (case configured of None \<Rightarrow> ''(unset)'' | Some c \<Rightarrow> c))))"

lemma registry_get_Inr:
  "registry_get ps k = Inr p \<Longrightarrow> p \<in> set ps \<and> pv_key p = k \<and> provider_enabled p"
  by (auto simp: registry_get_def find_Some_iff split: option.splits if_splits)

lemma registry_add_distinct:
  "registry_add byKey ps = Inr r \<Longrightarrow> distinct (map pv_key byKey) \<Longrightarrow> distinct (map pv_key r) \<and> set r = set byKey \<union> set ps"
proof (induction ps arbitrary: byKey)
  case (Cons p ps)
  then have "registry_add (byKey @ [p]) ps = Inr r" "pv_key p \<notin> pv_key ` set byKey" by (auto split: if_splits)
  with Cons.IH [of "byKey @ [p]"] Cons.prems(2) show ?case by auto
qed simp

section \<open>The sandbox gateway\<close>

datatype sandbox_outcome = SbxPending | SbxPaid | SbxDeclined | SbxCancelled
datatype sandbox_decision = DecideSuccess | DecideFailure | DecideCancel

record sandbox_transaction =
  sx_reference :: string
  sx_amount :: int
  sx_currency :: string
  sx_order :: "nat option"
  sx_intent :: "nat option"
  sx_outcome :: sandbox_outcome
  sx_settlement :: "string option"
  sx_refund :: "string option"

definition DECISION_TO_OUTCOME :: "sandbox_decision \<Rightarrow> sandbox_outcome" where
  "DECISION_TO_OUTCOME d = (case d of DecideSuccess \<Rightarrow> SbxPaid | DecideFailure \<Rightarrow> SbxDeclined | DecideCancel \<Rightarrow> SbxCancelled)"

definition sandbox_enabled :: "string option \<Rightarrow> string option \<Rightarrow> bool" where
  "sandbox_enabled nodeEnv environment =
    (if nodeEnv = Some ''production'' then False
     else map ascii_lower (case environment of None \<Rightarrow> ''sandbox'' | Some e \<Rightarrow> e) = ''sandbox'')"

definition sandbox_find :: "string \<Rightarrow> sandbox_transaction list \<Rightarrow> sandbox_transaction option" where
  "sandbox_find ref t = find (\<lambda>x. sx_reference x = ref) t"

text \<open>\<open>reference\<close>, \<open>settlement\<close> and \<open>fresh\<close> are the random identifiers the gateway draws; the primary key refuses
  one that was drawn before.\<close>

definition sandbox_initiate :: "(string \<Rightarrow> string) \<Rightarrow> string \<Rightarrow> string \<Rightarrow> initiate_request \<Rightarrow> sandbox_transaction list \<Rightarrow>
    (initiate_answer \<times> sandbox_transaction list) option" where
  "sandbox_initiate encodeURIComponent base reference rq t =
    (if reference \<in> sx_reference ` set t then None
     else Some (\<lparr>ia_reference = reference,
                 ia_redirectUrl = base @ ''?reference='' @ encodeURIComponent reference @ ''&callback='' @
                   encodeURIComponent (iq_callbackUrl rq)\<rparr>,
                t @ [\<lparr>sx_reference = reference, sx_amount = iq_amount rq, sx_currency = ''IRT'', sx_order = Some (iq_order rq),
                  sx_intent = Some (iq_intent rq), sx_outcome = SbxPending, sx_settlement = None, sx_refund = None\<rparr>]))"

definition sandbox_decide :: "string \<Rightarrow> sandbox_decision \<Rightarrow> string \<Rightarrow> sandbox_transaction list \<Rightarrow> bool \<times> sandbox_transaction list" where
  "sandbox_decide reference d settlement t =
    (let P = (\<lambda>x. sx_reference x = reference \<and> sx_outcome x = SbxPending); oc = DECISION_TO_OUTCOME d in
     (taffected P t = 1,
      tupd P (\<lambda>x. x\<lparr>sx_outcome := oc, sx_settlement := (if oc = SbxPaid then Some settlement else None)\<rparr>) t))"

definition sandbox_failure :: "string \<Rightarrow> verify_result" where
  "sandbox_failure code = \<lparr>vr_outcome = ProviderFailed, vr_paidAmount = None, vr_paidCurrency = None,
     vr_transactionId = None, vr_failureCode = Some code, vr_raw = None\<rparr>"

definition sandbox_verify :: "verify_request \<Rightarrow> sandbox_transaction list \<Rightarrow> verify_result" where
  "sandbox_verify rq t =
    (case sandbox_find (vq_reference rq) t of
       None \<Rightarrow> sandbox_failure ''unknown_reference''
     | Some x \<Rightarrow>
        (case sx_outcome x of
           SbxPending \<Rightarrow> sandbox_failure ''not_completed''
         | SbxDeclined \<Rightarrow> sandbox_failure ''declined''
         | SbxCancelled \<Rightarrow> sandbox_failure ''cancelled_by_user''
         | SbxPaid \<Rightarrow> \<lparr>vr_outcome = ProviderSucceeded, vr_paidAmount = Some (fin_int (sx_amount x)),
             vr_paidCurrency = Some (sx_currency x), vr_transactionId = sx_settlement x, vr_failureCode = None,
             vr_raw = Some [(''reference'', JString (sx_reference x)), (''outcome'', JString ''paid'')]\<rparr>))"

definition sandbox_refund :: "string \<Rightarrow> refund_call \<Rightarrow> sandbox_transaction list \<Rightarrow> refund_answer \<times> sandbox_transaction list" where
  "sandbox_refund fresh rq t =
    (case sandbox_find (rc_reference rq) t of
       None \<Rightarrow> (\<lparr>ra_succeeded = False, ra_reference = None, ra_failureCode = Some ''not_refundable''\<rparr>, t)
     | Some x \<Rightarrow>
        (if sx_outcome x \<noteq> SbxPaid
         then (\<lparr>ra_succeeded = False, ra_reference = None, ra_failureCode = Some ''not_refundable''\<rparr>, t)
         else case sx_refund x of
           Some (c # cs) \<Rightarrow> (\<lparr>ra_succeeded = True, ra_reference = Some (c # cs), ra_failureCode = None\<rparr>, t)
         | _ \<Rightarrow>
            (let P = (\<lambda>y. sx_reference y = sx_reference x \<and> sx_refund y = None) in
             if taffected P t = 1
             then (\<lparr>ra_succeeded = True, ra_reference = Some fresh, ra_failureCode = None\<rparr>,
                   tupd P (\<lambda>y. y\<lparr>sx_refund := Some fresh\<rparr>) t)
             else (\<lparr>ra_succeeded = True, ra_reference = sx_refund x, ra_failureCode = None\<rparr>, t))))"

end
