(* ===== verification/Payment_Model.thy ===== *)
theory Payment_Model
  imports Payment_Provider
begin

text \<open>
  Payments (\<open>services/payment/src/payment.service.ts\<close> with its entities): intents, attempts, the two steps of
  a verification, and refunds. One record holds the tables of the \<open>payment\<close> schema with the unique indexes and
  checks of its migrations.

  An operation that first reads and later writes takes two databases: \<open>rd\<close>, the committed state its unlocked
  reads saw, and \<open>s\<close>, the state its transaction runs on. The gateway is called in between. Identifiers are
  drawn from \<open>pm_next\<close>. Audit lines are left out.
\<close>

section \<open>Data\<close>

datatype intent_status = IntCreated | IntPending | IntSucceeded | IntFailed | IntCancelled | IntExpired
datatype attempt_status = AttInitiated | AttSucceeded | AttFailed
datatype refund_status = RefPending | RefSucceeded | RefFailed | RefManual
datatype refund_kind = KindOrder | KindDuplicate

definition LIVE_INTENT_STATUSES :: "intent_status list" where
  "LIVE_INTENT_STATUSES = [IntCreated, IntPending, IntSucceeded]"

definition intent_status_name :: "intent_status \<Rightarrow> string" where
  "intent_status_name st = (case st of IntCreated \<Rightarrow> ''created'' | IntPending \<Rightarrow> ''pending'' | IntSucceeded \<Rightarrow> ''succeeded''
     | IntFailed \<Rightarrow> ''failed'' | IntCancelled \<Rightarrow> ''cancelled'' | IntExpired \<Rightarrow> ''expired'')"

record payment_intent =
  pi_id :: nat
  pi_order :: nat
  pi_customer :: nat
  pi_amount :: int
  pi_currency :: string
  pi_status :: intent_status
  pi_provider :: string
  pi_expiresAt :: int
  pi_succeededAt :: "int option"
  pi_failureCode :: "string option"

record payment_attempt =
  pt_id :: nat
  pt_intent :: nat
  pt_provider :: string
  pt_reference :: string
  pt_status :: attempt_status
  pt_requested :: int
  pt_verified :: "int option"
  pt_redirectUrl :: "string option"
  pt_transactionId :: "string option"
  pt_failureCode :: "string option"
  pt_response :: "(string \<times> jsval) list option"
  pt_verifiedAt :: "int option"

record payment_refund =
  rf_id :: nat
  rf_order :: nat
  rf_intent :: nat
  rf_attempt :: "nat option"
  rf_key :: string
  rf_amount :: int
  rf_status :: refund_status
  rf_kind :: refund_kind
  rf_providerReference :: "string option"
  rf_failureCode :: "string option"
  rf_reason :: string
  rf_actor :: string
  rf_completedAt :: "int option"

datatype payment_event =
    PaymentInitiated nat nat nat string int
  | PaymentSucceeded nat nat nat nat int "string option"
  | PaymentFailed nat nat nat nat int "string option" "string option"
  | RefundCompleted nat nat nat int refund_kind "string option"

record payment_db =
  pm_intents :: "payment_intent list"
  pm_attempts :: "payment_attempt list"
  pm_refunds :: "payment_refund list"
  pm_outbox :: "payment_event list"
  pm_next :: nat

datatype payment_error =
    IntentNotFound
  | IntentNotPayable string
  | RefundExceedsCaptured int int
  | PayRegistry registry_error
  | PayMoney money_error
  | PayUniqueViolation
  | PayCheckViolation
  | ReferenceTooLong
  | ProviderThrew
  | RowMissing

definition pay_money :: "money_error + 'a \<Rightarrow> payment_error + 'a" where
  "pay_money r = (case r of Inl e \<Rightarrow> Inl (PayMoney e) | Inr x \<Rightarrow> Inr x)"

definition pay_registry :: "registry_error + 'a \<Rightarrow> payment_error + 'a" where
  "pay_registry r = (case r of Inl e \<Rightarrow> Inl (PayRegistry e) | Inr x \<Rightarrow> Inr x)"

lemma pay_lift_simps [simp]:
  "pay_money (Inl e1) = Inl (PayMoney e1)" "pay_money (Inr x) = Inr x"
  "pay_registry (Inl e2) = Inl (PayRegistry e2)" "pay_registry (Inr x) = Inr x"
  by (simp_all add: pay_money_def pay_registry_def)

lemma pay_lift_Inr [simp]:
  "pay_money r1 = Inr x \<longleftrightarrow> r1 = Inr x" "pay_registry r2 = Inr x \<longleftrightarrow> r2 = Inr x"
  by (auto simp: pay_money_def pay_registry_def split: sum.splits)

section \<open>Tables, indexes, reads\<close>

definition live_intent :: "payment_intent \<Rightarrow> bool" where
  "live_intent x \<longleftrightarrow> pi_status x \<in> set LIVE_INTENT_STATUSES"

text \<open>\<open>uq_payment_intents_live_order\<close>, \<open>uq_payment_attempts_provider_reference\<close>, \<open>uq_payment_attempts_live_per_intent\<close>.\<close>

definition uq_live_order :: "payment_intent list \<Rightarrow> bool" where
  "uq_live_order t \<longleftrightarrow> distinct (map pi_order (filter live_intent t))"

definition uq_provider_reference :: "payment_attempt list \<Rightarrow> bool" where
  "uq_provider_reference t \<longleftrightarrow> distinct (map (\<lambda>x. (pt_provider x, pt_reference x)) t)"

definition uq_live_per_intent :: "payment_attempt list \<Rightarrow> bool" where
  "uq_live_per_intent t \<longleftrightarrow> distinct (map pt_intent (filter (\<lambda>x. pt_status x = AttInitiated) t))"

text \<open>\<open>ORDER BY id DESC LIMIT 1\<close>.\<close>

definition latest :: "('r \<Rightarrow> nat) \<Rightarrow> ('r \<Rightarrow> bool) \<Rightarrow> 'r list \<Rightarrow> 'r option" where
  "latest k P t = (case rev (sort_key k (filter P t)) of [] \<Rightarrow> None | r # _ \<Rightarrow> Some r)"

definition intent_at :: "payment_db \<Rightarrow> nat \<Rightarrow> payment_intent option" where
  "intent_at s i = tget pi_id i (pm_intents s)"

definition attempt_at :: "payment_db \<Rightarrow> nat \<Rightarrow> payment_attempt option" where
  "attempt_at s i = tget pt_id i (pm_attempts s)"

definition refund_at :: "payment_db \<Rightarrow> nat \<Rightarrow> payment_refund option" where
  "refund_at s i = tget rf_id i (pm_refunds s)"

definition findLiveIntentForOrder :: "nat \<Rightarrow> payment_db \<Rightarrow> payment_intent option" where
  "findLiveIntentForOrder orderId s = find (\<lambda>x. pi_order x = orderId \<and> live_intent x) (pm_intents s)"

definition findIntent :: "nat \<Rightarrow> payment_db \<Rightarrow> payment_intent option" where
  "findIntent intentId s = intent_at s intentId"

definition findLatestIntentForOrder :: "nat \<Rightarrow> payment_db \<Rightarrow> payment_intent option" where
  "findLatestIntentForOrder orderId s = latest pi_id (\<lambda>x. pi_order x = orderId) (pm_intents s)"

definition findOpenAttemptForIntent :: "nat \<Rightarrow> payment_db \<Rightarrow> payment_attempt option" where
  "findOpenAttemptForIntent intentId s =
    latest pt_id (\<lambda>x. pt_intent x = intentId \<and> pt_status x = AttInitiated) (pm_attempts s)"

definition isIntentRetryable :: "payment_intent \<Rightarrow> bool" where
  "isIntentRetryable x = isRetryableProviderFailureCode (pi_failureCode x)"

definition findRefund :: "nat \<Rightarrow> payment_db \<Rightarrow> payment_refund option" where
  "findRefund refundId s = refund_at s refundId"

definition listRefundsForOrder :: "nat \<Rightarrow> payment_db \<Rightarrow> payment_refund list" where
  "listRefundsForOrder orderId s = sort_key rf_id (filter (\<lambda>x. rf_order x = orderId) (pm_refunds s))"

definition findAttemptById :: "nat \<Rightarrow> payment_db \<Rightarrow> payment_attempt option" where
  "findAttemptById attemptId s = attempt_at s attemptId"

definition emit_payment :: "payment_event \<Rightarrow> payment_db \<Rightarrow> payment_db" where
  "emit_payment ev s = s\<lparr>pm_outbox := pm_outbox s @ [ev]\<rparr>"

definition fitToColumn :: "string option \<Rightarrow> nat \<Rightarrow> string option" where
  "fitToColumn v n = (case v of None \<Rightarrow> None | Some x \<Rightarrow> Some (if length x \<le> n then x else take n x))"

text \<open>The key filter of \<open>sanitizeProviderResponse\<close>: a forbidden word anywhere, in any case.\<close>

fun has_infix :: "string \<Rightarrow> string \<Rightarrow> bool" where
  "has_infix w [] \<longleftrightarrow> w = []"
| "has_infix w (c # cs) \<longleftrightarrow> take (length w) (c # cs) = w \<or> has_infix w cs"

definition forbidden_key :: "string \<Rightarrow> bool" where
  "forbidden_key key = list_ex (\<lambda>w. has_infix w (map ascii_lower key))
     [''merchant'', ''secret'', ''token'', ''key'', ''password'', ''authorization'', ''pan'', ''card'']"

definition scalar :: "jsval \<Rightarrow> bool" where
  "scalar v = (case v of JNull \<Rightarrow> True | JString _ \<Rightarrow> True | JNumber _ \<Rightarrow> True | JBoolean _ \<Rightarrow> True | _ \<Rightarrow> False)"

definition sanitizeProviderResponse :: "(string \<times> jsval) list option \<Rightarrow> (string \<times> jsval) list option" where
  "sanitizeProviderResponse raw =
    (case raw of None \<Rightarrow> None
     | Some ps \<Rightarrow> (let out = filter (\<lambda>(k, v). \<not> forbidden_key k \<and> scalar v) ps in if out = [] then None else Some out))"

section \<open>Opening an intent\<close>

record create_intent_input =
  ci_order :: nat
  ci_customer :: nat
  ci_amount :: jsnum
  ci_provider :: "string option"

text \<open>\<open>PAYMENT_INTENT_TTL_MINUTES\<close> as the configuration's number, and the \<open>Date\<close> it gives (whole milliseconds).\<close>

definition intentTtlMinutes :: "jsnum \<Rightarrow> rat" where
  "intentTtlMinutes raw = (case raw of Fin q \<Rightarrow> if 0 < q then q else 30 | _ \<Rightarrow> 30)"

definition intent_expiry :: "jsnum \<Rightarrow> int \<Rightarrow> int" where
  "intent_expiry raw clk = \<lfloor>fl (of_int clk + fl (intentTtlMinutes raw * 60000))\<rfloor>"

definition insert_intent :: "payment_intent \<Rightarrow> payment_db \<Rightarrow> payment_error + payment_db" where
  "insert_intent x s =
    (if pi_amount x < 0 then Inl PayCheckViolation
     else if \<not> uq_live_order (pm_intents s @ [x]) then Inl PayUniqueViolation
     else Inr (s\<lparr>pm_intents := pm_intents s @ [x]\<rparr>))"

definition createIntentForOrder :: "payment_provider list \<Rightarrow> string option \<Rightarrow> jsnum \<Rightarrow> int \<Rightarrow> create_intent_input \<Rightarrow>
    payment_db \<Rightarrow> payment_db \<Rightarrow> (payment_error + payment_intent) \<times> payment_db" where
  "createIntentForOrder providers configured ttl clk inp rd s =
    (case pay_money (assertNonNegativeAmount (ci_amount inp) ''payment amount'') of
       Inl e \<Rightarrow> (Inl e, s)
     | Inr amount \<Rightarrow>
        (case findLiveIntentForOrder (ci_order inp) rd of
           Some x \<Rightarrow> (Inr x, s)
         | None \<Rightarrow>
            (case bind_res (pay_registry (case ci_provider inp of Some k \<Rightarrow> Inr k | None \<Rightarrow> defaultProviderKey configured providers))
                    (\<lambda>k. bind_res (pay_registry (registry_get providers k)) (\<lambda>_. Inr k)) of
               Inl e \<Rightarrow> (Inl e, s)
             | Inr k \<Rightarrow>
                (let x = \<lparr>pi_id = pm_next s, pi_order = ci_order inp, pi_customer = ci_customer inp, pi_amount = amount,
                       pi_currency = ''IRT'', pi_status = IntCreated, pi_provider = k, pi_expiresAt = intent_expiry ttl clk,
                       pi_succeededAt = None, pi_failureCode = None\<rparr>
                 in case insert_intent x (s\<lparr>pm_next := Suc (pm_next s)\<rparr>) of
                      Inr s' \<Rightarrow> (Inr x, s')
                    | Inl e \<Rightarrow> (case findLiveIntentForOrder (ci_order inp) s of
                        Some y \<Rightarrow> if e = PayUniqueViolation then (Inr y, s) else (Inl e, s)
                      | None \<Rightarrow> (Inl e, s))))))"

section \<open>Sending the customer to the gateway\<close>

record initiate_result =
  ir_intent :: payment_intent
  ir_attempt :: payment_attempt
  ir_redirectUrl :: string

definition callback_url :: "string \<Rightarrow> string \<Rightarrow> string" where
  "callback_url base key = rev (dropWhile (\<lambda>c. c = CHR ''/'') (rev base)) @ ''/'' @ key"

text \<open>An open attempt with a redirect address is handed out again.\<close>

definition open_redirect :: "payment_intent \<Rightarrow> payment_db \<Rightarrow> initiate_result option" where
  "open_redirect it s =
    (case findOpenAttemptForIntent (pi_id it) s of
       Some a \<Rightarrow> (case pt_redirectUrl a of
           Some (c # cs) \<Rightarrow> Some \<lparr>ir_intent = it, ir_attempt = a, ir_redirectUrl = c # cs\<rparr>
         | _ \<Rightarrow> None)
     | None \<Rightarrow> None)"

definition expire_intent :: "nat \<Rightarrow> payment_db \<Rightarrow> payment_db" where
  "expire_intent i s = s\<lparr>pm_intents := tupd (\<lambda>x. pi_id x = i \<and> pi_status x \<in> {IntCreated, IntPending, IntFailed})
     (\<lambda>x. x\<lparr>pi_status := IntExpired\<rparr>) (pm_intents s)\<rparr>"

definition new_attempt :: "nat \<Rightarrow> payment_provider \<Rightarrow> payment_intent \<Rightarrow> initiate_answer \<Rightarrow> payment_attempt" where
  "new_attempt i pv it ia = \<lparr>pt_id = i, pt_intent = pi_id it, pt_provider = pv_key pv, pt_reference = ia_reference ia,
     pt_status = AttInitiated, pt_requested = pi_amount it, pt_verified = None, pt_redirectUrl = Some (ia_redirectUrl ia),
     pt_transactionId = None, pt_failureCode = None, pt_response = None, pt_verifiedAt = None\<rparr>"

text \<open>The transaction of \<open>initiate\<close>: the attempt, the intent back to pending, the event.\<close>

definition start_attempt :: "payment_provider \<Rightarrow> payment_intent \<Rightarrow> initiate_answer \<Rightarrow> payment_db \<Rightarrow>
    payment_error + nat \<times> payment_db" where
  "start_attempt pv it ia s =
    (let i = pm_next s;
         ats = pm_attempts s @ [new_attempt i pv it ia];
         ins = tupd (\<lambda>x. pi_id x = pi_id it \<and> pi_status x \<in> {IntCreated, IntFailed}) (\<lambda>x. x\<lparr>pi_status := IntPending\<rparr>) (pm_intents s)
     in if pi_amount it < 0 then Inl PayCheckViolation
        else if \<not> uq_provider_reference ats \<or> \<not> uq_live_per_intent ats \<or> \<not> uq_live_order ins then Inl PayUniqueViolation
        else Inr (i, emit_payment (PaymentInitiated (pi_id it) i (pi_order it) (pv_key pv) (pi_amount it))
               (s\<lparr>pm_attempts := ats, pm_intents := ins, pm_next := Suc i\<rparr>)))"

definition initiate :: "payment_provider list \<Rightarrow> int \<Rightarrow> nat \<Rightarrow> string \<Rightarrow> string \<Rightarrow> payment_db \<Rightarrow> payment_db \<Rightarrow>
    (payment_error + initiate_result) \<times> payment_db" where
  "initiate providers clk intentId callbackBaseUrl description rd s =
    (case intent_at rd intentId of
       None \<Rightarrow> (Inl IntentNotFound, s)
     | Some it \<Rightarrow>
        (if pi_status it = IntSucceeded then (Inl (IntentNotPayable ''already_paid''), s)
         else if \<not> live_intent it \<and> pi_status it \<noteq> IntFailed then (Inl (IntentNotPayable (intent_status_name (pi_status it))), s)
         else if pi_expiresAt it \<le> clk then (Inl (IntentNotPayable ''expired''), expire_intent (pi_id it) s)
         else case open_redirect it rd of
           Some r \<Rightarrow> (Inr r, s)
         | None \<Rightarrow>
            (case pay_registry (registry_get providers (pi_provider it)) of
               Inl e \<Rightarrow> (Inl e, s)
             | Inr pv \<Rightarrow>
                (case pv_initiate pv \<lparr>iq_intent = pi_id it, iq_order = pi_order it, iq_amount = pi_amount it,
                        iq_callbackUrl = callback_url callbackBaseUrl (pv_key pv), iq_description = description\<rparr> of
                   None \<Rightarrow> (Inl ProviderThrew, s)
                 | Some ia \<Rightarrow>
                    (if 128 < length (ia_reference ia) then (Inl ReferenceTooLong, s)
                     else case start_attempt pv it ia s of
                       Inl e \<Rightarrow> (case open_redirect it s of
                           Some r \<Rightarrow> if e = PayUniqueViolation then (Inr r, s) else (Inl e, s)
                         | None \<Rightarrow> (Inl e, s))
                     | Inr (i, s') \<Rightarrow>
                         (case (intent_at s' (pi_id it), attempt_at s' i) of
                            (Some it', Some a') \<Rightarrow> (Inr \<lparr>ir_intent = it', ir_attempt = a', ir_redirectUrl = ia_redirectUrl ia\<rparr>, s')
                          | _ \<Rightarrow> (Inl RowMissing, s')))))))"

section \<open>Verification\<close>

record prepared_verification =
  pp_attempt :: payment_attempt
  pp_intent :: payment_intent
  pp_result :: "verify_result option"
  pp_alreadyProcessed :: bool

datatype verification_status = VerSucceeded | VerFailed | VerReplayed | VerUnresolved

record verification_outcome =
  vo_status :: verification_status
  vo_order :: nat
  vo_customer :: nat
  vo_intent :: nat
  vo_attempt :: nat
  vo_amount :: int
  vo_transactionId :: "string option"
  vo_failureCode :: "string option"
  vo_failureReason :: "failure_reason option"

text \<open>\<open>withVerifyDeadline\<close> and the classification of its failures.\<close>

definition resolve_answer :: "verify_answer \<Rightarrow> verify_result" where
  "resolve_answer ans = (case ans of Answered r \<Rightarrow> r
     | TimedOut \<Rightarrow> unresolvedVerification ''verification_timeout''
     | VerifyThrew \<Rightarrow> unresolvedVerification ''verification_transport_error'')"

definition expired_result :: verify_result where
  "expired_result = \<lparr>vr_outcome = ProviderFailed, vr_paidAmount = None, vr_paidCurrency = None, vr_transactionId = None,
     vr_failureCode = Some ''intent_expired'', vr_raw = None\<rparr>"

definition prepareVerification :: "payment_provider list \<Rightarrow> int \<Rightarrow> string \<Rightarrow> string \<Rightarrow> (string \<times> string) list \<Rightarrow> payment_db \<Rightarrow>
    payment_error + prepared_verification" where
  "prepareVerification providers clk providerKey providerReference params s =
    (case find (\<lambda>x. pt_provider x = providerKey \<and> pt_reference x = providerReference) (pm_attempts s) of
       None \<Rightarrow> Inl IntentNotFound
     | Some a \<Rightarrow>
        (case intent_at s (pt_intent a) of
           None \<Rightarrow> Inl IntentNotFound
         | Some it \<Rightarrow>
            (if pt_status a \<noteq> AttInitiated
             then Inr \<lparr>pp_attempt = a, pp_intent = it, pp_result = None, pp_alreadyProcessed = True\<rparr>
             else if pi_expiresAt it \<le> clk \<and> pi_status it \<noteq> IntSucceeded
             then Inr \<lparr>pp_attempt = a, pp_intent = it, pp_result = Some expired_result, pp_alreadyProcessed = False\<rparr>
             else bind_res (pay_registry (registry_get providers (pt_provider a))) (\<lambda>pv.
               Inr \<lparr>pp_attempt = a, pp_intent = it,
                    pp_result = Some (resolve_answer (pv_verify pv \<lparr>vq_reference = providerReference,
                      vq_expectedAmount = pi_amount it, vq_params = params\<rparr>)),
                    pp_alreadyProcessed = False\<rparr>))))"

definition outcome_of :: "payment_attempt \<Rightarrow> payment_intent \<Rightarrow> verification_status \<Rightarrow> string option \<Rightarrow> string option \<Rightarrow>
    failure_reason option \<Rightarrow> verification_outcome" where
  "outcome_of a it st tx code reason = \<lparr>vo_status = st, vo_order = pi_order it, vo_customer = pi_customer it, vo_intent = pi_id it,
     vo_attempt = pt_id a, vo_amount = pi_amount it, vo_transactionId = tx, vo_failureCode = code, vo_failureReason = reason\<rparr>"

definition charge_confirmed :: "payment_intent \<Rightarrow> verify_result \<Rightarrow> bool" where
  "charge_confirmed it r \<longleftrightarrow> vr_outcome r = ProviderSucceeded \<and> vr_paidCurrency r = Some (pi_currency it) \<and>
     vr_paidAmount r = Some (fin_int (pi_amount it))"

definition verification_failure :: "payment_intent \<Rightarrow> verify_result \<Rightarrow> string option" where
  "verification_failure it r = fitToColumn
     (if charge_confirmed it r then None
      else if vr_outcome r = ProviderFailed then vr_failureCode r else Some ''amount_mismatch'') 60"

text \<open>\<open>moneyTransformer\<close> on the verified amount: a value that is not a whole amount aborts the transaction.\<close>

definition verified_column :: "jsnum option \<Rightarrow> payment_error + int option" where
  "verified_column v = (case v of None \<Rightarrow> Inr None
     | Some n \<Rightarrow> bind_res (pay_money (assertAmount n ''money column value'')) (\<lambda>m. Inr (Some m)))"

definition settle_attempt :: "int \<Rightarrow> payment_intent \<Rightarrow> verify_result \<Rightarrow> int option \<Rightarrow> payment_attempt \<Rightarrow> payment_attempt" where
  "settle_attempt now it r verified a = a\<lparr>pt_status := (if charge_confirmed it r then AttSucceeded else AttFailed),
     pt_verified := verified, pt_transactionId := fitToColumn (vr_transactionId r) 128,
     pt_failureCode := verification_failure it r, pt_response := sanitizeProviderResponse (vr_raw r), pt_verifiedAt := Some now\<rparr>"

definition settle_intent :: "int \<Rightarrow> payment_intent \<Rightarrow> verify_result \<Rightarrow> payment_intent \<Rightarrow> payment_intent" where
  "settle_intent now it r x =
    (if charge_confirmed it r then x\<lparr>pi_status := IntSucceeded, pi_succeededAt := Some now, pi_failureCode := None\<rparr>
     else x\<lparr>pi_status := IntFailed, pi_failureCode := verification_failure it r\<rparr>)"

definition verification_event :: "payment_attempt \<Rightarrow> payment_intent \<Rightarrow> verify_result \<Rightarrow> payment_event" where
  "verification_event a it r =
    (if charge_confirmed it r
     then PaymentSucceeded (pi_id it) (pt_id a) (pi_order it) (pi_customer it) (pi_amount it) (vr_transactionId r)
     else PaymentFailed (pi_id it) (pt_id a) (pi_order it) (pi_customer it) (pi_amount it) (vr_transactionId r)
            (verification_failure it r))"

definition applyVerification :: "int \<Rightarrow> prepared_verification \<Rightarrow> payment_db \<Rightarrow>
    payment_error + verification_outcome \<times> payment_db" where
  "applyVerification now p s =
    (let a = pp_attempt p; it = pp_intent p in
     case (if pp_alreadyProcessed p then None else pp_result p) of
       None \<Rightarrow> Inr (outcome_of a it VerReplayed (pt_transactionId a) (pt_failureCode a) (toPublicFailureReason (pt_failureCode a)), s)
     | Some r \<Rightarrow>
        (if vr_outcome r = ProviderUnknown
         then Inr (outcome_of a it VerUnresolved None (vr_failureCode r) (Some Unresolved), s)
         else bind_res (verified_column (vr_paidAmount r)) (\<lambda>verified.
           let P = (\<lambda>x. pt_id x = pt_id a \<and> pt_status x = AttInitiated) in
           if taffected P (pm_attempts s) \<noteq> 1
           then (case attempt_at s (pt_id a) of
                   None \<Rightarrow> Inl RowMissing
                 | Some c \<Rightarrow> Inr (outcome_of a it VerReplayed (pt_transactionId c) (pt_failureCode c)
                                 (toPublicFailureReason (pt_failureCode c)), s))
           else
             let s1 = s\<lparr>pm_attempts := tupd P (settle_attempt now it r verified) (pm_attempts s)\<rparr>;
                 s2 = s1\<lparr>pm_intents := tupd (\<lambda>x. pi_id x = pi_id it \<and> pi_status x \<in> {IntCreated, IntPending})
                        (settle_intent now it r) (pm_intents s1)\<rparr>
             in Inr (outcome_of a it (if charge_confirmed it r then VerSucceeded else VerFailed) (vr_transactionId r)
                       (verification_failure it r) (toPublicFailureReason (verification_failure it r)),
                     emit_payment (verification_event a it r) s2))))"

end
