(* ===== verification/Payment_Refund.thy ===== *)
theory Payment_Refund
  imports Payment_Model
begin

text \<open>
  Refunds (\<open>PaymentService.refund\<close>): the reads, the transaction that reserves the amount under the lock of the
  intent, the gateway's answer and the compare-and-swap that completes the row. The three phases are separate
  definitions because other operations run between them; \<open>refund\<close> is their uninterrupted composition.
\<close>

record refund_input =
  ri_order :: nat
  ri_amount :: jsnum
  ri_reason :: string
  ri_key :: string
  ri_actor :: string
  ri_kind :: "refund_kind option"
  ri_attempt :: "nat option"

definition request_kind :: "refund_input \<Rightarrow> refund_kind" where
  "request_kind inp = (case ri_kind inp of None \<Rightarrow> KindOrder | Some k \<Rightarrow> k)"

definition refund_by_key :: "nat \<Rightarrow> string \<Rightarrow> payment_db \<Rightarrow> payment_refund option" where
  "refund_by_key orderId key s = find (\<lambda>x. rf_order x = orderId \<and> rf_key x = key) (pm_refunds s)"

text \<open>The reads before the transaction: an earlier refund of the key, or the paid intent and the attempt to give back.\<close>

datatype refund_plan = RefundReplay payment_refund | RefundPlan int payment_intent "payment_attempt option"

definition refund_reads :: "refund_input \<Rightarrow> payment_db \<Rightarrow> payment_error + refund_plan" where
  "refund_reads inp rd =
    bind_res (pay_money (assertNonNegativeAmount (ri_amount inp) ''refund amount'')) (\<lambda>amount.
    case refund_by_key (ri_order inp) (ri_key inp) rd of
      Some r \<Rightarrow> Inr (RefundReplay r)
    | None \<Rightarrow>
       (case find (\<lambda>x. pi_order x = ri_order inp \<and> pi_status x = IntSucceeded) (pm_intents rd) of
          None \<Rightarrow> Inl IntentNotFound
        | Some it \<Rightarrow> Inr (RefundPlan amount it
            (case ri_attempt inp of
               Some i \<Rightarrow> attempt_at rd i
             | None \<Rightarrow> latest pt_id (\<lambda>x. pt_intent x = pi_id it \<and> pt_status x = AttSucceeded) (pm_attempts rd)))))"

definition committed :: "(payment_refund \<Rightarrow> bool) \<Rightarrow> payment_db \<Rightarrow> int" where
  "committed P s = sum_list (map rf_amount (filter (\<lambda>x. P x \<and> rf_status x \<noteq> RefFailed) (pm_refunds s)))"

text \<open>\<open>payment_attempt_id = NULL\<close> holds of no row.\<close>

definition duplicate_of :: "nat \<Rightarrow> nat option \<Rightarrow> payment_refund \<Rightarrow> bool" where
  "duplicate_of orderId attemptId x \<longleftrightarrow> rf_order x = orderId \<and> rf_kind x = KindDuplicate \<and> attemptId \<noteq> None \<and> rf_attempt x = attemptId"

definition order_refund :: "nat \<Rightarrow> payment_refund \<Rightarrow> bool" where
  "order_refund orderId x \<longleftrightarrow> rf_order x = orderId \<and> rf_kind x = KindOrder"

definition captured_amount :: "payment_intent \<Rightarrow> payment_attempt option \<Rightarrow> refund_kind \<Rightarrow> int" where
  "captured_amount it att kind =
    (case kind of
       KindDuplicate \<Rightarrow> (case att of
           Some a \<Rightarrow> if pt_status a = AttSucceeded then (case pt_verified a of Some v \<Rightarrow> v | None \<Rightarrow> 0) else 0
         | None \<Rightarrow> 0)
     | KindOrder \<Rightarrow> pi_amount it)"

definition assertWithinCaptured :: "payment_db \<Rightarrow> payment_intent \<Rightarrow> payment_attempt option \<Rightarrow> refund_kind \<Rightarrow> nat \<Rightarrow> int \<Rightarrow>
    payment_error + unit" where
  "assertWithinCaptured s it att kind orderId requested =
    (let total = committed (case kind of KindDuplicate \<Rightarrow> duplicate_of orderId (map_option pt_id att)
                            | KindOrder \<Rightarrow> order_refund orderId) s;
         refundable = captured_amount it att kind - total
     in if refundable < requested then Inl (RefundExceedsCaptured requested (max 0 refundable)) else Inr ())"

definition new_refund :: "nat \<Rightarrow> refund_input \<Rightarrow> int \<Rightarrow> payment_intent \<Rightarrow> payment_attempt option \<Rightarrow> payment_refund" where
  "new_refund i inp amount it att = \<lparr>rf_id = i, rf_order = ri_order inp, rf_intent = pi_id it, rf_attempt = map_option pt_id att,
     rf_key = ri_key inp, rf_amount = amount, rf_status = RefPending, rf_kind = request_kind inp, rf_providerReference = None,
     rf_failureCode = None, rf_reason = ri_reason inp, rf_actor = ri_actor inp, rf_completedAt = None\<rparr>"

definition insert_refund :: "payment_refund \<Rightarrow> payment_db \<Rightarrow> payment_error + payment_db" where
  "insert_refund x s =
    (if rf_amount x \<le> 0 then Inl PayCheckViolation
     else if (rf_order x, rf_key x) \<in> (\<lambda>y. (rf_order y, rf_key y)) ` set (pm_refunds s) then Inl PayUniqueViolation
     else Inr (s\<lparr>pm_refunds := pm_refunds s @ [x]\<rparr>))"

text \<open>Phase one. A unique violation is settled by the row of the winner. The lock of the intent is what makes
  this one step of the system.\<close>

datatype refund_claim = ClaimReplay payment_refund | Claimed nat

definition claim_refund :: "refund_input \<Rightarrow> int \<Rightarrow> payment_intent \<Rightarrow> payment_attempt option \<Rightarrow> payment_db \<Rightarrow>
    (payment_error + refund_claim) \<times> payment_db" where
  "claim_refund inp amount it att s =
    (case refund_by_key (ri_order inp) (ri_key inp) s of
       Some r \<Rightarrow> (Inr (ClaimReplay r), s)
     | None \<Rightarrow>
        (case bind_res (assertWithinCaptured s it att (request_kind inp) (ri_order inp) amount) (\<lambda>_.
                insert_refund (new_refund (pm_next s) inp amount it att) (s\<lparr>pm_next := Suc (pm_next s)\<rparr>)) of
           Inr s' \<Rightarrow> (Inr (Claimed (pm_next s)), s')
         | Inl e \<Rightarrow> (case (e, refund_by_key (ri_order inp) (ri_key inp) s) of
             (PayUniqueViolation, Some r) \<Rightarrow> (Inr (ClaimReplay r), s)
           | _ \<Rightarrow> (Inl e, s))))"

text \<open>Phases two and three.\<close>

definition completeRefund :: "int \<Rightarrow> nat \<Rightarrow> refund_status \<Rightarrow> string option \<Rightarrow> string option \<Rightarrow> payment_db \<Rightarrow>
    payment_error + payment_db" where
  "completeRefund now refundId status reference code s =
    (let P = (\<lambda>x. rf_id x = refundId \<and> rf_status x = RefPending) in
     if taffected P (pm_refunds s) \<noteq> 1 then Inr s
     else
       let s1 = s\<lparr>pm_refunds := tupd P (\<lambda>x. x\<lparr>rf_status := status, rf_providerReference := reference, rf_failureCode := code,
                    rf_completedAt := Some now\<rparr>) (pm_refunds s)\<rparr>
       in case refund_at s1 refundId of
            None \<Rightarrow> Inl RowMissing
          | Some r \<Rightarrow>
              (if status \<noteq> RefSucceeded then Inr s1
               else Inr (emit_payment (RefundCompleted (rf_id r) (rf_intent r) (rf_order r) (rf_amount r) (rf_kind r) reference) s1)))"

datatype gateway_decision = GatewayFails payment_error | GatewaySettles refund_status "string option" "string option"

definition refund_request_of :: "refund_input \<Rightarrow> int \<Rightarrow> payment_attempt option \<Rightarrow> refund_call" where
  "refund_request_of inp amount att =
    \<lparr>rc_reference = (case att of None \<Rightarrow> '''' | Some a \<Rightarrow> pt_reference a),
     rc_transactionId = (case att of None \<Rightarrow> None | Some a \<Rightarrow> pt_transactionId a),
     rc_amount = amount, rc_reason = ri_reason inp,
     rc_idempotencyKey = show_nat (ri_order inp) @ '':'' @ ri_key inp\<rparr>"

definition ask_gateway :: "payment_provider list \<Rightarrow> refund_input \<Rightarrow> int \<Rightarrow> payment_intent \<Rightarrow> payment_attempt option \<Rightarrow> gateway_decision" where
  "ask_gateway providers inp amount it att =
    (case pay_registry (registry_get providers (pi_provider it)) of
       Inl e \<Rightarrow> GatewayFails e
     | Inr pv \<Rightarrow>
        (if \<not> pv_autoRefund pv then GatewaySettles RefManual None (Some ''gateway_has_no_refund_api'')
         else case pv_refund pv (refund_request_of inp amount att) of
                None \<Rightarrow> GatewayFails ProviderThrew
              | Some r \<Rightarrow> GatewaySettles (if ra_succeeded r then RefSucceeded else RefFailed)
                            (fitToColumn (ra_reference r) 128) (fitToColumn (ra_failureCode r) 60)))"

definition settle_refund :: "int \<Rightarrow> gateway_decision \<Rightarrow> nat \<Rightarrow> payment_db \<Rightarrow> (payment_error + payment_refund) \<times> payment_db" where
  "settle_refund now d refundId s =
    (case d of
       GatewayFails e \<Rightarrow> (Inl e, s)
     | GatewaySettles status reference code \<Rightarrow>
        (case completeRefund now refundId status reference code s of
           Inl e \<Rightarrow> (Inl e, s)
         | Inr s' \<Rightarrow> (case refund_at s' refundId of None \<Rightarrow> (Inl RowMissing, s') | Some r \<Rightarrow> (Inr r, s'))))"

definition refund :: "payment_provider list \<Rightarrow> int \<Rightarrow> refund_input \<Rightarrow> payment_db \<Rightarrow> payment_db \<Rightarrow>
    (payment_error + payment_refund) \<times> payment_db" where
  "refund providers now inp rd s =
    (case refund_reads inp rd of
       Inl e \<Rightarrow> (Inl e, s)
     | Inr (RefundReplay r) \<Rightarrow> (Inr r, s)
     | Inr (RefundPlan amount it att) \<Rightarrow>
        (case claim_refund inp amount it att s of
           (Inl e, s') \<Rightarrow> (Inl e, s')
         | (Inr (ClaimReplay r), s') \<Rightarrow> (Inr r, s')
         | (Inr (Claimed i), s') \<Rightarrow> settle_refund now (ask_gateway providers inp amount it att) i s'))"

text \<open>\<open>orderRefundCommitments\<close>: the refund of the key, and what every other one has committed.\<close>

fun refund_commitments :: "string \<Rightarrow> payment_refund list \<Rightarrow> (int \<times> refund_status) option \<Rightarrow> int \<Rightarrow>
    (int \<times> refund_status) option \<times> int" where
  "refund_commitments key [] keyRefund other = (keyRefund, other)"
| "refund_commitments key (r # rs) keyRefund other =
    (if rf_key r = key then refund_commitments key rs (Some (rf_amount r, rf_status r)) other
     else if rf_status r \<noteq> RefFailed then refund_commitments key rs keyRefund (other + rf_amount r)
     else refund_commitments key rs keyRefund other)"

definition orderRefundCommitments :: "nat \<Rightarrow> string \<Rightarrow> payment_db \<Rightarrow> (int \<times> refund_status) option \<times> int" where
  "orderRefundCommitments orderId key s = refund_commitments key (filter (order_refund orderId) (pm_refunds s)) None 0"

end
