(* ===== verification/Payment_Invariant.thy ===== *)
theory Payment_Invariant
  imports Payment_Refund Row_History
begin

text \<open>
  What every interleaving of payment operations keeps. A history is the list of the states the database went
  through, latest first; an operation reads any of them and writes after the latest.
\<close>

section \<open>Rows only move forward\<close>

definition intent_le :: "payment_intent \<Rightarrow> payment_intent \<Rightarrow> bool" where
  "intent_le x y \<longleftrightarrow> pi_id y = pi_id x \<and> pi_order y = pi_order x \<and> pi_customer y = pi_customer x \<and> pi_amount y = pi_amount x \<and>
    pi_currency y = pi_currency x \<and> pi_provider y = pi_provider x \<and> (pi_status x = IntSucceeded \<longrightarrow> y = x)"

definition attempt_le :: "payment_attempt \<Rightarrow> payment_attempt \<Rightarrow> bool" where
  "attempt_le x y \<longleftrightarrow> pt_id y = pt_id x \<and> pt_intent y = pt_intent x \<and> pt_provider y = pt_provider x \<and>
    pt_reference y = pt_reference x \<and> pt_requested y = pt_requested x \<and> (pt_status x \<noteq> AttInitiated \<longrightarrow> y = x)"

definition refund_le :: "payment_refund \<Rightarrow> payment_refund \<Rightarrow> bool" where
  "refund_le x y \<longleftrightarrow> rf_id y = rf_id x \<and> rf_order y = rf_order x \<and> rf_intent y = rf_intent x \<and> rf_attempt y = rf_attempt x \<and>
    rf_key y = rf_key x \<and> rf_amount y = rf_amount x \<and> rf_kind y = rf_kind x \<and> (rf_status x \<noteq> RefPending \<longrightarrow> y = x)"

interpretation intents: row_order intent_le
  by unfold_locales (auto simp: intent_le_def)

interpretation attempts: row_order attempt_le
  by unfold_locales (auto simp: attempt_le_def)

interpretation refunds: row_order refund_le
  by unfold_locales (auto simp: refund_le_def)

definition payment_le :: "payment_db \<Rightarrow> payment_db \<Rightarrow> bool" where
  "payment_le s s' \<longleftrightarrow> rows_le intent_le (pm_intents s) (pm_intents s') \<and> rows_le attempt_le (pm_attempts s) (pm_attempts s') \<and>
    rows_le refund_le (pm_refunds s) (pm_refunds s')"

lemma payment_le_refl [simp]: "payment_le s s"
  by (simp add: payment_le_def intents.rows_refl attempts.rows_refl refunds.rows_refl)

lemma payment_le_trans: "payment_le s t \<Longrightarrow> payment_le t u \<Longrightarrow> payment_le s u"
  unfolding payment_le_def using intents.rows_trans attempts.rows_trans refunds.rows_trans by blast

lemma intent_frame:
  assumes "pm_attempts s' = pm_attempts s" "pm_refunds s' = pm_refunds s" "rows_le intent_le (pm_intents s) (pm_intents s')"
  shows "payment_le s s'"
  using assms by (simp add: payment_le_def attempts.rows_refl refunds.rows_refl)

section \<open>The invariant\<close>

definition succeeded_events :: "nat \<Rightarrow> payment_event list \<Rightarrow> nat" where
  "succeeded_events i es = length (filter (\<lambda>e. case e of PaymentSucceeded _ a _ _ _ _ \<Rightarrow> a = i | _ \<Rightarrow> False) es)"

definition refund_events :: "nat \<Rightarrow> payment_event list \<Rightarrow> nat" where
  "refund_events i es = length (filter (\<lambda>e. case e of RefundCompleted r _ _ _ _ _ \<Rightarrow> r = i | _ \<Rightarrow> False) es)"

lemma event_counts [simp]:
  "succeeded_events i [] = 0" "refund_events i [] = 0"
  "succeeded_events i (es @ [e]) = succeeded_events i es + (case e of PaymentSucceeded _ a _ _ _ _ \<Rightarrow> if a = i then 1 else 0 | _ \<Rightarrow> 0)"
  "refund_events i (es @ [e]) = refund_events i es + (case e of RefundCompleted r _ _ _ _ _ \<Rightarrow> if r = i then 1 else 0 | _ \<Rightarrow> 0)"
  by (auto simp: succeeded_events_def refund_events_def split: payment_event.splits)

definition ids_ok :: "payment_db \<Rightarrow> bool" where
  "ids_ok s \<longleftrightarrow> keyed pi_id (pm_intents s) \<and> keyed pt_id (pm_attempts s) \<and> keyed rf_id (pm_refunds s) \<and>
    (\<forall>x \<in> set (pm_intents s). pi_id x < pm_next s) \<and> (\<forall>x \<in> set (pm_attempts s). pt_id x < pm_next s) \<and>
    (\<forall>x \<in> set (pm_refunds s). rf_id x < pm_next s)"

definition indexes_ok :: "payment_db \<Rightarrow> bool" where
  "indexes_ok s \<longleftrightarrow> uq_live_order (pm_intents s) \<and> uq_provider_reference (pm_attempts s) \<and> uq_live_per_intent (pm_attempts s)"

definition attempt_ok :: "payment_db \<Rightarrow> payment_attempt \<Rightarrow> bool" where
  "attempt_ok s a \<longleftrightarrow> (\<exists>it \<in> set (pm_intents s). pi_id it = pt_intent a \<and> pt_requested a = pi_amount it) \<and>
    (pt_status a = AttSucceeded \<longrightarrow> pt_verified a = Some (pt_requested a)) \<and>
    succeeded_events (pt_id a) (pm_outbox s) = (if pt_status a = AttSucceeded then 1 else 0)"

definition intent_ok :: "payment_db \<Rightarrow> payment_intent \<Rightarrow> bool" where
  "intent_ok s it \<longleftrightarrow> 0 \<le> pi_amount it \<and>
    (pi_status it = IntSucceeded \<longrightarrow>
       (\<exists>a \<in> set (pm_attempts s). pt_intent a = pi_id it \<and> pt_status a = AttSucceeded) \<and>
       committed (order_refund (pi_order it)) s \<le> pi_amount it)"

definition refund_ok :: "payment_db \<Rightarrow> payment_refund \<Rightarrow> bool" where
  "refund_ok s r \<longleftrightarrow> 0 < rf_amount r \<and>
    (\<exists>it \<in> set (pm_intents s). pi_id it = rf_intent r \<and> pi_order it = rf_order r \<and> pi_status it = IntSucceeded) \<and>
    refund_events (rf_id r) (pm_outbox s) = (if rf_status r = RefSucceeded then 1 else 0)"

text \<open>What one attempt has charged.\<close>

definition charged :: "payment_db \<Rightarrow> nat \<Rightarrow> int" where
  "charged s i = (case attempt_at s i of
     Some a \<Rightarrow> if pt_status a = AttSucceeded then pt_requested a else 0 | None \<Rightarrow> 0)"

definition payment_inv :: "payment_db \<Rightarrow> bool" where
  "payment_inv s \<longleftrightarrow> ids_ok s \<and> indexes_ok s \<and> (\<forall>a \<in> set (pm_attempts s). attempt_ok s a) \<and>
    (\<forall>it \<in> set (pm_intents s). intent_ok s it) \<and> (\<forall>r \<in> set (pm_refunds s). refund_ok s r) \<and>
    distinct (map (\<lambda>r. (rf_order r, rf_key r)) (pm_refunds s)) \<and>
    (\<forall>orderId i. committed (duplicate_of orderId (Some i)) s \<le> charged s i) \<and>
    (\<forall>i. pm_next s \<le> i \<longrightarrow> succeeded_events i (pm_outbox s) = 0 \<and> refund_events i (pm_outbox s) = 0)"

lemma payment_invD:
  assumes "payment_inv s"
  shows "ids_ok s" "indexes_ok s" "a \<in> set (pm_attempts s) \<Longrightarrow> attempt_ok s a" "it \<in> set (pm_intents s) \<Longrightarrow> intent_ok s it"
    "r \<in> set (pm_refunds s) \<Longrightarrow> refund_ok s r" "distinct (map (\<lambda>r. (rf_order r, rf_key r)) (pm_refunds s))"
    "committed (duplicate_of orderId (Some i)) s \<le> charged s i"
    "pm_next s \<le> i \<Longrightarrow> succeeded_events i (pm_outbox s) = 0" "pm_next s \<le> i \<Longrightarrow> refund_events i (pm_outbox s) = 0"
  using assms by (auto simp: payment_inv_def)

lemma payment_invI:
  assumes "ids_ok s" "indexes_ok s" "\<And>a. a \<in> set (pm_attempts s) \<Longrightarrow> attempt_ok s a" "\<And>it. it \<in> set (pm_intents s) \<Longrightarrow> intent_ok s it"
    "\<And>r. r \<in> set (pm_refunds s) \<Longrightarrow> refund_ok s r" "distinct (map (\<lambda>r. (rf_order r, rf_key r)) (pm_refunds s))"
    "\<And>orderId i. committed (duplicate_of orderId (Some i)) s \<le> charged s i"
    "\<And>i. pm_next s \<le> i \<Longrightarrow> succeeded_events i (pm_outbox s) = 0" "\<And>i. pm_next s \<le> i \<Longrightarrow> refund_events i (pm_outbox s) = 0"
  shows "payment_inv s"
  using assms by (simp add: payment_inv_def)

lemmas row_atD = tget_SomeD [of pi_id] tget_SomeD [of pt_id] tget_SomeD [of rf_id]

lemma inv_keys:
  assumes "payment_inv s"
  shows "keyed pi_id (pm_intents s)" "keyed pt_id (pm_attempts s)" "keyed rf_id (pm_refunds s)"
  using payment_invD(1) [OF assms] by (simp_all add: ids_ok_def)

lemma inv_one_live:
  assumes "payment_inv s" "x \<in> set (pm_intents s)" "y \<in> set (pm_intents s)" "live_intent x" "live_intent y" "pi_order x = pi_order y"
  shows "x = y"
  using partial_unique [of pi_order live_intent "pm_intents s" x y] assms payment_invD(2) [OF assms(1)]
  by (auto simp: indexes_ok_def uq_live_order_def)

lemma succeeded_live [simp]: "pi_status x = IntSucceeded \<Longrightarrow> live_intent x"
  by (simp add: live_intent_def LIVE_INTENT_STATUSES_def)

lemma committed_if:
  "committed P s = sum_list (map (\<lambda>x. if P x \<and> rf_status x \<noteq> RefFailed then rf_amount x else 0) (pm_refunds s))"
  by (simp add: committed_def sum_filter_if)

lemma committed_nonneg:
  assumes "payment_inv s"
  shows "0 \<le> committed P s"
  unfolding committed_def
  by (rule sum_list_map_nonneg) (use payment_invD(5) [OF assms] in \<open>auto simp: refund_ok_def intro: less_imp_le\<close>)

lemma committed_refunds: "pm_refunds s' = pm_refunds s \<Longrightarrow> committed P s' = committed P s"
  by (simp add: committed_def)

lemma committed_none:
  assumes "\<And>x. x \<in> set (pm_refunds s) \<Longrightarrow> \<not> P x"
  shows "committed P s = 0"
  using assms by (simp add: committed_def filter_empty_conv [THEN iffD2])

text \<open>An order with a live intent that is not paid has no refund.\<close>

lemma unpaid_no_refunds:
  assumes "payment_inv s" "x \<in> set (pm_intents s)" "live_intent x" "pi_status x \<noteq> IntSucceeded"
  shows "committed (order_refund (pi_order x)) s = 0"
proof (rule committed_none)
  fix r
  assume r: "r \<in> set (pm_refunds s)"
  show "\<not> order_refund (pi_order x) r"
  proof
    assume o: "order_refund (pi_order x) r"
    obtain it where it: "it \<in> set (pm_intents s)" "pi_order it = pi_order x" "pi_status it = IntSucceeded"
      using payment_invD(5) [OF assms(1) r] o by (auto simp: refund_ok_def order_refund_def)
    have "x = it" by (rule inv_one_live [OF assms(1,2) it(1) assms(3)]) (use it in simp_all)
    with it(3) assms(4) show False by simp
  qed
qed

section \<open>Changes of intents\<close>

text \<open>Writes that leave attempts, refunds and events alone: the live intents stay unique, paid ones stay.\<close>

lemma intents_change_inv:
  assumes "payment_inv s" "pm_attempts s' = pm_attempts s" "pm_refunds s' = pm_refunds s" "pm_outbox s' = pm_outbox s"
    "pm_next s \<le> pm_next s'" "keyed pi_id (pm_intents s')" "\<forall>x \<in> set (pm_intents s'). pi_id x < pm_next s'"
    "uq_live_order (pm_intents s')" "rows_le intent_le (pm_intents s) (pm_intents s')"
    "\<And>y. y \<in> set (pm_intents s') \<Longrightarrow> y \<in> set (pm_intents s) \<or> (0 \<le> pi_amount y \<and> pi_status y \<noteq> IntSucceeded)"
  shows "payment_inv s' \<and> payment_le s s'"
proof
  note D = payment_invD [OF assms(1)]
  have com: "committed P s' = committed P s" for P by (rule committed_refunds [OF assms(3)])
  have ch: "charged s' i = charged s i" for i by (simp add: charged_def attempt_at_def assms(2))
  have "attempt_ok s' a" if "a \<in> set (pm_attempts s')" for a
  proof -
    from that assms(2) have a: "attempt_ok s a" using D(3) by simp
    then obtain it where it: "it \<in> set (pm_intents s)" "pi_id it = pt_intent a" "pt_requested a = pi_amount it"
      by (auto simp: attempt_ok_def)
    then obtain it' where "it' \<in> set (pm_intents s')" "intent_le it it'" using assms(9) by (auto simp: rows_le_def)
    with a it(2,3) assms(4) show ?thesis by (auto simp: attempt_ok_def intent_le_def)
  qed
  moreover have "intent_ok s' it" if "it \<in> set (pm_intents s')" for it
    using assms(10) [OF that] D(4) [of it] assms(2) com by (auto simp: intent_ok_def)
  moreover have "refund_ok s' r" if "r \<in> set (pm_refunds s')" for r
  proof -
    from that assms(3) have r: "refund_ok s r" using D(5) by simp
    then obtain it where it: "it \<in> set (pm_intents s)" "pi_id it = rf_intent r" "pi_order it = rf_order r" "pi_status it = IntSucceeded"
      by (auto simp: refund_ok_def)
    then have "it \<in> set (pm_intents s')" using assms(9) by (auto simp: rows_le_def intent_le_def)
    with r it(2-4) assms(4) show ?thesis by (auto simp: refund_ok_def)
  qed
  ultimately show "payment_inv s'"
    using D(1,2,6,7,8,9) assms(2-8) com ch unfolding payment_inv_def ids_ok_def indexes_ok_def
    by (auto intro: less_le_trans)
  show "payment_le s s'" by (rule intent_frame) (use assms in auto)
qed

lemma insert_intent_Inr:
  "insert_intent x s = Inr s' \<longleftrightarrow> 0 \<le> pi_amount x \<and> uq_live_order (pm_intents s @ [x]) \<and> s' = s\<lparr>pm_intents := pm_intents s @ [x]\<rparr>"
  by (auto simp: insert_intent_def)

lemma create_intent_effect:
  assumes "createIntentForOrder ps cfg ttl clk inp rd s = (r, s')"
  shows "s' = s \<or> (\<exists>x. r = Inr x \<and> pi_id x = pm_next s \<and> pi_order x = ci_order inp \<and> pi_status x = IntCreated \<and>
    insert_intent x (s\<lparr>pm_next := Suc (pm_next s)\<rparr>) = Inr s')"
  using assms unfolding createIntentForOrder_def Let_def
  by (auto split: sum.splits option.splits if_splits)

lemma create_intent_inv:
  assumes "createIntentForOrder ps cfg ttl clk inp rd s = (r, s')" "payment_inv s"
  shows "payment_inv s' \<and> payment_le s s'"
  using create_intent_effect [OF assms(1)]
proof (elim disjE exE conjE)
  fix x
  assume x: "pi_id x = pm_next s" "pi_status x = IntCreated" and ins: "insert_intent x (s\<lparr>pm_next := Suc (pm_next s)\<rparr>) = Inr s'"
  from ins have i: "0 \<le> pi_amount x" "uq_live_order (pm_intents s @ [x])"
    and s': "s' = s\<lparr>pm_next := Suc (pm_next s), pm_intents := pm_intents s @ [x]\<rparr>"
    by (simp_all add: insert_intent_Inr)
  have "ids_ok s" by (rule payment_invD(1) [OF assms(2)])
  then show ?thesis
    by (intro intents_change_inv [OF assms(2)])
       (use x i in \<open>auto simp: s' ids_ok_def keyed_append intents.rows_append intro: less_SucI\<close>)
qed (use assms(2) in simp)

lemma expire_inv:
  assumes "payment_inv s"
  shows "payment_inv (expire_intent i s) \<and> payment_le s (expire_intent i s)"
proof -
  let ?P = "\<lambda>x. pi_id x = i \<and> pi_status x \<in> {IntCreated, IntPending, IntFailed}" and ?f = "\<lambda>x. x\<lparr>pi_status := IntExpired\<rparr>"
  have e: "pm_intents (expire_intent i s) = tupd ?P ?f (pm_intents s)" "pm_attempts (expire_intent i s) = pm_attempts s"
    "pm_refunds (expire_intent i s) = pm_refunds s" "pm_outbox (expire_intent i s) = pm_outbox s"
    "pm_next (expire_intent i s) = pm_next s"
    by (simp_all add: expire_intent_def)
  note ids = payment_invD(1) [OF assms, unfolded ids_ok_def]
  have uq: "uq_live_order (tupd ?P ?f (pm_intents s))"
    unfolding uq_live_order_def
    by (rule partial_unique_tupd)
       (use payment_invD(2) [OF assms] in \<open>auto simp: indexes_ok_def uq_live_order_def live_intent_def LIVE_INTENT_STATUSES_def\<close>)
  have le: "rows_le intent_le (pm_intents s) (tupd ?P ?f (pm_intents s))"
    by (rule intents.rows_tupd) (auto simp: intent_le_def)
  have am: "0 \<le> pi_amount x" if "x \<in> set (pm_intents s)" for x using payment_invD(4) [OF assms that] by (simp add: intent_ok_def)
  show ?thesis
    by (rule intents_change_inv [OF assms])
       (use e ids uq le am in \<open>auto simp: keyed_tupd set_tupd\<close>)
qed

section \<open>Attempts\<close>

lemma start_attempt_Inr:
  assumes "start_attempt pv it ia s = Inr (i, s')"
  shows "i = pm_next s \<and> uq_provider_reference (pm_attempts s @ [new_attempt i pv it ia]) \<and>
    uq_live_per_intent (pm_attempts s @ [new_attempt i pv it ia]) \<and> uq_live_order (pm_intents s') \<and>
    pm_intents s' = tupd (\<lambda>x. pi_id x = pi_id it \<and> pi_status x \<in> {IntCreated, IntFailed}) (\<lambda>x. x\<lparr>pi_status := IntPending\<rparr>) (pm_intents s) \<and>
    pm_attempts s' = pm_attempts s @ [new_attempt i pv it ia] \<and> pm_refunds s' = pm_refunds s \<and> pm_next s' = Suc i \<and>
    pm_outbox s' = pm_outbox s @ [PaymentInitiated (pi_id it) i (pi_order it) (pv_key pv) (pi_amount it)]"
  using assms by (auto simp: start_attempt_def Let_def emit_payment_def split: if_splits)

lemma start_attempt_inv:
  assumes "start_attempt pv it ia s = Inr (i, s')" "payment_inv s" "it0 \<in> set (pm_intents s)" "intent_le it it0"
  shows "payment_inv s' \<and> payment_le s s'"
proof -
  note E = start_attempt_Inr [OF assms(1)]
  let ?P = "\<lambda>x. pi_id x = pi_id it \<and> pi_status x \<in> {IntCreated, IntFailed}" and ?f = "\<lambda>x. x\<lparr>pi_status := IntPending\<rparr>"
  define m where "m = s\<lparr>pm_intents := pm_intents s', pm_next := Suc (pm_next s)\<rparr>"
  note ids = payment_invD(1) [OF assms(2), unfolded ids_ok_def]
  have le: "rows_le intent_le (pm_intents s) (pm_intents s')"
    using E by (auto intro!: intents.rows_tupd simp: intent_le_def)
  have am: "0 \<le> pi_amount x" if "x \<in> set (pm_intents s)" for x using payment_invD(4) [OF assms(2) that] by (simp add: intent_ok_def)
  have m: "payment_inv m \<and> payment_le s m"
    by (rule intents_change_inv [OF assms(2)])
       (use E ids le am in \<open>auto simp: m_def keyed_tupd set_tupd intro: less_SucI\<close>)
  note D = payment_invD [OF m [THEN conjunct1]]
  let ?a = "new_attempt i pv it ia"
  have f: "pm_intents s' = pm_intents m" "pm_attempts s' = pm_attempts m @ [?a]" "pm_refunds s' = pm_refunds m" "pm_next s' = pm_next m"
    "pm_outbox s' = pm_outbox m @ [PaymentInitiated (pi_id it) i (pi_order it) (pv_key pv) (pi_amount it)]" and i: "i = pm_next s"
    using E by (simp_all add: m_def)
  have com: "committed P s' = committed P m" for P by (rule committed_refunds [OF f(3)])
  have fresh: "i \<notin> pt_id ` set (pm_attempts m)" using ids i by (auto simp: m_def)
  have ch: "charged s' j = charged m j" for j
    using fresh by (auto simp: charged_def attempt_at_def f(2) tget_append new_attempt_def tget_None_iff split: option.splits dest: tget_SomeD)
  obtain it1 where it1: "it1 \<in> set (pm_intents m)" "intent_le it0 it1" using le assms(3) by (auto simp: rows_le_def m_def)
  then have "pi_id it1 = pi_id it" "pi_amount it1 = pi_amount it" using assms(4) by (auto simp: intent_le_def)
  moreover have "succeeded_events i (pm_outbox m) = 0"
    using payment_invD(8) [OF assms(2), of i] i by (simp add: m_def)
  ultimately have "attempt_ok s' ?a" using it1(1) by (auto simp: attempt_ok_def new_attempt_def f)
  moreover have "attempt_ok s' a" if "a \<in> set (pm_attempts m)" for a using D(3) [OF that] by (simp add: attempt_ok_def f)
  moreover have "intent_ok s' x" if "x \<in> set (pm_intents m)" for x using D(4) [OF that] com by (auto simp: intent_ok_def f)
  moreover have "refund_ok s' r" if "r \<in> set (pm_refunds m)" for r using D(5) [OF that] by (simp add: refund_ok_def f)
  moreover have mn: "pm_next m = Suc i" using i by (simp add: m_def)
  have "ids_ok s'" using D(1) fresh mn by (simp add: ids_ok_def f keyed_append new_attempt_def)
  moreover have "indexes_ok s'" using D(2) E by (auto simp: indexes_ok_def m_def)
  ultimately have "payment_inv s'"
    using D(6-9) com ch by (auto simp: payment_inv_def f)
  moreover have "payment_le m s'" by (simp add: payment_le_def f intents.rows_refl refunds.rows_refl attempts.rows_append)
  ultimately show ?thesis using m payment_le_trans by blast
qed

lemma intent_later:
  assumes "payment_le rd s" "intent_at rd i = Some it"
  shows "\<exists>it0 \<in> set (pm_intents s). intent_le it it0"
  using assms tget_SomeD [of pi_id i "pm_intents rd" it] by (auto simp: payment_le_def rows_le_def intent_at_def)

lemma initiate_effect:
  assumes "initiate ps clk i url d rd s = (r, s')"
  shows "s' = s \<or> (\<exists>j. s' = expire_intent j s) \<or> (\<exists>it pv ia k. intent_at rd i = Some it \<and> start_attempt pv it ia s = Inr (k, s'))"
  using assms unfolding initiate_def
  by (auto split: option.splits sum.splits if_splits prod.splits)

lemma initiate_inv:
  assumes "initiate ps clk i url d rd s = (r, s')" "payment_inv s" "payment_le rd s"
  shows "payment_inv s' \<and> payment_le s s'"
  using initiate_effect [OF assms(1)]
proof (elim disjE exE conjE)
  fix it pv ia k
  assume a: "intent_at rd i = Some it" "start_attempt pv it ia s = Inr (k, s')"
  obtain it0 where it0: "it0 \<in> set (pm_intents s)" "intent_le it it0" using intent_later [OF assms(3) a(1)] by blast
  show ?thesis by (rule start_attempt_inv [OF a(2) assms(2) it0])
qed (use assms(2) expire_inv in auto)

section \<open>Verifications\<close>

definition verifies :: "int \<Rightarrow> payment_attempt \<Rightarrow> payment_intent \<Rightarrow> verify_result \<Rightarrow> payment_db \<Rightarrow> payment_db \<Rightarrow> bool" where
  "verifies now a it r s s' \<longleftrightarrow> vr_outcome r \<noteq> ProviderUnknown \<and>
    (\<exists>a0 verified. attempt_at s (pt_id a) = Some a0 \<and> pt_status a0 = AttInitiated \<and> verified_column (vr_paidAmount r) = Inr verified \<and>
      s' = s\<lparr>pm_attempts := tupd (\<lambda>x. pt_id x = pt_id a \<and> pt_status x = AttInitiated) (settle_attempt now it r verified) (pm_attempts s),
             pm_intents := tupd (\<lambda>x. pi_id x = pi_id it \<and> pi_status x \<in> {IntCreated, IntPending}) (settle_intent now it r) (pm_intents s),
             pm_outbox := pm_outbox s @ [verification_event a it r]\<rparr>)"

lemma taffected_key_one:
  assumes "keyed k t"
  shows "taffected (\<lambda>r. k r = i \<and> Q r) t = 1 \<longleftrightarrow> (\<exists>r. tget k i t = Some r \<and> Q r)"
    "taffected (\<lambda>r. k r = i \<and> Q r) t = Suc 0 \<longleftrightarrow> (\<exists>r. tget k i t = Some r \<and> Q r)"
  by (simp_all add: taffected_id [OF assms] split: option.splits)

lemma apply_effect:
  assumes "applyVerification now p s = Inr (out, s')" "keyed pt_id (pm_attempts s)"
  shows "(\<exists>r. pp_alreadyProcessed p = False \<and> pp_result p = Some r \<and> verifies now (pp_attempt p) (pp_intent p) r s s' \<and>
       vo_status out = (if charge_confirmed (pp_intent p) r then VerSucceeded else VerFailed))
    \<or> s' = s \<and> vo_status out \<in> {VerReplayed, VerUnresolved}"
proof (cases "if pp_alreadyProcessed p then None else pp_result p")
  case None
  with assms(1) show ?thesis by (auto simp: applyVerification_def Let_def outcome_of_def)
next
  case (Some r)
  then have p: "pp_alreadyProcessed p = False" "pp_result p = Some r" by (auto split: if_splits)
  show ?thesis
  proof (cases "vr_outcome r = ProviderUnknown")
    case True
    with assms(1) p show ?thesis by (auto simp: applyVerification_def Let_def outcome_of_def)
  next
    case False
    with assms(1) p obtain verified where v: "verified_column (vr_paidAmount r) = Inr verified"
      by (auto simp: applyVerification_def Let_def bind_res_Inr)
    let ?P = "\<lambda>x. pt_id x = pt_id (pp_attempt p) \<and> pt_status x = AttInitiated"
    show ?thesis
    proof (cases "taffected ?P (pm_attempts s) = 1")
      case True
      obtain a0 where "attempt_at s (pt_id (pp_attempt p)) = Some a0" "pt_status a0 = AttInitiated"
        using True unfolding taffected_key_one [OF assms(2)] attempt_at_def by blast
      with assms(1) p False v True show ?thesis
        by (auto simp: applyVerification_def Let_def verifies_def outcome_of_def emit_payment_def)
    next
      case no: False
      with assms(1) p False v show ?thesis
        by (auto simp: applyVerification_def Let_def outcome_of_def split: option.splits)
    qed
  qed
qed

lemma prepare_shape:
  assumes "prepareVerification ps clk k ref params rd = Inr p"
  shows "pp_attempt p \<in> set (pm_attempts rd) \<and> intent_at rd (pt_intent (pp_attempt p)) = Some (pp_intent p)"
  using assms unfolding prepareVerification_def
  by (auto simp: bind_res_Inr find_Some_iff split: option.splits if_splits)

lemma assertAmount_fin_int: "assertAmount (fin_int n) l = (if valid_amount n then Inr n else Inl (OutOfRange l))"
  by (simp add: fin_int_def assertAmount_Fin_int)

lemma confirmed_verified:
  assumes "charge_confirmed it r" "verified_column (vr_paidAmount r) = Inr v"
  shows "v = Some (pi_amount it)"
  using assms by (auto simp: charge_confirmed_def verified_column_def assertAmount_fin_int bind_res_Inr split: if_splits)

lemma verifies_inv:
  assumes "verifies now a it r s s'" "payment_inv s" "a1 \<in> set (pm_attempts s)" "attempt_le a a1"
    "it1 \<in> set (pm_intents s)" "intent_le it it1" "pi_id it = pt_intent a"
  shows "payment_inv s' \<and> payment_le s s'"
proof -
  note D = payment_invD [OF assms(2)]
  from assms(1) obtain a0 verified where a0: "attempt_at s (pt_id a) = Some a0" "pt_status a0 = AttInitiated"
    and v: "verified_column (vr_paidAmount r) = Inr verified"
    and s': "s' = s\<lparr>pm_attempts := tupd (\<lambda>x. pt_id x = pt_id a \<and> pt_status x = AttInitiated) (settle_attempt now it r verified) (pm_attempts s),
             pm_intents := tupd (\<lambda>x. pi_id x = pi_id it \<and> pi_status x \<in> {IntCreated, IntPending}) (settle_intent now it r) (pm_intents s),
             pm_outbox := pm_outbox s @ [verification_event a it r]\<rparr>"
    by (auto simp: verifies_def)
  let ?PA = "\<lambda>x. pt_id x = pt_id a \<and> pt_status x = AttInitiated" and ?fa = "settle_attempt now it r verified"
  let ?PI = "\<lambda>x. pi_id x = pi_id it \<and> pi_status x \<in> {IntCreated, IntPending}" and ?fi = "settle_intent now it r"
  have keys: "pt_id (?fa x) = pt_id x" "pi_id (?fi y) = pi_id y" for x y by (simp_all add: settle_attempt_def settle_intent_def)
  have a0in: "a0 \<in> set (pm_attempts s)" "pt_id a0 = pt_id a" using a0(1) by (auto simp: attempt_at_def dest: row_atD)
  have "a1 = a0" using keyed_inj [OF inv_keys(2) [OF assms(2)] assms(3) a0in(1)] a0in(2) assms(4) by (auto simp: attempt_le_def)
  then have aint: "pt_intent a0 = pi_id it" using assms(4,7) by (auto simp: attempt_le_def)
  have amount: "pt_requested a0 = pi_amount it"
  proof -
    obtain i2 where "i2 \<in> set (pm_intents s)" "pi_id i2 = pt_intent a0" "pt_requested a0 = pi_amount i2"
      using D(3) [OF a0in(1)] by (auto simp: attempt_ok_def)
    moreover from this have "i2 = it1" using keyed_inj [OF inv_keys(1) [OF assms(2)] _ assms(5)] assms(6) aint by (auto simp: intent_le_def)
    ultimately show ?thesis using assms(6) by (auto simp: intent_le_def)
  qed
  have only: "x = a0" if "x \<in> set (pm_attempts s)" "pt_id x = pt_id a" for x
    using keyed_inj [OF inv_keys(2) [OF assms(2)] that(1) a0in(1)] that(2) a0in(2) by simp
  have onlyi: "x = it1" if "x \<in> set (pm_intents s)" "pi_id x = pi_id it" for x
    using keyed_inj [OF inv_keys(1) [OF assms(2)] that(1) assms(5)] that(2) assms(6) by (auto simp: intent_le_def)
  have le: "payment_le s s'"
    unfolding payment_le_def s'
    by (auto intro!: intents.rows_tupd attempts.rows_tupd refunds.rows_refl simp: intent_le_def attempt_le_def settle_attempt_def settle_intent_def)
  have ids: "ids_ok s'"
    using D(1) by (auto simp: ids_ok_def s' keyed_tupd keys set_tupd)
  have idx: "indexes_ok s'"
    unfolding indexes_ok_def
  proof (intro conjI)
    show "uq_live_order (pm_intents s')"
      using D(2) unfolding uq_live_order_def s' indexes_ok_def
      by (auto intro!: partial_unique_tupd simp: settle_intent_def live_intent_def LIVE_INTENT_STATUSES_def)
    show "uq_provider_reference (pm_attempts s')"
      using D(2) by (simp add: uq_provider_reference_def s' indexes_ok_def map_tupd_same settle_attempt_def)
    show "uq_live_per_intent (pm_attempts s')"
      using D(2) unfolding uq_live_per_intent_def s' indexes_ok_def
      by (auto intro!: partial_unique_tupd simp: settle_attempt_def)
  qed
  have com: "committed P s' = committed P s" for P by (rule committed_refunds) (simp add: s')
  have ev: "succeeded_events i (pm_outbox s') = succeeded_events i (pm_outbox s) + (if i = pt_id a \<and> charge_confirmed it r then 1 else 0)"
    "refund_events i (pm_outbox s') = refund_events i (pm_outbox s)" for i
    by (auto simp: s' verification_event_def)
  have at': "attempt_ok s' x" if x: "x \<in> set (pm_attempts s')" for x
  proof -
    from x obtain y where y: "y \<in> set (pm_attempts s)" "x = (if ?PA y then ?fa y else y)" by (auto simp: s' set_tupd)
    obtain i2 where i2: "i2 \<in> set (pm_intents s)" "pi_id i2 = pt_intent y" "pt_requested y = pi_amount i2"
      and ok: "pt_status y = AttSucceeded \<longrightarrow> pt_verified y = Some (pt_requested y)"
        "succeeded_events (pt_id y) (pm_outbox s) = (if pt_status y = AttSucceeded then 1 else 0)"
      using D(3) [OF y(1)] by (auto simp: attempt_ok_def)
    obtain i3 where i3: "i3 \<in> set (pm_intents s')" "intent_le i2 i3" using le i2(1) by (auto simp: payment_le_def rows_le_def)
    show ?thesis
    proof (cases "pt_id y = pt_id a")
      case True
      then have "y = a0" using only y(1) by simp
      then show ?thesis using y(2) a0(2) a0in(2) ok i2 i3 amount confirmed_verified [OF _ v]
        by (auto simp: attempt_ok_def ev settle_attempt_def intent_le_def)
    next
      case False
      then show ?thesis using y(2) ok i2 i3 by (auto simp: attempt_ok_def ev intent_le_def)
    qed
  qed
  have settled: "\<exists>x \<in> set (pm_attempts s'). pt_intent x = pi_id it \<and> pt_status x = AttSucceeded" if "charge_confirmed it r"
    using a0in a0(2) aint that by (auto simp: s' set_tupd settle_attempt_def intro!: bexI [of _ "?fa a0"] image_eqI [of _ _ a0])
  have in': "intent_ok s' x" if x: "x \<in> set (pm_intents s')" for x
  proof -
    from x obtain y where y: "y \<in> set (pm_intents s)" "x = (if ?PI y then ?fi y else y)" by (auto simp: s' set_tupd)
    note ok = D(4) [OF y(1)]
    show ?thesis
    proof (cases "?PI y \<and> charge_confirmed it r")
      case True
      then have "committed (order_refund (pi_order y)) s = 0"
        by (intro unpaid_no_refunds [OF assms(2) y(1)]) (auto simp: live_intent_def LIVE_INTENT_STATUSES_def)
      with True y(2) ok com settled show ?thesis by (auto simp: intent_ok_def settle_intent_def)
    next
      case False
      have keep: "\<exists>z \<in> set (pm_attempts s'). pt_intent z = pi_id y \<and> pt_status z = AttSucceeded" if "pi_status y = IntSucceeded"
      proof -
        obtain z where z: "z \<in> set (pm_attempts s)" "pt_intent z = pi_id y" "pt_status z = AttSucceeded"
          using ok \<open>pi_status y = IntSucceeded\<close> by (auto simp: intent_ok_def)
        then have "z \<in> set (pm_attempts s')" using le by (auto simp: payment_le_def rows_le_def attempt_le_def)
        with z show ?thesis by blast
      qed
      show ?thesis using False y(2) ok com keep by (auto simp: intent_ok_def settle_intent_def split: if_splits)
    qed
  qed
  have re': "refund_ok s' x" if "x \<in> set (pm_refunds s')" for x
  proof -
    from that have "refund_ok s x" using D(5) by (simp add: s')
    then obtain i2 where "i2 \<in> set (pm_intents s)" "pi_id i2 = rf_intent x" "pi_order i2 = rf_order x" "pi_status i2 = IntSucceeded"
      by (auto simp: refund_ok_def)
    moreover from this have "i2 \<in> set (pm_intents s')" using le by (auto simp: payment_le_def rows_le_def intent_le_def)
    ultimately show ?thesis using \<open>refund_ok s x\<close> by (auto simp: refund_ok_def ev)
  qed
  have ch: "charged s i \<le> charged s' i" for i
  proof (cases "i = pt_id a")
    case True
    then have "charged s i = 0" using a0 by (simp add: charged_def)
    moreover have "0 \<le> pt_requested a0"
      using D(4) [OF assms(5)] amount assms(6) by (auto simp: intent_ok_def intent_le_def)
    then have "0 \<le> charged s' i"
      using True a0 a0in(2) by (simp add: charged_def attempt_at_def s' tget_tupd keys settle_attempt_def)
    ultimately show ?thesis by simp
  next
    case False
    have "attempt_at s' i = attempt_at s i"
      using False by (auto simp: attempt_at_def s' tget_tupd keys dest!: tget_SomeD split: option.splits) (cases "tget pt_id i (pm_attempts s)"; auto dest: tget_SomeD)
    then show ?thesis by (simp add: charged_def)
  qed
  have late: "pt_id a < pm_next s" using D(1) a0in by (auto simp: ids_ok_def)
  have f: "pm_refunds s' = pm_refunds s" "pm_next s' = pm_next s" by (simp_all add: s')
  have "payment_inv s'"
  proof (rule payment_invI [OF ids idx at' in' re'])
    show "committed (duplicate_of orderId (Some i)) s' \<le> charged s' i" for orderId i
      using order_trans [OF D(7) ch] by (simp add: com)
  qed (use D(6,8,9) late in \<open>simp_all add: f ev\<close>)
  with le show ?thesis by blast
qed

lemma apply_inv:
  assumes "prepareVerification ps clk k ref params rd = Inr p" "applyVerification now p s = Inr (out, s')" "payment_inv s" "payment_le rd s"
  shows "payment_inv s' \<and> payment_le s s'"
  using apply_effect [OF assms(2) inv_keys(2) [OF assms(3)]]
proof (elim disjE exE conjE)
  fix r
  assume v: "verifies now (pp_attempt p) (pp_intent p) r s s'"
  note sh = prepare_shape [OF assms(1)]
  obtain a1 where a1: "a1 \<in> set (pm_attempts s)" "attempt_le (pp_attempt p) a1" using sh assms(4) by (auto simp: payment_le_def rows_le_def)
  obtain it1 where it1: "it1 \<in> set (pm_intents s)" "intent_le (pp_intent p) it1" using intent_later [OF assms(4)] sh by blast
  have "pi_id (pp_intent p) = pt_intent (pp_attempt p)" using sh by (auto simp: intent_at_def dest: row_atD)
  then show ?thesis by (rule verifies_inv [OF v assms(3) a1 it1])
qed (use assms(3) in simp_all)

section \<open>Refunds\<close>

lemma insert_refund_Inr:
  "insert_refund x s = Inr s' \<longleftrightarrow> 0 < rf_amount x \<and> (rf_order x, rf_key x) \<notin> (\<lambda>y. (rf_order y, rf_key y)) ` set (pm_refunds s) \<and>
     s' = s\<lparr>pm_refunds := pm_refunds s @ [x]\<rparr>"
  by (auto simp: insert_refund_def)

lemma within_captured_Inr:
  "assertWithinCaptured s it att kind orderId n = Inr u \<longleftrightarrow>
     n + committed (case kind of KindDuplicate \<Rightarrow> duplicate_of orderId (map_option pt_id att) | KindOrder \<Rightarrow> order_refund orderId) s
       \<le> captured_amount it att kind"
  by (auto simp: assertWithinCaptured_def Let_def)

lemma claim_effect:
  assumes "claim_refund inp n it att s = (r, s')"
  shows "s' = s \<and> (\<forall>i. r \<noteq> Inr (Claimed i))
    \<or> r = Inr (Claimed (pm_next s)) \<and> 0 < n \<and> refund_by_key (ri_order inp) (ri_key inp) s = None \<and>
       assertWithinCaptured s it att (request_kind inp) (ri_order inp) n = Inr () \<and>
       s' = s\<lparr>pm_next := Suc (pm_next s), pm_refunds := pm_refunds s @ [new_refund (pm_next s) inp n it att]\<rparr>"
proof (cases "refund_by_key (ri_order inp) (ri_key inp) s")
  case None
  show ?thesis
  proof (cases "bind_res (assertWithinCaptured s it att (request_kind inp) (ri_order inp) n) (\<lambda>_.
                insert_refund (new_refund (pm_next s) inp n it att) (s\<lparr>pm_next := Suc (pm_next s)\<rparr>))")
    case (Inl e)
    with assms None show ?thesis by (auto simp: claim_refund_def split: payment_error.splits)
  next
    case (Inr s1)
    then have "r = Inr (Claimed (pm_next s))" "s' = s1" using assms None by (simp_all add: claim_refund_def)
    moreover from Inr have "assertWithinCaptured s it att (request_kind inp) (ri_order inp) n = Inr ()"
      "insert_refund (new_refund (pm_next s) inp n it att) (s\<lparr>pm_next := Suc (pm_next s)\<rparr>) = Inr s1"
      by (simp_all add: bind_res_Inr)
    ultimately show ?thesis using None by (simp add: insert_refund_Inr new_refund_def)
  qed
qed (use assms in \<open>auto simp: claim_refund_def\<close>)

lemma refund_by_key_None:
  "refund_by_key o1 k1 s = None \<longleftrightarrow> (o1, k1) \<notin> (\<lambda>y. (rf_order y, rf_key y)) ` set (pm_refunds s)"
  by (auto simp: refund_by_key_def find_None_iff)

lemma committed_append:
  "committed P (s\<lparr>pm_next := m, pm_refunds := pm_refunds s @ [x]\<rparr>) =
     committed P s + (if P x \<and> rf_status x \<noteq> RefFailed then rf_amount x else 0)"
  by (simp add: committed_def)

lemma latest_SomeD: "latest k P t = Some a \<Longrightarrow> a \<in> set t \<and> P a"
proof -
  assume "latest k P t = Some a"
  then obtain xs where "rev (sort_key k (filter P t)) = a # xs" by (auto simp: latest_def split: list.splits)
  then have "a \<in> set (rev (sort_key k (filter P t)))" by (metis list.set_intros(1))
  then show ?thesis by simp
qed

lemma reads_shape:
  assumes "refund_reads inp rd = Inr (RefundPlan n it att)"
  shows "it \<in> set (pm_intents rd) \<and> pi_order it = ri_order inp \<and> pi_status it = IntSucceeded \<and>
    (\<forall>a. att = Some a \<longrightarrow> a \<in> set (pm_attempts rd))"
  using assms by (auto simp: refund_reads_def bind_res_Inr find_Some_iff attempt_at_def dest!: latest_SomeD row_atD split: option.splits)

lemma claim_inv:
  assumes "refund_reads inp rd = Inr (RefundPlan n it att)" "claim_refund inp n it att s = (r, s')" "payment_inv s" "payment_le rd s"
  shows "payment_inv s' \<and> payment_le s s'"
  using claim_effect [OF assms(2)]
proof (elim disjE conjE)
  let ?r = "new_refund (pm_next s) inp n it att"
  assume pos: "0 < n" and none: "refund_by_key (ri_order inp) (ri_key inp) s = None"
    and within: "assertWithinCaptured s it att (request_kind inp) (ri_order inp) n = Inr ()"
    and s': "s' = s\<lparr>pm_next := Suc (pm_next s), pm_refunds := pm_refunds s @ [?r]\<rparr>"
  note D = payment_invD [OF assms(3)] and sh = reads_shape [OF assms(1)]
  have it: "it \<in> set (pm_intents s)" using sh assms(4) by (auto simp: payment_le_def rows_le_def intent_le_def)
  have com: "committed P s' = committed P s + (if P ?r then n else 0)" for P
    by (simp add: s' committed_append new_refund_def)
  have ch: "charged s' i = charged s i" for i by (simp add: s' charged_def attempt_at_def)
  have "intent_ok s' x" if "x \<in> set (pm_intents s')" for x
  proof -
    from that have x: "x \<in> set (pm_intents s)" by (simp add: s')
    show ?thesis
    proof (cases "pi_status x = IntSucceeded \<and> order_refund (pi_order x) ?r")
      case True
      then have "x = it" using inv_one_live [OF assms(3) x it] sh by (auto simp: order_refund_def new_refund_def)
      with True within D(4) [OF x] com show ?thesis
        by (auto simp: intent_ok_def within_captured_Inr s' order_refund_def new_refund_def captured_amount_def)
    next
      case False
      with D(4) [OF x] com show ?thesis by (auto simp: intent_ok_def s')
    qed
  qed
  moreover have "committed (duplicate_of ord (Some i)) s' \<le> charged s' i" for ord i
  proof (cases "duplicate_of ord (Some i) ?r")
    case True
    then obtain a where k: "request_kind inp = KindDuplicate" "ord = ri_order inp" and a: "att = Some a" "pt_id a = i"
      by (auto simp: duplicate_of_def new_refund_def)
    obtain a' where a': "a' \<in> set (pm_attempts s)" "attempt_le a a'" using sh a assms(4) by (auto simp: payment_le_def rows_le_def)
    have "captured_amount it att KindDuplicate \<le> charged s i"
    proof (cases "pt_status a = AttSucceeded")
      case True
      with a' have aa: "a' = a" by (simp add: attempt_le_def)
      have "attempt_at s i = Some a" using tget_keyed [OF inv_keys(2) [OF assms(3)] a'(1)] aa a(2) by (simp add: attempt_at_def)
      with True D(3) [OF a'(1)] aa a show ?thesis by (simp add: captured_amount_def charged_def attempt_ok_def)
    next
      case False
      have "0 \<le> charged s i" using committed_nonneg [OF assms(3)] D(7) order_trans by blast
      with False a show ?thesis by (simp add: captured_amount_def)
    qed
    with within k a True com ch show ?thesis by (simp add: within_captured_Inr)
  next
    case False
    with D(7) com ch show ?thesis by simp
  qed
  moreover have "refund_ok s' x" if "x \<in> set (pm_refunds s')" for x
    using that D(5) D(9) [of "pm_next s"] pos it sh by (auto simp: s' refund_ok_def new_refund_def)
  moreover have "ids_ok s'" using D(1) by (auto simp: ids_ok_def s' keyed_append new_refund_def intro: less_SucI)
  moreover have "indexes_ok s'" using D(2) by (simp add: indexes_ok_def s')
  moreover have "attempt_ok s' a" if "a \<in> set (pm_attempts s')" for a using that D(3) by (simp add: s' attempt_ok_def)
  moreover have "distinct (map (\<lambda>r. (rf_order r, rf_key r)) (pm_refunds s'))"
    using D(6) none by (auto simp: s' refund_by_key_None new_refund_def)
  ultimately have "payment_inv s'"
    by (intro payment_invI) (use D(8,9) in \<open>simp_all add: s'\<close>)
  moreover have "payment_le s s'" by (simp add: payment_le_def s' intents.rows_refl attempts.rows_refl refunds.rows_append)
  ultimately show ?thesis by blast
qed (use assms(3) in simp)

definition completed :: "int \<Rightarrow> refund_status \<Rightarrow> string option \<Rightarrow> string option \<Rightarrow> payment_refund \<Rightarrow> payment_refund" where
  "completed now st ref code x = x\<lparr>rf_status := st, rf_providerReference := ref, rf_failureCode := code, rf_completedAt := Some now\<rparr>"

lemma completed_fun: "(\<lambda>x. x\<lparr>rf_status := st, rf_providerReference := ref, rf_failureCode := code, rf_completedAt := Some now\<rparr>) = completed now st ref code"
  by (simp add: fun_eq_iff completed_def)

lemma completeRefund_effect:
  assumes "completeRefund now i st ref code s = Inr s'" "keyed rf_id (pm_refunds s)"
  shows "s' = s \<or> (\<exists>x. refund_at s i = Some x \<and> rf_status x = RefPending \<and>
     s' = s\<lparr>pm_refunds := tupd (\<lambda>x. rf_id x = i \<and> rf_status x = RefPending) (completed now st ref code) (pm_refunds s),
            pm_outbox := pm_outbox s @ (if st = RefSucceeded
               then [RefundCompleted i (rf_intent x) (rf_order x) (rf_amount x) (rf_kind x) ref] else [])\<rparr>)"
proof (cases "taffected (\<lambda>x. rf_id x = i \<and> rf_status x = RefPending) (pm_refunds s) = 1")
  case False
  with assms(1) show ?thesis by (auto simp: completeRefund_def Let_def)
next
  case True
  obtain x where x: "refund_at s i = Some x" "rf_status x = RefPending"
    using True unfolding taffected_key_one [OF assms(2)] refund_at_def by blast
  let ?s1 = "s\<lparr>pm_refunds := tupd (\<lambda>x. rf_id x = i \<and> rf_status x = RefPending) (completed now st ref code) (pm_refunds s)\<rparr>"
  have i: "rf_id x = i" using x(1) by (auto simp: refund_at_def dest: row_atD)
  have keep: "rf_id (completed now st ref code y) = rf_id y" for y by (simp add: completed_def)
  have at: "refund_at ?s1 i = Some (completed now st ref code x)"
    using x i by (simp add: refund_at_def tget_tupd keep)
  have "Inr s' = (if st \<noteq> RefSucceeded then Inr ?s1 else Inr (emit_payment (RefundCompleted i (rf_intent x) (rf_order x) (rf_amount x) (rf_kind x) ref) ?s1))"
    using assms(1) True at i unfolding completeRefund_def Let_def completed_fun by (auto simp: completed_def split: if_splits)
  with x show ?thesis by (auto simp: emit_payment_def split: if_splits)
qed

lemma completeRefund_inv:
  assumes "completeRefund now i st ref code s = Inr s'" "payment_inv s"
  shows "payment_inv s' \<and> payment_le s s'"
  using completeRefund_effect [OF assms(1) inv_keys(3) [OF assms(2)]]
proof (elim disjE exE conjE)
  fix x :: payment_refund
  let ?P = "\<lambda>x. rf_id x = i \<and> rf_status x = RefPending" and ?f = "completed now st ref code"
  let ?ev = "if st = RefSucceeded then [RefundCompleted i (rf_intent x) (rf_order x) (rf_amount x) (rf_kind x) ref] else []"
  assume x: "refund_at s i = Some x" "rf_status x = RefPending"
    and s': "s' = s\<lparr>pm_refunds := tupd ?P ?f (pm_refunds s), pm_outbox := pm_outbox s @ ?ev\<rparr>"
  note D = payment_invD [OF assms(2)]
  have xin: "x \<in> set (pm_refunds s)" "rf_id x = i" using x(1) by (auto simp: refund_at_def dest: row_atD)
  have ev: "succeeded_events j (pm_outbox s') = succeeded_events j (pm_outbox s)"
    "refund_events j (pm_outbox s') = refund_events j (pm_outbox s) + (if j = i \<and> st = RefSucceeded then 1 else 0)" for j
    by (auto simp: s')
  have pos: "0 < rf_amount y" if "y \<in> set (pm_refunds s)" for y using D(5) [OF that] by (simp add: refund_ok_def)
  have com: "committed Q s' \<le> committed Q s" if Q: "\<And>y. Q (?f y) = Q y" for Q
    unfolding committed_if s'
    by (simp, rule sum_tupd_le) (use Q pos in \<open>auto simp: completed_def less_imp_le\<close>)
  have q: "order_refund ord (?f y) = order_refund ord y" "duplicate_of ord j (?f y) = duplicate_of ord j y" for ord j y
    by (simp_all add: order_refund_def duplicate_of_def completed_def)
  have "refund_ok s' y" if y: "y \<in> set (pm_refunds s')" for y
  proof -
    from y obtain z where z: "z \<in> set (pm_refunds s)" "y = (if ?P z then ?f z else z)" by (auto simp: s' set_tupd)
    have only: "z = x" if "rf_id z = i" using keyed_inj [OF inv_keys(3) [OF assms(2)] z(1) xin(1)] that xin(2) by simp
    have ok: "refund_ok s z" by (rule D(5) [OF z(1)])
    show ?thesis
    proof (cases "rf_id z = i")
      case True
      then have "y = ?f z" using z(2) only x(2) by simp
      then show ?thesis using ok only [OF True] x(2) True by (simp add: refund_ok_def completed_def ev) (simp add: s')
    next
      case False
      then have "y = z" using z(2) by auto
      then show ?thesis using ok False by (simp add: refund_ok_def ev) (simp add: s')
    qed
  qed
  moreover have "intent_ok s' y" if "y \<in> set (pm_intents s')" for y
  proof -
    from that have "intent_ok s y" using D(4) by (simp add: s')
    moreover have "committed (order_refund (pi_order y)) s' \<le> committed (order_refund (pi_order y)) s" by (rule com) (rule q(1))
    ultimately show ?thesis by (auto simp: intent_ok_def s' intro: order_trans)
  qed
  moreover have "attempt_ok s' a" if "a \<in> set (pm_attempts s')" for a
    using that D(3) by (simp add: attempt_ok_def ev) (simp add: s')
  moreover have "ids_ok s'" using D(1) by (auto simp: ids_ok_def s' keyed_tupd completed_def set_tupd)
  moreover have "indexes_ok s'" using D(2) by (simp add: indexes_ok_def s')
  moreover have "distinct (map (\<lambda>r. (rf_order r, rf_key r)) (pm_refunds s'))"
    using D(6) by (simp add: s' map_tupd_same completed_def)
  moreover have "committed (duplicate_of ord (Some j)) s' \<le> charged s' j" for ord j
  proof -
    have "committed (duplicate_of ord (Some j)) s' \<le> committed (duplicate_of ord (Some j)) s" by (rule com) (rule q(2))
    also have "\<dots> \<le> charged s j" by (rule D(7))
    finally show ?thesis by (simp add: charged_def attempt_at_def s')
  qed
  moreover have "i < pm_next s" using D(1) xin by (auto simp: ids_ok_def)
  ultimately have "payment_inv s'"
    by (intro payment_invI) (use D(8,9) in \<open>simp_all add: ev\<close>, simp_all add: s')
  moreover have "payment_le s s'"
    unfolding payment_le_def s'
    by (auto intro!: intents.rows_refl attempts.rows_refl refunds.rows_tupd simp: refund_le_def completed_def)
  ultimately show ?thesis by blast
qed (use assms(2) in simp)

lemma settle_inv:
  assumes "settle_refund now d i s = (r, s')" "payment_inv s"
  shows "payment_inv s' \<and> payment_le s s'"
proof -
  from assms(1) have "s' = s \<or> (\<exists>st ref code. completeRefund now i st ref code s = Inr s')"
    by (auto simp: settle_refund_def split: gateway_decision.splits sum.splits option.splits)
  then show ?thesis using assms(2) completeRefund_inv by auto
qed

section \<open>Histories\<close>

definition empty_payments :: payment_db where
  "empty_payments = \<lparr>pm_intents = [], pm_attempts = [], pm_refunds = [], pm_outbox = [], pm_next = 0\<rparr>"

inductive payment_history :: "payment_db list \<Rightarrow> bool" where
  hist_start: "payment_history [empty_payments]"
| hist_create: "payment_history h \<Longrightarrow> rd \<in> set h \<Longrightarrow> createIntentForOrder ps cfg ttl clk inp rd (hd h) = (ri, s') \<Longrightarrow> payment_history (s' # h)"
| hist_initiate: "payment_history h \<Longrightarrow> rd \<in> set h \<Longrightarrow> initiate ps clk i url descr rd (hd h) = (ra, s') \<Longrightarrow> payment_history (s' # h)"
| hist_verify: "payment_history h \<Longrightarrow> rd \<in> set h \<Longrightarrow> prepareVerification ps clk k ref params rd = Inr p \<Longrightarrow>
    applyVerification now p (hd h) = Inr (out, s') \<Longrightarrow> payment_history (s' # h)"
| hist_claim: "payment_history h \<Longrightarrow> rd \<in> set h \<Longrightarrow> refund_reads rinp rd = Inr (RefundPlan n it att) \<Longrightarrow>
    claim_refund rinp n it att (hd h) = (rc, s') \<Longrightarrow> payment_history (s' # h)"
| hist_settle: "payment_history h \<Longrightarrow> d = ask_gateway ps rinp n it att \<Longrightarrow> settle_refund now d i (hd h) = (rr, s') \<Longrightarrow>
    payment_history (s' # h)"

lemma empty_payments_inv: "payment_inv empty_payments"
  by (rule payment_invI)
     (simp_all add: empty_payments_def ids_ok_def indexes_ok_def uq_live_order_def uq_provider_reference_def uq_live_per_intent_def
       committed_def charged_def attempt_at_def)

definition history_ok :: "payment_db list \<Rightarrow> bool" where
  "history_ok h \<longleftrightarrow> h \<noteq> [] \<and> payment_inv (hd h) \<and> (\<forall>rd \<in> set h. payment_le rd (hd h))"

lemma history_ok_step:
  assumes "history_ok h" "\<And>s. s = hd h \<Longrightarrow> payment_inv s \<Longrightarrow> payment_inv s' \<and> payment_le s s'"
  shows "history_ok (s' # h)"
  using assms payment_le_trans unfolding history_ok_def by auto

lemma history_inv: "payment_history h \<Longrightarrow> history_ok h"
proof (induction rule: payment_history.induct)
  case hist_start
  show ?case by (simp add: history_ok_def empty_payments_inv)
next
  case (hist_create h rd ps cfg ttl clk inp ri s')
  from hist_create(4) show ?case by (rule history_ok_step) (rule create_intent_inv, use hist_create(3) in simp_all)
next
  case (hist_initiate h rd ps clk i url descr ra s')
  then have le: "payment_le rd (hd h)" by (simp add: history_ok_def)
  from hist_initiate(4) show ?case by (rule history_ok_step) (rule initiate_inv, use hist_initiate(3) le in simp_all)
next
  case (hist_verify h rd ps clk k ref params p now out s')
  then have le: "payment_le rd (hd h)" by (simp add: history_ok_def)
  from hist_verify(5) show ?case by (rule history_ok_step) (rule apply_inv, use hist_verify(3,4) le in simp_all)
next
  case (hist_claim h rd rinp n it att rc s')
  then have le: "payment_le rd (hd h)" by (simp add: history_ok_def)
  from hist_claim(5) show ?case by (rule history_ok_step) (rule claim_inv, use hist_claim(3,4) le in simp_all)
next
  case (hist_settle h d ps rinp n it att now i rr s')
  from hist_settle(4) show ?case by (rule history_ok_step) (rule settle_inv, use hist_settle(3) in simp_all)
qed

end
