(* ===== verification/Payment_Demo.thy ===== *)
theory Payment_Demo
  imports Payment_Invariant
begin

text \<open>
  A concrete history, run by evaluation: one order of 50,000 Toman whose customer opens the gateway twice. The
  second \<open>initiate\<close> read the intent before the first attempt was written and inserts after that attempt was paid,
  so both attempts are charged; the second charge is then returned as a duplicate.
\<close>

definition demo_paid :: verify_result where
  "demo_paid = \<lparr>vr_outcome = ProviderSucceeded, vr_paidAmount = Some (Fin 50000), vr_paidCurrency = Some ''IRT'',
     vr_transactionId = Some ''T'', vr_failureCode = None, vr_raw = None\<rparr>"

text \<open>A gateway that hands out the reference it is given and reports every payment as made.\<close>

definition demo_gateway :: "string \<Rightarrow> payment_provider" where
  "demo_gateway reference = \<lparr>pv_key = ''bank'', pv_gate = None, pv_autoRefund = True,
     pv_initiate = (\<lambda>_. Some \<lparr>ia_reference = reference, ia_redirectUrl = ''url''\<rparr>),
     pv_verify = (\<lambda>_. Answered demo_paid),
     pv_refund = (\<lambda>_. Some \<lparr>ra_succeeded = True, ra_reference = Some ''R'', ra_failureCode = None\<rparr>)\<rparr>"

definition demo_intent_input :: create_intent_input where
  "demo_intent_input = \<lparr>ci_order = 7, ci_customer = 3, ci_amount = Fin 50000, ci_provider = None\<rparr>"

definition pay_created :: payment_db where
  "pay_created = snd (createIntentForOrder [demo_gateway ''A''] None (Fin 1) 0 demo_intent_input empty_payments empty_payments)"

definition pay_first_open :: payment_db where
  "pay_first_open = snd (initiate [demo_gateway ''A''] 1 0 ''cb'' ''d'' pay_created pay_created)"

definition run_verification :: "string \<Rightarrow> int \<Rightarrow> payment_db \<Rightarrow> payment_db \<Rightarrow> payment_db" where
  "run_verification reference now rd s =
    (case prepareVerification [demo_gateway reference] now ''bank'' reference [] rd of
       Inl _ \<Rightarrow> s
     | Inr p \<Rightarrow> (case applyVerification now p s of Inl _ \<Rightarrow> s | Inr (_, s') \<Rightarrow> s'))"

definition pay_first_paid :: payment_db where
  "pay_first_paid = run_verification ''A'' 2 pay_first_open pay_first_open"

definition pay_second_open :: payment_db where
  "pay_second_open = snd (initiate [demo_gateway ''B''] 3 0 ''cb'' ''d'' pay_created pay_first_paid)"

definition pay_second_paid :: payment_db where
  "pay_second_paid = run_verification ''B'' 4 pay_second_open pay_second_open"

definition duplicate_input :: refund_input where
  "duplicate_input = \<lparr>ri_order = 7, ri_amount = Fin 50000, ri_reason = '''', ri_key = ''duplicate-charge:2'', ri_actor = ''system'',
     ri_kind = Some KindDuplicate, ri_attempt = Some 2\<rparr>"

definition order_refund_input :: "string \<Rightarrow> jsnum \<Rightarrow> refund_input" where
  "order_refund_input key amount = \<lparr>ri_order = 7, ri_amount = amount, ri_reason = '''', ri_key = key, ri_actor = ''system'',
     ri_kind = None, ri_attempt = None\<rparr>"

definition the_claim :: "refund_input \<Rightarrow> payment_db \<Rightarrow> payment_db" where
  "the_claim inp s = (case refund_reads inp s of Inr (RefundPlan n it att) \<Rightarrow> snd (claim_refund inp n it att s) | _ \<Rightarrow> s)"

definition pay_returning :: payment_db where
  "pay_returning = the_claim duplicate_input pay_second_paid"

text \<open>The seven states, by rewriting.\<close>

lemma demo_arith:
  "intent_expiry (Fin 1) 0 = 60000" "assertNonNegativeAmount (Fin 50000) l = Inr 50000" "assertAmount (Fin 50000) l = Inr 50000"
  "assertNonNegativeAmount (Fin 20000) l = Inr 20000" "assertNonNegativeAmount (Fin 60000) l = Inr 60000"
proof -
  have "fl 60000 = 60000" using fl_int [of 60000] by simp
  then show "intent_expiry (Fin 1) 0 = 60000" by (simp add: intent_expiry_def intentTtlMinutes_def)
  have v: "valid_amount 50000" "valid_amount 20000" "valid_amount 60000" by (simp_all add: valid_amount_def money_bounds)
  show a: "assertAmount (Fin 50000) l = Inr 50000" for l using assertAmount_Fin_int [of 50000 l] v by simp
  then show "assertNonNegativeAmount (Fin 50000) l = Inr 50000" for l by (simp add: assertNonNegativeAmount_def)
  show "assertNonNegativeAmount (Fin 20000) l = Inr 20000" for l
    using assertAmount_Fin_int [of 20000 l] v by (simp add: assertNonNegativeAmount_def)
  show "assertNonNegativeAmount (Fin 60000) l = Inr 60000" for l
    using assertAmount_Fin_int [of 60000 l] v by (simp add: assertNonNegativeAmount_def)
qed

definition demo_intent :: "intent_status \<Rightarrow> int option \<Rightarrow> payment_intent" where
  "demo_intent st paid = \<lparr>pi_id = 0, pi_order = 7, pi_customer = 3, pi_amount = 50000, pi_currency = ''IRT'',
     pi_status = st, pi_provider = ''bank'', pi_expiresAt = 60000, pi_succeededAt = paid, pi_failureCode = None\<rparr>"

definition demo_attempt :: "nat \<Rightarrow> string \<Rightarrow> payment_attempt" where
  "demo_attempt i reference = \<lparr>pt_id = i, pt_intent = 0, pt_provider = ''bank'', pt_reference = reference, pt_status = AttInitiated,
     pt_requested = 50000, pt_verified = None, pt_redirectUrl = Some ''url'', pt_transactionId = None, pt_failureCode = None,
     pt_response = None, pt_verifiedAt = None\<rparr>"

definition demo_settled :: "nat \<Rightarrow> string \<Rightarrow> int \<Rightarrow> payment_attempt" where
  "demo_settled i reference now = (demo_attempt i reference)\<lparr>pt_status := AttSucceeded, pt_verified := Some 50000,
     pt_transactionId := Some ''T'', pt_verifiedAt := Some now\<rparr>"

lemmas demo_rows = demo_intent_def demo_attempt_def demo_settled_def demo_gateway_def demo_paid_def

lemmas pay_eval = Let_def demo_arith demo_rows bind_res_def pay_money_def pay_registry_def findLiveIntentForOrder_def
  insert_intent_def uq_live_order_def live_intent_def LIVE_INTENT_STATUSES_def defaultProviderKey_def enabledKeys_def provider_enabled_def
  registry_get_def demo_intent_input_def intent_at_def attempt_at_def open_redirect_def findOpenAttemptForIntent_def latest_def
  start_attempt_def new_attempt_def uq_provider_reference_def uq_live_per_intent_def emit_payment_def tupd_def tget_def taffected_def

lemma pay_created_value:
  "createIntentForOrder [demo_gateway ''A''] None (Fin 1) 0 demo_intent_input empty_payments empty_payments = (Inr (demo_intent IntCreated None), pay_created)"
  "pay_created = \<lparr>pm_intents = [demo_intent IntCreated None], pm_attempts = [], pm_refunds = [], pm_outbox = [], pm_next = 1\<rparr>"
  by (simp_all add: pay_created_def createIntentForOrder_def empty_payments_def pay_eval)

lemma pay_first_open_value:
  "initiate [demo_gateway ''A''] 1 0 ''cb'' ''d'' pay_created pay_created =
     (Inr \<lparr>ir_intent = demo_intent IntPending None, ir_attempt = demo_attempt 1 ''A'', ir_redirectUrl = ''url''\<rparr>, pay_first_open)"
  "pay_first_open = \<lparr>pm_intents = [demo_intent IntPending None], pm_attempts = [demo_attempt 1 ''A''], pm_refunds = [],
     pm_outbox = [PaymentInitiated 0 1 7 ''bank'' 50000], pm_next = 2\<rparr>"
  by (simp_all add: pay_first_open_def pay_created_value(2) initiate_def pay_eval)

lemma demo_prepare:
  assumes "find (\<lambda>x. pt_provider x = ''bank'' \<and> pt_reference x = ref) (pm_attempts s) = Some (demo_attempt i ref)"
    "intent_at s 0 = Some (demo_intent st paid)" "clk < 60000"
  shows "prepareVerification [demo_gateway ref] clk ''bank'' ref [] s =
    Inr \<lparr>pp_attempt = demo_attempt i ref, pp_intent = demo_intent st paid, pp_result = Some demo_paid, pp_alreadyProcessed = False\<rparr>"
proof -
  have "pt_status (demo_attempt i ref) = AttInitiated" "pt_intent (demo_attempt i ref) = 0" "pt_provider (demo_attempt i ref) = ''bank''"
    "pi_expiresAt (demo_intent st paid) = 60000" by (simp_all add: demo_rows)
  with assms show ?thesis
    by (simp add: prepareVerification_def registry_get_def demo_gateway_def provider_enabled_def resolve_answer_def)
qed

lemma demo_confirmed: "charge_confirmed (demo_intent st paid) demo_paid" "verification_failure (demo_intent st paid) demo_paid = None"
  "verified_column (vr_paidAmount demo_paid) = Inr (Some 50000)" "vr_outcome demo_paid = ProviderSucceeded"
  by (simp_all add: charge_confirmed_def verification_failure_def fitToColumn_def demo_rows fin_int_def verified_column_def
       demo_arith bind_res_def pay_money_def)

lemma demo_settle: "settle_attempt now (demo_intent st paid) demo_paid (Some 50000) (demo_attempt i ref) = demo_settled i ref now"
  by (simp add: settle_attempt_def demo_confirmed demo_rows fitToColumn_def sanitizeProviderResponse_def demo_confirmed [unfolded demo_rows])

lemma demo_prepared:
  "prepareVerification [demo_gateway ''A''] 2 ''bank'' ''A'' [] pay_first_open = Inr \<lparr>pp_attempt = demo_attempt 1 ''A'',
     pp_intent = demo_intent IntPending None, pp_result = Some demo_paid, pp_alreadyProcessed = False\<rparr>"
  by (rule demo_prepare) (simp_all add: pay_first_open_value(2) intent_at_def tget_def demo_rows)

lemma demo_apply:
  assumes "pm_attempts s = pre @ [demo_attempt i ref]" "pm_intents s = [demo_intent st paid]" "\<forall>x \<in> set pre. pt_id x \<noteq> i"
  shows "\<exists>out. applyVerification now \<lparr>pp_attempt = demo_attempt i ref, pp_intent = demo_intent st paid, pp_result = Some demo_paid,
       pp_alreadyProcessed = False\<rparr> s = Inr (out, s\<lparr>pm_attempts := pre @ [demo_settled i ref now],
         pm_intents := [if st \<in> {IntCreated, IntPending} then demo_intent IntSucceeded (Some now) else demo_intent st paid],
         pm_outbox := pm_outbox s @ [PaymentSucceeded 0 i 7 3 50000 (Some ''T'')]\<rparr>) \<and> vo_status out = VerSucceeded"
proof -
  let ?P = "\<lambda>x. pt_id x = i \<and> pt_status x = AttInitiated"
  have pre: "filter ?P pre = []" "tupd ?P f pre = pre" for f using assms(3) by (auto simp: filter_empty_conv tupd_none)
  have id: "pt_id (demo_attempt i ref) = i" "pt_status (demo_attempt i ref) = AttInitiated" "pi_id (demo_intent st paid) = 0"
    "pi_status (demo_intent st paid) = st" by (simp_all add: demo_rows)
  have "taffected ?P (pm_attempts s) = 1" using pre(1) id assms(1) by (simp add: taffected_def)
  moreover have "tupd ?P (settle_attempt now (demo_intent st paid) demo_paid (Some 50000)) (pm_attempts s) = pre @ [demo_settled i ref now]"
    using pre(2) id assms(1) demo_settle by (simp add: tupd_def)
  moreover have "tupd (\<lambda>x. pi_id x = 0 \<and> pi_status x \<in> {IntCreated, IntPending}) (settle_intent now (demo_intent st paid) demo_paid) (pm_intents s) =
      [if st \<in> {IntCreated, IntPending} then demo_intent IntSucceeded (Some now) else demo_intent st paid]"
    using assms(2) id demo_confirmed by (simp add: tupd_def settle_intent_def) (simp add: demo_intent_def)
  moreover have "verification_event (demo_attempt i ref) (demo_intent st paid) demo_paid = PaymentSucceeded 0 i 7 3 50000 (Some ''T'')"
    using demo_confirmed by (simp add: verification_event_def) (simp add: demo_rows)
  ultimately show ?thesis using demo_confirmed id
    by (auto simp: applyVerification_def Let_def emit_payment_def outcome_of_def)
qed

lemma pay_first_paid_value:
  "\<exists>out. applyVerification 2 \<lparr>pp_attempt = demo_attempt 1 ''A'', pp_intent = demo_intent IntPending None, pp_result = Some demo_paid,
       pp_alreadyProcessed = False\<rparr> pay_first_open = Inr (out, pay_first_paid) \<and> vo_status out = VerSucceeded"
  "pay_first_paid = \<lparr>pm_intents = [demo_intent IntSucceeded (Some 2)], pm_attempts = [demo_settled 1 ''A'' 2], pm_refunds = [],
     pm_outbox = [PaymentInitiated 0 1 7 ''bank'' 50000, PaymentSucceeded 0 1 7 3 50000 (Some ''T'')], pm_next = 2\<rparr>"
proof -
  obtain out where o: "applyVerification 2 \<lparr>pp_attempt = demo_attempt 1 ''A'', pp_intent = demo_intent IntPending None, pp_result = Some demo_paid,
       pp_alreadyProcessed = False\<rparr> pay_first_open = Inr (out, pay_first_open\<lparr>pm_attempts := [] @ [demo_settled 1 ''A'' 2],
         pm_intents := [if IntPending \<in> {IntCreated, IntPending} then demo_intent IntSucceeded (Some 2) else demo_intent IntPending None],
         pm_outbox := pm_outbox pay_first_open @ [PaymentSucceeded 0 1 7 3 50000 (Some ''T'')]\<rparr>)" "vo_status out = VerSucceeded"
    using demo_apply [of pay_first_open "[]" 1 "''A''" IntPending None 2] by (auto simp: pay_first_open_value(2))
  then have v: "pay_first_paid = pay_first_open\<lparr>pm_attempts := [] @ [demo_settled 1 ''A'' 2], pm_intents := [demo_intent IntSucceeded (Some 2)],
         pm_outbox := pm_outbox pay_first_open @ [PaymentSucceeded 0 1 7 3 50000 (Some ''T'')]\<rparr>"
    by (simp add: pay_first_paid_def run_verification_def demo_prepared)
  with o show "\<exists>out. applyVerification 2 \<lparr>pp_attempt = demo_attempt 1 ''A'', pp_intent = demo_intent IntPending None, pp_result = Some demo_paid,
       pp_alreadyProcessed = False\<rparr> pay_first_open = Inr (out, pay_first_paid) \<and> vo_status out = VerSucceeded" by auto
  show "pay_first_paid = \<lparr>pm_intents = [demo_intent IntSucceeded (Some 2)], pm_attempts = [demo_settled 1 ''A'' 2], pm_refunds = [],
     pm_outbox = [PaymentInitiated 0 1 7 ''bank'' 50000, PaymentSucceeded 0 1 7 3 50000 (Some ''T'')], pm_next = 2\<rparr>"
    by (simp add: v pay_first_open_value(2))
qed

lemma pay_second_open_value:
  "\<exists>r. initiate [demo_gateway ''B''] 3 0 ''cb'' ''d'' pay_created pay_first_paid = (Inr r, pay_second_open)"
  "pay_second_open = \<lparr>pm_intents = [demo_intent IntSucceeded (Some 2)], pm_attempts = [demo_settled 1 ''A'' 2, demo_attempt 2 ''B''],
     pm_refunds = [], pm_outbox = [PaymentInitiated 0 1 7 ''bank'' 50000, PaymentSucceeded 0 1 7 3 50000 (Some ''T''),
       PaymentInitiated 0 2 7 ''bank'' 50000], pm_next = 3\<rparr>"
  by (simp_all add: pay_second_open_def pay_created_value(2) pay_first_paid_value(2) initiate_def pay_eval)

lemma pay_second_paid_value:
  "\<exists>p out. prepareVerification [demo_gateway ''B''] 4 ''bank'' ''B'' [] pay_second_open = Inr p \<and>
     applyVerification 4 p pay_second_open = Inr (out, pay_second_paid)"
  "pay_second_paid = \<lparr>pm_intents = [demo_intent IntSucceeded (Some 2)], pm_attempts = [demo_settled 1 ''A'' 2, demo_settled 2 ''B'' 4],
     pm_refunds = [], pm_outbox = [PaymentInitiated 0 1 7 ''bank'' 50000, PaymentSucceeded 0 1 7 3 50000 (Some ''T''),
       PaymentInitiated 0 2 7 ''bank'' 50000, PaymentSucceeded 0 2 7 3 50000 (Some ''T'')], pm_next = 3\<rparr>"
proof -
  let ?p = "\<lparr>pp_attempt = demo_attempt 2 ''B'', pp_intent = demo_intent IntSucceeded (Some 2), pp_result = Some demo_paid, pp_alreadyProcessed = False\<rparr>"
  have prep: "prepareVerification [demo_gateway ''B''] 4 ''bank'' ''B'' [] pay_second_open = Inr ?p"
    by (rule demo_prepare) (simp_all add: pay_second_open_value(2) intent_at_def tget_def demo_rows)
  obtain out where o: "applyVerification 4 ?p pay_second_open = Inr (out, pay_second_open\<lparr>pm_attempts := [demo_settled 1 ''A'' 2] @ [demo_settled 2 ''B'' 4],
         pm_intents := [if IntSucceeded \<in> {IntCreated, IntPending} then demo_intent IntSucceeded (Some 4) else demo_intent IntSucceeded (Some 2)],
         pm_outbox := pm_outbox pay_second_open @ [PaymentSucceeded 0 2 7 3 50000 (Some ''T'')]\<rparr>)"
    using demo_apply [of pay_second_open "[demo_settled 1 ''A'' 2]" 2 "''B''" IntSucceeded "Some 2" 4]
    by (auto simp: pay_second_open_value(2) demo_rows)
  then have v: "pay_second_paid = pay_second_open\<lparr>pm_attempts := [demo_settled 1 ''A'' 2] @ [demo_settled 2 ''B'' 4],
         pm_intents := [demo_intent IntSucceeded (Some 2)],
         pm_outbox := pm_outbox pay_second_open @ [PaymentSucceeded 0 2 7 3 50000 (Some ''T'')]\<rparr>"
    by (simp add: pay_second_paid_def run_verification_def prep)
  with o prep show "\<exists>p out. prepareVerification [demo_gateway ''B''] 4 ''bank'' ''B'' [] pay_second_open = Inr p \<and>
     applyVerification 4 p pay_second_open = Inr (out, pay_second_paid)" by auto
  show "pay_second_paid = \<lparr>pm_intents = [demo_intent IntSucceeded (Some 2)], pm_attempts = [demo_settled 1 ''A'' 2, demo_settled 2 ''B'' 4],
     pm_refunds = [], pm_outbox = [PaymentInitiated 0 1 7 ''bank'' 50000, PaymentSucceeded 0 1 7 3 50000 (Some ''T''),
       PaymentInitiated 0 2 7 ''bank'' 50000, PaymentSucceeded 0 2 7 3 50000 (Some ''T'')], pm_next = 3\<rparr>"
    by (simp add: v pay_second_open_value(2))
qed

lemma demo_second_history: "payment_history [pay_second_paid, pay_second_open, pay_first_paid, pay_first_open, pay_created, empty_payments]"
proof -
  have h1: "payment_history [pay_created, empty_payments]"
    by (rule hist_create [OF hist_start, of empty_payments]) (use pay_created_value(1) in simp_all)
  have h2: "payment_history [pay_first_open, pay_created, empty_payments]"
    by (rule hist_initiate [OF h1, of pay_created]) (use pay_first_open_value(1) in simp_all)
  obtain out where "applyVerification 2 \<lparr>pp_attempt = demo_attempt 1 ''A'', pp_intent = demo_intent IntPending None, pp_result = Some demo_paid,
       pp_alreadyProcessed = False\<rparr> pay_first_open = Inr (out, pay_first_paid)" using pay_first_paid_value(1) by blast
  then have h3: "payment_history [pay_first_paid, pay_first_open, pay_created, empty_payments]"
    by (intro hist_verify [OF h2, of pay_first_open, OF _ demo_prepared]) simp_all
  obtain r where "initiate [demo_gateway ''B''] 3 0 ''cb'' ''d'' pay_created pay_first_paid = (Inr r, pay_second_open)"
    using pay_second_open_value(1) by blast
  then have h4: "payment_history [pay_second_open, pay_first_paid, pay_first_open, pay_created, empty_payments]"
    by (intro hist_initiate [OF h3, of pay_created]) simp_all
  obtain p out where "prepareVerification [demo_gateway ''B''] 4 ''bank'' ''B'' [] pay_second_open = Inr p"
    "applyVerification 4 p pay_second_open = Inr (out, pay_second_paid)" using pay_second_paid_value(1) by blast
  then show ?thesis by (intro hist_verify [OF h4, of pay_second_open]) simp_all
qed

section \<open>The second charge is returned\<close>

lemma pay_returning_value:
  "refund_reads duplicate_input pay_second_paid = Inr (RefundPlan 50000 (demo_intent IntSucceeded (Some 2)) (Some (demo_settled 2 ''B'' 4)))"
  "claim_refund duplicate_input 50000 (demo_intent IntSucceeded (Some 2)) (Some (demo_settled 2 ''B'' 4)) pay_second_paid =
     (Inr (Claimed 3), pay_returning)"
  "pay_returning = pay_second_paid\<lparr>pm_next := 4,
     pm_refunds := [new_refund 3 duplicate_input 50000 (demo_intent IntSucceeded (Some 2)) (Some (demo_settled 2 ''B'' 4))]\<rparr>"
proof -
  show r: "refund_reads duplicate_input pay_second_paid = Inr (RefundPlan 50000 (demo_intent IntSucceeded (Some 2)) (Some (demo_settled 2 ''B'' 4)))"
    by (simp add: refund_reads_def duplicate_input_def demo_arith refund_by_key_def pay_second_paid_value(2) attempt_at_def tget_def demo_rows)
  have c: "claim_refund duplicate_input 50000 (demo_intent IntSucceeded (Some 2)) (Some (demo_settled 2 ''B'' 4)) pay_second_paid =
     (Inr (Claimed 3), pay_second_paid\<lparr>pm_next := 4,
       pm_refunds := [new_refund 3 duplicate_input 50000 (demo_intent IntSucceeded (Some 2)) (Some (demo_settled 2 ''B'' 4))]\<rparr>)"
    by (simp add: claim_refund_def refund_by_key_def pay_second_paid_value(2) assertWithinCaptured_def request_kind_def duplicate_input_def
         captured_amount_def committed_def insert_refund_def new_refund_def demo_rows)
  from r c show "pay_returning = pay_second_paid\<lparr>pm_next := 4,
     pm_refunds := [new_refund 3 duplicate_input 50000 (demo_intent IntSucceeded (Some 2)) (Some (demo_settled 2 ''B'' 4))]\<rparr>"
    by (simp add: pay_returning_def the_claim_def)
  with c show "claim_refund duplicate_input 50000 (demo_intent IntSucceeded (Some 2)) (Some (demo_settled 2 ''B'' 4)) pay_second_paid =
     (Inr (Claimed 3), pay_returning)" by simp
qed

lemma demo_returning_history:
  "payment_history [pay_returning, pay_second_paid, pay_second_open, pay_first_paid, pay_first_open, pay_created, empty_payments]"
  by (rule hist_claim [OF demo_second_history, of pay_second_paid, OF _ pay_returning_value(1)]) (use pay_returning_value(2) in simp_all)

section \<open>An intent that expires during the verification of its payment\<close>

definition pay_expired :: payment_db where
  "pay_expired = pay_first_open\<lparr>pm_intents := [demo_intent IntExpired None]\<rparr>"

lemma pay_expired_step: "initiate [demo_gateway ''A''] 70000 0 ''cb'' ''d'' pay_first_open pay_first_open = (Inl (IntentNotPayable ''expired''), pay_expired)"
  by (simp add: initiate_def pay_first_open_value(2) pay_expired_def expire_intent_def pay_eval)

lemma demo_expired_history: "payment_history [pay_expired, pay_first_open, pay_created, empty_payments]"
proof -
  have "payment_history [pay_created, empty_payments]"
    by (rule hist_create [OF hist_start, of empty_payments]) (use pay_created_value(1) in simp_all)
  then have "payment_history [pay_first_open, pay_created, empty_payments]"
    by (rule hist_initiate [of _ pay_created]) (use pay_first_open_value(1) in simp_all)
  then show ?thesis by (rule hist_initiate [of _ pay_first_open]) (use pay_expired_step in simp_all)
qed

end
