(* ===== verification/Payment_Properties.thy ===== *)
theory Payment_Properties
  imports Payment_Demo
begin

text \<open>
  The properties of the payment service: what every interleaving of its operations keeps, that a gateway answer
  is recorded once and only for the agreed charge, the exact ceiling of a refund, and two interleavings in which
  money that was taken cannot be given back.
\<close>

section \<open>Later states\<close>

lemma history_tail: "payment_history (xs @ h) \<Longrightarrow> h \<noteq> [] \<Longrightarrow> payment_history h"
proof (induction xs)
  case (Cons x xs)
  from Cons.prems(1) have "payment_history (xs @ h)"
    by (cases rule: payment_history.cases) (use Cons.prems(2) in auto)
  with Cons show ?case by simp
qed simp

lemma history_le:
  assumes "payment_history (xs @ s # h)"
  shows "payment_le s (hd (xs @ s # h))"
proof -
  have "s \<in> set (xs @ s # h)" by simp
  then show ?thesis using history_inv [OF assms] unfolding history_ok_def by blast
qed

lemma history_current: "payment_history h \<Longrightarrow> payment_inv (hd h)"
  using history_inv by (simp add: history_ok_def)

lemma history_read: "payment_history h \<Longrightarrow> rd \<in> set h \<Longrightarrow> payment_le rd (hd h)"
  using history_inv unfolding history_ok_def by blast

lemma find_unique:
  assumes "x \<in> set t" "P x" "\<And>y. y \<in> set t \<Longrightarrow> P y \<Longrightarrow> y = x"
  shows "find P t = Some x"
proof (cases "find P t")
  case None
  with assms(1,2) show ?thesis by (simp add: find_None_iff)
next
  case (Some y)
  then obtain i where "i < length t" "P (t ! i)" "y = t ! i" by (auto simp: find_Some_iff)
  with assms(3) [of y] Some show ?thesis by simp
qed

text \<open>A settled attempt keeps its row, so its next callback finds nothing to claim.\<close>

lemma settled_no_effect:
  assumes "applyVerification now p s = Inr (out, s')" "payment_inv s" "attempt_at s (pt_id (pp_attempt p)) = Some c" "pt_status c \<noteq> AttInitiated"
  shows "s' = s \<and> vo_status out \<in> {VerReplayed, VerUnresolved}"
  using apply_effect [OF assms(1) inv_keys(2) [OF assms(2)]]
proof (elim disjE exE conjE)
  fix r
  assume "verifies now (pp_attempt p) (pp_intent p) r s s'"
  with assms(3,4) show ?thesis by (simp add: verifies_def)
qed simp

lemma verified_row:
  assumes "verifies now a it r s s'" "keyed pt_id (pm_attempts s)"
  shows "\<exists>c. attempt_at s' (pt_id a) = Some c \<and> pt_status c = (if charge_confirmed it r then AttSucceeded else AttFailed)"
proof -
  from assms(1) obtain a0 v where a0: "attempt_at s (pt_id a) = Some a0" "pt_status a0 = AttInitiated"
    and s': "pm_attempts s' = tupd (\<lambda>x. pt_id x = pt_id a \<and> pt_status x = AttInitiated) (settle_attempt now it r v) (pm_attempts s)"
    by (auto simp: verifies_def)
  have k: "pt_id (settle_attempt now it r v x) = pt_id x" for x by (simp add: settle_attempt_def)
  have "pt_id a0 = pt_id a" using a0(1) by (auto simp: attempt_at_def dest: row_atD)
  with a0 show ?thesis by (simp add: attempt_at_def s' tget_tupd k settle_attempt_def)
qed

section \<open>Properties\<close>

text \<open>C15: In every interleaving of payment operations, each reading any earlier committed state: an order has at
  most one live intent and an intent at most one open attempt; a paid attempt was verified for exactly the amount
  of its intent and announced exactly once; what refunds of an order have committed never exceeds what its paid
  intent captured, and what duplicate-charge refunds of an attempt have committed never exceeds what that attempt
  charged; a completed refund is announced exactly once, and no other refund is.\<close>

theorem payments_stay_within_captured:
  assumes "payment_history h"
  shows "uq_live_order (pm_intents (hd h)) \<and> uq_live_per_intent (pm_attempts (hd h)) \<and>
    (\<forall>a \<in> set (pm_attempts (hd h)).
       (pt_status a = AttSucceeded \<longrightarrow> (\<exists>it. intent_at (hd h) (pt_intent a) = Some it \<and> pt_verified a = Some (pi_amount it))) \<and>
       succeeded_events (pt_id a) (pm_outbox (hd h)) = (if pt_status a = AttSucceeded then 1 else 0)) \<and>
    (\<forall>it \<in> set (pm_intents (hd h)). pi_status it = IntSucceeded \<longrightarrow> committed (order_refund (pi_order it)) (hd h) \<le> pi_amount it) \<and>
    (\<forall>orderId i. committed (duplicate_of orderId (Some i)) (hd h) \<le> charged (hd h) i) \<and>
    (\<forall>r \<in> set (pm_refunds (hd h)). refund_events (rf_id r) (pm_outbox (hd h)) = (if rf_status r = RefSucceeded then 1 else 0))"
proof -
  note inv = history_current [OF assms]
  note D = payment_invD [OF inv]
  have "\<exists>it. intent_at (hd h) (pt_intent a) = Some it \<and> pt_verified a = Some (pi_amount it)"
    if a: "a \<in> set (pm_attempts (hd h))" "pt_status a = AttSucceeded" for a
  proof -
    obtain it where "it \<in> set (pm_intents (hd h))" "pi_id it = pt_intent a" "pt_requested a = pi_amount it"
      "pt_verified a = Some (pt_requested a)"
      using D(3) [OF a(1)] a(2) by (auto simp: attempt_ok_def)
    then show ?thesis unfolding intent_at_def keyed_tget_iff [OF inv_keys(1) [OF inv]] by auto
  qed
  then show ?thesis
    using D(2-5,7) by (auto simp: indexes_ok_def attempt_ok_def intent_ok_def refund_ok_def)
qed

theorem payments_stay_within_captured_witness:
  "payment_history [pay_second_paid, pay_second_open, pay_first_paid, pay_first_open, pay_created, empty_payments] \<and>
   succeeded_events 1 (pm_outbox pay_second_paid) = 1 \<and> pi_amount (demo_intent IntSucceeded (Some 2)) = 50000 \<and>
   committed (order_refund 7) pay_second_paid \<le> 50000"
proof -
  have m: "demo_intent IntSucceeded (Some 2) \<in> set (pm_intents pay_second_paid)" "demo_settled 1 ''A'' 2 \<in> set (pm_attempts pay_second_paid)"
    by (simp_all add: pay_second_paid_value(2))
  have v: "pi_status (demo_intent IntSucceeded (Some 2)) = IntSucceeded" "pi_order (demo_intent IntSucceeded (Some 2)) = 7"
    "pi_amount (demo_intent IntSucceeded (Some 2)) = 50000" "pt_id (demo_settled 1 ''A'' 2) = 1" "pt_status (demo_settled 1 ''A'' 2) = AttSucceeded"
    by (simp_all add: demo_rows)
  from payments_stay_within_captured [OF demo_second_history] m v demo_second_history show ?thesis by (auto dest!: bspec)
qed

text \<open>C16: A gateway answer is recorded once, and as a charge only when it is exactly the agreed one. The callback
  that closes an attempt reports success precisely when the gateway confirmed the intent's amount in the intent's
  currency; from then on every callback of that attempt, prepared at any time before or after, is a replay (or an
  answer still unresolved) and changes nothing.\<close>

theorem verification_recorded_once:
  assumes "payment_history (xs @ s' # h)" "h \<noteq> []" "rd \<in> set h" "prepareVerification ps clk key ref params rd = Inr p"
    "applyVerification now p (hd h) = Inr (out, s')" "vo_status out \<in> {VerSucceeded, VerFailed}"
    "rd2 \<in> set (xs @ s' # h)" "prepareVerification ps2 clk2 key ref params2 rd2 = Inr p2" "pt_id (pp_attempt p2) = pt_id (pp_attempt p)"
    "applyVerification now2 p2 (hd (xs @ s' # h)) = Inr (out2, s2)"
  shows "(\<exists>r. pp_result p = Some r \<and> (vo_status out = VerSucceeded \<longleftrightarrow> charge_confirmed (pp_intent p) r)) \<and>
    s2 = hd (xs @ s' # h) \<and> vo_status out2 \<in> {VerReplayed, VerUnresolved}"
proof -
  have hh: "payment_history h" by (rule history_tail [of "xs @ [s']"]) (use assms(1,2) in simp_all)
  note inv = history_current [OF hh]
  from apply_effect [OF assms(5) inv_keys(2) [OF inv]] assms(6) obtain r where r: "pp_result p = Some r"
    and v: "verifies now (pp_attempt p) (pp_intent p) r (hd h) s'"
    and st: "vo_status out = (if charge_confirmed (pp_intent p) r then VerSucceeded else VerFailed)" by auto
  obtain c where c: "attempt_at s' (pt_id (pp_attempt p)) = Some c" "pt_status c \<noteq> AttInitiated"
    using verified_row [OF v inv_keys(2) [OF inv]] by auto
  let ?s = "hd (xs @ s' # h)"
  note inv2 = history_current [OF assms(1)]
  have "c \<in> set (pm_attempts s')" "pt_id c = pt_id (pp_attempt p)" using c(1) by (auto simp: attempt_at_def dest: row_atD)
  then have "c \<in> set (pm_attempts ?s)"
    using history_le [OF assms(1)] c(2) by (auto simp: payment_le_def rows_le_def attempt_le_def)
  then have "attempt_at ?s (pt_id (pp_attempt p2)) = Some c"
    unfolding attempt_at_def keyed_tget_iff [OF inv_keys(2) [OF inv2]] using \<open>pt_id c = pt_id (pp_attempt p)\<close> assms(9) by simp
  from settled_no_effect [OF assms(10) inv2 this c(2)] r st show ?thesis by auto
qed

theorem verification_recorded_once_witness:
  "\<exists>p out out2. prepareVerification [demo_gateway ''A''] 2 ''bank'' ''A'' [] pay_first_open = Inr p \<and>
     applyVerification 2 p pay_first_open = Inr (out, pay_first_paid) \<and> vo_status out = VerSucceeded \<and>
     applyVerification 9 p pay_first_paid = Inr (out2, pay_first_paid) \<and> vo_status out2 \<in> {VerReplayed, VerUnresolved}"
proof -
  let ?p = "\<lparr>pp_attempt = demo_attempt 1 ''A'', pp_intent = demo_intent IntPending None, pp_result = Some demo_paid, pp_alreadyProcessed = False\<rparr>"
  obtain out where o: "applyVerification 2 ?p pay_first_open = Inr (out, pay_first_paid)" "vo_status out = VerSucceeded"
    using pay_first_paid_value(1) by blast
  have h: "payment_history ([] @ pay_first_paid # [pay_first_open, pay_created, empty_payments])"
    by (rule history_tail [of "[pay_second_paid, pay_second_open]"]) (use demo_second_history in simp_all)
  obtain out2 s2 where o2: "applyVerification 9 ?p pay_first_paid = Inr (out2, s2)"
  proof -
    have "attempt_at pay_first_paid 1 = Some (demo_settled 1 ''A'' 2)" "pt_id (demo_attempt 1 ''A'') = 1"
      by (simp_all add: pay_first_paid_value(2) attempt_at_def tget_def demo_rows)
    moreover have "taffected (\<lambda>x. pt_id x = 1 \<and> pt_status x = AttInitiated) (pm_attempts pay_first_paid) = 0"
      by (simp add: pay_first_paid_value(2) taffected_def demo_rows)
    ultimately show ?thesis using that demo_confirmed by (simp add: applyVerification_def Let_def)
  qed
  from verification_recorded_once [OF h _ _ demo_prepared, of 2 out pay_first_open "[demo_gateway ''A'']" 2 "[]" ?p 9 out2 s2] o o2 demo_prepared
  show ?thesis by auto
qed

text \<open>The ceiling of an order refund is exact under any interleaving. Once the reads of a refund found the paid
  intent, its transaction, run on any later state, either replays the refund its key already wrote, or reserves
  the amount precisely when it is at most the captured amount less everything already committed, or fails with
  exactly that remainder; a refund of nothing is rejected by the database; failures change nothing, and a
  reserved refund is replayed by every later request of its key.\<close>

theorem refund_ceiling_exact:
  assumes "payment_history h" "rd \<in> set h" "refund_reads inp rd = Inr (RefundPlan n it att)" "request_kind inp = KindOrder"
  shows "claim_refund inp n it att (hd h) =
    (case refund_by_key (ri_order inp) (ri_key inp) (hd h) of
       Some r \<Rightarrow> (Inr (ClaimReplay r), hd h)
     | None \<Rightarrow> (let remaining = pi_amount it - committed (order_refund (ri_order inp)) (hd h) in
         if remaining < n then (Inl (RefundExceedsCaptured n remaining), hd h)
         else if n = 0 then (Inl PayCheckViolation, hd h)
         else (Inr (Claimed (pm_next (hd h))), (hd h)\<lparr>pm_next := Suc (pm_next (hd h)),
                 pm_refunds := pm_refunds (hd h) @ [new_refund (pm_next (hd h)) inp n it att]\<rparr>))) \<and>
    0 \<le> pi_amount it - committed (order_refund (ri_order inp)) (hd h) \<and>
    (\<forall>i s' providers now. claim_refund inp n it att (hd h) = (Inr (Claimed i), s') \<longrightarrow>
       refund providers now inp s' s' = (Inr (new_refund i inp n it att), s'))"
proof -
  let ?s = "hd h" and ?k = "refund_by_key (ri_order inp) (ri_key inp) (hd h)"
  note inv = history_current [OF assms(1)] and sh = reads_shape [OF assms(3)]
  have it: "it \<in> set (pm_intents ?s)"
    using sh history_read [OF assms(1,2)] by (auto simp: payment_le_def rows_le_def intent_le_def)
  have rem: "0 \<le> pi_amount it - committed (order_refund (ri_order inp)) ?s"
    using payment_invD(4) [OF inv it] sh by (auto simp: intent_ok_def)
  from assms(3) obtain l where amount: "assertNonNegativeAmount (ri_amount inp) l = Inr n"
    by (auto simp: refund_reads_def bind_res_Inr split: option.splits)
  then have n: "0 \<le> n" by (auto simp: assertNonNegativeAmount_def bind_res_Inr split: if_splits)
  have claim: "claim_refund inp n it att ?s =
    (case ?k of Some r \<Rightarrow> (Inr (ClaimReplay r), ?s)
     | None \<Rightarrow> (let remaining = pi_amount it - committed (order_refund (ri_order inp)) ?s in
         if remaining < n then (Inl (RefundExceedsCaptured n remaining), ?s)
         else if n = 0 then (Inl PayCheckViolation, ?s)
         else (Inr (Claimed (pm_next ?s)), ?s\<lparr>pm_next := Suc (pm_next ?s), pm_refunds := pm_refunds ?s @ [new_refund (pm_next ?s) inp n it att]\<rparr>)))"
  proof (cases ?k)
    case None
    then have fresh: "(ri_order inp, ri_key inp) \<notin> (\<lambda>y. (rf_order y, rf_key y)) ` set (pm_refunds ?s)"
      by (simp add: refund_by_key_None)
    have r: "rf_amount (new_refund i inp n it att) = n" "rf_order (new_refund i inp n it att) = ri_order inp"
      "rf_key (new_refund i inp n it att) = ri_key inp" for i by (simp_all add: new_refund_def)
    show ?thesis
      using None fresh n rem
      by (auto simp: claim_refund_def assertWithinCaptured_def captured_amount_def assms(4) insert_refund_def Let_def r)
  qed (simp add: claim_refund_def)
  moreover have "refund providers now inp s' s' = (Inr (new_refund i inp n it att), s')"
    if "claim_refund inp n it att ?s = (Inr (Claimed i), s')" for i s' providers now
  proof -
    from claim_effect [OF that] have k: "?k = None" "i = pm_next ?s"
      "s' = ?s\<lparr>pm_next := Suc (pm_next ?s), pm_refunds := pm_refunds ?s @ [new_refund (pm_next ?s) inp n it att]\<rparr>" by auto
    have "find (\<lambda>x. rf_order x = ri_order inp \<and> rf_key x = ri_key inp) (pm_refunds ?s @ [new_refund i inp n it att]) = Some (new_refund i inp n it att)"
      by (rule find_unique) (use k(1) in \<open>force simp: refund_by_key_None new_refund_def\<close>)+
    with k have key: "refund_by_key (ri_order inp) (ri_key inp) s' = Some (new_refund i inp n it att)" by (simp add: refund_by_key_def)
    have am: "assertNonNegativeAmount (ri_amount inp) ''refund amount'' = Inr n"
      using assms(3) by (auto simp: refund_reads_def bind_res_Inr split: option.splits)
    show ?thesis by (simp add: refund_def refund_reads_def key am)
  qed
  ultimately show ?thesis using rem by blast
qed

theorem refund_ceiling_exact_witness:
  "\<exists>att. refund_reads (order_refund_input ''k'' (Fin 20000)) pay_first_paid = Inr (RefundPlan 20000 (demo_intent IntSucceeded (Some 2)) att) \<and>
     fst (claim_refund (order_refund_input ''k'' (Fin 20000)) 20000 (demo_intent IntSucceeded (Some 2)) att pay_second_paid) = Inr (Claimed 3) \<and>
     fst (claim_refund (order_refund_input ''k'' (Fin 60000)) 60000 (demo_intent IntSucceeded (Some 2)) att pay_second_paid) =
       Inl (RefundExceedsCaptured 60000 50000)"
proof -
  let ?it = "demo_intent IntSucceeded (Some 2)" and ?in = "\<lambda>a. order_refund_input ''k'' a"
  have it: "pi_order ?it = 7" "pi_status ?it = IntSucceeded" "pi_amount ?it = 50000" by (simp_all add: demo_rows)
  obtain att where reads: "refund_reads (?in (Fin 20000)) pay_first_paid = Inr (RefundPlan 20000 ?it att)"
    "refund_reads (?in (Fin 60000)) pay_first_paid = Inr (RefundPlan 60000 ?it att)"
    by (simp add: refund_reads_def order_refund_input_def demo_arith refund_by_key_def pay_first_paid_value(2) it)
  have k: "request_kind (?in a) = KindOrder" "ri_order (?in a) = 7" "refund_by_key 7 (ri_key (?in a)) pay_second_paid = None"
    "committed (order_refund 7) pay_second_paid = 0" "pm_next pay_second_paid = 3" for a
    by (simp_all add: request_kind_def order_refund_input_def refund_by_key_def pay_second_paid_value(2) committed_def)
  have m: "pay_first_paid \<in> set [pay_second_paid, pay_second_open, pay_first_paid, pay_first_open, pay_created, empty_payments]" by simp
  from refund_ceiling_exact [OF demo_second_history m reads(1)] refund_ceiling_exact [OF demo_second_history m reads(2)] reads(1) k it
  show ?thesis by auto
qed

section \<open>Two interleavings that strand money\<close>

lemma latest_max:
  assumes "keyed k t" "x \<in> set t" "P x" "\<And>y. y \<in> set t \<Longrightarrow> P y \<Longrightarrow> k y \<le> k x"
  shows "latest k P t = Some x"
proof -
  let ?xs = "sort_key k (filter P t)"
  have x: "x \<in> set ?xs" using assms(2,3) by simp
  then obtain ys y where ys: "?xs = ys @ [y]" by (metis empty_iff empty_set rev_exhaust)
  have "sorted (map k ?xs)" by simp
  then have max: "k z \<le> k y" if "z \<in> set ?xs" for z using that unfolding ys by (auto simp: sorted_append)
  have "y \<in> set ?xs" by (simp add: ys)
  then have y: "y \<in> set t" "P y" by auto
  have "k y = k x" using max [OF x] assms(4) [OF y] by simp
  then have "y = x" using keyed_inj [OF assms(1) y(1) assms(2)] by simp
  then show ?thesis by (simp add: latest_def ys)
qed

text \<open>C39: After a duplicate charge an order refund is sent to the wrong charge. When the latest paid attempt of an
  intent is a duplicate whose whole amount has already been given back, a refund of the order that names no attempt
  is attached to that attempt and asks the gateway to refund its reference again, so that more is committed against
  the attempt than it ever charged; the sandbox gateway answers success without recording anything.\<close>

theorem order_refund_sent_to_duplicate:
  assumes "payment_history h" "it \<in> set (pm_intents (hd h))" "pi_status it = IntSucceeded" "ri_order inp = pi_order it"
    "dup \<in> set (pm_attempts (hd h))" "pt_intent dup = pi_id it" "pt_status dup = AttSucceeded"
    "\<forall>a \<in> set (pm_attempts (hd h)). pt_intent a = pi_id it \<and> pt_status a = AttSucceeded \<longrightarrow> pt_id a \<le> pt_id dup"
    "committed (duplicate_of (pi_order it) (Some (pt_id dup))) (hd h) = pi_amount it"
    "ri_kind inp = None" "ri_attempt inp = None" "ri_amount inp = fin_int n" "valid_amount n" "0 < n"
    "n \<le> pi_amount it - committed (order_refund (pi_order it)) (hd h)" "refund_by_key (ri_order inp) (ri_key inp) (hd h) = None"
  shows "refund_reads inp (hd h) = Inr (RefundPlan n it (Some dup)) \<and> rc_reference (refund_request_of inp n (Some dup)) = pt_reference dup \<and>
    (\<exists>i s'. claim_refund inp n it (Some dup) (hd h) = (Inr (Claimed i), s') \<and>
       charged s' (pt_id dup) < committed (\<lambda>r. rf_attempt r = Some (pt_id dup)) s') \<and>
    (\<forall>t x c cs fresh. sandbox_find (pt_reference dup) t = Some x \<and> sx_outcome x = SbxPaid \<and> sx_refund x = Some (c # cs) \<longrightarrow>
       sandbox_refund fresh (refund_request_of inp n (Some dup)) t = (\<lparr>ra_succeeded = True, ra_reference = Some (c # cs), ra_failureCode = None\<rparr>, t))"
proof -
  let ?s = "hd h" and ?r = "\<lambda>i. new_refund i inp n it (Some dup)"
  note inv = history_current [OF assms(1)]
  have am: "assertNonNegativeAmount (ri_amount inp) ''refund amount'' = Inr n"
    using assms(12-14) by (simp add: assertNonNegativeAmount_def assertAmount_fin_int)
  have find: "find (\<lambda>x. pi_order x = ri_order inp \<and> pi_status x = IntSucceeded) (pm_intents ?s) = Some it"
    by (rule find_unique) (use assms(2-4) inv_one_live [OF inv _ assms(2)] in auto)
  have late: "latest pt_id (\<lambda>x. pt_intent x = pi_id it \<and> pt_status x = AttSucceeded) (pm_attempts ?s) = Some dup"
    by (rule latest_max) (use inv_keys(2) [OF inv] assms(5-8) in auto)
  have reads: "refund_reads inp ?s = Inr (RefundPlan n it (Some dup))"
    by (simp add: refund_reads_def am assms(11,16) find late)
  have kind: "request_kind inp = KindOrder" using assms(10) by (simp add: request_kind_def)
  have "h \<noteq> []" using history_inv [OF assms(1)] by (simp add: history_ok_def)
  then have m: "?s \<in> set h" by simp
  let ?s' = "?s\<lparr>pm_next := Suc (pm_next ?s), pm_refunds := pm_refunds ?s @ [?r (pm_next ?s)]\<rparr>"
  have claim: "claim_refund inp n it (Some dup) ?s = (Inr (Claimed (pm_next ?s)), ?s')"
    using refund_ceiling_exact [OF assms(1) m reads kind] assms(4,14-16) by (simp add: Let_def)
  have "committed (duplicate_of (pi_order it) (Some (pt_id dup))) ?s \<le> committed (\<lambda>r. rf_attempt r = Some (pt_id dup)) ?s"
    unfolding committed_if
    by (rule sum_list_mono) (use payment_invD(5) [OF inv] in \<open>auto simp: duplicate_of_def refund_ok_def less_imp_le\<close>)
  moreover have "charged ?s (pt_id dup) = pi_amount it"
  proof -
    obtain it2 where it2: "it2 \<in> set (pm_intents ?s)" "pi_id it2 = pt_intent dup" "pt_requested dup = pi_amount it2"
      using payment_invD(3) [OF inv assms(5)] by (auto simp: attempt_ok_def)
    then have "it2 = it" using keyed_inj [OF inv_keys(1) [OF inv] it2(1) assms(2)] assms(6) by simp
    with it2(3) tget_keyed [OF inv_keys(2) [OF inv] assms(5)] assms(7) show ?thesis by (simp add: charged_def attempt_at_def)
  qed
  ultimately have over: "charged ?s' (pt_id dup) < committed (\<lambda>r. rf_attempt r = Some (pt_id dup)) ?s'"
    using assms(9,14) by (simp add: committed_append) (simp add: charged_def attempt_at_def new_refund_def)
  have "rc_reference (refund_request_of inp n (Some dup)) = pt_reference dup" by (simp add: refund_request_of_def)
  with reads claim over show ?thesis by (auto simp: sandbox_refund_def)
qed

theorem order_refund_sent_to_duplicate_witness:
  "refund_reads (order_refund_input ''cancel'' (Fin 20000)) pay_returning =
     Inr (RefundPlan 20000 (demo_intent IntSucceeded (Some 2)) (Some (demo_settled 2 ''B'' 4)))"
proof -
  let ?it = "demo_intent IntSucceeded (Some 2)" and ?dup = "demo_settled 2 ''B'' 4" and ?in = "order_refund_input ''cancel'' (Fin 20000)"
  have s: "pm_intents pay_returning = [?it]" "pm_attempts pay_returning = [demo_settled 1 ''A'' 2, ?dup]"
    "pm_refunds pay_returning = [new_refund 3 duplicate_input 50000 ?it (Some ?dup)]"
    by (simp_all add: pay_returning_value(3) pay_second_paid_value(2))
  have v: "pi_status ?it = IntSucceeded" "pi_order ?it = 7" "pi_id ?it = 0" "pi_amount ?it = 50000" "pt_intent ?dup = 0" "pt_id ?dup = 2"
    "pt_status ?dup = AttSucceeded" "pt_id (demo_settled 1 ''A'' 2) = 1" by (simp_all add: demo_rows)
  have r: "rf_amount (new_refund 3 duplicate_input 50000 ?it (Some ?dup)) = 50000" "rf_kind (new_refund 3 duplicate_input 50000 ?it (Some ?dup)) = KindDuplicate"
    "rf_order (new_refund 3 duplicate_input 50000 ?it (Some ?dup)) = 7" "rf_attempt (new_refund 3 duplicate_input 50000 ?it (Some ?dup)) = Some 2"
    "rf_status (new_refund 3 duplicate_input 50000 ?it (Some ?dup)) = RefPending" "rf_key (new_refund 3 duplicate_input 50000 ?it (Some ?dup)) = ''duplicate-charge:2''"
    by (simp_all add: new_refund_def duplicate_input_def request_kind_def v)
  have c: "committed (duplicate_of 7 (Some 2)) pay_returning = 50000" "committed (order_refund 7) pay_returning = 0"
    by (simp_all add: committed_def s r duplicate_of_def order_refund_def)
  have i: "ri_order ?in = 7" "ri_kind ?in = None" "ri_attempt ?in = None" "ri_amount ?in = fin_int 20000" "ri_key ?in = ''cancel''"
    by (simp_all add: order_refund_input_def fin_int_def)
  have k: "refund_by_key 7 ''cancel'' pay_returning = None" by (simp add: refund_by_key_def s r)
  have va: "valid_amount 20000" by (simp add: valid_amount_def money_bounds)
  show ?thesis
    using order_refund_sent_to_duplicate [OF demo_returning_history, of ?it ?in ?dup 20000] s v c i k va by simp
qed

text \<open>C40: A payment confirmed while its intent expires is captured but cannot be refunded. When an intent is marked
  expired between the gateway's confirmation and its recording, the recording still reports success and announces
  the payment, but leaves the intent expired; as long as the order has no other paid intent, every refund of the
  order then fails as if nothing had been paid.\<close>

theorem late_confirmation_not_refundable:
  assumes "payment_history h" "rd \<in> set h" "prepareVerification ps clk key ref params rd = Inr p" "pp_result p = Some r"
    "pp_alreadyProcessed p = False" "charge_confirmed (pp_intent p) r" "valid_amount (pi_amount (pp_intent p))"
    "intent_at (hd h) (pi_id (pp_intent p)) = Some it" "pi_status it = IntExpired"
    "attempt_at (hd h) (pt_id (pp_attempt p)) = Some a" "pt_status a = AttInitiated"
    "\<forall>x \<in> set (pm_intents (hd h)). pi_order x = pi_order (pp_intent p) \<longrightarrow> pi_status x \<noteq> IntSucceeded"
  shows "\<exists>out s'. applyVerification now p (hd h) = Inr (out, s') \<and> vo_status out = VerSucceeded \<and>
    intent_at s' (pi_id (pp_intent p)) = Some it \<and>
    succeeded_events (pt_id (pp_attempt p)) (pm_outbox s') = 1 \<and>
    (\<forall>inp n providers now. ri_order inp = pi_order (pp_intent p) \<and> ri_amount inp = fin_int n \<and> valid_amount n \<and> 0 \<le> n \<longrightarrow>
       refund providers now inp s' s' = (Inl IntentNotFound, s'))"
proof -
  let ?s = "hd h" and ?it = "pp_intent p" and ?a = "pp_attempt p"
  note inv = history_current [OF assms(1)]
  have ver: "verified_column (vr_paidAmount r) = Inr (Some (pi_amount ?it))"
    using assms(6,7) by (simp add: charge_confirmed_def verified_column_def assertAmount_fin_int)
  have "vr_outcome r \<noteq> ProviderUnknown" using assms(6) by (simp add: charge_confirmed_def)
  moreover have one: "taffected (\<lambda>x. pt_id x = pt_id ?a \<and> pt_status x = AttInitiated) (pm_attempts ?s) = 1"
    unfolding taffected_key_one [OF inv_keys(2) [OF inv]] using assms(10,11) by (simp add: attempt_at_def)
  ultimately obtain out s' where app: "applyVerification now p ?s = Inr (out, s')"
    using ver assms(4,5) by (simp add: applyVerification_def Let_def)
  have eff: "verifies now ?a ?it r ?s s' \<and> vo_status out = VerSucceeded"
    using apply_effect [OF app inv_keys(2) [OF inv]] assms(4-6)
  proof (elim disjE exE conjE)
    assume "s' = ?s" "vo_status out \<in> {VerReplayed, VerUnresolved}"
    with app ver one assms(4-6) show ?thesis
      by (auto simp: applyVerification_def Let_def outcome_of_def charge_confirmed_def)
  qed auto
  then obtain v where s': "s' = ?s\<lparr>pm_attempts := tupd (\<lambda>x. pt_id x = pt_id ?a \<and> pt_status x = AttInitiated) (settle_attempt now ?it r v) (pm_attempts ?s),
             pm_intents := tupd (\<lambda>x. pi_id x = pi_id ?it \<and> pi_status x \<in> {IntCreated, IntPending}) (settle_intent now ?it r) (pm_intents ?s),
             pm_outbox := pm_outbox ?s @ [verification_event ?a ?it r]\<rparr>" by (auto simp: verifies_def)
  have itin: "it \<in> set (pm_intents ?s)" "pi_id it = pi_id ?it" using assms(8) by (auto simp: intent_at_def dest: row_atD)
  have ints: "pm_intents s' = pm_intents ?s"
    unfolding s' by (simp, rule tupd_none) (use keyed_inj [OF inv_keys(1) [OF inv] _ itin(1)] itin(2) assms(9) in auto)
  have "pm_refunds s' = pm_refunds ?s" by (simp add: s')
  have nokey: "refund_by_key (pi_order ?it) k s' = None" for k
  proof (rule ccontr)
    assume "refund_by_key (pi_order ?it) k s' \<noteq> None"
    then obtain x where x: "x \<in> set (pm_refunds ?s)" "rf_order x = pi_order ?it"
      using \<open>pm_refunds s' = pm_refunds ?s\<close> unfolding refund_by_key_None not_not by (auto simp: refund_by_key_None)
    with payment_invD(5) [OF inv x(1)] assms(12) show False by (auto simp: refund_ok_def)
  qed
  have nointent: "find (\<lambda>x. pi_order x = pi_order ?it \<and> pi_status x = IntSucceeded) (pm_intents s') = None"
    using assms(12) by (auto simp: ints find_None_iff)
  have refuse: "refund providers now inp s' s' = (Inl IntentNotFound, s')"
    if "ri_order inp = pi_order ?it" "ri_amount inp = fin_int n" "valid_amount n" "0 \<le> n" for inp n providers now
    using that nokey nointent by (simp add: refund_def refund_reads_def assertNonNegativeAmount_def assertAmount_fin_int)
  have "a \<in> set (pm_attempts ?s)" "pt_id a = pt_id ?a" using assms(10) by (auto simp: attempt_at_def dest: row_atD)
  then have "succeeded_events (pt_id ?a) (pm_outbox ?s) = 0" using payment_invD(3) [OF inv] assms(11) by (force simp: attempt_ok_def)
  then have ev: "succeeded_events (pt_id ?a) (pm_outbox s') = 1" using assms(6) by (simp add: s' verification_event_def)
  show ?thesis
    using app eff ints assms(8) ev refuse by (intro exI [of _ out] exI [of _ s']) (auto simp: intent_at_def)
qed

theorem late_confirmation_not_refundable_witness:
  "\<exists>p out s'. prepareVerification [demo_gateway ''A''] 2 ''bank'' ''A'' [] pay_first_open = Inr p \<and>
     applyVerification 70001 p pay_expired = Inr (out, s') \<and> vo_status out = VerSucceeded \<and>
     refund [demo_gateway ''A''] 70002 (order_refund_input ''k'' (Fin 50000)) s' s' = (Inl IntentNotFound, s')"
proof -
  let ?p = "\<lparr>pp_attempt = demo_attempt 1 ''A'', pp_intent = demo_intent IntPending None, pp_result = Some demo_paid, pp_alreadyProcessed = False\<rparr>"
  have f: "pi_id (demo_intent IntPending None) = 0" "pi_amount (demo_intent IntPending None) = 50000" "pi_order (demo_intent IntPending None) = 7"
    "pt_id (demo_attempt 1 ''A'') = 1" by (simp_all add: demo_rows)
  have st: "intent_at pay_expired 0 = Some (demo_intent IntExpired None)" "pi_status (demo_intent IntExpired None) = IntExpired"
    "attempt_at pay_expired 1 = Some (demo_attempt 1 ''A'')" "pt_status (demo_attempt 1 ''A'') = AttInitiated"
    "pm_intents pay_expired = [demo_intent IntExpired None]"
    by (simp_all add: pay_expired_def pay_first_open_value(2) intent_at_def attempt_at_def tget_def demo_rows)
  have v: "valid_amount 50000" by (simp add: valid_amount_def money_bounds)
  have m: "pay_first_open \<in> set [pay_expired, pay_first_open, pay_created, empty_payments]" by simp
  obtain out s' where o: "applyVerification 70001 ?p pay_expired = Inr (out, s')" "vo_status out = VerSucceeded"
    "\<forall>inp n providers now. ri_order inp = 7 \<and> ri_amount inp = fin_int n \<and> valid_amount n \<and> 0 \<le> n \<longrightarrow> refund providers now inp s' s' = (Inl IntentNotFound, s')"
    using late_confirmation_not_refundable [OF demo_expired_history m demo_prepared, of demo_paid "demo_intent IntExpired None" "demo_attempt 1 ''A''" 70001]
      f st v demo_confirmed by auto
  have "ri_order (order_refund_input ''k'' (Fin 50000)) = 7" "ri_amount (order_refund_input ''k'' (Fin 50000)) = fin_int 50000"
    by (simp_all add: order_refund_input_def fin_int_def)
  with o(1,2) o(3) [rule_format, of "order_refund_input ''k'' (Fin 50000)" 50000] v demo_prepared show ?thesis by auto
qed

end
