(* ===== verification/Subscription_Model.thy ===== *)
theory Subscription_Model
  imports Order_Model Booking_Model Payment_Provider
begin

text \<open>
  Seller subscriptions and the booking credits they grant
  (\<open>services/commercial-policy/src/subscription/seller-subscription.service.ts\<close> and
  \<open>booking-credit-grant.service.ts\<close> with their entities). The \<open>commercial\<close> schema is one record of tables,
  together with the two seller tables its eligibility query reads; the published catalogue is a
  parameter. Amounts, counts and times are \<open>int\<close>: their columns are bounded integers.

  The CHECK constraints and the partial unique index of \<open>seller_subscriptions\<close> and the unique keys of
  \<open>booking_credit_grants\<close> are part of the inserts. Operations that read before a guarded write take the
  rows the read saw (\<open>rd\<close>) apart from the state they write. The deferred key of \<open>superseded_by_id\<close> holds at
  commit because the successor is inserted by the same transaction.
\<close>

section \<open>Data\<close>

datatype lifecycle_state = LifeDraft | LifePublished | LifeRetired

record plan_version =
  pv_id :: nat
  pv_planKey :: string
  pv_version :: int
  pv_state :: lifecycle_state
  pv_termDays :: "int option"
  pv_credits :: int
  pv_seats :: int
  pv_locations :: int
  pv_capabilities :: "string list"
  pv_schedule :: nat
  pv_creditSchedule :: "string option"
  pv_auto :: bool
  pv_starts :: int
  pv_ends :: "int option"

record price_schedule_version =
  sv_id :: nat
  sv_currency :: string

record price_tier =
  ti_schedule :: nat
  ti_min :: int
  ti_max :: "int option"
  ti_price :: int

record catalogue =
  ct_versions :: "plan_version list"
  ct_schedules :: "price_schedule_version list"
  ct_tiers :: "price_tier list"

datatype subscription_state = SubActive | SubSuperseded | SubCancelled

record subscription =
  su_id :: nat
  su_party :: seller_party
  su_planVersion :: nat
  su_state :: subscription_state
  su_planKey :: string
  su_version :: int
  su_termDays :: "int option"
  su_credits :: int
  su_seats :: int
  su_locations :: int
  su_capabilities :: "string list"
  su_currency :: string
  su_price :: int
  su_schedule :: nat
  su_creditSchedule :: "string option"
  su_effectiveAt :: int
  su_createdByUser :: "nat option"
  su_createdByLabel :: "string option"
  su_supersededAt :: "int option"
  su_supersededBy :: "nat option"
  su_cancelledAt :: "int option"
  su_cancelledByUser :: "nat option"
  su_cancelledByLabel :: "string option"
  su_createdAt :: int

datatype grant_source = PlanIncluded

record credit_grant =
  gr_id :: nat
  gr_subscription :: nat
  gr_planVersion :: nat
  gr_party :: seller_party
  gr_source :: grant_source
  gr_quantity :: int
  gr_period :: nat
  gr_grantedAt :: int
  gr_expiresAt :: "int option"

record credit_consumption =
  cn_id :: nat
  cn_booking :: nat
  cn_grant :: nat
  cn_subscription :: nat
  cn_period :: nat
  cn_party :: seller_party
  cn_at :: int

datatype return_cause = SellerCancelled | PlatformCancelled

record credit_return =
  rt_id :: nat
  rt_consumption :: nat
  rt_cause :: return_cause
  rt_at :: int

text \<open>\<open>admin.admin_audit_log\<close>, the columns the subscription and enforcement services write.\<close>

datatype audit_target = OnSubscription nat | OnGovernance | OnControl

record audit_row =
  au_id :: nat
  au_user :: "nat option"
  au_action :: string
  au_target :: audit_target

text \<open>The enforcement tables: state columns are text, read against a vocabulary.\<close>

record enforcement_control =
  ec_id :: nat
  ec_rollout :: string
  ec_generation :: nat
  ec_activatedAt :: "int option"
  ec_activationAudit :: "nat option"
  ec_killSwitch :: string
  ec_killSwitchAt :: "int option"
  ec_killSwitchAudit :: "nat option"

datatype governance_cause = ExplicitTransition | ExplicitExemption | CreatedUnderEnforcement

record party_governance =
  pg_id :: nat
  pg_party :: seller_party
  pg_state :: string
  pg_cause :: governance_cause
  pg_proofGrant :: "nat option"
  pg_governedAt :: "int option"
  pg_recordedByUser :: "nat option"
  pg_recordedByLabel :: "string option"
  pg_audit :: nat

text \<open>\<open>provider.professionals\<close> and \<open>business.businesses\<close>, as far as ownership and eligibility read them.\<close>

record seller_row =
  se_id :: nat
  se_owner :: nat
  se_deletedAt :: "int option"

record commercial_db =
  cm_subscriptions :: "subscription list"
  cm_grants :: "credit_grant list"
  cm_consumptions :: "credit_consumption list"
  cm_returns :: "credit_return list"
  cm_control :: "enforcement_control list"
  cm_governance :: "party_governance list"
  cm_professionals :: "seller_row list"
  cm_businesses :: "seller_row list"
  cm_audit :: "audit_row list"
  cm_next :: nat

datatype commercial_error =
    SellerNotEligible
  | PlanNotSelectable
  | PaidActivationUnavailable
  | ChangedConcurrently
  | SubscriptionNotConfigured string
  | ControlMalformed string
  | ReasonRequired
  | ActivationRefused nat
  | CommercialUniqueViolation
  | CommercialCheckViolation

definition SYSTEM_ACTOR_LABEL :: string where
  "SYSTEM_ACTOR_LABEL = ''system''"

definition INITIAL_GRANT_PERIOD_INDEX :: nat where
  "INITIAL_GRANT_PERIOD_INDEX = 0"

definition isPermittedSubscriptionTransition :: "subscription_state \<Rightarrow> subscription_state \<Rightarrow> bool" where
  "isPermittedSubscriptionTransition st to =
    (case st of SubActive \<Rightarrow> to \<in> {SubSuperseded, SubCancelled} | SubSuperseded \<Rightarrow> False | SubCancelled \<Rightarrow> False)"

section \<open>Ownership and eligibility\<close>

definition seller_rows :: "party_type \<Rightarrow> commercial_db \<Rightarrow> seller_row list" where
  "seller_rows t s = (case t of ProfessionalParty \<Rightarrow> cm_professionals s | BusinessParty \<Rightarrow> cm_businesses s)"

definition ownedPartiesFor :: "nat \<Rightarrow> commercial_db \<Rightarrow> seller_party list" where
  "ownedPartiesFor userId s =
    concat (map (\<lambda>t. case find (\<lambda>r. se_owner r = userId \<and> se_deletedAt r = None) (seller_rows t s) of
                   None \<Rightarrow> [] | Some r \<Rightarrow> [(t, se_id r)]) [ProfessionalParty, BusinessParty])"

definition isEligible :: "seller_party \<Rightarrow> commercial_db \<Rightarrow> bool" where
  "isEligible party s \<longleftrightarrow>
    length (filter (\<lambda>r. se_id r = snd party \<and> se_deletedAt r = None) (seller_rows (fst party) s)) = 1"

section \<open>Reads\<close>

definition findActive :: "seller_party \<Rightarrow> commercial_db \<Rightarrow> subscription option" where
  "findActive party s = find (\<lambda>x. su_party x = party \<and> su_state x = SubActive) (cm_subscriptions s)"

text \<open>\<open>ORDER BY effective_at DESC, created_at DESC\<close>; \<open>ORDER BY granted_at DESC\<close>.\<close>

definition historyForParty :: "seller_party \<Rightarrow> commercial_db \<Rightarrow> subscription list" where
  "historyForParty party s =
    rev (sort_key su_effectiveAt (sort_key su_createdAt (filter (\<lambda>x. su_party x = party) (cm_subscriptions s))))"

definition grantsFor :: "seller_party \<Rightarrow> commercial_db \<Rightarrow> credit_grant list" where
  "grantsFor party s = rev (sort_key gr_grantedAt (filter (\<lambda>x. gr_party x = party) (cm_grants s)))"

definition selectable :: "int \<Rightarrow> plan_version \<Rightarrow> bool" where
  "selectable now v \<longleftrightarrow> pv_state v = LifePublished \<and> pv_starts v \<le> now \<and> (case pv_ends v of None \<Rightarrow> True | Some e \<Rightarrow> now < e)"

definition requireAutoAssignableVersion :: "int \<Rightarrow> catalogue \<Rightarrow> commercial_error + plan_version" where
  "requireAutoAssignableVersion now cat =
    (case find (\<lambda>v. pv_auto v \<and> selectable now v) (ct_versions cat) of
       None \<Rightarrow> Inl (SubscriptionNotConfigured ''no automatically assignable published plan version is active at this instant'')
     | Some v \<Rightarrow> Inr v)"

definition requireSelectableVersion :: "int \<Rightarrow> string \<Rightarrow> int \<Rightarrow> catalogue \<Rightarrow> commercial_error + plan_version" where
  "requireSelectableVersion now planKey version cat =
    (case find (\<lambda>v. pv_planKey v = planKey \<and> pv_version v = version \<and> selectable now v) (ct_versions cat) of
       None \<Rightarrow> Inl PlanNotSelectable
     | Some v \<Rightarrow> Inr v)"

text \<open>\<open>autoAssignable === true\<close> of the version the subscription points at; a missing row is not a base version.\<close>

definition isBaseSubscription :: "catalogue \<Rightarrow> subscription \<Rightarrow> bool" where
  "isBaseSubscription cat x =
    (case tget pv_id (su_planVersion x) (ct_versions cat) of None \<Rightarrow> False | Some v \<Rightarrow> pv_auto v)"

definition snapshotPriceOf :: "catalogue \<Rightarrow> plan_version \<Rightarrow> commercial_error + string \<times> int" where
  "snapshotPriceOf cat v =
    (case tget sv_id (pv_schedule v) (ct_schedules cat) of
       None \<Rightarrow> Inl (SubscriptionNotConfigured ''the plan version references no price schedule version'')
     | Some schedule \<Rightarrow>
        (let covering = filter (\<lambda>t. ti_min t \<le> 1 \<and> (case ti_max t of None \<Rightarrow> True | Some m \<Rightarrow> 1 \<le> m))
               (filter (\<lambda>t. ti_schedule t = pv_schedule v) (ct_tiers cat))
         in if length covering \<noteq> 1
            then Inl (SubscriptionNotConfigured ''the price schedule of the plan version does not price a single subscription exactly once'')
            else if ti_price (covering ! 0) \<noteq> 0 then Inl PaidActivationUnavailable
            else Inr (sv_currency schedule, ti_price (covering ! 0))))"

section \<open>Writes\<close>

definition record_audit :: "nat option \<Rightarrow> string \<Rightarrow> audit_target \<Rightarrow> commercial_db \<Rightarrow> nat \<times> commercial_db" where
  "record_audit user action target s =
    (cm_next s, s\<lparr>cm_audit := cm_audit s @ [\<lparr>au_id = cm_next s, au_user = user, au_action = action, au_target = target\<rparr>],
                  cm_next := Suc (cm_next s)\<rparr>)"

text \<open>\<open>ck_seller_subscriptions_zero_price\<close>, \<open>_entitlements\<close>, \<open>_created_actor\<close>.\<close>

definition subscription_row_ok :: "subscription \<Rightarrow> bool" where
  "subscription_row_ok x \<longleftrightarrow> su_price x = 0 \<and> 0 \<le> su_credits x \<and> 0 \<le> su_seats x \<and> 0 \<le> su_locations x \<and> 1 \<le> su_version x \<and>
     (case su_termDays x of None \<Rightarrow> True | Some d \<Rightarrow> 0 < d) \<and> ((su_createdByUser x = None) \<noteq> (su_createdByLabel x = None))"

definition active_taken :: "seller_party \<Rightarrow> commercial_db \<Rightarrow> bool" where
  "active_taken party s \<longleftrightarrow> list_ex (\<lambda>x. su_party x = party \<and> su_state x = SubActive) (cm_subscriptions s)"

definition insert_subscription :: "bool \<Rightarrow> subscription \<Rightarrow> commercial_db \<Rightarrow> commercial_error + bool \<times> commercial_db" where
  "insert_subscription ignore x s =
    (if \<not> subscription_row_ok x then Inl CommercialCheckViolation
     else if active_taken (su_party x) s then (if ignore then Inr (False, s) else Inl CommercialUniqueViolation)
     else Inr (True, s\<lparr>cm_subscriptions := cm_subscriptions s @ [x]\<rparr>))"

text \<open>\<open>uq_booking_credit_grants_once\<close> and \<open>ck_booking_credit_grants_quantity\<close>.\<close>

definition same_grant :: "nat \<Rightarrow> credit_grant \<Rightarrow> bool" where
  "same_grant subscriptionId g \<longleftrightarrow> gr_subscription g = subscriptionId \<and> gr_source g = PlanIncluded \<and> gr_period g = INITIAL_GRANT_PERIOD_INDEX"

definition insert_grant :: "credit_grant \<Rightarrow> commercial_db \<Rightarrow> commercial_error + commercial_db" where
  "insert_grant g s =
    (if gr_quantity g < 0 \<or> 1000000000 < gr_quantity g then Inl CommercialCheckViolation
     else if list_ex (\<lambda>y. gr_subscription y = gr_subscription g \<and> gr_source y = gr_source g \<and> gr_period y = gr_period g) (cm_grants s)
     then Inl CommercialUniqueViolation
     else Inr (s\<lparr>cm_grants := cm_grants s @ [g]\<rparr>))"

definition issueForActivation :: "clock \<Rightarrow> subscription \<Rightarrow> commercial_db \<Rightarrow> commercial_error + credit_grant \<times> commercial_db" where
  "issueForActivation c x s =
    (case find (same_grant (su_id x)) (cm_grants s) of
       Some g \<Rightarrow> Inr (g, s)
     | None \<Rightarrow>
        (let g = \<lparr>gr_id = cm_next s, gr_subscription = su_id x, gr_planVersion = su_planVersion x, gr_party = su_party x,
                  gr_source = PlanIncluded, gr_quantity = su_credits x, gr_period = INITIAL_GRANT_PERIOD_INDEX,
                  gr_grantedAt = ck_db c, gr_expiresAt = None\<rparr>
         in bind_res (insert_grant g (s\<lparr>cm_next := Suc (cm_next s)\<rparr>)) (\<lambda>s1.
            Inr (g, snd (record_audit None ''commercial.credits_granted'' (OnSubscription (su_id x)) s1)))))"

definition new_subscription :: "nat \<Rightarrow> clock \<Rightarrow> seller_party \<Rightarrow> plan_version \<Rightarrow> string \<times> int \<Rightarrow> nat option \<Rightarrow> subscription" where
  "new_subscription i c party v price actor =
    \<lparr>su_id = i, su_party = party, su_planVersion = pv_id v, su_state = SubActive, su_planKey = pv_planKey v, su_version = pv_version v,
     su_termDays = pv_termDays v, su_credits = pv_credits v, su_seats = pv_seats v, su_locations = pv_locations v,
     su_capabilities = pv_capabilities v, su_currency = fst price, su_price = snd price, su_schedule = pv_schedule v,
     su_creditSchedule = pv_creditSchedule v, su_effectiveAt = ck_js c, su_createdByUser = actor,
     su_createdByLabel = (case actor of None \<Rightarrow> Some SYSTEM_ACTOR_LABEL | Some _ \<Rightarrow> None), su_supersededAt = None,
     su_supersededBy = None, su_cancelledAt = None, su_cancelledByUser = None, su_cancelledByLabel = None, su_createdAt = ck_db c\<rparr>"

text \<open>The row, its audit line and its grant.\<close>

definition write_subscription :: "clock \<Rightarrow> subscription \<Rightarrow> string \<Rightarrow> bool \<Rightarrow> commercial_db \<Rightarrow>
    commercial_error + subscription option \<times> commercial_db" where
  "write_subscription c x action ignore s =
    bind_res (insert_subscription ignore x s) (\<lambda>(written, s1).
    if \<not> written then Inr (None, s1)
    else bind_res (issueForActivation c x (snd (record_audit (su_createdByUser x) action (OnSubscription (su_id x)) s1)))
           (\<lambda>(_, s2). Inr (Some x, s2)))"

text \<open>The successor of a supersession has its identifier before it is inserted; otherwise it is drawn here.\<close>

definition activateSubscription :: "catalogue \<Rightarrow> clock \<Rightarrow> nat option \<Rightarrow> seller_party \<Rightarrow> plan_version \<Rightarrow> string \<Rightarrow> nat option \<Rightarrow> bool \<Rightarrow>
    commercial_db \<Rightarrow> commercial_error + subscription option \<times> commercial_db" where
  "activateSubscription cat c given party v action actor ignore s =
    bind_res (snapshotPriceOf cat v) (\<lambda>price.
    case given of
      Some i \<Rightarrow> write_subscription c (new_subscription i c party v price actor) action ignore s
    | None \<Rightarrow> write_subscription c (new_subscription (cm_next s) c party v price actor) action ignore (s\<lparr>cm_next := Suc (cm_next s)\<rparr>))"

definition transitionSubscription :: "nat \<Rightarrow> subscription_state \<Rightarrow> (subscription \<Rightarrow> subscription) \<Rightarrow> commercial_db \<Rightarrow>
    commercial_error + commercial_db" where
  "transitionSubscription i to patch s =
    (let P = (\<lambda>x. su_id x = i \<and> su_state x = SubActive) in
     if taffected P (cm_subscriptions s) \<noteq> 1 then Inl ChangedConcurrently
     else Inr (s\<lparr>cm_subscriptions := tupd P (\<lambda>x. patch (x\<lparr>su_state := to\<rparr>)) (cm_subscriptions s)\<rparr>))"

definition supersede :: "clock \<Rightarrow> subscription \<Rightarrow> nat \<Rightarrow> commercial_db \<Rightarrow> commercial_error + commercial_db" where
  "supersede c current successorId s =
    bind_res (transitionSubscription (su_id current) SubSuperseded
        (\<lambda>x. x\<lparr>su_supersededAt := Some (ck_js c), su_supersededBy := Some successorId\<rparr>) s) (\<lambda>s1.
    Inr (snd (record_audit None ''commercial.subscription_superseded'' (OnSubscription (su_id current)) s1)))"

section \<open>The operations of the service\<close>

definition ensureBaseSubscriptionWithin :: "catalogue \<Rightarrow> clock \<Rightarrow> seller_party \<Rightarrow> commercial_db \<Rightarrow> commercial_db \<Rightarrow>
    commercial_error + subscription \<times> commercial_db" where
  "ensureBaseSubscriptionWithin cat c party rd s =
    (case findActive party rd of
       Some x \<Rightarrow> Inr (x, s)
     | None \<Rightarrow>
        (if \<not> isEligible party rd then Inl SellerNotEligible
         else bind_res (requireAutoAssignableVersion (ck_js c) cat) (\<lambda>v.
           bind_res (activateSubscription cat c None party v ''commercial.subscription_assigned'' None True s) (\<lambda>(created, s1).
             case created of
               Some x \<Rightarrow> Inr (x, s1)
             | None \<Rightarrow> (case findActive party s1 of
                  None \<Rightarrow> Inl (SubscriptionNotConfigured
                    ''the base workspace could not be assigned and no active subscription exists for this party'')
                | Some w \<Rightarrow> Inr (w, s1))))))"

text \<open>\<open>rd\<close> is what the eligibility check and the first read saw, \<open>rd2\<close> what the later read of the active row saw.\<close>

datatype selection_outcome = Selected | AlreadyApplied

definition applyPlanSelection :: "catalogue \<Rightarrow> clock \<Rightarrow> seller_party \<Rightarrow> string \<Rightarrow> int \<Rightarrow> nat \<Rightarrow> commercial_db \<Rightarrow> commercial_db \<Rightarrow>
    commercial_db \<Rightarrow> commercial_error + (selection_outcome \<times> subscription) \<times> commercial_db" where
  "applyPlanSelection cat c party planKey version actor rd rd2 s =
    (if \<not> isEligible party rd then Inl SellerNotEligible
     else bind_res (ensureBaseSubscriptionWithin cat c party rd2 s) (\<lambda>(current, s1).
       bind_res (requireSelectableVersion (ck_js c) planKey version cat) (\<lambda>target.
       if su_planVersion current = pv_id target
       then Inr ((if findActive party rd \<noteq> None then AlreadyApplied else Selected, current), s1)
       else
         let successorId = cm_next s1 in
         bind_res (supersede c current successorId (s1\<lparr>cm_next := Suc (cm_next s1)\<rparr>)) (\<lambda>s2.
         bind_res (activateSubscription cat c (Some successorId) party target ''commercial.subscription_activated'' (Some actor) False s2)
           (\<lambda>(created, s3). case created of
              Some x \<Rightarrow> Inr ((Selected, x), s3)
            | None \<Rightarrow> Inl CommercialUniqueViolation)))))"

datatype cancellation_outcome = SubscriptionCancelled | AlreadyBase

definition applyCancellation :: "catalogue \<Rightarrow> clock \<Rightarrow> seller_party \<Rightarrow> nat \<Rightarrow> commercial_db \<Rightarrow> commercial_db \<Rightarrow>
    commercial_error + (cancellation_outcome \<times> subscription) \<times> commercial_db" where
  "applyCancellation cat c party actor rd s =
    (case findActive party rd of
       None \<Rightarrow> Inl SellerNotEligible
     | Some current \<Rightarrow>
        (if isBaseSubscription cat current then Inr ((AlreadyBase, current), s)
         else bind_res (transitionSubscription (su_id current) SubCancelled
                 (\<lambda>x. x\<lparr>su_cancelledAt := Some (ck_js c), su_cancelledByUser := Some actor, su_cancelledByLabel := None\<rparr>) s) (\<lambda>s1.
           bind_res (requireAutoAssignableVersion (ck_js c) cat) (\<lambda>v.
           bind_res (activateSubscription cat c None party v ''commercial.subscription_assigned'' None False
               (snd (record_audit (Some actor) ''commercial.subscription_cancelled'' (OnSubscription (su_id current)) s1)))
             (\<lambda>(created, s2). case created of
                Some x \<Rightarrow> Inr ((SubscriptionCancelled, x), s2)
              | None \<Rightarrow> Inl CommercialUniqueViolation)))))"

end
