(* ===== verification/Credit_Ledger.thy ===== *)
theory Credit_Ledger
  imports Subscription_Model
begin

text \<open>
  Spending and returning booking credits
  (\<open>services/commercial-policy/src/subscription/booking-credit-accounting.service.ts\<close>). A confirmation runs
  under the advisory lock of its seller party, so its reads and its insert are one step of the ledger.
  The locale \<open>idempotent_log\<close> is interpreted here: a booking is charged at most once.
\<close>

datatype consumption_outcome =
    CreditConsumed nat nat
  | AlreadyConsumed nat
  | NotConfigured
  | InsufficientCredit

datatype return_outcome = CreditReturned nat | AlreadyReturned | NothingConsumed

section \<open>Counts\<close>

text \<open>A consumption is active while the LEFT JOIN on its return finds no row.\<close>

definition active_consumption :: "commercial_db \<Rightarrow> credit_consumption \<Rightarrow> bool" where
  "active_consumption s x \<longleftrightarrow> cn_id x \<notin> rt_consumption ` set (cm_returns s)"

definition activeConsumptionCount :: "seller_party \<Rightarrow> commercial_db \<Rightarrow> int" where
  "activeConsumptionCount party s =
    int (length (filter (\<lambda>x. cn_party x = party \<and> active_consumption s x) (cm_consumptions s)))"

definition activeConsumptionCountByGrant :: "seller_party \<Rightarrow> commercial_db \<Rightarrow> nat \<Rightarrow> int" where
  "activeConsumptionCountByGrant party s g =
    int (length (filter (\<lambda>x. cn_party x = party \<and> cn_grant x = g \<and> active_consumption s x) (cm_consumptions s)))"

definition party_grants :: "seller_party \<Rightarrow> commercial_db \<Rightarrow> credit_grant list" where
  "party_grants party s = filter (\<lambda>g. gr_party g = party) (cm_grants s)"

definition balanceFor :: "seller_party \<Rightarrow> commercial_db \<Rightarrow> int" where
  "balanceFor party s = max 0 (sum_list (map gr_quantity (party_grants party s)) - activeConsumptionCount party s)"

section \<open>Spending\<close>

text \<open>\<open>ORDER BY granted_at ASC, id ASC\<close>, then the grants of a positive quantity.\<close>

definition positiveGrants :: "seller_party \<Rightarrow> commercial_db \<Rightarrow> credit_grant list" where
  "positiveGrants party s = filter (\<lambda>g. 0 < gr_quantity g) (sort_key gr_grantedAt (sort_key gr_id (party_grants party s)))"

definition insert_consumption :: "credit_consumption \<Rightarrow> commercial_db \<Rightarrow> commercial_error + commercial_db" where
  "insert_consumption x s =
    (if list_ex (\<lambda>y. cn_booking y = cn_booking x) (cm_consumptions s) then Inl CommercialUniqueViolation
     else Inr (s\<lparr>cm_consumptions := cm_consumptions s @ [x]\<rparr>))"

definition consume_from :: "clock \<Rightarrow> nat \<Rightarrow> credit_grant \<Rightarrow> commercial_db \<Rightarrow> commercial_error + consumption_outcome \<times> commercial_db" where
  "consume_from c bookingId chosen s =
    bind_res (insert_consumption \<lparr>cn_id = cm_next s, cn_booking = bookingId, cn_grant = gr_id chosen,
        cn_subscription = gr_subscription chosen, cn_period = gr_period chosen, cn_party = gr_party chosen, cn_at = ck_db c\<rparr>
        (s\<lparr>cm_next := Suc (cm_next s)\<rparr>)) (\<lambda>s1.
    Inr (CreditConsumed (cm_next s) (gr_id chosen),
         snd (record_audit None ''commercial.credit_consumed'' (OnSubscription (gr_subscription chosen)) s1)))"

definition consumeForConfirmation :: "clock \<Rightarrow> nat \<Rightarrow> seller_party \<Rightarrow> commercial_db \<Rightarrow>
    commercial_error + consumption_outcome \<times> commercial_db" where
  "consumeForConfirmation c bookingId party s =
    (case find (\<lambda>x. cn_booking x = bookingId) (cm_consumptions s) of
       Some existing \<Rightarrow> Inr (AlreadyConsumed (cn_id existing), s)
     | None \<Rightarrow>
        (if positiveGrants party s = [] then Inr (NotConfigured, s)
         else
           let granted = sum_list (map gr_quantity (positiveGrants party s));
               spent = activeConsumptionCount party s
           in if granted \<le> spent then Inr (InsufficientCredit, s)
              else (case find (\<lambda>g. activeConsumptionCountByGrant party s (gr_id g) < gr_quantity g) (positiveGrants party s) of
                      None \<Rightarrow> Inr (InsufficientCredit, s)
                    | Some chosen \<Rightarrow> consume_from c bookingId chosen s)))"

section \<open>Returning\<close>

text \<open>\<open>rd\<close> is what the two reads saw. The insert is \<open>ON CONFLICT (consumption_id) DO NOTHING\<close>.\<close>

definition returnForCancellation :: "clock \<Rightarrow> nat \<Rightarrow> return_cause \<Rightarrow> commercial_db \<Rightarrow> commercial_db \<Rightarrow> return_outcome \<times> commercial_db" where
  "returnForCancellation c bookingId cause rd s =
    (case find (\<lambda>x. cn_booking x = bookingId) (cm_consumptions rd) of
       None \<Rightarrow> (NothingConsumed, s)
     | Some x \<Rightarrow>
        (if list_ex (\<lambda>r. rt_consumption r = cn_id x) (cm_returns rd) then (AlreadyReturned, s)
         else
           let row = \<lparr>rt_id = cm_next s, rt_consumption = cn_id x, rt_cause = cause, rt_at = ck_db c\<rparr>;
               (rows, written) = insert_once rt_consumption row (cm_returns s)
           in if \<not> written then (AlreadyReturned, s)
              else (CreditReturned (cm_next s),
                    snd (record_audit None ''commercial.credit_returned'' (OnSubscription (cn_subscription x))
                      (s\<lparr>cm_returns := rows, cm_next := Suc (cm_next s)\<rparr>)))))"

section \<open>The order of grants and the counts\<close>

lemma set_positiveGrants: "set (positiveGrants party s) = {g \<in> set (cm_grants s). gr_party g = party \<and> 0 < gr_quantity g}"
  by (auto simp: positiveGrants_def party_grants_def)

lemma sum_sort_key: "sum_list (map f (sort_key k xs)) = sum_list (map f xs)"
  for f :: "'a \<Rightarrow> int"
proof -
  have "mset (map f (sort_key k xs)) = mset (map f xs)" by simp
  then show ?thesis by (metis sum_mset_sum_list)
qed

lemma distinct_sort_key: "distinct (map f (sort_key k xs)) = distinct (map f xs)"
proof -
  have "mset (map f (sort_key k xs)) = mset (map f xs)" by simp
  then show ?thesis by (rule mset_eq_imp_distinct_iff)
qed

text \<open>Grants of zero and the order of reading do not change what was granted.\<close>

lemma granted_all:
  assumes "\<And>g. g \<in> set (cm_grants s) \<Longrightarrow> 0 \<le> gr_quantity g"
  shows "sum_list (map gr_quantity (positiveGrants party s)) = sum_list (map gr_quantity (party_grants party s))"
proof -
  have "sum_list (map gr_quantity (filter (\<lambda>g. 0 < gr_quantity g) gs)) = sum_list (map gr_quantity gs)"
    if "\<And>g. g \<in> set gs \<Longrightarrow> 0 \<le> gr_quantity g" for gs
    using that
  proof (induction gs)
    case (Cons g gs)
    have "0 \<le> gr_quantity g" by (rule Cons.prems) simp
    moreover have "sum_list (map gr_quantity (filter (\<lambda>g. 0 < gr_quantity g) gs)) = sum_list (map gr_quantity gs)"
      by (rule Cons.IH) (use Cons.prems in auto)
    ultimately show ?case by auto
  qed simp
  from this [of "sort_key gr_grantedAt (sort_key gr_id (party_grants party s))"] show ?thesis
    using assms by (auto simp: positiveGrants_def sum_sort_key party_grants_def)
qed

text \<open>Counting per grant never counts a consumption twice.\<close>

lemma count_by_key:
  "distinct is \<Longrightarrow> (\<Sum>i \<leftarrow> is. int (length (filter (\<lambda>x. k x = i) ys))) = int (length (filter (\<lambda>x. k x \<in> set is) ys))"
proof (induction ys)
  case (Cons y ys)
  have "(\<Sum>i \<leftarrow> is. int (length (filter (\<lambda>x. k x = i) (y # ys)))) =
      (\<Sum>i \<leftarrow> is. (if i = k y then 1 else 0) + int (length (filter (\<lambda>x. k x = i) ys)))"
    by (intro arg_cong [where f = sum_list] map_cong refl) auto
  also have "\<dots> = (\<Sum>i \<leftarrow> is. if i = k y then 1 else 0) + (\<Sum>i \<leftarrow> is. int (length (filter (\<lambda>x. k x = i) ys)))"
    by (rule sum_list_addf)
  also have "(\<Sum>i \<leftarrow> is. if i = k y then (1 :: int) else 0) = (if k y \<in> set is then 1 else 0)"
    using Cons.prems by (induction "is") auto
  finally show ?case using Cons by simp
qed simp

lemma count_of_grant:
  "activeConsumptionCountByGrant party s i =
    int (length (filter (\<lambda>x. cn_grant x = i) (filter (\<lambda>x. cn_party x = party \<and> active_consumption s x) (cm_consumptions s))))"
  by (simp add: activeConsumptionCountByGrant_def conj_commute conj_left_commute)

lemma counts_by_grant:
  assumes "distinct (map gr_id gs)"
  shows "(\<Sum>g \<leftarrow> gs. activeConsumptionCountByGrant party s (gr_id g)) =
    int (length (filter (\<lambda>x. cn_grant x \<in> gr_id ` set gs) (filter (\<lambda>x. cn_party x = party \<and> active_consumption s x) (cm_consumptions s))))"
  using count_by_key [OF assms, of cn_grant "filter (\<lambda>x. cn_party x = party \<and> active_consumption s x) (cm_consumptions s)"]
  by (simp add: count_of_grant comp_def)

lemma counts_by_grant_le:
  assumes "distinct (map gr_id gs)"
  shows "(\<Sum>g \<leftarrow> gs. activeConsumptionCountByGrant party s (gr_id g)) \<le> activeConsumptionCount party s"
  unfolding counts_by_grant [OF assms] activeConsumptionCount_def by (simp only: of_nat_le_iff length_filter_le)

text \<open>When the party has credit left, some grant has room: the last refusal of the code is never taken.\<close>

lemma grant_with_room:
  assumes "distinct (map gr_id (cm_grants s))" "activeConsumptionCount party s < sum_list (map gr_quantity (positiveGrants party s))"
  shows "\<exists>g. find (\<lambda>g. activeConsumptionCountByGrant party s (gr_id g) < gr_quantity g) (positiveGrants party s) = Some g"
proof (rule ccontr)
  let ?gs = "positiveGrants party s"
  assume "\<not> ?thesis"
  then have full: "gr_quantity g \<le> activeConsumptionCountByGrant party s (gr_id g)" if "g \<in> set ?gs" for g
    using that by (auto simp: find_None_iff not_less)
  have "distinct (map gr_id ?gs)"
    unfolding positiveGrants_def party_grants_def
    by (rule distinct_map_filter) (simp add: distinct_sort_key distinct_map_filter assms(1))
  from counts_by_grant_le [OF this] have "(\<Sum>g \<leftarrow> ?gs. activeConsumptionCountByGrant party s (gr_id g)) \<le> activeConsumptionCount party s" .
  moreover have "sum_list (map gr_quantity ?gs) \<le> (\<Sum>g \<leftarrow> ?gs. activeConsumptionCountByGrant party s (gr_id g))"
    by (rule sum_list_mono) (rule full)
  ultimately show False using assms(2) by simp
qed

lemma find_consumption_None: "find (\<lambda>x. cn_booking x = b) xs = None \<longleftrightarrow> b \<notin> cn_booking ` set xs"
  by (auto simp: find_None_iff)

lemma consume_from_Inr:
  assumes "consume_from c b g s = Inr (out, s')"
  shows "b \<notin> cn_booking ` set (cm_consumptions s) \<and> out = CreditConsumed (cm_next s) (gr_id g) \<and>
    s' = s\<lparr>cm_consumptions := cm_consumptions s @ [\<lparr>cn_id = cm_next s, cn_booking = b, cn_grant = gr_id g,
        cn_subscription = gr_subscription g, cn_period = gr_period g, cn_party = gr_party g, cn_at = ck_db c\<rparr>],
      cm_audit := cm_audit s @ [\<lparr>au_id = Suc (cm_next s), au_user = None, au_action = ''commercial.credit_consumed'',
        au_target = OnSubscription (gr_subscription g)\<rparr>], cm_next := Suc (Suc (cm_next s))\<rparr>"
  using assms by (auto simp: consume_from_def insert_consumption_def bind_res_Inr record_audit_def list_ex_iff split: if_splits)

text \<open>Every outcome but a charge leaves the ledger alone; a charge comes from a positive grant with room.\<close>

lemma consume_effect:
  assumes "consumeForConfirmation c b party s = Inr (out, s')"
  shows "(\<not> (\<exists>i g. out = CreditConsumed i g) \<and> s' = s) \<or>
    (\<exists>g. find (\<lambda>g. activeConsumptionCountByGrant party s (gr_id g) < gr_quantity g) (positiveGrants party s) = Some g \<and>
       b \<notin> cn_booking ` set (cm_consumptions s) \<and> consume_from c b g s = Inr (out, s'))"
  using assms
  by (auto simp: consumeForConfirmation_def Let_def find_consumption_None split: option.splits if_splits)

lemma return_effect:
  assumes "returnForCancellation c b cause rd s = (out, s')"
  shows "(\<not> (\<exists>i. out = CreditReturned i) \<and> s' = s) \<or>
    (\<exists>x. find (\<lambda>x. cn_booking x = b) (cm_consumptions rd) = Some x \<and> cn_id x \<notin> rt_consumption ` set (cm_returns s) \<and>
       out = CreditReturned (cm_next s) \<and>
       s' = s\<lparr>cm_returns := cm_returns s @ [\<lparr>rt_id = cm_next s, rt_consumption = cn_id x, rt_cause = cause, rt_at = ck_db c\<rparr>],
         cm_audit := cm_audit s @ [\<lparr>au_id = Suc (cm_next s), au_user = None, au_action = ''commercial.credit_returned'',
           au_target = OnSubscription (cn_subscription x)\<rparr>], cm_next := Suc (Suc (cm_next s))\<rparr>)"
  using assms
  by (auto simp: returnForCancellation_def insert_once_def record_audit_def split: option.splits if_splits)

section \<open>The ledger is an idempotent log\<close>

text \<open>Confirmations as events keyed by their booking.\<close>

type_synonym charge_event = "clock \<times> nat \<times> seller_party"

definition charge_key :: "charge_event \<Rightarrow> nat" where
  "charge_key e = fst (snd e)"

definition charge :: "charge_event \<Rightarrow> commercial_db \<Rightarrow> commercial_db \<times> bool" where
  "charge e s = (case consumeForConfirmation (fst e) (charge_key e) (snd (snd e)) s of
     Inr (CreditConsumed _ _, s') \<Rightarrow> (s', True) | _ \<Rightarrow> (s, False))"

definition charged_bookings :: "commercial_db \<Rightarrow> nat set" where
  "charged_bookings s = cn_booking ` set (cm_consumptions s)"

lemma charge_True:
  assumes "snd (charge e s)"
  shows "charged_bookings (fst (charge e s)) = insert (charge_key e) (charged_bookings s) \<and> charge_key e \<notin> charged_bookings s"
proof -
  from assms obtain i g s' where r: "consumeForConfirmation (fst e) (charge_key e) (snd (snd e)) s = Inr (CreditConsumed i g, s')"
    by (auto simp: charge_def split: sum.splits consumption_outcome.splits)
  from consume_effect [OF r] obtain g' where "charge_key e \<notin> cn_booking ` set (cm_consumptions s)"
    "consume_from (fst e) (charge_key e) g' s = Inr (CreditConsumed i g, s')"
    by auto
  with consume_from_Inr [OF this(2)] r show ?thesis by (auto simp: charge_def charged_bookings_def)
qed

interpretation charges: idempotent_log charge charge_key charged_bookings
proof
  fix e s assume "\<not> snd (charge e s)"
  then show "fst (charge e s) = s" by (auto simp: charge_def split: sum.splits consumption_outcome.splits)
next
  fix e s assume "snd (charge e s)"
  then show "charged_bookings (fst (charge e s)) = insert (charge_key e) (charged_bookings s)" by (simp add: charge_True)
next
  fix e s assume "charge_key e \<in> charged_bookings s"
  then show "\<not> snd (charge e s)" using charge_True by blast
qed

end
