(* ===== verification/Enforcement.thy ===== *)
theory Enforcement
  imports Credit_Ledger
begin

text \<open>
  Booking-credit enforcement: the control gate
  (\<open>services/commercial-policy/src/commercial-policy-control.gate.ts\<close>), the one-row control and the
  per-party governance with their commands (\<open>enforcement/booking-credit-enforcement-control.service.ts\<close>,
  \<open>booking-credit-enforcement-governance.service.ts\<close>), and the two adapters that put the ledger behind the
  confirmation and cancellation hooks (\<open>apps/api/src/composition/booking-credit-entitlement.adapter.ts\<close>).

  The coordination lock and the party locks make each command one step: activation excludes every other
  command and every creation of a seller, and a party is locked before its governance row is read again.
\<close>

section \<open>The gate\<close>

record policy_controls =
  pc_rollout :: bool
  pc_entitlement :: bool
  pc_business :: bool
  pc_killSwitch :: bool

datatype control_refusal = KillSwitchActive | RolloutDisabled | EntitlementMissing | BusinessPolicyDisabled

definition gate_decide :: "policy_controls \<Rightarrow> control_refusal option" where
  "gate_decide x =
    (if pc_killSwitch x then Some KillSwitchActive
     else if \<not> pc_rollout x then Some RolloutDisabled
     else if \<not> pc_entitlement x then Some EntitlementMissing
     else if \<not> pc_business x then Some BusinessPolicyDisabled
     else None)"

section \<open>Control and governance reads\<close>

definition ENFORCEMENT_ROLLOUT_STATES :: "string list" where
  "ENFORCEMENT_ROLLOUT_STATES = [''inactive'', ''active'']"

definition KILL_SWITCH_STATES :: "string list" where
  "KILL_SWITCH_STATES = [''released'', ''engaged'']"

definition PARTY_GOVERNANCE_STATES :: "string list" where
  "PARTY_GOVERNANCE_STATES = [''legacy_exempt'', ''governed'']"

definition ENFORCEMENT_CONTROL_SINGLETON_ID :: nat where
  "ENFORCEMENT_CONTROL_SINGLETON_ID = 1"

fun requireWellFormed :: "enforcement_control list \<Rightarrow> commercial_error + enforcement_control" where
  "requireWellFormed [row] =
    (if ec_rollout row \<notin> set ENFORCEMENT_ROLLOUT_STATES then Inl (ControlMalformed ''rollout_state'')
     else if ec_killSwitch row \<notin> set KILL_SWITCH_STATES then Inl (ControlMalformed ''kill_switch_state'')
     else Inr row)"
| "requireWellFormed _ = Inl (ControlMalformed ''expected exactly one control row'')"

text \<open>\<open>read\<close>; \<open>readForConfirmation\<close> is the same query with a row lock.\<close>

definition read_control :: "commercial_db \<Rightarrow> commercial_error + enforcement_control" where
  "read_control s = requireWellFormed (filter (\<lambda>x. ec_id x = ENFORCEMENT_CONTROL_SINGLETON_ID) (cm_control s))"

datatype pre_ledger_decision = PreRefuse | PreLegacy | PreActive

definition decideBeforeLedger :: "enforcement_control \<Rightarrow> commercial_error + pre_ledger_decision" where
  "decideBeforeLedger control =
    (case gate_decide \<lparr>pc_rollout = (ec_rollout control = ''active''), pc_entitlement = False, pc_business = False,
                       pc_killSwitch = (ec_killSwitch control = ''engaged'')\<rparr> of
       None \<Rightarrow> Inl (ControlMalformed ''permitted with no entitlement evaluated'')
     | Some KillSwitchActive \<Rightarrow> Inr PreRefuse
     | Some RolloutDisabled \<Rightarrow> Inr PreLegacy
     | Some EntitlementMissing \<Rightarrow> Inr PreActive
     | Some BusinessPolicyDisabled \<Rightarrow> Inl (ControlMalformed ''answered before any plane beyond rollout was evaluated''))"

definition readGovernance :: "seller_party \<Rightarrow> commercial_db \<Rightarrow> party_governance option" where
  "readGovernance party s = find (\<lambda>g. pg_party g = party) (cm_governance s)"

datatype governance_decision = GovRefuse | GovLegacy | GovGoverned

definition decideGovernance :: "enforcement_control \<Rightarrow> party_governance option \<Rightarrow> commercial_error + governance_decision" where
  "decideGovernance control governance =
    (if ec_rollout control \<noteq> ''active'' then Inl (ControlMalformed ''governance was consulted while the rollout is not active'')
     else case governance of
       None \<Rightarrow> Inr GovRefuse
     | Some g \<Rightarrow>
        (if pg_state g \<notin> set PARTY_GOVERNANCE_STATES then Inr GovRefuse
         else if pg_state g = ''governed'' then Inr GovGoverned else Inr GovLegacy))"

definition decideGovernedLedger :: "consumption_outcome \<Rightarrow> commercial_error + bool" where
  "decideGovernedLedger ledger =
    (case gate_decide \<lparr>pc_rollout = True,
        pc_entitlement = (case ledger of CreditConsumed _ _ \<Rightarrow> True | AlreadyConsumed _ \<Rightarrow> True | _ \<Rightarrow> False),
        pc_business = True, pc_killSwitch = False\<rparr> of
       None \<Rightarrow> Inr True
     | Some EntitlementMissing \<Rightarrow> Inr False
     | Some _ \<Rightarrow> Inl (ControlMalformed ''for a governed party under an active rollout''))"

section \<open>Governance commands\<close>

definition requireReason :: "string \<Rightarrow> commercial_error + string" where
  "requireReason reason =
    (let trimmed = js_trim reason in if length trimmed < 3 \<or> 500 < length trimmed then Inl ReasonRequired else Inr trimmed)"

text \<open>\<open>ELIGIBLE_PARTIES_SQL\<close>, in \<open>ORDER BY party_type, party_id\<close>: \<open>business\<close> before \<open>professional\<close>.\<close>

definition live_sellers :: "seller_row list \<Rightarrow> nat list" where
  "live_sellers t = map se_id (filter (\<lambda>r. se_deletedAt r = None) t)"

definition eligible_parties :: "commercial_db \<Rightarrow> seller_party list" where
  "eligible_parties s =
    map (Pair BusinessParty) (sort (live_sellers (cm_businesses s))) @ map (Pair ProfessionalParty) (sort (live_sellers (cm_professionals s)))"

record enforcement_partition =
  ep_eligible :: nat
  ep_governed :: nat
  ep_legacyExempt :: nat
  ep_unresolved :: nat
  ep_wouldBeRefused :: nat

definition governance_state :: "commercial_db \<Rightarrow> seller_party \<Rightarrow> string option" where
  "governance_state s p = map_option pg_state (readGovernance p s)"

definition partition_parties :: "commercial_db \<Rightarrow> enforcement_partition" where
  "partition_parties s =
    (let n = (\<lambda>P. length (filter P (eligible_parties s)));
         granted = (\<lambda>p. sum_list (map gr_quantity (filter (\<lambda>g. gr_party g = p \<and> 0 < gr_quantity g) (cm_grants s))))
     in \<lparr>ep_eligible = length (eligible_parties s),
         ep_governed = n (\<lambda>p. governance_state s p = Some ''governed''),
         ep_legacyExempt = n (\<lambda>p. governance_state s p = Some ''legacy_exempt''),
         ep_unresolved = n (\<lambda>p. governance_state s p = None),
         ep_wouldBeRefused = n (\<lambda>p. governance_state s p = Some ''governed'' \<and> granted p - activeConsumptionCount p s \<le> 0)\<rparr>)"

text \<open>The oldest positive grant is the proof of entitlement.\<close>

definition proof_grant :: "seller_party \<Rightarrow> commercial_db \<Rightarrow> nat option" where
  "proof_grant p s = (case positiveGrants p s of [] \<Rightarrow> None | g # _ \<Rightarrow> Some (gr_id g))"

text \<open>\<open>ck_bcpg_cause_state\<close>, \<open>ck_bcpg_proof\<close>, \<open>ck_bcpg_governed_at\<close>, \<open>uq_bcpg_party\<close>.\<close>

definition governance_row_ok :: "party_governance \<Rightarrow> bool" where
  "governance_row_ok g \<longleftrightarrow>
    (if pg_cause g = ExplicitExemption then pg_state g = ''legacy_exempt'' else pg_state g = ''governed'') \<and>
    (pg_cause g = ExplicitTransition) = (pg_proofGrant g \<noteq> None) \<and> (pg_state g = ''governed'') = (pg_governedAt g \<noteq> None) \<and>
    ((pg_recordedByUser g = None) \<noteq> (pg_recordedByLabel g = None))"

definition insert_governance :: "party_governance \<Rightarrow> commercial_db \<Rightarrow> commercial_error + commercial_db" where
  "insert_governance g s =
    (if \<not> governance_row_ok g then Inl CommercialCheckViolation
     else if list_ex (\<lambda>y. pg_party y = pg_party g) (cm_governance s) then Inl CommercialUniqueViolation
     else Inr (s\<lparr>cm_governance := cm_governance s @ [g], cm_next := Suc (cm_next s)\<rparr>))"

text \<open>One party of the transition plan: an update of its exemption row, or a new row.\<close>

definition govern_party :: "clock \<Rightarrow> nat \<Rightarrow> nat \<Rightarrow> seller_party \<times> nat \<Rightarrow> commercial_db \<Rightarrow> commercial_error + commercial_db" where
  "govern_party c actor auditId entry s =
    (case readGovernance (fst entry) s of
       Some g \<Rightarrow> Inr (s\<lparr>cm_governance := tupd (\<lambda>x. pg_id x = pg_id g) (\<lambda>x. x\<lparr>pg_state := ''governed'', pg_cause := ExplicitTransition,
                    pg_governedAt := Some (ck_js c), pg_proofGrant := Some (snd entry), pg_recordedByUser := Some actor,
                    pg_recordedByLabel := None, pg_audit := auditId\<rparr>) (cm_governance s)\<rparr>)
     | None \<Rightarrow> insert_governance \<lparr>pg_id = cm_next s, pg_party = fst entry, pg_state = ''governed'', pg_cause = ExplicitTransition,
                 pg_proofGrant = Some (snd entry), pg_governedAt = Some (ck_js c), pg_recordedByUser = Some actor,
                 pg_recordedByLabel = None, pg_audit = auditId\<rparr> s)"

fun run_plan :: "('x \<Rightarrow> commercial_db \<Rightarrow> commercial_error + commercial_db) \<Rightarrow> 'x list \<Rightarrow> commercial_db \<Rightarrow> commercial_error + commercial_db" where
  "run_plan f [] s = Inr s"
| "run_plan f (x # xs) s = bind_res (f x s) (run_plan f xs)"

text \<open>\<open>rd\<close> is what the candidate query saw; each candidate is read again under its party lock. Answer: affected, skipped.\<close>

definition transitionEntitledParties :: "clock \<Rightarrow> nat \<Rightarrow> string \<Rightarrow> commercial_db \<Rightarrow> commercial_db \<Rightarrow>
    commercial_error + (nat \<times> nat) \<times> commercial_db" where
  "transitionEntitledParties c actor reason rd s =
    bind_res (requireReason reason) (\<lambda>_. bind_res (read_control s) (\<lambda>_.
    let candidates = filter (\<lambda>p. governance_state rd p \<in> {None, Some ''legacy_exempt''}) (eligible_parties rd);
        skipped = length (filter (\<lambda>p. proof_grant p rd = None) candidates);
        plan = concat (map (\<lambda>p. case proof_grant p rd of
                  None \<Rightarrow> []
                | Some g \<Rightarrow> if governance_state s p = Some ''governed'' then [] else [(p, g)]) candidates)
    in if plan = [] then Inr ((0, skipped), s)
       else let (auditId, s1) = record_audit (Some actor) ''commercial.enforcement_parties_governed'' OnGovernance s
            in bind_res (run_plan (govern_party c actor auditId) plan s1) (\<lambda>s2. Inr ((length plan, skipped), s2))))"

definition exempt_party :: "nat \<Rightarrow> nat \<Rightarrow> seller_party \<Rightarrow> commercial_db \<Rightarrow> commercial_error + commercial_db" where
  "exempt_party actor auditId p s =
    insert_governance \<lparr>pg_id = cm_next s, pg_party = p, pg_state = ''legacy_exempt'', pg_cause = ExplicitExemption,
      pg_proofGrant = None, pg_governedAt = None, pg_recordedByUser = Some actor, pg_recordedByLabel = None, pg_audit = auditId\<rparr> s"

definition exemptUnentitledParties :: "clock \<Rightarrow> nat \<Rightarrow> string \<Rightarrow> commercial_db \<Rightarrow> commercial_db \<Rightarrow>
    commercial_error + (nat \<times> nat) \<times> commercial_db" where
  "exemptUnentitledParties c actor reason rd s =
    bind_res (requireReason reason) (\<lambda>_. bind_res (read_control s) (\<lambda>_.
    let candidates = filter (\<lambda>p. governance_state rd p = None) (eligible_parties rd);
        skipped = length (filter (\<lambda>p. proof_grant p rd \<noteq> None) candidates);
        plan = filter (\<lambda>p. proof_grant p rd = None \<and> readGovernance p s = None) candidates
    in if plan = [] then Inr ((0, skipped), s)
       else let (auditId, s1) = record_audit (Some actor) ''commercial.enforcement_parties_exempted'' OnGovernance s
            in bind_res (run_plan (exempt_party actor auditId) plan s1) (\<lambda>s2. Inr ((length plan, skipped), s2))))"

text \<open>Inside the transaction that creates the seller.\<close>

definition initializeCreatedParty :: "clock \<Rightarrow> seller_party \<Rightarrow> commercial_db \<Rightarrow> commercial_error + commercial_db" where
  "initializeCreatedParty c party s =
    bind_res (read_control s) (\<lambda>control.
    if ec_rollout control \<noteq> ''active'' then Inr s
    else let (auditId, s1) = record_audit None ''commercial.enforcement_party_governed_at_creation'' OnGovernance s
         in insert_governance \<lparr>pg_id = cm_next s1, pg_party = party, pg_state = ''governed'', pg_cause = CreatedUnderEnforcement,
              pg_proofGrant = None, pg_governedAt = Some (ck_js c), pg_recordedByUser = None,
              pg_recordedByLabel = Some SYSTEM_ACTOR_LABEL, pg_audit = auditId\<rparr> s1)"

definition update_control :: "(enforcement_control \<Rightarrow> enforcement_control) \<Rightarrow> commercial_db \<Rightarrow> commercial_db" where
  "update_control f s = s\<lparr>cm_control := tupd (\<lambda>x. ec_id x = ENFORCEMENT_CONTROL_SINGLETON_ID) f (cm_control s)\<rparr>"

definition control_row :: "commercial_db \<Rightarrow> enforcement_control option" where
  "control_row s = find (\<lambda>x. ec_id x = ENFORCEMENT_CONTROL_SINGLETON_ID) (cm_control s)"

text \<open>The answer of the commands is the control row as read back.\<close>

definition activateEnforcement :: "clock \<Rightarrow> nat \<Rightarrow> string \<Rightarrow> commercial_db \<Rightarrow> commercial_error + enforcement_control \<times> commercial_db" where
  "activateEnforcement c actor reason s =
    bind_res (requireReason reason) (\<lambda>_.
    case control_row s of
      None \<Rightarrow> Inl (ControlMalformed ''the singleton row is missing'')
    | Some current \<Rightarrow>
       (if ec_rollout current = ''active'' then bind_res (read_control s) (\<lambda>row. Inr (row, s))
        else if ec_rollout current \<noteq> ''inactive'' then Inl (ControlMalformed ''rollout_state'')
        else if ep_unresolved (partition_parties s) > 0 then Inl (ActivationRefused (ep_unresolved (partition_parties s)))
        else let (auditId, s1) = record_audit (Some actor) ''commercial.enforcement_activated'' OnControl s;
                 s2 = update_control (\<lambda>x. x\<lparr>ec_rollout := ''active'', ec_generation := Suc (ec_generation x),
                        ec_activatedAt := Some (ck_db c), ec_activationAudit := Some auditId\<rparr>) s1
             in bind_res (read_control s2) (\<lambda>row. Inr (row, s2))))"

definition moveKillSwitch :: "clock \<Rightarrow> nat \<Rightarrow> string \<Rightarrow> string \<Rightarrow> string \<Rightarrow> commercial_db \<Rightarrow>
    commercial_error + enforcement_control \<times> commercial_db" where
  "moveKillSwitch c actor reason target action s =
    bind_res (requireReason reason) (\<lambda>_.
    case control_row s of
      None \<Rightarrow> Inl (ControlMalformed ''the singleton row is missing'')
    | Some current \<Rightarrow>
       (if ec_killSwitch current = target then bind_res (read_control s) (\<lambda>row. Inr (row, s))
        else let (auditId, s1) = record_audit (Some actor) action OnControl s;
                 s2 = update_control (\<lambda>x. x\<lparr>ec_killSwitch := target, ec_killSwitchAt := Some (ck_db c),
                        ec_killSwitchAudit := Some auditId\<rparr>) s1
             in bind_res (read_control s2) (\<lambda>row. Inr (row, s2))))"

definition engageKillSwitch :: "clock \<Rightarrow> nat \<Rightarrow> string \<Rightarrow> commercial_db \<Rightarrow> commercial_error + enforcement_control \<times> commercial_db" where
  "engageKillSwitch c actor reason = moveKillSwitch c actor reason ''engaged'' ''commercial.enforcement_kill_switch_engaged''"

definition releaseKillSwitch :: "clock \<Rightarrow> nat \<Rightarrow> string \<Rightarrow> commercial_db \<Rightarrow> commercial_error + enforcement_control \<times> commercial_db" where
  "releaseKillSwitch c actor reason = moveKillSwitch c actor reason ''released'' ''commercial.enforcement_kill_switch_released''"

section \<open>The hooks\<close>

datatype confirmation_entitlement =
    Permitted consumption_outcome
  | EntitlementInsufficient
  | EntitlementIneligible
  | EntitlementRefused control_refusal

text \<open>The whole adapter: the order's party, the planes before the ledger, governance under an active rollout, the
  charge, and the verdict on the charge of a governed party. A malformed control aborts the transaction.\<close>

definition governed_confirmation :: "enforcement_control \<Rightarrow> pre_ledger_decision \<Rightarrow> seller_party \<Rightarrow> commercial_db \<Rightarrow>
    commercial_error + governance_decision" where
  "governed_confirmation control pre party s =
    (if pre = PreActive then decideGovernance control (readGovernance party s) else Inr GovLegacy)"

definition onBookingConfirmation :: "clock \<Rightarrow> nat \<Rightarrow> order_db \<Rightarrow> commercial_db \<Rightarrow>
    commercial_error + confirmation_entitlement \<times> commercial_db" where
  "onBookingConfirmation c bookingId orders s =
    (case find (\<lambda>x. od_sourceType x = SourceBooking \<and> od_source x = bookingId) (om_orders orders) of
       None \<Rightarrow> Inr (EntitlementIneligible, s)
     | Some od \<Rightarrow>
        bind_res (read_control s) (\<lambda>control.
        bind_res (decideBeforeLedger control) (\<lambda>pre.
        if pre = PreRefuse then Inr (EntitlementRefused KillSwitchActive, s)
        else bind_res (governed_confirmation control pre (od_seller od) s) (\<lambda>policy.
        if policy = GovRefuse then Inr (EntitlementRefused BusinessPolicyDisabled, s)
        else bind_res (consumeForConfirmation c bookingId (od_seller od) s) (\<lambda>(result, s1).
        bind_res (if policy = GovGoverned then decideGovernedLedger result else Inr True) (\<lambda>permit.
        if \<not> permit then Inr (EntitlementRefused EntitlementMissing, s1)
        else Inr (if result = InsufficientCredit then EntitlementInsufficient else Permitted result, s1)))))))"

definition CAUSE_BY_ACTOR :: "booking_actor_type \<Rightarrow> return_cause option" where
  "CAUSE_BY_ACTOR actor = (case actor of ActProfessional \<Rightarrow> Some SellerCancelled | ActSystem \<Rightarrow> Some PlatformCancelled
     | ActAdmin \<Rightarrow> Some PlatformCancelled | ActCustomer \<Rightarrow> None)"

definition onBookingCancellation :: "clock \<Rightarrow> nat \<Rightarrow> booking_actor_type \<Rightarrow> bool \<Rightarrow> commercial_db \<Rightarrow> commercial_db \<Rightarrow> commercial_db" where
  "onBookingCancellation c bookingId actor wasConfirmed rd s =
    (if \<not> wasConfirmed then s
     else case CAUSE_BY_ACTOR actor of
            None \<Rightarrow> s
          | Some cause \<Rightarrow> snd (returnForCancellation c bookingId cause rd s))"

end
