(* ===== verification/Credit_Invariant.thy ===== *)
theory Credit_Invariant
  imports Enforcement Row_History
begin

text \<open>
  The invariant of the subscription and credit tables and the invariant of the enforcement tables, each
  preserved by every operation, and the step relation over all of them. Reads that may be stale are
  arbitrary where the writes guard themselves; a read of an append-only ledger saw a subset of its rows.
\<close>

section \<open>The credit tables\<close>

definition used_of :: "commercial_db \<Rightarrow> nat \<Rightarrow> int" where
  "used_of s i = int (length (filter (\<lambda>x. cn_grant x = i \<and> active_consumption s x) (cm_consumptions s)))"

definition grant_ok :: "subscription list \<Rightarrow> credit_grant \<Rightarrow> bool" where
  "grant_ok subs g \<longleftrightarrow> (\<exists>x \<in> set subs. su_id x = gr_subscription g \<and> su_party x = gr_party g \<and> su_credits x = gr_quantity g) \<and>
     0 \<le> gr_quantity g \<and> gr_period g = INITIAL_GRANT_PERIOD_INDEX"

definition consumption_ok :: "credit_grant list \<Rightarrow> credit_consumption \<Rightarrow> bool" where
  "consumption_ok gs x \<longleftrightarrow> (\<exists>g \<in> set gs. gr_id g = cn_grant x \<and> gr_subscription g = cn_subscription x \<and> gr_party g = cn_party x)"

definition subscriptions_ok :: "subscription list \<Rightarrow> credit_grant list \<Rightarrow> bool" where
  "subscriptions_ok subs gs \<longleftrightarrow> keyed su_id subs \<and> distinct (map su_party (filter (\<lambda>x. su_state x = SubActive) subs)) \<and>
     keyed gr_id gs \<and> distinct (map gr_subscription gs) \<and> su_id ` set subs = gr_subscription ` set gs \<and> (\<forall>g \<in> set gs. grant_ok subs g)"

definition ledger_ok :: "commercial_db \<Rightarrow> bool" where
  "ledger_ok s \<longleftrightarrow> keyed cn_id (cm_consumptions s) \<and> distinct (map cn_booking (cm_consumptions s)) \<and>
     (\<forall>x \<in> set (cm_consumptions s). consumption_ok (cm_grants s) x) \<and>
     distinct (map rt_consumption (cm_returns s)) \<and> rt_consumption ` set (cm_returns s) \<subseteq> cn_id ` set (cm_consumptions s) \<and>
     (\<forall>g \<in> set (cm_grants s). used_of s (gr_id g) \<le> gr_quantity g)"

definition ids_below :: "commercial_db \<Rightarrow> bool" where
  "ids_below s \<longleftrightarrow> (\<forall>i \<in> su_id ` set (cm_subscriptions s) \<union> gr_id ` set (cm_grants s) \<union> cn_id ` set (cm_consumptions s). i < cm_next s)"

definition credit_inv :: "commercial_db \<Rightarrow> bool" where
  "credit_inv s \<longleftrightarrow> subscriptions_ok (cm_subscriptions s) (cm_grants s) \<and> ledger_ok s \<and> ids_below s"

lemma credit_invI:
  "subscriptions_ok (cm_subscriptions s) (cm_grants s) \<Longrightarrow> ledger_ok s \<Longrightarrow> ids_below s \<Longrightarrow> credit_inv s"
  by (simp add: credit_inv_def)

lemma credit_invD:
  assumes "credit_inv s"
  shows "subscriptions_ok (cm_subscriptions s) (cm_grants s)" "ledger_ok s" "ids_below s"
  using assms by (simp_all add: credit_inv_def)

lemma ledger_frame:
  assumes "cm_grants s' = cm_grants s" "cm_consumptions s' = cm_consumptions s" "cm_returns s' = cm_returns s"
  shows "ledger_ok s' = ledger_ok s"
proof -
  have "used_of s' = used_of s" by (rule ext) (simp add: used_of_def active_consumption_def assms)
  then show ?thesis by (simp add: ledger_ok_def assms)
qed

text \<open>Fields outside the four tables do not matter, and identifiers may be drawn.\<close>

lemma credit_inv_frame:
  assumes "credit_inv s" "cm_subscriptions s' = cm_subscriptions s" "cm_grants s' = cm_grants s"
    "cm_consumptions s' = cm_consumptions s" "cm_returns s' = cm_returns s" "cm_next s \<le> cm_next s'"
  shows "credit_inv s'"
proof (rule credit_invI)
  show "ledger_ok s'" using ledger_frame [OF assms(3-5)] credit_invD(2) [OF assms(1)] by simp
  show "ids_below s'" using credit_invD(3) [OF assms(1)] assms(2-6) unfolding ids_below_def by (metis less_le_trans)
qed (use credit_invD(1) [OF assms(1)] assms(2,3) in simp)

lemma audit_frame:
  "cm_subscriptions (snd (record_audit u a t s)) = cm_subscriptions s"
  "cm_grants (snd (record_audit u a t s)) = cm_grants s"
  "cm_consumptions (snd (record_audit u a t s)) = cm_consumptions s"
  "cm_returns (snd (record_audit u a t s)) = cm_returns s"
  "cm_control (snd (record_audit u a t s)) = cm_control s"
  "cm_governance (snd (record_audit u a t s)) = cm_governance s"
  "cm_professionals (snd (record_audit u a t s)) = cm_professionals s"
  "cm_businesses (snd (record_audit u a t s)) = cm_businesses s"
  "cm_next (snd (record_audit u a t s)) = Suc (cm_next s)"
  by (simp_all add: record_audit_def)

lemma audit_inv: "credit_inv s \<Longrightarrow> credit_inv (snd (record_audit u a t s))"
  using credit_inv_frame [of s "snd (record_audit u a t s)"] by (simp add: audit_frame le_SucI)

lemma transition_subscription_inv:
  assumes inv: "credit_inv s" and r: "transitionSubscription i to patch s = Inr s'" and to: "to \<noteq> SubActive"
    and patch: "\<And>x. su_id (patch x) = su_id x \<and> su_party (patch x) = su_party x \<and> su_credits (patch x) = su_credits x \<and> su_state (patch x) = su_state x"
  shows "credit_inv s'" "i \<in> su_id ` set (cm_subscriptions s)" "cm_next s' = cm_next s" "cm_grants s' = cm_grants s"
    "su_id ` set (cm_subscriptions s') = su_id ` set (cm_subscriptions s)"
proof -
  let ?P = "\<lambda>x. su_id x = i \<and> su_state x = SubActive" and ?f = "\<lambda>x. patch (x\<lparr>su_state := to\<rparr>)"
  have s': "s' = s\<lparr>cm_subscriptions := tupd ?P ?f (cm_subscriptions s)\<rparr>" and one: "taffected ?P (cm_subscriptions s) = 1"
    using r by (auto simp: transitionSubscription_def Let_def split: if_splits)
  have k: "su_id (?f x) = su_id x" for x by (simp add: patch)
  note D = credit_invD [OF inv]
  have ids: "su_id ` set (tupd ?P ?f (cm_subscriptions s)) = su_id ` set (cm_subscriptions s)" by (rule keys_tupd) (rule k)
  have "grant_ok (tupd ?P ?f (cm_subscriptions s)) g" if "grant_ok (cm_subscriptions s) g" for g
  proof -
    from that obtain x where x: "x \<in> set (cm_subscriptions s)" "su_id x = gr_subscription g" "su_party x = gr_party g" "su_credits x = gr_quantity g"
      by (auto simp: grant_ok_def)
    have "(if ?P x then ?f x else x) \<in> set (tupd ?P ?f (cm_subscriptions s))" using x(1) by (auto simp: set_tupd)
    moreover have "su_id (if ?P x then ?f x else x) = gr_subscription g \<and> su_party (if ?P x then ?f x else x) = gr_party g \<and>
        su_credits (if ?P x then ?f x else x) = gr_quantity g" using x by (simp add: patch)
    ultimately show ?thesis using that unfolding grant_ok_def by blast
  qed
  moreover have "distinct (map su_party (filter (\<lambda>x. su_state x = SubActive) (tupd ?P ?f (cm_subscriptions s))))"
    by (rule partial_unique_tupd) (use D(1) in \<open>simp_all add: subscriptions_ok_def patch to\<close>)
  ultimately have "subscriptions_ok (tupd ?P ?f (cm_subscriptions s)) (cm_grants s)"
    using D(1) by (simp add: subscriptions_ok_def keyed_tupd k ids)
  moreover have "ledger_ok s'" using D(2) ledger_frame [of s' s] by (simp add: s')
  moreover have "ids_below s'" using D(3) by (simp add: ids_below_def s' ids)
  ultimately show "credit_inv s'" by (intro credit_invI) (simp_all add: s')
  have "taffected ?P (cm_subscriptions s) \<noteq> 0" using one by simp
  then obtain x where "x \<in> set (cm_subscriptions s)" "su_id x = i" unfolding taffected_0_iff by blast
  then show "i \<in> su_id ` set (cm_subscriptions s)" by blast
  show "cm_next s' = cm_next s" "cm_grants s' = cm_grants s"
    "su_id ` set (cm_subscriptions s') = su_id ` set (cm_subscriptions s)" by (simp_all add: s' ids)
qed

lemma insert_subscription_Inr:
  "insert_subscription ignore x s = Inr (w, s') \<longleftrightarrow> subscription_row_ok x \<and>
    ((w \<and> \<not> active_taken (su_party x) s \<and> s' = s\<lparr>cm_subscriptions := cm_subscriptions s @ [x]\<rparr>) \<or>
     (\<not> w \<and> ignore \<and> active_taken (su_party x) s \<and> s' = s))"
  by (auto simp: insert_subscription_def split: if_splits)

text \<open>A grant can only be new: the subscription is.\<close>

lemma issue_fresh:
  assumes "issueForActivation c x s = Inr (g, s')" "su_id x \<notin> gr_subscription ` set (cm_grants s)"
  shows "g = \<lparr>gr_id = cm_next s, gr_subscription = su_id x, gr_planVersion = su_planVersion x, gr_party = su_party x,
      gr_source = PlanIncluded, gr_quantity = su_credits x, gr_period = INITIAL_GRANT_PERIOD_INDEX, gr_grantedAt = ck_db c, gr_expiresAt = None\<rparr> \<and>
    0 \<le> su_credits x \<and> su_credits x \<le> 1000000000 \<and>
    s' = s\<lparr>cm_grants := cm_grants s @ [g], cm_audit := cm_audit s @ [\<lparr>au_id = Suc (cm_next s), au_user = None,
      au_action = ''commercial.credits_granted'', au_target = OnSubscription (su_id x)\<rparr>], cm_next := Suc (Suc (cm_next s))\<rparr>"
proof -
  have "find (same_grant (su_id x)) (cm_grants s) = None"
    using assms(2) by (force simp: find_None_iff same_grant_def)
  then show ?thesis
    using assms(1) by (auto simp: issueForActivation_def Let_def bind_res_Inr insert_grant_def record_audit_def split: if_splits)
qed

lemma new_subscription_fields [simp]:
  "su_id (new_subscription i c p v pr a) = i" "su_party (new_subscription i c p v pr a) = p"
  "su_state (new_subscription i c p v pr a) = SubActive" "su_credits (new_subscription i c p v pr a) = pv_credits v"
  "su_planVersion (new_subscription i c p v pr a) = pv_id v"
  by (simp_all add: new_subscription_def)

text \<open>What an activation writes: nothing, or the subscription together with its grant.\<close>

definition activated :: "subscription \<Rightarrow> credit_grant \<Rightarrow> audit_row list \<Rightarrow> nat \<Rightarrow> commercial_db \<Rightarrow> commercial_db" where
  "activated x g aud m s = s\<lparr>cm_subscriptions := cm_subscriptions s @ [x], cm_grants := cm_grants s @ [g],
     cm_audit := aud, cm_next := m\<rparr>"

definition plan_grant :: "nat \<Rightarrow> clock \<Rightarrow> subscription \<Rightarrow> credit_grant" where
  "plan_grant i c x = \<lparr>gr_id = i, gr_subscription = su_id x, gr_planVersion = su_planVersion x, gr_party = su_party x,
     gr_source = PlanIncluded, gr_quantity = su_credits x, gr_period = INITIAL_GRANT_PERIOD_INDEX, gr_grantedAt = ck_db c, gr_expiresAt = None\<rparr>"

lemma plan_grant_fields [simp]:
  "gr_id (plan_grant i c x) = i" "gr_subscription (plan_grant i c x) = su_id x" "gr_party (plan_grant i c x) = su_party x"
  "gr_quantity (plan_grant i c x) = su_credits x" "gr_period (plan_grant i c x) = INITIAL_GRANT_PERIOD_INDEX"
  by (simp_all add: plan_grant_def)

lemma write_effect:
  assumes r: "write_subscription c x action ignore s = Inr (created, s')" and fresh: "su_id x \<notin> gr_subscription ` set (cm_grants s)"
  shows "(created = None \<and> ignore \<and> active_taken (su_party x) s \<and> s' = s) \<or>
    (\<exists>aud. created = Some x \<and> \<not> active_taken (su_party x) s \<and> subscription_row_ok x \<and> 0 \<le> su_credits x \<and>
       s' = activated x (plan_grant (Suc (cm_next s)) c x) aud (cm_next s + 3) s)"
proof -
  from r obtain w s1 where ins: "insert_subscription ignore x s = Inr (w, s1)"
    and rest: "(if \<not> w then Inr (None, s1) else bind_res (issueForActivation c x
        (snd (record_audit (su_createdByUser x) action (OnSubscription (su_id x)) s1))) (\<lambda>(_, s2). Inr (Some x, s2))) = Inr (created, s')"
    by (auto simp: write_subscription_def bind_res_Inr)
  show ?thesis
  proof (cases w)
    case False
    with ins rest show ?thesis by (auto simp: insert_subscription_Inr)
  next
    case True
    with ins have s1: "s1 = s\<lparr>cm_subscriptions := cm_subscriptions s @ [x]\<rparr>" "\<not> active_taken (su_party x) s" "subscription_row_ok x"
      by (auto simp: insert_subscription_Inr)
    define s2 where "s2 = snd (record_audit (su_createdByUser x) action (OnSubscription (su_id x)) s1)"
    obtain g where g: "issueForActivation c x s2 = Inr (g, s')" and cr: "created = Some x"
      using rest True by (auto simp: bind_res_Inr s2_def)
    have "su_id x \<notin> gr_subscription ` set (cm_grants s2)" using fresh by (simp add: s2_def audit_frame s1)
    from issue_fresh [OF g this] have
      "g = plan_grant (Suc (cm_next s)) c x" "0 \<le> su_credits x"
      "s' = s2\<lparr>cm_grants := cm_grants s2 @ [g], cm_audit := cm_audit s', cm_next := cm_next s + 3\<rparr>"
      by (simp_all add: s2_def audit_frame s1 plan_grant_def)
    moreover have "s2\<lparr>cm_grants := a, cm_audit := b, cm_next := d\<rparr> = s\<lparr>cm_subscriptions := cm_subscriptions s @ [x], cm_grants := a, cm_audit := b, cm_next := d\<rparr>" for a b d
      by (simp add: s2_def record_audit_def s1)
    moreover have "cm_grants s2 = cm_grants s" by (simp add: s2_def audit_frame s1)
    ultimately show ?thesis using cr s1(2,3) by (auto simp: activated_def)
  qed
qed

lemma active_taken_iff: "active_taken p s \<longleftrightarrow> p \<in> su_party ` set (filter (\<lambda>x. su_state x = SubActive) (cm_subscriptions s))"
  by (force simp: active_taken_def list_ex_iff)

lemma write_inv:
  assumes inv: "credit_inv s" and r: "write_subscription c x action ignore s = Inr (created, s')"
    and x: "su_id x \<notin> su_id ` set (cm_subscriptions s)" "su_id x < cm_next s" "su_state x = SubActive"
  shows "credit_inv s'"
proof -
  note D = credit_invD [OF inv]
  have nsub: "su_id x \<notin> gr_subscription ` set (cm_grants s)" using D(1) x(1) by (simp add: subscriptions_ok_def)
  from write_effect [OF r nsub] consider "s' = s"
    | aud where "\<not> active_taken (su_party x) s" "0 \<le> su_credits x" "s' = activated x (plan_grant (Suc (cm_next s)) c x) aud (cm_next s + 3) s"
    by blast
  then show ?thesis
  proof cases
    case 1
    with inv show ?thesis by simp
  next
    case 2
    define g where "g = plan_grant (Suc (cm_next s)) c x"
    have gid: "gr_id g \<notin> gr_id ` set (cm_grants s)" "gr_id g \<notin> cn_grant ` set (cm_consumptions s)"
    proof -
      have "gr_id h < Suc (cm_next s)" if "h \<in> set (cm_grants s)" for h
        using D(3) that by (simp add: ids_below_def less_SucI)
      then show new: "gr_id g \<notin> gr_id ` set (cm_grants s)" by (metis g_def imageE less_irrefl plan_grant_fields(1))
      have "cn_grant y \<in> gr_id ` set (cm_grants s)" if "y \<in> set (cm_consumptions s)" for y
      proof -
        have "consumption_ok (cm_grants s) y" using D(2) that by (simp add: ledger_ok_def)
        then obtain h where "h \<in> set (cm_grants s)" "gr_id h = cn_grant y" unfolding consumption_ok_def by blast
        then show ?thesis by (metis imageI)
      qed
      with new show "gr_id g \<notin> cn_grant ` set (cm_consumptions s)" by (metis imageE)
    qed
    have grants: "grant_ok (cm_subscriptions s @ [x]) g" "\<And>h. grant_ok (cm_subscriptions s) h \<Longrightarrow> grant_ok (cm_subscriptions s @ [x]) h"
      using 2(2) by (auto simp: grant_ok_def g_def)
    have "subscriptions_ok (cm_subscriptions s @ [x]) (cm_grants s @ [g])"
    proof -
      have "keyed su_id (cm_subscriptions s @ [x])" "keyed gr_id (cm_grants s @ [g])" "distinct (map gr_subscription (cm_grants s @ [g]))"
        using D(1) x(1) gid(1) nsub by (simp_all add: subscriptions_ok_def keyed_append g_def)
      moreover have "distinct (map su_party (filter (\<lambda>x. su_state x = SubActive) (cm_subscriptions s @ [x])))"
        using D(1) 2(1) by (simp add: subscriptions_ok_def active_taken_iff)
      moreover have "su_id ` set (cm_subscriptions s @ [x]) = gr_subscription ` set (cm_grants s @ [g])"
        using D(1) by (simp add: subscriptions_ok_def g_def)
      moreover have "\<forall>h \<in> set (cm_grants s @ [g]). grant_ok (cm_subscriptions s @ [x]) h"
        using D(1) grants by (simp add: subscriptions_ok_def)
      ultimately show ?thesis unfolding subscriptions_ok_def by blast
    qed
    moreover have "ledger_ok s'"
    proof -
      have empty: "used_of s (gr_id g) = 0" using gid(2) by (force simp: used_of_def filter_empty_conv)
      have same: "used_of s' i = used_of s i" for i by (simp add: used_of_def active_consumption_def 2(3) activated_def)
      have "consumption_ok (cm_grants s @ [g]) y" if "consumption_ok (cm_grants s) y" for y using that by (auto simp: consumption_ok_def)
      then have "\<forall>y \<in> set (cm_consumptions s). consumption_ok (cm_grants s @ [g]) y" using D(2) by (simp add: ledger_ok_def)
      moreover have "\<forall>h \<in> set (cm_grants s @ [g]). used_of s (gr_id h) \<le> gr_quantity h"
        using D(2) empty 2(2) by (simp add: ledger_ok_def g_def)
      moreover have "cm_grants s' = cm_grants s @ [g]" "cm_consumptions s' = cm_consumptions s" "cm_returns s' = cm_returns s"
        by (simp_all add: 2(3) activated_def g_def)
      ultimately show ?thesis using D(2) by (simp add: ledger_ok_def same)
    qed
    moreover have "ids_below s'" using D(3) x(2) by (auto simp: ids_below_def 2(3) activated_def intro: trans_less_add1)
    ultimately show ?thesis by (intro credit_invI) (simp_all add: 2(3) activated_def g_def)
  qed
qed

text \<open>The subscription operations.\<close>

lemma ids_fresh:
  assumes "credit_inv s"
  shows "cm_next s \<notin> su_id ` set (cm_subscriptions s)" "cm_next s \<notin> cn_id ` set (cm_consumptions s)"
  using credit_invD(3) [OF assms] unfolding ids_below_def by (metis UnI1 UnI2 less_irrefl)+

lemma bump_inv: "credit_inv s \<Longrightarrow> credit_inv (s\<lparr>cm_next := Suc (cm_next s)\<rparr>)"
  using credit_inv_frame [of s "s\<lparr>cm_next := Suc (cm_next s)\<rparr>"] by simp

lemma activate_inv:
  assumes inv: "credit_inv s" and r: "activateSubscription cat c given p v action actor ignore s = Inr (created, s')"
    and given: "\<And>i. given = Some i \<Longrightarrow> i \<notin> su_id ` set (cm_subscriptions s) \<and> i < cm_next s"
  shows "credit_inv s'"
proof -
  from r obtain price where price: "(case given of
      Some i \<Rightarrow> write_subscription c (new_subscription i c p v price actor) action ignore s
    | None \<Rightarrow> write_subscription c (new_subscription (cm_next s) c p v price actor) action ignore (s\<lparr>cm_next := Suc (cm_next s)\<rparr>)) = Inr (created, s')"
    by (auto simp: activateSubscription_def bind_res_Inr)
  show ?thesis
  proof (cases given)
    case (Some i)
    show ?thesis by (rule write_inv [OF inv]) (use price given Some in auto)
  next
    case None
    show ?thesis by (rule write_inv [OF bump_inv [OF inv]]) (use price None ids_fresh [OF inv] in auto)
  qed
qed

lemma ensure_inv:
  assumes "credit_inv s" "ensureBaseSubscriptionWithin cat c p rd s = Inr (x, s')"
  shows "credit_inv s'"
proof (cases "findActive p rd")
  case None
  with assms(2) obtain v created s1 where a: "activateSubscription cat c None p v ''commercial.subscription_assigned'' None True s = Inr (created, s1)"
    and "s' = s1" by (auto simp: ensureBaseSubscriptionWithin_def bind_res_Inr split: if_splits option.splits)
  with activate_inv [OF assms(1) a] show ?thesis by simp
qed (use assms in \<open>simp add: ensureBaseSubscriptionWithin_def\<close>)

lemma supersede_inv:
  assumes "credit_inv s" "supersede c current i s = Inr s'"
  shows "credit_inv s' \<and> cm_next s < cm_next s' \<and> su_id ` set (cm_subscriptions s') = su_id ` set (cm_subscriptions s)"
proof -
  from assms(2) obtain s1 where t: "transitionSubscription (su_id current) SubSuperseded (\<lambda>x. x\<lparr>su_supersededAt := Some (ck_js c),
      su_supersededBy := Some i\<rparr>) s = Inr s1" and s': "s' = snd (record_audit None ''commercial.subscription_superseded'' (OnSubscription (su_id current)) s1)"
    by (auto simp: supersede_def bind_res_Inr)
  note T = transition_subscription_inv [OF assms(1) t]
  show ?thesis using audit_inv [OF T(1)] T(3,5) by (simp add: s' audit_frame)
qed

lemma select_inv:
  assumes inv: "credit_inv s" and r: "applyPlanSelection cat c p k n actor rd rd2 s = Inr (out, s')"
  shows "credit_inv s'"
proof -
  from r obtain current s1 target where e: "ensureBaseSubscriptionWithin cat c p rd2 s = Inr (current, s1)"
    and cases: "s' = s1 \<or> (\<exists>s2 created. supersede c current (cm_next s1) (s1\<lparr>cm_next := Suc (cm_next s1)\<rparr>) = Inr s2 \<and>
      activateSubscription cat c (Some (cm_next s1)) p target ''commercial.subscription_activated'' (Some actor) False s2 = Inr (created, s'))"
    by (fastforce simp: applyPlanSelection_def bind_res_Inr Let_def split: if_splits option.splits)
  note inv1 = ensure_inv [OF inv e]
  from cases show ?thesis
  proof (elim disjE exE conjE)
    fix s2 created
    assume s2: "supersede c current (cm_next s1) (s1\<lparr>cm_next := Suc (cm_next s1)\<rparr>) = Inr s2"
      and a: "activateSubscription cat c (Some (cm_next s1)) p target ''commercial.subscription_activated'' (Some actor) False s2 = Inr (created, s')"
    note S = supersede_inv [OF bump_inv [OF inv1] s2]
    show ?thesis by (rule activate_inv [OF conjunct1 [OF S] a]) (use S ids_fresh [OF inv1] in auto)
  qed (use inv1 in simp)
qed

lemma cancel_subscription_inv:
  assumes inv: "credit_inv s" and r: "applyCancellation cat c p actor rd s = Inr (out, s')"
  shows "credit_inv s'"
proof -
  from r obtain current where cur: "findActive p rd = Some current" by (auto simp: applyCancellation_def split: option.splits)
  from r have "s' = s \<or> (\<exists>s1 v created.
      transitionSubscription (su_id current) SubCancelled (\<lambda>x. x\<lparr>su_cancelledAt := Some (ck_js c), su_cancelledByUser := Some actor, su_cancelledByLabel := None\<rparr>) s = Inr s1 \<and>
      activateSubscription cat c None p v ''commercial.subscription_assigned'' None False
        (snd (record_audit (Some actor) ''commercial.subscription_cancelled'' (OnSubscription (su_id current)) s1)) = Inr (created, s'))"
    by (fastforce simp: applyCancellation_def cur bind_res_Inr split: if_splits option.splits)
  then show ?thesis
  proof (elim disjE exE conjE)
    fix s1 v created
    assume t: "transitionSubscription (su_id current) SubCancelled (\<lambda>x. x\<lparr>su_cancelledAt := Some (ck_js c), su_cancelledByUser := Some actor, su_cancelledByLabel := None\<rparr>) s = Inr s1"
      and a: "activateSubscription cat c None p v ''commercial.subscription_assigned'' None False
        (snd (record_audit (Some actor) ''commercial.subscription_cancelled'' (OnSubscription (su_id current)) s1)) = Inr (created, s')"
    have "credit_inv s1" by (rule transition_subscription_inv(1) [OF inv t]) simp_all
    then show ?thesis by (rule activate_inv [OF audit_inv a]) simp
  qed (use inv in simp)
qed

text \<open>Spending and returning.\<close>

lemma consumption_grant:
  assumes "credit_inv s" "x \<in> set (cm_consumptions s)" "g \<in> set (cm_grants s)" "cn_grant x = gr_id g"
  shows "cn_party x = gr_party g"
proof -
  have "consumption_ok (cm_grants s) x" using credit_invD(2) [OF assms(1)] assms(2) by (simp add: ledger_ok_def)
  then obtain h where h: "h \<in> set (cm_grants s)" "gr_id h = cn_grant x" "gr_party h = cn_party x" by (auto simp: consumption_ok_def)
  have "keyed gr_id (cm_grants s)" using credit_invD(1) [OF assms(1)] by (simp add: subscriptions_ok_def)
  then have "h = g" by (rule keyed_inj [OF _ h(1) assms(3)]) (simp add: h(2) assms(4))
  with h show ?thesis by simp
qed

text \<open>The count per grant within its party is the whole use of the grant.\<close>

lemma count_is_use:
  assumes "credit_inv s" "g \<in> set (cm_grants s)"
  shows "activeConsumptionCountByGrant (gr_party g) s (gr_id g) = used_of s (gr_id g)"
proof -
  have "filter (\<lambda>x. cn_party x = gr_party g \<and> cn_grant x = gr_id g \<and> active_consumption s x) (cm_consumptions s) =
      filter (\<lambda>x. cn_grant x = gr_id g \<and> active_consumption s x) (cm_consumptions s)"
    by (rule filter_cong [OF refl]) (use consumption_grant [OF assms(1) _ assms(2)] in blast)
  then show ?thesis by (simp add: activeConsumptionCountByGrant_def used_of_def)
qed

lemma used_add:
  assumes "cm_consumptions s' = cm_consumptions s @ [x]" "cm_returns s' = cm_returns s" "cn_id x \<notin> rt_consumption ` set (cm_returns s)"
  shows "used_of s' i = used_of s i + (if cn_grant x = i then 1 else 0)"
  using assms by (simp add: used_of_def active_consumption_def)

lemma used_return:
  assumes "cm_consumptions s' = cm_consumptions s" "set (cm_returns s) \<subseteq> set (cm_returns s')"
  shows "used_of s' i \<le> used_of s i"
proof -
  have "filter (\<lambda>x. cn_grant x = i \<and> active_consumption s' x) (cm_consumptions s) =
      filter (\<lambda>x. cn_id x \<notin> rt_consumption ` set (cm_returns s')) (filter (\<lambda>x. cn_grant x = i \<and> active_consumption s x) (cm_consumptions s))"
    using assms(2) by (auto simp: active_consumption_def intro!: filter_cong)
  then show ?thesis unfolding used_of_def assms(1) by (simp only: of_nat_le_iff length_filter_le)
qed

lemma consume_inv:
  assumes inv: "credit_inv s" and r: "consumeForConfirmation c b p s = Inr (out, s')"
  shows "credit_inv s'"
  using consume_effect [OF r]
proof (elim disjE exE conjE)
  fix g
  assume f: "find (\<lambda>g. activeConsumptionCountByGrant p s (gr_id g) < gr_quantity g) (positiveGrants p s) = Some g"
    and cf: "consume_from c b g s = Inr (out, s')"
  from f have g: "g \<in> set (cm_grants s)" "gr_party g = p" "activeConsumptionCountByGrant p s (gr_id g) < gr_quantity g"
    using set_positiveGrants [of p s] by (auto simp: find_Some_iff dest: nth_mem)
  then have room: "used_of s (gr_id g) < gr_quantity g" using count_is_use [OF inv g(1)] by simp
  define x where "x = \<lparr>cn_id = cm_next s, cn_booking = b, cn_grant = gr_id g, cn_subscription = gr_subscription g,
    cn_period = gr_period g, cn_party = gr_party g, cn_at = ck_db c\<rparr>"
  from consume_from_Inr [OF cf] have nb: "b \<notin> cn_booking ` set (cm_consumptions s)"
    and tabs: "cm_consumptions s' = cm_consumptions s @ [x]" "cm_returns s' = cm_returns s" "cm_grants s' = cm_grants s"
      "cm_subscriptions s' = cm_subscriptions s" "cm_next s' = Suc (Suc (cm_next s))" by (auto simp: x_def)
  note D = credit_invD [OF inv] and fr = ids_fresh(2) [OF inv]
  have nr: "cn_id x \<notin> rt_consumption ` set (cm_returns s)" using D(2) fr by (auto simp: ledger_ok_def x_def)
  have "used_of s' (gr_id h) \<le> gr_quantity h" if h: "h \<in> set (cm_grants s)" for h
  proof (cases "gr_id h = gr_id g")
    case True
    have "keyed gr_id (cm_grants s)" using D(1) by (simp add: subscriptions_ok_def)
    from keyed_inj [OF this h g(1) True] room show ?thesis by (simp add: used_add [OF tabs(1,2) nr] x_def)
  next
    case False
    then show ?thesis using D(2) h by (simp add: used_add [OF tabs(1,2) nr] ledger_ok_def x_def)
  qed
  moreover have "consumption_ok (cm_grants s) x" using g(1) by (auto simp: consumption_ok_def x_def)
  moreover have "cn_id x \<notin> cn_id ` set (cm_consumptions s)" "cn_booking x \<notin> cn_booking ` set (cm_consumptions s)"
    using fr nb by (simp_all add: x_def)
  ultimately have "ledger_ok s'" using D(2) by (auto simp: ledger_ok_def tabs keyed_append)
  moreover have "ids_below s'" using D(3) by (auto simp: ids_below_def tabs x_def less_SucI)
  ultimately show ?thesis using D(1) by (intro credit_invI) (simp_all add: tabs)
qed (use inv in simp)

lemma return_inv:
  assumes inv: "credit_inv s" and r: "returnForCancellation c b cause rd s = (out, s')" and rd: "set (cm_consumptions rd) \<subseteq> set (cm_consumptions s)"
  shows "credit_inv s'"
  using return_effect [OF r]
proof (elim disjE exE conjE)
  fix x
  assume f: "find (\<lambda>x. cn_booking x = b) (cm_consumptions rd) = Some x" and n: "cn_id x \<notin> rt_consumption ` set (cm_returns s)"
    and s': "s' = s\<lparr>cm_returns := cm_returns s @ [\<lparr>rt_id = cm_next s, rt_consumption = cn_id x, rt_cause = cause, rt_at = ck_db c\<rparr>],
         cm_audit := cm_audit s @ [\<lparr>au_id = Suc (cm_next s), au_user = None, au_action = ''commercial.credit_returned'',
           au_target = OnSubscription (cn_subscription x)\<rparr>], cm_next := Suc (Suc (cm_next s))\<rparr>"
  have x: "x \<in> set (cm_consumptions s)" using f rd by (auto simp: find_Some_iff dest: nth_mem)
  note D = credit_invD [OF inv]
  have "used_of s' i \<le> used_of s i" for i by (rule used_return) (auto simp: s')
  then have "\<forall>g \<in> set (cm_grants s). used_of s' (gr_id g) \<le> gr_quantity g"
    using D(2) unfolding ledger_ok_def by (meson order_trans)
  then have "ledger_ok s'" using D(2) x n by (auto simp: ledger_ok_def s')
  moreover have "ids_below s'" using D(3) by (auto simp: ids_below_def s' less_SucI)
  ultimately show ?thesis using D(1) by (intro credit_invI) (simp_all add: s')
qed (use inv in simp)

end
