(* ===== verification/Enforcement_Invariant.thy ===== *)
theory Enforcement_Invariant
  imports Credit_Invariant
begin

text \<open>
  The invariant of the enforcement tables: one well-formed control row, one governance row per party with a
  proof where it needs one, and, once the rollout is active, a governance row for every live seller. Then
  the step relation of the whole commercial state, in which the invariants and the one-way facts hold.
\<close>

section \<open>What the ledger operations leave alone\<close>

definition credit_frame :: "commercial_db \<Rightarrow> commercial_db \<Rightarrow> bool" where
  "credit_frame s s' \<longleftrightarrow> cm_control s' = cm_control s \<and> cm_governance s' = cm_governance s \<and>
     cm_professionals s' = cm_professionals s \<and> cm_businesses s' = cm_businesses s \<and>
     set (cm_grants s) \<subseteq> set (cm_grants s') \<and> cm_next s \<le> cm_next s'"

lemma credit_frame_refl: "credit_frame s s"
  by (simp add: credit_frame_def)

lemma credit_frame_trans: "credit_frame s t \<Longrightarrow> credit_frame t u \<Longrightarrow> credit_frame s u"
  by (auto simp: credit_frame_def)

lemma audit_credit_frame: "credit_frame s (snd (record_audit u a t s))"
  by (simp add: credit_frame_def audit_frame)

lemma issue_credit_frame: "issueForActivation c x s = Inr (g, s') \<Longrightarrow> credit_frame s s'"
  by (auto simp: issueForActivation_def Let_def bind_res_Inr insert_grant_def record_audit_def credit_frame_def split: option.splits if_splits)

lemma write_credit_frame:
  assumes "write_subscription c x action ignore s = Inr (created, s')"
  shows "credit_frame s s'"
proof -
  from assms obtain w s1 where ins: "insert_subscription ignore x s = Inr (w, s1)"
    and rest: "s' = s1 \<or> (\<exists>g. issueForActivation c x (snd (record_audit (su_createdByUser x) action (OnSubscription (su_id x)) s1)) = Inr (g, s'))"
    by (fastforce simp: write_subscription_def bind_res_Inr split: if_splits)
  have "credit_frame s s1" using ins by (auto simp: insert_subscription_Inr credit_frame_def)
  moreover have "credit_frame s1 s'"
    using rest
  proof (elim disjE exE)
    fix g
    assume "issueForActivation c x (snd (record_audit (su_createdByUser x) action (OnSubscription (su_id x)) s1)) = Inr (g, s')"
    then show ?thesis by (rule credit_frame_trans [OF audit_credit_frame issue_credit_frame])
  qed (simp add: credit_frame_refl)
  ultimately show ?thesis by (rule credit_frame_trans)
qed

lemma bump_credit_frame: "credit_frame s (s\<lparr>cm_next := Suc (cm_next s)\<rparr>)"
  by (simp add: credit_frame_def)

lemma activate_credit_frame:
  assumes "activateSubscription cat c given p v action actor ignore s = Inr (created, s')"
  shows "credit_frame s s'"
  using assms write_credit_frame credit_frame_trans [OF bump_credit_frame]
  by (auto simp: activateSubscription_def bind_res_Inr split: option.splits)

lemma transition_credit_frame: "transitionSubscription i to patch s = Inr s' \<Longrightarrow> credit_frame s s'"
  by (auto simp: transitionSubscription_def Let_def credit_frame_def split: if_splits)

lemma supersede_credit_frame: "supersede c current i s = Inr s' \<Longrightarrow> credit_frame s s'"
  using transition_credit_frame credit_frame_trans audit_credit_frame by (fastforce simp: supersede_def bind_res_Inr)

lemma ensure_credit_frame:
  assumes "ensureBaseSubscriptionWithin cat c p rd s = Inr (x, s')"
  shows "credit_frame s s'"
proof (cases "findActive p rd")
  case None
  with assms obtain v created where "activateSubscription cat c None p v ''commercial.subscription_assigned'' None True s = Inr (created, s')"
    by (auto simp: ensureBaseSubscriptionWithin_def bind_res_Inr split: if_splits option.splits)
  then show ?thesis by (rule activate_credit_frame)
qed (use assms in \<open>simp add: ensureBaseSubscriptionWithin_def credit_frame_refl\<close>)

lemma select_credit_frame:
  assumes r: "applyPlanSelection cat c p k n actor rd rd2 s = Inr (out, s')"
  shows "credit_frame s s'"
proof -
  from r obtain current s1 target where e: "ensureBaseSubscriptionWithin cat c p rd2 s = Inr (current, s1)"
    and cases: "s' = s1 \<or> (\<exists>s2 created. supersede c current (cm_next s1) (s1\<lparr>cm_next := Suc (cm_next s1)\<rparr>) = Inr s2 \<and>
      activateSubscription cat c (Some (cm_next s1)) p target ''commercial.subscription_activated'' (Some actor) False s2 = Inr (created, s'))"
    by (fastforce simp: applyPlanSelection_def bind_res_Inr Let_def split: if_splits option.splits)
  have "credit_frame s1 s'"
    using cases
  proof (elim disjE exE conjE)
    fix s2 created
    assume "supersede c current (cm_next s1) (s1\<lparr>cm_next := Suc (cm_next s1)\<rparr>) = Inr s2"
      "activateSubscription cat c (Some (cm_next s1)) p target ''commercial.subscription_activated'' (Some actor) False s2 = Inr (created, s')"
    from supersede_credit_frame [OF this(1)] activate_credit_frame [OF this(2)] show ?thesis
      using bump_credit_frame credit_frame_trans by blast
  qed (simp add: credit_frame_refl)
  with ensure_credit_frame [OF e] show ?thesis by (rule credit_frame_trans)
qed

lemma cancel_credit_frame:
  assumes r: "applyCancellation cat c p actor rd s = Inr (out, s')"
  shows "credit_frame s s'"
proof -
  from r obtain current where cur: "findActive p rd = Some current" by (auto simp: applyCancellation_def split: option.splits)
  from r consider "s' = s" | s1 v created where
      "transitionSubscription (su_id current) SubCancelled (\<lambda>x. x\<lparr>su_cancelledAt := Some (ck_js c), su_cancelledByUser := Some actor, su_cancelledByLabel := None\<rparr>) s = Inr s1"
      "activateSubscription cat c None p v ''commercial.subscription_assigned'' None False
        (snd (record_audit (Some actor) ''commercial.subscription_cancelled'' (OnSubscription (su_id current)) s1)) = Inr (created, s')"
    by (fastforce simp: applyCancellation_def cur bind_res_Inr split: if_splits option.splits)
  then show ?thesis
  proof cases
    case 2
    show ?thesis
      by (rule credit_frame_trans [OF transition_credit_frame [OF 2(1)] credit_frame_trans [OF audit_credit_frame activate_credit_frame [OF 2(2)]]])
  qed (simp add: credit_frame_refl)
qed

lemma consume_credit_frame: "consumeForConfirmation c b p s = Inr (out, s') \<Longrightarrow> credit_frame s s'"
  by (drule consume_effect) (auto simp: credit_frame_def dest!: consume_from_Inr)

lemma return_credit_frame: "returnForCancellation c b cause rd s = (out, s') \<Longrightarrow> credit_frame s s'"
  by (drule return_effect) (auto simp: credit_frame_def)

section \<open>The enforcement tables\<close>

definition control_ok :: "enforcement_control \<Rightarrow> bool" where
  "control_ok x \<longleftrightarrow> ec_id x = ENFORCEMENT_CONTROL_SINGLETON_ID \<and> ec_killSwitch x \<in> set KILL_SWITCH_STATES \<and>
     (if ec_rollout x = ''inactive'' then ec_generation x = 0 \<and> ec_activatedAt x = None \<and> ec_activationAudit x = None
      else ec_rollout x = ''active'' \<and> ec_generation x = 1 \<and> ec_activatedAt x \<noteq> None \<and> ec_activationAudit x \<noteq> None)"

definition proven :: "credit_grant list \<Rightarrow> party_governance \<Rightarrow> bool" where
  "proven gs g \<longleftrightarrow> (\<forall>i. pg_proofGrant g = Some i \<longrightarrow> (\<exists>h \<in> set gs. gr_id h = i \<and> gr_party h = pg_party g \<and> 0 < gr_quantity h))"

definition governance_ok :: "commercial_db \<Rightarrow> bool" where
  "governance_ok s \<longleftrightarrow> keyed pg_id (cm_governance s) \<and> distinct (map pg_party (cm_governance s)) \<and>
     (\<forall>g \<in> set (cm_governance s). pg_id g < cm_next s \<and> governance_row_ok g \<and> proven (cm_grants s) g)"

definition classified :: "commercial_db \<Rightarrow> bool" where
  "classified s \<longleftrightarrow> (\<forall>p \<in> set (eligible_parties s). p \<in> pg_party ` set (cm_governance s))"

definition rollout_active :: "commercial_db \<Rightarrow> bool" where
  "rollout_active s \<longleftrightarrow> (\<exists>x \<in> set (cm_control s). ec_rollout x = ''active'')"

definition enforcement_inv :: "commercial_db \<Rightarrow> bool" where
  "enforcement_inv s \<longleftrightarrow> (\<exists>x. cm_control s = [x] \<and> control_ok x) \<and> governance_ok s \<and> (rollout_active s \<longrightarrow> classified s)"

definition governed :: "commercial_db \<Rightarrow> seller_party \<Rightarrow> bool" where
  "governed s p \<longleftrightarrow> (\<exists>g \<in> set (cm_governance s). pg_party g = p \<and> pg_state g = ''governed'')"

text \<open>The one-way facts.\<close>

definition governance_le :: "commercial_db \<Rightarrow> commercial_db \<Rightarrow> bool" where
  "governance_le s s' \<longleftrightarrow> (\<forall>p. governed s p \<longrightarrow> governed s' p) \<and>
     pg_party ` set (cm_governance s) \<subseteq> pg_party ` set (cm_governance s')"

definition enforcement_le :: "commercial_db \<Rightarrow> commercial_db \<Rightarrow> bool" where
  "enforcement_le s s' \<longleftrightarrow> (rollout_active s \<longrightarrow> rollout_active s') \<and> governance_le s s'"

lemma governance_le_same: "cm_governance s' = cm_governance s \<Longrightarrow> governance_le s s'"
  unfolding governance_le_def governed_def by (elim ssubst) blast

lemma governance_leI:
  "(\<And>p. governed s p \<Longrightarrow> governed s' p) \<Longrightarrow> pg_party ` set (cm_governance s) \<subseteq> pg_party ` set (cm_governance s') \<Longrightarrow> governance_le s s'"
  unfolding governance_le_def by (intro conjI allI impI)

lemma governance_leD1: "governance_le s s' \<Longrightarrow> governed s p \<Longrightarrow> governed s' p"
  unfolding governance_le_def by (elim conjE allE [where x = p] impE)

lemma governance_leD2: "governance_le s s' \<Longrightarrow> pg_party ` set (cm_governance s) \<subseteq> pg_party ` set (cm_governance s')"
  unfolding governance_le_def by (elim conjE)

lemma governance_le_trans:
  assumes "governance_le s t" "governance_le t u"
  shows "governance_le s u"
proof (rule governance_leI)
  fix p assume "governed s p"
  then show "governed u p" by (rule governance_leD1 [OF assms(2) governance_leD1 [OF assms(1)]])
qed (rule subset_trans [OF governance_leD2 [OF assms(1)] governance_leD2 [OF assms(2)]])

lemma enforcement_le_refl: "enforcement_le s s"
  by (simp add: enforcement_le_def governance_le_same)

lemma enforcement_le_trans: "enforcement_le s t \<Longrightarrow> enforcement_le t u \<Longrightarrow> enforcement_le s u"
  unfolding enforcement_le_def using governance_le_trans by blast

lemma eligible_parties_cong:
  "cm_professionals s' = cm_professionals s \<Longrightarrow> cm_businesses s' = cm_businesses s \<Longrightarrow> eligible_parties s' = eligible_parties s"
  by (simp add: eligible_parties_def)

lemma proven_mono: "proven gs g \<Longrightarrow> set gs \<subseteq> set hs \<Longrightarrow> proven hs g"
  unfolding proven_def by (meson subsetD)

lemma enforcement_frame:
  assumes "enforcement_inv s" "credit_frame s s'"
  shows "enforcement_inv s' \<and> enforcement_le s s'"
proof -
  have F: "cm_control s' = cm_control s" "cm_governance s' = cm_governance s" "set (cm_grants s) \<subseteq> set (cm_grants s')" "cm_next s \<le> cm_next s'"
    "eligible_parties s' = eligible_parties s"
    using assms(2) unfolding credit_frame_def by (simp_all add: eligible_parties_cong [of s' s])
  have ok: "governance_ok s" using assms(1) by (simp add: enforcement_inv_def)
  have "pg_id g < cm_next s' \<and> governance_row_ok g \<and> proven (cm_grants s') g" if "g \<in> set (cm_governance s)" for g
    using ok that F(4) proven_mono [OF _ F(3), of g] unfolding governance_ok_def by (meson less_le_trans)
  with ok have "governance_ok s'" unfolding governance_ok_def F(2) by blast
  then show ?thesis
    using assms(1) F by (simp add: enforcement_inv_def classified_def rollout_active_def enforcement_le_def governance_le_same)
qed

lemma enforcement_control:
  assumes "enforcement_inv s"
  obtains x where "cm_control s = [x]" "control_ok x" "read_control s = Inr x" "control_row s = Some x"
proof -
  from assms obtain x where x: "cm_control s = [x]" "control_ok x" by (auto simp: enforcement_inv_def)
  then have "ec_rollout x \<in> set ENFORCEMENT_ROLLOUT_STATES" by (auto simp: control_ok_def ENFORCEMENT_ROLLOUT_STATES_def split: if_splits)
  with x have "read_control s = Inr x" "control_row s = Some x" by (simp_all add: read_control_def control_row_def control_ok_def)
  with x that show thesis by blast
qed

lemma enforcement_parts:
  assumes "enforcement_inv s"
  shows "governance_ok s" "rollout_active s \<Longrightarrow> classified s"
  using assms by (simp_all add: enforcement_inv_def)

lemma readGovernance_Some: "readGovernance p s = Some g \<Longrightarrow> g \<in> set (cm_governance s) \<and> pg_party g = p"
  unfolding readGovernance_def by (auto simp: find_Some_iff dest: nth_mem)

lemma readGovernance_None: "readGovernance p s = None \<longleftrightarrow> p \<notin> pg_party ` set (cm_governance s)"
  by (auto simp: readGovernance_def find_None_iff)

lemma governed_read:
  assumes "enforcement_inv s"
  shows "governed s p \<longleftrightarrow> (\<exists>g. readGovernance p s = Some g \<and> pg_state g = ''governed'')"
proof
  assume "governed s p"
  then obtain g where g: "g \<in> set (cm_governance s)" "pg_party g = p" "pg_state g = ''governed''" by (auto simp: governed_def)
  then obtain h where h: "readGovernance p s = Some h" using readGovernance_None [of p s] by fastforce
  from readGovernance_Some [OF h] g have "h = g"
    using enforcement_parts(1) [OF assms] by (auto simp: governance_ok_def distinct_map inj_on_def)
  with h g show "\<exists>g. readGovernance p s = Some g \<and> pg_state g = ''governed''" by blast
next
  assume "\<exists>g. readGovernance p s = Some g \<and> pg_state g = ''governed''"
  then show "governed s p" unfolding governed_def using readGovernance_Some by blast
qed

section \<open>Governance writes\<close>

text \<open>A governance write keeps everything but the governance rows (and draws identifiers).\<close>

definition governance_step :: "commercial_db \<Rightarrow> commercial_db \<Rightarrow> bool" where
  "governance_step s s' \<longleftrightarrow> cm_subscriptions s' = cm_subscriptions s \<and> cm_grants s' = cm_grants s \<and> cm_consumptions s' = cm_consumptions s \<and>
     cm_returns s' = cm_returns s \<and> cm_control s' = cm_control s \<and> cm_professionals s' = cm_professionals s \<and>
     cm_businesses s' = cm_businesses s \<and> cm_next s \<le> cm_next s' \<and>
     (governance_ok s \<longrightarrow> governance_ok s') \<and> governance_le s s'"

lemma governance_step_refl: "governance_step s s"
  by (simp add: governance_step_def governance_le_same)

lemma governance_step_trans: "governance_step s t \<Longrightarrow> governance_step t u \<Longrightarrow> governance_step s u"
  by (auto simp: governance_step_def intro: governance_le_trans)

lemma governance_step_inv:
  assumes "governance_step s s'" "credit_inv s" "enforcement_inv s"
  shows "credit_inv s'" "enforcement_inv s'" "enforcement_le s s'"
proof -
  show "credit_inv s'" by (rule credit_inv_frame [OF assms(2)]) (use assms(1) in \<open>simp_all add: governance_step_def\<close>)
  show "enforcement_inv s'" "enforcement_le s s'"
    using assms(1,3) eligible_parties_cong [of s' s]
    by (auto simp: enforcement_inv_def governance_step_def governance_le_def classified_def rollout_active_def enforcement_le_def)
qed

lemma audit_governance_step: "governance_step s (snd (record_audit u a t s))"
  by (auto simp: governance_step_def audit_frame governance_ok_def less_SucI intro: governance_le_same)

lemma insert_governance_step:
  assumes "insert_governance g s = Inr s'" "pg_id g = cm_next s" "proven (cm_grants s) g"
  shows "governance_step s s' \<and> pg_party ` set (cm_governance s') = insert (pg_party g) (pg_party ` set (cm_governance s))"
proof -
  from assms(1) have s': "s' = s\<lparr>cm_governance := cm_governance s @ [g], cm_next := Suc (cm_next s)\<rparr>"
    and ok: "governance_row_ok g" "pg_party g \<notin> pg_party ` set (cm_governance s)"
    by (auto simp: insert_governance_def list_ex_iff split: if_splits)
  have "governance_ok s'" if "governance_ok s"
    using that ok assms(2,3) by (fastforce simp: governance_ok_def s' keyed_append)
  moreover have "governance_le s s'" by (auto simp: governance_le_def s' governed_def)
  ultimately show ?thesis by (simp add: governance_step_def s')
qed

lemma govern_update_step:
  assumes "readGovernance p s = Some g" "\<And>x. pg_id (f x) = pg_id x \<and> pg_party (f x) = pg_party x"
    "\<And>x. pg_state (f x) = ''governed''" "\<And>x. governance_row_ok (f x)" "proven (cm_grants s) (f g)"
  shows "governance_step s (s\<lparr>cm_governance := tupd (\<lambda>x. pg_id x = pg_id g) f (cm_governance s)\<rparr>)"
proof -
  let ?t = "tupd (\<lambda>x. pg_id x = pg_id g) f (cm_governance s)"
  have g: "g \<in> set (cm_governance s)" using readGovernance_Some [OF assms(1)] by simp
  have parties: "map pg_party ?t = map pg_party (cm_governance s)" by (rule map_tupd_same) (simp add: assms(2))
  then have pset: "pg_party ` set ?t = pg_party ` set (cm_governance s)" by (metis set_map)
  have "governance_ok (s\<lparr>cm_governance := ?t\<rparr>)" if ok: "governance_ok s"
  proof -
    have "x = g" if "x \<in> set (cm_governance s)" "pg_id x = pg_id g" for x
      using ok keyed_inj that g by (fastforce simp: governance_ok_def)
    then have "\<forall>y \<in> set ?t. pg_id y < cm_next s \<and> governance_row_ok y \<and> proven (cm_grants s) y"
      using ok assms(2,4,5) by (auto simp: set_tupd governance_ok_def)
    moreover have "keyed pg_id ?t" using ok by (simp add: governance_ok_def keyed_tupd assms(2))
    ultimately show ?thesis using ok by (simp add: governance_ok_def parties)
  qed
  moreover have "governed (s\<lparr>cm_governance := ?t\<rparr>) q" if "governed s q" for q
  proof -
    from that obtain h where h: "h \<in> set (cm_governance s)" "pg_party h = q" "pg_state h = ''governed''" by (auto simp: governed_def)
    then have "(if pg_id h = pg_id g then f h else h) \<in> set ?t" by (auto simp: set_tupd)
    moreover have "pg_party (if pg_id h = pg_id g then f h else h) = q \<and> pg_state (if pg_id h = pg_id g then f h else h) = ''governed''"
      using h assms(2,3) by simp
    ultimately show ?thesis unfolding governed_def by auto
  qed
  then have "governance_le s (s\<lparr>cm_governance := ?t\<rparr>)" by (simp add: governance_le_def pset)
  ultimately show ?thesis by (simp add: governance_step_def)
qed

lemma run_plan_step:
  assumes "\<And>x s s'. x \<in> set xs \<Longrightarrow> cm_grants s = gs \<Longrightarrow> f x s = Inr s' \<Longrightarrow> governance_step s s'"
    "run_plan f xs s = Inr s'" "cm_grants s = gs"
  shows "governance_step s s'"
  using assms
proof (induction xs arbitrary: s)
  case Nil
  then show ?case by (simp add: governance_step_refl)
next
  case (Cons x xs)
  from Cons.prems(2) obtain s1 where a: "f x s = Inr s1" and b: "run_plan f xs s1 = Inr s'" by (auto simp: bind_res_Inr)
  have st: "governance_step s s1" by (rule Cons.prems(1) [OF _ Cons.prems(3) a]) simp
  have "cm_grants s1 = gs" using st Cons.prems(3) by (simp add: governance_step_def)
  have "governance_step s1 s'"
  proof (rule Cons.IH [OF _ b \<open>cm_grants s1 = gs\<close>])
    fix y u u' assume "y \<in> set xs" "cm_grants u = gs" "f y u = Inr u'"
    then show "governance_step u u'" by (intro Cons.prems(1)) simp_all
  qed
  with st show ?case by (rule governance_step_trans)
qed

lemma govern_party_step:
  assumes "govern_party c actor auditId (p, i) s = Inr s'" "\<exists>h \<in> set (cm_grants s). gr_id h = i \<and> gr_party h = p \<and> 0 < gr_quantity h"
  shows "governance_step s s'"
proof (cases "readGovernance p s")
  case None
  with assms(1) show ?thesis
    by (intro conjunct1 [OF insert_governance_step]) (use assms(2) in \<open>auto simp: govern_party_def proven_def\<close>)
next
  case (Some g)
  define f where "f = (\<lambda>x :: party_governance. x\<lparr>pg_state := ''governed'', pg_cause := ExplicitTransition, pg_governedAt := Some (ck_js c),
      pg_proofGrant := Some i, pg_recordedByUser := Some actor, pg_recordedByLabel := None, pg_audit := auditId\<rparr>)"
  have "pg_party g = p" using readGovernance_Some [OF Some] by simp
  then have "proven (cm_grants s) (f g)" using assms(2) by (auto simp: proven_def f_def)
  then have "governance_step s (s\<lparr>cm_governance := tupd (\<lambda>x. pg_id x = pg_id g) f (cm_governance s)\<rparr>)"
    by (intro govern_update_step [OF Some]) (simp_all add: f_def governance_row_ok_def)
  then show ?thesis using assms(1) Some by (simp add: govern_party_def f_def)
qed

section \<open>The commands\<close>

lemma proof_grant_Some:
  assumes "proof_grant p s = Some i"
  shows "\<exists>h \<in> set (cm_grants s). gr_id h = i \<and> gr_party h = p \<and> 0 < gr_quantity h"
proof -
  from assms obtain g gs where "positiveGrants p s = g # gs" "gr_id g = i" by (auto simp: proof_grant_def split: list.splits)
  then have "g \<in> set (positiveGrants p s)" by simp
  with \<open>gr_id g = i\<close> show ?thesis unfolding set_positiveGrants by blast
qed

lemma transition_parties_step:
  assumes r: "transitionEntitledParties c actor reason rd s = Inr (out, s')" and rd: "set (cm_grants rd) \<subseteq> set (cm_grants s)"
  shows "governance_step s s'"
proof -
  define candidates where "candidates = filter (\<lambda>p. governance_state rd p \<in> {None, Some ''legacy_exempt''}) (eligible_parties rd)"
  define plan where "plan = concat (map (\<lambda>p. case proof_grant p rd of None \<Rightarrow> []
      | Some g \<Rightarrow> if governance_state s p = Some ''governed'' then [] else [(p, g)]) candidates)"
  have proofs: "\<exists>h \<in> set (cm_grants s). gr_id h = snd e \<and> gr_party h = fst e \<and> 0 < gr_quantity h" if "e \<in> set plan" for e
  proof -
    have "proof_grant (fst e) rd = Some (snd e)" using that by (auto simp: plan_def split: option.splits if_splits)
    from proof_grant_Some [OF this] rd show ?thesis by blast
  qed
  from r have "s' = s \<or> (\<exists>a. run_plan (govern_party c actor a) plan (snd (record_audit (Some actor) ''commercial.enforcement_parties_governed'' OnGovernance s)) = Inr s')"
    unfolding transitionEntitledParties_def Let_def candidates_def [symmetric] plan_def [symmetric]
    by (auto simp: bind_res_Inr record_audit_def split: if_splits)
  then show ?thesis
  proof (elim disjE exE)
    fix a
    assume p: "run_plan (govern_party c actor a) plan (snd (record_audit (Some actor) ''commercial.enforcement_parties_governed'' OnGovernance s)) = Inr s'"
    have "governance_step (snd (record_audit (Some actor) ''commercial.enforcement_parties_governed'' OnGovernance s)) s'"
    proof (rule run_plan_step [OF _ p])
      fix e u u'
      assume "e \<in> set plan" "cm_grants u = cm_grants s" "govern_party c actor a e u = Inr u'"
      with proofs [of e] show "governance_step u u'" by (intro govern_party_step [of c actor a "fst e" "snd e"]) simp_all
    qed (simp add: audit_frame)
    then show ?thesis by (rule governance_step_trans [OF audit_governance_step])
  qed (simp add: governance_step_refl)
qed

lemma exempt_party_step:
  assumes "exempt_party actor a p s = Inr s'"
  shows "governance_step s s'"
  using insert_governance_step [OF assms [unfolded exempt_party_def]] by (simp add: proven_def)

lemma exempt_parties_step:
  assumes r: "exemptUnentitledParties c actor reason rd s = Inr (out, s')"
  shows "governance_step s s'"
proof -
  from r have "s' = s \<or> (\<exists>a plan. run_plan (exempt_party actor a) plan (snd (record_audit (Some actor) ''commercial.enforcement_parties_exempted'' OnGovernance s)) = Inr s')"
    unfolding exemptUnentitledParties_def Let_def by (fastforce simp: bind_res_Inr record_audit_def split: if_splits)
  then show ?thesis
  proof (elim disjE exE)
    fix a plan
    assume p: "run_plan (exempt_party actor a) plan (snd (record_audit (Some actor) ''commercial.enforcement_parties_exempted'' OnGovernance s)) = Inr s'"
    have "governance_step (snd (record_audit (Some actor) ''commercial.enforcement_parties_exempted'' OnGovernance s)) s'"
      by (rule run_plan_step [OF _ p refl]) (rule exempt_party_step)
    then show ?thesis by (rule governance_step_trans [OF audit_governance_step])
  qed (simp add: governance_step_refl)
qed

text \<open>The transaction that creates a seller inserts its row and then runs the initialisation.\<close>

definition add_seller :: "seller_party \<Rightarrow> nat \<Rightarrow> commercial_db \<Rightarrow> commercial_db" where
  "add_seller p owner s = (let r = \<lparr>se_id = snd p, se_owner = owner, se_deletedAt = None\<rparr> in
     case fst p of ProfessionalParty \<Rightarrow> s\<lparr>cm_professionals := cm_professionals s @ [r]\<rparr>
                 | BusinessParty \<Rightarrow> s\<lparr>cm_businesses := cm_businesses s @ [r]\<rparr>)"

definition erase_seller :: "seller_party \<Rightarrow> int \<Rightarrow> commercial_db \<Rightarrow> commercial_db" where
  "erase_seller p now s = (let f = tupd (\<lambda>r. se_id r = snd p) (\<lambda>r. r\<lparr>se_deletedAt := Some now\<rparr>) in
     case fst p of ProfessionalParty \<Rightarrow> s\<lparr>cm_professionals := f (cm_professionals s)\<rparr>
                 | BusinessParty \<Rightarrow> s\<lparr>cm_businesses := f (cm_businesses s)\<rparr>)"

definition same_but_sellers :: "commercial_db \<Rightarrow> commercial_db \<Rightarrow> bool" where
  "same_but_sellers s t \<longleftrightarrow> cm_subscriptions t = cm_subscriptions s \<and> cm_grants t = cm_grants s \<and> cm_consumptions t = cm_consumptions s \<and>
     cm_returns t = cm_returns s \<and> cm_control t = cm_control s \<and> cm_governance t = cm_governance s \<and> cm_next t = cm_next s"

lemma sellers_frame:
  assumes "same_but_sellers s t" "credit_inv s" "enforcement_inv s"
  shows "credit_inv t" "governance_ok t" "\<exists>x. cm_control t = [x] \<and> control_ok x" "enforcement_le s t" "rollout_active t = rollout_active s"
proof -
  note S = assms(1) [unfolded same_but_sellers_def]
  show "credit_inv t" by (rule credit_inv_frame [OF assms(2)]) (use S in simp_all)
  show "governance_ok t" using S enforcement_parts(1) [OF assms(3)] by (simp add: governance_ok_def)
  show "\<exists>x. cm_control t = [x] \<and> control_ok x" using S assms(3) by (simp add: enforcement_inv_def)
  show "rollout_active t = rollout_active s" using S by (simp add: rollout_active_def)
  then show "enforcement_le s t" using S by (simp add: enforcement_le_def governance_le_same)
qed

lemma seller_tables:
  "same_but_sellers s (add_seller p owner s)" "same_but_sellers s (erase_seller p now s)"
  "set (eligible_parties (add_seller p owner s)) = insert p (set (eligible_parties s))"
  "set (eligible_parties (erase_seller p now s)) \<subseteq> set (eligible_parties s)"
proof -
  obtain t i where p: "p = (t, i)" by (cases p)
  show "same_but_sellers s (add_seller p owner s)" by (cases t) (simp_all add: p same_but_sellers_def add_seller_def)
  show "same_but_sellers s (erase_seller p now s)" by (cases t) (simp_all add: p same_but_sellers_def erase_seller_def)
  show "set (eligible_parties (add_seller p owner s)) = insert p (set (eligible_parties s))"
    by (cases t) (auto simp: p eligible_parties_def live_sellers_def add_seller_def)
  show "set (eligible_parties (erase_seller p now s)) \<subseteq> set (eligible_parties s)"
    by (cases t) (auto simp: p eligible_parties_def live_sellers_def erase_seller_def set_tupd)
qed

lemma erase_seller_inv:
  assumes "credit_inv s" "enforcement_inv s"
  shows "credit_inv (erase_seller p now s)" "enforcement_inv (erase_seller p now s)" "enforcement_le s (erase_seller p now s)"
proof -
  note F = sellers_frame [OF seller_tables(2) assms, of p now]
  show "credit_inv (erase_seller p now s)" "enforcement_le s (erase_seller p now s)" by (rule F(1), rule F(4))
  have "cm_governance (erase_seller p now s) = cm_governance s" using seller_tables(2) by (simp add: same_but_sellers_def)
  then have "classified s \<Longrightarrow> classified (erase_seller p now s)"
    using seller_tables(4) [of p now s] unfolding classified_def by (metis subsetD)
  then show "enforcement_inv (erase_seller p now s)"
    using F(2,3,5) enforcement_parts(2) [OF assms(2)] by (simp add: enforcement_inv_def)
qed

lemma created_seller_inv:
  assumes inv: "credit_inv s" "enforcement_inv s" and r: "initializeCreatedParty c p (add_seller p owner s) = Inr s'"
  shows "credit_inv s'" "enforcement_inv s'" "enforcement_le s s'"
proof -
  let ?t = "add_seller p owner s"
  note F = sellers_frame [OF seller_tables(1) inv, of p owner]
  have same: "cm_control ?t = cm_control s" "cm_governance ?t = cm_governance s"
    using seller_tables(1) [of s p owner] by (simp_all add: same_but_sellers_def)
  obtain x where x: "cm_control s = [x]" "control_ok x" "read_control s = Inr x" using enforcement_control [OF inv(2)] by blast
  have rc: "read_control ?t = Inr x" using x(3) by (simp add: read_control_def same)
  have "governance_step ?t s' \<and> (rollout_active s \<longrightarrow> p \<in> pg_party ` set (cm_governance s'))"
  proof (cases "ec_rollout x = ''active''")
    case False
    then have "s' = ?t" "\<not> rollout_active s" using r rc x(1) by (simp_all add: initializeCreatedParty_def rollout_active_def)
    then show ?thesis by (simp add: governance_step_refl)
  next
    case True
    define u where "u = snd (record_audit None ''commercial.enforcement_party_governed_at_creation'' OnGovernance ?t)"
    define g where "g = \<lparr>pg_id = cm_next u, pg_party = p, pg_state = ''governed'', pg_cause = CreatedUnderEnforcement,
      pg_proofGrant = None, pg_governedAt = Some (ck_js c), pg_recordedByUser = None, pg_recordedByLabel = Some SYSTEM_ACTOR_LABEL, pg_audit = cm_next ?t\<rparr>"
    have "insert_governance g u = Inr s'"
      using r rc True by (simp add: initializeCreatedParty_def record_audit_def u_def g_def)
    from insert_governance_step [OF this] have "governance_step u s'" "p \<in> pg_party ` set (cm_governance s')"
      by (simp_all add: g_def proven_def)
    with governance_step_trans [OF audit_governance_step, of None "''commercial.enforcement_party_governed_at_creation''" OnGovernance ?t s']
    show ?thesis by (simp only: u_def simp_thms)
  qed
  then have gs: "governance_step ?t s'" and new: "rollout_active s \<Longrightarrow> p \<in> pg_party ` set (cm_governance s')" by (simp_all only: simp_thms)
  have le: "governance_le ?t s'" "governance_ok s'" "cm_control s' = cm_control s" "eligible_parties s' = eligible_parties ?t"
    using gs F(2) same eligible_parties_cong [of s' ?t] by (simp_all add: governance_step_def)
  show "credit_inv s'" by (rule credit_inv_frame [OF F(1)]) (use gs in \<open>simp_all add: governance_step_def\<close>)
  have ra: "rollout_active s' = rollout_active s" using le(3) by (simp add: rollout_active_def)
  show "enforcement_le s s'"
    using governance_le_trans [OF governance_le_same [OF same(2)] le(1)] by (simp add: enforcement_le_def ra)
  have "classified s'" if "rollout_active s"
    unfolding classified_def le(4) seller_tables(3)
    using enforcement_parts(2) [OF inv(2) that] new [OF that] governance_leD2 [OF le(1)] unfolding classified_def same by blast
  then show "enforcement_inv s'" using le(2) x(1,2) by (simp add: enforcement_inv_def le(3) ra)
qed

lemma control_update_inv:
  assumes inv: "credit_inv s" "enforcement_inv s" and x: "cm_control s = [x]" "control_ok (f x)" "ec_rollout x = ''active'' \<Longrightarrow> ec_rollout (f x) = ''active''"
    and act: "ec_rollout (f x) = ''active'' \<Longrightarrow> classified s"
  shows "credit_inv (update_control f (snd (record_audit u a t s)))" "enforcement_inv (update_control f (snd (record_audit u a t s)))"
    "enforcement_le s (update_control f (snd (record_audit u a t s)))"
proof -
  let ?s = "update_control f (snd (record_audit u a t s))"
  have cx: "ec_id x = ENFORCEMENT_CONTROL_SINGLETON_ID" using inv(2) x(1) by (auto simp: enforcement_inv_def control_ok_def)
  have c: "cm_control ?s = [f x]" by (simp add: update_control_def audit_frame x(1) tupd_def cx)
  have g: "cm_governance ?s = cm_governance s" "cm_grants ?s = cm_grants s" "cm_next ?s = Suc (cm_next s)"
    "eligible_parties ?s = eligible_parties s" by (simp_all add: update_control_def audit_frame eligible_parties_def)
  show "credit_inv ?s" by (rule credit_inv_frame [OF inv(1)]) (simp_all add: update_control_def audit_frame)
  have "governance_ok ?s" using enforcement_parts(1) [OF inv(2)] by (auto simp: governance_ok_def g less_SucI)
  then show "enforcement_inv ?s" using act x(2) by (simp add: enforcement_inv_def c rollout_active_def classified_def g)
  show "enforcement_le s ?s" using x(1,3) by (simp add: enforcement_le_def rollout_active_def c governance_le_same g)
qed

lemma unresolved_classified:
  assumes "ep_unresolved (partition_parties s) = 0"
  shows "classified s"
proof -
  have "filter (\<lambda>p. governance_state s p = None) (eligible_parties s) = []" using assms by (simp add: partition_parties_def Let_def)
  then have "\<forall>p \<in> set (eligible_parties s). governance_state s p \<noteq> None" by (simp only: filter_empty_conv)
  then show ?thesis using readGovernance_None [of _ s] by (auto simp: classified_def governance_state_def)
qed

lemma activate_enforcement_inv:
  assumes inv: "credit_inv s" "enforcement_inv s" and r: "activateEnforcement c actor reason s = Inr (row, s')"
  shows "credit_inv s' \<and> enforcement_inv s' \<and> enforcement_le s s'"
proof -
  obtain x where x: "cm_control s = [x]" "control_ok x" "control_row s = Some x" using enforcement_control [OF inv(2)] by blast
  let ?f = "\<lambda>a y. y\<lparr>ec_rollout := ''active'', ec_generation := Suc (ec_generation y), ec_activatedAt := Some (ck_db c), ec_activationAudit := Some a\<rparr>"
  from r x(3) have "s' = s \<or> (ec_rollout x = ''inactive'' \<and> ep_unresolved (partition_parties s) = 0 \<and>
      s' = update_control (?f (cm_next s)) (snd (record_audit (Some actor) ''commercial.enforcement_activated'' OnControl s)))"
    unfolding activateEnforcement_def Let_def by (auto simp: bind_res_Inr record_audit_def split: if_splits)
  then show ?thesis
  proof (elim disjE conjE)
    assume "ec_rollout x = ''inactive''" and u: "ep_unresolved (partition_parties s) = 0"
      and s': "s' = update_control (?f (cm_next s)) (snd (record_audit (Some actor) ''commercial.enforcement_activated'' OnControl s))"
    then have "control_ok (?f (cm_next s) x)" using x(2) by (simp add: control_ok_def)
    then show ?thesis using control_update_inv [OF inv x(1), of "?f (cm_next s)"] unresolved_classified [OF u] by (simp add: s')
  qed (use inv in \<open>simp add: enforcement_le_refl\<close>)
qed

lemma kill_switch_inv:
  assumes inv: "credit_inv s" "enforcement_inv s" and r: "moveKillSwitch c actor reason target action s = Inr (row, s')"
    and target: "target \<in> set KILL_SWITCH_STATES"
  shows "credit_inv s' \<and> enforcement_inv s' \<and> enforcement_le s s'"
proof -
  obtain x where x: "cm_control s = [x]" "control_ok x" "control_row s = Some x" using enforcement_control [OF inv(2)] by blast
  let ?f = "\<lambda>a y. y\<lparr>ec_killSwitch := target, ec_killSwitchAt := Some (ck_db c), ec_killSwitchAudit := Some a\<rparr>"
  from r x(3) have "s' = s \<or> s' = update_control (?f (cm_next s)) (snd (record_audit (Some actor) action OnControl s))"
    unfolding moveKillSwitch_def Let_def by (auto simp: bind_res_Inr record_audit_def split: if_splits)
  then show ?thesis
  proof (elim disjE)
    assume s': "s' = update_control (?f (cm_next s)) (snd (record_audit (Some actor) action OnControl s))"
    have "control_ok (?f (cm_next s) x)" using x(2) target by (simp add: control_ok_def)
    moreover have "ec_rollout (?f (cm_next s) x) = ''active'' \<Longrightarrow> classified s"
      using enforcement_parts(2) [OF inv(2)] x(1) by (simp add: rollout_active_def)
    ultimately show ?thesis using control_update_inv [OF inv x(1), of "?f (cm_next s)"] by (simp add: s')
  qed (use inv in \<open>simp add: enforcement_le_refl\<close>)
qed

section \<open>Steps and reachability\<close>

inductive commercial_step :: "commercial_db \<Rightarrow> commercial_db \<Rightarrow> bool" where
  cm_ensure: "ensureBaseSubscriptionWithin cat c p rd s = Inr (x, s') \<Longrightarrow> commercial_step s s'"
| cm_select: "applyPlanSelection cat c p k n actor rd rd2 s = Inr (out, s') \<Longrightarrow> commercial_step s s'"
| cm_cancel: "applyCancellation cat c p actor rd s = Inr (cout, s') \<Longrightarrow> commercial_step s s'"
| cm_confirm: "onBookingConfirmation c b orders s = Inr (ent, s') \<Longrightarrow> commercial_step s s'"
| cm_returned: "set (cm_consumptions rd) \<subseteq> set (cm_consumptions s) \<Longrightarrow> onBookingCancellation c b who wasConfirmed rd s = s' \<Longrightarrow> commercial_step s s'"
| cm_transition: "set (cm_grants rd) \<subseteq> set (cm_grants s) \<Longrightarrow> transitionEntitledParties c actor reason rd s = Inr (n2, s') \<Longrightarrow> commercial_step s s'"
| cm_exempt: "exemptUnentitledParties c actor reason rd s = Inr (n2, s') \<Longrightarrow> commercial_step s s'"
| cm_activate: "activateEnforcement c actor reason s = Inr (row, s') \<Longrightarrow> commercial_step s s'"
| cm_engage: "engageKillSwitch c actor reason s = Inr (row, s') \<Longrightarrow> commercial_step s s'"
| cm_release: "releaseKillSwitch c actor reason s = Inr (row, s') \<Longrightarrow> commercial_step s s'"
| cm_created: "initializeCreatedParty c p (add_seller p owner s) = Inr s' \<Longrightarrow> commercial_step s s'"
| cm_erased: "erase_seller p now s = s' \<Longrightarrow> commercial_step s s'"

definition empty_commercial :: commercial_db where
  "empty_commercial = \<lparr>cm_subscriptions = [], cm_grants = [], cm_consumptions = [], cm_returns = [],
     cm_control = [\<lparr>ec_id = 1, ec_rollout = ''inactive'', ec_generation = 0, ec_activatedAt = None, ec_activationAudit = None,
       ec_killSwitch = ''released'', ec_killSwitchAt = None, ec_killSwitchAudit = None\<rparr>],
     cm_governance = [], cm_professionals = [], cm_businesses = [], cm_audit = [], cm_next = 0\<rparr>"

definition commercial_reachable :: "commercial_db \<Rightarrow> bool" where
  "commercial_reachable s = commercial_step\<^sup>*\<^sup>* empty_commercial s"

definition commercial_inv :: "commercial_db \<Rightarrow> bool" where
  "commercial_inv s \<longleftrightarrow> credit_inv s \<and> enforcement_inv s"

lemma confirmation_effect:
  assumes "onBookingConfirmation c b orders s = Inr (ent, s')"
  shows "s' = s \<or> (\<exists>od out. find (\<lambda>x. od_sourceType x = SourceBooking \<and> od_source x = b) (om_orders orders) = Some od \<and>
     consumeForConfirmation c b (od_seller od) s = Inr (out, s'))"
  using assms by (auto simp: onBookingConfirmation_def bind_res_Inr split: option.splits if_splits)

lemma cancellation_effect:
  "onBookingCancellation c b who wasConfirmed rd s = s \<or>
   (\<exists>cause out. returnForCancellation c b cause rd s = (out, onBookingCancellation c b who wasConfirmed rd s))"
  by (auto simp: onBookingCancellation_def split: option.splits) (metis prod.collapse)

lemma ledger_step_inv:
  assumes "commercial_inv s" "credit_inv s'" "credit_frame s s'"
  shows "commercial_inv s' \<and> enforcement_le s s'"
  using assms enforcement_frame [of s s'] by (simp add: commercial_inv_def)

lemma governance_command_inv:
  assumes "commercial_inv s" "governance_step s s'"
  shows "commercial_inv s' \<and> enforcement_le s s'"
  using assms governance_step_inv [of s s'] by (simp add: commercial_inv_def)

lemma commercial_step_inv:
  assumes "commercial_step s s'" "commercial_inv s"
  shows "commercial_inv s' \<and> enforcement_le s s'"
  using assms
proof (induction rule: commercial_step.induct)
  case (cm_ensure cat c p rd s x s')
  show ?case by (rule ledger_step_inv [OF cm_ensure(2) ensure_inv [OF _ cm_ensure(1)] ensure_credit_frame [OF cm_ensure(1)]])
    (use cm_ensure(2) in \<open>simp add: commercial_inv_def\<close>)
next
  case (cm_select cat c p k n actor rd rd2 s out s')
  show ?case by (rule ledger_step_inv [OF cm_select(2) select_inv [OF _ cm_select(1)] select_credit_frame [OF cm_select(1)]])
    (use cm_select(2) in \<open>simp add: commercial_inv_def\<close>)
next
  case (cm_cancel cat c p actor rd s cout s')
  show ?case by (rule ledger_step_inv [OF cm_cancel(2) cancel_subscription_inv [OF _ cm_cancel(1)] cancel_credit_frame [OF cm_cancel(1)]])
    (use cm_cancel(2) in \<open>simp add: commercial_inv_def\<close>)
next
  case (cm_confirm c b orders s ent s')
  from confirmation_effect [OF cm_confirm(1)] show ?case
  proof (elim disjE exE conjE)
    fix od out
    assume r: "consumeForConfirmation c b (od_seller od) s = Inr (out, s')"
    show ?thesis by (rule ledger_step_inv [OF cm_confirm(2) consume_inv [OF _ r] consume_credit_frame [OF r]])
      (use cm_confirm(2) in \<open>simp add: commercial_inv_def\<close>)
  qed (use cm_confirm(2) in \<open>simp add: enforcement_le_refl\<close>)
next
  case (cm_returned rd s c b who wasConfirmed s')
  from cancellation_effect [of c b who wasConfirmed rd s] show ?case
  proof (elim disjE exE)
    fix cause out
    assume "returnForCancellation c b cause rd s = (out, onBookingCancellation c b who wasConfirmed rd s)"
    then have r: "returnForCancellation c b cause rd s = (out, s')" by (simp add: cm_returned(2))
    show ?thesis by (rule ledger_step_inv [OF cm_returned(3) return_inv [OF _ r cm_returned(1)] return_credit_frame [OF r]])
      (use cm_returned(3) in \<open>simp add: commercial_inv_def\<close>)
  qed (use cm_returned(2,3) in \<open>simp add: enforcement_le_refl\<close>)
next
  case (cm_transition rd s c actor reason n2 s')
  show ?case by (rule governance_command_inv [OF cm_transition(3) transition_parties_step [OF cm_transition(2,1)]])
next
  case (cm_exempt c actor reason rd s n2 s')
  show ?case by (rule governance_command_inv [OF cm_exempt(2) exempt_parties_step [OF cm_exempt(1)]])
next
  case (cm_activate c actor reason s row s')
  then show ?case using activate_enforcement_inv [of s c actor reason row s'] by (simp add: commercial_inv_def)
next
  case (cm_engage c actor reason s row s')
  then show ?case using kill_switch_inv [of s] by (auto simp add: commercial_inv_def engageKillSwitch_def KILL_SWITCH_STATES_def)
next
  case (cm_release c actor reason s row s')
  then show ?case using kill_switch_inv [of s] by (auto simp add: commercial_inv_def releaseKillSwitch_def KILL_SWITCH_STATES_def)
next
  case (cm_created c p owner s s')
  then show ?case using created_seller_inv [of s c p owner s'] by (simp add: commercial_inv_def)
next
  case (cm_erased p now s s')
  then show ?case using erase_seller_inv [of s p now] by (auto simp: commercial_inv_def)
qed

lemma empty_commercial_inv: "commercial_inv empty_commercial"
  by (simp add: commercial_inv_def credit_inv_def subscriptions_ok_def ledger_ok_def ids_below_def enforcement_inv_def control_ok_def
      governance_ok_def rollout_active_def empty_commercial_def KILL_SWITCH_STATES_def ENFORCEMENT_CONTROL_SINGLETON_ID_def)

lemma commercial_run_inv:
  assumes "commercial_step\<^sup>*\<^sup>* s s'" "commercial_inv s"
  shows "commercial_inv s' \<and> enforcement_le s s'"
  using assms
proof (induction rule: rtranclp_induct)
  case base
  then show ?case by (simp add: enforcement_le_refl)
next
  case (step t u)
  then show ?case using commercial_step_inv enforcement_le_trans by meson
qed

lemma reachable_commercial_inv: "commercial_reachable s \<Longrightarrow> commercial_inv s"
  unfolding commercial_reachable_def using commercial_run_inv empty_commercial_inv by blast

end
