(* ===== verification/Credit_Balance.thy ===== *)
theory Credit_Balance
  imports Enforcement_Invariant
begin

text \<open>
  What a balance is in a valid state, how a charge and a return move it, and what selecting a free plan again
  does to it: the lemmas under the properties of subscriptions and credits.
\<close>

section \<open>Balances\<close>

lemma grants_facts:
  assumes "credit_inv s"
  shows "keyed gr_id (cm_grants s)" "distinct (map gr_id (cm_grants s))"
    "\<And>g. g \<in> set (cm_grants s) \<Longrightarrow> 0 \<le> gr_quantity g \<and> used_of s (gr_id g) \<le> gr_quantity g"
proof -
  note D = credit_invD [OF assms]
  show "keyed gr_id (cm_grants s)" using D(1) by (simp add: subscriptions_ok_def)
  then show "distinct (map gr_id (cm_grants s))" by (simp add: keyed_def)
  show "0 \<le> gr_quantity g \<and> used_of s (gr_id g) \<le> gr_quantity g" if "g \<in> set (cm_grants s)" for g
    using D(1,2) that by (simp add: subscriptions_ok_def ledger_ok_def grant_ok_def)
qed

lemma active_is_use:
  assumes "credit_inv s"
  shows "activeConsumptionCount p s = (\<Sum>g \<leftarrow> party_grants p s. used_of s (gr_id g))"
proof -
  let ?xs = "filter (\<lambda>x. cn_party x = p \<and> active_consumption s x) (cm_consumptions s)"
  have dist: "distinct (map gr_id (party_grants p s))"
    unfolding party_grants_def by (rule distinct_map_filter) (rule grants_facts(2) [OF assms])
  have "cn_grant x \<in> gr_id ` set (party_grants p s)" if "x \<in> set ?xs" for x
  proof -
    have "consumption_ok (cm_grants s) x" "cn_party x = p" using credit_invD(2) [OF assms] that by (auto simp: ledger_ok_def)
    then obtain g where "g \<in> set (cm_grants s)" "gr_id g = cn_grant x" "gr_party g = p" unfolding consumption_ok_def by metis
    then show ?thesis unfolding party_grants_def by (intro image_eqI [of _ _ g]) auto
  qed
  then have "filter (\<lambda>x. cn_grant x \<in> gr_id ` set (party_grants p s)) ?xs = ?xs" by (rule filter_True [OF ballI])
  then have "activeConsumptionCount p s = (\<Sum>g \<leftarrow> party_grants p s. activeConsumptionCountByGrant p s (gr_id g))"
    unfolding counts_by_grant [OF dist] activeConsumptionCount_def by (simp only:)
  also have "\<dots> = (\<Sum>g \<leftarrow> party_grants p s. used_of s (gr_id g))"
    by (intro arg_cong [where f = sum_list] map_cong refl) (use count_is_use [OF assms] in \<open>auto simp: party_grants_def\<close>)
  finally show ?thesis .
qed

lemma balance_exact:
  assumes "credit_inv s"
  shows "balanceFor p s = sum_list (map gr_quantity (party_grants p s)) - activeConsumptionCount p s"
    "activeConsumptionCount p s \<le> sum_list (map gr_quantity (party_grants p s))"
proof -
  have "(\<Sum>g \<leftarrow> party_grants p s. used_of s (gr_id g)) \<le> sum_list (map gr_quantity (party_grants p s))"
    by (rule sum_list_mono) (use grants_facts(3) [OF assms] in \<open>auto simp: party_grants_def\<close>)
  then show "activeConsumptionCount p s \<le> sum_list (map gr_quantity (party_grants p s))" by (simp add: active_is_use [OF assms])
  then show "balanceFor p s = sum_list (map gr_quantity (party_grants p s)) - activeConsumptionCount p s"
    by (simp add: balanceFor_def)
qed

lemma granted_positive:
  assumes "credit_inv s"
  shows "sum_list (map gr_quantity (positiveGrants p s)) = sum_list (map gr_quantity (party_grants p s))"
  by (rule granted_all) (use grants_facts(3) [OF assms] in blast)

text \<open>The first grant with room is the oldest one.\<close>

lemma find_sorted_first:
  assumes "find P xs = Some g" "sorted (map k xs)" "h \<in> set xs" "P h"
  shows "k g \<le> k h"
  using assms by (induction xs) (auto split: if_splits)

lemma positiveGrants_sorted: "sorted (map gr_grantedAt (positiveGrants p s))"
  unfolding positiveGrants_def by (rule sorted_filter) simp

lemma consumption_count_add:
  assumes "cm_consumptions s' = cm_consumptions s @ [x]" "cm_returns s' = cm_returns s" "cn_id x \<notin> rt_consumption ` set (cm_returns s)"
  shows "activeConsumptionCount q s' = activeConsumptionCount q s + (if cn_party x = q then 1 else 0)"
  using assms by (simp add: activeConsumptionCount_def active_consumption_def)

lemma charge_balance:
  assumes inv: "credit_inv s" and r: "consumeForConfirmation c b p s = Inr (CreditConsumed i k, s')"
  shows "balanceFor q s' = balanceFor q s - (if q = p then 1 else 0)"
proof -
  from consume_effect [OF r] obtain g where f: "find (\<lambda>g. activeConsumptionCountByGrant p s (gr_id g) < gr_quantity g) (positiveGrants p s) = Some g"
    and cf: "consume_from c b g s = Inr (CreditConsumed i k, s')" by auto
  have "g \<in> set (positiveGrants p s)" using f by (auto simp: find_Some_iff dest: nth_mem)
  then have g: "gr_party g = p" by (simp add: set_positiveGrants)
  define x where "x = \<lparr>cn_id = cm_next s, cn_booking = b, cn_grant = gr_id g, cn_subscription = gr_subscription g,
    cn_period = gr_period g, cn_party = gr_party g, cn_at = ck_db c\<rparr>"
  from consume_from_Inr [OF cf] have t: "cm_consumptions s' = cm_consumptions s @ [x]" "cm_returns s' = cm_returns s" "cm_grants s' = cm_grants s"
    by (auto simp: x_def)
  have "cm_next s \<notin> rt_consumption ` set (cm_returns s)"
    using credit_invD(2) [OF inv] ids_fresh(2) [OF inv] by (auto simp: ledger_ok_def)
  then have n: "activeConsumptionCount q s' = activeConsumptionCount q s + (if gr_party g = q then 1 else 0)"
    using consumption_count_add [OF t(1,2)] by (simp add: x_def)
  show ?thesis
    using balance_exact(1) [OF inv, of q] balance_exact(1) [OF consume_inv [OF inv r], of q] n g t(3) by (simp add: party_grants_def)
qed

text \<open>The whole outcome of a charge, with the balance deciding.\<close>

lemma consume_decides:
  assumes inv: "credit_inv s"
  shows "b \<in> charged_bookings s \<Longrightarrow> \<exists>i. consumeForConfirmation c b p s = Inr (AlreadyConsumed i, s)"
    "b \<notin> charged_bookings s \<Longrightarrow> positiveGrants p s = [] \<Longrightarrow> consumeForConfirmation c b p s = Inr (NotConfigured, s)"
    "b \<notin> charged_bookings s \<Longrightarrow> positiveGrants p s \<noteq> [] \<Longrightarrow> balanceFor p s = 0 \<Longrightarrow> consumeForConfirmation c b p s = Inr (InsufficientCredit, s)"
    "b \<notin> charged_bookings s \<Longrightarrow> 0 < balanceFor p s \<Longrightarrow>
       \<exists>g s'. consumeForConfirmation c b p s = Inr (CreditConsumed (cm_next s) (gr_id g), s') \<and>
         find (\<lambda>g. activeConsumptionCountByGrant p s (gr_id g) < gr_quantity g) (positiveGrants p s) = Some g \<and>
         charged_bookings s' = insert b (charged_bookings s)"
proof -
  note B = balance_exact [OF inv, of p] and G = granted_positive [OF inv, of p]
  show "\<exists>i. consumeForConfirmation c b p s = Inr (AlreadyConsumed i, s)" if "b \<in> charged_bookings s"
  proof -
    from that have "find (\<lambda>x. cn_booking x = b) (cm_consumptions s) \<noteq> None" by (simp add: charged_bookings_def find_consumption_None)
    then show ?thesis by (auto simp: consumeForConfirmation_def)
  qed
  show "consumeForConfirmation c b p s = Inr (NotConfigured, s)" if "b \<notin> charged_bookings s" "positiveGrants p s = []"
    using that find_consumption_None [of b "cm_consumptions s"] by (simp add: consumeForConfirmation_def charged_bookings_def)
  show "consumeForConfirmation c b p s = Inr (InsufficientCredit, s)"
    if "b \<notin> charged_bookings s" "positiveGrants p s \<noteq> []" "balanceFor p s = 0"
    using that B G find_consumption_None [of b "cm_consumptions s"] by (simp add: consumeForConfirmation_def charged_bookings_def Let_def)
  assume b: "b \<notin> charged_bookings s" and pos: "0 < balanceFor p s"
  then have lt: "activeConsumptionCount p s < sum_list (map gr_quantity (positiveGrants p s))" using B G by simp
  obtain g where g: "find (\<lambda>g. activeConsumptionCountByGrant p s (gr_id g) < gr_quantity g) (positiveGrants p s) = Some g"
    using grant_with_room [OF grants_facts(2) [OF inv] lt] by blast
  have ne: "positiveGrants p s \<noteq> []" using g by auto
  have fb: "find (\<lambda>x. cn_booking x = b) (cm_consumptions s) = None" using b by (simp add: charged_bookings_def find_consumption_None)
  have "consumeForConfirmation c b p s = consume_from c b g s"
    using lt g ne fb by (simp add: consumeForConfirmation_def Let_def)
  moreover have nb: "\<not> list_ex (\<lambda>y. cn_booking y = b) (cm_consumptions s)" using b by (auto simp: charged_bookings_def list_ex_iff)
  obtain s' where cf: "consume_from c b g s = Inr (CreditConsumed (cm_next s) (gr_id g), s')"
    by (simp add: consume_from_def insert_consumption_def nb)
  moreover have "charged_bookings s' = insert b (charged_bookings s)"
    using consume_from_Inr [OF cf] by (auto simp: charged_bookings_def)
  ultimately show "\<exists>g s'. consumeForConfirmation c b p s = Inr (CreditConsumed (cm_next s) (gr_id g), s') \<and>
      find (\<lambda>g. activeConsumptionCountByGrant p s (gr_id g) < gr_quantity g) (positiveGrants p s) = Some g \<and>
      charged_bookings s' = insert b (charged_bookings s)" using g by auto
qed

text \<open>A return gives back one credit to the party that was charged.\<close>

lemma return_balance:
  assumes inv: "credit_inv s" and r: "returnForCancellation c b cause s s = (CreditReturned i, s')"
    and x: "x \<in> set (cm_consumptions s)" "cn_booking x = b"
  shows "balanceFor q s' = balanceFor q s + (if q = cn_party x then 1 else 0)"
proof -
  note D = credit_invD(2) [OF inv]
  from return_effect [OF r] obtain y where f: "find (\<lambda>x. cn_booking x = b) (cm_consumptions s) = Some y"
    and n: "cn_id y \<notin> rt_consumption ` set (cm_returns s)"
    and s': "cm_returns s' = cm_returns s @ [\<lparr>rt_id = cm_next s, rt_consumption = cn_id y, rt_cause = cause, rt_at = ck_db c\<rparr>]"
      "cm_consumptions s' = cm_consumptions s" "cm_grants s' = cm_grants s" by auto
  have y: "y \<in> set (cm_consumptions s)" "cn_booking y = b" using f by (auto simp: find_Some_iff dest: nth_mem)
  then have "y = x" using D x by (auto simp: ledger_ok_def distinct_map inj_on_def)
  with n y have act: "active_consumption s x" by (simp add: active_consumption_def)
  have act': "active_consumption s' z \<longleftrightarrow> active_consumption s z \<and> z \<noteq> x" if "z \<in> set (cm_consumptions s)" for z
  proof -
    have "cn_id z = cn_id x \<longleftrightarrow> z = x" using D that x by (auto simp: ledger_ok_def keyed_def distinct_map inj_on_def)
    then show ?thesis by (auto simp: active_consumption_def s'(1) \<open>y = x\<close>)
  qed
  have ci: "distinct (cm_consumptions s)" using D by (auto simp: ledger_ok_def keyed_def distinct_map)
  have "filter (\<lambda>z. cn_party z = q \<and> active_consumption s' z) (cm_consumptions s) =
      filter (\<lambda>z. z \<noteq> x) (filter (\<lambda>z. cn_party z = q \<and> active_consumption s z) (cm_consumptions s))"
    by (auto simp: act' intro!: filter_cong)
  also have "length \<dots> = length (filter (\<lambda>z. cn_party z = q \<and> active_consumption s z) (cm_consumptions s)) - (if cn_party x = q then 1 else 0)"
  proof (cases "cn_party x = q")
    case True
    let ?zs = "filter (\<lambda>z. cn_party z = q \<and> active_consumption s z) (cm_consumptions s)"
    have "x \<in> set ?zs" "distinct ?zs" using True x act ci by simp_all
    have "filter (\<lambda>z. z \<noteq> x) zs = removeAll x zs" for zs :: "credit_consumption list" by (induction zs) auto
    with \<open>distinct ?zs\<close> have "length (filter (\<lambda>z. z \<noteq> x) ?zs) = length (remove1 x ?zs)" by (simp only: distinct_remove1_removeAll)
    with \<open>x \<in> set ?zs\<close> True show ?thesis by (simp add: length_remove1)
  next
    case False
    then have "filter (\<lambda>z. z \<noteq> x) (filter (\<lambda>z. cn_party z = q \<and> active_consumption s z) (cm_consumptions s)) =
        filter (\<lambda>z. cn_party z = q \<and> active_consumption s z) (cm_consumptions s)" by (auto intro!: filter_cong)
    with False show ?thesis by simp
  qed
  finally have len: "activeConsumptionCount q s' = activeConsumptionCount q s - (if cn_party x = q then 1 else 0)"
  proof -
    assume l: "length (filter (\<lambda>z. cn_party z = q \<and> active_consumption s' z) (cm_consumptions s)) =
      length (filter (\<lambda>z. cn_party z = q \<and> active_consumption s z) (cm_consumptions s)) - (if cn_party x = q then 1 else 0)"
    have "x \<in> set (filter (\<lambda>z. cn_party z = q \<and> active_consumption s z) (cm_consumptions s))" if "cn_party x = q" using that x act by simp
    then have "0 < length (filter (\<lambda>z. cn_party z = q \<and> active_consumption s z) (cm_consumptions s))" if "cn_party x = q"
      using that by (metis length_pos_if_in_set)
    with l show ?thesis unfolding activeConsumptionCount_def s'(2) by (cases "cn_party x = q") (simp_all only: if_True if_False, arith+)
  qed
  have "credit_inv s'" by (rule return_inv [OF inv r]) simp
  from balance_exact(1) [OF inv, of q] balance_exact(1) [OF this, of q] len show ?thesis by (simp add: party_grants_def s'(3))
qed

section \<open>Selecting again\<close>

text \<open>A catalogue in which the base plan and a plan of no price are both published.\<close>

definition free_plan :: "catalogue \<Rightarrow> plan_version \<Rightarrow> bool" where
  "free_plan cat v \<longleftrightarrow> (\<exists>currency. snapshotPriceOf cat v = Inr (currency, 0)) \<and> 0 \<le> pv_credits v \<and> pv_credits v \<le> 1000000000 \<and>
     0 \<le> pv_seats v \<and> 0 \<le> pv_locations v \<and> 1 \<le> pv_version v \<and> (case pv_termDays v of None \<Rightarrow> True | Some d \<Rightarrow> 0 < d)"

definition offers :: "catalogue \<Rightarrow> clock \<Rightarrow> plan_version \<Rightarrow> plan_version \<Rightarrow> bool" where
  "offers cat c base plan \<longleftrightarrow> requireAutoAssignableVersion (ck_js c) cat = Inr base \<and>
     requireSelectableVersion (ck_js c) (pv_planKey plan) (pv_version plan) cat = Inr plan \<and> free_plan cat base \<and> free_plan cat plan \<and>
     tget pv_id (pv_id plan) (ct_versions cat) = Some plan \<and> \<not> pv_auto plan \<and> pv_id base \<noteq> pv_id plan"

definition leave_and_return :: "catalogue \<Rightarrow> clock \<Rightarrow> seller_party \<Rightarrow> plan_version \<Rightarrow> nat \<Rightarrow> commercial_db \<Rightarrow> commercial_error + commercial_db" where
  "leave_and_return cat c p plan actor s =
    bind_res (applyCancellation cat c p actor s s) (\<lambda>(_, s1).
    bind_res (applyPlanSelection cat c p (pv_planKey plan) (pv_version plan) actor s1 s1 s1) (\<lambda>(_, s2). Inr s2))"

fun again :: "nat \<Rightarrow> (commercial_db \<Rightarrow> commercial_error + commercial_db) \<Rightarrow> commercial_db \<Rightarrow> commercial_error + commercial_db" where
  "again 0 f s = Inr s"
| "again (Suc n) f s = bind_res (f s) (again n f)"

lemma write_runs:
  assumes "subscription_row_ok x" "\<not> active_taken (su_party x) s" "su_id x \<notin> gr_subscription ` set (cm_grants s)" "0 \<le> su_credits x" "su_credits x \<le> 1000000000"
  shows "\<exists>aud. write_subscription c x action ignore s = Inr (Some x, activated x (plan_grant (Suc (cm_next s)) c x) aud (cm_next s + 3) s)"
proof -
  note nf = assms(3)
  have "find (same_grant (su_id x)) (cm_grants s) = None" using assms(3) by (force simp: find_None_iff same_grant_def)
  moreover have "\<not> list_ex (\<lambda>y. gr_subscription y = su_id x \<and> gr_source y = PlanIncluded \<and> gr_period y = INITIAL_GRANT_PERIOD_INDEX) (cm_grants s)"
    using assms(3) by (force simp: list_ex_iff)
  ultimately obtain r where r: "write_subscription c x action ignore s = Inr r"
    using assms by (simp add: write_subscription_def insert_subscription_def record_audit_def issueForActivation_def Let_def insert_grant_def)
  obtain created s' where "r = (created, s')" by (cases r)
  with write_effect [OF r [unfolded this] nf] assms(2) r show ?thesis by blast
qed

lemma free_row_ok: "free_plan cat v \<Longrightarrow> subscription_row_ok (new_subscription i c p v (currency, 0) actor)"
  by (cases actor) (simp_all add: subscription_row_ok_def new_subscription_def free_plan_def)

text \<open>After the active row is closed, the party is free, and an activation gives it a new row and a new grant.\<close>

lemma closed_party:
  assumes inv: "credit_inv s" and cur: "findActive p s = Some x" and r: "transitionSubscription (su_id x) to patch s = Inr s'" and to: "to \<noteq> SubActive"
    and patch: "\<And>x. su_id (patch x) = su_id x \<and> su_party (patch x) = su_party x \<and> su_credits (patch x) = su_credits x \<and> su_state (patch x) = su_state x"
  shows "\<not> active_taken p s'"
proof
  assume "active_taken p s'"
  then obtain y where y: "y \<in> set (cm_subscriptions s')" "su_party y = p" "su_state y = SubActive" by (auto simp: active_taken_def list_ex_iff)
  let ?P = "\<lambda>y. su_id y = su_id x \<and> su_state y = SubActive"
  have s': "s' = s\<lparr>cm_subscriptions := tupd ?P (\<lambda>x. patch (x\<lparr>su_state := to\<rparr>)) (cm_subscriptions s)\<rparr>"
    using r by (auto simp: transitionSubscription_def Let_def split: if_splits)
  from y s' obtain z where z: "z \<in> set (cm_subscriptions s)" "y = (if ?P z then patch (z\<lparr>su_state := to\<rparr>) else z)" by (auto simp: set_tupd)
  with y(3) patch to have "\<not> ?P z" "y = z" by (auto split: if_splits)
  have x: "x \<in> set (cm_subscriptions s)" "su_party x = p" "su_state x = SubActive"
    using cur by (auto simp: findActive_def find_Some_iff dest: nth_mem)
  have "distinct (map su_party (filter (\<lambda>x. su_state x = SubActive) (cm_subscriptions s)))"
    using credit_invD(1) [OF inv] by (simp add: subscriptions_ok_def)
  from partial_unique [OF this x(1) z(1)] x y \<open>y = z\<close> have "x = z" by simp
  with \<open>\<not> ?P z\<close> x(3) show False by simp
qed

lemma transition_runs:
  assumes inv: "credit_inv s" and cur: "findActive p s = Some x"
  shows "\<exists>s'. transitionSubscription (su_id x) to patch s = Inr s'"
proof -
  have x: "x \<in> set (cm_subscriptions s)" "su_state x = SubActive" using cur by (auto simp: findActive_def find_Some_iff dest: nth_mem)
  have k: "keyed su_id (cm_subscriptions s)" using credit_invD(1) [OF inv] by (simp add: subscriptions_ok_def)
  have "taffected (\<lambda>y. su_id y = su_id x \<and> su_state y = SubActive) (cm_subscriptions s) = 1"
    using taffected_id [OF k, of "su_id x" "\<lambda>y. su_state y = SubActive"] tget_keyed [OF k x(1)] x(2) by simp
  then show ?thesis by (simp add: transitionSubscription_def)
qed

definition granted_to :: "seller_party \<Rightarrow> commercial_db \<Rightarrow> int" where
  "granted_to p s = sum_list (map gr_quantity (party_grants p s))"

definition same_ledger :: "commercial_db \<Rightarrow> commercial_db \<Rightarrow> bool" where
  "same_ledger s s' \<longleftrightarrow> cm_consumptions s' = cm_consumptions s \<and> cm_returns s' = cm_returns s \<and>
     cm_professionals s' = cm_professionals s \<and> cm_businesses s' = cm_businesses s"

lemma find_appended: "find P (xs @ ys) = (case find P xs of None \<Rightarrow> find P ys | Some x \<Rightarrow> Some x)"
  by (induction xs) auto

lemma findActive_free:
  assumes "\<not> active_taken p s" "su_party x = p" "su_state x = SubActive"
  shows "findActive p (activated x g aud m s) = Some x"
proof -
  have "find (\<lambda>x. su_party x = p \<and> su_state x = SubActive) (cm_subscriptions s) = None"
    using assms(1) by (auto simp: active_taken_def list_ex_iff find_None_iff)
  then show ?thesis using assms(2,3) by (simp add: findActive_def activated_def find_appended)
qed

lemma same_ledger_trans: "same_ledger s t \<Longrightarrow> same_ledger t u \<Longrightarrow> same_ledger s u"
  by (simp add: same_ledger_def)

lemma activation_runs:
  assumes inv: "credit_inv s" and free: "\<not> active_taken p s" and plan: "free_plan cat v"
    and given: "\<And>i. given = Some i \<Longrightarrow> i \<notin> su_id ` set (cm_subscriptions s)"
  shows "\<exists>x s'. activateSubscription cat c given p v action actor ignore s = Inr (Some x, s') \<and> findActive p s' = Some x \<and>
    su_planVersion x = pv_id v \<and> granted_to p s' = granted_to p s + pv_credits v \<and> same_ledger s s'"
proof -
  obtain currency where pr: "snapshotPriceOf cat v = Inr (currency, 0)" and cr: "0 \<le> pv_credits v" "pv_credits v \<le> 1000000000"
    using plan by (auto simp: free_plan_def)
  define i where "i = (case given of Some g \<Rightarrow> g | None \<Rightarrow> cm_next s)"
  define t where "t = (case given of Some _ \<Rightarrow> s | None \<Rightarrow> s\<lparr>cm_next := Suc (cm_next s)\<rparr>)"
  define x where "x = new_subscription i c p v (currency, 0) actor"
  have same: "cm_subscriptions t = cm_subscriptions s" "cm_grants t = cm_grants s" "cm_consumptions t = cm_consumptions s"
    "cm_returns t = cm_returns s" "cm_professionals t = cm_professionals s" "cm_businesses t = cm_businesses s"
    by (simp_all add: t_def split: option.splits)
  have "i \<notin> su_id ` set (cm_subscriptions s)" using given ids_fresh(1) [OF inv] by (simp add: i_def split: option.splits)
  then have ng: "su_id x \<notin> gr_subscription ` set (cm_grants t)"
    using credit_invD(1) [OF inv] by (simp add: subscriptions_ok_def same x_def)
  have nt: "\<not> active_taken (su_party x) t" using free by (simp add: active_taken_def same x_def)
  obtain aud where w: "write_subscription c x action ignore t = Inr (Some x, activated x (plan_grant (Suc (cm_next t)) c x) aud (cm_next t + 3) t)"
    using write_runs [OF free_row_ok [OF plan, of i c p currency actor, folded x_def] nt ng, of c action ignore] cr by (auto simp: x_def)
  have a: "activateSubscription cat c given p v action actor ignore s = write_subscription c x action ignore t"
    by (simp add: activateSubscription_def pr x_def i_def t_def split: option.splits)
  have "findActive p (activated x (plan_grant (Suc (cm_next t)) c x) aud (cm_next t + 3) t) = Some x"
    by (rule findActive_free) (use nt in \<open>simp_all add: x_def\<close>)
  moreover have "granted_to p (activated x (plan_grant (Suc (cm_next t)) c x) aud (cm_next t + 3) t) = granted_to p s + pv_credits v"
    "same_ledger s (activated x (plan_grant (Suc (cm_next t)) c x) aud (cm_next t + 3) t)" "su_planVersion x = pv_id v"
    by (simp_all add: x_def granted_to_def party_grants_def activated_def same same_ledger_def)
  ultimately show ?thesis unfolding a w by blast
qed

lemma closing_frame:
  assumes "transitionSubscription i to patch s = Inr s'"
  shows "granted_to p s' = granted_to p s" "same_ledger s s'"
  using assms by (auto simp: transitionSubscription_def Let_def granted_to_def party_grants_def same_ledger_def split: if_splits)

lemma audit_ledger_frame:
  "granted_to p (snd (record_audit u a t s)) = granted_to p s" "same_ledger s (snd (record_audit u a t s))"
  "active_taken p (snd (record_audit u a t s)) = active_taken p s" "findActive p (snd (record_audit u a t s)) = findActive p s"
  by (simp_all add: granted_to_def party_grants_def same_ledger_def active_taken_def findActive_def audit_frame)

lemma cancel_runs:
  assumes inv: "credit_inv s" and o: "offers cat c base plan" and cur: "findActive p s = Some x" "su_planVersion x = pv_id plan"
  shows "\<exists>y s'. applyCancellation cat c p actor s s = Inr ((SubscriptionCancelled, y), s') \<and> findActive p s' = Some y \<and>
    su_planVersion y = pv_id base \<and> granted_to p s' = granted_to p s + pv_credits base \<and> same_ledger s s'"
proof -
  let ?f = "\<lambda>x. x\<lparr>su_cancelledAt := Some (ck_js c), su_cancelledByUser := Some actor, su_cancelledByLabel := None\<rparr>"
  let ?aud = "\<lambda>t. snd (record_audit (Some actor) ''commercial.subscription_cancelled'' (OnSubscription (su_id x)) t)"
  obtain t where t: "transitionSubscription (su_id x) SubCancelled ?f s = Inr t" using transition_runs [OF inv cur(1)] by blast
  have ti: "credit_inv (?aud t)" by (rule audit_inv, rule transition_subscription_inv(1) [OF inv t]) simp_all
  have "\<not> active_taken p t" by (rule closed_party [OF inv cur(1) t]) simp_all
  then have free: "\<not> active_taken p (?aud t)" by (simp add: audit_ledger_frame)
  have "free_plan cat base" using o by (simp add: offers_def)
  from activation_runs [OF ti free this, of None c "''commercial.subscription_assigned''" None False]
  obtain y s' where a: "activateSubscription cat c None p base ''commercial.subscription_assigned'' None False (?aud t) = Inr (Some y, s')"
    "findActive p s' = Some y" "su_planVersion y = pv_id base" "granted_to p s' = granted_to p (?aud t) + pv_credits base" "same_ledger (?aud t) s'"
    by auto
  have "\<not> isBaseSubscription cat x" using o cur(2) by (simp add: isBaseSubscription_def offers_def)
  then have "applyCancellation cat c p actor s s = Inr ((SubscriptionCancelled, y), s')"
    using cur(1) t a(1) o by (simp add: applyCancellation_def offers_def)
  moreover have "granted_to p s' = granted_to p s + pv_credits base" using a(4) closing_frame(1) [OF t, of p] by (simp add: audit_ledger_frame)
  moreover have "same_ledger s s'"
    by (rule same_ledger_trans [OF closing_frame(2) [OF t] same_ledger_trans [OF audit_ledger_frame(2) a(5)]])
  ultimately show ?thesis using a(2,3) by blast
qed

lemma select_runs:
  assumes inv: "credit_inv s" and o: "offers cat c base plan" and el: "isEligible p s" and cur: "findActive p s = Some x" "su_planVersion x = pv_id base"
  shows "\<exists>y s'. applyPlanSelection cat c p (pv_planKey plan) (pv_version plan) actor s s s = Inr ((Selected, y), s') \<and> findActive p s' = Some y \<and>
    su_planVersion y = pv_id plan \<and> granted_to p s' = granted_to p s + pv_credits plan \<and> same_ledger s s'"
proof -
  let ?i = "cm_next s" and ?s1 = "s\<lparr>cm_next := Suc (cm_next s)\<rparr>"
  let ?f = "\<lambda>x. x\<lparr>su_supersededAt := Some (ck_js c), su_supersededBy := Some ?i\<rparr>"
  let ?aud = "\<lambda>t. snd (record_audit None ''commercial.subscription_superseded'' (OnSubscription (su_id x)) t)"
  have inv1: "credit_inv ?s1" by (rule bump_inv [OF inv])
  have cur1: "findActive p ?s1 = Some x" using cur(1) by (simp add: findActive_def)
  obtain t where t: "transitionSubscription (su_id x) SubSuperseded ?f ?s1 = Inr t" using transition_runs [OF inv1 cur1] by blast
  have tt: "credit_inv t" "su_id ` set (cm_subscriptions t) = su_id ` set (cm_subscriptions ?s1)"
    using transition_subscription_inv(1,5) [OF inv1 t] by simp_all
  have ti: "credit_inv (?aud t)" by (rule audit_inv [OF tt(1)])
  have "\<not> active_taken p t" by (rule closed_party [OF inv1 cur1 t]) simp_all
  then have free: "\<not> active_taken p (?aud t)" by (simp add: audit_ledger_frame)
  have new: "?i \<notin> su_id ` set (cm_subscriptions (?aud t))" using ids_fresh(1) [OF inv] tt(2) by (simp add: audit_frame)
  have "free_plan cat plan" using o by (simp add: offers_def)
  from activation_runs [OF ti free this, of "Some ?i" c "''commercial.subscription_activated''" "Some actor" False] new
  obtain y s' where a: "activateSubscription cat c (Some ?i) p plan ''commercial.subscription_activated'' (Some actor) False (?aud t) = Inr (Some y, s')"
    "findActive p s' = Some y" "su_planVersion y = pv_id plan" "granted_to p s' = granted_to p (?aud t) + pv_credits plan" "same_ledger (?aud t) s'"
    by auto
  have "applyPlanSelection cat c p (pv_planKey plan) (pv_version plan) actor s s s = Inr ((Selected, y), s')"
    using el cur t a(1) o by (simp add: applyPlanSelection_def ensureBaseSubscriptionWithin_def offers_def supersede_def Let_def)
  moreover have "granted_to p ?s1 = granted_to p s" "same_ledger s ?s1" by (simp_all add: granted_to_def party_grants_def same_ledger_def)
  then have "granted_to p s' = granted_to p s + pv_credits plan" using a(4) closing_frame(1) [OF t, of p] by (simp add: audit_ledger_frame)
  moreover have "same_ledger s s'"
    by (rule same_ledger_trans [OF \<open>same_ledger s ?s1\<close> same_ledger_trans [OF closing_frame(2) [OF t] same_ledger_trans [OF audit_ledger_frame(2) a(5)]]])
  ultimately show ?thesis using a(2,3) by blast
qed

lemma round_runs:
  assumes inv: "credit_inv s" and o: "offers cat c base plan" and el: "isEligible p s" and cur: "findActive p s = Some x" "su_planVersion x = pv_id plan"
  shows "\<exists>y s'. leave_and_return cat c p plan actor s = Inr s' \<and> credit_inv s' \<and> findActive p s' = Some y \<and> su_planVersion y = pv_id plan \<and>
    granted_to p s' = granted_to p s + (pv_credits base + pv_credits plan) \<and> same_ledger s s'"
proof -
  from cancel_runs [OF inv o cur] obtain y t where c: "applyCancellation cat c p actor s s = Inr ((SubscriptionCancelled, y), t)" "findActive p t = Some y"
    "su_planVersion y = pv_id base" "granted_to p t = granted_to p s + pv_credits base" "same_ledger s t" by blast
  have it: "credit_inv t" by (rule cancel_subscription_inv [OF inv c(1)])
  have "isEligible p t" using el c(5) by (simp add: isEligible_def seller_rows_def same_ledger_def split: party_type.splits)
  from select_runs [OF it o this c(2,3), of actor] obtain z s' where d:
    "applyPlanSelection cat c p (pv_planKey plan) (pv_version plan) actor t t t = Inr ((Selected, z), s')" "findActive p s' = Some z"
    "su_planVersion z = pv_id plan" "granted_to p s' = granted_to p t + pv_credits plan" "same_ledger t s'" by blast
  have "credit_inv s'" by (rule select_inv [OF it d(1)])
  moreover have "leave_and_return cat c p plan actor s = Inr s'" using c(1) d(1) by (simp add: leave_and_return_def)
  moreover have "same_ledger s s'" by (rule same_ledger_trans [OF c(5) d(5)])
  moreover have "granted_to p s' = granted_to p s + (pv_credits base + pv_credits plan)" using c(4) d(4) by simp
  ultimately show ?thesis using d(2,3) by blast
qed

section \<open>The charge and the hook as tables\<close>

lemma balance_nonneg: "0 \<le> balanceFor p s"
  by (simp add: balanceFor_def)

lemma charge_table:
  assumes inv: "credit_inv s"
  shows "\<exists>out s'. consumeForConfirmation c b p s = Inr (out, s') \<and>
    (if b \<in> charged_bookings s then (\<exists>i. out = AlreadyConsumed i) \<and> s' = s
     else if positiveGrants p s = [] then out = NotConfigured \<and> s' = s
     else if balanceFor p s = 0 then out = InsufficientCredit \<and> s' = s
     else charged_bookings s' = insert b (charged_bookings s) \<and> (\<exists>i j. out = CreditConsumed i j))"
proof (cases "b \<in> charged_bookings s")
  case True
  with consume_decides(1) [OF inv True, where c = c and p = p] show ?thesis by auto
next
  case new: False
  show ?thesis
  proof (cases "balanceFor p s = 0")
    case True
    with new show ?thesis using consume_decides(2,3) [OF inv new, where c = c and p = p] by (cases "positiveGrants p s = []") simp_all
  next
    case False
    then have pos: "0 < balanceFor p s" using balance_nonneg [of p s] by simp
    from consume_decides(4) [OF inv new pos, where c = c] obtain g s' where
      "consumeForConfirmation c b p s = Inr (CreditConsumed (cm_next s) (gr_id g), s')" "charged_bookings s' = insert b (charged_bookings s)"
      "find (\<lambda>g. activeConsumptionCountByGrant p s (gr_id g) < gr_quantity g) (positiveGrants p s) = Some g" by blast
    then show ?thesis using new False by (cases "positiveGrants p s = []") simp_all
  qed
qed

text \<open>The whole answer of the entitlement hook of a confirmation.\<close>

lemma entitlement_table:
  assumes "commercial_inv s" "find (\<lambda>x. od_sourceType x = SourceBooking \<and> od_source x = b) (om_orders orders) = Some od"
    "control_row s = Some k"
  shows "\<exists>ent s'. onBookingConfirmation c b orders s = Inr (ent, s') \<and>
    (if ec_killSwitch k = ''engaged'' then ent = EntitlementRefused KillSwitchActive
     else if ec_rollout k = ''active'' \<and> readGovernance (od_seller od) s = None then ent = EntitlementRefused BusinessPolicyDisabled
     else if ec_rollout k = ''active'' \<and> governed s (od_seller od) then
       (if b \<in> charged_bookings s \<or> 0 < balanceFor (od_seller od) s
        then (\<exists>d. ent = Permitted d) \<and> b \<in> charged_bookings s' else ent = EntitlementRefused EntitlementMissing)
     else if b \<notin> charged_bookings s \<and> positiveGrants (od_seller od) s \<noteq> [] \<and> balanceFor (od_seller od) s = 0 then ent = EntitlementInsufficient
     else (\<exists>d. ent = Permitted d)) \<and>
    ((\<exists>d. ent = Permitted d) \<or> s' = s) \<and>
    (ec_rollout k = ''active'' \<and> od_seller od \<in> set (eligible_parties s) \<longrightarrow> ent \<noteq> EntitlementRefused BusinessPolicyDisabled)"
proof -
  let ?p = "od_seller od"
  have inv: "credit_inv s" and enf: "enforcement_inv s" using assms(1) by (simp_all add: commercial_inv_def)
  obtain x where x: "cm_control s = [x]" "control_ok x" "read_control s = Inr x" "control_row s = Some x" by (rule enforcement_control [OF enf])
  then have k: "x = k" using assms(3) by simp
  obtain out s' where con: "consumeForConfirmation c b ?p s = Inr (out, s')" and dec: "if b \<in> charged_bookings s then (\<exists>i. out = AlreadyConsumed i) \<and> s' = s
     else if positiveGrants ?p s = [] then out = NotConfigured \<and> s' = s
     else if balanceFor ?p s = 0 then out = InsufficientCredit \<and> s' = s
     else charged_bookings s' = insert b (charged_bookings s) \<and> (\<exists>i j. out = CreditConsumed i j)"
    using charge_table [OF inv, of c b ?p] by blast
  have none_pos: "positiveGrants ?p s = [] \<Longrightarrow> balanceFor ?p s = 0"
    using balance_exact [OF inv, of ?p] granted_positive [OF inv, of ?p] by (simp add: activeConsumptionCount_def)
  have cls: "readGovernance ?p s \<noteq> None" if "ec_rollout k = ''active''" "?p \<in> set (eligible_parties s)"
    using enforcement_parts(2) [OF enf] that x(1) k readGovernance_None [of ?p s] by (auto simp: rollout_active_def classified_def)
  have kinds: "ec_killSwitch k = ''engaged'' \<or> ec_killSwitch k = ''released''" "ec_rollout k = ''active'' \<or> ec_rollout k = ''inactive''"
    using x(2) k by (auto simp: control_ok_def KILL_SWITCH_STATES_def split: if_splits)
  have pre: "decideBeforeLedger k = Inr (if ec_killSwitch k = ''engaged'' then PreRefuse else if ec_rollout k = ''active'' then PreActive else PreLegacy)"
    using kinds by (auto simp: decideBeforeLedger_def gate_decide_def)
  consider (killed) "ec_killSwitch k = ''engaged''" | (ungoverned) "ec_killSwitch k \<noteq> ''engaged''" "ec_rollout k = ''active''" "readGovernance ?p s = None"
    | (governed) "ec_killSwitch k \<noteq> ''engaged''" "ec_rollout k = ''active''" "governed s ?p"
    | (legacy) "ec_killSwitch k \<noteq> ''engaged''" "ec_rollout k = ''active'' \<Longrightarrow> \<not> governed s ?p \<and> readGovernance ?p s \<noteq> None"
    by blast
  then show ?thesis
  proof cases
    case killed
    then show ?thesis using assms(2) x(3) k pre by (simp add: onBookingConfirmation_def)
  next
    case ungoverned
    then show ?thesis using assms(2) x(3) k pre cls by (simp add: onBookingConfirmation_def governed_confirmation_def decideGovernance_def) blast
  next
    case governed
    then obtain g where g: "readGovernance ?p s = Some g" "pg_state g = ''governed''" using governed_read [OF enf] by blast
    have run: "onBookingConfirmation c b orders s = bind_res (decideGovernedLedger out) (\<lambda>permit.
        if \<not> permit then Inr (EntitlementRefused EntitlementMissing, s') else Inr (if out = InsufficientCredit then EntitlementInsufficient else Permitted out, s'))"
      using governed g assms(2) x(3) k pre con
      by (simp add: onBookingConfirmation_def governed_confirmation_def decideGovernance_def PARTY_GOVERNANCE_STATES_def)
    have "decideGovernedLedger out = Inr (case out of CreditConsumed _ _ \<Rightarrow> True | AlreadyConsumed _ \<Rightarrow> True | _ \<Rightarrow> False)"
      by (cases out) (simp_all add: decideGovernedLedger_def gate_decide_def)
    then show ?thesis unfolding run using governed g dec none_pos by (auto split: if_splits simp: balanceFor_def)
  next
    case legacy
    have pol: "governed_confirmation k (if ec_rollout k = ''active'' then PreActive else PreLegacy) ?p s = Inr GovLegacy"
    proof (cases "ec_rollout k = ''active''")
      case True
      then obtain g where g: "readGovernance ?p s = Some g" using legacy(2) by auto
      then have "pg_state g \<noteq> ''governed''" using legacy(2) [OF True] governed_read [OF enf] by auto
      moreover have "governance_row_ok g" using enforcement_parts(1) [OF enf] readGovernance_Some [OF g] by (simp add: governance_ok_def)
      ultimately have "pg_state g = ''legacy_exempt''" by (auto simp: governance_row_ok_def split: if_splits)
      then show ?thesis using True g by (simp add: governed_confirmation_def decideGovernance_def PARTY_GOVERNANCE_STATES_def)
    qed (simp add: governed_confirmation_def)
    have run: "onBookingConfirmation c b orders s = Inr (if out = InsufficientCredit then EntitlementInsufficient else Permitted out, s')"
      using legacy(1) assms(2) x(3) k pre pol con by (auto simp: onBookingConfirmation_def split: if_splits)
    show ?thesis unfolding run using legacy dec by (auto split: if_splits)
  qed
qed

end
