(* ===== verification/Credit_Demo.thy ===== *)
theory Credit_Demo
  imports Credit_Balance
begin

text \<open>
  Concrete states: a seller who joins, selects a free plan with two credits, is charged one of them, is then
  governed, and confirms under an active rollout. Each is reached by the operations themselves.
\<close>

section \<open>Concrete states\<close>

definition demo_clock :: clock where
  "demo_clock = \<lparr>ck_js = 1000, ck_db = 1000\<rparr>"

definition demo_base :: plan_version where
  "demo_base = \<lparr>pv_id = 1, pv_planKey = ''base'', pv_version = 1, pv_state = LifePublished, pv_termDays = None, pv_credits = 0, pv_seats = 1,
     pv_locations = 1, pv_capabilities = [], pv_schedule = 1, pv_creditSchedule = None, pv_auto = True, pv_starts = 0, pv_ends = None\<rparr>"

definition demo_plan :: plan_version where
  "demo_plan = demo_base\<lparr>pv_id := 2, pv_planKey := ''welcome'', pv_credits := 2, pv_auto := False\<rparr>"

definition demo_catalogue :: catalogue where
  "demo_catalogue = \<lparr>ct_versions = [demo_base, demo_plan], ct_schedules = [\<lparr>sv_id = 1, sv_currency = ''IRT''\<rparr>],
     ct_tiers = [\<lparr>ti_schedule = 1, ti_min = 1, ti_max = None, ti_price = 0\<rparr>]\<rparr>"

definition demo_party :: seller_party where
  "demo_party = (ProfessionalParty, 5)"

definition answer :: "commercial_error + 'a \<Rightarrow> 'a" where
  "answer r = (case r of Inr x \<Rightarrow> x | Inl _ \<Rightarrow> undefined)"

definition cm_joined :: commercial_db where
  "cm_joined = add_seller demo_party 7 empty_commercial"

definition cm_welcome :: commercial_db where
  "cm_welcome = snd (answer (applyPlanSelection demo_catalogue demo_clock demo_party ''welcome'' 1 7 cm_joined cm_joined cm_joined))"

definition demo_order :: "nat \<Rightarrow> order" where
  "demo_order b = \<lparr>od_id = b, od_sourceType = SourceBooking, od_source = b, od_customer = 9, od_seller = demo_party, od_status = OrdPending,
     od_subtotal = 50000, od_discountTotal = 0, od_feeTotal = 0, od_total = 50000, od_refunded = 0, od_collected = 0, od_paidAt = None, od_cancelledAt = None\<rparr>"

definition demo_orders :: order_db where
  "demo_orders = \<lparr>om_orders = [demo_order 100, demo_order 101, demo_order 102], om_items = [], om_adjustments = [], om_schedules = [], om_terms = [],
     om_commission = [], om_decisions = [], om_remedies = [], om_outbox = [], om_next = 200\<rparr>"

definition cm_charged :: commercial_db where
  "cm_charged = snd (answer (onBookingConfirmation demo_clock 100 demo_orders cm_welcome))"

definition cm_governed :: commercial_db where
  "cm_governed = snd (answer (transitionEntitledParties demo_clock 1 ''govern them'' cm_charged cm_charged))"

definition cm_enforced :: commercial_db where
  "cm_enforced = snd (answer (activateEnforcement demo_clock 1 ''go live'' cm_governed))"

lemma answer_ok: "ok r \<Longrightarrow> r = Inr (fst (answer r), snd (answer r))"
  by (cases r) (simp_all add: answer_def)

lemma commercial_next: "commercial_reachable s \<Longrightarrow> commercial_step s s' \<Longrightarrow> commercial_reachable s'"
  unfolding commercial_reachable_def by (rule rtranclp.rtrancl_into_rtrancl)

lemma demo_runs:
  "ok (applyPlanSelection demo_catalogue demo_clock demo_party ''welcome'' 1 7 cm_joined cm_joined cm_joined)"
  "ok (onBookingConfirmation demo_clock 100 demo_orders cm_welcome)"
  "ok (transitionEntitledParties demo_clock 1 ''govern them'' cm_charged cm_charged)"
  "ok (activateEnforcement demo_clock 1 ''go live'' cm_governed)"
  by code_simp+

lemma demo_joined: "commercial_reachable cm_joined"
proof (rule commercial_next)
  show "commercial_reachable empty_commercial" by (simp add: commercial_reachable_def)
  have "initializeCreatedParty demo_clock demo_party (add_seller demo_party 7 empty_commercial) = Inr cm_joined"
    by (simp add: initializeCreatedParty_def read_control_def cm_joined_def add_seller_def empty_commercial_def demo_party_def
        ENFORCEMENT_CONTROL_SINGLETON_ID_def ENFORCEMENT_ROLLOUT_STATES_def KILL_SWITCH_STATES_def)
  then show "commercial_step empty_commercial cm_joined" by (rule cm_created)
qed

lemma demo_welcome: "commercial_reachable cm_welcome"
  by (rule commercial_next [OF demo_joined], rule cm_select, rule answer_ok [OF demo_runs(1), folded cm_welcome_def])

lemma demo_charged: "commercial_reachable cm_charged"
  by (rule commercial_next [OF demo_welcome], rule cm_confirm, rule answer_ok [OF demo_runs(2), folded cm_charged_def])

lemma demo_governed: "commercial_reachable cm_governed"
  by (rule commercial_next [OF demo_charged], rule cm_transition [OF subset_refl], rule answer_ok [OF demo_runs(3), folded cm_governed_def])

lemma demo_enforced: "commercial_reachable cm_enforced"
  by (rule commercial_next [OF demo_governed], rule cm_activate, rule answer_ok [OF demo_runs(4), folded cm_enforced_def])

end
