(* ===== verification/Credit_Properties.thy ===== *)
theory Credit_Properties
  imports Credit_Demo
begin

text \<open>
  The properties of subscriptions, booking credits and enforcement, each with its witness on the states of
  \<open>Credit_Demo\<close>.
\<close>

lemma reachable_credit: "commercial_reachable s \<Longrightarrow> credit_inv s"
  using reachable_commercial_inv by (simp add: commercial_inv_def)

lemma reachable_enforcement: "commercial_reachable s \<Longrightarrow> enforcement_inv s"
  using reachable_commercial_inv by (simp add: commercial_inv_def)

text \<open>C17: In every reachable state a party has at most one active subscription; every subscription has exactly one
  grant, of the credits its snapshot includes; no grant is used beyond its quantity; the balance of every party
  is exactly what was granted less what is spent, never below zero; a booking is charged at most once and a
  charge returned at most once.\<close>

theorem credits_never_overdrawn:
  assumes "commercial_reachable s"
  shows "(\<forall>x \<in> set (cm_subscriptions s). \<forall>y \<in> set (cm_subscriptions s). su_state x = SubActive \<and> su_state y = SubActive \<and> su_party x = su_party y \<longrightarrow> x = y) \<and>
    (\<forall>x \<in> set (cm_subscriptions s). \<exists>!g. g \<in> set (cm_grants s) \<and> gr_subscription g = su_id x) \<and>
    (\<forall>g \<in> set (cm_grants s). \<exists>x \<in> set (cm_subscriptions s). su_id x = gr_subscription g \<and> su_party x = gr_party g \<and> su_credits x = gr_quantity g) \<and>
    (\<forall>g \<in> set (cm_grants s). used_of s (gr_id g) \<le> gr_quantity g) \<and>
    (\<forall>p. balanceFor p s = sum_list (map gr_quantity (party_grants p s)) - activeConsumptionCount p s \<and> 0 \<le> balanceFor p s) \<and>
    distinct (map cn_booking (cm_consumptions s)) \<and> distinct (map rt_consumption (cm_returns s))"
proof -
  note inv = reachable_credit [OF assms]
  note D = credit_invD [OF inv]
  have act: "distinct (map su_party (filter (\<lambda>x. su_state x = SubActive) (cm_subscriptions s)))" using D(1) by (simp add: subscriptions_ok_def)
  have "\<exists>!g. g \<in> set (cm_grants s) \<and> gr_subscription g = su_id x" if "x \<in> set (cm_subscriptions s)" for x
  proof -
    have "su_id x \<in> gr_subscription ` set (cm_grants s)" using D(1) that unfolding subscriptions_ok_def by blast
    then obtain g where "g \<in> set (cm_grants s)" "gr_subscription g = su_id x" by auto
    moreover have "inj_on gr_subscription (set (cm_grants s))" using D(1) by (simp add: subscriptions_ok_def distinct_map)
    ultimately show ?thesis by (intro ex1I [of _ g]) (auto simp: inj_on_def)
  qed
  moreover have "0 \<le> balanceFor p s" for p by (simp add: balanceFor_def)
  ultimately show ?thesis
    using partial_unique [OF act] balance_exact(1) [OF inv] D
    by (auto simp: subscriptions_ok_def grant_ok_def ledger_ok_def)
qed

theorem credits_never_overdrawn_witness:
  "commercial_reachable cm_charged \<and> balanceFor demo_party cm_charged = 1 \<and> activeConsumptionCount demo_party cm_charged = 1 \<and>
   sum_list (map gr_quantity (party_grants demo_party cm_charged)) = 2"
proof -
  have "sum_list (map gr_quantity (party_grants demo_party cm_charged)) = 2" "activeConsumptionCount demo_party cm_charged = 1" by code_simp+
  moreover have "balanceFor demo_party cm_charged = sum_list (map gr_quantity (party_grants demo_party cm_charged)) - activeConsumptionCount demo_party cm_charged"
    using credits_never_overdrawn [OF demo_charged] by blast
  ultimately show ?thesis using demo_charged by simp
qed

text \<open>C18: The balance alone decides a charge. A booking already charged answers with that charge; a party that was
  never granted a credit is not configured; a balance of zero is insufficient; otherwise exactly one credit is
  spent, from the oldest grant that has room, and no other party's balance moves. Only a charge writes.\<close>

theorem charge_decided_by_balance:
  assumes "commercial_reachable s"
  shows "\<exists>out s'. consumeForConfirmation c b p s = Inr (out, s') \<and>
    (if b \<in> charged_bookings s then (\<exists>i. out = AlreadyConsumed i) \<and> s' = s
     else if positiveGrants p s = [] then out = NotConfigured \<and> s' = s
     else if balanceFor p s = 0 then out = InsufficientCredit \<and> s' = s
     else charged_bookings s' = insert b (charged_bookings s) \<and>
       (\<forall>q. balanceFor q s' = balanceFor q s - (if q = p then 1 else 0)) \<and>
       (\<exists>i g. out = CreditConsumed i (gr_id g) \<and> g \<in> set (cm_grants s) \<and> gr_party g = p \<and> used_of s (gr_id g) < gr_quantity g \<and>
          (\<forall>h \<in> set (cm_grants s). gr_party h = p \<and> used_of s (gr_id h) < gr_quantity h \<longrightarrow> gr_grantedAt g \<le> gr_grantedAt h)))"
proof -
  note inv = reachable_credit [OF assms]
  show ?thesis
  proof (cases "b \<in> charged_bookings s \<or> positiveGrants p s = [] \<or> balanceFor p s = 0")
    case True
    then show ?thesis
      using consume_decides(1) [OF inv, where b = b and c = c and p = p] consume_decides(2) [OF inv, where b = b and c = c and p = p]
        consume_decides(3) [OF inv, where b = b and c = c and p = p] by (cases "b \<in> charged_bookings s") auto
  next
    case False
    then have pos: "b \<notin> charged_bookings s" "0 < balanceFor p s" using balance_nonneg [of p s] by auto
    from consume_decides(4) [OF inv pos, where c = c] obtain g s' where r: "consumeForConfirmation c b p s = Inr (CreditConsumed (cm_next s) (gr_id g), s')"
      "find (\<lambda>g. activeConsumptionCountByGrant p s (gr_id g) < gr_quantity g) (positiveGrants p s) = Some g"
      "charged_bookings s' = insert b (charged_bookings s)" by blast
    have gs: "g \<in> set (positiveGrants p s)" "activeConsumptionCountByGrant p s (gr_id g) < gr_quantity g"
      using r(2) by (auto simp: find_Some_iff dest: nth_mem)
    then have g: "g \<in> set (cm_grants s)" "gr_party g = p" by (simp_all add: set_positiveGrants)
    then have room: "used_of s (gr_id g) < gr_quantity g" using gs(2) count_is_use [OF inv g(1)] by simp
    have "gr_grantedAt g \<le> gr_grantedAt h" if "h \<in> set (cm_grants s)" "gr_party h = p" "used_of s (gr_id h) < gr_quantity h" for h
    proof -
      have "0 \<le> used_of s (gr_id h)" by (simp add: used_of_def)
      then have "h \<in> set (positiveGrants p s)" using that by (simp add: set_positiveGrants)
      then show ?thesis by (rule find_sorted_first [OF r(2) positiveGrants_sorted]) (use that count_is_use [OF inv that(1)] in simp)
    qed
    then have "\<exists>i h. CreditConsumed (cm_next s) (gr_id g) = CreditConsumed i (gr_id h) \<and> h \<in> set (cm_grants s) \<and> gr_party h = p \<and>
        used_of s (gr_id h) < gr_quantity h \<and> (\<forall>k \<in> set (cm_grants s). gr_party k = p \<and> used_of s (gr_id k) < gr_quantity k \<longrightarrow> gr_grantedAt h \<le> gr_grantedAt k)"
      using g room by blast
    moreover have "\<forall>q. balanceFor q s' = balanceFor q s - (if q = p then 1 else 0)" using charge_balance [OF inv r(1)] by blast
    ultimately show ?thesis using r(1,3) False by (intro exI [of _ "CreditConsumed (cm_next s) (gr_id g)"] exI [of _ s']) simp
  qed
qed

theorem charge_decided_by_balance_witness:
  "\<exists>i j s'. consumeForConfirmation demo_clock 101 demo_party cm_charged = Inr (CreditConsumed i j, s') \<and> balanceFor demo_party s' = 0"
proof -
  have n: "101 \<notin> charged_bookings cm_charged" "positiveGrants demo_party cm_charged \<noteq> []" "balanceFor demo_party cm_charged = 1"
    unfolding charged_bookings_def by code_simp+
  from charge_decided_by_balance [OF demo_charged, where c = demo_clock and b = 101 and p = demo_party] n
  obtain out s' i and g :: credit_grant where r: "consumeForConfirmation demo_clock 101 demo_party cm_charged = Inr (out, s')" "out = CreditConsumed i (gr_id g)"
    and q: "\<forall>q. balanceFor q s' = balanceFor q cm_charged - (if q = demo_party then 1 else 0)" by (auto simp del: split_paired_All)
  from q [THEN spec, of demo_party] n r show ?thesis by auto
qed

text \<open>A delivery that charged a booking, delivered again after any other deliveries, is refused and changes
  nothing.\<close>

theorem confirmation_charged_once:
  assumes "snd (charge e s)"
  shows "charge e (fold (\<lambda>i s. fst (charge i s)) es (fst (charge e s))) = (fold (\<lambda>i s. fst (charge i s)) es (fst (charge e s)), False)"
  by (rule charges.redelivery_no_effect) (rule assms)

theorem confirmation_charged_once_witness:
  "snd (charge (demo_clock, 100, demo_party) cm_welcome) \<and>
   \<not> snd (charge (demo_clock, 100, demo_party) (fst (charge (demo_clock, 101, demo_party) (fst (charge (demo_clock, 100, demo_party) cm_welcome)))))"
proof -
  have "snd (charge (demo_clock, 100, demo_party) cm_welcome)" by code_simp
  with confirmation_charged_once [OF this, of "[(demo_clock, 101, demo_party)]"] show ?thesis by simp
qed

text \<open>C19: What a confirmation needs. With the kill switch engaged nothing is confirmed. Under an active rollout a
  seller without governance is refused, a governed seller is permitted exactly when the booking is or becomes
  charged, and every live seller has a governance row. Otherwise a booking is refused only when its seller has
  been granted credits and has none left. A confirmation that is not permitted spends nothing.\<close>

theorem entitlement_of_confirmation:
  assumes "commercial_reachable s" "find (\<lambda>x. od_sourceType x = SourceBooking \<and> od_source x = b) (om_orders orders) = Some od"
    "control_row s = Some k"
  shows "\<exists>ent s'. onBookingConfirmation c b orders s = Inr (ent, s') \<and>
    (if ec_killSwitch k = ''engaged'' then ent = EntitlementRefused KillSwitchActive
     else if ec_rollout k = ''active'' \<and> readGovernance (od_seller od) s = None then ent = EntitlementRefused BusinessPolicyDisabled
     else if ec_rollout k = ''active'' \<and> governed s (od_seller od) then
       (if b \<in> charged_bookings s \<or> 0 < balanceFor (od_seller od) s
        then (\<exists>d. ent = Permitted d) \<and> b \<in> charged_bookings s' else ent = EntitlementRefused EntitlementMissing)
     else if b \<notin> charged_bookings s \<and> positiveGrants (od_seller od) s \<noteq> [] \<and> balanceFor (od_seller od) s = 0 then ent = EntitlementInsufficient
     else (\<exists>d. ent = Permitted d)) \<and>
    ((\<exists>d. ent = Permitted d) \<or> s' = s) \<and>
    (ec_rollout k = ''active'' \<and> od_seller od \<in> set (eligible_parties s) \<longrightarrow> ent \<noteq> EntitlementRefused BusinessPolicyDisabled)"
  by (rule entitlement_table [OF reachable_commercial_inv [OF assms(1)] assms(2,3)])

theorem entitlement_of_confirmation_witness:
  "(\<exists>d s'. onBookingConfirmation demo_clock 101 demo_orders cm_enforced = Inr (Permitted d, s') \<and> 101 \<in> charged_bookings s') \<and>
   commercial_reachable cm_enforced"
proof -
  have f: "find (\<lambda>x. od_sourceType x = SourceBooking \<and> od_source x = 101) (om_orders demo_orders) = Some (demo_order 101)"
    by (simp add: demo_orders_def demo_order_def)
  have v: "ec_killSwitch (hd (cm_control cm_enforced)) = ''released''" "ec_rollout (hd (cm_control cm_enforced)) = ''active''"
    "control_row cm_enforced \<noteq> None" "pg_state (hd (cm_governance cm_enforced)) = ''governed''" "pg_party (hd (cm_governance cm_enforced)) = demo_party"
    "cm_governance cm_enforced \<noteq> []" "balanceFor demo_party cm_enforced = 1"
    by code_simp+
  obtain k where k: "cm_control cm_enforced = [k]" "control_row cm_enforced = Some k"
    by (rule enforcement_control [OF reachable_enforcement [OF demo_enforced]])
  have "governed cm_enforced demo_party" unfolding governed_def using v(4-6) hd_in_set by blast
  then have "readGovernance demo_party cm_enforced \<noteq> None" using governed_read [OF reachable_enforcement [OF demo_enforced]] by auto
  with entitlement_of_confirmation [OF demo_enforced f k(2), of demo_clock] \<open>governed cm_enforced demo_party\<close> v k(1) demo_enforced show ?thesis
    by (auto simp: demo_order_def)
qed

text \<open>C20: Enforcement only ever tightens. From any reachable state on, an active rollout stays active, a governed
  seller stays governed, a party with a governance row keeps one; under an active rollout every live seller,
  whenever it was created, has a governance row; and a seller governed by an explicit transition was granted
  at least one credit.\<close>

theorem enforcement_never_relaxes:
  assumes "commercial_reachable s" "commercial_step\<^sup>*\<^sup>* s s'"
  shows "(rollout_active s \<longrightarrow> rollout_active s') \<and> (\<forall>p. governed s p \<longrightarrow> governed s' p) \<and>
    (\<forall>p. readGovernance p s \<noteq> None \<longrightarrow> readGovernance p s' \<noteq> None) \<and>
    (rollout_active s' \<longrightarrow> (\<forall>p \<in> set (eligible_parties s'). readGovernance p s' \<noteq> None)) \<and>
    (\<forall>g \<in> set (cm_governance s'). pg_cause g = ExplicitTransition \<longrightarrow> 0 < sum_list (map gr_quantity (party_grants (pg_party g) s')))"
proof -
  have run: "commercial_inv s'" "enforcement_le s s'"
    using commercial_run_inv [OF assms(2) reachable_commercial_inv [OF assms(1)]] by blast+
  then have inv: "credit_inv s'" "enforcement_inv s'" by (simp_all add: commercial_inv_def)
  have le: "governance_le s s'" "rollout_active s \<longrightarrow> rollout_active s'" using run(2) by (simp_all add: enforcement_le_def)
  have pos: "0 < sum_list (map gr_quantity (party_grants (pg_party g) s'))" if g: "g \<in> set (cm_governance s')" "pg_cause g = ExplicitTransition" for g
  proof -
    have "governance_row_ok g" "proven (cm_grants s') g" using enforcement_parts(1) [OF inv(2)] g(1) by (simp_all add: governance_ok_def)
    then obtain h where h: "h \<in> set (party_grants (pg_party g) s')" "0 < gr_quantity h"
      using g(2) by (auto simp: governance_row_ok_def proven_def party_grants_def)
    have "gr_quantity h \<le> sum_list (map gr_quantity (party_grants (pg_party g) s'))"
      by (rule member_le_sum_list) (use h(1) grants_facts(3) [OF inv(1)] in \<open>auto simp: party_grants_def\<close>)
    with h(2) show ?thesis by simp
  qed
  have keeps: "readGovernance p s' \<noteq> None" if "readGovernance p s \<noteq> None" for p
  proof -
    have "p \<in> pg_party ` set (cm_governance s)" using that unfolding readGovernance_None by (rule notnotD)
    then have "p \<in> pg_party ` set (cm_governance s')" by (rule subsetD [OF governance_leD2 [OF le(1)]])
    then show ?thesis unfolding readGovernance_None by (rule notI [OF notE, rotated])
  qed
  have classed: "readGovernance p s' \<noteq> None" if "rollout_active s'" "p \<in> set (eligible_parties s')" for p
    using enforcement_parts(2) [OF inv(2) that(1)] that(2) readGovernance_None [of p s'] by (simp add: classified_def)
  show ?thesis
  proof (intro conjI allI impI ballI)
    show "rollout_active s \<Longrightarrow> rollout_active s'" using le(2) by simp
  qed (rule governance_leD1 [OF le(1)] keeps classed pos, assumption+)+
qed

theorem enforcement_never_relaxes_witness:
  "rollout_active cm_enforced \<and> readGovernance demo_party cm_enforced \<noteq> None"
proof -
  have "rollout_active cm_enforced" unfolding rollout_active_def by code_simp
  moreover have "demo_party \<in> set (eligible_parties cm_enforced)" by code_simp
  ultimately show ?thesis using enforcement_never_relaxes [OF demo_enforced rtranclp.rtrancl_refl] by blast
qed

text \<open>A cancelled booking gives its credit back at most once. Cancelling a confirmed, charged booking returns
  exactly one credit to the party that was charged when the seller or the platform cancels and the charge was
  not returned before, and nothing otherwise; a second cancellation returns nothing.\<close>

theorem cancellation_returns_once:
  assumes "commercial_reachable s" "x \<in> set (cm_consumptions s)" "cn_booking x = b" "s' = onBookingCancellation c b who True s s"
  shows "(\<forall>q. balanceFor q s' = balanceFor q s + (if q = cn_party x \<and> who \<noteq> ActCustomer \<and> active_consumption s x then 1 else 0)) \<and>
    (who \<noteq> ActCustomer \<longrightarrow> (\<forall>c' who'. onBookingCancellation c' b who' True s' s' = s'))"
proof -
  note inv = reachable_credit [OF assms(1)]
  have f: "find (\<lambda>x. cn_booking x = b) (cm_consumptions s) = Some x"
  proof -
    obtain y where y: "find (\<lambda>x. cn_booking x = b) (cm_consumptions s) = Some y"
      using assms(2,3) find_consumption_None [of b "cm_consumptions s"] by fastforce
    then have "y \<in> set (cm_consumptions s)" "cn_booking y = b" by (auto simp: find_Some_iff dest: nth_mem)
    then have "y = x" using credit_invD(2) [OF inv] assms(2,3) by (auto simp: ledger_ok_def distinct_map inj_on_def)
    with y show ?thesis by simp
  qed
  show ?thesis
  proof (cases "who = ActCustomer")
    case True
    then show ?thesis by (simp add: assms(4) onBookingCancellation_def CAUSE_BY_ACTOR_def)
  next
    case False
    then obtain cause where c: "CAUSE_BY_ACTOR who = Some cause" by (cases who) (simp_all add: CAUSE_BY_ACTOR_def)
    obtain out where r: "returnForCancellation c b cause s s = (out, s')"
      using c by (cases "returnForCancellation c b cause s s") (simp add: assms(4) onBookingCancellation_def)
    have again: "cn_id x \<in> rt_consumption ` set (cm_returns s') \<and> find (\<lambda>x. cn_booking x = b) (cm_consumptions s') = Some x"
      using r f by (auto simp: returnForCancellation_def insert_once_def record_audit_def list_ex_iff intro: rev_image_eqI split: if_splits)
    then have "snd (returnForCancellation c' b cause' s' s') = s'" for c' cause'
      by (auto simp: returnForCancellation_def list_ex_iff)
    then have second: "onBookingCancellation c' b who' True s' s' = s'" for c' who'
      by (simp add: onBookingCancellation_def split: option.splits)
    have "balanceFor q s' = balanceFor q s + (if q = cn_party x \<and> active_consumption s x then 1 else 0)" for q
    proof (cases "active_consumption s x")
      case True
      then have "out = CreditReturned (cm_next s)"
        using r f by (auto simp: returnForCancellation_def insert_once_def record_audit_def active_consumption_def list_ex_iff image_iff split: if_splits)
      with r have "returnForCancellation c b cause s s = (CreditReturned (cm_next s), s')" by simp
      from return_balance [OF inv this assms(2,3)] True show ?thesis by simp
    next
      case returned: False
      then have "s' = s" using r f by (auto simp: returnForCancellation_def active_consumption_def list_ex_iff split: if_splits)
      with returned show ?thesis by simp
    qed
    then show ?thesis using False second by simp
  qed
qed

theorem cancellation_returns_once_witness:
  "balanceFor demo_party (onBookingCancellation demo_clock 100 ActProfessional True cm_charged cm_charged) = 2"
proof -
  let ?x = "hd (cm_consumptions cm_charged)"
  have v: "cm_consumptions cm_charged \<noteq> []" "cn_booking ?x = 100" "cn_party ?x = demo_party" "cm_returns cm_charged = []" "balanceFor demo_party cm_charged = 1"
    by code_simp+
  from cancellation_returns_once [OF demo_charged _ v(2) refl, of demo_clock ActProfessional]
  have "balanceFor demo_party (onBookingCancellation demo_clock 100 ActProfessional True cm_charged cm_charged) =
      balanceFor demo_party cm_charged + (if demo_party = cn_party ?x \<and> ActProfessional \<noteq> ActCustomer \<and> active_consumption cm_charged ?x then 1 else 0)"
    using v(1) hd_in_set by blast
  with v(3-5) show ?thesis by (simp add: active_consumption_def)
qed

text \<open>C21: A free plan gives its credits without end. A seller who holds a free plan may leave it and select it
  again any number of times; every round succeeds and adds the plan's credits to the balance, because each
  selection is a new subscription and every subscription has its own grant.\<close>

theorem free_credits_without_end:
  assumes "commercial_reachable s" "offers cat c base plan" "isEligible p s" "findActive p s = Some x" "su_planVersion x = pv_id plan"
  shows "\<exists>s'. again n (leave_and_return cat c p plan actor) s = Inr s' \<and>
    balanceFor p s' = balanceFor p s + int n * (pv_credits base + pv_credits plan)"
proof -
  have "\<exists>s'. again n (leave_and_return cat c p plan actor) s = Inr s' \<and> credit_inv s' \<and>
      granted_to p s' = granted_to p s + int n * (pv_credits base + pv_credits plan) \<and> same_ledger s s'"
    if "credit_inv s" "isEligible p s" "findActive p s = Some x" "su_planVersion x = pv_id plan" for s x
    using that
  proof (induction n arbitrary: s x)
    case 0
    then show ?case by (simp add: same_ledger_def)
  next
    case (Suc n)
    from round_runs [OF Suc.prems(1) assms(2) Suc.prems(2-4), of actor] obtain y t where t:
      "leave_and_return cat c p plan actor s = Inr t" "credit_inv t" "findActive p t = Some y" "su_planVersion y = pv_id plan"
      "granted_to p t = granted_to p s + (pv_credits base + pv_credits plan)" "same_ledger s t" by blast
    have "isEligible p t" using Suc.prems(2) t(6) by (simp add: isEligible_def seller_rows_def same_ledger_def split: party_type.splits)
    from Suc.IH [OF t(2) this t(3,4)] obtain s' where s': "again n (leave_and_return cat c p plan actor) t = Inr s'" "credit_inv s'"
      "granted_to p s' = granted_to p t + int n * (pv_credits base + pv_credits plan)" "same_ledger t s'" by blast
    have "same_ledger s s'" by (rule same_ledger_trans [OF t(6) s'(4)])
    with t(1,5) s'(1-3) show ?case by (simp add: algebra_simps)
  qed
  from this [OF reachable_credit [OF assms(1)] assms(3-5)] obtain s' where s': "again n (leave_and_return cat c p plan actor) s = Inr s'" "credit_inv s'"
    "granted_to p s' = granted_to p s + int n * (pv_credits base + pv_credits plan)" "same_ledger s s'" by blast
  have "activeConsumptionCount p s' = activeConsumptionCount p s"
    using s'(4) by (simp add: activeConsumptionCount_def active_consumption_def same_ledger_def)
  then show ?thesis
    using s'(1,3) balance_exact(1) [OF s'(2), of p] balance_exact(1) [OF reachable_credit [OF assms(1)], of p] by (simp add: granted_to_def)
qed

theorem free_credits_without_end_witness:
  "\<exists>s'. again 50 (leave_and_return demo_catalogue demo_clock demo_party demo_plan 7) cm_welcome = Inr s' \<and> balanceFor demo_party s' = 102"
proof -
  have o: "offers demo_catalogue demo_clock demo_base demo_plan"
    by (simp add: offers_def free_plan_def snapshotPriceOf_def requireAutoAssignableVersion_def requireSelectableVersion_def selectable_def
        demo_catalogue_def demo_base_def demo_plan_def demo_clock_def tget_def)
  have e: "isEligible demo_party cm_welcome" by code_simp
  obtain x where x: "findActive demo_party cm_welcome = Some x" "su_planVersion x = pv_id demo_plan"
  proof -
    have "map_option su_planVersion (findActive demo_party cm_welcome) = Some (pv_id demo_plan)" by code_simp
    then show ?thesis using that by auto
  qed
  have "balanceFor demo_party cm_welcome = 2" "pv_credits demo_base + pv_credits demo_plan = 2" by code_simp+
  with free_credits_without_end [OF demo_welcome o e x, of 50 7] show ?thesis by simp
qed

end
