(* ===== verification/Checkout_Model.thy ===== *)
theory Checkout_Model
  imports Booking_Model Order_Model Payment_Refund Enforcement Outcome_Evaluator
begin

text \<open>
  The checkout (\<open>apps/api/src/checkout/checkout.service.ts\<close>): the one place where bookings, orders, payments and
  booking credits change in one transaction. The \<open>platform\<close> is the four schemas side by side. A transaction is a
  function that answers the new platform or an error, in which case nothing is kept; what runs in several
  transactions answers the platform next to its result, because an error of a later one keeps the earlier ones.

  Each transaction runs as one step. Between \<open>prepareVerification\<close>, the transaction of the callback and the refund
  that may follow it other operations may run, so the three are definitions of their own. Draining the outbox after
  the commit swallows every failure and only runs the event handlers early; it is left out. The Persian texts of
  reasons and descriptions are ASCII names here.
\<close>

record platform =
  w_bookings :: booking_db
  w_orders :: order_db
  w_payments :: payment_db
  w_commercial :: commercial_db

text \<open>What the services are configured with.\<close>

record checkout_env =
  ce_bookings :: booking_ports
  ce_config :: booking_config
  ce_orders :: order_ports
  ce_known :: "string \<Rightarrow> bool"
  ce_providers :: "payment_provider list"
  ce_default :: "string option"
  ce_ttl :: jsnum

datatype zero_confirmation_refusal = RefusedTransition zero_refusal | RefusedBooking | RefusedCredit | RefusedControl

datatype retry_refusal = OrderNotPayable | NoPaymentStarted | AlreadyPaid | RetryExpired | VerificationPending | NotRetryable

datatype checkout_error =
    ByBooking booking_error
  | ByOrder order_error
  | ByPayment payment_error
  | ByCommercial commercial_error
  | ZeroCollectibleRefused nat zero_confirmation_refusal
  | CaptureAmountMismatch nat capture_refusal
  | InconsistentZeroCollectible nat nat
  | RetryIntentNotFound
  | PaymentRetryNotAvailable retry_refusal

definition lift_error :: "('e \<Rightarrow> 'f) \<Rightarrow> 'e + 'a \<Rightarrow> 'f + 'a" where
  "lift_error f r = (case r of Inl e \<Rightarrow> Inl (f e) | Inr x \<Rightarrow> Inr x)"

lemma lift_error_simps [simp]:
  "lift_error f (Inl e) = Inl (f e)" "lift_error f (Inr x) = Inr x" "lift_error f r = Inr y \<longleftrightarrow> r = Inr y"
  by (auto simp: lift_error_def split: sum.splits)

section \<open>Starting a booking\<close>

record checkout_input =
  xi_booking :: create_input
  xi_callbackBaseUrl :: string
  xi_accepted :: "outcome_acceptance option"

record checkout_result =
  xr_booking :: nat
  xr_order :: order_detail
  xr_intent :: "nat option"
  xr_redirectUrl :: "string option"

text \<open>The transaction of \<open>checkout\<close>: the booking and its order.\<close>

definition open_booking :: "checkout_env \<Rightarrow> clock \<Rightarrow> checkout_input \<Rightarrow> platform \<Rightarrow> checkout_error + (nat \<times> order_detail) \<times> platform" where
  "open_booking env c inp w =
    bind_res (lift_error ByBooking (create (ce_bookings env) (ce_config env) c (xi_booking inp) (w_bookings w) (w_bookings w))) (\<lambda>(b, bs).
    bind_res (lift_error ByOrder (createForBooking (ce_known env) (ce_orders env) (ck_js c) (ck_db c)
        \<lparr>bo_booking = bk_id b, bo_customer = bk_customer b, bo_professional = bk_professional b, bo_service = bk_service b,
         bo_accepted = xi_accepted inp\<rparr> (w_orders w) (w_orders w))) (\<lambda>(d, os).
    Inr ((bk_id b, d), w\<lparr>w_bookings := bs, w_orders := os\<rparr>)))"

text \<open>\<open>hook.onBookingConfirmation\<close>, on the orders as the transaction has written them.\<close>

definition entitlement_hook :: "clock \<Rightarrow> nat \<Rightarrow> platform \<Rightarrow> checkout_error + confirmation_entitlement \<times> platform" where
  "entitlement_hook c bookingId w =
    bind_res (lift_error ByCommercial (onBookingConfirmation c bookingId (w_orders w) (w_commercial w))) (\<lambda>(e, cm).
    Inr (e, w\<lparr>w_commercial := cm\<rparr>))"

definition permitted :: "confirmation_entitlement \<Rightarrow> bool" where
  "permitted e = (case e of Permitted _ \<Rightarrow> True | _ \<Rightarrow> False)"

definition confirm_booking :: "clock \<Rightarrow> nat \<Rightarrow> platform \<Rightarrow> checkout_error + bool \<times> platform" where
  "confirm_booking c bookingId w =
    bind_res (lift_error ByBooking (confirm (db_bookings (w_bookings w)) c bookingId SYSTEM_ACTOR (w_bookings w))) (\<lambda>(moved, bs).
    Inr (moved, w\<lparr>w_bookings := bs\<rparr>))"

text \<open>The transaction of \<open>confirmWithoutOnlineCollection\<close>: the answer is whether it was replayed.\<close>

definition zero_transaction :: "clock \<Rightarrow> nat \<Rightarrow> nat \<Rightarrow> platform \<Rightarrow> checkout_error + bool \<times> platform" where
  "zero_transaction c bookingId orderId w =
    bind_res (lift_error ByOrder (confirmNoOnlineCollection orderId (w_orders w))) (\<lambda>(t, os).
    case t of
      ZeroIneligible why \<Rightarrow> Inl (ZeroCollectibleRefused orderId (RefusedTransition why))
    | ZeroAlready \<Rightarrow> Inr (True, w)
    | ZeroTransitioned \<Rightarrow>
        bind_res (entitlement_hook c bookingId (w\<lparr>w_orders := os\<rparr>)) (\<lambda>(e, w1).
        if \<not> permitted e then Inl (ZeroCollectibleRefused orderId (case e of EntitlementInsufficient \<Rightarrow> RefusedCredit
               | EntitlementRefused _ \<Rightarrow> RefusedControl | _ \<Rightarrow> RefusedTransition ZeroNotTransitionable))
        else bind_res (confirm_booking c bookingId w1) (\<lambda>(confirmed, w2).
          if \<not> confirmed then Inl (ZeroCollectibleRefused orderId RefusedBooking) else Inr (False, w2))))"

definition assertBookingConfirmed :: "nat \<Rightarrow> nat \<Rightarrow> platform \<Rightarrow> checkout_error + unit" where
  "assertBookingConfirmed orderId bookingId w =
    (if map_option bk_status (findById bookingId (w_bookings w)) = Some Confirmed then Inr ()
     else Inl (InconsistentZeroCollectible orderId bookingId))"

definition confirmWithoutOnlineCollection :: "clock \<Rightarrow> nat \<Rightarrow> order_detail \<Rightarrow> platform \<Rightarrow> (checkout_error + checkout_result) \<times> platform" where
  "confirmWithoutOnlineCollection c bookingId created w =
    (let orderId = od_id (dt_order created) in
     case zero_transaction c bookingId orderId w of
       Inl e \<Rightarrow> (Inl e, w)
     | Inr (replayed, w1) \<Rightarrow>
        (bind_res (if replayed then assertBookingConfirmed orderId bookingId w1 else Inr ()) (\<lambda>_.
         bind_res (lift_error ByOrder (detailFor orderId (w_orders w1))) (\<lambda>d.
         Inr \<lparr>xr_booking = bookingId, xr_order = (case d of Some x \<Rightarrow> x | None \<Rightarrow> created), xr_intent = None, xr_redirectUrl = None\<rparr>)), w1))"

text \<open>The two payment calls: each commits on its own.\<close>

definition start_payment :: "checkout_env \<Rightarrow> clock \<Rightarrow> string \<Rightarrow> nat \<Rightarrow> order_detail \<Rightarrow> platform \<Rightarrow> (checkout_error + checkout_result) \<times> platform" where
  "start_payment env c url bookingId d w =
    (case createIntentForOrder (ce_providers env) (ce_default env) (ce_ttl env) (ck_js c)
            \<lparr>ci_order = od_id (dt_order d), ci_customer = od_customer (dt_order d), ci_amount = fin_int (sc_collectible (dt_schedule d)),
             ci_provider = None\<rparr> (w_payments w) (w_payments w) of
       (Inl e, pm) \<Rightarrow> (Inl (ByPayment e), w\<lparr>w_payments := pm\<rparr>)
     | (Inr it, pm) \<Rightarrow>
        (case initiate (ce_providers env) (ck_js c) (pi_id it) url (''booking order '' @ show_nat (od_id (dt_order d))) pm pm of
           (Inl e, pm') \<Rightarrow> (Inl (ByPayment e), w\<lparr>w_payments := pm'\<rparr>)
         | (Inr ir, pm') \<Rightarrow>
             (Inr \<lparr>xr_booking = bookingId, xr_order = d, xr_intent = Some (pi_id it), xr_redirectUrl = Some (ir_redirectUrl ir)\<rparr>,
              w\<lparr>w_payments := pm'\<rparr>)))"

definition checkout :: "checkout_env \<Rightarrow> clock \<Rightarrow> checkout_input \<Rightarrow> platform \<Rightarrow> (checkout_error + checkout_result) \<times> platform" where
  "checkout env c inp w =
    (case open_booking env c inp w of
       Inl e \<Rightarrow> (Inl e, w)
     | Inr ((bookingId, d), w1) \<Rightarrow>
        (if sc_collectible (dt_schedule d) = 0 then confirmWithoutOnlineCollection c bookingId d w1
         else start_payment env c (xi_callbackBaseUrl inp) bookingId d w1))"

section \<open>The gateway's callback\<close>

text \<open>What the transaction of \<open>handleCallback\<close> answers.\<close>

record callback_settlement =
  cs_outcome :: verification_outcome
  cs_unavailable :: bool
  cs_duplicate :: bool
  cs_cancelled :: "nat option"

definition settled :: "verification_outcome \<Rightarrow> callback_settlement" where
  "settled v = \<lparr>cs_outcome = v, cs_unavailable = False, cs_duplicate = False, cs_cancelled = None\<rparr>"

text \<open>After the capture: the credit, the confirmation, and what a booking that cannot be confirmed is.\<close>

definition confirm_paid_booking :: "clock \<Rightarrow> verification_outcome \<Rightarrow> nat \<Rightarrow> platform \<Rightarrow> checkout_error + callback_settlement \<times> platform" where
  "confirm_paid_booking c v bookingId w =
    bind_res (entitlement_hook c bookingId w) (\<lambda>(e, w1).
    if \<not> permitted e then Inr ((settled v)\<lparr>cs_unavailable := True\<rparr>, w1)
    else bind_res (confirm_booking c bookingId w1) (\<lambda>(confirmed, w2).
      if confirmed then Inr (settled v, w2)
      else Inr ((settled v)\<lparr>cs_unavailable := True,
                 cs_cancelled := (case findById bookingId (w_bookings w2) of
                    Some b \<Rightarrow> if bk_status b = Cancelled then Some (bk_id b) else None | None \<Rightarrow> None)\<rparr>, w2)))"

definition settle_callback :: "clock \<Rightarrow> prepared_verification \<Rightarrow> platform \<Rightarrow> checkout_error + callback_settlement \<times> platform" where
  "settle_callback c p w =
    bind_res (lift_error ByPayment (applyVerification (ck_js c) p (w_payments w))) (\<lambda>(v, pm).
    let w1 = w\<lparr>w_payments := pm\<rparr> in
    if vo_status v \<noteq> VerSucceeded then Inr (settled v, w1)
    else bind_res (lift_error ByOrder (recordVerifiedCapture (ck_js c) (vo_order v) (fin_int (vo_amount v)) (w_orders w1))) (\<lambda>(captured, os).
      case captured of
        CaptureRefused why \<Rightarrow> Inl (CaptureAmountMismatch (vo_order v) why)
      | AlreadyCaptured _ _ \<Rightarrow> Inr ((settled (v\<lparr>vo_status := VerReplayed\<rparr>))\<lparr>cs_duplicate := True\<rparr>, w1)
      | Captured _ _ \<Rightarrow>
          (let w2 = w1\<lparr>w_orders := os\<rparr> in
           case order_findById (vo_order v) os of
             None \<Rightarrow> Inr (settled v, w2)
           | Some od \<Rightarrow> if od_sourceType od \<noteq> SourceBooking then Inr (settled v, w2)
                        else confirm_paid_booking c v (od_source od) w2)))"

text \<open>The refund that follows a duplicate charge, and the one that follows a booking that cannot be confirmed.\<close>

definition duplicate_refund :: "verification_outcome \<Rightarrow> refund_input" where
  "duplicate_refund v = \<lparr>ri_order = vo_order v, ri_amount = fin_int (vo_amount v), ri_reason = ''duplicate charge'',
     ri_key = ''duplicate-charge:'' @ show_nat (vo_attempt v), ri_actor = ''system'', ri_kind = Some KindDuplicate,
     ri_attempt = Some (vo_attempt v)\<rparr>"

definition unavailable_refund :: "callback_settlement \<Rightarrow> refund_input" where
  "unavailable_refund st = \<lparr>ri_order = vo_order (cs_outcome st), ri_amount = fin_int (vo_amount (cs_outcome st)),
     ri_reason = (case cs_cancelled st of Some _ \<Rightarrow> ''booking cancelled'' | None \<Rightarrow> ''booking expired before payment''),
     ri_key = (case cs_cancelled st of Some b \<Rightarrow> bookingCancellationRefundKey (show_nat b)
                 | None \<Rightarrow> ''booking-unconfirmable:'' @ show_nat (vo_order (cs_outcome st))),
     ri_actor = ''system'', ri_kind = None, ri_attempt = None\<rparr>"

definition callback_refunds :: "callback_settlement \<Rightarrow> refund_input list" where
  "callback_refunds st = (if cs_duplicate st then [duplicate_refund (cs_outcome st)] else []) @
     (if cs_unavailable st then [unavailable_refund st] else [])"

record callback_result =
  cr_outcome :: verification_outcome
  cr_refundIssued :: bool
  cr_duplicateRefunded :: bool

fun issue_refunds :: "payment_provider list \<Rightarrow> int \<Rightarrow> refund_input list \<Rightarrow> payment_db \<Rightarrow> (payment_error + unit) \<times> payment_db" where
  "issue_refunds ps now [] s = (Inr (), s)"
| "issue_refunds ps now (r # rs) s =
    (case refund ps now r s s of (Inl e, s') \<Rightarrow> (Inl e, s') | (Inr _, s') \<Rightarrow> issue_refunds ps now rs s')"

definition finish_callback :: "checkout_env \<Rightarrow> clock \<Rightarrow> callback_settlement \<Rightarrow> platform \<Rightarrow> (checkout_error + callback_result) \<times> platform" where
  "finish_callback env c st w =
    (case issue_refunds (ce_providers env) (ck_js c) (callback_refunds st) (w_payments w) of
       (r, pm) \<Rightarrow> (lift_error ByPayment (bind_res r (\<lambda>_.
          Inr \<lparr>cr_outcome = cs_outcome st, cr_refundIssued = cs_unavailable st, cr_duplicateRefunded = cs_duplicate st\<rparr>)),
        w\<lparr>w_payments := pm\<rparr>))"

definition handleCallback :: "checkout_env \<Rightarrow> clock \<Rightarrow> string \<Rightarrow> string \<Rightarrow> (string \<times> string) list \<Rightarrow> platform \<Rightarrow>
    (checkout_error + callback_result) \<times> platform" where
  "handleCallback env c providerKey providerReference params w =
    (case bind_res (lift_error ByPayment (prepareVerification (ce_providers env) (ck_js c) providerKey providerReference params (w_payments w)))
            (\<lambda>p. settle_callback c p w) of
       Inl e \<Rightarrow> (Inl e, w)
     | Inr (st, w1) \<Rightarrow> finish_callback env c st w1)"

section \<open>Paying again\<close>

definition retry_guards :: "int \<Rightarrow> nat \<Rightarrow> nat \<Rightarrow> platform \<Rightarrow> checkout_error + payment_intent" where
  "retry_guards now orderId customerId w =
    (case order_findById orderId (w_orders w) of
       None \<Rightarrow> Inl RetryIntentNotFound
     | Some od \<Rightarrow>
        (if od_customer od \<noteq> customerId then Inl RetryIntentNotFound
         else if od_status od \<noteq> OrdPending then Inl (PaymentRetryNotAvailable OrderNotPayable)
         else case findLatestIntentForOrder orderId (w_payments w) of
           None \<Rightarrow> Inl (PaymentRetryNotAvailable NoPaymentStarted)
         | Some it \<Rightarrow>
            (if pi_customer it \<noteq> customerId then Inl RetryIntentNotFound
             else if pi_status it = IntSucceeded then Inl (PaymentRetryNotAvailable AlreadyPaid)
             else if pi_status it = IntExpired \<or> pi_expiresAt it \<le> now then Inl (PaymentRetryNotAvailable RetryExpired)
             else if pi_status it = IntCancelled then Inl (PaymentRetryNotAvailable OrderNotPayable)
             else if findOpenAttemptForIntent (pi_id it) (w_payments w) \<noteq> None then Inl (PaymentRetryNotAvailable VerificationPending)
             else if \<not> isIntentRetryable it then Inl (PaymentRetryNotAvailable NotRetryable)
             else Inr it)))"

definition retryPayment :: "checkout_env \<Rightarrow> clock \<Rightarrow> nat \<Rightarrow> nat \<Rightarrow> string \<Rightarrow> platform \<Rightarrow> (checkout_error + string) \<times> platform" where
  "retryPayment env c orderId customerId url w =
    (case retry_guards (ck_js c) orderId customerId w of
       Inl e \<Rightarrow> (Inl e, w)
     | Inr it \<Rightarrow>
        (case initiate (ce_providers env) (ck_js c) (pi_id it) url (''retry order '' @ show_nat (pi_order it)) (w_payments w) (w_payments w) of
           (r, pm) \<Rightarrow> (lift_error ByPayment (bind_res r (\<lambda>x. Inr (ir_redirectUrl x))), w\<lparr>w_payments := pm\<rparr>)))"

end
