(* ===== verification/Outcome_Decision.thy ===== *)
theory Outcome_Decision
  imports Checkout_Model
begin

text \<open>
  Booking outcome decisions: commerce's record of them
  (\<open>services/commerce/src/outcome-decision/booking-outcome-decision.service.ts\<close>,
  \<open>customer-remedy-choice.service.ts\<close>) with the CHECKs of its table, and the Legal evidence a cap rests on
  (\<open>services/commercial-policy/src/outcome-evaluation/legal-evidence-state.service.ts\<close>). What decides and
  executes is in \<open>Outcome_Orchestrator\<close>.

  A new decision is a row of the table whose id and supersession the write fills in. Row locks are the
  transactions of the orchestrator. The integrity trigger of the remedy table is left out: its one caller offers a
  remedy for the order it found by the booking.
\<close>

section \<open>Legal evidence\<close>

record legal_evidence =
  le_id :: string
  le_subject :: string
  le_status :: string

definition capStateFor :: "legal_evidence list \<Rightarrow> string option \<Rightarrow> legal_cap_state" where
  "capStateFor evidence legalEvidenceId =
    (case legalEvidenceId of
       None \<Rightarrow> CapAbsent
     | Some i \<Rightarrow>
        (case find (\<lambda>x. le_id x = i) evidence of
           None \<Rightarrow> CapAbsent
         | Some x \<Rightarrow> if le_subject x \<noteq> ''retention_cap'' then CapAbsent
                     else if le_status x = ''recorded'' then CapApplied
                     else if le_status x = ''retired'' then CapRetired else CapAbsent))"

section \<open>The order and the terms of a booking\<close>

record locked_order =
  lo_order :: nat
  lo_status :: order_status
  lo_collected :: int
  lo_refunded :: int

definition order_of_booking :: "nat \<Rightarrow> order_db \<Rightarrow> order option" where
  "order_of_booking bookingId s = find (\<lambda>x. od_sourceType x = SourceBooking \<and> od_source x = bookingId) (om_orders s)"

definition lockOrderForBooking :: "nat \<Rightarrow> order_db \<Rightarrow> locked_order option" where
  "lockOrderForBooking bookingId s = map_option (\<lambda>x. \<lparr>lo_order = od_id x, lo_status = od_status x,
     lo_collected = od_collected x, lo_refunded = od_refunded x\<rparr>) (order_of_booking bookingId s)"

definition orderIdForBooking :: "nat \<Rightarrow> order_db \<Rightarrow> nat option" where
  "orderIdForBooking bookingId s = map_option od_id (order_of_booking bookingId s)"

definition bookingHasOutcomeTerms :: "nat \<Rightarrow> order_db \<Rightarrow> bool" where
  "bookingHasOutcomeTerms bookingId s = list_ex (\<lambda>x. od_sourceType x = SourceBooking \<and> od_source x = bookingId \<and>
     list_ex (\<lambda>t. tr_order t = od_id x) (om_terms s)) (om_orders s)"

record decision_terms =
  dm_policyKey :: string
  dm_policyVersion :: jsnum
  dm_cutoffHours :: int
  dm_rescheduleFreeCount :: int
  dm_lateRetention :: retention_rule
  dm_graceMinutes :: int
  dm_noShowRetention :: retention_rule
  dm_disputeWindowHours :: int
  dm_legalCap :: "retention_rule option"
  dm_legalCapState :: legal_cap_state

definition evaluation_terms_of :: "decision_terms \<Rightarrow> evaluation_terms" where
  "evaluation_terms_of t = \<lparr>et_lateCancellationRetention = dm_lateRetention t, et_noShowRetention = dm_noShowRetention t,
     et_legalCap = dm_legalCap t\<rparr>"

text \<open>The amount columns come back as text.\<close>

definition termsFor :: "legal_evidence list \<Rightarrow> nat \<Rightarrow> order_db \<Rightarrow> decision_terms option" where
  "termsFor evidence orderId s =
    (case find (\<lambda>t. tr_order t = orderId) (om_terms s) of
       None \<Rightarrow> None
     | Some r \<Rightarrow>
        (let legalCap = map_option (\<lambda>c. bookingOutcomeRetentionRuleFromColumns (as_text c)) (tr_legalCap r) in
         Some \<lparr>dm_policyKey = oa_policyKey (tr_identity r), dm_policyVersion = oa_policyVersion (tr_identity r),
           dm_cutoffHours = big_int (tr_cutoffHours r), dm_rescheduleFreeCount = big_int (tr_rescheduleFreeCount r),
           dm_lateRetention = bookingOutcomeRetentionRuleFromColumns (as_text (tr_lateRetention r)),
           dm_graceMinutes = big_int (tr_graceMinutes r),
           dm_noShowRetention = bookingOutcomeRetentionRuleFromColumns (as_text (tr_noShowRetention r)),
           dm_disputeWindowHours = big_int (tr_disputeWindowHours r),
           dm_legalCap = legalCap,
           dm_legalCapState = (if legalCap = None then CapAbsent else capStateFor evidence (tr_legalEvidence r))\<rparr>))"

section \<open>The decision table\<close>

text \<open>\<open>ck_bod_*\<close>; \<open>now\<close> is \<open>decided_at\<close>.\<close>

definition decision_row_ok :: "int \<Rightarrow> outcome_decision \<Rightarrow> bool" where
  "decision_row_ok now d \<longleftrightarrow>
    de_kind d \<noteq> KindDisputeOutcome \<and>
    0 \<le> de_collectedRemaining d \<and> 0 \<le> de_policyAmount d \<and> 0 \<le> de_retained d \<and> 0 \<le> de_refund d \<and>
    (case de_legalCap d of None \<Rightarrow> True | Some c \<Rightarrow> 0 \<le> c) \<and>
    (de_policyKey d = None \<longleftrightarrow> de_policyVersion d = None) \<and>
    (de_legalCapState d = CapApplied \<longleftrightarrow> de_legalCap d \<noteq> None) \<and>
    (de_timely d = None \<longleftrightarrow> de_cutoffInstant d = None) \<and>
    (case (de_timely d, de_cutoffInstant d) of (Some t, Some c) \<Rightarrow> t = (de_eventInstant d \<le> c) | _ \<Rightarrow> True) \<and>
    de_eventInstant d \<le> now \<and>
    (de_policyKey d = None \<longrightarrow> de_cutoffInstant d = None \<and> de_legalCapState d = CapAbsent \<and> de_policyAmount d = 0) \<and>
    de_retained d \<le> de_collectedRemaining d \<and>
    (de_retained d \<noteq> 0 \<longrightarrow> de_basis d = EvalBasis BasisCapApplied) \<and>
    (de_basis d = EvalBasis BasisCapApplied \<longrightarrow> de_wasConfirmed d \<and> de_policyKey d \<noteq> None \<and> de_legalCapState d = CapApplied \<and>
       (case de_legalCap d of None \<Rightarrow> False | Some c \<Rightarrow> de_retained d = min3 (de_policyAmount d) c (de_collectedRemaining d)) \<and>
       (de_cause d = Customer \<and> de_timely d = Some False \<or> de_cause d = NoShow \<and> de_timely d = None \<and> de_cutoffInstant d = None)) \<and>
    (de_basis d = EvalBasis LegacyUnenrolled \<longrightarrow> de_policyKey d = None) \<and>
    (de_basis d = EvalBasis NonCustomerCause \<longrightarrow> de_cause d \<noteq> Customer) \<and>
    (de_basis d = EvalBasis NotConfirmed \<longrightarrow> \<not> de_wasConfirmed d) \<and>
    (de_basis d = EvalBasis Timely \<longrightarrow> de_timely d = Some True) \<and>
    (de_basis d = EvalBasis BasisCapAbsent \<longrightarrow> de_legalCapState d = CapAbsent) \<and>
    (de_basis d = EvalBasis BasisCapRetired \<longrightarrow> de_legalCapState d = CapRetired) \<and>
    (de_kind d \<in> {KindCancellation, KindNoShow} \<longrightarrow> de_retained d + de_refund d = de_collectedRemaining d) \<and>
    (de_kind d = KindCancellation \<longrightarrow> de_requestKey d = Some (bookingCancellationRefundKey (show_nat (de_booking d)))) \<and>
    (de_kind d = KindNoShow \<longrightarrow> de_requestKey d = Some (bookingNoShowRefundKey (show_nat (de_booking d))) \<and>
       de_timely d = None \<and> de_cutoffInstant d = None) \<and>
    (de_kind d = KindRescheduleConsequence \<longrightarrow> de_cause d = Customer \<and> de_retained d = 0 \<and> de_refund d = 0 \<and>
       de_execution d = Executed \<and> de_requestKey d = None) \<and>
    (0 < de_refund d \<or> de_execution d = Executed)"

text \<open>\<open>tg_bod_integrity\<close>: the order is the booking's own, and the terms are the order's.\<close>

definition decision_integrity :: "outcome_decision \<Rightarrow> order_db \<Rightarrow> bool" where
  "decision_integrity d s \<longleftrightarrow>
    (case order_at s (de_order d) of None \<Rightarrow> False | Some od \<Rightarrow> od_sourceType od = SourceBooking \<and> od_source od = de_booking d) \<and>
    (case find (\<lambda>t. tr_order t = de_order d) (om_terms s) of
       None \<Rightarrow> de_policyKey d = None
     | Some r \<Rightarrow> de_policyKey d = Some (oa_policyKey (tr_identity r)) \<and> de_policyVersion d = Some (oa_policyVersion (tr_identity r)))"

definition live_decision :: "nat \<Rightarrow> decision_kind \<Rightarrow> outcome_decision \<Rightarrow> bool" where
  "live_decision bookingId kind d \<longleftrightarrow> de_booking d = bookingId \<and> de_kind d = kind \<and> de_supersededBy d = None"

definition liveDecision :: "nat \<Rightarrow> decision_kind \<Rightarrow> order_db \<Rightarrow> outcome_decision option" where
  "liveDecision bookingId kind s = find (live_decision bookingId kind) (om_decisions s)"

text \<open>The insert fills in the identifier and \<open>decided_at\<close>, the instant of the transaction.\<close>

definition write_decision :: "int \<Rightarrow> outcome_decision \<Rightarrow> order_db \<Rightarrow> outcome_decision \<times> order_db" where
  "write_decision now d s = (let row = d\<lparr>de_id := om_next s, de_supersededBy := None, de_decidedAt := now\<rparr>
     in (row, s\<lparr>om_decisions := om_decisions s @ [row], om_next := Suc (om_next s)\<rparr>))"

text \<open>\<open>ON CONFLICT \<dots> DO NOTHING\<close>: the trigger and the CHECKs run first, then the conflict is looked for.\<close>

definition recordDecision :: "int \<Rightarrow> outcome_decision \<Rightarrow> order_db \<Rightarrow> outcome_decision order_result" where
  "recordDecision now d s =
    (if \<not> decision_integrity d s \<or> \<not> decision_row_ok now d then Inl OrderCheckViolation
     else case liveDecision (de_booking d) (de_kind d) s of
       Some live \<Rightarrow> Inr (live, s)
     | None \<Rightarrow> Inr (write_decision now d s))"

text \<open>\<open>tg_bod_supersession_shape\<close>, checked at commit: only a reschedule consequence is superseded, and not by a
  decision of an earlier instant.\<close>

definition supersession_refused :: "int \<Rightarrow> outcome_decision \<Rightarrow> outcome_decision \<Rightarrow> bool" where
  "supersession_refused now d x \<longleftrightarrow> live_decision (de_booking d) (de_kind d) x \<and>
     (de_kind d \<noteq> KindRescheduleConsequence \<or> now < de_decidedAt x)"

definition recordSupersedingDecision :: "int \<Rightarrow> outcome_decision \<Rightarrow> order_db \<Rightarrow> outcome_decision order_result" where
  "recordSupersedingDecision now d s =
    (let s1 = s\<lparr>om_decisions := tupd (live_decision (de_booking d) (de_kind d)) (\<lambda>x. x\<lparr>de_supersededBy := Some (om_next s)\<rparr>) (om_decisions s)\<rparr>
     in if \<not> decision_integrity d s1 \<or> \<not> decision_row_ok now d \<or> list_ex (supersession_refused now d) (om_decisions s)
        then Inl OrderCheckViolation
        else Inr (write_decision now d s1))"

definition recordExecution :: "nat \<Rightarrow> execution_status \<Rightarrow> order_db \<Rightarrow> bool \<times> order_db" where
  "recordExecution decisionId status s =
    (let P = (\<lambda>d. de_id d = decisionId \<and> de_execution d = ExecPending)
     in (taffected P (om_decisions s) = 1, s\<lparr>om_decisions := tupd P (\<lambda>d. d\<lparr>de_execution := status\<rparr>) (om_decisions s)\<rparr>))"

section \<open>Remedy choices\<close>

definition offerDefault :: "nat \<Rightarrow> nat \<Rightarrow> order_db \<Rightarrow> order_db" where
  "offerDefault orderId bookingId s =
    (if orderId \<in> rm_order ` set (om_remedies s) then s
     else s\<lparr>om_remedies := om_remedies s @ [\<lparr>rm_order = orderId, rm_booking = bookingId, rm_chosen = None, rm_resolvedBy = ResolvedByDefault\<rparr>]\<rparr>)"

definition resolution :: "nat \<Rightarrow> order_db \<Rightarrow> remedy_row option" where
  "resolution orderId s = find (\<lambda>r. rm_order r = orderId) (om_remedies s)"

definition resolveReschedule :: "nat \<Rightarrow> order_db \<Rightarrow> bool \<times> order_db" where
  "resolveReschedule orderId s =
    (let P = (\<lambda>r. rm_order r = orderId \<and> rm_resolvedBy r = ResolvedByDefault)
     in (taffected P (om_remedies s) = 1,
         s\<lparr>om_remedies := tupd P (\<lambda>r. r\<lparr>rm_resolvedBy := ResolvedByCustomer, rm_chosen := Some ChoseReschedule\<rparr>) (om_remedies s)\<rparr>))"

end
