(* ===== verification/Outcome_Orchestrator.thy ===== *)
theory Outcome_Orchestrator
  imports Outcome_Decision
begin

text \<open>
  What decides and executes booking outcomes: \<open>apps/api/src/outcome/booking-outcome.orchestrator.ts\<close>,
  \<open>customer-remedy-resolution.service.ts\<close>, and the event handlers that drive them and the refund projection
  (\<open>apps/api/src/events/financial-projection.handlers.ts\<close>). Each transaction is one step on the \<open>platform\<close>;
  \<open>executeDecision\<close> is the refund call and the compare-and-swap after it, which commit on their own. \<open>now\<close> is the
  database clock of the transaction. Audit lines, metrics and the Persian texts are left out.
\<close>

datatype outcome_error =
    OutcomeOrder order_error
  | OutcomePayment payment_error
  | OutcomeBooking booking_error
  | OutcomeThrew string
  | NoCauseForActor string
  | RemedyNotOffered
  | RemedyRefundAlreadyExecuted
  | RemedyRescheduleRequiresSlot
  | ForeignGovernance

definition NEVER_COLLECTED_STATUSES :: "order_status list" where
  "NEVER_COLLECTED_STATUSES = [OrdPending, OrdCollectionNotRequired]"

definition actor_type_name :: "booking_actor_type \<Rightarrow> string" where
  "actor_type_name a = (case a of ActCustomer \<Rightarrow> ''customer'' | ActProfessional \<Rightarrow> ''professional''
     | ActSystem \<Rightarrow> ''system'' | ActAdmin \<Rightarrow> ''admin'')"

definition executionStatusOf :: "refund_status \<Rightarrow> execution_status" where
  "executionStatusOf status = (case status of RefSucceeded \<Rightarrow> Executed | RefManual \<Rightarrow> ManualRequired
     | RefFailed \<Rightarrow> ExecFailed | RefPending \<Rightarrow> ExecPending)"

definition outcome_cause_of :: "cancellation_facts \<Rightarrow> outcome_error + outcome_cause" where
  "outcome_cause_of facts = lift_error NoCauseForActor (bookingOutcomeCauseForActor (actor_type_name (cf_cancelledBy facts)))"

text \<open>What is left of the collected money: commerce's own projection and payment's commitments, whichever is more.\<close>

definition collected_left :: "locked_order \<Rightarrow> int \<Rightarrow> int" where
  "collected_left lo asked =
    (let committed = (if lo_refunded lo > asked then lo_refunded lo else asked)
     in if lo_collected lo > committed then lo_collected lo - committed else 0)"

section \<open>Cancellations\<close>

definition evaluate_for :: "outcome_cause \<Rightarrow> bool \<Rightarrow> bool option \<Rightarrow> int \<Rightarrow> decision_terms option \<Rightarrow> outcome_error + evaluation" where
  "evaluate_for cause wasConfirmed timely collected terms = lift_error OutcomeThrew (evaluateBookingOutcome
    \<lparr>ei_cause = cause, ei_bookingWasConfirmed = wasConfirmed, ei_timely = (if terms = None then None else timely),
     ei_collectedRemaining = collected, ei_terms = map_option evaluation_terms_of terms,
     ei_legalCapState = (case terms of None \<Rightarrow> CapAbsent | Some t \<Rightarrow> dm_legalCapState t)\<rparr>)"

text \<open>\<open>cancellationRow\<close>; the id and the supersession are the write's.\<close>

definition cancellationRow :: "nat \<Rightarrow> locked_order \<Rightarrow> decision_terms option \<Rightarrow> cancellation_facts \<Rightarrow> outcome_cause \<Rightarrow> string \<Rightarrow> int \<Rightarrow>
    evaluation \<Rightarrow> int \<Rightarrow> int \<Rightarrow> decision_basis \<Rightarrow> execution_status \<Rightarrow> outcome_decision" where
  "cancellationRow bookingId lo terms facts cause requestKey collected ev retained refunded basis execution =
    \<lparr>de_id = 0, de_booking = bookingId, de_order = lo_order lo, de_kind = KindCancellation, de_cause = cause,
     de_eventInstant = cf_eventInstant facts, de_wasConfirmed = cf_wasConfirmed facts,
     de_policyKey = map_option dm_policyKey terms, de_policyVersion = map_option dm_policyVersion terms,
     de_cutoffInstant = (if terms = None then None else cf_cutoffInstant facts),
     de_timely = (if terms = None then None else cf_timely facts),
     de_collectedRemaining = collected, de_policyAmount = ev_policyAmount ev, de_legalCap = ev_legalCap ev,
     de_legalCapState = ev_legalCapState ev, de_retained = retained, de_refund = refunded, de_basis = basis,
     de_execution = execution, de_requestKey = Some requestKey, de_supersededBy = None, de_decidedAt = 0\<rparr>"

definition evaluateCancellation :: "nat \<Rightarrow> locked_order \<Rightarrow> decision_terms option \<Rightarrow> cancellation_facts \<Rightarrow> string \<Rightarrow> int \<Rightarrow>
    outcome_error + outcome_decision" where
  "evaluateCancellation bookingId lo terms facts requestKey otherCommitted =
    (let collected = collected_left lo otherCommitted in
     bind_res (outcome_cause_of facts) (\<lambda>cause.
     bind_res (evaluate_for cause (cf_wasConfirmed facts) (cf_timely facts) collected terms) (\<lambda>ev.
     Inr (cancellationRow bookingId lo terms facts cause requestKey collected ev (ev_retained ev) (ev_refund ev)
       (EvalBasis (ev_basis ev)) (if 0 < ev_refund ev then ExecPending else Executed)))))"

definition adoptExistingRefund :: "nat \<Rightarrow> locked_order \<Rightarrow> decision_terms option \<Rightarrow> cancellation_facts \<Rightarrow> string \<Rightarrow> int \<times> refund_status \<Rightarrow>
    outcome_error + outcome_decision" where
  "adoptExistingRefund bookingId lo terms facts requestKey keyRefund =
    bind_res (outcome_cause_of facts) (\<lambda>cause.
    bind_res (evaluate_for cause (cf_wasConfirmed facts) (cf_timely facts) (fst keyRefund) terms) (\<lambda>ev.
    Inr (cancellationRow bookingId lo terms facts cause requestKey (fst keyRefund) ev 0 (fst keyRefund) PreExistingRefund
      (if 0 < fst keyRefund then executionStatusOf (snd keyRefund) else Executed))))"

definition cancellation_decision :: "legal_evidence list \<Rightarrow> nat \<Rightarrow> locked_order \<Rightarrow> cancellation_facts \<Rightarrow> platform \<Rightarrow>
    outcome_error + outcome_decision" where
  "cancellation_decision evidence bookingId lo facts w =
    (let terms = termsFor evidence (lo_order lo) (w_orders w);
         requestKey = bookingCancellationRefundKey (show_nat bookingId);
         (keyRefund, other) = orderRefundCommitments (lo_order lo) requestKey (w_payments w)
     in case keyRefund of
          Some k \<Rightarrow> adoptExistingRefund bookingId lo terms facts requestKey k
        | None \<Rightarrow> evaluateCancellation bookingId lo terms facts requestKey other)"

text \<open>The writes after the evaluation: the decision, the order nobody paid, the remedy a seller owes.\<close>

definition close_uncollected :: "int \<Rightarrow> nat \<Rightarrow> locked_order \<Rightarrow> order_db \<Rightarrow> order_db" where
  "close_uncollected now bookingId lo s =
    (if lo_status lo \<in> set NEVER_COLLECTED_STATUSES
     then snd (cancel_order now (lo_order lo) (''booking_cancelled:'' @ show_nat bookingId) s) else s)"

definition offer_remedy :: "nat \<Rightarrow> locked_order \<Rightarrow> outcome_cause \<Rightarrow> order_db \<Rightarrow> order_db" where
  "offer_remedy bookingId lo cause s =
    (if cause \<in> {Seller, Platform, Provider} then offerDefault (lo_order lo) bookingId s else s)"

definition settle_cancellation :: "int \<Rightarrow> nat \<Rightarrow> locked_order \<Rightarrow> outcome_decision \<Rightarrow> order_db \<Rightarrow> order_error + outcome_decision \<times> order_db" where
  "settle_cancellation now bookingId lo decision s =
    bind_res (recordDecision now decision s) (\<lambda>(recorded, s1).
    Inr (recorded, offer_remedy bookingId lo (de_cause decision) (close_uncollected now bookingId lo s1)))"

definition decideCancellation :: "legal_evidence list \<Rightarrow> int \<Rightarrow> nat \<Rightarrow> platform \<Rightarrow> outcome_error + outcome_decision option \<times> platform" where
  "decideCancellation evidence now bookingId w =
    (case lockOrderForBooking bookingId (w_orders w) of
       None \<Rightarrow> Inr (None, w)
     | Some lo \<Rightarrow>
        (case liveDecision bookingId KindCancellation (w_orders w) of
           Some live \<Rightarrow> Inr (Some live, w)
         | None \<Rightarrow>
            (case cancellationFacts bookingId (map_option dm_cutoffHours (termsFor evidence (lo_order lo) (w_orders w))) (w_bookings w) of
               None \<Rightarrow> Inr (None, w)
             | Some facts \<Rightarrow>
                 bind_res (cancellation_decision evidence bookingId lo facts w) (\<lambda>decision.
                 bind_res (lift_error OutcomeOrder (settle_cancellation now bookingId lo decision (w_orders w))) (\<lambda>(recorded, os).
                 Inr (Some recorded, w\<lparr>w_orders := os\<rparr>))))))"

section \<open>Execution\<close>

definition decision_refund :: "outcome_decision \<Rightarrow> string \<Rightarrow> string \<Rightarrow> refund_input" where
  "decision_refund d key reason = \<lparr>ri_order = de_order d, ri_amount = Fin (fl (of_int (de_refund d))), ri_reason = reason, ri_key = key,
     ri_actor = ''system'', ri_kind = None, ri_attempt = None\<rparr>"

definition executeDecision :: "payment_provider list \<Rightarrow> int \<Rightarrow> outcome_decision \<Rightarrow> string \<Rightarrow> platform \<Rightarrow> (outcome_error + unit) \<times> platform" where
  "executeDecision ps now d reason w =
    (case de_requestKey d of
       None \<Rightarrow> (Inr (), w)
     | Some key \<Rightarrow>
        (if de_execution d \<noteq> ExecPending \<or> de_refund d \<le> 0 then (Inr (), w)
         else case refund ps now (decision_refund d key reason) (w_payments w) (w_payments w) of
                (Inl e, pm) \<Rightarrow> (Inl (OutcomePayment e), w\<lparr>w_payments := pm\<rparr>)
              | (Inr r, pm) \<Rightarrow>
                  (let status = executionStatusOf (rf_status r) in
                   if status = ExecPending then (Inr (), w\<lparr>w_payments := pm\<rparr>)
                   else (Inr (), w\<lparr>w_payments := pm, w_orders := snd (recordExecution (de_id d) status (w_orders w))\<rparr>))))"

definition executeCancellation :: "payment_provider list \<Rightarrow> int \<Rightarrow> outcome_decision \<Rightarrow> platform \<Rightarrow> (outcome_error + unit) \<times> platform" where
  "executeCancellation ps now d w =
    (if de_kind d = KindCancellation \<and> Option.bind (resolution (de_order d) (w_orders w)) rm_chosen = Some ChoseReschedule
     then (Inr (), w) else executeDecision ps now d ''booking cancelled'' w)"

text \<open>\<open>BookingCancelledRefundHandler\<close>.\<close>

definition handle_booking_cancelled :: "payment_provider list \<Rightarrow> legal_evidence list \<Rightarrow> clock \<Rightarrow> nat \<Rightarrow> platform \<Rightarrow> (outcome_error + unit) \<times> platform" where
  "handle_booking_cancelled ps evidence c bookingId w =
    (case decideCancellation evidence (ck_db c) bookingId w of
       Inl e \<Rightarrow> (Inl e, w)
     | Inr (None, w1) \<Rightarrow> (Inr (), w1)
     | Inr (Some d, w1) \<Rightarrow> executeCancellation ps (ck_js c) d w1)"

text \<open>\<open>BookingExpiredOrderHandler\<close>.\<close>

definition handle_booking_expired :: "int \<Rightarrow> nat \<Rightarrow> platform \<Rightarrow> outcome_error + platform" where
  "handle_booking_expired now bookingId w =
    bind_res (lift_error OutcomeOrder (findBySource SourceBooking bookingId (w_orders w))) (\<lambda>found. case found of
      None \<Rightarrow> Inr w
    | Some d \<Rightarrow> Inr (w\<lparr>w_orders := snd (cancel_order now (od_id (dt_order d)) (''booking_expired:'' @ show_nat bookingId) (w_orders w))\<rparr>))"

text \<open>\<open>RefundCompletedCommerceHandler\<close>; the payload is the refund's.\<close>

definition handle_refund_completed :: "nat \<Rightarrow> nat \<Rightarrow> jsnum \<Rightarrow> refund_kind \<Rightarrow> order_db \<Rightarrow> order_error + order_db" where
  "handle_refund_completed refundId orderId amount kind s =
    (if kind = KindDuplicate then Inr s
     else case order_findById orderId s of
       None \<Rightarrow> Inr s
     | Some od \<Rightarrow> if od_collected od \<le> od_refunded od then Inr s
                  else bind_res (recordRefund orderId amount refundId s) (\<lambda>(_, s'). Inr s'))"

section \<open>Reschedules\<close>

record governed_context =
  gc_order :: nat
  gc_booking :: nat
  gc_terms :: decision_terms
  gc_collectedRemaining :: int

definition governReschedule :: "legal_evidence list \<Rightarrow> nat \<Rightarrow> platform \<Rightarrow> governed_context option" where
  "governReschedule evidence bookingId w =
    (if \<not> bookingHasOutcomeTerms bookingId (w_orders w) then None
     else case lockOrderForBooking bookingId (w_orders w) of
       None \<Rightarrow> None
     | Some lo \<Rightarrow>
        (case termsFor evidence (lo_order lo) (w_orders w) of
           None \<Rightarrow> None
         | Some terms \<Rightarrow>
            (let (keyRefund, other) = orderRefundCommitments (lo_order lo) (bookingCancellationRefundKey (show_nat bookingId)) (w_payments w);
                 keyCommitted = (case keyRefund of Some (n, st) \<Rightarrow> if st \<noteq> RefFailed then n else 0 | None \<Rightarrow> 0)
             in Some \<lparr>gc_order = lo_order lo, gc_booking = bookingId, gc_terms = terms,
                  gc_collectedRemaining = collected_left lo (other + keyCommitted)\<rparr>)))"

text \<open>What the booking service is given of it.\<close>

definition reschedule_port :: "legal_evidence list \<Rightarrow> platform \<Rightarrow> nat \<Rightarrow> reschedule_governance" where
  "reschedule_port evidence w bookingId = (case governReschedule evidence bookingId w of
     None \<Rightarrow> UngovernedReschedule
   | Some g \<Rightarrow> GovernedReschedule (dm_cutoffHours (gc_terms g)) (nat (dm_rescheduleFreeCount (gc_terms g))))"

definition evaluateReschedule :: "governed_context \<Rightarrow> reschedule_facts \<Rightarrow> outcome_error + evaluation" where
  "evaluateReschedule g facts =
    evaluate_for Customer (rf_wasConfirmed facts) (Some (rf_timely facts)) (gc_collectedRemaining g) (Some (gc_terms g))"

definition contextOf :: "governed_context option \<Rightarrow> reschedule_facts \<Rightarrow> outcome_error + governed_context" where
  "contextOf governance facts = (case governance of
     None \<Rightarrow> Inl ForeignGovernance
   | Some g \<Rightarrow> if gc_booking g \<noteq> rf_booking facts then Inl ForeignGovernance else Inr g)"

definition consequenceRetainedToman :: "governed_context option \<Rightarrow> reschedule_facts \<Rightarrow> outcome_error + int" where
  "consequenceRetainedToman governance facts =
    bind_res (contextOf governance facts) (\<lambda>g. bind_res (evaluateReschedule g facts) (\<lambda>ev. Inr (ev_retained ev)))"

definition consequenceRow :: "governed_context \<Rightarrow> reschedule_facts \<Rightarrow> evaluation \<Rightarrow> outcome_decision" where
  "consequenceRow g facts ev =
    \<lparr>de_id = 0, de_booking = rf_booking facts, de_order = gc_order g, de_kind = KindRescheduleConsequence, de_cause = Customer,
     de_eventInstant = rf_eventInstant facts, de_wasConfirmed = rf_wasConfirmed facts,
     de_policyKey = Some (dm_policyKey (gc_terms g)), de_policyVersion = Some (dm_policyVersion (gc_terms g)),
     de_cutoffInstant = Some (rf_cutoffInstant facts), de_timely = Some (rf_timely facts),
     de_collectedRemaining = gc_collectedRemaining g, de_policyAmount = ev_policyAmount ev, de_legalCap = ev_legalCap ev,
     de_legalCapState = ev_legalCapState ev, de_retained = 0, de_refund = 0, de_basis = EvalBasis (ev_basis ev),
     de_execution = Executed, de_requestKey = None, de_supersededBy = None, de_decidedAt = 0\<rparr>"

definition recordConsequence :: "int \<Rightarrow> governed_context option \<Rightarrow> reschedule_facts \<Rightarrow> order_db \<Rightarrow> outcome_error + order_db" where
  "recordConsequence now governance facts s =
    bind_res (contextOf governance facts) (\<lambda>g.
    bind_res (evaluateReschedule g facts) (\<lambda>ev.
    if 0 < ev_retained ev then Inl (OutcomeThrew ''a reschedule consequence carrying money is not ratified'')
    else bind_res (lift_error OutcomeOrder (recordSupersedingDecision now (consequenceRow g facts ev) s)) (\<lambda>(_, s'). Inr s')))"

section \<open>No-shows\<close>

definition governNoShow :: "legal_evidence list \<Rightarrow> nat \<Rightarrow> order_db \<Rightarrow> no_show_governance" where
  "governNoShow evidence bookingId s =
    (case orderIdForBooking bookingId s of
       None \<Rightarrow> UngovernedNoShow
     | Some i \<Rightarrow> (case termsFor evidence i s of
         None \<Rightarrow> UngovernedNoShow
       | Some t \<Rightarrow> GovernedNoShow (dm_graceMinutes t) (dm_disputeWindowHours t)))"

definition noShowRow :: "nat \<Rightarrow> locked_order \<Rightarrow> decision_terms option \<Rightarrow> no_show_declaration \<Rightarrow> int \<Rightarrow> evaluation \<Rightarrow> outcome_decision" where
  "noShowRow bookingId lo terms declaration collected ev =
    \<lparr>de_id = 0, de_booking = bookingId, de_order = lo_order lo, de_kind = KindNoShow, de_cause = NoShow,
     de_eventInstant = nd_declaredAt declaration, de_wasConfirmed = True,
     de_policyKey = map_option dm_policyKey terms, de_policyVersion = map_option dm_policyVersion terms,
     de_cutoffInstant = None, de_timely = None,
     de_collectedRemaining = collected, de_policyAmount = ev_policyAmount ev, de_legalCap = ev_legalCap ev,
     de_legalCapState = ev_legalCapState ev, de_retained = ev_retained ev, de_refund = ev_refund ev,
     de_basis = EvalBasis (ev_basis ev), de_execution = (if 0 < ev_refund ev then ExecPending else Executed),
     de_requestKey = Some (bookingNoShowRefundKey (show_nat bookingId)), de_supersededBy = None, de_decidedAt = 0\<rparr>"

definition markNoShowEvaluated :: "nat \<Rightarrow> booking_db \<Rightarrow> booking_db" where
  "markNoShowEvaluated bookingId s =
    s\<lparr>db_declarations := tupd (\<lambda>d. nd_booking d = bookingId \<and> nd_evaluationState d = WindowOpen) (\<lambda>d. d\<lparr>nd_evaluationState := Evaluated\<rparr>) (db_declarations s)\<rparr>"

definition window_due :: "int \<Rightarrow> no_show_declaration \<Rightarrow> bool" where
  "window_due now d \<longleftrightarrow> nd_evaluationState d = WindowOpen \<and> (case nd_objectionWindowEndsAt d of None \<Rightarrow> False | Some t \<Rightarrow> t \<le> now)"

definition decideNoShowWindowOnly :: "legal_evidence list \<Rightarrow> int \<Rightarrow> nat \<Rightarrow> platform \<Rightarrow> outcome_error + outcome_decision option \<times> platform" where
  "decideNoShowWindowOnly evidence now bookingId w =
    (case find (\<lambda>d. nd_booking d = bookingId) (db_declarations (w_bookings w)) of
       None \<Rightarrow> Inr (None, w)
     | Some declaration \<Rightarrow>
        (if nd_evaluationState declaration = Evaluated then Inr (liveDecision bookingId KindNoShow (w_orders w), w)
         else if \<not> window_due now declaration then Inr (None, w)
         else case lockOrderForBooking bookingId (w_orders w) of
           None \<Rightarrow> Inr (None, w)
         | Some lo \<Rightarrow>
            (let terms = termsFor evidence (lo_order lo) (w_orders w);
                 (_, other) = orderRefundCommitments (lo_order lo) (bookingNoShowRefundKey (show_nat bookingId)) (w_payments w);
                 collected = collected_left lo other
             in bind_res (evaluate_for NoShow True None collected terms) (\<lambda>ev.
                bind_res (lift_error OutcomeOrder (recordDecision now (noShowRow bookingId lo terms declaration collected ev) (w_orders w))) (\<lambda>(recorded, os).
                Inr (Some recorded, w\<lparr>w_orders := os, w_bookings := markNoShowEvaluated bookingId (w_bookings w)\<rparr>))))))"

definition decideNoShowWindow :: "payment_provider list \<Rightarrow> legal_evidence list \<Rightarrow> clock \<Rightarrow> nat \<Rightarrow> platform \<Rightarrow>
    (outcome_error + outcome_decision option) \<times> platform" where
  "decideNoShowWindow ps evidence c bookingId w =
    (case decideNoShowWindowOnly evidence (ck_db c) bookingId w of
       Inl e \<Rightarrow> (Inl e, w)
     | Inr (None, w1) \<Rightarrow> (Inr None, w1)
     | Inr (Some d, w1) \<Rightarrow>
         (case executeDecision ps (ck_js c) d ''no-show evaluated'' w1 of
            (Inl e, w2) \<Rightarrow> (Inl e, w2) | (Inr _, w2) \<Rightarrow> (Inr (Some d), w2)))"

text \<open>\<open>expireNoShowWindows\<close>: an error ends the sweep, what was decided before it stays.\<close>

fun sweep_windows :: "payment_provider list \<Rightarrow> legal_evidence list \<Rightarrow> clock \<Rightarrow> nat list \<Rightarrow> nat \<Rightarrow> platform \<Rightarrow> (outcome_error + nat) \<times> platform" where
  "sweep_windows ps evidence c [] decided w = (Inr decided, w)"
| "sweep_windows ps evidence c (b # bs) decided w =
    (case decideNoShowWindow ps evidence c b w of
       (Inl e, w1) \<Rightarrow> (Inl e, w1)
     | (Inr outcome, w1) \<Rightarrow> sweep_windows ps evidence c bs (if outcome \<noteq> None then Suc decided else decided) w1)"

definition expireNoShowWindows :: "payment_provider list \<Rightarrow> legal_evidence list \<Rightarrow> clock \<Rightarrow> nat \<Rightarrow> platform \<Rightarrow> (outcome_error + nat) \<times> platform" where
  "expireNoShowWindows ps evidence c limit w =
    sweep_windows ps evidence c (map nd_booking (take limit (sort_key (\<lambda>d. case nd_objectionWindowEndsAt d of None \<Rightarrow> 0 | Some t \<Rightarrow> t)
      (filter (window_due (ck_db c)) (db_declarations (w_bookings w)))))) 0 w"

section \<open>The customer's remedy\<close>

definition ESCAPABLE_EXECUTION_STATUSES :: "execution_status list" where
  "ESCAPABLE_EXECUTION_STATUSES = [ExecPending, ManualRequired]"

type_synonym remedy_answer = "remedy_choice option \<times> remedy_resolver"

definition resolveRemedy :: "booking_ports \<Rightarrow> booking_config \<Rightarrow> clock \<Rightarrow> nat \<Rightarrow> nat \<Rightarrow> remedy_choice \<Rightarrow> nat option \<Rightarrow> platform \<Rightarrow>
    outcome_error + remedy_answer \<times> platform" where
  "resolveRemedy ports cfg c bookingId customerId choice newSlot w =
    (case orderIdForBooking bookingId (w_orders w) of
       None \<Rightarrow> Inl RemedyNotOffered
     | Some orderId \<Rightarrow>
        (case resolution orderId (w_orders w) of
           None \<Rightarrow> Inl RemedyNotOffered
         | Some current \<Rightarrow>
            (if rm_resolvedBy current = ResolvedByCustomer \<or> choice \<noteq> ChoseReschedule
             then Inr ((rm_chosen current, rm_resolvedBy current), w)
             else case newSlot of
               None \<Rightarrow> Inl RemedyRescheduleRequiresSlot
             | Some slot \<Rightarrow>
                (if (case liveDecision bookingId KindCancellation (w_orders w) of
                       None \<Rightarrow> True | Some d \<Rightarrow> de_execution d \<notin> set ESCAPABLE_EXECUTION_STATUSES)
                 then Inl RemedyRefundAlreadyExecuted
                 else bind_res (lift_error OutcomeBooking (reschedule ports cfg (db_bookings (w_bookings w)) c bookingId slot
                        \<lparr>ac_type = ActCustomer, ac_id = Some customerId\<rparr> None \<lparr>ro_acceptConsequence = False, ro_remedyBypass = True\<rparr> (w_bookings w))) (\<lambda>(_, bs).
                      case resolveReschedule orderId (w_orders w) of (applied, os) \<Rightarrow>
                        (let w1 = w\<lparr>w_bookings := bs, w_orders := os\<rparr> in
                         if applied then Inr ((Some ChoseReschedule, ResolvedByCustomer), w1)
                         else Inr (case resolution orderId os of Some r \<Rightarrow> (rm_chosen r, rm_resolvedBy r)
                                     | None \<Rightarrow> (None, ResolvedByDefault), w1)))))))"

record remedy_view =
  rv_chosen :: "remedy_choice option"
  rv_resolvedBy :: remedy_resolver
  rv_rescheduleStillAvailable :: bool
  rv_refund :: "int option"
  rv_execution :: "execution_status option"

definition readRemedy :: "nat \<Rightarrow> order_db \<Rightarrow> outcome_error + remedy_view" where
  "readRemedy bookingId s =
    (case orderIdForBooking bookingId s of
       None \<Rightarrow> Inl RemedyNotOffered
     | Some orderId \<Rightarrow>
        (case resolution orderId s of
           None \<Rightarrow> Inl RemedyNotOffered
         | Some current \<Rightarrow>
            (let decision = liveDecision bookingId KindCancellation s in
             Inr \<lparr>rv_chosen = rm_chosen current, rv_resolvedBy = rm_resolvedBy current,
               rv_rescheduleStillAvailable = (rm_resolvedBy current = ResolvedByDefault \<and>
                 (case decision of None \<Rightarrow> False | Some d \<Rightarrow> de_execution d \<in> set ESCAPABLE_EXECUTION_STATUSES)),
               rv_refund = map_option de_refund decision, rv_execution = map_option de_execution decision\<rparr>)))"

end
