(* ===== verification/Checkout_Steps.thy ===== *)
theory Checkout_Steps
  imports Checkout_Model Booking_Steps Order_Steps Payment_Invariant Enforcement_Invariant
begin

text \<open>
  What the transactions of the checkout do to the four schemas, and the invariant that ties them together: no
  booking is confirmed whose order is not settled, and no order has collected what a gateway did not confirm.
  A history lists the states from the newest back, so that a verification prepared on an earlier state and an
  order opened earlier can be used later.
\<close>

section \<open>The hook and the confirmation\<close>

lemma hook_effect:
  assumes "entitlement_hook c b w = Inr (e, w')"
  shows "\<exists>cm. onBookingConfirmation c b (w_orders w) (w_commercial w) = Inr (e, cm) \<and> w' = w\<lparr>w_commercial := cm\<rparr> \<and>
    commercial_step (w_commercial w) cm"
  using assms by (auto simp: entitlement_hook_def bind_res_Inr intro: cm_confirm)

lemma confirm_effect:
  assumes "confirm_booking c b w = Inr (m, w')"
  shows "\<exists>bs. confirm (db_bookings (w_bookings w)) c b SYSTEM_ACTOR (w_bookings w) = Inr (m, bs) \<and> w' = w\<lparr>w_bookings := bs\<rparr>"
  using assms by (auto simp: confirm_booking_def bind_res_Inr)

lemma confirm_False: "confirm rd c b a s = Inr (False, s') \<Longrightarrow> s' = s"
  by (auto simp: confirm_def bind_res_Inr dest: transition_False split: if_splits option.splits)

lemma confirm_True:
  assumes "confirm (db_bookings s) c i a s = Inr (True, s')" "booking_inv s"
  shows "\<exists>b b'. booking_at s i = Some b \<and> bk_status b = Pending \<and> booking_at s' = (booking_at s)(i \<mapsto> b') \<and> bk_status b' = Confirmed"
proof -
  from assms(1) obtain s1 where t: "transition (db_bookings s) c i Confirmed [Pending] a None
      (\<lambda>b. b\<lparr>bk_confirmedAt := Some (ck_js c), bk_holdExpiresAt := None\<rparr>) False s = Inr (True, s1)"
    and e: "db_bookings s' = db_bookings s1"
    by (auto simp: confirm_def bind_res_Inr split: if_splits option.splits)
  obtain b where "booking_at s i = Some b" "bk_status b \<in> set [Pending]"
    "booking_at s1 = (booking_at s)(i \<mapsto> b\<lparr>bk_status := Confirmed, bk_confirmedAt := Some (ck_js c), bk_holdExpiresAt := None\<rparr>)"
    using transition_True [OF t TrueI inv_keyed(1) [OF assms(2)]] by auto
  then show ?thesis using e
    by (intro exI [of _ b] exI [of _ "b\<lparr>bk_status := Confirmed, bk_confirmedAt := Some (ck_js c), bk_holdExpiresAt := None\<rparr>"])
       (simp add: booking_at_def)
qed

section \<open>The transactions\<close>

lemma open_effect:
  assumes "open_booking env c inp w = Inr ((b, d), w')"
  shows "\<exists>bk bs os. create (ce_bookings env) (ce_config env) c (xi_booking inp) (w_bookings w) (w_bookings w) = Inr (bk, bs) \<and> b = bk_id bk \<and>
    createForBooking (ce_known env) (ce_orders env) (ck_js c) (ck_db c) \<lparr>bo_booking = bk_id bk, bo_customer = bk_customer bk,
      bo_professional = bk_professional bk, bo_service = bk_service bk, bo_accepted = xi_accepted inp\<rparr> (w_orders w) (w_orders w) = Inr (d, os) \<and>
    w' = w\<lparr>w_bookings := bs, w_orders := os\<rparr>"
  using assms by (auto simp: open_booking_def bind_res_Inr)

lemma zero_transaction_effect:
  assumes "zero_transaction c b i w = Inr (replayed, w')"
  shows "replayed \<and> w' = w \<and> confirmNoOnlineCollection i (w_orders w) = Inr (ZeroAlready, w_orders w) \<or>
    \<not> replayed \<and> (\<exists>os cm bs d. confirmNoOnlineCollection i (w_orders w) = Inr (ZeroTransitioned, os) \<and>
      onBookingConfirmation c b os (w_commercial w) = Inr (Permitted d, cm) \<and>
      confirm (db_bookings (w_bookings w)) c b SYSTEM_ACTOR (w_bookings w) = Inr (True, bs) \<and>
      w' = w\<lparr>w_orders := os, w_commercial := cm, w_bookings := bs\<rparr>)"
proof -
  from assms obtain t os where t: "confirmNoOnlineCollection i (w_orders w) = Inr (t, os)"
    by (auto simp: zero_transaction_def bind_res_Inr)
  show ?thesis
  proof (cases t)
    case ZeroAlready
    with t have "os = w_orders w" by (auto simp: confirmNoOnlineCollection_def split: if_splits option.splits)
    with assms t ZeroAlready show ?thesis by (simp add: zero_transaction_def)
  next
    case ZeroTransitioned
    with assms t obtain e w1 where e: "entitlement_hook c b (w\<lparr>w_orders := os\<rparr>) = Inr (e, w1)" "permitted e"
      and k: "confirm_booking c b w1 = Inr (True, w')" "\<not> replayed"
      by (auto simp: zero_transaction_def bind_res_Inr split: if_splits)
    obtain d where d: "e = Permitted d" using e(2) by (cases e) (simp_all add: permitted_def)
    from hook_effect [OF e(1)] obtain cm where cm: "onBookingConfirmation c b os (w_commercial w) = Inr (e, cm)"
      "w1 = w\<lparr>w_orders := os, w_commercial := cm\<rparr>" by auto
    from confirm_effect [OF k(1)] cm(2) obtain bs where bs: "confirm (db_bookings (w_bookings w)) c b SYSTEM_ACTOR (w_bookings w) = Inr (True, bs)"
      "w' = w\<lparr>w_orders := os, w_commercial := cm, w_bookings := bs\<rparr>" by auto
    show ?thesis using k(2) t ZeroTransitioned cm(1) bs unfolding d by blast
  qed (use assms t in \<open>simp add: zero_transaction_def\<close>)
qed

text \<open>The four endings of the callback's transaction.\<close>

datatype callback_ending = NothingCharged | ChargedTwice | OnlyCaptured | NotEntitled | NotConfirmable | PaidAndConfirmed

fun callback_end :: "clock \<Rightarrow> verification_outcome \<Rightarrow> payment_db \<Rightarrow> platform \<Rightarrow> callback_settlement \<Rightarrow> platform \<Rightarrow> callback_ending \<Rightarrow> bool" where
  "callback_end c v pm w st w' NothingCharged \<longleftrightarrow> vo_status v \<noteq> VerSucceeded \<and> st = settled v \<and> w' = w\<lparr>w_payments := pm\<rparr>"
| "callback_end c v pm w st w' ChargedTwice \<longleftrightarrow> vo_status v = VerSucceeded \<and> cs_duplicate st \<and> \<not> cs_unavailable st \<and>
     cs_outcome st = v\<lparr>vo_status := VerReplayed\<rparr> \<and> w' = w\<lparr>w_payments := pm\<rparr> \<and>
     (\<exists>os s n. recordVerifiedCapture (ck_js c) (vo_order v) (fin_int (vo_amount v)) (w_orders w) = Inr (AlreadyCaptured s n, os))"
| "callback_end c v pm w st w' OnlyCaptured \<longleftrightarrow> vo_status v = VerSucceeded \<and> st = settled v \<and>
     (\<exists>os s n. recordVerifiedCapture (ck_js c) (vo_order v) (fin_int (vo_amount v)) (w_orders w) = Inr (Captured s n, os) \<and>
       (\<forall>od. order_findById (vo_order v) os = Some od \<longrightarrow> od_sourceType od \<noteq> SourceBooking) \<and> w' = w\<lparr>w_payments := pm, w_orders := os\<rparr>)"
| "callback_end c v pm w st w' NotEntitled \<longleftrightarrow> vo_status v = VerSucceeded \<and> st = (settled v)\<lparr>cs_unavailable := True\<rparr> \<and>
     (\<exists>os s n od e cm. recordVerifiedCapture (ck_js c) (vo_order v) (fin_int (vo_amount v)) (w_orders w) = Inr (Captured s n, os) \<and>
       order_findById (vo_order v) os = Some od \<and> od_sourceType od = SourceBooking \<and> \<not> permitted e \<and>
       onBookingConfirmation c (od_source od) os (w_commercial w) = Inr (e, cm) \<and> w' = w\<lparr>w_payments := pm, w_orders := os, w_commercial := cm\<rparr>)"
| "callback_end c v pm w st w' NotConfirmable \<longleftrightarrow> vo_status v = VerSucceeded \<and> cs_unavailable st \<and> \<not> cs_duplicate st \<and> cs_outcome st = v \<and>
     (\<exists>os s n od d cm bs. recordVerifiedCapture (ck_js c) (vo_order v) (fin_int (vo_amount v)) (w_orders w) = Inr (Captured s n, os) \<and>
       order_findById (vo_order v) os = Some od \<and> od_sourceType od = SourceBooking \<and>
       onBookingConfirmation c (od_source od) os (w_commercial w) = Inr (Permitted d, cm) \<and>
       confirm (db_bookings (w_bookings w)) c (od_source od) SYSTEM_ACTOR (w_bookings w) = Inr (False, bs) \<and>
       w' = w\<lparr>w_payments := pm, w_orders := os, w_commercial := cm, w_bookings := bs\<rparr>)"
| "callback_end c v pm w st w' PaidAndConfirmed \<longleftrightarrow> vo_status v = VerSucceeded \<and> st = settled v \<and>
     (\<exists>os s n od d cm bs. recordVerifiedCapture (ck_js c) (vo_order v) (fin_int (vo_amount v)) (w_orders w) = Inr (Captured s n, os) \<and>
       order_findById (vo_order v) os = Some od \<and> od_sourceType od = SourceBooking \<and>
       onBookingConfirmation c (od_source od) os (w_commercial w) = Inr (Permitted d, cm) \<and>
       confirm (db_bookings (w_bookings w)) c (od_source od) SYSTEM_ACTOR (w_bookings w) = Inr (True, bs) \<and>
       w' = w\<lparr>w_payments := pm, w_orders := os, w_commercial := cm, w_bookings := bs\<rparr>)"

lemma confirm_paid_effect:
  assumes "confirm_paid_booking c v b w = Inr (st, w')"
  shows "(\<exists>e cm. \<not> permitted e \<and> onBookingConfirmation c b (w_orders w) (w_commercial w) = Inr (e, cm) \<and>
      w' = w\<lparr>w_commercial := cm\<rparr> \<and> st = (settled v)\<lparr>cs_unavailable := True\<rparr>) \<or>
    (\<exists>d cm bs m. onBookingConfirmation c b (w_orders w) (w_commercial w) = Inr (Permitted d, cm) \<and>
      confirm (db_bookings (w_bookings w)) c b SYSTEM_ACTOR (w_bookings w) = Inr (m, bs) \<and>
      w' = w\<lparr>w_commercial := cm, w_bookings := bs\<rparr> \<and> cs_outcome st = v \<and> \<not> cs_duplicate st \<and> cs_unavailable st = (\<not> m) \<and>
      (m \<longrightarrow> st = settled v))"
proof -
  from assms obtain e w1 where e: "entitlement_hook c b w = Inr (e, w1)"
    and r: "(if \<not> permitted e then Inr ((settled v)\<lparr>cs_unavailable := True\<rparr>, w1)
      else bind_res (confirm_booking c b w1) (\<lambda>(confirmed, w2). if confirmed then Inr (settled v, w2)
        else Inr ((settled v)\<lparr>cs_unavailable := True,
                 cs_cancelled := (case findById b (w_bookings w2) of
                    Some b \<Rightarrow> if bk_status b = Cancelled then Some (bk_id b) else None | None \<Rightarrow> None)\<rparr>, w2))) = Inr (st, w')"
    unfolding confirm_paid_booking_def bind_res_Inr by (auto simp: bind_res_Inr)
  from hook_effect [OF e] obtain cm where cm: "onBookingConfirmation c b (w_orders w) (w_commercial w) = Inr (e, cm)" "w1 = w\<lparr>w_commercial := cm\<rparr>" by blast
  show ?thesis
  proof (cases "permitted e")
    case False
    with r cm show ?thesis by auto
  next
    case True
    then obtain d where d: "e = Permitted d" by (cases e) (simp_all add: permitted_def)
    from r True obtain m w2 where k: "confirm_booking c b w1 = Inr (m, w2)" and w': "w' = w2"
      and st: "st = (if m then settled v else (settled v)\<lparr>cs_unavailable := True,
                 cs_cancelled := (case findById b (w_bookings w2) of
                    Some b \<Rightarrow> if bk_status b = Cancelled then Some (bk_id b) else None | None \<Rightarrow> None)\<rparr>)"
      by (auto simp: bind_res_Inr split: if_splits)
    from confirm_effect [OF k] cm(2) obtain bs where bs: "confirm (db_bookings (w_bookings w)) c b SYSTEM_ACTOR (w_bookings w) = Inr (m, bs)"
      "w' = w\<lparr>w_commercial := cm, w_bookings := bs\<rparr>" unfolding w' by auto
    have "cs_outcome st = v \<and> \<not> cs_duplicate st \<and> cs_unavailable st = (\<not> m) \<and> (m \<longrightarrow> st = settled v)"
      unfolding st by (simp add: settled_def)
    with cm(1) bs show ?thesis unfolding d by blast
  qed
qed

lemma settle_effect:
  assumes "settle_callback c p w = Inr (st, w')"
  shows "\<exists>v pm e. applyVerification (ck_js c) p (w_payments w) = Inr (v, pm) \<and> callback_end c v pm w st w' e"
proof -
  from assms obtain v pm where v: "applyVerification (ck_js c) p (w_payments w) = Inr (v, pm)"
    by (auto simp: settle_callback_def bind_res_Inr)
  show ?thesis
  proof (cases "vo_status v = VerSucceeded")
    case False
    with assms v have "callback_end c v pm w st w' NothingCharged" by (simp add: settle_callback_def)
    with v show ?thesis by blast
  next
    case True
    with assms v obtain captured os where r: "recordVerifiedCapture (ck_js c) (vo_order v) (fin_int (vo_amount v)) (w_orders w) = Inr (captured, os)"
      by (auto simp: settle_callback_def Let_def bind_res_Inr)
    show ?thesis
    proof (cases captured)
      case (Captured s n)
      show ?thesis
      proof (cases "\<exists>od. order_findById (vo_order v) os = Some od \<and> od_sourceType od = SourceBooking")
        case no: False
        then have "callback_end c v pm w st w' OnlyCaptured"
          using assms v True r Captured by (auto simp: settle_callback_def Let_def split: option.splits if_splits)
        with v show ?thesis by blast
      next
        case yes: True
        then obtain od where od: "order_findById (vo_order v) os = Some od" "od_sourceType od = SourceBooking" by blast
        with assms v True r Captured have "confirm_paid_booking c v (od_source od) (w\<lparr>w_payments := pm, w_orders := os\<rparr>) = Inr (st, w')"
          by (simp add: settle_callback_def Let_def)
        from confirm_paid_effect [OF this] show ?thesis
        proof (elim disjE exE conjE)
          fix e cm
          assume "\<not> permitted e" "w' = w\<lparr>w_payments := pm, w_orders := os, w_commercial := cm\<rparr>" "st = (settled v)\<lparr>cs_unavailable := True\<rparr>"
            "onBookingConfirmation c (od_source od) (w_orders (w\<lparr>w_payments := pm, w_orders := os\<rparr>)) (w_commercial (w\<lparr>w_payments := pm, w_orders := os\<rparr>)) = Inr (e, cm)"
          then have "callback_end c v pm w st w' NotEntitled" using True r od Captured by auto
          with v show ?thesis by blast
        next
          fix d cm bs m
          assume a: "onBookingConfirmation c (od_source od) (w_orders (w\<lparr>w_payments := pm, w_orders := os\<rparr>)) (w_commercial (w\<lparr>w_payments := pm, w_orders := os\<rparr>)) = Inr (Permitted d, cm)"
            "confirm (db_bookings (w_bookings (w\<lparr>w_payments := pm, w_orders := os\<rparr>))) c (od_source od) SYSTEM_ACTOR (w_bookings (w\<lparr>w_payments := pm, w_orders := os\<rparr>)) = Inr (m, bs)"
            "w' = w\<lparr>w_payments := pm, w_orders := os, w_commercial := cm, w_bookings := bs\<rparr>" "cs_outcome st = v" "\<not> cs_duplicate st"
            "cs_unavailable st = (\<not> m)" "m \<longrightarrow> st = settled v"
          have "callback_end c v pm w st w' (if m then PaidAndConfirmed else NotConfirmable)" using a True r od Captured by (cases m) auto
          with v show ?thesis by blast
        qed
      qed
    next
      case (AlreadyCaptured s n)
      with assms v True r have "callback_end c v pm w st w' ChargedTwice"
        by (auto simp: settle_callback_def settled_def)
      with v show ?thesis by blast
    qed (use assms v True r in \<open>simp add: settle_callback_def\<close>)
  qed
qed

end
