(* ===== verification/Checkout_Invariant.thy ===== *)
theory Checkout_Invariant
  imports Checkout_Steps
begin

text \<open>
  The invariant of the whole platform and the histories that keep it. A history step is one transaction of the
  checkout, one payment phase, or any other operation of the booking, order or commercial services; a remedy
  reschedule, which revives a cancelled booking, is the business of the outcome theories.
\<close>

section \<open>The other operations on bookings\<close>

text \<open>The rows an operation read before its write may come from any earlier state, as in \<open>booking_step\<close>.\<close>

inductive side_step :: "booking_ports \<Rightarrow> booking_config \<Rightarrow> booking_db \<Rightarrow> booking_db \<Rightarrow> bool" for ports cfg where
  side_create: "create ports cfg c inp s s = Inr (b, s') \<Longrightarrow> side_step ports cfg s s'"
| side_cancel: "seen_before rd s \<Longrightarrow> cancel rd c i a reason s = Inr (r, s') \<Longrightarrow> side_step ports cfg s s'"
| side_complete: "seen_before rd s \<Longrightarrow> complete rd c i a s = Inr (r, s') \<Longrightarrow> side_step ports cfg s s'"
| side_no_show: "seen_before rd s \<Longrightarrow> markNoShow ports rd c i a st s = Inr (r, s') \<Longrightarrow> side_step ports cfg s s'"
| side_reschedule: "\<not> ro_remedyBypass opts \<Longrightarrow> seen_before rd s \<Longrightarrow> reschedule ports cfg rd c i j a reason opts s = Inr (b, s') \<Longrightarrow>
    side_step ports cfg s s'"
| side_expire: "seen_before [row] s \<Longrightarrow> seen_before rd s \<Longrightarrow> expireHold rd c row s = Inr (r, s') \<Longrightarrow> side_step ports cfg s s'"
| side_createSlot: "createSlot acfg dl seen now p sa ea svc s = Inr (sl, s') \<Longrightarrow> side_step ports cfg s s'"
| side_bulk: "bulkGenerate acfg dl off now p binp s = Inr (n, s') \<Longrightarrow> side_step ports cfg s s'"
| side_deleteSlot: "deleteSlot p j s = Inr s' \<Longrightarrow> side_step ports cfg s s'"

lemma side_booking_step: "side_step ports cfg s s' \<Longrightarrow> booking_step False ports cfg s s'"
  by (induction rule: side_step.induct) (blast intro: booking_step.intros)+

definition paid_status :: "booking_status \<Rightarrow> bool" where
  "paid_status st \<longleftrightarrow> st \<in> {Confirmed, Completed, NoShown}"

text \<open>Every booking with a paid status had one before.\<close>

definition no_new_paid :: "booking_db \<Rightarrow> booking_db \<Rightarrow> bool" where
  "no_new_paid s s' \<longleftrightarrow> (\<forall>i b'. booking_at s' i = Some b' \<and> paid_status (bk_status b') \<longrightarrow>
     (\<exists>b. booking_at s i = Some b \<and> paid_status (bk_status b)))"

lemma moved_no_new_paid:
  assumes "bookings_moved R s s'" "\<And>a b. R a b \<Longrightarrow> paid_status b \<Longrightarrow> paid_status a"
  shows "no_new_paid s s'"
  unfolding no_new_paid_def
proof (intro allI impI, elim conjE)
  fix j x
  assume x: "booking_at s' j = Some x" "paid_status (bk_status x)"
  from assms(1) consider "booking_at s' = booking_at s" | i b' where "booking_at s' = (booking_at s)(i \<mapsto> b')"
      "case booking_at s i of None \<Rightarrow> bk_status b' = Pending | Some b \<Rightarrow> row_le b b' \<and> R (bk_status b) (bk_status b')"
    unfolding bookings_moved_def by blast
  then show "\<exists>b. booking_at s j = Some b \<and> paid_status (bk_status b)"
  proof cases
    case 1
    with x show ?thesis by simp
  next
    case (2 i b')
    show ?thesis
    proof (cases "j = i")
      case True
      with 2 x have "x = b'" by simp
      with 2 x True assms(2) show ?thesis by (cases "booking_at s i") (auto simp: paid_status_def)
    next
      case False
      with 2 x show ?thesis by simp
    qed
  qed
qed

lemma taken_no_new_paid:
  assumes "bookings_moved (taken_to allowed to) s s'" "paid_status to \<longrightarrow> (\<forall>a \<in> set allowed. paid_status a)"
  shows "no_new_paid s s'"
  by (rule moved_no_new_paid [OF assms(1)]) (use assms(2) in \<open>auto simp: taken_to_def\<close>)

lemma side_no_new_paid:
  assumes "side_step ports cfg s s'" "booking_inv s"
  shows "no_new_paid s s'"
  using assms(1)
proof (cases rule: side_step.cases)
  case (side_create c inp b)
  show ?thesis by (rule moved_no_new_paid [OF create_moves [OF assms(2) side_create]]) simp
next
  case (side_cancel rd c i a reason r)
  show ?thesis by (rule taken_no_new_paid [OF cancel_moves [OF side_cancel(2) assms(2)]]) (simp add: paid_status_def)
next
  case (side_complete rd c i a r)
  show ?thesis by (rule taken_no_new_paid [OF complete_moves [OF side_complete(2) assms(2)]]) (simp_all add: paid_status_def)
next
  case (side_no_show rd c i a st r)
  show ?thesis by (rule taken_no_new_paid [OF no_show_moves [OF side_no_show(2) assms(2)]]) (simp_all add: paid_status_def)
next
  case (side_reschedule opts rd c i j a reason b)
  show ?thesis by (rule moved_no_new_paid [OF reschedule_moves [OF assms(2) side_reschedule(3,2)]]) (simp add: side_reschedule(1))
next
  case (side_expire row rd c r)
  show ?thesis by (rule taken_no_new_paid [OF expire_moves [OF side_expire(3) assms(2)]]) (simp add: paid_status_def)
qed (simp_all add: no_new_paid_def slots_move_no_booking)

section \<open>Settled orders and charged collections\<close>

definition settled_order :: "order_db \<Rightarrow> order \<Rightarrow> bool" where
  "settled_order s od \<longleftrightarrow> od_status od \<noteq> OrdPending \<and>
     (\<exists>sc. schedule_at s (od_id od) = Some sc \<and> od_collected od = sc_collectible sc)"

definition settled_for :: "nat \<Rightarrow> order_db \<Rightarrow> bool" where
  "settled_for b s \<longleftrightarrow> (\<exists>od \<in> set (om_orders s). od_sourceType od = SourceBooking \<and> od_source od = b \<and> settled_order s od)"

lemma settled_le:
  assumes "orders_le s s'" "settled_for b s"
  shows "settled_for b s'"
proof -
  obtain od where od: "od \<in> set (om_orders s)" "od_sourceType od = SourceBooking" "od_source od = b" "settled_order s od"
    using assms(2) by (auto simp: settled_for_def)
  then obtain od' where od': "od' \<in> set (om_orders s')" "order_le od od'" using assms(1) by (auto simp: orders_le_def rows_le_def)
  have "settled_order s' od'"
    using od(4) od'(2) assms(1) moved_not_pending by (auto simp: settled_order_def order_le_def orders_le_def)
  with od od' show ?thesis unfolding settled_for_def order_le_def by metis
qed

text \<open>A charge of the gateway: a successful attempt of an intent of the order, for exactly this amount.\<close>

definition charged_for :: "nat \<Rightarrow> int \<Rightarrow> payment_db \<Rightarrow> bool" where
  "charged_for orderId amount s \<longleftrightarrow> (\<exists>a \<in> set (pm_attempts s). \<exists>it \<in> set (pm_intents s).
     pt_status a = AttSucceeded \<and> pt_verified a = Some amount \<and> pi_id it = pt_intent a \<and> pi_order it = orderId)"

lemma charged_le:
  assumes "payment_le s s'" "charged_for i n s"
  shows "charged_for i n s'"
proof -
  obtain a it where a: "a \<in> set (pm_attempts s)" "it \<in> set (pm_intents s)" "pt_status a = AttSucceeded" "pt_verified a = Some n"
      "pi_id it = pt_intent a" "pi_order it = i"
    using assms(2) by (auto simp: charged_for_def)
  obtain a' where a': "a' \<in> set (pm_attempts s')" "attempt_le a a'" using assms(1) a(1) by (auto simp: payment_le_def rows_le_def)
  obtain it' where it': "it' \<in> set (pm_intents s')" "intent_le it it'" using assms(1) a(2) by (auto simp: payment_le_def rows_le_def)
  have "a' = a" using a'(2) a(3) by (simp add: attempt_le_def)
  with a a' it' show ?thesis unfolding charged_for_def intent_le_def by metis
qed

lemma apply_charged:
  assumes "applyVerification now p s = Inr (v, s')" "vo_status v = VerSucceeded"
    "prepareVerification ps clk k ref params rd = Inr p" "payment_inv s" "payment_le rd s"
  shows "charged_for (vo_order v) (vo_amount v) s'"
proof -
  from apply_effect [OF assms(1) inv_keys(2) [OF assms(4)]] assms(2) obtain r where r: "pp_alreadyProcessed p = False" "pp_result p = Some r"
    "verifies now (pp_attempt p) (pp_intent p) r s s'" "charge_confirmed (pp_intent p) r" by (auto split: if_splits)
  let ?a = "pp_attempt p" and ?it = "pp_intent p"
  from r(3) obtain a0 verified where a0: "attempt_at s (pt_id ?a) = Some a0" "pt_status a0 = AttInitiated"
    and vr: "verified_column (vr_paidAmount r) = Inr verified"
    and s': "s' = s\<lparr>pm_attempts := tupd (\<lambda>x. pt_id x = pt_id ?a \<and> pt_status x = AttInitiated) (settle_attempt now ?it r verified) (pm_attempts s),
             pm_intents := tupd (\<lambda>x. pi_id x = pi_id ?it \<and> pi_status x \<in> {IntCreated, IntPending}) (settle_intent now ?it r) (pm_intents s),
             pm_outbox := pm_outbox s @ [verification_event ?a ?it r]\<rparr>"
    unfolding verifies_def by blast
  note sh = prepare_shape [OF assms(3)]
  have le: "payment_le rd s'"
    using payment_le_trans [OF assms(5)] apply_inv [OF assms(3,1,4,5)] by blast
  have v: "vo_order v = pi_order ?it" "vo_amount v = pi_amount ?it"
    using assms(1) r(1,2) by (auto simp: applyVerification_def Let_def bind_res_Inr outcome_of_def split: if_splits option.splits)
  have ida: "a0 \<in> set (pm_attempts s)" "pt_id a0 = pt_id ?a" using tget_SomeD [OF a0(1) [unfolded attempt_at_def]] by simp_all
  have new: "settle_attempt now ?it r verified a0 \<in> set (pm_attempts s')"
    using ida a0(2) unfolding s' set_tupd by (auto simp: set_tupd intro: rev_image_eqI)
  have "?it \<in> set (pm_intents rd)" "pi_id ?it = pt_intent ?a" using sh tget_SomeD [of pi_id] by (auto simp: intent_at_def)
  then obtain it' where it': "it' \<in> set (pm_intents s')" "intent_le ?it it'" using le by (auto simp: payment_le_def rows_le_def)
  obtain a1 where a1: "a1 \<in> set (pm_attempts s)" "attempt_le ?a a1" using sh assms(5) by (auto simp: payment_le_def rows_le_def)
  then have "a1 = a0" using keyed_inj [OF inv_keys(2) [OF assms(4)] a1(1) ida(1)] ida(2) by (simp add: attempt_le_def)
  then have "pt_intent a0 = pt_intent ?a" using a1(2) by (simp add: attempt_le_def)
  then show ?thesis
    unfolding charged_for_def
    using new it' v \<open>pi_id ?it = pt_intent ?a\<close> r(4) confirmed_verified [OF r(4) vr]
    by (intro bexI [OF _ new] bexI [OF _ it'(1)]) (simp add: settle_attempt_def intent_le_def)
qed

lemma capture_writes:
  assumes "recordVerifiedCapture now i v s = Inr (Captured st n, s')" "order_inv s" "v = fin_int amount"
  shows "\<exists>od. order_at s i = Some od \<and> od_status od = OrdPending \<and> n = amount \<and> 0 < amount \<and>
    order_at s' i = Some (capture_row now amount od) \<and> (\<forall>j. j \<noteq> i \<longrightarrow> order_at s' j = order_at s j)"
proof -
  from capture_effect [OF assms(1) inv_order_keyed [OF assms(2)]] obtain od sc ev m where m: "v = Fin (of_int m)" "order_at s i = Some od"
    "capturable s i m od" "Captured st n = Captured (if m = od_total od then OrdPaid else OrdCollectionCompleted) m"
    "s' = s\<lparr>om_orders := tupd (capturable s i m) (capture_row now m) (om_orders s), om_outbox := om_outbox s @ [ev]\<rparr>"
    by auto
  have "m = amount" using m(1) assms(3) by (simp add: fin_int_def)
  have "order_at s' j = map_option (\<lambda>x. if capturable s i m x then capture_row now m x else x) (order_at s j)" for j
    unfolding m(5) order_at_def by (simp add: tget_tupd capture_row_def)
  note at = this
  have same: "order_at s' j = order_at s j" if j: "j \<noteq> i" for j
  proof (cases "order_at s j")
    case (Some x)
    then have "\<not> capturable s i m x" using j tget_SomeD [of od_id j "om_orders s" x] by (auto simp: capturable_def order_at_def)
    with at [of j] Some show ?thesis by simp
  qed (use at [of j] in simp)
  have "order_at s' i = Some (capture_row now m od)" using at [of i] m(2,3) by simp
  with same \<open>m = amount\<close> have "order_at s' i = Some (capture_row now amount od)" "\<And>j. j \<noteq> i \<Longrightarrow> order_at s' j = order_at s j" by simp_all
  then show ?thesis using m(2-4) \<open>m = amount\<close> by (intro exI [of _ od]) (auto simp: capturable_def)
qed

section \<open>The invariant\<close>

definition bookings_settled :: "platform \<Rightarrow> bool" where
  "bookings_settled w \<longleftrightarrow> (\<forall>i b. booking_at (w_bookings w) i = Some b \<and> paid_status (bk_status b) \<longrightarrow> settled_for i (w_orders w))"

definition collections_charged :: "platform \<Rightarrow> bool" where
  "collections_charged w \<longleftrightarrow> (\<forall>i od. order_at (w_orders w) i = Some od \<and> 0 < od_collected od \<longrightarrow> charged_for i (od_collected od) (w_payments w))"

definition platform_inv :: "platform \<Rightarrow> bool" where
  "platform_inv w \<longleftrightarrow> booking_inv (w_bookings w) \<and> order_inv (w_orders w) \<and> payment_inv (w_payments w) \<and> commercial_inv (w_commercial w) \<and>
     bookings_settled w \<and> collections_charged w"

definition platform_le :: "platform \<Rightarrow> platform \<Rightarrow> bool" where
  "platform_le w w' \<longleftrightarrow> orders_le (w_orders w) (w_orders w') \<and> payment_le (w_payments w) (w_payments w')"

lemma platform_le_refl [simp]: "platform_le w w"
  by (simp add: platform_le_def orders_le_refl)

lemma platform_le_trans: "platform_le u v \<Longrightarrow> platform_le v w \<Longrightarrow> platform_le u w"
  unfolding platform_le_def using orders_le_trans payment_le_trans by blast

lemma platform_invD:
  assumes "platform_inv w"
  shows "booking_inv (w_bookings w)" "order_inv (w_orders w)" "payment_inv (w_payments w)" "commercial_inv (w_commercial w)"
    "booking_at (w_bookings w) i = Some b \<Longrightarrow> paid_status (bk_status b) \<Longrightarrow> settled_for i (w_orders w)"
    "order_at (w_orders w) i = Some od \<Longrightarrow> 0 < od_collected od \<Longrightarrow> charged_for i (od_collected od) (w_payments w)"
  using assms by (auto simp: platform_inv_def bookings_settled_def collections_charged_def)

text \<open>What keeps the two cross-schema parts: bookings without new confirmations, orders that move forward without
  new collections, payments that move forward.\<close>

lemma bookings_settledI:
  assumes "platform_inv w" "no_new_paid (w_bookings w) (w_bookings w')" "orders_le (w_orders w) (w_orders w')"
  shows "bookings_settled w'"
  using assms(2) settled_le [OF assms(3)] platform_invD(5) [OF assms(1)]
  unfolding bookings_settled_def no_new_paid_def by blast

definition no_new_collection :: "order_db \<Rightarrow> order_db \<Rightarrow> bool" where
  "no_new_collection s s' \<longleftrightarrow> (\<forall>i od'. order_at s' i = Some od' \<and> 0 < od_collected od' \<longrightarrow>
     (\<exists>od. order_at s i = Some od \<and> od_collected od = od_collected od'))"

lemma collections_chargedI:
  assumes "platform_inv w" "no_new_collection (w_orders w) (w_orders w')" "payment_le (w_payments w) (w_payments w')"
  shows "collections_charged w'"
  using assms(2) charged_le [OF assms(3)] platform_invD(6) [OF assms(1)]
  unfolding collections_charged_def no_new_collection_def by metis

lemma no_new_collection_refl [simp]: "no_new_collection s s"
  by (auto simp: no_new_collection_def)

lemma no_new_paid_refl [simp]: "no_new_paid s s"
  by (auto simp: no_new_paid_def)

lemma no_new_collection_tupd:
  assumes "om_orders s' = tupd P f (om_orders s)" "\<And>x. od_id (f x) = od_id x \<and> od_collected (f x) = od_collected x"
  shows "no_new_collection s s'"
  using assms by (auto simp: no_new_collection_def order_at_def tget_tupd split: if_splits)

lemma create_no_collection:
  assumes "createForBooking known ports clk now inp s s = Inr (d, s')"
  shows "no_new_collection s s'"
proof -
  consider "s' = s" | "createForBookingWithin known ports clk now inp s = Inr (d, s')"
    using assms(1) by (auto simp: createForBooking_def bind_res_Inr split: option.splits sum.splits if_splits)
  then show ?thesis
  proof cases
    case 2
    from createWithin_order_Inr [OF 2] obtain q where "om_orders s' = om_orders s @ [new_order (om_next s) inp q]"
      by fastforce
    then show ?thesis by (auto simp: no_new_collection_def order_at_def tget_append new_order_def split: option.splits if_splits)
  qed simp
qed

lemma zero_no_collection: "confirmNoOnlineCollection i s = Inr (z, s') \<Longrightarrow> order_inv s \<Longrightarrow> no_new_collection s s'"
  by (drule zero_effect [OF _ inv_order_keyed]) (auto intro: no_new_collection_tupd)

lemma cancel_no_collection: "cancel_order now i reason s = (b, s') \<Longrightarrow> no_new_collection s s'"
  by (auto simp: cancel_order_def Let_def emitOrderEvent_def intro!: no_new_collection_tupd split: if_splits)

lemma refund_no_collection:
  assumes "recordRefund i v rid s = Inr (b, s')" "order_inv s"
  shows "no_new_collection s s'"
  using recordRefund_amount [OF assms(1)]
  by (auto simp: refund_row_def dest!: refund_effect [OF _ inv_order_keyed [OF assms(2)]] intro: no_new_collection_tupd split: if_splits)

end
