(* ===== verification/Outcome_Invariant.thy ===== *)
theory Outcome_Invariant
  imports Outcome_Orchestrator Checkout_Invariant
begin

text \<open>
  The invariant of decisions and refunds across the schemas: one live decision per booking and kind, each on the
  order of its booking, money only behind collected money; one remedy row per order; every order refund belongs to
  an order that has collected. Each write of the orchestrator keeps it.
\<close>

section \<open>Decisions\<close>

definition decision_backed :: "order_db \<Rightarrow> outcome_decision \<Rightarrow> bool" where
  "decision_backed s d \<longleftrightarrow> (\<exists>od. order_at s (de_order d) = Some od \<and> od_sourceType od = SourceBooking \<and> od_source od = de_booking d \<and>
     (0 < de_refund d \<longrightarrow> 0 < od_collected od)) \<and> (de_execution d \<noteq> Executed \<longrightarrow> 0 < de_refund d)"

definition live_keys :: "order_db \<Rightarrow> (nat \<times> decision_kind) list" where
  "live_keys s = map (\<lambda>d. (de_booking d, de_kind d)) (filter (\<lambda>d. de_supersededBy d = None) (om_decisions s))"

definition decisions_ok :: "order_db \<Rightarrow> bool" where
  "decisions_ok s \<longleftrightarrow> (\<forall>d \<in> set (om_decisions s). decision_backed s d \<and> de_id d < om_next s) \<and> keyed de_id (om_decisions s) \<and>
     distinct (live_keys s) \<and> distinct (map rm_order (om_remedies s))"

lemma backed_le:
  assumes "orders_le s s'" "order_inv s'" "decision_backed s d"
  shows "decision_backed s' d"
proof -
  obtain od where od: "order_at s (de_order d) = Some od" "od_sourceType od = SourceBooking" "od_source od = de_booking d"
      "0 < de_refund d \<longrightarrow> 0 < od_collected od" "de_execution d \<noteq> Executed \<longrightarrow> 0 < de_refund d"
    using assms(3) unfolding decision_backed_def by blast
  from order_le_get [OF assms(1,2) od(1)] obtain od' where "order_at s' (de_order d) = Some od'" "order_le od od'" by blast
  with od show ?thesis unfolding decision_backed_def order_le_def by (intro conjI exI [of _ od']) auto
qed

text \<open>What the other order operations leave of it: they move orders forward and touch no decision.\<close>

definition decisions_kept :: "order_db \<Rightarrow> order_db \<Rightarrow> bool" where
  "decisions_kept s s' \<longleftrightarrow> om_decisions s' = om_decisions s \<and> om_remedies s' = om_remedies s \<and> om_next s \<le> om_next s'"

lemma decisions_ok_kept:
  assumes "decisions_ok s" "decisions_kept s s'" "orders_le s s'" "order_inv s'"
  shows "decisions_ok s'"
  using assms backed_le [OF assms(3,4)] unfolding decisions_ok_def decisions_kept_def live_keys_def by (fastforce intro: less_le_trans)

lemma kept_refl [simp]: "decisions_kept s s"
  by (simp add: decisions_kept_def)

lemma capture_keeps: "recordVerifiedCapture now i v s = Inr (r, s') \<Longrightarrow> decisions_kept s s'"
  by (auto simp: recordVerifiedCapture_def bind_res_Inr Let_def emitOrderEvent_def decisions_kept_def split: if_splits option.splits)

lemma zero_keeps: "confirmNoOnlineCollection i s = Inr (r, s') \<Longrightarrow> decisions_kept s s'"
  by (auto simp: confirmNoOnlineCollection_def decisions_kept_def split: if_splits option.splits)

lemma cancel_keeps: "cancel_order now i reason s = (r, s') \<Longrightarrow> decisions_kept s s'"
  by (auto simp: cancel_order_def Let_def emitOrderEvent_def decisions_kept_def split: if_splits)

lemma refund_keeps: "recordRefund i v rid s = Inr (r, s') \<Longrightarrow> decisions_kept s s'"
  by (auto simp: recordRefund_def recordRefundWithin_def bind_res_Inr Let_def emitOrderEvent_def decisions_kept_def split: if_splits option.splits)

lemma create_keeps: "createForBooking known ports clk now inp s s = Inr (d, s') \<Longrightarrow> decisions_kept s s'"
proof -
  assume "createForBooking known ports clk now inp s s = Inr (d, s')"
  then consider "s' = s" | "createForBookingWithin known ports clk now inp s = Inr (d, s')"
    by (auto simp: createForBooking_def bind_res_Inr split: option.splits sum.splits if_splits)
  then show ?thesis
  proof cases
    case 2
    then show ?thesis
      by (auto simp: createForBookingWithin_def bind_res_Inr Let_def insert_order_def insert_item_def insert_adjustments_def write_schedule_def
          insert_schedule_def insertOutcomeTerms_def insertCommissionTerms_def emitOrderEvent_def decisions_kept_def split: if_splits option.splits)
  qed simp
qed

text \<open>The writes on decisions and remedies touch no order.\<close>

definition orders_same :: "order_db \<Rightarrow> order_db \<Rightarrow> bool" where
  "orders_same s s' \<longleftrightarrow> om_orders s' = om_orders s \<and> om_schedules s' = om_schedules s \<and> om_terms s' = om_terms s \<and>
     om_outbox s' = om_outbox s \<and> om_next s \<le> om_next s'"

lemma orders_same_refl [simp]: "orders_same s s"
  by (simp add: orders_same_def)

lemma orders_same_trans: "orders_same s t \<Longrightarrow> orders_same t u \<Longrightarrow> orders_same s u"
  by (simp add: orders_same_def)

lemma orders_same_at: "orders_same s s' \<Longrightarrow> order_at s' = order_at s \<and> schedule_at s' = schedule_at s"
  by (simp add: orders_same_def fun_eq_iff order_at_def schedule_at_def)

lemma orders_same_inv:
  assumes "orders_same s s'" "order_inv s"
  shows "order_inv s' \<and> orders_le s s' \<and> no_new_collection s s'"
  using assms orders_same_at [OF assms(1)]
  by (auto simp: order_inv_def orders_same_def orders_le_def order_rows.rows_refl no_new_collection_def intro: less_le_trans)

lemma same_backed: "orders_same s s' \<Longrightarrow> decision_backed s' d = decision_backed s d"
  by (drule orders_same_at) (simp add: decision_backed_def)

lemma order_of_booking_at:
  assumes "order_inv s" "order_of_booking b s = Some od"
  shows "order_at s (od_id od) = Some od" "od_sourceType od = SourceBooking" "od_source od = b"
proof -
  from assms(2) have "od \<in> set (om_orders s)" "od_sourceType od = SourceBooking \<and> od_source od = b"
    unfolding order_of_booking_def by (auto simp: find_Some_iff)
  with order_in_at [OF assms(1)] show "order_at s (od_id od) = Some od" "od_sourceType od = SourceBooking" "od_source od = b" by auto
qed

lemma find_live: "liveDecision b k s = None \<longleftrightarrow> (b, k) \<notin> set (live_keys s)"
  by (auto simp: liveDecision_def live_keys_def find_None_iff live_decision_def)

lemma liveDecision_in: "liveDecision b k s = Some d \<Longrightarrow> d \<in> set (om_decisions s) \<and> live_decision b k d"
  by (auto simp: liveDecision_def find_Some_iff)

lemma integrity_backed:
  assumes "decision_integrity d s" "decision_row_ok now d" "0 < de_refund d \<longrightarrow> (\<exists>od. order_at s (de_order d) = Some od \<and> 0 < od_collected od)"
  shows "decision_backed s (d\<lparr>de_id := i, de_supersededBy := None, de_decidedAt := t\<rparr>)"
  using assms by (auto simp: decision_integrity_def decision_row_ok_def decision_backed_def split: option.splits)

text \<open>A row written where its booking and kind have no live decision.\<close>

lemma write_ok:
  assumes "decisions_ok s" "liveDecision (de_booking d) (de_kind d) s = None" "decision_backed s (fst (write_decision now d s))"
  shows "decisions_ok (snd (write_decision now d s)) \<and> orders_same s (snd (write_decision now d s))"
proof -
  obtain row s' where w: "write_decision now d s = (row, s')" by force
  then have row: "row = d\<lparr>de_id := om_next s, de_supersededBy := None, de_decidedAt := now\<rparr>"
    and s': "s' = s\<lparr>om_decisions := om_decisions s @ [row], om_next := Suc (om_next s)\<rparr>" by (auto simp: write_decision_def Let_def)
  have same: "orders_same s s'" by (simp add: s' orders_same_def)
  have "om_next s \<notin> de_id ` set (om_decisions s)" using assms(1) by (auto simp: decisions_ok_def)
  moreover have "(de_booking d, de_kind d) \<notin> set (live_keys s)" using assms(2) by (simp add: find_live)
  ultimately show ?thesis
    using assms(1,3) same w unfolding decisions_ok_def
    by (auto simp: same_backed s' row keyed_append live_keys_def intro: less_SucI)
qed

lemma recordDecision_ok:
  assumes "recordDecision now d s = Inr (r, s')" "decisions_ok s"
    "0 < de_refund d \<longrightarrow> (\<exists>od. order_at s (de_order d) = Some od \<and> 0 < od_collected od)"
  shows "decisions_ok s' \<and> orders_same s s' \<and> liveDecision (de_booking d) (de_kind d) s' = Some r"
proof (cases "liveDecision (de_booking d) (de_kind d) s")
  case (Some live)
  with assms(1,2) show ?thesis by (auto simp: recordDecision_def split: if_splits)
next
  case None
  with assms(1) have w: "write_decision now d s = (r, s')" and i: "decision_integrity d s" "decision_row_ok now d"
    by (auto simp: recordDecision_def split: if_splits)
  have "decision_backed s (fst (write_decision now d s))"
    using integrity_backed [OF i assms(3)] by (simp add: write_decision_def Let_def)
  from write_ok [OF assms(2) None this] w
  have "decisions_ok s' \<and> orders_same s s'" by simp
  moreover have "liveDecision (de_booking d) (de_kind d) s' = Some r"
  proof -
    have "find P (xs @ [x]) = (case find P xs of None \<Rightarrow> if P x then Some x else None | Some y \<Rightarrow> Some y)" for P xs and x :: outcome_decision
      by (induction xs) auto
    then show ?thesis using None w by (auto simp: liveDecision_def write_decision_def Let_def live_decision_def)
  qed
  ultimately show ?thesis by simp
qed

lemma superseding_ok:
  assumes "recordSupersedingDecision now d s = Inr (r, s')" "decisions_ok s" "de_refund d = 0"
  shows "decisions_ok s' \<and> orders_same s s'"
proof -
  let ?f = "\<lambda>x. x\<lparr>de_supersededBy := Some (om_next s)\<rparr>" and ?P = "live_decision (de_booking d) (de_kind d)"
  let ?s1 = "s\<lparr>om_decisions := tupd ?P ?f (om_decisions s)\<rparr>"
  from assms(1) have w: "write_decision now d ?s1 = (r, s')" and i: "decision_integrity d ?s1" "decision_row_ok now d"
    by (auto simp: recordSupersedingDecision_def Let_def split: if_splits)
  have same: "orders_same s ?s1" by (simp add: orders_same_def)
  have live: "live_keys ?s1 = filter (\<lambda>k. k \<noteq> (de_booking d, de_kind d)) (live_keys s)"
  proof -
    have "map (\<lambda>d. (de_booking d, de_kind d)) (filter (\<lambda>d. de_supersededBy d = None) (tupd ?P ?f xs)) =
      filter (\<lambda>k. k \<noteq> (de_booking d, de_kind d)) (map (\<lambda>d. (de_booking d, de_kind d)) (filter (\<lambda>d. de_supersededBy d = None) xs))" for xs
      by (induction xs) (auto simp: tupd_def live_decision_def)
    then show ?thesis by (simp add: live_keys_def)
  qed
  have "decision_backed s (?f x) = decision_backed s x" for x by (simp add: decision_backed_def)
  then have ok: "decisions_ok ?s1"
    using assms(2) unfolding decisions_ok_def by (auto simp: same_backed [OF same] set_tupd keyed_tupd live)
  have "decision_backed ?s1 (fst (write_decision now d ?s1))"
    using integrity_backed [OF i] assms(3) by (simp add: write_decision_def Let_def)
  moreover have "liveDecision (de_booking d) (de_kind d) ?s1 = None" by (simp add: find_live live)
  ultimately have "decisions_ok s' \<and> orders_same ?s1 s'" using write_ok [OF ok, of d now] unfolding w by simp
  then show ?thesis using orders_same_trans [OF same] by blast
qed

lemma recordExecution_ok:
  assumes "decisions_ok s" "st \<noteq> ExecPending"
  shows "decisions_ok (snd (recordExecution i st s)) \<and> orders_same s (snd (recordExecution i st s))"
proof -
  let ?P = "\<lambda>d. de_id d = i \<and> de_execution d = ExecPending" and ?f = "\<lambda>d. d\<lparr>de_execution := st\<rparr>"
  let ?s = "s\<lparr>om_decisions := tupd ?P ?f (om_decisions s)\<rparr>"
  have s: "snd (recordExecution i st s) = ?s" by (simp add: recordExecution_def Let_def)
  have same: "orders_same s ?s" by (simp add: orders_same_def)
  have "map (\<lambda>d. (de_booking d, de_kind d)) (filter (\<lambda>d. de_supersededBy d = None) (tupd ?P ?f xs)) =
      map (\<lambda>d. (de_booking d, de_kind d)) (filter (\<lambda>d. de_supersededBy d = None) xs)" for xs
    by (induction xs) (auto simp: tupd_def)
  then have live: "live_keys ?s = live_keys s" by (simp add: live_keys_def)
  have "decision_backed s (?f x)" if "decision_backed s x" "?P x" for x using that by (auto simp: decision_backed_def)
  then show ?thesis
    using assms(1) same unfolding s decisions_ok_def by (auto simp: same_backed [OF same] set_tupd keyed_tupd live)
qed

lemma offer_ok:
  assumes "decisions_ok s"
  shows "decisions_ok (offerDefault i b s) \<and> orders_same s (offerDefault i b s)"
proof -
  have "orders_same s (offerDefault i b s)" by (simp add: offerDefault_def orders_same_def)
  then show ?thesis using assms same_backed [of s "offerDefault i b s"] by (auto simp: decisions_ok_def offerDefault_def live_keys_def)
qed

lemma choose_ok:
  assumes "decisions_ok s"
  shows "decisions_ok (snd (resolveReschedule i s)) \<and> orders_same s (snd (resolveReschedule i s))"
proof -
  have same: "orders_same s (snd (resolveReschedule i s))" by (simp add: resolveReschedule_def Let_def orders_same_def)
  have "map rm_order (tupd P (\<lambda>r. r\<lparr>rm_resolvedBy := ResolvedByCustomer, rm_chosen := Some ChoseReschedule\<rparr>) xs) = map rm_order xs" for P and xs :: "remedy_row list"
    by (simp add: tupd_def)
  then show ?thesis using assms same same_backed [OF same] by (auto simp: decisions_ok_def resolveReschedule_def Let_def live_keys_def)
qed

end
