(* ===== verification/Checkout_Transactions.thy ===== *)
theory Checkout_Transactions
  imports Checkout_Invariant
begin

text \<open>
  The transactions of the checkout keep the invariant of the platform: one lemma per transaction, from the effects
  in \<open>Checkout_Steps\<close>, and one frame lemma for each schema a step may touch alone.
\<close>

section \<open>Steps that confirm nothing and collect nothing\<close>

lemma frame_step:
  assumes "platform_inv w" "booking_inv (w_bookings w')" "order_inv (w_orders w')" "payment_inv (w_payments w')" "commercial_inv (w_commercial w')"
    "no_new_paid (w_bookings w) (w_bookings w')" "no_new_collection (w_orders w) (w_orders w')"
    "orders_le (w_orders w) (w_orders w')" "payment_le (w_payments w) (w_payments w')"
  shows "platform_inv w' \<and> platform_le w w'"
  using assms bookings_settledI [of w w'] collections_chargedI [of w w'] by (simp add: platform_inv_def platform_le_def)

lemma payments_only:
  assumes "platform_inv w" "payment_inv pm" "payment_le (w_payments w) pm"
  shows "platform_inv (w\<lparr>w_payments := pm\<rparr>) \<and> platform_le w (w\<lparr>w_payments := pm\<rparr>)"
  by (rule frame_step [OF assms(1)]) (use assms platform_invD [OF assms(1)] in \<open>simp_all add: orders_le_refl\<close>)

lemma bookings_only:
  assumes "platform_inv w" "side_step ports cfg (w_bookings w) bs"
  shows "platform_inv (w\<lparr>w_bookings := bs\<rparr>) \<and> platform_le w (w\<lparr>w_bookings := bs\<rparr>)"
  by (rule frame_step [OF assms(1)])
     (use platform_invD [OF assms(1)] side_no_new_paid [OF assms(2)] step_inv [OF side_booking_step [OF assms(2)]] in \<open>simp_all add: orders_le_refl\<close>)

lemma commercial_only:
  assumes "platform_inv w" "commercial_step (w_commercial w) cm"
  shows "platform_inv (w\<lparr>w_commercial := cm\<rparr>) \<and> platform_le w (w\<lparr>w_commercial := cm\<rparr>)"
  by (rule frame_step [OF assms(1)])
     (use platform_invD [OF assms(1)] commercial_step_inv [OF assms(2)] in \<open>simp_all add: orders_le_refl\<close>)

lemma orders_only:
  assumes "platform_inv w" "order_inv os" "orders_le (w_orders w) os" "no_new_collection (w_orders w) os"
  shows "platform_inv (w\<lparr>w_orders := os\<rparr>) \<and> platform_le w (w\<lparr>w_orders := os\<rparr>)"
  by (rule frame_step [OF assms(1)]) (use platform_invD [OF assms(1)] assms in simp_all)

section \<open>The order of a booking\<close>

text \<open>An order that has left pending without being cancelled is settled.\<close>

lemma settled_by_status:
  assumes "order_inv s" "order_at s i = Some od" "od_status od \<notin> {OrdPending, OrdCancelled}"
  shows "settled_order s od"
proof -
  obtain sc where "schedule_at s i = Some sc" "money_ok sc od" using order_invD(5) [OF assms(1,2)] by blast
  with assms(3) order_invD(1) [OF assms(1,2)] show ?thesis
    by (cases "od_status od") (auto simp: settled_order_def money_ok_def)
qed

lemma settled_forI:
  assumes "order_inv s" "order_at s i = Some od" "od_status od \<notin> {OrdPending, OrdCancelled}" "od_sourceType od = SourceBooking"
  shows "settled_for (od_source od) s"
  unfolding settled_for_def using settled_by_status [OF assms(1-3)] assms(4) order_invD(3) [OF assms(1,2)] by auto

lemma find_row: "find P xs = Some x \<Longrightarrow> x \<in> set xs \<and> P x"
  by (auto simp: find_Some_iff)

lemma findBySource_order:
  assumes "findBySource SourceBooking b s = Inr (Some d)"
  shows "\<exists>od. order_at s (od_id (dt_order d)) = Some od \<and> od_sourceType od = SourceBooking \<and> od_source od = b \<or>
    (\<exists>od \<in> set (om_orders s). od_id od = od_id (dt_order d) \<and> od_sourceType od = SourceBooking \<and> od_source od = b)"
proof -
  from assms obtain x where x: "find (\<lambda>x. od_sourceType x = SourceBooking \<and> od_source x = b) (om_orders s) = Some x"
    and l: "loadDetail (od_id x) s = Inr d" by (auto simp: findBySource_def bind_res_Inr split: option.splits)
  from l have "od_id (dt_order d) = od_id x"
    using tget_SomeD [of od_id "od_id x" "om_orders s"] by (auto simp: loadDetail_def order_at_def split: option.splits)
  with find_row [OF x] show ?thesis by auto
qed

text \<open>The order that \<open>open_booking\<close> answers is the order of the booking it answers.\<close>

lemma createForBooking_order:
  assumes "createForBooking known ports clk now inp s s = Inr (d, s')" "order_inv s"
  shows "\<exists>od. order_at s' (od_id (dt_order d)) = Some od \<and> od_sourceType od = SourceBooking \<and> od_source od = bo_booking inp"
proof -
  note inv = createForBooking_inv [OF assms]
  consider "s' = s" "findBySource SourceBooking (bo_booking inp) s = Inr (Some d)"
    | "createForBookingWithin known ports clk now inp s = Inr (d, s')"
    using assms(1) by (auto simp: createForBooking_def bind_res_Inr split: option.splits sum.splits if_splits)
  then show ?thesis
  proof cases
    case 1
    from findBySource_order [OF this(2)] show ?thesis using order_in_at [OF assms(2)] 1(1) by auto metis
  next
    case 2
    from createWithin_order_Inr [OF 2] obtain q where o: "om_orders s' = om_orders s @ [new_order (om_next s) inp q]" by fastforce
    from 2 have "\<exists>t. loadDetail (om_next s) t = Inr d \<and> t = s'"
      by (auto simp: createForBookingWithin_def Let_def bind_res_Inr)
    then have "order_at s' (om_next s) = Some (dt_order d)" by (auto simp: loadDetail_def split: option.splits)
    moreover have "order_at s' (om_next s) = Some (new_order (om_next s) inp q)"
    proof -
      have "new_order (om_next s) inp q \<in> set (om_orders s')" using o by simp
      from order_in_at [OF inv this] show ?thesis by (simp add: new_order_def)
    qed
    ultimately have "dt_order d = new_order (om_next s) inp q" "order_at s' (om_next s) = Some (new_order (om_next s) inp q)" by simp_all
    then show ?thesis by (intro exI [of _ "dt_order d"]) (simp add: new_order_def)
  qed
qed

section \<open>The transactions of the checkout\<close>

lemma open_inv:
  assumes "open_booking env c inp w = Inr (r, w')" "platform_inv w"
  shows "platform_inv w' \<and> platform_le w w' \<and>
    (\<exists>od. order_at (w_orders w') (od_id (dt_order (snd r))) = Some od \<and> od_sourceType od = SourceBooking \<and> od_source od = fst r)"
proof -
  note D = platform_invD [OF assms(2)]
  obtain b d where r: "r = (b, d)" by force
  from open_effect [OF assms(1) [unfolded r]] obtain bk bs os where
    cr: "create (ce_bookings env) (ce_config env) c (xi_booking inp) (w_bookings w) (w_bookings w) = Inr (bk, bs)" "b = bk_id bk"
    and o: "createForBooking (ce_known env) (ce_orders env) (ck_js c) (ck_db c) \<lparr>bo_booking = bk_id bk, bo_customer = bk_customer bk,
      bo_professional = bk_professional bk, bo_service = bk_service bk, bo_accepted = xi_accepted inp\<rparr> (w_orders w) (w_orders w) = Inr (d, os)"
    and w': "w' = w\<lparr>w_bookings := bs, w_orders := os\<rparr>" by blast
  have "side_step (ce_bookings env) (ce_config env) (w_bookings w) bs" by (rule side_create [OF cr(1)])
  then have "platform_inv w' \<and> platform_le w w'"
    by (intro frame_step [OF assms(2)])
       (use D createForBooking_inv [OF o] create_order_le [OF o] create_no_collection [OF o] side_no_new_paid [of _ _ "w_bookings w" bs]
          step_inv [OF side_booking_step] in \<open>auto simp: w'\<close>)
  moreover from createForBooking_order [OF o D(2)] have
    "\<exists>od. order_at (w_orders w') (od_id (dt_order d)) = Some od \<and> od_sourceType od = SourceBooking \<and> od_source od = b"
    by (simp add: w' cr(2))
  ultimately show ?thesis by (simp add: r)
qed

text \<open>One booking is confirmed, and its order is settled.\<close>

lemma confirmed_settled:
  assumes "platform_inv w" "confirm (db_bookings (w_bookings w)) c i a (w_bookings w) = Inr (True, bs)"
    "settled_for i os" "orders_le (w_orders w) os"
  shows "\<forall>j b. booking_at bs j = Some b \<and> paid_status (bk_status b) \<longrightarrow> settled_for j os"
proof (intro allI impI, elim conjE)
  fix j b
  assume j: "booking_at bs j = Some b" "paid_status (bk_status b)"
  obtain b' where "booking_at bs = (booking_at (w_bookings w))(i \<mapsto> b')"
    using confirm_True [OF assms(2) platform_invD(1) [OF assms(1)]] by blast
  with j have "j = i \<or> booking_at (w_bookings w) j = Some b" by (auto split: if_splits)
  then show "settled_for j os"
    using assms(3) settled_le [OF assms(4)] platform_invD(5) [OF assms(1) _ j(2)] by blast
qed

lemma zero_transaction_inv:
  assumes "zero_transaction c b i w = Inr (r, w')" "platform_inv w" "order_at (w_orders w) i = Some od"
    "od_sourceType od = SourceBooking" "od_source od = b"
  shows "platform_inv w' \<and> platform_le w w'"
  using zero_transaction_effect [OF assms(1)]
proof (elim disjE exE conjE)
  fix os cm bs d
  assume z: "confirmNoOnlineCollection i (w_orders w) = Inr (ZeroTransitioned, os)"
    and h: "onBookingConfirmation c b os (w_commercial w) = Inr (Permitted d, cm)"
    and k: "confirm (db_bookings (w_bookings w)) c b SYSTEM_ACTOR (w_bookings w) = Inr (True, bs)"
    and w': "w' = w\<lparr>w_orders := os, w_commercial := cm, w_bookings := bs\<rparr>"
  note D = platform_invD [OF assms(2)]
  have inv: "order_inv os" by (rule zero_inv [OF z D(2)])
  have le: "orders_le (w_orders w) os" by (rule zero_le [OF z D(2)])
  have at: "order_at os i = Some (od\<lparr>od_status := OrdCollectionNotRequired\<rparr>)"
    using zero_effect [OF z inv_order_keyed [OF D(2)]] assms(3)
      order_at_tupd [of "\<lambda>od. od\<lparr>od_status := OrdCollectionNotRequired\<rparr>" "w_orders w" i od "zero_collectible (w_orders w) i" os] by auto
  have s: "settled_for b os" using settled_forI [OF inv at] assms(4,5) by simp
  have "bookings_settled w'" using confirmed_settled [OF assms(2) k s le] by (simp add: bookings_settled_def w')
  moreover have "collections_charged w'"
    by (rule collections_chargedI [OF assms(2)]) (use zero_no_collection [OF z D(2)] in \<open>simp_all add: w'\<close>)
  ultimately show ?thesis
    using D inv le confirm_inv [OF D(1) k] commercial_step_inv [OF cm_confirm [OF h] D(4)]
    by (simp add: platform_inv_def platform_le_def w')
qed (use assms in simp_all)

text \<open>The capture of a confirmed charge.\<close>

lemma capture_step:
  assumes "platform_inv w" "recordVerifiedCapture now i (fin_int n) (w_orders w) = Inr (Captured st m, os)" "charged_for i n pm"
    "payment_inv pm" "payment_le (w_payments w) pm"
  shows "platform_inv (w\<lparr>w_payments := pm, w_orders := os\<rparr>)" "platform_le w (w\<lparr>w_payments := pm, w_orders := os\<rparr>)"
    "\<And>od. order_findById i os = Some od \<Longrightarrow> od_sourceType od = SourceBooking \<Longrightarrow> settled_for (od_source od) os"
proof -
  let ?w = "w\<lparr>w_payments := pm, w_orders := os\<rparr>"
  note D = platform_invD [OF assms(1)]
  have inv: "order_inv os" by (rule capture_inv [OF assms(2) D(2)])
  have le: "orders_le (w_orders w) os" by (rule capture_le [OF assms(2) D(2)])
  from capture_writes [OF assms(2) D(2) refl] obtain od where
    od: "0 < n" "order_at os i = Some (capture_row now n od)" "\<And>j. j \<noteq> i \<Longrightarrow> order_at os j = order_at (w_orders w) j" by blast
  have "bookings_settled ?w" by (rule bookings_settledI [OF assms(1)]) (use le in simp_all)
  moreover have "charged_for j (od_collected x) pm" if "order_at os j = Some x" "0 < od_collected x" for j x
  proof (cases "j = i")
    case True
    then have "x = capture_row now n od" using that(1) od(2) by simp
    then show ?thesis using True assms(3) by (simp add: capture_row_def)
  next
    case False
    then show ?thesis using that od(3) charged_le [OF assms(5)] D(6) by simp
  qed
  then have "collections_charged ?w" by (simp add: collections_charged_def)
  ultimately show "platform_inv ?w" "platform_le w ?w" using D inv le assms(4,5) by (simp_all add: platform_inv_def platform_le_def)
  show "settled_for (od_source x) os" if "order_findById i os = Some x" "od_sourceType x = SourceBooking" for x
    using settled_forI [OF inv, of i x] that od(2) by (simp add: order_findById_def capture_row_def split: if_splits) auto
qed

lemma settle_callback_inv:
  assumes "settle_callback c p w = Inr (st, w')" "prepareVerification ps clk k ref params rd = Inr p"
    "platform_inv w" "payment_le rd (w_payments w)"
  shows "platform_inv w' \<and> platform_le w w'"
proof -
  note D = platform_invD [OF assms(3)]
  from settle_effect [OF assms(1)] obtain v pm e where v: "applyVerification (ck_js c) p (w_payments w) = Inr (v, pm)"
    and e: "callback_end c v pm w st w' e" by blast
  have pm: "payment_inv pm" "payment_le (w_payments w) pm" using apply_inv [OF assms(2) v D(3) assms(4)] by simp_all
  have ch: "charged_for (vo_order v) (vo_amount v) pm" if "vo_status v = VerSucceeded"
    by (rule apply_charged [OF v that assms(2) D(3) assms(4)])
  show ?thesis
  proof (cases e)
    case NothingCharged
    with e payments_only [OF assms(3) pm] show ?thesis by simp
  next
    case ChargedTwice
    with e payments_only [OF assms(3) pm] show ?thesis by simp
  next
    case OnlyCaptured
    with e capture_step(1,2) [OF assms(3) _ ch pm] show ?thesis by auto
  next
    case NotEntitled
    with e obtain os s n x cm and od :: order where o: "vo_status v = VerSucceeded"
      "recordVerifiedCapture (ck_js c) (vo_order v) (fin_int (vo_amount v)) (w_orders w) = Inr (Captured s n, os)"
      "onBookingConfirmation c (od_source od) os (w_commercial w) = Inr (x, cm)" "w' = w\<lparr>w_payments := pm, w_orders := os, w_commercial := cm\<rparr>" by auto
    note step = capture_step [OF assms(3) o(2) ch [OF o(1)] pm]
    have "commercial_step (w_commercial (w\<lparr>w_payments := pm, w_orders := os\<rparr>)) cm" using cm_confirm [OF o(3)] by simp
    from commercial_only [OF step(1) this] step(2) o(4) show ?thesis using platform_le_trans by auto
  next
    case NotConfirmable
    with e obtain os s n d cm bs and od :: order where o: "vo_status v = VerSucceeded"
      "recordVerifiedCapture (ck_js c) (vo_order v) (fin_int (vo_amount v)) (w_orders w) = Inr (Captured s n, os)"
      "onBookingConfirmation c (od_source od) os (w_commercial w) = Inr (Permitted d, cm)"
      "confirm (db_bookings (w_bookings w)) c (od_source od) SYSTEM_ACTOR (w_bookings w) = Inr (False, bs)"
      "w' = w\<lparr>w_payments := pm, w_orders := os, w_commercial := cm, w_bookings := bs\<rparr>" by auto
    note step = capture_step [OF assms(3) o(2) ch [OF o(1)] pm]
    have "commercial_step (w_commercial (w\<lparr>w_payments := pm, w_orders := os\<rparr>)) cm" using cm_confirm [OF o(3)] by simp
    moreover have "bs = w_bookings w" by (rule confirm_False [OF o(4)])
    ultimately show ?thesis using commercial_only [OF step(1)] step(2) o(5) platform_le_trans by auto
  next
    case PaidAndConfirmed
    with e obtain os s n od d cm bs where o: "vo_status v = VerSucceeded"
      "recordVerifiedCapture (ck_js c) (vo_order v) (fin_int (vo_amount v)) (w_orders w) = Inr (Captured s n, os)"
      "order_findById (vo_order v) os = Some od" "od_sourceType od = SourceBooking"
      "onBookingConfirmation c (od_source od) os (w_commercial w) = Inr (Permitted d, cm)"
      "confirm (db_bookings (w_bookings w)) c (od_source od) SYSTEM_ACTOR (w_bookings w) = Inr (True, bs)"
      "w' = w\<lparr>w_payments := pm, w_orders := os, w_commercial := cm, w_bookings := bs\<rparr>" by auto
    note step = capture_step [OF assms(3) o(2) ch [OF o(1)] pm]
    have le: "orders_le (w_orders w) os" by (rule capture_le [OF o(2) D(2)])
    have "\<forall>j b. booking_at bs j = Some b \<and> paid_status (bk_status b) \<longrightarrow> settled_for j os"
      by (rule confirmed_settled [OF assms(3) o(6) step(3) [OF o(3,4)] le])
    then show ?thesis
      using step(1,2) D confirm_inv [OF D(1) o(6)] commercial_step_inv [OF cm_confirm [OF o(5)] D(4)] o(7)
      by (simp add: platform_inv_def platform_le_def bookings_settled_def collections_charged_def)
  qed
qed

end
