(* ===== verification/Outcome_Steps.thy ===== *)
theory Outcome_Steps
  imports Outcome_Invariant Checkout_Transactions
begin

text \<open>
  What the transactions of the outcome orchestrator do to the platform: deciding a cancellation or a no-show,
  recording an execution or a consequence, and the remedy that revives a cancelled booking. Each keeps the
  invariants of the platform.
\<close>

section \<open>Refund commitments\<close>

text \<open>The loop over the refunds of an order is a lookup and a sum.\<close>

lemma refund_commitments_sum:
  "refund_commitments k rs kr n = (kr', n') \<Longrightarrow>
     n' = n + sum_list (map rf_amount (filter (\<lambda>r. rf_key r \<noteq> k \<and> rf_status r \<noteq> RefFailed) rs)) \<and>
     (kr' = kr \<or> (\<exists>r \<in> set rs. rf_key r = k \<and> kr' = Some (rf_amount r, rf_status r)))"
proof (induction rs arbitrary: kr n)
  case (Cons r rs)
  show ?case
  proof (cases "rf_key r = k")
    case True
    with Cons.prems have "refund_commitments k rs (Some (rf_amount r, rf_status r)) n = (kr', n')" by simp
    from Cons.IH [OF this] True show ?thesis by auto
  next
    case False
    with Cons.prems have "refund_commitments k rs kr (if rf_status r \<noteq> RefFailed then n + rf_amount r else n) = (kr', n')"
      by (auto split: if_splits)
    from Cons.IH [OF this] False show ?thesis by auto
  qed
qed simp

lemma commitments_committed:
  assumes "orderRefundCommitments i k s = (kr, other)"
  shows "other = committed (\<lambda>r. order_refund i r \<and> rf_key r \<noteq> k) s"
    "kr = None \<or> (\<exists>r \<in> set (pm_refunds s). order_refund i r \<and> rf_key r = k \<and> kr = Some (rf_amount r, rf_status r))"
proof -
  note c = refund_commitments_sum [OF assms [unfolded orderRefundCommitments_def]]
  have "filter (\<lambda>r. rf_key r \<noteq> k \<and> rf_status r \<noteq> RefFailed) (filter (order_refund i) xs) =
      filter (\<lambda>r. (order_refund i r \<and> rf_key r \<noteq> k) \<and> rf_status r \<noteq> RefFailed) xs" for xs
    by (induction xs) auto
  with conjunct1 [OF c] show "other = committed (\<lambda>r. order_refund i r \<and> rf_key r \<noteq> k) s" by (simp add: committed_def)
  from conjunct2 [OF c] show "kr = None \<or> (\<exists>r \<in> set (pm_refunds s). order_refund i r \<and> rf_key r = k \<and> kr = Some (rf_amount r, rf_status r))"
    by auto
qed

section \<open>The invariant\<close>

definition refunds_backed :: "payment_db \<Rightarrow> order_db \<Rightarrow> bool" where
  "refunds_backed pm os \<longleftrightarrow> (\<forall>r \<in> set (pm_refunds pm). rf_kind r = KindOrder \<longrightarrow>
     (\<exists>od. order_at os (rf_order r) = Some od \<and> 0 < od_collected od))"

definition outcome_inv :: "platform \<Rightarrow> bool" where
  "outcome_inv w \<longleftrightarrow> decisions_ok (w_orders w) \<and> refunds_backed (w_payments w) (w_orders w)"

definition full_inv :: "platform \<Rightarrow> bool" where
  "full_inv w \<longleftrightarrow> platform_inv w \<and> outcome_inv w"

lemma refunds_backed_le:
  assumes "refunds_backed pm os" "orders_le os os'" "order_inv os'"
  shows "refunds_backed pm os'"
  unfolding refunds_backed_def
proof (intro ballI impI)
  fix r
  assume "r \<in> set (pm_refunds pm)" "rf_kind r = KindOrder"
  then obtain od where od: "order_at os (rf_order r) = Some od" "0 < od_collected od" using assms(1) unfolding refunds_backed_def by blast
  from order_le_get [OF assms(2,3) od(1)] od(2) show "\<exists>od. order_at os' (rf_order r) = Some od \<and> 0 < od_collected od"
    by (auto simp: order_le_def)
qed

text \<open>Orders that move forward without a collection and keep the decisions in order.\<close>

definition quiet_orders :: "order_db \<Rightarrow> order_db \<Rightarrow> bool" where
  "quiet_orders s s' \<longleftrightarrow> orders_le s s' \<and> no_new_collection s s' \<and> (order_inv s \<and> decisions_ok s \<longrightarrow> order_inv s' \<and> decisions_ok s')"

lemma no_new_collection_trans: "no_new_collection s t \<Longrightarrow> no_new_collection t u \<Longrightarrow> no_new_collection s u"
  unfolding no_new_collection_def by metis

lemma quiet_trans: "quiet_orders s t \<Longrightarrow> quiet_orders t u \<Longrightarrow> quiet_orders s u"
  unfolding quiet_orders_def using orders_le_trans no_new_collection_trans by blast

lemma quiet_refl [simp]: "quiet_orders s s"
  by (simp add: quiet_orders_def orders_le_refl)

lemma quiet_same:
  assumes "order_inv s" "orders_same s s'" "decisions_ok s'"
  shows "quiet_orders s s'"
  using orders_same_inv [OF assms(2,1)] assms(3) by (simp add: quiet_orders_def)

lemma quiet_kept:
  assumes "order_inv s'" "orders_le s s'" "no_new_collection s s'" "decisions_kept s s'"
  shows "quiet_orders s s'"
  using decisions_ok_kept [OF _ assms(4,2,1)] assms by (auto simp: quiet_orders_def)

lemma quiet_platform:
  assumes "full_inv w" "quiet_orders (w_orders w) os"
  shows "full_inv (w\<lparr>w_orders := os\<rparr>) \<and> platform_le w (w\<lparr>w_orders := os\<rparr>)"
proof -
  have w: "platform_inv w" "outcome_inv w" using assms(1) by (simp_all add: full_inv_def)
  have os: "orders_le (w_orders w) os" "no_new_collection (w_orders w) os" "order_inv os" "decisions_ok os"
    using assms(2) w platform_invD(2) [OF w(1)] by (auto simp: quiet_orders_def outcome_inv_def)
  from orders_only [OF w(1) os(3,1,2)] refunds_backed_le [OF _ os(1,3)] os(4) w(2) show ?thesis
    by (simp add: full_inv_def outcome_inv_def)
qed

section \<open>Deciding\<close>

lemma locked_order_at:
  assumes "lockOrderForBooking b s = Some lo" "order_inv s"
  shows "\<exists>od. order_at s (lo_order lo) = Some od \<and> od_sourceType od = SourceBooking \<and> od_source od = b \<and> lo_status lo = od_status od \<and>
    lo_collected lo = od_collected od \<and> lo_refunded lo = od_refunded od \<and> 0 \<le> od_refunded od \<and> od_refunded od \<le> od_collected od"
proof -
  from assms(1) obtain od where od: "order_of_booking b s = Some od" "lo = \<lparr>lo_order = od_id od, lo_status = od_status od,
     lo_collected = od_collected od, lo_refunded = od_refunded od\<rparr>" by (auto simp: lockOrderForBooking_def)
  note at = order_of_booking_at [OF assms(2) od(1)]
  from order_invD(5) [OF assms(2) at(1)] have "0 \<le> od_refunded od" "od_refunded od \<le> od_collected od"
    by (auto simp: money_ok_def order_row_ok_def)
  with at od(2) show ?thesis by auto
qed

lemma collected_left_bounds: "0 \<le> collected_left lo n" "0 \<le> lo_refunded lo \<Longrightarrow> 0 < collected_left lo n \<Longrightarrow> 0 < lo_collected lo"
  by (auto simp: collected_left_def Let_def split: if_splits)

lemma evaluate_for_Inr:
  assumes "evaluate_for cause conf timely n terms = Inr ev" "0 \<le> n"
  shows "0 \<le> ev_retained ev \<and> ev_retained ev + ev_refund ev = n \<and> ev_refund ev \<le> n"
proof -
  let ?inp = "\<lparr>ei_cause = cause, ei_bookingWasConfirmed = conf, ei_timely = (if terms = None then None else timely),
     ei_collectedRemaining = n, ei_terms = map_option evaluation_terms_of terms,
     ei_legalCapState = (case terms of None \<Rightarrow> CapAbsent | Some t \<Rightarrow> dm_legalCapState t)\<rparr>"
  have "0 \<le> ei_collectedRemaining ?inp" using assms(2) by simp
  from evaluate_nonneg [OF this] obtain e where e: "evaluateBookingOutcome ?inp = Inr e" "0 \<le> ev_retained e"
    "ev_retained e + ev_refund e = n" by auto
  moreover have "e = ev" using assms(1) e(1) by (simp add: evaluate_for_def)
  ultimately show ?thesis by simp
qed

lemma cancellation_decision_backed:
  assumes "cancellation_decision ev b lo facts w = Inr d" "order_at (w_orders w) (lo_order lo) = Some od"
    "lo_collected lo = od_collected od" "0 \<le> lo_refunded lo" "refunds_backed (w_payments w) (w_orders w)"
  shows "de_booking d = b \<and> de_kind d = KindCancellation \<and> de_order d = lo_order lo \<and> (0 < de_refund d \<longrightarrow> 0 < od_collected od)"
proof -
  let ?k = "bookingCancellationRefundKey (show_nat b)" and ?terms = "termsFor ev (lo_order lo) (w_orders w)"
  obtain kr other where c: "orderRefundCommitments (lo_order lo) ?k (w_payments w) = (kr, other)" by force
  show ?thesis
  proof (cases kr)
    case None
    with assms(1) c have "evaluateCancellation b lo ?terms facts ?k other = Inr d" by (simp add: cancellation_decision_def)
    then obtain cause e where e: "evaluate_for cause (cf_wasConfirmed facts) (cf_timely facts) (collected_left lo other) ?terms = Inr e"
      and d: "d = cancellationRow b lo ?terms facts cause ?k (collected_left lo other) e (ev_retained e) (ev_refund e) (EvalBasis (ev_basis e))
        (if 0 < ev_refund e then ExecPending else Executed)"
      by (auto simp: evaluateCancellation_def Let_def bind_res_Inr)
    have "0 < ev_refund e \<Longrightarrow> 0 < lo_collected lo"
      using evaluate_for_Inr [OF e collected_left_bounds(1)] collected_left_bounds(2) [OF assms(4), of other] by simp
    with d assms(3) show ?thesis by (simp add: cancellationRow_def)
  next
    case (Some p)
    with commitments_committed(2) [OF c] obtain r where r: "r \<in> set (pm_refunds (w_payments w))" "order_refund (lo_order lo) r"
      by auto
    then obtain od' where "order_at (w_orders w) (lo_order lo) = Some od'" "0 < od_collected od'"
      using assms(5) by (auto simp: refunds_backed_def order_refund_def)
    moreover from assms(1) c Some have "adoptExistingRefund b lo ?terms facts ?k p = Inr d" by (simp add: cancellation_decision_def)
    ultimately show ?thesis using assms(2) by (auto simp: adoptExistingRefund_def bind_res_Inr cancellationRow_def)
  qed
qed

lemma recordDecision_quiet:
  assumes "recordDecision now d s = Inr (r, s')" "order_inv s" "decisions_ok s"
    "0 < de_refund d \<longrightarrow> (\<exists>od. order_at s (de_order d) = Some od \<and> 0 < od_collected od)"
  shows "quiet_orders s s'" "order_inv s'"
  using recordDecision_ok [OF assms(1,3,4)] quiet_same [OF assms(2)] orders_same_inv [OF _ assms(2)] by auto

lemma close_quiet:
  assumes "order_inv s"
  shows "quiet_orders s (close_uncollected now b lo s) \<and> order_inv (close_uncollected now b lo s)"
proof (cases "lo_status lo \<in> set NEVER_COLLECTED_STATUSES")
  case True
  let ?c = "cancel_order now (lo_order lo) (''booking_cancelled:'' @ show_nat b) s"
  have x: "?c = (fst ?c, snd ?c)" by simp
  show ?thesis
    using cancel_order_inv [OF x assms] cancel_order_le [OF x] cancel_no_collection [OF x] cancel_keeps [OF x] True
      quiet_kept [of "snd ?c" s] by (simp add: close_uncollected_def)
qed (use assms in \<open>simp add: close_uncollected_def\<close>)

lemma offer_quiet: "order_inv s \<Longrightarrow> decisions_ok s \<Longrightarrow> quiet_orders s (offer_remedy b lo cause s)"
  using offer_ok [of s "lo_order lo" b] quiet_same [of s] by (simp add: offer_remedy_def)

lemma settle_cancellation_quiet:
  assumes "settle_cancellation now b lo d s = Inr (r, s')" "order_inv s" "decisions_ok s"
    "0 < de_refund d \<longrightarrow> (\<exists>od. order_at s (de_order d) = Some od \<and> 0 < od_collected od)"
  shows "quiet_orders s s'"
proof -
  from assms(1) obtain s1 where r: "recordDecision now d s = Inr (r, s1)"
    and s': "s' = offer_remedy b lo (de_cause d) (close_uncollected now b lo s1)"
    by (auto simp: settle_cancellation_def bind_res_Inr)
  note q1 = recordDecision_quiet [OF r assms(2-4)]
  note q2 = close_quiet [OF q1(2), of now b lo]
  have "decisions_ok s1" using q1(1) assms(2,3) by (simp add: quiet_orders_def)
  with q2 q1(2) have "decisions_ok (close_uncollected now b lo s1)" by (simp add: quiet_orders_def)
  with q2 have "quiet_orders (close_uncollected now b lo s1) s'" unfolding s' by (intro offer_quiet) simp_all
  then show ?thesis by (rule quiet_trans [OF quiet_trans [OF q1(1) conjunct1 [OF q2]]])
qed

text \<open>What deciding a cancellation may do: nothing, or one evaluated and recorded decision.\<close>

definition fresh_cancellation :: "legal_evidence list \<Rightarrow> int \<Rightarrow> nat \<Rightarrow> platform \<Rightarrow> outcome_decision \<Rightarrow> platform \<Rightarrow> bool" where
  "fresh_cancellation ev now b w recorded w' \<longleftrightarrow> (\<exists>lo facts d os.
     lockOrderForBooking b (w_orders w) = Some lo \<and> liveDecision b KindCancellation (w_orders w) = None \<and>
     cancellationFacts b (map_option dm_cutoffHours (termsFor ev (lo_order lo) (w_orders w))) (w_bookings w) = Some facts \<and>
     cancellation_decision ev b lo facts w = Inr d \<and>
     settle_cancellation now b lo d (w_orders w) = Inr (recorded, os) \<and> w' = w\<lparr>w_orders := os\<rparr>)"

lemma decide_effect:
  assumes "decideCancellation ev now b w = Inr (r, w')"
  shows "w' = w \<and> (r = None \<or> r = liveDecision b KindCancellation (w_orders w)) \<or> (\<exists>d. r = Some d \<and> fresh_cancellation ev now b w d w')"
proof (cases "lockOrderForBooking b (w_orders w)")
  case (Some lo)
  show ?thesis
  proof (cases "liveDecision b KindCancellation (w_orders w)")
    case None
    show ?thesis
    proof (cases "cancellationFacts b (map_option dm_cutoffHours (termsFor ev (lo_order lo) (w_orders w))) (w_bookings w)")
      case (Some facts)
      with assms \<open>lockOrderForBooking b (w_orders w) = Some lo\<close> None
      obtain d rec os where "cancellation_decision ev b lo facts w = Inr d"
        "settle_cancellation now b lo d (w_orders w) = Inr (rec, os)" "r = Some rec" "w' = w\<lparr>w_orders := os\<rparr>"
        by (auto simp: decideCancellation_def bind_res_Inr)
      with \<open>lockOrderForBooking b (w_orders w) = Some lo\<close> None Some show ?thesis unfolding fresh_cancellation_def by blast
    qed (use assms Some None in \<open>simp add: decideCancellation_def\<close>)
  qed (use assms Some in \<open>simp add: decideCancellation_def\<close>)
qed (use assms in \<open>simp add: decideCancellation_def\<close>)

lemma fresh_cancellation_inv:
  assumes "fresh_cancellation ev now b w r w'" "full_inv w"
  shows "full_inv w' \<and> platform_le w w' \<and> w_bookings w' = w_bookings w \<and> w_payments w' = w_payments w"
proof -
  have w: "order_inv (w_orders w)" "decisions_ok (w_orders w)" "refunds_backed (w_payments w) (w_orders w)"
    using assms(2) platform_invD(2) by (simp_all add: full_inv_def outcome_inv_def)
  from assms(1) obtain lo facts d os where l: "lockOrderForBooking b (w_orders w) = Some lo"
    and d: "cancellation_decision ev b lo facts w = Inr d"
    and s: "settle_cancellation now b lo d (w_orders w) = Inr (r, os)" and w': "w' = w\<lparr>w_orders := os\<rparr>"
    unfolding fresh_cancellation_def by blast
  obtain od where od: "order_at (w_orders w) (lo_order lo) = Some od" "lo_collected lo = od_collected od" "0 \<le> lo_refunded lo"
    using locked_order_at [OF l w(1)] by auto
  from cancellation_decision_backed [OF d od w(3)] od(1)
  have "0 < de_refund d \<longrightarrow> (\<exists>od. order_at (w_orders w) (de_order d) = Some od \<and> 0 < od_collected od)" by simp
  from quiet_platform [OF assms(2) settle_cancellation_quiet [OF s w(1,2) this]] w' show ?thesis by simp
qed

lemma decide_cancellation_inv:
  assumes "decideCancellation ev now b w = Inr (r, w')" "full_inv w"
  shows "full_inv w' \<and> platform_le w w' \<and> w_bookings w' = w_bookings w \<and> w_payments w' = w_payments w"
  using decide_effect [OF assms(1)] fresh_cancellation_inv [OF _ assms(2)] assms(2) platform_le_refl by auto

end
