(* ===== verification/Platform_Steps.thy ===== *)
theory Platform_Steps
  imports Outcome_Steps
begin

text \<open>
  Every transaction of the platform keeps the whole invariant: the steps of the checkout, of payments and of orders
  leave the decisions and the orders of refunds alone; a no-show, an execution, a consequence and a remedy
  (\<open>booking-outcome.orchestrator.ts\<close>, \<open>customer-remedy-resolution.service.ts\<close>) change them as \<open>Outcome_Invariant\<close>
  allows.
\<close>

section \<open>What leaves decisions and refunds alone\<close>

definition refund_orders :: "payment_db \<Rightarrow> nat set" where
  "refund_orders pm = {i. (i, KindOrder) \<in> set (map (\<lambda>r. (rf_order r, rf_kind r)) (pm_refunds pm))}"

lemma refunds_backed_orders: "refunds_backed pm os \<longleftrightarrow> (\<forall>i \<in> refund_orders pm. \<exists>od. order_at os i = Some od \<and> 0 < od_collected od)"
  by (force simp: refunds_backed_def refund_orders_def)

lemma full_invD: "full_inv w \<Longrightarrow> platform_inv w" "full_inv w \<Longrightarrow> decisions_ok (w_orders w)"
  "full_inv w \<Longrightarrow> refunds_backed (w_payments w) (w_orders w)" "full_inv w \<Longrightarrow> order_inv (w_orders w)"
  "full_inv w \<Longrightarrow> booking_inv (w_bookings w)" "full_inv w \<Longrightarrow> payment_inv (w_payments w)"
  using platform_invD(1-3) by (simp_all add: full_inv_def outcome_inv_def)

lemma outcome_frame:
  assumes "full_inv w" "platform_inv w' \<and> platform_le w w'" "decisions_kept (w_orders w) (w_orders w')"
    "refund_orders (w_payments w') \<subseteq> refund_orders (w_payments w)"
  shows "full_inv w' \<and> platform_le w w'"
proof -
  have le: "orders_le (w_orders w) (w_orders w')" "order_inv (w_orders w')"
    using assms(2) platform_invD(2) by (auto simp: platform_le_def)
  have "refunds_backed (w_payments w) (w_orders w')" by (rule refunds_backed_le [OF full_invD(3) [OF assms(1)] le])
  with assms(4) have "refunds_backed (w_payments w') (w_orders w')" by (auto simp: refunds_backed_orders)
  with decisions_ok_kept [OF full_invD(2) [OF assms(1)] assms(3) le] assms(2) show ?thesis
    by (simp add: full_inv_def outcome_inv_def)
qed

lemma intent_refunds: "createIntentForOrder ps cfg ttl clk inp rd s = (r, s') \<Longrightarrow> refund_orders s' = refund_orders s"
  by (drule create_intent_effect) (auto simp: insert_intent_Inr refund_orders_def)

lemma initiate_refunds: "initiate ps clk i url d rd s = (r, s') \<Longrightarrow> refund_orders s' = refund_orders s"
  by (drule initiate_effect)
     (auto simp: refund_orders_def expire_intent_def start_attempt_def Let_def emit_payment_def split: if_splits)

lemma apply_refunds:
  "applyVerification now p s = Inr (v, s') \<Longrightarrow> payment_inv s \<Longrightarrow> refund_orders s' = refund_orders s"
  by (drule apply_effect, rule inv_keys, assumption) (auto simp: verifies_def refund_orders_def)

lemma settle_refunds:
  assumes "settle_refund now d i s = (r, s')" "payment_inv s"
  shows "refund_orders s' = refund_orders s"
proof -
  from assms(1) have "s' = s \<or> (\<exists>st ref code. completeRefund now i st ref code s = Inr s')"
    by (auto simp: settle_refund_def split: gateway_decision.splits sum.splits option.splits)
  moreover have "refund_orders t = refund_orders s" if c: "completeRefund now i st ref code s = Inr t" for st ref code t
  proof -
    have "map (\<lambda>r. (rf_order r, rf_kind r)) (tupd P (completed now st ref code) xs) = map (\<lambda>r. (rf_order r, rf_kind r)) xs" for P xs
      by (simp add: tupd_def completed_def)
    with completeRefund_effect [OF c inv_keys(3) [OF assms(2)]] show ?thesis by (auto simp: refund_orders_def simp del: map_map set_map)
  qed
  ultimately show ?thesis by auto
qed

text \<open>Only a refund for an order that has collected may be claimed.\<close>

lemma claim_refunds:
  assumes "claim_refund inp n it att s = (r, s')"
  shows "refund_orders s' \<subseteq> refund_orders s \<union> (if request_kind inp = KindOrder then {ri_order inp} else {})"
  using claim_effect [OF assms] by (auto simp: refund_orders_def new_refund_def)

section \<open>The steps of the checkout\<close>

lemma bookings_full:
  assumes "full_inv w" "side_step ports cfg (w_bookings w) bs"
  shows "full_inv (w\<lparr>w_bookings := bs\<rparr>) \<and> platform_le w (w\<lparr>w_bookings := bs\<rparr>)"
  by (rule outcome_frame [OF assms(1) bookings_only [OF full_invD(1) [OF assms(1)] assms(2)]]) simp_all

lemma commercial_full:
  assumes "full_inv w" "commercial_step (w_commercial w) cm"
  shows "full_inv (w\<lparr>w_commercial := cm\<rparr>) \<and> platform_le w (w\<lparr>w_commercial := cm\<rparr>)"
  by (rule outcome_frame [OF assms(1) commercial_only [OF full_invD(1) [OF assms(1)] assms(2)]]) simp_all

lemma payments_full:
  assumes "full_inv w" "payment_inv pm \<and> payment_le (w_payments w) pm" "refund_orders pm \<subseteq> refund_orders (w_payments w)"
  shows "full_inv (w\<lparr>w_payments := pm\<rparr>) \<and> platform_le w (w\<lparr>w_payments := pm\<rparr>)"
  by (rule outcome_frame [OF assms(1) payments_only [OF full_invD(1) [OF assms(1)]]]) (use assms in simp_all)

lemma open_full:
  assumes "open_booking env c inp w = Inr (r, w')" "full_inv w"
  shows "full_inv w' \<and> platform_le w w'"
proof -
  obtain b d where r: "r = (b, d)" by force
  from open_effect [OF assms(1) [unfolded r]] obtain bs os k p clk now i where
    o: "createForBooking k p clk now i (w_orders w) (w_orders w) = Inr (d, os)" "w' = w\<lparr>w_bookings := bs, w_orders := os\<rparr>" by blast
  show ?thesis
    by (rule outcome_frame [OF assms(2)]) (use open_inv [OF assms(1) full_invD(1) [OF assms(2)]] create_keeps [OF o(1)] o(2) in simp_all)
qed

lemma zero_full:
  assumes "zero_transaction c b i w = Inr (r, w')" "full_inv w" "order_at (w_orders w) i = Some od"
    "od_sourceType od = SourceBooking" "od_source od = b"
  shows "full_inv w' \<and> platform_le w w'"
  by (rule outcome_frame [OF assms(2) zero_transaction_inv [OF assms(1) full_invD(1) [OF assms(2)] assms(3-5)]])
     (use zero_transaction_effect [OF assms(1)] in \<open>auto dest: zero_keeps\<close>)

lemma callback_full:
  assumes "settle_callback c p w = Inr (st, w')" "prepareVerification ps clk k ref params rd = Inr p"
    "full_inv w" "payment_le rd (w_payments w)"
  shows "full_inv w' \<and> platform_le w w'"
proof -
  from settle_effect [OF assms(1)] obtain v pm e where v: "applyVerification (ck_js c) p (w_payments w) = Inr (v, pm)"
    and e: "callback_end c v pm w st w' e" by blast
  have "w_payments w' = pm \<and> decisions_kept (w_orders w) (w_orders w')"
    using e by (cases e) (auto dest: capture_keeps)
  then show ?thesis
    by (intro outcome_frame [OF assms(3) settle_callback_inv [OF assms(1,2) full_invD(1) [OF assms(3)] assms(4)]])
       (use apply_refunds [OF v full_invD(6) [OF assms(3)]] in simp_all)
qed

lemma orders_full:
  assumes "full_inv w" "order_inv os" "orders_le (w_orders w) os" "no_new_collection (w_orders w) os" "decisions_kept (w_orders w) os"
  shows "full_inv (w\<lparr>w_orders := os\<rparr>) \<and> platform_le w (w\<lparr>w_orders := os\<rparr>)"
  by (rule outcome_frame [OF assms(1) orders_only [OF full_invD(1) [OF assms(1)] assms(2-4)]]) (use assms(5) in simp_all)

lemma claim_full:
  assumes "refund_reads inp rd = Inr (RefundPlan n it att)" "claim_refund inp n it att (w_payments w) = (r, pm)" "full_inv w"
    "payment_le rd (w_payments w)"
    "request_kind inp = KindOrder \<longrightarrow> (\<exists>od. order_at (w_orders w) (ri_order inp) = Some od \<and> 0 < od_collected od)"
  shows "full_inv (w\<lparr>w_payments := pm\<rparr>) \<and> platform_le w (w\<lparr>w_payments := pm\<rparr>)"
proof -
  have pm: "payment_inv pm \<and> payment_le (w_payments w) pm" by (rule claim_inv [OF assms(1,2) full_invD(6) [OF assms(3)] assms(4)])
  have "refunds_backed pm (w_orders w)"
    using claim_refunds [OF assms(2)] full_invD(3) [OF assms(3)] assms(5) by (auto simp: refunds_backed_orders split: if_splits)
  with payments_only [OF full_invD(1) [OF assms(3)]] pm full_invD(2) [OF assms(3)] show ?thesis
    by (simp add: full_inv_def outcome_inv_def)
qed

section \<open>Executions and consequences\<close>

lemma quiet_full:
  assumes "full_inv w" "decisions_ok os" "orders_same (w_orders w) os"
  shows "full_inv (w\<lparr>w_orders := os\<rparr>) \<and> platform_le w (w\<lparr>w_orders := os\<rparr>)"
  by (rule quiet_platform [OF assms(1) quiet_same [OF full_invD(4) [OF assms(1)] assms(3,2)]])

lemma execution_full:
  assumes "full_inv w" "st \<noteq> ExecPending"
  shows "full_inv (w\<lparr>w_orders := snd (recordExecution i st (w_orders w))\<rparr>) \<and>
    platform_le w (w\<lparr>w_orders := snd (recordExecution i st (w_orders w))\<rparr>)"
  using recordExecution_ok [OF full_invD(2) [OF assms(1)] assms(2)] by (intro quiet_full [OF assms(1)]) simp_all

lemma consequence_full:
  assumes "recordConsequence now g facts (w_orders w) = Inr os" "full_inv w"
  shows "full_inv (w\<lparr>w_orders := os\<rparr>) \<and> platform_le w (w\<lparr>w_orders := os\<rparr>)"
proof -
  from assms(1) obtain gc ev r where "recordSupersedingDecision now (consequenceRow gc facts ev) (w_orders w) = Inr (r, os)"
    by (auto simp: recordConsequence_def bind_res_Inr split: if_splits)
  from superseding_ok [OF this full_invD(2) [OF assms(2)]] show ?thesis
    by (intro quiet_full [OF assms(2)]) (simp_all add: consequenceRow_def)
qed

section \<open>No-shows\<close>

text \<open>A window that is decided: the evaluation, the row and the mark on the declaration.\<close>

definition fresh_no_show :: "legal_evidence list \<Rightarrow> int \<Rightarrow> nat \<Rightarrow> platform \<Rightarrow> outcome_decision \<Rightarrow> platform \<Rightarrow> bool" where
  "fresh_no_show ev now b w recorded w' \<longleftrightarrow> (\<exists>declaration lo e os.
     declaration \<in> set (db_declarations (w_bookings w)) \<and> nd_booking declaration = b \<and> window_due now declaration \<and>
     lockOrderForBooking b (w_orders w) = Some lo \<and>
     (let terms = termsFor ev (lo_order lo) (w_orders w);
          collected = collected_left lo (snd (orderRefundCommitments (lo_order lo) (bookingNoShowRefundKey (show_nat b)) (w_payments w)))
      in evaluate_for NoShow True None collected terms = Inr e \<and>
         recordDecision now (noShowRow b lo terms declaration collected e) (w_orders w) = Inr (recorded, os)) \<and>
     w' = w\<lparr>w_orders := os, w_bookings := markNoShowEvaluated b (w_bookings w)\<rparr>)"

lemma decide_window_effect:
  assumes "decideNoShowWindowOnly ev now b w = Inr (r, w')"
  shows "w' = w \<and> (r = None \<or> r = liveDecision b KindNoShow (w_orders w)) \<or> (\<exists>d. r = Some d \<and> fresh_no_show ev now b w d w')"
proof (cases "find (\<lambda>d. nd_booking d = b) (db_declarations (w_bookings w))")
  case (Some dec)
  note dec = find_row [OF this]
  show ?thesis
  proof (cases "nd_evaluationState dec = Evaluated \<or> \<not> window_due now dec")
    case True
    with assms Some show ?thesis by (auto simp: decideNoShowWindowOnly_def split: if_splits)
  next
    case due: False
    show ?thesis
    proof (cases "lockOrderForBooking b (w_orders w)")
      case None
      with assms Some due show ?thesis by (simp add: decideNoShowWindowOnly_def)
    next
      case l: (Some lo)
      with assms Some due dec show ?thesis
        unfolding fresh_no_show_def decideNoShowWindowOnly_def
        by (fastforce simp: Let_def bind_res_Inr case_prod_beta)
    qed
  qed
qed (use assms in \<open>simp add: decideNoShowWindowOnly_def\<close>)

lemma mark_evaluated_frame [simp]:
  "booking_at (markNoShowEvaluated b s) = booking_at s" "booking_inv (markNoShowEvaluated b s) = booking_inv s"
  by (simp_all add: markNoShowEvaluated_def booking_at_def fun_eq_iff)

lemma mark_full: "full_inv w \<Longrightarrow> full_inv (w\<lparr>w_bookings := markNoShowEvaluated b (w_bookings w)\<rparr>) \<and>
    platform_le w (w\<lparr>w_bookings := markNoShowEvaluated b (w_bookings w)\<rparr>)"
  by (simp add: full_inv_def outcome_inv_def platform_inv_def bookings_settled_def collections_charged_def platform_le_def orders_le_refl)

lemma fresh_no_show_full:
  assumes "fresh_no_show ev now b w d w'" "full_inv w"
  shows "full_inv w' \<and> platform_le w w'"
proof -
  from assms(1) obtain dec lo e os terms n where l: "lockOrderForBooking b (w_orders w) = Some lo"
    and n: "n = collected_left lo (snd (orderRefundCommitments (lo_order lo) (bookingNoShowRefundKey (show_nat b)) (w_payments w)))"
    and e: "evaluate_for NoShow True None n terms = Inr e"
    and r: "recordDecision now (noShowRow b lo terms dec n e) (w_orders w) = Inr (d, os)"
    and w': "w' = w\<lparr>w_orders := os, w_bookings := markNoShowEvaluated b (w_bookings w)\<rparr>"
    unfolding fresh_no_show_def Let_def by blast
  obtain od where od: "order_at (w_orders w) (lo_order lo) = Some od" "lo_collected lo = od_collected od" "0 \<le> lo_refunded lo"
    using locked_order_at [OF l full_invD(4) [OF assms(2)]] by auto
  have "0 < ev_refund e \<Longrightarrow> 0 < lo_collected lo"
    using evaluate_for_Inr [OF e] collected_left_bounds [of lo] od(3) n by (metis leD linorder_not_less order_less_le_trans)
  with od have "0 < de_refund (noShowRow b lo terms dec n e) \<longrightarrow>
      (\<exists>od. order_at (w_orders w) (de_order (noShowRow b lo terms dec n e)) = Some od \<and> 0 < od_collected od)"
    by (simp add: noShowRow_def)
  from recordDecision_ok [OF r full_invD(2) [OF assms(2)] this]
  have os: "full_inv (w\<lparr>w_orders := os\<rparr>) \<and> platform_le w (w\<lparr>w_orders := os\<rparr>)" by (intro quiet_full [OF assms(2)]) simp_all
  from mark_full [of "w\<lparr>w_orders := os\<rparr>" b] os platform_le_trans w' show ?thesis by auto
qed

lemma decide_window_full:
  assumes "decideNoShowWindowOnly ev now b w = Inr (r, w')" "full_inv w"
  shows "full_inv w' \<and> platform_le w w'"
  using decide_window_effect [OF assms(1)] fresh_no_show_full [OF _ assms(2)] assms(2) by auto

section \<open>The customer's remedy\<close>

text \<open>A remedy that is taken: the decision has not been executed, the booking is moved and the choice is recorded.\<close>

definition remedy_taken :: "booking_ports \<Rightarrow> booking_config \<Rightarrow> clock \<Rightarrow> nat \<Rightarrow> nat \<Rightarrow> nat \<Rightarrow> platform \<Rightarrow> platform \<Rightarrow> bool" where
  "remedy_taken ports cfg c b cust slot w w' \<longleftrightarrow> (\<exists>i current d bk bs os ok.
     orderIdForBooking b (w_orders w) = Some i \<and> resolution i (w_orders w) = Some current \<and> rm_resolvedBy current = ResolvedByDefault \<and>
     liveDecision b KindCancellation (w_orders w) = Some d \<and> de_execution d \<in> set ESCAPABLE_EXECUTION_STATUSES \<and>
     reschedule ports cfg (db_bookings (w_bookings w)) c b slot \<lparr>ac_type = ActCustomer, ac_id = Some cust\<rparr> None
       \<lparr>ro_acceptConsequence = False, ro_remedyBypass = True\<rparr> (w_bookings w) = Inr (bk, bs) \<and>
     resolveReschedule i (w_orders w) = (ok, os) \<and> w' = w\<lparr>w_bookings := bs, w_orders := os\<rparr>)"

lemma resolve_effect:
  assumes "resolveRemedy ports cfg c b cust choice slot w = Inr (r, w')"
  shows "w' = w \<or> choice = ChoseReschedule \<and> (\<exists>sl. slot = Some sl \<and> remedy_taken ports cfg c b cust sl w w')"
proof (cases "orderIdForBooking b (w_orders w)")
  case (Some i)
  show ?thesis
  proof (cases "resolution i (w_orders w)")
    case cur: (Some current)
    show ?thesis
    proof (cases "rm_resolvedBy current = ResolvedByCustomer \<or> choice \<noteq> ChoseReschedule")
      case True
      with assms Some cur show ?thesis by (auto simp: resolveRemedy_def split: if_splits)
    next
      case go: False
      then have "rm_resolvedBy current = ResolvedByDefault" by (cases "rm_resolvedBy current") auto
      moreover obtain sl d where sl: "slot = Some sl" and d: "liveDecision b KindCancellation (w_orders w) = Some d"
        "de_execution d \<in> set ESCAPABLE_EXECUTION_STATUSES"
        using assms Some cur go by (auto simp: resolveRemedy_def split: option.splits if_splits)
      moreover obtain ok os where os: "resolveReschedule i (w_orders w) = (ok, os)" by force
      moreover from assms Some cur go sl d os obtain bk bs where
        "reschedule ports cfg (db_bookings (w_bookings w)) c b sl \<lparr>ac_type = ActCustomer, ac_id = Some cust\<rparr> None
          \<lparr>ro_acceptConsequence = False, ro_remedyBypass = True\<rparr> (w_bookings w) = Inr (bk, bs)" "w' = w\<lparr>w_bookings := bs, w_orders := os\<rparr>"
        by (auto simp: resolveRemedy_def bind_res_Inr Let_def split: if_splits)
      ultimately have "remedy_taken ports cfg c b cust sl w w'" using Some cur unfolding remedy_taken_def by blast
      with go sl show ?thesis by blast
    qed
  qed (use assms Some in \<open>simp add: resolveRemedy_def\<close>)
qed (use assms in \<open>simp add: resolveRemedy_def\<close>)

lemma collected_settled:
  assumes "order_inv s" "order_at s i = Some od" "0 < od_collected od" "od_sourceType od = SourceBooking"
  shows "settled_for (od_source od) s"
proof -
  obtain sc where "money_ok sc od" using order_invD(5) [OF assms(1,2)] by blast
  with assms(3) have "od_status od \<notin> {OrdPending, OrdCancelled}" by (auto simp: money_ok_def split: order_status.splits)
  from settled_forI [OF assms(1,2) this assms(4)] show ?thesis .
qed

text \<open>The booking a remedy revives has collected.\<close>

lemma escapable_settled:
  assumes "full_inv w" "liveDecision b k (w_orders w) = Some d" "de_execution d \<noteq> Executed"
  shows "settled_for b (w_orders w)"
proof -
  from liveDecision_in [OF assms(2)] full_invD(2) [OF assms(1)]
  have "decision_backed (w_orders w) d" "de_booking d = b" by (auto simp: decisions_ok_def live_decision_def)
  with assms(3) obtain od where "order_at (w_orders w) (de_order d) = Some od" "od_sourceType od = SourceBooking" "od_source od = b"
    "0 < od_collected od" unfolding decision_backed_def by blast
  with collected_settled [OF full_invD(4) [OF assms(1)]] show ?thesis by blast
qed

lemma remedy_full:
  assumes "remedy_taken ports cfg c b cust slot w w'" "full_inv w"
  shows "full_inv w' \<and> platform_le w w'"
proof -
  let ?o = "\<lparr>ro_acceptConsequence = False, ro_remedyBypass = True\<rparr>" and ?a = "\<lparr>ac_type = ActCustomer, ac_id = Some cust\<rparr>"
  from assms(1) obtain i d bk bs os ok where d: "liveDecision b KindCancellation (w_orders w) = Some d"
      "de_execution d \<in> set ESCAPABLE_EXECUTION_STATUSES"
    and rs: "reschedule ports cfg (db_bookings (w_bookings w)) c b slot ?a None ?o (w_bookings w) = Inr (bk, bs)"
    and ch: "resolveReschedule i (w_orders w) = (ok, os)" and w': "w' = w\<lparr>w_bookings := bs, w_orders := os\<rparr>"
    unfolding remedy_taken_def by blast
  have "os = snd (resolveReschedule i (w_orders w))" using ch by simp
  with choose_ok [OF full_invD(2) [OF assms(2)]] have os: "decisions_ok os" "orders_same (w_orders w) os" by simp_all
  note w1 = quiet_full [OF assms(2) os]
  let ?w1 = "w\<lparr>w_orders := os\<rparr>"
  have "settled_for b (w_orders w)" using escapable_settled [OF assms(2) d(1)] d(2) by (auto simp: ESCAPABLE_EXECUTION_STATUSES_def)
  then have s: "settled_for b os" using settled_le w1 by (auto simp: platform_le_def)
  obtain x y where "booking_at bs = (booking_at (w_bookings w))(b \<mapsto> x) \<or> booking_at bs = booking_at (w_bookings w)"
    using reschedule_effect [OF full_invD(5) [OF assms(2)] rs seen_now(1)] by blast
  then have "settled_for j os" if "booking_at bs j = Some z" "paid_status (bk_status z)" for j z
    using that s platform_invD(5) [of ?w1] w1 by (cases "j = b") (auto simp: full_inv_def)
  then have "bookings_settled w'" by (simp add: bookings_settled_def w')
  moreover have "booking_inv bs" by (rule reschedule_inv [OF full_invD(5) [OF assms(2)] rs seen_now(1)])
  ultimately show ?thesis using w1 by (simp add: full_inv_def outcome_inv_def platform_inv_def platform_le_def collections_charged_def w')
qed

end
