(* ===== verification/Platform_History.thy ===== *)
theory Platform_History
  imports Platform_Steps
begin

text \<open>
  Every history of the platform keeps the invariant. The newest state stands first; an operation that reads before
  it writes may have read any earlier state. A cancellation and the credit it returns are two steps here, and so
  are a reschedule and its consequence, the phases of a refund, and a decision and its execution: every history of
  the code is a history of these steps. The governance the booking service is given may be any, and so may the
  catalogue, the policies and the gateways at every step; only the booking configuration of \<open>env\<close> is fixed.
\<close>

section \<open>Histories\<close>

definition empty_platform :: platform where
  "empty_platform = \<lparr>w_bookings = empty_db, w_orders = empty_orders, w_payments = empty_payments, w_commercial = empty_commercial\<rparr>"

text \<open>The only callers of \<open>payments.refund\<close>: a callback that charged twice or could not confirm, and the execution of
  a decision.\<close>

inductive refund_request :: "platform list \<Rightarrow> refund_input \<Rightarrow> bool" for h where
  rq_callback: "w \<in> set h \<Longrightarrow> w1 \<in> set h \<Longrightarrow> settle_callback c p w = Inr (st, w1) \<Longrightarrow> rinp \<in> set (callback_refunds st) \<Longrightarrow>
    refund_request h rinp"
| rq_decision: "w \<in> set h \<Longrightarrow> d \<in> set (om_decisions (w_orders w)) \<Longrightarrow> 0 < de_refund d \<Longrightarrow> refund_request h (decision_refund d key reason)"

inductive platform_history :: "checkout_env \<Rightarrow> platform list \<Rightarrow> bool" for env where
  ph_start: "platform_history env [empty_platform]"
| ph_open: "platform_history env h \<Longrightarrow> open_booking env' c inp (hd h) = Inr (r, w') \<Longrightarrow> ce_config env' = ce_config env \<Longrightarrow>
    platform_history env (w' # h)"
| ph_zero: "platform_history env h \<Longrightarrow> w0 \<in> set h \<Longrightarrow> w1 \<in> set h \<Longrightarrow> open_booking env' c0 inp w0 = Inr ((b, d), w1) \<Longrightarrow>
    zero_transaction c b (od_id (dt_order d)) (hd h) = Inr (z, w') \<Longrightarrow> platform_history env (w' # h)"
| ph_intent: "platform_history env h \<Longrightarrow> rd \<in> set h \<Longrightarrow> createIntentForOrder ps cfg ttl clk cinp (w_payments rd) (w_payments (hd h)) = (ri, pm) \<Longrightarrow>
    platform_history env ((hd h)\<lparr>w_payments := pm\<rparr> # h)"
| ph_initiate: "platform_history env h \<Longrightarrow> rd \<in> set h \<Longrightarrow> initiate ps clk i url descr (w_payments rd) (w_payments (hd h)) = (ra, pm) \<Longrightarrow>
    platform_history env ((hd h)\<lparr>w_payments := pm\<rparr> # h)"
| ph_callback: "platform_history env h \<Longrightarrow> rd \<in> set h \<Longrightarrow> prepareVerification ps clk k ref params (w_payments rd) = Inr p \<Longrightarrow>
    settle_callback c p (hd h) = Inr (st, w') \<Longrightarrow> platform_history env (w' # h)"
| ph_claim: "platform_history env h \<Longrightarrow> refund_request h rinp \<Longrightarrow> rd \<in> set h \<Longrightarrow> refund_reads rinp (w_payments rd) = Inr (RefundPlan n it att) \<Longrightarrow>
    claim_refund rinp n it att (w_payments (hd h)) = (rc, pm) \<Longrightarrow> platform_history env ((hd h)\<lparr>w_payments := pm\<rparr> # h)"
| ph_settle: "platform_history env h \<Longrightarrow> d = ask_gateway ps rinp n it att \<Longrightarrow> settle_refund now d i (w_payments (hd h)) = (rr, pm) \<Longrightarrow>
    platform_history env ((hd h)\<lparr>w_payments := pm\<rparr> # h)"
| ph_booking: "platform_history env h \<Longrightarrow> side_step ports (ce_config env) (w_bookings (hd h)) bs \<Longrightarrow>
    platform_history env ((hd h)\<lparr>w_bookings := bs\<rparr> # h)"
| ph_cancel_order: "platform_history env h \<Longrightarrow> cancel_order now i reason (w_orders (hd h)) = (dn, os) \<Longrightarrow>
    platform_history env ((hd h)\<lparr>w_orders := os\<rparr> # h)"
| ph_refund_order: "platform_history env h \<Longrightarrow> recordRefund i v rid (w_orders (hd h)) = Inr (dn, os) \<Longrightarrow>
    platform_history env ((hd h)\<lparr>w_orders := os\<rparr> # h)"
| ph_commercial: "platform_history env h \<Longrightarrow> commercial_step (w_commercial (hd h)) cm \<Longrightarrow>
    platform_history env ((hd h)\<lparr>w_commercial := cm\<rparr> # h)"
| ph_decide: "platform_history env h \<Longrightarrow> decideCancellation ev now b (hd h) = Inr (rd', w') \<Longrightarrow> platform_history env (w' # h)"
| ph_no_show: "platform_history env h \<Longrightarrow> decideNoShowWindowOnly ev now b (hd h) = Inr (rd', w') \<Longrightarrow> platform_history env (w' # h)"
| ph_execution: "platform_history env h \<Longrightarrow> st \<noteq> ExecPending \<Longrightarrow> recordExecution i st (w_orders (hd h)) = (dn, os) \<Longrightarrow>
    platform_history env ((hd h)\<lparr>w_orders := os\<rparr> # h)"
| ph_consequence: "platform_history env h \<Longrightarrow> recordConsequence now g facts (w_orders (hd h)) = Inr os \<Longrightarrow>
    platform_history env ((hd h)\<lparr>w_orders := os\<rparr> # h)"
| ph_remedy: "platform_history env h \<Longrightarrow> resolveRemedy ports (ce_config env) c b cust choice slot (hd h) = Inr (rm, w') \<Longrightarrow>
    platform_history env (w' # h)"

definition platform_history_ok :: "platform list \<Rightarrow> bool" where
  "platform_history_ok h \<longleftrightarrow> h \<noteq> [] \<and> full_inv (hd h) \<and> (\<forall>w \<in> set h. full_inv w \<and> platform_le w (hd h))"

lemma history_okD:
  assumes "platform_history_ok h"
  shows "full_inv (hd h)" "\<And>w. w \<in> set h \<Longrightarrow> full_inv w" "\<And>w. w \<in> set h \<Longrightarrow> platform_le w (hd h)"
    "\<And>w. w \<in> set h \<Longrightarrow> payment_le (w_payments w) (w_payments (hd h))" "\<And>w. w \<in> set h \<Longrightarrow> orders_le (w_orders w) (w_orders (hd h))"
  using assms by (auto simp: platform_history_ok_def platform_le_def)

lemma platform_history_next:
  assumes "platform_history_ok h" "full_inv (hd h) \<Longrightarrow> full_inv w' \<and> platform_le (hd h) w'"
  shows "platform_history_ok (w' # h)"
  using assms platform_le_trans unfolding platform_history_ok_def by auto

lemma empty_platform_inv: "full_inv empty_platform"
proof -
  have "booking_at empty_db i = None" "order_at empty_orders i = None" for i
    by (simp_all add: booking_at_def order_at_def empty_db_def empty_orders_def)
  then have "platform_inv empty_platform"
    by (simp add: platform_inv_def empty_platform_def empty_inv empty_orders_inv empty_payments_inv empty_commercial_inv
        bookings_settled_def collections_charged_def)
  then show ?thesis
    by (simp add: full_inv_def outcome_inv_def empty_platform_def decisions_ok_def refunds_backed_def live_keys_def
        empty_orders_def empty_payments_def)
qed

text \<open>A requested refund of an order is of an order that has collected.\<close>

lemma collected_later:
  assumes "platform_history_ok h" "w \<in> set h" "order_at (w_orders w) i = Some od" "0 < od_collected od"
  shows "\<exists>od'. order_at (w_orders (hd h)) i = Some od' \<and> 0 < od_collected od'"
  using order_le_get [OF history_okD(5) [OF assms(1,2)] full_invD(4) [OF history_okD(1) [OF assms(1)]] assms(3)] assms(4)
  by (auto simp: order_le_def)

lemma request_collected:
  assumes "refund_request h rinp" "platform_history_ok h" "request_kind rinp = KindOrder"
  shows "\<exists>od. order_at (w_orders (hd h)) (ri_order rinp) = Some od \<and> 0 < od_collected od"
  using assms(1)
proof cases
  case (rq_callback w w1 c p st)
  from settle_effect [OF rq_callback(3)] obtain v pm e where e: "callback_end c v pm w st w1 e" by blast
  have cap: "\<exists>od. order_at os k = Some od \<and> 0 < od_collected od"
    if "recordVerifiedCapture now k (fin_int m) (w_orders w) = Inr (Captured s n, os)" for now k m s n os
    using capture_writes [OF that full_invD(4) [OF history_okD(2) [OF assms(2) rq_callback(1)]] refl] by (auto simp: capture_row_def)
  have dup: "request_kind (duplicate_refund x) \<noteq> KindOrder" "ri_order (unavailable_refund st) = vo_order (cs_outcome st)" for x
    by (simp_all add: request_kind_def duplicate_refund_def unavailable_refund_def)
  have "ri_order rinp = vo_order v \<and> (\<exists>od. order_at (w_orders w1) (vo_order v) = Some od \<and> 0 < od_collected od)"
    using e rq_callback(4) assms(3) dup by (cases e) (auto simp: callback_refunds_def settled_def dest: cap split: if_splits)
  with collected_later [OF assms(2) rq_callback(2)] show ?thesis by auto
next
  case (rq_decision w d key reason)
  have "decision_backed (w_orders w) d"
    using full_invD(2) [OF history_okD(2) [OF assms(2) rq_decision(2)]] rq_decision(3) by (simp add: decisions_ok_def)
  with rq_decision obtain od where "order_at (w_orders w) (ri_order rinp) = Some od" "0 < od_collected od"
    by (auto simp: decision_backed_def decision_refund_def)
  then show ?thesis by (rule collected_later [OF assms(2) rq_decision(2)])
qed

lemma platform_history_inv: "platform_history env h \<Longrightarrow> platform_history_ok h"
proof (induction rule: platform_history.induct)
  case ph_start
  show ?case by (simp add: platform_history_ok_def empty_platform_inv)
next
  case (ph_open h env' c inp r w')
  from ph_open(4) show ?case by (rule platform_history_next) (rule open_full [OF ph_open(2)])
next
  case (ph_zero h w0 w1 env' c0 inp b d c z w')
  note ok = history_okD [OF ph_zero(6)]
  from open_inv [OF ph_zero(4) full_invD(1) [OF ok(2) [OF ph_zero(2)]]] obtain od where od: "order_at (w_orders w1) (od_id (dt_order d)) = Some od"
    "od_sourceType od = SourceBooking" "od_source od = b" by auto
  from order_le_get [OF ok(5) [OF ph_zero(3)] full_invD(4) [OF ok(1)] od(1)] od(2,3)
  obtain od' where "order_at (w_orders (hd h)) (od_id (dt_order d)) = Some od'" "od_sourceType od' = SourceBooking" "od_source od' = b"
    by (auto simp: order_le_def)
  with ph_zero(6) show ?case by (intro platform_history_next) (use zero_full [OF ph_zero(5)] in blast)+
next
  case (ph_intent h rd ps cfg ttl clk cinp ri pm)
  from ph_intent(4) show ?case
    by (rule platform_history_next, intro payments_full)
       (use create_intent_inv [OF ph_intent(3)] intent_refunds [OF ph_intent(3)] full_invD(6) in auto)
next
  case (ph_initiate h rd ps clk i url descr ra pm)
  from ph_initiate(4) show ?case
    by (rule platform_history_next, intro payments_full)
       (use initiate_inv [OF ph_initiate(3)] initiate_refunds [OF ph_initiate(3)] full_invD(6) history_okD(4) [OF ph_initiate(4,2)] in auto)
next
  case (ph_callback h rd ps clk k ref params p c st w')
  from ph_callback(5) show ?case
    by (rule platform_history_next) (use callback_full [OF ph_callback(4,3)] history_okD(4) [OF ph_callback(5,2)] in blast)
next
  case (ph_claim h rinp rd n it att rc pm)
  from ph_claim(6) show ?case
    by (rule platform_history_next)
       (use claim_full [OF ph_claim(4,5)] history_okD(4) [OF ph_claim(6,3)] request_collected [OF ph_claim(2,6)] in blast)
next
  case (ph_settle h d ps rinp n it att now i rr pm)
  from ph_settle(4) show ?case
    by (rule platform_history_next, intro payments_full)
       (use settle_inv [OF ph_settle(3)] settle_refunds [OF ph_settle(3)] full_invD(6) in auto)
next
  case (ph_booking h ports bs)
  from ph_booking(3) show ?case by (rule platform_history_next) (rule bookings_full [OF _ ph_booking(2)])
next
  case (ph_cancel_order h now i reason dn os)
  note c = ph_cancel_order(2)
  from ph_cancel_order(3) show ?case
    by (rule platform_history_next, intro orders_full)
       (use cancel_order_inv [OF c] cancel_order_le [OF c] cancel_no_collection [OF c] cancel_keeps [OF c] full_invD(4) in blast)+
next
  case (ph_refund_order h i v rid dn os)
  note r = ph_refund_order(2)
  from ph_refund_order(3) show ?case
    by (rule platform_history_next, intro orders_full)
       (use refund_inv [OF r] refund_order_le [OF r] refund_no_collection [OF r] refund_keeps [OF r] full_invD(4) in blast)+
next
  case (ph_commercial h cm)
  from ph_commercial(3) show ?case by (rule platform_history_next) (rule commercial_full [OF _ ph_commercial(2)])
next
  case (ph_decide h ev now b rd' w')
  from ph_decide(3) show ?case by (rule platform_history_next) (use decide_cancellation_inv [OF ph_decide(2)] in blast)
next
  case (ph_no_show h ev now b rd' w')
  from ph_no_show(3) show ?case by (rule platform_history_next) (rule decide_window_full [OF ph_no_show(2)])
next
  case (ph_execution h st i dn os)
  then have "os = snd (recordExecution i st (w_orders (hd h)))" by simp
  with ph_execution(2,4) show ?case by (intro platform_history_next) (use execution_full in simp_all)
next
  case (ph_consequence h now g facts os)
  from ph_consequence(3) show ?case by (rule platform_history_next) (rule consequence_full [OF ph_consequence(2)])
next
  case (ph_remedy h ports c b cust choice slot rm w')
  from ph_remedy(3) show ?case
    by (rule platform_history_next) (use resolve_effect [OF ph_remedy(2)] remedy_full in auto)
qed

lemma history_platform_inv: "platform_history env h \<Longrightarrow> w \<in> set h \<Longrightarrow> platform_inv w"
  using platform_history_inv history_okD(2) full_invD(1) by blast

end
