(* ===== verification/Checkout_Demo.thy ===== *)
theory Checkout_Demo
  imports Platform_History Booking_Demo Payment_Demo Credit_Demo
begin

text \<open>
  One booking through the whole platform, run by the operations from the empty state: a professional with two
  credits opens a slot, a customer books and pays 50,000 Toman, and the gateway confirms; and the same run in which
  the customer cancels before the gateway's callback arrives.
\<close>

section \<open>The shop\<close>

definition shop_offering :: offering where
  "shop_offering = \<lparr>of_id = 1, of_professional = 5, of_name = ''haircut'', of_price = Fin 50000, of_sellerType = ProfessionalParty,
     of_sellerId = 5\<rparr>"

definition shop_ports :: order_ports where
  "shop_ports = \<lparr>op_offering = \<lambda>_. Some shop_offering, op_collection = \<lambda>_. Some LegacyCollection,
     op_outcome = \<lambda>_. Some OutcomeLegacy, op_commission = Some [], op_rules = []\<rparr>"

definition shop_env :: checkout_env where
  "shop_env = \<lparr>ce_bookings = demo_ports, ce_config = demo_cfg, ce_orders = shop_ports, ce_known = \<lambda>_. True,
     ce_providers = [demo_gateway ''A''], ce_default = None, ce_ttl = Fin 1\<rparr>"

definition shop_request :: checkout_input where
  "shop_request = \<lparr>xi_booking = (demo_input 7 0)\<lparr>in_service := Some 1\<rparr>, xi_callbackBaseUrl = ''cb'', xi_accepted = None\<rparr>"

section \<open>The order\<close>

definition shop_order :: order where
  "shop_order = \<lparr>od_id = 0, od_sourceType = SourceBooking, od_source = 2, od_customer = 7, od_seller = (ProfessionalParty, 5), od_status = OrdPending,
     od_subtotal = 50000, od_discountTotal = 0, od_feeTotal = 0, od_total = 50000, od_refunded = 0, od_collected = 0, od_paidAt = None, od_cancelledAt = None\<rparr>"

definition shop_schedule :: payment_schedule where
  "shop_schedule = \<lparr>sc_order = 0, sc_mode = FullPaymentOnline, sc_serviceTotal = 50000, sc_collectible = 50000, sc_venueBalance = 0,
     sc_policyKey = None, sc_policyVersion = None, sc_acceptedAt = None, sc_contractVersion = 1\<rparr>"

definition shop_item :: order_item where
  "shop_item = \<lparr>oi_order = 0, oi_reference = 1, oi_name = ''haircut'', oi_quantity = 1, oi_unitPrice = 50000, oi_lineTotal = 50000\<rparr>"

definition shop_placed :: order_db where
  "shop_placed = empty_orders\<lparr>om_orders := [shop_order], om_items := [shop_item], om_schedules := [shop_schedule],
     om_outbox := [OrderCreated 0 2 7 50000], om_next := 1\<rparr>"

definition shop_detail :: order_detail where
  "shop_detail = \<lparr>dt_order = shop_order, dt_items = [shop_item], dt_adjustments = [], dt_schedule = shop_schedule\<rparr>"

lemma shop_quote:
  assumes "px_lines ctx = [\<lparr>pl_reference = 1, pl_name = ''haircut'', pl_quantity = Fin 1, pl_unitPrice = Fin 50000\<rparr>]"
  shows "quote [] ctx = Inr \<lparr>pq_subtotal = 50000, pq_adjustments = [], pq_discountTotal = 0, pq_feeTotal = 0, pq_total = 50000\<rparr>"
proof -
  have v: "valid_amount 50000" "valid_amount 0" by (simp_all add: valid_amount_def money_bounds)
  have "computeSubtotal ctx = computeSubtotal (demo_context 50000)"
    using assms by (simp add: computeSubtotal_def demo_context_def demo_line_def line_total_def)
  then have "computeSubtotal ctx = Inr 50000" using demo_subtotal [of 50000] by (simp add: money_bounds)
  moreover have "sumAmounts [] = Inr 0" using v(2) by (simp add: sumAmounts_Inr)
  moreover have "fl (50000 :: rat) = 50000" using fl_int [of 50000] by simp
  ultimately show ?thesis using demo_arith(2) by (simp add: quote_def)
qed

lemma shop_places:
  "createForBooking known shop_ports clk now \<lparr>bo_booking = 2, bo_customer = 7, bo_professional = 5, bo_service = Some 1, bo_accepted = None\<rparr>
     empty_orders empty_orders = Inr (shop_detail, shop_placed)"
proof -
  have q: "quoteBooking known shop_ports clk 7 5 (Some v) (Some 2) = Inr \<lparr>bq_offering = shop_offering, bq_seller = (ProfessionalParty, 5),
      bq_collection = LegacyCollection, bq_outcome = OutcomeLegacy,
      bq_priced = \<lparr>pq_subtotal = 50000, pq_adjustments = [], pq_discountTotal = 0, pq_feeTotal = 0, pq_total = 50000\<rparr>\<rparr>" for v
    by (simp add: quoteBooking_def shop_ports_def shop_offering_def resolveCollection_def resolveOutcome_def shop_quote)
  have comm: "op_commission shop_ports = Some []" by (simp add: shop_ports_def)
  have "createForBookingWithin known shop_ports clk now \<lparr>bo_booking = 2, bo_customer = 7, bo_professional = 5, bo_service = Some 1, bo_accepted = None\<rparr>
      empty_orders = Inr (shop_detail, shop_placed)"
    by (simp add: createForBookingWithin_def q scheduleValuesFor_def outcomeForCollection_def requireAcceptance_def insert_order_def
        order_row_ok_def insert_item_def item_row_ok_def insert_adjustments_def write_schedule_def insert_schedule_def schedule_row_ok_def
        insertCommissionTerms_def emitOrderEvent_def loadDetail_def order_at_def schedule_at_def tget_def Let_def demo_arith
        shop_offering_def empty_orders_def shop_placed_def shop_detail_def shop_order_def shop_item_def shop_schedule_def comm)
  then show ?thesis by (simp add: createForBooking_def findBySource_def empty_orders_def)
qed

section \<open>The booking\<close>

definition shop_booking :: booking where
  "shop_booking = new_booking 2 (xi_booking shop_request) (demo_slot 0) 900000"

definition shop_booked :: booking_db where
  "shop_booked = demo_open\<lparr>db_slots := [held_slot 0 2, demo_slot 1], db_bookings := [shop_booking],
     db_history := [created_history 2 7 0], db_outbox := [BookingCreated 2 5 7 (Some 1) 0 360000000], db_next := 3\<rparr>"

lemma shop_books: "create demo_ports demo_cfg (at_time 0) (xi_booking shop_request) demo_open demo_open = Inr (shop_booking, shop_booked)"
  by (simp add: booking_eval demo_records shop_booking_def shop_booked_def shop_request_def)

section \<open>The platform, step by step\<close>

definition shop_open :: platform where
  "shop_open = \<lparr>w_bookings = demo_open, w_orders = empty_orders, w_payments = empty_payments, w_commercial = cm_welcome\<rparr>"

definition shop_ordered :: platform where
  "shop_ordered = shop_open\<lparr>w_bookings := shop_booked, w_orders := shop_placed\<rparr>"

lemma shop_checkout_opens: "open_booking shop_env (at_time 0) shop_request shop_open = Inr ((2, shop_detail), shop_ordered)"
proof -
  have b: "bk_id shop_booking = 2" "bk_customer shop_booking = 7" "bk_professional shop_booking = 5" "bk_service shop_booking = Some 1"
    by (simp_all add: shop_booking_def new_booking_def shop_request_def demo_input_def)
  show ?thesis by (simp add: open_booking_def shop_env_def shop_open_def shop_books shop_places b shop_ordered_def)
      (simp add: shop_request_def shop_places [simplified])
qed

definition shop_intent :: "intent_status \<Rightarrow> int option \<Rightarrow> payment_intent" where
  "shop_intent st paid = (demo_intent st paid)\<lparr>pi_order := 0, pi_customer := 7\<rparr>"

definition shop_pay_created :: payment_db where
  "shop_pay_created = \<lparr>pm_intents = [shop_intent IntCreated None], pm_attempts = [], pm_refunds = [], pm_outbox = [], pm_next = 1\<rparr>"

definition shop_pay_open :: payment_db where
  "shop_pay_open = \<lparr>pm_intents = [shop_intent IntPending None], pm_attempts = [demo_attempt 1 ''A''], pm_refunds = [],
     pm_outbox = [PaymentInitiated 0 1 0 ''bank'' 50000], pm_next = 2\<rparr>"

definition shop_pay_paid :: payment_db where
  "shop_pay_paid = \<lparr>pm_intents = [shop_intent IntSucceeded (Some 2)], pm_attempts = [demo_settled 1 ''A'' 2], pm_refunds = [],
     pm_outbox = [PaymentInitiated 0 1 0 ''bank'' 50000, PaymentSucceeded 0 1 0 7 50000 (Some ''T'')], pm_next = 2\<rparr>"

definition shop_prepared :: prepared_verification where
  "shop_prepared = \<lparr>pp_attempt = demo_attempt 1 ''A'', pp_intent = shop_intent IntPending None, pp_result = Some demo_paid, pp_alreadyProcessed = False\<rparr>"

lemma shop_intent_created:
  "createIntentForOrder [demo_gateway ''A''] None (Fin 1) 0 \<lparr>ci_order = 0, ci_customer = 7, ci_amount = Fin 50000, ci_provider = None\<rparr>
     empty_payments empty_payments = (Inr (shop_intent IntCreated None), shop_pay_created)"
  by (simp add: createIntentForOrder_def empty_payments_def pay_eval shop_intent_def shop_pay_created_def)

lemma shop_intent_opened:
  "\<exists>ir. initiate [demo_gateway ''A''] 1 0 ''cb'' ''d'' shop_pay_created shop_pay_created = (Inr ir, shop_pay_open)"
  by (simp add: initiate_def shop_pay_created_def shop_pay_open_def pay_eval shop_intent_def)

lemma shop_prepares: "prepareVerification [demo_gateway ''A''] 2 ''bank'' ''A'' [] shop_pay_open = Inr shop_prepared"
  by (simp add: prepareVerification_def shop_pay_open_def shop_prepared_def shop_intent_def pay_eval resolve_answer_def)

lemma shop_verifies:
  "\<exists>v. applyVerification 2 shop_prepared shop_pay_open = Inr (v, shop_pay_paid) \<and> vo_status v = VerSucceeded \<and> vo_order v = 0 \<and> vo_amount v = 50000"
  by (simp add: applyVerification_def shop_prepared_def shop_pay_open_def shop_pay_paid_def pay_eval shop_intent_def charge_confirmed_def
      verification_failure_def fitToColumn_def fin_int_def verified_column_def settle_attempt_def sanitizeProviderResponse_def
      settle_intent_def verification_event_def outcome_of_def)

lemma shop_starts: "\<exists>x w'. checkout shop_env (at_time 0) shop_request shop_open = (Inr x, w')"
proof -
  have "\<exists>ir pm. initiate [demo_gateway ''A''] 0 0 ''cb'' ds shop_pay_created shop_pay_created = (Inr ir, pm)" for ds
    by (simp add: initiate_def shop_pay_created_def pay_eval shop_intent_def)
  then obtain ir pm where i: "initiate [demo_gateway ''A''] 0 0 ''cb'' (''booking order '' @ show_nat 0) shop_pay_created shop_pay_created = (Inr ir, pm)"
    by blast
  have d: "od_id (dt_order shop_detail) = 0" "od_customer (dt_order shop_detail) = 7" "sc_collectible (dt_schedule shop_detail) = 50000"
    "pi_id (shop_intent IntCreated None) = 0" "fin_int 50000 = Fin 50000"
    by (simp_all add: shop_detail_def shop_order_def shop_schedule_def shop_intent_def demo_intent_def fin_int_def)
  have e: "ce_providers shop_env = [demo_gateway ''A'']" "ce_default shop_env = None" "ce_ttl shop_env = Fin 1" "ck_js (at_time 0) = 0"
    "xi_callbackBaseUrl shop_request = ''cb''" "w_payments shop_ordered = empty_payments"
    by (simp_all add: shop_env_def at_time_def shop_request_def shop_ordered_def shop_open_def)
  show ?thesis
    by (simp add: checkout_def shop_checkout_opens start_payment_def d e shop_intent_created i [simplified])
qed

section \<open>The callback\<close>

definition shop_pending :: platform where
  "shop_pending = shop_ordered\<lparr>w_payments := shop_pay_open\<rparr>"

definition shop_captured :: order_db where
  "shop_captured = shop_placed\<lparr>om_orders := [capture_row 2 50000 shop_order], om_outbox := om_outbox shop_placed @ [OrderPaid 0 50000]\<rparr>"

lemma shop_captures: "recordVerifiedCapture 2 0 (fin_int 50000) shop_placed = Inr (Captured OrdPaid 50000, shop_captured)"
  by (simp add: recordVerifiedCapture_def fin_int_def demo_arith shop_placed_def empty_orders_def capturable_def schedule_at_def order_at_def
      tget_def taffected_def tupd_def shop_order_def shop_schedule_def capture_row_def emitOrderEvent_def shop_captured_def Let_def)

definition shop_charged :: commercial_db where
  "shop_charged = snd (answer (onBookingConfirmation (at_time 2) 2 shop_captured cm_welcome))"

definition spends :: "confirmation_entitlement \<Rightarrow> bool" where
  "spends e = (case e of Permitted (CreditConsumed _ _) \<Rightarrow> True | _ \<Rightarrow> False)"

lemma shop_charge:
  "\<exists>i j. onBookingConfirmation (at_time 2) 2 shop_captured cm_welcome = Inr (Permitted (CreditConsumed i j), shop_charged)"
proof -
  have "ok (onBookingConfirmation (at_time 2) 2 shop_captured cm_welcome)"
    "spends (fst (answer (onBookingConfirmation (at_time 2) 2 shop_captured cm_welcome)))" by code_simp+
  from answer_ok [OF this(1), folded shop_charged_def] this(2) show ?thesis
    by (auto simp: spends_def split: confirmation_entitlement.splits consumption_outcome.splits)
qed

definition shop_confirmed :: booking_db where
  "shop_confirmed = (case confirm (db_bookings shop_booked) (at_time 2) 2 SYSTEM_ACTOR shop_booked of Inr (_, s) \<Rightarrow> s | Inl _ \<Rightarrow> shop_booked)"

lemma shop_confirms: "confirm (db_bookings shop_booked) (at_time 2) 2 SYSTEM_ACTOR shop_booked = Inr (True, shop_confirmed)"
proof -
  have "case confirm (db_bookings shop_booked) (at_time 2) 2 SYSTEM_ACTOR shop_booked of Inr (m, _) \<Rightarrow> m | Inl _ \<Rightarrow> False" by code_simp
  then show ?thesis by (auto simp: shop_confirmed_def split: sum.splits)
qed

definition shop_paid :: platform where
  "shop_paid = shop_pending\<lparr>w_payments := shop_pay_paid, w_orders := shop_captured, w_commercial := shop_charged, w_bookings := shop_confirmed\<rparr>"

lemma shop_order_found: "order_findById 0 shop_captured = Some (capture_row 2 50000 shop_order)"
  "od_sourceType (capture_row 2 50000 shop_order) = SourceBooking" "od_source (capture_row 2 50000 shop_order) = 2"
  by (simp_all add: order_findById_def order_at_def tget_def shop_captured_def capture_row_def shop_order_def)

lemma shop_callback: "\<exists>st. settle_callback (at_time 2) shop_prepared shop_pending = Inr (st, shop_paid) \<and> callback_refunds st = []"
proof -
  obtain i j where ch: "onBookingConfirmation (at_time 2) 2 shop_captured cm_welcome = Inr (Permitted (CreditConsumed i j), shop_charged)"
    using shop_charge by blast
  obtain v where v: "applyVerification 2 shop_prepared shop_pay_open = Inr (v, shop_pay_paid)" "vo_status v = VerSucceeded" "vo_order v = 0" "vo_amount v = 50000"
    using shop_verifies by blast
  have t: "ck_js (at_time 2) = 2" "db_bookings shop_booked = [shop_booking]" by (simp_all add: at_time_def shop_booked_def)
  then show ?thesis using v ch
    by (simp add: settle_callback_def shop_pending_def shop_ordered_def shop_open_def shop_captures shop_order_found confirm_paid_booking_def
        entitlement_hook_def ch permitted_def confirm_booking_def shop_confirms [unfolded t] shop_paid_def callback_refunds_def settled_def)
qed

section \<open>The customer cancels first\<close>

definition the_customer :: booking_actor where "the_customer = \<lparr>ac_type = ActCustomer, ac_id = Some 7\<rparr>"

definition shop_cancelled :: booking_db where
  "shop_cancelled = (case cancel (db_bookings shop_booked) (at_time 1) 2 the_customer None shop_booked of Inr (_, s) \<Rightarrow> s | Inl _ \<Rightarrow> shop_booked)"

lemma shop_cancels: "cancel (db_bookings shop_booked) (at_time 1) 2 the_customer None shop_booked = Inr (True, shop_cancelled)"
proof -
  have "case cancel (db_bookings shop_booked) (at_time 1) 2 the_customer None shop_booked of Inr (m, _) \<Rightarrow> m | Inl _ \<Rightarrow> False" by code_simp
  then show ?thesis by (auto simp: shop_cancelled_def split: sum.splits)
qed

definition shop_withdrawn :: platform where
  "shop_withdrawn = shop_pending\<lparr>w_bookings := shop_cancelled\<rparr>"

lemma shop_gone: "map_option bk_status (booking_at shop_cancelled 2) = Some Cancelled"
  "confirm (db_bookings shop_cancelled) (at_time 2) 2 SYSTEM_ACTOR shop_cancelled = Inr (False, shop_cancelled)"
proof -
  show s: "map_option bk_status (booking_at shop_cancelled 2) = Some Cancelled" by code_simp
  then obtain b where "tget bk_id 2 (db_bookings shop_cancelled) = Some b" "bk_status b = Cancelled" by (auto simp: booking_at_def)
  then show "confirm (db_bookings shop_cancelled) (at_time 2) 2 SYSTEM_ACTOR shop_cancelled = Inr (False, shop_cancelled)"
    by (simp add: confirm_def transition_def)
qed

definition shop_late :: platform where
  "shop_late = shop_withdrawn\<lparr>w_payments := shop_pay_paid, w_orders := shop_captured, w_commercial := shop_charged\<rparr>"

lemma shop_late_callback: "\<exists>st. settle_callback (at_time 2) shop_prepared shop_withdrawn = Inr (st, shop_late) \<and> cs_unavailable st \<and>
  vo_order (cs_outcome st) = 0 \<and> vo_amount (cs_outcome st) = 50000 \<and> vo_status (cs_outcome st) = VerSucceeded"
proof -
  obtain i j where ch: "onBookingConfirmation (at_time 2) 2 shop_captured cm_welcome = Inr (Permitted (CreditConsumed i j), shop_charged)"
    using shop_charge by blast
  obtain v where v: "applyVerification 2 shop_prepared shop_pay_open = Inr (v, shop_pay_paid)" "vo_status v = VerSucceeded" "vo_order v = 0" "vo_amount v = 50000"
    using shop_verifies by blast
  have t: "ck_js (at_time 2) = 2" by (simp add: at_time_def)
  then show ?thesis using v ch
    by (simp add: settle_callback_def shop_withdrawn_def shop_pending_def shop_ordered_def shop_open_def shop_captures shop_order_found
        confirm_paid_booking_def entitlement_hook_def ch permitted_def confirm_booking_def shop_gone shop_late_def settled_def)
qed

section \<open>The histories\<close>

lemma commercial_run_history:
  assumes "(commercial_step)\<^sup>*\<^sup>* (w_commercial (hd h)) cm" "platform_history env h"
  shows "\<exists>h'. platform_history env h' \<and> hd h' = (hd h)\<lparr>w_commercial := cm\<rparr>"
  using assms
proof (induction rule: rtranclp_induct)
  case base
  then show ?case by (intro exI [of _ h]) simp
next
  case (step y z)
  then obtain h' where h': "platform_history env h'" "hd h' = (hd h)\<lparr>w_commercial := y\<rparr>" by blast
  then have "platform_history env ((hd h')\<lparr>w_commercial := z\<rparr> # h')" using step.hyps(2) by (intro ph_commercial) simp_all
  then show ?case using h'(2) by (intro exI [of _ "(hd h')\<lparr>w_commercial := z\<rparr> # h'"]) simp
qed

lemma shop_open_history: "\<exists>h. platform_history shop_env h \<and> hd h = shop_open"
proof -
  let ?w1 = "empty_platform\<lparr>w_bookings := empty_db\<lparr>db_slots := [demo_slot 0], db_next := 1\<rparr>\<rparr>"
  let ?w2 = "empty_platform\<lparr>w_bookings := demo_open\<rparr>"
  have e: "ce_bookings shop_env = demo_ports" "ce_config shop_env = demo_cfg" by (simp_all add: shop_env_def)
  have h1: "platform_history shop_env [?w1, empty_platform]"
    using ph_booking [OF ph_start [of shop_env], of demo_ports "w_bookings ?w1"] side_createSlot [OF demo_slot0] e by (simp add: empty_platform_def)
  have h2: "platform_history shop_env [?w2, ?w1, empty_platform]"
    using ph_booking [OF h1, of demo_ports demo_open] side_createSlot [OF demo_slot1] e by simp
  have "commercial_step\<^sup>*\<^sup>* (w_commercial (hd [?w2, ?w1, empty_platform])) cm_welcome"
    using demo_welcome by (simp add: commercial_reachable_def empty_platform_def)
  from commercial_run_history [OF this h2] obtain h where "platform_history shop_env h" "hd h = ?w2\<lparr>w_commercial := cm_welcome\<rparr>"
    by auto
  then show ?thesis by (intro exI [of _ h]) (simp add: empty_platform_def shop_open_def)
qed

lemma shop_pending_history: "\<exists>h. platform_history shop_env (shop_pending # h)"
proof -
  obtain h where h: "platform_history shop_env h" "hd h = shop_open" using shop_open_history by blast
  have e: "ce_providers shop_env = [demo_gateway ''A'']" by (simp add: shop_env_def)
  let ?w = "shop_ordered\<lparr>w_payments := shop_pay_created\<rparr>"
  have h1: "platform_history shop_env (shop_ordered # h)" by (rule ph_open [OF h(1), where env' = shop_env]) (use shop_checkout_opens h(2) in simp_all)
  have e1: "w_payments (hd (shop_ordered # h)) = empty_payments" "w_payments shop_ordered = empty_payments"
    by (simp_all add: shop_ordered_def shop_open_def)
  have h2: "platform_history shop_env ((hd (shop_ordered # h))\<lparr>w_payments := shop_pay_created\<rparr> # shop_ordered # h)"
    by (rule ph_intent [OF h1, of shop_ordered]) (use shop_intent_created e1 in simp_all)
  obtain ir where "initiate [demo_gateway ''A''] 1 0 ''cb'' ''d'' shop_pay_created shop_pay_created = (Inr ir, shop_pay_open)"
    using shop_intent_opened by blast
  then have "platform_history shop_env ((hd (?w # shop_ordered # h))\<lparr>w_payments := shop_pay_open\<rparr> # ?w # shop_ordered # h)"
    by (intro ph_initiate [where rd = ?w]) (use h2 in simp_all)
  then have "platform_history shop_env (shop_pending # ?w # shop_ordered # h)" by (simp add: shop_pending_def)
  then show ?thesis by blast
qed

lemma shop_paid_history: "\<exists>h. platform_history shop_env (shop_paid # h)"
proof -
  obtain h where h: "platform_history shop_env (shop_pending # h)" using shop_pending_history by blast
  obtain st where st: "settle_callback (at_time 2) shop_prepared shop_pending = Inr (st, shop_paid)" using shop_callback by blast
  have "platform_history shop_env (shop_paid # shop_pending # h)"
    by (rule ph_callback [OF h, of shop_pending]) (use shop_prepares st in \<open>simp_all add: shop_pending_def\<close>)
  then show ?thesis by blast
qed

lemma shop_withdrawn_history: "\<exists>h. platform_history shop_env (shop_withdrawn # h) \<and> shop_pending \<in> set h"
proof -
  obtain h where h: "platform_history shop_env (shop_pending # h)" using shop_pending_history by blast
  have "side_step (ce_bookings shop_env) (ce_config shop_env) shop_booked shop_cancelled" by (rule side_cancel [OF seen_now(1) shop_cancels])
  then have "platform_history shop_env ((hd (shop_pending # h))\<lparr>w_bookings := shop_cancelled\<rparr> # shop_pending # h)"
    by (intro ph_booking [OF h]) (simp add: shop_pending_def shop_ordered_def)
  then show ?thesis by (intro exI [of _ "shop_pending # h"]) (simp add: shop_withdrawn_def)
qed

end
