(* ===== verification/Checkout_Properties.thy ===== *)
theory Checkout_Properties
  imports Checkout_Demo
begin

text \<open>
  The properties of the checkout, which span bookings, orders, payments and credits. Each witness is the run of
  \<open>Checkout_Demo\<close>.
\<close>

lemma history_at:
  assumes "platform_history env h" "w \<in> set h"
  shows "platform_inv w" "payment_le (w_payments w) (w_payments (hd h))"
  using history_platform_inv [OF assms] history_okD(4) [OF platform_history_inv [OF assms(1)] assms(2)] by simp_all

lemma history_now: "platform_history env h \<Longrightarrow> platform_inv (hd h)"
  using platform_history_inv history_okD(1) full_invD(1) by blast

lemma paid_once:
  assumes "platform_inv w" "booking_at (w_bookings w) i = Some b" "paid_status (bk_status b)"
  shows "\<exists>od sc. order_at (w_orders w) (od_id od) = Some od \<and> od_sourceType od = SourceBooking \<and> od_source od = i \<and> od_status od \<noteq> OrdPending \<and>
     schedule_at (w_orders w) (od_id od) = Some sc \<and> od_collected od = sc_collectible sc \<and>
     (od_collected od = 0 \<or> charged_for (od_id od) (od_collected od) (w_payments w))"
proof -
  note D = platform_invD [OF assms(1)]
  from D(5) [OF assms(2,3)] obtain od sc where od: "od \<in> set (om_orders (w_orders w))" "od_sourceType od = SourceBooking" "od_source od = i"
    "od_status od \<noteq> OrdPending" "schedule_at (w_orders w) (od_id od) = Some sc" "od_collected od = sc_collectible sc"
    by (auto simp: settled_for_def settled_order_def)
  have at: "order_at (w_orders w) (od_id od) = Some od" by (rule order_in_at [OF D(2) od(1)])
  have "0 \<le> od_collected od" using D(2) od(1) by (fastforce simp: order_inv_def money_ok_def order_row_ok_def)
  then have "od_collected od = 0 \<or> 0 < od_collected od" by auto
  then have "od_collected od = 0 \<or> charged_for (od_id od) (od_collected od) (w_payments w)" using D(6) [OF at] by blast
  with od at show ?thesis by blast
qed

text \<open>Every answer of the entitlement hook but a charge leaves the commercial state alone.\<close>

lemma hook_writes:
  assumes "onBookingConfirmation c b orders s = Inr (e, s')"
  shows "s' = s \<or> (\<exists>od i g. find (\<lambda>x. od_sourceType x = SourceBooking \<and> od_source x = b) (om_orders orders) = Some od \<and>
    consumeForConfirmation c b (od_seller od) s = Inr (CreditConsumed i g, s') \<and> permitted e)"
proof (cases "find (\<lambda>x. od_sourceType x = SourceBooking \<and> od_source x = b) (om_orders orders)")
  case (Some od)
  with assms consider "s' = s" | out where "consumeForConfirmation c b (od_seller od) s = Inr (out, s')"
      "(\<exists>i g. out = CreditConsumed i g) \<longrightarrow> permitted e"
    by (auto simp: onBookingConfirmation_def bind_res_Inr permitted_def decideGovernedLedger_def gate_decide_def split: if_splits consumption_outcome.splits)
  then show ?thesis
  proof cases
    case (2 out)
    then show ?thesis using consume_effect [OF 2(1)] Some by (elim disjE) (auto dest: consume_from_Inr)
  qed simp
qed (use assms in \<open>simp add: onBookingConfirmation_def\<close>)

lemma permitted_consumed:
  assumes "onBookingConfirmation c b orders s = Inr (Permitted d, s')" "find (\<lambda>x. od_sourceType x = SourceBooking \<and> od_source x = b) (om_orders orders) = Some od"
  shows "consumeForConfirmation c b (od_seller od) s = Inr (d, s')"
  using assms by (auto simp: onBookingConfirmation_def bind_res_Inr split: if_splits)

lemma order_of_source:
  assumes "order_inv s" "order_at s i = Some od" "od_sourceType od = SourceBooking"
  shows "find (\<lambda>x. od_sourceType x = SourceBooking \<and> od_source x = od_source od) (om_orders s) = Some od"
proof -
  have m: "od \<in> set (om_orders s)" using assms(2) tget_SomeD [of od_id i "om_orders s" od] by (simp add: order_at_def)
  have "distinct (map (\<lambda>od. (od_sourceType od, od_source od)) (om_orders s))" using assms(1) by (simp add: order_inv_def)
  then have u: "x = od" if "x \<in> set (om_orders s)" "od_sourceType x = SourceBooking" "od_source x = od_source od" for x
    using that m assms(3) by (auto simp: distinct_map inj_on_def)
  show ?thesis
  proof (cases "find (\<lambda>x. od_sourceType x = SourceBooking \<and> od_source x = od_source od) (om_orders s)")
    case None
    with m assms(3) show ?thesis by (auto simp: find_None_iff)
  next
    case (Some y)
    then have "y \<in> set (om_orders s)" "od_sourceType y = SourceBooking" "od_source y = od_source od" by (auto simp: find_Some_iff)
    with u Some show ?thesis by simp
  qed
qed

lemma charge_books:
  assumes "consumeForConfirmation c b p s = Inr (CreditConsumed i g, s')"
  shows "charged_bookings s' = insert b (charged_bookings s) \<and> b \<notin> charged_bookings s"
  using consume_effect [OF assms] by (auto simp: charged_bookings_def dest!: consume_from_Inr)

lemma confirm_not_pending:
  assumes "confirm (db_bookings s) c i a s = Inr (False, s')" "keyed bk_id (db_bookings s)" "booking_at s i = Some b"
  shows "bk_status b \<noteq> Pending"
proof
  assume p: "bk_status b = Pending"
  have t: "tget bk_id i (db_bookings s) = Some b" using assms(3) by (simp add: booking_at_def)
  have "taffected (\<lambda>b. bk_id b = i \<and> bk_status b = Pending) (db_bookings s) = 1"
    using taffected_key_one(1) [OF assms(2), of i "\<lambda>b. bk_status b = Pending"] t p by simp
  with assms(1) t p show False by (auto simp: confirm_def transition_def bind_res_Inr split: option.splits)
qed

lemma detail_found:
  assumes "order_inv s"
  shows "\<exists>d. detailFor i s = Inr d"
proof (cases "order_at s i")
  case (Some od)
  then have "od \<in> set (om_orders s)" "od_id od = i" using tget_SomeD [of od_id i "om_orders s" od] by (simp_all add: order_at_def)
  then obtain sc where "schedule_at s i = Some sc" using assms by (auto simp: order_inv_def)
  with Some show ?thesis by (simp add: detailFor_def loadDetail_def)
qed (simp add: detailFor_def)

text \<open>What the transaction of a booking with nothing to collect leaves, replayed or not.\<close>

lemma zero_leaves:
  assumes "zero_transaction c b i w = Inr (replayed, w')" "platform_inv w"
  shows "w_payments w' = w_payments w \<and> order_inv (w_orders w') \<and> (replayed \<longrightarrow> w' = w) \<and>
    map_option od_status (order_at (w_orders w') i) = Some OrdCollectionNotRequired \<and>
    (\<not> replayed \<longrightarrow> map_option bk_status (booking_at (w_bookings w') b) = Some Confirmed)"
  using zero_transaction_effect [OF assms(1)]
proof (elim disjE exE conjE)
  assume "replayed" "w' = w" "confirmNoOnlineCollection i (w_orders w) = Inr (ZeroAlready, w_orders w)"
  then show ?thesis using platform_invD(2) [OF assms(2)] by (auto simp: confirmNoOnlineCollection_def split: if_splits option.splits)
next
  fix os cm bs d
  assume z: "\<not> replayed" "confirmNoOnlineCollection i (w_orders w) = Inr (ZeroTransitioned, os)"
    "confirm (db_bookings (w_bookings w)) c b SYSTEM_ACTOR (w_bookings w) = Inr (True, bs)"
    "w' = w\<lparr>w_orders := os, w_commercial := cm, w_bookings := bs\<rparr>"
  note D = platform_invD [OF assms(2)]
  from zero_effect [OF z(2) inv_order_keyed [OF D(2)]] obtain od where
    od: "order_at (w_orders w) i = Some od" "zero_collectible (w_orders w) i od"
      "om_orders os = tupd (zero_collectible (w_orders w) i) (\<lambda>od. od\<lparr>od_status := OrdCollectionNotRequired\<rparr>) (om_orders (w_orders w))" by auto
  have "order_at os i = Some (od\<lparr>od_status := OrdCollectionNotRequired\<rparr>)"
    using order_at_tupd [of "\<lambda>od. od\<lparr>od_status := OrdCollectionNotRequired\<rparr>" "w_orders w" i od, OF _ od(1,2,3)] by simp
  then show ?thesis using z zero_inv [OF z(2) D(2)] confirm_True [OF z(3) D(1)] by auto
qed

section \<open>Properties\<close>

text \<open>C1: In every state of every history of the platform, however its operations interleave and however old the
  state a verification was prepared on, a confirmed, completed or no-show booking has an order that is past
  pending and has collected exactly what its schedule makes collectible, and what an order has collected is the
  amount of a charge the gateway confirmed for that order.\<close>

theorem confirmed_bookings_are_paid:
  assumes "platform_history env h" "w \<in> set h"
  shows "(\<forall>i b. booking_at (w_bookings w) i = Some b \<and> bk_status b \<in> {Confirmed, Completed, NoShown} \<longrightarrow>
      (\<exists>od sc. order_at (w_orders w) (od_id od) = Some od \<and> od_sourceType od = SourceBooking \<and> od_source od = i \<and> od_status od \<noteq> OrdPending \<and>
         schedule_at (w_orders w) (od_id od) = Some sc \<and> od_collected od = sc_collectible sc \<and>
         (od_collected od = 0 \<or> charged_for (od_id od) (od_collected od) (w_payments w)))) \<and>
    (\<forall>i od. order_at (w_orders w) i = Some od \<and> 0 < od_collected od \<longrightarrow> charged_for i (od_collected od) (w_payments w))"
  using paid_once [OF history_at(1) [OF assms]] platform_invD(6) [OF history_at(1) [OF assms]]
  unfolding paid_status_def by blast

theorem confirmed_bookings_are_paid_witness:
  "\<exists>h (od :: order). platform_history shop_env (shop_paid # h) \<and> map_option bk_status (booking_at (w_bookings shop_paid) 2) = Some Confirmed \<and>
     od_source od = 2 \<and> od_collected od = 50000 \<and> charged_for (od_id od) 50000 (w_payments shop_paid)"
proof -
  obtain h where h: "platform_history shop_env (shop_paid # h)" using shop_paid_history by blast
  have "map_option bk_status (booking_at shop_confirmed 2) = Some Confirmed" by code_simp
  then obtain b where b: "booking_at (w_bookings shop_paid) 2 = Some b" "bk_status b = Confirmed" by (auto simp: shop_paid_def)
  then obtain od sc where od: "order_at (w_orders shop_paid) (od_id od) = Some od" "od_source od = 2"
    "schedule_at (w_orders shop_paid) (od_id od) = Some sc" "od_collected od = sc_collectible sc"
    "od_collected od = 0 \<or> charged_for (od_id od) (od_collected od) (w_payments shop_paid)"
    using confirmed_bookings_are_paid [OF h list.set_intros(1)] by (metis insert_iff)
  from od(3) have "sc_collectible sc = 50000"
    by (auto simp: schedule_at_def tget_def shop_paid_def shop_captured_def shop_placed_def shop_schedule_def split: if_splits)
  with h b od show ?thesis by auto
qed

text \<open>C2: The three endings of a callback, whatever happened between its verification and its transaction. A payment
  the gateway did not confirm changes no booking, order or credit and asks for no refund. A confirmed payment
  either captures the pending order for the verified amount and, for a booking's order, moves the pending
  booking to confirmed; or it leaves every booking as it was and asks for one refund of exactly the verified
  amount, of which the gateway holds the charge. So no confirmed payment is kept without its booking.\<close>

theorem callback_confirms_or_refunds:
  assumes "platform_history env h" "rd \<in> set h" "prepareVerification ps clk k ref params (w_payments rd) = Inr p"
    "settle_callback c p (hd h) = Inr (st, w')"
  shows "let w = hd h; v = cs_outcome st in
    (callback_refunds st = [] \<and> vo_status v \<noteq> VerSucceeded \<and> w' = w\<lparr>w_payments := w_payments w'\<rparr>) \<or>
    (callback_refunds st = [] \<and> vo_status v = VerSucceeded \<and>
      (\<exists>od. order_at (w_orders w) (vo_order v) = Some od \<and> od_status od = OrdPending \<and>
        order_at (w_orders w') (vo_order v) = Some (capture_row (ck_js c) (vo_amount v) od) \<and>
        (od_sourceType od = SourceBooking \<longrightarrow> map_option bk_status (booking_at (w_bookings w) (od_source od)) = Some Pending \<and>
           map_option bk_status (booking_at (w_bookings w') (od_source od)) = Some Confirmed))) \<or>
    (\<exists>r. callback_refunds st = [r] \<and> ri_order r = vo_order v \<and> ri_amount r = fin_int (vo_amount v) \<and>
      w_bookings w' = w_bookings w \<and> charged_for (vo_order v) (vo_amount v) (w_payments w'))"
proof -
  let ?w = "hd h"
  note D = platform_invD [OF history_now [OF assms(1)]] and le = history_at(2) [OF assms(1,2)]
  from settle_effect [OF assms(4)] obtain v pm e where v: "applyVerification (ck_js c) p (w_payments ?w) = Inr (v, pm)"
    and e: "callback_end c v pm ?w st w' e" by blast
  have ch: "vo_status v = VerSucceeded \<Longrightarrow> charged_for (vo_order v) (vo_amount v) pm"
    by (rule apply_charged [OF v _ assms(3) D(3) le])
  have cap: "\<exists>od. order_at (w_orders ?w) (vo_order v) = Some od \<and> od_status od = OrdPending \<and>
      order_at os (vo_order v) = Some (capture_row (ck_js c) (vo_amount v) od)"
    if "recordVerifiedCapture (ck_js c) (vo_order v) (fin_int (vo_amount v)) (w_orders ?w) = Inr (Captured s n, os)" for s n os
    using capture_writes [OF that D(2) refl] by blast
  note refunds = callback_refunds_def duplicate_refund_def unavailable_refund_def settled_def
  show ?thesis
  proof (cases e)
    case NothingCharged
    with e show ?thesis by (simp add: refunds Let_def)
  next
    case ChargedTwice
    with e ch show ?thesis by (auto simp: refunds Let_def)
  next
    case OnlyCaptured
    with e obtain os s n where o: "vo_status v = VerSucceeded" "st = settled v" "w' = ?w\<lparr>w_payments := pm, w_orders := os\<rparr>"
      "recordVerifiedCapture (ck_js c) (vo_order v) (fin_int (vo_amount v)) (w_orders ?w) = Inr (Captured s n, os)"
      "\<forall>od. order_findById (vo_order v) os = Some od \<longrightarrow> od_sourceType od \<noteq> SourceBooking" by auto
    with cap [OF o(4)] show ?thesis by (auto simp: refunds Let_def order_findById_def capture_row_def)
  next
    case NotEntitled
    with e ch show ?thesis by (auto simp: refunds Let_def)
  next
    case NotConfirmable
    with e ch show ?thesis by (auto simp: refunds Let_def dest!: confirm_False)
  next
    case PaidAndConfirmed
    with e obtain os s n d cm bs and od :: order where o: "vo_status v = VerSucceeded" "st = settled v"
      "recordVerifiedCapture (ck_js c) (vo_order v) (fin_int (vo_amount v)) (w_orders ?w) = Inr (Captured s n, os)"
      "order_findById (vo_order v) os = Some od"
      "confirm (db_bookings (w_bookings ?w)) c (od_source od) SYSTEM_ACTOR (w_bookings ?w) = Inr (True, bs)"
      "w' = ?w\<lparr>w_payments := pm, w_orders := os, w_commercial := cm, w_bookings := bs\<rparr>" by auto
    from cap [OF o(3)] obtain od0 where od0: "order_at (w_orders ?w) (vo_order v) = Some od0" "od_status od0 = OrdPending"
      "order_at os (vo_order v) = Some (capture_row (ck_js c) (vo_amount v) od0)" by blast
    then have "od_source od = od_source od0" using o(4) by (auto simp: order_findById_def capture_row_def)
    with confirm_True [OF o(5) D(1)] o od0 show ?thesis by (auto simp: refunds Let_def)
  qed
qed

theorem callback_confirms_or_refunds_witness:
  "\<exists>st r. settle_callback (at_time 2) shop_prepared shop_withdrawn = Inr (st, shop_late) \<and> callback_refunds st = [r] \<and>
     ri_order r = 0 \<and> ri_amount r = fin_int 50000 \<and> charged_for 0 50000 (w_payments shop_late)"
proof -
  obtain h where h: "platform_history shop_env (shop_withdrawn # h)" "shop_pending \<in> set h" using shop_withdrawn_history by blast
  obtain st where st: "settle_callback (at_time 2) shop_prepared shop_withdrawn = Inr (st, shop_late)" "cs_unavailable st"
      "vo_order (cs_outcome st) = 0" "vo_amount (cs_outcome st) = 50000"
    using shop_late_callback by blast
  have p: "prepareVerification [demo_gateway ''A''] 2 ''bank'' ''A'' [] (w_payments shop_pending) = Inr shop_prepared"
    using shop_prepares by (simp add: shop_pending_def)
  have "callback_refunds st \<noteq> []" using st(2) by (simp add: callback_refunds_def)
  with callback_confirms_or_refunds [OF h(1) _ p, of "at_time 2" st shop_late] h(2) st show ?thesis by (auto simp: Let_def)
qed

text \<open>C3: A payment that arrives after its booking stopped being pending still costs the seller a booking credit. Let the
  callback capture a payment the gateway confirmed, for the order of a booking that is no longer pending and was never
  charged, of a seller with credits left, while the controls let confirmations through (the kill switch is not engaged
  and, under an active rollout, the seller has a governance row). Then one credit of that seller is spent for the
  booking, no other balance moves, no booking changes, and the whole payment is to be refunded.\<close>

theorem late_payment_spends_credit:
  assumes "platform_history env h" "settle_callback c p (hd h) = Inr (st, w')" "vo_status (cs_outcome st) = VerSucceeded"
    "order_at (w_orders (hd h)) (vo_order (cs_outcome st)) = Some od" "od_sourceType od = SourceBooking"
    "map_option bk_status (booking_at (w_bookings (hd h)) (od_source od)) \<noteq> Some Pending"
    "control_row (w_commercial (hd h)) = Some k" "ec_killSwitch k \<noteq> ''engaged''"
    "ec_rollout k = ''active'' \<longrightarrow> readGovernance (od_seller od) (w_commercial (hd h)) \<noteq> None"
    "od_source od \<notin> charged_bookings (w_commercial (hd h))" "0 < balanceFor (od_seller od) (w_commercial (hd h))"
  shows "w_bookings w' = w_bookings (hd h) \<and>
    charged_bookings (w_commercial w') = insert (od_source od) (charged_bookings (w_commercial (hd h))) \<and>
    (\<forall>q. balanceFor q (w_commercial w') = balanceFor q (w_commercial (hd h)) - (if q = od_seller od then 1 else 0)) \<and>
    cs_unavailable st \<and> (\<exists>r. callback_refunds st = [r] \<and> ri_order r = od_id od \<and> ri_amount r = fin_int (vo_amount (cs_outcome st)))"
proof -
  let ?w = "hd h" and ?b = "od_source od" and ?q = "od_seller od"
  note D = platform_invD [OF history_now [OF assms(1)]]
  have inv: "credit_inv (w_commercial ?w)" using D(4) by (simp add: commercial_inv_def)
  from settle_effect [OF assms(2)] obtain v pm e where e: "callback_end c v pm ?w st w' e" by blast
  have nt: "e \<noteq> ChargedTwice" using e assms(3) by auto
  have v: "cs_outcome st = v" using e nt by (cases e) (auto simp: settled_def)
  obtain os s n where cap: "recordVerifiedCapture (ck_js c) (vo_order v) (fin_int (vo_amount v)) (w_orders ?w) = Inr (Captured s n, os)"
    using e assms(3) v nt by (cases e) auto
  from capture_writes [OF cap D(2) refl] assms(4) v
  have at: "order_at os (vo_order v) = Some (capture_row (ck_js c) (vo_amount v) od)" by auto
  have row: "od_sourceType (capture_row (ck_js c) (vo_amount v) od) = SourceBooking" "od_source (capture_row (ck_js c) (vo_amount v) od) = ?b"
    "od_seller (capture_row (ck_js c) (vo_amount v) od) = ?q" using assms(5) by (simp_all add: capture_row_def)
  note find = order_of_source [OF capture_inv [OF cap D(2)] at row(1), unfolded row(2)]
  obtain ent cm where hook: "onBookingConfirmation c ?b os (w_commercial ?w) = Inr (ent, cm)" and "\<exists>d. ent = Permitted d"
    using entitlement_table [OF D(4) find assms(7), of c] assms(8-11) unfolding row(3) by (auto split: if_splits)
  then obtain d where d: "ent = Permitted d" by blast
  have con: "consumeForConfirmation c ?b ?q (w_commercial ?w) = Inr (d, cm)"
    using permitted_consumed [OF hook [unfolded d] find] unfolding row(3) .
  from consume_decides(4) [OF inv assms(10,11), of c] con obtain i g where q: "consumeForConfirmation c ?b ?q (w_commercial ?w) = Inr (CreditConsumed i g, cm)"
    by auto
  have found: "order_findById (vo_order v) os = Some (capture_row (ck_js c) (vo_amount v) od)" using at by (simp add: order_findById_def)
  have np: "\<not> confirm (db_bookings (w_bookings ?w)) c ?b SYSTEM_ACTOR (w_bookings ?w) = Inr (True, bs)" for bs
    using confirm_True [OF _ D(1)] assms(6) by blast
  have fin: "cs_unavailable st \<and> \<not> cs_duplicate st \<and> w_commercial w' = cm \<and> w_bookings w' = w_bookings ?w"
    using e nt cap found row hook d np v assms(3) by (cases e) (auto simp: permitted_def settled_def dest!: confirm_False)
  have oid: "od_id od = vo_order v" using assms(4) v tget_SomeD [of od_id "vo_order v" "om_orders (w_orders ?w)" od] by (simp add: order_at_def)
  have "\<exists>r. callback_refunds st = [r] \<and> ri_order r = od_id od \<and> ri_amount r = fin_int (vo_amount (cs_outcome st))"
    using fin v oid by (auto simp: callback_refunds_def unavailable_refund_def Let_def)
  with fin charge_books [OF q] charge_balance [OF inv q] show ?thesis by (simp del: split_paired_All)
qed

theorem late_payment_spends_credit_witness:
  "\<exists>h st. platform_history shop_env (shop_withdrawn # h) \<and>
     settle_callback (at_time 2) shop_prepared shop_withdrawn = Inr (st, shop_late) \<and> cs_unavailable st \<and>
     map_option bk_status (booking_at (w_bookings shop_withdrawn) 2) = Some Cancelled \<and>
     balanceFor demo_party (w_commercial shop_withdrawn) = 2 \<and> balanceFor demo_party (w_commercial shop_late) = 1"
proof -
  obtain h where h: "platform_history shop_env (shop_withdrawn # h)" using shop_withdrawn_history by blast
  obtain st where st: "settle_callback (at_time 2) shop_prepared shop_withdrawn = Inr (st, shop_late)" "vo_status (cs_outcome st) = VerSucceeded"
    "vo_order (cs_outcome st) = 0"
    using shop_late_callback by blast
  have w: "w_orders shop_withdrawn = shop_placed" "w_commercial shop_withdrawn = cm_welcome" "w_bookings shop_withdrawn = shop_cancelled"
    by (simp_all add: shop_withdrawn_def shop_pending_def shop_ordered_def shop_open_def)
  have o: "order_at shop_placed 0 = Some shop_order" "od_sourceType shop_order = SourceBooking" "od_source shop_order = 2" "od_seller shop_order = demo_party"
    by (simp_all add: order_at_def tget_def shop_placed_def shop_order_def demo_party_def)
  have v: "balanceFor demo_party cm_welcome = 2" "2 \<notin> charged_bookings cm_welcome" "map_option ec_killSwitch (control_row cm_welcome) = Some ''released''"
    "map_option ec_rollout (control_row cm_welcome) = Some ''inactive''"
    unfolding charged_bookings_def by code_simp+
  then obtain k where k: "control_row cm_welcome = Some k" "ec_killSwitch k = ''released''" "ec_rollout k = ''inactive''" by auto
  from late_payment_spends_credit [OF h, of "at_time 2" shop_prepared st shop_late shop_order k] st(1,2) st(3) o k v shop_gone(1)
  have c: "cs_unavailable st" "balanceFor demo_party (w_commercial shop_late) = 1" by (auto simp: w simp del: split_paired_All)
  with h st v shop_gone(1) show ?thesis by (auto simp: w)
qed

text \<open>C4: How a checkout ends. An error of its first transaction leaves nothing behind. After it, a booking with
  nothing to collect online never touches the payments: it answers with the booking confirmed and its order
  closed without collection, or with an error that leaves the pending booking and order exactly as they were
  opened. Any other booking stays as it was opened, only payments change, and an answer names the intent and
  the address to pay at.\<close>

theorem checkout_endings:
  assumes "platform_history env h" "checkout env c inp (hd h) = (r, w')"
  shows "(\<exists>e. r = Inl e \<and> w' = hd h) \<or>
    (\<exists>b d w1. open_booking env c inp (hd h) = Inr ((b, d), w1) \<and>
      (if sc_collectible (dt_schedule d) = 0
       then w_payments w' = w_payments (hd h) \<and>
         (case r of Inl _ \<Rightarrow> w' = w1
          | Inr x \<Rightarrow> xr_intent x = None \<and> map_option bk_status (booking_at (w_bookings w') b) = Some Confirmed \<and>
              map_option od_status (order_at (w_orders w') (od_id (dt_order d))) = Some OrdCollectionNotRequired)
       else w' = w1\<lparr>w_payments := w_payments w'\<rparr> \<and>
         (case r of Inl _ \<Rightarrow> True | Inr x \<Rightarrow> xr_booking x = b \<and> xr_intent x \<noteq> None \<and> xr_redirectUrl x \<noteq> None)))"
proof (cases "open_booking env c inp (hd h)")
  case (Inl e)
  with assms(2) have "r = Inl e" "w' = hd h" by (simp_all add: checkout_def)
  then show ?thesis by simp
next
  case (Inr y)
  then obtain b d w1 where o: "open_booking env c inp (hd h) = Inr ((b, d), w1)" by (cases y) auto
  have inv: "platform_inv w1" using open_inv [OF o history_now [OF assms(1)]] by simp
  have pm: "w_payments w1 = w_payments (hd h)" using open_effect [OF o] by auto
  show ?thesis
  proof (cases "sc_collectible (dt_schedule d) = 0")
    case False
    then have "start_payment env c (xi_callbackBaseUrl inp) b d w1 = (r, w')" using assms(2) o by (simp add: checkout_def)
    then have "w' = w1\<lparr>w_payments := w_payments w'\<rparr> \<and>
        (case r of Inl _ \<Rightarrow> True | Inr x \<Rightarrow> xr_booking x = b \<and> xr_intent x \<noteq> None \<and> xr_redirectUrl x \<noteq> None)"
      by (auto simp: start_payment_def split: prod.splits sum.splits)
    with o False show ?thesis by (intro disjI2) auto
  next
    case True
    then have z: "confirmWithoutOnlineCollection c b d w1 = (r, w')" using assms(2) o by (simp add: checkout_def)
    have "w_payments w' = w_payments w1 \<and> (case r of Inl _ \<Rightarrow> w' = w1
      | Inr x \<Rightarrow> xr_intent x = None \<and> map_option bk_status (booking_at (w_bookings w') b) = Some Confirmed \<and>
              map_option od_status (order_at (w_orders w') (od_id (dt_order d))) = Some OrdCollectionNotRequired)"
    proof (cases "zero_transaction c b (od_id (dt_order d)) w1")
      case (Inl e)
      with z show ?thesis by (auto simp: confirmWithoutOnlineCollection_def)
    next
      case (Inr t)
      obtain m w2 where t: "zero_transaction c b (od_id (dt_order d)) w1 = Inr (m, w2)" using Inr by (cases t) simp
      note Z = zero_leaves [OF t inv]
      obtain det where "detailFor (od_id (dt_order d)) (w_orders w2) = Inr det" using detail_found Z by blast
      with z t Z show ?thesis
        by (cases m) (auto simp: confirmWithoutOnlineCollection_def assertBookingConfirmed_def findById_def booking_at_def
            bind_res_def Let_def split: if_splits)
    qed
    with o True pm show ?thesis by (intro disjI2) auto
  qed
qed

theorem checkout_endings_witness:
  "\<exists>h x w'. platform_history shop_env h \<and> checkout shop_env (at_time 0) shop_request (hd h) = (Inr x, w') \<and> xr_booking x = 2 \<and>
     xr_redirectUrl x \<noteq> None \<and> w' = shop_ordered\<lparr>w_payments := w_payments w'\<rparr>"
proof -
  obtain h where h: "platform_history shop_env h" "hd h = shop_open" using shop_open_history by blast
  obtain x w' where r: "checkout shop_env (at_time 0) shop_request (hd h) = (Inr x, w')" using shop_starts h(2) by auto
  have c: "sc_collectible (dt_schedule shop_detail) \<noteq> 0" by (simp add: shop_detail_def shop_schedule_def)
  from checkout_endings [OF h(1) r] h(2) shop_checkout_opens c
  have "w' = shop_ordered\<lparr>w_payments := w_payments w'\<rparr>" "xr_booking x = 2" "xr_redirectUrl x \<noteq> None" by auto
  with h(1) r show ?thesis by blast
qed

text \<open>Paying again. A retry answers an address only when the order is the customer's own and pending, the latest
  intent of the order is the customer's, not paid, cancelled or expired and can be retried, and no attempt of it
  is waiting for its verification; a refused retry writes nothing, and no retry touches bookings, orders or credits.\<close>

theorem retry_only_when_payable:
  assumes "retryPayment env c orderId customerId url w = (r, w')"
  shows "w' = w\<lparr>w_payments := w_payments w'\<rparr> \<and>
    (case retry_guards (ck_js c) orderId customerId w of
       Inl e \<Rightarrow> r = Inl e \<and> w' = w
     | Inr it \<Rightarrow> (\<exists>od. order_at (w_orders w) orderId = Some od \<and> od_customer od = customerId \<and> od_status od = OrdPending) \<and>
         findLatestIntentForOrder orderId (w_payments w) = Some it \<and> pi_customer it = customerId \<and>
         pi_status it \<in> {IntCreated, IntPending, IntFailed} \<and> ck_js c < pi_expiresAt it \<and>
         findOpenAttemptForIntent (pi_id it) (w_payments w) = None)"
proof (cases "retry_guards (ck_js c) orderId customerId w")
  case (Inl e)
  with assms show ?thesis by (auto simp: retryPayment_def)
next
  case (Inr it)
  then have "(\<exists>od. order_at (w_orders w) orderId = Some od \<and> od_customer od = customerId \<and> od_status od = OrdPending) \<and>
         findLatestIntentForOrder orderId (w_payments w) = Some it \<and> pi_customer it = customerId \<and>
         pi_status it \<notin> {IntSucceeded, IntExpired, IntCancelled} \<and> ck_js c < pi_expiresAt it \<and>
         findOpenAttemptForIntent (pi_id it) (w_payments w) = None"
    by (auto simp: retry_guards_def order_findById_def split: option.splits if_splits)
  then show ?thesis using assms Inr by (cases "pi_status it") (auto simp: retryPayment_def split: prod.splits)
qed

theorem retry_only_when_payable_witness:
  "retryPayment shop_env (at_time 1) 0 9 ''cb'' shop_pending = (Inl RetryIntentNotFound, shop_pending) \<and>
   retry_guards 1 0 7 shop_pending = Inl (PaymentRetryNotAvailable VerificationPending)"
proof -
  have "retry_guards 1 0 9 shop_pending = Inl RetryIntentNotFound"
    by (simp add: retry_guards_def order_findById_def order_at_def tget_def shop_pending_def shop_ordered_def shop_placed_def shop_order_def)
  with retry_only_when_payable [OF prod.collapse [symmetric], of shop_env "at_time 1" 0 9 "''cb''" shop_pending]
  have "retryPayment shop_env (at_time 1) 0 9 ''cb'' shop_pending = (Inl RetryIntentNotFound, shop_pending)"
    by (simp add: at_time_def) (metis prod.collapse)
  moreover have "retry_guards 1 0 7 shop_pending = Inl (PaymentRetryNotAvailable VerificationPending)"
    by (simp add: retry_guards_def order_findById_def order_at_def tget_def shop_pending_def shop_ordered_def shop_placed_def shop_order_def
        findLatestIntentForOrder_def latest_def shop_pay_open_def shop_intent_def demo_rows findOpenAttemptForIntent_def)
  ultimately show ?thesis by simp
qed

end
