(* ===== verification/Outcome_Decided.thy ===== *)
theory Outcome_Decided
  imports Platform_History
begin

text \<open>
  What the orchestrator writes always fits its table: the evaluator's answer satisfies the CHECKs of
  \<open>booking_outcome_decisions\<close> and the row it makes satisfies the integrity trigger, so a decision is never refused by
  the database. And what later states keep of a decision and of a choice.
\<close>

section \<open>The evaluator meets the CHECKs\<close>

definition evaluation_fits :: "evaluation_input \<Rightarrow> evaluation \<Rightarrow> bool" where
  "evaluation_fits inp e \<longleftrightarrow>
    0 \<le> ev_policyAmount e \<and> 0 \<le> ev_retained e \<and> 0 \<le> ev_refund e \<and> ev_retained e + ev_refund e = ei_collectedRemaining inp \<and>
    (case ev_legalCap e of None \<Rightarrow> True | Some c \<Rightarrow> 0 \<le> c) \<and>
    (ev_legalCapState e = CapApplied \<longleftrightarrow> ev_legalCap e \<noteq> None) \<and>
    (ei_terms inp = None \<longrightarrow> ev_policyAmount e = 0 \<and> ev_legalCapState e = CapAbsent) \<and>
    (ev_retained e \<noteq> 0 \<longrightarrow> ev_basis e = BasisCapApplied) \<and>
    (ev_basis e = BasisCapApplied \<longrightarrow> ei_bookingWasConfirmed inp \<and> ei_terms inp \<noteq> None \<and> ev_legalCapState e = CapApplied \<and>
       (case ev_legalCap e of None \<Rightarrow> False | Some c \<Rightarrow> ev_retained e = min3 (ev_policyAmount e) c (ei_collectedRemaining inp)) \<and>
       (ei_cause inp = Customer \<and> ei_timely inp = Some False \<or> ei_cause inp = NoShow)) \<and>
    (ev_basis e = LegacyUnenrolled \<longrightarrow> ei_terms inp = None) \<and>
    (ev_basis e = NonCustomerCause \<longrightarrow> ei_cause inp \<noteq> Customer) \<and>
    (ev_basis e = NotConfirmed \<longrightarrow> \<not> ei_bookingWasConfirmed inp) \<and>
    (ev_basis e = Timely \<longrightarrow> ei_timely inp = Some True) \<and>
    (ev_basis e = BasisCapAbsent \<longrightarrow> ev_legalCapState e = CapAbsent) \<and>
    (ev_basis e = BasisCapRetired \<longrightarrow> ev_legalCapState e = CapRetired)"

lemma zero_fits:
  assumes "0 \<le> ei_collectedRemaining inp" "0 \<le> p" "\<And>c. a = Some c \<Longrightarrow> 0 \<le> c" "st = CapApplied \<longleftrightarrow> a \<noteq> None"
    "ei_terms inp = None \<longrightarrow> p = 0 \<and> st = CapAbsent" "b \<noteq> BasisCapApplied" "b = LegacyUnenrolled \<longrightarrow> ei_terms inp = None"
    "b = NonCustomerCause \<longrightarrow> ei_cause inp \<noteq> Customer" "b = NotConfirmed \<longrightarrow> \<not> ei_bookingWasConfirmed inp"
    "b = Timely \<longrightarrow> ei_timely inp = Some True" "b = BasisCapAbsent \<longrightarrow> st = CapAbsent" "b = BasisCapRetired \<longrightarrow> st = CapRetired"
  shows "evaluation_fits inp (zero_evaluation (ei_collectedRemaining inp) b p a st)"
  using assms by (auto simp: evaluation_fits_def split: option.splits)

lemma evaluate_fits:
  assumes "0 \<le> ei_collectedRemaining inp"
  shows "\<exists>e. evaluateBookingOutcome inp = Inr e \<and> evaluation_fits inp e"
proof (cases "ei_terms inp")
  case None
  with assms zero_fits [OF assms, of 0 None CapAbsent LegacyUnenrolled] show ?thesis by (simp add: evaluateBookingOutcome_def Let_def)
next
  case t: (Some t)
  let ?c = "ei_collectedRemaining inp"
  have nn: "\<not> ?c < 0" using assms by simp
  have pr: "(if ei_cause inp = NoShow then et_noShowRetention t else et_lateCancellationRetention t) = policy_rule inp t"
    by (simp add: policy_rule_def)
  show ?thesis
  proof (cases "retentionAmount (policy_rule inp t) ?c = None \<or> ei_cause inp \<noteq> NoShow \<and> ei_timely inp = None")
    case True
    with nn t zero_fits [OF assms, of 0 None CapAbsent InvalidTerms] show ?thesis
      by (auto simp: evaluateBookingOutcome_def Let_def pr split: option.splits)
  next
    case no: False
    then obtain p where p: "retentionAmount (policy_rule inp t) ?c = Some p" by auto
    have tm: "(ei_cause inp \<noteq> NoShow \<and> ei_timely inp = None) = False" using no by blast
    have p0: "0 \<le> p" by (rule retentionAmount_bounds(1) [OF p assms])
    obtain s a where sa: "effective_cap (ei_legalCapState inp) (et_legalCap t) ?c = (s, a)" by force
    have st: "s = CapApplied \<longleftrightarrow> a \<noteq> None" using effective_cap_state [OF sa] by blast
    have a0: "0 \<le> c" if "a = Some c" for c using effective_cap_nonneg [of _ _ ?c s c] sa that assms by simp
    have zero: "evaluation_fits inp (zero_evaluation ?c b p a s)"
      if "b \<in> {NonCustomerCause, NotConfirmed, Timely}" "b = NonCustomerCause \<longrightarrow> ei_cause inp \<noteq> Customer"
        "b = NotConfirmed \<longrightarrow> \<not> ei_bookingWasConfirmed inp" "b = Timely \<longrightarrow> ei_timely inp = Some True" for b
      by (rule zero_fits [OF assms p0 a0 st]) (use that t in auto)
    have nocap: "evaluation_fits inp (zero_evaluation ?c BasisCapRetired p None CapRetired)"
      "evaluation_fits inp (zero_evaluation ?c BasisCapAbsent p None CapAbsent)"
      by (rule zero_fits [OF assms p0]; simp add: t)+
    have applied: "evaluation_fits inp \<lparr>ev_basis = BasisCapApplied, ev_policyAmount = p, ev_legalCap = Some c,
        ev_legalCapState = CapApplied, ev_retained = min3 p c ?c, ev_refund = ?c - min3 p c ?c\<rparr>"
      if "a = Some c" "ei_bookingWasConfirmed inp" "ei_cause inp = Customer \<and> ei_timely inp = Some False \<or> ei_cause inp = NoShow" for c
      using that min3_bounds [of p c ?c] p0 a0 [OF that(1)] assms t by (auto simp: evaluation_fits_def)
    have ev: "evaluateBookingOutcome inp =
       (if ei_cause inp \<noteq> NoShow \<and> ei_cause inp \<noteq> Customer then Inr (zero_evaluation ?c NonCustomerCause p a s)
        else if \<not> ei_bookingWasConfirmed inp then Inr (zero_evaluation ?c NotConfirmed p a s)
        else if ei_cause inp \<noteq> NoShow \<and> ei_timely inp = Some True then Inr (zero_evaluation ?c Timely p a s)
        else if s = CapRetired then Inr (zero_evaluation ?c BasisCapRetired p None CapRetired)
        else case a of None \<Rightarrow> Inr (zero_evaluation ?c BasisCapAbsent p None CapAbsent)
          | Some c \<Rightarrow> if s = CapAbsent then Inr (zero_evaluation ?c BasisCapAbsent p None CapAbsent)
             else Inr \<lparr>ev_basis = BasisCapApplied, ev_policyAmount = p, ev_legalCap = Some c, ev_legalCapState = CapApplied,
               ev_retained = min3 p c ?c, ev_refund = ?c - min3 p c ?c\<rparr>)"
      unfolding evaluateBookingOutcome_def Let_def by (simp add: pr sa p t nn tm)
    consider "ei_cause inp \<noteq> NoShow \<and> ei_cause inp \<noteq> Customer" | "\<not> (ei_cause inp \<noteq> NoShow \<and> ei_cause inp \<noteq> Customer)" "\<not> ei_bookingWasConfirmed inp"
      | "ei_cause inp = Customer" "ei_bookingWasConfirmed inp" "ei_timely inp = Some True"
      | "ei_bookingWasConfirmed inp" "ei_cause inp = Customer \<and> ei_timely inp = Some False \<or> ei_cause inp = NoShow"
      using no by (cases "ei_timely inp") auto
    then show ?thesis
    proof cases
      case 4
      show ?thesis
      proof (cases a)
        case None
        with 4 no nocap st show ?thesis by (cases s) (auto simp: ev)
      next
        case (Some c)
        with st have "s = CapApplied" by simp
        with 4 no Some applied [OF Some] show ?thesis by (auto simp: ev)
      qed
    qed (use no zero in \<open>auto simp: ev\<close>)
  qed
qed

abbreviation outcome_input :: "outcome_cause \<Rightarrow> bool \<Rightarrow> bool option \<Rightarrow> int \<Rightarrow> decision_terms option \<Rightarrow> evaluation_input" where
  "outcome_input cause conf timely n terms \<equiv> \<lparr>ei_cause = cause, ei_bookingWasConfirmed = conf,
     ei_timely = (if terms = None then None else timely), ei_collectedRemaining = n, ei_terms = map_option evaluation_terms_of terms,
     ei_legalCapState = (case terms of None \<Rightarrow> CapAbsent | Some t \<Rightarrow> dm_legalCapState t)\<rparr>"

lemma evaluate_for_fits:
  assumes "0 \<le> n"
  shows "\<exists>e. evaluate_for cause conf timely n terms = Inr e \<and> evaluation_fits (outcome_input cause conf timely n terms) e"
proof -
  have "0 \<le> ei_collectedRemaining (outcome_input cause conf timely n terms)" using assms by simp
  from evaluate_fits [OF this] show ?thesis unfolding evaluate_for_def by fastforce
qed

lemma known_cause: "\<exists>cause. outcome_cause_of facts = Inr cause \<and> cause \<noteq> NoShow"
  by (cases "cf_cancelledBy facts") (simp_all add: outcome_cause_of_def actor_type_name_def bookingOutcomeCauseForActor_def)

text \<open>The facts carry a cutoff instant exactly when the terms give cutoff hours, and compare the event with it.\<close>

definition facts_ok :: "'a option \<Rightarrow> cancellation_facts \<Rightarrow> bool" where
  "facts_ok terms facts \<longleftrightarrow> (cf_timely facts = None \<longleftrightarrow> terms = None) \<and> (cf_cutoffInstant facts = None \<longleftrightarrow> terms = None) \<and>
     (case (cf_timely facts, cf_cutoffInstant facts) of (Some t, Some c) \<Rightarrow> t = (cf_eventInstant facts \<le> c) | _ \<Rightarrow> True)"

lemma facts_of_booking:
  assumes "cancellationFacts b (map_option dm_cutoffHours terms) s = Some facts"
  shows "facts_ok terms facts"
  using assms by (auto simp: cancellationFacts_def facts_ok_def split: option.splits)

lemma cancellation_row_fits:
  assumes "evaluation_fits (outcome_input cause (cf_wasConfirmed facts) (cf_timely facts) n terms) e" "facts_ok terms facts"
    "cf_eventInstant facts \<le> now" "cause \<noteq> NoShow"
  shows "decision_row_ok now (cancellationRow b lo terms facts cause (bookingCancellationRefundKey (show_nat b)) n e (ev_retained e) (ev_refund e)
      (EvalBasis (ev_basis e)) (if 0 < ev_refund e then ExecPending else Executed))"
  using assms unfolding decision_row_ok_def cancellationRow_def evaluation_fits_def facts_ok_def
  by (simp split: option.splits if_splits)

lemma adopted_row_fits:
  assumes "evaluation_fits (outcome_input cause (cf_wasConfirmed facts) (cf_timely facts) n terms) e" "facts_ok terms facts"
    "cf_eventInstant facts \<le> now" "cause \<noteq> NoShow" "0 < n"
  shows "decision_row_ok now (cancellationRow b lo terms facts cause (bookingCancellationRefundKey (show_nat b)) n e 0 n PreExistingRefund st)"
  using assms unfolding decision_row_ok_def cancellationRow_def evaluation_fits_def facts_ok_def
  by (simp split: option.splits if_splits)

lemma no_show_row_fits:
  assumes "evaluation_fits (outcome_input NoShow True None n terms) e" "nd_declaredAt dec \<le> now"
  shows "decision_row_ok now (noShowRow b lo terms dec n e)"
  using assms unfolding decision_row_ok_def noShowRow_def evaluation_fits_def
  by (simp split: option.splits if_splits)

text \<open>The trigger: the order is the booking's and the terms are the order's.\<close>

lemma integrity_of_lock:
  assumes "lockOrderForBooking b s = Some lo" "order_inv s" "de_booking d = b" "de_order d = lo_order lo"
    "de_policyKey d = map_option dm_policyKey (termsFor ev (lo_order lo) s)" "de_policyVersion d = map_option dm_policyVersion (termsFor ev (lo_order lo) s)"
  shows "decision_integrity d s"
  using locked_order_at [OF assms(1,2)] assms(3-6)
  by (auto simp: decision_integrity_def termsFor_def Let_def split: option.splits)

section \<open>Every cancellation is decided\<close>

lemma record_fresh:
  assumes "decision_integrity d s" "decision_row_ok now d" "liveDecision (de_booking d) (de_kind d) s = None"
  shows "\<exists>row s'. recordDecision now d s = Inr (row, s') \<and> row = d\<lparr>de_id := om_next s, de_supersededBy := None, de_decidedAt := now\<rparr>"
  using assms by (simp add: recordDecision_def write_decision_def Let_def)

lemma live_kept: "om_decisions s' = om_decisions s \<Longrightarrow> liveDecision b k s' = liveDecision b k s"
  by (simp add: liveDecision_def)

lemma settle_total:
  assumes "decision_integrity d s" "decision_row_ok now d" "liveDecision (de_booking d) (de_kind d) s = None" "decisions_ok s"
    "0 < de_refund d \<longrightarrow> (\<exists>od. order_at s (de_order d) = Some od \<and> 0 < od_collected od)"
  shows "\<exists>row s'. settle_cancellation now b lo d s = Inr (row, s') \<and> row = d\<lparr>de_id := om_next s, de_supersededBy := None, de_decidedAt := now\<rparr> \<and>
    liveDecision (de_booking d) (de_kind d) s' = Some row"
proof -
  from record_fresh [OF assms(1-3)] obtain row s1 where r: "recordDecision now d s = Inr (row, s1)"
    and row: "row = d\<lparr>de_id := om_next s, de_supersededBy := None, de_decidedAt := now\<rparr>" by blast
  let ?s' = "offer_remedy b lo (de_cause d) (close_uncollected now b lo s1)"
  have "om_decisions (close_uncollected now b lo s1) = om_decisions s1"
    using cancel_keeps [of now "lo_order lo" _ s1] by (simp add: close_uncollected_def decisions_kept_def) (metis prod.collapse)
  moreover have "om_decisions (offer_remedy b lo c t) = om_decisions t" for c t by (simp add: offer_remedy_def offerDefault_def)
  ultimately have "liveDecision (de_booking d) (de_kind d) ?s' = Some row"
    using recordDecision_ok [OF r assms(4,5)] live_kept [of ?s' s1] by simp
  with r row show ?thesis by (simp add: settle_cancellation_def)
qed

lemma refund_positive: "payment_inv s \<Longrightarrow> r \<in> set (pm_refunds s) \<Longrightarrow> 0 < rf_amount r"
  by (auto dest: payment_invD(5) simp: refund_ok_def)

text \<open>The amounts of a fresh decision: what is left of the collected money is split, or an earlier refund of the
  booking is adopted as it stands.\<close>

definition decided_amounts :: "locked_order \<Rightarrow> (int \<times> refund_status) option \<Rightarrow> int \<Rightarrow> outcome_decision \<Rightarrow> bool" where
  "decided_amounts lo keyRefund other d \<longleftrightarrow> 0 \<le> de_retained d \<and> 0 \<le> de_refund d \<and> de_retained d + de_refund d = de_collectedRemaining d \<and>
     (case keyRefund of
        None \<Rightarrow> de_collectedRemaining d = max 0 (lo_collected lo - max (lo_refunded lo) other) \<and>
          (de_execution d = ExecPending \<longleftrightarrow> 0 < de_refund d)
      | Some (n, st) \<Rightarrow> de_retained d = 0 \<and> de_refund d = n \<and> de_execution d = executionStatusOf st)"

lemma cancellation_decision_total:
  assumes "full_inv w" "lockOrderForBooking b (w_orders w) = Some lo"
    "cancellationFacts b (map_option dm_cutoffHours (termsFor ev (lo_order lo) (w_orders w))) (w_bookings w) = Some facts"
    "cf_eventInstant facts \<le> now"
    "orderRefundCommitments (lo_order lo) (bookingCancellationRefundKey (show_nat b)) (w_payments w) = (kr, other)"
  shows "\<exists>d. cancellation_decision ev b lo facts w = Inr d \<and> decision_row_ok now d \<and> decision_integrity d (w_orders w) \<and>
    de_booking d = b \<and> de_kind d = KindCancellation \<and> decided_amounts lo kr other d"
proof -
  let ?k = "bookingCancellationRefundKey (show_nat b)" and ?terms = "termsFor ev (lo_order lo) (w_orders w)"
  note fo = facts_of_booking [OF assms(3)]
  obtain cause where c: "outcome_cause_of facts = Inr cause" "cause \<noteq> NoShow" using known_cause by blast
  note int = integrity_of_lock [OF assms(2) full_invD(4) [OF assms(1)], of _ ev]
  show ?thesis
  proof (cases kr)
    case None
    let ?n = "collected_left lo other"
    obtain e where e: "evaluate_for cause (cf_wasConfirmed facts) (cf_timely facts) ?n ?terms = Inr e"
      "evaluation_fits (outcome_input cause (cf_wasConfirmed facts) (cf_timely facts) ?n ?terms) e"
      using evaluate_for_fits [OF collected_left_bounds(1)] by blast
    let ?d = "cancellationRow b lo ?terms facts cause ?k ?n e (ev_retained e) (ev_refund e) (EvalBasis (ev_basis e))
      (if 0 < ev_refund e then ExecPending else Executed)"
    have "cancellation_decision ev b lo facts w = Inr ?d"
      using assms(5) None c(1) e(1) by (simp add: cancellation_decision_def evaluateCancellation_def Let_def)
    moreover have "decision_row_ok now ?d" by (rule cancellation_row_fits [OF e(2) fo assms(4) c(2)])
    moreover have "decision_integrity ?d (w_orders w)" by (rule int) (simp_all add: cancellationRow_def)
    moreover have "decided_amounts lo kr other ?d"
      using e(2) by (simp add: decided_amounts_def cancellationRow_def None evaluation_fits_def collected_left_def Let_def)
    ultimately show ?thesis by (intro exI [of _ ?d]) (simp add: cancellationRow_def)
  next
    case (Some p)
    obtain n st where p: "p = (n, st)" by force
    from commitments_committed(2) [OF assms(5)] Some p obtain r where "r \<in> set (pm_refunds (w_payments w))" "rf_amount r = n"
      by auto
    with refund_positive [OF full_invD(6) [OF assms(1)]] have n: "0 < n" by blast
    obtain e where e: "evaluate_for cause (cf_wasConfirmed facts) (cf_timely facts) n ?terms = Inr e"
      "evaluation_fits (outcome_input cause (cf_wasConfirmed facts) (cf_timely facts) n ?terms) e"
      using evaluate_for_fits [of n] n by fastforce
    let ?d = "cancellationRow b lo ?terms facts cause ?k n e 0 n PreExistingRefund (executionStatusOf st)"
    have "cancellation_decision ev b lo facts w = Inr ?d"
      using assms(5) Some p c(1) e(1) n by (simp add: cancellation_decision_def adoptExistingRefund_def)
    moreover have "decision_row_ok now ?d" by (rule adopted_row_fits [OF e(2) fo assms(4) c(2) n])
    moreover have "decision_integrity ?d (w_orders w)" by (rule int) (simp_all add: cancellationRow_def)
    moreover have "decided_amounts lo kr other ?d"
      using n by (simp add: decided_amounts_def cancellationRow_def Some p)
    ultimately show ?thesis by (intro exI [of _ ?d]) (simp add: cancellationRow_def)
  qed
qed

section \<open>Decisions and choices are final\<close>

text \<open>A live cancellation or no-show decision stays the live one; only its execution is filled in, once.\<close>

definition final_kind :: "decision_kind \<Rightarrow> bool" where
  "final_kind k \<longleftrightarrow> k \<in> {KindCancellation, KindNoShow}"

definition same_decision :: "outcome_decision \<Rightarrow> outcome_decision \<Rightarrow> bool" where
  "same_decision d d' \<longleftrightarrow> d' = d\<lparr>de_execution := de_execution d'\<rparr> \<and> (de_execution d \<noteq> ExecPending \<longrightarrow> d' = d)"

definition outcome_le :: "order_db \<Rightarrow> order_db \<Rightarrow> bool" where
  "outcome_le s s' \<longleftrightarrow>
    (\<forall>b k d. final_kind k \<and> liveDecision b k s = Some d \<longrightarrow> (\<exists>d'. liveDecision b k s' = Some d' \<and> same_decision d d')) \<and>
    (\<forall>i r. resolution i s = Some r \<and> rm_resolvedBy r = ResolvedByCustomer \<longrightarrow> resolution i s' = Some r)"

lemma same_decision_refl [simp]: "same_decision d d"
  by (simp add: same_decision_def)

lemma same_decision_trans: "same_decision d e \<Longrightarrow> same_decision e f \<Longrightarrow> same_decision d f"
  unfolding same_decision_def by (cases d; cases e; cases f) auto

lemma outcome_le_refl [simp]: "outcome_le s s"
  by (auto simp: outcome_le_def)

lemma outcome_le_trans:
  assumes "outcome_le s t" "outcome_le t u"
  shows "outcome_le s u"
  unfolding outcome_le_def
proof (intro conjI allI impI; elim conjE)
  fix b k d
  assume "final_kind k" "liveDecision b k s = Some d"
  with assms obtain e f where "same_decision d e" "liveDecision b k u = Some f" "same_decision e f" unfolding outcome_le_def by metis
  then show "\<exists>d'. liveDecision b k u = Some d' \<and> same_decision d d'" using same_decision_trans by blast
next
  fix i r
  assume "resolution i s = Some r" "rm_resolvedBy r = ResolvedByCustomer"
  then show "resolution i u = Some r" using assms unfolding outcome_le_def by blast
qed

lemma outcome_le_same: "om_decisions s' = om_decisions s \<Longrightarrow> om_remedies s' = om_remedies s \<Longrightarrow> outcome_le s s'"
  by (auto simp: outcome_le_def liveDecision_def resolution_def)

lemma outcome_le_kept: "decisions_kept s s' \<Longrightarrow> outcome_le s s'"
  by (rule outcome_le_same) (simp_all add: decisions_kept_def)

lemma find_append_Some: "find P xs = Some x \<Longrightarrow> find P (xs @ ys) = Some x"
  by (induction xs) auto

lemma outcome_le_write: "outcome_le s (snd (write_decision now d s))"
  by (auto simp: outcome_le_def liveDecision_def write_decision_def Let_def resolution_def intro: find_append_Some)

lemma outcome_le_record: "recordDecision now d s = Inr (r, s') \<Longrightarrow> outcome_le s s'"
  using outcome_le_write [of s now d] by (auto simp: recordDecision_def split: if_splits option.splits)

lemma find_tupd:
  assumes "\<And>x. P (f x) = P x"
  shows "find P (tupd Q f xs) = map_option (\<lambda>x. if Q x then f x else x) (find P xs)"
  using assms by (induction xs) (auto simp: tupd_def)

lemma outcome_le_execution: "outcome_le s (snd (recordExecution i st s))"
proof -
  let ?s = "snd (recordExecution i st s)" and ?Q = "\<lambda>d. de_id d = i \<and> de_execution d = ExecPending" and ?f = "\<lambda>d. d\<lparr>de_execution := st\<rparr>"
  have "liveDecision b k ?s = map_option (\<lambda>d. if ?Q d then ?f d else d) (liveDecision b k s)" for b k
    unfolding liveDecision_def recordExecution_def Let_def by (simp add: find_tupd live_decision_def)
  moreover have "resolution j ?s = resolution j s" for j by (simp add: resolution_def recordExecution_def Let_def)
  ultimately show ?thesis by (auto simp: outcome_le_def same_decision_def)
qed

lemma outcome_le_superseding:
  assumes "recordSupersedingDecision now d s = Inr (r, s')" "\<not> final_kind (de_kind d)"
  shows "outcome_le s s'"
proof -
  let ?P = "live_decision (de_booking d) (de_kind d)" and ?f = "\<lambda>x. x\<lparr>de_supersededBy := Some (om_next s)\<rparr>"
  let ?s1 = "s\<lparr>om_decisions := tupd ?P ?f (om_decisions s)\<rparr>"
  have "find (live_decision b k) (tupd ?P ?f xs) = find (live_decision b k) xs" if "final_kind k" for b k xs
    using that assms(2) by (induction xs) (auto simp: tupd_def live_decision_def)
  then have "outcome_le s ?s1" by (auto simp: outcome_le_def liveDecision_def resolution_def)
  moreover have "s' = snd (write_decision now d ?s1)" using assms(1) by (auto simp: recordSupersedingDecision_def Let_def split: if_splits)
  ultimately show ?thesis using outcome_le_write outcome_le_trans by blast
qed

lemma outcome_le_offer: "outcome_le s (offerDefault i b s)"
  by (auto simp: outcome_le_def offerDefault_def liveDecision_def resolution_def intro: find_append_Some)

lemma outcome_le_choose: "outcome_le s (snd (resolveReschedule i s))"
proof -
  let ?f = "\<lambda>r. r\<lparr>rm_resolvedBy := ResolvedByCustomer, rm_chosen := Some ChoseReschedule\<rparr>"
    and ?Q = "\<lambda>r. rm_order r = i \<and> rm_resolvedBy r = ResolvedByDefault"
  have "find (\<lambda>r. rm_order r = j) (tupd ?Q ?f xs) = map_option (\<lambda>r. if ?Q r then ?f r else r) (find (\<lambda>r. rm_order r = j) xs)"
    for j and xs :: "remedy_row list" by (rule find_tupd) simp
  then show ?thesis by (auto simp: outcome_le_def resolveReschedule_def Let_def resolution_def liveDecision_def)
qed

lemma outcome_le_settle:
  assumes "settle_cancellation now b lo d s = Inr (r, s')"
  shows "outcome_le s s'"
proof -
  from assms obtain s1 where r: "recordDecision now d s = Inr (r, s1)"
    and s': "s' = offer_remedy b lo (de_cause d) (close_uncollected now b lo s1)" by (auto simp: settle_cancellation_def bind_res_Inr)
  have "outcome_le s1 (close_uncollected now b lo s1)"
    using cancel_keeps [of now "lo_order lo" _ s1] by (auto simp: close_uncollected_def intro!: outcome_le_kept) (metis prod.collapse)
  moreover have "outcome_le t (offer_remedy b lo c t)" for c t by (simp add: offer_remedy_def outcome_le_offer)
  ultimately show ?thesis using outcome_le_record [OF r] outcome_le_trans unfolding s' by blast
qed

text \<open>One step of a history.\<close>

lemma callback_kept:
  assumes "settle_callback c p w = Inr (st, w')"
  shows "decisions_kept (w_orders w) (w_orders w')"
proof -
  from settle_effect [OF assms] obtain v pm e where "callback_end c v pm w st w' e" by blast
  then show ?thesis by (cases e) (auto dest: capture_keeps)
qed

lemma open_kept:
  assumes "open_booking env c inp w = Inr (r, w')"
  shows "decisions_kept (w_orders w) (w_orders w')"
proof -
  obtain b d where r: "r = (b, d)" by force
  from open_effect [OF assms [unfolded r]] obtain bs os k p clk now i where
    "createForBooking k p clk now i (w_orders w) (w_orders w) = Inr (d, os)" "w' = w\<lparr>w_bookings := bs, w_orders := os\<rparr>" by blast
  then show ?thesis by (auto dest: create_keeps)
qed

lemma zero_kept: "zero_transaction c b i w = Inr (r, w') \<Longrightarrow> decisions_kept (w_orders w) (w_orders w')"
  by (drule zero_transaction_effect) (auto dest: zero_keeps)

lemma consequence_effect:
  assumes "recordConsequence now g facts s = Inr s'"
  shows "\<exists>gc ev r. contextOf g facts = Inr gc \<and> evaluateReschedule gc facts = Inr ev \<and> \<not> 0 < ev_retained ev \<and>
    recordSupersedingDecision now (consequenceRow gc facts ev) s = Inr (r, s')"
  using assms by (auto simp: recordConsequence_def bind_res_Inr split: if_splits)

lemma consequence_le:
  assumes "recordConsequence now g facts s = Inr s'"
  shows "outcome_le s s'"
proof -
  from consequence_effect [OF assms] obtain gc ev r where "recordSupersedingDecision now (consequenceRow gc facts ev) s = Inr (r, s')" by blast
  then show ?thesis by (rule outcome_le_superseding) (simp add: consequenceRow_def final_kind_def)
qed

lemma decide_le:
  assumes "decideCancellation ev now b w = Inr (r, w')"
  shows "outcome_le (w_orders w) (w_orders w')"
  using decide_effect [OF assms] by (auto simp: fresh_cancellation_def dest: outcome_le_settle)

lemma decide_window_le:
  assumes "decideNoShowWindowOnly ev now b w = Inr (r, w')"
  shows "outcome_le (w_orders w) (w_orders w')"
  using decide_window_effect [OF assms] by (auto simp: fresh_no_show_def Let_def dest: outcome_le_record)

lemma resolve_le:
  assumes "resolveRemedy ports cfg c b cust choice slot w = Inr (r, w')"
  shows "outcome_le (w_orders w) (w_orders w')"
  using resolve_effect [OF assms] outcome_le_choose by (auto simp: remedy_taken_def) (metis snd_conv)

definition final_until :: "platform list \<Rightarrow> bool" where
  "final_until h \<longleftrightarrow> h \<noteq> [] \<and> (\<forall>w \<in> set h. outcome_le (w_orders w) (w_orders (hd h)))"

lemma final_next: "final_until h \<Longrightarrow> outcome_le (w_orders (hd h)) (w_orders w') \<Longrightarrow> final_until (w' # h)"
  using outcome_le_trans by (auto simp: final_until_def)

lemma history_final: "platform_history env h \<Longrightarrow> final_until h"
proof (induction rule: platform_history.induct)
  case ph_start
  show ?case by (simp add: final_until_def)
next
  case (ph_open h env' c inp r w')
  from final_next [OF this(4) outcome_le_kept [OF open_kept [OF this(2)]]] show ?case .
next
  case (ph_zero h w0 w1 env' c0 inp b d c z w')
  from final_next [OF this(6) outcome_le_kept [OF zero_kept [OF this(5)]]] show ?case .
next
  case (ph_callback h rd ps clk k ref params p c st w')
  from final_next [OF this(5) outcome_le_kept [OF callback_kept [OF this(4)]]] show ?case .
next
  case (ph_cancel_order h now i reason dn os)
  from final_next [OF this(3), of "(hd h)\<lparr>w_orders := os\<rparr>"] outcome_le_kept [OF cancel_keeps [OF this(2)]] show ?case by simp
next
  case (ph_refund_order h i v rid dn os)
  from final_next [OF this(3), of "(hd h)\<lparr>w_orders := os\<rparr>"] outcome_le_kept [OF refund_keeps [OF this(2)]] show ?case by simp
next
  case (ph_decide h ev now b rd' w')
  from final_next [OF this(3) decide_le [OF this(2)]] show ?case .
next
  case (ph_no_show h ev now b rd' w')
  from final_next [OF this(3) decide_window_le [OF this(2)]] show ?case .
next
  case (ph_execution h st i dn os)
  have "os = snd (recordExecution i st (w_orders (hd h)))" using ph_execution(3) by simp
  with final_next [OF ph_execution(4), of "(hd h)\<lparr>w_orders := os\<rparr>"] outcome_le_execution show ?case by simp
next
  case (ph_consequence h now g facts os)
  from final_next [OF this(3), of "(hd h)\<lparr>w_orders := os\<rparr>"] consequence_le [OF this(2)] show ?case by simp
next
  case (ph_remedy h ports c b cust choice slot rm w')
  from final_next [OF this(3) resolve_le [OF this(2)]] show ?case .
qed (rule final_next, assumption, simp)+

end
