(* ===== verification/Outcome_Redelivery.thy ===== *)
theory Outcome_Redelivery
  imports Outcome_Decided
begin

text \<open>
  What a redelivered event does: a refund asked for again, a decision executed again, and \<open>BookingCancelled\<close>
  handled again.
\<close>

section \<open>Refunds asked for twice\<close>

text \<open>A refund call leaves the payments as they were and would fail or answer the same again, or it leaves a row of
  its key, which every later call answers.\<close>

lemma refund_again:
  assumes "refund ps now inp s s = (x, s1)" "payment_inv s"
  shows "s1 = s \<and> (\<forall>now'. refund ps now' inp s1 s1 = (x, s1)) \<or>
    (\<exists>r. (\<forall>now'. refund ps now' inp s1 s1 = (Inr r, s1)) \<and> (x = Inr r \<or> rf_status r = RefPending))"
proof (cases "refund_reads inp s")
  case (Inr plan)
  show ?thesis
  proof (cases plan)
    case (RefundPlan n it att)
    from assms(1) Inr RefundPlan obtain rc s2 where c: "claim_refund inp n it att s = (rc, s2)" by (metis prod.collapse)
    have key: "refund_by_key (ri_order inp) (ri_key inp) s = None" and am: "assertNonNegativeAmount (ri_amount inp) ''refund amount'' = Inr n"
      using Inr RefundPlan by (auto simp: refund_reads_def bind_res_Inr split: option.splits)
    from claim_effect [OF c] show ?thesis
    proof (elim disjE conjE)
      assume "s2 = s" "\<forall>i. rc \<noteq> Inr (Claimed i)"
      with assms(1) Inr RefundPlan c have "s1 = s \<and> (\<forall>now'. refund ps now' inp s s = (x, s))"
        by (auto simp: refund_def split: sum.splits refund_claim.splits)
      then show ?thesis by blast
    next
      let ?r = "new_refund (pm_next s) inp n it att"
      assume rc: "rc = Inr (Claimed (pm_next s))" and s2: "s2 = s\<lparr>pm_next := Suc (pm_next s), pm_refunds := pm_refunds s @ [?r]\<rparr>"
      have fresh: "find (\<lambda>x. rf_order x = ri_order inp \<and> rf_key x = ri_key inp) (pm_refunds s) = None" using key by (simp add: refund_by_key_def)
      have found: "refund_by_key (ri_order inp) (ri_key inp) t = Some r \<Longrightarrow> refund ps now' inp t t = (Inr r, t)" for t r now'
        by (simp add: refund_def refund_reads_def am)
      have two: "find P (xs @ [y]) = Some y" if "find P xs = None" "P y" for P xs and y :: payment_refund
        using that by (induction xs) (auto split: if_splits)
      have new: "rf_order ?r = ri_order inp" "rf_key ?r = ri_key inp" "rf_status ?r = RefPending" "rf_id ?r = pm_next s" by (simp_all add: new_refund_def)
      have st: "settle_refund now (ask_gateway ps inp n it att) (pm_next s) s2 = (x, s1)"
        using assms(1) Inr RefundPlan c rc by (simp add: refund_def)
      have key2: "refund_by_key (ri_order inp) (ri_key inp) s2 = Some ?r" using two [OF fresh, of ?r] new by (simp add: refund_by_key_def s2)
      show ?thesis
      proof (cases "ask_gateway ps inp n it att")
        case (GatewayFails e)
        with st have "s1 = s2" by (simp add: settle_refund_def)
        with found [OF key2] new show ?thesis by blast
      next
        case (GatewaySettles status reference code)
        let ?P = "\<lambda>x. rf_id x = pm_next s \<and> rf_status x = RefPending" and ?f = "completed now status reference code"
        have ids: "rf_id y \<noteq> pm_next s" if "y \<in> set (pm_refunds s)" for y
          using that payment_invD(1) [OF assms(2)] by (auto simp: ids_ok_def)
        then have "tupd ?P g (pm_refunds s) = pm_refunds s" for g by (auto simp: tupd_def intro: map_idI)
        then have rows: "tupd ?P g (pm_refunds s2) = pm_refunds s @ [g ?r]" for g using new by (simp add: s2 tupd_def)
        have one: "taffected ?P (pm_refunds s2) = 1" using ids new by (simp add: taffected_def s2 filter_empty_conv)
        have "find (\<lambda>y. rf_id y = pm_next s) (pm_refunds s) = None" using ids by (auto simp: find_None_iff)
        then have at: "tget rf_id (pm_next s) (pm_refunds s @ [completed now z reference code ?r]) = Some (completed now z reference code ?r)" for z
          unfolding tget_def by (rule two) (simp add: completed_def new)
        have "x = Inr (?f ?r) \<and> pm_refunds s1 = pm_refunds s @ [?f ?r]"
          using st one at unfolding GatewaySettles
          by (auto simp: settle_refund_def completeRefund_def Let_def completed_fun rows refund_at_def emit_payment_def split: if_splits)
        moreover have "refund_by_key (ri_order inp) (ri_key inp) s1 = Some (?f ?r)"
          using calculation two [OF fresh, of "?f ?r"] new by (simp add: refund_by_key_def completed_def)
        ultimately show ?thesis using found by blast
      qed
    qed
  next
    case (RefundReplay r)
    with assms(1) Inr show ?thesis by (auto simp: refund_def)
  qed
next
  case (Inl e)
  with assms(1) show ?thesis by (auto simp: refund_def)
qed

lemma live_after_execution:
  "liveDecision b k (snd (recordExecution i st s)) =
     map_option (\<lambda>d. if de_id d = i \<and> de_execution d = ExecPending then d\<lparr>de_execution := st\<rparr> else d) (liveDecision b k s)"
  unfolding liveDecision_def recordExecution_def Let_def by (simp add: find_tupd live_decision_def)

text \<open>Executing the live decision again, after whatever the first execution did, changes nothing.\<close>

lemma execute_again:
  assumes "executeDecision ps now d reason w0 = (r, w1)" "payment_inv (w_payments w0)" "liveDecision b k (w_orders w0) = Some d"
  shows "\<exists>d1. liveDecision b k (w_orders w1) = Some d1 \<and> (\<forall>now'. snd (executeDecision ps now' d1 reason w1) = w1) \<and>
    om_remedies (w_orders w1) = om_remedies (w_orders w0) \<and> de_order d1 = de_order d \<and> de_kind d1 = de_kind d"
proof (cases "\<exists>key. de_requestKey d = Some key \<and> de_execution d = ExecPending \<and> 0 < de_refund d")
  case False
  have "executeDecision ps now' d reason w0 = (Inr (), w0)" for now'
    using False by (cases "de_requestKey d") (auto simp: executeDecision_def)
  with assms show ?thesis by (intro exI [of _ d]) simp
next
  case True
  then obtain key where k: "de_requestKey d = Some key" "de_execution d = ExecPending" "0 < de_refund d" by blast
  let ?i = "decision_refund d key reason"
  obtain x pm where x: "refund ps now ?i (w_payments w0) (w_payments w0) = (x, pm)" by force
  have ex: "executeDecision ps now' d reason w = (case refund ps now' ?i (w_payments w) (w_payments w) of
      (Inl e, pm) \<Rightarrow> (Inl (OutcomePayment e), w\<lparr>w_payments := pm\<rparr>)
    | (Inr r, pm) \<Rightarrow> (let status = executionStatusOf (rf_status r) in
         if status = ExecPending then (Inr (), w\<lparr>w_payments := pm\<rparr>)
         else (Inr (), w\<lparr>w_payments := pm, w_orders := snd (recordExecution (de_id d) status (w_orders w))\<rparr>)))" for now' w
    using k by (simp add: executeDecision_def)
  note again = refund_again [OF x assms(2)]
  show ?thesis
  proof (cases "\<exists>r. x = Inr r \<and> executionStatusOf (rf_status r) \<noteq> ExecPending")
    case True
    then obtain y where y: "x = Inr y" "executionStatusOf (rf_status y) \<noteq> ExecPending" by blast
    let ?s = "executionStatusOf (rf_status y)"
    have w1: "w1 = w0\<lparr>w_payments := pm, w_orders := snd (recordExecution (de_id d) ?s (w_orders w0))\<rparr>"
      using assms(1) x y by (simp add: ex Let_def)
    have "liveDecision b k (w_orders w1) = Some (d\<lparr>de_execution := ?s\<rparr>)" using assms(3) k(2) by (simp add: w1 live_after_execution)
    moreover have "snd (executeDecision ps now' (d\<lparr>de_execution := ?s\<rparr>) reason w1) = w1" for now'
      using k y(2) by (simp add: executeDecision_def)
    moreover have "om_remedies (w_orders w1) = om_remedies (w_orders w0)" by (simp add: w1 recordExecution_def Let_def)
    ultimately show ?thesis by (intro exI [of _ "d\<lparr>de_execution := ?s\<rparr>"]) simp
  next
    case False
    then have w1: "w1 = w0\<lparr>w_payments := pm\<rparr>" using assms(1) x by (cases x) (auto simp: ex Let_def)
    have "snd (executeDecision ps now' d reason w1) = w1" for now'
      using again
    proof (elim disjE exE conjE)
      assume "pm = w_payments w0" "\<forall>now'. refund ps now' ?i pm pm = (x, pm)"
      with False show ?thesis by (cases x) (auto simp: ex w1 Let_def)
    next
      fix r
      assume r: "\<forall>now'. refund ps now' ?i pm pm = (Inr r, pm)" "x = Inr r"
      with False show ?thesis by (auto simp: ex w1 Let_def)
    next
      fix r
      assume "\<forall>now'. refund ps now' ?i pm pm = (Inr r, pm)" "rf_status r = RefPending"
      then show ?thesis by (simp add: ex w1 Let_def executionStatusOf_def)
    qed
    with assms(3) show ?thesis by (intro exI [of _ d]) (simp add: w1)
  qed
qed

lemma close_decisions [simp]: "om_decisions (close_uncollected now b lo s) = om_decisions s"
  using cancel_keeps [of now "lo_order lo" _ s] by (simp add: close_uncollected_def decisions_kept_def) (metis prod.collapse)

lemma offer_decisions [simp]: "om_decisions (offer_remedy b lo c s) = om_decisions s"
  by (simp add: offer_remedy_def offerDefault_def)

lemma decide_live:
  assumes "decideCancellation ev now b w = Inr (Some d, w0)" "full_inv w"
  shows "liveDecision b KindCancellation (w_orders w0) = Some d"
  using decide_effect [OF assms(1)]
proof (elim disjE exE conjE)
  fix d'
  assume d': "Some d = Some d'" and f: "fresh_cancellation ev now b w d' w0"
  from f obtain lo facts e os where l: "lockOrderForBooking b (w_orders w) = Some lo" "cancellation_decision ev b lo facts w = Inr e"
    and s: "settle_cancellation now b lo e (w_orders w) = Inr (d, os)" and w0: "w0 = w\<lparr>w_orders := os\<rparr>"
    using d' unfolding fresh_cancellation_def by blast
  obtain od where od: "order_at (w_orders w) (lo_order lo) = Some od" "lo_collected lo = od_collected od" "0 \<le> lo_refunded lo"
    using locked_order_at [OF l(1) full_invD(4) [OF assms(2)]] by auto
  note ba = cancellation_decision_backed [OF l(2) od full_invD(3) [OF assms(2)]]
  from s obtain s1 where r: "recordDecision now e (w_orders w) = Inr (d, s1)"
    and os: "os = offer_remedy b lo (de_cause e) (close_uncollected now b lo s1)"
    by (auto simp: settle_cancellation_def bind_res_Inr)
  have "liveDecision (de_booking e) (de_kind e) s1 = Some d"
    using recordDecision_ok [OF r full_invD(2) [OF assms(2)]] ba od(1) by auto
  moreover have "om_decisions os = om_decisions s1" by (simp add: os offer_decisions close_decisions)
  ultimately show ?thesis using ba live_kept [of os s1] by (simp add: w0)
qed simp_all

lemma handled_again:
  assumes "full_inv w" "handle_booking_cancelled ps ev c b w = (r, w1)" "liveDecision b KindCancellation (w_orders w1) \<noteq> None"
  shows "snd (handle_booking_cancelled ps ev c' b w1) = w1"
proof (cases "lockOrderForBooking b (w_orders w1)")
  case None
  then show ?thesis by (simp add: handle_booking_cancelled_def decideCancellation_def)
next
  case (Some lo)
  have again: "snd (handle_booking_cancelled ps ev c' b t) = snd (executeCancellation ps (ck_js c') d t)"
    if "liveDecision b KindCancellation (w_orders t) = Some d" "lockOrderForBooking b (w_orders t) = Some lo" for t d
    using that by (simp add: handle_booking_cancelled_def decideCancellation_def)
  show ?thesis
  proof (cases "\<exists>d w0. decideCancellation ev (ck_db c) b w = Inr (Some d, w0)")
    case True
    then obtain d w0 where d: "decideCancellation ev (ck_db c) b w = Inr (Some d, w0)" by blast
    note live = decide_live [OF d assms(1)]
    have run: "executeCancellation ps (ck_js c) d w0 = (r, w1)" using assms(2) d by (simp add: handle_booking_cancelled_def)
    show ?thesis
    proof (cases "de_kind d = KindCancellation \<and> Option.bind (resolution (de_order d) (w_orders w0)) rm_chosen = Some ChoseReschedule")
      case True
      with run have "w1 = w0" by (simp add: executeCancellation_def)
      with True live again [OF _ Some] show ?thesis by (simp add: executeCancellation_def)
    next
      case False
      with run have e: "executeDecision ps (ck_js c) d ''booking cancelled'' w0 = (r, w1)" unfolding executeCancellation_def by (simp only: if_False)
      have "payment_inv (w_payments w0)" using decide_cancellation_inv [OF d assms(1)] full_invD(6) by blast
      from execute_again [OF e this live] obtain d1 where d1: "liveDecision b KindCancellation (w_orders w1) = Some d1"
        "snd (executeDecision ps (ck_js c') d1 ''booking cancelled'' w1) = w1" by blast
      show ?thesis unfolding again [OF d1(1) Some] executeCancellation_def using d1(2) by simp
    qed
  next
    case False
    then have "w1 = w"
      using assms(2) decide_effect [of ev "ck_db c" b w None]
      by (auto simp: handle_booking_cancelled_def split: sum.splits prod.splits option.splits)
    with False Some assms(3) show ?thesis by (auto simp: decideCancellation_def)
  qed
qed

end
