(* ===== verification/Outcome_Demo.thy ===== *)
theory Outcome_Demo
  imports Outcome_Decided Checkout_Demo
begin

text \<open>
  The paid booking of \<open>Checkout_Demo\<close> called off by the professional: the decision, the customer who takes another
  slot instead, and the professional who calls it off again; and the same cancellation refunded.
\<close>

definition the_professional :: booking_actor where "the_professional = \<lparr>ac_type = ActProfessional, ac_id = Some 5\<rparr>"

definition call_off :: "int \<Rightarrow> booking_db \<Rightarrow> booking_db" where
  "call_off t s = (case cancel (db_bookings s) (at_time t) 2 the_professional None s of Inr (_, s') \<Rightarrow> s' | Inl _ \<Rightarrow> s)"

definition shop_off :: platform where
  "shop_off = shop_paid\<lparr>w_bookings := call_off 3 shop_confirmed\<rparr>"

lemma shop_calls_off: "cancel (db_bookings shop_confirmed) (at_time 3) 2 the_professional None shop_confirmed = Inr (True, w_bookings shop_off)"
proof -
  have "case cancel (db_bookings shop_confirmed) (at_time 3) 2 the_professional None shop_confirmed of Inr (m, _) \<Rightarrow> m | Inl _ \<Rightarrow> False" by code_simp
  then show ?thesis by (auto simp: shop_off_def call_off_def split: sum.splits)
qed

definition shop_decision :: outcome_decision where
  "shop_decision = \<lparr>de_id = 1, de_booking = 2, de_order = 0, de_kind = KindCancellation, de_cause = Seller, de_eventInstant = 3,
     de_wasConfirmed = True, de_policyKey = None, de_policyVersion = None, de_cutoffInstant = None, de_timely = None,
     de_collectedRemaining = 50000, de_policyAmount = 0, de_legalCap = None, de_legalCapState = CapAbsent, de_retained = 0,
     de_refund = 50000, de_basis = EvalBasis LegacyUnenrolled, de_execution = ExecPending,
     de_requestKey = Some (bookingCancellationRefundKey (show_nat 2)), de_supersededBy = None, de_decidedAt = 4\<rparr>"

definition shop_decided :: platform where
  "shop_decided = shop_off\<lparr>w_orders := shop_captured\<lparr>om_decisions := [shop_decision],
     om_remedies := [\<lparr>rm_order = 0, rm_booking = 2, rm_chosen = None, rm_resolvedBy = ResolvedByDefault\<rparr>], om_next := 2\<rparr>\<rparr>"

lemma shop_locked: "lockOrderForBooking 2 shop_captured = Some \<lparr>lo_order = 0, lo_status = OrdPaid, lo_collected = 50000, lo_refunded = 0\<rparr>"
  by code_simp

lemma shop_facts: "cancellationFacts 2 None (w_bookings shop_off) = Some \<lparr>cf_cancelledBy = ActProfessional, cf_wasConfirmed = True,
    cf_eventInstant = 3, cf_cutoffInstant = None, cf_timely = None\<rparr>"
  by code_simp

lemma shop_decides: "decideCancellation [] 4 2 shop_off = Inr (Some shop_decision, shop_decided)"
proof -
  have o: "w_orders shop_off = shop_captured" "w_payments shop_off = shop_pay_paid" by (simp_all add: shop_off_def shop_paid_def)
  have t: "om_terms shop_captured = []" "om_decisions shop_captured = []" "om_remedies shop_captured = []" "om_next shop_captured = 1" "pm_refunds shop_pay_paid = []"
    by (simp_all add: shop_captured_def shop_placed_def empty_orders_def shop_pay_paid_def)
  have i: "order_at shop_captured 0 = Some (capture_row 2 50000 shop_order)" using shop_order_found by (simp add: order_findById_def)
  show ?thesis
    by (simp add: decideCancellation_def o shop_locked liveDecision_def t termsFor_def shop_facts cancellation_decision_def
        orderRefundCommitments_def evaluateCancellation_def outcome_cause_of_def actor_type_name_def bookingOutcomeCauseForActor_def
        evaluate_for_def evaluateBookingOutcome_def Let_def collected_left_def cancellationRow_def zero_evaluation_def
        settle_cancellation_def recordDecision_def decision_integrity_def i shop_order_found decision_row_ok_def write_decision_def
        close_uncollected_def NEVER_COLLECTED_STATUSES_def offer_remedy_def offerDefault_def shop_decided_def shop_decision_def)
qed

section \<open>The customer takes another slot\<close>

definition shop_moved :: booking_db where
  "shop_moved = (case reschedule demo_ports demo_cfg (db_bookings (w_bookings shop_off)) (at_time 5) 2 1
     \<lparr>ac_type = ActCustomer, ac_id = Some 7\<rparr> None \<lparr>ro_acceptConsequence = False, ro_remedyBypass = True\<rparr> (w_bookings shop_off) of
       Inr (_, s) \<Rightarrow> s | Inl _ \<Rightarrow> w_bookings shop_off)"

lemma shop_moves: "\<exists>b. reschedule demo_ports demo_cfg (db_bookings (w_bookings shop_off)) (at_time 5) 2 1
    \<lparr>ac_type = ActCustomer, ac_id = Some 7\<rparr> None \<lparr>ro_acceptConsequence = False, ro_remedyBypass = True\<rparr> (w_bookings shop_off) = Inr (b, shop_moved)"
proof -
  have "case reschedule demo_ports demo_cfg (db_bookings (w_bookings shop_off)) (at_time 5) 2 1
    \<lparr>ac_type = ActCustomer, ac_id = Some 7\<rparr> None \<lparr>ro_acceptConsequence = False, ro_remedyBypass = True\<rparr> (w_bookings shop_off) of
      Inr _ \<Rightarrow> True | Inl _ \<Rightarrow> False" by code_simp
  then show ?thesis by (auto simp: shop_moved_def split: sum.splits)
qed

definition shop_remedied :: platform where
  "shop_remedied = shop_decided\<lparr>w_bookings := shop_moved, w_orders := (w_orders shop_decided)\<lparr>om_remedies :=
     [\<lparr>rm_order = 0, rm_booking = 2, rm_chosen = Some ChoseReschedule, rm_resolvedBy = ResolvedByCustomer\<rparr>]\<rparr>\<rparr>"

lemma shop_decided_rows: "w_bookings shop_decided = w_bookings shop_off" "om_decisions (w_orders shop_decided) = [shop_decision]"
  "om_remedies (w_orders shop_decided) = [\<lparr>rm_order = 0, rm_booking = 2, rm_chosen = None, rm_resolvedBy = ResolvedByDefault\<rparr>]"
  "om_orders (w_orders shop_decided) = [capture_row 2 50000 shop_order]" "w_payments shop_decided = shop_pay_paid"
  by (simp_all add: shop_decided_def shop_captured_def shop_off_def shop_paid_def)

lemma shop_decision_live: "liveDecision 2 KindCancellation (w_orders shop_decided) = Some shop_decision"
  by (simp add: liveDecision_def shop_decided_rows live_decision_def) (simp add: shop_decision_def)

lemma shop_order_id: "orderIdForBooking 2 (w_orders shop_decided) = Some 0"
  by (simp add: orderIdForBooking_def order_of_booking_def shop_decided_rows shop_order_found) (simp add: capture_row_def shop_order_def)

lemma shop_remedy: "resolveRemedy demo_ports demo_cfg (at_time 5) 2 7 ChoseReschedule (Some 1) shop_decided =
    Inr ((Some ChoseReschedule, ResolvedByCustomer), shop_remedied)"
proof -
  obtain b where b: "reschedule demo_ports demo_cfg (db_bookings (w_bookings shop_off)) (at_time 5) 2 1
    \<lparr>ac_type = ActCustomer, ac_id = Some 7\<rparr> None \<lparr>ro_acceptConsequence = False, ro_remedyBypass = True\<rparr> (w_bookings shop_off) = Inr (b, shop_moved)"
    using shop_moves by blast
  have e: "de_execution shop_decision = ExecPending" by (simp add: shop_decision_def)
  show ?thesis
    by (simp add: resolveRemedy_def shop_order_id resolution_def shop_decided_rows shop_decision_live ESCAPABLE_EXECUTION_STATUSES_def e b [simplified]
        resolveReschedule_def taffected_def tupd_def shop_remedied_def Let_def)
qed

definition shop_off_again :: platform where
  "shop_off_again = shop_remedied\<lparr>w_bookings := call_off 7 shop_moved\<rparr>"

lemma shop_calls_off_again: "cancel (db_bookings shop_moved) (at_time 7) 2 the_professional None shop_moved = Inr (True, w_bookings shop_off_again)"
proof -
  have "case cancel (db_bookings shop_moved) (at_time 7) 2 the_professional None shop_moved of Inr (m, _) \<Rightarrow> m | Inl _ \<Rightarrow> False" by code_simp
  then show ?thesis by (auto simp: shop_off_again_def call_off_def split: sum.splits)
qed

section \<open>The refund\<close>

definition shop_refund :: "refund_status \<Rightarrow> payment_refund" where
  "shop_refund st = \<lparr>rf_id = 2, rf_order = 0, rf_intent = 0, rf_attempt = Some 1, rf_key = bookingCancellationRefundKey (show_nat 2), rf_amount = 50000,
     rf_status = st, rf_kind = KindOrder, rf_providerReference = None, rf_failureCode = None, rf_reason = ''booking cancelled'',
     rf_actor = ''system'', rf_completedAt = None\<rparr>"

definition shop_pay_claimed :: payment_db where
  "shop_pay_claimed = shop_pay_paid\<lparr>pm_refunds := [shop_refund RefPending], pm_next := 3\<rparr>"

lemma shop_claims:
  "refund_reads (decision_refund shop_decision (bookingCancellationRefundKey (show_nat 2)) ''booking cancelled'') shop_pay_paid =
     Inr (RefundPlan 50000 (shop_intent IntSucceeded (Some 2)) (Some (demo_settled 1 ''A'' 2)))"
  "claim_refund (decision_refund shop_decision (bookingCancellationRefundKey (show_nat 2)) ''booking cancelled'') 50000
     (shop_intent IntSucceeded (Some 2)) (Some (demo_settled 1 ''A'' 2)) shop_pay_paid = (Inr (Claimed 2), shop_pay_claimed)"
proof -
  have "fl (50000 :: rat) = 50000" using fl_int [of 50000] by simp
  then have d: "decision_refund shop_decision k r = \<lparr>ri_order = 0, ri_amount = Fin 50000, ri_reason = r, ri_key = k, ri_actor = ''system'', ri_kind = None, ri_attempt = None\<rparr>" for k r
    by (simp add: decision_refund_def shop_decision_def)
  show "refund_reads (decision_refund shop_decision (bookingCancellationRefundKey (show_nat 2)) ''booking cancelled'') shop_pay_paid =
     Inr (RefundPlan 50000 (shop_intent IntSucceeded (Some 2)) (Some (demo_settled 1 ''A'' 2)))"
    by (simp add: refund_reads_def d demo_arith refund_by_key_def shop_pay_paid_def pay_money_def bind_res_def)
      (simp add: shop_intent_def demo_intent_def latest_def demo_settled_def demo_attempt_def)
  show "claim_refund (decision_refund shop_decision (bookingCancellationRefundKey (show_nat 2)) ''booking cancelled'') 50000
     (shop_intent IntSucceeded (Some 2)) (Some (demo_settled 1 ''A'' 2)) shop_pay_paid = (Inr (Claimed 2), shop_pay_claimed)"
    by (simp add: claim_refund_def d refund_by_key_def shop_pay_paid_def assertWithinCaptured_def committed_def captured_amount_def request_kind_def
        bind_res_def insert_refund_def new_refund_def shop_intent_def demo_intent_def shop_pay_claimed_def shop_refund_def demo_settled_def demo_attempt_def Let_def)
qed

section \<open>The customer does not come\<close>

definition governed_ports :: booking_ports where
  "governed_ports = demo_ports\<lparr>pt_governNoShow := \<lambda>_. GovernedNoShow 10 1\<rparr>"

definition shop_absent :: platform where
  "shop_absent = shop_paid\<lparr>w_bookings := (case markNoShow governed_ports (db_bookings shop_confirmed) (at_time 400000000) 2 the_professional
     (Some ''absent'') shop_confirmed of Inr (_, s) \<Rightarrow> s | Inl _ \<Rightarrow> shop_confirmed)\<rparr>"

lemma shop_declares: "markNoShow governed_ports (db_bookings shop_confirmed) (at_time 400000000) 2 the_professional (Some ''absent'') shop_confirmed =
    Inr (True, w_bookings shop_absent)"
proof -
  have "case markNoShow governed_ports (db_bookings shop_confirmed) (at_time 400000000) 2 the_professional (Some ''absent'') shop_confirmed of
    Inr (m, _) \<Rightarrow> m | Inl _ \<Rightarrow> False" by code_simp
  then show ?thesis by (auto simp: shop_absent_def split: sum.splits)
qed

definition shop_declaration :: no_show_declaration where
  "shop_declaration = \<lparr>nd_booking = 2, nd_declaredBy = 5, nd_declaredAt = 400000000, nd_graceMinutes = Some 10, nd_statement = ''absent'',
     nd_objectionWindowEndsAt = Some 403600000, nd_evaluationState = WindowOpen\<rparr>"

lemma shop_declared: "db_declarations (w_bookings shop_absent) = [shop_declaration]"
  by code_simp

section \<open>The histories\<close>

lemma shop_off_history: "\<exists>h. platform_history shop_env (shop_off # h)"
proof -
  obtain h where h: "platform_history shop_env (shop_paid # h)" using shop_paid_history by blast
  have "side_step demo_ports (ce_config shop_env) shop_confirmed (w_bookings shop_off)" by (rule side_cancel [OF seen_now(1) shop_calls_off])
  then have "platform_history shop_env ((hd (shop_paid # h))\<lparr>w_bookings := w_bookings shop_off\<rparr> # shop_paid # h)"
    by (intro ph_booking [OF h]) (simp add: shop_paid_def)
  then show ?thesis by (auto simp: shop_off_def)
qed

lemma shop_decided_history: "\<exists>h. platform_history shop_env (shop_decided # shop_off # h)"
  using shop_off_history ph_decide [of shop_env "shop_off # h" for h, where rd' = "Some shop_decision"] shop_decides by fastforce

lemma shop_remedied_history: "\<exists>h. platform_history shop_env (shop_remedied # shop_decided # h)"
proof -
  obtain h where h: "platform_history shop_env (shop_decided # h)" using shop_decided_history by blast
  have "ce_config shop_env = demo_cfg" by (simp add: shop_env_def)
  with ph_remedy [OF h] shop_remedy have "platform_history shop_env (shop_remedied # shop_decided # h)" by fastforce
  then show ?thesis by blast
qed

lemma shop_off_again_history: "\<exists>h. platform_history shop_env (shop_off_again # shop_remedied # h)"
proof -
  obtain h where h: "platform_history shop_env (shop_remedied # h)" using shop_remedied_history by blast
  have "side_step demo_ports (ce_config shop_env) shop_moved (w_bookings shop_off_again)" by (rule side_cancel [OF seen_now(1) shop_calls_off_again])
  then have "platform_history shop_env ((hd (shop_remedied # h))\<lparr>w_bookings := w_bookings shop_off_again\<rparr> # shop_remedied # h)"
    by (intro ph_booking [OF h]) (simp add: shop_remedied_def)
  then show ?thesis by (auto simp: shop_off_again_def)
qed

lemma shop_absent_history: "\<exists>h. platform_history shop_env (shop_absent # h)"
proof -
  obtain h where h: "platform_history shop_env (shop_paid # h)" using shop_paid_history by blast
  have "side_step governed_ports (ce_config shop_env) shop_confirmed (w_bookings shop_absent)" by (rule side_no_show [OF seen_now(1) shop_declares])
  then have "platform_history shop_env ((hd (shop_paid # h))\<lparr>w_bookings := w_bookings shop_absent\<rparr> # shop_paid # h)"
    by (intro ph_booking [OF h]) (simp add: shop_paid_def)
  then show ?thesis by (auto simp: shop_absent_def)
qed

end
