(* ===== verification/Outcome_Properties.thy ===== *)
theory Outcome_Properties
  imports Outcome_Redelivery Outcome_Demo
begin

text \<open>
  The properties of booking outcomes: what is decided, that it is decided once and stays, what a redelivered event
  does, and what the customer's remedy leaves behind.
\<close>

lemma history_full: "platform_history env h \<Longrightarrow> full_inv (hd h)" "platform_history env h \<Longrightarrow> w \<in> set h \<Longrightarrow> full_inv w"
  using platform_history_inv history_okD(1,2) by blast+

lemma written_row_ok:
  "decision_row_ok now (d\<lparr>de_id := i, de_supersededBy := x, de_decidedAt := t\<rparr>) = decision_row_ok now d"
  "decided_amounts lo kr other (d\<lparr>de_id := i, de_supersededBy := x, de_decidedAt := t\<rparr>) = decided_amounts lo kr other d"
  by (simp_all add: decision_row_ok_def decided_amounts_def cong: option.case_cong)

text \<open>C5: Every cancellation that the booking records is decided. In a state of the running platform, for a booking
  that has an order and no decision yet, deciding never fails: the evaluation satisfies every CHECK and the
  integrity trigger of the decision table, the decision is the live one afterwards, and it splits exactly what
  remains of the collected money after refunds and commitments, or adopts the refund that stands under its key.\<close>

theorem cancellation_always_decided:
  assumes "platform_history env h" "lockOrderForBooking b (w_orders (hd h)) = Some lo"
    "liveDecision b KindCancellation (w_orders (hd h)) = None"
    "cancellationFacts b (map_option dm_cutoffHours (termsFor ev (lo_order lo) (w_orders (hd h)))) (w_bookings (hd h)) = Some facts"
    "cf_eventInstant facts \<le> now"
    "orderRefundCommitments (lo_order lo) (bookingCancellationRefundKey (show_nat b)) (w_payments (hd h)) = (keyRefund, other)"
  shows "\<exists>d w'. decideCancellation ev now b (hd h) = Inr (Some d, w') \<and> liveDecision b KindCancellation (w_orders w') = Some d \<and>
    decision_row_ok now d \<and> decided_amounts lo keyRefund other d"
proof -
  let ?w = "hd h"
  note full = history_full(1) [OF assms(1)]
  from cancellation_decision_total [OF full assms(2,4,5,6)] obtain d where d: "cancellation_decision ev b lo facts ?w = Inr d"
    "decision_row_ok now d" "decision_integrity d (w_orders ?w)" "de_booking d = b" "de_kind d = KindCancellation" "decided_amounts lo keyRefund other d"
    by blast
  obtain od where od: "order_at (w_orders ?w) (lo_order lo) = Some od" "lo_collected lo = od_collected od" "0 \<le> lo_refunded lo"
    using locked_order_at [OF assms(2) full_invD(4) [OF full]] by auto
  from cancellation_decision_backed [OF d(1) od full_invD(3) [OF full]] od(1)
  have "0 < de_refund d \<longrightarrow> (\<exists>od. order_at (w_orders ?w) (de_order d) = Some od \<and> 0 < od_collected od)" by simp
  moreover have "liveDecision (de_booking d) (de_kind d) (w_orders ?w) = None" using assms(3) d(4,5) by simp
  ultimately obtain row os where
    s: "settle_cancellation now b lo d (w_orders ?w) = Inr (row, os)" "row = d\<lparr>de_id := om_next (w_orders ?w), de_supersededBy := None, de_decidedAt := now\<rparr>"
    "liveDecision b KindCancellation os = Some row"
    using settle_total [OF d(3,2) _ full_invD(2) [OF full], of b lo] d(4,5) by auto
  have "decision_row_ok now row" "decided_amounts lo keyRefund other row"
    using d(2,6) by (simp_all add: s(2) written_row_ok)
  moreover have "decideCancellation ev now b ?w = Inr (Some row, ?w\<lparr>w_orders := os\<rparr>)"
    using assms(2-4) d(1) s(1) by (simp add: decideCancellation_def)
  ultimately show ?thesis using s(3) by (intro exI [of _ row] exI [of _ "?w\<lparr>w_orders := os\<rparr>"]) simp
qed

theorem cancellation_always_decided_witness:
  "\<exists>d w'. decideCancellation [] 4 2 shop_off = Inr (Some d, w') \<and> de_retained d + de_refund d = 50000"
proof -
  obtain h where h: "platform_history shop_env (shop_off # h)" using shop_off_history by blast
  have o: "w_orders shop_off = shop_captured" "w_payments shop_off = shop_pay_paid" by (simp_all add: shop_off_def shop_paid_def)
  have l: "liveDecision 2 KindCancellation shop_captured = None" "termsFor [] 0 shop_captured = None"
    by (simp_all add: liveDecision_def termsFor_def shop_captured_def shop_placed_def empty_orders_def)
  have r: "orderRefundCommitments 0 k shop_pay_paid = (None, 0)" for k by (simp add: orderRefundCommitments_def shop_pay_paid_def)
  let ?lo = "\<lparr>lo_order = 0, lo_status = OrdPaid, lo_collected = 50000, lo_refunded = 0\<rparr>"
    and ?f = "\<lparr>cf_cancelledBy = ActProfessional, cf_wasConfirmed = True, cf_eventInstant = 3, cf_cutoffInstant = None, cf_timely = None\<rparr>"
  obtain d w' where "decideCancellation [] 4 2 shop_off = Inr (Some d, w')" "decided_amounts ?lo None 0 d"
    using cancellation_always_decided [OF h, of 2 ?lo "[]" ?f 4 None 0] shop_facts by (auto simp: o l r shop_locked)
  then show ?thesis by (auto simp: decided_amounts_def)
qed

text \<open>C6: A decision is final. In every history the live cancellation or no-show decision of a booking stays the live
  one; only its execution is filled in, once; there is never a second live one; it is on the order of its booking
  and gives money back only where that order has collected.\<close>

theorem decisions_are_final:
  assumes "platform_history env h" "w \<in> set h" "k \<in> {KindCancellation, KindNoShow}" "liveDecision b k (w_orders w) = Some d"
  shows "\<exists>d'. filter (live_decision b k) (om_decisions (w_orders (hd h))) = [d'] \<and> same_decision d d' \<and>
    (\<exists>od. order_at (w_orders (hd h)) (de_order d) = Some od \<and> od_sourceType od = SourceBooking \<and> od_source od = b \<and>
      (0 < de_refund d \<longrightarrow> 0 < od_collected od))"
proof -
  let ?s = "w_orders (hd h)"
  have "outcome_le (w_orders w) ?s" using history_final [OF assms(1)] assms(2) by (simp add: final_until_def)
  then obtain d' where d': "liveDecision b k ?s = Some d'" "same_decision d d'" using assms(3,4) unfolding outcome_le_def final_kind_def by blast
  note ok = full_invD(2) [OF history_full(1) [OF assms(1)]]
  have in_s: "d' \<in> set (om_decisions ?s)" "live_decision b k d'" using liveDecision_in [OF d'(1)] by simp_all
  have one: "filter (live_decision b k) xs = [d']"
    if "distinct (map (\<lambda>d. (de_booking d, de_kind d)) (filter (\<lambda>d. de_supersededBy d = None) xs))" "d' \<in> set xs" for xs
    using that
  proof (induction xs)
    case (Cons x xs)
    have none: "filter (live_decision b k) xs = []" if "(b, k) \<notin> (\<lambda>d. (de_booking d, de_kind d)) ` {d \<in> set xs. de_supersededBy d = None}"
      using that by (force simp: filter_empty_conv live_decision_def)
    show ?case
    proof (cases "live_decision b k x")
      case True
      with Cons.prems(1) have "(b, k) \<notin> (\<lambda>d. (de_booking d, de_kind d)) ` {d \<in> set xs. de_supersededBy d = None}"
        by (auto simp: live_decision_def)
      moreover from this in_s(2) have "d' \<notin> set xs" by (force simp: live_decision_def)
      ultimately show ?thesis using True Cons.prems(2) none by simp
    next
      case False
      with Cons.prems in_s(2) have "d' \<in> set xs" "distinct (map (\<lambda>d. (de_booking d, de_kind d)) (filter (\<lambda>d. de_supersededBy d = None) xs))"
        by (auto split: if_splits)
      with Cons.IH False show ?thesis by simp
    qed
  qed simp
  have "filter (live_decision b k) (om_decisions ?s) = [d']" using one [OF _ in_s(1)] ok by (simp add: decisions_ok_def live_keys_def)
  moreover have "decision_backed ?s d'" using ok in_s(1) by (simp add: decisions_ok_def)
  moreover have "de_order d' = de_order d" "de_refund d' = de_refund d" "de_booking d' = b"
    using d'(2) in_s(2) by (cases d; cases d'; simp add: same_decision_def live_decision_def)+
  ultimately show ?thesis using d'(2) unfolding decision_backed_def by (intro exI [of _ d']) auto
qed

theorem decisions_are_final_witness:
  "\<exists>d'. filter (live_decision 2 KindCancellation) (om_decisions (w_orders shop_off_again)) = [d'] \<and> same_decision shop_decision d'"
proof -
  obtain h where h: "platform_history shop_env (shop_off_again # shop_remedied # h)" using shop_off_again_history by blast
  have "liveDecision 2 KindCancellation (w_orders shop_remedied) = Some shop_decision"
    using shop_decision_live by (simp add: shop_remedied_def liveDecision_def)
  with decisions_are_final [OF h, of shop_remedied KindCancellation 2 shop_decision] show ?thesis by auto
qed

text \<open>C7: A redelivered \<open>BookingCancelled\<close> is silent. Once the handler has run and the booking has its decision,
  running it again, whatever the first run met (a refund paid out, refused or left unanswered by the gateway),
  changes nothing at all: no second decision, no second refund.\<close>

theorem redelivered_cancellation_is_silent:
  assumes "platform_history env h" "handle_booking_cancelled ps ev c b (hd h) = (r, w1)"
    "liveDecision b KindCancellation (w_orders w1) \<noteq> None"
  shows "snd (handle_booking_cancelled ps ev c' b w1) = w1"
  by (rule handled_again [OF history_full(1) [OF assms(1)] assms(2,3)])

theorem redelivered_cancellation_is_silent_witness:
  "\<exists>w1. w1 = snd (handle_booking_cancelled [demo_gateway ''A''] [] (at_time 4) 2 shop_off) \<and> pm_refunds (w_payments w1) \<noteq> [] \<and>
    snd (handle_booking_cancelled [demo_gateway ''A''] [] (at_time 9) 2 w1) = w1"
proof -
  obtain h where h: "platform_history shop_env (shop_off # h)" using shop_off_history by blast
  obtain r w1 where w1: "handle_booking_cancelled [demo_gateway ''A''] [] (at_time 4) 2 shop_off = (r, w1)" by force
  have t: "ck_db (at_time 4) = 4" "ck_js (at_time 4) = 4" by (simp_all add: at_time_def)
  have d: "decideCancellation [] 4 2 shop_off = Inr (Some shop_decision, shop_decided)" by (rule shop_decides)
  have c: "Option.bind (resolution (de_order shop_decision) (w_orders shop_decided)) rm_chosen = None"
    by (simp add: resolution_def shop_decided_rows)
  have k: "de_requestKey shop_decision = Some (bookingCancellationRefundKey (show_nat 2))" "de_execution shop_decision = ExecPending" "de_refund shop_decision = 50000"
    by (simp_all add: shop_decision_def)
  let ?i = "decision_refund shop_decision (bookingCancellationRefundKey (show_nat 2)) ''booking cancelled''"
  obtain x pm where x: "refund [demo_gateway ''A''] 4 ?i shop_pay_paid shop_pay_paid = (x, pm)" by force
  have "rf_id (shop_refund RefPending) = 2" by (simp add: shop_refund_def)
  have "pm_refunds pm \<noteq> []"
    using x by (auto simp: refund_def shop_claims [unfolded One_nat_def] settle_refund_def shop_pay_claimed_def completeRefund_def Let_def emit_payment_def tupd_def
        split: gateway_decision.splits option.splits sum.splits if_splits)
  moreover have "w_payments w1 = pm \<and> liveDecision 2 KindCancellation (w_orders w1) \<noteq> None"
    using w1 x k by (cases x) (auto simp: handle_booking_cancelled_def d t executeCancellation_def c executeDecision_def shop_decided_rows Let_def
        live_after_execution shop_decision_live split: if_splits)
  ultimately show ?thesis using redelivered_cancellation_is_silent [OF h, of "[demo_gateway ''A'']" "[]" "at_time 4" 2 r w1 "at_time 9"] w1 by auto
qed

text \<open>C8: A remedy is taken once and ends the refund. After the customer has chosen to reschedule, no cancellation of
  that booking ever gives money back again: in every later state the handler of \<open>BookingCancelled\<close> finds the decision
  of the first cancellation and the choice, and does nothing, although the seller may have cancelled again.\<close>

theorem second_cancellation_never_refunds:
  assumes "platform_history env h" "w \<in> set h" "liveDecision b KindCancellation (w_orders w) = Some d"
    "resolution (de_order d) (w_orders w) = Some rem" "rm_resolvedBy rem = ResolvedByCustomer" "rm_chosen rem = Some ChoseReschedule"
  shows "handle_booking_cancelled ps ev c b (hd h) = (Inr (), hd h)"
proof (cases "lockOrderForBooking b (w_orders (hd h))")
  case None
  then show ?thesis by (simp add: handle_booking_cancelled_def decideCancellation_def)
next
  case (Some lo)
  have le: "outcome_le (w_orders w) (w_orders (hd h))" using history_final [OF assms(1)] assms(2) by (simp add: final_until_def)
  obtain d' where d': "liveDecision b KindCancellation (w_orders (hd h)) = Some d'" "same_decision d d'"
    using le assms(3) unfolding outcome_le_def final_kind_def by blast
  have res: "resolution (de_order d) (w_orders (hd h)) = Some rem" using le assms(4,5) unfolding outcome_le_def by blast
  have "de_order d' = de_order d"
    using d'(2) by (metis same_decision_def outcome_decision.select_convs outcome_decision.update_convs outcome_decision.surjective)
  moreover have "de_kind d' = KindCancellation" using liveDecision_in [OF d'(1)] by (simp add: live_decision_def)
  ultimately show ?thesis using Some d'(1) res assms(6)
    by (simp add: handle_booking_cancelled_def decideCancellation_def executeCancellation_def)
qed

text \<open>The professional has called the booking off again; the customer keeps neither the slot nor the 50,000 Toman.\<close>

theorem second_cancellation_never_refunds_witness:
  "(\<forall>ps ev c. handle_booking_cancelled ps ev c 2 shop_off_again = (Inr (), shop_off_again)) \<and>
    map_option bk_status (booking_at (w_bookings shop_off_again) 2) = Some Cancelled \<and>
    map_option od_collected (order_at (w_orders shop_off_again) 0) = Some 50000 \<and> pm_refunds (w_payments shop_off_again) = []"
proof -
  obtain h where h: "platform_history shop_env (shop_off_again # shop_remedied # h)" using shop_off_again_history by blast
  have live: "liveDecision 2 KindCancellation (w_orders shop_remedied) = Some shop_decision"
    using shop_decision_live by (simp add: shop_remedied_def liveDecision_def)
  have res: "resolution (de_order shop_decision) (w_orders shop_remedied) =
      Some \<lparr>rm_order = 0, rm_booking = 2, rm_chosen = Some ChoseReschedule, rm_resolvedBy = ResolvedByCustomer\<rparr>"
    by (simp add: resolution_def shop_remedied_def shop_decision_def)
  have "handle_booking_cancelled ps ev c 2 (hd (shop_off_again # shop_remedied # h)) = (Inr (), hd (shop_off_again # shop_remedied # h))" for ps ev c
    by (rule second_cancellation_never_refunds [OF h _ live res]) simp_all
  then have "\<forall>ps ev c. handle_booking_cancelled ps ev c 2 shop_off_again = (Inr (), shop_off_again)" by simp
  moreover have "map_option bk_status (booking_at (w_bookings shop_off_again) 2) = Some Cancelled" by code_simp
  moreover have "order_at (w_orders shop_off_again) 0 = Some (capture_row 2 50000 shop_order)"
    by (simp add: shop_off_again_def shop_remedied_def order_at_def shop_decided_rows tget_def) (simp add: capture_row_def shop_order_def)
  moreover have "pm_refunds (w_payments shop_off_again) = []"
    by (simp add: shop_off_again_def shop_remedied_def shop_decided_rows shop_pay_paid_def)
  ultimately show ?thesis by (simp add: capture_row_def)
qed

lemma chosen_row:
  assumes "resolution i s = Some r" "rm_resolvedBy r = ResolvedByDefault" "resolveReschedule i s = (applied, s')"
  shows "resolution i s' = Some (r\<lparr>rm_resolvedBy := ResolvedByCustomer, rm_chosen := Some ChoseReschedule\<rparr>)"
    "orderIdForBooking b s' = orderIdForBooking b s"
proof -
  let ?f = "\<lambda>r. r\<lparr>rm_resolvedBy := ResolvedByCustomer, rm_chosen := Some ChoseReschedule\<rparr>"
    and ?Q = "\<lambda>r. rm_order r = i \<and> rm_resolvedBy r = ResolvedByDefault"
  have "find (\<lambda>r. rm_order r = i) (tupd ?Q ?f xs) = map_option (\<lambda>r. if ?Q r then ?f r else r) (find (\<lambda>r. rm_order r = i) xs)"
    for xs :: "remedy_row list" by (rule find_tupd) simp
  moreover have "rm_order r = i" using assms(1) by (auto simp: resolution_def find_Some_iff)
  ultimately show "resolution i s' = Some (?f r)" using assms by (auto simp: resolveReschedule_def Let_def resolution_def)
  show "orderIdForBooking b s' = orderIdForBooking b s"
    using assms(3) by (auto simp: orderIdForBooking_def order_of_booking_def resolveReschedule_def Let_def)
qed

text \<open>What is answered is what is stored.\<close>

lemma resolve_stored:
  assumes "resolveRemedy ports cfg c b cust choice slot w = Inr ((chosen, ResolvedByCustomer), w')"
  shows "\<exists>i r. orderIdForBooking b (w_orders w') = Some i \<and> resolution i (w_orders w') = Some r \<and>
    rm_resolvedBy r = ResolvedByCustomer \<and> rm_chosen r = chosen \<and> w_payments w' = w_payments w"
proof -
  from assms obtain i current where i: "orderIdForBooking b (w_orders w) = Some i" "resolution i (w_orders w) = Some current"
    by (auto simp: resolveRemedy_def split: option.splits)
  show ?thesis
  proof (cases "rm_resolvedBy current = ResolvedByCustomer \<or> choice \<noteq> ChoseReschedule")
    case True
    with assms i show ?thesis by (simp add: resolveRemedy_def)
  next
    case go: False
    then have default: "rm_resolvedBy current = ResolvedByDefault" by (cases "rm_resolvedBy current") auto
    obtain applied os where os: "resolveReschedule i (w_orders w) = (applied, os)" by force
    note ch = chosen_row [OF i(2) default os]
    from assms i go os obtain bs where w': "w' = w\<lparr>w_bookings := bs, w_orders := os\<rparr>"
      and ans: "if applied then chosen = Some ChoseReschedule else Some chosen = map_option rm_chosen (resolution i os)"
      by (auto simp: resolveRemedy_def bind_res_Inr Let_def split: option.splits if_splits)
    show ?thesis using ch i(1) ans w' by (cases applied) auto
  qed
qed

lemma resolve_customer:
  assumes "orderIdForBooking b (w_orders w) = Some i" "resolution i (w_orders w) = Some r" "rm_resolvedBy r = ResolvedByCustomer"
  shows "resolveRemedy ports cfg c b cust choice slot w = Inr ((rm_chosen r, ResolvedByCustomer), w)"
  using assms by (simp add: resolveRemedy_def)

text \<open>C9: The answer to a remedy is final. Once a call has answered that the customer chose, every later call, whatever it
  asks for, answers the same and changes nothing; and no call ever touches the payments, so a refund row that is
  waiting for the operator stands beside the new slot.\<close>

theorem remedy_is_final:
  assumes "resolveRemedy ports cfg c b cust choice slot w = Inr ((chosen, ResolvedByCustomer), w')"
  shows "w_payments w' = w_payments w \<and>
    resolveRemedy ports' cfg' c' b cust' choice' slot' w' = Inr ((chosen, ResolvedByCustomer), w')"
  using resolve_stored [OF assms] resolve_customer [of b w'] by auto

theorem remedy_is_final_witness:
  "resolveRemedy demo_ports demo_cfg (at_time 5) 2 7 ChoseReschedule (Some 1) shop_decided = Inr ((Some ChoseReschedule, ResolvedByCustomer), shop_remedied) \<and>
   resolveRemedy demo_ports demo_cfg (at_time 6) 2 7 ChoseRefund None shop_remedied = Inr ((Some ChoseReschedule, ResolvedByCustomer), shop_remedied)"
  using shop_remedy remedy_is_final [OF shop_remedy] by simp

section \<open>No-shows\<close>

text \<open>C10: A no-show window that is due is decided. In every state of the platform, for a declaration whose window has
  ended and whose booking has an order, deciding never fails; what remains of the collected money is split, or an
  earlier no-show decision is returned, and the declaration is evaluated, so the sweep never takes it again.\<close>

theorem due_window_is_decided:
  assumes "platform_history env h" "find (\<lambda>x. nd_booking x = b) (db_declarations (w_bookings (hd h))) = Some dec" "window_due now dec"
    "nd_declaredAt dec \<le> now" "lockOrderForBooking b (w_orders (hd h)) = Some lo"
  shows "\<exists>d w'. decideNoShowWindowOnly ev now b (hd h) = Inr (Some d, w') \<and> liveDecision b KindNoShow (w_orders w') = Some d \<and>
    (liveDecision b KindNoShow (w_orders (hd h)) = None \<longrightarrow> de_retained d + de_refund d =
       max 0 (lo_collected lo - max (lo_refunded lo) (snd (orderRefundCommitments (lo_order lo) (bookingNoShowRefundKey (show_nat b)) (w_payments (hd h)))))) \<and>
    (\<forall>x \<in> set (db_declarations (w_bookings w')). nd_booking x = b \<longrightarrow> \<not> window_due now' x)"
proof -
  let ?w = "hd h" and ?terms = "termsFor ev (lo_order lo) (w_orders (hd h))"
  let ?other = "snd (orderRefundCommitments (lo_order lo) (bookingNoShowRefundKey (show_nat b)) (w_payments ?w))"
  let ?n = "collected_left lo ?other"
  note full = history_full(1) [OF assms(1)]
  obtain e where e: "evaluate_for NoShow True None ?n ?terms = Inr e" "evaluation_fits (outcome_input NoShow True None ?n ?terms) e"
    using evaluate_for_fits [OF collected_left_bounds(1)] by blast
  let ?d = "noShowRow b lo ?terms dec ?n e"
  have fits: "decision_row_ok now ?d" by (rule no_show_row_fits [OF e(2) assms(4)])
  have int: "decision_integrity ?d (w_orders ?w)"
    by (rule integrity_of_lock [OF assms(5) full_invD(4) [OF full], of _ ev]) (simp_all add: noShowRow_def)
  obtain rec os where r: "recordDecision now ?d (w_orders ?w) = Inr (rec, os)"
    using fits int by (cases "liveDecision (de_booking ?d) (de_kind ?d) (w_orders ?w)") (auto simp: recordDecision_def write_decision_def Let_def)
  let ?w' = "?w\<lparr>w_orders := os, w_bookings := markNoShowEvaluated b (w_bookings ?w)\<rparr>"
  have dec: "nd_evaluationState dec \<noteq> Evaluated" using assms(3) by (auto simp: window_due_def)
  have "decideNoShowWindowOnly ev now b ?w = Inr (Some rec, ?w')"
    using assms(2,3,5) dec e(1) r by (simp add: decideNoShowWindowOnly_def Let_def case_prod_beta)
  moreover obtain od where od: "order_at (w_orders ?w) (lo_order lo) = Some od" "lo_collected lo = od_collected od" "0 \<le> lo_refunded lo"
    using locked_order_at [OF assms(5) full_invD(4) [OF full]] by auto
  have "0 < ev_refund e \<Longrightarrow> 0 < lo_collected lo"
    using evaluate_for_Inr [OF e(1) collected_left_bounds(1)] collected_left_bounds(2) [OF od(3), of ?other] by simp
  with od have "0 < de_refund ?d \<longrightarrow> (\<exists>od. order_at (w_orders ?w) (de_order ?d) = Some od \<and> 0 < od_collected od)"
    by (simp add: noShowRow_def)
  from recordDecision_ok [OF r full_invD(2) [OF full] this] have "liveDecision b KindNoShow os = Some rec" by (simp add: noShowRow_def)
  moreover have "de_retained rec + de_refund rec = ?n" if "liveDecision b KindNoShow (w_orders ?w) = None"
  proof -
    have "liveDecision (de_booking ?d) (de_kind ?d) (w_orders ?w) = None" using that by (simp add: noShowRow_def)
    with r fits int have "rec = ?d\<lparr>de_id := om_next (w_orders ?w), de_supersededBy := None, de_decidedAt := now\<rparr>" by (simp add: recordDecision_def write_decision_def Let_def)
    moreover have "ev_retained e + ev_refund e = ?n" using e(2) unfolding evaluation_fits_def by simp
    ultimately show ?thesis by (simp add: noShowRow_def)
  qed
  moreover have "?n = max 0 (lo_collected lo - max (lo_refunded lo) ?other)" by (simp add: collected_left_def Let_def)
  moreover have "\<not> window_due now' x" if "x \<in> set (db_declarations (w_bookings ?w'))" "nd_booking x = b" for x
  proof -
    let ?P = "\<lambda>d. nd_booking d = b \<and> nd_evaluationState d = WindowOpen" and ?f = "\<lambda>d. d\<lparr>nd_evaluationState := Evaluated\<rparr>"
    from that(1) have "(\<exists>y :: no_show_declaration. x = ?f y) \<or> \<not> ?P x" by (auto simp: markNoShowEvaluated_def tupd_def)
    then show ?thesis using that(2) by (auto simp: window_due_def)
  qed
  ultimately show ?thesis by (intro exI [of _ rec] exI [of _ ?w']) simp
qed

theorem due_window_is_decided_witness:
  "\<exists>d w'. decideNoShowWindowOnly [] 403600000 2 shop_absent = Inr (Some d, w') \<and> de_retained d + de_refund d = 50000 \<and>
    (\<forall>x \<in> set (db_declarations (w_bookings w')). nd_booking x = 2 \<longrightarrow> \<not> window_due 403600001 x)"
proof -
  obtain h where h: "platform_history shop_env (shop_absent # h)" using shop_absent_history by blast
  have o: "w_orders shop_absent = shop_captured" "w_payments shop_absent = shop_pay_paid" by (simp_all add: shop_absent_def shop_paid_def)
  have l: "liveDecision 2 KindNoShow shop_captured = None"
    by (simp add: liveDecision_def shop_captured_def shop_placed_def empty_orders_def)
  have r: "orderRefundCommitments 0 k shop_pay_paid = (None, 0)" for k by (simp add: orderRefundCommitments_def shop_pay_paid_def)
  have dec: "nd_booking shop_declaration = 2" "window_due 403600000 shop_declaration" "nd_declaredAt shop_declaration \<le> 403600000"
    by (simp_all add: shop_declaration_def window_due_def)
  let ?lo = "\<lparr>lo_order = 0, lo_status = OrdPaid, lo_collected = 50000, lo_refunded = 0\<rparr>"
  show ?thesis using due_window_is_decided [OF h, of 2 shop_declaration 403600000 ?lo "[]" 403600001] dec
    by (auto simp: shop_declared o l r shop_locked)
qed

section \<open>Refunds reported twice\<close>

lemma refund_counted:
  assumes "order_inv s" "order_at s i = Some od" "od_status od \<in> set REFUNDABLE_STATUSES" "0 < n" "valid_amount n" "od_refunded od + n \<le> od_collected od"
  shows "\<exists>s'. handle_refund_completed rid i (fin_int n) KindOrder s = Inr s' \<and> order_at s' i = Some (refund_row n od)"
proof -
  have lt: "od_refunded od < od_collected od" using assms(4,6) by simp
  have am: "assertNonNegativeAmount (fin_int n) l = Inr n" for l
    using assertAmount_Fin_int [of n l] assms(4,5) by (simp add: assertNonNegativeAmount_def fin_int_def)
  have i: "od_id od = i" using assms(2) by (auto simp: order_at_def dest: tget_SomeD)
  have r: "refundable_row i n od" using i assms(3,6) by simp
  have key: "keyed od_id (om_orders s)" by (rule inv_order_keyed [OF assms(1)])
  have one: "taffected (refundable_row i n) (om_orders s) = 1"
    using taffected_key_one(1) [OF key, of i "\<lambda>od. od_status od \<in> set REFUNDABLE_STATUSES \<and> od_refunded od + n \<le> od_collected od"] assms(2,3,6)
    by (auto simp: order_at_def)
  let ?s1 = "s\<lparr>om_orders := tupd (refundable_row i n) (refund_row n) (om_orders s)\<rparr>"
  have at: "order_at ?s1 i = Some (refund_row n od)"
    by (rule order_at_tupd [where P = "refundable_row i n" and s = s and f = "refund_row n"])
       (use assms(2) r in \<open>simp_all add: refund_row_def\<close>)
  have "recordRefundWithin i n rid s = Inr (True, emitOrderEvent (OrderRefunded i rid n (od_refunded (refund_row n od))) ?s1)"
    unfolding recordRefundWithin_def Let_def using one at by simp
  then have "recordRefund i (fin_int n) rid s = Inr (True, emitOrderEvent (OrderRefunded i rid n (od_refunded (refund_row n od))) ?s1)"
    using assms(4) by (simp add: recordRefund_def am)
  moreover have "order_at (emitOrderEvent e t) i = order_at t i" for e t by (simp add: emitOrderEvent_def order_at_def)
  ultimately show ?thesis using assms(2) lt at by (auto simp: handle_refund_completed_def order_findById_def)
qed

text \<open>\<open>RefundCompletedCommerceHandler\<close> counts a partial refund once for every delivery. The relay delivers at least
  once; as long as the order has not given everything back, the second delivery of the same refund adds its amount a
  second time, so the order ends with twice the money marked as returned.\<close>

theorem redelivered_refund_counts_twice:
  assumes "order_inv s" "order_at s i = Some od" "od_status od \<in> set REFUNDABLE_STATUSES" "0 < n" "valid_amount n"
    "od_refunded od + 2 * n \<le> od_collected od"
  shows "\<exists>s1 s2. handle_refund_completed rid i (fin_int n) KindOrder s = Inr s1 \<and> handle_refund_completed rid i (fin_int n) KindOrder s1 = Inr s2 \<and>
    map_option od_refunded (order_at s2 i) = Some (od_refunded od + 2 * n)"
proof -
  obtain s1 where s1: "handle_refund_completed rid i (fin_int n) KindOrder s = Inr s1" "order_at s1 i = Some (refund_row n od)"
    using refund_counted [OF assms(1-5)] assms(4,6) by auto
  have "order_inv s1"
    using s1(1) assms(1) refund_inv by (auto simp: handle_refund_completed_def bind_res_Inr split: option.splits if_splits)
  moreover have "od_status (refund_row n od) \<in> set REFUNDABLE_STATUSES" "od_refunded (refund_row n od) + n \<le> od_collected (refund_row n od)"
    using assms(4,6) by (simp_all add: refund_row_def REFUNDABLE_STATUSES_def)
  ultimately obtain s2 where "handle_refund_completed rid i (fin_int n) KindOrder s1 = Inr s2" "order_at s2 i = Some (refund_row n (refund_row n od))"
    using refund_counted [OF _ s1(2) _ assms(4,5)] by blast
  with s1(1) show ?thesis by (simp add: refund_row_def)
qed

theorem redelivered_refund_counts_twice_witness:
  "\<exists>s1 s2. handle_refund_completed 9 0 (fin_int 20000) KindOrder shop_captured = Inr s1 \<and>
    handle_refund_completed 9 0 (fin_int 20000) KindOrder s1 = Inr s2 \<and> map_option od_refunded (order_at s2 0) = Some 40000"
proof -
  obtain h where h: "platform_history shop_env (shop_paid # h)" using shop_paid_history by blast
  have "order_inv (w_orders shop_paid)" using full_invD(4) [OF history_full(1) [OF h]] by simp
  then have "order_inv shop_captured" by (simp add: shop_paid_def)
  moreover have "order_at shop_captured 0 = Some (capture_row 2 50000 shop_order)" using shop_order_found by (simp add: order_findById_def)
  ultimately show ?thesis
    using redelivered_refund_counts_twice [of shop_captured 0 "capture_row 2 50000 shop_order" 20000 9]
    by (simp add: capture_row_def shop_order_def shop_schedule_def REFUNDABLE_STATUSES_def valid_amount_def money_bounds)
qed

end
