(* ===== verification/Outbox_Model.thy ===== *)
theory Outbox_Model
  imports Js_Value Payment_Provider
begin

text \<open>
  The transactional outbox (\<open>libs/events/src\<close>): what may enter a payload (\<open>event-envelope.ts\<close>), the write of an
  event in the transaction of its fact (\<open>outbox.writer.ts\<close>), the correlation id (\<open>correlation.ts\<close>), and the relay
  that turns committed rows into calls of the handlers (\<open>outbox.relay.ts\<close>).

  The relay is generic over the handlers and the world they act on: a handler is a function that answers the message
  of what it threw, if it threw, and what it left behind, because each handler commits on its own. Ids come from a
  counter: UUIDv7 ids sort in the order they are drawn, which is not the order the transactions commit in. The ambient correlation id, which the code keeps in an
  \<open>AsyncLocalStorage\<close>, is an argument; while a row is dispatched it is the id the handlers see in the envelope. The
  statements of the relay itself (its query and its two updates) are taken to succeed.
\<close>

section \<open>What may enter a payload\<close>

definition FORBIDDEN_PAYLOAD_KEYS :: "string list" where
  "FORBIDDEN_PAYLOAD_KEYS = map (map ascii_lower) [''code'', ''otp'', ''otpCode'', ''codeHash'', ''password'', ''passwordHash'',
     ''token'', ''accessToken'', ''refreshToken'', ''tokenHash'', ''secret'', ''apiKey'', ''merchantId'', ''cardNumber'', ''pan'',
     ''cvv'', ''authorization'']"

definition forbidden_payload_key :: "string \<Rightarrow> bool" where
  "forbidden_payload_key key \<longleftrightarrow> map ascii_lower key \<in> set FORBIDDEN_PAYLOAD_KEYS"

text \<open>The key and the path of the \<open>ForbiddenEventPayloadError\<close> that is thrown first.\<close>

fun payload_secret :: "string \<Rightarrow> nat \<Rightarrow> jsval \<Rightarrow> (string \<times> string) option"
  and items_secret :: "string \<Rightarrow> nat \<Rightarrow> nat \<Rightarrow> jsval list \<Rightarrow> (string \<times> string) option"
  and entries_secret :: "string \<Rightarrow> nat \<Rightarrow> (string \<times> jsval) list \<Rightarrow> (string \<times> string) option" where
  "payload_secret path depth (JArray xs) = (if 8 < depth then None else items_secret path depth 0 xs)"
| "payload_secret path depth (JObject ps) = (if 8 < depth then None else entries_secret path depth ps)"
| "payload_secret path depth v = None"
| "items_secret path depth i [] = None"
| "items_secret path depth i (x # xs) =
    (case payload_secret (path @ ''['' @ show_nat i @ '']'') (Suc depth) x of
       Some e \<Rightarrow> Some e | None \<Rightarrow> items_secret path depth (Suc i) xs)"
| "entries_secret path depth [] = None"
| "entries_secret path depth ((k, v) # ps) =
    (if forbidden_payload_key k then Some (k, path)
     else case payload_secret (path @ ''.'' @ k) (Suc depth) v of
       Some e \<Rightarrow> Some e | None \<Rightarrow> entries_secret path depth ps)"

definition assertPayloadHasNoSecrets :: "jsval \<Rightarrow> (string \<times> string) + unit" where
  "assertPayloadHasNoSecrets payload = (case payload_secret ''payload'' 0 payload of Some e \<Rightarrow> Inl e | None \<Rightarrow> Inr ())"

section \<open>Rows and envelopes\<close>

record outbox_row =
  ob_id :: nat
  ob_aggregateType :: string
  ob_aggregateId :: nat
  ob_eventType :: string
  ob_eventVersion :: int
  ob_payload :: jsval
  ob_correlationId :: "nat option"
  ob_publishedAt :: "int option"
  ob_attempts :: nat
  ob_lastError :: "string option"
  ob_createdAt :: int

record event_envelope =
  en_id :: nat
  en_aggregateType :: string
  en_aggregateId :: nat
  en_eventType :: string
  en_eventVersion :: int
  en_payload :: jsval
  en_occurredAt :: int
  en_correlationId :: nat

record emit_input =
  em_aggregateType :: string
  em_aggregateId :: nat
  em_eventType :: string
  em_eventVersion :: "int option"
  em_payload :: jsval
  em_correlationId :: "nat option"

text \<open>The outbox tables by their source, the id counter, the flag of the relay and everything else.\<close>

record 'w relay_state =
  rs_table :: "nat \<Rightarrow> outbox_row list"
  rs_next :: nat
  rs_draining :: bool
  rs_world :: 'w

definition correlationIdOrNew :: "nat option \<Rightarrow> 'w relay_state \<Rightarrow> nat \<times> 'w relay_state" where
  "correlationIdOrNew ambient s = (case ambient of Some c \<Rightarrow> (c, s) | None \<Rightarrow> (rs_next s, s\<lparr>rs_next := Suc (rs_next s)\<rparr>))"

text \<open>\<open>given ?? correlationIdOrNew()\<close>.\<close>

definition correlation_of :: "nat option \<Rightarrow> nat option \<Rightarrow> 'w relay_state \<Rightarrow> nat \<times> 'w relay_state" where
  "correlation_of ambient given s = (case given of Some c \<Rightarrow> (c, s) | None \<Rightarrow> correlationIdOrNew ambient s)"

definition emit_event :: "nat option \<Rightarrow> int \<Rightarrow> nat \<Rightarrow> emit_input \<Rightarrow> 'w relay_state \<Rightarrow> (string \<times> string) + event_envelope \<times> 'w relay_state" where
  "emit_event ambient now src inp s =
    bind_res (assertPayloadHasNoSecrets (em_payload inp)) (\<lambda>_.
    case correlation_of ambient (em_correlationId inp) s of (cid, s1) \<Rightarrow>
      (let version = (case em_eventVersion inp of None \<Rightarrow> 1 | Some v \<Rightarrow> v);
           row = \<lparr>ob_id = rs_next s1, ob_aggregateType = em_aggregateType inp, ob_aggregateId = em_aggregateId inp, ob_eventType = em_eventType inp,
             ob_eventVersion = version, ob_payload = em_payload inp, ob_correlationId = Some cid, ob_publishedAt = None, ob_attempts = 0,
             ob_lastError = None, ob_createdAt = now\<rparr>
       in Inr (\<lparr>en_id = ob_id row, en_aggregateType = ob_aggregateType row, en_aggregateId = ob_aggregateId row, en_eventType = ob_eventType row,
             en_eventVersion = version, en_payload = em_payload inp, en_occurredAt = now, en_correlationId = cid\<rparr>,
           s1\<lparr>rs_table := (rs_table s1)(src := rs_table s1 src @ [row]), rs_next := Suc (rs_next s1)\<rparr>)))"

section \<open>The relay\<close>

record 'w event_handler =
  eh_eventType :: string
  eh_handle :: "event_envelope \<Rightarrow> 'w relay_state \<Rightarrow> string option \<times> 'w relay_state"

text \<open>The map the constructor builds, in the order of registration.\<close>

definition register_handler :: "'w event_handler \<Rightarrow> (string \<rightharpoonup> 'w event_handler list) \<Rightarrow> (string \<rightharpoonup> 'w event_handler list)" where
  "register_handler h m = m(eh_eventType h \<mapsto> (case m (eh_eventType h) of None \<Rightarrow> [] | Some l \<Rightarrow> l) @ [h])"

definition handlersByType :: "'w event_handler list \<Rightarrow> (string \<rightharpoonup> 'w event_handler list)" where
  "handlersByType handlers = fold register_handler handlers Map.empty"

definition handlers_for :: "'w event_handler list \<Rightarrow> string \<Rightarrow> 'w event_handler list" where
  "handlers_for handlers eventType = (case handlersByType handlers eventType of None \<Rightarrow> [] | Some l \<Rightarrow> l)"

fun run_handlers :: "'w event_handler list \<Rightarrow> event_envelope \<Rightarrow> 'w relay_state \<Rightarrow> string option \<times> 'w relay_state" where
  "run_handlers [] env s = (None, s)"
| "run_handlers (h # hs) env s = (case eh_handle h env s of (Some e, s1) \<Rightarrow> (Some e, s1) | (None, s1) \<Rightarrow> run_handlers hs env s1)"

definition envelope_of :: "outbox_row \<Rightarrow> nat \<Rightarrow> event_envelope" where
  "envelope_of row correlationId = \<lparr>en_id = ob_id row, en_aggregateType = ob_aggregateType row, en_aggregateId = ob_aggregateId row,
     en_eventType = ob_eventType row, en_eventVersion = ob_eventVersion row, en_payload = ob_payload row, en_occurredAt = ob_createdAt row,
     en_correlationId = correlationId\<rparr>"

definition update_rows :: "nat \<Rightarrow> (outbox_row \<Rightarrow> bool) \<Rightarrow> (outbox_row \<Rightarrow> outbox_row) \<Rightarrow> 'w relay_state \<Rightarrow> 'w relay_state" where
  "update_rows src P f s = s\<lparr>rs_table := (rs_table s)(src := tupd P f (rs_table s src))\<rparr>"

definition dispatch_row :: "'w event_handler list \<Rightarrow> nat option \<Rightarrow> int \<Rightarrow> nat \<Rightarrow> outbox_row \<Rightarrow> 'w relay_state \<Rightarrow> bool \<times> 'w relay_state" where
  "dispatch_row handlers ambient now src row s =
    (case correlation_of ambient (ob_correlationId row) s of (cid, s0) \<Rightarrow>
       case run_handlers (handlers_for handlers (ob_eventType row)) (envelope_of row cid) s0 of
         (None, s1) \<Rightarrow> (True, update_rows src (\<lambda>x. ob_id x = ob_id row \<and> ob_publishedAt x = None) (\<lambda>x. x\<lparr>ob_publishedAt := Some now\<rparr>) s1)
       | (Some message, s1) \<Rightarrow> (False, update_rows src (\<lambda>x. ob_id x = ob_id row)
             (\<lambda>x. x\<lparr>ob_attempts := ob_attempts row + 1, ob_lastError := Some (take 1000 message)\<rparr>) s1))"

definition pending_rows :: "nat \<Rightarrow> outbox_row list \<Rightarrow> outbox_row list" where
  "pending_rows batchSize t = take batchSize (sort_key ob_id (filter (\<lambda>x. ob_publishedAt x = None) t))"

fun dispatch_rows :: "'w event_handler list \<Rightarrow> nat option \<Rightarrow> int \<Rightarrow> nat \<Rightarrow> outbox_row list \<Rightarrow> nat \<times> nat \<Rightarrow> 'w relay_state \<Rightarrow> (nat \<times> nat) \<times> 'w relay_state" where
  "dispatch_rows handlers ambient now src [] r s = (r, s)"
| "dispatch_rows handlers ambient now src (row # rows) (dispatched, failed) s =
    (case dispatch_row handlers ambient now src row s of
       (True, s1) \<Rightarrow> dispatch_rows handlers ambient now src rows (Suc dispatched, failed) s1
     | (False, s1) \<Rightarrow> dispatch_rows handlers ambient now src rows (dispatched, Suc failed) s1)"

definition drainSource :: "'w event_handler list \<Rightarrow> nat option \<Rightarrow> int \<Rightarrow> nat \<Rightarrow> nat \<Rightarrow> 'w relay_state \<Rightarrow> (nat \<times> nat) \<times> 'w relay_state" where
  "drainSource handlers ambient now batchSize src s = dispatch_rows handlers ambient now src (pending_rows batchSize (rs_table s src)) (0, 0) s"

fun drain_sources :: "'w event_handler list \<Rightarrow> nat option \<Rightarrow> int \<Rightarrow> nat \<Rightarrow> nat list \<Rightarrow> nat \<times> nat \<Rightarrow> 'w relay_state \<Rightarrow> (nat \<times> nat) \<times> 'w relay_state" where
  "drain_sources handlers ambient now batchSize [] r s = (r, s)"
| "drain_sources handlers ambient now batchSize (src # srcs) (dispatched, failed) s =
    (case drainSource handlers ambient now batchSize src s of
       ((d, f), s1) \<Rightarrow> drain_sources handlers ambient now batchSize srcs (dispatched + d, failed + f) s1)"

definition DEFAULT_BATCH_SIZE :: nat where "DEFAULT_BATCH_SIZE = 100"

definition drain :: "'w event_handler list \<Rightarrow> nat list \<Rightarrow> nat option \<Rightarrow> int \<Rightarrow> nat \<Rightarrow> 'w relay_state \<Rightarrow> (nat \<times> nat) \<times> 'w relay_state" where
  "drain handlers sources ambient now batchSize s =
    (if rs_draining s then ((0, 0), s)
     else case drain_sources handlers ambient now batchSize sources (0, 0) (s\<lparr>rs_draining := True\<rparr>) of
       (r, s1) \<Rightarrow> (r, s1\<lparr>rs_draining := False\<rparr>))"

end
