(* ===== verification/Outbox_Invariant.thy ===== *)
theory Outbox_Invariant
  imports Outbox_Model
begin

text \<open>
  One pass of the relay as a change of tables: the handlers only append rows, every row of the batch is settled once
  from the handlers of its type, and every other row is left as it was.
\<close>

section \<open>Registration\<close>

lemma registered:
  "(case fold register_handler hs m t of None \<Rightarrow> [] | Some l \<Rightarrow> l) =
     (case m t of None \<Rightarrow> [] | Some l \<Rightarrow> l) @ filter (\<lambda>h. eh_eventType h = t) hs"
  by (induction hs arbitrary: m) (simp_all add: register_handler_def)

lemma handlers_for_filter: "handlers_for hs t = filter (\<lambda>h. eh_eventType h = t) hs"
  using registered [of hs Map.empty t] by (simp add: handlers_for_def handlersByType_def)

section \<open>What a handler and a pass leave behind\<close>

text \<open>
  Handlers (and the transactions that commit while one runs) only append rows, with ids the source does not hold yet. An id is
  drawn before its transaction commits, so a row may become visible after rows with larger ids.
\<close>

definition unused_id :: "'w relay_state \<Rightarrow> nat \<Rightarrow> nat \<Rightarrow> bool" where
  "unused_id s src i \<longleftrightarrow> rs_next s \<le> i \<or> i \<notin> ob_id ` set (rs_table s src)"

definition grows :: "'w relay_state \<Rightarrow> 'w relay_state \<Rightarrow> bool" where
  "grows s s' \<longleftrightarrow> rs_next s \<le> rs_next s' \<and> rs_draining s' = rs_draining s \<and>
     (\<forall>src. \<exists>new. rs_table s' src = rs_table s src @ new \<and> distinct (map ob_id new) \<and>
        (\<forall>x \<in> set new. unused_id s src (ob_id x) \<and> ob_id x < rs_next s'))"

definition appending :: "'w event_handler list \<Rightarrow> bool" where
  "appending handlers \<longleftrightarrow> (\<forall>h \<in> set handlers. \<forall>env s. grows s (snd (eh_handle h env s)))"

definition outbox_ok :: "'w relay_state \<Rightarrow> bool" where
  "outbox_ok s \<longleftrightarrow> (\<forall>src. distinct (map ob_id (rs_table s src)) \<and> (\<forall>x \<in> set (rs_table s src). ob_id x < rs_next s))"

text \<open>The row after its dispatch, from the answer of the handlers of its type.\<close>

definition settled :: "'w event_handler list \<Rightarrow> int \<Rightarrow> outbox_row \<Rightarrow> outbox_row \<Rightarrow> bool" where
  "settled handlers now x x' \<longleftrightarrow> (\<exists>cid s1.
     case fst (run_handlers (filter (\<lambda>h. eh_eventType h = ob_eventType x) handlers) (envelope_of x cid) s1) of
       None \<Rightarrow> x' = x\<lparr>ob_publishedAt := Some now\<rparr>
     | Some message \<Rightarrow> x' = x\<lparr>ob_attempts := ob_attempts x + 1, ob_lastError := Some (take 1000 message)\<rparr>)"

definition is_pending :: "outbox_row \<Rightarrow> bool" where
  "is_pending x \<longleftrightarrow> ob_publishedAt x = None"

lemma grows_refl [simp]: "grows s s"
  by (simp add: grows_def)

lemma grows_next: "grows s (s\<lparr>rs_next := Suc (rs_next s)\<rparr>)"
  by (simp add: grows_def)

lemma grows_at:
  assumes "grows s s'"
  obtains new where "rs_table s' src = rs_table s src @ new" "distinct (map ob_id new)"
    "\<And>x. x \<in> set new \<Longrightarrow> unused_id s src (ob_id x) \<and> ob_id x < rs_next s'"
  using assms unfolding grows_def by blast

lemma unused_differs: "unused_id s src (ob_id y) \<Longrightarrow> x \<in> set (rs_table s src) \<Longrightarrow> ob_id x < rs_next s \<Longrightarrow> ob_id x \<noteq> ob_id y"
  unfolding unused_id_def by (metis imageI leD)

lemma grows_trans:
  assumes a: "grows s s1" and b: "grows s1 s2"
  shows "grows s s2"
  unfolding grows_def
proof (intro conjI allI)
  have m: "rs_next s \<le> rs_next s1" "rs_next s1 \<le> rs_next s2" using a b by (simp_all add: grows_def)
  then show "rs_next s \<le> rs_next s2" by simp
  show "rs_draining s2 = rs_draining s" using a b by (simp add: grows_def)
  fix src
  obtain u where u: "rs_table s1 src = rs_table s src @ u" "distinct (map ob_id u)"
    "\<And>x. x \<in> set u \<Longrightarrow> unused_id s src (ob_id x) \<and> ob_id x < rs_next s1" by (rule grows_at [OF a, of src]) blast
  obtain v where v: "rs_table s2 src = rs_table s1 src @ v" "distinct (map ob_id v)"
    "\<And>x. x \<in> set v \<Longrightarrow> unused_id s1 src (ob_id x) \<and> ob_id x < rs_next s2" by (rule grows_at [OF b, of src]) blast
  have "ob_id x \<noteq> ob_id y" if "x \<in> set u" "y \<in> set v" for x y
    using u(1) u(3) [OF that(1)] v(3) [OF that(2)] that(1) by (intro unused_differs [of s1 src]) auto
  then have "distinct (map ob_id (u @ v))" using u(2) v(2) by fastforce
  moreover have "unused_id s src (ob_id x) \<and> ob_id x < rs_next s2" if "x \<in> set (u @ v)" for x
    using that u(1) u(3) [of x] v(3) [of x] m by (auto simp: unused_id_def)
  ultimately show "\<exists>new. rs_table s2 src = rs_table s src @ new \<and> distinct (map ob_id new) \<and>
      (\<forall>x \<in> set new. unused_id s src (ob_id x) \<and> ob_id x < rs_next s2)"
    using u(1) v(1) by (intro exI [of _ "u @ v"]) simp
qed

lemma grows_ok:
  assumes "grows s s'" "outbox_ok s"
  shows "outbox_ok s'"
  unfolding outbox_ok_def
proof
  fix src
  obtain u where u: "rs_table s' src = rs_table s src @ u" "distinct (map ob_id u)"
    "\<And>x. x \<in> set u \<Longrightarrow> unused_id s src (ob_id x) \<and> ob_id x < rs_next s'" by (rule grows_at [OF assms(1), of src]) blast
  have o: "distinct (map ob_id (rs_table s src))" "\<And>x. x \<in> set (rs_table s src) \<Longrightarrow> ob_id x < rs_next s"
    using assms(2) by (simp_all add: outbox_ok_def)
  have m: "rs_next s \<le> rs_next s'" using assms(1) by (simp add: grows_def)
  have "ob_id x \<noteq> ob_id y" if "x \<in> set (rs_table s src)" "y \<in> set u" for x y
    using o(2) [OF that(1)] u(3) [OF that(2)] that(1) by (intro unused_differs [of s src]) auto
  then have "distinct (map ob_id (rs_table s' src))" using u(1,2) o(1) by fastforce
  moreover have "ob_id x < rs_next s'" if "x \<in> set (rs_table s' src)" for x
    using that u(1) u(3) [of x] o(2) [of x] m by fastforce
  ultimately show "distinct (map ob_id (rs_table s' src)) \<and> (\<forall>x \<in> set (rs_table s' src). ob_id x < rs_next s')" by simp
qed

lemma correlation_grows: "correlation_of ambient given s = (cid, s') \<Longrightarrow> grows s s'"
  by (auto simp: correlation_of_def correlationIdOrNew_def grows_next split: option.splits)

lemma emit_grows:
  assumes "emit_event ambient now src inp s = Inr (env, s')"
  shows "grows s s'"
proof -
  obtain cid s1 where c: "correlation_of ambient (em_correlationId inp) s = (cid, s1)" by fastforce
  have "grows s1 s'" using assms c by (auto simp: emit_event_def Let_def bind_res_def grows_def unused_id_def split: sum.splits)
  then show ?thesis using correlation_grows [OF c] grows_trans by blast
qed

lemma run_grows:
  assumes "appending hs"
  shows "grows s (snd (run_handlers hs env s))"
  using assms
proof (induction hs env s rule: run_handlers.induct)
  case (2 h hs env s)
  obtain e s1 where h: "eh_handle h env s = (e, s1)" by fastforce
  have g: "grows s s1" using 2(2) h unfolding appending_def by (metis list.set_intros(1) snd_conv)
  show ?case
  proof (cases e)
    case None
    have "grows s1 (snd (run_handlers hs env s1))" using 2 h None by (simp add: appending_def)
    then show ?thesis using g h None grows_trans by fastforce
  qed (use g h in simp)
qed simp

lemma handlers_for_appending: "appending handlers \<Longrightarrow> appending (handlers_for handlers t)"
  by (simp add: appending_def handlers_for_filter)

lemma settled_iff:
  "settled handlers now x x' \<longleftrightarrow> (\<exists>cid s1.
     case fst (run_handlers (handlers_for handlers (ob_eventType x)) (envelope_of x cid) s1) of
       None \<Rightarrow> x' = x\<lparr>ob_publishedAt := Some now\<rparr>
     | Some message \<Rightarrow> x' = x\<lparr>ob_attempts := ob_attempts x + 1, ob_lastError := Some (take 1000 message)\<rparr>)"
  by (simp add: settled_def handlers_for_filter)

lemma settled_shape:
  assumes "settled handlers now x x'"
  shows "ob_id x' = ob_id x" "ob_eventType x' = ob_eventType x" "ob_attempts x \<le> ob_attempts x'"
    "is_pending x \<Longrightarrow> is_pending x' \<Longrightarrow> ob_attempts x' = ob_attempts x + 1"
  using assms unfolding settled_iff is_pending_def by (auto split: option.splits)

section \<open>The dispatch of a batch\<close>

text \<open>
  What a run over the rows \<open>rows\<close> does to the tables: every one of them is settled, every other row stays, new rows
  come behind, and the other sources only grow.
\<close>

definition batch_run :: "'w event_handler list \<Rightarrow> int \<Rightarrow> nat \<Rightarrow> outbox_row list \<Rightarrow> 'w relay_state \<Rightarrow> 'w relay_state \<Rightarrow> (outbox_row \<Rightarrow> outbox_row) \<Rightarrow> bool" where
  "batch_run handlers now src rows s s' g \<longleftrightarrow>
     (\<exists>s1. grows s s1 \<and> s' = s1\<lparr>rs_table := (rs_table s1)(src := map g (rs_table s1 src))\<rparr>) \<and>
     (\<forall>x. x \<notin> set rows \<longrightarrow> g x = x) \<and> (\<forall>x \<in> set rows. settled handlers now x (g x))"

lemma batch_run_id: "batch_run handlers now src rows s s' g \<Longrightarrow> ob_id (g x) = ob_id x"
  unfolding batch_run_def by (cases "x \<in> set rows") (auto dest: settled_shape(1))

lemma other_id: "ob_id y = ob_id row \<Longrightarrow> ob_id row \<notin> ob_id ` S \<Longrightarrow> y \<notin> S"
  by (metis imageI)

lemma batch_run_ok:
  assumes r: "batch_run handlers now src rows s s' g" and ok: "outbox_ok s"
  shows "outbox_ok s'"
proof -
  obtain s1 where s1: "grows s s1" "s' = s1\<lparr>rs_table := (rs_table s1)(src := map g (rs_table s1 src))\<rparr>"
    using r unfolding batch_run_def by blast
  have ids: "map ob_id (map g t) = map ob_id t" for t using batch_run_id [OF r] by simp
  have "outbox_ok s1" by (rule grows_ok [OF s1(1) ok])
  then show ?thesis using ids batch_run_id [OF r] unfolding outbox_ok_def s1(2) by (simp add: o_def)
qed

lemma settled_None:
  "fst (run_handlers (handlers_for handlers (ob_eventType x)) (envelope_of x cid) s1) = None \<Longrightarrow>
     settled handlers now x (x\<lparr>ob_publishedAt := Some now\<rparr>)"
  unfolding settled_iff by (rule exI [of _ cid], rule exI [of _ s1]) simp

lemma settled_Some:
  "fst (run_handlers (handlers_for handlers (ob_eventType x)) (envelope_of x cid) s1) = Some m \<Longrightarrow>
     settled handlers now x (x\<lparr>ob_attempts := ob_attempts x + 1, ob_lastError := Some (take 1000 m)\<rparr>)"
  unfolding settled_iff by (rule exI [of _ cid], rule exI [of _ s1]) simp

lemma map_point:
  assumes "distinct (map k t)" "r \<in> set t" "P r" "\<And>x. P x \<Longrightarrow> k x = k r"
  shows "tupd P f t = map (id(r := f r)) t"
  unfolding tupd_def
proof (rule map_cong [OF refl])
  fix x assume x: "x \<in> set t"
  have "x = r" if "P x" using assms(1,2) x assms(4) [OF that] by (auto simp: distinct_map dest: inj_onD)
  then show "(if P x then f x else x) = (id(r := f r)) x" using assms(3) by (cases "P x") auto
qed

lemma row_run:
  assumes ok: "outbox_ok s" and h: "appending handlers" and r: "row \<in> set (rs_table s src)" "is_pending row"
    and d: "dispatch_row handlers ambient now src row s = (b, s')"
  shows "\<exists>g. batch_run handlers now src [row] s s' g \<and> (b \<longleftrightarrow> \<not> is_pending (g row))"
proof -
  obtain cid s0 where c: "correlation_of ambient (ob_correlationId row) s = (cid, s0)" by fastforce
  obtain e s1 where e: "run_handlers (handlers_for handlers (ob_eventType row)) (envelope_of row cid) s0 = (e, s1)" by fastforce
  have fe: "fst (run_handlers (handlers_for handlers (ob_eventType row)) (envelope_of row cid) s0) = e" using e by simp
  have "grows s0 s1" using run_grows [OF handlers_for_appending [OF h], of s0 "ob_eventType row" "envelope_of row cid"] e by simp
  then have g: "grows s s1" using grows_trans [OF correlation_grows [OF c]] by simp
  obtain new where t1: "rs_table s1 src = rs_table s src @ new" by (rule grows_at [OF g, of src]) blast
  have o: "distinct (map ob_id (rs_table s1 src))" "row \<in> set (rs_table s1 src)"
    using grows_ok [OF g ok] r(1) by (simp add: outbox_ok_def) (simp add: t1 r(1))
  show ?thesis
  proof (cases e)
    case None
    have p: "tupd (\<lambda>x. ob_id x = ob_id row \<and> ob_publishedAt x = None) (\<lambda>x. x\<lparr>ob_publishedAt := Some now\<rparr>) (rs_table s1 src) =
        map (id(row := row\<lparr>ob_publishedAt := Some now\<rparr>)) (rs_table s1 src)"
      using r(2) by (intro map_point [OF o]) (auto simp: is_pending_def)
    have "b" "s' = s1\<lparr>rs_table := (rs_table s1)(src := map (id(row := row\<lparr>ob_publishedAt := Some now\<rparr>)) (rs_table s1 src))\<rparr>"
      using d c e None p by (simp_all add: dispatch_row_def update_rows_def)
    moreover have "settled handlers now row (row\<lparr>ob_publishedAt := Some now\<rparr>)" by (rule settled_None) (use fe None in simp)
    ultimately show ?thesis using g
      by (intro exI [of _ "id(row := row\<lparr>ob_publishedAt := Some now\<rparr>)"]) (auto simp: batch_run_def is_pending_def)
  next
    case (Some m)
    let ?r = "row\<lparr>ob_attempts := ob_attempts row + 1, ob_lastError := Some (take 1000 m)\<rparr>"
    have i: "x = row" if "x \<in> set (rs_table s1 src)" "ob_id x = ob_id row" for x
      using o that by (auto simp: distinct_map inj_on_def)
    have p: "tupd (\<lambda>x. ob_id x = ob_id row) (\<lambda>x. x\<lparr>ob_attempts := ob_attempts row + 1, ob_lastError := Some (take 1000 m)\<rparr>) (rs_table s1 src) =
        map (id(row := ?r)) (rs_table s1 src)"
      by (rule map_point [OF o]) auto
    have "\<not> b" "s' = s1\<lparr>rs_table := (rs_table s1)(src := map (id(row := ?r)) (rs_table s1 src))\<rparr>"
      using d c e Some p by (simp_all add: dispatch_row_def update_rows_def)
    moreover have "settled handlers now row ?r" by (rule settled_Some) (use fe Some in simp)
    ultimately show ?thesis using g r(2)
      by (intro exI [of _ "id(row := ?r)"]) (auto simp: batch_run_def is_pending_def)
  qed
qed

lemma batch_run_Cons:
  assumes a: "batch_run handlers now src [row] s s1 g1" and b: "batch_run handlers now src rows s1 s2 g2"
    and n: "ob_id row \<notin> ob_id ` set rows" and old: "ob_id row < rs_next s" "row \<in> set (rs_table s src)"
  shows "batch_run handlers now src (row # rows) s s2 (g2 \<circ> g1)"
proof -
  obtain u where u: "grows s u" "s1 = u\<lparr>rs_table := (rs_table u)(src := map g1 (rs_table u src))\<rparr>"
    using a unfolding batch_run_def by blast
  obtain v where v: "grows s1 v" "s2 = v\<lparr>rs_table := (rs_table v)(src := map g2 (rs_table v src))\<rparr>"
    using b unfolding batch_run_def by blast
  obtain new where new: "rs_table v src = rs_table s1 src @ new" "distinct (map ob_id new)"
      "\<And>x. x \<in> set new \<Longrightarrow> unused_id s1 src (ob_id x) \<and> ob_id x < rs_next v" by (rule grows_at [OF v(1), of src]) blast
  have nx: "rs_next s1 = rs_next u" "rs_next s \<le> rs_next u" using u by (simp_all add: grows_def)
  have gid: "ob_id (g1 x) = ob_id x" for x by (rule batch_run_id [OF a])
  have ids: "ob_id ` set (rs_table s1 other) = ob_id ` set (rs_table u other)" for other
    using gid u(2) by (auto simp: image_image)
  obtain more where "rs_table u src = rs_table s src @ more" by (rule grows_at [OF u(1), of src]) blast
  then have seen: "ob_id row \<in> ob_id ` set (rs_table s1 src)" using old(2) unfolding ids by simp
  have g1: "g1 x = x" if "x \<noteq> row" for x using a that by (simp add: batch_run_def)
  have "map g1 new = new" 
  proof (rule map_idI)
    fix x assume "x \<in> set new"
    then have "x \<noteq> row" using new(3) [of x] nx old(1) seen by (auto simp: unused_id_def)
    then show "g1 x = x" by (rule g1)
  qed
  then have t: "rs_table v src = map g1 (rs_table u src @ new)" using new(1) u(2) by simp
  define w where "w = v\<lparr>rs_table := (rs_table v)(src := rs_table u src @ new)\<rparr>"
  have "grows u w"
    unfolding grows_def
  proof (intro conjI allI)
    show "rs_next u \<le> rs_next w" "rs_draining w = rs_draining u" using v(1) u(2) by (simp_all add: w_def grows_def)
    fix other
    obtain x where x: "rs_table v other = rs_table s1 other @ x" "distinct (map ob_id x)"
      "\<And>y. y \<in> set x \<Longrightarrow> unused_id s1 other (ob_id y) \<and> ob_id y < rs_next v" by (rule grows_at [OF v(1), of other]) blast
    show "\<exists>new. rs_table w other = rs_table u other @ new \<and> distinct (map ob_id new) \<and>
        (\<forall>y \<in> set new. unused_id u other (ob_id y) \<and> ob_id y < rs_next w)"
    proof (cases "other = src")
      case True
      then show ?thesis using new nx ids by (intro exI [of _ new]) (simp add: w_def unused_id_def)
    next
      case False
      then show ?thesis using x u(2) nx by (intro exI [of _ x]) (simp add: w_def unused_id_def)
    qed
  qed
  then have "grows s w" by (rule grows_trans [OF u(1)])
  moreover have "s2 = w\<lparr>rs_table := (rs_table w)(src := map (g2 \<circ> g1) (rs_table w src))\<rparr>"
    using t unfolding v(2) w_def by simp
  moreover have "(g2 \<circ> g1) x = x" if "x \<notin> set (row # rows)" for x
    using that g1 [of x] b by (simp add: batch_run_def)
  moreover have "settled handlers now x ((g2 \<circ> g1) x)" if "x \<in> set (row # rows)" for x
  proof (cases "x = row")
    case True
    have "ob_id (g1 row) = ob_id row" by (rule batch_run_id [OF a])
    then have "g1 row \<notin> set rows" by (rule other_id [OF _ n])
    then have "g2 (g1 row) = g1 row" using b by (simp add: batch_run_def)
    then show ?thesis using a True by (simp add: batch_run_def)
  next
    case False
    then show ?thesis using that g1 [OF False] b by (simp add: batch_run_def)
  qed
  ultimately show ?thesis unfolding batch_run_def by blast
qed

lemma rows_run:
  assumes "outbox_ok s" "appending handlers" "distinct (map ob_id rows)" "\<forall>x \<in> set rows. x \<in> set (rs_table s src) \<and> is_pending x"
    and "dispatch_rows handlers ambient now src rows (d, f) s = (r, s')"
  shows "\<exists>g. batch_run handlers now src rows s s' g \<and>
     r = (d + length (filter (\<lambda>x. \<not> is_pending (g x)) rows), f + length (filter (\<lambda>x. is_pending (g x)) rows))"
  using assms
proof (induction rows arbitrary: d f s)
  case Nil
  then show ?case by (intro exI [of _ id]) (auto simp: batch_run_def intro!: exI [of _ s])
next
  case (Cons row rows)
  obtain b s1 where d: "dispatch_row handlers ambient now src row s = (b, s1)" by fastforce
  have row: "row \<in> set (rs_table s src)" "is_pending row" using Cons.prems(4) by simp_all
  obtain g1 where g1: "batch_run handlers now src [row] s s1 g1" "b \<longleftrightarrow> \<not> is_pending (g1 row)"
    using row_run [OF Cons.prems(1,2) row d] by blast
  have n: "ob_id row \<notin> ob_id ` set rows" using Cons.prems(3) by auto
  have old: "ob_id row < rs_next s" using Cons.prems(1) row(1) by (simp add: outbox_ok_def)
  obtain u where u: "grows s u" "s1 = u\<lparr>rs_table := (rs_table u)(src := map g1 (rs_table u src))\<rparr>"
    using g1(1) unfolding batch_run_def by blast
  obtain new where t: "rs_table u src = rs_table s src @ new" by (rule grows_at [OF u(1), of src]) blast
  have keep: "g1 x = x" if "x \<in> set rows" for x using g1(1) that n by (force simp: batch_run_def)
  have "\<forall>x \<in> set rows. x \<in> set (rs_table s1 src) \<and> is_pending x"

  proof
    fix x assume x: "x \<in> set rows"
    have "x \<in> set (rs_table u src)" "is_pending x" using Cons.prems(4) x t by simp_all
    moreover have "x \<in> g1 ` set (rs_table u src)" by (rule image_eqI [of _ _ x]) (use keep [OF x] calculation in simp_all)
    ultimately show "x \<in> set (rs_table s1 src) \<and> is_pending x" unfolding u(2) by simp
  qed
  moreover have "dispatch_rows handlers ambient now src rows (if b then (Suc d, f) else (d, Suc f)) s1 = (r, s')"
    using Cons.prems(5) d by (cases b) simp_all
  ultimately obtain g2 where g2: "batch_run handlers now src rows s1 s' g2"
      "r = ((if b then Suc d else d) + length (filter (\<lambda>x. \<not> is_pending (g2 x)) rows),
        (if b then f else Suc f) + length (filter (\<lambda>x. is_pending (g2 x)) rows))"
    using Cons.IH [OF batch_run_ok [OF g1(1) Cons.prems(1)] Cons.prems(2)] Cons.prems(3) by (cases b) fastforce+
  have c: "batch_run handlers now src (row # rows) s s' (g2 \<circ> g1)" by (rule batch_run_Cons [OF g1(1) g2(1) n old row(1)])
  have "ob_id (g1 row) = ob_id row" by (rule batch_run_id [OF g1(1)])
  then have "g1 row \<notin> set rows" by (rule other_id [OF _ n])
  then have "g2 (g1 row) = g1 row" using g2(1) by (simp add: batch_run_def)
  then have "r = (d + length (filter (\<lambda>x. \<not> is_pending ((g2 \<circ> g1) x)) (row # rows)), f + length (filter (\<lambda>x. is_pending ((g2 \<circ> g1) x)) (row # rows)))"
    using g2(2) g1(2) keep by (cases b) (simp_all cong: filter_cong)
  with c show ?case by blast
qed

section \<open>Payloads\<close>

text \<open>A forbidden key below at most \<open>n\<close> arrays and objects.\<close>

primrec carries :: "nat \<Rightarrow> jsval \<Rightarrow> bool" where
  "carries 0 v = False"
| "carries (Suc n) v = (case v of JArray xs \<Rightarrow> \<exists>x \<in> set xs. carries n x
     | JObject ps \<Rightarrow> \<exists>(k, x) \<in> set ps. forbidden_payload_key k \<or> carries n x | _ \<Rightarrow> False)"

lemma carries_leaf [simp]: "\<not> is_object v \<Longrightarrow> \<not> carries n v"
  by (cases n) (auto simp: is_object_def split: jsval.splits)

lemma nine_minus: "9 - Suc d = 8 - d"
  by simp

lemma secret_carries:
  "payload_secret path depth v = None \<longleftrightarrow> \<not> carries (9 - depth) v"
  "items_secret path depth i xs = None \<longleftrightarrow> (\<forall>x \<in> set xs. \<not> carries (8 - depth) x)"
  "entries_secret path depth ps = None \<longleftrightarrow> (\<forall>(k, x) \<in> set ps. \<not> forbidden_payload_key k \<and> \<not> carries (8 - depth) x)"
proof (induction path depth v and path depth i xs and path depth ps rule: payload_secret_items_secret_entries_secret.induct)
  case (1 path depth xs)
  then show ?case by (cases "8 < depth") (auto simp: Suc_diff_le numeral_eq_Suc)
next
  case (2 path depth ps)
  then show ?case by (cases "8 < depth") (auto simp: Suc_diff_le numeral_eq_Suc)
qed (auto simp: nine_minus is_object_def split: option.splits)

end
