(* ===== verification/Outbox_Steps.thy ===== *)
theory Outbox_Steps
  imports Outbox_Invariant
begin

text \<open>
  Passes and drains seen from one row: where it stands in the queue of its source, when a pass reaches it, what the
  other sources and the producers can change, and how far repeated drains move it.
\<close>

section \<open>The place of a row\<close>

definition rows_ahead :: "outbox_row \<Rightarrow> outbox_row list \<Rightarrow> outbox_row set" where
  "rows_ahead x t = {y \<in> set t. is_pending y \<and> ob_id y < ob_id x}"

lemma set_sort_key: "set (sort_key k t) = set t"
  by simp

lemma first_of_sorted:
  assumes "sorted (map k l)" "distinct (map k l)" "x \<in> set l"
  shows "x \<in> set (take n l) \<longleftrightarrow> card {y \<in> set l. k y < (k x :: nat)} < n"
proof -
  obtain us vs where l: "l = us @ x # vs" using assms(3) by (auto dest: split_list)
  have d: "distinct us" "x \<notin> set us" "x \<notin> set vs"
    using assms(2) unfolding l by (auto simp: distinct_map)
  have u: "k y < k x" if "y \<in> set us" for y
  proof -
    have "k y \<le> k x" using assms(1) that unfolding l by (simp add: sorted_append)
    moreover have "k x \<notin> k ` set us" using assms(2) unfolding l by simp
    then have "k y \<noteq> k x" using that by (metis imageI)
    ultimately show ?thesis by simp
  qed
  have v: "\<not> k y < k x" if "y \<in> set vs" for y using assms(1) that unfolding l by (force simp: sorted_append)
  have "{y \<in> set l. k y < k x} = set us" unfolding l using u v by auto
  then have c: "card {y \<in> set l. k y < k x} = length us" using d(1) by (simp add: distinct_card)
  have "x \<in> set (take n l) \<longleftrightarrow> length us < n"
  proof
    assume "x \<in> set (take n l)"
    then show "length us < n" using d(2) unfolding l by (cases "length us < n") (auto dest: in_set_takeD)
  next
    assume "length us < n"
    then show "x \<in> set (take n l)" unfolding l by (cases "n - length us") auto
  qed
  then show ?thesis using c by simp
qed

lemma pending_facts:
  assumes "distinct (map ob_id t)"
  shows "distinct (map ob_id (pending_rows n t))" "\<forall>x \<in> set (pending_rows n t). x \<in> set t \<and> is_pending x"
    "x \<in> set t \<Longrightarrow> is_pending x \<Longrightarrow> x \<in> set (pending_rows n t) \<longleftrightarrow> card (rows_ahead x t) < n"
    "x \<in> set t \<Longrightarrow> is_pending x \<Longrightarrow> x \<notin> set (pending_rows n t) \<Longrightarrow> set (pending_rows n t) \<subseteq> rows_ahead x t \<and> length (pending_rows n t) = n"
proof -
  define l where "l = sort_key ob_id (filter (\<lambda>x. ob_publishedAt x = None) t)"
  have p: "pending_rows n t = take n l" by (simp add: pending_rows_def l_def)
  have dl: "distinct (map ob_id l)"
    using assms by (auto simp: l_def distinct_map inj_on_def)
  have sl: "set l = {y \<in> set t. is_pending y}" by (auto simp: l_def is_pending_def)
  have so: "sorted (map ob_id l)" by (simp add: l_def)
  show "distinct (map ob_id (pending_rows n t))" unfolding p using dl by (metis distinct_take take_map)
  show "\<forall>x \<in> set (pending_rows n t). x \<in> set t \<and> is_pending x" unfolding p using sl by (auto dest: in_set_takeD)
  have e: "{y \<in> set l. ob_id y < ob_id x} = rows_ahead x t" using sl by (auto simp: rows_ahead_def)
  show i: "x \<in> set (pending_rows n t) \<longleftrightarrow> card (rows_ahead x t) < n" if "x \<in> set t" "is_pending x"
    unfolding p e [symmetric] using that sl by (intro first_of_sorted [OF so dl]) auto
  show "set (pending_rows n t) \<subseteq> rows_ahead x t \<and> length (pending_rows n t) = n"
    if x: "x \<in> set t" "is_pending x" "x \<notin> set (pending_rows n t)"
  proof
    obtain i where li: "i < length l" "l ! i = x" using x(1,2) sl by (metis (mono_tags, lifting) in_set_conv_nth mem_Collect_eq)
    have ni: "n \<le> i" using x(3) li unfolding p by (metis in_set_conv_nth length_take min_less_iff_conj not_le nth_take)
    then show "length (pending_rows n t) = n" unfolding p using li(1) by simp
    show "set (pending_rows n t) \<subseteq> rows_ahead x t"
    proof
      fix y assume "y \<in> set (pending_rows n t)"
      then obtain j where j: "j < n" "j < length l" "l ! j = y" unfolding p by (auto simp: in_set_conv_nth)
      have "ob_id y \<le> ob_id x" using sorted_nth_mono [OF so, of j i] j ni li by simp
      moreover have "ob_id y \<noteq> ob_id x"
        using nth_eq_iff_index_eq [OF dl, of j i] j ni li by simp
      moreover have "y \<in> set l" using j by auto
      ultimately show "y \<in> rows_ahead x t" using sl by (simp add: rows_ahead_def)
    qed
  qed
qed

section \<open>One pass\<close>

lemma drainSource_run:
  assumes ok: "outbox_ok s" and h: "appending handlers" and d: "drainSource handlers ambient now n src s = (r, s')"
  shows "\<exists>g. batch_run handlers now src (pending_rows n (rs_table s src)) s s' g \<and>
     r = (length (filter (\<lambda>x. \<not> is_pending (g x)) (pending_rows n (rs_table s src))),
       length (filter (\<lambda>x. is_pending (g x)) (pending_rows n (rs_table s src))))"
proof -
  have t: "distinct (map ob_id (rs_table s src))" using ok by (simp add: outbox_ok_def)
  show ?thesis
    using rows_run [OF ok h pending_facts(1) [OF t] pending_facts(2) [OF t] d [unfolded drainSource_def]] by simp
qed

text \<open>What one source sees of a step: rows appended behind, or the rows of the batch settled as well.\<close>

definition source_run :: "nat \<Rightarrow> (outbox_row \<Rightarrow> outbox_row) \<Rightarrow> 'w relay_state \<Rightarrow> 'w relay_state \<Rightarrow> bool" where
  "source_run src g s s' \<longleftrightarrow> (\<exists>new. rs_table s' src = map g (rs_table s src) @ new \<and> distinct (map ob_id new) \<and>
     (\<forall>x \<in> set new. unused_id s src (ob_id x)) \<and> (\<forall>x. ob_id (g x) = ob_id x))"

lemma grows_source: "grows s s' \<Longrightarrow> source_run src id s s'"
  unfolding source_run_def by (erule grows_at [of _ _ src]) auto

lemma batch_source:
  assumes b: "batch_run handlers now src (pending_rows n (rs_table s src)) s s' g" and ok: "outbox_ok s"
  shows "source_run src g s s'" "other \<noteq> src \<Longrightarrow> source_run other id s s'"
proof -
  obtain s1 where s1: "grows s s1" "s' = s1\<lparr>rs_table := (rs_table s1)(src := map g (rs_table s1 src))\<rparr>"
    using b unfolding batch_run_def by blast
  obtain new where new: "rs_table s1 src = rs_table s src @ new" "distinct (map ob_id new)"
      "\<And>x. x \<in> set new \<Longrightarrow> unused_id s src (ob_id x) \<and> ob_id x < rs_next s1" by (rule grows_at [OF s1(1), of src]) blast
  have "ob_id \<circ> g = ob_id" using batch_run_id [OF b] by (simp add: fun_eq_iff)
  then show "source_run src g s s'"
    unfolding source_run_def using new s1(2) batch_run_id [OF b] by (intro exI [of _ "map g new"]) auto
  show "source_run other id s s'" if "other \<noteq> src"
    using grows_source [OF s1(1), of other] that by (simp add: source_run_def s1(2))
qed

text \<open>An invariant of one source that its own passes and appended rows keep is kept by a drain of any sources.\<close>

lemma drain_sources_keep:
  assumes h: "appending handlers"
    and grow: "\<And>s s'. I s \<Longrightarrow> outbox_ok s \<Longrightarrow> source_run src id s s' \<Longrightarrow> I s'"
    and pass: "\<And>s s' g. I s \<Longrightarrow> outbox_ok s \<Longrightarrow> batch_run handlers now src (pending_rows n (rs_table s src)) s s' g \<Longrightarrow>
       source_run src g s s' \<Longrightarrow> I s'"
  shows "outbox_ok s \<Longrightarrow> I s \<Longrightarrow> drain_sources handlers ambient now n srcs r s = (r', s') \<Longrightarrow> outbox_ok s' \<and> I s'"
proof (induction srcs arbitrary: r s)
  case (Cons x srcs)
  obtain d f s1 where x: "drainSource handlers ambient now n x s = ((d, f), s1)" by (metis surj_pair)
  obtain g where g: "batch_run handlers now x (pending_rows n (rs_table s x)) s s1 g"
    using drainSource_run [OF Cons.prems(1) h x] by blast
  have ok: "outbox_ok s1" by (rule batch_run_ok [OF g Cons.prems(1)])
  have "I s1"
  proof (cases "x = src")
    case True
    show ?thesis by (rule pass [OF Cons.prems(2,1) g [unfolded True]]) (use batch_source(1) [OF g Cons.prems(1)] True in simp)
  next
    case False
    show ?thesis by (rule grow [OF Cons.prems(2,1)]) (rule batch_source(2) [OF g Cons.prems(1)], use False in simp)
  qed
  then show ?case using Cons.IH [OF ok] Cons.prems(3) x by (cases r) simp
qed simp

section \<open>How drains move a row\<close>

definition published_row :: "outbox_row \<Rightarrow> outbox_row list \<Rightarrow> bool" where
  "published_row x t \<longleftrightarrow> (\<exists>now. x\<lparr>ob_publishedAt := Some now\<rparr> \<in> set t)"

text \<open>
  Seen from a state \<open>s0\<close>: the ids below a row that became visible in its source since. The row is published, or it has advanced by
  \<open>m\<close> rows, not counting the late ones.
\<close>

definition late_ids :: "nat \<Rightarrow> outbox_row \<Rightarrow> 'w relay_state \<Rightarrow> 'w relay_state \<Rightarrow> nat set" where
  "late_ids src x s0 s = {i \<in> ob_id ` set (rs_table s src). i < ob_id x} - ob_id ` set (rs_table s0 src)"

definition awaits :: "nat \<Rightarrow> outbox_row \<Rightarrow> 'w relay_state \<Rightarrow> nat \<Rightarrow> 'w relay_state \<Rightarrow> bool" where
  "awaits src x s0 m s \<longleftrightarrow> ob_id ` set (rs_table s0 src) \<subseteq> ob_id ` set (rs_table s src) \<and>
     (published_row x (rs_table s src) \<or>
      x \<in> set (rs_table s src) \<and> is_pending x \<and>
      card (rows_ahead x (rs_table s src)) + m \<le> card (rows_ahead x (rs_table s0 src)) + card (late_ids src x s0 s))"

definition answering :: "'w event_handler list \<Rightarrow> bool" where
  "answering handlers \<longleftrightarrow> (\<forall>h \<in> set handlers. \<forall>env s. fst (eh_handle h env s) = None)"

definition refusing :: "'w event_handler list \<Rightarrow> string \<Rightarrow> bool" where
  "refusing handlers t \<longleftrightarrow> (\<exists>h \<in> set handlers. eh_eventType h = t \<and> (\<forall>env s. fst (eh_handle h env s) \<noteq> None))"

lemma answering_run: "\<forall>h \<in> set hs. \<forall>env s. fst (eh_handle h env s) = None \<Longrightarrow> fst (run_handlers hs env s) = None"
  by (induction hs env s rule: run_handlers.induct) (auto split: prod.splits option.splits, metis fst_conv option.distinct(1))

lemma refusing_run: "\<exists>h \<in> set hs. \<forall>env s. fst (eh_handle h env s) \<noteq> None \<Longrightarrow> fst (run_handlers hs env s) \<noteq> None"
proof (induction hs arbitrary: s)
  case (Cons h hs)
  obtain e s1 where e: "eh_handle h env s = (e, s1)" by fastforce
  show ?case
  proof (cases e)
    case None
    then have "\<exists>h \<in> set hs. \<forall>env s. fst (eh_handle h env s) \<noteq> None" using Cons.prems e by (metis fst_conv set_ConsD)
    then show ?thesis using Cons.IH e None by simp
  qed (use e in simp)
qed simp

lemma answering_settled: "answering handlers \<Longrightarrow> settled handlers now x x' \<Longrightarrow> x' = x\<lparr>ob_publishedAt := Some now\<rparr>"
proof -
  assume a: "answering handlers" and s: "settled handlers now x x'"
  have "fst (run_handlers (handlers_for handlers (ob_eventType x)) env s) = None" for env s
    using a by (intro answering_run) (auto simp: answering_def handlers_for_filter)
  then show ?thesis using s by (auto simp: settled_iff)
qed

lemma refusing_settled:
  assumes "refusing handlers (ob_eventType x)" "settled handlers now x x'" "is_pending x"
  shows "is_pending x'" "ob_eventType x' = ob_eventType x"
proof -
  have n: "fst (run_handlers (handlers_for handlers (ob_eventType x)) env s) \<noteq> None" for env s
    using assms(1) by (intro refusing_run) (auto simp: refusing_def handlers_for_filter)
  obtain cid s1 where c: "case fst (run_handlers (handlers_for handlers (ob_eventType x)) (envelope_of x cid) s1) of
       None \<Rightarrow> x' = x\<lparr>ob_publishedAt := Some now\<rparr>
     | Some message \<Rightarrow> x' = x\<lparr>ob_attempts := ob_attempts x + 1, ob_lastError := Some (take 1000 message)\<rparr>"
    using assms(2) unfolding settled_iff by blast
  obtain m where "fst (run_handlers (handlers_for handlers (ob_eventType x)) (envelope_of x cid) s1) = Some m"
    using n [of "envelope_of x cid" s1] by blast
  then have "x' = x\<lparr>ob_attempts := ob_attempts x + 1, ob_lastError := Some (take 1000 m)\<rparr>" using c by simp
  then show "is_pending x'" using assms(3) by (simp add: is_pending_def)
  show "ob_eventType x' = ob_eventType x" by (rule settled_shape(2) [OF assms(2)])
qed

lemma published_kept:
  assumes "published_row x (rs_table s src)" "source_run src g s s'" "\<And>y. \<not> is_pending y \<Longrightarrow> g y = y"
  shows "published_row x (rs_table s' src)"
proof -
  obtain now where y: "x\<lparr>ob_publishedAt := Some now\<rparr> \<in> set (rs_table s src)" using assms(1) by (auto simp: published_row_def)
  have "g (x\<lparr>ob_publishedAt := Some now\<rparr>) = x\<lparr>ob_publishedAt := Some now\<rparr>" by (rule assms(3)) (simp add: is_pending_def)
  then have "x\<lparr>ob_publishedAt := Some now\<rparr> \<in> set (rs_table s' src)"
    using y assms(2) by (force simp: source_run_def)
  then show ?thesis by (auto simp: published_row_def)
qed

lemma finite_ahead [simp]: "finite (rows_ahead x t)"
  by (simp add: rows_ahead_def)

lemma ahead_grow:
  assumes "source_run src id s s'"
  shows "rows_ahead x (rs_table s src) \<subseteq> rows_ahead x (rs_table s' src)"
  using assms by (auto simp: source_run_def rows_ahead_def)

text \<open>The late ids of a step are those of its new rows.\<close>

lemma below_union:
  assumes "S \<subseteq> I" "J \<inter> I = {}"
  shows "{i \<in> I \<union> J. i < (b :: nat)} - S = ({i \<in> I. i < b} - S) \<union> {i \<in> J. i < b}" "({i \<in> I. i < b} - S) \<inter> {i \<in> J. i < b} = {}"
  using assms by blast+

lemma source_run_late:
  assumes r: "source_run src g s s'" and ok: "outbox_ok s" and sub: "ob_id ` set (rs_table s0 src) \<subseteq> ob_id ` set (rs_table s src)"
  obtains new where "rs_table s' src = map g (rs_table s src) @ new" "\<And>y. ob_id (g y) = ob_id y"
    "card (late_ids src x s0 s') = card (late_ids src x s0 s) + card {y \<in> set new. ob_id y < ob_id x}"
    "ob_id ` set (rs_table s0 src) \<subseteq> ob_id ` set (rs_table s' src)"
proof -
  obtain new where new: "rs_table s' src = map g (rs_table s src) @ new" "distinct (map ob_id new)"
    "\<And>y. y \<in> set new \<Longrightarrow> unused_id s src (ob_id y)" and g: "\<And>y. ob_id (g y) = ob_id y"
    using r unfolding source_run_def by blast
  let ?N = "{y \<in> set new. ob_id y < ob_id x}" and ?I = "ob_id ` set (rs_table s src)"
  have ids: "ob_id ` set (rs_table s' src) = ?I \<union> ob_id ` set new"
    using g by (auto simp: new(1) image_Un image_image)
  have old: "i < rs_next s" if "i \<in> ?I" for i using ok that by (auto simp: outbox_ok_def)
  have fresh: "ob_id y \<notin> ?I" if "y \<in> set new" for y
    using new(3) [OF that] old [of "ob_id y"] by (auto simp: unused_id_def)
  have n: "ob_id ` ?N = {i \<in> ob_id ` set new. i < ob_id x}" by auto
  have "ob_id ` set new \<inter> ?I = {}" using fresh by blast
  note below = below_union [OF sub this]
  have "late_ids src x s0 s' = late_ids src x s0 s \<union> ob_id ` ?N" unfolding late_ids_def ids n by (rule below(1))
  moreover have "late_ids src x s0 s \<inter> ob_id ` ?N = {}" unfolding late_ids_def n by (rule below(2))
  moreover have "card (ob_id ` ?N) = card ?N"
    using new(2) by (intro card_image) (auto simp: distinct_map inj_on_def)
  ultimately have "card (late_ids src x s0 s') = card (late_ids src x s0 s) + card ?N"
    by (simp add: card_Un_disjoint late_ids_def)
  then show thesis using that new(1) g sub ids by blast
qed

text \<open>A step settles the rows \<open>P\<close> ahead of the row, or the row itself.\<close>

lemma awaits_moves:
  assumes a: "awaits src x s0 m s" and r: "source_run src g s s'" and ok: "outbox_ok s" and keep: "\<And>y. \<not> is_pending y \<Longrightarrow> g y = y"
    and moves: "x \<in> set (rs_table s src) \<Longrightarrow> is_pending x \<Longrightarrow> (\<exists>now. g x = x\<lparr>ob_publishedAt := Some now\<rparr>) \<or>
      g x = x \<and> P \<subseteq> rows_ahead x (rs_table s src) \<and> card P = n \<and> (\<forall>y \<in> P. \<not> is_pending (g y)) \<and> (\<forall>y. y \<notin> P \<longrightarrow> g y = y)"
  shows "awaits src x s0 (m + n) s'"
proof -
  have sub: "ob_id ` set (rs_table s0 src) \<subseteq> ob_id ` set (rs_table s src)" using a by (simp add: awaits_def)
  obtain new where t: "rs_table s' src = map g (rs_table s src) @ new"
    and late: "card (late_ids src x s0 s') = card (late_ids src x s0 s) + card {y \<in> set new. ob_id y < ob_id x}"
    and sub': "ob_id ` set (rs_table s0 src) \<subseteq> ob_id ` set (rs_table s' src)"
    by (rule source_run_late [OF r ok sub])
  show ?thesis
  proof (cases "published_row x (rs_table s src)")
    case True
    then show ?thesis using published_kept [OF True r keep] sub' by (simp add: awaits_def)
  next
    case False
    let ?A = "rows_ahead x (rs_table s src)" and ?N = "{y \<in> set new. ob_id y < ob_id x}"
    have x: "x \<in> set (rs_table s src)" "is_pending x"
      "card ?A + m \<le> card (rows_ahead x (rs_table s0 src)) + card (late_ids src x s0 s)"
      using a False by (simp_all add: awaits_def)
    consider now where "g x = x\<lparr>ob_publishedAt := Some now\<rparr>"
      | "g x = x" "P \<subseteq> ?A" "card P = n" "\<forall>y \<in> P. \<not> is_pending (g y)" "\<forall>y. y \<notin> P \<longrightarrow> g y = y"
      using moves [OF x(1,2)] by blast
    then show ?thesis
    proof cases
      case 1
      then have "x\<lparr>ob_publishedAt := Some now\<rparr> \<in> set (rs_table s' src)" using x(1) t by force
      then show ?thesis using sub' by (auto simp: awaits_def published_row_def)
    next
      case 2
      have "rows_ahead x (rs_table s' src) \<subseteq> (?A - P) \<union> ?N"
      proof
        fix y assume y: "y \<in> rows_ahead x (rs_table s' src)"
        show "y \<in> (?A - P) \<union> ?N"
        proof (cases "y \<in> set new")
          case False
          then obtain z where z: "z \<in> set (rs_table s src)" "y = g z" using y t by (auto simp: rows_ahead_def)
          have "z \<notin> P" using y z(2) 2(4) by (auto simp: rows_ahead_def)
          then show ?thesis using 2(5) z y by (auto simp: rows_ahead_def)
        qed (use y in \<open>simp add: rows_ahead_def\<close>)
      qed
      then have "card (rows_ahead x (rs_table s' src)) \<le> card ((?A - P) \<union> ?N)" by (intro card_mono) simp_all
      also have "\<dots> \<le> card (?A - P) + card ?N" by (rule card_Un_le)
      also have "card (?A - P) = card ?A - n" using 2(2,3) finite_subset [OF 2(2)] by (simp add: card_Diff_subset)
      finally have c: "card (rows_ahead x (rs_table s' src)) \<le> card ?A - n + card ?N" .
      have "n \<le> card ?A" using card_mono [OF _ 2(2)] 2(3) by simp
      then have "card (rows_ahead x (rs_table s' src)) + (m + n) \<le>
          card (rows_ahead x (rs_table s0 src)) + card (late_ids src x s0 s')"
        using c x(3) late by linarith
      moreover have "x \<in> set (rs_table s' src)" using 2(1) x(1) t by force
      ultimately show ?thesis using x(2) sub' by (simp add: awaits_def)
    qed
  qed
qed

lemma awaits_grow:
  assumes "awaits src x s0 m s" "source_run src id s s'" "outbox_ok s"
  shows "awaits src x s0 m s'"
  using awaits_moves [OF assms, of "{}" 0] by simp

lemma batch_keeps_published:
  assumes "batch_run handlers now src (pending_rows n (rs_table s src)) s s' g" "\<not> is_pending y"
  shows "g y = y"
proof -
  have "y \<notin> set (pending_rows n (rs_table s src))"
    using assms(2) by (auto simp: pending_rows_def is_pending_def dest!: in_set_takeD)
  then show ?thesis using assms(1) by (simp add: batch_run_def)
qed

lemma awaits_pass:
  assumes a: "awaits src x s0 m s" and ok: "outbox_ok s" and h: "answering handlers"
    and b: "batch_run handlers now src (pending_rows n (rs_table s src)) s s' g" and r: "source_run src g s s'"
  shows "awaits src x s0 (m + n) s'"
proof (rule awaits_moves [OF a r ok batch_keeps_published [OF b]])
  let ?t = "rs_table s src" and ?p = "pending_rows n (rs_table s src)"
  have d: "distinct (map ob_id ?t)" using ok by (simp add: outbox_ok_def)
  have g: "y \<in> set ?p \<Longrightarrow> g y = y\<lparr>ob_publishedAt := Some now\<rparr>" "y \<notin> set ?p \<Longrightarrow> g y = y" for y
    using b answering_settled [OF h] by (simp_all add: batch_run_def)
  assume x: "x \<in> set ?t" "is_pending x"
  show "(\<exists>now. g x = x\<lparr>ob_publishedAt := Some now\<rparr>) \<or>
      g x = x \<and> set ?p \<subseteq> rows_ahead x ?t \<and> card (set ?p) = n \<and> (\<forall>y \<in> set ?p. \<not> is_pending (g y)) \<and> (\<forall>y. y \<notin> set ?p \<longrightarrow> g y = y)"
  proof (cases "x \<in> set ?p")
    case False
    have "set ?p \<subseteq> rows_ahead x ?t" "length ?p = n" using pending_facts(4) [OF d x False] by simp_all
    then show ?thesis using g False pending_facts(1) [OF d, of n] by (auto simp: distinct_card distinct_map is_pending_def)
  qed (use g in blast)
qed

text \<open>One drain brings a row of a listed source a whole batch forward.\<close>

lemma drain_sources_append:
  "drain_sources handlers ambient now n (us @ vs) r s =
     (case drain_sources handlers ambient now n us r s of (r1, s1) \<Rightarrow> drain_sources handlers ambient now n vs r1 s1)"
  by (induction handlers ambient now n us r s rule: drain_sources.induct) (auto split: prod.splits)

lemma awaits_less: "awaits src x s0 m s \<Longrightarrow> m' \<le> m \<Longrightarrow> awaits src x s0 m' s"
  by (auto simp: awaits_def)

lemma awaits_drain_sources:
  assumes h: "appending handlers" "answering handlers" and ok: "outbox_ok s" and a: "awaits src x s0 m s"
    and d: "drain_sources handlers ambient now n srcs r s = (r', s')"
  shows "outbox_ok s' \<and> awaits src x s0 m s'"
proof (rule drain_sources_keep [where I = "awaits src x s0 m" and src = src, OF h(1) _ _ ok a d])
  show "awaits src x s0 m s'" if "awaits src x s0 m s" "outbox_ok s" "source_run src id s s'" for s s' :: "'a relay_state"
    by (rule awaits_grow [OF that(1,3,2)])
  show "awaits src x s0 m s'" if "awaits src x s0 m s" "outbox_ok s"
    "batch_run handlers now src (pending_rows n (rs_table s src)) s s' g" "source_run src g s s'" for s s' :: "'a relay_state" and g
    by (rule awaits_less [OF awaits_pass [OF that(1,2) h(2) that(3,4)]]) simp
qed

lemma awaits_drain:
  assumes h: "appending handlers" "answering handlers" and ok: "outbox_ok s" and a: "awaits src x s0 m s"
    and idle: "\<not> rs_draining s" and src: "src \<in> set srcs" and d: "drain handlers srcs ambient now n s = (r, s')"
  shows "outbox_ok s' \<and> awaits src x s0 (m + n) s'"
proof -
  obtain us vs where l: "srcs = us @ src # vs" using src by (auto dest: split_list)
  let ?s = "s\<lparr>rs_draining := True\<rparr>"
  have ok0: "outbox_ok ?s" and a0: "awaits src x s0 m ?s" using ok a by (simp_all add: outbox_ok_def awaits_def late_ids_def)
  obtain r1 s1 where u: "drain_sources handlers ambient now n us (0, 0) ?s = (r1, s1)" by fastforce
  have s1: "outbox_ok s1" "awaits src x s0 m s1" using awaits_drain_sources [OF h ok0 a0 u] by simp_all
  obtain dd ff s2 where p: "drainSource handlers ambient now n src s1 = ((dd, ff), s2)" by (metis surj_pair)
  obtain g where g: "batch_run handlers now src (pending_rows n (rs_table s1 src)) s1 s2 g"
    using drainSource_run [OF s1(1) h(1) p] by blast
  have s2: "outbox_ok s2" "awaits src x s0 (m + n) s2"
    using batch_run_ok [OF g s1(1)] awaits_pass [OF s1(2,1) h(2) g batch_source(1) [OF g s1(1)]] by simp_all
  obtain s3 where v: "drain_sources handlers ambient now n vs (fst r1 + dd, snd r1 + ff) s2 = (r, s3)" "s' = s3\<lparr>rs_draining := False\<rparr>"
    using d idle u p unfolding drain_def l by (cases r1) (auto simp: drain_sources_append split: prod.splits)
  have "outbox_ok s3 \<and> awaits src x s0 (m + n) s3" by (rule awaits_drain_sources [OF h s2 v(1)])
  then show ?thesis by (simp add: v(2) outbox_ok_def awaits_def late_ids_def)
qed

section \<open>Runs of the relay\<close>

text \<open>Handlers and producers commit rows, and drains run, in any order.\<close>

inductive relay_step :: "'w event_handler list \<Rightarrow> nat list \<Rightarrow> nat \<Rightarrow> 'w relay_state \<Rightarrow> 'w relay_state \<Rightarrow> bool"
  for handlers srcs n where
  produced: "grows s s' \<Longrightarrow> relay_step handlers srcs n s s'"
| drained: "drain handlers srcs ambient now n s = (r, s') \<Longrightarrow> relay_step handlers srcs n s s'"

text \<open>\<open>k\<close> drains, with commits between them.\<close>

inductive relay_rounds :: "'w event_handler list \<Rightarrow> nat list \<Rightarrow> nat \<Rightarrow> nat \<Rightarrow> 'w relay_state \<Rightarrow> 'w relay_state \<Rightarrow> bool"
  for handlers srcs n where
  no_round: "grows s s' \<Longrightarrow> relay_rounds handlers srcs n 0 s s'"
| next_round: "\<lbrakk>relay_rounds handlers srcs n k s s1; \<not> rs_draining s1; drain handlers srcs ambient now n s1 = (r, s2);
    grows s2 s'\<rbrakk> \<Longrightarrow> relay_rounds handlers srcs n (Suc k) s s'"

lemma rounds_awaits:
  assumes "relay_rounds handlers srcs n k s s'" "appending handlers" "answering handlers" "src \<in> set srcs" "outbox_ok s" "awaits src x s0 m s"
  shows "outbox_ok s' \<and> awaits src x s0 (m + k * n) s'"
  using assms
proof (induction rule: relay_rounds.induct)
  case (no_round s s')
  then show ?case using grows_ok [OF no_round(1)] awaits_grow [OF _ grows_source [OF no_round(1)]] by simp
next
  case (next_round k s s1 ambient now r s2 s')
  have s1: "outbox_ok s1" "awaits src x s0 (m + k * n) s1" using next_round.IH next_round.prems by simp_all
  have s2: "outbox_ok s2" "awaits src x s0 (m + k * n + n) s2"
    using awaits_drain [OF next_round.prems(1,2) s1 next_round.hyps(2) next_round.prems(3) next_round.hyps(3)] by simp_all
  then show ?case
    using grows_ok [OF next_round.hyps(4)] awaits_grow [OF s2(2) grows_source [OF next_round.hyps(4)] s2(1)] by (simp add: add_ac)
qed

text \<open>A row behind a full batch of rows of a type one of whose handlers always throws.\<close>

definition blocked :: "nat \<Rightarrow> string \<Rightarrow> nat \<Rightarrow> outbox_row \<Rightarrow> 'w relay_state \<Rightarrow> bool" where
  "blocked n t src x s \<longleftrightarrow> x \<in> set (rs_table s src) \<and> is_pending x \<and>
     n \<le> card {y \<in> rows_ahead x (rs_table s src). ob_eventType y = t}"

lemma blocked_grow:
  assumes "blocked n t src x s" "source_run src id s s'"
  shows "blocked n t src x s'"
proof -
  have "card {y \<in> rows_ahead x (rs_table s src). ob_eventType y = t} \<le> card {y \<in> rows_ahead x (rs_table s' src). ob_eventType y = t}"
    using ahead_grow [OF assms(2), of x] by (intro card_mono) auto
  then show ?thesis using assms by (auto simp: blocked_def source_run_def)
qed

lemma blocked_pass:
  assumes b: "blocked n t src x s" and ok: "outbox_ok s" and t: "refusing handlers t"
    and g: "batch_run handlers now src (pending_rows n (rs_table s src)) s s' g" and r: "source_run src g s s'"
  shows "blocked n t src x s'"
proof -
  let ?t = "rs_table s src" and ?Y = "{y \<in> rows_ahead x (rs_table s src). ob_eventType y = t}"
  have x: "x \<in> set ?t" "is_pending x" "n \<le> card ?Y" using b by (simp_all add: blocked_def)
  have d: "distinct (map ob_id ?t)" using ok by (simp add: outbox_ok_def)
  have "card ?Y \<le> card (rows_ahead x ?t)" by (intro card_mono) auto
  then have "x \<notin> set (pending_rows n ?t)" using pending_facts(3) [OF d x(1,2), of n] x(3) by simp
  then have gx: "g x = x" using g by (simp add: batch_run_def)
  obtain new where t': "rs_table s' src = map g ?t @ new" using r by (auto simp: source_run_def)
  have x': "x \<in> set (rs_table s' src)" using x(1) gx t' by force
  have y: "is_pending (g y) \<and> ob_eventType (g y) = t" if "y \<in> ?Y" for y
  proof (cases "y \<in> set (pending_rows n ?t)")
    case True
    then have "settled handlers now y (g y)" using g by (simp add: batch_run_def)
    moreover have "refusing handlers (ob_eventType y)" "is_pending y" using that t by (auto simp: rows_ahead_def)
    ultimately show ?thesis using refusing_settled [of handlers y now "g y"] that by simp
  next
    case False
    then have "g y = y" using g by (simp add: batch_run_def)
    then show ?thesis using that by (simp add: rows_ahead_def)
  qed
  have "g ` ?Y \<subseteq> {y \<in> rows_ahead x (rs_table s' src). ob_eventType y = t}"
    using y batch_run_id [OF g] t' by (auto simp: rows_ahead_def)
  moreover have "inj_on g ?Y"
  proof (rule inj_onI)
    fix y z assume e: "y \<in> ?Y" "z \<in> ?Y" "g y = g z"
    then have "ob_id y = ob_id z" using batch_run_id [OF g, of y] batch_run_id [OF g, of z] by simp
    then show "y = z" using e(1,2) d by (auto simp: rows_ahead_def distinct_map dest: inj_onD)
  qed
  ultimately have "card ?Y \<le> card {y \<in> rows_ahead x (rs_table s' src). ob_eventType y = t}" by (intro card_inj_on_le) auto
  then show ?thesis using x' x(2,3) by (simp add: blocked_def)
qed

lemma blocked_step:
  assumes "relay_step handlers srcs n s s'" "appending handlers" "refusing handlers t" "outbox_ok s" "blocked n t src x s"
  shows "outbox_ok s' \<and> blocked n t src x s'"
  using assms(1)
proof cases
  case produced
  then show ?thesis using grows_ok [OF produced assms(4)] blocked_grow [OF assms(5) grows_source [OF produced]] by simp
next
  case (drained ambient now r)
  show ?thesis
  proof (cases "rs_draining s")
    case True
    then show ?thesis using drained assms(4,5) by (simp add: drain_def)
  next
    case False
    let ?s = "s\<lparr>rs_draining := True\<rparr>"
    obtain s1 where d: "drain_sources handlers ambient now n srcs (0, 0) ?s = (r, s1)" "s' = s1\<lparr>rs_draining := False\<rparr>"
      using drained False by (auto simp: drain_def split: prod.splits)
    have ok: "outbox_ok ?s" "blocked n t src x ?s" using assms(4,5) by (simp_all add: outbox_ok_def blocked_def)
    have "outbox_ok s1 \<and> blocked n t src x s1"
    proof (rule drain_sources_keep [where I = "blocked n t src x" and src = src, OF assms(2) _ _ ok d(1)])
      show "blocked n t src x s'" if "blocked n t src x s" "outbox_ok s" "source_run src id s s'" for s s' :: "'a relay_state"
        by (rule blocked_grow [OF that(1,3)])
      show "blocked n t src x s'" if "blocked n t src x s" "outbox_ok s"
        "batch_run handlers now src (pending_rows n (rs_table s src)) s s' g" "source_run src g s s'" for s s' :: "'a relay_state" and g
        by (rule blocked_pass [OF that(1,2) assms(3) that(3,4)])
    qed
    then show ?thesis using d(2) by (simp add: outbox_ok_def blocked_def)
  qed
qed

lemma blocked_run:
  assumes "(relay_step handlers srcs n)\<^sup>*\<^sup>* s s'" "appending handlers" "refusing handlers t" "outbox_ok s" "blocked n t src x s"
  shows "outbox_ok s' \<and> blocked n t src x s'"
  using assms(1)
proof (induction rule: rtranclp_induct)
  case (step y z)
  then show ?case using blocked_step [OF step.hyps(2) assms(2,3)] by blast
qed (use assms(4,5) in simp)

end
