(* ===== verification/Outbox_Properties.thy ===== *)
theory Outbox_Properties
  imports Outbox_Steps
begin

text \<open>
  The properties of the outbox and its relay, with a small relay that inhabits them: two sources, a handler that writes
  a follow-up event into the second source, and a handler that throws on every delivery.
\<close>

section \<open>A small relay\<close>

definition relay_input :: "string \<Rightarrow> jsval \<Rightarrow> emit_input" where
  "relay_input t payload = \<lparr>em_aggregateType = ''booking'', em_aggregateId = 7, em_eventType = t, em_eventVersion = None,
     em_payload = payload, em_correlationId = None\<rparr>"

definition follow_handler :: "unit event_handler" where
  "follow_handler = \<lparr>eh_eventType = ''BookingConfirmed'', eh_handle = (\<lambda>env s.
     case emit_event (Some (en_correlationId env)) 5 1 (relay_input ''Followed'' (JObject [])) s of
       Inl _ \<Rightarrow> (Some ''refused'', s) | Inr (_, s') \<Rightarrow> (None, s'))\<rparr>"

definition down_handler :: "unit event_handler" where
  "down_handler = \<lparr>eh_eventType = ''BookingCreated'', eh_handle = (\<lambda>env s. (Some ''search is down'', s))\<rparr>"

definition relay_start :: "unit relay_state" where
  "relay_start = \<lparr>rs_table = (\<lambda>_. []), rs_next = 0, rs_draining = False, rs_world = ()\<rparr>"

definition emits :: "string \<Rightarrow> unit relay_state \<Rightarrow> unit relay_state" where
  "emits t s = (case emit_event (Some 40) 1 0 (relay_input t (JObject [])) s of Inl _ \<Rightarrow> s | Inr (_, s') \<Rightarrow> s')"

definition relay_loaded :: "unit relay_state" where
  "relay_loaded = emits ''BookingConfirmed'' (emits ''BookingCreated'' relay_start)"

definition relay_rowed :: "nat \<Rightarrow> string \<Rightarrow> outbox_row" where
  "relay_rowed i t = \<lparr>ob_id = i, ob_aggregateType = ''booking'', ob_aggregateId = 7, ob_eventType = t, ob_eventVersion = 1,
     ob_payload = JObject [], ob_correlationId = Some 40, ob_publishedAt = None, ob_attempts = 0, ob_lastError = None, ob_createdAt = 1\<rparr>"

lemma emits_row: "emits t s = s\<lparr>rs_table := (rs_table s)(0 := rs_table s 0 @ [relay_rowed (rs_next s) t]), rs_next := Suc (rs_next s)\<rparr>"
  by (simp add: emits_def emit_event_def relay_input_def assertPayloadHasNoSecrets_def correlation_of_def correlationIdOrNew_def
      relay_rowed_def Let_def)

lemma relay_tables:
  "rs_table relay_loaded = (\<lambda>_. [])(0 := [relay_rowed 0 ''BookingCreated'', relay_rowed 1 ''BookingConfirmed''])"
  "rs_next relay_loaded = 2" "rs_draining relay_loaded = False"
  by (simp_all add: relay_loaded_def emits_row relay_start_def)

lemma relay_rowed_fields [simp]:
  "ob_id (relay_rowed i t) = i" "ob_eventType (relay_rowed i t) = t" "is_pending (relay_rowed i t)"
  "ob_publishedAt (relay_rowed i t) = None"
  by (simp_all add: relay_rowed_def is_pending_def)

lemma relay_loaded_ok: "outbox_ok relay_loaded"
  by (auto simp: outbox_ok_def relay_tables)

lemma follow_emits:
  "\<exists>env' s'. emit_event (Some c) 5 1 (relay_input ''Followed'' (JObject [])) s = Inr (env', s')"
  by (simp add: emit_event_def relay_input_def assertPayloadHasNoSecrets_def correlation_of_def correlationIdOrNew_def Let_def)

lemma follow_answers: "fst (eh_handle follow_handler env s) = None" "grows s (snd (eh_handle follow_handler env s))"
proof -
  obtain env' s' where e: "emit_event (Some (en_correlationId env)) 5 1 (relay_input ''Followed'' (JObject [])) s = Inr (env', s')"
    using follow_emits by blast
  show "fst (eh_handle follow_handler env s) = None" "grows s (snd (eh_handle follow_handler env s))"
    using e emit_grows [OF e] by (simp_all add: follow_handler_def)
qed

lemma relay_handlers:
  "appending [follow_handler, down_handler]" "appending [follow_handler]" "answering [follow_handler]"
  "refusing [follow_handler, down_handler] ''BookingCreated''"
  using follow_answers by (simp_all add: appending_def answering_def refusing_def down_handler_def)

lemma sorted_pair: "a < b \<Longrightarrow> k x = a \<Longrightarrow> k y = b \<Longrightarrow> sort_key k [x, y] = [x, y :: 'a]" for a b :: nat
  by (simp add: insort_key_def)

lemma relay_pending:
  "pending_rows 2 (rs_table relay_loaded 0) = [relay_rowed 0 ''BookingCreated'', relay_rowed 1 ''BookingConfirmed'']"
  "pending_rows 1 (rs_table relay_loaded 0) = [relay_rowed 0 ''BookingCreated'']"
  by (simp_all add: pending_rows_def relay_tables sorted_pair [of 0 1] numeral_2_eq_2)

lemma relay_ahead: "rows_ahead (relay_rowed 1 ''BookingConfirmed'') (rs_table relay_loaded 0) = {relay_rowed 0 ''BookingCreated''}"
  by (auto simp: rows_ahead_def relay_tables)

section \<open>Properties\<close>

text \<open>C29: One pass of the relay over a source takes the first \<open>n\<close> rows, by id, that were pending when it began, and nothing
  else, whatever the handlers append while it runs. Every row of the batch is settled from the answer of the handlers of
  its type, published or with one attempt more, and the two counters say how many; every other row of the source
  is unchanged, and the other sources only grow.\<close>

theorem pass_settles_its_batch:
  assumes "outbox_ok s" "appending handlers" "drainSource handlers ambient now n src s = ((d, f), s')"
  shows "d + f = min n (length (filter is_pending (rs_table s src))) \<and>
    (\<exists>g new. rs_table s' src = map g (rs_table s src) @ new \<and>
       d = length (filter (\<lambda>x. \<not> is_pending (g x)) (pending_rows n (rs_table s src))) \<and>
       (\<forall>x \<in> set (rs_table s src). if x \<in> set (pending_rows n (rs_table s src)) then settled handlers now x (g x) else g x = x)) \<and>
    (\<forall>other. other = src \<or> (\<exists>new. rs_table s' other = rs_table s other @ new))"
proof -
  let ?p = "pending_rows n (rs_table s src)"
  obtain g where g: "batch_run handlers now src ?p s s' g"
      "d = length (filter (\<lambda>x. \<not> is_pending (g x)) ?p)" "f = length (filter (\<lambda>x. is_pending (g x)) ?p)"
    using drainSource_run [OF assms] by auto
  have "d + f = length ?p" using sum_length_filter_compl [of "\<lambda>x. \<not> is_pending (g x)" ?p] g(2,3) by simp
  also have "\<dots> = min n (length (filter is_pending (rs_table s src)))"
    by (simp add: pending_rows_def is_pending_def [abs_def] min.commute)
  finally have l: "d + f = min n (length (filter is_pending (rs_table s src)))" .
  obtain new where t: "rs_table s' src = map g (rs_table s src) @ new"
    using batch_source(1) [OF g(1) assms(1)] by (auto simp: source_run_def)
  have o: "\<forall>other. other = src \<or> (\<exists>new. rs_table s' other = rs_table s other @ new)"
    using batch_source(2) [OF g(1) assms(1)] by (force simp: source_run_def)
  have r: "\<forall>x \<in> set (rs_table s src). if x \<in> set ?p then settled handlers now x (g x) else g x = x"
    using g(1) by (simp add: batch_run_def)
  show ?thesis using l t o r g(2) by blast
qed

theorem pass_settles_its_batch_witness:
  "\<exists>d f s'. drainSource [follow_handler, down_handler] None 9 2 0 relay_loaded = ((d, f), s') \<and> d + f = 2"
proof -
  obtain d f s' where d: "drainSource [follow_handler, down_handler] None 9 2 0 relay_loaded = ((d, f), s')" by (metis surj_pair)
  have "d + f = 2" using pass_settles_its_batch [OF relay_loaded_ok relay_handlers(1) d] by (simp add: relay_tables)
  with d show ?thesis by blast
qed

text \<open>C30: When every handler answers and handlers only append rows, a row that is pending with \<open>a\<close> pending rows of its source before it is published
  after \<open>k\<close> drains of batch size \<open>n\<close>, provided \<open>a\<close> and the number \<open>l\<close> of rows with a smaller id that become visible in
  its source meanwhile add up to less than \<open>k * n\<close>. Such late rows exist because an id is drawn before its transaction
  commits; rows with larger ids do not count, and neither does anything in other sources.\<close>

theorem row_published_in_rounds:
  assumes "relay_rounds handlers srcs n k s s'" "appending handlers" "answering handlers" "src \<in> set srcs" "outbox_ok s"
    and "x \<in> set (rs_table s src)" "is_pending x"
    and "card (rows_ahead x (rs_table s src)) + card (late_ids src x s s') < k * n"
  shows "\<exists>now. x\<lparr>ob_publishedAt := Some now\<rparr> \<in> set (rs_table s' src)"
proof -
  have "awaits src x s 0 s" using assms(6,7) by (simp add: awaits_def late_ids_def)
  then have "awaits src x s (0 + k * n) s'" using rounds_awaits [OF assms(1-5)] by blast
  then show ?thesis using assms(8) by (auto simp: awaits_def published_row_def)
qed

text \<open>Rows 0 and 2 are visible while the transaction that drew id 1 is still open. It commits after the first drain, so row 2 is
  reached by the third drain of one row each.\<close>

definition relay_gap :: "outbox_row list \<Rightarrow> unit relay_state" where
  "relay_gap t = \<lparr>rs_table = (\<lambda>_. [])(0 := t), rs_next = 3, rs_draining = False, rs_world = ()\<rparr>"

definition relay_sent :: "nat \<Rightarrow> outbox_row" where
  "relay_sent i = (relay_rowed i ''BookingCreated'')\<lparr>ob_publishedAt := Some 9\<rparr>"

lemma gap_drained:
  assumes "pending_rows 1 t = [relay_rowed i ''BookingCreated'']"
  shows "\<exists>r. drain [follow_handler] [0] None 9 1 (relay_gap t) =
    (r, relay_gap (tupd (\<lambda>x. ob_id x = i \<and> ob_publishedAt x = None) (\<lambda>x. x\<lparr>ob_publishedAt := Some 9\<rparr>) t))"
proof -
  have h: "handlers_for [follow_handler] ''BookingCreated'' = []" by (simp add: handlers_for_filter follow_handler_def)
  have "ob_correlationId (relay_rowed i ''BookingCreated'') = Some 40" by (simp add: relay_rowed_def)
  then show ?thesis using assms h
    by (simp add: drain_def drainSource_def dispatch_row_def relay_gap_def correlation_of_def update_rows_def)
qed

lemma gap_fields [simp]:
  "ob_id (relay_sent i) = i" "ob_publishedAt (relay_sent i) = Some 9" "\<not> is_pending (relay_sent i)"
  by (simp_all add: relay_sent_def is_pending_def)

lemma gap_pending:
  "pending_rows 1 [relay_rowed 0 t, relay_rowed 2 t] = [relay_rowed 0 t]"
  "pending_rows 1 [relay_sent 0, relay_rowed 2 t, relay_rowed 1 t] = [relay_rowed 1 t]"
  "pending_rows 1 [relay_sent 0, relay_rowed 2 t, relay_sent 1] = [relay_rowed 2 t]"
  by (simp_all add: pending_rows_def)

lemma gap_rounds:
  "\<exists>s'. relay_rounds [follow_handler] [0] 1 3 (relay_gap [relay_rowed 0 ''BookingCreated'', relay_rowed 2 ''BookingCreated'']) s' \<and>
     map ob_id (rs_table s' 0) = [0, 2, 1]"
proof -
  let ?R = "\<lambda>i. relay_rowed i ''BookingCreated''"
  note u = tupd_def relay_sent_def [symmetric]
  obtain r1 r2 r3 where
    d1: "drain [follow_handler] [0] None 9 1 (relay_gap [?R 0, ?R 2]) = (r1, relay_gap [relay_sent 0, ?R 2])" and
    d2: "drain [follow_handler] [0] None 9 1 (relay_gap [relay_sent 0, ?R 2, ?R 1]) = (r2, relay_gap [relay_sent 0, ?R 2, relay_sent 1])" and
    d3: "drain [follow_handler] [0] None 9 1 (relay_gap [relay_sent 0, ?R 2, relay_sent 1]) = (r3, relay_gap [relay_sent 0, relay_sent 2, relay_sent 1])"
    using gap_drained [OF gap_pending(1)] gap_drained [OF gap_pending(2)] gap_drained [OF gap_pending(3)] by (auto simp: u)
  have g: "grows (relay_gap [relay_sent 0, ?R 2]) (relay_gap [relay_sent 0, ?R 2, ?R 1])"
    by (auto simp: grows_def relay_gap_def unused_id_def)
  have idle: "\<not> rs_draining (relay_gap t)" for t by (simp add: relay_gap_def)
  have "relay_rounds [follow_handler] [0] 1 0 (relay_gap [?R 0, ?R 2]) (relay_gap [?R 0, ?R 2])" by (rule no_round) simp
  note next_round [OF next_round [OF next_round [OF this idle d1 g] idle d2 grows_refl] idle d3 grows_refl]
  then show ?thesis by (intro exI [of _ "relay_gap [relay_sent 0, relay_sent 2, relay_sent 1]"]) (simp add: numeral_3_eq_3 relay_gap_def)
qed

theorem row_published_in_rounds_witness:
  "\<exists>s'. relay_rounds [follow_handler] [0] 1 3 (relay_gap [relay_rowed 0 ''BookingCreated'', relay_rowed 2 ''BookingCreated'']) s' \<and>
     ob_id ` set (rs_table s' 0) = {0, 1, 2} \<and>
     (\<exists>now. (relay_rowed 2 ''BookingCreated'')\<lparr>ob_publishedAt := Some now\<rparr> \<in> set (rs_table s' 0))"
proof -
  let ?x = "relay_rowed 2 ''BookingCreated''" and ?t = "[relay_rowed 0 ''BookingCreated'', relay_rowed 2 ''BookingCreated'']"
  from gap_rounds obtain s' where r: "relay_rounds [follow_handler] [0] 1 3 (relay_gap ?t) s'" and m: "map ob_id (rs_table s' 0) = [0, 2, 1]"
    by (elim exE conjE)
  have "set (map ob_id (rs_table s' 0)) = {0, 2, 1}" unfolding m by simp
  then have ids: "ob_id ` set (rs_table s' 0) = {0, 2, 1}" by (simp only: set_map)
  have t: "rs_table (relay_gap ?t) 0 = ?t" by (simp add: relay_gap_def)
  have l: "late_ids 0 ?x (relay_gap ?t) s' = {1}" unfolding late_ids_def ids t by auto
  have a: "rows_ahead ?x ?t = {relay_rowed 0 ''BookingCreated''}" by (auto simp: rows_ahead_def)
  have ok: "outbox_ok (relay_gap ?t)" by (simp add: outbox_ok_def relay_gap_def)
  have "\<exists>now. ?x\<lparr>ob_publishedAt := Some now\<rparr> \<in> set (rs_table s' 0)"
    by (rule row_published_in_rounds [OF r relay_handlers(2,3) _ ok]) (simp_all add: t l a)
  then show ?thesis using r ids by (auto simp: insert_commute)
qed

text \<open>C31: A row that waits behind \<open>n\<close> or more pending rows of a type one of whose handlers throws on every
  delivery is never dispatched: after any run of drains and commits it is still there, pending, with no attempt. The
  batch is always filled by the same rows, because the query has neither a limit of attempts nor a back-off.\<close>

theorem refused_batch_blocks_queue:
  assumes "(relay_step handlers srcs n)\<^sup>*\<^sup>* s s'" "appending handlers" "refusing handlers t" "outbox_ok s"
    and "x \<in> set (rs_table s src)" "is_pending x" "n \<le> card {y \<in> rows_ahead x (rs_table s src). ob_eventType y = t}"
  shows "x \<in> set (rs_table s' src)"
proof -
  have "blocked n t src x s" using assms(5-7) by (simp add: blocked_def)
  then show ?thesis using blocked_run [OF assms(1-4)] by (simp add: blocked_def)
qed

theorem refused_batch_blocks_queue_witness:
  "\<exists>r s'. drain [follow_handler, down_handler] [0, 1] None 9 1 relay_loaded = (r, s') \<and>
     relay_rowed 1 ''BookingConfirmed'' \<in> set (rs_table s' 0)"
proof -
  obtain r s' where d: "drain [follow_handler, down_handler] [0, 1] None 9 1 relay_loaded = (r, s')" by fastforce
  have run: "(relay_step [follow_handler, down_handler] [0, 1] 1)\<^sup>*\<^sup>* relay_loaded s'"
    by (rule r_into_rtranclp [of "relay_step [follow_handler, down_handler] [0, 1] 1", OF drained [OF d]])
  have "{y \<in> {relay_rowed 0 ''BookingCreated''}. ob_eventType y = ''BookingCreated''} = {relay_rowed 0 ''BookingCreated''}" by auto
  then have c: "1 \<le> card {y \<in> rows_ahead (relay_rowed 1 ''BookingConfirmed'') (rs_table relay_loaded 0). ob_eventType y = ''BookingCreated''}"
    unfolding relay_ahead by simp
  have "relay_rowed 1 ''BookingConfirmed'' \<in> set (rs_table s' 0)"
    by (rule refused_batch_blocks_queue [OF run relay_handlers(1,4) relay_loaded_ok _ _ c]) (simp_all add: relay_tables)
  with d show ?thesis by blast
qed

text \<open>A failed row does not stop the pass. When the handlers of a row throw and those of another row of the
  batch answer, the second is published and the first stays pending with one attempt more, also when the first has the
  lower id and both belong to one aggregate, as in the witness: the second event is delivered before the first.\<close>

theorem failed_event_is_overtaken:
  assumes "outbox_ok s" "appending handlers" "drainSource handlers ambient now n src s = (r, s')"
    and "{x, y} \<subseteq> set (pending_rows n (rs_table s src))" "refusing handlers (ob_eventType x)"
    and "answering (handlers_for handlers (ob_eventType y))"
  shows "y\<lparr>ob_publishedAt := Some now\<rparr> \<in> set (rs_table s' src) \<and>
    (\<exists>x' \<in> set (rs_table s' src). ob_id x' = ob_id x \<and> is_pending x' \<and> ob_attempts x' = ob_attempts x + 1)"
proof -
  let ?p = "pending_rows n (rs_table s src)"
  obtain g where g: "batch_run handlers now src ?p s s' g"
    using drainSource_run [OF assms(1-3)] by blast
  obtain new where t: "rs_table s' src = map g (rs_table s src) @ new"
    using batch_source(1) [OF g assms(1)] by (auto simp: source_run_def)
  have d: "distinct (map ob_id (rs_table s src))" using assms(1) by (simp add: outbox_ok_def)
  have m: "x \<in> set (rs_table s src)" "is_pending x" "y \<in> set (rs_table s src)" using pending_facts(2) [OF d, of n] assms(4) by auto
  have st: "settled handlers now x (g x)" "settled handlers now y (g y)" using g assms(4) by (simp_all add: batch_run_def)
  have "fst (run_handlers (handlers_for handlers (ob_eventType y)) env u) = None" for env u
    using assms(6) by (intro answering_run) (simp add: answering_def)
  then have gy: "g y = y\<lparr>ob_publishedAt := Some now\<rparr>" using st(2) by (auto simp: settled_iff)
  have "is_pending (g x)" by (rule refusing_settled(1) [OF assms(5) st(1) m(2)])
  then have gx: "ob_id (g x) = ob_id x \<and> is_pending (g x) \<and> ob_attempts (g x) = ob_attempts x + 1"
    using settled_shape(1) [OF st(1)] settled_shape(4) [OF st(1) m(2)] by simp
  have "g x \<in> set (rs_table s' src)" "g y \<in> set (rs_table s' src)" using m t by simp_all
  then show ?thesis using gx gy by metis
qed

theorem failed_event_is_overtaken_witness:
  "\<exists>r s'. drainSource [follow_handler, down_handler] None 9 2 0 relay_loaded = (r, s') \<and>
     ob_aggregateId (relay_rowed 0 ''BookingCreated'') = ob_aggregateId (relay_rowed 1 ''BookingConfirmed'') \<and>
     (relay_rowed 1 ''BookingConfirmed'')\<lparr>ob_publishedAt := Some 9\<rparr> \<in> set (rs_table s' 0) \<and>
     (\<exists>x' \<in> set (rs_table s' 0). ob_id x' = 0 \<and> is_pending x')"
proof -
  obtain r s' where d: "drainSource [follow_handler, down_handler] None 9 2 0 relay_loaded = (r, s')" by fastforce
  have "(relay_rowed 1 ''BookingConfirmed'')\<lparr>ob_publishedAt := Some 9\<rparr> \<in> set (rs_table s' 0) \<and>
    (\<exists>x' \<in> set (rs_table s' 0). ob_id x' = ob_id (relay_rowed 0 ''BookingCreated'') \<and> is_pending x' \<and>
       ob_attempts x' = ob_attempts (relay_rowed 0 ''BookingCreated'') + 1)"
    by (rule failed_event_is_overtaken [OF relay_loaded_ok relay_handlers(1) d])
       (use relay_handlers in \<open>simp_all add: relay_pending handlers_for_filter follow_handler_def [THEN arg_cong [where f = eh_eventType]]
          down_handler_def [THEN arg_cong [where f = eh_eventType]]\<close>)
  with d show ?thesis by (auto simp: relay_rowed_def)
qed

text \<open>C32: An event is refused exactly when its payload has a forbidden key within nine levels of arrays and objects;
  a key below that passes. An accepted event appends one pending row with that payload to its outbox, writes nothing else, and
  answers the envelope of that row.\<close>

theorem emitted_payload_screened:
  "case emit_event ambient now src inp s of
     Inl e \<Rightarrow> carries 9 (em_payload inp)
   | Inr (env, s') \<Rightarrow> \<not> carries 9 (em_payload inp) \<and>
       (\<exists>row. rs_table s' = (rs_table s)(src := rs_table s src @ [row]) \<and> is_pending row \<and> ob_attempts row = 0 \<and>
          ob_payload row = em_payload inp \<and> env = envelope_of row (en_correlationId env))"
proof (cases "payload_secret ''payload'' 0 (em_payload inp)")
  case (Some e)
  then have "carries 9 (em_payload inp)" using secret_carries(1) [of "''payload''" 0 "em_payload inp"] by simp
  then show ?thesis using Some by (simp add: emit_event_def assertPayloadHasNoSecrets_def)
next
  case None
  then have n: "\<not> carries 9 (em_payload inp)" using secret_carries(1) [of "''payload''" 0 "em_payload inp"] by simp
  obtain cid s1 where c: "correlation_of ambient (em_correlationId inp) s = (cid, s1)" by fastforce
  then have t: "rs_table s1 = rs_table s"
    by (auto simp: correlation_of_def correlationIdOrNew_def split: option.splits)
  show ?thesis using None n c t
    by (simp add: emit_event_def assertPayloadHasNoSecrets_def Let_def envelope_of_def is_pending_def)
       (rule exI, rule conjI, rule refl, simp)
qed

end
