(* ===== verification/Financial_Ledger.thy ===== *)
theory Financial_Ledger
  imports Order_Model
begin

text \<open>
  The financial schema and the legacy commission ledger (\<open>services/financial/src/ledger.service.ts\<close>).

  No connection of the application may update or delete a row of this schema, so every operation only appends. The
  tables of the whole service are one record; the fund journal and the settlements write their parts of it. Amounts are
  integers: the column transformer refuses a value that is not a safe integer, and sums of one order stay far below
  \<open>2 ^ 53\<close>, where addition of doubles is exact. A refund of the ledger reads the entries of the order
  before its transaction, so the rows it read (\<open>rd\<close>) are an argument beside the state it writes to.
\<close>

section \<open>Rows\<close>

datatype ledger_entry_type = CommissionEntry | ReceivableEntry
datatype ledger_party_type = LedgerPlatform | LedgerProfessional | LedgerBusiness
datatype ledger_reference = OrderPaymentRef | OrderRefundRef

record ledger_entry =
  le_id :: nat
  le_order :: nat
  le_source :: "nat option"
  le_partyType :: ledger_party_type
  le_partyId :: "nat option"
  le_type :: ledger_entry_type
  le_amount :: int
  le_basis :: string
  le_rate :: int
  le_refType :: ledger_reference
  le_refId :: nat

datatype fund_account = FundPending | FundDisputed | FundAvailable | FundReserve | FundSettled | FundRefunded
  | FundPlatformEarned | FundProviderFee | FundRecoveryOut | FundCollected | FundPlatformAdvance | FundRecoveredIn

datatype fund_journal_kind = FundCollection | FundRefund

datatype fund_key = CollectionKey nat | RefundKey nat

record fund_journal =
  fj_id :: nat
  fj_kind :: fund_journal_kind
  fj_key :: fund_key
  fj_source :: nat

record fund_posting =
  fp_id :: nat
  fp_journal :: nat
  fp_order :: nat
  fp_party :: seller_party
  fp_account :: fund_account
  fp_component :: "string option"
  fp_amount :: int
  fp_seq :: nat
  fp_balance :: int

datatype settlement_kind = SettlementBatch | ReversalBatch

record settlement_batch =
  sb_id :: nat
  sb_kind :: settlement_kind
  sb_reverses :: "nat option"
  sb_partyType :: ledger_party_type
  sb_partyId :: nat
  sb_amount :: int
  sb_currency :: string
  sb_method :: "string option"
  sb_reference :: "string option"
  sb_note :: "string option"
  sb_createdBy :: nat
  sb_createdAt :: int

record settlement_item =
  si_id :: nat
  si_settlement :: nat
  si_order :: nat
  si_amount :: int

datatype financial_event =
    LedgerEntriesRecorded nat nat int int int
  | FundsJournalRecorded nat nat fund_journal_kind seller_party int
  | SettlementReversed nat nat ledger_party_type nat int string

datatype financial_error =
    FinMoney money_error
  | FinCheck string
  | FinTrigger string
  | FinUnique string
  | FinMissingIntent nat
  | SettlementRejected string

record financial_db =
  fi_entries :: "ledger_entry list"
  fi_journals :: "fund_journal list"
  fi_postings :: "fund_posting list"
  fi_batches :: "settlement_batch list"
  fi_items :: "settlement_item list"
  fi_outbox :: "financial_event list"
  fi_next :: nat

type_synonym 'a financial_result = "financial_error + 'a \<times> financial_db"

definition empty_financial :: financial_db where
  "empty_financial = \<lparr>fi_entries = [], fi_journals = [], fi_postings = [], fi_batches = [], fi_items = [], fi_outbox = [], fi_next = 0\<rparr>"

definition fin_money :: "money_error + 'a \<Rightarrow> financial_error + 'a" where
  "fin_money r = (case r of Inl e \<Rightarrow> Inl (FinMoney e) | Inr x \<Rightarrow> Inr x)"

definition financialUuid :: "financial_db \<Rightarrow> nat \<times> financial_db" where
  "financialUuid s = (fi_next s, s\<lparr>fi_next := Suc (fi_next s)\<rparr>)"

definition emitFinancial :: "financial_event \<Rightarrow> financial_db \<Rightarrow> financial_db" where
  "emitFinancial ev s = s\<lparr>fi_outbox := fi_outbox s @ [ev]\<rparr>"

lemma fin_money_simps [simp]: "fin_money (Inl e) = Inl (FinMoney e)" "fin_money (Inr x) = Inr x"
  by (simp_all add: fin_money_def)

section \<open>The legacy ledger\<close>

definition LEGACY_BASIS :: string where "LEGACY_BASIS = ''net_customer_amount''"

definition ledger_entry_ok :: "ledger_entry \<Rightarrow> bool" where
  "ledger_entry_ok e \<longleftrightarrow> 0 \<le> le_rate e \<and> le_rate e \<le> 10000 \<and> (le_partyType e = LedgerPlatform \<longleftrightarrow> le_partyId e = None) \<and>
     (case le_refType e of OrderPaymentRef \<Rightarrow> 0 \<le> le_amount e | OrderRefundRef \<Rightarrow> le_amount e \<le> 0)"

definition entry_key :: "ledger_entry \<Rightarrow> ledger_entry_type \<times> ledger_reference \<times> nat" where
  "entry_key e = (le_type e, le_refType e, le_refId e)"

text \<open>A multi-row \<open>INSERT ... ON CONFLICT DO NOTHING\<close>: the checks of every row first, then the rows whose key is new.\<close>

fun insertEntries :: "ledger_entry list \<Rightarrow> financial_db \<Rightarrow> nat financial_result" where
  "insertEntries [] s = Inr (0, s)"
| "insertEntries (e # es) s =
    (case financialUuid s of (i, s1) \<Rightarrow>
      if \<not> ledger_entry_ok e then Inl (FinCheck ''ledger_entries'')
      else if entry_key e \<in> set (map entry_key (fi_entries s)) then insertEntries es s1
      else bind_res (insertEntries es (s1\<lparr>fi_entries := fi_entries s1 @ [e\<lparr>le_id := i\<rparr>]\<rparr>)) (\<lambda>(n, s2). Inr (Suc n, s2)))"

definition orders_entries :: "nat \<Rightarrow> ledger_entry list \<Rightarrow> ledger_entry list" where
  "orders_entries orderId rows = filter (\<lambda>e. le_order e = orderId) rows"

definition hasLegacyPayment :: "nat \<Rightarrow> financial_db \<Rightarrow> bool" where
  "hasLegacyPayment orderId s \<longleftrightarrow>
     0 < length (filter (\<lambda>e. le_order e = orderId \<and> le_refType e = OrderPaymentRef \<and> le_type e = CommissionEntry) (fi_entries s))"

definition payment_entry :: "ledger_entry_type \<Rightarrow> ledger_entry list \<Rightarrow> ledger_entry option" where
  "payment_entry t rows = find (\<lambda>e. le_refType e = OrderPaymentRef \<and> le_type e = t) rows"

definition reversed_sum :: "ledger_entry_type \<Rightarrow> ledger_entry list \<Rightarrow> int" where
  "reversed_sum t rows = sum_list (map le_amount (filter (\<lambda>e. le_refType e = OrderRefundRef \<and> le_type e = t) rows))"

text \<open>The rows one refund inserts: the split the order should carry afterwards, less what it carries.\<close>

definition reversal_parts :: "ledger_entry \<Rightarrow> ledger_entry \<Rightarrow> ledger_entry list \<Rightarrow> int \<Rightarrow> money_error + int \<times> int" where
  "reversal_parts commission receivable rows amount =
    (let originalNet = le_amount commission + le_amount receivable;
         priorCommission = reversed_sum CommissionEntry rows;
         priorReceivable = reversed_sum ReceivableEntry rows;
         alreadyRefunded = - (priorCommission + priorReceivable);
         remainingNet = originalNet - alreadyRefunded - amount
     in bind_res (splitExact (Fin (of_int remainingNet)) (Fin (of_int (le_rate commission)))) (\<lambda>target.
        Inr (es_part target - (le_amount commission + priorCommission), es_remainder target - (le_amount receivable + priorReceivable))))"

definition reversal_entries :: "nat \<Rightarrow> nat \<Rightarrow> ledger_entry \<Rightarrow> ledger_entry \<Rightarrow> int \<times> int \<Rightarrow> ledger_entry list" where
  "reversal_entries orderId refundId commission receivable parts =
    [\<lparr>le_id = 0, le_order = orderId, le_source = le_source commission, le_partyType = LedgerPlatform, le_partyId = None,
       le_type = CommissionEntry, le_amount = fst parts, le_basis = LEGACY_BASIS, le_rate = le_rate commission,
       le_refType = OrderRefundRef, le_refId = refundId\<rparr>,
     \<lparr>le_id = 0, le_order = orderId, le_source = le_source receivable, le_partyType = le_partyType receivable, le_partyId = le_partyId receivable,
       le_type = ReceivableEntry, le_amount = snd parts, le_basis = LEGACY_BASIS, le_rate = le_rate commission,
       le_refType = OrderRefundRef, le_refId = refundId\<rparr>]"

definition ledger_recordRefund :: "nat \<Rightarrow> nat \<Rightarrow> jsnum \<Rightarrow> ledger_entry list \<Rightarrow> financial_db \<Rightarrow> bool financial_result" where
  "ledger_recordRefund orderId refundId refundAmount rd s =
    bind_res (fin_money (assertNonNegativeAmount refundAmount ''refund amount'')) (\<lambda>amount.
    if amount = 0 then Inr (False, s)
    else let rows = orders_entries orderId rd in
      case (payment_entry CommissionEntry rows, payment_entry ReceivableEntry rows) of
        (Some commission, Some receivable) \<Rightarrow>
          bind_res (fin_money (reversal_parts commission receivable rows amount)) (\<lambda>parts.
          bind_res (insertEntries (reversal_entries orderId refundId commission receivable parts) s) (\<lambda>(inserted, s1).
          if inserted = 0 then Inr (False, s1)
          else Inr (True, emitFinancial (LedgerEntriesRecorded orderId refundId (fst parts) (snd parts) (le_rate commission)) s1)))
      | _ \<Rightarrow> Inr (False, s))"

section \<open>Reads of the ledger\<close>

definition entriesForOrder :: "nat \<Rightarrow> financial_db \<Rightarrow> ledger_entry list" where
  "entriesForOrder orderId s = sort_key le_id (orders_entries orderId (fi_entries s))"

definition entriesForOrderAndParty :: "nat \<Rightarrow> ledger_party_type \<Rightarrow> nat \<Rightarrow> financial_db \<Rightarrow> ledger_entry list" where
  "entriesForOrderAndParty orderId partyType partyId s =
    sort_key le_id (filter (\<lambda>e. le_order e = orderId \<and> le_partyType e = partyType \<and> le_partyId e = Some partyId) (fi_entries s))"

definition sumAmount :: "(ledger_entry \<Rightarrow> bool) \<Rightarrow> financial_db \<Rightarrow> int" where
  "sumAmount P s = sum_list (map le_amount (filter P (fi_entries s)))"

definition orderReceivableNet :: "nat \<Rightarrow> financial_db \<Rightarrow> int" where
  "orderReceivableNet orderId = sumAmount (\<lambda>e. le_order e = orderId \<and> le_type e = ReceivableEntry)"

definition partyReceivableNet :: "ledger_party_type \<Rightarrow> nat \<Rightarrow> financial_db \<Rightarrow> int" where
  "partyReceivableNet partyType partyId =
    sumAmount (\<lambda>e. le_partyType e = partyType \<and> le_partyId e = Some partyId \<and> le_type e = ReceivableEntry)"

definition orderIdsForParty :: "ledger_party_type \<Rightarrow> nat \<Rightarrow> nat \<Rightarrow> financial_db \<Rightarrow> nat list" where
  "orderIdsForParty partyType partyId limit s =
    take limit (rev (sort (remdups (map le_order
      (filter (\<lambda>e. le_partyType e = partyType \<and> le_partyId e = Some partyId \<and> le_type e = ReceivableEntry) (fi_entries s))))))"

definition platformTotals :: "financial_db \<Rightarrow> int \<times> int \<times> nat" where
  "platformTotals s = (sumAmount (\<lambda>e. le_type e = CommissionEntry) s, sumAmount (\<lambda>e. le_type e = ReceivableEntry) s,
     length (remdups (map le_order (filter (\<lambda>e. le_refType e = OrderPaymentRef) (fi_entries s)))))"

end
