(* ===== verification/Fund_Journal.thy ===== *)
theory Fund_Journal
  imports Financial_Ledger Payment_Model
begin

text \<open>
  The fund journal (\<open>services/financial/src/fund-journal.service.ts\<close>) with the constraints and triggers of its two
  tables. Writers of one order are serialised by an advisory lock that is held to the end of the transaction, so a
  transaction is one function; it commits only when the deferred balance trigger accepts every journal it wrote.
\<close>

section \<open>Accounts and constraints\<close>

definition DEBIT_NORMAL_ACCOUNTS :: "fund_account list" where
  "DEBIT_NORMAL_ACCOUNTS = [FundPending, FundDisputed, FundAvailable, FundReserve, FundSettled, FundRefunded, FundPlatformEarned,
     FundProviderFee, FundRecoveryOut]"

definition isDebitNormalAccount :: "fund_account \<Rightarrow> bool" where
  "isDebitNormalAccount a \<longleftrightarrow> a \<in> set DEBIT_NORMAL_ACCOUNTS"

definition posting_delta :: "fund_account \<Rightarrow> int \<Rightarrow> int" where
  "posting_delta account amount = (if isDebitNormalAccount account then amount else - amount)"

definition in_chain :: "nat \<Rightarrow> fund_account \<Rightarrow> string option \<Rightarrow> fund_posting \<Rightarrow> bool" where
  "in_chain orderId account component p \<longleftrightarrow> fp_order p = orderId \<and> fp_account p = account \<and> fp_component p = component"

text \<open>The latest posting of a chain: \<open>ORDER BY seq DESC LIMIT 1\<close>.\<close>

definition chain_head :: "nat \<Rightarrow> fund_account \<Rightarrow> string option \<Rightarrow> financial_db \<Rightarrow> fund_posting option" where
  "chain_head orderId account component s = latest fp_seq (in_chain orderId account component) (fi_postings s)"

text \<open>\<open>ORDER BY id ASC LIMIT 1\<close>.\<close>

definition first_posting :: "nat \<Rightarrow> financial_db \<Rightarrow> fund_posting option" where
  "first_posting orderId s = (case sort_key fp_id (filter (\<lambda>p. fp_order p = orderId) (fi_postings s)) of [] \<Rightarrow> None | p # _ \<Rightarrow> Some p)"

definition posting_check :: "fund_posting \<Rightarrow> bool" where
  "posting_check p \<longleftrightarrow> fp_amount p \<noteq> 0 \<and> 0 \<le> fp_balance p \<and> 0 < fp_seq p"

definition enforce_chain :: "fund_posting \<Rightarrow> financial_db \<Rightarrow> bool" where
  "enforce_chain p s = (case chain_head (fp_order p) (fp_account p) (fp_component p) s of
     None \<Rightarrow> fp_seq p = 1 \<and> fp_balance p = posting_delta (fp_account p) (fp_amount p)
   | Some q \<Rightarrow> fp_seq p = fp_seq q + 1 \<and> fp_balance p = fp_balance q + posting_delta (fp_account p) (fp_amount p))"

definition enforce_beneficiary :: "fund_posting \<Rightarrow> financial_db \<Rightarrow> bool" where
  "enforce_beneficiary p s = (case first_posting (fp_order p) s of None \<Rightarrow> True | Some q \<Rightarrow> fp_party q = fp_party p)"

definition uq_chain :: "fund_posting \<Rightarrow> financial_db \<Rightarrow> bool" where
  "uq_chain p s \<longleftrightarrow> \<not> list_ex (\<lambda>q. in_chain (fp_order p) (fp_account p) (fp_component p) q \<and> fp_seq q = fp_seq p) (fi_postings s)"

text \<open>\<open>check_fund_journal_balance\<close>, run at commit for every posting of the transaction.\<close>

definition journal_balanced :: "nat \<Rightarrow> nat \<Rightarrow> financial_db \<Rightarrow> bool" where
  "journal_balanced journalId orderId s \<longleftrightarrow>
     sum_list (map fp_amount (filter (\<lambda>p. fp_journal p = journalId \<and> fp_order p = orderId) (fi_postings s))) = 0"

section \<open>Writes\<close>

definition insertJournal :: "fund_journal_kind \<Rightarrow> fund_key \<Rightarrow> nat \<Rightarrow> financial_db \<Rightarrow> nat option \<times> financial_db" where
  "insertJournal kind key source s =
    (case financialUuid s of (i, s1) \<Rightarrow>
      if key \<in> set (map fj_key (fi_journals s1)) then (None, s1)
      else (Some i, s1\<lparr>fi_journals := fi_journals s1 @ [\<lparr>fj_id = i, fj_kind = kind, fj_key = key, fj_source = source\<rparr>]\<rparr>))"

definition insertPosting :: "nat \<Rightarrow> seller_party \<Rightarrow> nat \<Rightarrow> fund_account \<Rightarrow> string option \<Rightarrow> int \<Rightarrow> financial_db \<Rightarrow>
    financial_error + financial_db" where
  "insertPosting journalId party orderId account component amount s =
    (let prior = chain_head orderId account component s;
         prevSeq = (case prior of None \<Rightarrow> 0 | Some q \<Rightarrow> fp_seq q);
         prevBalance = (case prior of None \<Rightarrow> 0 | Some q \<Rightarrow> fp_balance q);
         delta = (if isDebitNormalAccount account then amount else - amount)
     in case financialUuid s of (i, s1) \<Rightarrow>
        let p = \<lparr>fp_id = i, fp_journal = journalId, fp_order = orderId, fp_party = party, fp_account = account, fp_component = component,
              fp_amount = amount, fp_seq = prevSeq + 1, fp_balance = prevBalance + delta\<rparr>
        in bind_res (require (enforce_chain p s) (FinTrigger ''fund_postings_chain'')) (\<lambda>_.
           bind_res (require (enforce_beneficiary p s) (FinTrigger ''fund_postings_beneficiary'')) (\<lambda>_.
           bind_res (require (posting_check p) (FinCheck ''fund_postings'')) (\<lambda>_.
           bind_res (require (uq_chain p s) (FinUnique ''uq_fund_postings_chain'')) (\<lambda>_.
           Inr (s1\<lparr>fi_postings := fi_postings s1 @ [p]\<rparr>))))))"

definition commit_journal :: "nat \<Rightarrow> nat \<Rightarrow> bool \<Rightarrow> financial_db \<Rightarrow> bool financial_result" where
  "commit_journal journalId orderId answer s =
    (if journal_balanced journalId orderId s then Inr (answer, s) else Inl (FinTrigger ''fund_postings_journal_balance''))"

definition recordCollection :: "nat \<Rightarrow> seller_party \<Rightarrow> jsnum \<Rightarrow> nat \<Rightarrow> financial_db \<Rightarrow> bool financial_result" where
  "recordCollection orderId party collected paymentReferenceId s =
    bind_res (fin_money (assertNonNegativeAmount collected ''collected amount'')) (\<lambda>amount.
    if amount = 0 then Inr (False, s)
    else case insertJournal FundCollection (CollectionKey paymentReferenceId) orderId s of
      (None, s1) \<Rightarrow> Inr (False, s1)
    | (Some j, s1) \<Rightarrow>
        bind_res (insertPosting j party orderId FundPending None amount s1) (\<lambda>s2.
        bind_res (insertPosting j party orderId FundCollected None (- amount) s2) (\<lambda>s3.
        commit_journal j orderId True (emitFinancial (FundsJournalRecorded j orderId FundCollection party amount) s3))))"

definition findCollectionParty :: "nat \<Rightarrow> financial_db \<Rightarrow> seller_party option" where
  "findCollectionParty orderId s = map_option fp_party (first_posting orderId s)"

definition fund_recordRefund :: "nat \<Rightarrow> nat \<Rightarrow> jsnum \<Rightarrow> financial_db \<Rightarrow> bool financial_result" where
  "fund_recordRefund orderId refundId refundAmount s =
    bind_res (fin_money (assertNonNegativeAmount refundAmount ''refund amount'')) (\<lambda>amount.
    if amount = 0 then Inr (False, s)
    else case findCollectionParty orderId s of
      None \<Rightarrow> Inr (False, s)
    | Some party \<Rightarrow>
        (case insertJournal FundRefund (RefundKey refundId) orderId s of
          (None, s1) \<Rightarrow> Inr (False, s1)
        | (Some j, s1) \<Rightarrow>
            bind_res (insertPosting j party orderId FundRefunded None amount s1) (\<lambda>s2.
            bind_res (insertPosting j party orderId FundPending None (- amount) s2) (\<lambda>s3.
            commit_journal j orderId True (emitFinancial (FundsJournalRecorded j orderId FundRefund party amount) s3)))))"

section \<open>Reads\<close>

definition hasCollection :: "nat \<Rightarrow> financial_db \<Rightarrow> bool" where
  "hasCollection orderId s \<longleftrightarrow> findCollectionParty orderId s \<noteq> None"

text \<open>\<open>DISTINCT ON (account) ... ORDER BY account, seq DESC\<close>; an account without a posting has no key.\<close>

definition statesForOrder :: "nat \<Rightarrow> financial_db \<Rightarrow> fund_account \<rightharpoonup> int" where
  "statesForOrder orderId s = (\<lambda>account. map_option fp_balance
     (latest fp_seq (\<lambda>p. fp_order p = orderId \<and> fp_account p = account) (fi_postings s)))"

definition statesForParty :: "seller_party \<Rightarrow> financial_db \<Rightarrow> fund_account \<rightharpoonup> int" where
  "statesForParty party s = (\<lambda>account.
     let orders = remdups (map fp_order (filter (\<lambda>p. fp_party p = party \<and> fp_account p = account) (fi_postings s)))
     in if orders = [] then None
        else Some (sum_list (map (\<lambda>orderId. case latest fp_seq (\<lambda>p. fp_party p = party \<and> fp_order p = orderId \<and> fp_account p = account)
               (fi_postings s) of None \<Rightarrow> 0 | Some p \<Rightarrow> fp_balance p) orders)))"

section \<open>The handlers that feed it\<close>

text \<open>
  \<open>OrderPaidLedgerHandler\<close> and \<open>OrderCollectionCapturedLedgerHandler\<close>; \<open>collected\<close> is
  \<open>payload.platformCollectedToman ?? payload.totalToman ?? 0\<close>.
\<close>

definition collectedToman :: "jsnum option \<Rightarrow> jsnum option \<Rightarrow> jsnum" where
  "collectedToman platformCollected totalToman = (case platformCollected of Some x \<Rightarrow> x | None \<Rightarrow>
     (case totalToman of Some x \<Rightarrow> x | None \<Rightarrow> fin_int 0))"

definition handle_order_paid :: "nat \<Rightarrow> seller_party \<Rightarrow> jsnum option \<Rightarrow> jsnum option \<Rightarrow> payment_db \<Rightarrow> financial_db \<Rightarrow>
    financial_error + financial_db" where
  "handle_order_paid orderId party platformCollected totalToman ps s =
    (let collected = collectedToman platformCollected totalToman
     in case findLiveIntentForOrder orderId ps of
          None \<Rightarrow> if collected = fin_int 0 then Inr s else Inl (FinMissingIntent orderId)
        | Some intent \<Rightarrow> bind_res (recordCollection orderId party collected (pi_id intent) s) (\<lambda>(_, s1). Inr s1))"

text \<open>\<open>OrderRefundedLedgerHandler\<close>; the legacy ledger reads its entries before it writes.\<close>

definition handle_order_refunded :: "nat \<Rightarrow> nat \<Rightarrow> jsnum \<Rightarrow> ledger_entry list \<Rightarrow> financial_db \<Rightarrow> financial_error + financial_db" where
  "handle_order_refunded orderId refundId amount rd s =
    (if hasLegacyPayment orderId s
     then bind_res (ledger_recordRefund orderId refundId amount rd s) (\<lambda>(_, s1). Inr s1)
     else bind_res (fund_recordRefund orderId refundId amount s) (\<lambda>(_, s1). Inr s1))"

end
