(* ===== verification/Settlement.thy ===== *)
theory Settlement
  imports Fund_Journal
begin

text \<open>
  Settlements (\<open>services/financial/src/settlement.service.ts\<close>): the outstanding amounts, computed freshly on every read
  from the ledger, the settlement rows and the fund journal; the reversal of a settlement; and the creation of one, which the
  code refuses until a settlement schedule is published. The role of the connection can only insert and select.
\<close>

section \<open>Outstanding amounts\<close>

definition settledForOrder :: "nat \<Rightarrow> financial_db \<Rightarrow> int" where
  "settledForOrder orderId s = sum_list (map si_amount (filter (\<lambda>i. si_order i = orderId) (fi_items s)))"

definition outstandingForOrder :: "nat \<Rightarrow> financial_db \<Rightarrow> int" where
  "outstandingForOrder orderId s = orderReceivableNet orderId s - settledForOrder orderId s"

record party_summary =
  ps_partyType :: ledger_party_type
  ps_partyId :: nat
  ps_receivableNet :: int
  ps_settled :: int
  ps_outstanding :: int

definition fund_party :: "ledger_party_type \<Rightarrow> nat \<Rightarrow> seller_party option" where
  "fund_party partyType partyId = (case partyType of LedgerPlatform \<Rightarrow> None
     | LedgerProfessional \<Rightarrow> Some (ProfessionalParty, partyId) | LedgerBusiness \<Rightarrow> Some (BusinessParty, partyId))"

definition legacySettled :: "ledger_party_type \<Rightarrow> nat \<Rightarrow> financial_db \<Rightarrow> int" where
  "legacySettled partyType partyId s =
    sum_list (map sb_amount (filter (\<lambda>b. sb_partyType b = partyType \<and> sb_partyId b = partyId) (fi_batches s)))"

definition partySummary :: "ledger_party_type \<Rightarrow> nat \<Rightarrow> financial_db \<Rightarrow> party_summary" where
  "partySummary partyType partyId s =
    (let states = (case fund_party partyType partyId of None \<Rightarrow> (\<lambda>_. None) | Some p \<Rightarrow> statesForParty p s);
         fund = (\<lambda>a. case states a of None \<Rightarrow> 0 | Some n \<Rightarrow> n);
         receivableNet = partyReceivableNet partyType partyId s + fund FundAvailable + fund FundReserve + fund FundSettled;
         settled = legacySettled partyType partyId s + fund FundSettled
     in \<lparr>ps_partyType = partyType, ps_partyId = partyId, ps_receivableNet = receivableNet, ps_settled = settled,
          ps_outstanding = receivableNet - settled\<rparr>)"

text \<open>One row per order of the party, newest order first, only those that are owed something.\<close>

definition outstandingOrdersForParty :: "ledger_party_type \<Rightarrow> nat \<Rightarrow> financial_db \<Rightarrow> (nat \<times> int) list" where
  "outstandingOrdersForParty partyType partyId s =
    (let mine = filter (\<lambda>e. le_partyType e = partyType \<and> le_partyId e = Some partyId \<and> le_type e = ReceivableEntry) (fi_entries s);
         owed = (\<lambda>orderId. sum_list (map le_amount (filter (\<lambda>e. le_order e = orderId) mine)) - settledForOrder orderId s)
     in map (\<lambda>orderId. (orderId, owed orderId)) (filter (\<lambda>orderId. 0 < owed orderId) (rev (sort (remdups (map le_order mine))))))"

section \<open>Settlements of a party\<close>

definition settlementsForParty :: "ledger_party_type \<Rightarrow> nat \<Rightarrow> financial_db \<Rightarrow> settlement_batch list" where
  "settlementsForParty partyType partyId s =
    rev (sort_key sb_id (filter (\<lambda>b. sb_partyType b = partyType \<and> sb_partyId b = partyId) (fi_batches s)))"

definition settlementPageForParty :: "ledger_party_type \<Rightarrow> nat \<Rightarrow> nat option \<Rightarrow> nat \<Rightarrow> financial_db \<Rightarrow> settlement_batch list" where
  "settlementPageForParty partyType partyId after limit s =
    take limit (filter (\<lambda>b. case after of None \<Rightarrow> True | Some i \<Rightarrow> sb_id b < i) (settlementsForParty partyType partyId s))"

definition in_window :: "ledger_party_type \<Rightarrow> nat \<Rightarrow> int \<times> int \<Rightarrow> settlement_batch \<Rightarrow> bool" where
  "in_window partyType partyId w b \<longleftrightarrow>
     sb_partyType b = partyType \<and> sb_partyId b = partyId \<and> fst w \<le> sb_createdAt b \<and> sb_createdAt b < snd w"

definition monthlyTotalsForParty :: "ledger_party_type \<Rightarrow> nat \<Rightarrow> (int \<times> int) list \<Rightarrow> financial_db \<Rightarrow> (int \<times> int \<times> nat) list" where
  "monthlyTotalsForParty partyType partyId windows s = map (\<lambda>w.
     let inside = (\<lambda>kind. filter (\<lambda>b. in_window partyType partyId w b \<and> sb_kind b = kind) (fi_batches s))
     in (sum_list (map sb_amount (inside SettlementBatch)), - sum_list (map sb_amount (inside ReversalBatch)),
         length (inside SettlementBatch))) windows"

definition itemsFor :: "nat \<Rightarrow> financial_db \<Rightarrow> settlement_item list" where
  "itemsFor settlementId s = sort_key si_id (filter (\<lambda>i. si_settlement i = settlementId) (fi_items s))"

definition findSettlement :: "nat \<Rightarrow> financial_db \<Rightarrow> settlement_batch option" where
  "findSettlement settlementId s = tget sb_id settlementId (fi_batches s)"

section \<open>Creating and reversing\<close>

definition createSettlement :: "financial_db \<Rightarrow> settlement_batch financial_result" where
  "createSettlement s = Inl (SettlementRejected ''settlement_schedule_unpublished'')"

definition settlement_check :: "settlement_batch \<Rightarrow> bool" where
  "settlement_check b \<longleftrightarrow> sb_partyType b \<noteq> LedgerPlatform \<and> (sb_kind b = ReversalBatch \<longleftrightarrow> sb_reverses b \<noteq> None)"

text \<open>\<open>uq_settlement_batches_reversal\<close>, partial on reversals.\<close>

definition insert_batch :: "settlement_batch \<Rightarrow> financial_db \<Rightarrow> financial_error + financial_db" where
  "insert_batch b s =
    (if \<not> settlement_check b then Inl (FinCheck ''settlement_batches'')
     else if sb_kind b = ReversalBatch \<and> list_ex (\<lambda>x. sb_kind x = ReversalBatch \<and> sb_reverses x = sb_reverses b) (fi_batches s)
     then Inl (FinUnique ''uq_settlement_batches_reversal'')
     else Inr (s\<lparr>fi_batches := fi_batches s @ [b]\<rparr>))"

fun insert_items :: "nat \<Rightarrow> settlement_item list \<Rightarrow> financial_db \<Rightarrow> financial_error + financial_db" where
  "insert_items batch [] s = Inr s"
| "insert_items batch (x # xs) s =
    (case financialUuid s of (i, s1) \<Rightarrow>
      if list_ex (\<lambda>y. si_settlement y = batch \<and> si_order y = si_order x) (fi_items s1)
      then Inl (FinUnique ''uq_settlement_items_settlement_order'')
      else insert_items batch xs
        (s1\<lparr>fi_items := fi_items s1 @ [\<lparr>si_id = i, si_settlement = batch, si_order = si_order x, si_amount = - si_amount x\<rparr>]\<rparr>))"

definition reversal_batch :: "nat \<Rightarrow> int \<Rightarrow> nat \<Rightarrow> string \<Rightarrow> settlement_batch \<Rightarrow> settlement_batch" where
  "reversal_batch reversalId now actorId reason original =
    \<lparr>sb_id = reversalId, sb_kind = ReversalBatch, sb_reverses = Some (sb_id original), sb_partyType = sb_partyType original,
     sb_partyId = sb_partyId original, sb_amount = - sb_amount original, sb_currency = sb_currency original, sb_method = sb_method original,
     sb_reference = sb_reference original, sb_note = Some reason, sb_createdBy = actorId, sb_createdAt = now\<rparr>"

text \<open>A unique violation of the transaction (\<open>23505\<close>) is answered as a settlement that was reversed already.\<close>

definition reverseSettlement :: "int \<Rightarrow> nat \<Rightarrow> nat \<Rightarrow> string \<Rightarrow> financial_db \<Rightarrow> settlement_batch financial_result" where
  "reverseSettlement now settlementId actorId reason s =
    (case findSettlement settlementId s of
       None \<Rightarrow> Inl (SettlementRejected ''missing'')
     | Some original \<Rightarrow>
        if sb_kind original \<noteq> SettlementBatch then Inl (SettlementRejected ''a reversal'')
        else let items = itemsFor settlementId s in
          case financialUuid s of (reversalId, s1) \<Rightarrow>
            let b = reversal_batch reversalId now actorId reason original in
            case bind_res (insert_batch b s1) (insert_items reversalId items) of
              Inl (FinUnique _) \<Rightarrow> Inl (SettlementRejected ''reversed already'')
            | Inl e \<Rightarrow> Inl e
            | Inr s2 \<Rightarrow> Inr (b, emitFinancial (SettlementReversed reversalId settlementId (sb_partyType original) (sb_partyId original)
                 (- sb_amount original) reason) s2))"

section \<open>Every write of the service\<close>

inductive financial_step :: "financial_db \<Rightarrow> financial_db \<Rightarrow> bool" where
  collection: "recordCollection orderId party collected ref s = Inr (b, s') \<Longrightarrow> financial_step s s'"
| fund_refund: "fund_recordRefund orderId refundId amount s = Inr (b, s') \<Longrightarrow> financial_step s s'"
| ledger_refund: "ledger_recordRefund orderId refundId amount rd s = Inr (b, s') \<Longrightarrow> financial_step s s'"
| reversal: "reverseSettlement now settlementId actorId reason s = Inr (b', s') \<Longrightarrow> financial_step s s'"

end
