(* ===== verification/Fund_Invariant.thy ===== *)
theory Fund_Invariant
  imports Settlement
begin

text \<open>
  The invariant of the fund journal: every account of an order is a gapless chain of running balances that never go below
  zero, every journal sums to zero, an order has one beneficiary, and what was collected is what is pending or refunded. On
  states that satisfy it a posting is refused only for its beneficiary or because its account would go below zero: the chain trigger and
  the unique index never fire.
\<close>

section \<open>Chains\<close>

definition delta_of :: "fund_posting \<Rightarrow> int" where
  "delta_of p = posting_delta (fp_account p) (fp_amount p)"

fun chain_from :: "nat \<Rightarrow> int \<Rightarrow> fund_posting list \<Rightarrow> bool" where
  "chain_from n b [] \<longleftrightarrow> True"
| "chain_from n b (p # ps) \<longleftrightarrow> fp_seq p = Suc n \<and> fp_balance p = b + delta_of p \<and> 0 \<le> fp_balance p \<and> chain_from (Suc n) (b + delta_of p) ps"

definition chain :: "nat \<Rightarrow> fund_account \<Rightarrow> financial_db \<Rightarrow> fund_posting list" where
  "chain o' a s = filter (in_chain o' a None) (fi_postings s)"

definition balance :: "nat \<Rightarrow> fund_account \<Rightarrow> financial_db \<Rightarrow> int" where
  "balance o' a s = sum_list (map delta_of (chain o' a s))"

lemma chain_from_append:
  "chain_from n b (ps @ [p]) \<longleftrightarrow> chain_from n b ps \<and> fp_seq p = Suc (n + length ps) \<and>
     fp_balance p = b + sum_list (map delta_of ps) + delta_of p \<and> 0 \<le> fp_balance p"
  by (induction ps arbitrary: n b) (auto simp: algebra_simps)

lemma chain_from_seq: "chain_from n b ps \<Longrightarrow> p \<in> set ps \<Longrightarrow> n < fp_seq p \<and> fp_seq p \<le> n + length ps"
  by (induction ps arbitrary: n b) fastforce+

lemma chain_from_sorted: "chain_from n b ps \<Longrightarrow> sort_key fp_seq ps = ps"
proof (induction ps arbitrary: n b)
  case (Cons p ps)
  have "\<forall>q \<in> set ps. fp_seq p \<le> fp_seq q" using Cons.prems chain_from_seq [of "Suc n" "b + delta_of p" ps] by fastforce
  moreover have "chain_from (Suc n) (b + delta_of p) ps" using Cons.prems by simp
  then have "sort_key fp_seq ps = ps" by (rule Cons.IH)
  ultimately show ?case by (simp add: insort_is_Cons)
qed simp

lemma chain_from_last:
  "chain_from n b ps \<Longrightarrow> ps \<noteq> [] \<Longrightarrow> fp_seq (last ps) = n + length ps \<and> fp_balance (last ps) = b + sum_list (map delta_of ps)"
  by (induction ps arbitrary: n b) auto

lemma chain_from_nonneg: "chain_from n b ps \<Longrightarrow> 0 \<le> b \<Longrightarrow> 0 \<le> b + sum_list (map delta_of ps)"
proof (induction ps arbitrary: n b)
  case (Cons p ps)
  then have "chain_from (Suc n) (b + delta_of p) ps" "0 \<le> b + delta_of p" by simp_all
  then have "0 \<le> b + delta_of p + sum_list (map delta_of ps)" by (rule Cons.IH)
  then show ?case using Cons.prems(1) by simp
qed simp

definition fund_ok :: "financial_db \<Rightarrow> bool" where
  "fund_ok s \<longleftrightarrow>
     (\<forall>o' a. chain_from 0 0 (chain o' a s)) \<and>
     (\<forall>p \<in> set (fi_postings s). fp_component p = None \<and> fp_id p < fi_next s \<and> fp_journal p \<in> fj_id ` set (fi_journals s)) \<and>
     (\<forall>p \<in> set (fi_postings s). \<forall>q \<in> set (fi_postings s). fp_order p = fp_order q \<longrightarrow> fp_party p = fp_party q) \<and>
     (\<forall>j \<in> set (fi_journals s). fj_id j < fi_next s) \<and> distinct (map fj_key (fi_journals s)) \<and>
     (\<forall>j o'. journal_balanced j o' s) \<and>
     (\<forall>o'. balance o' FundPending s + balance o' FundRefunded s = balance o' FundCollected s)"

lemma fund_okD:
  assumes "fund_ok s"
  shows "chain_from 0 0 (chain o' a s)"
    "p \<in> set (fi_postings s) \<Longrightarrow> fp_component p = None \<and> fp_id p < fi_next s \<and> fp_journal p \<in> fj_id ` set (fi_journals s)"
    "p \<in> set (fi_postings s) \<Longrightarrow> q \<in> set (fi_postings s) \<Longrightarrow> fp_order p = fp_order q \<Longrightarrow> fp_party p = fp_party q"
    "j \<in> set (fi_journals s) \<Longrightarrow> fj_id j < fi_next s" "distinct (map fj_key (fi_journals s))" "journal_balanced k o' s"
    "balance o' FundPending s + balance o' FundRefunded s = balance o' FundCollected s"
  using assms unfolding fund_ok_def by blast+

lemma fund_balance_nonneg: "fund_ok s \<Longrightarrow> 0 \<le> balance o' a s"
  using chain_from_nonneg [OF fund_okD(1), of s o' a] by (simp add: balance_def)

lemma chain_head_eq:
  assumes "chain_from 0 0 (chain o' a s)"
  shows "chain_head o' a None s = (if chain o' a s = [] then None else Some (last (chain o' a s)))"
  using chain_from_sorted [OF assms] unfolding chain_head_def latest_def chain_def [symmetric]
  by (cases "chain o' a s" rule: rev_cases) (auto split: list.splits)

lemma first_posting_cases:
  "first_posting o' s = None \<Longrightarrow> \<forall>p \<in> set (fi_postings s). fp_order p \<noteq> o'"
  "first_posting o' s = Some q \<Longrightarrow> q \<in> set (fi_postings s) \<and> fp_order q = o'"
proof -
  define l where "l = sort_key fp_id (filter (\<lambda>p. fp_order p = o') (fi_postings s))"
  have m: "set l = {p \<in> set (fi_postings s). fp_order p = o'}" by (auto simp: l_def)
  have f: "first_posting o' s = (case l of [] \<Rightarrow> None | p # _ \<Rightarrow> Some p)" by (simp add: first_posting_def l_def)
  show "first_posting o' s = None \<Longrightarrow> \<forall>p \<in> set (fi_postings s). fp_order p \<noteq> o'" using f m by (cases l) auto
  show "first_posting o' s = Some q \<Longrightarrow> q \<in> set (fi_postings s) \<and> fp_order q = o'" using f m by (cases l) auto
qed

definition owned_by :: "seller_party \<Rightarrow> nat \<Rightarrow> financial_db \<Rightarrow> bool" where
  "owned_by party o' s \<longleftrightarrow> (\<forall>p \<in> set (fi_postings s). fp_order p = o' \<longrightarrow> fp_party p = party)"

section \<open>One posting\<close>

text \<open>The part of the invariant that holds between the two postings of a journal.\<close>

definition chains_ok :: "financial_db \<Rightarrow> bool" where
  "chains_ok s \<longleftrightarrow> (\<forall>o' a. chain_from 0 0 (chain o' a s)) \<and> (\<forall>p \<in> set (fi_postings s). fp_component p = None) \<and>
     (\<forall>p \<in> set (fi_postings s). \<forall>q \<in> set (fi_postings s). fp_order p = fp_order q \<longrightarrow> fp_party p = fp_party q)"

definition new_posting :: "nat \<Rightarrow> seller_party \<Rightarrow> nat \<Rightarrow> fund_account \<Rightarrow> int \<Rightarrow> financial_db \<Rightarrow> fund_posting" where
  "new_posting j party o' a amount s = \<lparr>fp_id = fi_next s, fp_journal = j, fp_order = o', fp_party = party, fp_account = a, fp_component = None,
     fp_amount = amount, fp_seq = Suc (length (chain o' a s)), fp_balance = balance o' a s + posting_delta a amount\<rparr>"

definition add_posting :: "fund_posting \<Rightarrow> financial_db \<Rightarrow> financial_db" where
  "add_posting p s = s\<lparr>fi_next := Suc (fi_next s), fi_postings := fi_postings s @ [p]\<rparr>"

lemma owned_first:
  assumes "chains_ok s"
  shows "(case first_posting o' s of None \<Rightarrow> True | Some q \<Rightarrow> fp_party q = party) \<longleftrightarrow> owned_by party o' s"
proof (cases "first_posting o' s")
  case None
  then show ?thesis using first_posting_cases(1) [OF None] by (auto simp: owned_by_def)
next
  case (Some q)
  have q: "q \<in> set (fi_postings s)" "fp_order q = o'" using first_posting_cases(2) [OF Some] by simp_all
  have e: "fp_party p = fp_party q" if "p \<in> set (fi_postings s)" "fp_order p = o'" for p
  proof -
    have "fp_order p = fp_order q" using that(2) q(2) by simp
    then show ?thesis using assms q(1) that(1) unfolding chains_ok_def by blast
  qed
  have "owned_by party o' s" if "fp_party q = party" unfolding owned_by_def using e that by blast
  moreover have "fp_party q = party" if "owned_by party o' s" using that q unfolding owned_by_def by blast
  ultimately show ?thesis unfolding Some option.case by blast
qed

lemma insertPosting_eq:
  assumes ok: "chains_ok s"
  shows "insertPosting j party o' a None amount s =
    (if \<not> owned_by party o' s then Inl (FinTrigger ''fund_postings_beneficiary'')
     else if amount = 0 \<or> balance o' a s + posting_delta a amount < 0 then Inl (FinCheck ''fund_postings'')
     else Inr (add_posting (new_posting j party o' a amount s) s))"
proof -
  let ?p = "new_posting j party o' a amount s"
  have c: "chain_from 0 0 (chain o' a s)" using ok by (simp add: chains_ok_def)
  note h = chain_head_eq [OF c]
  have seq: "(case chain_head o' a None s of None \<Rightarrow> 0 | Some q \<Rightarrow> fp_seq q) = length (chain o' a s)"
    "(case chain_head o' a None s of None \<Rightarrow> 0 | Some q \<Rightarrow> fp_balance q) = balance o' a s"
    using h chain_from_last [OF c] by (auto simp: balance_def)
  have e: "enforce_chain ?p s"
    using h chain_from_last [OF c] by (simp add: enforce_chain_def new_posting_def balance_def)
  have b: "enforce_beneficiary ?p s \<longleftrightarrow> owned_by party o' s"
    using owned_first [OF ok] by (simp add: enforce_beneficiary_def new_posting_def)
  have u: "uq_chain ?p s"
    using chain_from_seq [OF c] by (fastforce simp: uq_chain_def new_posting_def list_ex_iff chain_def)
  have k: "posting_check ?p \<longleftrightarrow> \<not> (amount = 0 \<or> balance o' a s + posting_delta a amount < 0)"
    by (auto simp: posting_check_def new_posting_def)
  have "insertPosting j party o' a None amount s =
    bind_res (require (enforce_chain ?p s) (FinTrigger ''fund_postings_chain'')) (\<lambda>_.
    bind_res (require (enforce_beneficiary ?p s) (FinTrigger ''fund_postings_beneficiary'')) (\<lambda>_.
    bind_res (require (posting_check ?p) (FinCheck ''fund_postings'')) (\<lambda>_.
    bind_res (require (uq_chain ?p s) (FinUnique ''uq_fund_postings_chain'')) (\<lambda>_. Inr (add_posting ?p s)))))"
    unfolding insertPosting_def Let_def seq financialUuid_def by (simp add: new_posting_def add_posting_def posting_delta_def)
  then show ?thesis using e b u k by (simp add: require_def)
qed

lemma chain_add:
  "chain o'' b (add_posting (new_posting j party o' a amount s) s) =
     chain o'' b s @ (if o'' = o' \<and> b = a then [new_posting j party o' a amount s] else [])"
  by (auto simp: chain_def add_posting_def in_chain_def new_posting_def)

lemma balance_add:
  "balance o'' b (add_posting (new_posting j party o' a amount s) s) =
     balance o'' b s + (if o'' = o' \<and> b = a then posting_delta a amount else 0)"
  by (simp add: balance_def chain_add) (simp add: delta_of_def new_posting_def)

lemma chains_add:
  assumes ok: "chains_ok s" and p: "owned_by party o' s" "0 \<le> balance o' a s + posting_delta a amount"
  shows "chains_ok (add_posting (new_posting j party o' a amount s) s)"
proof -
  have ch: "chain_from 0 0 (chain o'' b (add_posting (new_posting j party o' a amount s) s))" for o'' b
    using ok p(2) unfolding chain_add chains_ok_def
    by (auto simp: chain_from_append) (auto simp: new_posting_def delta_of_def balance_def)
  moreover have "\<forall>q \<in> set (fi_postings s). fp_order q = o' \<longrightarrow> fp_party q = party" using p(1) by (simp add: owned_by_def)
  let ?p = "new_posting j party o' a amount s"
  have t: "fi_postings (add_posting ?p s) = fi_postings s @ [?p]" by (simp add: add_posting_def)
  have p: "fp_component ?p = None" "fp_order ?p = o'" "fp_party ?p = party" by (simp_all add: new_posting_def)
  have c: "\<forall>q \<in> set (fi_postings (add_posting ?p s)). fp_component q = None" using ok p(1) by (simp add: t chains_ok_def)
  have b: "fp_party x = fp_party y" if "x \<in> set (fi_postings (add_posting ?p s))" "y \<in> set (fi_postings (add_posting ?p s))"
    "fp_order x = fp_order y" for x y
  proof -
    have old: "fp_party z = party" if "z \<in> set (fi_postings s)" "fp_order z = o'" for z
      using assms(2) that by (simp add: owned_by_def)
    have "x = ?p \<or> x \<in> set (fi_postings s)" "y = ?p \<or> y \<in> set (fi_postings s)" using that(1,2) by (auto simp: t)
    then show ?thesis using ok old p that(3) unfolding chains_ok_def by metis
  qed
  show ?thesis unfolding chains_ok_def using ch c b by blast
qed

lemma owned_add: "owned_by party o' s \<Longrightarrow> owned_by party o' (add_posting (new_posting j party o'' a amount s) s)"
  by (auto simp: owned_by_def add_posting_def new_posting_def)

section \<open>One journal\<close>

lemma fund_ok_chains: "fund_ok s \<Longrightarrow> chains_ok s"
  unfolding fund_ok_def chains_ok_def by blast

text \<open>A new journal with its two opposite postings.\<close>

definition journal_written :: "fund_journal_kind \<Rightarrow> fund_key \<Rightarrow> seller_party \<Rightarrow> nat \<Rightarrow> fund_account \<Rightarrow> fund_account \<Rightarrow> int \<Rightarrow>
    financial_db \<Rightarrow> financial_db" where
  "journal_written kind key party o' up down amount s =
    (let j = fi_next s;
         s1 = s\<lparr>fi_next := Suc (fi_next s), fi_journals := fi_journals s @ [\<lparr>fj_id = j, fj_kind = kind, fj_key = key, fj_source = o'\<rparr>]\<rparr>;
         s2 = add_posting (new_posting j party o' up amount s1) s1;
         s3 = add_posting (new_posting j party o' down (- amount) s2) s2
     in emitFinancial (FundsJournalRecorded j o' kind party amount) s3)"

lemma chain_cong: "fi_postings s' = fi_postings s \<Longrightarrow> chain o' a s' = chain o' a s"
  by (simp add: chain_def)

lemma balance_cong: "fi_postings s' = fi_postings s \<Longrightarrow> balance o' a s' = balance o' a s"
  by (simp add: balance_def chain_def)

lemma owned_cong: "fi_postings s' = fi_postings s \<Longrightarrow> owned_by party o' s' = owned_by party o' s"
  by (simp add: owned_by_def)

lemma chains_cong: "fi_postings s' = fi_postings s \<Longrightarrow> chains_ok s' = chains_ok s"
  by (simp add: chains_ok_def chain_def)

lemma emit_postings [simp]:
  "fi_postings (emitFinancial ev s) = fi_postings s" "fi_journals (emitFinancial ev s) = fi_journals s"
  "fi_next (emitFinancial ev s) = fi_next s" "fi_entries (emitFinancial ev s) = fi_entries s"
  by (simp_all add: emitFinancial_def)

text \<open>What the two accounts of a journal must allow: the first is debited, the second moves the other way.\<close>

definition postable :: "seller_party \<Rightarrow> nat \<Rightarrow> fund_account \<Rightarrow> fund_account \<Rightarrow> int \<Rightarrow> financial_db \<Rightarrow> bool" where
  "postable party o' up down amount s \<longleftrightarrow> owned_by party o' s \<and>
     0 \<le> balance o' up s + posting_delta up amount \<and> 0 \<le> balance o' down s + posting_delta down (- amount)"

lemma written_tables:
  assumes "up \<noteq> down"
  shows "fi_journals (journal_written kind key party o' up down amount s) =
      fi_journals s @ [\<lparr>fj_id = fi_next s, fj_kind = kind, fj_key = key, fj_source = o'\<rparr>]"
    "\<exists>p q. fi_postings (journal_written kind key party o' up down amount s) = fi_postings s @ [p, q] \<and>
       fp_journal p = fi_next s \<and> fp_journal q = fi_next s \<and> fp_order p = o' \<and> fp_order q = o' \<and> fp_amount p = amount \<and>
       fp_amount q = - amount \<and> fp_id p = Suc (fi_next s) \<and> fp_id q = Suc (Suc (fi_next s)) \<and> fp_component p = None \<and> fp_component q = None"
    "fi_next (journal_written kind key party o' up down amount s) = Suc (Suc (Suc (fi_next s)))"
    "balance o'' a (journal_written kind key party o' up down amount s) = balance o'' a s +
       (if o'' = o' \<and> a = up then posting_delta up amount else if o'' = o' \<and> a = down then posting_delta down (- amount) else 0)"
  using assms
  by (simp_all add: journal_written_def Let_def add_posting_def new_posting_def)
     (simp add: balance_def chain_def in_chain_def delta_of_def)

definition journal_opened :: "fund_journal_kind \<Rightarrow> fund_key \<Rightarrow> nat \<Rightarrow> financial_db \<Rightarrow> financial_db" where
  "journal_opened kind key o' s = s\<lparr>fi_next := Suc (fi_next s), fi_journals := fi_journals s @ [\<lparr>fj_id = fi_next s, fj_kind = kind, fj_key = key, fj_source = o'\<rparr>]\<rparr>"

lemma opened_postings [simp]: "fi_postings (journal_opened kind key o' s) = fi_postings s"
  by (simp add: journal_opened_def)

lemma write_journal:
  assumes ok: "fund_ok s" and a: "0 < amount" and ne: "up \<noteq> down"
    and s1: "s1 = journal_opened kind key o' s"
  shows "bind_res (insertPosting (fi_next s) party o' up None amount s1) (\<lambda>s2.
      bind_res (insertPosting (fi_next s) party o' down None (- amount) s2) (\<lambda>s3.
      commit_journal (fi_next s) o' True (emitFinancial (FundsJournalRecorded (fi_next s) o' kind party amount) s3))) =
    (if postable party o' up down amount s then Inr (True, journal_written kind key party o' up down amount s)
     else if owned_by party o' s then Inl (FinCheck ''fund_postings'') else Inl (FinTrigger ''fund_postings_beneficiary''))"
proof -
  have p1: "fi_postings s1 = fi_postings s" by (simp add: s1)
  have c1: "chains_ok s1" using fund_ok_chains [OF ok] chains_cong [OF p1] by simp
  let ?s2 = "add_posting (new_posting (fi_next s) party o' up amount s1) s1"
  let ?s3 = "add_posting (new_posting (fi_next s) party o' down (- amount) ?s2) ?s2"
  have w: "journal_written kind key party o' up down amount s = emitFinancial (FundsJournalRecorded (fi_next s) o' kind party amount) ?s3"
    by (simp add: journal_written_def Let_def s1 journal_opened_def)
  show ?thesis
  proof (cases "owned_by party o' s \<and> 0 \<le> balance o' up s + posting_delta up amount")
    case False
    then show ?thesis using a p1 by (auto simp: insertPosting_eq [OF c1] postable_def owned_cong [OF p1] balance_cong [OF p1])
  next
    case True
    then have o1: "owned_by party o' s1" "0 \<le> balance o' up s1 + posting_delta up amount"
      using owned_cong [OF p1] balance_cong [OF p1] by simp_all
    have c2: "chains_ok ?s2" by (rule chains_add [OF c1 o1])
    have o2: "owned_by party o' ?s2" by (rule owned_add [OF o1(1)])
    have b2: "balance o' down ?s2 = balance o' down s" using ne by (simp add: balance_add balance_cong [OF p1])
    have i1: "insertPosting (fi_next s) party o' up None amount s1 = Inr ?s2"
      using a o1 by (simp add: insertPosting_eq [OF c1])
    have i2: "insertPosting (fi_next s) party o' down None (- amount) ?s2 =
        (if balance o' down s + posting_delta down (- amount) < 0 then Inl (FinCheck ''fund_postings'') else Inr ?s3)"
      using a o2 b2 by (simp add: insertPosting_eq [OF c2])
    have old: "filter (\<lambda>p. fp_journal p = fi_next s \<and> fp_order p = o') (fi_postings s) = []"
      using fund_okD(2,4) [OF ok] by (fastforce simp: filter_empty_conv)
    have "fi_postings (journal_written kind key party o' up down amount s) = fi_postings ?s3" by (simp add: w)
    then have "journal_balanced (fi_next s) o' (emitFinancial (FundsJournalRecorded (fi_next s) o' kind party amount) ?s3)"
      using written_tables(2) [OF ne, of kind key party o' amount s] old by (auto simp: journal_balanced_def)
    then show ?thesis using True i1 i2 w by (auto simp: postable_def commit_journal_def)
  qed
qed

lemma written_ok:
  assumes ok: "fund_ok s" and k: "key \<notin> set (map fj_key (fi_journals s))" and p: "postable party o' up down amount s"
    and ud: "(up, down) = (FundPending, FundCollected) \<or> (up, down) = (FundRefunded, FundPending)"
  shows "fund_ok (journal_written kind key party o' up down amount s)" (is "fund_ok ?w")
proof -
  have ne: "up \<noteq> down" using ud by auto
  obtain x y where xy: "fi_postings ?w = fi_postings s @ [x, y]" "fp_journal x = fi_next s" "fp_journal y = fi_next s" "fp_order x = o'"
      "fp_order y = o'" "fp_amount x = amount" "fp_amount y = - amount" "fp_id x = Suc (fi_next s)" "fp_id y = Suc (Suc (fi_next s))"
      "fp_component x = None" "fp_component y = None"
    using written_tables(2) [OF ne, of kind key party o' amount s] by blast
  note t = written_tables(1) [OF ne, of kind key party o' amount s] written_tables(3) [OF ne, of kind key party o' amount s]
    written_tables(4) [OF ne, of _ _ kind key party o' amount s]
  define s1 where s1: "s1 = journal_opened kind key o' s"
  let ?s2 = "add_posting (new_posting (fi_next s) party o' up amount s1) s1"
  let ?s3 = "add_posting (new_posting (fi_next s) party o' down (- amount) ?s2) ?s2"
  have p1: "fi_postings s1 = fi_postings s" by (simp add: s1)
  have c1: "chains_ok s1" using fund_ok_chains [OF ok] chains_cong [OF p1] by simp
  have o1: "owned_by party o' s1" "0 \<le> balance o' up s1 + posting_delta up amount"
    using p owned_cong [OF p1] balance_cong [OF p1] by (simp_all add: postable_def)
  have c2: "chains_ok ?s2" by (rule chains_add [OF c1 o1])
  have "0 \<le> balance o' down ?s2 + posting_delta down (- amount)"
    using p ne by (simp add: balance_add balance_cong [OF p1] postable_def)
  then have "chains_ok ?s3" by (rule chains_add [OF c2 owned_add [OF o1(1)]])
  then have c: "chains_ok ?w" using chains_cong [of ?w ?s3] by (simp add: journal_written_def Let_def s1 journal_opened_def)
  have old: "fp_journal q < fi_next s" if "q \<in> set (fi_postings s)" for q
    using fund_okD(2,4) [OF ok] that by fastforce
  have j: "journal_balanced j o'' ?w" for j o''
  proof (cases "j = fi_next s")
    case True
    then have "filter (\<lambda>p. fp_journal p = j \<and> fp_order p = o'') (fi_postings s) = []"
      by (auto simp: filter_empty_conv dest: old)
    then show ?thesis using xy(1-7) True by (simp add: journal_balanced_def)
  next
    case False
    then show ?thesis using fund_okD(6) [OF ok, of j o''] xy(1-3) by (simp add: journal_balanced_def)
  qed
  have b: "balance o'' FundPending ?w + balance o'' FundRefunded ?w = balance o'' FundCollected ?w" for o''
    using fund_okD(7) [OF ok, of o''] ud
    by (auto simp: t(3) posting_delta_def isDebitNormalAccount_def DEBIT_NORMAL_ACCOUNTS_def)
  have i: "\<forall>q \<in> set (fi_postings ?w). fp_component q = None \<and> fp_id q < fi_next ?w \<and> fp_journal q \<in> fj_id ` set (fi_journals ?w)"
    using fund_okD(2) [OF ok] xy t(1,2) by fastforce
  have n: "\<forall>q \<in> set (fi_journals ?w). fj_id q < fi_next ?w" "distinct (map fj_key (fi_journals ?w))"
    using fund_okD(4,5) [OF ok] k t(1,2) by (fastforce, simp)
  show ?thesis unfolding fund_ok_def using c i n j b unfolding chains_ok_def by blast
qed

section \<open>The operations\<close>

lemma insertJournal_eq:
  "insertJournal kind key o' s = (if key \<in> set (map fj_key (fi_journals s)) then (None, s\<lparr>fi_next := Suc (fi_next s)\<rparr>)
     else (Some (fi_next s), journal_opened kind key o' s))"
  by (simp add: insertJournal_def financialUuid_def journal_opened_def)

lemma recordCollection_eq:
  assumes "fund_ok s"
  shows "recordCollection o' party collected ref s =
    bind_res (fin_money (assertNonNegativeAmount collected ''collected amount'')) (\<lambda>amount.
      if amount = 0 then Inr (False, s)
      else if CollectionKey ref \<in> set (map fj_key (fi_journals s)) then Inr (False, s\<lparr>fi_next := Suc (fi_next s)\<rparr>)
      else if postable party o' FundPending FundCollected amount s
      then Inr (True, journal_written FundCollection (CollectionKey ref) party o' FundPending FundCollected amount s)
      else if owned_by party o' s then Inl (FinCheck ''fund_postings'') else Inl (FinTrigger ''fund_postings_beneficiary''))"
proof (cases "fin_money (assertNonNegativeAmount collected ''collected amount'')")
  case (Inr amount)
  then have "0 \<le> amount" by (auto simp: assertNonNegativeAmount_def bind_res_Inr fin_money_def split: sum.splits if_splits)
  then show ?thesis using Inr write_journal [OF assms _ _ refl, where amount = amount and up = FundPending and down = FundCollected and kind = FundCollection
      and key = "CollectionKey ref" and o' = o' and party = party]
    by (auto simp: recordCollection_def insertJournal_eq)
qed (simp add: recordCollection_def)

lemma fund_recordRefund_eq:
  assumes "fund_ok s"
  shows "fund_recordRefund o' refundId refundAmount s =
    bind_res (fin_money (assertNonNegativeAmount refundAmount ''refund amount'')) (\<lambda>amount.
      if amount = 0 then Inr (False, s)
      else case findCollectionParty o' s of None \<Rightarrow> Inr (False, s)
      | Some party \<Rightarrow>
         if RefundKey refundId \<in> set (map fj_key (fi_journals s)) then Inr (False, s\<lparr>fi_next := Suc (fi_next s)\<rparr>)
         else if amount \<le> balance o' FundPending s
         then Inr (True, journal_written FundRefund (RefundKey refundId) party o' FundRefunded FundPending amount s)
         else Inl (FinCheck ''fund_postings''))"
proof (cases "fin_money (assertNonNegativeAmount refundAmount ''refund amount'')")
  case (Inr amount)
  then have a: "0 \<le> amount" by (auto simp: assertNonNegativeAmount_def bind_res_Inr fin_money_def split: sum.splits if_splits)
  show ?thesis
  proof (cases "findCollectionParty o' s")
    case (Some party)
    then obtain q where q: "first_posting o' s = Some q" "fp_party q = party" by (auto simp: findCollectionParty_def)
    then have ow: "owned_by party o' s" using owned_first [OF fund_ok_chains [OF assms], where o' = o' and party = party] by simp
    have "0 \<le> balance o' FundRefunded s" by (rule fund_balance_nonneg [OF assms])
    then have "postable party o' FundRefunded FundPending amount s \<longleftrightarrow> amount \<le> balance o' FundPending s"
      using ow a by (simp add: postable_def posting_delta_def isDebitNormalAccount_def DEBIT_NORMAL_ACCOUNTS_def)
    then show ?thesis using Inr a ow Some write_journal [OF assms _ _ refl, where amount = amount and up = FundRefunded and down = FundPending and kind = FundRefund
      and key = "RefundKey refundId" and o' = o' and party = party]
      by (auto simp: fund_recordRefund_def insertJournal_eq)
  qed (use Inr in \<open>simp add: fund_recordRefund_def\<close>)
qed (simp add: fund_recordRefund_def)

lemma fund_ok_frame:
  assumes "fund_ok s" "fi_postings s' = fi_postings s" "fi_journals s' = fi_journals s" "fi_next s \<le> fi_next s'"
  shows "fund_ok s'"
proof -
  have "chains_ok s'" using fund_ok_chains [OF assms(1)] chains_cong [OF assms(2)] by simp
  moreover have "\<forall>p \<in> set (fi_postings s'). fp_component p = None \<and> fp_id p < fi_next s' \<and> fp_journal p \<in> fj_id ` set (fi_journals s')"
    using fund_okD(2) [OF assms(1)] assms(2-4) by (metis less_le_trans)
  moreover have "\<forall>j \<in> set (fi_journals s'). fj_id j < fi_next s'" using fund_okD(4) [OF assms(1)] assms(3,4) by (metis less_le_trans)
  moreover have "distinct (map fj_key (fi_journals s'))" using fund_okD(5) [OF assms(1)] assms(3) by simp
  moreover have "\<forall>j o'. journal_balanced j o' s'" using fund_okD(6) [OF assms(1)] assms(2) by (simp add: journal_balanced_def)
  moreover have "\<forall>o'. balance o' FundPending s' + balance o' FundRefunded s' = balance o' FundCollected s'"
    using fund_okD(7) [OF assms(1)] balance_cong [OF assms(2)] by simp
  ultimately show ?thesis unfolding fund_ok_def chains_ok_def by blast
qed

lemma insertEntries_frame:
  "insertEntries es s = Inr (n, s') \<Longrightarrow> fi_postings s' = fi_postings s \<and> fi_journals s' = fi_journals s \<and> fi_next s \<le> fi_next s'"
  by (induction es arbitrary: s n) (fastforce simp: financialUuid_def bind_res_Inr split: if_splits prod.splits)+

lemma insert_items_frame:
  "insert_items b xs s = Inr s' \<Longrightarrow> fi_postings s' = fi_postings s \<and> fi_journals s' = fi_journals s \<and> fi_next s \<le> fi_next s' \<and>
     fi_entries s' = fi_entries s \<and> fi_batches s' = fi_batches s"
  by (induction xs arbitrary: s) (fastforce simp: financialUuid_def split: if_splits)+

lemma collection_fund_ok:
  assumes "fund_ok s" "recordCollection o' party collected ref s = Inr (b, s')"
  shows "fund_ok s'"
proof -
  have n: "fund_ok (s\<lparr>fi_next := Suc (fi_next s)\<rparr>)" by (rule fund_ok_frame [OF assms(1)]) simp_all
  have w: "fund_ok (journal_written FundCollection (CollectionKey ref) party o' FundPending FundCollected amount s)"
    if "CollectionKey ref \<notin> set (map fj_key (fi_journals s))" "postable party o' FundPending FundCollected amount s" for amount
    by (rule written_ok [OF assms(1) that]) simp
  show ?thesis using assms n w by (auto simp: recordCollection_eq [OF assms(1)] bind_res_Inr split: if_splits)
qed

lemma fund_refund_fund_ok:
  assumes "fund_ok s" "fund_recordRefund o' refundId amount s = Inr (b, s')"
  shows "fund_ok s'"
proof -
  have n: "fund_ok (s\<lparr>fi_next := Suc (fi_next s)\<rparr>)" by (rule fund_ok_frame [OF assms(1)]) simp_all
  have w: "fund_ok (journal_written FundRefund (RefundKey refundId) party o' FundRefunded FundPending a s)"
    if f: "findCollectionParty o' s = Some party" and k: "RefundKey refundId \<notin> set (map fj_key (fi_journals s))"
      and a: "0 \<le> a" "a \<le> balance o' FundPending s" for a party
  proof (rule written_ok [OF assms(1) k])
    obtain q where q: "first_posting o' s = Some q" "fp_party q = party" using f by (auto simp: findCollectionParty_def)
    then have "owned_by party o' s" using owned_first [OF fund_ok_chains [OF assms(1)], where o' = o' and party = party] by simp
    then show "postable party o' FundRefunded FundPending a s"
      using a fund_balance_nonneg [OF assms(1), of o' FundRefunded]
      by (simp add: postable_def posting_delta_def isDebitNormalAccount_def DEBIT_NORMAL_ACCOUNTS_def)
  qed simp
  show ?thesis using assms(2) n w assms(1)
    by (auto simp: fund_recordRefund_eq [OF assms(1)] bind_res_Inr assertNonNegativeAmount_def fin_money_def split: if_splits option.splits sum.splits)
qed

lemma ledger_refund_frame:
  assumes "ledger_recordRefund o' i a rd s = Inr (b, s')"
  shows "fi_postings s' = fi_postings s \<and> fi_journals s' = fi_journals s \<and> fi_next s \<le> fi_next s'"
  using assms
  by (auto simp: ledger_recordRefund_def bind_res_Inr Let_def split: if_splits option.splits prod.splits dest!: insertEntries_frame)

lemma reversal_frame:
  assumes "reverseSettlement now i actor reason s = Inr (b, s')"
  shows "fi_postings s' = fi_postings s \<and> fi_journals s' = fi_journals s \<and> fi_next s \<le> fi_next s' \<and> fi_entries s' = fi_entries s"
  using assms
  by (auto simp: reverseSettlement_def financialUuid_def Let_def insert_batch_def bind_res_Inr bind_res_Inl
      split: if_splits option.splits sum.splits financial_error.splits dest!: insert_items_frame)

lemma step_fund_ok:
  assumes "financial_step s s'" "fund_ok s"
  shows "fund_ok s'"
  using assms(1)
proof cases
  case (ledger_refund o' i a rd b)
  then show ?thesis using fund_ok_frame [OF assms(2)] ledger_refund_frame by blast
next
  case (reversal now i actor reason b)
  then show ?thesis using fund_ok_frame [OF assms(2)] reversal_frame by blast
qed (use collection_fund_ok [OF assms(2)] fund_refund_fund_ok [OF assms(2)] in blast)+

lemma run_fund_ok: "financial_step\<^sup>*\<^sup>* s s' \<Longrightarrow> fund_ok s \<Longrightarrow> fund_ok s'"
  by (induction rule: rtranclp_induct) (auto dest: step_fund_ok)

lemma start_fund_ok: "fi_postings s = [] \<Longrightarrow> fi_journals s = [] \<Longrightarrow> fund_ok s"
  by (simp add: fund_ok_def chain_def balance_def journal_balanced_def)

end
