(* ===== verification/Settlement_Steps.thy ===== *)
theory Settlement_Steps
  imports Fund_Invariant
begin

text \<open>
  Settlements along a run: the batches and items only grow, a reversal takes back exactly what its settlement counted, and a
  reversed settlement stays reversed.
\<close>

section \<open>The tables of settlements only grow\<close>

lemma insertPosting_batches: "insertPosting j party o' a cm amount s = Inr s' \<Longrightarrow> fi_batches s' = fi_batches s"
  by (auto simp: insertPosting_def Let_def financialUuid_def bind_res_Inr)

lemma insertJournal_batches: "insertJournal kind key o' s = (j, s') \<Longrightarrow> fi_batches s' = fi_batches s"
  by (auto simp: insertJournal_eq journal_opened_def split: if_splits)

lemma insertEntries_batches: "insertEntries es s = Inr (n, s') \<Longrightarrow> fi_batches s' = fi_batches s \<and> fi_items s' = fi_items s"
  by (induction es arbitrary: s n) (fastforce simp: financialUuid_def bind_res_Inr split: if_splits prod.splits)+

lemma emit_batches [simp]: "fi_batches (emitFinancial ev s) = fi_batches s" "fi_items (emitFinancial ev s) = fi_items s"
  by (simp_all add: emitFinancial_def)

lemma insert_items_rows:
  "insert_items n xs s = Inr s' \<Longrightarrow> fi_batches s' = fi_batches s \<and>
     (\<exists>new. fi_items s' = fi_items s @ new \<and> map si_order new = map si_order xs \<and> map si_amount new = map (\<lambda>x. - si_amount x) xs)"
proof (induction xs arbitrary: s)
  case (Cons x xs)
  then show ?case by (fastforce simp: financialUuid_def split: if_splits)
qed simp

lemma reversal_effect:
  assumes "reverseSettlement now i actor reason s = Inr (b, s')"
  obtains original where "findSettlement i s = Some original" "sb_kind original = SettlementBatch" "sb_partyType original \<noteq> LedgerPlatform"
    "b = reversal_batch (fi_next s) now actor reason original" "fi_batches s' = fi_batches s @ [b]"
    "\<exists>new. fi_items s' = fi_items s @ new \<and> map si_order new = map si_order (itemsFor i s) \<and>
       map si_amount new = map (\<lambda>x. - si_amount x) (itemsFor i s)"
  using assms that
  by (auto simp: reverseSettlement_def financialUuid_def Let_def insert_batch_def bind_res_Inr bind_res_Inl settlement_check_def
      reversal_batch_def split: if_splits option.splits sum.splits financial_error.splits dest!: insert_items_rows)

lemma step_batches:
  assumes "financial_step s s'"
  shows "\<exists>new. fi_batches s' = fi_batches s @ new"
  using assms
proof cases
  case (collection o' party collected ref b)
  then have "fi_batches s' = fi_batches s"
    by (auto simp: recordCollection_def commit_journal_def bind_res_Inr split: if_splits option.splits prod.splits
        dest!: insertPosting_batches insertJournal_batches)
  then show ?thesis by simp
next
  case (fund_refund o' refundId amount b)
  then have "fi_batches s' = fi_batches s"
    by (auto simp: fund_recordRefund_def commit_journal_def bind_res_Inr split: if_splits option.splits prod.splits
        dest!: insertPosting_batches insertJournal_batches)
  then show ?thesis by simp
next
  case (ledger_refund o' refundId amount rd b)
  then have "fi_batches s' = fi_batches s"
    by (auto simp: ledger_recordRefund_def bind_res_Inr Let_def split: if_splits option.splits prod.splits dest!: insertEntries_batches)
  then show ?thesis by simp
next
  case (reversal now i actor reason b)
  then show ?thesis by (auto elim: reversal_effect)
qed

lemma run_batches: "financial_step\<^sup>*\<^sup>* s s' \<Longrightarrow> \<exists>new. fi_batches s' = fi_batches s @ new"
proof (induction rule: rtranclp_induct)
  case (step y z)
  then show ?case using step_batches [OF step.hyps(2)] by auto
qed simp

section \<open>What a reversal changes\<close>

lemma sum_items_map:
  "map si_order xs = map si_order ys \<Longrightarrow> map si_amount xs = map (\<lambda>x. - si_amount x) ys \<Longrightarrow>
     sum_list (map si_amount (filter (\<lambda>i. si_order i = o') xs)) = - sum_list (map si_amount (filter (\<lambda>i. si_order i = o') ys))"
proof (induction xs arbitrary: ys)
  case (Cons x xs)
  then show ?case by (cases ys) auto
qed simp

lemma sum_sorted: "sum_list (map f (filter P (sort_key k xs))) = sum_list (map (f :: 'a \<Rightarrow> int) (filter P xs))"
proof -
  have "sum_list (map f (filter P (sort_key k xs))) = sum_mset (image_mset f (filter_mset P (mset (sort_key k xs))))"
    by (metis mset_filter mset_map sum_mset_sum_list)
  also have "\<dots> = sum_list (map f (filter P xs))" by (metis mset_filter mset_map mset_sort sum_mset_sum_list)
  finally show ?thesis .
qed

lemma reversal_settled:
  assumes "reverseSettlement now i actor reason s = Inr (b, s')"
  shows "settledForOrder o' s' = settledForOrder o' s -
      sum_list (map si_amount (filter (\<lambda>x. si_settlement x = i \<and> si_order x = o') (fi_items s)))"
    "legacySettled pt pid s' = legacySettled pt pid s + (if sb_partyType b = pt \<and> sb_partyId b = pid then sb_amount b else 0)"
proof -
  obtain new where new: "fi_items s' = fi_items s @ new" "map si_order new = map si_order (itemsFor i s)"
      "map si_amount new = map (\<lambda>x. - si_amount x) (itemsFor i s)"
    by (rule reversal_effect [OF assms]) blast
  have "sum_list (map si_amount (filter (\<lambda>x. si_order x = o') new)) =
      - sum_list (map si_amount (filter (\<lambda>x. si_order x = o') (itemsFor i s)))" by (rule sum_items_map [OF new(2,3)])
  also have "\<dots> = - sum_list (map si_amount (filter (\<lambda>x. si_settlement x = i \<and> si_order x = o') (fi_items s)))"
    by (simp add: itemsFor_def sum_sorted)
  finally show "settledForOrder o' s' = settledForOrder o' s -
      sum_list (map si_amount (filter (\<lambda>x. si_settlement x = i \<and> si_order x = o') (fi_items s)))"
    by (simp add: settledForOrder_def new(1))
  show "legacySettled pt pid s' = legacySettled pt pid s + (if sb_partyType b = pt \<and> sb_partyId b = pid then sb_amount b else 0)"
    by (rule reversal_effect [OF assms]) (simp add: legacySettled_def)
qed

lemma reversed_again:
  assumes "reverseSettlement now i actor reason s = Inr (b, s1)" "financial_step\<^sup>*\<^sup>* s1 s2"
  shows "reverseSettlement now' i actor' reason' s2 = Inl (SettlementRejected ''reversed already'')"
proof -
  obtain original where e: "findSettlement i s = Some original" "sb_kind original = SettlementBatch" "sb_partyType original \<noteq> LedgerPlatform"
    "b = reversal_batch (fi_next s) now actor reason original" "fi_batches s1 = fi_batches s @ [b]"
    by (rule reversal_effect [OF assms(1)])
  obtain new where new: "fi_batches s2 = fi_batches s1 @ new" using run_batches [OF assms(2)] by blast
  have i: "sb_id original = i" using e(1) tget_SomeD by (fastforce simp: findSettlement_def)
  have f: "findSettlement i s2 = Some original" using e(1,5) new by (simp add: findSettlement_def tget_append)
  have "list_ex (\<lambda>x. sb_kind x = ReversalBatch \<and> sb_reverses x = Some i) (fi_batches s2)"
    using e(4,5) new i by (simp add: reversal_batch_def)
  then show ?thesis using f e(2,3) i
    by (simp add: reverseSettlement_def financialUuid_def Let_def insert_batch_def settlement_check_def reversal_batch_def)
qed

end
