(* ===== verification/Ledger_Reversal.thy ===== *)
theory Ledger_Reversal
  imports Financial_Ledger
begin

text \<open>
  The reversal of legacy orders: after every refund the ledger carries the exact split of what remains, provided the
  refund read what it changes; and what happens when it did not, or when older rows were rounded differently.
\<close>

section \<open>The split of a remainder\<close>

definition share :: "int \<Rightarrow> int \<Rightarrow> int" where
  "share n bp = (2 * (n * bp) + 10000) div 20000"

lemma share_0 [simp]: "share 0 bp = 0"
  by (simp add: share_def)

lemma share_mono:
  assumes "m \<le> n" "0 \<le> bp"
  shows "share m bp \<le> share n bp"
proof -
  have "m * bp \<le> n * bp" using assms by (rule mult_right_mono)
  then show ?thesis unfolding share_def by (intro zdiv_mono1) simp_all
qed

lemma rest_mono:
  assumes "m \<le> n" "bp \<le> 10000"
  shows "m - share m bp \<le> n - share n bp"
proof -
  have "(n - m) * bp \<le> (n - m) * 10000" using assms by (intro mult_left_mono) simp_all
  then have "2 * (n * bp) + 10000 \<le> 2 * (m * bp) + 10000 + (n - m) * 20000" by (simp add: algebra_simps)
  then have "share n bp \<le> (2 * (m * bp) + 10000 + (n - m) * 20000) div 20000" unfolding share_def by (intro zdiv_mono1) simp_all
  also have "\<dots> = share m bp + (n - m)" unfolding share_def by simp
  finally show ?thesis by simp
qed

definition safe_total :: "int \<Rightarrow> int \<Rightarrow> bool" where
  "safe_total n bp \<longleftrightarrow> valid_amount n \<and> \<bar>n * bp\<bar> < 2 ^ 53"

lemma split_share:
  assumes "0 \<le> n" "valid_rate bp" "safe_total n bp"
  shows "splitExact (Fin (of_int n)) (Fin (of_int bp)) = Inr \<lparr>es_part = share n bp, es_remainder = n - share n bp\<rparr>"
proof -
  have "0 \<le> n * bp" using assms by (simp add: valid_rate_def)
  moreover have "sgn p * ((2 * \<bar>p\<bar> + 10000) div 20000) = (2 * p + 10000) div 20000" if "0 \<le> p" for p :: int
    using that by (cases "p = 0") simp_all
  ultimately have "exact_percent n bp = share n bp" unfolding exact_percent_def share_def by blast
  moreover have "roundHalf (js_percent n bp) = exact_percent n bp"
    using assms(3) by (intro roundHalf_js_percent_exact) (simp add: safe_total_def)
  moreover have "valid_amount n" using assms(3) by (simp add: safe_total_def)
  ultimately show ?thesis using splitExact_valid [of n bp] assms(2) by simp
qed

lemma safe_total_mono: "safe_total n bp \<Longrightarrow> 0 \<le> m \<Longrightarrow> m \<le> n \<Longrightarrow> 0 \<le> bp \<Longrightarrow> safe_total m bp"
proof -
  assume a: "safe_total n bp" "0 \<le> m" "m \<le> n" "0 \<le> bp"
  then have "m * bp \<le> n * bp" "0 \<le> m * bp" by (simp_all add: mult_right_mono)
  then show ?thesis using a by (simp add: safe_total_def valid_amount_abs)
qed

section \<open>What an order carries\<close>

definition carried :: "ledger_entry_type \<Rightarrow> nat \<Rightarrow> financial_db \<Rightarrow> int" where
  "carried t o' s = sum_list (map le_amount (filter (\<lambda>e. le_type e = t) (orders_entries o' (fi_entries s))))"

definition legacy_order :: "nat \<Rightarrow> ledger_entry \<Rightarrow> ledger_entry \<Rightarrow> financial_db \<Rightarrow> bool" where
  "legacy_order o' c r s \<longleftrightarrow>
     filter (\<lambda>e. le_refType e = OrderPaymentRef \<and> le_type e = CommissionEntry) (orders_entries o' (fi_entries s)) = [c] \<and>
     filter (\<lambda>e. le_refType e = OrderPaymentRef \<and> le_type e = ReceivableEntry) (orders_entries o' (fi_entries s)) = [r] \<and>
     valid_rate (le_rate c) \<and> le_partyType r \<noteq> LedgerPlatform \<and> le_partyId r \<noteq> None"

definition refund_known :: "nat \<Rightarrow> financial_db \<Rightarrow> bool" where
  "refund_known i s \<longleftrightarrow> (\<exists>e \<in> set (fi_entries s). le_refType e = OrderRefundRef \<and> le_refId e = i)"

lemma find_of_filter: "filter P xs = [x] \<Longrightarrow> find P xs = Some x"
  by (induction xs) (auto split: if_splits)

lemma carried_parts:
  assumes "filter (\<lambda>e. le_refType e = OrderPaymentRef \<and> le_type e = t) rows = [p]"
  shows "sum_list (map le_amount (filter (\<lambda>e. le_type e = t) rows)) = le_amount p + reversed_sum t rows"
proof -
  have n: "(le_refType e = OrderRefundRef) = (\<not> le_refType e = OrderPaymentRef)" for e :: ledger_entry
    by (cases "le_refType e") auto
  have "sum_list (map le_amount (filter (\<lambda>e. le_type e = t) rows)) =
      sum_list (map le_amount (filter (\<lambda>e. le_refType e = OrderPaymentRef \<and> le_type e = t) rows)) + reversed_sum t rows"
    unfolding reversed_sum_def by (induction rows) (auto simp: n)
  then show ?thesis using assms by simp
qed

lemma reversal_parts_of:
  assumes "legacy_order o' c r s" "rows = orders_entries o' (fi_entries s)" "n = carried CommissionEntry o' s + carried ReceivableEntry o' s - a"
    "0 \<le> n" "safe_total n (le_rate c)"
  shows "reversal_parts c r rows a = Inr (share n (le_rate c) - carried CommissionEntry o' s, n - share n (le_rate c) - carried ReceivableEntry o' s)"
proof -
  have c: "carried CommissionEntry o' s = le_amount c + reversed_sum CommissionEntry rows"
    "carried ReceivableEntry o' s = le_amount r + reversed_sum ReceivableEntry rows"
    unfolding carried_def assms(2) using assms(1) by (auto simp: legacy_order_def intro!: carried_parts)
  have e: "le_amount c + le_amount r - - (reversed_sum CommissionEntry rows + reversed_sum ReceivableEntry rows) - a = n"
    using assms(3) c by simp
  have v: "valid_rate (le_rate c)" using assms(1) by (simp add: legacy_order_def)
  show ?thesis unfolding reversal_parts_def Let_def e
    using split_share [OF assms(4) v assms(5)] c by simp
qed

lemma insert_pair:
  assumes "\<not> refund_known i s" "valid_rate (le_rate c)" "le_partyType r \<noteq> LedgerPlatform" "le_partyId r \<noteq> None"
  shows "insertEntries (reversal_entries o' i c r (p, q)) s =
    (if p \<le> 0 \<and> q \<le> 0
     then Inr (2, s\<lparr>fi_entries := fi_entries s @ [hd (reversal_entries o' i c r (p, q))\<lparr>le_id := fi_next s\<rparr>,
        last (reversal_entries o' i c r (p, q))\<lparr>le_id := Suc (fi_next s)\<rparr>], fi_next := Suc (Suc (fi_next s))\<rparr>)
     else Inl (FinCheck ''ledger_entries''))"
proof -
  have k: "(t, OrderRefundRef, i) \<notin> entry_key ` set (fi_entries s)" for t
    using assms(1) by (auto simp: refund_known_def entry_key_def)
  show ?thesis using k assms(2-4)
    by (auto simp: reversal_entries_def financialUuid_def ledger_entry_ok_def entry_key_def valid_rate_def money_bounds numeral_2_eq_2)
qed

lemma carried_append:
  "carried t o' (s\<lparr>fi_entries := fi_entries s @ es, fi_next := n\<rparr>) =
     carried t o' s + sum_list (map le_amount (filter (\<lambda>e. le_type e = t) (orders_entries o' es)))"
  by (simp add: carried_def orders_entries_def)

section \<open>One refund\<close>

lemma assert_positive: "valid_amount a \<Longrightarrow> 0 < a \<Longrightarrow> assertNonNegativeAmount (Fin (of_int a)) l = Inr a"
  by (simp add: assertNonNegativeAmount_def assertAmount_Fin_int)

text \<open>A refund that reads \<open>s0\<close> and writes \<open>s\<close> posts the difference between the split of what would remain and what it read.\<close>

definition after_reversal :: "nat \<Rightarrow> nat \<Rightarrow> ledger_entry \<Rightarrow> ledger_entry \<Rightarrow> int \<times> int \<Rightarrow> financial_db \<Rightarrow> financial_db" where
  "after_reversal o' i c r parts s = emitFinancial (LedgerEntriesRecorded o' i (fst parts) (snd parts) (le_rate c))
     (s\<lparr>fi_entries := fi_entries s @ [hd (reversal_entries o' i c r parts)\<lparr>le_id := fi_next s\<rparr>,
        last (reversal_entries o' i c r parts)\<lparr>le_id := Suc (fi_next s)\<rparr>], fi_next := Suc (Suc (fi_next s))\<rparr>)"

lemma refund_step:
  assumes l: "legacy_order o' c r s0" and new: "\<not> refund_known i s" and a: "valid_amount a" "0 < a"
    and n: "n = carried CommissionEntry o' s0 + carried ReceivableEntry o' s0 - a" "0 \<le> n" "safe_total n (le_rate c)"
  defines "dc \<equiv> share n (le_rate c) - carried CommissionEntry o' s0" and "dr \<equiv> n - share n (le_rate c) - carried ReceivableEntry o' s0"
  shows "ledger_recordRefund o' i (Fin (of_int a)) (fi_entries s0) s =
    (if dc \<le> 0 \<and> dr \<le> 0 then Inr (True, after_reversal o' i c r (dc, dr) s) else Inl (FinCheck ''ledger_entries''))"
proof -
  let ?rows = "orders_entries o' (fi_entries s0)"
  have p: "payment_entry CommissionEntry ?rows = Some c" "payment_entry ReceivableEntry ?rows = Some r"
    using l by (auto simp: payment_entry_def legacy_order_def intro!: find_of_filter)
  have q: "reversal_parts c r ?rows a = Inr (dc, dr)"
    unfolding dc_def dr_def by (rule reversal_parts_of [OF l refl n])
  have v: "valid_rate (le_rate c)" "le_partyType r \<noteq> LedgerPlatform" "le_partyId r \<noteq> None" using l by (simp_all add: legacy_order_def)
  show ?thesis
    using p q a by (simp add: ledger_recordRefund_def assert_positive insert_pair [OF new v] after_reversal_def Let_def)
qed

lemma carried_after:
  "carried CommissionEntry o' (after_reversal o' i c r (dc, dr) s) = carried CommissionEntry o' s + dc"
  "carried ReceivableEntry o' (after_reversal o' i c r (dc, dr) s) = carried ReceivableEntry o' s + dr"
  by (simp_all add: after_reversal_def carried_def orders_entries_def reversal_entries_def emitFinancial_def)

lemma legacy_after:
  assumes "legacy_order o' c r s"
  shows "legacy_order o' c r (after_reversal o'' i c' r' parts s)"
  using assms by (simp add: legacy_order_def after_reversal_def orders_entries_def reversal_entries_def emitFinancial_def)

lemma known_after: "refund_known j (after_reversal o' i c r parts s) \<longleftrightarrow> j = i \<or> refund_known j s"
  by (auto simp: refund_known_def after_reversal_def reversal_entries_def emitFinancial_def)

text \<open>A refund that is known writes no row and tells nobody, whatever it read.\<close>

definition refund_posted :: "nat \<Rightarrow> financial_db \<Rightarrow> bool" where
  "refund_posted i s \<longleftrightarrow> {(CommissionEntry, OrderRefundRef, i), (ReceivableEntry, OrderRefundRef, i)} \<subseteq> set (map entry_key (fi_entries s))"

lemma insert_known:
  "\<forall>e \<in> set es. entry_key e \<in> set (map entry_key (fi_entries s)) \<Longrightarrow> insertEntries es s = Inr (n, s') \<Longrightarrow>
     n = 0 \<and> fi_entries s' = fi_entries s \<and> fi_outbox s' = fi_outbox s"
proof (induction es arbitrary: s n)
  case (Cons e es)
  show ?case
    using Cons.prems Cons.IH [of "s\<lparr>fi_next := Suc (fi_next s)\<rparr>" n] by (auto simp: financialUuid_def split: if_splits)
qed simp

lemma posted_silent:
  assumes "refund_posted i s" "ledger_recordRefund o' i a rd s = Inr (b, s')"
  shows "\<not> b \<and> fi_entries s' = fi_entries s \<and> fi_outbox s' = fi_outbox s"
proof -
  have k: "\<forall>e \<in> set (reversal_entries o' i c r p). entry_key e \<in> set (map entry_key (fi_entries s))" for c r p
    using assms(1) by (simp add: refund_posted_def reversal_entries_def entry_key_def)
  show ?thesis using assms(2)
    by (auto simp: ledger_recordRefund_def bind_res_Inr Let_def split: if_splits option.splits prod.splits dest!: insert_known [OF k])
qed

lemma refund_posts: "refund_posted i (after_reversal o' i c r p s)"
  by (simp add: refund_posted_def after_reversal_def reversal_entries_def emitFinancial_def entry_key_def)

section \<open>A sequence of refunds\<close>

text \<open>Refunds of one order, each reading what the previous one left.\<close>

fun legacy_refunds :: "nat \<Rightarrow> (nat \<times> int) list \<Rightarrow> financial_db \<Rightarrow> financial_error + financial_db" where
  "legacy_refunds o' [] s = Inr s"
| "legacy_refunds o' ((i, a) # rs) s =
    bind_res (ledger_recordRefund o' i (Fin (of_int a)) (fi_entries s) s) (\<lambda>(_, s1). legacy_refunds o' rs s1)"

lemma refunds_carry:
  assumes "legacy_order o' c r s" "carried CommissionEntry o' s = share t (le_rate c)" "carried ReceivableEntry o' s = t - share t (le_rate c)"
    "safe_total t (le_rate c)" "\<forall>(i, a) \<in> set rs. 0 < a \<and> \<not> refund_known i s" "distinct (map fst rs)" "sum_list (map snd rs) \<le> t"
  shows "\<exists>s'. legacy_refunds o' rs s = Inr s' \<and>
    carried CommissionEntry o' s' = share (t - sum_list (map snd rs)) (le_rate c) \<and>
    carried ReceivableEntry o' s' = t - sum_list (map snd rs) - share (t - sum_list (map snd rs)) (le_rate c)"
  using assms
proof (induction rs arbitrary: s t)
  case (Cons x rs)
  obtain i a where x: "x = (i, a)" by fastforce
  let ?bp = "le_rate c"
  have a: "0 < a" "\<not> refund_known i s" using Cons.prems(5) x by auto
  have rest: "0 \<le> sum_list (map snd rs)" using Cons.prems(5) by (intro sum_list_nonneg) force
  have n: "0 \<le> t - a" using Cons.prems(7) rest x by simp
  have bp: "0 \<le> ?bp" "?bp \<le> 10000" using Cons.prems(1) by (simp_all add: legacy_order_def valid_rate_def money_bounds)
  have st: "safe_total (t - a) ?bp" using safe_total_mono [OF Cons.prems(4) n _ bp(1)] a(1) by simp
  have va: "valid_amount a" using Cons.prems(4) a(1) n by (simp add: safe_total_def valid_amount_abs)
  let ?dc = "share (t - a) ?bp - share t ?bp" and ?dr = "t - a - share (t - a) ?bp - (t - share t ?bp)"
  have sg: "?dc \<le> 0" "?dr \<le> 0"
    using share_mono [of "t - a" t ?bp] rest_mono [of "t - a" t ?bp] bp a(1) by simp_all
  let ?s = "after_reversal o' i c r (?dc, ?dr) s"
  have step: "ledger_recordRefund o' i (Fin (of_int a)) (fi_entries s) s = Inr (True, ?s)"
    using refund_step [OF Cons.prems(1) a(2) va a(1), of "t - a"] Cons.prems(2,3) n st sg by simp
  have "\<exists>s'. legacy_refunds o' rs ?s = Inr s' \<and>
    carried CommissionEntry o' s' = share (t - a - sum_list (map snd rs)) ?bp \<and>
    carried ReceivableEntry o' s' = t - a - sum_list (map snd rs) - share (t - a - sum_list (map snd rs)) ?bp"
  proof (rule Cons.IH)
    show "legacy_order o' c r ?s" by (rule legacy_after [OF Cons.prems(1)])
    show "carried CommissionEntry o' ?s = share (t - a) ?bp" "carried ReceivableEntry o' ?s = t - a - share (t - a) ?bp"
      using Cons.prems(2,3) by (simp_all add: carried_after)
    show "\<forall>(j, b) \<in> set rs. 0 < b \<and> \<not> refund_known j ?s"
      using Cons.prems(5,6) x by (force simp: known_after)
    show "distinct (map fst rs)" "sum_list (map snd rs) \<le> t - a" using Cons.prems(6,7) x by simp_all
  qed (rule st)
  then show ?case using step x by (simp add: algebra_simps)
qed simp

text \<open>The first refund of a sequence decides: it is refused when a side of the new split exceeds what the order carries, and
  leaves the exact split otherwise.\<close>

lemma refunds_heal:
  assumes "legacy_order o' c r s" "carried CommissionEntry o' s + carried ReceivableEntry o' s = t" "safe_total t (le_rate c)"
    "\<forall>(j, b) \<in> set ((i, a) # rs). 0 < b \<and> \<not> refund_known j s" "distinct (map fst ((i, a) # rs))" "a + sum_list (map snd rs) \<le> t"
  shows "if share (t - a) (le_rate c) \<le> carried CommissionEntry o' s \<and> t - a - share (t - a) (le_rate c) \<le> carried ReceivableEntry o' s
    then \<exists>s'. legacy_refunds o' ((i, a) # rs) s = Inr s' \<and>
      carried CommissionEntry o' s' = share (t - a - sum_list (map snd rs)) (le_rate c) \<and>
      carried ReceivableEntry o' s' = t - a - sum_list (map snd rs) - share (t - a - sum_list (map snd rs)) (le_rate c)
    else legacy_refunds o' ((i, a) # rs) s = Inl (FinCheck ''ledger_entries'')"
proof -
  let ?bp = "le_rate c" and ?n = "t - a"
  let ?dc = "share ?n ?bp - carried CommissionEntry o' s" and ?dr = "?n - share ?n ?bp - carried ReceivableEntry o' s"
  let ?s = "after_reversal o' i c r (?dc, ?dr) s"
  have a: "0 < a" "\<not> refund_known i s" using assms(4) by auto
  have "0 \<le> sum_list (map snd rs)" using assms(4) by (intro sum_list_nonneg) force
  then have n: "0 \<le> ?n" using assms(6) by simp
  have bp: "0 \<le> ?bp" using assms(1) by (simp add: legacy_order_def valid_rate_def)
  have st: "safe_total ?n ?bp" using safe_total_mono [OF assms(3) n _ bp] a(1) by simp
  have va: "valid_amount a" using assms(3) a(1) n by (simp add: safe_total_def valid_amount_abs)
  have step: "ledger_recordRefund o' i (Fin (of_int a)) (fi_entries s) s =
      (if ?dc \<le> 0 \<and> ?dr \<le> 0 then Inr (True, ?s) else Inl (FinCheck ''ledger_entries''))"
    using refund_step [OF assms(1) a(2) va a(1), of ?n] assms(2) n st by simp
  have "\<exists>s'. legacy_refunds o' rs ?s = Inr s' \<and>
    carried CommissionEntry o' s' = share (?n - sum_list (map snd rs)) ?bp \<and>
    carried ReceivableEntry o' s' = ?n - sum_list (map snd rs) - share (?n - sum_list (map snd rs)) ?bp"
  proof (rule refunds_carry [OF legacy_after [OF assms(1)] _ _ st])
    show "\<forall>(j, b) \<in> set rs. 0 < b \<and> \<not> refund_known j ?s" using assms(4,5) by (force simp: known_after)
  qed (use assms(5,6) in \<open>simp_all add: carried_after\<close>)
  then show ?thesis using step by auto
qed

lemma exact_split_passes:
  assumes "legacy_order o' c r s" "carried CommissionEntry o' s + carried ReceivableEntry o' s = t"
    "carried CommissionEntry o' s = share t (le_rate c)" "0 < a"
  shows "share (t - a) (le_rate c) \<le> carried CommissionEntry o' s \<and> t - a - share (t - a) (le_rate c) \<le> carried ReceivableEntry o' s"
  using share_mono [of "t - a" t "le_rate c"] rest_mono [of "t - a" t "le_rate c"] assms
  by (auto simp: legacy_order_def valid_rate_def money_bounds)

end
