(* ===== verification/Finance_Properties.thy ===== *)
theory Finance_Properties
  imports Settlement_Steps Ledger_Reversal
begin

text \<open>
  The properties of the financial service: the fund journal and its refunds, the reversal of legacy orders, settlements,
  and what the event handlers make of the order in which events arrive.
\<close>

section \<open>Readings\<close>

definition fund_at :: "nat \<Rightarrow> fund_account \<Rightarrow> financial_db \<Rightarrow> int" where
  "fund_at o' a s = (case statesForOrder o' s a of None \<Rightarrow> 0 | Some n \<Rightarrow> n)"

lemma states_balance:
  assumes "fund_ok s"
  shows "statesForOrder o' s a = (if chain o' a s = [] then None else Some (balance o' a s))"
proof -
  have "\<forall>p \<in> set (fi_postings s). fp_component p = None" using assms by (simp add: fund_ok_def)
  then have "filter (\<lambda>p. fp_order p = o' \<and> fp_account p = a) (fi_postings s) = chain o' a s"
    unfolding chain_def in_chain_def by (intro filter_cong) auto
  moreover have c: "chain_from 0 0 (chain o' a s)" by (rule fund_okD(1) [OF assms])
  ultimately have "latest fp_seq (\<lambda>p. fp_order p = o' \<and> fp_account p = a) (fi_postings s) = (if chain o' a s = [] then None else Some (last (chain o' a s)))"
    using chain_from_sorted [OF c] unfolding latest_def by (cases "chain o' a s" rule: rev_cases) (auto split: list.splits)
  then show ?thesis using chain_from_last [OF c] by (simp add: statesForOrder_def balance_def)
qed

lemma fund_at_balance: "fund_ok s \<Longrightarrow> fund_at o' a s = balance o' a s"
  by (simp add: fund_at_def states_balance balance_def)

text \<open>A run of the service from tables without a journal; the legacy entries and settlements are arbitrary.\<close>

definition financial_run :: "financial_db \<Rightarrow> financial_db \<Rightarrow> bool" where
  "financial_run s0 s \<longleftrightarrow> fi_postings s0 = [] \<and> fi_journals s0 = [] \<and> financial_step\<^sup>*\<^sup>* s0 s"

lemma run_ok: "financial_run s0 s \<Longrightarrow> fund_ok s"
  unfolding financial_run_def using run_fund_ok start_fund_ok by blast

lemma run_next: "financial_run s0 s \<Longrightarrow> financial_step s s' \<Longrightarrow> financial_run s0 s'"
  unfolding financial_run_def by (meson rtranclp.rtrancl_into_rtrancl)

section \<open>A small book\<close>

definition book_seller :: seller_party where "book_seller = (ProfessionalParty, 3)"

definition book_paid :: financial_db where
  "book_paid = journal_written FundCollection (CollectionKey 5) book_seller 7 FundPending FundCollected 1000 empty_financial"

lemma book_run0: "financial_run empty_financial empty_financial"
  by (simp add: financial_run_def empty_financial_def)

lemma empty_balance [simp]: "balance o' a empty_financial = 0" "fi_journals empty_financial = []"
  by (simp_all add: balance_def chain_def empty_financial_def)

lemma book_collects: "recordCollection 7 book_seller (Fin (of_int 1000)) 5 empty_financial = Inr (True, book_paid)"
proof -
  have ok: "fund_ok empty_financial" by (rule run_ok [OF book_run0])
  have p: "postable book_seller 7 FundPending FundCollected 1000 empty_financial"
    by (simp add: postable_def posting_delta_def isDebitNormalAccount_def DEBIT_NORMAL_ACCOUNTS_def owned_by_def)
       (simp add: empty_financial_def)
  have v: "assertNonNegativeAmount (Fin (of_int 1000)) ''collected amount'' = Inr 1000"
    by (rule assert_positive) (simp_all add: valid_amount_def money_bounds)
  show ?thesis unfolding recordCollection_eq [OF ok] v using p by (simp add: book_paid_def)
qed

lemma book_states: "fund_at 7 a book_paid = (if a \<in> {FundPending, FundCollected} then 1000 else 0)"
proof -
  have ok: "fund_ok book_paid" by (rule collection_fund_ok [OF run_ok [OF book_run0] book_collects])
  show ?thesis by (simp add: fund_at_balance [OF ok])
     (simp add: book_paid_def written_tables(4) posting_delta_def isDebitNormalAccount_def DEBIT_NORMAL_ACCOUNTS_def)
qed

lemma book_run: "financial_run empty_financial book_paid"
  by (rule run_next [OF book_run0 financial_step.collection [OF book_collects]])

section \<open>Properties of the fund journal\<close>

text \<open>C24: In every state that the financial service reaches from an empty journal, what an order collected is what is
  pending plus what was refunded, no account is below zero, every journal sums to zero, no idempotency key is there twice, and all
  postings of an order name one seller.\<close>

theorem fund_journal_agrees:
  assumes "financial_run s0 s"
  shows "fund_at o' FundPending s + fund_at o' FundRefunded s = fund_at o' FundCollected s \<and>
    0 \<le> fund_at o' a s \<and> journal_balanced j o' s \<and> distinct (map fj_key (fi_journals s)) \<and>
    (\<exists>party. owned_by party o' s)"
proof -
  have ok: "fund_ok s" by (rule run_ok [OF assms])
  have "\<exists>party. owned_by party o' s"
  proof (cases "\<exists>p \<in> set (fi_postings s). fp_order p = o'")
    case True
    then obtain p where p: "p \<in> set (fi_postings s)" "fp_order p = o'" by blast
    have "owned_by (fp_party p) o' s"
      unfolding owned_by_def by (intro ballI impI) (rule fund_okD(3) [OF ok _ p(1)], simp_all add: p(2))
    then show ?thesis by blast
  qed (auto simp: owned_by_def)
  then show ?thesis
    using fund_okD(5,6,7) [OF ok] fund_balance_nonneg [OF ok] by (simp add: fund_at_balance [OF ok])
qed

theorem fund_journal_agrees_witness:
  "fund_at 7 FundPending book_paid + fund_at 7 FundRefunded book_paid = fund_at 7 FundCollected book_paid \<and>
     fund_at 7 FundCollected book_paid = 1000"
  using fund_journal_agrees [OF book_run, of 7 FundCollected 0] by (simp add: book_states)

text \<open>C25: A refund of a collected order is recorded exactly once and exactly when it is at most what is pending: it moves its
  amount from pending to refunded and leaves the collected amount; a larger one is an error that rolls back; a refund that was recorded
  before writes no journal, no posting and no event.\<close>

theorem fund_refund_exact:
  assumes "financial_run s0 s" "hasCollection o' s" "valid_amount a" "0 < a"
  shows "if RefundKey i \<in> set (map fj_key (fi_journals s))
    then \<exists>s'. fund_recordRefund o' i (Fin (of_int a)) s = Inr (False, s') \<and> fi_journals s' = fi_journals s \<and>
      fi_postings s' = fi_postings s \<and> fi_outbox s' = fi_outbox s
    else if a \<le> fund_at o' FundPending s
    then \<exists>s'. fund_recordRefund o' i (Fin (of_int a)) s = Inr (True, s') \<and> fund_at o' FundPending s' = fund_at o' FundPending s - a \<and>
      fund_at o' FundRefunded s' = fund_at o' FundRefunded s + a \<and> fund_at o' FundCollected s' = fund_at o' FundCollected s
    else fund_recordRefund o' i (Fin (of_int a)) s = Inl (FinCheck ''fund_postings'')"
proof -
  have ok: "fund_ok s" by (rule run_ok [OF assms(1)])
  obtain party where p: "findCollectionParty o' s = Some party" using assms(2) by (auto simp: hasCollection_def)
  let ?w = "journal_written FundRefund (RefundKey i) party o' FundRefunded FundPending a s"
  have e: "fund_recordRefund o' i (Fin (of_int a)) s =
      (if RefundKey i \<in> set (map fj_key (fi_journals s)) then Inr (False, s\<lparr>fi_next := Suc (fi_next s)\<rparr>)
       else if a \<le> balance o' FundPending s then Inr (True, ?w) else Inl (FinCheck ''fund_postings''))"
    using assms(3,4) p by (simp add: fund_recordRefund_eq [OF ok] assert_positive)
  show ?thesis
  proof (cases "RefundKey i \<in> set (map fj_key (fi_journals s))")
    case False
    show ?thesis
    proof (cases "a \<le> balance o' FundPending s")
      case True
      have ok': "fund_ok ?w" by (rule fund_refund_fund_ok [OF ok, of o' i "Fin (of_int a)" True]) (use e True False in simp)
      show ?thesis using e True False
        by (simp add: fund_at_balance [OF ok] fund_at_balance [OF ok'] written_tables(4) posting_delta_def isDebitNormalAccount_def DEBIT_NORMAL_ACCOUNTS_def)
    qed (use e False in \<open>simp add: fund_at_balance [OF ok]\<close>)
  qed (use e in simp)
qed

theorem fund_refund_exact_witness:
  "\<exists>s'. fund_recordRefund 7 9 (Fin (of_int 400)) book_paid = Inr (True, s') \<and> fund_at 7 FundPending s' = 600 \<and> fund_at 7 FundRefunded s' = 400"
proof -
  have k: "RefundKey 9 \<notin> set (map fj_key (fi_journals book_paid))" by (simp add: book_paid_def written_tables(1))
  have h: "hasCollection 7 book_paid"
    by (simp add: hasCollection_def findCollectionParty_def first_posting_def book_paid_def journal_written_def Let_def
        add_posting_def new_posting_def empty_financial_def insort_key_def)
  show ?thesis using fund_refund_exact [OF book_run h, of 400 9] k by (auto simp: book_states valid_amount_def money_bounds)
qed

text \<open>C26: \<open>OrderRefundedLedgerHandler\<close> answers success without a trace when the collection of the order has not been
  recorded yet. The relay then marks the event as published, and the collection that is recorded later leaves the whole
  amount pending: the refund is never in the journal.\<close>

theorem early_refund_is_lost:
  assumes "financial_run s0 s" "\<not> hasLegacyPayment o' s" "\<not> hasCollection o' s" "valid_amount a" "0 < a"
    and "findLiveIntentForOrder o' ps = Some it" "CollectionKey (pi_id it) \<notin> set (map fj_key (fi_journals s))" "valid_amount c" "0 < c"
  shows "handle_order_refunded o' i (Fin (of_int a)) rd s = Inr s \<and>
    (\<exists>s'. handle_order_paid o' party (Some (Fin (of_int c))) t ps s = Inr s' \<and>
       fund_at o' FundPending s' = c \<and> fund_at o' FundRefunded s' = 0)"
proof -
  have ok: "fund_ok s" by (rule run_ok [OF assms(1)])
  have n: "findCollectionParty o' s = None" using assms(3) unfolding hasCollection_def by blast
  then have none: "\<forall>p \<in> set (fi_postings s). fp_order p \<noteq> o'"
    using first_posting_cases(1) [of o' s] by (simp add: findCollectionParty_def)
  then have b: "balance o' x s = 0" for x by (auto simp: balance_def chain_def in_chain_def filter_empty_conv intro!: sum_list_0)
  have ow: "owned_by party o' s" using none by (simp add: owned_by_def)
  let ?w = "journal_written FundCollection (CollectionKey (pi_id it)) party o' FundPending FundCollected c s"
  have p: "postable party o' FundPending FundCollected c s"
    using ow assms(9) by (simp add: postable_def b posting_delta_def isDebitNormalAccount_def DEBIT_NORMAL_ACCOUNTS_def)
  have e: "recordCollection o' party (Fin (of_int c)) (pi_id it) s = Inr (True, ?w)"
    using assms(7-9) p by (simp add: recordCollection_eq [OF ok] assert_positive)
  have ok': "fund_ok ?w" by (rule collection_fund_ok [OF ok e])
  have "handle_order_refunded o' i (Fin (of_int a)) rd s = Inr s"
    using assms(2,4,5) n by (simp add: handle_order_refunded_def fund_recordRefund_eq [OF ok] assert_positive)
  moreover have "handle_order_paid o' party (Some (Fin (of_int c))) t ps s = Inr ?w"
    using assms(6) e by (simp add: handle_order_paid_def collectedToman_def)
  ultimately show ?thesis
    using b by (simp add: fund_at_balance [OF ok'] written_tables(4) posting_delta_def isDebitNormalAccount_def DEBIT_NORMAL_ACCOUNTS_def)
qed

definition book_intents :: payment_db where
  "book_intents = \<lparr>pm_intents = [\<lparr>pi_id = 6, pi_order = 8, pi_customer = 2, pi_amount = 500, pi_currency = ''IRT'', pi_status = IntSucceeded,
     pi_provider = ''sandbox'', pi_expiresAt = 10, pi_succeededAt = Some 4, pi_failureCode = None\<rparr>], pm_attempts = [], pm_refunds = [],
     pm_outbox = [], pm_next = 7\<rparr>"

theorem early_refund_is_lost_witness:
  "handle_order_refunded 8 3 (Fin (of_int 200)) [] book_paid = Inr book_paid \<and>
    (\<exists>s'. handle_order_paid 8 book_seller (Some (Fin (of_int 500))) None book_intents book_paid = Inr s' \<and>
       fund_at 8 FundPending s' = 500 \<and> fund_at 8 FundRefunded s' = 0)"
proof (rule early_refund_is_lost [OF book_run])
  show "\<not> hasLegacyPayment 8 book_paid"
    by (simp add: hasLegacyPayment_def book_paid_def journal_written_def Let_def add_posting_def empty_financial_def)
  show "\<not> hasCollection 8 book_paid"
    by (simp add: hasCollection_def findCollectionParty_def first_posting_def book_paid_def journal_written_def Let_def
        add_posting_def new_posting_def empty_financial_def)
  show "findLiveIntentForOrder 8 book_intents = Some (hd (pm_intents book_intents))"
    by (simp add: findLiveIntentForOrder_def book_intents_def live_intent_def LIVE_INTENT_STATUSES_def)
  show "CollectionKey (pi_id (hd (pm_intents book_intents))) \<notin> set (map fj_key (fi_journals book_paid))"
    by (simp add: book_paid_def written_tables(1) book_intents_def)
qed (simp_all add: valid_amount_def money_bounds)

section \<open>Properties of the legacy ledger\<close>

text \<open>C27: Refunds of a legacy order, each reading what the previous one left. Let the ledger of the order carry its original
  commission and receivable rows and any rounding in between, with a total \<open>t\<close> so small that the rate times it is exact in doubles (below
  \<open>2^53\<close>), and let the refunds be new, positive and together at most \<open>t\<close>. The first is refused by the sign check exactly when one side of
  the half-up split of what would remain exceeds what that side carries, which cannot happen when the order carries the exact split of
  \<open>t\<close>. When the first passes, none fails, and after them the ledger carries the exact split of what remains at the original rate: both
  sides are zero after the full amount, as in the example of the comment (50 and 51 of 101 at 15 percent).\<close>

theorem legacy_refunds_leave_split:
  assumes "legacy_order o' c r s" "carried CommissionEntry o' s + carried ReceivableEntry o' s = t" "safe_total t (le_rate c)"
    "\<forall>(j, b) \<in> set ((i, a) # rs). 0 < b \<and> \<not> refund_known j s" "distinct (map fst ((i, a) # rs))" "a + sum_list (map snd rs) \<le> t"
  shows "(if share (t - a) (le_rate c) \<le> carried CommissionEntry o' s \<and> t - a - share (t - a) (le_rate c) \<le> carried ReceivableEntry o' s
      then \<exists>s'. legacy_refunds o' ((i, a) # rs) s = Inr s' \<and>
        carried CommissionEntry o' s' = share (t - a - sum_list (map snd rs)) (le_rate c) \<and>
        carried ReceivableEntry o' s' = t - a - sum_list (map snd rs) - share (t - a - sum_list (map snd rs)) (le_rate c) \<and>
        orderReceivableNet o' s' = carried ReceivableEntry o' s'
      else legacy_refunds o' ((i, a) # rs) s = Inl (FinCheck ''ledger_entries'')) \<and>
    (carried CommissionEntry o' s = share t (le_rate c) \<longrightarrow>
      share (t - a) (le_rate c) \<le> carried CommissionEntry o' s \<and> t - a - share (t - a) (le_rate c) \<le> carried ReceivableEntry o' s)"
proof -
  have "orderReceivableNet o' s' = carried ReceivableEntry o' s'" for s'
    by (simp add: orderReceivableNet_def sumAmount_def carried_def orders_entries_def conj_commute)
  then show ?thesis using refunds_heal [OF assms] exact_split_passes [OF assms(1,2)] assms(4-6) by (auto split: if_splits)
qed

definition old_entry :: "ledger_entry_type \<Rightarrow> int \<Rightarrow> ledger_reference \<Rightarrow> nat \<Rightarrow> nat \<Rightarrow> ledger_entry" where
  "old_entry t a ref i n = \<lparr>le_id = n, le_order = 7, le_source = None, le_partyType = (if t = CommissionEntry then LedgerPlatform else LedgerBusiness),
     le_partyId = (if t = CommissionEntry then None else Some 4), le_type = t, le_amount = a, le_basis = LEGACY_BASIS, le_rate = 1500,
     le_refType = ref, le_refId = i\<rparr>"

definition old_book :: financial_db where
  "old_book = empty_financial\<lparr>fi_entries := [old_entry CommissionEntry 15 OrderPaymentRef 9 0, old_entry ReceivableEntry 86 OrderPaymentRef 9 2], fi_next := 3\<rparr>"

lemma old_order:
  "legacy_order 7 (old_entry CommissionEntry 15 OrderPaymentRef 9 0) (old_entry ReceivableEntry 86 OrderPaymentRef 9 2) old_book"
  "carried CommissionEntry 7 old_book = 15" "carried ReceivableEntry 7 old_book = 86" "\<not> refund_known i old_book"
  "le_rate (old_entry x a ref k m) = 1500"
  by (simp_all add: legacy_order_def old_book_def orders_entries_def old_entry_def valid_rate_def money_bounds carried_def refund_known_def)

lemma share_values: "share 101 1500 = 15" "share 51 1500 = 8" "share 50 1500 = 8" "safe_total 101 1500" "safe_total 51 1500" "safe_total 50 1500"
  by (simp_all add: share_def safe_total_def valid_amount_def money_bounds)

theorem legacy_refunds_leave_split_witness:
  "\<exists>s'. legacy_refunds 7 [(11, 50), (12, 51)] old_book = Inr s' \<and> carried CommissionEntry 7 s' = 0 \<and> carried ReceivableEntry 7 s' = 0"
  using legacy_refunds_leave_split [OF old_order(1), of 101 11 50 "[(12, 51)]"]
  by (simp add: old_order(2-) share_values del: legacy_refunds.simps) blast

text \<open>\<open>recordRefund\<close> reads the ledger before its transaction and without a lock. Two refunds that together
  give back the whole order and read the same rows are both recorded, and leave a commission of
  \<open>share a + share b - share (a + b)\<close> and its negative as receivable: one Toman each for 50 and 51 of 101, although the comment
  promises exactly zero.\<close>

theorem stale_refunds_leave_residue:
  assumes "legacy_order o' c r s" "carried CommissionEntry o' s = share (a + b) (le_rate c)"
    "carried ReceivableEntry o' s = a + b - share (a + b) (le_rate c)" "safe_total (a + b) (le_rate c)" "0 < a" "0 < b" "i \<noteq> j"
    "\<not> refund_known i s" "\<not> refund_known j s"
  shows "\<exists>s1 s2. ledger_recordRefund o' i (Fin (of_int a)) (fi_entries s) s = Inr (True, s1) \<and>
    ledger_recordRefund o' j (Fin (of_int b)) (fi_entries s) s1 = Inr (True, s2) \<and>
    carried CommissionEntry o' s2 = share a (le_rate c) + share b (le_rate c) - share (a + b) (le_rate c) \<and>
    carried ReceivableEntry o' s2 = - carried CommissionEntry o' s2"
proof -
  let ?bp = "le_rate c" and ?t = "a + b"
  have bp: "0 \<le> ?bp" "?bp \<le> 10000" using assms(1) by (simp_all add: legacy_order_def valid_rate_def money_bounds)
  have v: "valid_amount a" "valid_amount b" using assms(4-6) by (simp_all add: safe_total_def valid_amount_abs)
  have st: "safe_total b ?bp" "safe_total a ?bp" using safe_total_mono [OF assms(4) _ _ bp(1)] assms(5,6) by simp_all
  have m: "share b ?bp \<le> share ?t ?bp" "share a ?bp \<le> share ?t ?bp" "b - share b ?bp \<le> ?t - share ?t ?bp" "a - share a ?bp \<le> ?t - share ?t ?bp"
    using share_mono [of b ?t ?bp] share_mono [of a ?t ?bp] rest_mono [of b ?t ?bp] rest_mono [of a ?t ?bp] bp assms(5,6) by simp_all
  let ?s1 = "after_reversal o' i c r (share b ?bp - share ?t ?bp, b - share b ?bp - (?t - share ?t ?bp)) s"
  have s1: "ledger_recordRefund o' i (Fin (of_int a)) (fi_entries s) s = Inr (True, ?s1)"
    using refund_step [OF assms(1,8) v(1) assms(5), of b] assms(2,3,6) st(1) m by simp
  have new: "\<not> refund_known j ?s1" using assms(7,9) by (simp add: known_after)
  let ?s2 = "after_reversal o' j c r (share a ?bp - share ?t ?bp, a - share a ?bp - (?t - share ?t ?bp)) ?s1"
  have s2: "ledger_recordRefund o' j (Fin (of_int b)) (fi_entries s) ?s1 = Inr (True, ?s2)"
    using refund_step [OF assms(1) new v(2) assms(6), of a] assms(2,3,5) st(2) m by simp
  show ?thesis using s1 s2 assms(2,3) by (intro exI [of _ ?s1] exI [of _ ?s2]) (simp add: carried_after)
qed

theorem stale_refunds_leave_residue_witness:
  "\<exists>s1 s2. ledger_recordRefund 7 11 (Fin (of_int 50)) (fi_entries old_book) old_book = Inr (True, s1) \<and>
     ledger_recordRefund 7 12 (Fin (of_int 51)) (fi_entries old_book) s1 = Inr (True, s2) \<and>
     carried CommissionEntry 7 s2 = 1 \<and> carried ReceivableEntry 7 s2 = - 1"
  using stale_refunds_leave_residue [OF old_order(1), of 50 51 11 12] by (auto simp: old_order(2-) share_values)

text \<open>An order whose earlier refunds were rounded on their own can carry less commission than the split of what remains:
  its next refund is refused by \<open>ck_ledger_sign\<close> on every delivery.\<close>

lemma rounded_down_refused:
  assumes "legacy_order o' c r s" "\<not> refund_known i s" "valid_amount a" "0 < a"
    "n = carried CommissionEntry o' s + carried ReceivableEntry o' s - a" "0 \<le> n" "safe_total n (le_rate c)"
    "carried CommissionEntry o' s < share n (le_rate c)"
  shows "ledger_recordRefund o' i (Fin (of_int a)) (fi_entries s) s = Inl (FinCheck ''ledger_entries'')"
  using refund_step [OF assms(1-7)] assms(8) by simp

section \<open>Properties of settlements\<close>

text \<open>C28: A reversal takes back exactly what its settlement counted: for every order the settled amount falls by the
  items of that settlement, for its party by the amount of the batch; and in every later state of the service a second reversal of the
  settlement is refused.\<close>

theorem settlement_reversed_once:
  assumes "reverseSettlement now i actor reason s = Inr (b, s1)" "financial_step\<^sup>*\<^sup>* s1 s2"
  shows "settledForOrder o' s1 = settledForOrder o' s -
      sum_list (map si_amount (filter (\<lambda>x. si_settlement x = i \<and> si_order x = o') (fi_items s))) \<and>
    outstandingForOrder o' s1 = orderReceivableNet o' s - settledForOrder o' s1 \<and>
    legacySettled (sb_partyType b) (sb_partyId b) s1 = legacySettled (sb_partyType b) (sb_partyId b) s + sb_amount b \<and>
    (\<exists>original. findSettlement i s = Some original \<and> sb_amount b = - sb_amount original \<and> sb_partyId b = sb_partyId original) \<and>
    reverseSettlement now' i actor' reason' s2 = Inl (SettlementRejected ''reversed already'')"
proof -
  have "\<exists>original. findSettlement i s = Some original \<and> sb_amount b = - sb_amount original \<and> sb_partyId b = sb_partyId original"
    by (rule reversal_effect [OF assms(1)]) (auto simp: reversal_batch_def)
  moreover have "orderReceivableNet o' s1 = orderReceivableNet o' s"
    using reversal_frame [OF assms(1)] by (simp add: orderReceivableNet_def sumAmount_def)
  ultimately show ?thesis
    using reversal_settled [OF assms(1)] reversed_again [OF assms] by (simp add: outstandingForOrder_def)
qed

definition settled_book :: financial_db where
  "settled_book = old_book\<lparr>fi_batches := [\<lparr>sb_id = 3, sb_kind = SettlementBatch, sb_reverses = None, sb_partyType = LedgerBusiness,
       sb_partyId = 4, sb_amount = 86, sb_currency = ''IRT'', sb_method = None, sb_reference = None, sb_note = None, sb_createdBy = 1, sb_createdAt = 5\<rparr>],
     fi_items := [\<lparr>si_id = 4, si_settlement = 3, si_order = 7, si_amount = 86\<rparr>], fi_next := 5\<rparr>"

theorem settlement_reversed_once_witness:
  "\<exists>b s1. reverseSettlement 9 3 1 ''wrong account'' settled_book = Inr (b, s1) \<and> outstandingForOrder 7 settled_book = 0 \<and>
     outstandingForOrder 7 s1 = 86 \<and> reverseSettlement 10 3 1 ''again'' s1 = Inl (SettlementRejected ''reversed already'')"
proof -
  obtain b s1 where r: "reverseSettlement 9 3 1 ''wrong account'' settled_book = Inr (b, s1)"
    by (simp add: reverseSettlement_def findSettlement_def tget_def settled_book_def old_book_def empty_financial_def financialUuid_def Let_def
        itemsFor_def insert_batch_def settlement_check_def reversal_batch_def)
  have n: "orderReceivableNet 7 settled_book = 86" "settledForOrder 7 settled_book = 86"
    "sum_list (map si_amount (filter (\<lambda>x. si_settlement x = 3 \<and> si_order x = 7) (fi_items settled_book))) = 86"
    by (simp_all add: orderReceivableNet_def sumAmount_def settled_book_def old_book_def old_entry_def settledForOrder_def)
  show ?thesis
    using settlement_reversed_once [OF r rtranclp.rtrancl_refl, of 7 10 1 "''again''"] r n by (simp add: outstandingForOrder_def)
qed

end
