(* ===== verification/Loyalty_Model.thy ===== *)
theory Loyalty_Model
  imports Outcome_Policy
begin

text \<open>
  Loyalty (\<open>services/loyalty/src\<close>): the append-only points ledger, tiers computed from it on every read, the benefits of a
  tier and of a membership, and the memberships themselves; and the two event handlers that earn points.

  A service method runs in one transaction of its own; \<open>insertOnce\<close> is an insert that a unique index turns into a no-op. An
  award reads without locks under read committed: each of its reads may be of an earlier state than the one it commits to, and
  none of them sees the rows of a concurrent award that has not committed. Times
  are instants in milliseconds. The sums that qualify for a tier stay inside the \<open>int4\<close> the code casts them to. The event
  schemas accept every payload that is emitted here, so the validation of \<open>emitContractEvent\<close> is left out.
\<close>

section \<open>Policy and configuration\<close>

datatype loyalty_reason = BookingCompletedReason | ReviewSubmittedReason | OrderCompletedReason | ReferrerReward | RefereeReward
  | ReferrerReversal | RefereeReversal | ManualAdjustment

record loyalty_policy =
  lp_bookingCompleted :: int
  lp_reviewSubmitted :: int
  lp_orderCompleted :: int
  lp_referralReferrer :: int
  lp_referralReferee :: int

definition LOYALTY_POLICY_DEFAULTS :: loyalty_policy where
  "LOYALTY_POLICY_DEFAULTS = \<lparr>lp_bookingCompleted = 10, lp_reviewSubmitted = 5, lp_orderCompleted = 10, lp_referralReferrer = 0,
     lp_referralReferee = 0\<rparr>"

text \<open>\<open>LoyaltyConfig\<close> over the settings of the process.\<close>

definition config_int :: "(string \<Rightarrow> jsval) \<Rightarrow> string \<Rightarrow> int \<Rightarrow> int" where
  "config_int env key fallback =
    (if env key \<in> {JUndefined, JNull, JString ''''} then fallback
     else case to_number (env key) of Fin q \<Rightarrow> if isInteger (Fin q) \<and> 0 \<le> q then \<lfloor>q\<rfloor> else fallback | _ \<Rightarrow> fallback)"

definition loyalty_policy_of :: "(string \<Rightarrow> jsval) \<Rightarrow> loyalty_policy" where
  "loyalty_policy_of env =
    \<lparr>lp_bookingCompleted = config_int env ''LOYALTY_POINTS_BOOKING_COMPLETED'' (lp_bookingCompleted LOYALTY_POLICY_DEFAULTS),
     lp_reviewSubmitted = config_int env ''LOYALTY_POINTS_REVIEW_SUBMITTED'' (lp_reviewSubmitted LOYALTY_POLICY_DEFAULTS),
     lp_orderCompleted = config_int env ''LOYALTY_POINTS_ORDER_COMPLETED'' (lp_orderCompleted LOYALTY_POLICY_DEFAULTS),
     lp_referralReferrer = config_int env ''LOYALTY_POINTS_REFERRAL_REFERRER'' (lp_referralReferrer LOYALTY_POLICY_DEFAULTS),
     lp_referralReferee = config_int env ''LOYALTY_POINTS_REFERRAL_REFEREE'' (lp_referralReferee LOYALTY_POLICY_DEFAULTS)\<rparr>"

definition rolling_365 :: "(string \<Rightarrow> jsval) \<Rightarrow> bool" where
  "rolling_365 env \<longleftrightarrow> env ''LOYALTY_TIER_BASIS'' = JString ''rolling_365''"

definition pointsFor :: "(string \<Rightarrow> jsval) \<Rightarrow> loyalty_reason \<Rightarrow> int" where
  "pointsFor env reason = (let p = loyalty_policy_of env in case reason of
     BookingCompletedReason \<Rightarrow> lp_bookingCompleted p | ReviewSubmittedReason \<Rightarrow> lp_reviewSubmitted p
   | OrderCompletedReason \<Rightarrow> lp_orderCompleted p | ReferrerReward \<Rightarrow> lp_referralReferrer p | RefereeReward \<Rightarrow> lp_referralReferee p | _ \<Rightarrow> 0)"

section \<open>Rows\<close>

record points_entry =
  pe_id :: nat
  pe_user :: nat
  pe_points :: int
  pe_reason :: loyalty_reason
  pe_reference :: "(string \<times> nat) option"
  pe_multiplierBp :: int
  pe_basePoints :: int
  pe_createdAt :: int

record loyalty_tier =
  ti_id :: nat
  ti_slug :: string
  ti_name :: string
  ti_threshold :: int
  ti_sortOrder :: int
  ti_active :: bool

record membership_plan =
  mp_id :: nat
  mp_slug :: string
  mp_tier :: "nat option"
  mp_isPaid :: bool
  mp_price :: "int option"
  mp_period :: "int option"
  mp_active :: bool
  mp_sortOrder :: int

datatype membership_status = MemActive | MemExpired | MemCancelled
datatype activation_source = ManualActivation | TierQualification

record membership =
  ms_id :: nat
  ms_user :: nat
  ms_plan :: nat
  ms_status :: membership_status
  ms_source :: activation_source
  ms_startedAt :: int
  ms_expiresAt :: "int option"

datatype benefit_source = TierBenefit | PlanBenefit
datatype benefit_type = BonusPointsMultiplier | DiscountPercentage | DescriptiveBenefit

record benefit =
  bn_id :: nat
  bn_source :: "benefit_source \<times> nat"
  bn_type :: benefit_type
  bn_label :: string
  bn_config :: jsval
  bn_active :: bool
  bn_sortOrder :: int

record tier_crossing =
  tc_id :: nat
  tc_user :: nat
  tc_from :: "string option"
  tc_to :: "string option"
  tc_lifetime :: int

datatype loyalty_event =
    LoyaltyPointsEarned nat nat int loyalty_reason "(string \<times> nat)" int
  | LoyaltyTierChanged nat "string option" "string option" int
  | MembershipActivated nat nat nat activation_source "int option"
  | MembershipEnded nat nat nat membership_status

record loyalty_db =
  ly_entries :: "points_entry list"
  ly_tiers :: "loyalty_tier list"
  ly_plans :: "membership_plan list"
  ly_memberships :: "membership list"
  ly_benefits :: "benefit list"
  ly_crossings :: "tier_crossing list"
  ly_outbox :: "loyalty_event list"
  ly_next :: nat

datatype loyalty_error = PointsNotInteger | ReversalDisagrees loyalty_reason string

type_synonym 'a loyalty_result = "loyalty_error + 'a \<times> loyalty_db"

definition loyaltyUuid :: "loyalty_db \<Rightarrow> nat \<times> loyalty_db" where
  "loyaltyUuid s = (ly_next s, s\<lparr>ly_next := Suc (ly_next s)\<rparr>)"

definition emitLoyalty :: "loyalty_event \<Rightarrow> loyalty_db \<Rightarrow> loyalty_db" where
  "emitLoyalty ev s = s\<lparr>ly_outbox := ly_outbox s @ [ev]\<rparr>"

section \<open>Tiers\<close>

definition activeTiers :: "loyalty_db \<Rightarrow> loyalty_tier list" where
  "activeTiers s = sort_key ti_threshold (filter ti_active (ly_tiers s))"

definition tierForPoints :: "int \<Rightarrow> loyalty_db \<Rightarrow> loyalty_tier option" where
  "tierForPoints lifetimePoints s =
    fold (\<lambda>tier qualifying. if ti_threshold tier \<le> lifetimePoints then Some tier else qualifying) (activeTiers s) None"

definition tierSlugForPoints :: "int \<Rightarrow> loyalty_db \<Rightarrow> string option" where
  "tierSlugForPoints lifetimePoints s = map_option ti_slug (tierForPoints lifetimePoints s)"

definition lifetimeEarnedFor :: "nat \<Rightarrow> loyalty_db \<Rightarrow> int" where
  "lifetimeEarnedFor userId s = sum_list (map pe_points (filter (\<lambda>e. pe_user e = userId \<and> 0 < pe_points e) (ly_entries s)))"

definition currentTierSlug :: "nat \<Rightarrow> loyalty_db \<Rightarrow> string option" where
  "currentTierSlug userId s = tierSlugForPoints (lifetimeEarnedFor userId s) s"

record tier_progress =
  tg_lifetime :: int
  tg_current :: "loyalty_tier option"
  tg_next :: "loyalty_tier option"
  tg_pointsToNext :: "int option"
  tg_percentToNext :: "rat option"

text \<open>The percentage to one decimal: \<open>Math.round(x * 10) / 10\<close> on the clamped quotient.\<close>

definition progress_percent :: "int \<Rightarrow> int \<Rightarrow> int \<Rightarrow> rat" where
  "progress_percent lifetimePoints lower threshold =
    (let span = max 1 (threshold - lower);
         ratio = fl (fl (of_int (lifetimePoints - lower) / of_int span) * 100)
     in fl (of_int (math_round (fl (min 100 (max 0 ratio) * 10))) / 10))"

definition progressFor :: "int \<Rightarrow> loyalty_db \<Rightarrow> tier_progress" where
  "progressFor lifetimePoints s =
    (let current = tierForPoints lifetimePoints s;
         upper = find (\<lambda>t. lifetimePoints < ti_threshold t) (activeTiers s)
     in \<lparr>tg_lifetime = lifetimePoints, tg_current = current, tg_next = upper,
          tg_pointsToNext = map_option (\<lambda>t. max 0 (ti_threshold t - lifetimePoints)) upper,
          tg_percentToNext = map_option (\<lambda>t. progress_percent lifetimePoints (case current of None \<Rightarrow> 0 | Some c \<Rightarrow> ti_threshold c) (ti_threshold t)) upper\<rparr>)"

section \<open>Benefits\<close>

definition membership_of :: "nat \<Rightarrow> loyalty_db \<Rightarrow> membership option" where
  "membership_of userId s = find (\<lambda>m. ms_user m = userId) (ly_memberships s)"

definition tier_by_slug :: "string \<Rightarrow> loyalty_db \<Rightarrow> loyalty_tier option" where
  "tier_by_slug slug s = find (\<lambda>t. ti_slug t = slug) (ly_tiers s)"

definition benefit_sources :: "nat \<Rightarrow> loyalty_db \<Rightarrow> (benefit_source \<times> nat) list" where
  "benefit_sources userId s =
    (case currentTierSlug userId s of None \<Rightarrow> []
     | Some slug \<Rightarrow> (case tier_by_slug slug s of None \<Rightarrow> [] | Some t \<Rightarrow> [(TierBenefit, ti_id t)])) @
    (case membership_of userId s of None \<Rightarrow> []
     | Some m \<Rightarrow> if ms_status m = MemActive then [(PlanBenefit, ms_plan m)] else [])"

definition benefitsForUser :: "nat \<Rightarrow> loyalty_db \<Rightarrow> benefit list" where
  "benefitsForUser userId s =
    sort_key bn_sortOrder (filter (\<lambda>b. bn_active b \<and> bn_source b \<in> set (benefit_sources userId s)) (ly_benefits s))"

text \<open>\<open>Math.max(max, Number(config.key ?? fallback))\<close>: not-a-number wins over every number.\<close>

definition js_max :: "jsnum \<Rightarrow> jsnum \<Rightarrow> jsnum" where
  "js_max a b = (if a = JNaN \<or> b = JNaN then JNaN else if js_gt b a then b else a)"

definition config_number :: "string \<Rightarrow> int \<Rightarrow> benefit \<Rightarrow> jsnum" where
  "config_number key fallback b =
    (case jprop (bn_config b) key of JUndefined \<Rightarrow> fin_int fallback | JNull \<Rightarrow> fin_int fallback | v \<Rightarrow> to_number v)"

definition pointsMultiplierBp :: "nat \<Rightarrow> loyalty_db \<Rightarrow> jsnum" where
  "pointsMultiplierBp userId s = foldl (\<lambda>m b. js_max m (config_number ''multiplierBp'' 10000 b)) (fin_int 10000)
     (filter (\<lambda>b. bn_type b = BonusPointsMultiplier) (benefitsForUser userId s))"

definition discountPercentBp :: "nat \<Rightarrow> loyalty_db \<Rightarrow> jsnum" where
  "discountPercentBp userId s = foldl (\<lambda>m b. js_max m (config_number ''percentBp'' 0 b)) (fin_int 0)
     (filter (\<lambda>b. bn_type b = DiscountPercentage) (benefitsForUser userId s))"

section \<open>The points ledger\<close>

definition YEAR_MS :: int where "YEAR_MS = 365 * 24 * 60 * 60 * 1000"

definition lifetimeEarned :: "(string \<Rightarrow> jsval) \<Rightarrow> int \<Rightarrow> nat \<Rightarrow> loyalty_db \<Rightarrow> int" where
  "lifetimeEarned env now userId s = sum_list (map pe_points (filter (\<lambda>e. pe_user e = userId \<and> 0 < pe_points e \<and>
     (rolling_365 env \<longrightarrow> now - YEAR_MS \<le> pe_createdAt e)) (ly_entries s)))"

definition points_balance :: "nat \<Rightarrow> loyalty_db \<Rightarrow> int" where
  "points_balance userId s = sum_list (map pe_points (filter (\<lambda>e. pe_user e = userId) (ly_entries s)))"

definition points_history :: "nat \<Rightarrow> nat \<Rightarrow> nat \<Rightarrow> loyalty_db \<Rightarrow> points_entry list \<times> nat" where
  "points_history userId limit offset s =
    (let mine = filter (\<lambda>e. pe_user e = userId) (ly_entries s)
     in (take limit (drop offset (rev (sort_key pe_createdAt (sort_key pe_id mine)))), length mine))"

text \<open>\<open>uq_points_entries_reference_once\<close>; \<open>INSERT ... ON CONFLICT DO NOTHING\<close>.\<close>

definition points_key :: "points_entry \<Rightarrow> ((string \<times> nat) \<times> loyalty_reason) option" where
  "points_key e = map_option (\<lambda>r. (r, pe_reason e)) (pe_reference e)"

definition insert_points :: "points_entry \<Rightarrow> loyalty_db \<Rightarrow> bool \<times> loyalty_db" where
  "insert_points e s = (if points_key e \<noteq> None \<and> points_key e \<in> points_key ` set (ly_entries s) then (False, s)
     else (True, s\<lparr>ly_entries := ly_entries s @ [e]\<rparr>))"

definition int4 :: "rat \<Rightarrow> bool" where
  "int4 q \<longleftrightarrow> q = of_int \<lfloor>q\<rfloor> \<and> - (2 ^ 31) \<le> q \<and> q < 2 ^ 31"

definition insert_crossing :: "tier_crossing \<Rightarrow> loyalty_db \<Rightarrow> bool \<times> loyalty_db" where
  "insert_crossing c s =
    (let key = (\<lambda>c. (tc_user c, case tc_to c of None \<Rightarrow> '''' | Some t \<Rightarrow> t, tc_lifetime c))
     in if key c \<in> key ` set (ly_crossings s) then (False, s) else (True, s\<lparr>ly_crossings := ly_crossings s @ [c]\<rparr>))"

definition recordTierCrossingIfChanged :: "nat \<Rightarrow> string option \<Rightarrow> int \<Rightarrow> loyalty_db \<Rightarrow> bool \<times> loyalty_db" where
  "recordTierCrossingIfChanged userId fromTierSlug lifetime s =
    (let toTierSlug = tierSlugForPoints lifetime s
     in if toTierSlug = fromTierSlug then (False, s)
        else case loyaltyUuid s of (i, s1) \<Rightarrow>
          case insert_crossing \<lparr>tc_id = i, tc_user = userId, tc_from = fromTierSlug, tc_to = toTierSlug, tc_lifetime = lifetime\<rparr> s1 of
            (False, s2) \<Rightarrow> (False, s2)
          | (True, s2) \<Rightarrow> (True, emitLoyalty (LoyaltyTierChanged userId fromTierSlug toTierSlug lifetime) s2))"

record award_input =
  aw_user :: nat
  aw_reason :: loyalty_reason
  aw_reference :: "string \<times> nat"
  aw_override :: "int option"

record award_result =
  ar_awarded :: bool
  ar_entry :: "nat option"
  ar_points :: int
  ar_lifetime :: int
  ar_tierChanged :: bool

definition not_awarded :: "(string \<Rightarrow> jsval) \<Rightarrow> int \<Rightarrow> nat \<Rightarrow> loyalty_db \<Rightarrow> award_result" where
  "not_awarded env now userId s =
    \<lparr>ar_awarded = False, ar_entry = None, ar_points = 0, ar_lifetime = lifetimeEarned env now userId s, ar_tierChanged = False\<rparr>"

text \<open>\<open>Math.round((basePoints * multiplierBp) / 10000)\<close>; a multiplier that is not a whole number is refused by its column.\<close>

definition award_points :: "int \<Rightarrow> jsnum \<Rightarrow> loyalty_error + int \<times> int" where
  "award_points basePoints multiplier = (case multiplier of
     Fin q \<Rightarrow> (let points = math_round (fl (fl (of_int basePoints * q) / 10000))
        in if int4 q \<and> int4 (of_int points) \<and> int4 (of_int basePoints) then Inr (points, \<lfloor>q\<rfloor>) else Inl PointsNotInteger)
   | _ \<Rightarrow> Inl PointsNotInteger)"

text \<open>The row an award writes, and the states its reads saw: the multiplier and the tier before the insert, and the total
  after it, which sees what was committed by then and the award's own row.\<close>

definition awarded_row :: "nat \<Rightarrow> int \<Rightarrow> award_input \<Rightarrow> int \<Rightarrow> int \<Rightarrow> int \<Rightarrow> points_entry" where
  "awarded_row i now inp points multiplier base = \<lparr>pe_id = i, pe_user = aw_user inp, pe_points = points, pe_reason = aw_reason inp,
     pe_reference = Some (aw_reference inp), pe_multiplierBp = multiplier, pe_basePoints = base, pe_createdAt = now\<rparr>"

record award_reads =
  rd_multiplier :: loyalty_db
  rd_tier :: loyalty_db
  rd_total :: loyalty_db

definition fresh_reads :: "loyalty_db \<Rightarrow> award_reads" where
  "fresh_reads s = \<lparr>rd_multiplier = s, rd_tier = s, rd_total = s\<rparr>"

definition award :: "(string \<Rightarrow> jsval) \<Rightarrow> int \<Rightarrow> award_reads \<Rightarrow> award_input \<Rightarrow> loyalty_db \<Rightarrow> award_result loyalty_result" where
  "award env now rd inp s =
    (let basePoints = (case aw_override inp of Some p \<Rightarrow> p | None \<Rightarrow> pointsFor env (aw_reason inp))
     in if basePoints = 0 then Inr (not_awarded env now (aw_user inp) (rd_total rd), s)
        else bind_res (award_points basePoints (pointsMultiplierBp (aw_user inp) (rd_multiplier rd))) (\<lambda>(points, multiplier).
          let tierBefore = currentTierSlug (aw_user inp) (rd_tier rd)
          in case loyaltyUuid s of (i, s1) \<Rightarrow>
             let row = awarded_row i now inp points multiplier basePoints
             in case insert_points row s1 of
               (False, s2) \<Rightarrow> Inr (not_awarded env now (aw_user inp) (rd_total rd), s2)
             | (True, s2) \<Rightarrow>
                 (let lifetime = lifetimeEarned env now (aw_user inp) ((rd_total rd)\<lparr>ly_entries := ly_entries (rd_total rd) @ [row]\<rparr>);
                      s3 = emitLoyalty (LoyaltyPointsEarned (aw_user inp) i points (aw_reason inp) (aw_reference inp) lifetime) s2
                  in case recordTierCrossingIfChanged (aw_user inp) tierBefore lifetime s3 of
                       (tierChanged, s4) \<Rightarrow> Inr (\<lparr>ar_awarded = True, ar_entry = Some i, ar_points = points, ar_lifetime = lifetime,
                          ar_tierChanged = tierChanged\<rparr>, s4))))"

record reverse_input =
  rv_reference :: "string \<times> nat"
  rv_originalReason :: loyalty_reason
  rv_reversalReason :: loyalty_reason
  rv_expectedBase :: "int option"

definition reverse_award :: "int \<Rightarrow> reverse_input \<Rightarrow> loyalty_db \<Rightarrow> (bool \<times> int) loyalty_result" where
  "reverse_award now inp s =
    (case find (\<lambda>e. pe_reference e = Some (rv_reference inp) \<and> pe_reason e = rv_originalReason inp) (ly_entries s) of
       None \<Rightarrow> Inr ((False, 0), s)
     | Some original \<Rightarrow>
        if rv_expectedBase inp \<noteq> None \<and> rv_expectedBase inp \<noteq> Some (pe_basePoints original)
        then Inl (ReversalDisagrees (rv_originalReason inp) (fst (rv_reference inp)))
        else case loyaltyUuid s of (i, s1) \<Rightarrow>
          case insert_points \<lparr>pe_id = i, pe_user = pe_user original, pe_points = - pe_points original, pe_reason = rv_reversalReason inp,
              pe_reference = Some (rv_reference inp), pe_multiplierBp = pe_multiplierBp original, pe_basePoints = - pe_basePoints original,
              pe_createdAt = now\<rparr> s1 of
            (False, s2) \<Rightarrow> Inr ((False, 0), s2)
          | (True, s2) \<Rightarrow> Inr ((True, pe_points original), s2))"

end
