(* ===== verification/Membership_Model.thy ===== *)
theory Membership_Model
  imports Loyalty_Model
begin

text \<open>
  Memberships (\<open>membership.service.ts\<close>) and the handlers of \<open>BookingCompleted\<close> and \<open>OrderPaid\<close> that award points
  and then synchronise the membership (\<open>apps/api/src/events/loyalty-journey.handlers.ts\<close>). The award and the
  synchronisation are two transactions; \<open>reached\<close> says whether the second one takes place, or the process or its
  connection is lost before it.
\<close>

section \<open>Memberships\<close>

definition forUser :: "nat \<Rightarrow> loyalty_db \<Rightarrow> (membership \<times> membership_plan) option" where
  "forUser userId s = (case membership_of userId s of None \<Rightarrow> None
     | Some m \<Rightarrow> map_option (Pair m) (find (\<lambda>p. mp_id p = ms_plan m) (ly_plans s)))"

definition activePlans :: "loyalty_db \<Rightarrow> membership_plan list" where
  "activePlans s = sort_key mp_sortOrder (filter mp_active (ly_plans s))"

definition MEMBERSHIP_DAY_MS :: int where "MEMBERSHIP_DAY_MS = 24 * 60 * 60 * 1000"

text \<open>\<open>INSERT ... ON CONFLICT (user_id) DO UPDATE\<close>; the id of an existing row stays.\<close>

definition upsert_membership :: "membership \<Rightarrow> loyalty_db \<Rightarrow> loyalty_db" where
  "upsert_membership m s =
    (if \<exists>x \<in> set (ly_memberships s). ms_user x = ms_user m
     then s\<lparr>ly_memberships := tupd (\<lambda>x. ms_user x = ms_user m) (\<lambda>x. m\<lparr>ms_id := ms_id x\<rparr>) (ly_memberships s)\<rparr>
     else s\<lparr>ly_memberships := ly_memberships s @ [m]\<rparr>)"

definition activate :: "int \<Rightarrow> nat \<Rightarrow> nat \<Rightarrow> activation_source \<Rightarrow> loyalty_db \<Rightarrow> (bool \<times> nat option) \<times> loyalty_db" where
  "activate now userId planId source s =
    (case find (\<lambda>p. mp_id p = planId \<and> mp_active p) (ly_plans s) of
       None \<Rightarrow> ((False, None), s)
     | Some plan \<Rightarrow>
        let existing = membership_of userId s
        in case existing of
             Some m \<Rightarrow> (if ms_status m = MemActive \<and> ms_plan m = planId then ((False, Some (ms_id m)), s)
                else let expiresAt = map_option (\<lambda>d. now + d * MEMBERSHIP_DAY_MS) (mp_period plan);
                         row = \<lparr>ms_id = ms_id m, ms_user = userId, ms_plan = planId, ms_status = MemActive, ms_source = source,
                           ms_startedAt = now, ms_expiresAt = expiresAt\<rparr>
                     in ((True, Some (ms_id m)), emitLoyalty (MembershipActivated userId (ms_id m) planId source expiresAt) (upsert_membership row s)))
           | None \<Rightarrow> (case loyaltyUuid s of (i, s1) \<Rightarrow>
                let expiresAt = map_option (\<lambda>d. now + d * MEMBERSHIP_DAY_MS) (mp_period plan);
                    row = \<lparr>ms_id = i, ms_user = userId, ms_plan = planId, ms_status = MemActive, ms_source = source,
                      ms_startedAt = now, ms_expiresAt = expiresAt\<rparr>
                in ((True, Some i), emitLoyalty (MembershipActivated userId i planId source expiresAt) (upsert_membership row s1))))"

definition tier_plan :: "int \<Rightarrow> loyalty_db \<Rightarrow> membership_plan option" where
  "tier_plan lifetime s =
    (case tierSlugForPoints lifetime s of None \<Rightarrow> None
     | Some slug \<Rightarrow> (case tier_by_slug slug s of None \<Rightarrow> None
        | Some t \<Rightarrow> find (\<lambda>p. mp_tier p = Some (ti_id t) \<and> mp_active p) (ly_plans s)))"

definition syncFromTier :: "int \<Rightarrow> nat \<Rightarrow> int \<Rightarrow> loyalty_db \<Rightarrow> bool \<times> loyalty_db" where
  "syncFromTier now userId lifetime s =
    (case tier_plan lifetime s of
       None \<Rightarrow> (False, s)
     | Some plan \<Rightarrow>
        (case membership_of userId s of
           Some m \<Rightarrow> if ms_status m = MemActive \<and> (ms_plan m = mp_id plan \<or> ms_source m \<noteq> TierQualification) then (False, s)
             else (case activate now userId (mp_id plan) TierQualification s of ((changed, _), s1) \<Rightarrow> (changed, s1))
         | None \<Rightarrow> (case activate now userId (mp_id plan) TierQualification s of ((changed, _), s1) \<Rightarrow> (changed, s1))))"

definition cancel_membership :: "nat \<Rightarrow> loyalty_db \<Rightarrow> bool \<times> loyalty_db" where
  "cancel_membership userId s =
    (let P = (\<lambda>m. ms_user m = userId \<and> ms_status m = MemActive) in
     if taffected P (ly_memberships s) \<noteq> 1 then (False, s)
     else let s1 = s\<lparr>ly_memberships := tupd P (\<lambda>m. m\<lparr>ms_status := MemCancelled\<rparr>) (ly_memberships s)\<rparr>
          in case membership_of userId s1 of
               None \<Rightarrow> (False, s)
             | Some m \<Rightarrow> (True, emitLoyalty (MembershipEnded userId (ms_id m) (ms_plan m) MemCancelled) s1))"

definition membership_due :: "int \<Rightarrow> membership \<Rightarrow> bool" where
  "membership_due now m \<longleftrightarrow> ms_status m = MemActive \<and> (case ms_expiresAt m of None \<Rightarrow> False | Some t \<Rightarrow> t \<le> now)"

fun expire_members :: "membership list \<Rightarrow> nat \<times> loyalty_db \<Rightarrow> nat \<times> loyalty_db" where
  "expire_members [] r = r"
| "expire_members (row # rows) (expired, s) =
    (let P = (\<lambda>m. ms_id m = ms_id row \<and> ms_status m = MemActive) in
     if taffected P (ly_memberships s) \<noteq> 1 then expire_members rows (expired, s)
     else expire_members rows (Suc expired,
       emitLoyalty (MembershipEnded (ms_user row) (ms_id row) (ms_plan row) MemExpired)
         (s\<lparr>ly_memberships := tupd P (\<lambda>m. m\<lparr>ms_status := MemExpired\<rparr>) (ly_memberships s)\<rparr>)))"

text \<open>The due rows are read before the first transaction; \<open>rd\<close> is what that read saw.\<close>

definition expireDue :: "int \<Rightarrow> nat \<Rightarrow> loyalty_db \<Rightarrow> loyalty_db \<Rightarrow> nat \<times> loyalty_db" where
  "expireDue now limit rd s = expire_members (take limit (filter (membership_due now) (ly_memberships rd))) (0, s)"

section \<open>The handlers that earn\<close>

definition earn :: "(string \<Rightarrow> jsval) \<Rightarrow> int \<Rightarrow> bool \<Rightarrow> award_reads \<Rightarrow> award_input \<Rightarrow> loyalty_db \<Rightarrow> loyalty_error + loyalty_db" where
  "earn env now reached rd inp s =
    bind_res (award env now rd inp s) (\<lambda>(r, s1).
      if \<not> ar_awarded r then Inr s1
      else if reached then Inr (snd (syncFromTier now (aw_user inp) (ar_lifetime r) s1)) else Inr s1)"

definition handle_booking_completed_loyalty :: "(string \<Rightarrow> jsval) \<Rightarrow> int \<Rightarrow> bool \<Rightarrow> award_reads \<Rightarrow> nat \<Rightarrow> nat \<Rightarrow> loyalty_db \<Rightarrow> loyalty_error + loyalty_db" where
  "handle_booking_completed_loyalty env now reached rd customerId bookingId s = earn env now reached rd
     \<lparr>aw_user = customerId, aw_reason = BookingCompletedReason, aw_reference = (''booking'', bookingId), aw_override = None\<rparr> s"

definition handle_order_paid_loyalty :: "(string \<Rightarrow> jsval) \<Rightarrow> int \<Rightarrow> bool \<Rightarrow> award_reads \<Rightarrow> string \<Rightarrow> nat \<Rightarrow> nat \<Rightarrow> loyalty_db \<Rightarrow> loyalty_error + loyalty_db" where
  "handle_order_paid_loyalty env now reached rd sourceType customerId orderId s =
    (if sourceType = ''booking'' then Inr s
     else earn env now reached rd \<lparr>aw_user = customerId, aw_reason = OrderCompletedReason, aw_reference = (''order'', orderId), aw_override = None\<rparr> s)"

section \<open>Every write of the service\<close>

text \<open>A later state holds every row of the ledger, of the crossings and of the outbox an earlier one held.\<close>

definition loyalty_le :: "loyalty_db \<Rightarrow> loyalty_db \<Rightarrow> bool" where
  "loyalty_le s s' \<longleftrightarrow> ly_tiers s' = ly_tiers s \<and> ly_plans s' = ly_plans s \<and> ly_benefits s' = ly_benefits s \<and>
     (\<exists>new. ly_entries s' = ly_entries s @ new) \<and> (\<exists>new. ly_crossings s' = ly_crossings s @ new) \<and> (\<exists>new. ly_outbox s' = ly_outbox s @ new)"

definition reads_before :: "award_reads \<Rightarrow> loyalty_db \<Rightarrow> bool" where
  "reads_before rd s \<longleftrightarrow> loyalty_le (rd_multiplier rd) s \<and> loyalty_le (rd_tier rd) s \<and> loyalty_le (rd_total rd) s"

text \<open>One committed transaction; an award may have read any earlier states.\<close>

inductive loyalty_step :: "(string \<Rightarrow> jsval) \<Rightarrow> loyalty_db \<Rightarrow> loyalty_db \<Rightarrow> bool" for env where
  step_award: "reads_before rd s \<Longrightarrow> award env now rd inp s = Inr (r, s') \<Longrightarrow> loyalty_step env s s'"
| step_reverse: "reverse_award now rv s = Inr (b, s') \<Longrightarrow> loyalty_step env s s'"
| step_activate: "activate now userId planId ManualActivation s = (c, s') \<Longrightarrow> loyalty_step env s s'"
| step_sync: "syncFromTier now userId lifetime s = (b', s') \<Longrightarrow> loyalty_step env s s'"
| step_cancel: "cancel_membership userId s = (b', s') \<Longrightarrow> loyalty_step env s s'"
| step_expire: "expireDue now limit rd s = (n, s') \<Longrightarrow> loyalty_step env s s'"

end
