(* ===== verification/Loyalty_Invariant.thy ===== *)
theory Loyalty_Invariant
  imports Membership_Model
begin

text \<open>
  What every write of the loyalty service keeps: the ledger only grows and holds a reference once per reason, tiers,
  plans and benefits stay, and the lifetime total of a customer never falls. The tier of a total is the highest active
  one it reaches.
\<close>

section \<open>The tier of a total\<close>

lemma fold_last:
  "fold (\<lambda>t q. if P t then Some t else q) xs q = (if filter P xs = [] then q else Some (last (filter P xs)))"
  by (induction xs arbitrary: q) auto

lemma sorted_last: "sorted (map k (xs :: 'a list)) \<Longrightarrow> x \<in> set xs \<Longrightarrow> k x \<le> (k (last xs) :: int)"
proof (induction xs rule: rev_induct)
  case (snoc y ys)
  then show ?case by (auto simp: sorted_append)
qed simp

lemma tierForPoints_Some:
  assumes "tierForPoints p s = Some t"
  shows "t \<in> set (ly_tiers s) \<and> ti_active t \<and> ti_threshold t \<le> p \<and>
    (\<forall>t' \<in> set (ly_tiers s). ti_active t' \<and> ti_threshold t' \<le> p \<longrightarrow> ti_threshold t' \<le> ti_threshold t)"
proof -
  let ?l = "filter (\<lambda>t. ti_threshold t \<le> p) (activeTiers s)"
  have t: "?l \<noteq> []" "t = last ?l" using assms by (auto simp: tierForPoints_def fold_last split: if_splits)
  have m: "set ?l = {t \<in> set (ly_tiers s). ti_active t \<and> ti_threshold t \<le> p}" by (auto simp: activeTiers_def)
  have "sorted (map ti_threshold (activeTiers s))" by (simp add: activeTiers_def)
  then have "sorted (map ti_threshold ?l)" by (rule sorted_filter)
  then have "ti_threshold t' \<le> ti_threshold t" if "t' \<in> set ?l" for t'
    unfolding t(2) by (rule sorted_last [OF _ that])
  moreover have "t \<in> set ?l" using t last_in_set by blast
  ultimately show ?thesis unfolding m by auto
qed

lemma tierForPoints_None:
  "tierForPoints p s = None \<longleftrightarrow> (\<forall>t \<in> set (ly_tiers s). ti_active t \<longrightarrow> p < ti_threshold t)"
proof -
  have "tierForPoints p s = None \<longleftrightarrow> filter (\<lambda>t. ti_threshold t \<le> p) (activeTiers s) = []"
    by (simp add: tierForPoints_def fold_last)
  then show ?thesis by (auto simp: filter_empty_conv activeTiers_def not_le)
qed

lemma tierForPoints_cong: "ly_tiers s' = ly_tiers s \<Longrightarrow> tierForPoints p s' = tierForPoints p s"
  by (simp add: tierForPoints_def activeTiers_def)

lemma tierForPoints_mono:
  assumes "tierForPoints p s = Some t" "p \<le> q"
  shows "\<exists>t'. tierForPoints q s = Some t' \<and> ti_threshold t \<le> ti_threshold t'"
proof -
  note t = tierForPoints_Some [OF assms(1)]
  obtain t' where t': "tierForPoints q s = Some t'"
    using t assms(2) tierForPoints_None [of q s] by (cases "tierForPoints q s") force+
  then show ?thesis using tierForPoints_Some [OF t'] t assms(2) by auto
qed

section \<open>Frames\<close>

lemma loyalty_le_refl [simp]: "loyalty_le s s"
  by (simp add: loyalty_le_def)

lemma loyalty_le_trans: "loyalty_le s s1 \<Longrightarrow> loyalty_le s1 s2 \<Longrightarrow> loyalty_le s s2"
  unfolding loyalty_le_def by force

lemma tierSlug_cong: "ly_tiers s' = ly_tiers s \<Longrightarrow> tierSlugForPoints p s' = tierSlugForPoints p s"
  unfolding tierSlugForPoints_def using tierForPoints_cong by metis

lemma tier_le: "loyalty_le s s' \<Longrightarrow> tierForPoints p s' = tierForPoints p s"
  using tierForPoints_cong [of s' s p] unfolding loyalty_le_def by blast

lemma tierSlug_le: "loyalty_le s s' \<Longrightarrow> tierSlugForPoints p s' = tierSlugForPoints p s"
  unfolding tierSlugForPoints_def using tier_le by metis

lemma emit_le [simp]: "loyalty_le s (emitLoyalty ev s)"
  by (simp add: loyalty_le_def emitLoyalty_def)

lemma loyalty_rows_le [simp]: "loyalty_le s (s\<lparr>ly_next := n\<rparr>)" "loyalty_le s (s\<lparr>ly_memberships := ms\<rparr>)"
  by (simp_all add: loyalty_le_def)

lemma emit_simps [simp]: "ly_entries (emitLoyalty ev s) = ly_entries s" "ly_tiers (emitLoyalty ev s) = ly_tiers s"
  "ly_crossings (emitLoyalty ev s) = ly_crossings s" "ly_memberships (emitLoyalty ev s) = ly_memberships s"
  by (simp_all add: emitLoyalty_def)

lemma crossing_effect:
  assumes "recordTierCrossingIfChanged u f l s = (b, s')"
  shows "ly_tiers s' = ly_tiers s \<and> ly_plans s' = ly_plans s \<and> ly_benefits s' = ly_benefits s \<and> ly_entries s' = ly_entries s \<and>
    ly_memberships s' = ly_memberships s \<and> (\<exists>new. ly_crossings s' = ly_crossings s @ new \<and> (\<forall>c \<in> set new. tc_user c = u \<and> tc_lifetime c = l)) \<and>
    (b \<longrightarrow> tierSlugForPoints l s \<noteq> f \<and> ly_outbox s' = ly_outbox s @ [LoyaltyTierChanged u f (tierSlugForPoints l s) l]) \<and>
    (\<not> b \<longrightarrow> ly_outbox s' = ly_outbox s \<and> (tierSlugForPoints l s = f \<or> (\<exists>c \<in> set (ly_crossings s). tc_user c = u \<and> tc_lifetime c = l)))"
  using assms
  by (auto simp: recordTierCrossingIfChanged_def Let_def loyaltyUuid_def insert_crossing_def emitLoyalty_def split: if_splits)

lemma crossing_le: "recordTierCrossingIfChanged u f l s = (b, s') \<Longrightarrow> loyalty_le s s'"
  using crossing_effect [of u f l s b s'] unfolding loyalty_le_def by (cases b) auto

definition award_known :: "award_input \<Rightarrow> loyalty_db \<Rightarrow> bool" where
  "award_known inp s \<longleftrightarrow> (\<exists>e \<in> set (ly_entries s). pe_reference e = Some (aw_reference inp) \<and> pe_reason e = aw_reason inp)"

lemma points_key_Some: "points_key e = Some (r, c) \<longleftrightarrow> pe_reference e = Some r \<and> pe_reason e = c"
  by (cases "pe_reference e") (simp_all add: points_key_def)

lemma insert_points_known:
  "insert_points (awarded_row i now inp p m b) s =
     (if award_known inp s then (False, s) else (True, s\<lparr>ly_entries := ly_entries s @ [awarded_row i now inp p m b]\<rparr>))"
proof -
  have k: "points_key (awarded_row i now inp p m b) = Some (aw_reference inp, aw_reason inp)" by (simp add: points_key_Some awarded_row_def)
  have "points_key (awarded_row i now inp p m b) \<in> points_key ` set (ly_entries s) \<longleftrightarrow> award_known inp s"
    by (simp add: image_iff k award_known_def points_key_Some eq_commute [of "Some _" "points_key _"])
  then show ?thesis by (simp add: insert_points_def k)
qed

definition base_points :: "(string \<Rightarrow> jsval) \<Rightarrow> award_input \<Rightarrow> int" where
  "base_points env inp = (case aw_override inp of Some p \<Rightarrow> p | None \<Rightarrow> pointsFor env (aw_reason inp))"

text \<open>The total an award reads after its insert: what its read saw, and its own row.\<close>

definition total_read :: "(string \<Rightarrow> jsval) \<Rightarrow> int \<Rightarrow> award_reads \<Rightarrow> points_entry \<Rightarrow> int" where
  "total_read env now rd row = lifetimeEarned env now (pe_user row) ((rd_total rd)\<lparr>ly_entries := ly_entries (rd_total rd) @ [row]\<rparr>)"

lemma awarded_row_user [simp]: "pe_user (awarded_row i now inp p m b) = aw_user inp"
  by (simp add: awarded_row_def)

lemma award_not:
  assumes "award env now rd inp s = Inr (r, s')" "\<not> ar_awarded r"
  shows "ly_entries s' = ly_entries s \<and> ly_memberships s' = ly_memberships s \<and> ly_outbox s' = ly_outbox s \<and> ly_crossings s' = ly_crossings s \<and>
    loyalty_le s s'"
  using assms unfolding award_def Let_def base_points_def [symmetric] loyaltyUuid_def
  by (auto simp: bind_res_Inr insert_points_known not_awarded_def split: if_splits prod.splits)

lemma award_effect:
  assumes "award env now rd inp s = Inr (r, s')" "ar_awarded r"
  obtains m row s2 where "award_points (base_points env inp) (pointsMultiplierBp (aw_user inp) (rd_multiplier rd)) = Inr (ar_points r, m)"
    "base_points env inp \<noteq> 0" "\<not> award_known inp s" "ar_entry r = Some (ly_next s)"
    "row = awarded_row (ly_next s) now inp (ar_points r) m (base_points env inp)"
    "s2 = s\<lparr>ly_next := Suc (ly_next s), ly_entries := ly_entries s @ [row]\<rparr>"
    "ar_lifetime r = total_read env now rd row"
    "recordTierCrossingIfChanged (aw_user inp) (currentTierSlug (aw_user inp) (rd_tier rd)) (ar_lifetime r)
       (emitLoyalty (LoyaltyPointsEarned (aw_user inp) (ly_next s) (ar_points r) (aw_reason inp) (aw_reference inp) (ar_lifetime r)) s2) =
       (ar_tierChanged r, s')"
proof -
  have k: "award_known inp (s\<lparr>ly_next := n\<rparr>) = award_known inp s" for n by (simp add: award_known_def)
  show ?thesis
    using assms that unfolding award_def Let_def base_points_def [symmetric] loyaltyUuid_def total_read_def
    by (auto simp: bind_res_Inr insert_points_known k not_awarded_def split: if_splits prod.splits)
qed

lemma award_le:
  assumes "award env now rd inp s = Inr (r, s')"
  shows "loyalty_le s s'"
proof (cases "ar_awarded r")
  case True
  show ?thesis
  proof (rule award_effect [OF assms True])
    fix m row s2
    assume s2: "s2 = s\<lparr>ly_next := Suc (ly_next s), ly_entries := ly_entries s @ [row]\<rparr>"
      and c: "recordTierCrossingIfChanged (aw_user inp) (currentTierSlug (aw_user inp) (rd_tier rd)) (ar_lifetime r)
       (emitLoyalty (LoyaltyPointsEarned (aw_user inp) (ly_next s) (ar_points r) (aw_reason inp) (aw_reference inp) (ar_lifetime r)) s2) =
       (ar_tierChanged r, s')"
    have "loyalty_le s s2" by (simp add: s2 loyalty_le_def)
    then show ?thesis using crossing_le [OF c] emit_le loyalty_le_trans by blast
  qed
qed (use award_not [OF assms] in blast)

lemma reverse_le:
  assumes "reverse_award now rv s = Inr (b, s')"
  shows "loyalty_le s s' \<and> ly_memberships s' = ly_memberships s \<and> ly_crossings s' = ly_crossings s \<and> ly_outbox s' = ly_outbox s"
  using assms by (auto simp: reverse_award_def loyaltyUuid_def insert_points_def loyalty_le_def split: option.splits if_splits)

lemma activate_le: "activate now u p src s = (c, s') \<Longrightarrow> loyalty_le s s' \<and> ly_entries s' = ly_entries s \<and> ly_crossings s' = ly_crossings s"
  by (auto simp: activate_def Let_def loyaltyUuid_def upsert_membership_def emitLoyalty_def loyalty_le_def split: option.splits if_splits)

lemma sync_cases:
  assumes "syncFromTier now u l s = (b, s')"
  shows "s' = s \<and> \<not> b \<or> (\<exists>plan c. tier_plan l s = Some plan \<and> activate now u (mp_id plan) TierQualification s = ((b, c), s') \<and>
    (\<forall>m. membership_of u s = Some m \<longrightarrow> ms_status m = MemActive \<longrightarrow> ms_plan m \<noteq> mp_id plan \<and> ms_source m = TierQualification))"
proof (cases "tier_plan l s")
  case None
  then show ?thesis using assms by (simp add: syncFromTier_def)
next
  case (Some plan)
  obtain b' c s1 where a: "activate now u (mp_id plan) TierQualification s = ((b', c), s1)" by (metis prod.collapse)
  show ?thesis using assms Some a by (cases "membership_of u s") (force simp: syncFromTier_def split: if_splits)+
qed

lemma sync_le: "syncFromTier now u l s = (b, s') \<Longrightarrow> loyalty_le s s' \<and> ly_entries s' = ly_entries s \<and> ly_crossings s' = ly_crossings s"
  using sync_cases activate_le loyalty_le_refl by metis

lemma cancel_le: "cancel_membership u s = (b, s') \<Longrightarrow> loyalty_le s s' \<and> ly_entries s' = ly_entries s \<and> ly_crossings s' = ly_crossings s"
  by (auto simp: cancel_membership_def Let_def emitLoyalty_def loyalty_le_def split: option.splits if_splits)

lemma expire_le: "expire_members rows (n, s) = (n', s') \<Longrightarrow> loyalty_le s s' \<and> ly_entries s' = ly_entries s \<and> ly_crossings s' = ly_crossings s"
proof (induction rows arbitrary: n s)
  case (Cons row rows)
  let ?P = "\<lambda>m. ms_id m = ms_id row \<and> ms_status m = MemActive"
  let ?s = "emitLoyalty (MembershipEnded (ms_user row) (ms_id row) (ms_plan row) MemExpired)
     (s\<lparr>ly_memberships := tupd ?P (\<lambda>m. m\<lparr>ms_status := MemExpired\<rparr>) (ly_memberships s)\<rparr>)"
  show ?case
  proof (cases "taffected ?P (ly_memberships s) = 1")
    case True
    then have "expire_members rows (Suc n, ?s) = (n', s')" using Cons.prems by simp
    then have r: "loyalty_le ?s s' \<and> ly_entries s' = ly_entries ?s \<and> ly_crossings s' = ly_crossings ?s" by (rule Cons.IH)
    have e: "loyalty_le s ?s" "ly_entries ?s = ly_entries s" "ly_crossings ?s = ly_crossings s" by (simp_all add: emitLoyalty_def loyalty_le_def)
    show ?thesis using loyalty_le_trans [OF e(1)] r unfolding e(2,3) by blast
  next
    case False
    then have "expire_members rows (n, s) = (n', s')" using Cons.prems by simp
    then show ?thesis by (rule Cons.IH)
  qed
qed simp

lemma step_le:
  assumes "loyalty_step env s s'"
  shows "loyalty_le s s'"
  using assms
proof cases
  case step_award
  then show ?thesis using award_le by blast
next
  case step_reverse
  then show ?thesis using reverse_le by blast
next
  case step_activate
  then show ?thesis using activate_le by blast
next
  case step_sync
  then show ?thesis using sync_le by blast
next
  case step_cancel
  then show ?thesis using cancel_le by blast
next
  case step_expire
  then show ?thesis unfolding expireDue_def using expire_le by blast
qed

lemma run_le: "(loyalty_step env)\<^sup>*\<^sup>* s s' \<Longrightarrow> loyalty_le s s'"
  by (induction rule: rtranclp_induct) (auto intro: loyalty_le_trans step_le)

lemma lifetime_mono: "loyalty_le s s' \<Longrightarrow> lifetimeEarnedFor u s \<le> lifetimeEarnedFor u s'"
proof -
  assume "loyalty_le s s'"
  then obtain new where n: "ly_entries s' = ly_entries s @ new" by (auto simp: loyalty_le_def)
  have "0 \<le> sum_list (map pe_points (filter (\<lambda>e. pe_user e = u \<and> 0 < pe_points e) new))" by (intro sum_list_nonneg) auto
  then show ?thesis by (simp add: lifetimeEarnedFor_def n)
qed

end
