(* ===== verification/Loyalty_Demo.thy ===== *)
theory Loyalty_Demo
  imports Loyalty_Invariant
begin

text \<open>
  A concrete club for the witnesses of \<open>Loyalty_Properties\<close>: its states before and after an award, an award that is
  taken back, and a customer whose points are older than a year.
\<close>

section \<open>A club with two tiers\<close>

text \<open>Silver from 10 points, gold from 20; silver multiplies points by 1.5 and has a plan of thirty days.\<close>

definition no_settings :: "string \<Rightarrow> jsval" where "no_settings = (\<lambda>_. JUndefined)"

definition rolling_settings :: "string \<Rightarrow> jsval" where
  "rolling_settings = (\<lambda>k. if k = ''LOYALTY_TIER_BASIS'' then JString ''rolling_365'' else JUndefined)"

definition demo_club :: loyalty_db where
  "demo_club = \<lparr>ly_entries = [],
     ly_tiers = [\<lparr>ti_id = 41, ti_slug = ''gold'', ti_name = ''Gold'', ti_threshold = 20, ti_sortOrder = 2, ti_active = True\<rparr>,
       \<lparr>ti_id = 40, ti_slug = ''silver'', ti_name = ''Silver'', ti_threshold = 10, ti_sortOrder = 1, ti_active = True\<rparr>],
     ly_plans = [\<lparr>mp_id = 50, mp_slug = ''silver-club'', mp_tier = Some 40, mp_isPaid = False, mp_price = None, mp_period = Some 30,
       mp_active = True, mp_sortOrder = 1\<rparr>],
     ly_memberships = [],
     ly_benefits = [\<lparr>bn_id = 60, bn_source = (TierBenefit, 40), bn_type = BonusPointsMultiplier, bn_label = ''1.5'',
       bn_config = JObject [(''multiplierBp'', JNumber (Fin 15000))], bn_active = True, bn_sortOrder = 1\<rparr>],
     ly_crossings = [], ly_outbox = [], ly_next = 100\<rparr>"

definition booking_award :: "nat \<Rightarrow> award_input" where
  "booking_award b = \<lparr>aw_user = 7, aw_reason = BookingCompletedReason, aw_reference = (''booking'', b), aw_override = None\<rparr>"

definition silver_club :: loyalty_db where
  "silver_club = demo_club\<lparr>
     ly_entries := [\<lparr>pe_id = 100, pe_user = 7, pe_points = 10, pe_reason = BookingCompletedReason, pe_reference = Some (''booking'', 90),
       pe_multiplierBp = 10000, pe_basePoints = 10, pe_createdAt = 1000\<rparr>],
     ly_crossings := [\<lparr>tc_id = 101, tc_user = 7, tc_from = None, tc_to = Some ''silver'', tc_lifetime = 10\<rparr>],
     ly_outbox := [LoyaltyPointsEarned 7 100 10 BookingCompletedReason (''booking'', 90) 10, LoyaltyTierChanged 7 None (Some ''silver'') 10],
     ly_next := 102\<rparr>"

definition demo_reversal :: reverse_input where
  "demo_reversal = \<lparr>rv_reference = (''booking'', 90), rv_originalReason = BookingCompletedReason, rv_reversalReason = ManualAdjustment,
     rv_expectedBase = Some 10\<rparr>"

definition reversed_club :: loyalty_db where "reversed_club = snd (projr (reverse_award 2000 demo_reversal silver_club))"

definition lapsed_club :: loyalty_db where
  "lapsed_club = demo_club\<lparr>ly_entries := [\<lparr>pe_id = 71, pe_user = 7, pe_points = 25, pe_reason = ReviewSubmittedReason,
     pe_reference = Some (''review'', 80), pe_multiplierBp = 10000, pe_basePoints = 25, pe_createdAt = 0\<rparr>]\<rparr>"

lemma award_points_exact:
  assumes "b * m = 10000 * p" "\<bar>b * m\<bar> \<le> 2 ^ 53" "\<bar>b\<bar> < 2 ^ 31" "\<bar>m\<bar> < 2 ^ 31" "\<bar>p\<bar> < 2 ^ 31"
  shows "award_points b (Fin (of_int m)) = Inr (p, m)"
proof -
  have f: "fl (of_int (b * m)) = of_int (b * m)" "fl (of_int p) = of_int p" using assms by (intro fl_int; simp)+
  have "(of_int b * of_int m :: rat) = 10000 * of_int p" using assms(1) by (metis of_int_mult of_int_numeral)
  then have "fl (fl (of_int b * of_int m) / 10000) = of_int p" using f by simp
  moreover have "int4 (of_int x)" if "\<bar>x\<bar> < 2 ^ 31" for x
  proof -
    have "- (2 ^ 31) \<le> (of_int x :: rat)" "(of_int x :: rat) < 2 ^ 31"
      using that of_int_le_iff [of "- (2 ^ 31)" x, where 'a = rat] of_int_less_iff [of x "2 ^ 31", where 'a = rat] by auto
    then show ?thesis by (simp add: int4_def)
  qed
  moreover have "math_round (of_int p) = p" by (simp add: math_round_def floor_eq_iff)
  ultimately show ?thesis using assms(3-5) by (simp add: award_points_def)
qed

lemma demo_points:
  "base_points no_settings (booking_award b) = 10" "base_points rolling_settings (booking_award b) = 10"
  by (simp_all add: base_points_def booking_award_def pointsFor_def Let_def loyalty_policy_of_def config_int_def no_settings_def
      rolling_settings_def LOYALTY_POLICY_DEFAULTS_def)

lemma demo_multipliers:
  "pointsMultiplierBp 7 demo_club = Fin 10000" "pointsMultiplierBp 7 silver_club = Fin 15000" "pointsMultiplierBp 7 lapsed_club = Fin 10000"
  by code_simp+

lemma demo_award_points: "award_points 10 (Fin 10000) = Inr (10, 10000)" "award_points 10 (Fin 15000) = Inr (15, 15000)"
  using award_points_exact [of 10 10000 10] award_points_exact [of 10 15000 15] by simp_all

lemma award_fresh:
  assumes "base_points env inp \<noteq> 0" "award_points (base_points env inp) (pointsMultiplierBp (aw_user inp) (rd_multiplier rd)) = Inr (p, m)"
    "\<not> award_known inp s"
  shows "\<exists>r s'. award env now rd inp s = Inr (r, s') \<and> ar_awarded r \<and> ar_points r = p"
proof -
  have k: "award_known inp (s\<lparr>ly_next := n\<rparr>) = award_known inp s" for n by (simp add: award_known_def)
  show ?thesis
    using assms unfolding award_def Let_def base_points_def [symmetric] loyaltyUuid_def
    by (simp add: insert_points_known k bind_res_def split: prod.split)
qed

lemma fresh_before [simp]: "reads_before (fresh_reads s) s"
  by (simp add: reads_before_def fresh_reads_def loyalty_le_def)

lemma fresh_simps [simp]: "rd_multiplier (fresh_reads s) = s" "rd_tier (fresh_reads s) = s" "rd_total (fresh_reads s) = s"
  by (simp_all add: fresh_reads_def)

lemma demo_awards:
  "\<exists>r s'. award no_settings now (fresh_reads silver_club) (booking_award 91) silver_club = Inr (r, s') \<and> ar_awarded r \<and> ar_points r = 15"
  "\<exists>r s'. award rolling_settings now (fresh_reads lapsed_club) (booking_award 90) lapsed_club = Inr (r, s') \<and> ar_awarded r \<and> ar_points r = 10"
proof -
  have a: "aw_user (booking_award b) = 7" for b by (simp add: booking_award_def)
  have "\<not> award_known (booking_award 91) silver_club" "\<not> award_known (booking_award 90) lapsed_club"
    by (simp_all add: award_known_def booking_award_def silver_club_def lapsed_club_def)
  then show "\<exists>r s'. award no_settings now (fresh_reads silver_club) (booking_award 91) silver_club = Inr (r, s') \<and> ar_awarded r \<and> ar_points r = 15"
    "\<exists>r s'. award rolling_settings now (fresh_reads lapsed_club) (booking_award 90) lapsed_club = Inr (r, s') \<and> ar_awarded r \<and> ar_points r = 10"
    by (intro award_fresh; simp add: a demo_points demo_multipliers demo_award_points)+
qed

lemma demo_tiers:
  "currentTierSlug 7 demo_club = None" "currentTierSlug 7 silver_club = Some ''silver''" "currentTierSlug 7 lapsed_club = Some ''gold''"
  "tierSlugForPoints 10 demo_club = Some ''silver''" "tierSlugForPoints 25 silver_club = Some ''gold''"
  "tierSlugForPoints 10 lapsed_club = Some ''silver''" "tierSlugForPoints 35 lapsed_club = Some ''gold''"
  "lifetimeEarnedFor 7 silver_club = 10" "lifetimeEarnedFor 7 lapsed_club = 25"
  by code_simp+

lemma silver_club_step: "award no_settings 1000 (fresh_reads demo_club) (booking_award 90) demo_club =
    Inr (\<lparr>ar_awarded = True, ar_entry = Some 100, ar_points = 10, ar_lifetime = 10, ar_tierChanged = True\<rparr>, silver_club)"
proof -
  let ?row = "awarded_row 100 1000 (booking_award 90) 10 10000 10"
  let ?s = "demo_club\<lparr>ly_next := 101, ly_entries := ly_entries demo_club @ [?row]\<rparr>"
  have a: "aw_user (booking_award b) = 7" "aw_reason (booking_award b) = BookingCompletedReason" "aw_reference (booking_award b) = (''booking'', b)" for b
    by (simp_all add: booking_award_def)
  have n: "\<not> award_known (booking_award 90) (demo_club\<lparr>ly_next := 101\<rparr>)" "ly_next demo_club = 100" by (simp_all add: award_known_def demo_club_def)
  have l: "lifetimeEarned no_settings 1000 7 (demo_club\<lparr>ly_entries := ly_entries demo_club @ [?row]\<rparr>) = 10"
    by (simp add: lifetimeEarned_def demo_club_def awarded_row_def a no_settings_def rolling_365_def)
  have t: "tierSlugForPoints 10 (emitLoyalty ev ?s) = Some ''silver''" for ev
    using demo_tiers(4) tierSlug_cong [of "emitLoyalty ev ?s" demo_club 10] by simp
  have "recordTierCrossingIfChanged 7 None 10 (emitLoyalty (LoyaltyPointsEarned 7 100 10 BookingCompletedReason (''booking'', 90) 10) ?s) = (True, silver_club)"
    unfolding recordTierCrossingIfChanged_def t
    by (simp add: Let_def loyaltyUuid_def insert_crossing_def emitLoyalty_def silver_club_def demo_club_def awarded_row_def a)
  then show ?thesis
    unfolding award_def Let_def base_points_def [symmetric] loyaltyUuid_def
    using n l by (simp add: demo_points demo_multipliers demo_award_points demo_tiers a insert_points_known bind_res_def)
qed

lemma unsynchronised_step: "handle_booking_completed_loyalty no_settings 1000 False (fresh_reads demo_club) 7 90 demo_club = Inr silver_club"
  using silver_club_step unfolding handle_booking_completed_loyalty_def booking_award_def by (simp add: earn_def bind_res_def)

lemma synchronised_step: "(case handle_booking_completed_loyalty no_settings 1000 True (fresh_reads demo_club) 7 90 demo_club of Inr s \<Rightarrow> map ms_plan (ly_memberships s) | _ \<Rightarrow> []) = [50]"
proof -
  have "map ms_plan (ly_memberships (snd (syncFromTier 1000 7 10 silver_club))) = [50]" by code_simp
  then show ?thesis
    using silver_club_step unfolding handle_booking_completed_loyalty_def booking_award_def by (simp add: earn_def bind_res_def)
qed

lemma redelivered_step: "\<exists>s3. handle_booking_completed_loyalty no_settings 2000 True (fresh_reads silver_club) 7 90 silver_club = Inr s3"
proof -
  have k: "award_known (booking_award 90) (silver_club\<lparr>ly_next := n\<rparr>)" for n by (simp add: award_known_def booking_award_def silver_club_def)
  have "\<exists>r s3. award no_settings 2000 (fresh_reads silver_club) (booking_award 90) silver_club = Inr (r, s3) \<and> \<not> ar_awarded r"
    unfolding award_def Let_def base_points_def [symmetric] loyaltyUuid_def
    using k by (simp add: demo_points demo_multipliers demo_award_points insert_points_known bind_res_def not_awarded_def, simp add: booking_award_def demo_multipliers demo_award_points)
  then show ?thesis unfolding handle_booking_completed_loyalty_def booking_award_def by (auto simp: earn_def bind_res_def)
qed

lemma reversed_club_step: "reverse_award 2000 demo_reversal silver_club = Inr ((True, 10), reversed_club)"
  by code_simp

end
