(* ===== verification/Loyalty_Properties.thy ===== *)
theory Loyalty_Properties
  imports Loyalty_Demo
begin

text \<open>
  The properties of loyalty points, tiers and memberships, on the frames of \<open>Loyalty_Invariant\<close>.
\<close>

section \<open>Reversing an award\<close>

lemma find_append: "find P (xs @ ys) = (case find P xs of None \<Rightarrow> find P ys | Some x \<Rightarrow> Some x)"
  by (induction xs) auto

definition reversed_row :: "nat \<Rightarrow> int \<Rightarrow> reverse_input \<Rightarrow> points_entry \<Rightarrow> points_entry" where
  "reversed_row i now rv e = \<lparr>pe_id = i, pe_user = pe_user e, pe_points = - pe_points e, pe_reason = rv_reversalReason rv,
     pe_reference = Some (rv_reference rv), pe_multiplierBp = pe_multiplierBp e, pe_basePoints = - pe_basePoints e, pe_createdAt = now\<rparr>"

definition original_of :: "reverse_input \<Rightarrow> loyalty_db \<Rightarrow> points_entry option" where
  "original_of rv s = find (\<lambda>e. pe_reference e = Some (rv_reference rv) \<and> pe_reason e = rv_originalReason rv) (ly_entries s)"

definition reversal_known :: "reverse_input \<Rightarrow> loyalty_db \<Rightarrow> bool" where
  "reversal_known rv s \<longleftrightarrow> (\<exists>e \<in> set (ly_entries s). pe_reference e = Some (rv_reference rv) \<and> pe_reason e = rv_reversalReason rv)"

lemma insert_reversed:
  "insert_points (reversed_row i now rv e) s =
     (if reversal_known rv s then (False, s) else (True, s\<lparr>ly_entries := ly_entries s @ [reversed_row i now rv e]\<rparr>))"
proof -
  have k: "points_key (reversed_row i now rv e) = Some (rv_reference rv, rv_reversalReason rv)" by (simp add: points_key_Some reversed_row_def)
  have "points_key (reversed_row i now rv e) \<in> points_key ` set (ly_entries s) \<longleftrightarrow> reversal_known rv s"
    by (simp add: image_iff k reversal_known_def points_key_Some eq_commute [of "Some _" "points_key _"])
  then show ?thesis by (simp add: insert_points_def k)
qed

lemma reverse_cases:
  "reverse_award now rv s = (case original_of rv s of None \<Rightarrow> Inr ((False, 0), s)
     | Some e \<Rightarrow> if rv_expectedBase rv \<noteq> None \<and> rv_expectedBase rv \<noteq> Some (pe_basePoints e)
         then Inl (ReversalDisagrees (rv_originalReason rv) (fst (rv_reference rv)))
         else let s1 = s\<lparr>ly_next := Suc (ly_next s)\<rparr>
              in if reversal_known rv s then Inr ((False, 0), s1)
                 else Inr ((True, pe_points e), s1\<lparr>ly_entries := ly_entries s @ [reversed_row (ly_next s) now rv e]\<rparr>))"
proof -
  have "reversal_known rv (s\<lparr>ly_next := n\<rparr>) = reversal_known rv s" for n by (simp add: reversal_known_def)
  then show ?thesis
    unfolding reverse_award_def loyaltyUuid_def original_of_def [symmetric] reversed_row_def [symmetric]
    by (simp add: insert_reversed Let_def split: option.split)
qed

lemma original_le: "loyalty_le s s' \<Longrightarrow> original_of rv s = Some e \<Longrightarrow> original_of rv s' = Some e"
  by (auto simp: loyalty_le_def original_of_def find_append)

lemma reversal_known_le: "loyalty_le s s' \<Longrightarrow> reversal_known rv s \<Longrightarrow> reversal_known rv s'"
  by (auto simp: loyalty_le_def reversal_known_def)

lemma reverse_True:
  assumes "reverse_award now rv s = Inr ((True, p), s')"
  obtains e where "original_of rv s = Some e" "p = pe_points e" "rv_expectedBase rv = None \<or> rv_expectedBase rv = Some (pe_basePoints e)"
    "ly_entries s' = ly_entries s @ [reversed_row (ly_next s) now rv e]" "reversal_known rv s'" "loyalty_le s s'"
  using assms reverse_le [OF assms] that
  by (auto simp: reverse_cases Let_def reversal_known_def reversed_row_def split: option.splits if_splits)

text \<open>C33: Reversing an award takes back exactly the points it gave, multiplier included, from the customer it gave them to;
  the total that qualifies for a tier does not move, so neither does the tier; and whatever the service writes afterwards,
  a second reversal of the same award leaves every row alone.\<close>
theorem points_reversal_exact:
  assumes "reverse_award now rv s = Inr ((True, p), s')" "0 \<le> p" "(loyalty_step env)\<^sup>*\<^sup>* s' s''"
  shows "(\<exists>e \<in> set (ly_entries s). pe_reference e = Some (rv_reference rv) \<and> pe_reason e = rv_originalReason rv \<and> p = pe_points e \<and>
      (\<forall>u. points_balance u s' = points_balance u s - (if u = pe_user e then p else 0))) \<and>
    (\<forall>u. lifetimeEarnedFor u s' = lifetimeEarnedFor u s \<and> currentTierSlug u s' = currentTierSlug u s) \<and>
    (\<exists>s3. reverse_award now' rv s'' = Inr ((False, 0), s3) \<and> ly_entries s3 = ly_entries s'' \<and> ly_memberships s3 = ly_memberships s'' \<and>
      ly_crossings s3 = ly_crossings s'' \<and> ly_outbox s3 = ly_outbox s'')"
proof (rule reverse_True [OF assms(1)])
  fix e
  assume e: "original_of rv s = Some e" "p = pe_points e" "rv_expectedBase rv = None \<or> rv_expectedBase rv = Some (pe_basePoints e)"
    and n: "ly_entries s' = ly_entries s @ [reversed_row (ly_next s) now rv e]" and k: "reversal_known rv s'" and le: "loyalty_le s s'"
  have m: "e \<in> set (ly_entries s) \<and> pe_reference e = Some (rv_reference rv) \<and> pe_reason e = rv_originalReason rv"
    using e(1) unfolding original_of_def by (auto simp: find_Some_iff)
  have b: "points_balance u s' = points_balance u s - (if u = pe_user e then p else 0)" for u
    using e(2) by (simp add: points_balance_def n reversed_row_def)
  have l: "lifetimeEarnedFor u s' = lifetimeEarnedFor u s" for u
    using e(2) assms(2) by (simp add: lifetimeEarnedFor_def n reversed_row_def)
  have t: "currentTierSlug u s' = currentTierSlug u s" for u
    unfolding currentTierSlug_def l tierSlug_le [OF le] ..
  have s2: "loyalty_le s' s''" using assms(3) by (rule run_le)
  have "original_of rv s'' = Some e" "reversal_known rv s''"
    using original_le [OF s2 original_le [OF le e(1)]] reversal_known_le [OF s2 k] .
  then have "\<exists>s3. reverse_award now' rv s'' = Inr ((False, 0), s3) \<and> ly_entries s3 = ly_entries s'' \<and> ly_memberships s3 = ly_memberships s'' \<and>
      ly_crossings s3 = ly_crossings s'' \<and> ly_outbox s3 = ly_outbox s''"
    using e(3) by (auto simp: reverse_cases Let_def)
  then show ?thesis using m b l t e(2) by blast
qed

theorem points_reversal_exact_witness:
  "points_balance 7 reversed_club = points_balance 7 silver_club - 10 \<and> currentTierSlug 7 reversed_club = Some ''silver'' \<and>
    (\<exists>s3. reverse_award 3000 demo_reversal reversed_club = Inr ((False, 0), s3) \<and> ly_entries s3 = ly_entries reversed_club)"
proof -
  have u: "\<forall>e \<in> set (ly_entries silver_club). pe_user e = 7" and c: "currentTierSlug 7 silver_club = Some ''silver''" by code_simp+
  note p = points_reversal_exact [where env = no_settings and now' = 3000, OF reversed_club_step _ rtranclp.rtrancl_refl]
  show ?thesis using p u c by force
qed

section \<open>Tiers\<close>

text \<open>A customer's tier is the highest active one the earned total reaches, and no write of the service takes it away:
  not a reversal, not a cancelled or expired membership.\<close>
theorem tier_never_falls:
  assumes "(loyalty_step env)\<^sup>*\<^sup>* s s'" "tierForPoints (lifetimeEarnedFor u s) s = Some t"
  shows "\<exists>t'. tierForPoints (lifetimeEarnedFor u s') s' = Some t' \<and> ti_threshold t \<le> ti_threshold t' \<and>
    t' \<in> set (ly_tiers s) \<and> ti_active t' \<and> ti_threshold t' \<le> lifetimeEarnedFor u s' \<and>
    (\<forall>x \<in> set (ly_tiers s). ti_active x \<longrightarrow> ti_threshold x \<le> lifetimeEarnedFor u s' \<longrightarrow> ti_threshold x \<le> ti_threshold t')"
proof -
  have le: "loyalty_le s s'" using assms(1) by (rule run_le)
  obtain t' where t': "tierForPoints (lifetimeEarnedFor u s') s = Some t'" "ti_threshold t \<le> ti_threshold t'"
    using tierForPoints_mono [OF assms(2) lifetime_mono [OF le]] by blast
  have "tierForPoints (lifetimeEarnedFor u s') s' = Some t'" unfolding tier_le [OF le] by (rule t'(1))
  then show ?thesis using t' tierForPoints_Some [OF t'(1)] by blast
qed

theorem tier_never_falls_witness:
  "\<exists>t'. tierForPoints (lifetimeEarnedFor 7 reversed_club) reversed_club = Some t' \<and> 10 \<le> ti_threshold t'"
proof -
  have r: "(loyalty_step no_settings)\<^sup>*\<^sup>* silver_club reversed_club" using step_reverse [OF reversed_club_step] by blast
  have "map_option ti_threshold (tierForPoints (lifetimeEarnedFor 7 silver_club) silver_club) = Some 10" by code_simp
  then obtain t where t: "tierForPoints (lifetimeEarnedFor 7 silver_club) silver_club = Some t" "ti_threshold t = 10" by auto
  show ?thesis using tier_never_falls [OF r t(1)] t(2) by auto
qed

section \<open>Announced crossings\<close>

lemma lifetime_all_time: "\<not> rolling_365 env \<Longrightarrow> lifetimeEarned env now u s = lifetimeEarnedFor u s"
  by (simp add: lifetimeEarned_def lifetimeEarnedFor_def)

text \<open>What an award that succeeded did, row by row.\<close>

lemma award_done:
  assumes "award env now rd inp s = Inr (r, s')" "ar_awarded r"
  shows "ly_memberships s' = ly_memberships s \<and> ly_tiers s' = ly_tiers s \<and> award_known inp s' \<and>
    lifetimeEarnedFor u s' = lifetimeEarnedFor u s + (if u = aw_user inp then max 0 (ar_points r) else 0) \<and>
    (\<exists>row. ar_lifetime r = total_read env now rd row \<and> pe_user row = aw_user inp \<and> pe_points row = ar_points r \<and> pe_createdAt row = now) \<and>
    (\<exists>new. ly_crossings s' = ly_crossings s @ new \<and> (\<forall>c \<in> set new. tc_user c = aw_user inp \<and> tc_lifetime c = ar_lifetime r)) \<and>
    (ar_tierChanged r \<longrightarrow> tierSlugForPoints (ar_lifetime r) s \<noteq> currentTierSlug (aw_user inp) (rd_tier rd) \<and>
      LoyaltyTierChanged (aw_user inp) (currentTierSlug (aw_user inp) (rd_tier rd)) (tierSlugForPoints (ar_lifetime r) s) (ar_lifetime r) \<in> set (ly_outbox s')) \<and>
    (\<not> ar_tierChanged r \<longrightarrow> (\<exists>ev. ly_outbox s' = ly_outbox s @ [ev] \<and> (\<forall>v f t l. ev \<noteq> LoyaltyTierChanged v f t l)) \<and>
      (tierSlugForPoints (ar_lifetime r) s = currentTierSlug (aw_user inp) (rd_tier rd) \<or>
       (\<exists>c \<in> set (ly_crossings s). tc_user c = aw_user inp \<and> tc_lifetime c = ar_lifetime r)))"
proof (rule award_effect [OF assms])
  fix m row s2
  assume row: "row = awarded_row (ly_next s) now inp (ar_points r) m (base_points env inp)"
    and s2: "s2 = s\<lparr>ly_next := Suc (ly_next s), ly_entries := ly_entries s @ [row]\<rparr>"
    and l: "ar_lifetime r = total_read env now rd row"
    and c: "recordTierCrossingIfChanged (aw_user inp) (currentTierSlug (aw_user inp) (rd_tier rd)) (ar_lifetime r)
       (emitLoyalty (LoyaltyPointsEarned (aw_user inp) (ly_next s) (ar_points r) (aw_reason inp) (aw_reference inp) (ar_lifetime r)) s2) =
       (ar_tierChanged r, s')"
  let ?ev = "LoyaltyPointsEarned (aw_user inp) (ly_next s) (ar_points r) (aw_reason inp) (aw_reference inp) (ar_lifetime r)"
  have t: "tierSlugForPoints x (emitLoyalty ev s2) = tierSlugForPoints x s" for x ev
    by (rule tierSlug_cong) (simp add: s2)
  have cx: "ly_crossings (emitLoyalty ev s2) = ly_crossings s" "ly_outbox (emitLoyalty ev s2) = ly_outbox s @ [ev]" for ev
    by (simp_all add: s2 emitLoyalty_def)
  note e = crossing_effect [OF c, unfolded t cx]
  have en: "ly_entries s' = ly_entries s @ [row]" using e by (simp add: s2)
  have lf: "lifetimeEarnedFor u s' = lifetimeEarnedFor u s + (if u = aw_user inp then max 0 (ar_points r) else 0)"
    by (simp add: lifetimeEarnedFor_def en row awarded_row_def)
  have k: "award_known inp s'" by (simp add: award_known_def en row awarded_row_def)
  have ll: "\<exists>row. ar_lifetime r = total_read env now rd row \<and> pe_user row = aw_user inp \<and> pe_points row = ar_points r \<and> pe_createdAt row = now"
    using l by (intro exI [of _ row]) (simp add: row awarded_row_def)
  have old: "ly_memberships s' = ly_memberships s" "ly_tiers s' = ly_tiers s" using e by (simp_all add: s2)
  have cr: "\<exists>new. ly_crossings s' = ly_crossings s @ new \<and> (\<forall>c \<in> set new. tc_user c = aw_user inp \<and> tc_lifetime c = ar_lifetime r)"
    using e by blast
  have yes: "ar_tierChanged r \<longrightarrow> tierSlugForPoints (ar_lifetime r) s \<noteq> currentTierSlug (aw_user inp) (rd_tier rd) \<and>
      LoyaltyTierChanged (aw_user inp) (currentTierSlug (aw_user inp) (rd_tier rd)) (tierSlugForPoints (ar_lifetime r) s) (ar_lifetime r) \<in> set (ly_outbox s')"
    using e by simp
  have no: "\<not> ar_tierChanged r \<longrightarrow> (\<exists>ev. ly_outbox s' = ly_outbox s @ [ev] \<and> (\<forall>v f t l. ev \<noteq> LoyaltyTierChanged v f t l)) \<and>
      (tierSlugForPoints (ar_lifetime r) s = currentTierSlug (aw_user inp) (rd_tier rd) \<or>
       (\<exists>c \<in> set (ly_crossings s). tc_user c = aw_user inp \<and> tc_lifetime c = ar_lifetime r))"
  proof (intro impI conjI)
    assume n: "\<not> ar_tierChanged r"
    then have "ly_outbox s' = ly_outbox s @ [?ev]" using e by simp
    then show "\<exists>ev. ly_outbox s' = ly_outbox s @ [ev] \<and> (\<forall>v f t l. ev \<noteq> LoyaltyTierChanged v f t l)" by (intro exI [of _ ?ev]) simp
    show "tierSlugForPoints (ar_lifetime r) s = currentTierSlug (aw_user inp) (rd_tier rd) \<or>
       (\<exists>c \<in> set (ly_crossings s). tc_user c = aw_user inp \<and> tc_lifetime c = ar_lifetime r)" using e n by blast
  qed
  show ?thesis using old k lf ll cr yes no by blast
qed

text \<open>Under the default basis a recorded crossing was at a total that has been reached.\<close>

definition crossings_reached :: "loyalty_db \<Rightarrow> bool" where
  "crossings_reached s \<longleftrightarrow> (\<forall>c \<in> set (ly_crossings s). tc_lifetime c \<le> lifetimeEarnedFor (tc_user c) s)"

lemma crossings_reached_frame: "loyalty_le s s' \<Longrightarrow> ly_crossings s' = ly_crossings s \<Longrightarrow> crossings_reached s \<Longrightarrow> crossings_reached s'"
  unfolding crossings_reached_def using lifetime_mono order_trans by metis

text \<open>Under the default basis the total that is read is that of every row it saw, and the award's own.\<close>

lemma award_lifetime:
  assumes "award env now rd inp s = Inr (r, s')" "ar_awarded r" "\<not> rolling_365 env"
  shows "ar_lifetime r = lifetimeEarnedFor (aw_user inp) (rd_total rd) + max 0 (ar_points r)"
proof -
  obtain row where "ar_lifetime r = total_read env now rd row" "pe_user row = aw_user inp" "pe_points row = ar_points r"
    using award_done [OF assms(1,2)] by blast
  then show ?thesis
    unfolding total_read_def lifetime_all_time [OF assms(3)] by (simp add: lifetimeEarnedFor_def)
qed

lemma award_reached:
  assumes "award env now rd inp s = Inr (r, s')" "\<not> rolling_365 env" "crossings_reached s" "reads_before rd s"
  shows "crossings_reached s'"
proof (cases "ar_awarded r")
  case False
  then show ?thesis using award_not [OF assms(1) False] crossings_reached_frame assms(3) by blast
next
  case True
  obtain new where n: "ly_crossings s' = ly_crossings s @ new" "\<forall>c \<in> set new. tc_user c = aw_user inp \<and> tc_lifetime c = ar_lifetime r"
    using award_done [OF assms(1) True] by blast
  have m: "lifetimeEarnedFor u s \<le> lifetimeEarnedFor u s'" for u using award_le [OF assms(1)] by (rule lifetime_mono)
  have "tc_lifetime c \<le> lifetimeEarnedFor (tc_user c) s'" if "c \<in> set (ly_crossings s)" for c
    using that assms(3) m [of "tc_user c"] unfolding crossings_reached_def by force
  moreover have "lifetimeEarnedFor (aw_user inp) (rd_total rd) \<le> lifetimeEarnedFor (aw_user inp) s"
    using assms(4) lifetime_mono unfolding reads_before_def by blast
  then have "ar_lifetime r \<le> lifetimeEarnedFor (aw_user inp) s'"
    using award_lifetime [OF assms(1) True assms(2)] award_done [OF assms(1) True, of "aw_user inp"] by simp
  ultimately show ?thesis using n(2) unfolding crossings_reached_def n(1) by auto
qed

lemma step_reached:
  assumes "loyalty_step env s s'" "\<not> rolling_365 env" "crossings_reached s"
  shows "crossings_reached s'"
  using assms(1)
proof cases
  case step_award
  then show ?thesis using award_reached assms(2,3) by blast
next
  case step_reverse
  then show ?thesis using reverse_le crossings_reached_frame assms(3) by blast
next
  case step_activate
  then show ?thesis using activate_le crossings_reached_frame assms(3) by blast
next
  case step_sync
  then show ?thesis using sync_le crossings_reached_frame assms(3) by blast
next
  case step_cancel
  then show ?thesis using cancel_le crossings_reached_frame assms(3) by blast
next
  case step_expire
  then show ?thesis unfolding expireDue_def using expire_le crossings_reached_frame assms(3) by blast
qed

lemma run_reached:
  "(loyalty_step env)\<^sup>*\<^sup>* s s' \<Longrightarrow> \<not> rolling_365 env \<Longrightarrow> crossings_reached s \<Longrightarrow> crossings_reached s'"
  by (induction rule: rtranclp_induct) (auto intro: step_reached)

text \<open>C34: Under the default basis an award announces a change of tier only when the tier of the total it read, its own points
  included, is another one than the tier it read before its insert, and those are the tiers it announces. When no other points of
  the customer were committed between these reads and the award's own commit, in any history that starts without recorded
  crossings, also one of racing awards, it
  announces a change exactly when the customer's tier, read again afterwards, is another one, and then exactly that change.\<close>
theorem tier_change_announced_exactly:
  assumes "(loyalty_step env)\<^sup>*\<^sup>* s0 s" "ly_crossings s0 = []" "\<not> rolling_365 env"
    and "award env now rd inp s = Inr (r, s')" "ar_awarded r" "reads_before rd s"
  shows "(ar_tierChanged r \<longrightarrow> currentTierSlug (aw_user inp) (rd_tier rd) \<noteq> tierSlugForPoints (ar_lifetime r) s' \<and>
      ar_lifetime r = lifetimeEarnedFor (aw_user inp) (rd_total rd) + max 0 (ar_points r) \<and>
      LoyaltyTierChanged (aw_user inp) (currentTierSlug (aw_user inp) (rd_tier rd)) (tierSlugForPoints (ar_lifetime r) s') (ar_lifetime r) \<in> set (ly_outbox s')) \<and>
    (lifetimeEarnedFor (aw_user inp) (rd_tier rd) = lifetimeEarnedFor (aw_user inp) s \<and>
     lifetimeEarnedFor (aw_user inp) (rd_total rd) = lifetimeEarnedFor (aw_user inp) s \<longrightarrow>
      ar_tierChanged r = (currentTierSlug (aw_user inp) s' \<noteq> currentTierSlug (aw_user inp) s) \<and>
      (ar_tierChanged r \<longrightarrow> LoyaltyTierChanged (aw_user inp) (currentTierSlug (aw_user inp) s) (currentTierSlug (aw_user inp) s') (ar_lifetime r)
        \<in> set (ly_outbox s')))"
proof -
  let ?u = "aw_user inp"
  note d = award_done [OF assms(4,5)] and l = award_lifetime [OF assms(4,5,3)]
  have r: "crossings_reached s" by (rule run_reached [OF assms(1,3)]) (simp add: crossings_reached_def assms(2))
  have t: "tierSlugForPoints x s' = tierSlugForPoints x s" for x by (rule tierSlug_le [OF award_le [OF assms(4)]])
  have yes: "ar_tierChanged r \<longrightarrow> currentTierSlug ?u (rd_tier rd) \<noteq> tierSlugForPoints (ar_lifetime r) s' \<and>
      LoyaltyTierChanged ?u (currentTierSlug ?u (rd_tier rd)) (tierSlugForPoints (ar_lifetime r) s') (ar_lifetime r) \<in> set (ly_outbox s')"
    unfolding t using d by metis
  have alone: "ar_tierChanged r = (currentTierSlug ?u s' \<noteq> currentTierSlug ?u s) \<and>
      (ar_tierChanged r \<longrightarrow> LoyaltyTierChanged ?u (currentTierSlug ?u s) (currentTierSlug ?u s') (ar_lifetime r) \<in> set (ly_outbox s'))"
    if q: "lifetimeEarnedFor ?u (rd_tier rd) = lifetimeEarnedFor ?u s" "lifetimeEarnedFor ?u (rd_total rd) = lifetimeEarnedFor ?u s"
  proof -
    have "loyalty_le (rd_tier rd) s" using assms(6) by (simp add: reads_before_def)
    then have b: "currentTierSlug ?u (rd_tier rd) = currentTierSlug ?u s"
      unfolding currentTierSlug_def q(1) by (rule tierSlug_le [symmetric])
    have a: "currentTierSlug ?u s' = tierSlugForPoints (ar_lifetime r) s'"
      using d [of ?u] l q(2) by (simp add: currentTierSlug_def)
    have "tierSlugForPoints (ar_lifetime r) s = currentTierSlug ?u s" if n: "\<not> ar_tierChanged r"
    proof (cases "\<exists>c \<in> set (ly_crossings s). tc_user c = ?u \<and> tc_lifetime c = ar_lifetime r")
      case True
      then have "ar_lifetime r \<le> lifetimeEarnedFor ?u s" using r unfolding crossings_reached_def by auto
      then have "ar_lifetime r = lifetimeEarnedFor ?u s" using l q(2) by linarith
      then show ?thesis by (simp add: currentTierSlug_def)
    next
      case False
      then show ?thesis using d n b by metis
    qed
    then show ?thesis using yes a b t by metis
  qed
  show ?thesis using yes alone l by blast
qed

theorem tier_change_announced_exactly_witness:
  "\<exists>s'. currentTierSlug 7 s' \<noteq> currentTierSlug 7 silver_club \<and>
    LoyaltyTierChanged 7 (currentTierSlug 7 silver_club) (currentTierSlug 7 s') 25 \<in> set (ly_outbox s')"
proof -
  have r: "(loyalty_step no_settings)\<^sup>*\<^sup>* demo_club silver_club" using step_award [OF fresh_before silver_club_step] by blast
  have h: "ly_crossings demo_club = []" "\<not> rolling_365 no_settings" "aw_user (booking_award 91) = 7"
    by (simp_all add: demo_club_def rolling_365_def no_settings_def booking_award_def)
  obtain r s' where a: "award no_settings 2000 (fresh_reads silver_club) (booking_award 91) silver_club = Inr (r, s')" "ar_awarded r" "ar_points r = 15"
    using demo_awards(1) by blast
  have l: "lifetimeEarnedFor 7 s' = 25" using award_done [OF a(1,2), of 7] a(3) h(3) by (simp add: demo_tiers)
  then have "currentTierSlug 7 s' = Some ''gold''"
    unfolding currentTierSlug_def using tierSlug_le [OF award_le [OF a(1)]] demo_tiers(5) by metis
  moreover have "ar_lifetime r = 25" using award_lifetime [OF a(1,2) h(2)] a(3) h(3) by (simp add: demo_tiers)
  ultimately show ?thesis
    using tier_change_announced_exactly [OF r h(1,2) a(1,2) fresh_before] unfolding h(3) by (intro exI [of _ s']) (auto simp: demo_tiers)
qed

text \<open>Two awards that race both miss the crossing they cause together: each of them reads the ledger without the other's row,
  each total stays inside the tier the customer has, and when both have committed the tier is another one, which no event and no
  crossing row announces.\<close>
theorem concurrent_awards_miss_crossing:
  assumes "\<not> rolling_365 env" "award env now (fresh_reads s) inp s = Inr (r, s1)" "ar_awarded r"
    and "award env now' (fresh_reads s) inp' s1 = Inr (r', s2)" "ar_awarded r'" "aw_user inp' = aw_user inp"
    and "tierSlugForPoints (lifetimeEarnedFor (aw_user inp) s + max 0 (ar_points r)) s = currentTierSlug (aw_user inp) s"
    and "tierSlugForPoints (lifetimeEarnedFor (aw_user inp) s + max 0 (ar_points r')) s = currentTierSlug (aw_user inp) s"
    and "tierSlugForPoints (lifetimeEarnedFor (aw_user inp) s + max 0 (ar_points r) + max 0 (ar_points r')) s \<noteq> currentTierSlug (aw_user inp) s"
  shows "currentTierSlug (aw_user inp) s2 \<noteq> currentTierSlug (aw_user inp) s \<and> \<not> ar_tierChanged r \<and> \<not> ar_tierChanged r' \<and>
    (\<forall>v f t l. LoyaltyTierChanged v f t l \<in> set (ly_outbox s2) \<longrightarrow> LoyaltyTierChanged v f t l \<in> set (ly_outbox s))"
proof -
  let ?u = "aw_user inp" and ?l = "lifetimeEarnedFor (aw_user inp) s"
  note d = award_done [OF assms(2,3)] and d' = award_done [OF assms(4,5)]
  note le = award_le [OF assms(2)] award_le [OF assms(4)]
  have l: "ar_lifetime r = ?l + max 0 (ar_points r)" "ar_lifetime r' = ?l + max 0 (ar_points r')"
    using award_lifetime [OF assms(2,3,1)] award_lifetime [OF assms(4,5,1)] assms(6) by simp_all
  have n: "\<not> ar_tierChanged r" using d assms(7) unfolding l by auto
  have t1: "tierSlugForPoints x s1 = tierSlugForPoints x s" for x by (rule tierSlug_le [OF le(1)])
  have n': "\<not> ar_tierChanged r'" using d' assms(6,8) unfolding l t1 by auto
  have "lifetimeEarnedFor ?u s2 = ?l + max 0 (ar_points r) + max 0 (ar_points r')"
    using d [of ?u] d' [of ?u] assms(6) by simp
  moreover have "tierSlugForPoints x s2 = tierSlugForPoints x s" for x using tierSlug_le [OF le(2)] t1 by metis
  ultimately have "currentTierSlug ?u s2 \<noteq> currentTierSlug ?u s" using assms(9) by (simp add: currentTierSlug_def [of _ s2])
  moreover obtain e1 e2 where "ly_outbox s1 = ly_outbox s @ [e1]" "ly_outbox s2 = ly_outbox s1 @ [e2]"
    "\<forall>v f t l. e1 \<noteq> LoyaltyTierChanged v f t l" "\<forall>v f t l. e2 \<noteq> LoyaltyTierChanged v f t l"
    using d d' n n' by metis
  ultimately show ?thesis using n n' by auto
qed

definition review_award :: "nat \<Rightarrow> award_input" where
  "review_award b = \<lparr>aw_user = 7, aw_reason = ReviewSubmittedReason, aw_reference = (''review'', b), aw_override = None\<rparr>"

theorem concurrent_awards_miss_crossing_witness:
  "\<exists>s1 s2. (loyalty_step no_settings)\<^sup>*\<^sup>* demo_club s1 \<and> (loyalty_step no_settings)\<^sup>*\<^sup>* s1 s2 \<and> currentTierSlug 7 demo_club = None \<and>
    currentTierSlug 7 s2 \<noteq> None \<and> (\<forall>f t l. LoyaltyTierChanged 7 f t l \<notin> set (ly_outbox s2))"
proof -
  have h: "\<not> rolling_365 no_settings" "aw_user (review_award b) = 7" for b
    by (simp_all add: rolling_365_def no_settings_def review_award_def)
  have p: "base_points no_settings (review_award b) = 5" for b
    by (simp add: base_points_def review_award_def pointsFor_def Let_def loyalty_policy_of_def config_int_def no_settings_def LOYALTY_POLICY_DEFAULTS_def)
  have m: "award_points 5 (Fin 10000) = Inr (5, 10000)" using award_points_exact [of 5 10000 5] by simp
  have fr: "\<exists>r s'. award no_settings 1000 (fresh_reads demo_club) (review_award b) s = Inr (r, s') \<and> ar_awarded r \<and> ar_points r = 5"
    if "\<not> award_known (review_award b) s" for b s
    by (rule award_fresh [OF _ _ that]) (simp_all add: p m h demo_multipliers)
  have "\<not> award_known (review_award 1) demo_club" by (simp add: award_known_def demo_club_def)
  then obtain r s1 where a: "award no_settings 1000 (fresh_reads demo_club) (review_award 1) demo_club = Inr (r, s1)" "ar_awarded r" "ar_points r = 5"
    using fr by blast
  obtain row where e: "ly_entries s1 = ly_entries demo_club @ [row]" "pe_reference row = Some (''review'', 1)"
    by (rule award_effect [OF a(1,2)]) (use crossing_effect in \<open>fastforce simp: awarded_row_def review_award_def\<close>)
  have "\<not> award_known (review_award 2) s1" by (auto simp: award_known_def e review_award_def demo_club_def)
  then obtain r' s2 where a': "award no_settings 1000 (fresh_reads demo_club) (review_award 2) s1 = Inr (r', s2)" "ar_awarded r'" "ar_points r' = 5"
    using fr by blast
  have t: "tierSlugForPoints 5 demo_club = None" "tierSlugForPoints 10 demo_club \<noteq> None" "currentTierSlug 7 demo_club = None"
    "lifetimeEarnedFor 7 demo_club = 0" "ly_outbox demo_club = []" by code_simp+
  have "reads_before (fresh_reads demo_club) s1" using award_le [OF a(1)] by (simp add: reads_before_def)
  then have st: "loyalty_step no_settings demo_club s1" "loyalty_step no_settings s1 s2"
    using step_award [OF fresh_before a(1)] step_award a'(1) by blast+
  have u: "aw_user (review_award 2) = aw_user (review_award 1)" by (simp add: h)
  have c: "currentTierSlug 7 s2 \<noteq> currentTierSlug 7 demo_club \<and>
    (\<forall>v f t l. LoyaltyTierChanged v f t l \<in> set (ly_outbox s2) \<longrightarrow> LoyaltyTierChanged v f t l \<in> set (ly_outbox demo_club))"
    using concurrent_awards_miss_crossing [OF h(1) a(1,2) a'(1,2) u] t unfolding h(2) a(3) a'(3) by simp
  show ?thesis using c st unfolding t by (intro exI [of _ s1] exI [of _ s2]) auto
qed

text \<open>C35: With the rolling basis the crossing is decided by the total of the last year while the tier, its benefits and the
  next award read the total of all time. Take an award of points, with which no other write interferes, of a customer all of whose earlier points are older than a year, such
  that the tier of these points alone is another one than the customer has and no crossing of the customer at exactly this
  total is recorded yet. The award announces the tier of its own points alone. The customer's tier afterwards is that of
  everything ever earned: never below the tier before the award, and never below the tier that is announced.\<close>
theorem lapsed_customer_announced_down:
  assumes "award env now (fresh_reads s) inp s = Inr (r, s')" "ar_awarded r" "rolling_365 env" "0 < ar_points r"
    and "\<forall>e \<in> set (ly_entries s). pe_user e = aw_user inp \<longrightarrow> pe_createdAt e < now - YEAR_MS"
    and "\<forall>c \<in> set (ly_crossings s). tc_user c \<noteq> aw_user inp \<or> tc_lifetime c \<noteq> ar_points r"
    and "tierSlugForPoints (ar_points r) s \<noteq> currentTierSlug (aw_user inp) s"
  shows "ar_tierChanged r \<and>
    LoyaltyTierChanged (aw_user inp) (currentTierSlug (aw_user inp) s) (tierSlugForPoints (ar_points r) s) (ar_points r) \<in> set (ly_outbox s') \<and>
    currentTierSlug (aw_user inp) s' = tierSlugForPoints (lifetimeEarnedFor (aw_user inp) s + ar_points r) s \<and>
    (\<forall>t. tierForPoints (lifetimeEarnedFor (aw_user inp) s) s = Some t \<or> tierForPoints (ar_points r) s = Some t \<longrightarrow>
       (\<exists>t'. tierForPoints (lifetimeEarnedFor (aw_user inp) s') s' = Some t' \<and> ti_threshold t \<le> ti_threshold t'))"
proof -
  let ?u = "aw_user inp"
  note d = award_done [OF assms(1,2), of ?u]
  have y: "0 \<le> YEAR_MS" by (simp add: YEAR_MS_def)
  have f: "filter (\<lambda>e. pe_user e = ?u \<and> 0 < pe_points e \<and> now - YEAR_MS \<le> pe_createdAt e) (ly_entries s) = []"
    using assms(5) by (auto simp: filter_empty_conv)
  have l: "ar_lifetime r = ar_points r"
  proof -
    obtain row where "ar_lifetime r = total_read env now (fresh_reads s) row" "pe_user row = ?u" "pe_points row = ar_points r" "pe_createdAt row = now"
      using d by blast
    then show ?thesis using f assms(3,4) y by (simp add: total_read_def lifetimeEarned_def)
  qed
  have t: "tierForPoints x s' = tierForPoints x s" for x by (rule tier_le [OF award_le [OF assms(1)]])
  have lt: "lifetimeEarnedFor ?u s' = lifetimeEarnedFor ?u s + ar_points r" using d assms(4) by simp
  then have "currentTierSlug ?u s' = tierSlugForPoints (lifetimeEarnedFor ?u s + ar_points r) s"
    unfolding currentTierSlug_def using tierSlug_le [OF award_le [OF assms(1)]] by metis
  moreover have "ar_tierChanged r" using d assms(6,7) unfolding l by auto
  moreover have "0 \<le> lifetimeEarnedFor ?u s" unfolding lifetimeEarnedFor_def by (intro sum_list_nonneg) auto
  then have "lifetimeEarnedFor ?u s \<le> lifetimeEarnedFor ?u s'" "ar_points r \<le> lifetimeEarnedFor ?u s'" using lt assms(4) by simp_all
  then have "\<exists>t'. tierForPoints (lifetimeEarnedFor ?u s') s' = Some t' \<and> ti_threshold t \<le> ti_threshold t'"
    if "tierForPoints (lifetimeEarnedFor ?u s) s = Some t \<or> tierForPoints (ar_points r) s = Some t" for t
    unfolding t using that tierForPoints_mono by blast
  ultimately show ?thesis using d unfolding l by auto
qed

theorem lapsed_customer_announced_down_witness:
  "\<exists>s'. LoyaltyTierChanged 7 (Some ''gold'') (Some ''silver'') 10 \<in> set (ly_outbox s') \<and> currentTierSlug 7 s' = Some ''gold''"
proof -
  have r: "rolling_365 rolling_settings" by (simp add: rolling_365_def rolling_settings_def)
  have o: "\<forall>e \<in> set (ly_entries lapsed_club). pe_user e = aw_user (booking_award 90) \<longrightarrow> pe_createdAt e < 2 * YEAR_MS - YEAR_MS"
    "\<forall>c \<in> set (ly_crossings lapsed_club). tc_user c \<noteq> aw_user (booking_award 90) \<or> tc_lifetime c \<noteq> 10" by code_simp+
  have s: "tierSlugForPoints 10 lapsed_club = Some ''silver''" "currentTierSlug 7 lapsed_club = Some ''gold''"
    "tierSlugForPoints (lifetimeEarnedFor 7 lapsed_club + 10) lapsed_club = Some ''gold''" by (simp_all add: demo_tiers)
  have u: "aw_user (booking_award 90) = 7" by (simp add: booking_award_def)
  obtain a s' where a: "award rolling_settings (2 * YEAR_MS) (fresh_reads lapsed_club) (booking_award 90) lapsed_club = Inr (a, s')" "ar_awarded a" "ar_points a = 10"
    using demo_awards(2) by blast
  show ?thesis
    using lapsed_customer_announced_down [OF a(1,2) r, unfolded u a(3) s] o unfolding u by (intro exI [of _ s']) auto
qed

section \<open>Earning once\<close>

lemma earn_cases:
  assumes "earn env now reached rd inp s = Inr s'"
  obtains r s1 where "award env now rd inp s = Inr (r, s1)" "\<not> ar_awarded r" "s' = s1"
  | r s1 where "award env now rd inp s = Inr (r, s1)" "ar_awarded r" "loyalty_le s1 s'" "ly_entries s' = ly_entries s1"
    "\<not> reached \<Longrightarrow> s' = s1"
proof -
  obtain r s1 where a: "award env now rd inp s = Inr (r, s1)" using assms by (cases "award env now rd inp s") (auto simp: earn_def)
  show ?thesis
  proof (cases "ar_awarded r")
    case False
    then show ?thesis using assms a that(1) by (simp add: earn_def)
  next
    case True
    obtain b t where t: "syncFromTier now (aw_user inp) (ar_lifetime r) s1 = (b, t)" by (metis prod.collapse)
    have "s' = (if reached then t else s1)" using assms a True t by (simp add: earn_def split: if_splits)
    then show ?thesis using that(2) [OF a True] sync_le [OF t] by (cases reached) auto
  qed
qed

lemma award_known_le: "loyalty_le s s' \<Longrightarrow> award_known inp s \<Longrightarrow> award_known inp s'"
  by (auto simp: loyalty_le_def award_known_def)

lemma award_settled:
  assumes "award env now rd inp s = Inr (r, s')"
  shows "base_points env inp = 0 \<or> award_known inp s'"
proof (cases "ar_awarded r")
  case True
  then show ?thesis using award_done [OF assms True] by blast
next
  case False
  have "award_known inp (s\<lparr>ly_next := n\<rparr>) = award_known inp s" for n by (simp add: award_known_def)
  then show ?thesis
    using assms False unfolding award_def Let_def base_points_def [symmetric] loyaltyUuid_def
    by (auto simp: bind_res_Inr insert_points_known split: if_splits prod.splits)
qed

lemma award_again:
  assumes "base_points env inp = 0 \<or> award_known inp s" "award env now rd inp s = Inr (r, s')"
  shows "\<not> ar_awarded r"
  using award_effect [OF assms(2)] assms(1) by metis

lemma earn_once:
  assumes "earn env now reached rd inp s = Inr s1" "(loyalty_step env)\<^sup>*\<^sup>* s1 s2" "earn env now' reached' rd' inp s2 = Inr s3"
  shows "ly_entries s3 = ly_entries s2 \<and> ly_memberships s3 = ly_memberships s2 \<and> ly_crossings s3 = ly_crossings s2 \<and> ly_outbox s3 = ly_outbox s2"
proof -
  have "base_points env inp = 0 \<or> award_known inp s1"
    using assms(1) by (rule earn_cases) (use award_settled award_known_le in blast)+
  then have k: "base_points env inp = 0 \<or> award_known inp s2" using award_known_le [OF run_le [OF assms(2)]] by blast
  from assms(3) show ?thesis
  proof (rule earn_cases)
    fix r t assume "award env now' rd' inp s2 = Inr (r, t)" "\<not> ar_awarded r" "s3 = t"
    then show ?thesis using award_not by blast
  next
    fix r t assume "award env now' rd' inp s2 = Inr (r, t)" "ar_awarded r"
    then show ?thesis using award_again k by blast
  qed
qed

text \<open>C36: Handling \<open>BookingCompleted\<close> again writes nothing, whatever was written since and whatever either run
  read: the points are given once. The same
  holds when the first run awarded the points and was lost before it synchronised the membership (\<open>reached\<close> is false): no
  redelivery makes the synchronisation up, so the customer is left without the membership of the tier.\<close>
theorem completed_booking_earns_once:
  assumes "handle_booking_completed_loyalty env now reached rd c b s = Inr s1" "(loyalty_step env)\<^sup>*\<^sup>* s1 s2"
    and "handle_booking_completed_loyalty env now' True rd' c b s2 = Inr s3"
  shows "ly_entries s3 = ly_entries s2 \<and> ly_memberships s3 = ly_memberships s2 \<and> ly_crossings s3 = ly_crossings s2 \<and> ly_outbox s3 = ly_outbox s2"
  using earn_once [OF assms(1,2,3) [unfolded handle_booking_completed_loyalty_def]] .

theorem completed_booking_earns_once_witness:
  "\<exists>s3. handle_booking_completed_loyalty no_settings 1000 False (fresh_reads demo_club) 7 90 demo_club = Inr silver_club \<and>
    handle_booking_completed_loyalty no_settings 2000 True (fresh_reads silver_club) 7 90 silver_club = Inr s3 \<and> ly_memberships s3 = [] \<and>
    (case handle_booking_completed_loyalty no_settings 1000 True (fresh_reads demo_club) 7 90 demo_club of Inr s \<Rightarrow> map ms_plan (ly_memberships s) | _ \<Rightarrow> []) = [50]"
proof -
  obtain s3 where r: "handle_booking_completed_loyalty no_settings 2000 True (fresh_reads silver_club) 7 90 silver_club = Inr s3" using redelivered_step by blast
  have m: "ly_memberships silver_club = []" by (simp add: silver_club_def demo_club_def)
  show ?thesis
    using completed_booking_earns_once [OF unsynchronised_step rtranclp.rtrancl_refl r] unsynchronised_step synchronised_step m r by metis
qed

end
