(* ===== verification/Spec2Isabelle.thy ===== *)
theory Spec2Isabelle
  imports Booking_Properties Order_Properties Payment_Properties Credit_Properties Checkout_Properties Outcome_Properties Outbox_Properties Finance_Properties Loyalty_Properties
begin

text \<open>
  The core of BeauClick v3 (\<open>v3/\<close>, a NestJS monorepo over one PostgreSQL database): a customer books a slot of a professional,
  an order is priced and written, a gateway collects the money, the booking is confirmed, and events carry what happened into the
  financial, loyalty and outcome services. Paths below are relative to \<open>src/v3\<close>.

  \<^bold>\<open>How the program is modelled.\<close>
  A schema of the database is a record of tables, a table is the list of its rows in insertion order, and a method of a service is a
  function from the state to an error or to a result and the next state: an error is a thrown exception and a rollback. CHECK
  constraints, unique indexes and triggers the code relies on are part of the writes that can violate them. A transaction is one
  step; a method of several transactions is several definitions, so that other steps can stand between them. Where a method of
  the bookings, the payments, the legacy ledger or the points reads without a lock and writes later, its reads are an argument of
  their own (\<open>rd\<close>, \<open>award_reads\<close>, a prepared verification), and the histories allow for it at least the rows of every earlier
  state; the reads of one cancellation are of one such state. Every other step, such as the creation of a booking, the
  synchronisation of a membership, the reschedule of a remedy or the confirmation inside a checkout, reads the state it writes.
  Numbers that reach the code from outside are JavaScript values (\<open>Js_Number\<close>, \<open>Js_Value\<close>): doubles with
  the rounding of IEEE 754 where it can be seen, \<open>int\<close> after a guard or in a \<open>bigint\<close>. Identifiers are numbers that grow with time
  (UUIDv7). Code outside the repository (gateways, collation, time-zone tables) and ports bound by the composition root are
  parameters.

  \<^bold>\<open>The parts.\<close>
  \<^item> \<open>Prelude\<close>: results, tables, compare-and-swap updates, and the two interfaces several components implement, an idempotent
    log and a ranked status machine. \<open>Row_History\<close>: tables whose rows only move forward.
  \<^item> \<open>Money\<close> (\<open>libs/money\<close>), \<open>Pricing\<close> (\<open>services/commerce/src/pricing\<close>), and the contracts of
    \<open>packages/commercial-policy-contract\<close>: \<open>Outcome_Policy\<close>, \<open>Collection_Policy\<close>, \<open>Commission\<close>; \<open>Outcome_Evaluator\<close>
    (\<open>evaluate-booking-outcome.ts\<close>) is proved equal to the ratified table of rules.
  \<^item> \<open>Booking_Model\<close>, \<open>Availability\<close> (\<open>services/booking\<close>): claims, holds, confirmations, cancellations, reschedules, no-shows and
    the calendar. \<open>Booking_Invariant\<close> couples slots and bookings, \<open>Booking_Steps\<close> is the status machine, and
    \<open>Booking_Properties\<close> has the exclusion of double bookings. Its histories have a flag \<open>exact\<close>: when it is set, no cancellation
    or expiry acts on a row that a reschedule has moved to another slot since it was read. Without it every live booking still has its
    slot, but a slot can be left behind by a cancelled booking, which \<open>stale_cancel_leaks_slot\<close> shows.
  \<^item> \<open>Order_Model\<close> (\<open>services/commerce/src/order\<close>): preview, creation, capture, cancellation, refund; \<open>Order_Invariant\<close>,
    \<open>Order_Steps\<close>, \<open>Order_Properties\<close>: status and money agree, one capture, what a preview binds. Catalogue, policies and discounts
    may be others at every creation of a history.
  \<^item> \<open>Payment_Provider\<close>, \<open>Payment_Model\<close>, \<open>Payment_Refund\<close> (\<open>services/payment\<close>): intents, attempts, verification, refunds, the
    registry and the sandbox gateway. \<open>Payment_Invariant\<close> holds under every interleaving of their phases.
  \<^item> \<open>Subscription_Model\<close>, \<open>Credit_Ledger\<close>, \<open>Enforcement\<close> (\<open>services/commercial-policy\<close>): plans, booking credits, and the
    rollout that makes a confirmation depend on them; \<open>Credit_Invariant\<close>, \<open>Enforcement_Invariant\<close>, \<open>Credit_Balance\<close>.
  \<^item> \<open>Checkout_Model\<close> (\<open>apps/api/src/checkout/checkout.service.ts\<close>): the \<open>platform\<close> is the four schemas above side by side.
    \<open>Checkout_Steps\<close>, \<open>Checkout_Invariant\<close>, \<open>Checkout_Transactions\<close>: no booking is confirmed whose order is not settled.
  \<^item> \<open>Outcome_Decision\<close>, \<open>Outcome_Orchestrator\<close> (\<open>apps/api/src/outcome\<close>, \<open>services/commerce/src/outcome-decision\<close>): what a
    cancellation or a no-show costs, its execution, and the customer's remedy. \<open>Outcome_Invariant\<close>, \<open>Outcome_Steps\<close>,
    \<open>Platform_Steps\<close> and \<open>Platform_History\<close> carry one invariant through every history of the platform; \<open>Outcome_Decided\<close> and
    \<open>Outcome_Redelivery\<close> say what is decided and what a second delivery does.
  \<^item> \<open>Outbox_Model\<close>, \<open>Outbox_Invariant\<close>, \<open>Outbox_Steps\<close> (\<open>libs/events\<close>): the events of a transaction and the relay that
    delivers them, generic in the handlers. An id is drawn before its transaction commits, so rows may become visible out of order.
  \<^item> \<open>Financial_Ledger\<close>, \<open>Ledger_Reversal\<close>, \<open>Fund_Journal\<close>, \<open>Fund_Invariant\<close>, \<open>Settlement\<close>, \<open>Settlement_Steps\<close>
    (\<open>services/financial\<close> and \<open>apps/api/src/events/financial-projection.handlers.ts\<close>): the double-entry journal of collected
    money, the legacy commission ledger, and settlements.
  \<^item> \<open>Loyalty_Model\<close>, \<open>Membership_Model\<close>, \<open>Loyalty_Invariant\<close> (\<open>services/loyalty\<close> and
    \<open>apps/api/src/events/loyalty-journey.handlers.ts\<close>): points, tiers, benefits and memberships; awards may race, and
    \<open>concurrent_awards_miss_crossing\<close> shows what then goes unannounced.
  \<^item> The \<open>_Demo\<close> theories run the operations on concrete states; the witnesses of the \<open>_Properties\<close> theories apply each
    property there, so that no hypothesis is empty.

  \<^bold>\<open>How the parts interact.\<close>
  \<open>checkout\<close> opens a booking and an order in one transaction and an intent after it; \<open>handleCallback\<close> verifies with the gateway,
  captures the order, asks the credit enforcement and confirms the booking in one transaction, and asks for the refund of what it
  could not use. A cancellation or a due no-show window is decided by the evaluator on the terms the order recorded, and the
  decision is executed as a refund of the payment service. Facts leave a transaction as outbox rows; the handlers of the
  financial, outcome and loyalty services may see them late, twice or in another order, and the properties say what then holds.

  \<^bold>\<open>What the lemmas show.\<close>
  Invariants of every reachable state (bookings, orders, payments, credits, the platform, the fund journal); what each
  operation does on every branch; that a second call, a replay or a redelivery changes nothing, or what it changes where the code
  lets it; progress (a decision is always made, a pending event is published after enough passes); and equality of optimised or
  scattered code with a table (evaluator, entitlement). Where the code departs from what it or its comments promise, a
  property proves the behaviour the code has.

  \<^bold>\<open>Bounds.\<close>
  No definition uses fuel: recursion is structural or over rows that were read. A pass of the relay handles the rows that were
  pending when it began. The search for a forbidden key stops at the depth the code names. Doubles are exact up to \<open>2^53\<close>, and
  theorems on amounts name that bound where they need it.

  \<^bold>\<open>Not modelled.\<close>
  The WordPress tree of the second version (\<open>app\<close>, \<open>wordpress\<close>, \<open>bin\<close>, \<open>shared\<close>: PHP) and the web client (\<open>apps/web\<close>). Controllers,
  request schemas, modules and configuration (glue of the framework). Metrics, log and audit lines, Persian display texts. The
  services around the core: identity, provider and business administration, search, chat, the assistant, notifications,
  analytics, media, privacy, referral, waitlist, wishlist and journey. Of the commercial policies, the editorial workflow of
  the catalogue, of outcome, collection and commission policies and of settlement schedules: the published versions they result in are
  parameters here. Isolation below READ COMMITTED, crashes of the database and two writers of a row inside one statement are PostgreSQL's.
\<close>

end
